(* ===== verification/Prelude.thy ===== *)
theory Prelude
  imports Main "HOL-Library.Char_ord" "HOL-Library.List_Lexorder" "HOL-Library.Product_Lexorder"
    "HOL-Library.Option_ord"
begin

text \<open>
  Shared vocabulary of the development: exceptions as values, Python's list and ordering
  idioms (\<open>max\<close> with a key, \<open>sorted(set(...))\<close>, grouping in a dict, every unordered pair),
  restriction of append-only rows to a recorded-time horizon, and the regular-expression
  idiom \<open>^...$\<close>. Strings, tuples and \<open>None\<close> are compared as Python compares them
  (code points, lexicographically; the code only ever compares an optional value after
  mapping \<open>None\<close> to something smaller).
\<close>

named_theorems model_simps \<open>unfolding equations of the model's small definitions\<close>

section \<open>Exceptions as values\<close>

text \<open>
  One constructor per exception class the modelled code raises. Messages are not modelled;
  \<open>Refused\<close> carries its stable reason code, as \<open>financial_asof/errors.py\<close> does.
\<close>

datatype exc =
    Inexact
  | Overflow
  | ValueErr
  | TypeErr
  | KeyErr
  | RuntimeErr
  | ValidationInputError
  | InputError
  | IdentityError
  | ConfigurationError
  | ReconciliationInputError
  | EvidenceError
  | Refused string
  | ScheduleError
  | IllegalTransition
  | ItemRejected

type_synonym 'a res = "exc + 'a"

definition bindR :: "'a res \<Rightarrow> ('a \<Rightarrow> 'b res) \<Rightarrow> 'b res" where
  "bindR m f = (case m of Inl e \<Rightarrow> Inl e | Inr x \<Rightarrow> f x)"

lemma bindR_simps [simp]: "bindR (Inl e) f = Inl e" "bindR (Inr x) f = f x"
  by (simp_all add: bindR_def)

lemma bindR_eq_Inr: "bindR m f = Inr y \<longleftrightarrow> (\<exists>x. m = Inr x \<and> f x = Inr y)"
  by (cases m) auto

lemma bindR_eq_Inl: "bindR m f = Inl e \<longleftrightarrow> m = Inl e \<or> (\<exists>x. m = Inr x \<and> f x = Inl e)"
  by (cases m) auto

text \<open>A check that raises, then the rest of the function.\<close>

definition guardR :: "bool \<Rightarrow> exc \<Rightarrow> 'a res \<Rightarrow> 'a res" where
  "guardR bad e k = (if bad then Inl e else k)"

lemma guardR_eq_Inr: "guardR bad e k = Inr y \<longleftrightarrow> \<not> bad \<and> k = Inr y"
  by (simp add: guardR_def)

text \<open>A comprehension whose body may raise: the first exception ends it.\<close>

fun mapR :: "('a \<Rightarrow> 'b res) \<Rightarrow> 'a list \<Rightarrow> 'b list res" where
  "mapR f [] = Inr []"
| "mapR f (x # xs) = bindR (f x) (\<lambda>y. bindR (mapR f xs) (\<lambda>ys. Inr (y # ys)))"

lemma mapR_eq_Inr:
  "mapR f xs = Inr ys \<longleftrightarrow> list_all2 (\<lambda>x y. f x = Inr y) xs ys"
  by (induction xs arbitrary: ys) (auto simp: bindR_eq_Inr list_all2_Cons1)

lemma mapR_Inr_set:
  assumes "mapR f xs = Inr ys"
  shows "y \<in> set ys \<longleftrightarrow> (\<exists>x \<in> set xs. f x = Inr y)"
  using assms by (induction xs arbitrary: ys) (auto simp: bindR_eq_Inr)

lemma mapR_ex:
  assumes "mapR f xs = Inr ys" and "\<And>x. x \<in> set xs \<Longrightarrow> \<exists>y. f x = Inr y \<and> (P y \<longleftrightarrow> Q x)"
  shows "(\<exists>y \<in> set ys. P y) \<longleftrightarrow> (\<exists>x \<in> set xs. Q x)"
  using assms by (induction xs arbitrary: ys) (auto simp: bindR_eq_Inr, force+)

lemma mapR_all: "(\<forall>x \<in> set xs. f x = Inr (g x)) \<Longrightarrow> mapR f xs = Inr (map g xs)"
  by (induction xs) auto

lemma mapR_total:
  assumes "\<And>x. x \<in> set xs \<Longrightarrow> \<exists>y. f x = Inr y"
  shows "\<exists>ys. mapR f xs = Inr ys"
  using assms by (induction xs) (force simp: bindR_eq_Inr)+

lemma mapR_map:
  "mapR f xs = Inr ys \<Longrightarrow> (\<And>x y. x \<in> set xs \<Longrightarrow> f x = Inr y \<Longrightarrow> g y = h x) \<Longrightarrow> map g ys = map h xs"
  by (induction xs arbitrary: ys) (auto simp: bindR_eq_Inr)

lemma mapR_each: "mapR f xs = Inr ys \<Longrightarrow> x \<in> set xs \<Longrightarrow> \<exists>y \<in> set ys. f x = Inr y"
  by (induction xs arbitrary: ys) (auto simp: bindR_eq_Inr)

lemma mapR_error:
  assumes "\<And>x e. f x = Inl e \<Longrightarrow> e = E" and "x \<in> set xs" and "f x = Inl e"
  shows "mapR f xs = Inl E"
  using assms(2)
proof (induction xs)
  case (Cons y ys)
  show ?case
  proof (cases "f y")
    case (Inl e')
    then show ?thesis using assms(1) [of y e'] by simp
  next
    case (Inr z)
    then have "x \<in> set ys" using Cons.prems assms(3) by auto
    with Inr Cons.IH show ?thesis by simp
  qed
qed simp

lemma mapR_permuted:
  assumes "\<And>x e. f x = Inl e \<Longrightarrow> e = E" and "set xs = set ys"
  shows "(\<exists>e. mapR f xs = Inl e) \<Longrightarrow> mapR f xs = Inl E \<and> mapR f ys = Inl E"
proof -
  assume "\<exists>e. mapR f xs = Inl e"
  then have "\<not> (\<forall>x \<in> set xs. \<exists>y. f x = Inr y)" using mapR_total [of xs f] by force
  then obtain x e where "x \<in> set xs" "f x = Inl e" by (meson sum.exhaust)
  then show ?thesis using mapR_error [of f E x xs e] mapR_error [of f E x ys e] assms by blast
qed

lemma mapR_cong: "(\<And>x. x \<in> set xs \<Longrightarrow> f x = g x) \<Longrightarrow> mapR f xs = mapR g xs"
  by (induction xs) auto

text \<open>A call that returned, with a property of what it returned.\<close>

definition on_ok :: "('a \<Rightarrow> bool) \<Rightarrow> 'a res \<Rightarrow> bool" where
  "on_ok P m = (case m of Inl e \<Rightarrow> False | Inr x \<Rightarrow> P x)"

lemma on_ok_iff: "on_ok P m \<longleftrightarrow> (\<exists>x. m = Inr x \<and> P x)"
  by (auto simp: on_ok_def split: sum.splits)

lemmas res_simps = bindR_eq_Inr bindR_eq_Inl guardR_eq_Inr

section \<open>Sorting and grouping\<close>

text \<open>\<open>sorted(set(xs))\<close>.\<close>

definition sorted_set :: "'a::linorder list \<Rightarrow> 'a list" where
  "sorted_set xs = sort (remdups xs)"

lemma set_sorted_set [simp]: "set (sorted_set xs) = set xs"
  by (simp add: sorted_set_def)

lemma distinct_sorted_set [simp]: "distinct (sorted_set xs)"
  by (simp add: sorted_set_def)

lemma sorted_sorted_set [simp]: "sorted (sorted_set xs)"
  by (simp add: sorted_set_def)

lemma sorted_set_eq_iff: "sorted_set xs = sorted_set ys \<longleftrightarrow> set xs = set ys"
proof
  assume "set xs = set ys"
  then show "sorted_set xs = sorted_set ys"
    by (intro sorted_distinct_set_unique) simp_all
qed (metis set_sorted_set)

lemma sorted_set_Nil [simp]: "sorted_set [] = []"
  by (simp add: sorted_set_def)

lemma sorted_set_eq_Nil [simp]: "sorted_set xs = [] \<longleftrightarrow> xs = []"
  by (metis set_empty set_sorted_set)

lemma length_sorted_set: "length (sorted_set xs) = card (set xs)"
  by (metis distinct_card distinct_sorted_set set_sorted_set)

text \<open>
  A dict from key to the list of rows with that key, iterated in sorted key order. Each
  group keeps the order in which the rows arrived.
\<close>

definition group_on :: "('a \<Rightarrow> 'k::linorder) \<Rightarrow> 'a list \<Rightarrow> ('k \<times> 'a list) list" where
  "group_on f xs = map (\<lambda>k. (k, filter (\<lambda>x. f x = k) xs)) (sorted_set (map f xs))"

lemma group_on_mem:
  "(k, g) \<in> set (group_on f xs) \<longleftrightarrow> k \<in> f ` set xs \<and> g = filter (\<lambda>x. f x = k) xs"
  by (auto simp: group_on_def)

lemma group_on_nonempty: "(k, g) \<in> set (group_on f xs) \<Longrightarrow> g \<noteq> []"
  by (auto simp: group_on_mem filter_empty_conv)

lemma group_on_keys: "map fst (group_on f xs) = sorted_set (map f xs)"
  by (simp add: group_on_def comp_def)

lemma distinct_group_on_keys: "distinct (map fst (group_on f xs))"
  by (simp add: group_on_keys)

text \<open>Sorting by a key that identifies the row does not see the order of arrival.\<close>

lemma sort_key_arrival:
  assumes "set xs = set ys" and "distinct xs" and "distinct ys" and "inj_on f (set xs)"
  shows "sort_key f xs = sort_key f ys"
proof -
  have "distinct (map f (sort_key f xs))" "distinct (map f (sort_key f ys))"
    using assms by (auto simp: distinct_map)
  moreover have "set (map f (sort_key f xs)) = set (map f (sort_key f ys))"
    using assms(1) by simp
  ultimately have "map f (sort_key f xs) = map f (sort_key f ys)"
    by (intro sorted_distinct_set_unique) simp_all
  moreover have "inj_on f (set (sort_key f xs) \<union> set (sort_key f ys))"
    using assms(1,4) by simp
  ultimately show ?thesis
    by (rule map_inj_on)
qed

lemma distinct_map_sorted: "distinct (map f (sort_key g xs)) \<longleftrightarrow> distinct (map f xs)"
  unfolding distinct_map by simp

section \<open>First maximum and first minimum by a key\<close>

text \<open>\<open>max(xs, key=f)\<close> and \<open>min(xs, key=f)\<close>: the first element with the extreme key; empty gives None.\<close>

fun max_on :: "('a \<Rightarrow> 'k::linorder) \<Rightarrow> 'a list \<Rightarrow> 'a option" where
  "max_on f [] = None"
| "max_on f (x # xs) = (case max_on f xs of None \<Rightarrow> Some x | Some y \<Rightarrow> Some (if f x < f y then y else x))"

fun min_on :: "('a \<Rightarrow> 'k::linorder) \<Rightarrow> 'a list \<Rightarrow> 'a option" where
  "min_on f [] = None"
| "min_on f (x # xs) = (case min_on f xs of None \<Rightarrow> Some x | Some y \<Rightarrow> Some (if f y < f x then y else x))"

lemma max_on_None [simp]: "max_on f xs = None \<longleftrightarrow> xs = []"
  by (cases xs) (auto split: option.splits)

lemma min_on_None [simp]: "min_on f xs = None \<longleftrightarrow> xs = []"
  by (cases xs) (auto split: option.splits)

lemma max_on_Some: "max_on f xs = Some m \<Longrightarrow> m \<in> set xs \<and> (\<forall>x \<in> set xs. f x \<le> f m)"
proof (induction xs arbitrary: m)
  case (Cons x xs)
  then show ?case
    by (cases "max_on f xs") (fastforce split: if_splits)+
qed simp

lemma min_on_Some: "min_on f xs = Some m \<Longrightarrow> m \<in> set xs \<and> (\<forall>x \<in> set xs. f m \<le> f x)"
proof (induction xs arbitrary: m)
  case (Cons x xs)
  then show ?case
    by (cases "min_on f xs") (fastforce split: if_splits)+
qed simp

lemma max_on_ex: "xs \<noteq> [] \<Longrightarrow> \<exists>m. max_on f xs = Some m"
  by (metis max_on_None option.exhaust)

lemma min_on_ex: "xs \<noteq> [] \<Longrightarrow> \<exists>m. min_on f xs = Some m"
  by (metis min_on_None option.exhaust)

lemma max_on_unique:
  assumes "m \<in> set xs" and "\<And>x. x \<in> set xs \<Longrightarrow> x \<noteq> m \<Longrightarrow> f x < f m"
  shows "max_on f xs = Some m"
proof -
  from assms(1) have "xs \<noteq> []" by auto
  then obtain k where k: "max_on f xs = Some k"
    using max_on_ex by blast
  then have "k \<in> set xs" "f m \<le> f k"
    using max_on_Some [OF k] assms(1) by auto
  then have "k = m"
    using assms(2) by force
  with k show ?thesis by simp
qed

lemma max_on_set_cong:
  assumes "set xs = set ys" and "inj_on f (set xs)"
  shows "max_on f xs = max_on f ys"
proof (cases "ys = []")
  case True
  then show ?thesis using assms(1) by simp
next
  case False
  then obtain m where m: "max_on f ys = Some m"
    using max_on_ex by blast
  have mem: "m \<in> set xs"
    using max_on_Some [OF m] assms(1) by auto
  have less: "f x < f m" if "x \<in> set xs" and "x \<noteq> m" for x
  proof -
    have "f x \<le> f m"
      using max_on_Some [OF m] that(1) assms(1) by auto
    moreover have "f x \<noteq> f m"
      using assms(2) that mem by (auto dest: inj_onD)
    ultimately show ?thesis by simp
  qed
  have "max_on f xs = Some m"
    using mem less by (rule max_on_unique)
  with m show ?thesis by simp
qed

text \<open>\<open>max\<close> and \<open>min\<close> of plain values: the key is the identity.\<close>

lemma max_list_Some: "max_on id xs = Some m \<longleftrightarrow> m \<in> set xs \<and> (\<forall>x \<in> set xs. x \<le> m)"
proof
  assume *: "m \<in> set xs \<and> (\<forall>x \<in> set xs. x \<le> m)"
  show "max_on id xs = Some m"
    by (rule max_on_unique) (use * in \<open>auto simp: order.order_iff_strict\<close>)
qed (auto dest: max_on_Some)

lemma min_list_Some: "min_on id xs = Some m \<longleftrightarrow> m \<in> set xs \<and> (\<forall>x \<in> set xs. m \<le> x)"
proof
  assume *: "m \<in> set xs \<and> (\<forall>x \<in> set xs. m \<le> x)"
  then have "xs \<noteq> []" by auto
  then obtain k where k: "min_on id xs = Some k"
    using min_on_ex by blast
  then have "k \<in> set xs" "\<forall>x \<in> set xs. k \<le> x"
    using min_on_Some [OF k] by auto
  then have "k = m" using * by (auto intro: antisym)
  with k show "min_on id xs = Some m" by simp
qed (auto dest: min_on_Some)

lemma min_list_set_cong:
  assumes "set xs = set ys"
  shows "min_on id xs = min_on id ys"
proof (cases "min_on id ys")
  case None
  with assms show ?thesis by simp
next
  case (Some m)
  then have "min_on id xs = Some m" using assms by (simp add: min_list_Some)
  with Some show ?thesis by simp
qed

lemma max_list_set_cong: "set xs = set ys \<Longrightarrow> max_on id xs = max_on id ys"
  by (rule max_on_set_cong) simp_all

section \<open>Unordered pairs\<close>

text \<open>\<open>for i, a in enumerate(xs): for b in xs[i + 1:]\<close>.\<close>

fun later_pairs :: "'a list \<Rightarrow> ('a \<times> 'a) list" where
  "later_pairs [] = []"
| "later_pairs (x # xs) = map (Pair x) xs @ later_pairs xs"

lemma later_pairs_mem: "(a, b) \<in> set (later_pairs xs) \<Longrightarrow> a \<in> set xs \<and> b \<in> set xs"
  by (induction xs) auto

lemma later_pairs_cover:
  "a \<in> set xs \<Longrightarrow> b \<in> set xs \<Longrightarrow> a = b \<or> (a, b) \<in> set (later_pairs xs) \<or> (b, a) \<in> set (later_pairs xs)"
  by (induction xs) auto

lemma later_pairs_pairwise:
  assumes "\<And>a b. R a b \<Longrightarrow> R b a" and "\<And>a. a \<in> set xs \<Longrightarrow> R a a"
  shows "(\<forall>(a, b) \<in> set (later_pairs xs). R a b) \<longleftrightarrow> (\<forall>a \<in> set xs. \<forall>b \<in> set xs. R a b)"
    (is "?l \<longleftrightarrow> ?r")
proof
  assume l: ?l
  show ?r
  proof (intro ballI)
    fix a b assume ab: "a \<in> set xs" "b \<in> set xs"
    from later_pairs_cover [OF this] consider "a = b" | "(a, b) \<in> set (later_pairs xs)"
      | "(b, a) \<in> set (later_pairs xs)" by blast
    then show "R a b"
      using l ab assms by cases auto
  qed
qed (auto dest: later_pairs_mem)

lemma later_pairs_ex:
  assumes "\<And>a b. R a b \<Longrightarrow> R b a" and "\<And>a. \<not> R a a"
  shows "list_ex (\<lambda>(a, b). R a b) (later_pairs xs) \<longleftrightarrow> (\<exists>a \<in> set xs. \<exists>b \<in> set xs. R a b)"
proof -
  have "(\<forall>(a, b) \<in> set (later_pairs xs). \<not> R a b) \<longleftrightarrow> (\<forall>a \<in> set xs. \<forall>b \<in> set xs. \<not> R a b)"
    by (rule later_pairs_pairwise) (use assms in blast)+
  then show ?thesis unfolding list_ex_iff split_beta by blast
qed

section \<open>Horizons over append-only rows\<close>

text \<open>
  The rows recorded at or before a horizon. A rule that reads only these rows cannot see
  what was recorded later, however much later evidence the caller supplies.
\<close>

definition known_by :: "('r \<Rightarrow> 't::linorder) \<Rightarrow> 't \<Rightarrow> 'r list \<Rightarrow> 'r list" where
  "known_by at h rows = filter (\<lambda>r. at r \<le> h) rows"

lemma set_known_by [simp]: "set (known_by at h rows) = {r \<in> set rows. at r \<le> h}"
  by (auto simp: known_by_def)

lemma known_by_nested [simp]: "h \<le> k \<Longrightarrow> known_by at h (known_by at k rows) = known_by at h rows"
  by (auto simp: known_by_def intro: filter_cong)

lemma known_by_mono: "h \<le> k \<Longrightarrow> set (known_by at h rows) \<subseteq> set (known_by at k rows)"
  by auto

section \<open>Dicts and regular expressions\<close>

definition none_first :: "string option list \<Rightarrow> (bool \<times> string) list" where
  "none_first vs = map (\<lambda>v. (v \<noteq> None, case v of None \<Rightarrow> [] | Some s \<Rightarrow> s)) vs"

text \<open>
  Python's \<open>re.match(r"^p$", s)\<close>: the dollar also matches just before one final newline,
  so the pattern accepts \<open>s\<close> itself and \<open>s\<close> without one trailing newline.
\<close>

definition match_line :: "(string \<Rightarrow> bool) \<Rightarrow> string \<Rightarrow> bool" where
  "match_line p s \<longleftrightarrow> p s \<or> (s \<noteq> [] \<and> last s = CHR 0x0A \<and> p (butlast s))"

definition is_lower_hex :: "char \<Rightarrow> bool" where
  "is_lower_hex c \<longleftrightarrow> (CHR ''0'' \<le> c \<and> c \<le> CHR ''9'') \<or> (CHR ''a'' \<le> c \<and> c \<le> CHR ''f'')"

definition is_upper_letter :: "char \<Rightarrow> bool" where
  "is_upper_letter c \<longleftrightarrow> CHR ''A'' \<le> c \<and> c \<le> CHR ''Z''"

definition hex64 :: "string \<Rightarrow> bool" where
  "hex64 s \<longleftrightarrow> match_line (\<lambda>t. length t = 64 \<and> list_all is_lower_hex t) s"

definition currency_code :: "string \<Rightarrow> bool" where
  "currency_code s \<longleftrightarrow> match_line (\<lambda>t. length t = 3 \<and> list_all is_upper_letter t) s"

text \<open>\<open>s.strip()\<close> on text of code points below 256.\<close>

definition is_space :: "char \<Rightarrow> bool" where
  "is_space c \<longleftrightarrow> c \<in> {CHR '' '', CHR 0x09, CHR 0x0A, CHR 0x0B, CHR 0x0C, CHR 0x0D, CHR 0x1C, CHR 0x1D, CHR 0x1E, CHR 0x1F, CHR 0x85, CHR 0xA0}"

definition strip :: "string \<Rightarrow> string" where
  "strip s = rev (dropWhile is_space (rev (dropWhile is_space s)))"

lemma strip_Nil [simp]: "strip [] = []"
  by (simp add: strip_def)

lemma strip_last: "strip s \<noteq> [] \<Longrightarrow> \<not> is_space (last (strip s))"
  by (simp add: strip_def last_rev hd_dropWhile)

lemma currency_code_strip:
  "currency_code (strip s) \<Longrightarrow> length (strip s) = 3 \<and> list_all is_upper_letter (strip s)"
  using strip_last [of s] by (auto simp: currency_code_def match_line_def is_space_def)

end
