(* ===== verification/Concepts.thy ===== *)
theory Concepts
  imports Prelude
begin

text \<open>
  The concept vocabulary of \<open>financial_concepts.py\<close>: the table CONCEPTS in its order, the
  index BY_KEY and the active concepts. The label rules (regular expressions over row labels)
  are not modelled; every consumer here reads the table only.
\<close>

record concept =
  co_key :: string
  co_family :: string
  co_period_kind :: string
  co_value_type :: string
  co_natural_sign :: string
  co_industries :: string
  co_attribution :: string
  co_status :: string
  co_instant_from_duration_column_end :: bool

definition mk_concept ::
  "string \<Rightarrow> string \<Rightarrow> string \<Rightarrow> string \<Rightarrow> string \<Rightarrow> string \<Rightarrow> string \<Rightarrow> string \<Rightarrow> bool \<Rightarrow> concept" where
  "mk_concept key family pkind industries sign vtype attribution status from_end =
     \<lparr>co_key = key, co_family = family, co_period_kind = pkind, co_value_type = vtype,
      co_natural_sign = sign, co_industries = industries, co_attribution = attribution,
      co_status = status, co_instant_from_duration_column_end = from_end\<rparr>"

definition family_kinds :: "string \<Rightarrow> string list" where
  "family_kinds f =
     (if f = ''income'' then [''profit_or_loss'', ''comprehensive_income'']
      else if f = ''position'' then [''financial_position''] else [''cash_flows''])"

definition concepts :: "concept list" where
  "concepts = [
   mk_concept ''revenue'' ''income'' ''duration'' ''general'' ''income'' ''currency_amount'' ''not_applicable'' ''active'' False,
   mk_concept ''cost_of_sales'' ''income'' ''duration'' ''general'' ''expense'' ''currency_amount'' ''not_applicable'' ''active'' False,
   mk_concept ''gross_profit'' ''income'' ''duration'' ''general'' ''income'' ''currency_amount'' ''not_applicable'' ''active'' False,
   mk_concept ''operating_profit'' ''income'' ''duration'' ''general'' ''income'' ''currency_amount'' ''not_applicable'' ''active'' False,
   mk_concept ''finance_costs'' ''income'' ''duration'' ''general'' ''expense'' ''currency_amount'' ''not_applicable'' ''active'' False,
   mk_concept ''profit_before_tax'' ''income'' ''duration'' ''all'' ''income'' ''currency_amount'' ''not_applicable'' ''active'' False,
   mk_concept ''income_tax_expense'' ''income'' ''duration'' ''all'' ''expense'' ''currency_amount'' ''not_applicable'' ''active'' False,
   mk_concept ''profit_for_period'' ''income'' ''duration'' ''all'' ''income'' ''currency_amount'' ''not_applicable'' ''active'' False,
   mk_concept ''profit_attributable_to_owners'' ''income'' ''duration'' ''all'' ''income'' ''currency_amount'' ''owners'' ''active'' False,
   mk_concept ''profit_attributable_to_nci'' ''income'' ''duration'' ''all'' ''income'' ''currency_amount'' ''nci'' ''active'' False,
   mk_concept ''eps_basic'' ''income'' ''duration'' ''all'' ''income'' ''per_share_amount'' ''not_applicable'' ''active'' False,
   mk_concept ''eps_diluted'' ''income'' ''duration'' ''all'' ''income'' ''per_share_amount'' ''not_applicable'' ''active'' False,
   mk_concept ''interest_income'' ''income'' ''duration'' ''bank_finance'' ''income'' ''currency_amount'' ''not_applicable'' ''active'' False,
   mk_concept ''interest_expense'' ''income'' ''duration'' ''bank_finance'' ''expense'' ''currency_amount'' ''not_applicable'' ''active'' False,
   mk_concept ''net_interest_income'' ''income'' ''duration'' ''bank_finance'' ''income'' ''currency_amount'' ''not_applicable'' ''active'' False,
   mk_concept ''net_fee_and_commission_income'' ''income'' ''duration'' ''bank_finance'' ''income'' ''currency_amount'' ''not_applicable'' ''active'' False,
   mk_concept ''total_operating_income'' ''income'' ''duration'' ''bank_finance'' ''income'' ''currency_amount'' ''not_applicable'' ''active'' False,
   mk_concept ''impairment_charges'' ''income'' ''duration'' ''bank_finance'' ''expense'' ''currency_amount'' ''not_applicable'' ''active'' False,
   mk_concept ''gross_income'' ''income'' ''duration'' ''bank_finance'' ''income'' ''currency_amount'' ''not_applicable'' ''active'' False,
   mk_concept ''operating_profit_before_taxes_on_financial_services'' ''income'' ''duration'' ''bank_finance'' ''income'' ''currency_amount'' ''not_applicable'' ''active'' False,
   mk_concept ''total_assets'' ''position'' ''instant'' ''all'' ''balance'' ''currency_amount'' ''not_applicable'' ''active'' False,
   mk_concept ''total_liabilities'' ''position'' ''instant'' ''all'' ''balance'' ''currency_amount'' ''not_applicable'' ''active'' False,
   mk_concept ''total_equity'' ''position'' ''instant'' ''all'' ''balance'' ''currency_amount'' ''not_applicable'' ''active'' False,
   mk_concept ''equity_attributable_to_owners'' ''position'' ''instant'' ''all'' ''balance'' ''currency_amount'' ''owners'' ''active'' False,
   mk_concept ''cash_and_cash_equivalents'' ''position'' ''instant'' ''all'' ''balance'' ''currency_amount'' ''not_applicable'' ''active'' False,
   mk_concept ''trade_and_other_receivables'' ''position'' ''instant'' ''general'' ''balance'' ''currency_amount'' ''not_applicable'' ''active'' False,
   mk_concept ''inventories'' ''position'' ''instant'' ''general'' ''balance'' ''currency_amount'' ''not_applicable'' ''active'' False,
   mk_concept ''interest_bearing_borrowings'' ''position'' ''instant'' ''general'' ''balance'' ''currency_amount'' ''not_applicable'' ''active'' False,
   mk_concept ''loans_and_advances_to_customers'' ''position'' ''instant'' ''bank_finance'' ''balance'' ''currency_amount'' ''not_applicable'' ''active'' False,
   mk_concept ''customer_deposits'' ''position'' ''instant'' ''bank_finance'' ''balance'' ''currency_amount'' ''not_applicable'' ''active'' False,
   mk_concept ''net_cash_from_operating_activities'' ''cash_flow'' ''duration'' ''all'' ''as_printed'' ''currency_amount'' ''not_applicable'' ''active'' False,
   mk_concept ''net_cash_from_investing_activities'' ''cash_flow'' ''duration'' ''all'' ''as_printed'' ''currency_amount'' ''not_applicable'' ''active'' False,
   mk_concept ''net_cash_from_financing_activities'' ''cash_flow'' ''duration'' ''all'' ''as_printed'' ''currency_amount'' ''not_applicable'' ''active'' False,
   mk_concept ''purchase_of_ppe'' ''cash_flow'' ''duration'' ''all'' ''outflow'' ''currency_amount'' ''not_applicable'' ''active'' False,
   mk_concept ''dividends_paid'' ''cash_flow'' ''duration'' ''all'' ''outflow'' ''currency_amount'' ''not_applicable'' ''active'' False,
   mk_concept ''cash_at_end_of_period'' ''cash_flow'' ''instant'' ''all'' ''balance'' ''currency_amount'' ''not_applicable'' ''active'' True,
   mk_concept ''insurance_revenue'' ''income'' ''duration'' ''insurance'' ''income'' ''currency_amount'' ''not_applicable'' ''reserved'' False,
   mk_concept ''gross_written_premiums'' ''income'' ''duration'' ''insurance'' ''income'' ''currency_amount'' ''not_applicable'' ''reserved'' False,
   mk_concept ''insurance_contract_liabilities'' ''position'' ''instant'' ''insurance'' ''balance'' ''currency_amount'' ''not_applicable'' ''reserved'' False]"

text \<open>BY_KEY: the keys are distinct, so the index is a lookup of the only row with that key.\<close>

definition by_key :: "string \<Rightarrow> concept option" where
  "by_key k = map_of (map (\<lambda>c. (co_key c, c)) concepts) k"

definition active_concepts :: "concept list" where
  "active_concepts = filter (\<lambda>c. co_status c = ''active'') concepts"

lemma distinct_concept_keys: "distinct (map co_key concepts)"
  by (simp add: concepts_def mk_concept_def)

lemma by_key_Some: "by_key k = Some c \<Longrightarrow> c \<in> set concepts \<and> co_key c = k"
  by (auto simp: by_key_def dest!: map_of_SomeD)

lemma by_key_mem: "by_key k = Some c \<longleftrightarrow> c \<in> set concepts \<and> co_key c = k"
proof
  assume "c \<in> set concepts \<and> co_key c = k"
  then show "by_key k = Some c"
    using distinct_concept_keys by (auto simp: by_key_def comp_def intro!: map_of_is_SomeI)
qed (rule by_key_Some)

text \<open>The shape of the table the validation rules rely on.\<close>

lemma concepts_shape:
  assumes "c \<in> set concepts"
  shows "co_period_kind c \<in> {''instant'', ''duration''}"
    and "co_value_type c \<in> {''currency_amount'', ''per_share_amount''}"
    and "co_family c = ''position'' \<longrightarrow> co_period_kind c = ''instant''"
    and "co_instant_from_duration_column_end c \<longrightarrow> co_period_kind c = ''instant''"
proof -
  have "list_all (\<lambda>c. co_period_kind c \<in> {''instant'', ''duration''} \<and>
      co_value_type c \<in> {''currency_amount'', ''per_share_amount''} \<and>
      (co_family c = ''position'' \<longrightarrow> co_period_kind c = ''instant'') \<and>
      (co_instant_from_duration_column_end c \<longrightarrow> co_period_kind c = ''instant'')) concepts"
    by (simp add: concepts_def mk_concept_def)
  with assms show "co_period_kind c \<in> {''instant'', ''duration''}"
    and "co_value_type c \<in> {''currency_amount'', ''per_share_amount''}"
    and "co_family c = ''position'' \<longrightarrow> co_period_kind c = ''instant''"
    and "co_instant_from_duration_column_end c \<longrightarrow> co_period_kind c = ''instant''"
    by (auto simp: list_all_iff)
qed

end
