(* ===== verification/Calendar.thy ===== *)
theory Calendar
  imports Prelude
begin

text \<open>
  Dates and instants. A \<open>date\<close> is Python's \<open>datetime.date\<close> (year 1 to 9999), ordered
  lexicographically; an instant is an aware datetime in UTC, in microseconds since the Unix
  epoch. Asia/Colombo is the fixed offset UTC+05:30 that
  \<open>financial_truth/inputs.py\<close> (COLOMBO), \<open>market_capture/config.py\<close> and
  \<open>financial_asof/times.py\<close> share.
\<close>

section \<open>Calendar dates\<close>

datatype date = Date (year: int) (month: int) (day: int)

instantiation date :: linorder
begin

definition less_eq_date :: "date \<Rightarrow> date \<Rightarrow> bool" where
  "less_eq_date a b \<longleftrightarrow> (year a, month a, day a) \<le> (year b, month b, day b)"

definition less_date :: "date \<Rightarrow> date \<Rightarrow> bool" where
  "less_date a b \<longleftrightarrow> (year a, month a, day a) < (year b, month b, day b)"

instance
proof
  fix x y z :: date
  show "x < y \<longleftrightarrow> x \<le> y \<and> \<not> y \<le> x"
    unfolding less_eq_date_def less_date_def by (rule less_le_not_le)
  show "x \<le> x"
    by (simp add: less_eq_date_def)
  show "x \<le> y \<Longrightarrow> y \<le> z \<Longrightarrow> x \<le> z"
    unfolding less_eq_date_def by (rule order_trans)
  show "x \<le> y \<Longrightarrow> y \<le> x \<Longrightarrow> x = y"
    unfolding less_eq_date_def by (cases x, cases y) (auto dest!: antisym)
  show "x \<le> y \<or> y \<le> x"
    unfolding less_eq_date_def by (rule linear)
qed

end

definition leap_year :: "int \<Rightarrow> bool" where
  "leap_year y \<longleftrightarrow> y mod 4 = 0 \<and> (y mod 100 \<noteq> 0 \<or> y mod 400 = 0)"

text \<open>\<open>calendar.monthrange(y, m)[1]\<close>.\<close>

definition days_in_month :: "int \<Rightarrow> int \<Rightarrow> int" where
  "days_in_month y m =
     (if m = 2 then (if leap_year y then 29 else 28)
      else if m \<in> {4, 6, 9, 11} then 30 else 31)"

definition valid_date :: "date \<Rightarrow> bool" where
  "valid_date d \<longleftrightarrow> 1 \<le> year d \<and> year d \<le> 9999 \<and> 1 \<le> month d \<and> month d \<le> 12 \<and>
     1 \<le> day d \<and> day d \<le> days_in_month (year d) (month d)"

lemma days_in_month_bounds: "28 \<le> days_in_month y m \<and> days_in_month y m \<le> 31"
  by (auto simp: days_in_month_def)

text \<open>The constructor \<open>date(y, m, d)\<close>: ValueError outside the calendar.\<close>

definition mk_date :: "int \<Rightarrow> int \<Rightarrow> int \<Rightarrow> date res" where
  "mk_date y m d = (if valid_date (Date y m d) then Inr (Date y m d) else Inl ValueErr)"

text \<open>\<open>d + timedelta(days=1)\<close>: OverflowError after 9999-12-31.\<close>

definition next_day :: "date \<Rightarrow> date res" where
  "next_day d =
     (if day d < days_in_month (year d) (month d) then Inr (Date (year d) (month d) (day d + 1))
      else if month d < 12 then Inr (Date (year d) (month d + 1) 1)
      else if year d < 9999 then Inr (Date (year d + 1) 1 1)
      else Inl Overflow)"

lemma next_day_valid: "valid_date d \<Longrightarrow> next_day d = Inr e \<Longrightarrow> valid_date e"
  using days_in_month_bounds [of "year d" "month d + 1"] days_in_month_bounds [of "year d + 1" 1]
  by (auto simp: next_day_def valid_date_def split: if_splits)

lemma next_day_greater: "next_day d = Inr e \<Longrightarrow> d < e"
  by (auto simp: next_day_def less_date_def split: if_splits)

text \<open>\<open>financial_validation._add_months\<close>: divmod on the zero-based month, the day clipped to the month.\<close>

definition add_months :: "date \<Rightarrow> int \<Rightarrow> date res" where
  "add_months d n =
     (let q = (month d - 1 + n) div 12; r = (month d - 1 + n) mod 12;
          y = year d + q; m = r + 1
      in mk_date y m (min (day d) (days_in_month y m)))"

lemma add_months_month:
  assumes "add_months d n = Inr e"
  shows "year e * 12 + month e = year d * 12 + month d + n"
    and "day e = min (day d) (days_in_month (year e) (month e))" and "valid_date e"
  using assms by (auto simp: add_months_def mk_date_def Let_def split: if_splits)

section \<open>Ordinals\<close>

text \<open>\<open>date.toordinal\<close> and \<open>date.fromordinal\<close>, as CPython's \<open>_ymd2ord\<close> and \<open>_ord2ymd\<close> compute them.\<close>

definition days_before_year :: "int \<Rightarrow> int" where
  "days_before_year y = (y - 1) * 365 + (y - 1) div 4 - (y - 1) div 100 + (y - 1) div 400"

definition days_before_month :: "int \<Rightarrow> int \<Rightarrow> int" where
  "days_before_month y m = sum_list (map (days_in_month y) [1..m - 1])"

definition toordinal :: "date \<Rightarrow> int" where
  "toordinal d = days_before_year (year d) + days_before_month (year d) (month d) + day d"

definition fromordinal :: "int \<Rightarrow> date" where
  "fromordinal ordinal =
     (let n = ordinal - 1;
          n400 = n div 146097; n = n mod 146097;
          n100 = n div 36524; n = n mod 36524;
          n4 = n div 1461; n = n mod 1461;
          n1 = n div 365; n = n mod 365;
          y = n400 * 400 + 1 + n100 * 100 + n4 * 4 + n1
      in if n1 = 4 \<or> n100 = 4 then Date (y - 1) 12 31
         else
           (let m = (n + 50) div 32;
                m = (if days_before_month y m > n then m - 1 else m)
            in Date y m (n - days_before_month y m + 1)))"

definition weekday :: "int \<Rightarrow> int" where
  "weekday ordinal = (ordinal + 6) mod 7"

section \<open>ISO text of a date\<close>

definition digit_char :: "nat \<Rightarrow> char" where
  "digit_char n = char_of (48 + n mod 10)"

fun show_nat :: "nat \<Rightarrow> string" where
  "show_nat n = (if n < 10 then [digit_char n] else show_nat (n div 10) @ [digit_char n])"

declare show_nat.simps [simp del]

lemma digit_char_mod: "digit_char (n mod 10) = digit_char n"
  by (simp only: digit_char_def mod_mod_trivial)

lemma show_nat_step:
  "show_nat (numeral k) = (if numeral k < (10 :: nat) then [digit_char (numeral k)]
     else show_nat (numeral k div 10) @ [digit_char (numeral k mod 10)])"
  "show_nat 0 = [digit_char 0]" "show_nat 1 = [digit_char 1]" "show_nat (Suc 0) = [digit_char 1]"
  unfolding digit_char_mod by (subst show_nat.simps, simp)+

definition show_int :: "int \<Rightarrow> string" where
  "show_int i = (if i < 0 then ''-'' @ show_nat (nat (- i)) else show_nat (nat i))"

fun zero_pad :: "nat \<Rightarrow> nat \<Rightarrow> string" where
  "zero_pad 0 n = []"
| "zero_pad (Suc w) n = zero_pad w (n div 10) @ [digit_char n]"

definition isoformat :: "date \<Rightarrow> string" where
  "isoformat d = zero_pad 4 (nat (year d)) @ ''-'' @ zero_pad 2 (nat (month d)) @ ''-'' @ zero_pad 2 (nat (day d))"

lemma length_zero_pad [simp]: "length (zero_pad w n) = w"
  by (induction w arbitrary: n) auto

lemma digit_char_eval [simp]:
  "digit_char 0 = CHR ''0''" "digit_char 1 = CHR ''1''" "digit_char 2 = CHR ''2''" "digit_char 3 = CHR ''3''"
  "digit_char 4 = CHR ''4''" "digit_char 5 = CHR ''5''" "digit_char 6 = CHR ''6''" "digit_char 7 = CHR ''7''"
  "digit_char 8 = CHR ''8''" "digit_char 9 = CHR ''9''"
  "digit_char (Suc 0) = CHR ''1''"
  by code_simp+

lemma digit_char_inject: "digit_char m = digit_char n \<longleftrightarrow> m mod 10 = n mod 10"
proof
  assume *: "digit_char m = digit_char n"
  have "of_char (digit_char k) = 48 + k mod 10" for k :: nat
    by (simp add: digit_char_def)
  with * show "m mod 10 = n mod 10" by (metis add_left_cancel)
qed (simp add: digit_char_def)

lemma zero_pad_inject: "m < 10 ^ w \<Longrightarrow> n < 10 ^ w \<Longrightarrow> zero_pad w m = zero_pad w n \<Longrightarrow> m = n"
proof (induction w arbitrary: m n)
  case (Suc w)
  then have "m div 10 = n div 10" and "m mod 10 = n mod 10"
    by (auto simp: digit_char_inject less_mult_imp_div_less mult.commute)
  then show ?case
    by (metis div_mult_mod_eq)
qed simp

lemma isoformat_inject:
  assumes "valid_date a" and "valid_date b" and "isoformat a = isoformat b"
  shows "a = b"
proof -
  have dim: "day a < 100" "day b < 100"
    using assms(1,2) days_in_month_bounds [of "year a" "month a"] days_in_month_bounds [of "year b" "month b"]
    by (auto simp: valid_date_def)
  have "zero_pad 4 (nat (year a)) = zero_pad 4 (nat (year b))"
    "zero_pad 2 (nat (month a)) = zero_pad 2 (nat (month b))"
    "zero_pad 2 (nat (day a)) = zero_pad 2 (nat (day b))"
    using assms(3) by (auto simp: isoformat_def)
  then have "nat (year a) = nat (year b)" "nat (month a) = nat (month b)" "nat (day a) = nat (day b)"
    using assms(1,2) dim by (auto simp: valid_date_def intro!: zero_pad_inject)
  then show ?thesis
    using assms(1,2) by (auto simp: valid_date_def intro: date.expand)
qed

section \<open>Instants and the Colombo day\<close>

type_synonym instant = int

definition colombo_offset :: int where
  "colombo_offset = 19800 * 1000000"

definition day_us :: int where
  "day_us = 86400 * 1000000"

text \<open>A Colombo calendar day, counted from 1970-01-01.\<close>

definition colombo_day :: "instant \<Rightarrow> int" where
  "colombo_day t = (t + colombo_offset) div day_us"

text \<open>00:00 Asia/Colombo at the start of a day, as a UTC instant.\<close>

definition colombo_midnight :: "int \<Rightarrow> instant" where
  "colombo_midnight d = d * day_us - colombo_offset"

definition epoch_ordinal :: int where
  "epoch_ordinal = 719163"

definition date_of_day :: "int \<Rightarrow> date" where
  "date_of_day d = fromordinal (d + epoch_ordinal)"

lemma day_us_pos [simp]: "0 < day_us"
  by (simp add: day_us_def)

lemma colombo_day_bounds: "colombo_midnight (colombo_day t) \<le> t" "t < colombo_midnight (colombo_day t + 1)"
proof -
  define q r where "q = (t + colombo_offset) div day_us" and "r = (t + colombo_offset) mod day_us"
  have "q * day_us + r = t + colombo_offset" and "0 \<le> r" "r < day_us"
    by (simp_all add: q_def r_def)
  then show "colombo_midnight (colombo_day t) \<le> t" "t < colombo_midnight (colombo_day t + 1)"
    unfolding colombo_midnight_def colombo_day_def q_def [symmetric] distrib_right by linarith+
qed

lemma colombo_day_mono: "s \<le> t \<Longrightarrow> colombo_day s \<le> colombo_day t"
  by (simp add: colombo_day_def zdiv_mono1)

lemma colombo_day_midnight [simp]: "colombo_day (colombo_midnight d) = d"
  by (simp add: colombo_day_def colombo_midnight_def day_us_def)

lemma colombo_midnight_mono: "d \<le> e \<Longrightarrow> colombo_midnight d \<le> colombo_midnight e"
  by (simp add: colombo_midnight_def mult_right_mono)

end
