(* ===== verification/Decimals.thy ===== *)
theory Decimals
  imports Complex_Main Prelude
begin

text \<open>
  Finite \<open>decimal.Decimal\<close> values and the exact arithmetic of \<open>financial_truth/arith.py\<close>
  and \<open>financial_validation.py\<close> (\<open>_mul\<close>, \<open>_add\<close>, \<open>_sub\<close>, \<open>_half\<close>): a local context of
  80 digits that traps \<open>Inexact\<close>. A value is a coefficient and a power of ten; the operations
  compute the exact result and raise when it needs more than 80 significant digits. NaN, the
  infinities and the sign of zero are not represented.
\<close>

datatype dec = Dec (coef: int) (expo: int)

definition dec_val :: "dec \<Rightarrow> rat" where
  "dec_val d = of_int (coef d) * 10 powi expo d"

text \<open>The coefficient at a common exponent \<open>e\<close> not above the value's own.\<close>

definition coef_at :: "int \<Rightarrow> dec \<Rightarrow> int" where
  "coef_at e d = coef d * 10 ^ nat (expo d - e)"

lemma dec_val_at: "e \<le> expo d \<Longrightarrow> dec_val d = of_int (coef_at e d) * 10 powi e"
  by (simp add: dec_val_def coef_at_def power_int_def [of _ "expo d - e"] flip: power_int_add)
     (metis (no_types, lifting) add.commute diff_add_cancel diff_ge_0_iff_ge mult.assoc power_int_add
       power_int_of_nat zero_neq_numeral nat_0_le)

section \<open>Comparisons\<close>

definition dec_le :: "dec \<Rightarrow> dec \<Rightarrow> bool" where
  "dec_le a b \<longleftrightarrow> (let e = min (expo a) (expo b) in coef_at e a \<le> coef_at e b)"

definition dec_lt :: "dec \<Rightarrow> dec \<Rightarrow> bool" where
  "dec_lt a b \<longleftrightarrow> (let e = min (expo a) (expo b) in coef_at e a < coef_at e b)"

definition dec_eq :: "dec \<Rightarrow> dec \<Rightarrow> bool" where
  "dec_eq a b \<longleftrightarrow> (let e = min (expo a) (expo b) in coef_at e a = coef_at e b)"

lemma powi10_pos: "0 < (10 :: rat) powi e"
  by (simp add: zero_less_power_int)

lemma dec_le_iff: "dec_le a b \<longleftrightarrow> dec_val a \<le> dec_val b"
  using mult_le_cancel_right_pos [OF powi10_pos [of "min (expo a) (expo b)"]]
  by (simp add: dec_le_def dec_val_at [of "min (expo a) (expo b)"] Let_def)

lemma dec_lt_iff: "dec_lt a b \<longleftrightarrow> dec_val a < dec_val b"
  using mult_less_cancel_right_pos [OF powi10_pos [of "min (expo a) (expo b)"]]
  by (simp add: dec_lt_def dec_val_at [of "min (expo a) (expo b)"] Let_def)

lemma dec_eq_iff: "dec_eq a b \<longleftrightarrow> dec_val a = dec_val b"
  using powi10_pos [of "min (expo a) (expo b)"]
  by (simp add: dec_eq_def dec_val_at [of "min (expo a) (expo b)"] Let_def)

lemmas dec_cmp = dec_le_iff dec_lt_iff dec_eq_iff

definition dec_zero :: dec where
  "dec_zero = Dec 0 0"

definition dec_of_int :: "int \<Rightarrow> dec" where
  "dec_of_int i = Dec i 0"

lemma dec_val_zero [simp]: "dec_val dec_zero = 0"
  by (simp add: dec_val_def dec_zero_def)

lemma dec_val_of_int [simp]: "dec_val (dec_of_int i) = of_int i"
  by (simp add: dec_val_def dec_of_int_def)

section \<open>Exact arithmetic in 80 digits\<close>

text \<open>The coefficient without its trailing zeros: its significant digits.\<close>

function significant :: "int \<Rightarrow> int" where
  "significant c = (if c \<noteq> 0 \<and> c mod 10 = 0 then significant (c div 10) else c)"
  by pat_completeness auto
termination
  by (relation "measure (\<lambda>c. nat \<bar>c\<bar>)") auto

declare significant.simps [simp del]

lemma significant_step: "c \<noteq> 0 \<and> c mod 10 = 0 \<Longrightarrow> significant c = significant (c div 10)"
  by (simp add: significant.simps [of c])

lemma significant_stop: "\<not> (c \<noteq> 0 \<and> c mod 10 = 0) \<Longrightarrow> significant c = c"
  by (auto simp add: significant.simps [of c])

definition fits80 :: "int \<Rightarrow> bool" where
  "fits80 c \<longleftrightarrow> \<bar>significant c\<bar> < 10 ^ 80"

definition exact :: "dec \<Rightarrow> dec res" where
  "exact d = (if fits80 (coef d) then Inr d else Inl Inexact)"

lemma exact_eq_Inr: "exact d = Inr r \<longleftrightarrow> fits80 (coef d) \<and> r = d"
  by (auto simp: exact_def)

definition add2 :: "dec \<Rightarrow> dec \<Rightarrow> dec res" where
  "add2 a b = (let e = min (expo a) (expo b) in exact (Dec (coef_at e a + coef_at e b) e))"

text \<open>\<open>add(*xs)\<close>: a running sum from \<open>Decimal(0)\<close>.\<close>

fun add_from :: "dec \<Rightarrow> dec list \<Rightarrow> dec res" where
  "add_from acc [] = Inr acc"
| "add_from acc (x # xs) = bindR (add2 acc x) (\<lambda>s. add_from s xs)"

definition dec_add :: "dec list \<Rightarrow> dec res" where
  "dec_add xs = add_from dec_zero xs"

definition dec_sub :: "dec \<Rightarrow> dec \<Rightarrow> dec res" where
  "dec_sub a b = (let e = min (expo a) (expo b) in exact (Dec (coef_at e a - coef_at e b) e))"

definition dec_mul :: "dec \<Rightarrow> dec \<Rightarrow> dec res" where
  "dec_mul a b = exact (Dec (coef a * coef b) (expo a + expo b))"

definition dec_half :: "dec \<Rightarrow> dec res" where
  "dec_half a = exact (if coef a mod 2 = 0 then Dec (coef a div 2) (expo a) else Dec (coef a * 5) (expo a - 1))"

definition dec_abs :: "dec \<Rightarrow> dec" where
  "dec_abs a = Dec \<bar>coef a\<bar> (expo a)"

definition dec_neg :: "dec \<Rightarrow> dec" where
  "dec_neg a = Dec (- coef a) (expo a)"

text \<open>\<open>abs_diff(a, b)\<close>.\<close>

definition dec_abs_diff :: "dec \<Rightarrow> dec \<Rightarrow> dec res" where
  "dec_abs_diff a b = bindR (dec_sub a b) (\<lambda>d. Inr (dec_abs d))"

section \<open>What the operations compute\<close>

lemma dec_val_abs [simp]: "dec_val (dec_abs a) = \<bar>dec_val a\<bar>"
  using powi10_pos [of "expo a"] by (simp add: dec_val_def dec_abs_def abs_mult)

lemma dec_val_neg [simp]: "dec_val (dec_neg a) = - dec_val a"
  by (simp add: dec_val_def dec_neg_def)

lemma add2_val: "add2 a b = Inr c \<Longrightarrow> dec_val c = dec_val a + dec_val b"
  by (auto simp: add2_def exact_eq_Inr Let_def dec_val_at [of "min (expo a) (expo b)"]
      dec_val_def [of "Dec _ _"] algebra_simps)

lemma dec_sub_val: "dec_sub a b = Inr c \<Longrightarrow> dec_val c = dec_val a - dec_val b"
  by (auto simp: dec_sub_def exact_eq_Inr Let_def dec_val_at [of "min (expo a) (expo b)"]
      dec_val_def [of "Dec _ _"] algebra_simps)

lemma dec_mul_val: "dec_mul a b = Inr c \<Longrightarrow> dec_val c = dec_val a * dec_val b"
  by (auto simp: dec_mul_def exact_eq_Inr dec_val_def power_int_add)

lemma dec_half_val: "dec_half a = Inr c \<Longrightarrow> dec_val c = dec_val a / 2"
proof -
  assume *: "dec_half a = Inr c"
  show ?thesis
  proof (cases "coef a mod 2 = 0")
    case True
    then obtain k where "coef a = 2 * k" by auto
    with * show ?thesis by (auto simp: dec_half_def exact_eq_Inr dec_val_def)
  next
    case False
    with * show ?thesis
      by (auto simp: dec_half_def exact_eq_Inr dec_val_def power_int_diff field_simps)
  qed
qed

lemma add_from_val: "add_from acc xs = Inr c \<Longrightarrow> dec_val c = dec_val acc + (\<Sum>x\<leftarrow>xs. dec_val x)"
  by (induction xs arbitrary: acc) (auto simp: bindR_eq_Inr dest!: add2_val)

lemma dec_add_val: "dec_add xs = Inr c \<Longrightarrow> dec_val c = (\<Sum>x\<leftarrow>xs. dec_val x)"
  by (auto simp: dec_add_def dest!: add_from_val)

lemma dec_abs_diff_val: "dec_abs_diff a b = Inr c \<Longrightarrow> dec_val c = \<bar>dec_val a - dec_val b\<bar>"
  by (auto simp: dec_abs_diff_def bindR_eq_Inr dec_sub_val)

lemmas dec_arith_val = add2_val dec_sub_val dec_mul_val dec_half_val dec_add_val dec_abs_diff_val

text \<open>The only exception the exact operations raise.\<close>

lemma exact_Inl: "exact d = Inl x \<Longrightarrow> x = Inexact"
  by (auto simp: exact_def split: if_splits)

lemma add2_Inl: "add2 a b = Inl x \<Longrightarrow> x = Inexact"
  by (auto simp: add2_def Let_def dest: exact_Inl)

lemma dec_sub_Inl: "dec_sub a b = Inl x \<Longrightarrow> x = Inexact"
  by (auto simp: dec_sub_def Let_def dest: exact_Inl)

lemma dec_add_Inl: "dec_add xs = Inl x \<Longrightarrow> x = Inexact"
proof -
  have "add_from acc xs = Inl x \<Longrightarrow> x = Inexact" for acc
    by (induction xs arbitrary: acc) (auto simp: bindR_eq_Inl dest: add2_Inl)
  then show "dec_add xs = Inl x \<Longrightarrow> x = Inexact" by (simp add: dec_add_def)
qed

text \<open>
  \<open>significant\<close> only drops trailing zeros, so an operation raises exactly when the exact
  result has no representation with at most 80 digits.
\<close>

lemma significant_pow: "\<exists>k. c = significant c * 10 ^ k"
proof (induction c rule: significant.induct)
  case (1 c)
  show ?case
  proof (cases "c \<noteq> 0 \<and> c mod 10 = 0")
    case True
    then obtain k where k: "c div 10 = significant (c div 10) * 10 ^ k"
      using 1 [OF True] by auto
    have "c = (c div 10) * 10"
      using True by auto
    then have "c = significant (c div 10) * 10 ^ Suc k"
      using k by simp
    then show ?thesis
      by (simp only: significant_step [OF True]) blast
  next
    case False
    then have "significant c = c"
      by (rule significant_stop)
    then show ?thesis by (intro exI [of _ 0]) simp
  qed
qed

lemma significant_least: "c = d * 10 ^ k \<Longrightarrow> \<bar>significant c\<bar> \<le> \<bar>d\<bar>"
proof (induction c arbitrary: d k rule: significant.induct)
  case (1 c)
  show ?case
  proof (cases "c \<noteq> 0 \<and> c mod 10 = 0")
    case True
    then have s: "significant c = significant (c div 10)"
      by (rule significant_step)
    show ?thesis
    proof (cases k)
      case 0
      then have "c div 10 = (c div 10) * 10 ^ 0" by simp
      then have "\<bar>significant (c div 10)\<bar> \<le> \<bar>c div 10\<bar>"
        by (rule 1(1) [OF True])
      moreover have "\<bar>c div 10\<bar> \<le> \<bar>c\<bar>" by simp
      ultimately show ?thesis using s 0 1(2) by simp
    next
      case (Suc j)
      then have "c div 10 = d * 10 ^ j" using 1(2) by simp
      then show ?thesis using True 1(1) s by simp
    qed
  next
    case False
    then have "significant c = c"
      by (rule significant_stop)
    then show ?thesis using 1(2) False by (cases k) auto
  qed
qed

lemma fits80_iff: "fits80 c \<longleftrightarrow> (\<exists>d k. c = d * 10 ^ k \<and> \<bar>d\<bar> < 10 ^ 80)"
proof
  assume "fits80 c"
  then show "\<exists>d k. c = d * 10 ^ k \<and> \<bar>d\<bar> < 10 ^ 80"
    using significant_pow [of c] unfolding fits80_def by blast
next
  assume "\<exists>d k. c = d * 10 ^ k \<and> \<bar>d\<bar> < 10 ^ 80"
  then obtain d k where "c = d * 10 ^ k" "\<bar>d\<bar> < 10 ^ 80" by blast
  then show "fits80 c"
    using significant_least [of c d k] unfolding fits80_def by linarith
qed

section \<open>The default context: 28 digits, half to even\<close>

text \<open>
  \<open>abs(x)\<close> and unary minus on a \<open>Decimal\<close> are evaluated in the thread's default context, which
  keeps 28 significant digits and rounds half to even without raising. The code takes the
  \<open>abs\<close> of an exact difference outside its local context, so the rounding is modelled.
\<close>

fun digit_count :: "nat \<Rightarrow> nat" where
  "digit_count n = (if n < 10 then 1 else Suc (digit_count (n div 10)))"

declare digit_count.simps [simp del]

definition half_even :: "int \<Rightarrow> int \<Rightarrow> int" where
  "half_even n m = (let q = n div m; r = n mod m
     in if 2 * r > m \<or> (2 * r = m \<and> q mod 2 = 1) then q + 1 else q)"

definition round28 :: "dec \<Rightarrow> dec" where
  "round28 d = (let k = digit_count (nat \<bar>coef d\<bar>) - 28
     in if k = 0 then d
        else Dec (sgn (coef d) * half_even \<bar>coef d\<bar> (10 ^ k)) (expo d + int k))"

definition dec_abs28 :: "dec \<Rightarrow> dec" where
  "dec_abs28 d = round28 (dec_abs d)"

definition dec_neg28 :: "dec \<Rightarrow> dec" where
  "dec_neg28 d = round28 (dec_neg d)"

lemma digit_count_step: "10 \<le> n \<Longrightarrow> digit_count n = Suc (digit_count (n div 10))"
  by (simp add: digit_count.simps [of n])

lemma digit_count_stop: "n < 10 \<Longrightarrow> digit_count n = 1"
  by (simp add: digit_count.simps [of n])

lemma digit_count_le: "n < 10 ^ Suc k \<Longrightarrow> digit_count n \<le> Suc k"
proof (induction k arbitrary: n)
  case (Suc k)
  then have "digit_count (n div 10) \<le> Suc k" if "\<not> n < 10"
    by (intro Suc.IH) (simp add: less_mult_imp_div_less mult.commute)
  then show ?case by (simp add: digit_count.simps [of n])
qed (simp add: digit_count.simps)

lemma round28_short: "\<bar>coef d\<bar> < 10 ^ 28 \<Longrightarrow> round28 d = d"
proof -
  assume "\<bar>coef d\<bar> < 10 ^ 28"
  then have "nat \<bar>coef d\<bar> < 10 ^ Suc 27" by simp
  then have "digit_count (nat \<bar>coef d\<bar>) \<le> 28" using digit_count_le by fastforce
  then show ?thesis by (simp add: round28_def)
qed

text \<open>
  A value with at most \<open>k\<close> decimals and fewer than \<open>m\<close> units in the last of them. Sums and
  differences of such values stay exact while the bounds fit in 80 digits.
\<close>

definition fine_dec :: "int \<Rightarrow> int \<Rightarrow> dec \<Rightarrow> bool" where
  "fine_dec k m d \<longleftrightarrow> - k \<le> expo d \<and> \<bar>coef d\<bar> * 10 ^ nat (expo d + k) < m"

lemma fine_dec_coef_at:
  assumes "fine_dec k m d" "- k \<le> e" "e \<le> expo d"
  shows "\<bar>coef_at e d\<bar> * 10 ^ nat (e + k) < m"
proof -
  have "nat (expo d + k) = nat (expo d - e) + nat (e + k)"
    using assms by linarith
  then have "\<bar>coef_at e d\<bar> * 10 ^ nat (e + k) = \<bar>coef d\<bar> * 10 ^ nat (expo d + k)"
    by (simp add: coef_at_def abs_mult power_add)
  then show ?thesis using assms(1) by (simp add: fine_dec_def)
qed

lemma fine_dec_short: "fine_dec k m d \<Longrightarrow> \<bar>coef d\<bar> < m"
proof -
  assume "fine_dec k m d"
  moreover have "\<bar>coef d\<bar> * 1 \<le> \<bar>coef d\<bar> * 10 ^ nat (expo d + k)"
    by (intro mult_left_mono) auto
  ultimately show ?thesis by (simp add: fine_dec_def)
qed

lemma fine_dec_mono: "fine_dec k m d \<Longrightarrow> m \<le> n \<Longrightarrow> fine_dec k n d"
  by (simp add: fine_dec_def)

lemma exact_fine: "fine_dec k m d \<Longrightarrow> m \<le> 10 ^ 80 \<Longrightarrow> exact d = Inr d"
proof -
  assume "fine_dec k m d" "m \<le> 10 ^ 80"
  then have "\<bar>coef d\<bar> < 10 ^ 80"
    using fine_dec_short by fastforce
  then have "fits80 (coef d)"
    unfolding fits80_iff by (intro exI [of _ "coef d"] exI [of _ 0]) simp
  then show ?thesis by (simp add: exact_def)
qed

lemma fine_dec_combine:
  assumes "fine_dec k m a" "fine_dec k n b" "e = min (expo a) (expo b)"
    and "\<bar>c\<bar> \<le> \<bar>coef_at e a\<bar> + \<bar>coef_at e b\<bar>"
  shows "fine_dec k (m + n) (Dec c e)"
proof -
  have e: "- k \<le> e" "e \<le> expo a" "e \<le> expo b"
    using assms(1-3) by (auto simp: fine_dec_def)
  have "\<bar>c\<bar> * 10 ^ nat (e + k) \<le> (\<bar>coef_at e a\<bar> + \<bar>coef_at e b\<bar>) * 10 ^ nat (e + k)"
    using assms(4) by (intro mult_right_mono) auto
  also have "\<dots> < m + n"
    using fine_dec_coef_at [OF assms(1) e(1,2)] fine_dec_coef_at [OF assms(2) e(1,3)]
    by (simp add: distrib_right)
  finally show ?thesis using e(1) by (simp add: fine_dec_def)
qed

lemma add2_fine:
  assumes "fine_dec k m a" "fine_dec k n b" "m + n \<le> 10 ^ 80"
  shows "\<exists>c. add2 a b = Inr c \<and> fine_dec k (m + n) c"
proof -
  have "fine_dec k (m + n) (Dec (coef_at (min (expo a) (expo b)) a + coef_at (min (expo a) (expo b)) b) (min (expo a) (expo b)))"
    using assms(1,2) by (rule fine_dec_combine) auto
  then show ?thesis using exact_fine [OF _ assms(3)] by (auto simp: add2_def Let_def)
qed

lemma dec_sub_fine:
  assumes "fine_dec k m a" "fine_dec k n b" "m + n \<le> 10 ^ 80"
  shows "\<exists>c. dec_sub a b = Inr c \<and> fine_dec k (m + n) c"
proof -
  have "fine_dec k (m + n) (Dec (coef_at (min (expo a) (expo b)) a - coef_at (min (expo a) (expo b)) b) (min (expo a) (expo b)))"
    using assms(1,2) by (rule fine_dec_combine) auto
  then show ?thesis using exact_fine [OF _ assms(3)] by (auto simp: dec_sub_def Let_def)
qed

lemma fine_dec_finer: "fine_dec k m d \<Longrightarrow> k \<le> j \<Longrightarrow> fine_dec j (m * 10 ^ nat (j - k)) d"
proof -
  assume w: "fine_dec k m d" and "k \<le> j"
  then have "nat (expo d + j) = nat (expo d + k) + nat (j - k)"
    by (auto simp: fine_dec_def)
  then have "\<bar>coef d\<bar> * 10 ^ nat (expo d + j) = (\<bar>coef d\<bar> * 10 ^ nat (expo d + k)) * 10 ^ nat (j - k)"
    by (simp add: power_add)
  also have "\<dots> < m * 10 ^ nat (j - k)"
    using w by (intro mult_strict_right_mono) (auto simp: fine_dec_def)
  finally show ?thesis using w \<open>k \<le> j\<close> by (auto simp: fine_dec_def)
qed

lemma dec_add2_fine:
  assumes "fine_dec k m a" "fine_dec k n b" "0 \<le> k" "1 + m + n \<le> 10 ^ 80"
  shows "\<exists>c. dec_add [a, b] = Inr c"
proof -
  have z: "fine_dec k 1 dec_zero" using assms(3) by (simp add: fine_dec_def dec_zero_def)
  have "0 < m" "0 < n" using fine_dec_short [OF assms(1)] fine_dec_short [OF assms(2)] by linarith+
  then have "1 + m \<le> 10 ^ 80" using assms(4) by linarith
  then obtain c where c: "add2 dec_zero a = Inr c" "fine_dec k (1 + m) c"
    using add2_fine [OF z assms(1)] by blast
  then obtain d where "add2 c b = Inr d"
    using add2_fine [OF c(2) assms(2)] assms(4) by (auto simp: add.assoc)
  with c show ?thesis by (simp add: dec_add_def)
qed

text \<open>
  An everyday amount: at most six decimals and less than 5 * 10^21. The difference of two
  everyday amounts has at most 28 digits, so the default context does not round it.
\<close>

definition everyday :: "dec \<Rightarrow> bool" where
  "everyday d \<longleftrightarrow> fine_dec 6 (5 * 10 ^ 27) d"

lemma everyday_sub:
  assumes "everyday a" "everyday b"
  obtains d where "dec_sub a b = Inr d" "fine_dec 6 (10 ^ 28) d"
proof -
  have "(5 * 10 ^ 27 + 5 * 10 ^ 27 :: int) = 10 ^ 28" by simp
  then show thesis
    using dec_sub_fine [OF assms [unfolded everyday_def]] that by auto
qed

lemma everyday_abs_diff:
  assumes "everyday a" "everyday b" "dec_sub a b = Inr d"
  shows "dec_val (dec_abs28 d) = \<bar>dec_val a - dec_val b\<bar>"
proof -
  have "fine_dec 6 (10 ^ 28) d" using everyday_sub [OF assms(1,2)] assms(3) by force
  then have "\<bar>coef (dec_abs d)\<bar> < 10 ^ 28"
    using fine_dec_short by (fastforce simp: dec_abs_def)
  then have "dec_abs28 d = dec_abs d"
    unfolding dec_abs28_def by (rule round28_short)
  then show ?thesis
    using dec_sub_val [OF assms(3)] by simp
qed

end
