(* ===== verification/Text.thy ===== *)
theory Text
  imports Prelude
begin

text \<open>
  Printed text as Python sees it: a \<open>str\<close> is its list of code points. The Unicode tables
  of the standard library (NFKC, case folding, which code points are word characters) are
  parameters, collected in one record; white space is Python's fixed set. The two regular
  expressions of the borrowings-maturity rule are written out as scanners.
\<close>

type_synonym ustr = "nat list"

definition u :: "string \<Rightarrow> ustr" where
  "u s = map of_char s"

record unicode =
  nfkc :: "ustr \<Rightarrow> ustr"
  casefold :: "ustr \<Rightarrow> ustr"
  word_char :: "nat \<Rightarrow> bool"

text \<open>The tables restricted to ASCII: what every Unicode version says of ASCII text.\<close>

definition ascii_lower :: "nat \<Rightarrow> nat" where
  "ascii_lower c = (if 65 \<le> c \<and> c \<le> 90 then c + 32 else c)"

definition ascii_word :: "nat \<Rightarrow> bool" where
  "ascii_word c \<longleftrightarrow> (48 \<le> c \<and> c \<le> 57) \<or> (65 \<le> c \<and> c \<le> 90) \<or> c = 95 \<or> (97 \<le> c \<and> c \<le> 122)"

definition ascii_tables :: unicode where
  "ascii_tables = \<lparr>nfkc = id, casefold = map ascii_lower, word_char = ascii_word\<rparr>"

definition is_white :: "nat \<Rightarrow> bool" where
  "is_white c \<longleftrightarrow> (9 \<le> c \<and> c \<le> 13) \<or> (28 \<le> c \<and> c \<le> 32) \<or> c = 133 \<or> c = 160 \<or> c = 5760 \<or>
     (8192 \<le> c \<and> c \<le> 8202) \<or> c = 8232 \<or> c = 8233 \<or> c = 8239 \<or> c = 8287 \<or> c = 12288"

definition ustrip :: "ustr \<Rightarrow> ustr" where
  "ustrip s = rev (dropWhile is_white (rev (dropWhile is_white s)))"

text \<open>\<open>s.split()\<close>: maximal runs of non-white code points.\<close>

fun split_words :: "ustr \<Rightarrow> ustr \<Rightarrow> ustr list" where
  "split_words acc [] = (if acc = [] then [] else [acc])"
| "split_words acc (c # cs) =
     (if is_white c then (if acc = [] then split_words [] cs else acc # split_words [] cs)
      else split_words (acc @ [c]) cs)"

definition usplit :: "ustr \<Rightarrow> ustr list" where
  "usplit s = split_words [] s"

fun join_space :: "ustr list \<Rightarrow> ustr" where
  "join_space [] = []"
| "join_space [w] = w"
| "join_space (w # ws) = w @ 32 # join_space ws"

definition no_spaces :: "ustr \<Rightarrow> ustr" where
  "no_spaces s = filter (\<lambda>c. c \<noteq> 32) s"

text \<open>\<open>s.startswith(p)\<close>, keeping the rest.\<close>

fun strip_prefix :: "ustr \<Rightarrow> ustr \<Rightarrow> ustr option" where
  "strip_prefix [] s = Some s"
| "strip_prefix (p # ps) [] = None"
| "strip_prefix (p # ps) (c # cs) = (if p = c then strip_prefix ps cs else None)"

lemma strip_prefix_Some: "strip_prefix p s = Some r \<longleftrightarrow> s = p @ r"
  by (induction p s rule: strip_prefix.induct) auto

lemma strip_prefix_append [simp]: "strip_prefix p (p @ r) = Some r"
  by (simp add: strip_prefix_Some)

text \<open>The end-of-word test \<open>\b\<close> after a word character.\<close>

definition word_ends :: "unicode \<Rightarrow> ustr \<Rightarrow> bool" where
  "word_ends U rest \<longleftrightarrow> (case rest of [] \<Rightarrow> True | c # _ \<Rightarrow> \<not> word_char U c)"

definition word_starts :: "unicode \<Rightarrow> nat option \<Rightarrow> bool" where
  "word_starts U prev \<longleftrightarrow> (case prev of None \<Rightarrow> True | Some c \<Rightarrow> \<not> word_char U c)"

definition match_word :: "unicode \<Rightarrow> string \<Rightarrow> ustr \<Rightarrow> ustr option" where
  "match_word U w s = (case strip_prefix (u w) s of None \<Rightarrow> None
     | Some rest \<Rightarrow> if word_ends U rest then Some rest else None)"

text \<open>\<open>_LIABILITIES_RE\<close>: a word liability or liabilities anywhere.\<close>

fun search_liabilities :: "unicode \<Rightarrow> nat option \<Rightarrow> ustr \<Rightarrow> bool" where
  "search_liabilities U prev [] = False"
| "search_liabilities U prev (c # cs) =
     ((word_starts U prev \<and> (match_word U ''liability'' (c # cs) \<noteq> None \<or>
        match_word U ''liabilities'' (c # cs) \<noteq> None))
      \<or> search_liabilities U (Some c) cs)"

text \<open>\<open>_MATURITY_WORD_RE\<close> at one position: \<open>non\<close>, spaces, an optional dash, spaces, then \<open>current\<close>.\<close>

definition dash_points :: "nat list" where
  "dash_points = [45, 8211, 8212]"

definition match_non_current :: "unicode \<Rightarrow> ustr \<Rightarrow> ustr option" where
  "match_non_current U s = (case strip_prefix (u ''non'') s of None \<Rightarrow> None
     | Some r \<Rightarrow>
        (let r1 = dropWhile is_white r;
             r2 = (case r1 of [] \<Rightarrow> [] | c # cs \<Rightarrow> if c \<in> set dash_points then cs else r1)
         in match_word U ''current'' (dropWhile is_white r2)))"

lemma length_match_word: "match_word U w s = Some r \<Longrightarrow> w \<noteq> [] \<Longrightarrow> length r < length s"
  by (auto simp: match_word_def strip_prefix_Some u_def split: option.splits if_splits)

lemma length_match_non_current: "match_non_current U s = Some r \<Longrightarrow> length r < length s"
proof -
  assume *: "match_non_current U s = Some r"
  then obtain q where q: "s = u ''non'' @ q"
    by (auto simp: match_non_current_def strip_prefix_Some split: option.splits)
  let ?r1 = "dropWhile is_white q"
  let ?r2 = "case ?r1 of [] \<Rightarrow> [] | c # cs \<Rightarrow> if c \<in> set dash_points then cs else ?r1"
  have "match_word U ''current'' (dropWhile is_white ?r2) = Some r"
    using * unfolding q match_non_current_def Let_def strip_prefix_append option.case .
  then have "length r < length (dropWhile is_white ?r2)"
    by (rule length_match_word) simp
  also have "\<dots> \<le> length ?r2" by (rule length_dropWhile_le)
  also have "\<dots> \<le> length ?r1" by (simp split: list.split)
  also have "\<dots> \<le> length q" by (rule length_dropWhile_le)
  also have "\<dots> < length s" by (simp add: q u_def)
  finally show ?thesis .
qed

text \<open>\<open>finditer\<close>: leftmost matches that do not overlap; True for a match with the \<open>non\<close> group.\<close>

function maturity_words :: "unicode \<Rightarrow> nat option \<Rightarrow> ustr \<Rightarrow> bool list" where
  "maturity_words U prev [] = []"
| "maturity_words U prev (c # cs) =
     (if word_starts U prev then
        (case match_non_current U (c # cs) of
           Some rest \<Rightarrow> True # maturity_words U (Some 116) rest
         | None \<Rightarrow>
             (case match_word U ''current'' (c # cs) of
                Some rest \<Rightarrow> False # maturity_words U (Some 116) rest
              | None \<Rightarrow> maturity_words U (Some c) cs))
      else maturity_words U (Some c) cs)"
  by pat_completeness auto
termination
  by (relation "measure (\<lambda>(U, prev, s). length s)")
    (auto dest: length_match_word length_match_non_current)

end
