(* ===== verification/Validation.thy ===== *)
theory Validation
  imports Complex_Main Concepts Calendar Decimals Text
begin

text \<open>
  The candidate rules of \<open>financial_validation.py\<close> (f6.validation.1): eligibility, period sanity,
  value classification and exact normalisation, comparison within printed precision, borrowings
  maturity, and the validation of one candidate. The arithmetic diagnostics and the sign rules
  are in theory Diagnostics. Codes and statuses are the source's strings; a printed text is a
  list of code points.
\<close>

section \<open>Printed precision\<close>

text \<open>
  The contract between a printed value and the rules that compare, corroborate and intersect
  printed values: a value has an exact number and a printed precision (half a printed unit),
  and two values agree when they differ by no more than the sum of their precisions (V8 of
  \<open>financial_validation.py\<close>

). The comparison may raise (exact arithmetic in 80 digits), so it
  returns a result; the laws speak about the comparisons that returned. Every consumer of the
  comparison - the members of one source observation, the observations of one economic fact -
  is proved here once.
\<close>

locale printed_precision =
  fixes v :: "'x \<Rightarrow> rat" and h :: "'x \<Rightarrow> rat" and agree :: "'x \<Rightarrow> 'x \<Rightarrow> bool res" and ok :: "'x \<Rightarrow> bool"
  assumes half_unit_nonneg: "ok x \<Longrightarrow> 0 \<le> h x"
    and agree_law: "ok x \<Longrightarrow> ok y \<Longrightarrow> agree x y = Inr b \<Longrightarrow> b \<longleftrightarrow> \<bar>v x - v y\<bar> \<le> h x + h y"
begin

lemma agree_itself: "ok x \<Longrightarrow> agree x x = Inr b \<Longrightarrow> b"
  using agree_law [of x x b] half_unit_nonneg [of x] by simp

lemma agree_commutes: "ok x \<Longrightarrow> ok y \<Longrightarrow> agree x y = Inr b \<Longrightarrow> agree y x = Inr c \<Longrightarrow> b = c"
  using agree_law [of x y b] agree_law [of y x c] by (simp add: abs_minus_commute add.commute)

text \<open>Agreement of two values is overlap of their printed intervals.\<close>

lemma agree_overlap:
  "ok x \<Longrightarrow> ok y \<Longrightarrow> agree x y = Inr b \<Longrightarrow> b \<longleftrightarrow> v x - h x \<le> v y + h y \<and> v y - h y \<le> v x + h x"
  using agree_law [of x y b] by (auto simp: abs_le_iff)

text \<open>
  One-dimensional Helly: if every later pair of a list of values agrees, the largest lower
  end is not above the smallest upper end.
\<close>

lemma pairwise_interval:
  assumes ok: "\<And>x. x \<in> set xs \<Longrightarrow> ok x"
    and agree: "\<And>x y. (x, y) \<in> set (later_pairs xs) \<Longrightarrow> agree x y = Inr True"
    and a: "a \<in> set xs" and b: "b \<in> set xs"
  shows "v a - h a \<le> v b + h b"
proof -
  from later_pairs_cover [OF a b] consider "a = b" | "(a, b) \<in> set (later_pairs xs)"
    | "(b, a) \<in> set (later_pairs xs)" by blast
  then show ?thesis
  proof cases
    case 1
    then show ?thesis using half_unit_nonneg [OF ok [OF a]] by simp
  next
    case 2
    then show ?thesis using agree_overlap [OF ok [OF a] ok [OF b] agree] by simp
  next
    case 3
    then show ?thesis using agree_overlap [OF ok [OF b] ok [OF a] agree] by simp
  qed
qed

text \<open>
  Conversely a common point of the printed intervals makes the pair agree, so pairwise
  agreement and a common point are the same reading of corroboration.
\<close>

lemma common_point_agree:
  assumes "ok x" "ok y" "agree x y = Inr b"
    and "v x - h x \<le> p" "p \<le> v x + h x" "v y - h y \<le> p" "p \<le> v y + h y"
  shows "b"
  using agree_overlap [OF assms(1-3)] assms(4-) by auto

text \<open>
  A value with the smallest half-unit lies within twice the printed precision of every value
  it agrees with.
\<close>

lemma finest_near:
  assumes "ok r" "ok x" "agree r x = Inr True" "h r \<le> h x"
  shows "\<bar>v r - v x\<bar> \<le> 2 * h x"
  using agree_law [OF assms(1-3)] assms(4) by auto

end

section \<open>Inputs and outputs\<close>

type_synonym source_key = "string \<times> int \<times> int \<times> int \<times> int \<times> string"

record run_evidence =
  re_issuer_link_status :: "string option"
  re_publication_date :: "date option"
  re_fiscal_year_end_basis :: "string option"
  re_fiscal_year_end_status :: "string option"
  re_period_status :: "string option"

record candidate_context =
  cc_source_key :: source_key
  cc_concept_key :: "string option"
  cc_mapping_status :: string
  cc_candidate_status :: string
  cc_value_type :: "string option"
  cc_attribution :: string
  cc_period_kind :: "string option"
  cc_period_class :: "string option"
  cc_period_derivation :: string
  cc_raw_value :: ustr
  cc_parsed_value :: "dec option"
  cc_representation_class :: string
  cc_printed_decimals :: "int option"
  cc_sign_as_printed :: string
  cc_reported_scale :: "int option"
  cc_scale_basis :: "string option"
  cc_reported_currency :: "string option"
  cc_statement_index :: int
  cc_statement_root :: int
  cc_statement_kind :: string
  cc_column_index :: int
  cc_role :: string
  cc_role_trust :: string
  cc_start_date :: "date option"
  cc_end_date :: "date option"
  cc_duration_months :: "int option"
  cc_fiscal_label :: "string option"
  cc_reported_scope :: string
  cc_canonical_scope :: string
  cc_row_index :: int
  cc_label_raw :: ustr
  cc_section_label_raw :: "ustr option"
  cc_operations :: string
  cc_operations_basis :: string
  cc_candidate_id :: "int option"
  cc_ambiguous_concepts :: "string list"

record period_result =
  pr_status :: string
  pr_period_kind :: "string option"
  pr_start_date :: "date option"
  pr_end_date :: "date option"
  pr_duration_months :: "int option"
  pr_period_class :: "string option"
  pr_fiscal_label :: "string option"
  pr_reasons :: "string list"
  pr_notes :: "string list"

record value_result =
  vr_state :: string
  vr_raw_value :: ustr
  vr_representation_class :: string
  vr_dash_glyphs :: "string list"
  vr_parsed_value :: "dec option"
  vr_printed_decimals :: "int option"
  vr_sign_as_printed :: string
  vr_value_type :: "string option"
  vr_reported_scale :: "int option"
  vr_scale_basis :: "string option"
  vr_currency :: "string option"
  vr_normalized_value :: "dec option"
  vr_printed_unit :: "dec option"
  vr_half_unit :: "dec option"
  vr_status :: string
  vr_reasons :: "string list"
  vr_rule :: string

record operations_result =
  or_operations :: string
  or_basis :: string
  or_trust :: string
  or_reason :: "string option"

record maturity_result =
  mr_maturity :: "string option"
  mr_basis :: string

record candidate_validation =
  cv_version :: string
  cv_source_key :: source_key
  cv_candidate_id :: "int option"
  cv_concept_key :: "string option"
  cv_eligibility :: string
  cv_ineligible_reasons :: "string list"
  cv_normalization_reasons :: "string list"
  cv_period :: period_result
  cv_value :: value_result
  cv_operations :: operations_result
  cv_maturity :: maturity_result

record comparison_result =
  cr_outcome :: string
  cr_reason :: "string option"
  cr_a_value :: "dec option"
  cr_b_value :: "dec option"
  cr_a_half_unit :: "dec option"
  cr_b_half_unit :: "dec option"
  cr_tolerance :: "dec option"
  cr_abs_difference :: "dec option"
  cr_currency :: "string option"
  cr_value_type :: "string option"

definition validation_version :: string where
  "validation_version = ''f6.validation.1''"

definition trusted_roles :: "string list" where
  "trusted_roles = [''current'', ''comparative'']"

definition trusted_f3_statuses :: "string list" where
  "trusted_f3_statuses = [''confirmed'', ''document_only'']"

definition amount_classes :: "string list" where
  "amount_classes = [''numeric'', ''parenthesised_negative'', ''minus_negative'', ''negative_zero'']"

definition negative_classes :: "string list" where
  "negative_classes = [''parenthesised_negative'', ''minus_negative'']"

definition total_row_concepts :: "string list" where
  "total_row_concepts =
     [''profit_for_period'', ''profit_attributable_to_owners'', ''profit_attributable_to_nci'',
      ''eps_basic'', ''eps_diluted'']"

definition borrowing_concepts :: "string list" where
  "borrowing_concepts = [''interest_bearing_borrowings'']"

text \<open>DASH_GLYPHS, by code point.\<close>

definition dash_glyph :: "nat \<Rightarrow> string option" where
  "dash_glyph c = map_of [(45, ''hyphen_minus''), (8211, ''en_dash''), (8212, ''em_dash''),
     (8722, ''minus_sign''), (8210, ''figure_dash''), (8213, ''horizontal_bar'')] c"

definition nil_words :: "ustr list" where
  "nil_words = [u ''nil'', u ''none'']"

definition not_applicable_words :: "ustr list" where
  "not_applicable_words = [u ''n/a'', u ''na'', u ''n.a'', u ''n.a.'', u ''not applicable'']"

text \<open>The argument of an operation that raises TypeError on None.\<close>

definition need :: "'a option \<Rightarrow> 'a res" where
  "need x = (case x of None \<Rightarrow> Inl TypeErr | Some y \<Rightarrow> Inr y)"

lemma need_simps [simp]: "need (Some y) = Inr y" "need None = Inl TypeErr" "need x = Inr y \<longleftrightarrow> x = Some y"
  by (auto simp: need_def split: option.splits)

definition in_opt :: "string option \<Rightarrow> string list \<Rightarrow> bool" where
  "in_opt x xs \<longleftrightarrow> (case x of None \<Rightarrow> False | Some s \<Rightarrow> s \<in> set xs)"

section \<open>Helpers\<close>

function power_loop :: "int \<Rightarrow> int" where
  "power_loop n = (if n > 0 \<and> n mod 10 = 0 then power_loop (n div 10) else n)"
  by pat_completeness auto
termination by (relation "measure nat") auto

declare power_loop.simps [simp del]

definition is_power_of_ten :: "int \<Rightarrow> bool" where
  "is_power_of_ten n \<longleftrightarrow> (if n \<le> 0 then False else power_loop n = 1)"

definition expected_period_class :: "int option \<Rightarrow> string" where
  "expected_period_class months =
     (case months of None \<Rightarrow> ''unspecified''
      | Some n \<Rightarrow>
          if n = 0 then ''unspecified''
          else if n \<in> {3, 6, 9, 12} then show_int n @ ''m''
          else ''other_'' @ show_int n @ ''m'')"

section \<open>Eligibility\<close>

definition check_operations :: "string option \<Rightarrow> string \<Rightarrow> string \<Rightarrow> operations_result" where
  "check_operations concept_key operations basis =
     (let trusted = \<lparr>or_operations = operations, or_basis = basis, or_trust = ''trusted'', or_reason = None\<rparr>;
          untrusted = (\<lambda>why. \<lparr>or_operations = operations, or_basis = basis, or_trust = ''untrusted'', or_reason = Some why\<rparr>)
      in if operations \<notin> set [''total_or_unstated'', ''continuing'', ''discontinued'']
            \<or> basis \<notin> set [''row_label'', ''section_label'', ''none'']
         then untrusted ''operations_invalid''
         else if basis = ''none'' then
           (if operations \<noteq> ''total_or_unstated'' then untrusted ''operations_invalid'' else trusted)
         else if basis = ''row_label'' then trusted
         else if in_opt concept_key total_row_concepts
         then untrusted ''operations_section_derived_on_total_row''
         else trusted)"

definition concept_of :: "string option \<Rightarrow> concept option" where
  "concept_of k = (case k of None \<Rightarrow> None | Some s \<Rightarrow> if s = [] then None else by_key s)"

definition eligibility_reasons :: "candidate_context \<Rightarrow> run_evidence \<Rightarrow> string list" where
  "eligibility_reasons ctx run =
     (if cc_candidate_status ctx \<noteq> ''proposed'' then [''candidate_status_'' @ cc_candidate_status ctx] else []) @
     (if cc_mapping_status ctx \<noteq> ''mapped'' \<or> cc_concept_key ctx = None then [''mapping_not_single_concept'']
      else (case concept_of (cc_concept_key ctx) of
              None \<Rightarrow> [''concept_unknown'']
            | Some c \<Rightarrow> if co_status c \<noteq> ''active'' then [''concept_not_active''] else [])) @
     (if cc_role_trust ctx \<noteq> ''trusted'' \<or> cc_role ctx \<notin> set trusted_roles then [''role_untrusted''] else []) @
     (case re_issuer_link_status run of
        None \<Rightarrow> [''issuer_evidence_not_supplied'']
      | Some s \<Rightarrow> if s \<noteq> ''evidenced'' then [''issuer_evidence_'' @ s] else [])"

section \<open>Period\<close>

text \<open>The reasons and notes of a duration whose months are given.\<close>

definition duration_check ::
  "int \<Rightarrow> string option \<Rightarrow> date option \<Rightarrow> date option \<Rightarrow> (string list \<times> string list) res" where
  "duration_check months period_class start finish =
     (let class_reasons = (if period_class \<noteq> Some (expected_period_class (Some months))
                           then [''period_class_inconsistent''] else [])
      in case start of
           None \<Rightarrow> Inr (class_reasons, [''start_not_reported''])
         | Some s \<Rightarrow>
             (case finish of
                None \<Rightarrow> Inr (class_reasons, [])
              | Some e \<Rightarrow>
                  if e < s then Inr (class_reasons @ [''period_start_after_end''], [])
                  else bindR (next_day e) (\<lambda>d. bindR (add_months d (- months)) (\<lambda>expected.
                    Inr (class_reasons @
                         (if s \<noteq> expected then [''period_start_inconsistent_with_duration''] else []), [])))))"

definition kind_check ::
  "string option \<Rightarrow> int option \<Rightarrow> string option \<Rightarrow> date option \<Rightarrow> date option \<Rightarrow> (string list \<times> string list) res" where
  "kind_check kind months period_class start finish =
     (if kind = Some ''instant'' then
        Inr ((if months \<noteq> None then [''instant_with_duration''] else []) @
             (if start \<noteq> None then [''instant_with_start''] else []) @
             (if period_class \<noteq> None then [''instant_with_period_class''] else []), [])
      else if kind = Some ''duration'' then
        (case months of
           None \<Rightarrow> Inr ([''duration_months_missing''], [])
         | Some n \<Rightarrow> if n \<le> 0 then Inr ([''duration_months_invalid''], [])
                     else duration_check n period_class start finish)
      else Inr ([], []))"

definition fiscal_check :: "string option \<Rightarrow> run_evidence \<Rightarrow> string option \<times> string list \<times> string list" where
  "fiscal_check fiscal_label run =
     (case fiscal_label of
        None \<Rightarrow> (None, [], [])
      | Some l \<Rightarrow>
          if re_fiscal_year_end_basis run = None then (None, [], [''fiscal_label_not_verifiable''])
          else if re_fiscal_year_end_basis run = Some ''documented''
                  \<and> in_opt (re_fiscal_year_end_status run) trusted_f3_statuses
                  \<and> in_opt (re_period_status run) trusted_f3_statuses
          then (Some l, [], [])
          else (None, [''fiscal_label_without_documented_fye''], []))"

definition validate_period ::
  "string option \<Rightarrow> date option \<Rightarrow> date option \<Rightarrow> int option \<Rightarrow> string option \<Rightarrow> string option \<Rightarrow>
   run_evidence \<Rightarrow> string \<Rightarrow> period_result res" where
  "validate_period kind start0 finish months0 period_class fiscal_label run derivation =
     (let from_end = (derivation = ''duration_column_end'');
          start = (if from_end then None else start0);
          months = (if from_end then None else months0);
          notes0 = (if from_end then [''instant_from_duration_column_end''] else []);
          kind_reasons = (if kind = Some ''instant'' \<or> kind = Some ''duration'' then []
                          else [if kind = None then ''period_kind_missing'' else ''period_kind_invalid'']);
          end_reasons = (if finish = None then [''period_end_missing''] else []);
          month_end_notes = (case finish of None \<Rightarrow> []
            | Some e \<Rightarrow> if day e \<noteq> days_in_month (year e) (month e) then [''end_not_month_end''] else []);
          publication_reasons = (case re_publication_date run of
              None \<Rightarrow> [''publication_date_not_supplied'']
            | Some p \<Rightarrow> (case finish of None \<Rightarrow> []
                | Some e \<Rightarrow> if p < e then [''period_end_after_publication''] else []));
          (label, label_reasons, label_notes) = fiscal_check fiscal_label run
      in bindR (kind_check kind months period_class start finish) (\<lambda>(checked, checked_notes).
         let reasons = kind_reasons @ end_reasons @ checked @ publication_reasons @ label_reasons
         in Inr \<lparr>pr_status = (if reasons = [] then ''valid'' else ''invalid''), pr_period_kind = kind,
                 pr_start_date = start, pr_end_date = finish,
                 pr_duration_months = (if kind = Some ''duration'' then months else None),
                 pr_period_class = (if kind = Some ''duration'' then period_class else None),
                 pr_fiscal_label = label, pr_reasons = reasons,
                 pr_notes = notes0 @ checked_notes @ month_end_notes @ label_notes\<rparr>))"

section \<open>Value\<close>

definition classify_value :: "unicode \<Rightarrow> ustr \<Rightarrow> dec option \<Rightarrow> string \<Rightarrow> string \<times> string list" where
  "classify_value U raw parsed class =
     (let t = ustrip (nfkc U raw);
          compact = no_spaces t;
          word = join_space (usplit (casefold U t))
      in if class \<in> set amount_classes then
           (case parsed of
              None \<Rightarrow> (''inconsistent_input'', [])
            | Some p \<Rightarrow> if class \<in> set negative_classes \<and> \<not> dec_lt p dec_zero then (''inconsistent_input'', [])
                        else (''numeric'', []))
         else if parsed \<noteq> None \<and> class = ''dash_nil'' then (''inconsistent_input'', [])
         else if t = [] then (''blank'', [])
         else if 1 \<le> length compact \<and> length compact \<le> 2 \<and> list_all (\<lambda>ch. dash_glyph ch \<noteq> None) compact
         then (''reported_nil'', List.map_filter dash_glyph compact)
         else if word \<in> set nil_words then (''reported_nil_word'', [])
         else if word \<in> set not_applicable_words \<or> no_spaces word \<in> set not_applicable_words
         then (''reported_not_applicable'', [])
         else if class \<in> set [''percentage'', ''comparison_bound'', ''spreadsheet_error''] then (''not_an_amount'', [])
         else (''not_a_number'', []))"

definition scale_reason :: "string option \<Rightarrow> string" where
  "scale_reason basis =
     (if basis = Some ''statement_scale_conflicting'' then ''scale_conflicting''
      else if basis = Some ''statement_scale_unresolved'' then ''scale_unresolved''
      else if basis = Some ''per_share_unit_not_stated'' then ''per_share_unit_not_stated''
      else if basis = Some ''percentage_value'' then ''scale_not_applicable''
      else if basis = Some ''row_label_percent'' then ''scale_not_applicable''
      else ''scale_not_reported'')"

definition scale_reasons :: "string option \<Rightarrow> int option \<Rightarrow> string option \<Rightarrow> string list" where
  "scale_reasons value_type scale basis =
     (case scale of
        None \<Rightarrow> [scale_reason basis]
      | Some n \<Rightarrow> if \<not> is_power_of_ten n then [''scale_unrecognised'']
                  else if value_type = Some ''per_share_amount'' \<and> n \<noteq> 1 then [''per_share_scale_not_unit'']
                  else [])"

text \<open>The currency as reported, white space removed; the empty text counts as absent.\<close>

definition read_currency :: "string option \<Rightarrow> string option" where
  "read_currency c = (case c of None \<Rightarrow> None | Some s \<Rightarrow> if strip s = [] then None else Some (strip s))"

definition currency_reasons :: "string option \<Rightarrow> string list" where
  "currency_reasons currency =
     (case currency of None \<Rightarrow> [''currency_not_reported'']
      | Some s \<Rightarrow> if \<not> currency_code s then [''currency_unrecognised''] else [])"

definition value_reasons ::
  "string \<Rightarrow> string option \<Rightarrow> string option \<Rightarrow> int option \<Rightarrow> string option \<Rightarrow> string list" where
  "value_reasons state currency value_type scale basis =
     (if state \<noteq> ''numeric'' then [''value_'' @ state] else []) @ currency_reasons currency @
     (if value_type \<noteq> Some ''currency_amount'' \<and> value_type \<noteq> Some ''per_share_amount''
      then [''value_type_unknown''] else []) @ scale_reasons value_type scale basis"

definition normalize_value ::
  "unicode \<Rightarrow> ustr \<Rightarrow> dec option \<Rightarrow> string \<Rightarrow> int option \<Rightarrow> string \<Rightarrow> string option \<Rightarrow> int option \<Rightarrow>
   string option \<Rightarrow> string option \<Rightarrow> value_result res" where
  "normalize_value U raw parsed class printed_decimals sign value_type scale basis reported_currency =
     (let (state, glyphs) = classify_value U raw parsed class;
          currency = read_currency reported_currency;
          reasons = value_reasons state currency value_type scale basis;
          decimals = (if state = ''numeric'' \<and> printed_decimals = None
                      then map_option (\<lambda>p. max 0 (- expo p)) parsed else printed_decimals);
          result = (\<lambda>normalized unit half rule.
            \<lparr>vr_state = state, vr_raw_value = raw, vr_representation_class = class, vr_dash_glyphs = glyphs,
             vr_parsed_value = parsed, vr_printed_decimals = (if state = ''numeric'' then decimals else None),
             vr_sign_as_printed = sign, vr_value_type = value_type, vr_reported_scale = scale,
             vr_scale_basis = basis, vr_currency = currency, vr_normalized_value = normalized,
             vr_printed_unit = unit, vr_half_unit = half,
             vr_status = (if reasons = [] then ''normalized'' else ''normalization_required''),
             vr_reasons = reasons, vr_rule = rule\<rparr>)
      in if reasons \<noteq> [] then Inr (result None None None ''not_normalized'')
         else bindR (need parsed) (\<lambda>p. bindR (need scale) (\<lambda>n. bindR (need decimals) (\<lambda>k.
              bindR (dec_mul p (dec_of_int n)) (\<lambda>normalized.
              bindR (dec_mul (Dec 1 (- k)) (dec_of_int n)) (\<lambda>unit.
              bindR (dec_half unit) (\<lambda>half.
                Inr (result (Some normalized) (Some unit) (Some half)
                  (if value_type = Some ''currency_amount'' then ''parsed_value*reported_scale''
                   else ''parsed_value*1(per_share)'')))))))))"

text \<open>V8. The absolute value is taken in the default context, after the exact difference.\<close>

definition compare_values :: "value_result \<Rightarrow> value_result \<Rightarrow> comparison_result res" where
  "compare_values a b =
     (let result = (\<lambda>outcome reason tol diff currency vtype.
            \<lparr>cr_outcome = outcome, cr_reason = reason, cr_a_value = vr_normalized_value a,
             cr_b_value = vr_normalized_value b, cr_a_half_unit = vr_half_unit a,
             cr_b_half_unit = vr_half_unit b, cr_tolerance = tol, cr_abs_difference = diff,
             cr_currency = currency, cr_value_type = vtype\<rparr>)
      in if vr_status a \<noteq> ''normalized'' \<or> vr_status b \<noteq> ''normalized''
         then Inr (result ''incomparable'' (Some ''not_normalized'') None None None None)
         else if vr_currency a \<noteq> vr_currency b
         then Inr (result ''incomparable'' (Some ''currency_differs'') None None None None)
         else if vr_value_type a \<noteq> vr_value_type b
         then Inr (result ''incomparable'' (Some ''value_type_differs'') None None (vr_currency a) None)
         else bindR (need (vr_half_unit a)) (\<lambda>ha. bindR (need (vr_half_unit b)) (\<lambda>hb.
              bindR (dec_add [ha, hb]) (\<lambda>tol.
              bindR (need (vr_normalized_value a)) (\<lambda>va. bindR (need (vr_normalized_value b)) (\<lambda>vb.
              bindR (dec_sub va vb) (\<lambda>d.
                (let diff = dec_abs28 d
                 in Inr (result (if dec_le diff tol then ''agree'' else ''disagree'') None (Some tol) (Some diff)
                      (vr_currency a) (vr_value_type a))))))))))"

section \<open>Maturity\<close>

definition borrowing_maturity :: "unicode \<Rightarrow> string option \<Rightarrow> ustr option \<Rightarrow> maturity_result" where
  "borrowing_maturity U concept_key section_label =
     (let s = join_space (usplit (casefold U (nfkc U (case section_label of None \<Rightarrow> [] | Some l \<Rightarrow> l))));
          kinds = sorted_set (map (\<lambda>non. if non then ''non_current'' else ''current'') (maturity_words U None s))
      in if \<not> in_opt concept_key borrowing_concepts then \<lparr>mr_maturity = None, mr_basis = ''not_applicable''\<rparr>
         else if s = [] then \<lparr>mr_maturity = None, mr_basis = ''no_section_label''\<rparr>
         else if \<not> search_liabilities U None s then \<lparr>mr_maturity = None, mr_basis = ''section_not_maturity''\<rparr>
         else (case kinds of
                 [] \<Rightarrow> \<lparr>mr_maturity = None, mr_basis = ''section_not_maturity''\<rparr>
               | [k] \<Rightarrow> \<lparr>mr_maturity = Some k, mr_basis = ''section_label''\<rparr>
               | _ \<Rightarrow> \<lparr>mr_maturity = None, mr_basis = ''section_maturity_ambiguous''\<rparr>))"

section \<open>One candidate\<close>

definition validate_candidate ::
  "unicode \<Rightarrow> candidate_context \<Rightarrow> run_evidence \<Rightarrow> candidate_validation res" where
  "validate_candidate U ctx run =
     (let ops = check_operations (cc_concept_key ctx) (cc_operations ctx) (cc_operations_basis ctx)
      in bindR (validate_period (cc_period_kind ctx) (cc_start_date ctx) (cc_end_date ctx)
                  (cc_duration_months ctx) (cc_period_class ctx) (cc_fiscal_label ctx) run
                  (cc_period_derivation ctx)) (\<lambda>period.
         bindR (normalize_value U (cc_raw_value ctx) (cc_parsed_value ctx) (cc_representation_class ctx)
                  (cc_printed_decimals ctx) (cc_sign_as_printed ctx) (cc_value_type ctx)
                  (cc_reported_scale ctx) (cc_scale_basis ctx) (cc_reported_currency ctx)) (\<lambda>val.
         let ineligible = eligibility_reasons ctx run @
               (if or_trust ops \<noteq> ''trusted'' then (case or_reason ops of None \<Rightarrow> [] | Some r \<Rightarrow> [r]) else []) @
               pr_reasons period @
               (if vr_state val = ''inconsistent_input'' then [''value_inconsistent_input''] else []);
             norm = filter (\<lambda>r. r \<noteq> ''value_inconsistent_input'') (vr_reasons val)
         in Inr \<lparr>cv_version = validation_version, cv_source_key = cc_source_key ctx,
                 cv_candidate_id = cc_candidate_id ctx, cv_concept_key = cc_concept_key ctx,
                 cv_eligibility = (if ineligible \<noteq> [] then ''ineligible''
                                   else if norm \<noteq> [] then ''normalization_required'' else ''eligible''),
                 cv_ineligible_reasons = ineligible, cv_normalization_reasons = norm,
                 cv_period = period, cv_value = val, cv_operations = ops,
                 cv_maturity = borrowing_maturity U (cc_concept_key ctx) (cc_section_label_raw ctx)\<rparr>)))"

section \<open>The helpers compute what their names say\<close>

lemma power_loop_step: "0 < n \<and> n mod 10 = 0 \<Longrightarrow> power_loop n = power_loop (n div 10)"
  by (simp add: power_loop.simps [of n])

lemma power_loop_stop: "\<not> (0 < n \<and> n mod 10 = 0) \<Longrightarrow> power_loop n = n"
  by (auto simp: power_loop.simps [of n])

lemma power_loop_pow: "0 < n \<Longrightarrow> \<exists>k. n = power_loop n * 10 ^ k"
proof (induction n rule: power_loop.induct)
  case (1 n)
  show ?case
  proof (cases "n mod 10 = 0")
    case True
    with 1(2) have pos: "0 < n div 10" by auto
    then obtain k where "n div 10 = power_loop (n div 10) * 10 ^ k" using 1 True by auto
    moreover have "n = n div 10 * 10" using True by auto
    ultimately have "n = power_loop (n div 10) * 10 ^ Suc k" by simp
    moreover have "power_loop n = power_loop (n div 10)"
      using True 1(2) by (simp add: power_loop.simps [of n])
    ultimately show ?thesis by (simp del: power_Suc) blast
  next
    case False
    then have "n = power_loop n * 10 ^ 0" by (simp add: power_loop.simps [of n])
    then show ?thesis by blast
  qed
qed

lemma power_loop_of_pow: "power_loop (10 ^ k) = 1"
proof (induction k)
  case 0
  then show ?case by (simp add: power_loop.simps [of 1])
next
  case (Suc k)
  have "power_loop (10 * 10 ^ k) = power_loop (10 ^ k)"
    by (subst power_loop.simps) simp
  with Suc show ?case by simp
qed

text \<open>the scale test accepts exactly the powers of ten: the trailing-zero loop ends in 1 if and
  only if the scale is \<open>10 ^ k\<close> for some \<open>k\<close>, so no other scale multiplies a printed value.
\<close>

theorem is_power_of_ten_iff: "is_power_of_ten n \<longleftrightarrow> (\<exists>k. n = 10 ^ k)"
proof
  assume "is_power_of_ten n"
  then have "0 < n" "power_loop n = 1" by (auto simp: is_power_of_ten_def split: if_splits)
  then show "\<exists>k. n = 10 ^ k" using power_loop_pow [of n] by simp
qed (auto simp: is_power_of_ten_def power_loop_of_pow not_le)

end
