(* ===== verification/Diagnostics.thy ===== *)
theory Diagnostics
  imports Validation
begin

text \<open>
  The run-level half of \<open>financial_validation.py\<close>: the statement-column group of a candidate, the
  A1-A5 arithmetic diagnostics, the sign rules, one run's validation, and the adapter that
  builds the candidate contexts from an F5 result. Diagnostics never change a value.
\<close>

section \<open>Checks, terms and results\<close>

type_synonym group_key = "int \<times> string \<times> string \<times> string \<times> int \<times> string \<times> string"
type_synonym checked = "candidate_context \<times> candidate_validation"

record check =
  ck_id :: string
  ck_name :: string
  ck_kinds :: "string list"
  ck_total :: string
  ck_first :: string
  ck_second :: string
  ck_form :: string

record arith_term =
  at_role :: string
  at_concept_key :: "string option"
  at_source_key :: source_key
  at_raw_value :: ustr
  at_normalized_value :: "dec option"
  at_half_unit :: "dec option"
  at_currency :: "string option"

record arithmetic_result =
  ar_check_id :: string
  ar_name :: string
  ar_group_key :: group_key
  ar_outcome :: string
  ar_variant :: "string option"
  ar_terms :: "arith_term list"
  ar_total :: "dec option"
  ar_computed_as_printed :: "dec option"
  ar_computed_reversed :: "dec option"
  ar_tolerance :: "dec option"
  ar_difference_as_printed :: "dec option"
  ar_difference_reversed :: "dec option"
  ar_reasons :: "string list"

record sign_result =
  sg_source_key :: source_key
  sg_concept_key :: "string option"
  sg_natural_sign :: string
  sg_printed_sign :: string
  sg_convention :: string
  sg_basis :: string
  sg_contribution_safe :: bool
  sg_flip_required :: bool
  sg_contribution_value :: "dec option"
  sg_status :: string
  sg_reason :: "string option"

record run_validation =
  rv_version :: string
  rv_candidates :: "candidate_validation list"
  rv_arithmetic :: "arithmetic_result list"
  rv_signs :: "sign_result list"
  rv_conventions :: "(string \<times> int \<times> string \<times> string) list"

definition income_kinds :: "string list" where
  "income_kinds = [''profit_or_loss'', ''comprehensive_income'']"

definition mk_check :: "string \<Rightarrow> string \<Rightarrow> string list \<Rightarrow> string \<Rightarrow> string \<Rightarrow> string \<Rightarrow> string \<Rightarrow> check" where
  "mk_check i n kinds total_c first second form =
     \<lparr>ck_id = i, ck_name = n, ck_kinds = kinds, ck_total = total_c, ck_first = first, ck_second = second, ck_form = form\<rparr>"

definition a_checks :: "check list" where
  "a_checks = [
     mk_check ''A1'' ''assets_equal_liabilities_plus_equity'' [''financial_position''] ''total_assets''
       ''total_liabilities'' ''total_equity'' ''sum'',
     mk_check ''A2'' ''gross_profit_equals_revenue_pm_cost_of_sales'' income_kinds ''gross_profit''
       ''revenue'' ''cost_of_sales'' ''pm'',
     mk_check ''A3'' ''profit_equals_pbt_pm_tax'' income_kinds ''profit_for_period''
       ''profit_before_tax'' ''income_tax_expense'' ''pm'',
     mk_check ''A4'' ''owners_plus_nci_equals_profit'' income_kinds ''profit_for_period''
       ''profit_attributable_to_owners'' ''profit_attributable_to_nci'' ''pair'',
     mk_check ''A5'' ''nii_equals_interest_income_pm_interest_expense'' income_kinds ''net_interest_income''
       ''interest_income'' ''interest_expense'' ''pm'']"

definition sign_relation :: "string option \<Rightarrow> string option" where
  "sign_relation k = (if k = Some ''cost_of_sales'' then Some ''A2''
     else if k = Some ''income_tax_expense'' then Some ''A3''
     else if k = Some ''interest_expense'' then Some ''A5'' else None)"

definition arithmetic_group_key :: "candidate_context \<Rightarrow> group_key" where
  "arithmetic_group_key ctx =
     (let months = (if cc_period_kind ctx = Some ''duration''
                    then (case cc_duration_months ctx of None \<Rightarrow> - 1 | Some n \<Rightarrow> n) else - 1)
      in (cc_statement_root ctx, cc_statement_kind ctx,
          (case cc_period_kind ctx of None \<Rightarrow> [] | Some k \<Rightarrow> k),
          (case cc_end_date ctx of None \<Rightarrow> [] | Some d \<Rightarrow> isoformat d),
          months, cc_reported_scope ctx, cc_role ctx))"

definition usable :: "candidate_context \<Rightarrow> candidate_validation \<Rightarrow> bool" where
  "usable ctx val \<longleftrightarrow> cc_candidate_status ctx = ''proposed'' \<and> vr_status (cv_value val) = ''normalized'' \<and>
     cc_concept_key ctx \<noteq> None \<and> cc_period_derivation ctx = ''column'' \<and> cc_operations ctx = ''total_or_unstated''"

definition arith_term_of :: "string \<Rightarrow> checked \<Rightarrow> arith_term" where
  "arith_term_of role cv =
     \<lparr>at_role = role, at_concept_key = cc_concept_key (fst cv), at_source_key = cc_source_key (fst cv),
      at_raw_value = cc_raw_value (fst cv), at_normalized_value = vr_normalized_value (cv_value (snd cv)),
      at_half_unit = vr_half_unit (cv_value (snd cv)), at_currency = vr_currency (cv_value (snd cv))\<rparr>"

text \<open>The members of a group with one concept, in the order they arrived.\<close>

definition members_of :: "checked list \<Rightarrow> string \<Rightarrow> checked list" where
  "members_of pairs concept = filter (\<lambda>(ctx, val). cc_concept_key ctx = Some concept) pairs"

definition same_number :: "dec option \<Rightarrow> dec option \<Rightarrow> bool" where
  "same_number x y = (case (x, y) of (Some a, Some b) \<Rightarrow> dec_eq a b | (None, None) \<Rightarrow> True | _ \<Rightarrow> False)"

definition several_numbers :: "dec option list \<Rightarrow> bool" where
  "several_numbers vs = (case vs of [] \<Rightarrow> False | v # ws \<Rightarrow> list_ex (\<lambda>w. \<not> same_number v w) ws)"

definition key_of :: "checked \<Rightarrow> source_key" where
  "key_of cv = cc_source_key (fst cv)"

text \<open>
  \<open>_single\<close>: the one usable value of a concept, or why there is none. Sorting None together with
  numbers raises.
\<close>

definition single :: "checked list \<Rightarrow> string \<Rightarrow> (string + checked) res" where
  "single pairs concept =
     (let got = members_of pairs concept; ok = filter (\<lambda>(c, v). usable c v) got;
          vals = map (\<lambda>cv. vr_normalized_value (cv_value (snd cv))) ok
      in if got = [] then Inr (Inl (''missing:'' @ concept))
         else if ok = [] then Inr (Inl (''unusable:'' @ concept))
         else if None \<in> set vals \<and> list_ex (\<lambda>v. v \<noteq> None) vals then Inl TypeErr
         else if several_numbers vals then Inr (Inl (''multiple_values:'' @ concept))
         else Inr (Inr (hd (sort_key key_of ok))))"

section \<open>The arithmetic diagnostics\<close>

definition no_numbers :: "check \<Rightarrow> group_key \<Rightarrow> string \<Rightarrow> arith_term list \<Rightarrow> string list \<Rightarrow> arithmetic_result" where
  "no_numbers c key outcome terms reasons =
     \<lparr>ar_check_id = ck_id c, ar_name = ck_name c, ar_group_key = key, ar_outcome = outcome, ar_variant = None,
      ar_terms = terms, ar_total = None, ar_computed_as_printed = None, ar_computed_reversed = None,
      ar_tolerance = None, ar_difference_as_printed = None, ar_difference_reversed = None, ar_reasons = reasons\<rparr>"

definition too_far :: string where
  "too_far = ''difference_exceeds_printed_precision''"

text \<open>\<open>_decide\<close> on a total and two terms.\<close>

definition decide :: "check \<Rightarrow> group_key \<Rightarrow> arith_term \<Rightarrow> arith_term \<Rightarrow> arith_term \<Rightarrow> arithmetic_result res" where
  "decide c key t x y =
     (if length (remdups [at_currency t, at_currency x, at_currency y]) > 1
      then Inr (no_numbers c key ''insufficient_evidence'' [t, x, y] [''currency_mismatch''])
      else bindR (mapR (\<lambda>a. need (at_half_unit a)) [t, x, y]) (\<lambda>halves. bindR (dec_add halves) (\<lambda>tol.
        bindR (need (at_normalized_value t)) (\<lambda>total. bindR (need (at_normalized_value x)) (\<lambda>first.
        bindR (need (at_normalized_value y)) (\<lambda>second.
        bindR (dec_add [first, second]) (\<lambda>as_printed.
        bindR (dec_sub total as_printed) (\<lambda>e1.
        let d1 = dec_abs28 e1; ok1 = dec_le d1 tol;
            result = (\<lambda>ok variant rev d2.
              \<lparr>ar_check_id = ck_id c, ar_name = ck_name c, ar_group_key = key,
               ar_outcome = if ok then ''pass'' else ''fail'', ar_variant = variant, ar_terms = [t, x, y],
               ar_total = Some total, ar_computed_as_printed = Some as_printed, ar_computed_reversed = rev,
               ar_tolerance = Some tol, ar_difference_as_printed = Some d1, ar_difference_reversed = d2,
               ar_reasons = if ok then [] else [too_far]\<rparr>)
        in if ck_form c \<in> set [''sum'', ''pair''] then Inr (result ok1 (Some ''as_printed'') None None)
           else bindR (dec_sub first second) (\<lambda>reversed. bindR (dec_sub total reversed) (\<lambda>e2.
             let d2 = dec_abs28 e2; ok2 = dec_le d2 tol;
                 variant = if ok1 \<and> ok2 then Some ''either'' else if ok1 then Some ''as_printed''
                   else if ok2 then Some (''reversed_'' @ ck_second c) else None
             in Inr (result (ok1 \<or> ok2) variant (Some reversed) (Some d2))))))))))))"

definition evaluate_check :: "check \<Rightarrow> group_key \<Rightarrow> checked list \<Rightarrow> arithmetic_result res" where
  "evaluate_check c key members =
     (if members_of members (ck_total c) = []
      then Inr (no_numbers c key ''not_applicable'' [] [''total_not_reported:'' @ ck_total c])
      else bindR (single members (ck_total c)) (\<lambda>t. case t of
          Inl why \<Rightarrow> Inr (no_numbers c key ''insufficient_evidence'' [] [why])
        | Inr tot \<Rightarrow>
            bindR (single members (ck_first c)) (\<lambda>a. bindR (single members (ck_second c)) (\<lambda>b.
              case (a, b) of
                (Inr x, Inr y) \<Rightarrow> decide c key (arith_term_of ''total'' tot) (arith_term_of ''term'' x) (arith_term_of ''term'' y)
              | (Inl r, Inl s) \<Rightarrow> Inr (no_numbers c key ''insufficient_evidence'' [] [r, s])
              | (Inl r, Inr _) \<Rightarrow> Inr (no_numbers c key ''insufficient_evidence'' [] [r])
              | (Inr _, Inl s) \<Rightarrow> Inr (no_numbers c key ''insufficient_evidence'' [] [s])))))"

definition row_pos :: "checked \<Rightarrow> int \<times> int" where
  "row_pos cv = (cc_statement_index (fst cv), cc_row_index (fst cv))"

definition evaluate_pairs :: "check \<Rightarrow> group_key \<Rightarrow> checked list \<Rightarrow> arithmetic_result list res" where
  "evaluate_pairs c key members =
     (let owners_c = ck_first c; nci_c = ck_second c;
          owners = sort_key key_of (filter (\<lambda>(x, v). usable x v) (members_of members owners_c));
          ncis = sort_key row_pos (filter (\<lambda>(x, v). usable x v) (members_of members nci_c))
      in if members_of members owners_c = []
         then Inr [no_numbers c key ''not_applicable'' [] [''total_not_reported:'' @ owners_c]]
         else if owners = [] then Inr [no_numbers c key ''insufficient_evidence'' [] [''unusable:'' @ owners_c]]
         else bindR (single members (ck_total c)) (\<lambda>t.
           mapR (\<lambda>o'. case t of
               Inl why \<Rightarrow> Inr (no_numbers c key ''insufficient_evidence'' [] [why])
             | Inr tot \<Rightarrow>
                 (case filter (\<lambda>n. row_pos o' < row_pos n) ncis of
                    [] \<Rightarrow> Inr (no_numbers c key ''insufficient_evidence'' [arith_term_of ''term'' o']
                            [''missing:'' @ nci_c @ ''_after_owners_row''])
                  | n # _ \<Rightarrow> decide c key (arith_term_of ''total'' tot) (arith_term_of ''term'' o') (arith_term_of ''term'' n)))
             owners))"

definition group_kind :: "group_key \<Rightarrow> string" where
  "group_kind key = fst (snd key)"

definition arithmetic_diagnostics :: "checked list \<Rightarrow> arithmetic_result list res" where
  "arithmetic_diagnostics pairs =
     bindR (mapR (\<lambda>(key, members).
         bindR (mapR (\<lambda>c. if ck_form c = ''pair'' then evaluate_pairs c key members
                          else bindR (evaluate_check c key members) (\<lambda>r. Inr [r]))
                 (filter (\<lambda>c. group_kind key \<in> set (ck_kinds c)) a_checks)) (\<lambda>rss. Inr (concat rss)))
       (group_on (\<lambda>(ctx, val). arithmetic_group_key ctx) pairs)) (\<lambda>rsss. Inr (concat rsss))"

section \<open>Signs\<close>

definition sign_of :: "arithmetic_result list \<Rightarrow> checked \<Rightarrow> sign_result res" where
  "sign_of arithmetic cv =
     (let ctx = fst cv; val = snd cv;
          natural = (case concept_of (cc_concept_key ctx) of Some c \<Rightarrow> co_natural_sign c | None \<Rightarrow> ''unknown'');
          v = vr_normalized_value (cv_value val);
          res = (\<lambda>conv basis safe flip contrib status reason.
            \<lparr>sg_source_key = cc_source_key ctx, sg_concept_key = cc_concept_key ctx, sg_natural_sign = natural,
             sg_printed_sign = vr_sign_as_printed (cv_value val), sg_convention = conv, sg_basis = basis,
             sg_contribution_safe = safe, sg_flip_required = flip, sg_contribution_value = contrib,
             sg_status = status, sg_reason = reason\<rparr>);
          unestablished = (\<lambda>basis. res ''undetermined'' basis False False None ''normalization_required''
            (Some ''sign_convention_unestablished''))
      in if natural \<in> set [''balance'', ''as_printed'', ''outflow'', ''unknown'']
         then Inr (res ''not_applicable'' (''natural_sign_'' @ natural) False False None ''not_applicable'' None)
         else if natural = ''income''
         then Inr (res ''contribution_as_printed'' ''income_as_printed'' True False v ''ok'' None)
         else if same_number v (Some dec_zero)
         then Inr (res ''zero'' ''zero_value'' True False (Some dec_zero) ''ok'' None)
         else
           (let rel = sign_relation (cc_concept_key ctx);
                found = (case rel of None \<Rightarrow> [] | Some a \<Rightarrow>
                  filter (\<lambda>r. ar_group_key r = arithmetic_group_key ctx \<and> ar_check_id r = a \<and>
                    ar_outcome r \<in> set [''pass'', ''fail''] \<and>
                    list_ex (\<lambda>t. at_source_key t = cc_source_key ctx) (ar_terms r)) arithmetic);
                rel_name = (case rel of None \<Rightarrow> [] | Some a \<Rightarrow> a)
            in case found of
                 r # _ \<Rightarrow>
                   if ar_outcome r = ''pass'' \<and> ar_variant r = Some ''as_printed''
                   then Inr (res ''contribution_as_printed'' (rel_name @ ''_as_printed'') True False v ''ok'' None)
                   else if ar_outcome r = ''pass'' \<and>
                     (case ar_variant r of None \<Rightarrow> False | Some s \<Rightarrow> take 9 s = ''reversed_'')
                   then bindR (need v) (\<lambda>x. Inr (res ''magnitude_printed'' (rel_name @ ''_reversed'') True True
                          (Some (dec_neg28 x)) ''ok'' None))
                   else Inr (unestablished (rel_name @ ''_'' @ ar_outcome r))
               | [] \<Rightarrow> bindR (need v) (\<lambda>x.
                   if dec_lt x dec_zero
                   then Inr (res ''contribution_as_printed'' ''printed_negative_expense'' True False v ''ok'' None)
                   else Inr (unestablished ''positive_expense_without_relation''))))"

definition detect_signs :: "checked list \<Rightarrow> arithmetic_result list \<Rightarrow> sign_result list res" where
  "detect_signs pairs arithmetic =
     mapR (sign_of arithmetic) (filter (\<lambda>(c, v). usable c v) (sort_key key_of pairs))"

definition convention_key :: "sign_result \<Rightarrow> string \<times> int \<times> string" where
  "convention_key s = (fst (sg_source_key s), fst (snd (sg_source_key s)),
     case sg_concept_key s of None \<Rightarrow> [] | Some k \<Rightarrow> k)"

definition statement_sign_conventions :: "sign_result list \<Rightarrow> (string \<times> int \<times> string \<times> string) list" where
  "statement_sign_conventions signs =
     map (\<lambda>((run_key, stmt, concept), ss).
         let known = remdups (filter (\<lambda>c. c \<noteq> ''undetermined'') (map sg_convention ss))
         in (run_key, stmt, concept,
             (case known of [] \<Rightarrow> ''undetermined'' | [c] \<Rightarrow> c | _ \<Rightarrow> ''mixed'')))
       (group_on convention_key
         (filter (\<lambda>s. \<not> (sg_status s = ''not_applicable'' \<or> sg_convention s = ''zero'')) signs))"

section \<open>One run\<close>

definition validate_run :: "unicode \<Rightarrow> candidate_context list \<Rightarrow> run_evidence \<Rightarrow> run_validation res" where
  "validate_run U contexts run =
     (let ctxs = sort_key cc_source_key contexts
      in bindR (mapR (\<lambda>c. validate_candidate U c run) ctxs) (\<lambda>vals.
         bindR (arithmetic_diagnostics (zip ctxs vals)) (\<lambda>arithmetic.
         bindR (detect_signs (zip ctxs vals) arithmetic) (\<lambda>signs.
           Inr \<lparr>rv_version = validation_version, rv_candidates = vals, rv_arithmetic = arithmetic, rv_signs = signs,
                rv_conventions = statement_sign_conventions signs\<rparr>))))"

end
