(* ===== verification/Canonical.thy ===== *)
theory Canonical
  imports Calendar
begin

text \<open>
  The ordered JSON text an identity is hashed from: \<open>financial_truth/canonical.py\<close>
  (\<open>ordered_json\<close>), with \<open>json.dumps\<close> of strings, integers and None in ASCII. The text
  determines the values: two lists of fields with the same keys and the same text are equal.
\<close>

datatype plain = Text string | Number int | Null

definition hex_char :: "nat \<Rightarrow> char" where
  "hex_char n = (if n < 10 then char_of (48 + n) else char_of (87 + n))"

definition hex2 :: "nat \<Rightarrow> string" where
  "hex2 n = [hex_char (n div 16), hex_char (n mod 16)]"

text \<open>One character of a JSON string, as Python's ASCII encoder writes it.\<close>

definition json_char :: "char \<Rightarrow> string" where
  "json_char c =
     (if c = CHR 0x22 then [CHR 0x5C, CHR 0x22]
      else if c = CHR 0x5C then [CHR 0x5C, CHR 0x5C]
      else if c = CHR 0x0A then [CHR 0x5C, CHR ''n'']
      else if c = CHR 0x0D then [CHR 0x5C, CHR ''r'']
      else if c = CHR 0x09 then [CHR 0x5C, CHR ''t'']
      else if c = CHR 0x0C then [CHR 0x5C, CHR ''f'']
      else if c = CHR 0x08 then [CHR 0x5C, CHR ''b'']
      else if 32 \<le> (of_char c :: nat) \<and> (of_char c :: nat) \<le> 126 then [c]
      else [CHR 0x5C, CHR ''u'', CHR ''0'', CHR ''0''] @ hex2 (of_char c))"

definition json_string :: "string \<Rightarrow> string" where
  "json_string s = [CHR 0x22] @ concat (map json_char s) @ [CHR 0x22]"

definition json_plain :: "plain \<Rightarrow> string" where
  "json_plain v = (case v of Text s \<Rightarrow> json_string s | Number i \<Rightarrow> show_int i | Null \<Rightarrow> ''null'')"

fun json_fields :: "(string \<times> plain) list \<Rightarrow> string" where
  "json_fields [] = ''}''"
| "json_fields ((k, v) # fs) = json_string k @ '':'' @ json_plain v @ (if fs = [] then ''}'' else '','' @ json_fields fs)"

definition ordered_json :: "(string \<times> plain) list \<Rightarrow> string res" where
  "ordered_json pairs = (if distinct (map fst pairs) then Inr (''{'' @ json_fields pairs) else Inl ValueErr)"

section \<open>The text determines the values\<close>

lemma json_char_nonempty: "json_char c \<noteq> []"
  by (simp add: json_char_def)

lemma json_char_not_quote: "hd (json_char c) \<noteq> CHR 0x22"
  by (simp add: json_char_def)

lemma hex_char_inject: "m < 16 \<Longrightarrow> n < 16 \<Longrightarrow> hex_char m = hex_char n \<Longrightarrow> m = n"
proof -
  assume "m < 16" "n < 16" "hex_char m = hex_char n"
  moreover from this have "(of_char (hex_char m) :: nat) = of_char (hex_char n)" by simp
  ultimately show "m = n" by (simp add: hex_char_def split: if_splits)
qed

lemma hex2_inject: "hex2 (of_char c) = hex2 (of_char d) \<Longrightarrow> c = d"
proof -
  assume h: "hex2 (of_char c) = hex2 (of_char d)"
  have b: "(of_char c :: nat) < 256" "(of_char d :: nat) < 256"
    using of_char_of [of "of_char c :: nat"] nat_of_char_less_256 by blast+
  then have "(of_char c :: nat) div 16 = of_char d div 16" "(of_char c :: nat) mod 16 = of_char d mod 16"
    using h b by (auto simp: hex2_def less_mult_imp_div_less intro!: hex_char_inject)
  then have "(of_char c :: nat) = of_char d"
    by (metis div_mult_mod_eq)
  then show ?thesis by simp
qed

lemma json_char_prefix_free: "json_char c @ r = json_char d @ s \<Longrightarrow> c = d \<and> r = s"
  by (auto simp: json_char_def hex2_def dest: hex2_inject [unfolded hex2_def, OF arg_cong2 [of _ _ _ _ "\<lambda>a b. [a, b]"]]
      split: if_splits)

lemma json_chars_prefix_free:
  "concat (map json_char s) @ CHR 0x22 # r = concat (map json_char t) @ CHR 0x22 # q \<Longrightarrow> s = t \<and> r = q"
proof (induction s arbitrary: t)
  case Nil
  then show ?case
    using json_char_not_quote json_char_nonempty by (cases t) (auto simp: hd_append, metis append_Cons hd_append2 list.sel(1))
next
  case (Cons c s)
  show ?case
  proof (cases t)
    case Nil
    then show ?thesis
      using Cons.prems json_char_not_quote [of c] json_char_nonempty [of c]
      by (auto simp: hd_append) (metis append_Cons hd_append2 list.sel(1))
  next
    case (Cons d t')
    then have "json_char c @ concat (map json_char s) @ CHR 0x22 # r = json_char d @ concat (map json_char t') @ CHR 0x22 # q"
      using Cons.prems by simp
    from json_char_prefix_free [OF this] Cons.IH Cons show ?thesis by auto
  qed
qed

lemma json_string_prefix_free: "json_string s @ r = json_string t @ q \<Longrightarrow> s = t \<and> r = q"
  by (auto simp: json_string_def dest: json_chars_prefix_free)

text \<open>A number is followed by a comma or a brace, never by another digit.\<close>

definition number_char :: "char \<Rightarrow> bool" where
  "number_char c \<longleftrightarrow> c = CHR ''-'' \<or> c \<in> set [CHR ''0'', CHR ''1'', CHR ''2'', CHR ''3'', CHR ''4'', CHR ''5'', CHR ''6'', CHR ''7'', CHR ''8'', CHR ''9'']"

lemma digit_char_number: "number_char (digit_char n) \<and> digit_char n \<noteq> CHR ''-''"
proof -
  have "n mod 10 \<in> {0, 1, 2, 3, 4, 5, 6, 7, 8, 9}"
    by (simp only: insert_iff empty_iff) presburger
  then have "digit_char (n mod 10) \<in> set [CHR ''0'', CHR ''1'', CHR ''2'', CHR ''3'', CHR ''4'', CHR ''5'', CHR ''6'',
      CHR ''7'', CHR ''8'', CHR ''9'']" by auto
  then show ?thesis unfolding digit_char_mod number_char_def by auto
qed

lemma show_nat_number: "list_all number_char (show_nat n) \<and> show_nat n \<noteq> [] \<and> hd (show_nat n) \<noteq> CHR ''-''"
proof (induction n rule: show_nat.induct)
  case (1 n)
  show ?case
  proof (cases "n < 10")
    case True
    then show ?thesis using digit_char_number by (simp add: show_nat.simps [of n])
  next
    case False
    then show ?thesis using 1 digit_char_number by (simp add: show_nat.simps [of n] hd_append)
  qed
qed

lemma show_nat_inject: "show_nat m = show_nat n \<Longrightarrow> m = n"
proof (induction m arbitrary: n rule: show_nat.induct)
  case (1 m)
  have one: "length (show_nat k) = 1 \<longleftrightarrow> k < 10" for k
    using show_nat_number [of "k div 10"] by (simp add: show_nat.simps [of k])
  show ?case
  proof (cases "m < 10")
    case True
    then have "n < 10" using one 1(2) by metis
    then show ?thesis using True 1(2) by (simp add: show_nat.simps digit_char_inject)
  next
    case False
    then have "\<not> n < 10" using one 1(2) by metis
    then have "show_nat (m div 10) = show_nat (n div 10)" "m mod 10 = n mod 10"
      using False 1(2) by (simp_all add: show_nat.simps [of m] show_nat.simps [of n] digit_char_inject)
    then show ?thesis using 1(1) [OF False] by (metis div_mult_mod_eq)
  qed
qed

lemma show_int_number: "list_all number_char (show_int i) \<and> show_int i \<noteq> []"
  using show_nat_number by (simp add: show_int_def number_char_def)

lemma show_nat_no_minus: "CHR ''-'' # x \<noteq> show_nat n" "show_nat n \<noteq> CHR ''-'' # x"
  using show_nat_number [of n] by (metis list.sel(1))+

lemma show_int_inject: "show_int i = show_int j \<Longrightarrow> i = j"
  by (auto simp: show_int_def show_nat_no_minus split: if_splits dest!: show_nat_inject)

lemma show_int_prefix_free:
  assumes "show_int i @ r = show_int j @ q" and "r = [] \<or> \<not> number_char (hd r)" and "q = [] \<or> \<not> number_char (hd q)"
  shows "i = j \<and> r = q"
proof -
  have tw: "takeWhile number_char (show_int k @ x) = show_int k" if "x = [] \<or> \<not> number_char (hd x)" for k x
    using show_int_number [of k] that
    by (cases x) (auto simp: takeWhile_append2 list_all_iff)
  have "show_int i = show_int j" using tw [OF assms(2)] tw [OF assms(3)] assms(1) by metis
  with assms(1) show ?thesis by (auto dest: show_int_inject)
qed

lemma json_string_inject: "json_string s = json_string t \<Longrightarrow> s = t"
  using json_string_prefix_free [of s "[]" t "[]"] by simp

lemma json_plain_prefix_free:
  assumes "json_plain v @ r = json_plain w @ q" and "r = [] \<or> \<not> number_char (hd r)" and "q = [] \<or> \<not> number_char (hd q)"
  shows "v = w \<and> r = q"
proof -
  have n: "show_int i \<noteq> [] \<and> number_char (hd (show_int i))" for i
    using show_int_number [of i] by (cases "show_int i") auto
  have other: "show_int i @ x \<noteq> json_string s @ y" "show_int i @ x \<noteq> ''null'' @ y" for i x s y
  proof -
    have "number_char (hd (show_int i @ x))" using n [of i] by simp
    then show "show_int i @ x \<noteq> json_string s @ y" "show_int i @ x \<noteq> ''null'' @ y"
      by (auto simp: json_string_def number_char_def)
  qed
  have strnull: "json_string s @ x \<noteq> ''null'' @ y" for s x y by (simp add: json_string_def)
  show ?thesis
    using assms other other [symmetric] strnull strnull [symmetric]
    by (cases v; cases w) (auto simp: json_plain_def dest: json_string_prefix_free show_int_prefix_free
        json_string_inject show_int_inject)
qed

lemma json_fields_inject:
  "json_fields fs = json_fields gs \<Longrightarrow> map fst fs = map fst gs \<Longrightarrow> fs = gs"
proof (induction fs arbitrary: gs)
  case (Cons f fs)
  obtain k v where f: "f = (k, v)" by force
  from Cons.prems(2) obtain w gs' where gs: "gs = (k, w) # gs'" "map fst fs = map fst gs'"
    using f by (auto simp: Cons_eq_map_conv)
  let ?rest = "\<lambda>xs. if xs = [] then ''}'' else '','' @ json_fields xs"
  have "json_plain v @ ?rest fs = json_plain w @ ?rest gs'"
    using Cons.prems(1) f gs(1) by simp
  then have "v = w" "?rest fs = ?rest gs'"
    using json_plain_prefix_free [of v "?rest fs" w "?rest gs'"] by (auto simp: number_char_def)
  moreover have "fs = [] \<longleftrightarrow> gs' = []" using gs(2) by (metis map_is_Nil_conv)
  ultimately have "fs = gs'"
    using Cons.IH gs(2) by (cases "fs = []") auto
  with \<open>v = w\<close> f gs(1) show ?case by simp
qed simp

lemma ordered_json_inject:
  "ordered_json fs = Inr t \<Longrightarrow> ordered_json gs = Inr t \<Longrightarrow> map fst fs = map fst gs \<Longrightarrow> fs = gs"
  by (auto simp: ordered_json_def split: if_splits dest: json_fields_inject)

end
