(* ===== verification/Inputs.thy ===== *)
theory Inputs
  imports Validation Canonical
begin

text \<open>
  The explicit inputs of a validation run (\<open>financial_truth/inputs.py\<close>, \<open>versions.py\<close>): the F5
  run reference, the issuer-link decision, the document context and the publication date under
  f6.inputs.1. Instants are microseconds in UTC; the constructors check what the dataclasses
  check in \<open>__post_init__\<close> and raise InputError.
\<close>

section \<open>Versions\<close>

record version_set =
  vs_validation_version :: string
  vs_input_policy_version :: string
  vs_op1_version :: string
  vs_admission_version :: string
  vs_identity_version :: string

definition input_policy_version :: string where
  "input_policy_version = ''f6.inputs.1''"

definition op1_version :: string where
  "op1_version = ''f6.op1.partition.1''"

definition admission_version :: string where
  "admission_version = ''f6.admission.1''"

definition identity_version :: string where
  "identity_version = ''f6.identity.1''"

definition reconciliation_version :: string where
  "reconciliation_version = ''f6.reconciliation.1''"

definition implemented :: version_set where
  "implemented = \<lparr>vs_validation_version = validation_version, vs_input_policy_version = input_policy_version,
     vs_op1_version = op1_version, vs_admission_version = admission_version,
     vs_identity_version = identity_version\<rparr>"

section \<open>The publication date (f6.inputs.1)\<close>

record publication_result =
  pi_policy_version :: string
  pi_source_field :: string
  pi_uploaded_at :: "instant option"
  pi_publication_date :: "date option"

text \<open>2006-04-14 18:30 UTC, and the ordinal of 9999-12-31.\<close>

definition colombo_offset_valid_from :: instant where
  "colombo_offset_valid_from = 1145039400 * 1000000"

definition max_ordinal :: int where
  "max_ordinal = 3652059"

definition publication_source :: string where
  "publication_source = ''report_filings.uploaded_at''"

definition publication_input :: "instant option \<Rightarrow> publication_result res" where
  "publication_input uploaded_at =
     (let result = (\<lambda>ts d. \<lparr>pi_policy_version = input_policy_version, pi_source_field = publication_source,
            pi_uploaded_at = ts, pi_publication_date = d\<rparr>)
      in case uploaded_at of
           None \<Rightarrow> Inr (result None None)
         | Some t \<Rightarrow>
             guardR (t < colombo_offset_valid_from) InputError
             (guardR (max_ordinal < colombo_day t + epoch_ordinal) Overflow
               (Inr (result (Some t) (Some (date_of_day (colombo_day t)))))))"

section \<open>Issuer link and document\<close>

record issuer_link =
  il_cse_filing_id :: int
  il_status :: string
  il_basis :: string
  il_issuer_id :: "string option"
  il_link_id :: "int option"
  il_decided_at :: "instant option"

definition link_statuses :: "string list" where
  "link_statuses = [''evidenced'', ''conflict'', ''unresolved'']"

definition link_bases :: "string list" where
  "link_bases = [''document_path_prefix'', ''listing_symbol_sec_id'', ''both'', ''none'']"

definition mk_issuer_link :: "issuer_link \<Rightarrow> issuer_link res" where
  "mk_issuer_link l =
     guardR (il_status l \<notin> set link_statuses) InputError
     (guardR (il_basis l \<notin> set link_bases) InputError
     (guardR (case il_issuer_id l of None \<Rightarrow> False | Some i \<Rightarrow> strip i = []) InputError
     (guardR ((il_status l = ''evidenced'') \<noteq> (il_issuer_id l \<noteq> None)) InputError
     (guardR (il_status l = ''evidenced'' \<and> il_basis l = ''none'') InputError
       (Inr l)))))"

record document_context =
  dc_classifier_version :: "string option"
  dc_text_extractor :: "string option"
  dc_document_type :: "string option"
  dc_document_type_status :: "string option"
  dc_underlying_type :: "string option"
  dc_underlying_type_status :: "string option"
  dc_fiscal_year_end_basis :: "string option"
  dc_fiscal_year_end_status :: "string option"
  dc_period_status :: "string option"
  dc_classification_id :: "string option"

section \<open>The F5 run\<close>

record f5_run_ref =
  fr_f5_run_id :: string
  fr_cse_filing_id :: int
  fr_document_sha256 :: string
  fr_word_extractor :: string
  fr_f4_extractor_version :: string
  fr_classifier_version :: string
  fr_text_extractor :: "string option"
  fr_builder_version :: string
  fr_mapper_version :: string
  fr_vocabulary_version :: string
  fr_recorded_at :: "instant option"
  fr_classification_id :: "string option"
  fr_content_sha256 :: "string option"
  fr_timestamps :: "(string \<times> string option) list"

definition f3_version :: "f5_run_ref \<Rightarrow> string \<times> string option" where
  "f3_version r = (fr_classifier_version r, fr_text_extractor r)"

definition f4_version :: "f5_run_ref \<Rightarrow> string \<times> string" where
  "f4_version r = (fr_word_extractor r, fr_f4_extractor_version r)"

definition f5_version :: "f5_run_ref \<Rightarrow> string \<times> string \<times> string" where
  "f5_version r = (fr_builder_version r, fr_mapper_version r, fr_vocabulary_version r)"

definition mk_f5_run_ref :: "f5_run_ref \<Rightarrow> f5_run_ref res" where
  "mk_f5_run_ref r =
     guardR (fr_f5_run_id r = []) InputError
     (guardR (\<not> hex64 (fr_document_sha256 r)) InputError
     (guardR ([] \<in> set [fr_word_extractor r, fr_f4_extractor_version r, fr_classifier_version r,
                        fr_builder_version r, fr_mapper_version r, fr_vocabulary_version r]) InputError
       (Inr (r\<lparr>fr_timestamps := sort_key (\<lambda>(k, v). (k, v \<noteq> None, case v of None \<Rightarrow> [] | Some s \<Rightarrow> s)) (fr_timestamps r)\<rparr>))))"

text \<open>The fields of an F5 result's run block, as the reference holds them.\<close>

definition f5_run_field :: "f5_run_ref \<Rightarrow> string \<Rightarrow> plain" where
  "f5_run_field r f =
     (if f = ''cse_filing_id'' then Number (fr_cse_filing_id r)
      else if f = ''document_sha256'' then Text (fr_document_sha256 r)
      else if f = ''word_extractor'' then Text (fr_word_extractor r)
      else if f = ''f4_extractor_version'' then Text (fr_f4_extractor_version r)
      else if f = ''classifier_version'' then Text (fr_classifier_version r)
      else if f = ''text_extractor'' then (case fr_text_extractor r of None \<Rightarrow> Null | Some t \<Rightarrow> Text t)
      else if f = ''builder_version'' then Text (fr_builder_version r)
      else if f = ''mapper_version'' then Text (fr_mapper_version r)
      else Text (fr_vocabulary_version r))"

definition f5_run_fields :: "string list" where
  "f5_run_fields = [''cse_filing_id'', ''document_sha256'', ''word_extractor'', ''f4_extractor_version'',
     ''classifier_version'', ''text_extractor'', ''builder_version'', ''mapper_version'', ''vocabulary_version'']"

definition both_differ :: "'a option \<Rightarrow> 'a option \<Rightarrow> bool" where
  "both_differ x y \<longleftrightarrow> (case (x, y) of (Some a, Some b) \<Rightarrow> a \<noteq> b | _ \<Rightarrow> False)"

definition check_consistency ::
  "(string \<times> plain) list \<Rightarrow> f5_run_ref \<Rightarrow> issuer_link option \<Rightarrow> document_context \<Rightarrow> unit res" where
  "check_consistency run r link doc =
     guardR (list_ex (\<lambda>f. case map_of run f of None \<Rightarrow> False | Some v \<Rightarrow> v \<noteq> f5_run_field r f) f5_run_fields) InputError
     (guardR (case link of None \<Rightarrow> False | Some l \<Rightarrow> il_cse_filing_id l \<noteq> fr_cse_filing_id r) InputError
     (guardR (case dc_classifier_version doc of None \<Rightarrow> False | Some v \<Rightarrow> v \<noteq> fr_classifier_version r) InputError
     (guardR (both_differ (dc_text_extractor doc) (fr_text_extractor r)) InputError
     (guardR (both_differ (dc_classification_id doc) (fr_classification_id r)) InputError
       (Inr ())))))"

section \<open>What the constructors guarantee\<close>

lemma mk_issuer_link_ok:
  "mk_issuer_link l = Inr m \<Longrightarrow>
     m = l \<and> (il_status l = ''evidenced'' \<longleftrightarrow> il_issuer_id l \<noteq> None) \<and>
     (il_status l = ''evidenced'' \<longrightarrow> il_basis l \<in> {''document_path_prefix'', ''listing_symbol_sec_id'', ''both''})"
  by (auto simp: mk_issuer_link_def guardR_eq_Inr link_bases_def)

lemma publication_input_None: "publication_input None = Inr p \<Longrightarrow> pi_publication_date p = None"
  by (auto simp: publication_input_def Let_def)

lemma publication_input_Some:
  "publication_input (Some t) = Inr p \<Longrightarrow>
     pi_publication_date p = Some (date_of_day (colombo_day t)) \<and> colombo_offset_valid_from \<le> t"
  by (auto simp: publication_input_def guardR_eq_Inr Let_def)

end
