(* ===== verification/OP1.thy ===== *)
theory OP1
  imports Diagnostics Inputs
begin

text \<open>
  f6.op1.partition.1 (\<open>financial_truth/op1.py\<close>): the only way a section-derived operations value
  is admitted. One record per statement column and concept with a section-derived candidate. The
  digest that names a record is a parameter.
\<close>

record op1_row =
  ow_source_key :: source_key
  ow_operations_basis :: string
  ow_raw_value :: ustr
  ow_value_state :: string
  ow_value_status :: string
  ow_normalized_value :: "dec option"
  ow_half_unit :: "dec option"
  ow_currency :: "string option"
  ow_value_type :: "string option"

record op1_term =
  ot_operations :: string
  ot_rows :: "op1_row list"
  ot_status :: string
  ot_number :: "dec option"
  ot_half_unit :: "dec option"

record op1_record =
  oc_version :: string
  oc_key :: string
  oc_group_key :: group_key
  oc_concept_key :: string
  oc_terms :: "op1_term list"
  oc_currency :: "string option"
  oc_value_type :: "string option"
  oc_computed :: "dec option"
  oc_total :: "dec option"
  oc_tolerance :: "dec option"
  oc_difference :: "dec option"
  oc_outcome :: string
  oc_reasons :: "string list"
  oc_validated :: "source_key list"

definition nil_states :: "string list" where
  "nil_states = [''reported_nil'', ''reported_nil_word'']"

definition op1_row_of :: "checked \<Rightarrow> op1_row" where
  "op1_row_of cv =
     (let v = cv_value (snd cv)
      in \<lparr>ow_source_key = cc_source_key (fst cv), ow_operations_basis = cc_operations_basis (fst cv),
          ow_raw_value = cc_raw_value (fst cv), ow_value_state = vr_state v, ow_value_status = vr_status v,
          ow_normalized_value = vr_normalized_value v, ow_half_unit = vr_half_unit v,
          ow_currency = vr_currency v, ow_value_type = vr_value_type v\<rparr>)"

definition the_values :: "'a option list \<Rightarrow> 'a list" where
  "the_values xs = List.map_filter (\<lambda>x. x) xs"

text \<open>The smallest of some decimals: the first one no later one is below.\<close>

fun dec_min :: "dec list \<Rightarrow> dec res" where
  "dec_min [] = Inl ValueErr"
| "dec_min [x] = Inr x"
| "dec_min (x # y # ys) = dec_min ((if dec_lt y x then y else x) # ys)"

fun dec_max :: "dec list \<Rightarrow> dec res" where
  "dec_max [] = Inl ValueErr"
| "dec_max [x] = Inr x"
| "dec_max (x # y # ys) = dec_max ((if dec_lt x y then y else x) # ys)"

definition op1_term_of :: "string \<Rightarrow> checked list \<Rightarrow> op1_term res" where
  "op1_term_of operations pairs =
     (let rows = sort_key ow_source_key (map op1_row_of pairs);
          result = (\<lambda>status v h. \<lparr>ot_operations = operations, ot_rows = rows, ot_status = status,
            ot_number = v, ot_half_unit = h\<rparr>)
      in if rows = [] then Inr (result ''missing'' None None)
         else if list_ex (\<lambda>r. ow_value_state r \<in> set nil_states) rows then Inr (result ''nil'' None None)
         else if list_ex (\<lambda>r. ow_value_state r \<noteq> ''numeric'') rows then Inr (result ''non_numeric'' None None)
         else if list_ex (\<lambda>r. ow_value_status r \<noteq> ''normalized'') rows then Inr (result ''not_normalized'' None None)
         else if several_numbers (map ow_normalized_value rows) then Inr (result ''multiple_values'' None None)
         else bindR (dec_min (the_values (map ow_half_unit rows))) (\<lambda>h.
           Inr (result ''usable'' (ow_normalized_value (hd rows)) (Some h))))"

text \<open>\<open>_record\<close>: the three terms, why they cannot be added, then the partition test.\<close>

definition op1_currencies :: "op1_term list \<Rightarrow> string list" where
  "op1_currencies terms = sorted_set (the_values (map ow_currency (concat (map ot_rows terms))))"

definition op1_value_types :: "op1_term list \<Rightarrow> string list" where
  "op1_value_types terms = sorted_set (the_values (map ow_value_type (concat (map ot_rows terms))))"

definition op1_reasons :: "op1_term list \<Rightarrow> string list" where
  "op1_reasons terms =
     (let reasons = map (\<lambda>x. ot_status x @ '':'' @ ot_operations x) (filter (\<lambda>x. ot_status x \<noteq> ''usable'') terms);
          rows = concat (map ot_rows terms)
      in if reasons \<noteq> [] then reasons
         else (if length (op1_currencies terms) \<noteq> 1 \<or> None \<in> set (map ow_currency rows)
               then [''currency_mismatch''] else []) @
              (if length (op1_value_types terms) \<noteq> 1 \<or> None \<in> set (map ow_value_type rows)
               then [''value_type_mismatch''] else []))"

definition partition_test :: "op1_term \<Rightarrow> op1_term \<Rightarrow> op1_term \<Rightarrow> (dec \<times> dec \<times> dec \<times> dec) res" where
  "partition_test c d t =
     bindR (mapR (\<lambda>x. need (ot_half_unit x)) [c, d, t]) (\<lambda>halves. bindR (dec_add halves) (\<lambda>tol.
     bindR (mapR (\<lambda>x. need (ot_number x)) [c, d]) (\<lambda>parts. bindR (dec_add parts) (\<lambda>computed.
     bindR (need (ot_number t)) (\<lambda>total_v. bindR (dec_abs_diff computed total_v) (\<lambda>diff.
       Inr (computed, total_v, tol, diff)))))))"

definition op1_validated :: "op1_term \<Rightarrow> op1_term \<Rightarrow> source_key list" where
  "op1_validated c d = sort (map ow_source_key
     (filter (\<lambda>r. ow_operations_basis r = ''section_label'') (ot_rows c @ ot_rows d)))"

definition op1_finish ::
  "(group_key \<Rightarrow> string \<Rightarrow> string) \<Rightarrow> group_key \<Rightarrow> string \<Rightarrow> op1_term \<Rightarrow> op1_term \<Rightarrow> op1_term \<Rightarrow> op1_record res" where
  "op1_finish dg key concept c d t =
     (let terms = [c, d, t]; currencies = op1_currencies terms; value_types = op1_value_types terms;
          result = (\<lambda>computed total_v tol diff outcome why validated.
            \<lparr>oc_version = op1_version, oc_key = dg key concept, oc_group_key = key, oc_concept_key = concept,
             oc_terms = terms, oc_currency = (if length currencies = 1 then Some (hd currencies) else None),
             oc_value_type = (if length value_types = 1 then Some (hd value_types) else None),
             oc_computed = computed, oc_total = total_v, oc_tolerance = tol, oc_difference = diff,
             oc_outcome = outcome, oc_reasons = why, oc_validated = validated\<rparr>)
      in if op1_reasons terms \<noteq> []
         then Inr (result None None None None ''insufficient_evidence'' (op1_reasons terms) [])
         else bindR (partition_test c d t) (\<lambda>(computed, total_v, tol, diff).
           let passed = dec_le diff tol
           in Inr (result (Some computed) (Some total_v) (Some tol) (Some diff)
                (if passed then ''pass'' else ''fail'') (if passed then [] else [too_far])
                (if passed then op1_validated c d else []))))"

definition op1_record_of :: "(group_key \<Rightarrow> string \<Rightarrow> string) \<Rightarrow> group_key \<Rightarrow> string \<Rightarrow> checked list \<Rightarrow> op1_record res" where
  "op1_record_of dg key concept members =
     (let by_ops = (\<lambda>ops. filter (\<lambda>(ctx, val). cc_operations ctx = ops) members)
      in bindR (op1_term_of ''continuing'' (by_ops ''continuing'')) (\<lambda>c.
         bindR (op1_term_of ''discontinued'' (by_ops ''discontinued'')) (\<lambda>d.
         bindR (op1_term_of ''total_or_unstated'' (by_ops ''total_or_unstated'')) (\<lambda>t.
           op1_finish dg key concept c d t))))"

definition op1_wanted :: "checked list \<Rightarrow> (group_key \<times> string) list" where
  "op1_wanted pairs = sorted_set (the_values (map (\<lambda>(ctx, val).
     if cc_operations_basis ctx = ''section_label''
     then map_option (\<lambda>k. (arithmetic_group_key ctx, k)) (cc_concept_key ctx) else None) pairs))"

definition op1_members :: "group_key \<Rightarrow> string \<Rightarrow> checked list \<Rightarrow> checked list" where
  "op1_members key concept pairs = filter (\<lambda>(ctx, val).
     cc_candidate_status ctx = ''proposed'' \<and> cc_period_derivation ctx = ''column'' \<and>
     arithmetic_group_key ctx = key \<and> cc_concept_key ctx = Some concept) pairs"

definition op1_evaluate :: "(group_key \<Rightarrow> string \<Rightarrow> string) \<Rightarrow> checked list \<Rightarrow> op1_record list res" where
  "op1_evaluate dg pairs =
     mapR (\<lambda>(key, concept). op1_record_of dg key concept (op1_members key concept pairs)) (op1_wanted pairs)"

type_synonym op1_index = "group_key \<times> string \<Rightarrow> op1_record option"

definition op1_index_of :: "op1_record list \<Rightarrow> op1_index" where
  "op1_index_of recs = map_of (rev (map (\<lambda>r. ((oc_group_key r, oc_concept_key r), r)) recs))"

text \<open>A-3: (route, record key, refusal, lift).\<close>

definition operations_decision ::
  "candidate_context \<Rightarrow> op1_index \<Rightarrow> string option \<times> string option \<times> string option \<times> bool" where
  "operations_decision ctx records =
     (if cc_operations_basis ctx \<noteq> ''section_label'' then (Some (cc_operations_basis ctx), None, None, False)
      else
        (let rec = (case cc_concept_key ctx of None \<Rightarrow> None | Some k \<Rightarrow> records (arithmetic_group_key ctx, k))
         in case rec of
              Some r \<Rightarrow>
                if oc_outcome r = ''pass'' \<and> cc_source_key ctx \<in> set (oc_validated r)
                then (Some ''section_label+op1'', Some (oc_key r), None, True)
                else (None, Some (oc_key r), Some (''operations_section_derived_unvalidated:'' @
                       (if oc_outcome r \<noteq> ''pass'' then oc_outcome r else ''insufficient_evidence'')), False)
            | None \<Rightarrow> (None, None, Some (''operations_section_derived_unvalidated:'' @ ''insufficient_evidence''), False)))"

end
