(* ===== verification/Identity.thy ===== *)
theory Identity
  imports Inputs
begin

text \<open>
  f6.identity.1 (\<open>financial_truth/identity.py\<close>): what an economic fact is. The key of a fact is
  the SHA-256 of an ordered JSON object; SHA-256 is a parameter (a function from the ASCII text
  to its hex digest), and the theorems say what its collision freedom would give.
\<close>

record economic_fact =
  ef_identity_version :: string
  ef_issuer_id :: string
  ef_concept_key :: string
  ef_period_kind :: string
  ef_period_end :: date
  ef_duration_months :: "int option"
  ef_scope :: string
  ef_operations :: string
  ef_maturity :: string
  ef_currency :: string

definition period_kinds :: "string list" where
  "period_kinds = [''instant'', ''duration'']"

definition identity_scopes :: "string list" where
  "identity_scopes = [''group'', ''company'', ''bank'', ''unlabelled'']"

definition identity_operations :: "string list" where
  "identity_operations = [''total_or_unstated'', ''continuing'', ''discontinued'']"

definition maturities :: "string list" where
  "maturities = [''current'', ''non_current'']"

definition maturity_not_applicable :: string where
  "maturity_not_applicable = ''not_applicable''"

text \<open>\<open>__post_init__\<close>: the checks in their order, all raising IdentityError.\<close>

definition mk_identity :: "economic_fact \<Rightarrow> economic_fact res" where
  "mk_identity i =
     guardR (ef_identity_version i \<noteq> identity_version) IdentityError
     (guardR (strip (ef_issuer_id i) = []) IdentityError
     (guardR (case by_key (ef_concept_key i) of None \<Rightarrow> True | Some c \<Rightarrow> co_status c \<noteq> ''active'') IdentityError
     (guardR (ef_period_kind i \<notin> set period_kinds \<or>
              (case by_key (ef_concept_key i) of None \<Rightarrow> True | Some c \<Rightarrow> co_period_kind c \<noteq> ef_period_kind i)) IdentityError
     (guardR (if ef_period_kind i = ''duration''
              then (case ef_duration_months i of None \<Rightarrow> True | Some n \<Rightarrow> n \<le> 0)
              else ef_duration_months i \<noteq> None) IdentityError
     (guardR (ef_scope i \<notin> set identity_scopes) IdentityError
     (guardR (ef_operations i \<notin> set identity_operations) IdentityError
     (guardR (ef_maturity i \<notin> set (if in_opt (Some (ef_concept_key i)) borrowing_concepts then maturities
                                   else [maturity_not_applicable])) IdentityError
     (guardR (\<not> currency_code (ef_currency i)) IdentityError
       (Inr i)))))))))"

text \<open>\<open>identity_fields\<close> and \<open>canonical_json\<close>: the fields in f6.identity.1 order, values plain.\<close>

definition identity_fields :: "economic_fact \<Rightarrow> (string \<times> plain) list" where
  "identity_fields i =
     [(''identity_version'', Text (ef_identity_version i)), (''issuer_id'', Text (ef_issuer_id i)),
      (''concept_key'', Text (ef_concept_key i)), (''period_kind'', Text (ef_period_kind i)),
      (''period_end'', Text (isoformat (ef_period_end i))),
      (''duration_months'', (case ef_duration_months i of None \<Rightarrow> Null | Some n \<Rightarrow> Number n)),
      (''scope'', Text (ef_scope i)), (''operations'', Text (ef_operations i)),
      (''maturity'', Text (ef_maturity i)), (''currency'', Text (ef_currency i))]"

definition identity_json :: "economic_fact \<Rightarrow> string res" where
  "identity_json i = ordered_json (identity_fields i)"

definition ef_key :: "(string \<Rightarrow> string) \<Rightarrow> economic_fact \<Rightarrow> string res" where
  "ef_key sha i = bindR (identity_json i) (\<lambda>t. Inr (sha t))"

definition without_currency :: "economic_fact \<Rightarrow> plain list" where
  "without_currency i = map snd (filter (\<lambda>(k, v). k \<noteq> ''currency'') (identity_fields i))"

section \<open>The identity and its text\<close>

lemma identity_json_ok: "\<exists>t. identity_json i = Inr t"
  by (simp add: identity_json_def ordered_json_def identity_fields_def)

definition identity_text :: "economic_fact \<Rightarrow> string" where
  "identity_text i = ''{'' @ json_fields (identity_fields i)"

lemma identity_json_text: "identity_json i = Inr (identity_text i)"
  by (simp add: identity_json_def ordered_json_def identity_text_def identity_fields_def)

lemma ef_key_text: "ef_key sha i = Inr (sha (identity_text i))"
  by (simp add: ef_key_def identity_json_text)

lemma identity_fields_inject:
  assumes "identity_fields i = identity_fields j" and "valid_date (ef_period_end i)" and "valid_date (ef_period_end j)"
  shows "i = j"
proof -
  have "ef_period_end i = ef_period_end j"
    using assms by (intro isoformat_inject) (simp_all add: identity_fields_def)
  moreover have "ef_duration_months i = ef_duration_months j"
    using assms(1) by (auto simp: identity_fields_def split: option.splits)
  ultimately show ?thesis
    using assms(1) by (simp add: identity_fields_def)
qed

text \<open>
  C35: the text an identity is hashed from determines the identity: two facts with different
  issuer, concept, period, scope, operations, maturity or currency never share their canonical
  JSON, whatever characters the issuer id holds. So as long as SHA-256 does not collide on these
  texts, two facts share a key only when they are the same fact.
\<close>

theorem ef_key_identifies:
  assumes "valid_date (ef_period_end i)" and "valid_date (ef_period_end j)"
    and "inj_on sha (range identity_text)"
  shows "ef_key sha i = ef_key sha j \<longleftrightarrow> i = j"
proof
  assume "ef_key sha i = ef_key sha j"
  then have "identity_text i = identity_text j"
    using assms(3) by (auto simp: ef_key_text dest: inj_onD)
  then have "identity_fields i = identity_fields j"
    by (intro json_fields_inject) (simp_all add: identity_text_def identity_fields_def)
  then show "i = j" using assms(1,2) by (rule identity_fields_inject)
qed simp

definition sample_fact :: economic_fact where
  "sample_fact = \<lparr>ef_identity_version = ''f6.identity.1'', ef_issuer_id = ''JKH'', ef_concept_key = ''revenue'',
     ef_period_kind = ''duration'', ef_period_end = Date 2024 3 31, ef_duration_months = Some 12,
     ef_scope = ''group'', ef_operations = ''total_or_unstated'', ef_maturity = ''not_applicable'',
     ef_currency = ''LKR''\<rparr>"

lemma ef_key_identifies_witness:
  "ef_key id sample_fact \<noteq> ef_key id (sample_fact\<lparr>ef_scope := ''company''\<rparr>)"
  using ef_key_identifies [of sample_fact "sample_fact\<lparr>ef_scope := ''company''\<rparr>" id]
  by (simp add: sample_fact_def valid_date_def days_in_month_def)

text \<open>
  An accepted identity is well formed: the version is the implemented one, the concept is
  active and of this period kind, a duration has positive months and an instant none, borrowings
  carry a maturity and nothing else does, and scope and operations come from the closed lists.
\<close>

theorem mk_identity_well_formed:
  assumes "mk_identity i = Inr j"
  shows "j = i \<and> ef_identity_version i = ''f6.identity.1'' \<and>
    (\<exists>c \<in> set concepts. co_key c = ef_concept_key i \<and> co_status c = ''active'' \<and> co_period_kind c = ef_period_kind i) \<and>
    (ef_period_kind i = ''duration'' \<and> (\<exists>n > 0. ef_duration_months i = Some n) \<or>
     ef_period_kind i = ''instant'' \<and> ef_duration_months i = None) \<and>
    (if ef_concept_key i = ''interest_bearing_borrowings'' then ef_maturity i \<in> {''current'', ''non_current''}
     else ef_maturity i = ''not_applicable'') \<and>
    ef_scope i \<in> {''group'', ''company'', ''bank'', ''unlabelled''} \<and>
    ef_operations i \<in> {''total_or_unstated'', ''continuing'', ''discontinued''} \<and> currency_code (ef_currency i)"
proof -
  note a = assms [unfolded mk_identity_def guardR_eq_Inr]
  obtain c where c: "by_key (ef_concept_key i) = Some c" "co_status c = ''active''" "co_period_kind c = ef_period_kind i"
    using a by (auto split: option.splits)
  moreover have "c \<in> set concepts \<and> co_key c = ef_concept_key i" using by_key_Some [OF c(1)] .
  moreover have "(if ef_concept_key i = ''interest_bearing_borrowings'' then ef_maturity i \<in> {''current'', ''non_current''}
     else ef_maturity i = ''not_applicable'')"
    using a by (auto simp: in_opt_def borrowing_concepts_def maturities_def maturity_not_applicable_def split: if_splits)
  moreover have "ef_period_kind i = ''duration'' \<and> (\<exists>n > 0. ef_duration_months i = Some n) \<or>
     ef_period_kind i = ''instant'' \<and> ef_duration_months i = None"
    using a by (auto simp: period_kinds_def not_le split: if_splits option.splits)
  moreover have "j = i" "ef_identity_version i = ''f6.identity.1''" "currency_code (ef_currency i)"
    "ef_scope i \<in> set identity_scopes" "ef_operations i \<in> set identity_operations"
    using a by (elim conjE; simp add: identity_version_def)+
  ultimately show ?thesis
    unfolding identity_scopes_def identity_operations_def list.set by blast
qed

lemma sample_fact_ok: "mk_identity sample_fact = Inr sample_fact"
  by (simp add: mk_identity_def sample_fact_def guardR_def identity_version_def strip_def is_space_def by_key_def
      concepts_def mk_concept_def period_kinds_def identity_scopes_def identity_operations_def in_opt_def
      borrowing_concepts_def maturity_not_applicable_def currency_code_def match_line_def is_upper_letter_def)

lemma mk_identity_well_formed_witness: "mk_identity sample_fact = Inr sample_fact \<and> currency_code ''LKR''"
  using mk_identity_well_formed [OF sample_fact_ok] sample_fact_ok by (simp add: sample_fact_def)

end
