(* ===== verification/Admission.thy ===== *)
theory Admission
  imports OP1 Identity
begin

text \<open>
  f6.admission.1 (\<open>financial_truth/admission.py\<close>): which validated candidates become members of
  a source observation, rule by rule (A-1 to A-6), every refusal recorded. SHA-256 and the
  digests of records are parameters, collected in one record.
\<close>

record candidate_attributes =
  ca_role_basis :: "string option"
  ca_period_evidence_source :: "string option"
  ca_printed_start :: "date option"
  ca_reported_scope_basis :: "string option"
  ca_canonical_scope_basis :: "string option"
  ca_audit_label_reported :: "string option"
  ca_audit_evidence_source :: "string option"
  ca_audit_trust :: "string option"
  ca_audit_rule_id :: "string option"
  ca_restated :: bool

record admission_result =
  ad_version :: string
  ad_admitted :: bool
  ad_value_kind :: "string option"
  ad_nil_form :: "(string \<times> ustr list) option"
  ad_reasons :: "string list"
  ad_lifted_reasons :: "string list"
  ad_operations_route :: "string option"
  ad_op1_record :: "string option"
  ad_identity :: "economic_fact option"
  ad_ef_key :: "string option"

definition nil_only :: "string list list" where
  "nil_only = [[''value_reported_nil''], [''value_reported_nil_word'']]"

definition admissible_issuer_bases :: "string list" where
  "admissible_issuer_bases = [''listing_symbol_sec_id'', ''both'']"

definition identity_scope :: "string \<Rightarrow> string option" where
  "identity_scope s = map_of [(''group'', ''group''), (''company'', ''company''), (''bank'', ''bank''),
     (''unstated'', ''unlabelled'')] s"

definition op1_liftable :: string where
  "op1_liftable = ''operations_section_derived_on_total_row''"

definition umbrella_reasons :: "string list" where
  "umbrella_reasons = [''validation_ineligible'', ''normalization_not_admissible'']"

text \<open>\<open>_nil_form\<close>: the tag, then the glyph names or the word (as code points).\<close>

definition nil_form :: "unicode \<Rightarrow> value_result \<Rightarrow> (string \<times> ustr list) option" where
  "nil_form U v =
     (if vr_state v = ''reported_nil'' then Some (''reported_nil'', map u (vr_dash_glyphs v))
      else if vr_state v = ''reported_nil_word''
      then Some (''reported_nil_word'', [join_space (usplit (casefold U (ustrip (nfkc U (vr_raw_value v)))))])
      else None)"

text \<open>A-2: the issuer id, or the refusal.\<close>

definition issuer_decision :: "issuer_link option \<Rightarrow> string option \<times> string list" where
  "issuer_decision link =
     (case link of
        None \<Rightarrow> (None, [''issuer_link_not_supplied''])
      | Some l \<Rightarrow>
          if il_status l \<noteq> ''evidenced'' then (None, [''issuer_link_not_evidenced:'' @ il_status l])
          else if il_basis l \<notin> set admissible_issuer_bases then (None, [''issuer_link_path_prefix_only''])
          else (il_issuer_id l, []))"

definition is_borrowing :: "candidate_context \<Rightarrow> bool" where
  "is_borrowing ctx \<longleftrightarrow> in_opt (cc_concept_key ctx) borrowing_concepts"

text \<open>A-6: the identity fields that are missing, by name, in order.\<close>

definition missing_fields ::
  "string option \<Rightarrow> candidate_context \<Rightarrow> candidate_validation \<Rightarrow> string option \<Rightarrow> string list" where
  "missing_fields issuer_id ctx val scope =
     map fst (filter (\<lambda>(name, absent). absent)
       [(''issuer_id'', issuer_id = None), (''concept_key'', cc_concept_key ctx = None),
        (''period_kind'', pr_period_kind (cv_period val) = None), (''period_end'', pr_end_date (cv_period val) = None),
        (''scope'', scope = None), (''operations'', False), (''currency'', vr_currency (cv_value val) = None),
        (''duration_months'', pr_period_kind (cv_period val) = Some ''duration'' \<and>
           pr_duration_months (cv_period val) = None)])"

definition admission_identity ::
  "string option \<Rightarrow> candidate_context \<Rightarrow> candidate_validation \<Rightarrow> string option \<Rightarrow> economic_fact res" where
  "admission_identity issuer_id ctx val scope =
     (let period = cv_period val
      in bindR (need issuer_id) (\<lambda>i. bindR (need (cc_concept_key ctx)) (\<lambda>k.
         bindR (need (pr_period_kind period)) (\<lambda>pk. bindR (need (pr_end_date period)) (\<lambda>e.
         bindR (need scope) (\<lambda>s. bindR (need (vr_currency (cv_value val))) (\<lambda>c.
         bindR (if is_borrowing ctx then need (mr_maturity (cv_maturity val)) else Inr maturity_not_applicable) (\<lambda>m.
           mk_identity \<lparr>ef_identity_version = identity_version, ef_issuer_id = i, ef_concept_key = k, ef_period_kind = pk,
             ef_period_end = e,
             ef_duration_months = (if pk = ''duration'' then pr_duration_months period else None),
             ef_scope = s, ef_operations = or_operations (cv_operations val), ef_maturity = m,
             ef_currency = c\<rparr>))))))))"

text \<open>What an OP1 pass lifts, and the F6.1 ineligibility that is left.\<close>

definition lifted_of :: "candidate_context \<Rightarrow> candidate_validation \<Rightarrow> op1_index \<Rightarrow> string list" where
  "lifted_of ctx val records =
     (case operations_decision ctx records of (_, _, _, lift) \<Rightarrow>
        if lift \<and> op1_liftable \<in> set (cv_ineligible_reasons val) then [op1_liftable] else [])"

definition ineligible_of :: "candidate_context \<Rightarrow> candidate_validation \<Rightarrow> op1_index \<Rightarrow> string list" where
  "ineligible_of ctx val records =
     filter (\<lambda>r. r \<notin> set (lifted_of ctx val records)) (cv_ineligible_reasons val)"

text \<open>A-1.\<close>

definition a1_reasons :: "string list \<Rightarrow> string list \<Rightarrow> string list" where
  "a1_reasons ineligible nrm =
     (if ineligible \<noteq> [] then [''validation_ineligible''] else []) @
     (if nrm \<noteq> [] \<and> nrm \<notin> set nil_only then [''normalization_not_admissible''] else [])"

definition a1_value_kind :: "string list \<Rightarrow> string list \<Rightarrow> string option" where
  "a1_value_kind ineligible nrm =
     (if ineligible \<noteq> [] then None else if nrm = [] then Some ''numeric''
      else if nrm \<in> set nil_only then Some ''nil'' else None)"

text \<open>A-3: the refusal and the route.\<close>

definition a3_reasons :: "candidate_context \<Rightarrow> op1_index \<Rightarrow> string list" where
  "a3_reasons ctx records = (case operations_decision ctx records of (_, _, why, _) \<Rightarrow>
     (case why of None \<Rightarrow> [] | Some r \<Rightarrow> [r]))"

definition a3_route :: "candidate_context \<Rightarrow> candidate_validation \<Rightarrow> op1_index \<Rightarrow> string option" where
  "a3_route ctx val records = (case operations_decision ctx records of (route, _, why, _) \<Rightarrow>
     if why = None \<and> (route = Some ''row_label'' \<or> route = Some ''none'') \<and> or_trust (cv_operations val) \<noteq> ''trusted''
     then None else route)"

text \<open>A-4 and A-5.\<close>

definition a4_reasons :: "candidate_context \<Rightarrow> candidate_validation \<Rightarrow> string list" where
  "a4_reasons ctx val =
     (if is_borrowing ctx \<and> \<not> in_opt (mr_maturity (cv_maturity val)) [''current'', ''non_current'']
      then [''maturity_undetermined:'' @ mr_basis (cv_maturity val)] else [])"

definition a5_reasons :: "candidate_context \<Rightarrow> string list" where
  "a5_reasons ctx = (if identity_scope (cc_reported_scope ctx) = None
     then [''scope_unrecognised:'' @ cc_reported_scope ctx] else [])"

definition rule_reasons ::
  "candidate_context \<Rightarrow> candidate_validation \<Rightarrow> issuer_link option \<Rightarrow> op1_index \<Rightarrow> string list" where
  "rule_reasons ctx val link records =
     a1_reasons (ineligible_of ctx val records) (cv_normalization_reasons val) @ snd (issuer_decision link) @
     a3_reasons ctx records @ a4_reasons ctx val @ a5_reasons ctx"

definition admission_reasons ::
  "candidate_context \<Rightarrow> candidate_validation \<Rightarrow> issuer_link option \<Rightarrow> op1_index \<Rightarrow> string list" where
  "admission_reasons ctx val link records =
     (if rule_reasons ctx val link records \<noteq> [] then rule_reasons ctx val link records
      else map (\<lambda>n. ''identity_incomplete:'' @ n)
        (missing_fields (fst (issuer_decision link)) ctx val (identity_scope (cc_reported_scope ctx))))"

definition admit ::
  "unicode \<Rightarrow> (string \<Rightarrow> string) \<Rightarrow> candidate_context \<Rightarrow> candidate_validation \<Rightarrow> issuer_link option \<Rightarrow> op1_index \<Rightarrow>
   admission_result res" where
  "admit U sha ctx val link records =
     (let reasons = admission_reasons ctx val link records;
          value_kind = a1_value_kind (ineligible_of ctx val records) (cv_normalization_reasons val);
          result = (\<lambda>identity key.
            \<lparr>ad_version = admission_version, ad_admitted = (reasons = []),
             ad_value_kind = (if reasons = [] then value_kind else None),
             ad_nil_form = (if reasons = [] \<and> value_kind = Some ''nil'' then nil_form U (cv_value val) else None),
             ad_reasons = reasons, ad_lifted_reasons = lifted_of ctx val records,
             ad_operations_route = a3_route ctx val records,
             ad_op1_record = fst (snd (operations_decision ctx records)), ad_identity = identity, ad_ef_key = key\<rparr>)
      in if reasons \<noteq> [] then Inr (result None None)
         else bindR (admission_identity (fst (issuer_decision link)) ctx val (identity_scope (cc_reported_scope ctx))) (\<lambda>i.
              bindR (ef_key sha i) (\<lambda>k. Inr (result (Some i) (Some k)))))"

text \<open>Every reason one candidate was not admitted, F6.1's first.\<close>

definition refusal_reasons :: "candidate_validation \<Rightarrow> admission_result \<Rightarrow> string list" where
  "refusal_reasons v a =
     (if ad_admitted a then []
      else filter (\<lambda>r. r \<notin> set (ad_lifted_reasons a)) (cv_ineligible_reasons v) @
           (if ''normalization_not_admissible'' \<in> set (ad_reasons a) then cv_normalization_reasons v else []) @
           filter (\<lambda>r. r \<notin> set umbrella_reasons) (ad_reasons a))"

section \<open>One validation run\<close>

record candidate_result =
  cd_key :: string
  cd_source_key :: source_key
  cd_candidate_id :: "int option"
  cd_input_hash :: string
  cd_context :: candidate_context
  cd_attributes :: candidate_attributes
  cd_validation :: candidate_validation
  cd_admission :: admission_result
  cd_output_hash :: string

record validation_run =
  vn_key :: string
  vn_versions :: version_set
  vn_f5_run :: f5_run_ref
  vn_issuer_link :: "issuer_link option"
  vn_publication :: publication_result
  vn_document :: document_context
  vn_run_evidence :: run_evidence
  vn_candidates :: "candidate_result list"
  vn_arithmetic :: "arithmetic_result list"
  vn_signs :: "sign_result list"
  vn_conventions :: "(string \<times> int \<times> string \<times> string) list"
  vn_op1 :: "op1_record list"
  vn_input_hash :: string
  vn_output_hash :: string

text \<open>The digests of canonical JSON, one function per record that is hashed.\<close>

record digests =
  dg_sha :: "string \<Rightarrow> string"
  dg_op1 :: "group_key \<Rightarrow> string \<Rightarrow> string"
  dg_run_input :: "version_set \<times> f5_run_ref \<times> issuer_link option \<times> publication_result \<times> document_context \<times>
    run_evidence \<times> (candidate_context \<times> candidate_attributes) list \<Rightarrow> string"
  dg_run_key :: "version_set \<times> string \<times> string \<Rightarrow> string"
  dg_candidate_key :: "string \<times> source_key \<Rightarrow> string"
  dg_candidate_input :: "candidate_context \<times> run_evidence \<Rightarrow> string"
  dg_candidate_output :: "candidate_validation \<times> admission_result \<Rightarrow> string"
  dg_run_output :: "(string \<times> string) list \<times> arithmetic_result list \<times> sign_result list \<times>
    (string \<times> int \<times> string \<times> string) list \<times> op1_record list \<Rightarrow> string"

definition run_evidence_of :: "issuer_link option \<Rightarrow> publication_result \<Rightarrow> document_context \<Rightarrow> run_evidence" where
  "run_evidence_of link p doc =
     \<lparr>re_issuer_link_status = map_option il_status link, re_publication_date = pi_publication_date p,
      re_fiscal_year_end_basis = dc_fiscal_year_end_basis doc,
      re_fiscal_year_end_status = dc_fiscal_year_end_status doc, re_period_status = dc_period_status doc\<rparr>"

text \<open>
  \<open>validate_run\<close>: F6.1 over every candidate, the OP1 records, then admission. The contexts and
  attributes are what the F5 adapters build from the result.
\<close>

definition admission_run ::
  "unicode \<Rightarrow> digests \<Rightarrow> (string \<times> plain) list \<Rightarrow> candidate_context list \<Rightarrow> (source_key \<Rightarrow> candidate_attributes option) \<Rightarrow>
   f5_run_ref \<Rightarrow> issuer_link option \<Rightarrow> instant option \<Rightarrow> document_context \<Rightarrow> validation_run res" where
  "admission_run U dg run_block contexts attributes f5_run link uploaded_at doc =
     bindR (check_consistency run_block f5_run link doc) (\<lambda>_.
     bindR (publication_input uploaded_at) (\<lambda>publication.
     guardR (\<not> distinct (map cc_source_key contexts)) InputError (
     let evidence = run_evidence_of link publication doc
     in bindR (validate_run U contexts evidence) (\<lambda>checked.
     let ctxs = sort_key cc_source_key contexts;
         pairs = zip ctxs (rv_candidates checked)
     in bindR (op1_evaluate (dg_op1 dg) pairs) (\<lambda>records.
        bindR (mapR (\<lambda>c. case attributes (cc_source_key c) of None \<Rightarrow> Inl KeyErr | Some a \<Rightarrow> Inr (c, a)) ctxs) (\<lambda>inputs.
        let input_hash = dg_run_input dg (implemented, f5_run, link, publication, doc, evidence, inputs);
            key = dg_run_key dg (implemented, fr_f5_run_id f5_run, input_hash)
        in bindR (mapR (\<lambda>((ctx, att), val).
             bindR (admit U (dg_sha dg) ctx val link (op1_index_of records)) (\<lambda>adm.
               Inr \<lparr>cd_key = dg_candidate_key dg (key, cc_source_key ctx), cd_source_key = cc_source_key ctx,
                    cd_candidate_id = cc_candidate_id ctx, cd_input_hash = dg_candidate_input dg (ctx, evidence),
                    cd_context = ctx, cd_attributes = att, cd_validation = val, cd_admission = adm,
                    cd_output_hash = dg_candidate_output dg (val, adm)\<rparr>)) (zip inputs (rv_candidates checked))) (\<lambda>results.
             Inr \<lparr>vn_key = key, vn_versions = implemented, vn_f5_run = f5_run, vn_issuer_link = link,
                  vn_publication = publication, vn_document = doc, vn_run_evidence = evidence, vn_candidates = results,
                  vn_arithmetic = rv_arithmetic checked, vn_signs = rv_signs checked,
                  vn_conventions = rv_conventions checked, vn_op1 = records, vn_input_hash = input_hash,
                  vn_output_hash = dg_run_output dg (map (\<lambda>r. (cd_key r, cd_output_hash r)) results,
                    rv_arithmetic checked, rv_signs checked, rv_conventions checked, records)\<rparr>)))))))"

end
