(* ===== verification/Observations.thy ===== *)
theory Observations
  imports Admission
begin

text \<open>
  Source observations (\<open>financial_truth/observations.py\<close>): one F5 run's admitted evidence for one
  economic fact, its members in document order, whether they agree, and the interval and the
  representative of an observation that is consistent and numeric.
\<close>

record reported_record =
  rp_raw_value :: ustr
  rp_parsed_value :: "dec option"
  rp_representation_class :: string
  rp_printed_decimals :: "int option"
  rp_sign_as_printed :: string
  rp_reported_scale :: "int option"
  rp_scale_basis :: "string option"
  rp_currency :: "string option"
  rp_value_type :: "string option"

definition reported_value :: "candidate_context \<Rightarrow> reported_record" where
  "reported_value ctx =
     \<lparr>rp_raw_value = cc_raw_value ctx, rp_parsed_value = cc_parsed_value ctx,
      rp_representation_class = cc_representation_class ctx, rp_printed_decimals = cc_printed_decimals ctx,
      rp_sign_as_printed = cc_sign_as_printed ctx, rp_reported_scale = cc_reported_scale ctx,
      rp_scale_basis = cc_scale_basis ctx, rp_currency = cc_reported_currency ctx, rp_value_type = cc_value_type ctx\<rparr>"

record so_member =
  sm_source_key :: source_key
  sm_candidate_id :: "int option"
  sm_candidate_validation_key :: string
  sm_statement_index :: int
  sm_row_index :: int
  sm_column_index :: int
  sm_value_ordinal :: int
  sm_value_kind :: "string option"
  sm_nil_form :: "(string \<times> ustr list) option"
  sm_reported :: reported_record
  sm_value :: value_result
  sm_role :: string
  sm_role_basis :: "string option"
  sm_period_derivation :: string
  sm_printed_start :: "date option"
  sm_fiscal_label :: "string option"
  sm_reported_scope :: string
  sm_reported_scope_basis :: "string option"
  sm_canonical_scope :: string
  sm_canonical_scope_basis :: "string option"
  sm_operations_basis :: string
  sm_operations_route :: "string option"
  sm_op1_record :: "string option"
  sm_maturity_basis :: string
  sm_audit_label_reported :: "string option"
  sm_audit_evidence_source :: "string option"
  sm_audit_trust :: "string option"
  sm_restated :: bool
  sm_statement_kind :: string
  sm_label_raw :: ustr
  sm_section_label_raw :: "ustr option"

record member_comparison =
  mc_a :: source_key
  mc_b :: source_key
  mc_outcome :: string
  mc_reason :: "string option"
  mc_comparison :: "comparison_result option"
  mc_sign_only :: bool

record source_observation =
  so_key :: string
  so_ef_key :: string
  so_identity :: economic_fact
  so_validation_run_key :: string
  so_versions :: version_set
  so_f5_run :: f5_run_ref
  so_document :: document_context
  so_members :: "so_member list"
  so_status :: string
  so_value_kind :: "string option"
  so_nil_forms :: "(string \<times> ustr list) list"
  so_representative_member :: "source_key option"
  so_reported :: "reported_record option"
  so_normalized_value :: "dec option"
  so_half_unit :: "dec option"
  so_precision :: "dec option"
  so_interval_low :: "dec option"
  so_interval_high :: "dec option"
  so_roles :: "string list"
  so_annotations :: "string list"
  so_comparisons :: "member_comparison list"
  so_output_hash :: string

definition so_document_sha256 :: "source_observation \<Rightarrow> string" where
  "so_document_sha256 o' = fr_document_sha256 (so_f5_run o')"

definition so_cse_filing_id :: "source_observation \<Rightarrow> int" where
  "so_cse_filing_id o' = fr_cse_filing_id (so_f5_run o')"

definition concept_part :: "source_key \<Rightarrow> string" where
  "concept_part k = snd (snd (snd (snd (snd k))))"

definition ordinal_part :: "source_key \<Rightarrow> int" where
  "ordinal_part k = fst (snd (snd (snd (snd k))))"

definition member_order :: "so_member \<Rightarrow> int \<times> int \<times> int \<times> int \<times> string" where
  "member_order m = (sm_statement_index m, sm_row_index m, sm_column_index m, sm_value_ordinal m,
     concept_part (sm_source_key m))"

definition negated :: "value_result \<Rightarrow> value_result res" where
  "negated v = bindR (need (vr_normalized_value v)) (\<lambda>x. Inr (v\<lparr>vr_normalized_value := Some (dec_neg x)\<rparr>))"

definition compare_members :: "so_member \<Rightarrow> so_member \<Rightarrow> member_comparison res" where
  "compare_members a b =
     (let result = (\<lambda>outcome reason cmp sign_only. \<lparr>mc_a = sm_source_key a, mc_b = sm_source_key b,
            mc_outcome = outcome, mc_reason = reason, mc_comparison = cmp, mc_sign_only = sign_only\<rparr>)
      in if sm_value_kind a = Some ''nil'' \<or> sm_value_kind b = Some ''nil''
         then (if sm_value_kind a = sm_value_kind b then Inr (result ''agree'' None None False)
               else Inr (result ''disagree'' (Some ''nil_vs_numeric'') None False))
         else bindR (compare_values (sm_value a) (sm_value b)) (\<lambda>cmp.
           guardR (cr_outcome cmp = ''incomparable'') InputError (
           bindR (if cr_outcome cmp = ''disagree''
                  then bindR (negated (sm_value b)) (\<lambda>v. bindR (compare_values (sm_value a) v) (\<lambda>c.
                         Inr (cr_outcome c = ''agree'')))
                  else Inr False) (\<lambda>sign_only.
             Inr (result (cr_outcome cmp) None (Some cmp) sign_only)))))"

text \<open>\<open>finest\<close>: the first reference at the smallest half-unit, unless two values tie there.\<close>

definition finest :: "(dec \<times> dec \<times> 'r) list \<Rightarrow> ('r option \<times> bool) res" where
  "finest entries =
     bindR (dec_min (map fst entries)) (\<lambda>h.
       let tied = filter (\<lambda>e. dec_eq (fst e) h) entries
       in if several_numbers (map (\<lambda>e. Some (fst (snd e))) tied) then Inr (None, True)
          else (case tied of [] \<Rightarrow> Inl RuntimeErr | e # _ \<Rightarrow> Inr (Some (snd (snd e)), False)))"

text \<open>A numeric value and its half-unit; None raises as arithmetic on it would.\<close>

definition entry_of :: "value_result \<Rightarrow> (dec \<times> dec) res" where
  "entry_of v = bindR (need (vr_half_unit v)) (\<lambda>h. bindR (need (vr_normalized_value v)) (\<lambda>x. Inr (h, x)))"

definition interval :: "value_result list \<Rightarrow> (dec \<times> dec) res" where
  "interval values =
     bindR (mapR (\<lambda>v. bindR (entry_of v) (\<lambda>(h, x). dec_sub x h)) values) (\<lambda>lows. bindR (dec_max lows) (\<lambda>low.
     bindR (mapR (\<lambda>v. bindR (entry_of v) (\<lambda>(h, x). dec_add [x, h])) values) (\<lambda>highs. bindR (dec_min highs) (\<lambda>high.
       Inr (low, high)))))"

definition member_of :: "candidate_result \<Rightarrow> so_member" where
  "member_of r =
     (let ctx = cd_context r; val = cd_validation r; adm = cd_admission r; att = cd_attributes r
      in \<lparr>sm_source_key = cd_source_key r, sm_candidate_id = cd_candidate_id r, sm_candidate_validation_key = cd_key r,
          sm_statement_index = cc_statement_index ctx, sm_row_index = cc_row_index ctx,
          sm_column_index = cc_column_index ctx, sm_value_ordinal = ordinal_part (cd_source_key r),
          sm_value_kind = ad_value_kind adm, sm_nil_form = ad_nil_form adm, sm_reported = reported_value ctx,
          sm_value = cv_value val, sm_role = cc_role ctx, sm_role_basis = ca_role_basis att,
          sm_period_derivation = cc_period_derivation ctx, sm_printed_start = ca_printed_start att,
          sm_fiscal_label = pr_fiscal_label (cv_period val), sm_reported_scope = cc_reported_scope ctx,
          sm_reported_scope_basis = ca_reported_scope_basis att, sm_canonical_scope = cc_canonical_scope ctx,
          sm_canonical_scope_basis = ca_canonical_scope_basis att, sm_operations_basis = cc_operations_basis ctx,
          sm_operations_route = ad_operations_route adm, sm_op1_record = ad_op1_record adm,
          sm_maturity_basis = mr_basis (cv_maturity val), sm_audit_label_reported = ca_audit_label_reported att,
          sm_audit_evidence_source = ca_audit_evidence_source att, sm_audit_trust = ca_audit_trust att,
          sm_restated = ca_restated att, sm_statement_kind = cc_statement_kind ctx, sm_label_raw = cc_label_raw ctx,
          sm_section_label_raw = cc_section_label_raw ctx\<rparr>)"

text \<open>What the members conclude: status, kind, representative, precision, interval, annotations.\<close>

record conclusion =
  cn_status :: string
  cn_value_kind :: "string option"
  cn_rep :: "so_member option"
  cn_precision :: "dec option"
  cn_low :: "dec option"
  cn_high :: "dec option"
  cn_notes :: "string list"

definition conclude :: "so_member list \<Rightarrow> member_comparison list \<Rightarrow> conclusion res" where
  "conclude members comparisons =
     (let kinds = remdups (map sm_value_kind members)
      in if list_ex (\<lambda>c. mc_outcome c = ''disagree'') comparisons
         then Inr \<lparr>cn_status = ''internally_conflicting'',
                   cn_value_kind = (case kinds of [k] \<Rightarrow> k | _ \<Rightarrow> None), cn_rep = None, cn_precision = None,
                   cn_low = None, cn_high = None, cn_notes = []\<rparr>
         else if kinds = [Some ''nil'']
         then Inr \<lparr>cn_status = ''consistent'', cn_value_kind = Some ''nil'', cn_rep = Some (hd members),
                   cn_precision = None, cn_low = None, cn_high = None, cn_notes = []\<rparr>
         else bindR (mapR (\<lambda>m. bindR (entry_of (sm_value m)) (\<lambda>(h, x). Inr (h, x, m))) members) (\<lambda>entries.
              bindR (dec_min (map fst entries)) (\<lambda>precision.
              bindR (finest entries) (\<lambda>(rep, ambiguous).
              bindR (interval (map sm_value members)) (\<lambda>(low, high).
                Inr \<lparr>cn_status = ''consistent'', cn_value_kind = Some ''numeric'', cn_rep = rep,
                     cn_precision = Some precision, cn_low = Some low, cn_high = Some high,
                     cn_notes = (if ambiguous then [''representative_ambiguous''] else []) @
                       (if several_numbers (map (\<lambda>e. Some (fst (snd e))) entries)
                        then [''agreement_within_precision_only''] else [])\<rparr>)))))"

record observation_digests =
  od_so_key :: "string \<times> string \<Rightarrow> string"
  od_so_output :: "source_observation \<Rightarrow> string"

definition observation ::
  "observation_digests \<Rightarrow> validation_run \<Rightarrow> candidate_result list \<Rightarrow> source_observation res" where
  "observation od run results =
     guardR (results = [] \<or> length (remdups (map (\<lambda>r. ad_ef_key (cd_admission r)) results)) \<noteq> 1 \<or>
             \<not> list_all (\<lambda>r. ad_admitted (cd_admission r)) results) InputError (
     bindR (need (ad_ef_key (cd_admission (hd results)))) (\<lambda>key.
     bindR (need (ad_identity (cd_admission (hd results)))) (\<lambda>identity.
     let members = sort_key member_order (map member_of results);
         roles = sorted_set (map sm_role members)
     in bindR (mapR (\<lambda>(a, b). compare_members a b) (later_pairs members)) (\<lambda>comparisons.
        bindR (conclude members comparisons) (\<lambda>c.
        let numeric_rep = (if cn_value_kind c = Some ''numeric'' then cn_rep c else None);
            so = \<lparr>so_key = od_so_key od (vn_key run, key), so_ef_key = key, so_identity = identity,
              so_validation_run_key = vn_key run, so_versions = vn_versions run, so_f5_run = vn_f5_run run,
              so_document = vn_document run, so_members = members, so_status = cn_status c,
              so_value_kind = cn_value_kind c, so_nil_forms = sorted_set (the_values (map sm_nil_form members)),
              so_representative_member = map_option sm_source_key (cn_rep c),
              so_reported = map_option sm_reported (cn_rep c),
              so_normalized_value = (case numeric_rep of None \<Rightarrow> None | Some m \<Rightarrow> vr_normalized_value (sm_value m)),
              so_half_unit = (case numeric_rep of None \<Rightarrow> None | Some m \<Rightarrow> vr_half_unit (sm_value m)),
              so_precision = cn_precision c, so_interval_low = cn_low c, so_interval_high = cn_high c,
              so_roles = roles,
              so_annotations = sorted_set ((if length roles > 1 then [''multiple_roles''] else []) @ cn_notes c),
              so_comparisons = comparisons, so_output_hash = []\<rparr>
        in Inr (so\<lparr>so_output_hash := od_so_output od so\<rparr>))))))"

definition build_observations :: "observation_digests \<Rightarrow> validation_run \<Rightarrow> source_observation list res" where
  "build_observations od run =
     mapR (\<lambda>(key, results). observation od run results)
       (group_on (\<lambda>r. case ad_ef_key (cd_admission r) of None \<Rightarrow> [] | Some k \<Rightarrow> k)
         (filter (\<lambda>r. ad_admitted (cd_admission r)) (vn_candidates run)))"

end
