(* ===== verification/Reconcile.thy ===== *)
theory Reconcile
  imports Observations
begin

text \<open>
  f6.reconciliation.1 (\<open>financial_truth/reconciliation.py\<close>): the configuration, one F5 run per
  document, the conclusion for one economic fact, and the whole batch. Digests are parameters.
\<close>

section \<open>Configuration\<close>

record configuration =
  cf_accepted_f3 :: "(string \<times> string option) list"
  cf_accepted_f4 :: "(string \<times> string) list"
  cf_accepted_f5 :: "(string \<times> string \<times> string) list"
  cf_versions :: version_set
  cf_reconciliation_version :: string

definition none_first_pair :: "string \<times> string option \<Rightarrow> string \<times> bool \<times> string" where
  "none_first_pair p = (fst p, snd p \<noteq> None, case snd p of None \<Rightarrow> [] | Some s \<Rightarrow> s)"

text \<open>\<open>__post_init__\<close>: one version set, at least one accepted tuple of each kind, sorted without repeats.\<close>

definition mk_configuration :: "configuration \<Rightarrow> configuration res" where
  "mk_configuration c =
     guardR (cf_reconciliation_version c \<noteq> reconciliation_version) ConfigurationError
     (guardR (cf_versions c \<noteq> implemented) ConfigurationError
     (guardR (cf_accepted_f3 c = [] \<or> cf_accepted_f4 c = [] \<or> cf_accepted_f5 c = []) ConfigurationError
       (Inr (c\<lparr>cf_accepted_f3 := sort_key none_first_pair (remdups (cf_accepted_f3 c)),
               cf_accepted_f4 := sorted_set (cf_accepted_f4 c), cf_accepted_f5 := sorted_set (cf_accepted_f5 c)\<rparr>))))"

definition refusal :: "configuration \<Rightarrow> f5_run_ref \<Rightarrow> string option" where
  "refusal c r =
     (if f3_version r \<notin> set (cf_accepted_f3 c) then Some ''f3_version_not_accepted''
      else if f4_version r \<notin> set (cf_accepted_f4 c) then Some ''f4_version_not_accepted''
      else if f5_version r \<notin> set (cf_accepted_f5 c) then Some ''f5_version_not_accepted'' else None)"

section \<open>One run per document\<close>

record run_selection =
  rs_document_sha256 :: string
  rs_selected_run :: string
  rs_selected_filing :: int
  rs_accepted_runs :: "(string \<times> int \<times> instant option) list"
  rs_filings :: "int list"

record selection =
  sl_configuration_id :: string
  sl_documents :: "run_selection list"
  sl_excluded_runs :: "(string \<times> string) list"

definition recorded :: "f5_run_ref \<Rightarrow> instant" where
  "recorded r = (case fr_recorded_at r of None \<Rightarrow> 0 | Some t \<Rightarrow> t)"

definition choose_run :: "f5_run_ref list \<Rightarrow> f5_run_ref res" where
  "choose_run accepted =
     (case accepted of
        [r] \<Rightarrow> Inr r
      | _ \<Rightarrow> guardR (list_ex (\<lambda>r. fr_recorded_at r = None) accepted) ReconciliationInputError
          (case max_on (\<lambda>r. (recorded r, fr_f5_run_id r)) accepted of
             None \<Rightarrow> Inl ValueErr | Some r \<Rightarrow> Inr r))"

definition select_document :: "string \<times> f5_run_ref list \<Rightarrow> run_selection res" where
  "select_document d = bindR (choose_run (snd d)) (\<lambda>chosen.
     Inr \<lparr>rs_document_sha256 = fst d, rs_selected_run = fr_f5_run_id chosen, rs_selected_filing = fr_cse_filing_id chosen,
          rs_accepted_runs = map (\<lambda>r. (fr_f5_run_id r, fr_cse_filing_id r, fr_recorded_at r)) (snd d),
          rs_filings = sorted_set (map fr_cse_filing_id (snd d))\<rparr>)"

definition select_runs :: "(configuration \<Rightarrow> string) \<Rightarrow> f5_run_ref list \<Rightarrow> configuration \<Rightarrow> selection res" where
  "select_runs cid runs c =
     guardR (list_ex (\<lambda>(a, b). fr_f5_run_id a = fr_f5_run_id b \<and> a \<noteq> b) (later_pairs runs)) ReconciliationInputError (
     let unique = sort_key fr_f5_run_id (remdups runs);
         accepted = filter (\<lambda>r. refusal c r = None) unique
     in bindR (mapR select_document (group_on fr_document_sha256 accepted)) (\<lambda>documents.
          Inr \<lparr>sl_configuration_id = cid c, sl_documents = documents,
               sl_excluded_runs = List.map_filter (\<lambda>r. map_option (\<lambda>why. (fr_f5_run_id r, why)) (refusal c r)) unique\<rparr>))"

section \<open>One fact\<close>

record observation_ref =
  ob_so_key :: string
  ob_so_output_hash :: string
  ob_document_sha256 :: string
  ob_cse_filing_id :: int
  ob_f5_run_id :: string
  ob_role_in_outcome :: string
  ob_observation_status :: string
  ob_value_kind :: "string option"
  ob_reported :: "reported_record option"
  ob_normalized_value :: "dec option"
  ob_half_unit :: "dec option"
  ob_interval_low :: "dec option"
  ob_interval_high :: "dec option"
  ob_roles :: "string list"
  ob_document_type :: "string option"
  ob_underlying_type :: "string option"

record pair_comparison =
  pc_a_so :: string
  pc_b_so :: string
  pc_a_member :: source_key
  pc_b_member :: source_key
  pc_outcome :: string
  pc_reason :: "string option"
  pc_comparison :: "comparison_result option"
  pc_sign_only :: bool

record reconciliation_result =
  rr_reconciliation_version :: string
  rr_configuration_id :: string
  rr_ef_key :: string
  rr_identity :: economic_fact
  rr_state :: string
  rr_value_kind :: "string option"
  rr_interval_low :: "dec option"
  rr_interval_high :: "dec option"
  rr_representative_so :: "string option"
  rr_representative_member :: "source_key option"
  rr_representative :: "reported_record option"
  rr_representative_normalized_value :: "dec option"
  rr_representative_half_unit :: "dec option"
  rr_document_count :: nat
  rr_so_count :: nat
  rr_observations :: "observation_ref list"
  rr_comparisons :: "pair_comparison list"
  rr_annotations :: "string list"
  rr_reasons :: "string list"
  rr_filings :: "(string \<times> int list) list"
  rr_other_currencies :: "(string \<times> string list) list"
  rr_input_hash :: string
  rr_output_hash :: string

definition version_document_types :: "string list" where
  "version_document_types = [''errata_or_reissue'', ''amendment'']"

definition interim_types :: "string list" where
  "interim_types = [''interim_financial_statements'']"

definition annual_types :: "string list" where
  "annual_types = [''annual_report'', ''audited_financial_statements'']"

definition annotation_names :: "string list" where
  "annotation_names = [''agreement_within_precision_only'', ''differs_across_document_versions'',
     ''differs_interim_vs_annual'', ''restated_comparative_present'', ''nil_vs_numeric'', ''internal_conflict'',
     ''sign_only_difference'', ''multi_currency_presentation'', ''representative_ambiguous'',
     ''same_document_multiple_filings'', ''audit_labels_differ'']"

definition interim_vs_annual :: "string option \<Rightarrow> string option \<Rightarrow> bool" where
  "interim_vs_annual a b \<longleftrightarrow> (in_opt a interim_types \<and> in_opt b annual_types) \<or>
     (in_opt b interim_types \<and> in_opt a annual_types)"

definition pair_of ::
  "source_observation \<Rightarrow> source_observation \<Rightarrow> so_member \<Rightarrow> so_member \<Rightarrow> pair_comparison res" where
  "pair_of a b ma mb = bindR (compare_members ma mb) (\<lambda>c.
     Inr \<lparr>pc_a_so = so_key a, pc_b_so = so_key b, pc_a_member = sm_source_key ma, pc_b_member = sm_source_key mb,
          pc_outcome = mc_outcome c, pc_reason = mc_reason c, pc_comparison = mc_comparison c,
          pc_sign_only = mc_sign_only c\<rparr>)"

definition member_pairs :: "source_observation list \<Rightarrow>
    (source_observation \<times> source_observation \<times> so_member \<times> so_member) list" where
  "member_pairs sos = concat (map (\<lambda>(a, b).
     concat (map (\<lambda>ma. map (\<lambda>mb. (a, b, ma, mb)) (so_members b)) (so_members a))) (later_pairs sos))"

definition all_members :: "source_observation list \<Rightarrow> (source_observation \<times> so_member) list" where
  "all_members sos = concat (map (\<lambda>o'. map (\<lambda>m. (o', m)) (so_members o')) sos)"

definition internal_conflicts :: "source_observation list \<Rightarrow> source_observation list" where
  "internal_conflicts sos = filter (\<lambda>o'. so_status o' = ''internally_conflicting'') sos"

definition disagreements :: "pair_comparison list \<Rightarrow> pair_comparison list" where
  "disagreements cs = filter (\<lambda>p. pc_outcome p = ''disagree'') cs"

text \<open>State, kind, interval, representative and the annotations that go with them.\<close>

record fact_value =
  fv_state :: string
  fv_value_kind :: "string option"
  fv_low :: "dec option"
  fv_high :: "dec option"
  fv_rep :: "(source_observation \<times> so_member) option"
  fv_notes :: "string list"
  fv_reasons :: "string list"

definition so_of :: "source_observation list \<Rightarrow> string \<Rightarrow> source_observation option" where
  "so_of sos k = map_of (rev (map (\<lambda>o'. (so_key o', o')) sos)) k"

definition differing_documents ::
  "source_observation list \<Rightarrow> (document_context \<Rightarrow> document_context \<Rightarrow> bool) \<Rightarrow> pair_comparison list \<Rightarrow> bool" where
  "differing_documents sos P ps = list_ex (\<lambda>p. case (so_of sos (pc_a_so p), so_of sos (pc_b_so p)) of
     (Some a, Some b) \<Rightarrow> P (so_document a) (so_document b) | _ \<Rightarrow> False) ps"

definition conflict_value ::
  "source_observation list \<Rightarrow> source_observation list \<Rightarrow> pair_comparison list \<Rightarrow> fact_value" where
  "conflict_value sos internal disagreeing =
     \<lparr>fv_state = ''conflicting'', fv_value_kind = None, fv_low = None, fv_high = None, fv_rep = None,
      fv_notes =
        (if differing_documents sos (\<lambda>a b. in_opt (dc_document_type a) version_document_types \<or>
              in_opt (dc_document_type b) version_document_types) disagreeing
         then [''differs_across_document_versions''] else []) @
        (if differing_documents sos (\<lambda>a b. interim_vs_annual (dc_underlying_type a) (dc_underlying_type b)) disagreeing
         then [''differs_interim_vs_annual''] else []),
      fv_reasons = map (\<lambda>o'. ''internal_conflict:'' @ so_key o') internal @
        sorted_set (map (\<lambda>p. (case pc_reason p of None \<Rightarrow> ''values_disagree'' | Some r \<Rightarrow> r) @ '':'' @ pc_a_so p @ '':'' @
          pc_b_so p) disagreeing)\<rparr>"

definition agreed_value :: "source_observation list \<Rightarrow> fact_value res" where
  "agreed_value sos =
     (let state = (if length sos = 1 then ''single_source'' else ''corroborated'');
          members = all_members sos; kind = so_value_kind (hd sos);
          result = (\<lambda>low high rep notes. \<lparr>fv_state = state, fv_value_kind = kind, fv_low = low, fv_high = high,
            fv_rep = rep, fv_notes = notes, fv_reasons = []\<rparr>)
      in if kind = Some ''numeric'' then
           bindR (mapR (\<lambda>o'. need (so_interval_low o')) sos) (\<lambda>lows. bindR (dec_max lows) (\<lambda>low.
           bindR (mapR (\<lambda>o'. need (so_interval_high o')) sos) (\<lambda>highs. bindR (dec_min highs) (\<lambda>high.
           guardR (dec_lt high low) RuntimeErr (
           bindR (mapR (\<lambda>om. bindR (entry_of (sm_value (snd om))) (\<lambda>(h, x). Inr (h, x, om))) members) (\<lambda>entries.
           bindR (finest entries) (\<lambda>(rep, ambiguous).
             Inr (result (Some low) (Some high) (if ambiguous then None else rep)
               ((if ambiguous then [''representative_ambiguous''] else []) @
                (if several_numbers (map (\<lambda>e. Some (fst (snd e))) entries)
                 then [''agreement_within_precision_only''] else []))))))))))
         else Inr (result None None
           (case so_members (hd sos) of [] \<Rightarrow> None | m # _ \<Rightarrow> Some (hd sos, m)) []))"

definition sign_only_somewhere :: "source_observation list \<Rightarrow> pair_comparison list \<Rightarrow> bool" where
  "sign_only_somewhere sos cs \<longleftrightarrow> list_ex pc_sign_only cs \<or>
     list_ex (\<lambda>o'. list_ex mc_sign_only (so_comparisons o')) sos"

definition audit_labels :: "(source_observation \<times> so_member) list \<Rightarrow> string list" where
  "audit_labels members = remdups (filter (\<lambda>l. l \<noteq> ''unknown'')
     (the_values (map (\<lambda>om. sm_audit_label_reported (snd om)) members)))"

definition fact_annotations ::
  "source_observation list \<Rightarrow> pair_comparison list \<Rightarrow> fact_value \<Rightarrow> (string \<Rightarrow> int list) \<Rightarrow> (string \<Rightarrow> string list) \<Rightarrow> string list" where
  "fact_annotations sos cs v filings others =
     (let members = all_members sos; docs = map so_document_sha256 sos;
          kinds = set (map (\<lambda>om. sm_value_kind (snd om)) members);
          noted = fv_notes v @
            (if internal_conflicts sos \<noteq> [] then [''internal_conflict''] else []) @
            (if kinds = {Some ''nil'', Some ''numeric''} then [''nil_vs_numeric''] else []) @
            (if list_ex (\<lambda>om. sm_restated (snd om)) members then [''restated_comparative_present''] else []) @
            (if sign_only_somewhere sos cs then [''sign_only_difference''] else []) @
            (if list_ex (\<lambda>d. others d \<noteq> []) docs then [''multi_currency_presentation''] else []) @
            (if list_ex (\<lambda>d. length (filings d) > 1) docs then [''same_document_multiple_filings''] else []) @
            (if length (audit_labels members) > 1 then [''audit_labels_differ''] else [])
      in filter (\<lambda>a. a \<in> set noted) annotation_names)"

definition ref_of :: "fact_value \<Rightarrow> source_observation \<Rightarrow> observation_ref" where
  "ref_of v o' =
     \<lparr>ob_so_key = so_key o', ob_so_output_hash = so_output_hash o', ob_document_sha256 = so_document_sha256 o',
      ob_cse_filing_id = so_cse_filing_id o', ob_f5_run_id = fr_f5_run_id (so_f5_run o'),
      ob_role_in_outcome = (if fv_state v = ''conflicting'' then ''conflicting''
        else (case fv_rep v of Some (r, _) \<Rightarrow> if so_key o' = so_key r then ''representative'' else ''supporting''
              | None \<Rightarrow> ''supporting'')),
      ob_observation_status = so_status o', ob_value_kind = so_value_kind o', ob_reported = so_reported o',
      ob_normalized_value = so_normalized_value o', ob_half_unit = so_half_unit o',
      ob_interval_low = so_interval_low o', ob_interval_high = so_interval_high o', ob_roles = so_roles o',
      ob_document_type = dc_document_type (so_document o'), ob_underlying_type = dc_underlying_type (so_document o')\<rparr>"

record reconcile_digests =
  rd_configuration :: "configuration \<Rightarrow> string"
  rd_input :: "string \<times> string \<times> (string \<times> string) list \<times> (string \<times> int list) list \<times> (string \<times> string list) list \<Rightarrow> string"
  rd_result :: "reconciliation_result \<Rightarrow> string"
  rd_batch :: "string \<times> selection \<times> (string \<times> string) list \<times> (string \<times> string) list \<Rightarrow> string"

definition so_order :: "source_observation \<Rightarrow> string \<times> string" where
  "so_order o' = (so_document_sha256 o', so_key o')"

definition check_observations :: "source_observation list \<Rightarrow> configuration \<Rightarrow> 'a res \<Rightarrow> 'a res" where
  "check_observations sos c k =
     guardR (sos = []) ReconciliationInputError
     (guardR (length (remdups (map so_ef_key sos)) \<noteq> 1) ReconciliationInputError
     (guardR (list_ex (\<lambda>o'. so_versions o' \<noteq> cf_versions c) sos) ReconciliationInputError
     (guardR (\<not> distinct (map so_document_sha256 sos)) ReconciliationInputError k)))"

definition fact_result ::
  "reconcile_digests \<Rightarrow> configuration \<Rightarrow> source_observation list \<Rightarrow> pair_comparison list \<Rightarrow> fact_value \<Rightarrow>
   (string \<Rightarrow> int list) \<Rightarrow> (string \<Rightarrow> string list) \<Rightarrow> reconciliation_result" where
  "fact_result rd c sos cs v filings others =
     (let docs = map so_document_sha256 sos; cid = rd_configuration rd c; key = so_ef_key (hd sos);
          fctx = map (\<lambda>d. (d, sort (filings d))) docs; octx = map (\<lambda>d. (d, sort (others d))) docs;
          numeric_rep = (if fv_value_kind v = Some ''numeric'' then map_option snd (fv_rep v) else None);
          result = \<lparr>rr_reconciliation_version = reconciliation_version, rr_configuration_id = cid, rr_ef_key = key,
            rr_identity = so_identity (hd sos), rr_state = fv_state v, rr_value_kind = fv_value_kind v,
            rr_interval_low = fv_low v, rr_interval_high = fv_high v,
            rr_representative_so = map_option (\<lambda>om. so_key (fst om)) (fv_rep v),
            rr_representative_member = map_option (\<lambda>om. sm_source_key (snd om)) (fv_rep v),
            rr_representative = map_option (\<lambda>om. sm_reported (snd om)) (fv_rep v),
            rr_representative_normalized_value = (case numeric_rep of None \<Rightarrow> None | Some m \<Rightarrow> vr_normalized_value (sm_value m)),
            rr_representative_half_unit = (case numeric_rep of None \<Rightarrow> None | Some m \<Rightarrow> vr_half_unit (sm_value m)),
            rr_document_count = length (remdups docs), rr_so_count = length sos, rr_observations = map (ref_of v) sos,
            rr_comparisons = cs, rr_annotations = fact_annotations sos cs v filings others, rr_reasons = fv_reasons v,
            rr_filings = fctx, rr_other_currencies = octx,
            rr_input_hash = rd_input rd (cid, key, map (\<lambda>o'. (so_key o', so_output_hash o')) sos, fctx, octx),
            rr_output_hash = []\<rparr>
      in result\<lparr>rr_output_hash := rd_result rd result\<rparr>)"

definition fact_value_of :: "source_observation list \<Rightarrow> pair_comparison list \<Rightarrow> fact_value res" where
  "fact_value_of sos cs =
     (if internal_conflicts sos \<noteq> [] \<or> disagreements cs \<noteq> []
      then Inr (conflict_value sos (internal_conflicts sos) (disagreements cs)) else agreed_value sos)"

definition reconcile_fact ::
  "reconcile_digests \<Rightarrow> source_observation list \<Rightarrow> configuration \<Rightarrow> (string \<Rightarrow> int list) \<Rightarrow> (string \<Rightarrow> string list) \<Rightarrow>
   reconciliation_result res" where
  "reconcile_fact rd observations c filings others =
     (let sos = sort_key so_order observations
      in check_observations sos c
        (bindR (mapR (\<lambda>(a, b, ma, mb). pair_of a b ma mb) (member_pairs sos)) (\<lambda>cs.
         bindR (fact_value_of sos cs) (\<lambda>v. Inr (fact_result rd c sos cs v filings others)))))"

section \<open>Every fact\<close>

record reconciliation_batch =
  rb_configuration :: configuration
  rb_configuration_id :: string
  rb_selection :: selection
  rb_excluded_observations :: "(string \<times> string) list"
  rb_results :: "reconciliation_result list"
  rb_output_hash :: string

definition batch_facts :: "reconciliation_batch \<Rightarrow> economic_fact list" where
  "batch_facts b = map rr_identity (rb_results b)"

text \<open>
  The loop over the observations in key order: a repeated key must repeat the hash, the run must
  be the one supplied, and an observation is kept, or excluded with its reason.
\<close>

fun triage :: "(string \<Rightarrow> f5_run_ref option) \<Rightarrow> string list \<Rightarrow> configuration \<Rightarrow> (string \<times> string) list \<Rightarrow>
    source_observation list \<Rightarrow> (source_observation list \<times> (string \<times> string) list) res" where
  "triage known selected c seen [] = Inr ([], [])"
| "triage known selected c seen (o' # sos) =
     (case map_of seen (so_key o') of
        Some h \<Rightarrow> guardR (h \<noteq> so_output_hash o') ReconciliationInputError (triage known selected c seen sos)
      | None \<Rightarrow> guardR (known (fr_f5_run_id (so_f5_run o')) \<noteq> Some (so_f5_run o')) ReconciliationInputError
          (bindR (triage known selected c ((so_key o', so_output_hash o') # seen) sos) (\<lambda>(kept, excluded). Inr (
             if so_versions o' \<noteq> cf_versions c then (kept, (so_key o', ''versions_not_configured'') # excluded)
             else if fr_f5_run_id (so_f5_run o') \<notin> set selected then (kept, (so_key o', ''f5_run_not_selected'') # excluded)
             else (o' # kept, excluded)))))"

definition selected_runs :: "selection \<Rightarrow> string list" where
  "selected_runs sel = map rs_selected_run (sl_documents sel)"

definition run_by_id :: "f5_run_ref list \<Rightarrow> string \<Rightarrow> f5_run_ref option" where
  "run_by_id runs k = map_of (rev (map (\<lambda>r. (fr_f5_run_id r, r)) runs)) k"

definition several_validation_runs :: "source_observation list \<Rightarrow> bool" where
  "several_validation_runs kept = list_ex (\<lambda>a. list_ex (\<lambda>b. fr_f5_run_id (so_f5_run a) = fr_f5_run_id (so_f5_run b) \<and>
     so_validation_run_key a \<noteq> so_validation_run_key b) kept) kept"

definition filings_of :: "selection \<Rightarrow> string \<Rightarrow> int list" where
  "filings_of sel d = (case map_of (rev (map (\<lambda>s. (rs_document_sha256 s, rs_filings s)) (sl_documents sel))) d of
     None \<Rightarrow> [] | Some fs \<Rightarrow> fs)"

definition presented :: "source_observation list \<Rightarrow> source_observation \<Rightarrow> string list" where
  "presented kept o' = map (\<lambda>a. ef_currency (so_identity a)) (filter (\<lambda>a. so_document_sha256 a = so_document_sha256 o' \<and>
     without_currency (so_identity a) = without_currency (so_identity o')) kept)"

definition others_of :: "source_observation list \<Rightarrow> source_observation list \<Rightarrow> string \<Rightarrow> string list" where
  "others_of kept sos d = (case map_of (rev (map (\<lambda>o'. (so_document_sha256 o',
       sorted_set (filter (\<lambda>cur. cur \<noteq> ef_currency (so_identity o')) (presented kept o')))) sos)) d of
     None \<Rightarrow> [] | Some cs \<Rightarrow> cs)"

definition reconcile ::
  "reconcile_digests \<Rightarrow> f5_run_ref list \<Rightarrow> source_observation list \<Rightarrow> configuration \<Rightarrow>
   reconciliation_batch res" where
  "reconcile rd runs observations c =
     bindR (select_runs (rd_configuration rd) runs c) (\<lambda>sel.
     bindR (triage (run_by_id runs) (selected_runs sel) c [] (sort_key so_key observations)) (\<lambda>(kept, excluded).
     guardR (several_validation_runs kept) ReconciliationInputError (
     bindR (mapR (\<lambda>(k, sos). reconcile_fact rd sos c (filings_of sel) (others_of kept sos))
              (group_on so_ef_key kept)) (\<lambda>results.
       let cid = rd_configuration rd c
       in Inr \<lparr>rb_configuration = c, rb_configuration_id = cid, rb_selection = sel, rb_excluded_observations = excluded,
               rb_results = results,
               rb_output_hash = rd_batch rd (cid, sel, excluded, map (\<lambda>r. (rr_ef_key r, rr_output_hash r)) results)\<rparr>))))"

definition reconcile_validation_runs ::
  "reconcile_digests \<Rightarrow> observation_digests \<Rightarrow> validation_run list \<Rightarrow> configuration \<Rightarrow>
   reconciliation_batch res" where
  "reconcile_validation_runs rd od vrs c =
     bindR (mapR (build_observations od) vrs) (\<lambda>sos. reconcile rd (map vn_f5_run vrs) (concat sos) c)"

end
