(* ===== verification/ValidationFacts.thy ===== *)
theory ValidationFacts
  imports Validation
begin

text \<open>
  What the candidate rules guarantee: a valid period is a period whose class, start and
  publication agree; a value is normalised exactly when nothing is missing, and then exactly;
  a printed nil is never a number; two everyday values agree exactly when their printed
  intervals meet; an eligible candidate has passed every rule.
\<close>

section \<open>Periods\<close>

definition duration_ok :: "int option \<Rightarrow> string option \<Rightarrow> date option \<Rightarrow> date \<Rightarrow> bool" where
  "duration_ok months period_class start e \<longleftrightarrow>
     (case months of None \<Rightarrow> False
      | Some n \<Rightarrow> 0 < n \<and> period_class = Some (expected_period_class (Some n)) \<and>
          (case start of None \<Rightarrow> True
           | Some s \<Rightarrow> s \<le> e \<and> bindR (next_day e) (\<lambda>d. add_months d (- n)) = Inr s))"

lemma duration_check_ok:
  "duration_check n cls start (Some e) = Inr (rs, ns) \<Longrightarrow> 0 < n \<Longrightarrow>
     rs = [] \<longleftrightarrow> duration_ok (Some n) cls start e"
  by (auto simp: duration_check_def duration_ok_def Let_def bindR_eq_Inr not_less
      split: option.splits if_splits)

definition instant_ok :: "int option \<Rightarrow> string option \<Rightarrow> date option \<Rightarrow> bool" where
  "instant_ok months period_class start \<longleftrightarrow> months = None \<and> period_class = None \<and> start = None"

lemma kind_check_ok:
  assumes "kind_check kind months cls start (Some e) = Inr (rs, ns)"
    and "kind = Some ''instant'' \<or> kind = Some ''duration''"
  shows "rs = [] \<longleftrightarrow> (if kind = Some ''instant'' then instant_ok months cls start
                       else duration_ok months cls start e)"
proof (cases "kind = Some ''instant''")
  case True
  then show ?thesis
    using assms(1) by (auto simp: kind_check_def instant_ok_def split: if_splits)
next
  case False
  then show ?thesis
    using assms by (cases months)
      (auto simp: kind_check_def duration_ok_def [of None] not_le duration_check_ok duration_ok_def [of "Some _"]
        split: if_splits)
qed

lemma fiscal_check_ok:
  "fiscal_check label run = (l, rs, ns) \<Longrightarrow>
     rs = [] \<longleftrightarrow> label = None \<or> re_fiscal_year_end_basis run = None \<or> l = label"
  by (auto simp: fiscal_check_def split: option.splits if_splits)

lemma fiscal_check_label:
  "fiscal_check label run = (Some l, rs, ns) \<Longrightarrow>
     label = Some l \<and> re_fiscal_year_end_basis run = Some ''documented'' \<and>
     in_opt (re_fiscal_year_end_status run) trusted_f3_statuses \<and> in_opt (re_period_status run) trusted_f3_statuses"
  by (auto simp: fiscal_check_def split: option.splits if_splits)

text \<open>
  a period that is reported valid really is one: the kind is instant or duration, the end is
  there and not after the publication date, an instant has no months, class or start, and a
  duration has positive months, the class those months give, and a printed start that is the
  day after the end moved back by those months. A fiscal label survives only under a documented
  fiscal year-end. Conversely a period with all of this is valid. The instant printed at a
  duration column's end is judged without the column's start and months.
\<close>

theorem validate_period_valid_iff:
  assumes "validate_period kind start0 finish months0 cls label run derivation = Inr r"
  shows "pr_status r = ''valid'' \<longleftrightarrow>
    (let from_end = derivation = ''duration_column_end'';
         start = if from_end then None else start0;
         months = if from_end then None else months0
     in (\<exists>e p. finish = Some e \<and> re_publication_date run = Some p \<and> e \<le> p \<and>
          (kind = Some ''instant'' \<and> instant_ok months cls start \<or>
           kind = Some ''duration'' \<and> duration_ok months cls start e)) \<and>
        (label = None \<or> re_fiscal_year_end_basis run = None \<or> pr_fiscal_label r = label))"
proof -
  obtain l lr ln where fc: "fiscal_check label run = (l, lr, ln)" by (metis prod_cases3)
  let ?s = "if derivation = ''duration_column_end'' then None else start0"
  let ?m = "if derivation = ''duration_column_end'' then None else months0"
  obtain rs ns where kc: "kind_check kind ?m cls ?s finish = Inr (rs, ns)"
    and r: "pr_reasons r = (if kind = Some ''instant'' \<or> kind = Some ''duration'' then []
              else [if kind = None then ''period_kind_missing'' else ''period_kind_invalid'']) @
            (if finish = None then [''period_end_missing''] else []) @ rs @
            (case re_publication_date run of None \<Rightarrow> [''publication_date_not_supplied'']
              | Some p \<Rightarrow> (case finish of None \<Rightarrow> []
                  | Some e \<Rightarrow> if p < e then [''period_end_after_publication''] else [])) @ lr"
      "pr_status r = (if pr_reasons r = [] then ''valid'' else ''invalid'')" "pr_fiscal_label r = l"
    using assms by (auto simp: validate_period_def Let_def fc bindR_eq_Inr)
  show ?thesis
  proof (cases "finish = None \<or> \<not> (kind = Some ''instant'' \<or> kind = Some ''duration'') \<or> re_publication_date run = None")
    case True
    then show ?thesis using r by (auto simp: Let_def split: option.splits)
  next
    case False
    then obtain e p where ep: "finish = Some e" "re_publication_date run = Some p"
      "kind = Some ''instant'' \<or> kind = Some ''duration''" by auto
    show ?thesis
      using kind_check_ok [OF kc [unfolded ep(1)] ep(3)] fiscal_check_ok [OF fc] r ep
      by (auto simp: Let_def not_less)
  qed
qed

text \<open>The period comes back with its own dates: nothing is derived.\<close>

lemma validate_period_fields:
  assumes "validate_period kind start0 finish months0 cls label run derivation = Inr r"
  shows "pr_period_kind r = kind \<and> pr_end_date r = finish \<and> pr_start_date r \<in> {None, start0} \<and>
    pr_duration_months r \<in> {None, months0} \<and> (pr_fiscal_label r = None \<or> pr_fiscal_label r = label)"
  using assms by (auto simp: validate_period_def Let_def bindR_eq_Inr split: prod.splits dest: fiscal_check_label)
    (metis fiscal_check_label option.exhaust)+

section \<open>Values\<close>

lemma classify_numeric:
  "classify_value U raw parsed cls = (''numeric'', g) \<Longrightarrow>
     cls \<in> set amount_classes \<and> g = [] \<and> (\<exists>p. parsed = Some p \<and> (cls \<in> set negative_classes \<longrightarrow> dec_lt p dec_zero))"
  by (auto simp: classify_value_def Let_def split: if_splits option.splits)

lemma classify_not_amount:
  "cls \<notin> set amount_classes \<Longrightarrow> fst (classify_value U raw parsed cls) \<noteq> ''numeric''"
  by (auto simp: classify_value_def Let_def)

lemma scale_reasons_Nil:
  "scale_reasons vtype scale basis = [] \<longleftrightarrow>
     (\<exists>k. scale = Some (10 ^ k)) \<and> (vtype = Some ''per_share_amount'' \<longrightarrow> scale = Some 1)"
  by (auto simp: scale_reasons_def is_power_of_ten_iff split: option.splits)

lemma currency_code_stripped:
  "currency_code (strip s) \<longleftrightarrow> length (strip s) = 3 \<and> list_all is_upper_letter (strip s)"
  using currency_code_strip by (auto simp: currency_code_def match_line_def)

definition printed_currency :: "string option \<Rightarrow> bool" where
  "printed_currency c \<longleftrightarrow> (\<exists>s. c = Some s \<and> length (strip s) = 3 \<and> list_all is_upper_letter (strip s))"

lemma currency_reasons_Nil: "currency_reasons (read_currency c) = [] \<longleftrightarrow> printed_currency c"
proof (cases c)
  case (Some s)
  then show ?thesis
    by (cases "strip s = []")
      (simp_all add: currency_reasons_def read_currency_def printed_currency_def currency_code_stripped)
qed (simp add: currency_reasons_def read_currency_def printed_currency_def)

lemma value_reasons_Nil:
  "value_reasons state (read_currency c) vtype scale basis = [] \<longleftrightarrow>
     state = ''numeric'' \<and> printed_currency c \<and> vtype \<in> {Some ''currency_amount'', Some ''per_share_amount''} \<and>
     (\<exists>k. scale = Some (10 ^ k)) \<and> (vtype = Some ''per_share_amount'' \<longrightarrow> scale = Some 1)"
  unfolding value_reasons_def append_is_Nil_conv currency_reasons_Nil scale_reasons_Nil by simp

text \<open>The shape of every result: what was computed when nothing was missing, and nothing otherwise.\<close>

lemma normalize_value_cases:
  assumes "normalize_value U raw parsed cls decimals sign vtype scale basis currency = Inr v"
    and "classify_value U raw parsed cls = (state, g)"
    and "rs = value_reasons state (read_currency currency) vtype scale basis"
  shows "vr_state v = state \<and> vr_reasons v = rs \<and> vr_currency v = read_currency currency \<and>
    vr_value_type v = vtype \<and> vr_raw_value v = raw \<and> vr_parsed_value v = parsed \<and> vr_sign_as_printed v = sign \<and>
    vr_dash_glyphs v = g"
    and "rs \<noteq> [] \<Longrightarrow> vr_status v = ''normalization_required'' \<and> vr_normalized_value v = None \<and> vr_half_unit v = None"
    and "rs = [] \<Longrightarrow> vr_status v = ''normalized'' \<and> state = ''numeric'' \<and>
      (\<exists>p n k x unit h. parsed = Some p \<and> scale = Some n \<and>
        k = (case decimals of None \<Rightarrow> max 0 (- expo p) | Some d \<Rightarrow> d) \<and> vr_printed_decimals v = Some k \<and>
        dec_mul p (dec_of_int n) = Inr x \<and> dec_mul (Dec 1 (- k)) (dec_of_int n) = Inr unit \<and>
        dec_half unit = Inr h \<and> vr_normalized_value v = Some x \<and> vr_printed_unit v = Some unit \<and> vr_half_unit v = Some h)"
proof -
  show "vr_state v = state \<and> vr_reasons v = rs \<and> vr_currency v = read_currency currency \<and>
    vr_value_type v = vtype \<and> vr_raw_value v = raw \<and> vr_parsed_value v = parsed \<and> vr_sign_as_printed v = sign \<and>
    vr_dash_glyphs v = g"
    using assms(1) unfolding normalize_value_def assms(2) prod.case Let_def assms(3) [symmetric]
    by (auto simp: bindR_eq_Inr split: if_splits)
  show "rs \<noteq> [] \<Longrightarrow> vr_status v = ''normalization_required'' \<and> vr_normalized_value v = None \<and> vr_half_unit v = None"
    using assms(1) unfolding normalize_value_def assms(2) prod.case Let_def assms(3) [symmetric] by auto
  assume rs: "rs = []"
  then have state: "state = ''numeric''" using assms(3) by (simp add: value_reasons_Nil)
  show "vr_status v = ''normalized'' \<and> state = ''numeric'' \<and>
      (\<exists>p n k x unit h. parsed = Some p \<and> scale = Some n \<and>
        k = (case decimals of None \<Rightarrow> max 0 (- expo p) | Some d \<Rightarrow> d) \<and> vr_printed_decimals v = Some k \<and>
        dec_mul p (dec_of_int n) = Inr x \<and> dec_mul (Dec 1 (- k)) (dec_of_int n) = Inr unit \<and>
        dec_half unit = Inr h \<and> vr_normalized_value v = Some x \<and> vr_printed_unit v = Some unit \<and> vr_half_unit v = Some h)"
    using assms(1) unfolding normalize_value_def assms(2) prod.case Let_def assms(3) [symmetric]
    by (cases decimals) (auto simp: bindR_eq_Inr rs state)
qed

lemma normalized_reasons:
  assumes "normalize_value U raw parsed cls decimals sign vtype scale basis currency = Inr v"
    and "vr_status v = ''normalized''"
  shows "vr_reasons v = [] \<and> vr_state v = ''numeric''"
proof -
  obtain state g where cl: "classify_value U raw parsed cls = (state, g)" by force
  note n = normalize_value_cases [OF assms(1) cl refl]
  have "value_reasons state (read_currency currency) vtype scale basis = []"
    using n(2) assms(2) by (rule_tac ccontr) simp
  then show ?thesis using n(1,3) by simp
qed

text \<open>When a value can be normalised, and what it then is.\<close>

definition normalizable :: "string \<Rightarrow> string option \<Rightarrow> int option \<Rightarrow> string option \<Rightarrow> bool" where
  "normalizable state vtype scale currency \<longleftrightarrow>
     state = ''numeric'' \<and> printed_currency currency \<and>
     vtype \<in> {Some ''currency_amount'', Some ''per_share_amount''} \<and>
     (\<exists>k. scale = Some (10 ^ k)) \<and> (vtype = Some ''per_share_amount'' \<longrightarrow> scale = Some 1)"

definition exact_amount :: "dec option \<Rightarrow> int option \<Rightarrow> int option \<Rightarrow> value_result \<Rightarrow> bool" where
  "exact_amount parsed scale decimals v \<longleftrightarrow>
     (\<exists>p n k x unit h. parsed = Some p \<and> scale = Some n \<and>
        k = (case decimals of None \<Rightarrow> max 0 (- expo p) | Some d \<Rightarrow> d) \<and> vr_printed_decimals v = Some k \<and>
        vr_normalized_value v = Some x \<and> vr_printed_unit v = Some unit \<and> vr_half_unit v = Some h \<and>
        dec_val x = dec_val p * of_int n \<and> dec_val unit = 10 powi (- k) * of_int n \<and>
        dec_val h = dec_val unit / 2)"

text \<open>
  A printed value is normalised exactly when nothing is missing or doubtful - the text is a
  number, the currency is printed as three capital letters, the value type is known, and the
  scale is a resolved power of ten which for a per-share value is 1 - and the result is then
  exact: the normalised value is the parsed value times the scale, the printed unit is one unit
  of the last printed decimal times the scale, the printed precision is half of it. Otherwise
  there is a reason, and no normalised value and no precision at all.
\<close>

theorem normalize_value_exact:
  assumes "normalize_value U raw parsed cls decimals sign vtype scale basis currency = Inr v"
  shows "if normalizable (vr_state v) vtype scale currency
      then vr_status v = ''normalized'' \<and> vr_reasons v = [] \<and> exact_amount parsed scale decimals v
      else vr_status v = ''normalization_required'' \<and> vr_reasons v \<noteq> [] \<and>
        vr_normalized_value v = None \<and> vr_half_unit v = None"
proof -
  obtain state g where cl: "classify_value U raw parsed cls = (state, g)" by force
  note c = normalize_value_cases [OF assms cl refl]
  have iff: "value_reasons state (read_currency currency) vtype scale basis = [] \<longleftrightarrow>
      normalizable (vr_state v) vtype scale currency"
    using c(1) unfolding normalizable_def value_reasons_Nil by metis
  show ?thesis
  proof (cases "normalizable (vr_state v) vtype scale currency")
    case True
    with iff have "value_reasons state (read_currency currency) vtype scale basis = []" by simp
    note c3 = c(3) [OF this]
    then obtain p n k x unit h where w: "parsed = Some p" "scale = Some n"
      "k = (case decimals of None \<Rightarrow> max 0 (- expo p) | Some d \<Rightarrow> d)" "vr_printed_decimals v = Some k"
      "dec_mul p (dec_of_int n) = Inr x" "dec_mul (Dec 1 (- k)) (dec_of_int n) = Inr unit" "dec_half unit = Inr h"
      "vr_normalized_value v = Some x" "vr_printed_unit v = Some unit" "vr_half_unit v = Some h"
      by blast
    have "dec_val x = dec_val p * of_int n" "dec_val unit = 10 powi (- k) * of_int n" "dec_val h = dec_val unit / 2"
      using dec_mul_val [OF w(5)] dec_mul_val [OF w(6)] dec_half_val [OF w(7)]
      by (simp_all add: dec_val_def [of "Dec _ _"])
    with w have "exact_amount parsed scale decimals v" unfolding exact_amount_def by blast
    then show ?thesis using True c3 c(1) \<open>value_reasons _ _ _ _ _ = []\<close> by simp
  next
    case False
    with iff have ne: "value_reasons state (read_currency currency) vtype scale basis \<noteq> []" by simp
    then show ?thesis using False c(1) c(2) [OF ne] by simp
  qed
qed

lemmas dec_eval = dec_mul_def dec_half_def dec_of_int_def dec_add_def add2_def dec_sub_def exact_def fits80_def
  significant_step significant_stop dec_lt_def dec_le_def dec_eq_def coef_at_def dec_zero_def dec_abs_def dec_neg_def
  dec_abs28_def dec_neg28_def round28_def half_even_def digit_count_step digit_count_stop Let_def

lemmas value_eval = normalize_value_def classify_value_def amount_classes_def negative_classes_def value_reasons_def
  currency_reasons_def read_currency_def strip_def is_space_def currency_code_def match_line_def is_upper_letter_def
  scale_reasons_def is_power_of_ten_def power_loop_step power_loop_stop dec_mul_def dec_half_def dec_of_int_def exact_def fits80_def
  significant_step significant_stop dec_lt_def coef_at_def dec_zero_def on_ok_def Let_def

definition lkr_value :: "dec \<Rightarrow> int \<Rightarrow> value_result res" where
  "lkr_value p scale = normalize_value ascii_tables (u ''x'') (Some p) ''numeric'' None ''positive''
     (Some ''currency_amount'') (Some scale) (Some ''statement'') (Some ''LKR'')"

lemma normalize_value_exact_witness:
  "\<exists>v. lkr_value (Dec 123450 (- 2)) 1000 = Inr v \<and> vr_status v = ''normalized'' \<and>
     exact_amount (Some (Dec 123450 (- 2))) (Some 1000) None v"
proof -
  have "on_ok (\<lambda>v. vr_state v = ''numeric'') (lkr_value (Dec 123450 (- 2)) 1000)"
    by (simp add: lkr_value_def value_eval)
  then obtain v where v: "lkr_value (Dec 123450 (- 2)) 1000 = Inr v" "vr_state v = ''numeric''"
    by (auto simp: on_ok_iff)
  have "\<exists>k. (1000 :: int) = 10 ^ k" by (rule exI [of _ 3]) simp
  moreover have "printed_currency (Some ''LKR'')"
    by (simp add: printed_currency_def strip_def is_space_def is_upper_letter_def)
  ultimately have "normalizable (vr_state v) (Some ''currency_amount'') (Some 1000) (Some ''LKR'')"
    using v(2) by (simp add: normalizable_def)
  then show ?thesis
    using normalize_value_exact [OF v(1) [unfolded lkr_value_def]] v(1) by simp
qed

text \<open>
  A run published on 10 May 2024 with a documented fiscal year-end, and its year to March.
\<close>

definition sample_run :: run_evidence where
  "sample_run = \<lparr>re_issuer_link_status = Some ''evidenced'', re_publication_date = Some (Date 2024 5 10),
     re_fiscal_year_end_basis = Some ''documented'', re_fiscal_year_end_status = Some ''confirmed'',
     re_period_status = Some ''confirmed''\<rparr>"

lemmas period_eval = validate_period_def kind_check_def duration_check_def fiscal_check_def expected_period_class_def
  next_day_def add_months_def mk_date_def valid_date_def days_in_month_def leap_year_def less_date_def less_eq_date_def
  show_int_def show_nat_step in_opt_def trusted_f3_statuses_def on_ok_def Let_def

lemma validate_period_valid_iff_witness:
  "\<exists>r. validate_period (Some ''duration'') (Some (Date 2023 4 1)) (Some (Date 2024 3 31)) (Some 12) (Some ''12m'')
      (Some ''FY2024'') sample_run ''column'' = Inr r \<and> pr_status r = ''valid'' \<and>
      duration_ok (Some 12) (Some ''12m'') (Some (Date 2023 4 1)) (Date 2024 3 31)"
proof -
  have "on_ok (\<lambda>r. pr_status r = ''valid'') (validate_period (Some ''duration'') (Some (Date 2023 4 1))
      (Some (Date 2024 3 31)) (Some 12) (Some ''12m'') (Some ''FY2024'') sample_run ''column'')"
    by (simp add: sample_run_def period_eval)
  then obtain r where r: "validate_period (Some ''duration'') (Some (Date 2023 4 1)) (Some (Date 2024 3 31)) (Some 12)
      (Some ''12m'') (Some ''FY2024'') sample_run ''column'' = Inr r" "pr_status r = ''valid''"
    by (auto simp: on_ok_iff)
  with validate_period_valid_iff [OF r(1)] show ?thesis by (auto simp: Let_def)
qed

section \<open>Printed nils\<close>

text \<open>a printed nil is never a number: whatever is printed in a cell whose class is not one of
  the four amount classes - a dash, the word nil, a blank, a percentage - is not normalised, has
  no normalised value, and carries its own state as the reason; in particular it is never 0.
\<close>

theorem nil_is_not_a_number:
  assumes "normalize_value U raw parsed cls decimals sign vtype scale basis currency = Inr v"
    and "cls \<notin> set amount_classes"
  shows "vr_state v \<noteq> ''numeric'' \<and> vr_status v = ''normalization_required'' \<and> vr_normalized_value v = None \<and>
    vr_half_unit v = None \<and> ''value_'' @ vr_state v \<in> set (vr_reasons v)"
proof -
  obtain state g where cl: "classify_value U raw parsed cls = (state, g)" by force
  then have ne: "state \<noteq> ''numeric''" using classify_not_amount [OF assms(2), of U raw parsed] by auto
  note c = normalize_value_cases [OF assms(1) cl refl]
  have "''value_'' @ state \<in> set (value_reasons state (read_currency currency) vtype scale basis)"
    using ne by (simp add: value_reasons_def)
  moreover from this have "value_reasons state (read_currency currency) vtype scale basis \<noteq> []" by force
  ultimately show ?thesis using c(1,2) ne by simp
qed

lemma nil_is_not_a_number_witness:
  "\<exists>v. normalize_value ascii_tables (u ''-'') None ''dash_nil'' None ''none'' (Some ''currency_amount'') (Some 1000) None
      (Some ''LKR'') = Inr v \<and> vr_state v = ''reported_nil'' \<and> vr_normalized_value v = None"
proof -
  have "on_ok (\<lambda>v. vr_state v = ''reported_nil'') (normalize_value ascii_tables (u ''-'') None ''dash_nil'' None ''none''
      (Some ''currency_amount'') (Some 1000) None (Some ''LKR''))"
    by (simp add: value_eval u_def ascii_tables_def ustrip_def is_white_def no_spaces_def dash_glyph_def)
  then obtain v where v: "normalize_value ascii_tables (u ''-'') None ''dash_nil'' None ''none'' (Some ''currency_amount'')
      (Some 1000) None (Some ''LKR'') = Inr v" "vr_state v = ''reported_nil''"
    by (auto simp: on_ok_iff)
  have "''dash_nil'' \<notin> set amount_classes" by (simp add: amount_classes_def)
  from nil_is_not_a_number [OF v(1) this] v show ?thesis by simp
qed

section \<open>Comparison within printed precision\<close>

text \<open>
  The number and the printed precision of a value, and the values the comparison is exact on:
  normalised, in one currency and value type, an everyday amount printed to at most six decimals.
\<close>

definition vr_val :: "value_result \<Rightarrow> rat" where
  "vr_val v = (case vr_normalized_value v of None \<Rightarrow> 0 | Some x \<Rightarrow> dec_val x)"

definition vr_half :: "value_result \<Rightarrow> rat" where
  "vr_half v = (case vr_half_unit v of None \<Rightarrow> 0 | Some h \<Rightarrow> dec_val h)"

definition everyday_value :: "string option \<Rightarrow> string option \<Rightarrow> value_result \<Rightarrow> bool" where
  "everyday_value currency vtype v \<longleftrightarrow>
     vr_status v = ''normalized'' \<and> vr_currency v = currency \<and> vr_value_type v = vtype \<and>
     (case vr_normalized_value v of None \<Rightarrow> False | Some x \<Rightarrow> everyday x) \<and>
     (case vr_half_unit v of None \<Rightarrow> False | Some h \<Rightarrow> fine_dec 7 (10 ^ 30) h \<and> 0 \<le> coef h)"

definition values_agree :: "value_result \<Rightarrow> value_result \<Rightarrow> bool res" where
  "values_agree a b = bindR (compare_values a b) (\<lambda>c. Inr (cr_outcome c = ''agree''))"

lemma compare_values_normalized:
  assumes "vr_status a = ''normalized''" "vr_status b = ''normalized''" "vr_currency a = vr_currency b"
    "vr_value_type a = vr_value_type b" "vr_normalized_value a = Some va" "vr_normalized_value b = Some vb"
    "vr_half_unit a = Some ha" "vr_half_unit b = Some hb"
  shows "compare_values a b = bindR (dec_add [ha, hb]) (\<lambda>tol. bindR (dec_sub va vb) (\<lambda>d.
    Inr \<lparr>cr_outcome = if dec_le (dec_abs28 d) tol then ''agree'' else ''disagree'', cr_reason = None,
      cr_a_value = Some va, cr_b_value = Some vb, cr_a_half_unit = Some ha, cr_b_half_unit = Some hb,
      cr_tolerance = Some tol, cr_abs_difference = Some (dec_abs28 d), cr_currency = vr_currency a,
      cr_value_type = vr_value_type a\<rparr>))"
  using assms by (simp add: compare_values_def Let_def)

lemma everyday_valueE:
  assumes "everyday_value currency vtype v"
  obtains x h where "vr_normalized_value v = Some x" "vr_half_unit v = Some h" "everyday x"
    "fine_dec 7 (10 ^ 30) h" "0 \<le> coef h" "vr_status v = ''normalized''" "vr_currency v = currency"
    "vr_value_type v = vtype"
  using assms by (auto simp: everyday_value_def split: option.splits)

lemma everyday_compare:
  assumes a: "everyday_value currency vtype a" and b: "everyday_value currency vtype b"
  shows "\<exists>c. compare_values a b = Inr c \<and>
    cr_outcome c = (if \<bar>vr_val a - vr_val b\<bar> \<le> vr_half a + vr_half b then ''agree'' else ''disagree'')"
proof -
  obtain va ha where va: "vr_normalized_value a = Some va" "vr_half_unit a = Some ha" "everyday va"
    "fine_dec 7 (10 ^ 30) ha" "0 \<le> coef ha" "vr_status a = ''normalized''" "vr_currency a = currency" "vr_value_type a = vtype"
    using a by (rule everyday_valueE)
  obtain vb hb where vb: "vr_normalized_value b = Some vb" "vr_half_unit b = Some hb" "everyday vb"
    "fine_dec 7 (10 ^ 30) hb" "0 \<le> coef hb" "vr_status b = ''normalized''" "vr_currency b = currency" "vr_value_type b = vtype"
    using b by (rule everyday_valueE)
  obtain d where d: "dec_sub va vb = Inr d" using everyday_sub [OF va(3) vb(3)] by blast
  obtain t where t: "dec_add [ha, hb] = Inr t" using dec_add2_fine [OF va(4) vb(4)] by auto
  have "dec_le (dec_abs28 d) t \<longleftrightarrow> \<bar>vr_val a - vr_val b\<bar> \<le> vr_half a + vr_half b"
    using everyday_abs_diff [OF va(3) vb(3) d] dec_add_val [OF t] va(1,2) vb(1,2)
    by (simp add: dec_le_iff vr_val_def vr_half_def)
  then show ?thesis
    using va vb d t by (simp add: compare_values_normalized)
qed

interpretation printed: printed_precision vr_val vr_half values_agree "everyday_value currency vtype"
  for currency vtype
proof
  fix x y b
  assume x: "everyday_value currency vtype x"
  then show "0 \<le> vr_half x"
    by (rule everyday_valueE) (simp add: vr_half_def dec_val_def)
  assume y: "everyday_value currency vtype y" and "values_agree x y = Inr b"
  then show "b \<longleftrightarrow> \<bar>vr_val x - vr_val y\<bar> \<le> vr_half x + vr_half y"
    using everyday_compare [OF x y] by (auto simp: values_agree_def split: if_splits)
qed

text \<open>
  two everyday values of one currency and value type are always comparable: the comparison
  returns, and it says agree exactly when the two printed intervals - value plus or minus half a
  printed unit - have a common point. So it is symmetric and never depends on which value is
  printed more finely.
\<close>

theorem compare_values_overlap:
  assumes "everyday_value currency vtype a" and "everyday_value currency vtype b"
  shows "\<exists>c. compare_values a b = Inr c \<and> cr_outcome c \<in> {''agree'', ''disagree''} \<and>
    (cr_outcome c = ''agree'' \<longleftrightarrow>
      (\<exists>p. vr_val a - vr_half a \<le> p \<and> p \<le> vr_val a + vr_half a \<and>
           vr_val b - vr_half b \<le> p \<and> p \<le> vr_val b + vr_half b))"
proof -
  obtain c where c: "compare_values a b = Inr c"
    "cr_outcome c = (if \<bar>vr_val a - vr_val b\<bar> \<le> vr_half a + vr_half b then ''agree'' else ''disagree'')"
    using everyday_compare [OF assms] by blast
  then have ag: "values_agree a b = Inr (cr_outcome c = ''agree'')" by (simp add: values_agree_def)
  have "cr_outcome c = ''agree'' \<longleftrightarrow>
      (\<exists>p. vr_val a - vr_half a \<le> p \<and> p \<le> vr_val a + vr_half a \<and>
           vr_val b - vr_half b \<le> p \<and> p \<le> vr_val b + vr_half b)" (is "?l \<longleftrightarrow> ?r")
  proof
    assume ?l
    then have "vr_val a - vr_half a \<le> vr_val b + vr_half b" "vr_val b - vr_half b \<le> vr_val a + vr_half a"
      using printed.agree_overlap [OF assms ag] by auto
    then show ?r
      using printed.half_unit_nonneg [OF assms(1)] printed.half_unit_nonneg [OF assms(2)]
      by (intro exI [of _ "max (vr_val a - vr_half a) (vr_val b - vr_half b)"]) (auto simp: max_def)
  next
    assume ?r
    then show ?l using printed.common_point_agree [OF assms ag] by blast
  qed
  with c show ?thesis by (intro exI [of _ c]) auto
qed

definition sample_value :: "dec \<Rightarrow> dec \<Rightarrow> value_result" where
  "sample_value x h = \<lparr>vr_state = ''numeric'', vr_raw_value = [], vr_representation_class = ''numeric'',
     vr_dash_glyphs = [], vr_parsed_value = Some x, vr_printed_decimals = Some 0, vr_sign_as_printed = ''positive'',
     vr_value_type = Some ''currency_amount'', vr_reported_scale = Some 1, vr_scale_basis = None,
     vr_currency = Some ''LKR'', vr_normalized_value = Some x, vr_printed_unit = None, vr_half_unit = Some h,
     vr_status = ''normalized'', vr_reasons = [], vr_rule = ''parsed_value*reported_scale''\<rparr>"

lemma compare_values_overlap_witness:
  "\<exists>c. compare_values (sample_value (Dec 1234000 0) (Dec 500 0)) (sample_value (Dec 1234400 0) (Dec 5 (- 1))) = Inr c \<and>
     (cr_outcome c = ''agree'' \<longleftrightarrow> (\<exists>p :: rat. 1233500 \<le> p \<and> p \<le> 1234500 \<and> 1234399.5 \<le> p \<and> p \<le> 1234400.5))"
proof -
  have e: "everyday_value (Some ''LKR'') (Some ''currency_amount'') (sample_value (Dec 1234000 0) (Dec 500 0))"
    "everyday_value (Some ''LKR'') (Some ''currency_amount'') (sample_value (Dec 1234400 0) (Dec 5 (- 1)))"
    by (simp_all add: everyday_value_def sample_value_def everyday_def fine_dec_def)
  from compare_values_overlap [OF e] show ?thesis
    by (simp add: vr_val_def vr_half_def sample_value_def dec_val_def power_int_def) blast
qed

lemma rounding_agrees:
  "\<exists>c. compare_values (sample_value (Dec 1 29) (Dec 5 28)) (sample_value (Dec 49999999999999999999999999999 0) (Dec 5 (- 1)))
      = Inr c \<and> cr_outcome c = ''agree''"
proof -
  let ?a = "sample_value (Dec 1 29) (Dec 5 28)"
  let ?b = "sample_value (Dec 49999999999999999999999999999 0) (Dec 5 (- 1))"
  have tol: "dec_add [Dec 5 28, Dec 5 (- 1)] = Inr (Dec 500000000000000000000000000005 (- 1))"
    by (simp add: dec_eval)
  have diff: "dec_sub (Dec 1 29) (Dec 49999999999999999999999999999 0) = Inr (Dec 50000000000000000000000000001 0)"
    by (simp add: dec_eval)
  have r: "dec_abs28 (Dec 50000000000000000000000000001 0) = Dec 5000000000000000000000000000 1"
    by (simp add: dec_eval)
  have le: "dec_le (Dec 5000000000000000000000000000 1) (Dec 500000000000000000000000000005 (- 1))"
    by (simp add: dec_le_def coef_at_def)
  show ?thesis
    using compare_values_normalized [of ?a ?b "Dec 1 29" "Dec 49999999999999999999999999999 0" "Dec 5 28" "Dec 5 (- 1)"]
    by (simp add: sample_value_def tol diff r le)
qed

text \<open>
  Beyond 28 digits the comparison is not exact, although the module promises arithmetic that
  traps inexact results: the absolute value of the difference is rounded to 28 digits in the
  default context. The values 10^29 (printed in units of 10^29) and 49999999999999999999999999999
  agree, although they differ by more than the sum of their printed precisions.
\<close>

theorem compare_values_rounds:
  "\<exists>c. compare_values (sample_value (Dec 1 29) (Dec 5 28)) (sample_value (Dec 49999999999999999999999999999 0) (Dec 5 (- 1)))
      = Inr c \<and> cr_outcome c = ''agree'' \<and>
    vr_half (sample_value (Dec 1 29) (Dec 5 28)) + vr_half (sample_value (Dec 49999999999999999999999999999 0) (Dec 5 (- 1)))
      < \<bar>vr_val (sample_value (Dec 1 29) (Dec 5 28)) - vr_val (sample_value (Dec 49999999999999999999999999999 0) (Dec 5 (- 1)))\<bar>"
  using rounding_agrees by (auto simp: vr_half_def vr_val_def sample_value_def dec_val_def power_int_def)

section \<open>Operations, maturity, and the whole candidate\<close>

lemma check_operations_trusted:
  "or_trust (check_operations k ops basis) = ''trusted'' \<longleftrightarrow>
     or_reason (check_operations k ops basis) = None \<and>
     ops \<in> {''total_or_unstated'', ''continuing'', ''discontinued''} \<and>
     (basis = ''none'' \<and> ops = ''total_or_unstated'' \<or> basis = ''row_label'' \<or>
      basis = ''section_label'' \<and> \<not> in_opt k total_row_concepts)"
  by (auto simp: check_operations_def Let_def)

lemma check_operations_reason:
  "or_trust (check_operations k ops basis) \<noteq> ''trusted'' \<Longrightarrow>
     \<exists>r. or_reason (check_operations k ops basis) = Some r"
  by (cases "or_reason (check_operations k ops basis)")
    (auto simp: check_operations_def Let_def split: if_splits)

lemma check_operations_fields [simp]:
  "or_operations (check_operations k ops basis) = ops" "or_basis (check_operations k ops basis) = basis"
  by (simp_all add: check_operations_def Let_def)

lemma eligibility_reasons_Nil:
  "eligibility_reasons ctx run = [] \<longleftrightarrow>
     cc_candidate_status ctx = ''proposed'' \<and> cc_mapping_status ctx = ''mapped'' \<and>
     (\<exists>k c. cc_concept_key ctx = Some k \<and> k \<noteq> [] \<and> by_key k = Some c \<and> co_status c = ''active'') \<and>
     cc_role_trust ctx = ''trusted'' \<and> cc_role ctx \<in> set trusted_roles \<and>
     re_issuer_link_status run = Some ''evidenced''"
proof -
  have c: "(case concept_of k of None \<Rightarrow> [''concept_unknown'']
      | Some c \<Rightarrow> if co_status c \<noteq> ''active'' then [''concept_not_active''] else []) = [] \<longleftrightarrow>
      (\<exists>s c. k = Some s \<and> s \<noteq> [] \<and> by_key s = Some c \<and> co_status c = ''active'')" for k
    by (auto simp: concept_of_def split: option.splits if_splits)
  show ?thesis
    unfolding eligibility_reasons_def append_is_Nil_conv
    using c [of "cc_concept_key ctx"] by (cases "cc_concept_key ctx"; cases "re_issuer_link_status run") auto
qed

lemma validate_candidate_cases:
  assumes "validate_candidate U ctx run = Inr cv"
  obtains period val where
    "validate_period (cc_period_kind ctx) (cc_start_date ctx) (cc_end_date ctx) (cc_duration_months ctx)
       (cc_period_class ctx) (cc_fiscal_label ctx) run (cc_period_derivation ctx) = Inr period"
    "normalize_value U (cc_raw_value ctx) (cc_parsed_value ctx) (cc_representation_class ctx) (cc_printed_decimals ctx)
       (cc_sign_as_printed ctx) (cc_value_type ctx) (cc_reported_scale ctx) (cc_scale_basis ctx)
       (cc_reported_currency ctx) = Inr val"
    "cv_source_key cv = cc_source_key ctx" "cv_concept_key cv = cc_concept_key ctx"
    "cv_period cv = period" "cv_value cv = val"
    "cv_operations cv = check_operations (cc_concept_key ctx) (cc_operations ctx) (cc_operations_basis ctx)"
    "cv_maturity cv = borrowing_maturity U (cc_concept_key ctx) (cc_section_label_raw ctx)"
    "cv_ineligible_reasons cv = eligibility_reasons ctx run @
       (if or_trust (cv_operations cv) \<noteq> ''trusted''
        then (case or_reason (cv_operations cv) of None \<Rightarrow> [] | Some r \<Rightarrow> [r]) else []) @
       pr_reasons period @ (if vr_state val = ''inconsistent_input'' then [''value_inconsistent_input''] else [])"
    "cv_normalization_reasons cv = filter (\<lambda>r. r \<noteq> ''value_inconsistent_input'') (vr_reasons val)"
    "cv_eligibility cv = (if cv_ineligible_reasons cv \<noteq> [] then ''ineligible''
       else if cv_normalization_reasons cv \<noteq> [] then ''normalization_required'' else ''eligible'')"
  using assms unfolding validate_candidate_def Let_def bindR_eq_Inr by (elim exE conjE) (rule that, auto)

lemma validate_period_status:
  "validate_period kind s e m cls label run der = Inr r \<Longrightarrow>
     pr_status r = (if pr_reasons r = [] then ''valid'' else ''invalid'')"
  by (auto simp: validate_period_def Let_def bindR_eq_Inr split: prod.splits)

lemma scale_reasons_no_state: "''value_inconsistent_input'' \<notin> set (scale_reasons vtype scale basis)"
  by (simp add: scale_reasons_def scale_reason_def split: option.split)

lemma value_reasons_inconsistent:
  "''value_inconsistent_input'' \<in> set (value_reasons state c vtype scale basis) \<longleftrightarrow> state = ''inconsistent_input''"
  using scale_reasons_no_state [of vtype scale basis]
  by (auto simp: value_reasons_def currency_reasons_def split: option.splits)

text \<open>
  An eligible candidate has passed every rule: F5 proposed it, it maps to one active concept,
  its column role is trusted, the issuer evidence is evidenced, its operations are trusted, its
  period is valid, and its value is normalised. It is ineligible exactly when one of the first
  six fails or its value is inconsistent with its class; what is left needs normalisation.
\<close>

theorem validate_candidate_eligible_iff:
  assumes "validate_candidate U ctx run = Inr cv"
  shows "(cv_eligibility cv = ''eligible'' \<longleftrightarrow>
      eligibility_reasons ctx run = [] \<and> or_trust (cv_operations cv) = ''trusted'' \<and>
      pr_status (cv_period cv) = ''valid'' \<and> vr_status (cv_value cv) = ''normalized'') \<and>
    (cv_eligibility cv = ''ineligible'' \<longleftrightarrow>
      eligibility_reasons ctx run \<noteq> [] \<or> or_trust (cv_operations cv) \<noteq> ''trusted'' \<or>
      pr_status (cv_period cv) \<noteq> ''valid'' \<or> vr_state (cv_value cv) = ''inconsistent_input'') \<and>
    cv_eligibility cv \<in> {''eligible'', ''ineligible'', ''normalization_required''}"
proof -
  obtain period val where c:
    "validate_period (cc_period_kind ctx) (cc_start_date ctx) (cc_end_date ctx) (cc_duration_months ctx)
       (cc_period_class ctx) (cc_fiscal_label ctx) run (cc_period_derivation ctx) = Inr period"
    "normalize_value U (cc_raw_value ctx) (cc_parsed_value ctx) (cc_representation_class ctx) (cc_printed_decimals ctx)
       (cc_sign_as_printed ctx) (cc_value_type ctx) (cc_reported_scale ctx) (cc_scale_basis ctx)
       (cc_reported_currency ctx) = Inr val"
    "cv_period cv = period" "cv_value cv = val"
    "cv_operations cv = check_operations (cc_concept_key ctx) (cc_operations ctx) (cc_operations_basis ctx)"
    "cv_ineligible_reasons cv = eligibility_reasons ctx run @
       (if or_trust (cv_operations cv) \<noteq> ''trusted''
        then (case or_reason (cv_operations cv) of None \<Rightarrow> [] | Some r \<Rightarrow> [r]) else []) @
       pr_reasons period @ (if vr_state val = ''inconsistent_input'' then [''value_inconsistent_input''] else [])"
    "cv_normalization_reasons cv = filter (\<lambda>r. r \<noteq> ''value_inconsistent_input'') (vr_reasons val)"
    "cv_eligibility cv = (if cv_ineligible_reasons cv \<noteq> [] then ''ineligible''
       else if cv_normalization_reasons cv \<noteq> [] then ''normalization_required'' else ''eligible'')"
    using assms by (rule validate_candidate_cases)
  have ne: "cv_ineligible_reasons cv = [] \<longleftrightarrow> eligibility_reasons ctx run = [] \<and>
      or_trust (cv_operations cv) = ''trusted'' \<and> pr_status period = ''valid'' \<and> vr_state val \<noteq> ''inconsistent_input''"
    using check_operations_reason [of "cc_concept_key ctx" "cc_operations ctx" "cc_operations_basis ctx"]
      validate_period_status [OF c(1)]
    unfolding c(6) c(5) append_is_Nil_conv by (auto split: option.splits)
  obtain state g where cl: "classify_value U (cc_raw_value ctx) (cc_parsed_value ctx) (cc_representation_class ctx) = (state, g)"
    by force
  note n = normalize_value_cases [OF c(2) cl refl]
  have norm: "vr_status val = ''normalized'' \<longleftrightarrow> vr_reasons val = []" "vr_reasons val = [] \<Longrightarrow> vr_state val = ''numeric''"
    using n by (cases "vr_reasons val = []"; simp)+
  have "cv_normalization_reasons cv = vr_reasons val" if "vr_state val \<noteq> ''inconsistent_input''"
  proof -
    have "''value_inconsistent_input'' \<notin> set (vr_reasons val)"
      using n(1) that value_reasons_inconsistent [of state] by simp
    then show ?thesis unfolding c(7) by (intro filter_True) auto
  qed
  then show ?thesis
    using ne norm unfolding c(3,4) c(8) by (cases "cv_ineligible_reasons cv = []") auto
qed

definition sample_context :: candidate_context where
  "sample_context = \<lparr>cc_source_key = (''run'', 0, 1, 2, 0, ''revenue''), cc_concept_key = Some ''revenue'',
     cc_mapping_status = ''mapped'', cc_candidate_status = ''proposed'', cc_value_type = Some ''currency_amount'',
     cc_attribution = ''not_applicable'', cc_period_kind = Some ''duration'', cc_period_class = Some ''12m'',
     cc_period_derivation = ''column'', cc_raw_value = u ''1,234'', cc_parsed_value = Some (Dec 1234 0),
     cc_representation_class = ''numeric'', cc_printed_decimals = Some 0, cc_sign_as_printed = ''positive'',
     cc_reported_scale = Some 1000, cc_scale_basis = Some ''statement'', cc_reported_currency = Some ''LKR'',
     cc_statement_index = 0, cc_statement_root = 0, cc_statement_kind = ''profit_or_loss'', cc_column_index = 2,
     cc_role = ''current'', cc_role_trust = ''trusted'', cc_start_date = Some (Date 2023 4 1),
     cc_end_date = Some (Date 2024 3 31), cc_duration_months = Some 12, cc_fiscal_label = Some ''FY2024'',
     cc_reported_scope = ''group'', cc_canonical_scope = ''consolidated'', cc_row_index = 1, cc_label_raw = u ''Revenue'',
     cc_section_label_raw = None, cc_operations = ''total_or_unstated'', cc_operations_basis = ''none'',
     cc_candidate_id = None, cc_ambiguous_concepts = []\<rparr>"

lemma sample_context_validates:
  "on_ok (\<lambda>cv. cv_eligibility cv = ''eligible'') (validate_candidate ascii_tables sample_context sample_run)"
proof -
  have e: "eligibility_reasons sample_context sample_run = []"
    unfolding eligibility_reasons_Nil
    by (simp add: sample_context_def sample_run_def trusted_roles_def by_key_def concepts_def mk_concept_def)
  have p: "on_ok (\<lambda>r. pr_status r = ''valid'') (validate_period (Some ''duration'') (Some (Date 2023 4 1))
      (Some (Date 2024 3 31)) (Some 12) (Some ''12m'') (Some ''FY2024'') sample_run ''column'')"
    by (simp add: sample_run_def period_eval)
  have v: "on_ok (\<lambda>v. vr_status v = ''normalized'') (normalize_value ascii_tables (u ''1,234'') (Some (Dec 1234 0)) ''numeric''
      (Some 0) ''positive'' (Some ''currency_amount'') (Some 1000) (Some ''statement'') (Some ''LKR''))"
    by (simp add: value_eval)
  obtain r val where rv: "validate_period (Some ''duration'') (Some (Date 2023 4 1)) (Some (Date 2024 3 31)) (Some 12)
      (Some ''12m'') (Some ''FY2024'') sample_run ''column'' = Inr r" "normalize_value ascii_tables (u ''1,234'')
      (Some (Dec 1234 0)) ''numeric'' (Some 0) ''positive'' (Some ''currency_amount'') (Some 1000) (Some ''statement'')
      (Some ''LKR'') = Inr val" "pr_status r = ''valid''" "vr_status val = ''normalized''"
    using p v by (auto simp: on_ok_iff)
  have "vr_reasons val = []" "vr_state val = ''numeric''"
    using normalized_reasons [OF rv(2) rv(4)] by simp_all
  then show ?thesis
    using rv e validate_period_status [OF rv(1)]
    by (simp add: validate_candidate_def Let_def on_ok_def sample_context_def check_operations_def split: if_splits)
qed

lemma validate_candidate_eligible_iff_witness:
  "\<exists>cv. validate_candidate ascii_tables sample_context sample_run = Inr cv \<and> vr_status (cv_value cv) = ''normalized''"
proof -
  obtain cv where cv: "validate_candidate ascii_tables sample_context sample_run = Inr cv" "cv_eligibility cv = ''eligible''"
    using sample_context_validates by (auto simp: on_ok_iff)
  with validate_candidate_eligible_iff [OF cv(1)] show ?thesis by blast
qed

end
