(* ===== verification/OP1Facts.thy ===== *)
theory OP1Facts
  imports OP1 ValidationFacts
begin

text \<open>
  What a passing operations partition means, and that it is the only door: a section-derived row
  is admitted only as a term of a partition that adds up within printed precision.
\<close>

lemma dec_min_Inr: "dec_min xs = Inr m \<Longrightarrow> m \<in> set xs \<and> (\<forall>x \<in> set xs. dec_val m \<le> dec_val x)"
proof (induction xs rule: dec_min.induct)
  case (3 x y ys)
  then show ?case by (auto simp: dec_lt_iff split: if_splits)
qed simp_all

lemma dec_max_Inr: "dec_max xs = Inr m \<Longrightarrow> m \<in> set xs \<and> (\<forall>x \<in> set xs. dec_val x \<le> dec_val m)"
proof (induction xs rule: dec_max.induct)
  case (3 x y ys)
  then show ?case by (auto simp: dec_lt_iff split: if_splits)
qed simp_all

lemma dec_min_ex: "xs \<noteq> [] \<Longrightarrow> \<exists>m. dec_min xs = Inr m"
  by (induction xs rule: dec_min.induct) auto

lemma dec_max_ex: "xs \<noteq> [] \<Longrightarrow> \<exists>m. dec_max xs = Inr m"
  by (induction xs rule: dec_max.induct) auto

lemma set_the_values [simp]: "set (the_values xs) = {x. Some x \<in> set xs}"
  by (induction xs) (auto simp: the_values_def List.map_filter_def)

lemma several_numbers_False:
  assumes "\<not> several_numbers vs" and "w \<in> set vs"
  shows "same_number (hd vs) w"
proof (cases vs)
  case (Cons v ws)
  then show ?thesis
    using assms by (auto simp: several_numbers_def list_ex_iff same_number_def dec_eq_iff split: option.splits)
qed (use assms in simp)

lemma same_number_Some: "same_number (Some x) w \<longleftrightarrow> (\<exists>y. w = Some y \<and> dec_val x = dec_val y)"
  by (auto simp: same_number_def dec_eq_iff split: option.splits)

text \<open>The rows of one term: all numeric, normalised, of one value; the finest precision counts.\<close>

definition term_number :: "checked list \<Rightarrow> rat \<Rightarrow> rat \<Rightarrow> bool" where
  "term_number pairs v h \<longleftrightarrow> pairs \<noteq> [] \<and>
     (\<forall>p \<in> set pairs. vr_state (cv_value (snd p)) = ''numeric'' \<and> vr_status (cv_value (snd p)) = ''normalized'' \<and>
        (\<exists>x. vr_normalized_value (cv_value (snd p)) = Some x \<and> dec_val x = v)) \<and>
     (\<forall>p \<in> set pairs. \<forall>k. vr_half_unit (cv_value (snd p)) = Some k \<longrightarrow> h \<le> dec_val k) \<and>
     (\<exists>p \<in> set pairs. \<exists>k. vr_half_unit (cv_value (snd p)) = Some k \<and> dec_val k = h)"

lemma op1_row_of_fields [simp]:
  "ow_value_state (op1_row_of p) = vr_state (cv_value (snd p))"
  "ow_value_status (op1_row_of p) = vr_status (cv_value (snd p))"
  "ow_normalized_value (op1_row_of p) = vr_normalized_value (cv_value (snd p))"
  "ow_half_unit (op1_row_of p) = vr_half_unit (cv_value (snd p))"
  "ow_source_key (op1_row_of p) = cc_source_key (fst p)"
  "ow_operations_basis (op1_row_of p) = cc_operations_basis (fst p)"
  by (simp_all add: op1_row_of_def Let_def)

lemma op1_term_rows: "op1_term_of ops pairs = Inr t \<Longrightarrow> ot_rows t = sort_key ow_source_key (map op1_row_of pairs)"
  by (auto simp: op1_term_of_def Let_def bindR_eq_Inr split: if_splits)

lemma op1_term_cases:
  assumes "op1_term_of ops pairs = Inr t" and "ot_status t = ''usable''" and "rows = sort_key ow_source_key (map op1_row_of pairs)"
  shows "rows \<noteq> [] \<and> (\<forall>r \<in> set rows. ow_value_state r = ''numeric'' \<and> ow_value_status r = ''normalized'') \<and>
    \<not> several_numbers (map ow_normalized_value rows) \<and> ot_number t = ow_normalized_value (hd rows) \<and>
    (\<exists>h. dec_min (the_values (map ow_half_unit rows)) = Inr h \<and> ot_half_unit t = Some h)"
  using assms(1,2) unfolding op1_term_of_def assms(3) [symmetric] Let_def
  by (auto simp: bindR_eq_Inr list_ex_iff split: if_splits)

lemma op1_term_usable:
  assumes "op1_term_of ops pairs = Inr t" and "ot_status t = ''usable''"
    and "ot_number t = Some v" and "ot_half_unit t = Some h"
  shows "term_number pairs (dec_val v) (dec_val h)"
proof -
  define rows where "rows = sort_key ow_source_key (map op1_row_of pairs)"
  note c = op1_term_cases [OF assms(1,2) rows_def]
  have mn: "dec_min (the_values (map ow_half_unit rows)) = Inr h" using c assms(4) by auto
  have hd: "hd (map ow_normalized_value rows) = Some v" using c assms(3) by (simp add: hd_map)
  have val: "\<exists>x. ow_normalized_value r = Some x \<and> dec_val x = dec_val v" if "r \<in> set rows" for r
    using several_numbers_False [of "map ow_normalized_value rows" "ow_normalized_value r"] that c
    by (auto simp: hd same_number_Some)
  have row: "op1_row_of p \<in> set rows" if "p \<in> set pairs" for p using that by (simp add: rows_def)
  have le: "dec_val h \<le> dec_val k" if "p \<in> set pairs" "vr_half_unit (cv_value (snd p)) = Some k" for p k
    using dec_min_Inr [OF mn] row [OF that(1)] that by (force simp: rows_def)
  obtain q where q: "q \<in> set pairs" "vr_half_unit (cv_value (snd q)) = Some h"
    using dec_min_Inr [OF mn] by (auto simp: rows_def)
  have "pairs \<noteq> []" using c by (auto simp: rows_def)
  moreover have "vr_state (cv_value (snd p)) = ''numeric'' \<and> vr_status (cv_value (snd p)) = ''normalized'' \<and>
      (\<exists>x. vr_normalized_value (cv_value (snd p)) = Some x \<and> dec_val x = dec_val v)" if "p \<in> set pairs" for p
    using c val [OF row [OF that]] row [OF that] by force
  ultimately show ?thesis unfolding term_number_def using le q by blast
qed

lemma op1_members_mem: "p \<in> set (op1_members key concept pairs) \<longleftrightarrow> p \<in> set pairs \<and>
    cc_candidate_status (fst p) = ''proposed'' \<and> cc_period_derivation (fst p) = ''column'' \<and>
    arithmetic_group_key (fst p) = key \<and> cc_concept_key (fst p) = Some concept"
  by (auto simp: op1_members_def)

text \<open>The candidates of one term of a record.\<close>

definition term_rows :: "group_key \<Rightarrow> string \<Rightarrow> string \<Rightarrow> checked list \<Rightarrow> checked list" where
  "term_rows key concept ops pairs = filter (\<lambda>(ctx, val). cc_operations ctx = ops) (op1_members key concept pairs)"

definition adds_up :: "checked list \<Rightarrow> group_key \<Rightarrow> string \<Rightarrow> bool" where
  "adds_up pairs key concept \<longleftrightarrow> (\<exists>c d t hc hd ht.
     term_number (term_rows key concept ''continuing'' pairs) c hc \<and>
     term_number (term_rows key concept ''discontinued'' pairs) d hd \<and>
     term_number (term_rows key concept ''total_or_unstated'' pairs) t ht \<and>
     \<bar>c + d - t\<bar> \<le> hc + hd + ht)"

lemma op1_reasons_Nil: "op1_reasons terms = [] \<Longrightarrow> x \<in> set terms \<Longrightarrow> ot_status x = ''usable''"
  by (auto simp: op1_reasons_def Let_def filter_empty_conv split: if_splits)

lemma partition_test_Inr:
  assumes "partition_test c d t = Inr (computed, total_v, tol, diff)"
  shows "\<exists>vc vd hc hd ht. ot_number c = Some vc \<and> ot_number d = Some vd \<and> ot_number t = Some total_v \<and>
    ot_half_unit c = Some hc \<and> ot_half_unit d = Some hd \<and> ot_half_unit t = Some ht \<and>
    dec_val tol = dec_val hc + dec_val hd + dec_val ht \<and>
    dec_val diff = \<bar>dec_val vc + dec_val vd - dec_val total_v\<bar>"
  using assms by (auto simp: partition_test_def bindR_eq_Inr dest!: dec_add_val dec_abs_diff_val)

lemma op1_finish_cases:
  assumes "op1_finish dg key concept c d t = Inr r"
  shows "oc_group_key r = key \<and> oc_concept_key r = concept \<and> oc_key r = dg key concept"
    and "op1_reasons [c, d, t] \<noteq> [] \<Longrightarrow> oc_outcome r = ''insufficient_evidence'' \<and> oc_validated r = []"
    and "op1_reasons [c, d, t] = [] \<Longrightarrow>
      \<exists>computed total_v tol diff. partition_test c d t = Inr (computed, total_v, tol, diff) \<and>
       oc_outcome r = (if dec_le diff tol then ''pass'' else ''fail'') \<and>
       oc_validated r = (if dec_le diff tol then op1_validated c d else [])"
  using assms unfolding op1_finish_def Let_def
  by (cases "op1_reasons [c, d, t] = []"; force simp: bindR_eq_Inr)+

lemma op1_record_pass:
  assumes "op1_record_of dg key concept (op1_members key concept pairs) = Inr r" and "oc_outcome r = ''pass''"
  shows "adds_up pairs key concept"
    and "set (oc_validated r) = (\<lambda>p. cc_source_key (fst p)) `
      {p \<in> set (op1_members key concept pairs). cc_operations (fst p) \<in> {''continuing'', ''discontinued''} \<and>
         cc_operations_basis (fst p) = ''section_label''}"
proof -
  let ?rows = "\<lambda>ops. term_rows key concept ops pairs"
  obtain c d t where c: "op1_term_of ''continuing'' (?rows ''continuing'') = Inr c"
    and d: "op1_term_of ''discontinued'' (?rows ''discontinued'') = Inr d"
    and t: "op1_term_of ''total_or_unstated'' (?rows ''total_or_unstated'') = Inr t"
    and r: "op1_finish dg key concept c d t = Inr r"
    using assms(1) unfolding op1_record_of_def Let_def bindR_eq_Inr term_rows_def by blast
  have nr: "op1_reasons [c, d, t] = []"
    using op1_finish_cases(2) [OF r] assms(2) by (rule_tac ccontr) simp
  then obtain computed tv tol diff where p: "partition_test c d t = Inr (computed, tv, tol, diff)"
    "dec_le diff tol" "oc_validated r = op1_validated c d"
    using op1_finish_cases(3) [OF r] assms(2) by (auto split: if_splits)
  obtain vc vd hc hd ht where n: "ot_number c = Some vc" "ot_number d = Some vd" "ot_number t = Some tv"
    "ot_half_unit c = Some hc" "ot_half_unit d = Some hd" "ot_half_unit t = Some ht"
    "dec_val tol = dec_val hc + dec_val hd + dec_val ht" "dec_val diff = \<bar>dec_val vc + dec_val vd - dec_val tv\<bar>"
    using partition_test_Inr [OF p(1)] by blast
  have us: "ot_status c = ''usable''" "ot_status d = ''usable''" "ot_status t = ''usable''"
    using op1_reasons_Nil [OF nr] by simp_all
  have "\<bar>dec_val vc + dec_val vd - dec_val tv\<bar> \<le> dec_val hc + dec_val hd + dec_val ht"
    using p(2) n(7,8) by (simp add: dec_le_iff)
  with op1_term_usable [OF c us(1) n(1,4)] op1_term_usable [OF d us(2) n(2,5)] op1_term_usable [OF t us(3) n(3,6)]
  show "adds_up pairs key concept" unfolding adds_up_def by blast
  have "set (op1_validated c d) = ow_source_key ` {r \<in> op1_row_of ` (set (?rows ''continuing'') \<union> set (?rows ''discontinued'')).
      ow_operations_basis r = ''section_label''}"
    using op1_term_rows [OF c] op1_term_rows [OF d] by (auto simp: op1_validated_def)
  also have "\<dots> = (\<lambda>p. cc_source_key (fst p)) ` {p \<in> set (op1_members key concept pairs).
      cc_operations (fst p) \<in> {''continuing'', ''discontinued''} \<and> cc_operations_basis (fst p) = ''section_label''}"
    unfolding term_rows_def by (force simp: image_iff)
  finally show "set (oc_validated r) = (\<lambda>p. cc_source_key (fst p)) `
      {p \<in> set (op1_members key concept pairs). cc_operations (fst p) \<in> {''continuing'', ''discontinued''} \<and>
         cc_operations_basis (fst p) = ''section_label''}"
    using p(3) by simp
qed

text \<open>
  A passing operations partition really adds up: in that statement column and for that
  concept the continuing, the discontinued and the total rows each carry one numeric, normalised
  value, and continuing plus discontinued differs from the total by no more than the sum of the
  three finest printed precisions. It validates only section-derived continuing or discontinued
  rows that F5 proposed with a column period in this same column and concept.
\<close>

theorem op1_pass_adds_up:
  assumes "op1_evaluate dg pairs = Inr recs" and "r \<in> set recs" and "oc_outcome r = ''pass''"
  shows "adds_up pairs (oc_group_key r) (oc_concept_key r) \<and>
    (\<forall>k \<in> set (oc_validated r). \<exists>p \<in> set pairs. cc_source_key (fst p) = k \<and>
       cc_operations_basis (fst p) = ''section_label'' \<and> cc_operations (fst p) \<in> {''continuing'', ''discontinued''} \<and>
       cc_candidate_status (fst p) = ''proposed'' \<and> cc_period_derivation (fst p) = ''column'' \<and>
       arithmetic_group_key (fst p) = oc_group_key r \<and> cc_concept_key (fst p) = Some (oc_concept_key r))"
proof -
  obtain key concept where kc: "op1_record_of dg key concept (op1_members key concept pairs) = Inr r"
    using assms(1,2) by (auto simp: op1_evaluate_def mapR_Inr_set)
  moreover have "oc_group_key r = key" "oc_concept_key r = concept"
    using kc unfolding op1_record_of_def Let_def bindR_eq_Inr by (auto dest!: op1_finish_cases(1) simp del: split_paired_All)
  moreover have "\<exists>p \<in> set pairs. cc_source_key (fst p) = k \<and> cc_operations_basis (fst p) = ''section_label'' \<and>
      cc_operations (fst p) \<in> {''continuing'', ''discontinued''} \<and> cc_candidate_status (fst p) = ''proposed'' \<and>
      cc_period_derivation (fst p) = ''column'' \<and> arithmetic_group_key (fst p) = key \<and> cc_concept_key (fst p) = Some concept"
    if "k \<in> set (oc_validated r)" for k
    using that unfolding op1_record_pass(2) [OF kc assms(3)] image_iff op1_members_mem mem_Collect_eq by blast
  ultimately show ?thesis
    using op1_record_pass(1) [OF kc assms(3)] by simp
qed

text \<open>A column with 70 continuing, 30 discontinued (under a section heading) and 100 in total.\<close>

definition thousands :: "int \<Rightarrow> value_result" where
  "thousands n = sample_value (Dec n 3) (Dec 500 0)"

definition sample_row :: "string \<Rightarrow> string \<Rightarrow> int \<Rightarrow> value_result \<Rightarrow> checked" where
  "sample_row ops basis row v =
     (sample_context\<lparr>cc_source_key := (''run'', 0, row, 2, 0, ''revenue''), cc_row_index := row,
        cc_raw_value := [], cc_label_raw := [], cc_operations := ops,
        cc_operations_basis := basis\<rparr>,
      \<lparr>cv_version = validation_version, cv_source_key = (''run'', 0, row, 2, 0, ''revenue''), cv_candidate_id = None,
       cv_concept_key = Some ''revenue'', cv_eligibility = ''eligible'', cv_ineligible_reasons = [],
       cv_normalization_reasons = [],
       cv_period = \<lparr>pr_status = ''valid'', pr_period_kind = Some ''duration'', pr_start_date = None,
         pr_end_date = Some (Date 2024 3 31), pr_duration_months = Some 12, pr_period_class = Some ''12m'',
         pr_fiscal_label = None, pr_reasons = [], pr_notes = []\<rparr>,
       cv_value = v,
       cv_operations = check_operations (Some ''revenue'') ops basis,
       cv_maturity = \<lparr>mr_maturity = None, mr_basis = ''not_applicable''\<rparr>\<rparr>)"

definition sample_pairs :: "checked list" where
  "sample_pairs = [sample_row ''continuing'' ''row_label'' 1 (thousands 70), sample_row ''discontinued'' ''section_label'' 2 (thousands 30),
     sample_row ''total_or_unstated'' ''none'' 3 (thousands 100)]"

definition sample_key :: group_key where
  "sample_key = (0, ''profit_or_loss'', ''duration'', ''2024-03-31'', 12, ''group'', ''current'')"

lemma sample_row_key: "arithmetic_group_key (fst (sample_row ops basis n v)) = sample_key"
proof -
  have "isoformat (Date 2024 3 31) = ''2024-03-31''" by code_simp
  then show ?thesis
    by (simp add: sample_row_def sample_context_def arithmetic_group_key_def sample_key_def)
qed

lemma sample_row_fields:
  "cc_operations (fst (sample_row ops basis n v)) = ops" "cc_operations_basis (fst (sample_row ops basis n v)) = basis"
  "cc_concept_key (fst (sample_row ops basis n v)) = Some ''revenue''"
  "cc_candidate_status (fst (sample_row ops basis n v)) = ''proposed''"
  "cc_period_derivation (fst (sample_row ops basis n v)) = ''column''"
  by (simp_all add: sample_row_def sample_context_def)

lemma sample_members: "op1_members sample_key ''revenue'' sample_pairs = sample_pairs"
  by (simp add: op1_members_def sample_pairs_def sample_row_fields sample_row_key case_prod_beta)

lemma sample_wanted: "op1_wanted sample_pairs = [(sample_key, ''revenue'')]"
  by (simp add: op1_wanted_def sample_pairs_def sample_row_fields sample_row_key case_prod_beta the_values_def
      List.map_filter_def sorted_set_def) (simp add: sample_key_def)

lemma sample_term:
  "\<exists>t. op1_term_of ops [sample_row ops basis n (thousands v)] = Inr t \<and> ot_status t = ''usable'' \<and> ot_operations t = ops \<and>
     ot_number t = Some (Dec v 3) \<and> ot_half_unit t = Some (Dec 500 0) \<and>
     ot_rows t = [op1_row_of (sample_row ops basis n (thousands v))]"
  by (simp add: op1_term_of_def op1_row_of_def sample_row_def thousands_def sample_value_def nil_states_def several_numbers_def
      the_values_def List.map_filter_def Let_def)

lemma sample_row_money:
  "ow_currency (op1_row_of (sample_row ops basis n (thousands v))) = Some ''LKR''"
  "ow_value_type (op1_row_of (sample_row ops basis n (thousands v))) = Some ''currency_amount''"
  by (simp_all add: op1_row_of_def sample_row_def thousands_def sample_value_def)

lemma sample_pairs_pass:
  "\<exists>recs r. op1_evaluate (\<lambda>k c. c) sample_pairs = Inr recs \<and> r \<in> set recs \<and> oc_outcome r = ''pass'' \<and>
     oc_concept_key r = ''revenue''"
proof -
  obtain c where c: "op1_term_of ''continuing'' [sample_row ''continuing'' ''row_label'' 1 (thousands 70)] = Inr c"
    "ot_status c = ''usable''" "ot_number c = Some (Dec 70 3)" "ot_half_unit c = Some (Dec 500 0)"
    "ot_rows c = [op1_row_of (sample_row ''continuing'' ''row_label'' 1 (thousands 70))]" using sample_term by blast
  obtain d where d: "op1_term_of ''discontinued'' [sample_row ''discontinued'' ''section_label'' 2 (thousands 30)] = Inr d"
    "ot_status d = ''usable''" "ot_number d = Some (Dec 30 3)" "ot_half_unit d = Some (Dec 500 0)"
    "ot_rows d = [op1_row_of (sample_row ''discontinued'' ''section_label'' 2 (thousands 30))]" using sample_term by blast
  obtain t where t: "op1_term_of ''total_or_unstated'' [sample_row ''total_or_unstated'' ''none'' 3 (thousands 100)] = Inr t"
    "ot_status t = ''usable''" "ot_number t = Some (Dec 100 3)" "ot_half_unit t = Some (Dec 500 0)"
    "ot_rows t = [op1_row_of (sample_row ''total_or_unstated'' ''none'' 3 (thousands 100))]" using sample_term by blast
  have "op1_reasons [c, d, t] = []"
    by (simp add: op1_reasons_def op1_currencies_def op1_value_types_def c d t sample_row_money the_values_def
        List.map_filter_def sorted_set_def)
  moreover have "partition_test c d t = Inr (Dec 100000 0, Dec 100 3, Dec 1500 0, Dec 0 0)"
    by (simp add: partition_test_def c d t dec_abs_diff_def dec_eval)
  moreover have "dec_le (Dec 0 0) (Dec 1500 0)" by code_simp
  ultimately have "\<exists>r. op1_finish (\<lambda>k c. c) sample_key ''revenue'' c d t = Inr r \<and> oc_outcome r = ''pass'' \<and>
      oc_concept_key r = ''revenue''"
    by (simp add: op1_finish_def Let_def)
  then obtain r where "op1_finish (\<lambda>k c. c) sample_key ''revenue'' c d t = Inr r" "oc_outcome r = ''pass''"
    "oc_concept_key r = ''revenue''" by blast
  moreover have "op1_record_of (\<lambda>k c. c) sample_key ''revenue'' sample_pairs =
      op1_finish (\<lambda>k c. c) sample_key ''revenue'' c d t"
    using c(1) d(1) t(1) by (simp add: op1_record_of_def sample_pairs_def sample_row_fields case_prod_beta Let_def)
  ultimately show ?thesis by (simp add: op1_evaluate_def sample_wanted sample_members)
qed

lemma op1_pass_adds_up_witness: "\<exists>key. adds_up sample_pairs key ''revenue''"
proof -
  obtain recs r where "op1_evaluate (\<lambda>k c. c) sample_pairs = Inr recs" "r \<in> set recs" "oc_outcome r = ''pass''"
    "oc_concept_key r = ''revenue''"
    using sample_pairs_pass by blast
  with op1_pass_adds_up [OF this(1-3)] show ?thesis by metis
qed

end
