(* ===== verification/ObservationFacts.thy ===== *)
theory ObservationFacts
  imports Observations OP1Facts
begin

text \<open>
  What a source observation promises about its members: it is consistent exactly when every pair
  agrees, and then its interval is the non-empty intersection of the members' printed intervals
  and its representative is a member printed at the finest precision.
\<close>

section \<open>Comparing observed values\<close>

definition observed :: "string option \<Rightarrow> string option \<Rightarrow> so_member \<Rightarrow> bool" where
  "observed currency vtype m \<longleftrightarrow> sm_value_kind m = Some ''nil'' \<or>
     sm_value_kind m = Some ''numeric'' \<and> everyday_value currency vtype (sm_value m)"

definition is_nil :: "so_member \<Rightarrow> bool" where
  "is_nil m \<longleftrightarrow> sm_value_kind m = Some ''nil''"

text \<open>Two observed vs are the same reading: both nil, or numbers within printed precision.\<close>

definition same_reading :: "so_member \<Rightarrow> so_member \<Rightarrow> bool" where
  "same_reading a b \<longleftrightarrow> (is_nil a \<and> is_nil b) \<or> (\<not> is_nil a \<and> \<not> is_nil b \<and>
     \<bar>vr_val (sm_value a) - vr_val (sm_value b)\<bar> \<le> vr_half (sm_value a) + vr_half (sm_value b))"

lemma same_reading_sym: "same_reading a b \<Longrightarrow> same_reading b a"
  by (auto simp: same_reading_def abs_minus_commute add.commute)

lemma same_reading_refl: "observed currency vtype a \<Longrightarrow> same_reading a a"
  using printed.half_unit_nonneg [of currency vtype "sm_value a"]
  by (auto simp: same_reading_def observed_def is_nil_def)

lemma everyday_neg: "everyday x \<Longrightarrow> everyday (dec_neg x)"
  by (simp add: everyday_def fine_dec_def dec_neg_def)

lemma negated_everyday:
  assumes "everyday_value currency vtype v"
  shows "\<exists>w. negated v = Inr w \<and> everyday_value currency vtype w"
  using assms by (rule everyday_valueE) (simp add: negated_def everyday_value_def everyday_neg)

lemma compare_members_total:
  assumes a: "observed currency vtype a" and b: "observed currency vtype b"
  shows "\<exists>c. compare_members a b = Inr c \<and> mc_outcome c = (if same_reading a b then ''agree'' else ''disagree'') \<and>
    mc_a c = sm_source_key a \<and> mc_b c = sm_source_key b"
proof (cases "is_nil a \<or> is_nil b")
  case True
  then show ?thesis
    using a b by (auto simp: compare_members_def is_nil_def same_reading_def observed_def)
next
  case False
  then have ev: "everyday_value currency vtype (sm_value a)" "everyday_value currency vtype (sm_value b)"
    using a b by (auto simp: observed_def is_nil_def)
  obtain c where c: "compare_values (sm_value a) (sm_value b) = Inr c"
    "cr_outcome c = (if same_reading a b then ''agree'' else ''disagree'')"
    using everyday_compare [OF ev] False by (auto simp: same_reading_def)
  obtain w where w: "negated (sm_value b) = Inr w" "everyday_value currency vtype w"
    using negated_everyday [OF ev(2)] by blast
  obtain d where d: "compare_values (sm_value a) w = Inr d"
    using everyday_compare [OF ev(1) w(2)] by blast
  show ?thesis
    using False c w(1) d by (auto simp: compare_members_def is_nil_def guardR_def Let_def)
qed

section \<open>Intervals and the finest value\<close>

lemma entry_of_everyday:
  assumes "everyday_value currency vtype v"
  shows "\<exists>h x. entry_of v = Inr (h, x) \<and> dec_val h = vr_half v \<and> dec_val x = vr_val v \<and>
    everyday x \<and> fine_dec 7 (10 ^ 30) h"
  using assms by (rule everyday_valueE) (simp add: entry_of_def vr_half_def vr_val_def)

lemma everyday_seven: "everyday x \<Longrightarrow> fine_dec 7 (5 * 10 ^ 28) x"
  using fine_dec_finer [of 6 "5 * 10 ^ 27" x 7] by (simp add: everyday_def)

lemma low_end:
  assumes "everyday_value currency vtype v"
  shows "\<exists>l. bindR (entry_of v) (\<lambda>(h, x). dec_sub x h) = Inr l \<and> dec_val l = vr_val v - vr_half v"
proof -
  obtain h x where e: "entry_of v = Inr (h, x)" "dec_val h = vr_half v" "dec_val x = vr_val v" "everyday x"
    "fine_dec 7 (10 ^ 30) h" using entry_of_everyday [OF assms] by blast
  obtain l where "dec_sub x h = Inr l"
    using dec_sub_fine [OF everyday_seven [OF e(4)] e(5)] by auto
  with e dec_sub_val [OF this] show ?thesis by auto
qed

lemma high_end:
  assumes "everyday_value currency vtype v"
  shows "\<exists>u. bindR (entry_of v) (\<lambda>(h, x). dec_add [x, h]) = Inr u \<and> dec_val u = vr_val v + vr_half v"
proof -
  obtain h x where e: "entry_of v = Inr (h, x)" "dec_val h = vr_half v" "dec_val x = vr_val v" "everyday x"
    "fine_dec 7 (10 ^ 30) h" using entry_of_everyday [OF assms] by blast
  obtain w where "dec_add [x, h] = Inr w"
    using dec_add2_fine [OF everyday_seven [OF e(4)] e(5)] by auto
  with e dec_add_val [OF this] show ?thesis by auto
qed

text \<open>The interval of some values: its ends are the largest low end and the smallest high end.\<close>

definition meets :: "value_result list \<Rightarrow> dec \<times> dec \<Rightarrow> bool" where
  "meets vs lh \<longleftrightarrow> (\<forall>v \<in> set vs. vr_val v - vr_half v \<le> dec_val (fst lh) \<and> dec_val (snd lh) \<le> vr_val v + vr_half v) \<and>
     (\<exists>v \<in> set vs. dec_val (fst lh) = vr_val v - vr_half v) \<and> (\<exists>v \<in> set vs. dec_val (snd lh) = vr_val v + vr_half v)"

text \<open>So it is the common part of the printed intervals.\<close>

definition common_part :: "value_result list \<Rightarrow> dec \<times> dec \<Rightarrow> bool" where
  "common_part vs lh \<longleftrightarrow> (\<forall>p. dec_val (fst lh) \<le> p \<and> p \<le> dec_val (snd lh) \<longleftrightarrow>
     (\<forall>v \<in> set vs. vr_val v - vr_half v \<le> p \<and> p \<le> vr_val v + vr_half v))"

lemma meets_common: "meets vs lh \<Longrightarrow> common_part vs lh"
  unfolding meets_def common_part_def by (auto intro: order_trans)

lemma interval_everyday:
  assumes ev: "\<And>v. v \<in> set vs \<Longrightarrow> everyday_value currency vtype v" and "vs \<noteq> []"
  shows "\<exists>low high. interval vs = Inr (low, high) \<and> meets vs (low, high)"
proof -
  let ?lo = "\<lambda>v. bindR (entry_of v) (\<lambda>(h, x). dec_sub x h)" and ?hi = "\<lambda>v. bindR (entry_of v) (\<lambda>(h, x). dec_add [x, h])"
  obtain lows where lows: "mapR ?lo vs = Inr lows"
    using mapR_total [of vs ?lo] low_end [OF ev] by blast
  obtain highs where highs: "mapR ?hi vs = Inr highs"
    using mapR_total [of vs ?hi] high_end [OF ev] by blast
  have "lows \<noteq> []" "highs \<noteq> []"
    using lows highs assms(2) by (auto simp: mapR_eq_Inr)
  then obtain low high where lh: "dec_max lows = Inr low" "dec_min highs = Inr high"
    using dec_max_ex dec_min_ex by blast
  have lows_v: "\<exists>l \<in> set lows. dec_val l = vr_val v - vr_half v" if "v \<in> set vs" for v
    using low_end [OF ev [OF that]] that mapR_Inr_set [OF lows] by blast
  have lows_l: "\<exists>v \<in> set vs. dec_val l = vr_val v - vr_half v" if l: "l \<in> set lows" for l
  proof -
    obtain v where "v \<in> set vs" "?lo v = Inr l" using l unfolding mapR_Inr_set [OF lows] by blast
    then show ?thesis using low_end [OF ev [OF \<open>v \<in> set vs\<close>]] by auto
  qed
  have highs_v: "\<exists>l \<in> set highs. dec_val l = vr_val v + vr_half v" if "v \<in> set vs" for v
    using high_end [OF ev [OF that]] that mapR_Inr_set [OF highs] by blast
  have highs_l: "\<exists>v \<in> set vs. dec_val l = vr_val v + vr_half v" if l: "l \<in> set highs" for l
  proof -
    obtain v where "v \<in> set vs" "?hi v = Inr l" using l unfolding mapR_Inr_set [OF highs] by blast
    then show ?thesis using high_end [OF ev [OF \<open>v \<in> set vs\<close>]] by auto
  qed
  have lo: "\<exists>v \<in> set vs. dec_val low = vr_val v - vr_half v" "\<forall>v \<in> set vs. vr_val v - vr_half v \<le> dec_val low"
    using dec_max_Inr [OF lh(1)] lows_l lows_v by (blast, metis)
  have hi: "\<exists>v \<in> set vs. dec_val high = vr_val v + vr_half v" "\<forall>v \<in> set vs. dec_val high \<le> vr_val v + vr_half v"
    using dec_min_Inr [OF lh(2)] highs_l highs_v by (blast, metis)
  have "meets vs (low, high)"
    using lo hi unfolding meets_def by simp
  with lows highs lh show ?thesis by (simp add: interval_def)
qed

lemma later_pairs_map: "later_pairs (map f xs) = map (map_prod f f) (later_pairs xs)"
  by (induction xs) auto

lemma interval_nonempty:
  assumes ev: "\<And>m. m \<in> set ms \<Longrightarrow> everyday_value currency vtype (sm_value m) \<and> \<not> is_nil m"
    and agree: "\<And>a b. (a, b) \<in> set (later_pairs ms) \<Longrightarrow> same_reading a b"
    and i: "interval (map sm_value ms) = Inr (low, high)" and ne: "ms \<noteq> []"
  shows "dec_val low \<le> dec_val high"
proof -
  obtain l h where "interval (map sm_value ms) = Inr (l, h)"
    "\<exists>v \<in> set (map sm_value ms). dec_val l = vr_val v - vr_half v"
    "\<exists>v \<in> set (map sm_value ms). dec_val h = vr_val v + vr_half v"
    using interval_everyday [of "map sm_value ms" currency vtype] ev ne unfolding meets_def by auto
  then obtain a b where ab: "a \<in> set ms" "b \<in> set ms" "dec_val low = vr_val (sm_value a) - vr_half (sm_value a)"
    "dec_val high = vr_val (sm_value b) + vr_half (sm_value b)" using i by auto
  have "values_agree x y = Inr True" if xy: "(x, y) \<in> set (later_pairs (map sm_value ms))" for x y
  proof -
    have "(x, y) \<in> map_prod sm_value sm_value ` set (later_pairs ms)" using xy by (simp only: later_pairs_map set_map)
    then obtain r where r: "(x, y) = map_prod sm_value sm_value r" "r \<in> set (later_pairs ms)" by (rule imageE)
    obtain p q where "r = (p, q)" by force
    with r have pq: "(p, q) \<in> set (later_pairs ms)" "x = sm_value p" "y = sm_value q" by simp_all
    then have "p \<in> set ms" "q \<in> set ms" using later_pairs_mem [OF pq(1)] by auto
    then show ?thesis
      using agree [OF pq(1)] everyday_compare [of currency vtype x y] ev pq(2,3)
      by (auto simp: same_reading_def values_agree_def)
  qed
  then have "vr_val (sm_value a) - vr_half (sm_value a) \<le> vr_val (sm_value b) + vr_half (sm_value b)"
    using ev ab(1,2) by (intro printed.pairwise_interval [of "map sm_value ms" currency vtype]) auto
  with ab show ?thesis by simp
qed

lemma finest_ex: "entries \<noteq> [] \<Longrightarrow> \<exists>r b. finest entries = Inr (r, b)"
proof -
  assume "entries \<noteq> []"
  then obtain h where h: "dec_min (map fst entries) = Inr h" using dec_min_ex by auto
  then have "filter (\<lambda>e. dec_eq (fst e) h) entries \<noteq> []"
    using dec_min_Inr [OF h] by (force simp: filter_empty_conv dec_eq_iff)
  with h show ?thesis by (auto simp: finest_def Let_def split: list.splits)
qed

lemma finest_Some:
  assumes "finest entries = Inr (Some r, b)"
  shows "\<not> b \<and> (\<exists>h x. (h, x, r) \<in> set entries \<and> (\<forall>e \<in> set entries. dec_val h \<le> dec_val (fst e)) \<and>
    (\<forall>e \<in> set entries. dec_val (fst e) = dec_val h \<longrightarrow> dec_val (fst (snd e)) = dec_val x))"
proof -
  obtain h where h: "dec_min (map fst entries) = Inr h" using assms by (auto simp: finest_def bindR_eq_Inr)
  let ?tied = "filter (\<lambda>e. dec_eq (fst e) h) entries"
  have t: "\<not> several_numbers (map (\<lambda>e. Some (fst (snd e))) ?tied)" "\<not> b" "\<exists>e es. ?tied = e # es \<and> r = snd (snd e)"
    using assms h by (auto simp: finest_def Let_def split: list.splits if_splits)
  then obtain e es where e: "?tied = e # es" "r = snd (snd e)" by blast
  then have em: "e \<in> set entries" "dec_val (fst e) = dec_val h"
  proof -
    have "e \<in> set ?tied" unfolding e(1) by simp
    then show "e \<in> set entries" "dec_val (fst e) = dec_val h" by (simp_all add: dec_eq_iff)
  qed
  have "dec_val (fst (snd f)) = dec_val (fst (snd e))" if "f \<in> set entries" "dec_val (fst f) = dec_val h" for f
  proof -
    have "f \<in> set ?tied" using that by (simp add: dec_eq_iff)
    then have "same_number (hd (map (\<lambda>e. Some (fst (snd e))) ?tied)) (Some (fst (snd f)))"
      using t(1) by (intro several_numbers_False) auto
    then show ?thesis using e by (simp add: same_number_Some)
  qed
  then show ?thesis
    using dec_min_Inr [OF h] em e(2) t(2)
    by (metis (no_types, lifting) image_eqI list.set_map prod.collapse)
qed

lemma finest_None: "finest entries = Inr (None, b) \<Longrightarrow> b"
  unfolding finest_def bindR_eq_Inr Let_def by (elim exE conjE) (simp split: list.splits if_splits)

section \<open>What the members conclude\<close>

lemma compare_all:
  assumes "\<And>m. m \<in> set ms \<Longrightarrow> observed currency vtype m"
  shows "\<exists>cs. mapR (\<lambda>(a, b). compare_members a b) (later_pairs ms) = Inr cs \<and>
    (list_ex (\<lambda>c. mc_outcome c = ''disagree'') cs \<longleftrightarrow> (\<exists>(a, b) \<in> set (later_pairs ms). \<not> same_reading a b))"
proof -
  have t: "\<exists>c. compare_members (fst p) (snd p) = Inr c \<and>
      (mc_outcome c = ''disagree'' \<longleftrightarrow> \<not> same_reading (fst p) (snd p))" if "p \<in> set (later_pairs ms)" for p
    using compare_members_total [OF assms assms] later_pairs_mem [of "fst p" "snd p" ms] that by fastforce
  then obtain cs where cs: "mapR (\<lambda>p. compare_members (fst p) (snd p)) (later_pairs ms) = Inr cs"
    using mapR_total [of "later_pairs ms" "\<lambda>p. compare_members (fst p) (snd p)"] by blast
  have "(\<exists>c \<in> set cs. mc_outcome c = ''disagree'') \<longleftrightarrow> (\<exists>p \<in> set (later_pairs ms). \<not> same_reading (fst p) (snd p))"
    by (rule mapR_ex [OF cs]) (rule t)
  with cs show ?thesis by (simp add: case_prod_unfold list_ex_iff)
qed

text \<open>
  The consistent numeric conclusion: the interval is the intersection of the members' printed
  intervals, it is not empty, the precision is the finest of the members, and a representative,
  if there is one, is a member at that precision.
\<close>

definition numeric_conclusion :: "so_member list \<Rightarrow> conclusion \<Rightarrow> bool" where
  "numeric_conclusion ms c \<longleftrightarrow> cn_value_kind c = Some ''numeric'' \<and>
     (\<exists>low high precision. cn_low c = Some low \<and> cn_high c = Some high \<and> cn_precision c = Some precision \<and>
        meets (map sm_value ms) (low, high) \<and> dec_val low \<le> dec_val high \<and>
        (\<exists>m \<in> set ms. vr_half (sm_value m) = dec_val precision) \<and>
        (\<forall>m \<in> set ms. dec_val precision \<le> vr_half (sm_value m)) \<and>
        (\<forall>r. cn_rep c = Some r \<longrightarrow> r \<in> set ms \<and> vr_half (sm_value r) = dec_val precision))"

lemma entries_everyday:
  assumes "\<And>m. m \<in> set ms \<Longrightarrow> everyday_value currency vtype (g m)"
  shows "\<exists>entries. mapR (\<lambda>m. bindR (entry_of (g m)) (\<lambda>(h, x). Inr (h, x, m))) ms = Inr entries \<and>
    length entries = length ms \<and>
    (\<forall>e \<in> set entries. snd (snd e) \<in> set ms \<and> dec_val (fst e) = vr_half (g (snd (snd e)))) \<and>
    (\<forall>m \<in> set ms. \<exists>e \<in> set entries. snd (snd e) = m)"
  using assms
proof (induction ms)
  case (Cons m ms)
  obtain h x where e: "entry_of (g m) = Inr (h, x)" "dec_val h = vr_half (g m)"
    using entry_of_everyday [of currency vtype "g m"] Cons.prems by force
  obtain es where "mapR (\<lambda>m. bindR (entry_of (g m)) (\<lambda>(h, x). Inr (h, x, m))) ms = Inr es"
    "length es = length ms" "\<forall>e \<in> set es. snd (snd e) \<in> set ms \<and> dec_val (fst e) = vr_half (g (snd (snd e)))"
    "\<forall>m \<in> set ms. \<exists>e \<in> set es. snd (snd e) = m"
    using Cons.IH Cons.prems by auto
  with e show ?case by auto
qed simp

text \<open>The finest of some entries is a reference at the smallest half-unit of all.\<close>

lemma finest_rep:
  assumes f: "finest es = Inr (Some r, amb)"
    and es: "\<And>e. e \<in> set es \<Longrightarrow> snd (snd e) \<in> set ms \<and> dec_val (fst e) = vr_half (g (snd (snd e)))"
    and all: "\<And>m. m \<in> set ms \<Longrightarrow> \<exists>e \<in> set es. snd (snd e) = m"
  shows "r \<in> set ms \<and> (\<forall>m \<in> set ms. vr_half (g r) \<le> vr_half (g m))"
proof -
  obtain h x where hx: "(h, x, r) \<in> set es" "\<forall>e \<in> set es. dec_val h \<le> dec_val (fst e)"
    using finest_Some [OF f] by blast
  then have r: "r \<in> set ms" "dec_val h = vr_half (g r)" using es [OF hx(1)] by simp_all
  have "vr_half (g r) \<le> vr_half (g m)" if "m \<in> set ms" for m
    using all [OF that] es hx(2) r(2) by force
  with r(1) show ?thesis by blast
qed

lemma numeric_rep:
  assumes "numeric_conclusion ms c" and "cn_rep c = Some r"
  shows "r \<in> set ms \<and> (\<forall>n \<in> set ms. vr_half (sm_value r) \<le> vr_half (sm_value n))"
  using assms unfolding numeric_conclusion_def by metis

lemma conclude_numeric:
  assumes ev: "\<And>m. m \<in> set ms \<Longrightarrow> everyday_value currency vtype (sm_value m) \<and> \<not> is_nil m"
    and agree: "\<And>a b. (a, b) \<in> set (later_pairs ms) \<Longrightarrow> same_reading a b"
    and ne: "ms \<noteq> []" and cs: "\<not> list_ex (\<lambda>c. mc_outcome c = ''disagree'') cs"
  shows "\<exists>c. conclude ms cs = Inr c \<and> cn_status c = ''consistent'' \<and> numeric_conclusion ms c"
proof -
  let ?entry = "\<lambda>m. bindR (entry_of (sm_value m)) (\<lambda>(h, x). Inr (h, x, m))"
  obtain es where es: "mapR ?entry ms = Inr es" "length es = length ms"
    "\<And>e. e \<in> set es \<Longrightarrow> snd (snd e) \<in> set ms \<and> dec_val (fst e) = vr_half (sm_value (snd (snd e)))"
    "\<And>m. m \<in> set ms \<Longrightarrow> \<exists>e \<in> set es. snd (snd e) = m"
    using entries_everyday [of ms currency vtype sm_value] ev by blast
  have esne: "es \<noteq> []" using es(2) ne by auto
  then obtain pr where pr: "dec_min (map fst es) = Inr pr" using dec_min_ex by auto
  obtain rep amb where f: "finest es = Inr (rep, amb)" using finest_ex [OF esne] by blast
  obtain low high where i: "interval (map sm_value ms) = Inr (low, high)" "meets (map sm_value ms) (low, high)"
    using interval_everyday [of "map sm_value ms" currency vtype] ev ne by auto
  have lh: "dec_val low \<le> dec_val high" using interval_nonempty [OF ev agree i(1) ne] by blast
  have nil: "remdups (map sm_value_kind ms) \<noteq> [Some ''nil'']"
  proof
    assume "remdups (map sm_value_kind ms) = [Some ''nil'']"
    then have "set (map sm_value_kind ms) = {Some ''nil''}" by (metis set_remdups list.set(1) list.set(2))
    then have "Some ''nil'' \<in> sm_value_kind ` set ms" by simp
    then obtain m where "m \<in> set ms" "is_nil m" by (auto simp: is_nil_def)
    then show False using ev by blast
  qed
  have p1: "\<exists>m \<in> set ms. vr_half (sm_value m) = dec_val pr"
    using dec_min_Inr [OF pr] es(3) by (metis (no_types, lifting) imageE list.set_map)
  have p2: "\<forall>m \<in> set ms. dec_val pr \<le> vr_half (sm_value m)"
    using dec_min_Inr [OF pr] es(3,4) by (metis (no_types, lifting) image_eqI list.set_map)
  have p3: "r \<in> set ms \<and> vr_half (sm_value r) = dec_val pr" if r: "rep = Some r" for r
  proof -
    have "r \<in> set ms" "\<forall>m \<in> set ms. vr_half (sm_value r) \<le> vr_half (sm_value m)"
      using finest_rep [OF f [unfolded r] es(3,4)] by simp_all
    moreover obtain m where "m \<in> set ms" "vr_half (sm_value m) = dec_val pr" using p1 by blast
    ultimately show ?thesis using p2 by (metis antisym)
  qed
  show ?thesis
    using cs nil es(1) pr f i lh p1 p2 p3
    by (simp add: conclude_def numeric_conclusion_def Let_def)
qed

lemma all_nil_kinds: "ms \<noteq> [] \<Longrightarrow> (\<And>m. m \<in> set ms \<Longrightarrow> is_nil m) \<Longrightarrow> remdups (map sm_value_kind ms) = [Some ''nil'']"
proof (induction ms)
  case (Cons m ms)
  then show ?case by (cases ms) (auto simp: is_nil_def)
qed simp

lemma conclude_members:
  assumes ob: "\<And>m. m \<in> set ms \<Longrightarrow> observed currency vtype m" and ne: "ms \<noteq> []"
    and cs: "mapR (\<lambda>(a, b). compare_members a b) (later_pairs ms) = Inr cs"
  shows "\<exists>c. conclude ms cs = Inr c \<and>
    ((\<exists>(a, b) \<in> set (later_pairs ms). \<not> same_reading a b) \<longrightarrow>
       cn_status c = ''internally_conflicting'' \<and> cn_rep c = None \<and> cn_low c = None \<and> cn_high c = None) \<and>
    (\<not> (\<exists>(a, b) \<in> set (later_pairs ms). \<not> same_reading a b) \<and> is_nil (hd ms) \<longrightarrow>
       cn_status c = ''consistent'' \<and> (\<forall>m \<in> set ms. is_nil m) \<and> cn_value_kind c = Some ''nil'' \<and> cn_low c = None \<and>
       cn_high c = None \<and> cn_rep c = Some (hd ms)) \<and>
    (\<not> (\<exists>(a, b) \<in> set (later_pairs ms). \<not> same_reading a b) \<and> \<not> is_nil (hd ms) \<longrightarrow>
       cn_status c = ''consistent'' \<and> (\<forall>m \<in> set ms. \<not> is_nil m) \<and> numeric_conclusion ms c)"
proof (cases "\<exists>(a, b) \<in> set (later_pairs ms). \<not> same_reading a b")
  case True
  moreover have "list_ex (\<lambda>c. mc_outcome c = ''disagree'') cs \<longleftrightarrow> (\<exists>(a, b) \<in> set (later_pairs ms). \<not> same_reading a b)"
    using compare_all [of ms currency vtype] ob cs by auto
  ultimately have "list_ex (\<lambda>c. mc_outcome c = ''disagree'') cs" by blast
  then show ?thesis using True by (simp add: conclude_def Let_def)
next
  case False
  have "list_ex (\<lambda>c. mc_outcome c = ''disagree'') cs \<longleftrightarrow> (\<exists>(a, b) \<in> set (later_pairs ms). \<not> same_reading a b)"
    using compare_all [of ms currency vtype] ob cs by auto
  then have nd: "\<not> list_ex (\<lambda>c. mc_outcome c = ''disagree'') cs" using False by blast
  have agree: "same_reading a b" if "(a, b) \<in> set (later_pairs ms)" for a b using False that by blast
  have all: "same_reading a b" if "a \<in> set ms" "b \<in> set ms" for a b
    using later_pairs_cover [OF that] agree same_reading_sym same_reading_refl [OF ob [OF that(1)]] by blast
  have h: "hd ms \<in> set ms" using ne by simp
  show ?thesis
  proof (cases "is_nil (hd ms)")
    case True
    then have "is_nil m" if "m \<in> set ms" for m using all [OF h that] by (auto simp: same_reading_def)
    then show ?thesis
      using False True nd all_nil_kinds [OF ne] by (simp add: conclude_def Let_def)
  next
    case nn: False
    then have nm: "\<not> is_nil m" if "m \<in> set ms" for m using all [OF h that] by (auto simp: same_reading_def)
    then have "everyday_value currency vtype (sm_value m) \<and> \<not> is_nil m" if "m \<in> set ms" for m
      using ob [OF that] that by (auto simp: observed_def is_nil_def)
    from conclude_numeric [OF this agree ne nd] show ?thesis using False nn nm by auto
  qed
qed

lemma observation_cases:
  assumes "observation od run results = Inr so"
  shows "results \<noteq> [] \<and> so_members so = sort_key member_order (map member_of results) \<and>
    (\<exists>key. ad_ef_key (cd_admission (hd results)) = Some key \<and> so_ef_key so = key \<and>
       so_key so = od_so_key od (vn_key run, key)) \<and> so_f5_run so = vn_f5_run run \<and>
    (\<exists>cs c. mapR (\<lambda>(a, b). compare_members a b) (later_pairs (so_members so)) = Inr cs \<and>
       conclude (so_members so) cs = Inr c \<and> so_status so = cn_status c \<and> so_value_kind so = cn_value_kind c \<and>
       so_interval_low so = cn_low c \<and> so_interval_high so = cn_high c \<and> so_precision so = cn_precision c \<and>
       so_representative_member so = map_option sm_source_key (cn_rep c) \<and>
       so_reported so = map_option sm_reported (cn_rep c) \<and> so_comparisons so = cs)"
  using assms unfolding observation_def guardR_eq_Inr bindR_eq_Inr Let_def by (elim exE conjE) auto

text \<open>
  A sound observation: its status says whether two of its members are different readings, and a
  consistent one is all nil or all numeric with the interval of its members.
\<close>

definition sound_observation :: "string option \<Rightarrow> string option \<Rightarrow> source_observation \<Rightarrow> bool" where
  "sound_observation currency vtype so \<longleftrightarrow>
     so_members so \<noteq> [] \<and> (\<forall>m \<in> set (so_members so). observed currency vtype m) \<and>
     (so_status so = ''internally_conflicting'' \<longleftrightarrow>
       (\<exists>a \<in> set (so_members so). \<exists>b \<in> set (so_members so). \<not> same_reading a b)) \<and>
     (so_status so = ''internally_conflicting'' \<and> so_interval_low so = None \<and> so_interval_high so = None \<or>
      so_status so = ''consistent'' \<and> so_value_kind so = Some ''nil'' \<and> (\<forall>m \<in> set (so_members so). is_nil m) \<and>
        so_interval_low so = None \<and> so_interval_high so = None \<or>
      so_status so = ''consistent'' \<and> so_value_kind so = Some ''numeric'' \<and> (\<forall>m \<in> set (so_members so). \<not> is_nil m) \<and>
        (\<exists>low high. so_interval_low so = Some low \<and> so_interval_high so = Some high \<and>
          dec_val low \<le> dec_val high \<and> meets (map sm_value (so_members so)) (low, high)))"

definition sound_representative :: "source_observation \<Rightarrow> bool" where
  "sound_representative so \<longleftrightarrow> (\<forall>k. so_representative_member so = Some k \<longrightarrow>
     (\<exists>m \<in> set (so_members so). sm_source_key m = k \<and> so_reported so = Some (sm_reported m) \<and>
       (is_nil m \<or> (\<forall>n \<in> set (so_members so). vr_half (sm_value m) \<le> vr_half (sm_value n)))))"

lemma observation_sound:
  assumes "observation od run results = Inr so"
    and "\<forall>m \<in> set (so_members so). observed currency vtype m"
  shows "sound_observation currency vtype so \<and> sound_representative so"
proof -
  let ?ms = "so_members so"
  have ne: "?ms \<noteq> []" using observation_cases [OF assms(1)] by (metis length_0_conv length_map length_sort)
  obtain cs c where c: "mapR (\<lambda>(a, b). compare_members a b) (later_pairs ?ms) = Inr cs" "conclude ?ms cs = Inr c"
    "so_status so = cn_status c" "so_value_kind so = cn_value_kind c" "so_interval_low so = cn_low c"
    "so_interval_high so = cn_high c" "so_representative_member so = map_option sm_source_key (cn_rep c)"
    "so_reported so = map_option sm_reported (cn_rep c)"
    using observation_cases [OF assms(1)] by blast
  have ob: "\<And>m. m \<in> set ?ms \<Longrightarrow> observed currency vtype m" using assms(2) by blast
  have pairs: "(\<exists>(a, b) \<in> set (later_pairs ?ms). \<not> same_reading a b) \<longleftrightarrow>
      (\<exists>a \<in> set ?ms. \<exists>b \<in> set ?ms. \<not> same_reading a b)"
    using later_pairs_pairwise [of same_reading ?ms] same_reading_sym same_reading_refl [OF ob] by blast
  let ?D = "\<exists>a \<in> set ?ms. \<exists>b \<in> set ?ms. \<not> same_reading a b"
  have m1: "?D \<Longrightarrow> cn_status c = ''internally_conflicting'' \<and> cn_rep c = None \<and> cn_low c = None \<and> cn_high c = None"
    and m2: "\<not> ?D \<Longrightarrow> is_nil (hd ?ms) \<Longrightarrow> cn_status c = ''consistent'' \<and> (\<forall>m \<in> set ?ms. is_nil m) \<and>
      cn_value_kind c = Some ''nil'' \<and> cn_low c = None \<and> cn_high c = None \<and> cn_rep c = Some (hd ?ms)"
    and m3: "\<not> ?D \<Longrightarrow> \<not> is_nil (hd ?ms) \<Longrightarrow> cn_status c = ''consistent'' \<and> (\<forall>m \<in> set ?ms. \<not> is_nil m) \<and>
      numeric_conclusion ?ms c"
    using conclude_members [OF ob ne c(1)] c(2) pairs by simp_all
  have "\<exists>m \<in> set ?ms. sm_source_key m = k \<and> so_reported so = Some (sm_reported m) \<and>
      (is_nil m \<or> (\<forall>n \<in> set ?ms. vr_half (sm_value m) \<le> vr_half (sm_value n)))"
    if k: "so_representative_member so = Some k" for k
  proof -
    obtain r where r: "cn_rep c = Some r" "sm_source_key r = k" "so_reported so = Some (sm_reported r)"
      using k c(7,8) by (cases "cn_rep c") auto
    have nd: "\<not> ?D" using m1 r(1) by auto
    have "r \<in> set ?ms \<and> (is_nil r \<or> (\<forall>n \<in> set ?ms. vr_half (sm_value r) \<le> vr_half (sm_value n)))"
    proof (cases "is_nil (hd ?ms)")
      case True
      then have "r = hd ?ms" using m2 [OF nd] r(1) by simp
      then show ?thesis using True ne by simp
    next
      case False
      then show ?thesis using numeric_rep [OF _ r(1)] m3 [OF nd] by blast
    qed
    with r show ?thesis by blast
  qed
  then have "sound_representative so" unfolding sound_representative_def by blast
  moreover have "sound_observation currency vtype so"
  proof (cases ?D)
    case True
    then show ?thesis using m1 c ne ob unfolding sound_observation_def by simp
  next
    case nd: False
    show ?thesis
    proof (cases "is_nil (hd ?ms)")
      case True
      then show ?thesis using nd m2 [OF nd] c ne ob unfolding sound_observation_def by simp
    next
      case False
      then show ?thesis
        using nd m3 [OF nd] c ne ob unfolding sound_observation_def numeric_conclusion_def by simp blast
    qed
  qed
  ultimately show ?thesis by blast
qed

text \<open>
  C33: a source observation whose members are nil or everyday numbers of one currency is
  internally conflicting exactly when two of its members are different readings. Otherwise it is
  consistent, and then either every member is nil and there is no interval, or every member is
  numeric and the interval is exactly the common part of all printed intervals and is not empty.
  The representative, if any, is one of the members, verbatim, at the finest printed precision.
\<close>

theorem observation_concludes:
  assumes "observation od run results = Inr so"
    and "\<forall>m \<in> set (so_members so). observed currency vtype m"
  shows "(so_status so = ''internally_conflicting'' \<longleftrightarrow>
      (\<exists>a \<in> set (so_members so). \<exists>b \<in> set (so_members so). \<not> same_reading a b)) \<and>
    (so_status so = ''internally_conflicting'' \<and> so_interval_low so = None \<and> so_interval_high so = None \<or>
     so_status so = ''consistent'' \<and> so_value_kind so = Some ''nil'' \<and> (\<forall>m \<in> set (so_members so). is_nil m) \<and>
       so_interval_low so = None \<and> so_interval_high so = None \<or>
     so_status so = ''consistent'' \<and> so_value_kind so = Some ''numeric'' \<and> (\<forall>m \<in> set (so_members so). \<not> is_nil m) \<and>
       (\<exists>low high. so_interval_low so = Some low \<and> so_interval_high so = Some high \<and>
          dec_val low \<le> dec_val high \<and> common_part (map sm_value (so_members so)) (low, high))) \<and>
    sound_representative so"
  using observation_sound [OF assms] meets_common unfolding sound_observation_def by blast

section \<open>A concrete run\<close>

definition sample_f5_run :: "string \<Rightarrow> string \<Rightarrow> f5_run_ref" where
  "sample_f5_run run_id sha = \<lparr>fr_f5_run_id = run_id, fr_cse_filing_id = 1, fr_document_sha256 = sha,
     fr_word_extractor = ''w'', fr_f4_extractor_version = ''f4'', fr_classifier_version = ''c'', fr_text_extractor = None,
     fr_builder_version = ''b'', fr_mapper_version = ''m'', fr_vocabulary_version = ''v1'', fr_recorded_at = Some 0,
     fr_classification_id = None, fr_content_sha256 = None, fr_timestamps = []\<rparr>"

definition sample_document :: document_context where
  "sample_document = \<lparr>dc_classifier_version = None, dc_text_extractor = None, dc_document_type = Some ''annual_report'',
     dc_document_type_status = None, dc_underlying_type = Some ''annual_report'', dc_underlying_type_status = None,
     dc_fiscal_year_end_basis = None, dc_fiscal_year_end_status = None, dc_period_status = None,
     dc_classification_id = None\<rparr>"

definition sample_admission :: admission_result where
  "sample_admission = \<lparr>ad_version = admission_version, ad_admitted = True, ad_value_kind = Some ''numeric'',
     ad_nil_form = None, ad_reasons = [], ad_lifted_reasons = [], ad_operations_route = Some ''none'',
     ad_op1_record = None, ad_identity = Some sample_fact, ad_ef_key = Some ''ef''\<rparr>"

definition sample_attributes :: candidate_attributes where
  "sample_attributes = \<lparr>ca_role_basis = None, ca_period_evidence_source = None, ca_printed_start = None,
     ca_reported_scope_basis = None, ca_canonical_scope_basis = None, ca_audit_label_reported = None,
     ca_audit_evidence_source = None, ca_audit_trust = None, ca_audit_rule_id = None, ca_restated = False\<rparr>"

definition sample_result :: "int \<Rightarrow> value_result \<Rightarrow> candidate_result" where
  "sample_result row v = (let p = sample_row ''total_or_unstated'' ''none'' row v
     in \<lparr>cd_key = ''k'', cd_source_key = cc_source_key (fst p), cd_candidate_id = None, cd_input_hash = [],
         cd_context = fst p, cd_attributes = sample_attributes, cd_validation = snd p,
         cd_admission = sample_admission, cd_output_hash = []\<rparr>)"

definition sample_validation_run :: "string \<Rightarrow> string \<Rightarrow> validation_run" where
  "sample_validation_run run_id sha = \<lparr>vn_key = run_id, vn_versions = implemented, vn_f5_run = sample_f5_run run_id sha,
     vn_issuer_link = None, vn_publication = \<lparr>pi_policy_version = [], pi_source_field = [], pi_uploaded_at = None,
     pi_publication_date = None\<rparr>, vn_document = sample_document, vn_run_evidence = sample_run, vn_candidates = [],
     vn_arithmetic = [], vn_signs = [], vn_conventions = [], vn_op1 = [], vn_input_hash = [], vn_output_hash = []\<rparr>"

definition plain_digests :: observation_digests where
  "plain_digests = \<lparr>od_so_key = (\<lambda>(run, key). run @ key), od_so_output = so_key\<rparr>"

lemma sample_member_observed:
  "\<bar>n\<bar> < 1000 \<Longrightarrow> observed (Some ''LKR'') (Some ''currency_amount'') (member_of (sample_result row (thousands n))) \<and>
     \<not> is_nil (member_of (sample_result row (thousands n))) \<and> vr_val (sm_value (member_of (sample_result row (thousands n)))) = of_int n * 1000 \<and>
     vr_half (sm_value (member_of (sample_result row (thousands n)))) = 500"
  by (simp add: observed_def is_nil_def member_of_def sample_result_def sample_row_def sample_admission_def Let_def
      everyday_value_def thousands_def sample_value_def everyday_def fine_dec_def vr_val_def vr_half_def dec_val_def power_int_def)

lemma sample_observation:
  assumes "\<bar>n\<bar> < 1000"
  shows "\<exists>so. observation plain_digests (sample_validation_run run_id sha) [sample_result row (thousands n)] = Inr so \<and>
    so_members so = [member_of (sample_result row (thousands n))] \<and> so_key so = run_id @ ''ef'' \<and> so_ef_key so = ''ef'' \<and>
    so_f5_run so = sample_f5_run run_id sha \<and> so_versions so = implemented \<and> so_status so = ''consistent'' \<and>
    so_value_kind so = Some ''numeric'' \<and> so_comparisons so = [] \<and>
    (\<exists>low high. so_interval_low so = Some low \<and> so_interval_high so = Some high \<and>
       meets (map sm_value [member_of (sample_result row (thousands n))]) (low, high))"
proof -
  let ?m = "member_of (sample_result row (thousands n))"
  note ob = sample_member_observed [OF assms, of row]
  have ev: "everyday_value (Some ''LKR'') (Some ''currency_amount'') (sm_value ?m)"
    using ob by (auto simp: observed_def is_nil_def)
  have "\<exists>c. conclude [?m] [] = Inr c \<and> cn_status c = ''consistent'' \<and> numeric_conclusion [?m] c"
    by (rule conclude_numeric) (use ev ob in auto)
  then show ?thesis
    by (auto simp: observation_def guardR_def sample_validation_run_def plain_digests_def numeric_conclusion_def
        sample_result_def sample_admission_def Let_def)
qed

lemma observation_concludes_witness:
  "\<exists>so. observation plain_digests (sample_validation_run ''r'' ''d'') [sample_result 3 (thousands 100)] = Inr so \<and>
     so_status so = ''consistent'' \<and> (\<exists>low high. so_interval_low so = Some low \<and> so_interval_high so = Some high \<and>
       dec_val low \<le> dec_val high)"
proof -
  obtain so where so: "observation plain_digests (sample_validation_run ''r'' ''d'') [sample_result 3 (thousands 100)] = Inr so"
    "so_members so = [member_of (sample_result 3 (thousands 100))]" "so_status so = ''consistent''" "so_value_kind so = Some ''numeric''"
    using sample_observation [of 100 "''r''" "''d''" 3] by auto
  have "\<forall>m \<in> set (so_members so). observed (Some ''LKR'') (Some ''currency_amount'') m"
    using so(2) sample_member_observed [of 100 3] by simp
  from observation_concludes [OF so(1) this] so show ?thesis by auto
qed

end
