(* ===== verification/ReconcileFacts.thy ===== *)
theory ReconcileFacts
  imports Reconcile ObservationFacts "HOL-Library.Multiset"
begin

text \<open>
  What reconciliation promises: it always reaches a conclusion, the conclusion is conflicting
  exactly when two observed values are different readings, otherwise the interval is the common
  part of every printed interval and never empty, and neither the order of the observations nor
  the order of the F5 runs matters.
\<close>

section \<open>All pairs of observed values\<close>

lemma member_pairs_mem:
  "(a, b, ma, mb) \<in> set (member_pairs sos) \<longleftrightarrow>
     (a, b) \<in> set (later_pairs sos) \<and> ma \<in> set (so_members a) \<and> mb \<in> set (so_members b)"
  unfolding member_pairs_def set_concat set_map by (auto simp: image_iff Bex_def)

lemma all_members_mem:
  "om \<in> set (all_members sos) \<longleftrightarrow> fst om \<in> set sos \<and> snd om \<in> set (so_members (fst om))"
  by (cases om) (auto simp: all_members_def)

lemma all_membersI: "o' \<in> set sos \<Longrightarrow> m \<in> set (so_members o') \<Longrightarrow> (o', m) \<in> set (all_members sos)"
  by (simp add: all_members_mem)

text \<open>Somewhere among the members of the observations there are two different readings.\<close>

definition readings_differ :: "source_observation list \<Rightarrow> bool" where
  "readings_differ sos \<longleftrightarrow> (\<exists>om \<in> set (all_members sos). \<exists>on \<in> set (all_members sos). \<not> same_reading (snd om) (snd on))"

lemma sound_observed:
  "sound_observation currency vtype so \<Longrightarrow> m \<in> set (so_members so) \<Longrightarrow> observed currency vtype m"
  by (simp add: sound_observation_def)

lemma pairs_compared:
  assumes "\<And>o'. o' \<in> set sos \<Longrightarrow> sound_observation currency vtype o'"
  shows "\<exists>cs. mapR (\<lambda>(a, b, ma, mb). pair_of a b ma mb) (member_pairs sos) = Inr cs \<and>
    (disagreements cs \<noteq> [] \<longleftrightarrow> (\<exists>(a, b, ma, mb) \<in> set (member_pairs sos). \<not> same_reading ma mb))"
proof -
  let ?f = "\<lambda>(a, b, ma, mb). pair_of a b ma mb"
  have t: "\<exists>c. ?f p = Inr c \<and> (pc_outcome c = ''disagree'' \<longleftrightarrow> (case p of (a, b, ma, mb) \<Rightarrow> \<not> same_reading ma mb))"
    if "p \<in> set (member_pairs sos)" for p
  proof -
    obtain a b ma mb where p: "p = (a, b, ma, mb)" by (cases p) auto
    with that have "(a, b) \<in> set (later_pairs sos)" "ma \<in> set (so_members a)" "mb \<in> set (so_members b)"
      by (simp_all add: member_pairs_mem)
    then have "observed currency vtype ma" "observed currency vtype mb"
      using assms sound_observed later_pairs_mem [of a b sos] by blast+
    from compare_members_total [OF this] show ?thesis by (auto simp: p pair_of_def)
  qed
  then obtain cs where cs: "mapR ?f (member_pairs sos) = Inr cs"
    using mapR_total [of "member_pairs sos" ?f] by blast
  have "(\<exists>c \<in> set cs. pc_outcome c = ''disagree'') \<longleftrightarrow>
      (\<exists>p \<in> set (member_pairs sos). case p of (a, b, ma, mb) \<Rightarrow> \<not> same_reading ma mb)"
    by (rule mapR_ex [OF cs]) (rule t)
  moreover have "disagreements cs \<noteq> [] \<longleftrightarrow> (\<exists>c \<in> set cs. pc_outcome c = ''disagree'')"
    by (auto simp: disagreements_def filter_empty_conv)
  ultimately show ?thesis using cs by auto
qed

lemma conflict_iff:
  assumes "\<And>o'. o' \<in> set sos \<Longrightarrow> sound_observation currency vtype o'"
  shows "readings_differ sos \<longleftrightarrow> internal_conflicts sos \<noteq> [] \<or>
    (\<exists>(a, b, ma, mb) \<in> set (member_pairs sos). \<not> same_reading ma mb)"
proof -
  have internal: "internal_conflicts sos \<noteq> [] \<longleftrightarrow>
      (\<exists>o' \<in> set sos. \<exists>a \<in> set (so_members o'). \<exists>b \<in> set (so_members o'). \<not> same_reading a b)"
    using assms by (auto simp: internal_conflicts_def filter_empty_conv sound_observation_def)
  have cross: "(\<exists>(a, b, ma, mb) \<in> set (member_pairs sos). \<not> same_reading ma mb) \<longleftrightarrow>
      (\<exists>(a, b) \<in> set (later_pairs sos). \<exists>ma \<in> set (so_members a). \<exists>mb \<in> set (so_members b). \<not> same_reading ma mb)"
    using member_pairs_mem by fastforce
  show ?thesis
  proof
    assume "readings_differ sos"
    then obtain a b m n where *: "a \<in> set sos" "m \<in> set (so_members a)" "b \<in> set sos" "n \<in> set (so_members b)"
      "\<not> same_reading m n"
      by (auto simp: readings_differ_def all_members_mem)
    from later_pairs_cover [OF *(1,3)] show "internal_conflicts sos \<noteq> [] \<or>
        (\<exists>(a, b, ma, mb) \<in> set (member_pairs sos). \<not> same_reading ma mb)"
      unfolding internal cross using * same_reading_sym by blast
  next
    assume "internal_conflicts sos \<noteq> [] \<or> (\<exists>(a, b, ma, mb) \<in> set (member_pairs sos). \<not> same_reading ma mb)"
    then show "readings_differ sos"
    proof
      assume "internal_conflicts sos \<noteq> []"
      then obtain o' a b where "o' \<in> set sos" "a \<in> set (so_members o')" "b \<in> set (so_members o')" "\<not> same_reading a b"
        unfolding internal by blast
      then show ?thesis unfolding readings_differ_def
        using all_membersI [of o' sos a] all_membersI [of o' sos b] by force
    next
      assume "\<exists>(a, b, ma, mb) \<in> set (member_pairs sos). \<not> same_reading ma mb"
      then obtain a b ma mb where "(a, b) \<in> set (later_pairs sos)" "ma \<in> set (so_members a)" "mb \<in> set (so_members b)"
        "\<not> same_reading ma mb" unfolding cross by blast
      then show ?thesis unfolding readings_differ_def
        using all_membersI [of a sos ma] all_membersI [of b sos mb] later_pairs_mem [of a b sos] by force
    qed
  qed
qed

section \<open>The agreed value\<close>

lemma meets_sos:
  assumes ms: "\<And>o'. o' \<in> set sos \<Longrightarrow> \<exists>l h. so_interval_low o' = Some l \<and> so_interval_high o' = Some h \<and>
      meets (map sm_value (so_members o')) (l, h)"
    and ne: "sos \<noteq> []"
  shows "\<exists>lows highs low high. mapR (\<lambda>o'. need (so_interval_low o')) sos = Inr lows \<and> dec_max lows = Inr low \<and>
    mapR (\<lambda>o'. need (so_interval_high o')) sos = Inr highs \<and> dec_min highs = Inr high \<and>
    meets (map (\<lambda>om. sm_value (snd om)) (all_members sos)) (low, high)"
proof -
  obtain lows where lows: "mapR (\<lambda>o'. need (so_interval_low o')) sos = Inr lows"
    using mapR_total [of sos "\<lambda>o'. need (so_interval_low o')"] ms by fastforce
  obtain highs where highs: "mapR (\<lambda>o'. need (so_interval_high o')) sos = Inr highs"
    using mapR_total [of sos "\<lambda>o'. need (so_interval_high o')"] ms by fastforce
  have "lows \<noteq> []" "highs \<noteq> []" using lows highs ne by (auto simp: mapR_eq_Inr)
  then obtain low high where lh: "dec_max lows = Inr low" "dec_min highs = Inr high"
    using dec_max_ex dec_min_ex by blast
  obtain ol oh where ol: "ol \<in> set sos" "so_interval_low ol = Some low" and oh: "oh \<in> set sos" "so_interval_high oh = Some high"
    using dec_max_Inr [OF lh(1)] dec_min_Inr [OF lh(2)] mapR_Inr_set [OF lows] mapR_Inr_set [OF highs] by force
  have bound: "vr_val (sm_value m) - vr_half (sm_value m) \<le> dec_val low \<and>
      dec_val high \<le> vr_val (sm_value m) + vr_half (sm_value m)" if o': "o' \<in> set sos" "m \<in> set (so_members o')" for o' m
  proof -
    obtain l h where lh': "so_interval_low o' = Some l" "so_interval_high o' = Some h"
      "meets (map sm_value (so_members o')) (l, h)" using ms [OF o'(1)] by blast
    have "l \<in> set lows" "h \<in> set highs"
      using mapR_Inr_set [OF lows] mapR_Inr_set [OF highs] o'(1) lh'(1,2) by auto
    then have "dec_val l \<le> dec_val low" "dec_val high \<le> dec_val h"
      using dec_max_Inr [OF lh(1)] dec_min_Inr [OF lh(2)] by auto
    moreover have "vr_val (sm_value m) - vr_half (sm_value m) \<le> dec_val l" "dec_val h \<le> vr_val (sm_value m) + vr_half (sm_value m)"
      using lh'(3) o'(2) by (auto simp: meets_def)
    ultimately show ?thesis by linarith
  qed
  have "\<exists>m \<in> set (so_members ol). dec_val low = vr_val (sm_value m) - vr_half (sm_value m)"
    using ms [OF ol(1)] ol(2) by (auto simp: meets_def)
  moreover have "\<exists>m \<in> set (so_members oh). dec_val high = vr_val (sm_value m) + vr_half (sm_value m)"
    using ms [OF oh(1)] oh(2) by (auto simp: meets_def)
  ultimately have "meets (map (\<lambda>om. sm_value (snd om)) (all_members sos)) (low, high)"
    using bound ol(1) oh(1) unfolding meets_def by (fastforce simp: all_members_def)
  with lows highs lh show ?thesis by blast
qed

text \<open>The representative of a fact: an observed value, verbatim, at the finest precision of all.\<close>

definition representative_of :: "source_observation list \<Rightarrow> source_observation \<times> so_member \<Rightarrow> bool" where
  "representative_of sos om \<longleftrightarrow> om \<in> set (all_members sos) \<and>
     (\<forall>on \<in> set (all_members sos). vr_half (sm_value (snd om)) \<le> vr_half (sm_value (snd on)))"

lemma sos_kind:
  assumes sound: "\<And>o'. o' \<in> set sos \<Longrightarrow> sound_observation currency vtype o'" and ne: "sos \<noteq> []"
    and same: "\<not> readings_differ sos"
  shows "(so_value_kind (hd sos) = Some ''nil'' \<and> (\<forall>om \<in> set (all_members sos). is_nil (snd om))) \<or>
    (so_value_kind (hd sos) = Some ''numeric'' \<and> (\<forall>om \<in> set (all_members sos). \<not> is_nil (snd om)) \<and>
     (\<forall>o' \<in> set sos. \<exists>l h. so_interval_low o' = Some l \<and> so_interval_high o' = Some h \<and>
        meets (map sm_value (so_members o')) (l, h)))"
proof -
  have h: "hd sos \<in> set sos" using ne by simp
  obtain m where m: "m \<in> set (so_members (hd sos))"
    using sound [OF h] unfolding sound_observation_def by (cases "so_members (hd sos)") auto
  have all: "same_reading m (snd on)" if on: "on \<in> set (all_members sos)" for on
    using same all_membersI [OF h m] on unfolding readings_differ_def by force
  have consistent: "so_status o' \<noteq> ''internally_conflicting''" if o': "o' \<in> set sos" for o'
  proof
    assume "so_status o' = ''internally_conflicting''"
    then obtain a b where "a \<in> set (so_members o')" "b \<in> set (so_members o')" "\<not> same_reading a b"
      using sound [OF o'] unfolding sound_observation_def by blast
    then show False
      using same all_membersI [OF o', of a] all_membersI [OF o', of b] unfolding readings_differ_def by force
  qed
  show ?thesis
  proof (cases "is_nil m")
    case True
    then have "\<forall>on \<in> set (all_members sos). is_nil (snd on)" using all by (auto simp: same_reading_def)
    moreover have "so_value_kind (hd sos) = Some ''nil''"
      using sound [OF h] consistent [OF h] m True unfolding sound_observation_def by auto
    ultimately show ?thesis by blast
  next
    case False
    then have nn: "\<forall>on \<in> set (all_members sos). \<not> is_nil (snd on)" using all by (auto simp: same_reading_def)
    have "so_value_kind o' = Some ''numeric'' \<and> (\<exists>l h. so_interval_low o' = Some l \<and> so_interval_high o' = Some h \<and>
        meets (map sm_value (so_members o')) (l, h))" if o': "o' \<in> set sos" for o'
    proof -
      obtain k where k: "k \<in> set (so_members o')"
        using sound [OF o'] unfolding sound_observation_def by (cases "so_members o'") auto
      then have "\<not> is_nil k" using nn all_membersI [OF o' k] by force
      then show ?thesis
        using sound [OF o'] consistent [OF o'] k unfolding sound_observation_def by blast
    qed
    then show ?thesis using nn h by blast
  qed
qed

lemma agreed_value_total:
  assumes sound: "\<And>o'. o' \<in> set sos \<Longrightarrow> sound_observation currency vtype o'" and ne: "sos \<noteq> []"
    and same: "\<not> readings_differ sos"
  shows "\<exists>v. agreed_value sos = Inr v \<and> fv_state v = (if length sos = 1 then ''single_source'' else ''corroborated'') \<and>
    fv_reasons v = [] \<and>
    (fv_value_kind v = Some ''nil'' \<and> (\<forall>om \<in> set (all_members sos). is_nil (snd om)) \<and> fv_low v = None \<and> fv_high v = None \<or>
     fv_value_kind v = Some ''numeric'' \<and> (\<forall>om \<in> set (all_members sos). \<not> is_nil (snd om)) \<and>
     (\<exists>low high. fv_low v = Some low \<and> fv_high v = Some high \<and> dec_val low \<le> dec_val high \<and>
        meets (map (\<lambda>om. sm_value (snd om)) (all_members sos)) (low, high)) \<and>
     (\<forall>om. fv_rep v = Some om \<longrightarrow> representative_of sos om))"
  using sos_kind [OF sound ne same]
proof
  assume "so_value_kind (hd sos) = Some ''nil'' \<and> (\<forall>om \<in> set (all_members sos). is_nil (snd om))"
  then show ?thesis by (simp add: agreed_value_def Let_def)
next
  assume *: "so_value_kind (hd sos) = Some ''numeric'' \<and> (\<forall>om \<in> set (all_members sos). \<not> is_nil (snd om)) \<and>
     (\<forall>o' \<in> set sos. \<exists>l h. so_interval_low o' = Some l \<and> so_interval_high o' = Some h \<and>
        meets (map sm_value (so_members o')) (l, h))"
  let ?ms = "all_members sos" and ?g = "\<lambda>om. sm_value (snd om)"
  obtain lows highs low high where lh: "mapR (\<lambda>o'. need (so_interval_low o')) sos = Inr lows" "dec_max lows = Inr low"
    "mapR (\<lambda>o'. need (so_interval_high o')) sos = Inr highs" "dec_min highs = Inr high" "meets (map ?g ?ms) (low, high)"
    using meets_sos [of sos] * ne by blast
  have ev: "everyday_value currency vtype (?g om)" if om: "om \<in> set ?ms" for om
  proof -
    have "observed currency vtype (snd om)"
      using om sound sound_observed unfolding all_members_mem by blast
    then show ?thesis using * om by (auto simp: observed_def is_nil_def)
  qed
  obtain es where es: "mapR (\<lambda>om. bindR (entry_of (?g om)) (\<lambda>(h, x). Inr (h, x, om))) ?ms = Inr es" "length es = length ?ms"
    "\<And>e. e \<in> set es \<Longrightarrow> snd (snd e) \<in> set ?ms \<and> dec_val (fst e) = vr_half (?g (snd (snd e)))"
    "\<And>om. om \<in> set ?ms \<Longrightarrow> \<exists>e \<in> set es. snd (snd e) = om"
    using entries_everyday [of ?ms currency vtype ?g] ev by blast
  have "?ms \<noteq> []" using lh(5) by (auto simp: meets_def)
  then have "es \<noteq> []" using es(2) by auto
  then obtain rep amb where f: "finest es = Inr (rep, amb)" using finest_ex by blast
  obtain a b where ab: "a \<in> set ?ms" "b \<in> set ?ms" "dec_val low = vr_val (?g a) - vr_half (?g a)"
    "dec_val high = vr_val (?g b) + vr_half (?g b)" using lh(5) by (auto simp: meets_def)
  have "same_reading (snd a) (snd b)" using same ab(1,2) by (auto simp: readings_differ_def)
  then have le: "dec_val low \<le> dec_val high"
    using * ab by (auto simp: same_reading_def abs_le_iff)
  have rep: "representative_of sos om" if om: "rep = Some om" for om
    using finest_rep [OF f [unfolded om] es(3,4)] unfolding representative_of_def by blast
  show ?thesis
    using * lh es(1) f le rep by (simp add: agreed_value_def guardR_def dec_lt_iff Let_def)
qed

section \<open>One fact\<close>

definition ready :: "source_observation list \<Rightarrow> configuration \<Rightarrow> bool" where
  "ready sos c \<longleftrightarrow> sos \<noteq> [] \<and> (\<forall>a \<in> set sos. \<forall>b \<in> set sos. so_ef_key a = so_ef_key b) \<and>
     (\<forall>o' \<in> set sos. so_versions o' = cf_versions c) \<and> distinct (map so_document_sha256 sos)"

lemma one_remdups: "xs \<noteq> [] \<Longrightarrow> length (remdups xs) = 1 \<longleftrightarrow> (\<forall>a \<in> set xs. \<forall>b \<in> set xs. a = b)"
proof -
  assume "xs \<noteq> []"
  have "length (remdups xs) = card (set xs)" by (simp add: length_remdups_card_conv)
  moreover have "card (set xs) = 1 \<longleftrightarrow> (\<exists>x. set xs = {x})" by (simp add: card_1_singleton_iff)
  moreover have "(\<exists>x. set xs = {x}) \<longleftrightarrow> (\<forall>a \<in> set xs. \<forall>b \<in> set xs. a = b)"
  proof
    assume *: "\<forall>a \<in> set xs. \<forall>b \<in> set xs. a = b"
    have "set xs = {hd xs}" using * hd_in_set [OF \<open>xs \<noteq> []\<close>] by blast
    then show "\<exists>x. set xs = {x}" ..
  qed auto
  ultimately show ?thesis by simp
qed

lemma readyD:
  assumes "ready sos c"
  shows "sos \<noteq> []" "a \<in> set sos \<Longrightarrow> b \<in> set sos \<Longrightarrow> so_ef_key a = so_ef_key b"
    "a \<in> set sos \<Longrightarrow> so_versions a = cf_versions c" "distinct (map so_document_sha256 sos)"
proof -
  show "sos \<noteq> []" using assms unfolding ready_def by (rule conjunct1)
  show "distinct (map so_document_sha256 sos)" using assms unfolding ready_def by (elim conjE)
  have k: "\<forall>a \<in> set sos. \<forall>b \<in> set sos. so_ef_key a = so_ef_key b" using assms unfolding ready_def by (elim conjE)
  have v: "\<forall>o' \<in> set sos. so_versions o' = cf_versions c" using assms unfolding ready_def by (elim conjE)
  show "a \<in> set sos \<Longrightarrow> b \<in> set sos \<Longrightarrow> so_ef_key a = so_ef_key b" using k by blast
  show "a \<in> set sos \<Longrightarrow> so_versions a = cf_versions c" using v by blast
qed

lemma one_key:
  assumes "ready sos c"
  shows "length (remdups (map so_ef_key sos)) = 1"
proof -
  have "\<forall>x \<in> set (map so_ef_key sos). \<forall>y \<in> set (map so_ef_key sos). x = y"
  proof (intro ballI)
    fix x y assume "x \<in> set (map so_ef_key sos)" "y \<in> set (map so_ef_key sos)"
    then obtain a b where "x = so_ef_key a" "a \<in> set sos" "y = so_ef_key b" "b \<in> set sos" unfolding set_map by blast
    then show "x = y" using readyD(2) [OF assms, of a b] by metis
  qed
  then show ?thesis using readyD(1) [OF assms] by (subst one_remdups) (auto simp only: map_is_Nil_conv)
qed

lemma check_observations_ready:
  assumes "ready sos c"
  shows "check_observations sos c k = k"
proof -
  have "\<not> list_ex (\<lambda>o'. so_versions o' \<noteq> cf_versions c) sos"
    using readyD(3) [OF assms] unfolding list_ex_iff by blast
  then show ?thesis using readyD(1,4) [OF assms] one_key [OF assms] by (simp add: check_observations_def guardR_def)
qed

text \<open>Sorting the observations does not change what they show.\<close>

lemma ready_cong:
  assumes r: "ready sos c" and set: "set xs = set sos" and d: "distinct (map so_document_sha256 xs)"
  shows "ready xs c"
  using r d unfolding ready_def set by (metis set set_empty)

lemma ready_sorted: "ready sos c \<Longrightarrow> ready (sort_key so_order sos) c"
  by (rule ready_cong) (simp_all add: distinct_map_sorted readyD(4))

lemma readings_differ_set: "set xs = set ys \<Longrightarrow> readings_differ xs \<longleftrightarrow> readings_differ ys"
  by (simp add: readings_differ_def all_members_def)

lemma reconcile_fact_ready:
  assumes sound: "\<And>o'. o' \<in> set observations \<Longrightarrow> sound_observation currency vtype o'" and r: "ready observations c"
    and sos: "sos = sort_key so_order observations"
  shows "\<exists>cs v. reconcile_fact rd observations c filings others = Inr (fact_result rd c sos cs v filings others) \<and>
    mapR (\<lambda>(a, b, ma, mb). pair_of a b ma mb) (member_pairs sos) = Inr cs \<and> fact_value_of sos cs = Inr v \<and>
    (if readings_differ observations
     then v = conflict_value sos (internal_conflicts sos) (disagreements cs) else agreed_value sos = Inr v)"
proof -
  have set: "set sos = set observations" by (simp add: sos)
  have ss: "\<And>o'. o' \<in> set sos \<Longrightarrow> sound_observation currency vtype o'" using sound set by blast
  have rs: "ready sos c" unfolding sos using ready_sorted [OF r] .
  then have ne: "sos \<noteq> []" by (simp add: ready_def)
  obtain cs where cs: "mapR (\<lambda>(a, b, ma, mb). pair_of a b ma mb) (member_pairs sos) = Inr cs"
    "disagreements cs \<noteq> [] \<longleftrightarrow> (\<exists>(a, b, ma, mb) \<in> set (member_pairs sos). \<not> same_reading ma mb)"
    using pairs_compared [of sos, OF ss] by blast
  have iff: "readings_differ observations \<longleftrightarrow> internal_conflicts sos \<noteq> [] \<or> disagreements cs \<noteq> []"
    using conflict_iff [of sos, OF ss] cs(2) readings_differ_set [OF set] by blast
  have run: "reconcile_fact rd observations c filings others =
      bindR (fact_value_of sos cs) (\<lambda>v. Inr (fact_result rd c sos cs v filings others))"
    using check_observations_ready [OF rs] cs(1) by (simp add: reconcile_fact_def sos Let_def)
  show ?thesis
  proof (cases "readings_differ observations")
    case True
    then have "fact_value_of sos cs = Inr (conflict_value sos (internal_conflicts sos) (disagreements cs))"
      using iff by (auto simp: fact_value_of_def)
    with run cs(1) True show ?thesis by simp
  next
    case False
    then have "\<not> readings_differ sos" using readings_differ_set [OF set] by simp
    then obtain v where v: "agreed_value sos = Inr v" using agreed_value_total [OF ss ne] by blast
    then have "fact_value_of sos cs = Inr v" using False iff by (auto simp: fact_value_of_def)
    with run cs(1) v False show ?thesis by simp
  qed
qed

section \<open>What a fact concludes\<close>

definition observed_run :: "string option \<Rightarrow> string option \<Rightarrow> observation_digests \<Rightarrow>
    validation_run \<times> candidate_result list \<Rightarrow> source_observation \<Rightarrow> bool" where
  "observed_run currency vtype od src o' \<longleftrightarrow>
     observation od (fst src) (snd src) = Inr o' \<and> (\<forall>m \<in> set (so_members o'). observed currency vtype m)"

lemma observed_run_sound: "observed_run currency vtype od src o' \<Longrightarrow> sound_observation currency vtype o'"
  using observation_sound unfolding observed_run_def by blast

lemma fact_result_fields:
  "rr_state (fact_result rd c sos cs v filings others) = fv_state v \<and>
   rr_value_kind (fact_result rd c sos cs v filings others) = fv_value_kind v \<and>
   rr_interval_low (fact_result rd c sos cs v filings others) = fv_low v \<and>
   rr_interval_high (fact_result rd c sos cs v filings others) = fv_high v \<and>
   rr_representative (fact_result rd c sos cs v filings others) = map_option (\<lambda>om. sm_reported (snd om)) (fv_rep v) \<and>
   rr_representative_member (fact_result rd c sos cs v filings others) = map_option (\<lambda>om. sm_source_key (snd om)) (fv_rep v) \<and>
   rr_representative_so (fact_result rd c sos cs v filings others) = map_option (\<lambda>om. so_key (fst om)) (fv_rep v) \<and>
   rr_reasons (fact_result rd c sos cs v filings others) = fv_reasons v"
  by (simp add: fact_result_def Let_def)

definition all_readings :: "source_observation list \<Rightarrow> value_result list" where
  "all_readings sos = map (\<lambda>om. sm_value (snd om)) (all_members sos)"

lemma all_readings_set: "set xs = set ys \<Longrightarrow> set (all_readings xs) = set (all_readings ys)"
  by (simp add: all_readings_def all_members_def)

lemma common_part_cong: "set xs = set ys \<Longrightarrow> common_part xs lh \<longleftrightarrow> common_part ys lh"
  by (simp add: common_part_def)

text \<open>The interval of an agreed fact and the reading that represents it.\<close>

definition agreed_reading :: "source_observation list \<Rightarrow> reconciliation_result \<Rightarrow> bool" where
  "agreed_reading sos r \<longleftrightarrow>
     (\<exists>low high. rr_interval_low r = Some low \<and> rr_interval_high r = Some high \<and>
        dec_val low \<le> dec_val high \<and> common_part (all_readings sos) (low, high)) \<and>
     (\<forall>k. rr_representative_member r = Some k \<longrightarrow> (\<exists>om \<in> set (all_members sos).
        sm_source_key (snd om) = k \<and> rr_representative_so r = Some (so_key (fst om)) \<and>
        rr_representative r = Some (sm_reported (snd om)) \<and>
        (\<forall>on \<in> set (all_members sos). vr_half (sm_value (snd om)) \<le> vr_half (sm_value (snd on)))))"

lemma reconcile_fact_sound:
  assumes sound: "\<And>o'. o' \<in> set sos \<Longrightarrow> sound_observation currency vtype o'" and r: "ready sos c"
  shows "\<exists>r. reconcile_fact rd sos c filings others = Inr r \<and>
    (if readings_differ sos
     then rr_state r = ''conflicting'' \<and> rr_value_kind r = None \<and> rr_interval_low r = None \<and>
       rr_interval_high r = None \<and> rr_representative r = None
     else rr_state r = (if length sos = 1 then ''single_source'' else ''corroborated'') \<and> rr_reasons r = [] \<and>
       (rr_value_kind r = Some ''nil'' \<and> (\<forall>om \<in> set (all_members sos). is_nil (snd om)) \<and>
          rr_interval_low r = None \<and> rr_interval_high r = None \<or>
        rr_value_kind r = Some ''numeric'' \<and> (\<forall>om \<in> set (all_members sos). \<not> is_nil (snd om)) \<and>
          agreed_reading sos r))"
proof -
  define xs where xs: "xs = sort_key so_order sos"
  have set: "set xs = set sos" and len: "length xs = length sos" by (simp_all add: xs)
  have mem: "set (all_members xs) = set (all_members sos)" by (auto simp: set all_members_def)
  obtain cs v where cv: "reconcile_fact rd sos c filings others = Inr (fact_result rd c xs cs v filings others)"
    "if readings_differ sos then v = conflict_value xs (internal_conflicts xs) (disagreements cs) else agreed_value xs = Inr v"
    using reconcile_fact_ready [OF sound r xs] by blast
  show ?thesis
  proof (cases "readings_differ sos")
    case True
    with cv show ?thesis by (simp add: fact_result_fields conflict_value_def)
  next
    case False
    then have nd: "\<not> readings_differ xs" using readings_differ_set [OF set] by simp
    have ne: "xs \<noteq> []" using readyD(1) [OF r] len by auto
    have ss: "\<And>o'. o' \<in> set xs \<Longrightarrow> sound_observation currency vtype o'" using sound set by blast
    have v: "agreed_value xs = Inr v" using cv(2) False by simp
    note t = agreed_value_total [OF ss ne nd, unfolded v]
    have cp: "common_part (all_readings sos) (low, high)"
      if "meets (map (\<lambda>om. sm_value (snd om)) (all_members xs)) (low, high)" for low high
      using meets_common [OF that] common_part_cong [of "all_readings xs" "all_readings sos"] all_readings_set [OF set]
      by (simp add: all_readings_def)
    let ?r = "fact_result rd c xs cs v filings others"
    have ar: "agreed_reading sos ?r"
      if "\<exists>low high. fv_low v = Some low \<and> fv_high v = Some high \<and> dec_val low \<le> dec_val high \<and>
        meets (map (\<lambda>om. sm_value (snd om)) (all_members xs)) (low, high)"
        and "\<forall>om. fv_rep v = Some om \<longrightarrow> representative_of xs om"
    proof -
      have "\<exists>low high. rr_interval_low ?r = Some low \<and> rr_interval_high ?r = Some high \<and> dec_val low \<le> dec_val high \<and>
          common_part (all_readings sos) (low, high)"
        using that(1) cp by (simp only: fact_result_fields) blast
      moreover have "\<exists>om \<in> set (all_members sos). sm_source_key (snd om) = k \<and>
          rr_representative_so ?r = Some (so_key (fst om)) \<and> rr_representative ?r = Some (sm_reported (snd om)) \<and>
          (\<forall>on \<in> set (all_members sos). vr_half (sm_value (snd om)) \<le> vr_half (sm_value (snd on)))"
        if k: "rr_representative_member ?r = Some k" for k
      proof -
        from k obtain om where om: "fv_rep v = Some om" "sm_source_key (snd om) = k"
          by (auto simp: fact_result_fields)
        have "representative_of xs om" using \<open>\<forall>om. fv_rep v = Some om \<longrightarrow> representative_of xs om\<close> om(1) by blast
        then show ?thesis
          using om unfolding representative_of_def mem by (intro bexI [of _ om]) (simp_all add: fact_result_fields)
      qed
      ultimately show ?thesis unfolding agreed_reading_def by blast
    qed
    show ?thesis
      using t cv(1) False ar unfolding mem len by (auto simp: fact_result_fields)
  qed
qed

text \<open>
  C31: given observations that were built from runs over distinct documents, share the fact's key and the
  configured versions, and read nil or everyday numbers of one currency (at most six decimals, below
  5 * 10^21), reconciling the fact returns a conclusion; the state is conflicting
  exactly when two observed values are different readings (numbers whose printed intervals do not
  overlap, or a nil beside a number), and a conflicting fact asserts no kind, interval or
  representative. Otherwise it is single_source for one observation and corroborated for more;
  all readings are then nil without an interval, or all are numeric, the interval is exactly
  the common part of every printed interval and not empty, and the representative, if there is
  one, is an observed value verbatim at the finest printed precision.
\<close>

theorem reconcile_fact_concludes:
  assumes "\<forall>o' \<in> set sos. \<exists>src. observed_run currency vtype od src o'" and "ready sos c"
  shows "\<exists>r. reconcile_fact rd sos c filings others = Inr r \<and>
    (rr_state r = ''conflicting'' \<longleftrightarrow> readings_differ sos) \<and>
    (if readings_differ sos
     then rr_value_kind r = None \<and> rr_interval_low r = None \<and> rr_interval_high r = None \<and> rr_representative r = None
     else rr_state r = (if length sos = 1 then ''single_source'' else ''corroborated'') \<and> rr_reasons r = [] \<and>
       (rr_value_kind r = Some ''nil'' \<and> (\<forall>om \<in> set (all_members sos). is_nil (snd om)) \<and>
          rr_interval_low r = None \<and> rr_interval_high r = None \<or>
        rr_value_kind r = Some ''numeric'' \<and> (\<forall>om \<in> set (all_members sos). \<not> is_nil (snd om)) \<and>
          agreed_reading sos r))"
proof -
  have "\<And>o'. o' \<in> set sos \<Longrightarrow> sound_observation currency vtype o'" using assms(1) observed_run_sound by blast
  then obtain r where r: "reconcile_fact rd sos c filings others = Inr r"
    "if readings_differ sos
     then rr_state r = ''conflicting'' \<and> rr_value_kind r = None \<and> rr_interval_low r = None \<and>
       rr_interval_high r = None \<and> rr_representative r = None
     else rr_state r = (if length sos = 1 then ''single_source'' else ''corroborated'') \<and> rr_reasons r = [] \<and>
       (rr_value_kind r = Some ''nil'' \<and> (\<forall>om \<in> set (all_members sos). is_nil (snd om)) \<and>
          rr_interval_low r = None \<and> rr_interval_high r = None \<or>
        rr_value_kind r = Some ''numeric'' \<and> (\<forall>om \<in> set (all_members sos). \<not> is_nil (snd om)) \<and>
          agreed_reading sos r)"
    using reconcile_fact_sound [OF _ assms(2)] by blast
  then have "rr_state r = ''conflicting'' \<longleftrightarrow> readings_differ sos" by (cases "readings_differ sos") (simp_all split: if_splits)
  with r show ?thesis by (intro exI [of _ r] conjI) (simp_all split: if_splits)
qed

section \<open>Two documents that agree\<close>

definition sample_configuration :: configuration where
  "sample_configuration = \<lparr>cf_accepted_f3 = [(''c'', None)], cf_accepted_f4 = [(''w'', ''f4'')], cf_accepted_f5 = [(''b'', ''m'', ''v1'')],
     cf_versions = implemented, cf_reconciliation_version = reconciliation_version\<rparr>"

definition plain_reconcile :: reconcile_digests where
  "plain_reconcile = \<lparr>rd_configuration = cf_reconciliation_version, rd_input = (\<lambda>(cid, key, obs, fs, os). key),
     rd_result = rr_ef_key, rd_batch = fst\<rparr>"

definition sample_source :: "string \<Rightarrow> int \<Rightarrow> validation_run \<times> candidate_result list" where
  "sample_source sha n = (sample_validation_run (''run '' @ sha) sha, [sample_result 3 (thousands n)])"

lemma sample_observed_run:
  assumes "\<bar>n\<bar> < 1000"
  shows "\<exists>so. observed_run (Some ''LKR'') (Some ''currency_amount'') plain_digests (sample_source sha n) so \<and>
    so_members so = [member_of (sample_result 3 (thousands n))] \<and> so_document_sha256 so = sha \<and>
    so_ef_key so = ''ef'' \<and> so_versions so = implemented"
  using sample_observation [OF assms, of "''run '' @ sha" sha 3] sample_member_observed [OF assms, of 3]
  unfolding observed_run_def sample_source_def
  by (auto simp: so_document_sha256_def sample_f5_run_def)

lemma sample_two:
  assumes "\<bar>m\<bar> < 1000" "\<bar>n\<bar> < 1000"
  shows "\<exists>a b. (\<forall>o' \<in> set [a, b]. \<exists>src. observed_run (Some ''LKR'') (Some ''currency_amount'') plain_digests src o') \<and>
    ready [a, b] sample_configuration \<and> (readings_differ [a, b] \<longleftrightarrow> \<not> \<bar>of_int m * 1000 - of_int n * 1000 :: rat\<bar> \<le> 1000) \<and>
    (\<forall>om \<in> set (all_members [a, b]). \<not> is_nil (snd om))"
proof -
  obtain a where a: "observed_run (Some ''LKR'') (Some ''currency_amount'') plain_digests (sample_source ''d1'' m) a"
    "so_members a = [member_of (sample_result 3 (thousands m))]" "so_document_sha256 a = ''d1''" "so_ef_key a = ''ef''"
    "so_versions a = implemented" using sample_observed_run [OF assms(1)] by blast
  obtain b where b: "observed_run (Some ''LKR'') (Some ''currency_amount'') plain_digests (sample_source ''d2'' n) b"
    "so_members b = [member_of (sample_result 3 (thousands n))]" "so_document_sha256 b = ''d2''" "so_ef_key b = ''ef''"
    "so_versions b = implemented" using sample_observed_run [OF assms(2)] by blast
  note ma = sample_member_observed [OF assms(1), of 3] and mb = sample_member_observed [OF assms(2), of 3]
  have "ready [a, b] sample_configuration"
    unfolding ready_def using a(3-5) b(3-5) by (simp add: sample_configuration_def)
  moreover have "readings_differ [a, b] \<longleftrightarrow> \<not> \<bar>of_int m * 1000 - of_int n * 1000 :: rat\<bar> \<le> 1000"
    using a(2) b(2) ma mb
    by (auto simp: readings_differ_def all_members_def same_reading_def abs_minus_commute)
  moreover have "\<forall>om \<in> set (all_members [a, b]). \<not> is_nil (snd om)"
    using a(2) b(2) ma mb by (simp add: all_members_def)
  moreover have "\<forall>o' \<in> set [a, b]. \<exists>src. observed_run (Some ''LKR'') (Some ''currency_amount'') plain_digests src o'"
    using a(1) b(1) by (auto simp only: list.set insert_iff)
  ultimately show ?thesis by blast
qed

lemma reconcile_fact_concludes_witness:
  "\<exists>a b r. reconcile_fact plain_reconcile [a, b] sample_configuration (\<lambda>_. [1]) (\<lambda>_. []) = Inr r \<and> rr_state r = ''corroborated'' \<and>
     rr_value_kind r = Some ''numeric'' \<and> agreed_reading [a, b] r"
proof -
  obtain a b where ab: "\<forall>o' \<in> set [a, b]. \<exists>src. observed_run (Some ''LKR'') (Some ''currency_amount'') plain_digests src o'"
    "ready [a, b] sample_configuration" "readings_differ [a, b] \<longleftrightarrow> \<not> \<bar>of_int 100 * 1000 - of_int 101 * 1000 :: rat\<bar> \<le> 1000"
    "\<forall>om \<in> set (all_members [a, b]). \<not> is_nil (snd om)"
    using sample_two [of 100 101] by auto
  have nd: "\<not> readings_differ [a, b]" using ab(3) by simp
  obtain r where r: "reconcile_fact plain_reconcile [a, b] sample_configuration (\<lambda>_. [1]) (\<lambda>_. []) = Inr r"
    "rr_state r = ''corroborated''"
    "rr_value_kind r = Some ''nil'' \<and> (\<forall>om \<in> set (all_members [a, b]). is_nil (snd om)) \<or>
     rr_value_kind r = Some ''numeric'' \<and> agreed_reading [a, b] r"
    using reconcile_fact_concludes [OF ab(1,2), of plain_reconcile "\<lambda>_. [1]" "\<lambda>_. []"] nd by auto
  have "all_members [a, b] \<noteq> []"
    using ab(1) observed_run_sound unfolding sound_observation_def by (fastforce simp: all_members_def)
  then obtain om where "om \<in> set (all_members [a, b])" by (meson hd_in_set)
  with r ab(4) show ?thesis by blast
qed

section \<open>The order of the observations\<close>

lemma unready_documents:
  assumes "\<not> distinct (map so_document_sha256 sos)"
  shows "check_observations sos c k = Inl ReconciliationInputError"
  using assms by (simp add: check_observations_def guardR_def)

text \<open>the order in which the observations of a fact arrive does not matter: any permutation of
  them gives the same result, or the same error.
\<close>

theorem reconcile_fact_order:
  assumes "mset xs = mset ys"
  shows "reconcile_fact rd xs c filings others = reconcile_fact rd ys c filings others"
proof (cases "distinct (map so_document_sha256 ys)")
  case True
  have m: "mset (map so_document_sha256 xs) = mset (map so_document_sha256 ys)" using assms by simp
  then have "distinct (map so_document_sha256 xs)" using True mset_eq_imp_distinct_iff by blast
  then have "inj_on so_order (set xs)" "distinct xs"
    by (auto simp: distinct_map so_order_def inj_on_def)
  moreover have "distinct ys" using True by (simp add: distinct_map)
  ultimately have "sort_key so_order xs = sort_key so_order ys"
    using sort_key_arrival [OF mset_eq_setD [OF assms]] by blast
  then show ?thesis by (simp add: reconcile_fact_def)
next
  case False
  have "mset (map so_document_sha256 xs) = mset (map so_document_sha256 ys)" using assms by simp
  then have "\<not> distinct (map so_document_sha256 xs)" using False mset_eq_imp_distinct_iff by blast
  with False show ?thesis
    by (simp add: reconcile_fact_def unready_documents distinct_map_sorted Let_def)
qed

lemma reconcile_fact_order_witness:
  "\<exists>a b. a \<noteq> b \<and> ready [a, b] sample_configuration \<and>
     reconcile_fact plain_reconcile [a, b] sample_configuration (\<lambda>_. [1]) (\<lambda>_. []) =
     reconcile_fact plain_reconcile [b, a] sample_configuration (\<lambda>_. [1]) (\<lambda>_. [])"
proof -
  obtain a b where ab: "ready [a, b] sample_configuration" using sample_two [of 100 500] by auto
  have "a \<noteq> b" using readyD(4) [OF ab] by auto
  with ab reconcile_fact_order [of "[a, b]" "[b, a]" plain_reconcile sample_configuration]
  show ?thesis by (intro exI [of _ a] exI [of _ b]) simp
qed

section \<open>One run per document\<close>

lemma choose_run_latest:
  assumes "choose_run rs = Inr r" and "rs \<noteq> []"
  shows "r \<in> set rs \<and> (\<forall>s \<in> set rs. (recorded s, fr_f5_run_id s) \<le> (recorded r, fr_f5_run_id r))"
proof (cases "\<exists>x. rs = [x]")
  case True
  with assms show ?thesis by (auto simp: choose_run_def)
next
  case False
  then have "max_on (\<lambda>r. (recorded r, fr_f5_run_id r)) rs = Some r"
    using assms by (auto simp: choose_run_def guardR_def split: list.splits if_splits option.splits)
  from max_on_Some [OF this] show ?thesis by simp
qed

text \<open>Two different runs under one id; \<open>select_runs\<close> refuses them.\<close>

definition id_clash :: "f5_run_ref list \<Rightarrow> bool" where
  "id_clash runs \<longleftrightarrow> (\<exists>a \<in> set runs. \<exists>b \<in> set runs. fr_f5_run_id a = fr_f5_run_id b \<and> a \<noteq> b)"

lemma id_clash_pairs:
  "list_ex (\<lambda>(a, b). fr_f5_run_id a = fr_f5_run_id b \<and> a \<noteq> b) (later_pairs runs) \<longleftrightarrow> id_clash runs"
  unfolding id_clash_def by (rule later_pairs_ex) (rule conjI, erule conjunct1 [THEN sym], erule conjunct2 [THEN not_sym], simp)

definition accepted_runs :: "f5_run_ref list \<Rightarrow> configuration \<Rightarrow> f5_run_ref list" where
  "accepted_runs runs c = filter (\<lambda>r. refusal c r = None) (sort_key fr_f5_run_id (remdups runs))"

lemma accepted_runs_set: "set (accepted_runs runs c) = {r \<in> set runs. refusal c r = None}"
  by (auto simp: accepted_runs_def)

lemma select_runs_eq:
  "select_runs cid runs c = guardR (id_clash runs) ReconciliationInputError
     (bindR (mapR select_document (group_on fr_document_sha256 (accepted_runs runs c))) (\<lambda>documents.
        Inr \<lparr>sl_configuration_id = cid c, sl_documents = documents,
             sl_excluded_runs = List.map_filter (\<lambda>r. map_option (\<lambda>why. (fr_f5_run_id r, why)) (refusal c r))
               (sort_key fr_f5_run_id (remdups runs))\<rparr>))"
  by (simp add: select_runs_def id_clash_pairs accepted_runs_def Let_def)

lemma select_document_key: "select_document d = Inr s \<Longrightarrow> rs_document_sha256 s = fst d"
  by (auto simp: select_document_def bindR_eq_Inr)

lemma select_document_run:
  assumes "select_document (k, g) = Inr s" and "g \<noteq> []"
  shows "\<exists>r \<in> set g. rs_selected_run s = fr_f5_run_id r \<and> rs_selected_filing s = fr_cse_filing_id r \<and>
    rs_document_sha256 s = k \<and> set (rs_filings s) = fr_cse_filing_id ` set g \<and>
    (\<forall>q \<in> set g. (recorded q, fr_f5_run_id q) \<le> (recorded r, fr_f5_run_id r))"
proof -
  obtain r where r: "choose_run g = Inr r" "rs_selected_run s = fr_f5_run_id r" "rs_selected_filing s = fr_cse_filing_id r"
    "rs_document_sha256 s = k" "set (rs_filings s) = fr_cse_filing_id ` set g"
    using assms(1) by (auto simp: select_document_def bindR_eq_Inr)
  with choose_run_latest [OF r(1) assms(2)] show ?thesis by (intro bexI [of _ r]) auto
qed

lemma select_runs_sound:
  assumes "select_runs cid runs c = Inr sel"
  shows "distinct (map rs_document_sha256 (sl_documents sel)) \<and>
    set (map rs_document_sha256 (sl_documents sel)) = fr_document_sha256 ` {r \<in> set runs. refusal c r = None} \<and>
    (\<forall>d \<in> set (sl_documents sel). \<exists>r \<in> set runs. refusal c r = None \<and> fr_document_sha256 r = rs_document_sha256 d \<and>
       rs_selected_run d = fr_f5_run_id r \<and> rs_selected_filing d = fr_cse_filing_id r \<and>
       (\<forall>q \<in> set runs. refusal c q = None \<and> fr_document_sha256 q = rs_document_sha256 d \<longrightarrow>
          (recorded q, fr_f5_run_id q) \<le> (recorded r, fr_f5_run_id r) \<and> fr_cse_filing_id q \<in> set (rs_filings d))) \<and>
    set (sl_excluded_runs sel) = {(fr_f5_run_id r, why) | r why. r \<in> set runs \<and> refusal c r = Some why}"
proof -
  let ?G = "group_on fr_document_sha256 (accepted_runs runs c)"
  obtain ds where ds: "mapR select_document ?G = Inr ds" "sl_documents sel = ds"
    "sl_excluded_runs sel = List.map_filter (\<lambda>r. map_option (\<lambda>why. (fr_f5_run_id r, why)) (refusal c r))
      (sort_key fr_f5_run_id (remdups runs))"
    using assms unfolding select_runs_eq guardR_eq_Inr bindR_eq_Inr by auto
  have keys: "map rs_document_sha256 ds = map fst ?G"
    by (rule mapR_map [OF ds(1)]) (rule select_document_key)
  have one: "\<exists>r \<in> set runs. refusal c r = None \<and> fr_document_sha256 r = rs_document_sha256 d \<and>
       rs_selected_run d = fr_f5_run_id r \<and> rs_selected_filing d = fr_cse_filing_id r \<and>
       (\<forall>q \<in> set runs. refusal c q = None \<and> fr_document_sha256 q = rs_document_sha256 d \<longrightarrow>
          (recorded q, fr_f5_run_id q) \<le> (recorded r, fr_f5_run_id r) \<and> fr_cse_filing_id q \<in> set (rs_filings d))"
    if "d \<in> set ds" for d
  proof -
    obtain k g where kg: "(k, g) \<in> set ?G" "select_document (k, g) = Inr d"
      using mapR_Inr_set [OF ds(1)] \<open>d \<in> set ds\<close> by force
    have g: "g = filter (\<lambda>r. fr_document_sha256 r = k) (accepted_runs runs c)" using kg(1) by (simp add: group_on_mem)
    obtain r where r: "r \<in> set g" "rs_selected_run d = fr_f5_run_id r" "rs_selected_filing d = fr_cse_filing_id r"
      "rs_document_sha256 d = k" "set (rs_filings d) = fr_cse_filing_id ` set g"
      "\<forall>q \<in> set g. (recorded q, fr_f5_run_id q) \<le> (recorded r, fr_f5_run_id r)"
      using select_document_run [OF kg(2) group_on_nonempty [OF kg(1)]] by blast
    show ?thesis
    proof (rule bexI [of _ r])
      have "q \<in> set g" if "q \<in> set runs" "refusal c q = None \<and> fr_document_sha256 q = rs_document_sha256 d" for q
        using that r(4) by (simp add: g accepted_runs_set)
      then show "refusal c r = None \<and> fr_document_sha256 r = rs_document_sha256 d \<and>
         rs_selected_run d = fr_f5_run_id r \<and> rs_selected_filing d = fr_cse_filing_id r \<and>
         (\<forall>q \<in> set runs. refusal c q = None \<and> fr_document_sha256 q = rs_document_sha256 d \<longrightarrow>
            (recorded q, fr_f5_run_id q) \<le> (recorded r, fr_f5_run_id r) \<and> fr_cse_filing_id q \<in> set (rs_filings d))"
        using r by (simp add: g accepted_runs_set)
      show "r \<in> set runs" using r(1) by (simp add: g accepted_runs_set)
    qed
  qed
  have ex: "set (sl_excluded_runs sel) = {(fr_f5_run_id r, why) | r why. r \<in> set runs \<and> refusal c r = Some why}"
    unfolding ds(3) map_filter_def by (force simp: image_iff)
  have "set (map fst ?G) = fr_document_sha256 ` {r \<in> set runs. refusal c r = None}"
    by (simp add: group_on_keys accepted_runs_set)
  then show ?thesis
    using one distinct_group_on_keys [of fr_document_sha256 "accepted_runs runs c"] unfolding ds(2) keys ex by (intro conjI ballI) simp_all
qed

text \<open>
  \<open>select_runs\<close> chooses exactly one F5 run for every document that has an accepted run. The
  chosen run is accepted, belongs to that document and is the most recently recorded accepted one
  (ties broken by run id); the filings listed are those of all accepted runs of the document,
  and exactly the runs that the configuration refuses are excluded, each with its reason.
\<close>

theorem select_runs_latest:
  assumes "select_runs cid runs c = Inr sel"
  shows "distinct (map rs_document_sha256 (sl_documents sel)) \<and>
    set (map rs_document_sha256 (sl_documents sel)) = fr_document_sha256 ` {r \<in> set runs. refusal c r = None} \<and>
    (\<forall>d \<in> set (sl_documents sel). \<exists>r \<in> set runs. refusal c r = None \<and> fr_document_sha256 r = rs_document_sha256 d \<and>
       rs_selected_run d = fr_f5_run_id r \<and> rs_selected_filing d = fr_cse_filing_id r \<and>
       (\<forall>q \<in> set runs. refusal c q = None \<and> fr_document_sha256 q = rs_document_sha256 d \<longrightarrow>
          (recorded q, fr_f5_run_id q) \<le> (recorded r, fr_f5_run_id r) \<and> fr_cse_filing_id q \<in> set (rs_filings d))) \<and>
    set (sl_excluded_runs sel) = {(fr_f5_run_id r, why) | r why. r \<in> set runs \<and> refusal c r = Some why}"
  by (rule select_runs_sound [OF assms])

definition sample_rerun :: "f5_run_ref list" where
  "sample_rerun = [(sample_f5_run ''b'' ''d'')\<lparr>fr_recorded_at := Some 9\<rparr>, sample_f5_run ''a'' ''d'']"

lemma sample_rerun_accepted:
  "set sample_rerun = {(sample_f5_run ''b'' ''d'')\<lparr>fr_recorded_at := Some 9\<rparr>, sample_f5_run ''a'' ''d''}"
  "r \<in> set sample_rerun \<Longrightarrow> refusal sample_configuration r = None \<and> fr_document_sha256 r = ''d''"
  by (auto simp: sample_rerun_def sample_f5_run_def sample_configuration_def refusal_def f3_version_def f4_version_def
      f5_version_def)

lemma sample_rerun_selects: "\<exists>sel. select_runs cf_reconciliation_version sample_rerun sample_configuration = Inr sel"
  by (simp add: sample_rerun_def select_runs_def sample_f5_run_def sample_configuration_def group_on_def sorted_set_def
      refusal_def select_document_def choose_run_def guardR_def recorded_def f3_version_def f4_version_def f5_version_def
      Let_def sort_key_def)

lemma select_runs_latest_witness:
  "\<exists>sel. select_runs cf_reconciliation_version sample_rerun sample_configuration = Inr sel \<and>
     set (map rs_document_sha256 (sl_documents sel)) = {''d''} \<and>
     (\<forall>d \<in> set (sl_documents sel). rs_selected_run d = ''b'') \<and> sl_excluded_runs sel = []"
proof -
  obtain sel where sel: "select_runs cf_reconciliation_version sample_rerun sample_configuration = Inr sel"
    using sample_rerun_selects by blast
  note acc = sample_rerun_accepted
  have ok: "{r \<in> set sample_rerun. refusal sample_configuration r = None} = set sample_rerun" using acc(2) by auto
  note t = select_runs_latest [OF sel]
  have docs: "set (map rs_document_sha256 (sl_documents sel)) = {''d''}"
    using t unfolding ok by (auto simp: acc(1) sample_f5_run_def)
  have "rs_selected_run d = ''b''" if d: "d \<in> set (sl_documents sel)" for d
  proof -
    have dd: "rs_document_sha256 d = ''d''" using docs d by auto
    obtain r where r: "r \<in> set sample_rerun" "rs_selected_run d = fr_f5_run_id r"
      "\<forall>q \<in> set sample_rerun. refusal sample_configuration q = None \<and> fr_document_sha256 q = ''d'' \<longrightarrow>
         (recorded q, fr_f5_run_id q) \<le> (recorded r, fr_f5_run_id r)"
      using t [THEN conjunct2, THEN conjunct2, THEN conjunct1, rule_format, OF d] unfolding dd by auto
    have "(sample_f5_run ''b'' ''d'')\<lparr>fr_recorded_at := Some 9\<rparr> \<in> set sample_rerun" by (simp add: acc(1))
    from r(3) [rule_format, OF this acc(2) [OF this]] have "9 \<le> recorded r"
      by (auto simp: recorded_def sample_f5_run_def less_eq_prod_def split: option.splits)
    then show ?thesis using r(1,2) by (auto simp: acc(1) recorded_def sample_f5_run_def)
  qed
  moreover have "set (sl_excluded_runs sel) = {}" using t acc(2) by auto
  ultimately show ?thesis using sel docs by auto
qed

text \<open>nor does the order in which the F5 runs arrive matter: two lists with the same runs, in
  any order and with any repetitions, give the same selection or the same error.
\<close>

theorem select_runs_order:
  assumes "set runs = set runs'"
  shows "select_runs cid runs c = select_runs cid runs' c"
proof (cases "id_clash runs'")
  case True
  then have "id_clash runs" using assms by (simp add: id_clash_def)
  with True show ?thesis by (simp add: select_runs_eq guardR_def)
next
  case False
  then have "inj_on fr_f5_run_id (set runs)" using assms by (auto simp: id_clash_def inj_on_def)
  then have "sort_key fr_f5_run_id (remdups runs) = sort_key fr_f5_run_id (remdups runs')"
    using assms by (intro sort_key_arrival) simp_all
  moreover have "id_clash runs \<longleftrightarrow> id_clash runs'" using assms by (simp add: id_clash_def)
  ultimately show ?thesis by (simp add: select_runs_eq accepted_runs_def)
qed

lemma select_runs_order_witness:
  "sample_rerun \<noteq> rev sample_rerun \<and>
   select_runs cf_reconciliation_version sample_rerun sample_configuration =
   select_runs cf_reconciliation_version (rev sample_rerun) sample_configuration"
proof -
  have "sample_rerun \<noteq> rev sample_rerun" by (simp add: sample_rerun_def sample_f5_run_def)
  moreover have "set sample_rerun = set (rev sample_rerun)" by simp
  ultimately show ?thesis using select_runs_order by blast
qed

section \<open>Beyond 28 digits\<close>

lemma sample_observation_of:
  assumes "vr_normalized_value v = Some x" "vr_half_unit v = Some h" "dec_sub x h = Inr low" "dec_add [x, h] = Inr high"
  shows "\<exists>so. observation plain_digests (sample_validation_run run_id sha) [sample_result 3 v] = Inr so \<and>
    so_members so = [member_of (sample_result 3 v)] \<and> so_document_sha256 so = sha \<and> so_ef_key so = ''ef'' \<and>
    so_versions so = implemented \<and> so_status so = ''consistent'' \<and> so_value_kind so = Some ''numeric'' \<and>
    so_interval_low so = Some low \<and> so_interval_high so = Some high"
proof -
  let ?m = "member_of (sample_result 3 v)"
  have m: "sm_value ?m = v" "sm_value_kind ?m = Some ''numeric''"
    by (simp_all add: member_of_def sample_result_def sample_row_def sample_admission_def Let_def)
  have "\<exists>c. conclude [?m] [] = Inr c \<and> cn_status c = ''consistent'' \<and> cn_value_kind c = Some ''numeric'' \<and>
      cn_low c = Some low \<and> cn_high c = Some high"
    using assms by (simp add: conclude_def m entry_of_def interval_def finest_def several_numbers_def
        dec_eq_def Let_def)
  then show ?thesis
    by (auto simp: observation_def guardR_def sample_validation_run_def plain_digests_def sample_f5_run_def
        sample_result_def sample_admission_def so_document_sha256_def Let_def)
qed

text \<open>
  When values carry more than 28 significant digits, \<open>reconcile_fact\<close> can raise the
  RuntimeError of the branch the code calls impossible. Two documents read 1e29 with half-unit 5e28
  and 49999999999999999999999999999 with half-unit 0.5. The printed intervals do not meet,
  \<open>compare_values\<close> still reports that the values agree, since its \<open>abs\<close> rounds the difference to
  28 digits, and the common interval of the two agreeing values is then empty.
\<close>

theorem reconcile_fact_empty_interval:
  "\<exists>a b. observation plain_digests (sample_validation_run ''run1'' ''d1'')
       [sample_result 3 (sample_value (Dec 1 29) (Dec 5 28))] = Inr a \<and>
     observation plain_digests (sample_validation_run ''run2'' ''d2'')
       [sample_result 3 (sample_value (Dec 49999999999999999999999999999 0) (Dec 5 (- 1)))] = Inr b \<and>
     ready [a, b] sample_configuration \<and>
     reconcile_fact plain_reconcile [a, b] sample_configuration (\<lambda>_. [1]) (\<lambda>_. []) = Inl RuntimeErr"
proof -
  let ?v = "sample_value (Dec 1 29) (Dec 5 28)"
    and ?w = "sample_value (Dec 49999999999999999999999999999 0) (Dec 5 (- 1))"
  have sv: "vr_normalized_value (sample_value x h) = Some x" "vr_half_unit (sample_value x h) = Some h" for x h
    by (simp_all add: sample_value_def)
  have d: "dec_sub (Dec 1 29) (Dec 5 28) = Inr (Dec 5 28)" "dec_add [Dec 1 29, Dec 5 28] = Inr (Dec 150000000000000000000000000000 0)"
    "dec_sub (Dec 49999999999999999999999999999 0) (Dec 5 (- 1)) = Inr (Dec 499999999999999999999999999985 (- 1))"
    "dec_add [Dec 49999999999999999999999999999 0, Dec 5 (- 1)] = Inr (Dec 499999999999999999999999999995 (- 1))"
    by (simp_all add: dec_eval)
  obtain a where a: "observation plain_digests (sample_validation_run ''run1'' ''d1'') [sample_result 3 ?v] = Inr a"
    "so_members a = [member_of (sample_result 3 ?v)]" "so_document_sha256 a = ''d1''" "so_ef_key a = ''ef''"
    "so_versions a = implemented" "so_status a = ''consistent''" "so_value_kind a = Some ''numeric''"
    "so_interval_low a = Some (Dec 5 28)" "so_interval_high a = Some (Dec 150000000000000000000000000000 0)"
    using sample_observation_of [OF sv d(1,2)] by blast
  obtain b where b: "observation plain_digests (sample_validation_run ''run2'' ''d2'') [sample_result 3 ?w] = Inr b"
    "so_members b = [member_of (sample_result 3 ?w)]" "so_document_sha256 b = ''d2''" "so_ef_key b = ''ef''"
    "so_versions b = implemented" "so_status b = ''consistent''" "so_value_kind b = Some ''numeric''"
    "so_interval_low b = Some (Dec 499999999999999999999999999985 (- 1))"
    "so_interval_high b = Some (Dec 499999999999999999999999999995 (- 1))"
    using sample_observation_of [OF sv d(3,4)] by blast
  have m: "sm_value (member_of (sample_result 3 v)) = v" "sm_value_kind (member_of (sample_result 3 v)) = Some ''numeric''" for v
    by (simp_all add: member_of_def sample_result_def sample_row_def sample_admission_def Let_def)
  obtain c where c: "compare_values ?v ?w = Inr c" "cr_outcome c = ''agree''" using rounding_agrees by blast
  have le: "so_order a \<le> so_order b" using a(3) b(3) by (simp add: so_order_def less_eq_prod_def)
  have rdy: "ready [a, b] sample_configuration" using a(3-5) b(3-5) by (simp add: ready_def sample_configuration_def)
  have ag: "agreed_value [a, b] = Inl RuntimeErr"
    using a(7-9) b(7-9) by (simp add: agreed_value_def guardR_def dec_lt_def coef_at_def Let_def)
  have "reconcile_fact plain_reconcile [a, b] sample_configuration (\<lambda>_. [1]) (\<lambda>_. []) = Inl RuntimeErr"
    using a(2,6) b(2,6) c ag le
    by (simp add: reconcile_fact_def check_observations_ready [OF rdy] member_pairs_def pair_of_def compare_members_def m guardR_def fact_value_of_def
        internal_conflicts_def disagreements_def Let_def)
  with a(1) b(1) rdy show ?thesis by blast
qed

end
