(* ===== verification/BatchFacts.thy ===== *)
theory BatchFacts
  imports ReconcileFacts
begin

text \<open>
  The whole batch: every observation supplied is either excluded with a reason or counted in
  exactly one economic fact, and only observations of the selected runs count.
\<close>

section \<open>Triage\<close>

definition kept_reason :: "string list \<Rightarrow> configuration \<Rightarrow> source_observation \<Rightarrow> string option" where
  "kept_reason selected c o' =
     (if so_versions o' \<noteq> cf_versions c then Some ''versions_not_configured''
      else if fr_f5_run_id (so_f5_run o') \<notin> set selected then Some ''f5_run_not_selected'' else None)"

lemma triage_step:
  "triage known selected c seen (o' # sos) =
     (case map_of seen (so_key o') of
        Some h \<Rightarrow> guardR (h \<noteq> so_output_hash o') ReconciliationInputError (triage known selected c seen sos)
      | None \<Rightarrow> guardR (known (fr_f5_run_id (so_f5_run o')) \<noteq> Some (so_f5_run o')) ReconciliationInputError
          (bindR (triage known selected c ((so_key o', so_output_hash o') # seen) sos) (\<lambda>(kept, excluded). Inr (
             case kept_reason selected c o' of None \<Rightarrow> (o' # kept, excluded)
             | Some why \<Rightarrow> (kept, (so_key o', why) # excluded)))))"
  by (simp add: kept_reason_def split: option.split)

lemma triage_keeps:
  "triage known selected c seen sos = Inr (kept, excluded) \<Longrightarrow> k \<in> set kept \<Longrightarrow>
     k \<in> set sos \<and> kept_reason selected c k = None \<and> known (fr_f5_run_id (so_f5_run k)) = Some (so_f5_run k)"
proof (induction sos arbitrary: seen kept excluded)
  case (Cons o' sos)
  show ?case
  proof (cases "map_of seen (so_key o')")
    case None
    then obtain ks xs where r: "triage known selected c ((so_key o', so_output_hash o') # seen) sos = Inr (ks, xs)"
      "known (fr_f5_run_id (so_f5_run o')) = Some (so_f5_run o')"
      "(kept, excluded) = (case kept_reason selected c o' of None \<Rightarrow> (o' # ks, xs) | Some why \<Rightarrow> (ks, (so_key o', why) # xs))"
      using Cons.prems(1) unfolding triage_step by (auto simp: bindR_eq_Inr guardR_eq_Inr)
    show ?thesis
    proof (cases "kept_reason selected c o'")
      case why: None
      then have "k = o' \<or> k \<in> set ks" using r(3) Cons.prems(2) by simp
      then show ?thesis using why r(2) Cons.IH [OF r(1)] by (metis list.set_intros)
    next
      case (Some why)
      then have "k \<in> set ks" using r(3) Cons.prems(2) by simp
      then show ?thesis using Cons.IH [OF r(1)] by (metis list.set_intros(2))
    qed
  next
    case (Some h)
    then have "triage known selected c seen sos = Inr (kept, excluded)"
      using Cons.prems(1) by (simp add: guardR_eq_Inr)
    from Cons.IH [OF this Cons.prems(2)] show ?thesis by (metis list.set_intros(2))
  qed
qed simp

lemma triage_accounts:
  "triage known selected c seen sos = Inr (kept, excluded) \<Longrightarrow> o' \<in> set sos \<Longrightarrow>
     (\<exists>h. map_of seen (so_key o') = Some h) \<or> so_key o' \<in> so_key ` set kept \<union> fst ` set excluded"
proof (induction sos arbitrary: seen kept excluded)
  case (Cons a sos)
  show ?case
  proof (cases "map_of seen (so_key a)")
    case None
    then obtain ks xs where r: "triage known selected c ((so_key a, so_output_hash a) # seen) sos = Inr (ks, xs)"
      "(kept, excluded) = (case kept_reason selected c a of None \<Rightarrow> (a # ks, xs) | Some why \<Rightarrow> (ks, (so_key a, why) # xs))"
      using Cons.prems(1) unfolding triage_step by (auto simp: bindR_eq_Inr guardR_eq_Inr)
    have here: "so_key a \<in> so_key ` set kept \<union> fst ` set excluded"
      using r(2) by (cases "kept_reason selected c a") auto
    have more: "so_key ` set ks \<union> fst ` set xs \<subseteq> so_key ` set kept \<union> fst ` set excluded"
      using r(2) by (cases "kept_reason selected c a") auto
    show ?thesis
    proof (cases "so_key o' = so_key a")
      case True
      with here show ?thesis by simp
    next
      case False
      then have "o' \<in> set sos" using Cons.prems(2) by auto
      from Cons.IH [OF r(1) this] False more show ?thesis by auto
    qed
  next
    case (Some h)
    then have t: "triage known selected c seen sos = Inr (kept, excluded)"
      using Cons.prems(1) by (simp add: guardR_eq_Inr)
    show ?thesis
    proof (cases "so_key o' = so_key a")
      case True
      with Some show ?thesis by simp
    next
      case False
      then have "o' \<in> set sos" using Cons.prems(2) by auto
      from Cons.IH [OF t this] show ?thesis .
    qed
  qed
qed simp

lemma triage_distinct:
  "triage known selected c seen sos = Inr (kept, excluded) \<Longrightarrow>
     distinct (map so_key kept @ map fst excluded) \<and>
     (\<forall>k \<in> so_key ` set kept \<union> fst ` set excluded. map_of seen k = None)"
proof (induction sos arbitrary: seen kept excluded)
  case (Cons a sos)
  show ?case
  proof (cases "map_of seen (so_key a)")
    case None
    then obtain ks xs where r: "triage known selected c ((so_key a, so_output_hash a) # seen) sos = Inr (ks, xs)"
      "(kept, excluded) = (case kept_reason selected c a of None \<Rightarrow> (a # ks, xs) | Some why \<Rightarrow> (ks, (so_key a, why) # xs))"
      using Cons.prems(1) unfolding triage_step by (auto simp: bindR_eq_Inr guardR_eq_Inr)
    from Cons.IH [OF r(1)] have ih: "distinct (map so_key ks @ map fst xs)"
      "\<And>k. k \<in> so_key ` set ks \<union> fst ` set xs \<Longrightarrow> k \<noteq> so_key a \<and> map_of seen k = None"
      by (auto split: if_splits)
    have "so_key a \<notin> so_key ` set ks \<union> fst ` set xs" using ih(2) by blast
    then show ?thesis using r(2) ih None by (cases "kept_reason selected c a") auto
  next
    case (Some h)
    then have "triage known selected c seen sos = Inr (kept, excluded)"
      using Cons.prems(1) by (simp add: guardR_eq_Inr)
    then show ?thesis by (rule Cons.IH)
  qed
qed simp

section \<open>The batch\<close>

lemma fact_result_observations:
  "map ob_so_key (rr_observations (fact_result rd c sos cs v filings others)) = map so_key sos"
  "map ob_f5_run_id (rr_observations (fact_result rd c sos cs v filings others)) = map (\<lambda>o'. fr_f5_run_id (so_f5_run o')) sos"
  "rr_observations (fact_result rd c sos cs v filings others) = map (ref_of v) sos"
  "rr_ef_key (fact_result rd c sos cs v filings others) = so_ef_key (hd sos)"
  by (simp_all add: fact_result_def ref_of_def Let_def)

lemma check_observations_Inr: "check_observations sos c k = Inr r \<Longrightarrow> sos \<noteq> [] \<and> k = Inr r"
  by (auto simp: check_observations_def guardR_def split: if_splits)

lemma reconcile_fact_observations:
  assumes "reconcile_fact rd sos c filings others = Inr r"
  shows "\<exists>v. rr_observations r = map (ref_of v) (sort_key so_order sos) \<and> sos \<noteq> [] \<and>
    rr_ef_key r \<in> so_ef_key ` set sos"
proof -
  let ?xs = "sort_key so_order sos"
  obtain cs v where r: "?xs \<noteq> []" "r = fact_result rd c ?xs cs v filings others"
    using assms by (auto simp: reconcile_fact_def Let_def bindR_eq_Inr dest!: check_observations_Inr)
  then have "hd ?xs \<in> set sos" by (metis hd_in_set set_sort)
  then show ?thesis using r by (auto simp: fact_result_observations)
qed

lemma ref_of_fields:
  "ob_so_key (ref_of v o') = so_key o'" "ob_f5_run_id (ref_of v o') = fr_f5_run_id (so_f5_run o')"
  "ob_document_sha256 (ref_of v o') = so_document_sha256 o'"
  by (simp_all add: ref_of_def)

definition kept_results :: "source_observation list \<Rightarrow> reconciliation_result list \<Rightarrow> bool" where
  "kept_results kept rs \<longleftrightarrow> map rr_ef_key rs = sorted_set (map so_ef_key kept) \<and>
     (\<forall>r \<in> set rs. \<forall>ob \<in> set (rr_observations r). \<exists>o' \<in> set kept. so_ef_key o' = rr_ef_key r \<and>
        ob_so_key ob = so_key o' \<and> ob_f5_run_id ob = fr_f5_run_id (so_f5_run o') \<and>
        ob_document_sha256 ob = so_document_sha256 o') \<and>
     (\<forall>o' \<in> set kept. \<exists>r \<in> set rs. rr_ef_key r = so_ef_key o' \<and> so_key o' \<in> ob_so_key ` set (rr_observations r))"

lemma results_of_groups:
  assumes "mapR (\<lambda>(k, sos). reconcile_fact rd sos c filings (others sos)) (group_on so_ef_key kept) = Inr rs"
  shows "kept_results kept rs"
proof -
  let ?f = "\<lambda>(k, sos). reconcile_fact rd sos c filings (others sos)" and ?G = "group_on so_ef_key kept"
  have group: "rr_ef_key r = k \<and> (\<exists>v. rr_observations r = map (ref_of v) (sort_key so_order g))"
    if "(k, g) \<in> set ?G" "?f (k, g) = Inr r" for k g r
  proof -
    have "g = filter (\<lambda>o'. so_ef_key o' = k) kept" using that(1) by (simp add: group_on_mem)
    then have "\<And>o'. o' \<in> set g \<Longrightarrow> so_ef_key o' = k" by simp
    with that(2) reconcile_fact_observations [of rd g c filings "others g" r] show ?thesis by auto
  qed
  have "map rr_ef_key rs = map fst ?G"
  proof (rule mapR_map [OF assms])
    fix x y assume xy: "x \<in> set ?G" "?f x = Inr y"
    obtain k g where x: "x = (k, g)" by (cases x)
    show "rr_ef_key y = fst x" using group [OF xy [unfolded x]] by (simp add: x)
  qed
  moreover have "\<exists>o' \<in> set kept. so_ef_key o' = rr_ef_key r \<and> ob_so_key ob = so_key o' \<and>
      ob_f5_run_id ob = fr_f5_run_id (so_f5_run o') \<and> ob_document_sha256 ob = so_document_sha256 o'"
    if r: "r \<in> set rs" and ob: "ob \<in> set (rr_observations r)" for r ob
  proof -
    obtain k g where kg: "(k, g) \<in> set ?G" "?f (k, g) = Inr r" using mapR_Inr_set [OF assms] r by force
    obtain v where v: "rr_ef_key r = k" "rr_observations r = map (ref_of v) (sort_key so_order g)" using group [OF kg] by blast
    then obtain o' where o': "o' \<in> set g" "ob = ref_of v o'" using ob by auto
    then have "o' \<in> set kept" "so_ef_key o' = k" using kg(1) by (auto simp: group_on_mem)
    then show ?thesis using o'(2) v(1) ref_of_fields by metis
  qed
  moreover have "\<exists>r \<in> set rs. rr_ef_key r = so_ef_key o' \<and> so_key o' \<in> ob_so_key ` set (rr_observations r)"
    if o': "o' \<in> set kept" for o'
  proof -
    let ?g = "filter (\<lambda>a. so_ef_key a = so_ef_key o') kept"
    have kg: "(so_ef_key o', ?g) \<in> set ?G" using o' by (simp add: group_on_mem)
    then obtain r where r: "?f (so_ef_key o', ?g) = Inr r" "r \<in> set rs"
      using mapR_each [OF assms kg] by blast
    obtain v where v: "rr_ef_key r = so_ef_key o'" "rr_observations r = map (ref_of v) (sort_key so_order ?g)"
      using group [OF kg r(1)] by blast
    have "ref_of v o' \<in> set (rr_observations r)" using v(2) o' by auto
    then have "so_key o' \<in> ob_so_key ` set (rr_observations r)" using ref_of_fields(1) by (metis image_eqI)
    with r(2) v(1) show ?thesis by blast
  qed
  ultimately show ?thesis unfolding kept_results_def group_on_keys by blast
qed

lemma reconcile_cases:
  assumes "reconcile rd runs observations c = Inr b"
  shows "\<exists>kept. select_runs (rd_configuration rd) runs c = Inr (rb_selection b) \<and>
    triage (run_by_id runs) (selected_runs (rb_selection b)) c [] (sort_key so_key observations) =
      Inr (kept, rb_excluded_observations b) \<and> kept_results kept (rb_results b)"
  using assms unfolding reconcile_def bindR_eq_Inr guardR_eq_Inr
  by (auto simp: bindR_eq_Inr guardR_eq_Inr Let_def intro: results_of_groups)

lemma run_by_id_mem: "run_by_id runs k = Some r \<Longrightarrow> r \<in> set runs \<and> fr_f5_run_id r = k"
  by (auto simp: run_by_id_def dest!: map_of_SomeD)

text \<open>
  C34: a batch accounts for every observation. The facts come in key order without repeats; every
  observation supplied is either excluded with a reason or counted in the fact of its key, never
  both; and whatever counts in a fact was supplied, carries the configured versions, and comes
  from the one run selected for its document.
\<close>

theorem reconcile_accounts:
  assumes "reconcile rd runs observations c = Inr b"
  shows "sorted (map rr_ef_key (rb_results b)) \<and> distinct (map rr_ef_key (rb_results b)) \<and>
    (\<forall>o' \<in> set observations. so_key o' \<in> fst ` set (rb_excluded_observations b) \<longleftrightarrow>
       \<not> (\<exists>r \<in> set (rb_results b). so_key o' \<in> ob_so_key ` set (rr_observations r))) \<and>
    (\<forall>r \<in> set (rb_results b). \<forall>ob \<in> set (rr_observations r). \<exists>o' \<in> set observations.
       ob_so_key ob = so_key o' \<and> so_ef_key o' = rr_ef_key r \<and> so_versions o' = cf_versions c \<and>
       (\<exists>d \<in> set (sl_documents (rb_selection b)). rs_document_sha256 d = so_document_sha256 o' \<and>
          rs_selected_run d = fr_f5_run_id (so_f5_run o')))"
proof -
  obtain kept where k: "select_runs (rd_configuration rd) runs c = Inr (rb_selection b)"
    "triage (run_by_id runs) (selected_runs (rb_selection b)) c [] (sort_key so_key observations) =
      Inr (kept, rb_excluded_observations b)" "kept_results kept (rb_results b)"
    using reconcile_cases [OF assms] by blast
  have kr: "map rr_ef_key (rb_results b) = sorted_set (map so_ef_key kept)"
    and counts: "\<And>r ob. r \<in> set (rb_results b) \<Longrightarrow> ob \<in> set (rr_observations r) \<Longrightarrow>
      \<exists>o' \<in> set kept. so_ef_key o' = rr_ef_key r \<and> ob_so_key ob = so_key o'"
    and counted_in: "\<And>o'. o' \<in> set kept \<Longrightarrow>
      \<exists>r \<in> set (rb_results b). so_key o' \<in> ob_so_key ` set (rr_observations r)"
    using k(3) unfolding kept_results_def by blast+
  have keys: "sorted (map rr_ef_key (rb_results b)) \<and> distinct (map rr_ef_key (rb_results b))" using kr by simp
  have counted: "(\<exists>r \<in> set (rb_results b). q \<in> ob_so_key ` set (rr_observations r)) \<longleftrightarrow> q \<in> so_key ` set kept" for q
  proof
    assume "\<exists>r \<in> set (rb_results b). q \<in> ob_so_key ` set (rr_observations r)"
    then obtain r ob where "r \<in> set (rb_results b)" "ob \<in> set (rr_observations r)" "q = ob_so_key ob" by blast
    then obtain o' where "o' \<in> set kept" "q = so_key o'" using counts by blast
    then show "q \<in> so_key ` set kept" by simp
  next
    assume "q \<in> so_key ` set kept"
    then obtain o' where "o' \<in> set kept" "q = so_key o'" by blast
    then show "\<exists>r \<in> set (rb_results b). q \<in> ob_so_key ` set (rr_observations r)" using counted_in by blast
  qed
  have "so_key o' \<in> so_key ` set kept \<union> fst ` set (rb_excluded_observations b)" if "o' \<in> set observations" for o'
    using triage_accounts [OF k(2), of o'] that by simp
  moreover have "so_key ` set kept \<inter> fst ` set (rb_excluded_observations b) = {}"
    using triage_distinct [OF k(2)] by auto
  ultimately have split: "\<forall>o' \<in> set observations. so_key o' \<in> fst ` set (rb_excluded_observations b) \<longleftrightarrow>
       \<not> (\<exists>r \<in> set (rb_results b). so_key o' \<in> ob_so_key ` set (rr_observations r))"
    unfolding counted by blast
  have "\<exists>o' \<in> set observations. ob_so_key ob = so_key o' \<and> so_ef_key o' = rr_ef_key r \<and> so_versions o' = cf_versions c \<and>
       (\<exists>d \<in> set (sl_documents (rb_selection b)). rs_document_sha256 d = so_document_sha256 o' \<and>
          rs_selected_run d = fr_f5_run_id (so_f5_run o'))"
    if r: "r \<in> set (rb_results b)" "ob \<in> set (rr_observations r)" for r ob
  proof -
    obtain o' where o': "o' \<in> set kept" "so_ef_key o' = rr_ef_key r" "ob_so_key ob = so_key o'"
      using counts [OF r] by blast
    have t: "o' \<in> set observations" "kept_reason (selected_runs (rb_selection b)) c o' = None"
      "run_by_id runs (fr_f5_run_id (so_f5_run o')) = Some (so_f5_run o')"
      using triage_keeps [OF k(2) o'(1)] by simp_all
    then have v: "so_versions o' = cf_versions c" "fr_f5_run_id (so_f5_run o') \<in> set (selected_runs (rb_selection b))"
      by (auto simp: kept_reason_def split: if_splits)
    then obtain d where d: "d \<in> set (sl_documents (rb_selection b))" "rs_selected_run d = fr_f5_run_id (so_f5_run o')"
      by (auto simp: selected_runs_def)
    obtain q where q: "q \<in> set runs" "fr_document_sha256 q = rs_document_sha256 d" "rs_selected_run d = fr_f5_run_id q"
      using select_runs_sound [OF k(1)] d(1) by meson
    have "\<not> id_clash runs" using k(1) by (auto simp: select_runs_eq guardR_def split: if_splits)
    then have "q = so_f5_run o'"
      using q(1,3) d(2) run_by_id_mem [OF t(3)] by (auto simp: id_clash_def)
    then have "rs_document_sha256 d = so_document_sha256 o'" using q(2) by (simp add: so_document_sha256_def)
    with o' t(1) v(1) d show ?thesis by blast
  qed
  then show ?thesis using keys split by blast
qed

section \<open>A concrete batch\<close>

definition sample_runs :: "f5_run_ref list" where
  "sample_runs = [sample_f5_run ''run d1'' ''d1'']"

lemma sample_selection:
  "\<exists>sel. select_runs cf_reconciliation_version sample_runs sample_configuration = Inr sel \<and> selected_runs sel = [''run d1'']"
  by (simp add: sample_runs_def select_runs_def sample_f5_run_def sample_configuration_def group_on_def sorted_set_def
      refusal_def select_document_def choose_run_def guardR_def recorded_def f3_version_def f4_version_def f5_version_def
      selected_runs_def Let_def)

lemma reconcile_accounts_witness:
  "\<exists>so b r. reconcile plain_reconcile sample_runs [so] sample_configuration = Inr b \<and> r \<in> set (rb_results b) \<and>
     so_key so \<in> ob_so_key ` set (rr_observations r) \<and> rb_excluded_observations b = []"
proof -
  obtain so where so: "observation plain_digests (sample_validation_run ''run d1'' ''d1'') [sample_result 3 (thousands 100)] = Inr so"
    "so_members so = [member_of (sample_result 3 (thousands 100))]" "so_ef_key so = ''ef''"
    "so_f5_run so = sample_f5_run ''run d1'' ''d1''" "so_versions so = implemented"
    using sample_observation [of 100 "''run d1''" "''d1''" 3] by auto
  have sound: "sound_observation (Some ''LKR'') (Some ''currency_amount'') so"
    using observation_sound [OF so(1)] so(2) sample_member_observed [of 100 3] by auto
  have rdy: "ready [so] sample_configuration" using so(5) by (simp add: ready_def sample_configuration_def)
  obtain sel where sel: "select_runs cf_reconciliation_version sample_runs sample_configuration = Inr sel"
    "selected_runs sel = [''run d1'']" using sample_selection by blast
  have t: "triage (run_by_id sample_runs) (selected_runs sel) sample_configuration [] [so] = Inr ([so], [])"
    using so(4,5) sel(2) by (simp add: sample_runs_def run_by_id_def sample_f5_run_def sample_configuration_def guardR_def)
  obtain r where r: "reconcile_fact plain_reconcile [so] sample_configuration (filings_of sel) (others_of [so] [so]) = Inr r"
    using reconcile_fact_sound [of "[so]" "Some ''LKR''" "Some ''currency_amount''"] sound rdy by fastforce
  have "group_on so_ef_key [so] = [(so_ef_key so, [so])]" by (simp add: group_on_def sorted_set_def)
  then obtain b where b: "reconcile plain_reconcile sample_runs [so] sample_configuration = Inr b"
    "rb_excluded_observations b = []"
    using sel(1) t r by (simp add: reconcile_def plain_reconcile_def guardR_def several_validation_runs_def Let_def)
  note acc = reconcile_accounts [OF b(1)]
  have "\<exists>r \<in> set (rb_results b). so_key so \<in> ob_so_key ` set (rr_observations r)" using acc b(2) by auto
  with b show ?thesis by blast
qed

end
