(* ===== verification/AdmissionFacts.thy ===== *)
theory AdmissionFacts
  imports Admission OP1Facts
begin

text \<open>
  What admission promises: a candidate becomes evidence only when every rule holds, the single
  exception being the one F6.1 reason a passing operations partition lifts; the identity it is
  filed under is built from its own validated fields.
\<close>

lemma admit_cases:
  assumes "admit U sha ctx val link records = Inr a"
  shows "ad_reasons a = admission_reasons ctx val link records \<and> (ad_admitted a \<longleftrightarrow> ad_reasons a = []) \<and>
    ad_lifted_reasons a = lifted_of ctx val records \<and>
    (if ad_reasons a = []
     then \<exists>i k. admission_identity (fst (issuer_decision link)) ctx val (identity_scope (cc_reported_scope ctx)) = Inr i \<and>
       ef_key sha i = Inr k \<and> ad_identity a = Some i \<and> ad_ef_key a = Some k \<and>
       ad_value_kind a = a1_value_kind (ineligible_of ctx val records) (cv_normalization_reasons val)
     else ad_identity a = None \<and> ad_ef_key a = None \<and> ad_value_kind a = None)"
  using assms unfolding admit_def Let_def
  by (cases "admission_reasons ctx val link records = []") (auto simp: bindR_eq_Inr)

lemma a1_reasons_Nil:
  "a1_reasons ineligible nrm = [] \<longleftrightarrow> ineligible = [] \<and> (nrm = [] \<or> nrm \<in> set nil_only)"
  by (auto simp: a1_reasons_def)

lemma issuer_decision_ok:
  "snd (issuer_decision link) = [] \<longleftrightarrow>
     (\<exists>l. link = Some l \<and> il_status l = ''evidenced'' \<and> il_basis l \<in> {''listing_symbol_sec_id'', ''both''})"
  by (auto simp: issuer_decision_def admissible_issuer_bases_def split: option.splits)

lemma issuer_decision_id:
  "link = Some l \<Longrightarrow> snd (issuer_decision link) = [] \<Longrightarrow> fst (issuer_decision link) = il_issuer_id l"
  by (auto simp: issuer_decision_def split: if_splits)

text \<open>The partition that judged a section-derived row.\<close>

definition validated_by :: "candidate_context \<Rightarrow> op1_index \<Rightarrow> op1_record \<Rightarrow> bool" where
  "validated_by ctx records r \<longleftrightarrow> (\<exists>k. cc_concept_key ctx = Some k \<and> records (arithmetic_group_key ctx, k) = Some r \<and>
     oc_outcome r = ''pass'' \<and> cc_source_key ctx \<in> set (oc_validated r))"

lemma a3_reasons_Nil:
  "a3_reasons ctx records = [] \<longleftrightarrow>
     cc_operations_basis ctx \<noteq> ''section_label'' \<or> (\<exists>r. validated_by ctx records r)"
  by (auto simp: a3_reasons_def operations_decision_def validated_by_def Let_def split: option.splits)

lemma lifted_of_cases:
  "lifted_of ctx val records = [] \<or>
     lifted_of ctx val records = [op1_liftable] \<and> cc_operations_basis ctx = ''section_label'' \<and>
       (\<exists>r. validated_by ctx records r)"
  by (auto simp: lifted_of_def operations_decision_def validated_by_def Let_def split: option.splits if_splits)

lemma rule_reasons_Nil:
  "rule_reasons ctx val link records = [] \<longleftrightarrow>
     ineligible_of ctx val records = [] \<and>
     (cv_normalization_reasons val = [] \<or> cv_normalization_reasons val \<in> set nil_only) \<and>
     (\<exists>l. link = Some l \<and> il_status l = ''evidenced'' \<and> il_basis l \<in> {''listing_symbol_sec_id'', ''both''}) \<and>
     (cc_operations_basis ctx \<noteq> ''section_label'' \<or> (\<exists>r. validated_by ctx records r)) \<and>
     (is_borrowing ctx \<longrightarrow> in_opt (mr_maturity (cv_maturity val)) [''current'', ''non_current'']) \<and>
     identity_scope (cc_reported_scope ctx) \<noteq> None"
  unfolding rule_reasons_def append_is_Nil_conv a1_reasons_Nil issuer_decision_ok a3_reasons_Nil
  by (simp add: a4_reasons_def a5_reasons_def)

text \<open>The identity of the candidate's own fields: complete, with the scope as reported (unstated scopes are filed as
  unlabelled; no other scope is filed).\<close>

definition identifies :: "issuer_link option \<Rightarrow> candidate_context \<Rightarrow> candidate_validation \<Rightarrow> economic_fact \<Rightarrow> bool" where
  "identifies link ctx val i \<longleftrightarrow>
     map_option il_issuer_id link = Some (Some (ef_issuer_id i)) \<and> cc_concept_key ctx = Some (ef_concept_key i) \<and>
     pr_period_kind (cv_period val) = Some (ef_period_kind i) \<and> pr_end_date (cv_period val) = Some (ef_period_end i) \<and>
     (if ef_period_kind i = ''duration'' then ef_duration_months i = pr_duration_months (cv_period val) \<and> ef_duration_months i \<noteq> None
      else ef_duration_months i = None) \<and>
     (cc_reported_scope ctx = ''unstated'' \<and> ef_scope i = ''unlabelled'' \<or>
      cc_reported_scope ctx \<in> {''group'', ''company'', ''bank''} \<and> ef_scope i = cc_reported_scope ctx) \<and>
     ef_operations i = or_operations (cv_operations val) \<and> vr_currency (cv_value val) = Some (ef_currency i) \<and>
     (if is_borrowing ctx then mr_maturity (cv_maturity val) = Some (ef_maturity i) else ef_maturity i = maturity_not_applicable)"

lemma scope_known:
  "identity_scope s = Some t \<Longrightarrow> s = ''unstated'' \<and> t = ''unlabelled'' \<or> s \<in> {''group'', ''company'', ''bank''} \<and> t = s"
  by (auto simp: identity_scope_def split: if_splits)

lemma admission_identity_Inr:
  assumes "admission_identity issuer ctx val (identity_scope (cc_reported_scope ctx)) = Inr i"
    and "snd (issuer_decision link) = []" and "issuer = fst (issuer_decision link)"
    and "missing_fields issuer ctx val (identity_scope (cc_reported_scope ctx)) = []"
  shows "identifies link ctx val i"
proof -
  let ?p = "cv_period val"
  obtain iss ck pk e sc cu m where parts: "issuer = Some iss" "cc_concept_key ctx = Some ck" "pr_period_kind ?p = Some pk" "pr_end_date ?p = Some e"
      "identity_scope (cc_reported_scope ctx) = Some sc" "vr_currency (cv_value val) = Some cu"
      "(if is_borrowing ctx then mr_maturity (cv_maturity val) = Some m else m = maturity_not_applicable)"
    and made: "mk_identity \<lparr>ef_identity_version = identity_version, ef_issuer_id = iss, ef_concept_key = ck, ef_period_kind = pk,
             ef_period_end = e, ef_duration_months = (if pk = ''duration'' then pr_duration_months ?p else None),
             ef_scope = sc, ef_operations = or_operations (cv_operations val), ef_maturity = m, ef_currency = cu\<rparr> = Inr i"
    using assms(1) unfolding admission_identity_def Let_def bindR_eq_Inr need_simps
    by (elim exE conjE) (rule that; auto split: if_splits)
  have i: "i = \<lparr>ef_identity_version = identity_version, ef_issuer_id = iss, ef_concept_key = ck, ef_period_kind = pk,
             ef_period_end = e, ef_duration_months = (if pk = ''duration'' then pr_duration_months ?p else None),
             ef_scope = sc, ef_operations = or_operations (cv_operations val), ef_maturity = m, ef_currency = cu\<rparr>"
    using conjunct1 [OF mk_identity_well_formed [OF made]] .
  obtain l where l: "link = Some l" using assms(2) by (auto simp: issuer_decision_ok)
  have "il_issuer_id l = Some iss" using issuer_decision_id [OF l assms(2)] assms(3) parts(1) by simp
  moreover have "pk = ''duration'' \<Longrightarrow> pr_duration_months ?p \<noteq> None"
    using assms(4) parts(3) by (auto simp: missing_fields_def split: if_splits)
  ultimately show ?thesis using parts scope_known [OF parts(5)] l by (auto simp: identifies_def i)
qed

text \<open>
  C32: a candidate is admitted exactly when no refusal is recorded, and then every rule held: no
  F6.1 ineligibility is left (the only reason ever set aside is the section-derived operations of
  a total row, and only by a passing partition that validates this very row), the value is
  numeric, or nil with nil as its only normalisation reason, the issuer link is evidenced on a
  basis other than the document path alone, a section-derived operations value was validated by a
  passing partition, borrowings have a maturity, and the reported scope is one the identity knows. The
  candidate is then filed under the complete identity of its own validated fields, with its key.
\<close>

theorem admit_sound:
  assumes "admit U sha ctx val link records = Inr a" and "ad_admitted a"
  shows "ad_reasons a = [] \<and>
    (\<forall>why \<in> set (cv_ineligible_reasons val). why = ''operations_section_derived_on_total_row'' \<and>
       cc_operations_basis ctx = ''section_label'' \<and> (\<exists>r. validated_by ctx records r)) \<and>
    (ad_value_kind a = Some ''numeric'' \<and> cv_normalization_reasons val = [] \<or>
     ad_value_kind a = Some ''nil'' \<and>
       cv_normalization_reasons val \<in> {[''value_reported_nil''], [''value_reported_nil_word'']}) \<and>
    (\<exists>l. link = Some l \<and> il_status l = ''evidenced'' \<and> il_basis l \<in> {''listing_symbol_sec_id'', ''both''}) \<and>
    (cc_operations_basis ctx = ''section_label'' \<longrightarrow> (\<exists>r. validated_by ctx records r)) \<and>
    (is_borrowing ctx \<longrightarrow> in_opt (mr_maturity (cv_maturity val)) [''current'', ''non_current'']) \<and>
    (\<exists>i. ad_identity a = Some i \<and> identifies link ctx val i \<and> ef_key sha i = Inr (the (ad_ef_key a)) \<and> ad_ef_key a \<noteq> None)"
proof -
  note c = admit_cases [OF assms(1)]
  have r: "ad_reasons a = []" using c assms(2) by blast
  then have rr: "rule_reasons ctx val link records = []"
    using c by (auto simp: admission_reasons_def split: if_splits)
  note n = rr [unfolded rule_reasons_Nil]
  have "why = ''operations_section_derived_on_total_row'' \<and> cc_operations_basis ctx = ''section_label'' \<and>
      (\<exists>r. validated_by ctx records r)" if "why \<in> set (cv_ineligible_reasons val)" for why
  proof -
    have "why \<in> set (lifted_of ctx val records)"
      using n that by (auto simp: ineligible_of_def filter_empty_conv)
    then show ?thesis using lifted_of_cases [of ctx val records] by (auto simp: op1_liftable_def)
  qed
  moreover have "ad_value_kind a = Some ''numeric'' \<and> cv_normalization_reasons val = [] \<or>
     ad_value_kind a = Some ''nil'' \<and>
       cv_normalization_reasons val \<in> {[''value_reported_nil''], [''value_reported_nil_word'']}"
    using c r n by (auto simp: a1_value_kind_def nil_only_def)
  moreover have "\<exists>i. ad_identity a = Some i \<and> identifies link ctx val i \<and> ef_key sha i = Inr (the (ad_ef_key a)) \<and> ad_ef_key a \<noteq> None"
  proof -
    obtain i k where i: "admission_identity (fst (issuer_decision link)) ctx val (identity_scope (cc_reported_scope ctx)) = Inr i"
        "ef_key sha i = Inr k" "ad_identity a = Some i" "ad_ef_key a = Some k" using c r by auto
    have "missing_fields (fst (issuer_decision link)) ctx val (identity_scope (cc_reported_scope ctx)) = []"
      using c r rr by (simp add: admission_reasons_def)
    from admission_identity_Inr [OF i(1) _ refl this] show ?thesis using i n issuer_decision_ok by auto
  qed
  ultimately show ?thesis using r n by blast
qed

definition sample_link :: issuer_link where
  "sample_link = \<lparr>il_cse_filing_id = 1, il_status = ''evidenced'', il_basis = ''both'', il_issuer_id = Some ''JKH'',
     il_link_id = None, il_decided_at = None\<rparr>"

definition sample_total :: checked where
  "sample_total = sample_row ''total_or_unstated'' ''none'' 3 (thousands 100)"

lemma sample_total_admitted:
  "\<exists>a. admit ascii_tables id (fst sample_total) (snd sample_total) (Some sample_link) (\<lambda>_. None) = Inr a \<and> ad_admitted a"
proof -
  have d: "operations_decision (fst sample_total) (\<lambda>_. None) = (Some ''none'', None, None, False)"
    by (simp add: sample_total_def operations_decision_def sample_row_fields)
  have i: "issuer_decision (Some sample_link) = (Some ''JKH'', [])"
    by (simp add: issuer_decision_def sample_link_def admissible_issuer_bases_def)
  have s: "identity_scope (cc_reported_scope (fst sample_total)) = Some ''group''"
    by (simp add: sample_total_def sample_row_def sample_context_def identity_scope_def)
  have b: "\<not> is_borrowing (fst sample_total)"
    by (simp add: sample_total_def sample_row_def sample_context_def is_borrowing_def in_opt_def borrowing_concepts_def)
  have r: "admission_reasons (fst sample_total) (snd sample_total) (Some sample_link) (\<lambda>_. None) = []"
    by (simp add: admission_reasons_def rule_reasons_def a3_reasons_def a4_reasons_def a5_reasons_def ineligible_of_def
        lifted_of_def d i s b a1_reasons_def missing_fields_def)
      (simp add: sample_total_def sample_row_def sample_context_def thousands_def sample_value_def)
  have "admission_identity (Some ''JKH'') (fst sample_total) (snd sample_total) (Some ''group'') = mk_identity sample_fact"
    by (simp add: admission_identity_def b Let_def)
      (simp add: sample_total_def sample_row_def sample_context_def thousands_def sample_value_def sample_fact_def identity_version_def
        maturity_not_applicable_def)
  also have "mk_identity sample_fact = Inr sample_fact" by (rule sample_fact_ok)
  finally show ?thesis by (simp add: admit_def r i s ef_key_text Let_def)
qed

lemma admit_sound_witness:
  "\<exists>a. admit ascii_tables id (fst sample_total) (snd sample_total) (Some sample_link) (\<lambda>_. None) = Inr a \<and>
     ad_value_kind a = Some ''numeric'' \<and> map_option ef_scope (ad_identity a) = Some ''group''"
proof -
  obtain a where a: "admit ascii_tables id (fst sample_total) (snd sample_total) (Some sample_link) (\<lambda>_. None) = Inr a"
    "ad_admitted a" using sample_total_admitted by blast
  have "cv_normalization_reasons (snd sample_total) = []" by (simp add: sample_total_def sample_row_def)
  moreover have "cc_reported_scope (fst sample_total) = ''group''" by (simp add: sample_total_def sample_row_def sample_context_def)
  ultimately show ?thesis using admit_sound [OF a] a(1) by (auto simp: identifies_def)
qed

end
