(* ===== verification/Listing.thy ===== *)
theory Listing
  imports Calendar
begin

text \<open>
  CSE listing entries (\<open>report_discovery.py\<close>): reading one entry, the sources of a filing, and the
  merge of the current entries of all sources into one row. Binary floating point
  (\<open>datetime.fromtimestamp(value / 1000)\<close>), JSON printing and SHA-256 are parameters (\<open>reader\<close>);
  the feed's date text is parsed by the model. Warnings are messages only and are not modelled.
\<close>

section \<open>JSON values\<close>

datatype json =
    JNull
  | JBool bool
  | JInt int
  | JFloat string
  | JStr string
  | JArr "json list"
  | JObj "(string \<times> json) list"

type_synonym item = "(string \<times> json) list"

record reader =
  rd_epoch :: "json \<Rightarrow> instant option"
  rd_dump :: "json \<Rightarrow> string"
  rd_hash :: "item \<Rightarrow> string"

section \<open>Constants\<close>

definition feed_endpoint :: string where
  "feed_endpoint = ''getFinancialAnnouncement''"

definition listing_endpoint :: string where
  "listing_endpoint = ''financials''"

definition feed_bucket :: string where
  "feed_bucket = ''none''"

definition listing_buckets :: "(string \<times> string) list" where
  "listing_buckets = [(''infoAnnualData'', ''annual''), (''infoQuarterlyData'', ''quarterly''),
     (''infoOtherData'', ''other''), (''infoWebLink'', ''web_link'')]"

definition listing_non_filing_keys :: "string list" where
  "listing_non_filing_keys = [''reqFinancial'', ''infoCompanyBannerAd'']"

definition hash_fields :: "string list" where
  "hash_fields = [''id'', ''path'', ''path2'', ''manualDate'', ''uploadedDate'', ''authorizedDate'', ''fileText'', ''name'', ''symbol'']"

definition field_keys :: "(string \<times> string) list" where
  "field_keys = [(''file_text'', ''fileText''), (''path'', ''path''), (''path2'', ''path2''), (''manual_date_raw'', ''manualDate''),
     (''uploaded_at'', ''uploadedDate''), (''authorized_at'', ''authorizedDate''), (''source_name'', ''name''),
     (''source_symbol'', ''symbol'')]"

definition timestamp_columns :: "string list" where
  "timestamp_columns = [''uploaded_at'', ''authorized_at'']"

section \<open>The feed's date text\<close>

text \<open>\<open>datetime.strptime(s, "%d %b %Y %I:%M:%S %p")\<close> at UTC+05:30, on text of code points below 256.\<close>

fun words_of :: "string \<Rightarrow> string \<Rightarrow> string list" where
  "words_of w [] = (if w = [] then [] else [rev w])"
| "words_of w (c # cs) = (if is_space c then (if w = [] then words_of [] cs else rev w # words_of [] cs) else words_of (c # w) cs)"

fun split_on :: "char \<Rightarrow> string \<Rightarrow> string \<Rightarrow> string list" where
  "split_on d w [] = [rev w]"
| "split_on d w (c # cs) = (if c = d then rev w # split_on d [] cs else split_on d (c # w) cs)"

definition is_digit :: "char \<Rightarrow> bool" where
  "is_digit c \<longleftrightarrow> CHR ''0'' \<le> c \<and> c \<le> CHR ''9''"

definition digit_value :: "char \<Rightarrow> int" where
  "digit_value c = int (of_char c) - 48"

definition number_of :: "string \<Rightarrow> int" where
  "number_of s = foldl (\<lambda>n c. n * 10 + digit_value c) 0 s"

definition small_number :: "int \<Rightarrow> int \<Rightarrow> string \<Rightarrow> int option" where
  "small_number lo hi s = (if list_all is_digit s \<and> 1 \<le> length s \<and> length s \<le> 2 \<and> lo \<le> number_of s \<and> number_of s \<le> hi
     then Some (number_of s) else None)"

definition lower :: "char \<Rightarrow> char" where
  "lower c = (if is_upper_letter c then char_of (of_char c + 32 :: nat) else c)"

definition month_names :: "(string \<times> int) list" where
  "month_names = [(''jan'', 1), (''feb'', 2), (''mar'', 3), (''apr'', 4), (''may'', 5), (''jun'', 6), (''jul'', 7), (''aug'', 8),
     (''sep'', 9), (''oct'', 10), (''nov'', 11), (''dec'', 12)]"

definition hour24 :: "int \<Rightarrow> string \<Rightarrow> int option" where
  "hour24 h ap = (if map lower ap = ''am'' then Some (if h = 12 then 0 else h)
     else if map lower ap = ''pm'' then Some (if h = 12 then 12 else h + 12) else None)"

definition clock_us :: "string \<Rightarrow> string \<Rightarrow> int option" where
  "clock_us hms ap =
     (case split_on CHR '':'' [] hms of
        [h, m, s] \<Rightarrow>
          (case (small_number 1 12 h, small_number 0 59 m, small_number 0 59 s) of
             (Some h, Some m, Some s) \<Rightarrow> map_option (\<lambda>h. ((h * 60 + m) * 60 + s) * 1000000) (hour24 h ap)
           | _ \<Rightarrow> None)
      | _ \<Rightarrow> None)"

definition feed_day :: "string \<Rightarrow> string \<Rightarrow> string \<Rightarrow> int option" where
  "feed_day d b y =
     (case (small_number 1 31 d, map_of month_names (map lower b)) of
        (Some d, Some m) \<Rightarrow>
          (if list_all is_digit y \<and> length y = 4 \<and> valid_date (Date (number_of y) m d)
           then Some (toordinal (Date (number_of y) m d) - epoch_ordinal) else None)
      | _ \<Rightarrow> None)"

definition feed_time :: "string \<Rightarrow> instant option" where
  "feed_time s =
     (case words_of [] s of
        [d, b, y, hms, ap] \<Rightarrow>
          (case (feed_day d b y, clock_us hms ap) of
             (Some n, Some us) \<Rightarrow> Some (colombo_midnight n + us) | _ \<Rightarrow> None)
      | _ \<Rightarrow> None)"

text \<open>\<open>_parse_timestamp\<close>: the instant, or None, and the raw text.\<close>

definition parse_timestamp :: "reader \<Rightarrow> json \<Rightarrow> instant option \<times> string option" where
  "parse_timestamp rd v =
     (case v of
        JNull \<Rightarrow> (None, None)
      | JBool b \<Rightarrow> (None, Some (if b then ''True'' else ''False''))
      | JInt i \<Rightarrow> (rd_epoch rd v, Some (show_int i))
      | JFloat t \<Rightarrow> (rd_epoch rd v, Some t)
      | JStr s \<Rightarrow> (feed_time (strip s), Some s)
      | _ \<Rightarrow> (None, Some (rd_dump rd v)))"

section \<open>One entry\<close>

datatype field_value = FNone | FText string | FNumber int | FTime instant

record filing_reading =
  fo_filing :: int
  fo_endpoint :: string
  fo_bucket :: string
  fo_query_symbol :: "string option"
  fo_raw_item :: item
  fo_metadata_hash :: string
  fo_fields :: "(string \<times> field_value) list"
  fo_raw_texts :: "(string \<times> string option) list"

definition metadata_hash :: "reader \<Rightarrow> item \<Rightarrow> string" where
  "metadata_hash rd item = rd_hash rd (List.map_filter (\<lambda>k. map_option (Pair k) (map_of item k)) hash_fields)"

text \<open>
  \<open>str.isdigit\<close> also accepts superscripts (code points 178, 179 and 185 below 256); \<open>int\<close> does not
  read them and raises ValueError.
\<close>

definition isdigit_char :: "char \<Rightarrow> bool" where
  "isdigit_char c \<longleftrightarrow> is_digit c \<or> c \<in> {CHR 0xB2, CHR 0xB3, CHR 0xB9}"

definition py_isdigit :: "string \<Rightarrow> bool" where
  "py_isdigit s \<longleftrightarrow> s \<noteq> [] \<and> list_all isdigit_char s"

definition py_int :: "string \<Rightarrow> int res" where
  "py_int s = (if s \<noteq> [] \<and> list_all is_digit s then Inr (number_of s) else Inl ValueErr)"

definition filing_id :: "item \<Rightarrow> int res" where
  "filing_id item =
     (case map_of item ''id'' of
        Some (JInt i) \<Rightarrow> if 0 < i then Inr i else Inl ItemRejected
      | Some (JStr s) \<Rightarrow>
          if py_isdigit (strip s)
          then bindR (py_int (strip s)) (\<lambda>n. if 0 < n then Inr n else Inl ItemRejected) else Inl ItemRejected
      | _ \<Rightarrow> Inl ItemRejected)"

definition time_value :: "instant option \<Rightarrow> field_value" where
  "time_value t = (case t of None \<Rightarrow> FNone | Some i \<Rightarrow> FTime i)"

definition column_value :: "reader \<Rightarrow> string \<Rightarrow> json \<Rightarrow> field_value" where
  "column_value rd column v =
     (if column \<in> set timestamp_columns then time_value (fst (parse_timestamp rd v))
      else if column = ''manual_date_raw'' then (case v of JInt i \<Rightarrow> FNumber i | _ \<Rightarrow> FNone)
      else (case v of JStr s \<Rightarrow> FText s | _ \<Rightarrow> FNone))"

definition read_fields :: "reader \<Rightarrow> item \<Rightarrow> (string \<times> field_value) list" where
  "read_fields rd item =
     List.map_filter (\<lambda>(column, key). map_option (\<lambda>v. (column, column_value rd column v)) (map_of item key)) field_keys"

definition read_raw_texts :: "reader \<Rightarrow> item \<Rightarrow> (string \<times> string option) list" where
  "read_raw_texts rd item =
     List.map_filter (\<lambda>(column, key). if column \<in> set timestamp_columns
       then map_option (\<lambda>v. (column @ ''_raw'', snd (parse_timestamp rd v))) (map_of item key) else None) field_keys"

definition parse_listing_item ::
  "reader \<Rightarrow> json \<Rightarrow> string \<Rightarrow> string \<Rightarrow> string option \<Rightarrow> filing_reading res" where
  "parse_listing_item rd j endpoint bucket query_symbol =
     (case j of
        JObj item \<Rightarrow> bindR (filing_id item) (\<lambda>i. Inr
          \<lparr>fo_filing = i, fo_endpoint = endpoint, fo_bucket = bucket, fo_query_symbol = query_symbol, fo_raw_item = item,
           fo_metadata_hash = metadata_hash rd item, fo_fields = read_fields rd item,
           fo_raw_texts = read_raw_texts rd item\<rparr>)
      | _ \<Rightarrow> Inl ItemRejected)"

section \<open>Sources\<close>

definition source_key_of :: "string \<Rightarrow> string \<Rightarrow> string option \<Rightarrow> string" where
  "source_key_of endpoint bucket query_symbol = endpoint @ ''|'' @ bucket @ ''|'' @ (case query_symbol of None \<Rightarrow> [] | Some s \<Rightarrow> s)"

fun cut_at :: "char \<Rightarrow> string \<Rightarrow> (string \<times> string) option" where
  "cut_at d [] = None"
| "cut_at d (c # cs) = (if c = d then Some ([], cs) else map_option (\<lambda>(a, b). (c # a, b)) (cut_at d cs))"

text \<open>\<open>key.split("|", 2)\<close> unpacked into three parts.\<close>

definition split_source_key :: "string \<Rightarrow> (string \<times> string \<times> string option) res" where
  "split_source_key key =
     (case cut_at CHR ''|'' key of
        None \<Rightarrow> Inl ValueErr
      | Some (endpoint, rest) \<Rightarrow>
          (case cut_at CHR ''|'' rest of
             None \<Rightarrow> Inl ValueErr
           | Some (bucket, q) \<Rightarrow> Inr (endpoint, bucket, if q = [] then None else Some q)))"

definition endpoint_precedence :: "string list" where
  "endpoint_precedence = [listing_endpoint, feed_endpoint]"

definition bucket_precedence :: "string list" where
  "bucket_precedence = [''annual'', ''quarterly'', ''other'', ''web_link'', feed_bucket]"

fun index_in :: "'a list \<Rightarrow> 'a \<Rightarrow> nat" where
  "index_in [] x = 0"
| "index_in (y # ys) x = (if x = y then 0 else Suc (index_in ys x))"

definition precedence :: "string \<Rightarrow> (nat \<times> string \<times> nat \<times> string \<times> string) res" where
  "precedence key = bindR (split_source_key key) (\<lambda>(endpoint, bucket, q).
     Inr (index_in endpoint_precedence endpoint, endpoint, index_in bucket_precedence bucket, bucket,
          case q of None \<Rightarrow> [] | Some s \<Rightarrow> s))"

section \<open>The merged row\<close>

definition values_equal :: "field_value \<Rightarrow> field_value \<Rightarrow> bool" where
  "values_equal a b = (case (a, b) of (FTime s, FTime t) \<Rightarrow> \<bar>s - t\<bar> < 1000000 | _ \<Rightarrow> a = b)"

record normalized_row =
  nr_values :: "(string \<times> field_value) list"
  nr_raw_texts :: "(string \<times> string option) list"
  nr_field_sources :: "(string \<times> string) list"
  nr_endpoints :: "string list"
  nr_buckets :: "string list"
  nr_listing_symbols :: "string list"
  nr_company_id :: "string option"
  nr_company_resolution :: string

record difference =
  df_field :: string
  df_chosen_source :: string
  df_chosen :: field_value
  df_other_source :: string
  df_other :: field_value

type_synonym parsed_sources = "(string \<times> filing_reading) list"

definition providers :: "parsed_sources \<Rightarrow> string \<Rightarrow> (string \<times> filing_reading \<times> field_value) list" where
  "providers parsed column =
     List.map_filter (\<lambda>(k, r). map_option (\<lambda>v. (k, r, v)) (map_of (fo_fields r) column)) parsed"

definition merged_value :: "parsed_sources \<Rightarrow> string \<Rightarrow> field_value" where
  "merged_value parsed column = (case providers parsed column of [] \<Rightarrow> FNone | (k, r, v) # _ \<Rightarrow> v)"

definition merged_raw :: "parsed_sources \<Rightarrow> string \<Rightarrow> string option" where
  "merged_raw parsed column = (case providers parsed column of [] \<Rightarrow> None
     | (k, r, v) # _ \<Rightarrow> (case map_of (fo_raw_texts r) (column @ ''_raw'') of None \<Rightarrow> None | Some t \<Rightarrow> t))"

definition differences_in :: "parsed_sources \<Rightarrow> string \<Rightarrow> difference list" where
  "differences_in parsed column = (case providers parsed column of [] \<Rightarrow> []
     | (k, r, v) # others \<Rightarrow> List.map_filter (\<lambda>(k', r', v'). if values_equal v v' then None
         else Some \<lparr>df_field = column, df_chosen_source = k, df_chosen = v, df_other_source = k', df_other = v'\<rparr>) others)"

definition linkage :: "(string \<Rightarrow> string option) \<Rightarrow> string list \<Rightarrow> string option \<times> string" where
  "linkage companies symbols =
     (case remdups (List.map_filter companies symbols) of
        [] \<Rightarrow> (None, ''unresolved'')
      | [c] \<Rightarrow> (Some c, ''exact_listing_symbol'')
      | _ \<Rightarrow> (None, ''conflict''))"

text \<open>The sources in order of precedence, each read again from its current entry.\<close>

definition ordered_sources :: "(string \<times> json) list \<Rightarrow> (string \<times> json) list res" where
  "ordered_sources items = bindR (mapR (\<lambda>(k, j). bindR (precedence k) (\<lambda>p. Inr (p, k, j))) items) (\<lambda>ranked.
     Inr (map snd (sort_key fst ranked)))"

definition read_source :: "reader \<Rightarrow> string \<times> json \<Rightarrow> (string \<times> filing_reading) res" where
  "read_source rd kj = bindR (split_source_key (fst kj)) (\<lambda>(endpoint, bucket, q).
     bindR (parse_listing_item rd (snd kj) endpoint bucket q) (\<lambda>r. Inr (fst kj, r)))"

definition merge_row :: "(string \<Rightarrow> string option) \<Rightarrow> parsed_sources \<Rightarrow> normalized_row \<times> difference list" where
  "merge_row companies parsed =
     (let columns = map fst field_keys;
          symbols = sorted_set (List.map_filter (\<lambda>(k, r). fo_query_symbol r) parsed);
          link = linkage companies symbols
      in (\<lparr>nr_values = map (\<lambda>c. (c, merged_value parsed c)) columns,
           nr_raw_texts = map (\<lambda>c. (c @ ''_raw'', merged_raw parsed c)) timestamp_columns,
           nr_field_sources = List.map_filter (\<lambda>c. case providers parsed c of [] \<Rightarrow> None | (k, r, v) # _ \<Rightarrow> Some (c, k)) columns,
           nr_endpoints = sort_key (\<lambda>e. (index_in endpoint_precedence e, e)) (remdups (map (\<lambda>(k, r). fo_endpoint r) parsed)),
           nr_buckets = sort_key (\<lambda>b. (if b \<in> set bucket_precedence then index_in bucket_precedence b else 99, b))
             (remdups (filter (\<lambda>b. b \<noteq> feed_bucket) (map (\<lambda>(k, r). fo_bucket r) parsed))),
           nr_listing_symbols = symbols, nr_company_id = fst link, nr_company_resolution = snd link\<rparr>,
          concat (map (differences_in parsed) columns)))"

definition normalize_filing ::
  "reader \<Rightarrow> (string \<times> json) list \<Rightarrow> (string \<Rightarrow> string option) \<Rightarrow> (normalized_row \<times> difference list) res" where
  "normalize_filing rd items companies =
     bindR (ordered_sources items) (\<lambda>sources. bindR (mapR (read_source rd) sources) (\<lambda>parsed.
       Inr (merge_row companies parsed)))"

end
