(* ===== verification/Discovery.thy ===== *)
theory Discovery
  imports Listing
begin

text \<open>
  F1 discovery (\<open>report_discovery.py\<close>): the filing store and \<open>apply_observation\<close>, the responses of
  the two listing endpoints, the summary of one request, and the windows of a date range. The
  network and the wall clock are inputs; the company lookup is a parameter.
\<close>

section \<open>The store\<close>

record listing_version =
  lv_filing :: int
  lv_run :: string
  lv_endpoint :: string
  lv_bucket :: string
  lv_query_symbol :: "string option"
  lv_hash :: string
  lv_raw_item :: item
  lv_observed_at :: instant

record filing_row =
  fw_filing :: int
  fw_row :: normalized_row
  fw_current_versions :: "(string \<times> string) list"
  fw_first_seen_at :: instant
  fw_last_seen_at :: instant
  fw_first_run :: string
  fw_last_run :: string
  fw_metadata_changed_at :: "instant option"

record filing_store =
  fs_filings :: "int \<Rightarrow> filing_row option"
  fs_observations :: "int \<times> string \<times> string \<times> string \<Rightarrow> listing_version option"
  fs_fail_on_ids :: "int list"

definition empty_store :: filing_store where
  "empty_store = \<lparr>fs_filings = (\<lambda>_. None), fs_observations = (\<lambda>_. None), fs_fail_on_ids = []\<rparr>"

text \<open>\<open>d[k] = v\<close>: in place when the key is there, else at the end.\<close>

fun dict_set :: "'k \<Rightarrow> 'v \<Rightarrow> ('k \<times> 'v) list \<Rightarrow> ('k \<times> 'v) list" where
  "dict_set k v [] = [(k, v)]"
| "dict_set k v ((k', v') # d) = (if k' = k then (k, v) # d else (k', v') # dict_set k v d)"

definition key_of_reading :: "filing_reading \<Rightarrow> string" where
  "key_of_reading obs = source_key_of (fo_endpoint obs) (fo_bucket obs) (fo_query_symbol obs)"

definition classify_observation :: "filing_row option \<Rightarrow> filing_reading \<Rightarrow> string" where
  "classify_observation existing obs =
     (case existing of
        None \<Rightarrow> ''new_filing''
      | Some row \<Rightarrow>
          (case map_of (fw_current_versions row) (key_of_reading obs) of
             None \<Rightarrow> ''new_source''
           | Some h \<Rightarrow> if h = fo_metadata_hash obs then ''unchanged'' else ''metadata_changed''))"

definition versions_of :: "filing_row option \<Rightarrow> (string \<times> string) list" where
  "versions_of existing = (case existing of None \<Rightarrow> [] | Some row \<Rightarrow> fw_current_versions row)"

definition stored_item :: "filing_store \<Rightarrow> int \<Rightarrow> string \<times> string \<Rightarrow> (string \<times> json) res" where
  "stored_item st i kh = bindR (split_source_key (fst kh)) (\<lambda>(endpoint, bucket, q).
     case fs_observations st (i, endpoint, bucket, snd kh) of
       None \<Rightarrow> Inl KeyErr | Some lv \<Rightarrow> Inr (fst kh, JObj (lv_raw_item lv)))"

text \<open>\<open>current_items\<close>: this reading's own entry, and the stored entry of every other source.\<close>

definition current_items :: "filing_store \<Rightarrow> filing_reading \<Rightarrow> (string \<times> string) list \<Rightarrow> (string \<times> json) list res" where
  "current_items st obs versions = mapR (\<lambda>kh.
     if fst kh = key_of_reading obs then Inr (fst kh, JObj (fo_raw_item obs)) else stored_item st (fo_filing obs) kh) versions"

definition build_filing_row ::
  "filing_row option \<Rightarrow> filing_reading \<Rightarrow> string \<Rightarrow> (string \<times> string) list \<Rightarrow> normalized_row \<Rightarrow> string \<Rightarrow> instant \<Rightarrow> filing_row" where
  "build_filing_row existing obs outcome versions row run_id now =
     \<lparr>fw_filing = fo_filing obs, fw_row = row, fw_current_versions = versions,
      fw_first_seen_at = (case existing of None \<Rightarrow> now | Some e \<Rightarrow> fw_first_seen_at e), fw_last_seen_at = now,
      fw_first_run = (case existing of None \<Rightarrow> run_id | Some e \<Rightarrow> fw_first_run e), fw_last_run = run_id,
      fw_metadata_changed_at = (if outcome = ''metadata_changed'' then Some now
        else (case existing of None \<Rightarrow> None | Some e \<Rightarrow> fw_metadata_changed_at e))\<rparr>"

definition version_key :: "filing_reading \<Rightarrow> int \<times> string \<times> string \<times> string" where
  "version_key obs = (fo_filing obs, fo_endpoint obs, fo_bucket obs, fo_metadata_hash obs)"

definition version_row :: "filing_reading \<Rightarrow> string \<Rightarrow> instant \<Rightarrow> listing_version" where
  "version_row obs run_id now =
     \<lparr>lv_filing = fo_filing obs, lv_run = run_id, lv_endpoint = fo_endpoint obs, lv_bucket = fo_bucket obs,
      lv_query_symbol = fo_query_symbol obs, lv_hash = fo_metadata_hash obs, lv_raw_item = fo_raw_item obs,
      lv_observed_at = now\<rparr>"

definition store_row :: "filing_store \<Rightarrow> filing_reading \<Rightarrow> filing_row \<Rightarrow> string \<Rightarrow> instant \<Rightarrow> filing_store" where
  "store_row st obs row run_id now =
     st\<lparr>fs_filings := (fs_filings st)(fo_filing obs \<mapsto> row),
        fs_observations := (case fs_observations st (version_key obs) of
          None \<Rightarrow> (fs_observations st)(version_key obs \<mapsto> version_row obs run_id now) | Some _ \<Rightarrow> fs_observations st)\<rparr>"

definition apply_observation ::
  "reader \<Rightarrow> (string \<Rightarrow> string option) \<Rightarrow> filing_store \<Rightarrow> filing_reading \<Rightarrow> string \<Rightarrow> instant \<Rightarrow>
   (string \<times> difference list \<times> filing_store) res" where
  "apply_observation rd companies st obs run_id now =
     guardR (fo_filing obs \<in> set (fs_fail_on_ids st)) RuntimeErr (
     let existing = fs_filings st (fo_filing obs);
         outcome = classify_observation existing obs;
         versions = dict_set (key_of_reading obs) (fo_metadata_hash obs) (versions_of existing)
     in bindR (current_items st obs versions) (\<lambda>items.
        bindR (normalize_filing rd items companies) (\<lambda>(row, diffs).
          Inr (outcome, diffs, store_row st obs (build_filing_row existing obs outcome versions row run_id now) run_id now))))"

section \<open>Responses\<close>

record response =
  rs_ok :: bool
  rs_status :: int
  rs_body :: "json option"

definition extract_feed_items :: "response \<Rightarrow> json list + string" where
  "extract_feed_items r =
     (if \<not> rs_ok r then Inr ''http_failure''
      else (case rs_body r of
          None \<Rightarrow> Inr ''non_json''
        | Some (JObj body) \<Rightarrow>
            (case map_of body ''reqFinancialAnnouncemnets'' of Some (JArr items) \<Rightarrow> Inl items | _ \<Rightarrow> Inr ''unexpected_schema'')
        | Some _ \<Rightarrow> Inr ''unexpected_schema''))"

text \<open>A bucket that is absent or null is skipped; one that is not a list refuses the response.\<close>

fun read_buckets :: "item \<Rightarrow> (string \<times> string) list \<Rightarrow> (string \<times> json list) list option" where
  "read_buckets body [] = Some []"
| "read_buckets body ((key, bucket) # rest) =
     (case map_of body key of
        None \<Rightarrow> read_buckets body rest
      | Some JNull \<Rightarrow> read_buckets body rest
      | Some (JArr items) \<Rightarrow> map_option (Cons (bucket, items)) (read_buckets body rest)
      | Some _ \<Rightarrow> None)"

definition unrecognised_keys :: "item \<Rightarrow> string list" where
  "unrecognised_keys body = sorted_set (map fst (filter (\<lambda>(k, v). (case v of JArr _ \<Rightarrow> True | _ \<Rightarrow> False) \<and>
     k \<notin> fst ` set listing_buckets \<and> k \<notin> set listing_non_filing_keys) body))"

definition extract_listing_buckets :: "response \<Rightarrow> (string \<times> json list) list \<times> string list + string" where
  "extract_listing_buckets r =
     (if \<not> rs_ok r then Inr ''http_failure''
      else (case rs_body r of
          None \<Rightarrow> Inr ''non_json''
        | Some (JObj body) \<Rightarrow>
            if \<not> list_ex (\<lambda>(k, b). map_of body k \<noteq> None) listing_buckets then Inr ''unexpected_schema''
            else (case read_buckets body listing_buckets of
                None \<Rightarrow> Inr ''unexpected_schema'' | Some buckets \<Rightarrow> Inl (buckets, unrecognised_keys body))
        | Some _ \<Rightarrow> Inr ''unexpected_schema''))"

section \<open>One request\<close>

record summary =
  sy_status :: string
  sy_failure :: "string option"
  sy_rows_returned :: nat
  sy_filing_ids :: "int list"
  sy_bucket_counts :: "(string \<times> nat) list"
  sy_duplicate_ids :: "(int \<times> string) list"
  sy_rejected :: "json list"
  sy_item_failures :: "(int \<times> exc) list"
  sy_outcomes :: "(string \<times> nat) list"
  sy_differences :: "(int \<times> difference) list"
  sy_missing_path :: "int list"

definition new_summary :: summary where
  "new_summary = \<lparr>sy_status = [], sy_failure = None, sy_rows_returned = 0, sy_filing_ids = [], sy_bucket_counts = [],
     sy_duplicate_ids = [], sy_rejected = [], sy_item_failures = [], sy_outcomes = [], sy_differences = [],
     sy_missing_path = []\<rparr>"

definition bump :: "'k \<Rightarrow> ('k \<times> nat) list \<Rightarrow> ('k \<times> nat) list" where
  "bump k d = dict_set k (Suc (case map_of d k of None \<Rightarrow> 0 | Some n \<Rightarrow> n)) d"

definition has_path :: "filing_reading \<Rightarrow> bool" where
  "has_path obs = (case map_of (fo_fields obs) ''path'' of Some (FText s) \<Rightarrow> s \<noteq> [] | _ \<Rightarrow> False)"

definition note_reading :: "summary \<Rightarrow> string \<Rightarrow> (int \<times> nat) list \<Rightarrow> filing_reading \<Rightarrow> summary" where
  "note_reading s bucket seen obs =
     s\<lparr>sy_duplicate_ids := (if map_of seen (fo_filing obs) = Some 1
          then dict_set (fo_filing obs) bucket (sy_duplicate_ids s) else sy_duplicate_ids s),
       sy_filing_ids := sy_filing_ids s @ [fo_filing obs], sy_bucket_counts := bump bucket (sy_bucket_counts s),
       sy_missing_path := (if has_path obs then sy_missing_path s else sy_missing_path s @ [fo_filing obs])\<rparr>"

text \<open>\<open>_collect\<close>: only \<open>ItemRejected\<close> is caught; any other exception ends the request.\<close>

fun collect_items ::
  "reader \<Rightarrow> string \<Rightarrow> string \<Rightarrow> string option \<Rightarrow> (int \<times> nat) list \<Rightarrow> summary \<Rightarrow> json list \<Rightarrow> (filing_reading list \<times> summary) res" where
  "collect_items rd endpoint bucket q seen s [] = Inr ([], s)"
| "collect_items rd endpoint bucket q seen s (j # js) =
     (let s1 = s\<lparr>sy_rows_returned := Suc (sy_rows_returned s)\<rparr>
      in case parse_listing_item rd j endpoint bucket q of
           Inl ItemRejected \<Rightarrow> collect_items rd endpoint bucket q seen (s1\<lparr>sy_rejected := sy_rejected s1 @ [j]\<rparr>) js
         | Inl e \<Rightarrow> Inl e
         | Inr obs \<Rightarrow> bindR (collect_items rd endpoint bucket q (bump (fo_filing obs) seen) (note_reading s1 bucket seen obs) js)
             (\<lambda>(rest, s2). Inr (obs # rest, s2)))"

definition collect :: "reader \<Rightarrow> summary \<Rightarrow> json list \<Rightarrow> string \<Rightarrow> string \<Rightarrow> string option \<Rightarrow> (filing_reading list \<times> summary) res" where
  "collect rd s items endpoint bucket q = collect_items rd endpoint bucket q [] s items"

text \<open>\<open>_ingest\<close>: one item's failure does not lose the rest.\<close>

fun ingest ::
  "reader \<Rightarrow> (string \<Rightarrow> string option) \<Rightarrow> filing_store \<Rightarrow> string \<Rightarrow> instant \<Rightarrow> summary \<Rightarrow> filing_reading list \<Rightarrow> filing_store \<times> summary" where
  "ingest rd companies st run_id now s [] = (st, s)"
| "ingest rd companies st run_id now s (obs # rest) =
     (case apply_observation rd companies st obs run_id now of
        Inl e \<Rightarrow> ingest rd companies st run_id now (s\<lparr>sy_item_failures := sy_item_failures s @ [(fo_filing obs, e)]\<rparr>) rest
      | Inr (outcome, diffs, st') \<Rightarrow> ingest rd companies st' run_id now
          (s\<lparr>sy_outcomes := bump outcome (sy_outcomes s),
             sy_differences := sy_differences s @ map (Pair (fo_filing obs)) diffs\<rparr>) rest)"

definition finish :: "summary \<Rightarrow> summary" where
  "finish s = s\<lparr>sy_status := (if sy_failure s \<noteq> None then ''failed''
     else if sy_rejected s \<noteq> [] \<or> sy_item_failures s \<noteq> [] then ''partial'' else ''succeeded'')\<rparr>"

definition discover_feed_window ::
  "reader \<Rightarrow> (string \<Rightarrow> string option) \<Rightarrow> filing_store \<Rightarrow> string \<Rightarrow> instant \<Rightarrow> response \<Rightarrow> (filing_store \<times> summary) res" where
  "discover_feed_window rd companies st run_id now r =
     (case extract_feed_items r of
        Inr category \<Rightarrow> Inr (st, finish (new_summary\<lparr>sy_failure := Some category\<rparr>))
      | Inl items \<Rightarrow> bindR (collect rd new_summary items feed_endpoint feed_bucket None) (\<lambda>(readings, s).
          let (st', s') = ingest rd companies st run_id now s readings in Inr (st', finish s')))"

fun collect_buckets :: "reader \<Rightarrow> string \<Rightarrow> summary \<Rightarrow> (string \<times> json list) list \<Rightarrow> (filing_reading list \<times> summary) res" where
  "collect_buckets rd symbol s [] = Inr ([], s)"
| "collect_buckets rd symbol s ((bucket, items) # rest) =
     bindR (collect rd s items listing_endpoint bucket (Some symbol)) (\<lambda>(readings, s').
     bindR (collect_buckets rd symbol s' rest) (\<lambda>(more, s''). Inr (readings @ more, s'')))"

definition discover_company_listing ::
  "reader \<Rightarrow> (string \<Rightarrow> string option) \<Rightarrow> filing_store \<Rightarrow> string \<Rightarrow> instant \<Rightarrow> string \<Rightarrow> response \<Rightarrow> (filing_store \<times> summary) res" where
  "discover_company_listing rd companies st run_id now symbol r =
     (case extract_listing_buckets r of
        Inr category \<Rightarrow> Inr (st, finish (new_summary\<lparr>sy_failure := Some category\<rparr>))
      | Inl (buckets, _) \<Rightarrow> bindR (collect_buckets rd symbol new_summary buckets) (\<lambda>(readings, s).
          let (st', s') = ingest rd companies st run_id now s readings in Inr (st', finish s')))"

section \<open>Windows of a date range\<close>

definition add_days :: "int \<Rightarrow> int \<Rightarrow> int res" where
  "add_days d n = (if 1 \<le> d + n \<and> d + n \<le> toordinal (Date 9999 12 31) then Inr (d + n) else Inl Overflow)"

text \<open>The generator's loop on day ordinals; it may never end, and None says so.\<close>

partial_function (option) windows_loop :: "int \<Rightarrow> int \<Rightarrow> int \<Rightarrow> (int \<times> int) list res option" where
  "windows_loop chunk start stop =
     (if stop < start then Some (Inr [])
      else case add_days start (chunk - 1) of
          Inl e \<Rightarrow> Some (Inl e)
        | Inr e \<Rightarrow> (case add_days (min stop e) 1 of
              Inl x \<Rightarrow> Some (Inl x)
            | Inr next \<Rightarrow> Option.bind (windows_loop chunk next stop) (\<lambda>rest.
                Some (bindR rest (\<lambda>ws. Inr ((start, min stop e) # ws))))))"

definition date_windows :: "date \<Rightarrow> date \<Rightarrow> int \<Rightarrow> (int \<times> int) list res option" where
  "date_windows from_date to_date chunk_days =
     (if toordinal to_date < toordinal from_date then Some (Inl ValueErr)
      else windows_loop chunk_days (toordinal from_date) (toordinal to_date))"

end
