(* ===== verification/DiscoveryFacts.thy ===== *)
theory DiscoveryFacts
  imports Discovery "HOL-Library.Multiset"
begin

text \<open>
  What discovery promises: source keys round-trip, the merged row depends only on the current entry
  of each source, re-reading an entry changes nothing but when it was last seen, and the windows
  of a range cover it exactly.
\<close>

section \<open>Source keys\<close>

lemma cut_at_join: "d \<notin> set a \<Longrightarrow> cut_at d (a @ d # b) = Some (a, b)"
  by (induction a) auto

lemma cut_at_parts: "cut_at d s = Some (a, b) \<Longrightarrow> s = a @ d # b \<and> d \<notin> set a"
  by (induction s arbitrary: a) (auto split: if_splits)

text \<open>a source key splits back into the endpoint, bucket and query symbol it was made of, whenever
  endpoint and bucket hold no bar and the symbol, if there is one, is not empty (it may hold bars).
\<close>

theorem source_key_roundtrip:
  assumes "CHR ''|'' \<notin> set endpoint" and "CHR ''|'' \<notin> set bucket" and "q \<noteq> Some []"
  shows "split_source_key (source_key_of endpoint bucket q) = Inr (endpoint, bucket, q)"
  using assms by (cases q) (simp_all add: split_source_key_def source_key_of_def cut_at_join)

lemma source_key_roundtrip_witness:
  "split_source_key (source_key_of ''financials'' ''annual'' (Some ''COMB.N0000'')) =
     Inr (''financials'', ''annual'', Some ''COMB.N0000'')"
  by (rule source_key_roundtrip) simp_all

lemma split_source_key_parts:
  assumes "split_source_key k = Inr (e, b, q)"
  shows "k = source_key_of e b q \<and> q \<noteq> Some []"
proof -
  obtain r where r: "cut_at CHR ''|'' k = Some (e, r)" and "\<exists>t. cut_at CHR ''|'' r = Some (b, t) \<and> q = (if t = [] then None else Some t)"
    using assms by (auto simp: split_source_key_def split: option.splits)
  then obtain t where t: "cut_at CHR ''|'' r = Some (b, t)" "q = (if t = [] then None else Some t)" by blast
  then show ?thesis using cut_at_parts [OF r] cut_at_parts [OF t(1)] by (simp add: source_key_of_def)
qed

lemma split_source_key_inject:
  "split_source_key k = Inr p \<Longrightarrow> split_source_key k' = Inr p \<Longrightarrow> k = k'"
  using split_source_key_parts by (cases p) blast

lemma precedence_inject:
  assumes "precedence k = Inr p" and "precedence k' = Inr p"
  shows "k = k'"
proof -
  obtain e b q where s: "split_source_key k = Inr (e, b, q)" "p = (index_in endpoint_precedence e, e, index_in bucket_precedence b, b, case q of None \<Rightarrow> [] | Some s \<Rightarrow> s)"
    using assms(1) by (auto simp: precedence_def bindR_eq_Inr)
  obtain e' b' q' where s': "split_source_key k' = Inr (e', b', q')" "p = (index_in endpoint_precedence e', e', index_in bucket_precedence b', b', case q' of None \<Rightarrow> [] | Some s \<Rightarrow> s)"
    using assms(2) by (auto simp: precedence_def bindR_eq_Inr)
  have "q \<noteq> Some []" "q' \<noteq> Some []"
    using split_source_key_parts [OF s(1)] split_source_key_parts [OF s'(1)] by simp_all
  then have "(e, b, q) = (e', b', q')" using s(2) s'(2) by (auto split: option.splits)
  with s(1) s'(1) show ?thesis using split_source_key_inject [of k _ k'] by simp
qed

section \<open>The merged row\<close>

lemma precedence_error: "precedence k = Inl e \<Longrightarrow> e = ValueErr"
  by (auto simp: precedence_def bindR_eq_Inl split_source_key_def split: option.splits)

definition ranked :: "string \<times> json \<Rightarrow> ((nat \<times> string \<times> nat \<times> string \<times> string) \<times> string \<times> json) res" where
  "ranked = (\<lambda>(k, j). bindR (precedence k) (\<lambda>p. Inr (p, k, j)))"

lemma ranked_Inr: "ranked kj = Inr r \<longleftrightarrow> snd r = kj \<and> precedence (fst kj) = Inr (fst r)"
  by (cases kj; cases r) (auto simp: ranked_def bindR_eq_Inr)

lemma ordered_sources_permuted:
  assumes "mset xs = mset ys" and "distinct (map fst xs)"
  shows "ordered_sources xs = ordered_sources ys"
proof (cases "mapR ranked xs")
  case (Inl e)
  have "mapR ranked xs = Inl ValueErr \<and> mapR ranked ys = Inl ValueErr"
    by (rule mapR_permuted [OF _ mset_eq_setD [OF assms(1)]])
      (use Inl in \<open>auto simp: ranked_def bindR_eq_Inl dest: precedence_error\<close>)
  then show ?thesis by (simp add: ordered_sources_def ranked_def)
next
  case (Inr rs)
  have set: "set xs = set ys" by (rule mset_eq_setD [OF assms(1)])
  have "\<exists>y. ranked x = Inr y" if "x \<in> set ys" for x
    using that mapR_each [OF Inr, of x] set by blast
  then obtain rs' where rs': "mapR ranked ys = Inr rs'" using mapR_total [of ys ranked] by blast
  have snds: "map snd rs = xs" "map snd rs' = ys"
    using mapR_map [OF Inr, of snd id] mapR_map [OF rs', of snd id] by (simp_all add: ranked_Inr)
  have sets: "set rs = set rs'"
    using mapR_Inr_set [OF Inr] mapR_Inr_set [OF rs'] set by blast
  have "distinct (map fst ys)"
    using assms by (metis mset_map mset_eq_imp_distinct_iff)
  then have "distinct rs" "distinct rs'"
    using assms(2) snds by (auto simp: distinct_map)
  moreover have "inj_on fst (set rs)"
  proof (rule inj_onI)
    fix a b assume ab: "a \<in> set rs" "b \<in> set rs" "fst a = fst b"
    then have "precedence (fst (snd a)) = Inr (fst a)" "precedence (fst (snd b)) = Inr (fst a)"
      using mapR_Inr_set [OF Inr] by (auto simp: ranked_Inr)
    then have "fst (snd a) = fst (snd b)" by (rule precedence_inject)
    moreover have "snd a \<in> set xs" "snd b \<in> set xs" using ab(1,2) snds(1) by auto
    ultimately have "snd a = snd b" using assms(2) by (meson distinct_map inj_onD)
    with ab(3) show "a = b" by (simp add: prod_eq_iff)
  qed
  ultimately have "sort_key fst rs = sort_key fst rs'"
    using sort_key_arrival [OF sets] by blast
  then show ?thesis using Inr rs' by (simp add: ordered_sources_def ranked_def)
qed

text \<open>
  The merged row of a filing does not depend on the order in which its sources were read: any
  permutation of the current entries (one per source) gives the same row, the same differences
  or the same error.
\<close>

theorem normalize_filing_order:
  assumes "mset items = mset items'" and "distinct (map fst items)"
  shows "normalize_filing rd items companies = normalize_filing rd items' companies"
  using ordered_sources_permuted [OF assms] by (simp add: normalize_filing_def)

definition plain_reader :: reader where
  "plain_reader = \<lparr>rd_epoch = (\<lambda>j. case j of JInt i \<Rightarrow> Some (i * 1000) | _ \<Rightarrow> None), rd_dump = (\<lambda>_. []),
     rd_hash = (\<lambda>item. concat (map (\<lambda>(k, v). k @ (case v of JInt i \<Rightarrow> ''#'' @ show_int i | JStr t \<Rightarrow> ''='' @ t | _ \<Rightarrow> '';'')) item))\<rparr>"

definition sample_entry :: "int \<Rightarrow> item" where
  "sample_entry ms = [(''id'', JInt 7), (''path'', JStr ''a.pdf''), (''uploadedDate'', JInt ms)]"

definition sample_sources :: "(string \<times> json) list" where
  "sample_sources = [(source_key_of feed_endpoint feed_bucket None, JObj (sample_entry 5)),
     (source_key_of listing_endpoint ''annual'' (Some ''X''), JObj (sample_entry 6))]"

lemma normalize_filing_order_witness:
  "normalize_filing plain_reader sample_sources (\<lambda>_. None) = normalize_filing plain_reader (rev sample_sources) (\<lambda>_. None)"
  by (rule normalize_filing_order) (simp_all add: sample_sources_def source_key_of_def feed_endpoint_def listing_endpoint_def)

section \<open>Windows\<close>

definition max_day :: int where
  "max_day = toordinal (Date 9999 12 31)"

definition window_days :: "(int \<times> int) list \<Rightarrow> int list" where
  "window_days ws = concat (map (\<lambda>(a, b). [a..b]) ws)"

lemma upto_split: "a \<le> b \<Longrightarrow> b \<le> c \<Longrightarrow> [a..b] @ [b + 1..c] = [a..(c::int)]"
  using upto_split2 [of a b c] by simp

lemma windows_loop_cover:
  assumes "1 \<le> chunk"
  shows "1 \<le> start \<Longrightarrow> stop + chunk \<le> max_day \<Longrightarrow> start \<le> stop + 1 \<Longrightarrow>
    \<exists>ws. windows_loop chunk start stop = Some (Inr ws) \<and> window_days ws = [start..stop] \<and>
      (\<forall>(a, b) \<in> set ws. a \<le> b \<and> b - a < chunk)"
proof (induction "nat (stop + 1 - start)" arbitrary: start rule: less_induct)
  case less
  show ?case
  proof (cases "stop < start")
    case True
    then show ?thesis by (simp add: windows_loop.simps window_days_def)
  next
    case False
    let ?e = "min stop (start + (chunk - 1))"
    have steps: "add_days start (chunk - 1) = Inr (start + (chunk - 1))" "add_days ?e 1 = Inr (?e + 1)"
      using less.prems assms False by (auto simp: add_days_def max_day_def [symmetric])
    have "nat (stop + 1 - (?e + 1)) < nat (stop + 1 - start)" "1 \<le> ?e + 1" "?e + 1 \<le> stop + 1"
      using less.prems assms False by auto
    from less.hyps [OF this(1,2) less.prems(2) this(3)] obtain ws where ws:
      "windows_loop chunk (?e + 1) stop = Some (Inr ws)" "window_days ws = [?e + 1..stop]"
      "\<forall>(a, b) \<in> set ws. a \<le> b \<and> b - a < chunk" by blast
    have "windows_loop chunk start stop = Some (Inr ((start, ?e) # ws))"
      using False steps ws(1) by (subst windows_loop.simps) simp
    moreover have "window_days ((start, ?e) # ws) = [start..stop]"
      using ws(2) assms False upto_split [of start ?e stop] by (simp add: window_days_def)
    ultimately show ?thesis using ws(3) assms False by auto
  qed
qed

text \<open>
  Splitting a date range into windows ends, and the windows cover the range exactly: read in
  order, their days are every day from the first to the last, once each, and none is longer
  than the chunk. (It needs a chunk of at least one day, and a last day at least one chunk before
  the end of year 9999, where the code raises OverflowError.)
\<close>

theorem date_windows_cover:
  assumes "1 \<le> chunk" and "1 \<le> toordinal a" and "toordinal a \<le> toordinal b" and "toordinal b + chunk \<le> max_day"
  shows "\<exists>ws. date_windows a b chunk = Some (Inr ws) \<and> window_days ws = [toordinal a..toordinal b] \<and>
    (\<forall>(x, y) \<in> set ws. x \<le> y \<and> y - x < chunk)"
  using windows_loop_cover [OF assms(1,2,4)] assms(3) by (simp add: date_windows_def)

lemma max_day_value: "max_day = 3652059"
  by (simp add: max_day_def toordinal_def days_before_year_def days_before_month_def days_in_month_def leap_year_def upto.simps)

lemma sample_days: "toordinal (Date 2024 2 1) = 738917" "toordinal (Date 2024 3 1) = 738946"
  by (simp_all add: toordinal_def days_before_year_def days_before_month_def days_in_month_def leap_year_def upto.simps)

lemma date_windows_cover_witness:
  "\<exists>ws. date_windows (Date 2024 2 1) (Date 2024 3 1) 31 = Some (Inr ws) \<and> window_days ws = [738917..738946]"
  using date_windows_cover [of 31 "Date 2024 2 1" "Date 2024 3 1"] by (auto simp: sample_days max_day_value)

section \<open>A response with an odd id\<close>

text \<open>
  One listing entry whose id is a superscript digit (such as a superscript two) ends the whole
  request with ValueError: \<open>str.isdigit\<close> accepts it, \<open>int\<close> does not, and only \<open>ItemRejected\<close> is caught;
  the entries before and after it are lost with it.
\<close>

theorem superscript_id_ends_request:
  "collect plain_reader new_summary [JObj (sample_entry 5), JObj [(''id'', JStr [CHR 0xB2])]] feed_endpoint feed_bucket None =
     Inl ValueErr \<and>
   collect plain_reader new_summary [JObj (sample_entry 5), JObj [(''id'', JStr ''x'')]] feed_endpoint feed_bucket None \<noteq>
     Inl ValueErr"
  by (simp add: collect_def parse_listing_item_def filing_id_def sample_entry_def strip_def is_space_def py_isdigit_def
      isdigit_char_def is_digit_def py_int_def Let_def)

end
