(* ===== verification/DiscoveryStore.thy ===== *)
theory DiscoveryStore
  imports DiscoveryFacts "HOL-Library.Countable"
begin

text \<open>
  The filing store as a machine: the states that ingesting readings reaches, the invariant that
  every row is the merge of the current stored versions of its sources, and what reading an
  entry again does.
\<close>

section \<open>What a merge reads of an entry\<close>

definition hashed :: "item \<Rightarrow> item" where
  "hashed item = List.map_filter (\<lambda>k. map_option (Pair k) (map_of item k)) hash_fields"

lemma metadata_hash_hashed: "metadata_hash rd item = rd_hash rd (hashed item)"
  by (simp add: metadata_hash_def hashed_def)

lemma map_of_hashed:
  "distinct ks \<Longrightarrow> k \<in> set ks \<Longrightarrow> map_of (List.map_filter (\<lambda>k. map_option (Pair k) (map_of item k)) ks) k = map_of item k"
proof (induction ks)
  case (Cons a ks)
  have "map_of (List.map_filter (\<lambda>k. map_option (Pair k) (map_of item k)) ks) a = None" if "a \<notin> set ks" for a
    using that by (induction ks) (auto simp: map_filter_simps split: option.splits)
  with Cons show ?case by (auto simp: map_filter_simps split: option.splits)
qed simp

lemma hashed_lookup:
  assumes "hashed a = hashed b" and "k \<in> set hash_fields"
  shows "map_of a k = map_of b k"
proof -
  have "distinct hash_fields" by (simp add: hash_fields_def)
  from map_of_hashed [OF this assms(2)] show ?thesis
    using assms(1) by (metis hashed_def)
qed

lemma map_filter_congr: "(\<And>x. x \<in> set xs \<Longrightarrow> f x = g x) \<Longrightarrow> List.map_filter f xs = List.map_filter g xs"
  by (induction xs) (simp_all add: map_filter_simps split: option.split)

lemma read_keys: "''id'' \<in> set hash_fields" "snd ` set field_keys \<subseteq> set hash_fields"
  by (simp_all add: hash_fields_def field_keys_def)

lemma read_same:
  assumes "hashed a = hashed b"
  shows "filing_id a = filing_id b \<and> read_fields rd a = read_fields rd b \<and> read_raw_texts rd a = read_raw_texts rd b"
proof -
  have k: "map_of a k = map_of b k" if "(c, k) \<in> set field_keys" for c k
  proof -
    have "k \<in> snd ` set field_keys" using that by force
    then have "k \<in> set hash_fields" using read_keys(2) by blast
    then show ?thesis by (rule hashed_lookup [OF assms])
  qed
  have kk: "map_of a (snd x) = map_of b (snd x)" if "x \<in> set field_keys" for x
    using k [of "fst x" "snd x"] that by simp
  have "filing_id a = filing_id b" using hashed_lookup [OF assms read_keys(1)] by (simp add: filing_id_def)
  moreover have "read_fields rd a = read_fields rd b"
    unfolding read_fields_def by (rule map_filter_congr) (simp add: split_beta kk)
  moreover have "read_raw_texts rd a = read_raw_texts rd b"
    unfolding read_raw_texts_def by (rule map_filter_congr) (simp add: split_beta kk)
  ultimately show ?thesis by blast
qed

text \<open>Two readings of one source that merge alike: everything but the raw entry and its hash.\<close>

definition alike :: "string \<times> filing_reading \<Rightarrow> string \<times> filing_reading \<Rightarrow> bool" where
  "alike a b \<longleftrightarrow> fst a = fst b \<and> fo_fields (snd a) = fo_fields (snd b) \<and> fo_raw_texts (snd a) = fo_raw_texts (snd b) \<and>
     fo_endpoint (snd a) = fo_endpoint (snd b) \<and> fo_bucket (snd a) = fo_bucket (snd b) \<and>
     fo_query_symbol (snd a) = fo_query_symbol (snd b)"

definition same_entry :: "string \<times> json \<Rightarrow> string \<times> json \<Rightarrow> bool" where
  "same_entry a b \<longleftrightarrow> fst a = fst b \<and> (\<exists>x y. snd a = JObj x \<and> snd b = JObj y \<and> hashed x = hashed y)"

lemma read_source_same:
  assumes "same_entry a b"
  shows "case (read_source rd a, read_source rd b) of (Inl e, Inl e') \<Rightarrow> e = e' | (Inr r, Inr r') \<Rightarrow> alike r r' | _ \<Rightarrow> False"
proof -
  obtain x y where xy: "snd a = JObj x" "snd b = JObj y" "hashed x = hashed y" "fst a = fst b"
    using assms by (auto simp: same_entry_def)
  note r = read_same [OF xy(3), of rd]
  show ?thesis
    by (cases "split_source_key (fst b)"; cases "filing_id y")
      (auto simp: read_source_def xy parse_listing_item_def r alike_def)
qed

lemma read_sources_same:
  assumes "list_all2 same_entry xs ys"
  shows "case (mapR (read_source rd) xs, mapR (read_source rd) ys) of (Inl e, Inl e') \<Rightarrow> e = e'
    | (Inr r, Inr r') \<Rightarrow> list_all2 alike r r' | _ \<Rightarrow> False"
  using assms
proof (induction rule: list_all2_induct)
  case (Cons x xs y ys)
  with read_source_same [OF Cons(1), of rd] show ?case
    by (auto split: sum.splits simp: bindR_eq_Inr)
qed simp

section \<open>Merging alike readings\<close>

lemma providers_alike:
  assumes "list_all2 alike xs ys"
  shows "list_all2 (\<lambda>(k, r, v) (k', r', v'). k = k' \<and> fo_raw_texts r = fo_raw_texts r' \<and> v = v') (providers xs c) (providers ys c)"
  using assms
  by (induction rule: list_all2_induct) (auto simp: providers_def map_filter_simps alike_def split: option.split)

lemma map_filter_all2: "list_all2 (\<lambda>a b. f a = g b) as bs \<Longrightarrow> List.map_filter f as = List.map_filter g bs"
  by (induction rule: list_all2_induct) (simp_all add: map_filter_simps split: option.split)

lemma merge_alike:
  assumes "list_all2 alike xs ys"
  shows "merge_row companies xs = merge_row companies ys"
proof -
  note p = providers_alike [OF assms]
  have "merged_value xs c = merged_value ys c" for c
    using p [of c] by (auto simp: merged_value_def split: list.split)
  moreover have "merged_raw xs c = merged_raw ys c" for c
    using p [of c] by (auto simp: merged_raw_def split: list.split)
  moreover have "(case providers xs c of [] \<Rightarrow> None | (k, r, v) # _ \<Rightarrow> Some (c, k)) =
      (case providers ys c of [] \<Rightarrow> None | (k, r, v) # _ \<Rightarrow> Some (c, k))" for c
    using p [of c] by (auto split: list.split)
  moreover have "differences_in xs = differences_in ys"
  proof
    fix c show "differences_in xs c = differences_in ys c"
    using p [of c]
    by (auto simp: differences_in_def split: list.split intro!: map_filter_all2 elim!: list_all2_mono)
  qed
  moreover have "map (\<lambda>(k, r). fo_endpoint r) xs = map (\<lambda>(k, r). fo_endpoint r) ys"
    "map (\<lambda>(k, r). fo_bucket r) xs = map (\<lambda>(k, r). fo_bucket r) ys"
    using assms by (induction rule: list_all2_induct) (auto simp: alike_def)
  moreover have "List.map_filter (\<lambda>(k, r). fo_query_symbol r) xs = List.map_filter (\<lambda>(k, r). fo_query_symbol r) ys"
    by (rule map_filter_all2, rule list_all2_mono [OF assms]) (auto simp: alike_def)
  ultimately show ?thesis by (simp add: merge_row_def Let_def)
qed

lemma ordered_sources_same:
  assumes "list_all2 same_entry xs ys"
  shows "case (ordered_sources xs, ordered_sources ys) of (Inl e, Inl e') \<Rightarrow> e = e'
    | (Inr r, Inr r') \<Rightarrow> list_all2 same_entry r r' | _ \<Rightarrow> False"
proof -
  have "case (mapR ranked xs, mapR ranked ys) of (Inl e, Inl e') \<Rightarrow> e = e'
      | (Inr r, Inr r') \<Rightarrow> list_all2 (\<lambda>a b. fst a = fst b \<and> same_entry (snd a) (snd b)) r r' | _ \<Rightarrow> False"
    using assms
  proof (induction rule: list_all2_induct)
    case (Cons x xs y ys)
    have "fst x = fst y" using Cons(1) by (simp add: same_entry_def)
    then show ?case using Cons(1,3)
      by (cases "precedence (fst y)") (auto simp: ranked_def bindR_eq_Inr split_beta split: sum.splits)
  qed simp
  moreover have "list_all2 same_entry (map snd (sort_key fst r)) (map snd (sort_key fst r'))"
    if "list_all2 (\<lambda>a b. fst a = fst b \<and> same_entry (snd a) (snd b)) r r'"
    for r r' :: "((nat \<times> string \<times> nat \<times> string \<times> string) \<times> string \<times> json) list"
  proof -
    have ins: "list_all2 (\<lambda>a b. fst a = fst b \<and> same_entry (snd a) (snd b)) (insort_key fst a as) (insort_key fst b bs)"
      if "list_all2 (\<lambda>a b. fst a = fst b \<and> same_entry (snd a) (snd b)) as bs" "fst a = fst b" "same_entry (snd a) (snd b)"
      for as bs and a b :: "(nat \<times> string \<times> nat \<times> string \<times> string) \<times> string \<times> json"
      using that(1) by (induction rule: list_all2_induct) (use that(2,3) in auto)
    have "list_all2 (\<lambda>a b. fst a = fst b \<and> same_entry (snd a) (snd b)) (sort_key fst r) (sort_key fst r')"
      using that by (induction rule: list_all2_induct) (auto simp: sort_key_def intro: ins)
    then show ?thesis by (simp add: list_all2_map1 list_all2_map2 list_all2_mono)
  qed
  ultimately show ?thesis
    unfolding ordered_sources_def ranked_def [symmetric] by (auto simp: bindR_eq_Inr split: sum.splits)
qed

lemma normalize_same:
  assumes "list_all2 same_entry xs ys"
  shows "normalize_filing rd xs companies = normalize_filing rd ys companies"
proof (cases "ordered_sources xs")
  case (Inl e)
  then show ?thesis using ordered_sources_same [OF assms] by (auto simp: normalize_filing_def split: sum.splits)
next
  case (Inr r)
  then obtain r' where r': "ordered_sources ys = Inr r'" "list_all2 same_entry r r'"
    using ordered_sources_same [OF assms] by (auto split: sum.splits)
  show ?thesis
    using Inr r'(1) read_sources_same [OF r'(2), of rd] merge_alike
    by (cases "mapR (read_source rd) r"; cases "mapR (read_source rd) r'") (auto simp: normalize_filing_def)
qed

section \<open>Reachable stores\<close>

definition plain_name :: "string \<Rightarrow> bool" where
  "plain_name s \<longleftrightarrow> CHR ''|'' \<notin> set s"

text \<open>The stores that applying readings of listing entries reaches from the empty one.\<close>

inductive reached :: "reader \<Rightarrow> (string \<Rightarrow> string option) \<Rightarrow> filing_store \<Rightarrow> bool" for rd companies where
  start: "reached rd companies empty_store"
| applied: "reached rd companies st \<Longrightarrow> parse_listing_item rd (JObj item) endpoint bucket q = Inr obs \<Longrightarrow>
    plain_name endpoint \<Longrightarrow> plain_name bucket \<Longrightarrow> q \<noteq> Some [] \<Longrightarrow>
    apply_observation rd companies st obs run_id now = Inr (outcome, diffs, st') \<Longrightarrow> reached rd companies st'"

definition row_current :: "reader \<Rightarrow> (string \<Rightarrow> string option) \<Rightarrow> filing_store \<Rightarrow> int \<Rightarrow> filing_row \<Rightarrow> bool" where
  "row_current rd companies st i row \<longleftrightarrow> distinct (map fst (fw_current_versions row)) \<and>
     (\<exists>items diffs. mapR (stored_item st i) (fw_current_versions row) = Inr items \<and>
        normalize_filing rd items companies = Inr (fw_row row, diffs))"

definition hashes_stored :: "reader \<Rightarrow> filing_store \<Rightarrow> bool" where
  "hashes_stored rd st \<longleftrightarrow> (\<forall>i e b h lv. fs_observations st (i, e, b, h) = Some lv \<longrightarrow> metadata_hash rd (lv_raw_item lv) = h)"

lemma dict_set_fst: "map fst (dict_set k v d) = (if k \<in> fst ` set d then map fst d else map fst d @ [k])"
proof (induction d)
  case (Cons p d)
  then show ?case by (cases p; cases "fst p = k") simp_all
qed simp

lemma dict_set_distinct: "distinct (map fst d) \<Longrightarrow> distinct (map fst (dict_set k v d))"
  by (simp add: dict_set_fst)

lemma set_dict_set: "distinct (map fst d) \<Longrightarrow> set (dict_set k v d) = insert (k, v) {p \<in> set d. fst p \<noteq> k}"
  by (induction d) force+

lemma dict_set_again: "distinct (map fst d) \<Longrightarrow> dict_set k v (dict_set k v d) = dict_set k v d"
  by (induction d) auto

section \<open>Every row is current\<close>

lemma observations_grow:
  "fs_observations st k = Some lv \<Longrightarrow> fs_observations (store_row st obs row run_id now) k = Some lv"
  by (auto simp: store_row_def split: option.splits)

lemma stored_item_grows:
  assumes "stored_item st i kh = Inr x"
  shows "stored_item (store_row st obs row run_id now) i kh = Inr x"
proof -
  obtain e b q lv where "split_source_key (fst kh) = Inr (e, b, q)" "fs_observations st (i, e, b, snd kh) = Some lv"
    "x = (fst kh, JObj (lv_raw_item lv))"
    using assms by (auto simp: stored_item_def bindR_eq_Inr split: option.splits)
  then show ?thesis using observations_grow by (simp add: stored_item_def)
qed

lemma stored_items_grow:
  "mapR (stored_item st i) khs = Inr items \<Longrightarrow> mapR (stored_item (store_row st obs row run_id now) i) khs = Inr items"
  by (induction khs arbitrary: items) (auto simp: bindR_eq_Inr dest: stored_item_grows)

lemma own_item_stored:
  assumes "split_source_key (key_of_reading obs) = Inr (fo_endpoint obs, fo_bucket obs, q)"
  shows "\<exists>item. stored_item (store_row st obs row run_id now) (fo_filing obs) (key_of_reading obs, fo_metadata_hash obs) =
      Inr (key_of_reading obs, JObj item) \<and>
    (item = fo_raw_item obs \<or> (\<exists>lv. fs_observations st (version_key obs) = Some lv \<and> item = lv_raw_item lv))"
  using assms by (auto simp: stored_item_def store_row_def version_key_def version_row_def split: option.split)

lemma items_alike:
  assumes items: "current_items st obs versions = Inr items"
    and key: "split_source_key (key_of_reading obs) = Inr (fo_endpoint obs, fo_bucket obs, q)"
    and own: "\<And>v. (key_of_reading obs, v) \<in> set versions \<Longrightarrow> v = fo_metadata_hash obs"
    and hashed: "\<And>lv. fs_observations st (version_key obs) = Some lv \<Longrightarrow> hashed (lv_raw_item lv) = hashed (fo_raw_item obs)"
    and st': "st' = store_row st obs row run_id now"
  shows "\<exists>items'. mapR (stored_item st' (fo_filing obs)) versions = Inr items' \<and> list_all2 same_entry items items'"
  using items own
proof (induction versions arbitrary: items)
  case Nil
  then show ?case by (simp add: current_items_def)
next
  case (Cons kh khs)
  let ?f = "\<lambda>kh. if fst kh = key_of_reading obs then Inr (fst kh, JObj (fo_raw_item obs)) else stored_item st (fo_filing obs) kh"
  obtain x xs where x: "?f kh = Inr x" "current_items st obs khs = Inr xs" "items = x # xs"
    using Cons.prems(1) by (auto simp: current_items_def bindR_eq_Inr)
  obtain ys where ys: "mapR (stored_item st' (fo_filing obs)) khs = Inr ys" "list_all2 same_entry xs ys"
    using Cons.IH [OF x(2)] Cons.prems(2) by auto
  have "\<exists>y. stored_item st' (fo_filing obs) kh = Inr y \<and> same_entry x y"
  proof (cases "fst kh = key_of_reading obs")
    case True
    then have kh: "kh = (key_of_reading obs, fo_metadata_hash obs)" using Cons.prems(2) by (cases kh) auto
    obtain item where "stored_item st' (fo_filing obs) kh = Inr (key_of_reading obs, JObj item)"
      "hashed item = hashed (fo_raw_item obs)"
      using own_item_stored [OF key, of st row run_id now] hashed unfolding st' kh by metis
    then show ?thesis using x(1) True by (auto simp: same_entry_def)
  next
    case False
    then have s: "stored_item st (fo_filing obs) kh = Inr x" using x(1) by simp
    then have "same_entry x x" by (auto simp: stored_item_def same_entry_def bindR_eq_Inr split: prod.splits option.splits)
    with stored_item_grows [OF s] show ?thesis unfolding st' by blast
  qed
  with ys x(3) show ?case by auto
qed

lemma apply_observation_cases:
  assumes "apply_observation rd companies st obs run_id now = Inr (outcome, diffs, st')"
  shows "\<exists>versions items row. versions = dict_set (key_of_reading obs) (fo_metadata_hash obs) (versions_of (fs_filings st (fo_filing obs))) \<and>
    current_items st obs versions = Inr items \<and> normalize_filing rd items companies = Inr (row, diffs) \<and>
    outcome = classify_observation (fs_filings st (fo_filing obs)) obs \<and>
    st' = store_row st obs (build_filing_row (fs_filings st (fo_filing obs)) obs outcome versions row run_id now) run_id now"
  using assms unfolding apply_observation_def guardR_eq_Inr Let_def by (auto simp: bindR_eq_Inr)

lemma reading_of_entry:
  assumes "parse_listing_item rd (JObj item) endpoint bucket q = Inr obs" "plain_name endpoint" "plain_name bucket" "q \<noteq> Some []"
  shows "split_source_key (key_of_reading obs) = Inr (fo_endpoint obs, fo_bucket obs, q)"
    "fo_metadata_hash obs = metadata_hash rd (fo_raw_item obs)"
proof -
  have f: "fo_endpoint obs = endpoint" "fo_bucket obs = bucket" "fo_query_symbol obs = q"
    "fo_metadata_hash obs = metadata_hash rd (fo_raw_item obs)"
    using assms(1) by (auto simp: parse_listing_item_def bindR_eq_Inr)
  show "split_source_key (key_of_reading obs) = Inr (fo_endpoint obs, fo_bucket obs, q)"
    using assms(2-4) by (cases q) (simp_all add: f key_of_reading_def split_source_key_def source_key_of_def cut_at_join plain_name_def)
  show "fo_metadata_hash obs = metadata_hash rd (fo_raw_item obs)" by (fact f(4))
qed

lemma hashes_step:
  assumes "hashes_stored rd st" and "fo_metadata_hash obs = metadata_hash rd (fo_raw_item obs)"
  shows "hashes_stored rd (store_row st obs row run_id now)"
proof -
  have "metadata_hash rd (lv_raw_item lv) = h"
    if "fs_observations (store_row st obs row run_id now) (i, e, b, h) = Some lv" for i e b h lv
  proof (cases "fs_observations st (i, e, b, h)")
    case (Some l)
    then have "l = lv" using observations_grow [OF Some] that by simp
    with Some assms(1) show ?thesis unfolding hashes_stored_def by blast
  next
    case None
    then have "(i, e, b, h) = version_key obs" "lv = version_row obs run_id now"
      using that by (auto simp: store_row_def split: option.splits if_splits)
    then show ?thesis using assms(2) by (simp add: version_key_def version_row_def)
  qed
  then show ?thesis unfolding hashes_stored_def by blast
qed

definition store_current :: "reader \<Rightarrow> (string \<Rightarrow> string option) \<Rightarrow> filing_store \<Rightarrow> bool" where
  "store_current rd companies st \<longleftrightarrow> hashes_stored rd st \<and>
     (\<forall>i row. fs_filings st i = Some row \<longrightarrow> row_current rd companies st i row)"

lemma applied_current:
  assumes cur: "store_current rd companies st"
    and p: "parse_listing_item rd (JObj item) endpoint bucket q = Inr obs" "plain_name endpoint" "plain_name bucket" "q \<noteq> Some []"
    and ap: "apply_observation rd companies st obs run_id now = Inr (outcome, diffs, st')"
    and inj: "\<And>a b. metadata_hash rd a = metadata_hash rd b \<Longrightarrow> hashed a = hashed b"
  shows "store_current rd companies st'"
proof -
  note r = reading_of_entry [OF p]
  let ?i = "fo_filing obs"
  obtain versions items row where a: "versions = dict_set (key_of_reading obs) (fo_metadata_hash obs) (versions_of (fs_filings st ?i))"
    "current_items st obs versions = Inr items" "normalize_filing rd items companies = Inr (row, diffs)"
    "st' = store_row st obs (build_filing_row (fs_filings st ?i) obs outcome versions row run_id now) run_id now"
    using apply_observation_cases [OF ap] by blast
  have d: "distinct (map fst (versions_of (fs_filings st ?i)))"
    using cur by (auto simp: versions_of_def store_current_def row_current_def split: option.split)
  have own: "v = fo_metadata_hash obs" if "(key_of_reading obs, v) \<in> set versions" for v
    using that set_dict_set [OF d] unfolding a(1) by auto
  have same: "hashed (lv_raw_item lv) = hashed (fo_raw_item obs)" if "fs_observations st (version_key obs) = Some lv" for lv
  proof (rule inj)
    have "metadata_hash rd (lv_raw_item lv) = fo_metadata_hash obs"
      using cur that unfolding store_current_def hashes_stored_def version_key_def by blast
    then show "metadata_hash rd (lv_raw_item lv) = metadata_hash rd (fo_raw_item obs)" using r(2) by simp
  qed
  obtain items' where i': "mapR (stored_item st' ?i) versions = Inr items'" "list_all2 same_entry items items'"
    using items_alike [OF a(2) r(1) own same a(4)] by blast
  have here: "row_current rd companies st' ?i (build_filing_row (fs_filings st ?i) obs outcome versions row run_id now)"
  proof -
    have "normalize_filing rd items' companies = Inr (row, diffs)"
      using normalize_same [OF i'(2), of rd companies] a(3) by simp
    moreover have "distinct (map fst versions)" unfolding a(1) by (rule dict_set_distinct [OF d])
    ultimately show ?thesis using i'(1) by (simp add: row_current_def build_filing_row_def)
  qed
  have "row_current rd companies st' i rw" if "fs_filings st' i = Some rw" for i rw
  proof (cases "i = ?i")
    case True
    then have "rw = build_filing_row (fs_filings st ?i) obs outcome versions row run_id now" using that by (simp add: a(4) store_row_def)
    with here True show ?thesis by simp
  next
    case False
    then have "fs_filings st i = Some rw" using that by (simp add: a(4) store_row_def)
    then have "row_current rd companies st i rw" using cur by (simp add: store_current_def)
    then show ?thesis unfolding row_current_def a(4) using stored_items_grow by blast
  qed
  moreover have "hashes_stored rd st'"
    using hashes_step [OF _ r(2)] cur unfolding a(4) store_current_def by blast
  ultimately show ?thesis unfolding store_current_def by blast
qed

lemma reached_current:
  assumes "reached rd companies st" and "\<And>a b. metadata_hash rd a = metadata_hash rd b \<Longrightarrow> hashed a = hashed b"
  shows "store_current rd companies st"
  using assms(1)
proof induction
  case start
  then show ?case by (simp add: store_current_def hashes_stored_def empty_store_def)
next
  case (applied st item endpoint bucket q obs run_id now outcome diffs st')
  from applied.IH applied.hyps(2-6) assms(2) show ?case by (rule applied_current)
qed

text \<open>
  C36: in every store that ingesting listing entries reaches, each filing's row is exactly the merge of
  the stored current version of each of its sources, one version per source. Whatever order the
  sources were ingested in, nothing else survives in the row. (The metadata hash must not
  collide, as SHA-256 is taken not to.)
\<close>

theorem discovery_rows_current:
  assumes "reached rd companies st" and "\<forall>a b. metadata_hash rd a = metadata_hash rd b \<longrightarrow> hashed a = hashed b"
    and "fs_filings st i = Some row"
  shows "distinct (map fst (fw_current_versions row)) \<and>
    (\<exists>items diffs. mapR (stored_item st i) (fw_current_versions row) = Inr items \<and>
       normalize_filing rd items companies = Inr (fw_row row, diffs))"
proof -
  have "store_current rd companies st" by (rule reached_current [OF assms(1)]) (use assms(2) in blast)
  then have "row_current rd companies st i row" using assms(3) unfolding store_current_def by blast
  then show ?thesis unfolding row_current_def .
qed

section \<open>A concrete store\<close>

instance json :: countable
  by countable_datatype

definition numbering_reader :: reader where
  "numbering_reader = \<lparr>rd_epoch = (\<lambda>j. case j of JInt i \<Rightarrow> Some (i * 1000) | _ \<Rightarrow> None), rd_dump = (\<lambda>_. []),
     rd_hash = (\<lambda>item. replicate (to_nat item) CHR ''a'')\<rparr>"

lemma numbering_hash: "metadata_hash numbering_reader a = metadata_hash numbering_reader b \<Longrightarrow> hashed a = hashed b"
proof -
  assume "metadata_hash numbering_reader a = metadata_hash numbering_reader b"
  then have "length (replicate (to_nat (hashed a)) CHR ''a'') = length (replicate (to_nat (hashed b)) CHR ''a'')"
    by (simp add: metadata_hash_hashed numbering_reader_def)
  then show ?thesis by simp
qed

definition sample_reading :: filing_reading where
  "sample_reading = \<lparr>fo_filing = 7, fo_endpoint = listing_endpoint, fo_bucket = ''annual'', fo_query_symbol = Some ''X'',
     fo_raw_item = sample_entry 6, fo_metadata_hash = metadata_hash numbering_reader (sample_entry 6),
     fo_fields = read_fields numbering_reader (sample_entry 6), fo_raw_texts = read_raw_texts numbering_reader (sample_entry 6)\<rparr>"

lemma sample_reading_parsed:
  "parse_listing_item numbering_reader (JObj (sample_entry 6)) listing_endpoint ''annual'' (Some ''X'') = Inr sample_reading"
  by (simp add: parse_listing_item_def sample_reading_def filing_id_def sample_entry_def)

lemma sample_names: "plain_name listing_endpoint" "plain_name ''annual''" "Some ''X'' \<noteq> Some []"
  by (simp_all add: plain_name_def listing_endpoint_def)

lemma sample_applied:
  "\<exists>diffs st. apply_observation numbering_reader (\<lambda>_. None) empty_store sample_reading run_id now = Inr (''new_filing'', diffs, st) \<and>
     (\<exists>row. fs_filings st 7 = Some row)"
proof -
  have key: "split_source_key (key_of_reading sample_reading) = Inr (listing_endpoint, ''annual'', Some ''X'')"
    using reading_of_entry(1) [OF sample_reading_parsed sample_names] by (simp add: sample_reading_def)
  have "read_source numbering_reader (key_of_reading sample_reading, JObj (sample_entry 6)) = Inr (key_of_reading sample_reading, sample_reading)"
    using key sample_reading_parsed by (simp add: read_source_def)
  moreover have "ordered_sources [(key_of_reading sample_reading, JObj (sample_entry 6))] = Inr [(key_of_reading sample_reading, JObj (sample_entry 6))]"
    using key by (simp add: ordered_sources_def precedence_def)
  ultimately have "normalize_filing numbering_reader [(key_of_reading sample_reading, JObj (sample_entry 6))] (\<lambda>_. None) =
      Inr (merge_row (\<lambda>_. None) [(key_of_reading sample_reading, sample_reading)])"
    by (simp add: normalize_filing_def)
  moreover have "fo_raw_item sample_reading = sample_entry 6" "fo_filing sample_reading = 7" by (simp_all add: sample_reading_def)
  ultimately show ?thesis
    by (cases "merge_row (\<lambda>_. None) [(key_of_reading sample_reading, sample_reading)]")
      (simp add: apply_observation_def empty_store_def guardR_def versions_of_def current_items_def classify_observation_def
        store_row_def Let_def)
qed

lemma discovery_rows_current_witness:
  "\<exists>st row. reached numbering_reader (\<lambda>_. None) st \<and> fs_filings st 7 = Some row \<and>
     (\<exists>items diffs. mapR (stored_item st 7) (fw_current_versions row) = Inr items \<and>
        normalize_filing numbering_reader items (\<lambda>_. None) = Inr (fw_row row, diffs))"
proof -
  obtain diffs st row where st: "apply_observation numbering_reader (\<lambda>_. None) empty_store sample_reading ''r'' 0 =
      Inr (''new_filing'', diffs, st)" "fs_filings st 7 = Some row"
    using sample_applied by blast
  have r: "reached numbering_reader (\<lambda>_. None) st"
    by (rule applied [OF start sample_reading_parsed sample_names st(1)])
  have "\<forall>a b. metadata_hash numbering_reader a = metadata_hash numbering_reader b \<longrightarrow> hashed a = hashed b"
    using numbering_hash by blast
  from discovery_rows_current [OF r this st(2)] r st(2) show ?thesis by blast
qed

section \<open>Reading an entry again\<close>

lemma current_items_again:
  assumes "current_items st obs versions = Inr items"
  shows "current_items (store_row st obs row run_id now) obs versions = Inr items"
  using assms by (induction versions arbitrary: items)
    (auto simp: current_items_def bindR_eq_Inr stored_item_grows split: if_splits)

text \<open>
  Reading an entry again changes nothing but the bookkeeping. After a reading was applied, applying
  it again at any later run succeeds and reports unchanged, with the same differences; the stored
  listing versions stay the same, every other filing stays the same, and this filing keeps its
  merged row, its versions, when it was first seen and when its metadata last changed.
\<close>

theorem rediscovery_idempotent:
  assumes "reached rd companies st" and "\<forall>a b. metadata_hash rd a = metadata_hash rd b \<longrightarrow> hashed a = hashed b"
    and "apply_observation rd companies st obs run_id now = Inr (outcome, diffs, st1)"
  shows "\<exists>st2 r1 r2. apply_observation rd companies st1 obs run_id' now' = Inr (''unchanged'', diffs, st2) \<and>
    fs_observations st2 = fs_observations st1 \<and> (\<forall>j. j \<noteq> fo_filing obs \<longrightarrow> fs_filings st2 j = fs_filings st1 j) \<and>
    fs_filings st1 (fo_filing obs) = Some r1 \<and> fs_filings st2 (fo_filing obs) = Some r2 \<and>
    fw_row r2 = fw_row r1 \<and> fw_current_versions r2 = fw_current_versions r1 \<and>
    fw_first_seen_at r2 = fw_first_seen_at r1 \<and> fw_metadata_changed_at r2 = fw_metadata_changed_at r1 \<and>
    fw_last_seen_at r2 = now' \<and> fw_last_run r2 = run_id'"
proof -
  let ?i = "fo_filing obs" and ?k = "key_of_reading obs" and ?h = "fo_metadata_hash obs"
  have cur: "store_current rd companies st" by (rule reached_current [OF assms(1)]) (use assms(2) in blast)
  obtain versions items row where a: "versions = dict_set ?k ?h (versions_of (fs_filings st ?i))"
    "current_items st obs versions = Inr items" "normalize_filing rd items companies = Inr (row, diffs)"
    and st1: "st1 = store_row st obs (build_filing_row (fs_filings st ?i) obs outcome versions row run_id now) run_id now"
    using apply_observation_cases [OF assms(3)] by blast
  let ?r1 = "build_filing_row (fs_filings st ?i) obs outcome versions row run_id now"
  have d: "distinct (map fst (versions_of (fs_filings st ?i)))"
    using cur by (auto simp: versions_of_def store_current_def row_current_def split: option.split)
  have r1: "fs_filings st1 ?i = Some ?r1" by (simp add: st1 store_row_def)
  have v: "fw_current_versions ?r1 = versions" "fw_row ?r1 = row" by (simp_all add: build_filing_row_def)
  have "map_of versions ?k = Some ?h"
  proof (rule map_of_is_SomeI)
    show "distinct (map fst versions)" unfolding a(1) by (rule dict_set_distinct [OF d])
    show "(?k, ?h) \<in> set versions" unfolding a(1) set_dict_set [OF d] by simp
  qed
  then have unchanged: "classify_observation (fs_filings st1 ?i) obs = ''unchanged''"
    by (simp add: r1 classify_observation_def v)
  have again: "dict_set ?k ?h (versions_of (fs_filings st1 ?i)) = versions"
    unfolding r1 versions_of_def option.case v(1) unfolding a(1) by (rule dict_set_again [OF d])
  have items: "current_items st1 obs versions = Inr items"
    unfolding st1 by (rule current_items_again [OF a(2)])
  let ?r2 = "build_filing_row (Some ?r1) obs ''unchanged'' versions row run_id' now'"
  have "?i \<notin> set (fs_fail_on_ids st1)"
    using assms(3) by (auto simp: apply_observation_def guardR_def st1 store_row_def split: if_splits)
  then have "apply_observation rd companies st1 obs run_id' now' = Inr (''unchanged'', diffs, store_row st1 obs ?r2 run_id' now')"
    using unchanged again items a(3) by (simp add: apply_observation_def guardR_def r1 Let_def)
  moreover have "fs_observations (store_row st1 obs ?r2 run_id' now') = fs_observations st1"
    by (auto simp: st1 store_row_def split: option.splits)
  moreover have "fs_filings (store_row st1 obs ?r2 run_id' now') ?i = Some ?r2" by (simp add: store_row_def)
  moreover have "fs_filings (store_row st1 obs ?r2 run_id' now') j = fs_filings st1 j" if "j \<noteq> ?i" for j
    using that by (simp add: store_row_def)
  moreover have "fw_row ?r2 = fw_row ?r1" "fw_current_versions ?r2 = fw_current_versions ?r1"
    "fw_first_seen_at ?r2 = fw_first_seen_at ?r1" "fw_metadata_changed_at ?r2 = fw_metadata_changed_at ?r1"
    "fw_last_seen_at ?r2 = now'" "fw_last_run ?r2 = run_id'"
    by (simp_all add: build_filing_row_def)
  ultimately show ?thesis using r1 by blast
qed

lemma rediscovery_idempotent_witness:
  "\<exists>st1 st2 diffs. apply_observation numbering_reader (\<lambda>_. None) empty_store sample_reading ''r'' 0 = Inr (''new_filing'', diffs, st1) \<and>
     apply_observation numbering_reader (\<lambda>_. None) st1 sample_reading ''s'' 9 = Inr (''unchanged'', diffs, st2)"
proof -
  obtain diffs st where st: "apply_observation numbering_reader (\<lambda>_. None) empty_store sample_reading ''r'' 0 =
      Inr (''new_filing'', diffs, st)"
    using sample_applied by blast
  have "\<forall>a b. metadata_hash numbering_reader a = metadata_hash numbering_reader b \<longrightarrow> hashed a = hashed b"
    using numbering_hash by blast
  from rediscovery_idempotent [OF start this st, of "''s''" 9] st show ?thesis by blast
qed

end
