(* ===== verification/AsofModel.thy ===== *)
theory AsofModel
  imports Discovery Reconcile
begin

text \<open>
  The evidence an as-of query reads (\<open>financial_asof/model.py\<close>, \<open>times.py\<close>, \<open>versions.py\<close>): one record per
  append-only row with its recorded time, the checked collection of all rows, and its indexes.
  A time is an instant, the microseconds since the epoch in UTC; a Colombo calendar day is its day
  count. The checks on naive or textual timestamps are checks of the type and are not modelled.
\<close>

section \<open>The Colombo day\<close>

definition colombo_end_of_day :: "int \<Rightarrow> instant" where
  "colombo_end_of_day d = colombo_midnight (d + 1)"

definition is_colombo_midnight :: "instant \<Rightarrow> bool" where
  "is_colombo_midnight t \<longleftrightarrow> colombo_midnight (colombo_day t) = t"

section \<open>Rule versions\<close>

record rule_versions =
  rv_selection :: string
  rv_availability :: string
  rv_supersession :: string
  rv_knowledge :: string

definition selection_version :: string where
  "selection_version = ''f8.selection.1''"

definition availability_version :: string where
  "availability_version = ''f8.availability.1''"

definition supersession_version :: string where
  "supersession_version = ''f8.supersession.1''"

definition knowledge_version :: string where
  "knowledge_version = ''f8.knowledge.1''"

definition implemented_rules :: rule_versions where
  "implemented_rules = \<lparr>rv_selection = selection_version, rv_availability = availability_version,
     rv_supersession = supersession_version, rv_knowledge = knowledge_version\<rparr>"

section \<open>Rows\<close>

record listing_row =
  lo_id :: string
  lo_filing :: int
  lo_run :: "string option"
  lo_endpoint :: string
  lo_bucket :: string
  lo_query_symbol :: "string option"
  lo_hash :: string
  lo_raw_item :: json
  lo_observed_at :: instant

record classification_row =
  cl_id :: string
  cl_filing :: int
  cl_sha :: string
  cl_classified_at :: instant
  cl_document_type :: "string option"
  cl_document_type_status :: "string option"
  cl_underlying_type :: "string option"
  cl_underlying_type_status :: "string option"

record decision_row =
  de_id :: int
  de_filing :: int
  de_status :: string
  de_basis :: string
  de_issuer :: "string option"
  de_decided_at :: instant

record extraction_run =
  xr_ref :: f5_run_ref
  xr_classification_id :: string
  xr_recorded_at :: instant
  xr_last_modified :: "instant option"
  xr_path_epoch :: "instant option"
  xr_retrieved_at :: "instant option"

definition xr_id :: "extraction_run \<Rightarrow> string" where
  "xr_id r = fr_f5_run_id (xr_ref r)"

definition xr_filing :: "extraction_run \<Rightarrow> int" where
  "xr_filing r = fr_cse_filing_id (xr_ref r)"

definition xr_sha :: "extraction_run \<Rightarrow> string" where
  "xr_sha r = fr_document_sha256 (xr_ref r)"

definition mk_extraction_run :: "extraction_run \<Rightarrow> extraction_run res" where
  "mk_extraction_run r = guardR (fr_recorded_at (xr_ref r) \<noteq> Some (xr_recorded_at r)) EvidenceError (Inr r)"

record validation_row =
  vw_key :: string
  vw_f5_run_id :: string
  vw_filing :: int
  vw_sha :: string
  vw_issuer_link_id :: "int option"
  vw_publication :: "instant option"
  vw_versions :: version_set
  vw_recorded_at :: instant

record stored_observation =
  sb_so :: source_observation
  sb_recorded_at :: instant

definition sb_key :: "stored_observation \<Rightarrow> string" where
  "sb_key s = so_key (sb_so s)"

definition sb_ef_key :: "stored_observation \<Rightarrow> string" where
  "sb_ef_key s = so_ef_key (sb_so s)"

definition sb_validation_run :: "stored_observation \<Rightarrow> string" where
  "sb_validation_run s = so_validation_run_key (sb_so s)"

definition sb_f5_run :: "stored_observation \<Rightarrow> string" where
  "sb_f5_run s = fr_f5_run_id (so_f5_run (sb_so s))"

definition sb_sha :: "stored_observation \<Rightarrow> string" where
  "sb_sha s = so_document_sha256 (sb_so s)"

definition sb_filing :: "stored_observation \<Rightarrow> int" where
  "sb_filing s = so_cse_filing_id (sb_so s)"

definition sb_identity :: "stored_observation \<Rightarrow> economic_fact" where
  "sb_identity s = so_identity (sb_so s)"

record f6_row =
  f6_id :: string
  f6_configuration :: "configuration option"
  f6_recorded_at :: instant

record designation_row =
  dg_id :: int
  dg_purpose :: string
  dg_configuration_id :: string
  dg_recorded_at :: instant

record f8_configuration =
  fc_f6_configuration_id :: string
  fc_rules :: rule_versions

record f8_row =
  f8_id :: string
  f8_configuration :: "f8_configuration option"
  f8_json :: string
  f8_recorded_at :: instant

record stored_record =
  sr_id :: int
  sr_ef_key :: string
  sr_recorded_at :: instant
  sr_result :: reconciliation_result

record stored_batch =
  bt_id :: string
  bt_configuration_id :: string
  bt_issuer :: string
  bt_sequence :: int
  bt_recorded_at :: instant
  bt_output_hash :: string
  bt_records :: "stored_record list option"

definition mk_stored_batch :: "stored_batch \<Rightarrow> stored_batch" where
  "mk_stored_batch b = b\<lparr>bt_records := map_option (sort_key sr_ef_key) (bt_records b)\<rparr>"

section \<open>The evidence\<close>

record evidence =
  ev_listings :: "listing_row list"
  ev_classifications :: "classification_row list"
  ev_decisions :: "decision_row list"
  ev_runs :: "extraction_run list"
  ev_validations :: "validation_row list"
  ev_observations :: "stored_observation list"
  ev_f6_configurations :: "f6_row list"
  ev_f6_designations :: "designation_row list"
  ev_f8_configurations :: "f8_row list"
  ev_f8_designations :: "designation_row list"
  ev_batches :: "stored_batch list"

text \<open>\<open>_unique\<close>: two different rows under one key are refused; repeats are one row.\<close>

definition unique_rows :: "('r \<Rightarrow> 'k) \<Rightarrow> 'r list \<Rightarrow> 'r list res" where
  "unique_rows key rows =
     guardR (list_ex (\<lambda>(a, b). key a = key b \<and> a \<noteq> b) (later_pairs rows)) EvidenceError (Inr (rev (remdups (rev rows))))"

definition mk_evidence :: "evidence \<Rightarrow> evidence res" where
  "mk_evidence ev =
     bindR (unique_rows lo_id (ev_listings ev)) (\<lambda>listings.
     bindR (unique_rows cl_id (ev_classifications ev)) (\<lambda>classifications.
     bindR (unique_rows de_id (ev_decisions ev)) (\<lambda>decisions.
     bindR (unique_rows xr_id (ev_runs ev)) (\<lambda>runs.
     bindR (unique_rows vw_key (ev_validations ev)) (\<lambda>validations.
     bindR (unique_rows sb_key (ev_observations ev)) (\<lambda>observations.
     bindR (unique_rows f6_id (ev_f6_configurations ev)) (\<lambda>f6.
     bindR (unique_rows dg_id (ev_f6_designations ev)) (\<lambda>t9.
     bindR (unique_rows f8_id (ev_f8_configurations ev)) (\<lambda>f8.
     bindR (unique_rows dg_id (ev_f8_designations ev)) (\<lambda>d8.
     bindR (unique_rows bt_id (ev_batches ev)) (\<lambda>batches.
       Inr \<lparr>ev_listings = listings, ev_classifications = classifications, ev_decisions = decisions, ev_runs = runs,
            ev_validations = validations, ev_observations = observations, ev_f6_configurations = f6,
            ev_f6_designations = sort_key dg_id t9, ev_f8_configurations = f8, ev_f8_designations = sort_key dg_id d8,
            ev_batches = sort_key (\<lambda>b. (bt_configuration_id b, bt_issuer b, bt_sequence b)) batches\<rparr>)))))))))))"

text \<open>The row under a key: \<open>dict.get\<close>.\<close>

definition row_of :: "('r \<Rightarrow> 'k) \<Rightarrow> 'r list \<Rightarrow> 'k \<Rightarrow> 'r option" where
  "row_of key rows k = find (\<lambda>r. key r = k) rows"

definition listings_of :: "evidence \<Rightarrow> int \<Rightarrow> listing_row list" where
  "listings_of ev i = sort_key (\<lambda>o'. (lo_observed_at o', lo_id o')) (filter (\<lambda>o'. lo_filing o' = i) (ev_listings ev))"

definition decisions_of :: "evidence \<Rightarrow> int \<Rightarrow> decision_row list" where
  "decisions_of ev i = sort_key de_id (filter (\<lambda>d. de_filing d = i) (ev_decisions ev))"

definition runs_of_filing :: "evidence \<Rightarrow> int \<Rightarrow> extraction_run list" where
  "runs_of_filing ev i = sort_key (\<lambda>r. (xr_recorded_at r, xr_id r)) (filter (\<lambda>r. xr_filing r = i) (ev_runs ev))"

definition runs_of_document :: "evidence \<Rightarrow> string \<Rightarrow> extraction_run list" where
  "runs_of_document ev sha = sort_key (\<lambda>r. (xr_recorded_at r, xr_id r)) (filter (\<lambda>r. xr_sha r = sha) (ev_runs ev))"

definition validations_of :: "evidence \<Rightarrow> string \<Rightarrow> validation_row list" where
  "validations_of ev run_id = sort_key (\<lambda>v. (vw_recorded_at v, vw_key v)) (filter (\<lambda>v. vw_f5_run_id v = run_id) (ev_validations ev))"

definition filings_known :: "evidence \<Rightarrow> int list" where
  "filings_known ev = sorted_set (map lo_filing (ev_listings ev) @ map xr_filing (ev_runs ev) @ map de_filing (ev_decisions ev))"

definition observations_of :: "evidence \<Rightarrow> string \<Rightarrow> stored_observation list" where
  "observations_of ev k = sort_key sb_key (filter (\<lambda>s. sb_validation_run s = k) (ev_observations ev))"

text \<open>A stored entry F1 would reject is an error of the evidence.\<close>

definition as_evidence :: "'a res \<Rightarrow> 'a res" where
  "as_evidence m = (case m of Inl ItemRejected \<Rightarrow> Inl EvidenceError | _ \<Rightarrow> m)"

end
