(* ===== verification/Availability.thy ===== *)
theory Availability
  imports AsofModel
begin

text \<open>
  f8.availability.1 (\<open>financial_asof/availability.py\<close>): when CSE made a document version public, as known
  at an evidence horizon. The digest of the evidence is a parameter.
\<close>

definition filing_fields :: "(string \<times> string) list" where
  "filing_fields = [(''upload'', ''uploaded_at''), (''authorization'', ''authorized_at'')]"

record source_instant =
  si_kind :: string
  si_observation_id :: string
  si_source :: string
  si_endpoint :: string
  si_raw :: "string option"
  si_value :: instant
  si_effective :: instant
  si_precision :: string

record filing_avail =
  fa_filing :: int
  fa_horizon :: instant
  fa_at :: "instant option"
  fa_precision :: "string option"
  fa_basis :: "string list"
  fa_instants :: "source_instant list"
  fa_flags :: "string list"
  fa_observation_ids :: "string list"

record version_avail =
  va_filing :: int
  va_sha :: string
  va_horizon :: instant
  va_at :: "instant option"
  va_precision :: "string option"
  va_role :: string
  va_basis :: string
  va_flags :: "string list"
  va_of_filing :: filing_avail
  va_last_modified :: "instant option"
  va_path_epoch :: "instant option"
  va_run_ids :: "string list"
  va_evidence_hash :: string

record document_avail =
  da_sha :: string
  da_at :: "instant option"
  da_precision :: "string option"
  da_versions :: "version_avail list"
  da_flags :: "string list"

section \<open>One listing observation\<close>

definition effective_time :: "instant \<Rightarrow> instant" where
  "effective_time t = (if is_colombo_midnight t then colombo_end_of_day (colombo_day t) else t)"

definition instant_in :: "listing_row \<Rightarrow> filing_reading \<Rightarrow> string \<times> string \<Rightarrow> source_instant option" where
  "instant_in o' r kn =
     (case map_of (fo_fields r) (snd kn) of
        Some (FTime t) \<Rightarrow> Some \<lparr>si_kind = fst kn, si_observation_id = lo_id o',
          si_source = source_key_of (lo_endpoint o') (lo_bucket o') (lo_query_symbol o'), si_endpoint = lo_endpoint o',
          si_raw = (case map_of (fo_raw_texts r) (snd kn @ ''_raw'') of None \<Rightarrow> None | Some t \<Rightarrow> t),
          si_value = t, si_effective = effective_time t,
          si_precision = (if is_colombo_midnight t then ''day'' else ''instant'')\<rparr>
      | _ \<Rightarrow> None)"

text \<open>The (source, kind, value) triples an entry states, an unusable value included.\<close>

definition stated_in :: "listing_row \<Rightarrow> filing_reading \<Rightarrow> string \<times> string \<Rightarrow> (string \<times> string \<times> instant option) option" where
  "stated_in o' r kn =
     map_option (\<lambda>v. (source_key_of (lo_endpoint o') (lo_bucket o') (lo_query_symbol o'), fst kn,
       case v of FTime t \<Rightarrow> Some t | _ \<Rightarrow> None)) (map_of (fo_fields r) (snd kn))"

definition instants_of ::
  "reader \<Rightarrow> listing_row \<Rightarrow> (source_instant list \<times> (string \<times> string \<times> instant option) list) res" where
  "instants_of rd o' =
     bindR (as_evidence (parse_listing_item rd (lo_raw_item o') (lo_endpoint o') (lo_bucket o') (lo_query_symbol o'))) (\<lambda>r.
       Inr (List.map_filter (instant_in o' r) filing_fields, List.map_filter (stated_in o' r) filing_fields))"

section \<open>One filing\<close>

definition evidence_changed :: "(string \<times> string \<times> instant option) list \<Rightarrow> bool" where
  "evidence_changed stated \<longleftrightarrow> list_ex (\<lambda>(s, k, v). list_ex (\<lambda>(s', k', v'). s = s' \<and> k = k' \<and> v \<noteq> v') stated) stated"

definition sources_disagree :: "source_instant list \<Rightarrow> bool" where
  "sources_disagree instants \<longleftrightarrow> list_ex (\<lambda>a. list_ex (\<lambda>b. si_kind a = si_kind b \<and> si_endpoint a = feed_endpoint \<and>
     si_endpoint b = listing_endpoint \<and> 1000000 \<le> \<bar>si_value a - si_value b\<bar>) instants) instants"

definition rows_by :: "evidence \<Rightarrow> int \<Rightarrow> instant \<Rightarrow> listing_row list" where
  "rows_by ev i h = known_by lo_observed_at h (listings_of ev i)"

definition conclude_filing ::
  "int \<Rightarrow> instant \<Rightarrow> listing_row list \<Rightarrow> source_instant list \<Rightarrow> (string \<times> string \<times> instant option) list \<Rightarrow> filing_avail" where
  "conclude_filing i h rows found stated =
     (let instants = sort_key (\<lambda>s. (si_effective s, si_kind s, si_observation_id s)) found;
          top = filter (\<lambda>s. Some (si_effective s) = max_on id (map si_effective instants)) instants
      in \<lparr>fa_filing = i, fa_horizon = h, fa_at = max_on id (map si_effective instants),
          fa_precision = (if instants = [] then None
            else Some (if list_ex (\<lambda>s. si_precision s = ''instant'') top then ''instant'' else ''day'')),
          fa_basis = sorted_set (map si_kind top), fa_instants = instants,
          fa_flags = sorted_set ((if evidence_changed stated then [''availability_evidence_changed''] else []) @
            (if sources_disagree instants then [''availability_sources_disagree''] else [])),
          fa_observation_ids = sort (map lo_id rows)\<rparr>)"

definition filing_availability :: "reader \<Rightarrow> evidence \<Rightarrow> int \<Rightarrow> instant \<Rightarrow> filing_avail res" where
  "filing_availability rd ev i h =
     bindR (mapR (instants_of rd) (rows_by ev i h)) (\<lambda>pairs.
       Inr (conclude_filing i h (rows_by ev i h) (concat (map fst pairs)) (concat (map snd pairs))))"

section \<open>One version\<close>

definition versions_of_filing :: "evidence \<Rightarrow> int \<Rightarrow> instant \<Rightarrow> (string \<times> extraction_run list) list" where
  "versions_of_filing ev i h = group_on xr_sha (known_by xr_recorded_at h (runs_of_filing ev i))"

definition first_retrieval :: "extraction_run list \<Rightarrow> instant option" where
  "first_retrieval runs = min_on id (List.map_filter xr_retrieved_at runs)"

text \<open>\<open>_roles\<close>: the base version is the one F2 retrieved strictly first.\<close>

definition role_in :: "(string \<times> extraction_run list) list \<Rightarrow> string \<Rightarrow> string" where
  "role_in versions sha =
     (if length versions = 1 then ''base''
      else if list_ex (\<lambda>(s, runs). first_retrieval runs = None) versions then ''unordered''
      else (let firsts = List.map_filter (\<lambda>(s, runs). map_option (Pair s) (first_retrieval runs)) versions;
                earliest = min_on id (map snd firsts);
                leaders = filter (\<lambda>(s, t). Some t = earliest) firsts
            in if length leaders \<noteq> 1 then ''unordered''
               else if fst (hd leaders) = sha then ''base'' else ''later''))"

definition latest :: "instant option list \<Rightarrow> instant option" where
  "latest ts = max_on id (List.map_filter id ts)"

record asof_digests =
  xd_evidence :: "int \<times> string \<times> string list \<times> (string \<times> string \<times> string option \<times> instant) list \<times>
     (string \<times> string \<times> instant \<times> instant option \<times> instant option \<times> instant option) list \<Rightarrow> string"

definition evidence_hash :: "asof_digests \<Rightarrow> filing_avail \<Rightarrow> string \<Rightarrow> (string \<times> extraction_run list) list \<Rightarrow> string" where
  "evidence_hash xd fa sha versions =
     xd_evidence xd (fa_filing fa, sha, fa_observation_ids fa,
       map (\<lambda>s. (si_observation_id s, si_kind s, si_raw s, si_value s)) (fa_instants fa),
       map (\<lambda>r. (xr_id r, xr_sha r, xr_recorded_at r, xr_last_modified r, xr_path_epoch r, xr_retrieved_at r))
         (sort_key xr_id (concat (map snd versions))))"

text \<open>Rule A-5: instant, precision and basis of a version.\<close>

definition version_time ::
  "filing_avail \<Rightarrow> string \<Rightarrow> instant option \<Rightarrow> instant option \<Rightarrow> instant option \<times> string option \<times> string" where
  "version_time fa role last_modified path_epoch =
     (case fa_at fa of
        None \<Rightarrow> (None, None, ''no_cse_instant'')
      | Some t \<Rightarrow>
          if role = ''base'' then (Some t, fa_precision fa, ''filing_instants'')
          else (case latest [last_modified, path_epoch] of
              None \<Rightarrow> (None, None, ''later_version_without_document_time'')
            | Some d \<Rightarrow> (Some (max t d),
                if Some (max t d) \<in> {last_modified, path_epoch} then Some ''instant'' else fa_precision fa, ''later_version'')))"

definition modified_after_upload :: "filing_avail \<Rightarrow> instant option \<Rightarrow> bool" where
  "modified_after_upload fa last_modified \<longleftrightarrow>
     (case (last_modified, max_on id (map si_effective (filter (\<lambda>s. si_kind s = ''upload'') (fa_instants fa)))) of
        (Some m, Some up) \<Rightarrow> up < m | _ \<Rightarrow> False)"

definition version_availability ::
  "reader \<Rightarrow> asof_digests \<Rightarrow> evidence \<Rightarrow> int \<Rightarrow> string \<Rightarrow> instant \<Rightarrow> version_avail res" where
  "version_availability rd xd ev i sha h =
     bindR (filing_availability rd ev i h) (\<lambda>fa.
     let versions = versions_of_filing ev i h
     in case map_of versions sha of
          None \<Rightarrow> Inl EvidenceError
        | Some runs \<Rightarrow>
            (let role = role_in versions sha; lm = latest (map xr_last_modified runs); ep = latest (map xr_path_epoch runs);
                 tpb = version_time fa role lm ep
             in Inr \<lparr>va_filing = i, va_sha = sha, va_horizon = h, va_at = fst tpb, va_precision = fst (snd tpb), va_role = role,
                     va_basis = snd (snd tpb),
                     va_flags = sorted_set (fa_flags fa @ (if modified_after_upload fa lm then [''last_modified_after_upload''] else []) @
                       (if fst tpb = None then [''availability_unknown''] else [])),
                     va_of_filing = fa, va_last_modified = lm, va_path_epoch = ep, va_run_ids = sort (map xr_id runs),
                     va_evidence_hash = evidence_hash xd fa sha versions\<rparr>))"

section \<open>One document\<close>

text \<open>Rule A-6: the earliest known availability among the versions that count.\<close>

definition document_availability :: "string \<Rightarrow> version_avail list \<Rightarrow> document_avail" where
  "document_availability sha vs =
     (let versions = sort_key va_filing vs; at' = min_on id (List.map_filter va_at versions);
          flags = filter (\<lambda>f. f \<noteq> ''availability_unknown'') (concat (map va_flags versions))
      in \<lparr>da_sha = sha, da_at = at',
          da_precision = (if at' = None then None
            else Some (if list_ex (\<lambda>v. va_at v = at' \<and> va_precision v = Some ''instant'') versions then ''instant'' else ''day'')),
          da_versions = versions,
          da_flags = sorted_set (flags @ (if at' = None then [''availability_unknown''] else []))\<rparr>)"

end
