(* ===== verification/AvailabilityFacts.thy ===== *)
theory AvailabilityFacts
  imports Availability DiscoveryFacts ObservationFacts
begin

text \<open>
  Facts about f8.availability.1: a filing's availability never moves earlier as evidence grows, a version is never
  available before its filing, and the one way a version's own availability can still move earlier.
\<close>

section \<open>Filings\<close>

lemma filing_instants:
  assumes "filing_availability rd ev i h = Inr a"
  shows "s \<in> set (fa_instants a) \<longleftrightarrow>
      (\<exists>o' \<in> set (listings_of ev i). lo_observed_at o' \<le> h \<and> (\<exists>p. instants_of rd o' = Inr p \<and> s \<in> set (fst p)))"
    and "fa_at a = max_on id (map si_effective (fa_instants a))"
proof -
  obtain pairs where pairs: "mapR (instants_of rd) (rows_by ev i h) = Inr pairs"
    and a: "a = conclude_filing i h (rows_by ev i h) (concat (map fst pairs)) (concat (map snd pairs))"
    using assms by (auto simp: filing_availability_def bindR_eq_Inr)
  show "fa_at a = max_on id (map si_effective (fa_instants a))"
    by (simp add: a conclude_filing_def Let_def)
  have "s \<in> set (fa_instants a) \<longleftrightarrow> (\<exists>p \<in> set pairs. s \<in> set (fst p))"
    by (simp add: a conclude_filing_def Let_def)
  also have "\<dots> \<longleftrightarrow> (\<exists>o' \<in> set (rows_by ev i h). \<exists>p. instants_of rd o' = Inr p \<and> s \<in> set (fst p))"
    using mapR_Inr_set [OF pairs] by blast
  finally show "s \<in> set (fa_instants a) \<longleftrightarrow>
      (\<exists>o' \<in> set (listings_of ev i). lo_observed_at o' \<le> h \<and> (\<exists>p. instants_of rd o' = Inr p \<and> s \<in> set (fst p)))"
    by (auto simp: rows_by_def)
qed

lemma max_subset:
  assumes "set xs \<subseteq> set ys" and "max_on id xs = Some m"
  shows "\<exists>n. max_on id ys = Some n \<and> m \<le> n"
proof -
  have "m \<in> set ys" using assms by (auto simp: max_list_Some)
  then have "ys \<noteq> []" by auto
  then obtain n where "max_on id ys = Some n" using max_on_ex by blast
  with \<open>m \<in> set ys\<close> show ?thesis by (auto simp: max_list_Some)
qed

lemma filing_monotone:
  assumes "filing_availability rd ev i h = Inr a" and "filing_availability rd ev i k = Inr b" and "h \<le> k" and "fa_at a = Some x"
  shows "\<exists>y. fa_at b = Some y \<and> x \<le> y"
proof -
  have "set (fa_instants a) \<subseteq> set (fa_instants b)"
    unfolding subset_iff filing_instants(1) [OF assms(1)] filing_instants(1) [OF assms(2)] using assms(3) order_trans by blast
  then have "set (map si_effective (fa_instants a)) \<subseteq> set (map si_effective (fa_instants b))" by auto
  from max_subset [OF this] assms(4) show ?thesis
    by (simp add: filing_instants(2) [OF assms(1)] filing_instants(2) [OF assms(2)])
qed

text \<open>
  C40: as the evidence horizon grows, a filing's known availability never moves earlier: a later listing entry, one that
  moves a timestamp backward included, can only leave it or move it later.
\<close>

theorem filing_never_earlier:
  assumes "filing_availability rd ev i h = Inr a" and "filing_availability rd ev i k = Inr b" and "h \<le> k" and "fa_at a = Some x"
  shows "\<exists>y. fa_at b = Some y \<and> x \<le> y"
  using filing_monotone assms by blast

text \<open>Filing 7 listed once, then again with its upload time moved back.\<close>

definition listed_at :: "string \<Rightarrow> instant \<Rightarrow> int \<Rightarrow> listing_row" where
  "listed_at k seen ms = \<lparr>lo_id = k, lo_filing = 7, lo_run = None, lo_endpoint = listing_endpoint, lo_bucket = ''annual'',
     lo_query_symbol = Some ''S'', lo_hash = k, lo_raw_item = JObj (sample_entry ms), lo_observed_at = seen\<rparr>"

definition run_of :: "string \<Rightarrow> string \<Rightarrow> instant \<Rightarrow> instant \<Rightarrow> extraction_run" where
  "run_of k sha seen retrieved = \<lparr>xr_ref = (sample_f5_run k sha)\<lparr>fr_cse_filing_id := 7\<rparr>, xr_classification_id = ''c'',
     xr_recorded_at = seen, xr_last_modified = Some 90000, xr_path_epoch = None, xr_retrieved_at = Some retrieved\<rparr>"

definition growing_evidence :: evidence where
  "growing_evidence = \<lparr>ev_listings = [listed_at ''a'' 1 40, listed_at ''b'' 30 20], ev_classifications = [], ev_decisions = [],
     ev_runs = [run_of ''r1'' ''x'' 5 5, run_of ''r2'' ''y'' 8 8, run_of ''r3'' ''y'' 25 3], ev_validations = [],
     ev_observations = [], ev_f6_configurations = [], ev_f6_designations = [], ev_f8_configurations = [],
     ev_f8_designations = [], ev_batches = []\<rparr>"

lemma growing_filing:
  "(case (filing_availability plain_reader growing_evidence 7 10, filing_availability plain_reader growing_evidence 7 50) of
      (Inr a, Inr b) \<Rightarrow> (fa_at a, map si_effective (fa_instants a), fa_at b, map si_effective (fa_instants b)) | _ \<Rightarrow> (None, [], None, [])) =
   (Some 40000, [40000], Some 40000, [20000, 40000])"
  by code_simp

lemma filing_never_earlier_witness:
  "\<exists>a b y. filing_availability plain_reader growing_evidence 7 10 = Inr a \<and> filing_availability plain_reader growing_evidence 7 50 = Inr b \<and>
     fa_at a = Some 40000 \<and> fa_at b = Some y \<and> 40000 \<le> y"
proof -
  obtain a b where ab: "filing_availability plain_reader growing_evidence 7 10 = Inr a"
    "filing_availability plain_reader growing_evidence 7 50 = Inr b" "fa_at a = Some 40000"
    using growing_filing by (auto split: sum.splits)
  from filing_never_earlier [OF ab(1,2) _ ab(3)] ab show ?thesis by auto
qed

section \<open>Versions\<close>

lemma version_parts:
  assumes "version_availability rd xd ev i sha h = Inr v"
  shows "filing_availability rd ev i h = Inr (va_of_filing v)"
    and "va_at v = fst (version_time (va_of_filing v) (va_role v) (va_last_modified v) (va_path_epoch v))"
    and "\<exists>runs. map_of (versions_of_filing ev i h) sha = Some runs \<and> va_last_modified v = latest (map xr_last_modified runs) \<and>
      va_path_epoch v = latest (map xr_path_epoch runs)"
  using assms by (auto simp: version_availability_def bindR_eq_Inr Let_def split: option.splits)

text \<open>no document version is available before its filing: where a version has an availability, its filing has one and
  it is not later; the first version takes exactly the filing's, and only the first version can.
\<close>

theorem version_not_before_filing:
  assumes "version_availability rd xd ev i sha h = Inr v" and "va_at v = Some t"
  shows "\<exists>f. fa_at (va_of_filing v) = Some f \<and> f \<le> t \<and> (va_role v = ''base'' \<longrightarrow> t = f) \<and>
    (va_role v \<noteq> ''base'' \<longrightarrow> (\<exists>d. latest [va_last_modified v, va_path_epoch v] = Some d \<and> t = max f d))"
  using assms(2) unfolding version_parts(2) [OF assms(1)]
  by (auto simp: version_time_def Let_def split: option.splits if_splits)

lemma growing_version:
  "map (\<lambda>h. case version_availability plain_reader \<lparr>xd_evidence = (\<lambda>_. [])\<rparr> growing_evidence 7 ''y'' h of
       Inr v \<Rightarrow> (va_role v, va_at v) | Inl e \<Rightarrow> ([], None)) [10, 50] =
   [(''later'', Some 90000), (''base'', Some 40000)]"
  by code_simp

lemma version_not_before_filing_witness:
  "\<exists>v f. version_availability plain_reader \<lparr>xd_evidence = (\<lambda>_. [])\<rparr> growing_evidence 7 ''y'' 10 = Inr v \<and>
     va_at v = Some 90000 \<and> fa_at (va_of_filing v) = Some f \<and> f \<le> 90000"
proof -
  obtain v where v: "version_availability plain_reader \<lparr>xd_evidence = (\<lambda>_. [])\<rparr> growing_evidence 7 ''y'' 10 = Inr v" "va_at v = Some 90000"
    using growing_version by (auto split: sum.splits)
  from version_not_before_filing [OF v] v show ?thesis by blast
qed

text \<open>
  A document version's own availability can move earlier as the horizon grows. Filing 7 carries two documents, x
  retrieved first and y later, so y waits for its own document time; a run recorded later that retrieved y before x makes y
  the first version, and y takes the filing's earlier availability.
\<close>

theorem version_availability_moves_earlier:
  "\<exists>v w. version_availability plain_reader \<lparr>xd_evidence = (\<lambda>_. [])\<rparr> growing_evidence 7 ''y'' 10 = Inr v \<and>
     version_availability plain_reader \<lparr>xd_evidence = (\<lambda>_. [])\<rparr> growing_evidence 7 ''y'' 50 = Inr w \<and>
     va_at v = Some 90000 \<and> va_at w = Some 40000"
  using growing_version by (auto split: sum.splits)

lemma latest_grows:
  assumes "\<And>x. Some x \<in> set ts \<Longrightarrow> \<exists>y \<ge> x. Some y \<in> set us" and "latest ts = Some m"
  shows "\<exists>n \<ge> m. latest us = Some n"
proof -
  have mem: "t \<in> set (List.map_filter id zs) \<longleftrightarrow> Some t \<in> set zs" for t :: instant and zs
    by (force simp: List.map_filter_def)
  have "Some m \<in> set ts" using assms(2) by (simp add: latest_def max_list_Some mem)
  then obtain y where y: "m \<le> y" "Some y \<in> set us" using assms(1) by blast
  then have "List.map_filter id us \<noteq> []" using mem [of y us] by auto
  then obtain n where "latest us = Some n" unfolding latest_def using max_on_ex by blast
  moreover have "y \<le> n" using calculation y(2) by (simp add: latest_def max_list_Some mem)
  ultimately show ?thesis using y(1) by auto
qed

lemma version_runs:
  assumes "map_of (versions_of_filing ev i h) sha = Some runs"
  shows "set runs = {r \<in> set (runs_of_filing ev i). xr_recorded_at r \<le> h \<and> xr_sha r = sha}"
  using map_of_SomeD [OF assms] by (auto simp: versions_of_filing_def group_on_mem)

text \<open>
  The base rule is the only way back. If a version's availability is earlier at a larger horizon, the version was
  not the filing's first version at the smaller one and has become it.
\<close>

theorem version_earlier_only_by_base:
  assumes "version_availability rd xd ev i sha h = Inr v" and "version_availability rd xd ev i sha k = Inr w" and "h \<le> k"
    and "va_at v = Some t" and "va_at w = Some t'" and "t' < t"
  shows "va_role v \<noteq> ''base'' \<and> va_role w = ''base''"
proof -
  obtain runs runs' where runs: "map_of (versions_of_filing ev i h) sha = Some runs" "va_last_modified v = latest (map xr_last_modified runs)"
    "va_path_epoch v = latest (map xr_path_epoch runs)" "map_of (versions_of_filing ev i k) sha = Some runs'"
    "va_last_modified w = latest (map xr_last_modified runs')" "va_path_epoch w = latest (map xr_path_epoch runs')"
    using version_parts(3) [OF assms(1)] version_parts(3) [OF assms(2)] by blast
  have "set runs \<subseteq> set runs'"
    using version_runs [OF runs(1)] version_runs [OF runs(4)] assms(3) by auto
  then have grow: "\<exists>y \<ge> x. Some y \<in> set (map f runs')" if "Some x \<in> set (map f runs)" for f :: "extraction_run \<Rightarrow> instant option" and x
    using that by force
  have lm: "\<exists>n \<ge> m. va_last_modified w = Some n" if "va_last_modified v = Some m" for m
    using latest_grows [OF grow] that unfolding runs(2,5) by blast
  have ep: "\<exists>n \<ge> m. va_path_epoch w = Some n" if "va_path_epoch v = Some m" for m
    using latest_grows [OF grow] that unfolding runs(3,6) by blast
  have document: "\<exists>n \<ge> d. latest [va_last_modified w, va_path_epoch w] = Some n" if "latest [va_last_modified v, va_path_epoch v] = Some d" for d
    by (rule latest_grows [OF _ that]) (use lm ep in \<open>force simp: eq_commute\<close>)
  obtain f where f: "fa_at (va_of_filing v) = Some f" by (cases "fa_at (va_of_filing v)") (use assms(4) version_parts(2) [OF assms(1)] in \<open>auto simp: version_time_def\<close>)
  obtain f' where f': "fa_at (va_of_filing w) = Some f'" "f \<le> f'"
    using filing_monotone [OF version_parts(1) [OF assms(1)] version_parts(1) [OF assms(2)] assms(3) f] by blast
  have t: "va_role v = ''base'' \<Longrightarrow> t = f" "va_role v \<noteq> ''base'' \<Longrightarrow> \<exists>d. latest [va_last_modified v, va_path_epoch v] = Some d \<and> t = max f d"
    using assms(4) f unfolding version_parts(2) [OF assms(1)] by (auto simp: version_time_def split: option.splits)
  have t': "va_role w = ''base'' \<Longrightarrow> t' = f'" "va_role w \<noteq> ''base'' \<Longrightarrow> \<exists>d. latest [va_last_modified w, va_path_epoch w] = Some d \<and> t' = max f' d"
    using assms(5) f'(1) unfolding version_parts(2) [OF assms(2)] by (auto simp: version_time_def split: option.splits)
  show ?thesis
  proof (cases "va_role w = ''base''")
    case True
    then have "t' = f'" by (rule t'(1))
    with assms(6) f'(2) t(1) True show ?thesis by fastforce
  next
    case False
    then obtain d' where d': "latest [va_last_modified w, va_path_epoch w] = Some d'" "t' = max f' d'" using t'(2) by blast
    show ?thesis
    proof (cases "va_role v = ''base''")
      case True
      with t(1) f'(2) d'(2) assms(6) show ?thesis by simp
    next
      case False
      then obtain d where "latest [va_last_modified v, va_path_epoch v] = Some d" "t = max f d" using t(2) by blast
      with document d' f'(2) assms(6) show ?thesis by fastforce
    qed
  qed
qed

lemma version_earlier_only_by_base_witness:
  "\<exists>v w. version_availability plain_reader \<lparr>xd_evidence = (\<lambda>_. [])\<rparr> growing_evidence 7 ''y'' 10 = Inr v \<and>
     version_availability plain_reader \<lparr>xd_evidence = (\<lambda>_. [])\<rparr> growing_evidence 7 ''y'' 50 = Inr w \<and>
     va_role v \<noteq> ''base'' \<and> va_role w = ''base''"
proof -
  obtain v w where vw: "version_availability plain_reader \<lparr>xd_evidence = (\<lambda>_. [])\<rparr> growing_evidence 7 ''y'' 10 = Inr v"
    "version_availability plain_reader \<lparr>xd_evidence = (\<lambda>_. [])\<rparr> growing_evidence 7 ''y'' 50 = Inr w"
    "va_at v = Some 90000" "va_at w = Some 40000"
    using growing_version by (auto split: sum.splits)
  from version_earlier_only_by_base [OF vw(1,2) _ vw(3,4)] vw(1,2) show ?thesis by simp
qed

end
