(* ===== verification/Supersession.thy ===== *)
theory Supersession
  imports AsofModel
begin

text \<open>
  f8.supersession.1 (\<open>financial_asof/supersession.py\<close>): which visible observations of one fact replace
  which, on a source-declared basis only, and when the evidence is ambiguous, so that nothing is dropped.
  The candidates of one call carry different so_keys, the primary key of the stored observations.
\<close>

definition s1_types :: "string list" where
  "s1_types = [''errata_or_reissue'', ''amendment'']"

definition s1_statuses :: "string list" where
  "s1_statuses = [''confirmed'', ''document_only'']"

record candidate =
  su_observation :: source_observation
  su_available_at :: "instant option"
  su_filings :: "int list"

definition su_key :: "candidate \<Rightarrow> string" where
  "su_key c = so_key (su_observation c)"

definition su_sha :: "candidate \<Rightarrow> string" where
  "su_sha c = so_document_sha256 (su_observation c)"

text \<open>The evidence a basis read; \<open>iso\<close> texts are kept as the instants they print.\<close>

datatype basis_evidence =
    AvailableAt instant instant
  | Declared "string option" "string option" "string option"
  | Restated "source_key list"
  | DocumentTimes string int instant instant

record supersession_record =
  sp_superseding :: string
  sp_superseded :: string
  sp_bases :: "string list"
  sp_rule_version :: string
  sp_evidence :: "basis_evidence list"

datatype ambiguity_detail =
    Times "instant option" "instant option"
  | Types "string option" "string option"
  | CommonFilings "int list"
  | NoDetail

record ambiguity =
  am_kind :: string
  am_a :: string
  am_b :: string
  am_detail :: ambiguity_detail

record fact_supersession =
  fs_records :: "supersession_record list"
  fs_superseded_by :: "(string \<times> string list) list"
  fs_ambiguities :: "ambiguity list"

section \<open>Bases\<close>

definition s1 :: "candidate \<Rightarrow> bool" where
  "s1 c \<longleftrightarrow> in_opt (dc_document_type (so_document (su_observation c))) s1_types \<and>
     in_opt (dc_document_type_status (so_document (su_observation c))) s1_statuses"

definition s1_unclear :: "candidate \<Rightarrow> bool" where
  "s1_unclear c \<longleftrightarrow> in_opt (dc_document_type (so_document (su_observation c))) s1_types \<and>
     \<not> in_opt (dc_document_type_status (so_document (su_observation c))) s1_statuses"

definition s2 :: "candidate \<Rightarrow> bool" where
  "s2 c \<longleftrightarrow> list_ex sm_restated (so_members (su_observation c))"

definition common_filings :: "candidate \<Rightarrow> candidate \<Rightarrow> int list" where
  "common_filings a b = sorted_set (filter (\<lambda>f. f \<in> set (su_filings b)) (su_filings a))"

text \<open>The Last-Modified times and the path epochs of a version's runs known at the governing horizon.\<close>

type_synonym document_times = "int \<Rightarrow> string \<Rightarrow> instant list \<times> instant list"

definition time_pair :: "string \<Rightarrow> int \<Rightarrow> instant list \<Rightarrow> instant list \<Rightarrow> (string \<times> int \<times> instant \<times> instant) option" where
  "time_pair kind f later earlier =
     (case (min_on id later, max_on id earlier) of (Some a, Some b) \<Rightarrow> Some (kind, f, a, b) | _ \<Rightarrow> None)"

definition pairs_under :: "document_times \<Rightarrow> candidate \<Rightarrow> candidate \<Rightarrow> int \<Rightarrow> (string \<times> int \<times> instant \<times> instant) list" where
  "pairs_under dt s o' f =
     (let ts = dt f (su_sha s); to = dt f (su_sha o')
      in List.map_filter id [time_pair ''cdn_last_modified'' f (fst ts) (fst to), time_pair ''path_epoch_at'' f (snd ts) (snd to)])"

text \<open>Under one filing: at least one kind of time is present for both, and every such kind is strictly later.\<close>

definition ordered_under :: "document_times \<Rightarrow> candidate \<Rightarrow> candidate \<Rightarrow> int \<Rightarrow> bool" where
  "ordered_under dt s o' f \<longleftrightarrow> pairs_under dt s o' f \<noteq> [] \<and> list_all (\<lambda>(k, f', a, b). b < a) (pairs_under dt s o' f)"

definition s3 :: "candidate \<Rightarrow> candidate \<Rightarrow> document_times \<Rightarrow> bool \<times> basis_evidence list" where
  "s3 s o' dt =
     (if common_filings s o' \<noteq> [] \<and> list_all (ordered_under dt s o') (common_filings s o')
      then (True, map (\<lambda>(k, f, a, b). DocumentTimes k f a b) (concat (map (pairs_under dt s o') (common_filings s o'))))
      else (False, []))"

definition later_available :: "candidate \<Rightarrow> candidate \<Rightarrow> bool" where
  "later_available s o' \<longleftrightarrow>
     (case (su_available_at s, su_available_at o') of (Some a, Some b) \<Rightarrow> b < a | _ \<Rightarrow> False)"

definition available_evidence :: "candidate \<Rightarrow> candidate \<Rightarrow> basis_evidence list" where
  "available_evidence s o' =
     (case (su_available_at s, su_available_at o') of (Some a, Some b) \<Rightarrow> [AvailableAt a b] | _ \<Rightarrow> [])"

definition declared_evidence :: "candidate \<Rightarrow> basis_evidence" where
  "declared_evidence s = (let doc = so_document (su_observation s)
     in Declared (dc_classification_id doc) (dc_document_type doc) (dc_document_type_status doc))"

text \<open>The order of the restated members is that of the text of their keys, a parameter.\<close>

definition bases ::
  "(source_key \<Rightarrow> string) \<Rightarrow> candidate \<Rightarrow> candidate \<Rightarrow> document_times \<Rightarrow> string list \<times> basis_evidence list" where
  "bases show_key s o' dt =
     (if su_sha s = su_sha o' \<or> \<not> later_available s o' then ([], [])
      else
        (let found = (if s1 s then [''S-1''] else []) @ (if s2 s then [''S-2''] else []) @
               (if fst (s3 s o' dt) then [''S-3''] else []);
             restated = map sm_source_key (filter sm_restated (so_members (su_observation s)));
             evidence = available_evidence s o' @ (if s1 s then [declared_evidence s] else []) @
               (if s2 s then [Restated (sort_key show_key restated)] else []) @ snd (s3 s o' dt)
         in if found = [] then ([], []) else (found, evidence)))"

section \<open>Disagreement\<close>

text \<open>\<open>any(...)\<close> whose terms may raise: it stops at the first true term.\<close>

fun anyR :: "('a \<Rightarrow> bool res) \<Rightarrow> 'a list \<Rightarrow> bool res" where
  "anyR f [] = Inr False"
| "anyR f (x # xs) = bindR (f x) (\<lambda>b. if b then Inr True else anyR f xs)"

definition disagree :: "source_observation \<Rightarrow> source_observation \<Rightarrow> bool res" where
  "disagree a b =
     (if so_status a = ''internally_conflicting'' \<or> so_status b = ''internally_conflicting'' then Inr True
      else anyR (\<lambda>(ma, mb). bindR (compare_members ma mb) (\<lambda>c. Inr (mc_outcome c = ''disagree'')))
        (List.product (so_members a) (so_members b)))"

section \<open>One fact\<close>

definition edge_of :: "(source_key \<Rightarrow> string) \<Rightarrow> document_times \<Rightarrow> candidate \<times> candidate \<Rightarrow> supersession_record option" where
  "edge_of show_key dt p =
     (let found = bases show_key (fst p) (snd p) dt
      in if fst found = [] then None
         else Some \<lparr>sp_superseding = su_key (fst p), sp_superseded = su_key (snd p), sp_bases = fst found,
                    sp_rule_version = supersession_version, sp_evidence = snd found\<rparr>)"

definition edges_of :: "(source_key \<Rightarrow> string) \<Rightarrow> document_times \<Rightarrow> candidate list \<Rightarrow> supersession_record list" where
  "edges_of show_key dt cands = List.map_filter (edge_of show_key dt) (List.product cands cands)"

definition has_edge :: "supersession_record list \<Rightarrow> candidate \<Rightarrow> candidate \<Rightarrow> bool" where
  "has_edge edges s o' \<longleftrightarrow> list_ex (\<lambda>r. sp_superseding r = su_key s \<and> sp_superseded r = su_key o') edges"

text \<open>A declared, possible or shared-filing relation from \<open>s\<close> to \<open>o\<close>.\<close>

definition declared :: "candidate \<Rightarrow> candidate \<Rightarrow> bool" where
  "declared s o' \<longleftrightarrow> s1 s \<or> s2 s \<or> s1_unclear s \<or> common_filings s o' \<noteq> []"

definition directed_ambiguity :: "supersession_record list \<Rightarrow> candidate \<times> candidate \<Rightarrow> ambiguity option" where
  "directed_ambiguity edges p =
     (let s = fst p; o' = snd p; doc = so_document (su_observation s)
      in if su_sha s = su_sha o' \<or> \<not> declared s o' then None
         else if su_available_at s = None \<or> su_available_at o' = None
         then Some \<lparr>am_kind = ''unknown_availability'', am_a = su_key s, am_b = su_key o',
                    am_detail = Times (su_available_at s) (su_available_at o')\<rparr>
         else if s1_unclear s \<and> later_available s o' \<and> \<not> has_edge edges s o'
         then Some \<lparr>am_kind = ''unclear_basis'', am_a = su_key s, am_b = su_key o',
                    am_detail = Types (dc_document_type doc) (dc_document_type_status doc)\<rparr>
         else None)"

definition pair_ambiguities :: "supersession_record list \<Rightarrow> candidate \<times> candidate \<Rightarrow> ambiguity list res" where
  "pair_ambiguities edges p =
     (let a = fst p; b = snd p;
          unordered = (if common_filings a b \<noteq> [] \<and> su_available_at a \<noteq> None \<and> su_available_at b \<noteq> None \<and>
              \<not> has_edge edges a b \<and> \<not> has_edge edges b a
            then [\<lparr>am_kind = ''unordered_versions'', am_a = su_key a, am_b = su_key b, am_detail = CommonFilings (common_filings a b)\<rparr>]
            else [])
      in if su_sha a = su_sha b then Inr []
         else if s1 a \<and> s1 b then bindR (disagree (su_observation a) (su_observation b)) (\<lambda>differ.
           Inr (unordered @ (if differ
             then [\<lparr>am_kind = ''two_errata'', am_a = su_key a, am_b = su_key b, am_detail = NoDetail\<rparr>] else [])))
         else Inr unordered)"

definition conclude_fact :: "supersession_record list \<Rightarrow> ambiguity list \<Rightarrow> fact_supersession" where
  "conclude_fact edges ambiguities =
     (if ambiguities \<noteq> []
      then \<lparr>fs_records = [], fs_superseded_by = [],
            fs_ambiguities = sort_key (\<lambda>x. (am_kind x, am_a x, am_b x)) (remdups ambiguities)\<rparr>
      else \<lparr>fs_records = sort_key (\<lambda>r. (sp_superseded r, sp_superseding r)) edges,
            fs_superseded_by = map (\<lambda>(k, rs). (k, sort (map sp_superseding rs))) (group_on sp_superseded edges),
            fs_ambiguities = []\<rparr>)"

definition derive :: "(source_key \<Rightarrow> string) \<Rightarrow> candidate list \<Rightarrow> document_times \<Rightarrow> fact_supersession res" where
  "derive show_key candidates dt =
     (let cands = sort_key su_key candidates; edges = edges_of show_key dt cands;
          directed = List.map_filter (directed_ambiguity edges) (List.product cands cands)
      in bindR (mapR (pair_ambiguities edges) (later_pairs cands)) (\<lambda>pairwise.
           Inr (conclude_fact edges (directed @ concat pairwise))))"

end
