(* ===== verification/SupersessionFacts.thy ===== *)
theory SupersessionFacts
  imports Supersession ObservationFacts
begin

text \<open>
  Facts about f8.supersession.1: a declarative account of what it drops, and why dropping can never go round in
  a circle or empty a fact.
\<close>

section \<open>The specification\<close>

text \<open>\<open>s\<close> replaces \<open>o\<close>: another document, strictly later available, on a source-declared basis.\<close>

definition replaces :: "document_times \<Rightarrow> candidate \<Rightarrow> candidate \<Rightarrow> bool" where
  "replaces dt s o' \<longleftrightarrow> su_sha s \<noteq> su_sha o' \<and> later_available s o' \<and> (s1 s \<or> s2 s \<or> fst (s3 s o' dt))"

definition known_times :: "candidate \<Rightarrow> candidate \<Rightarrow> bool" where
  "known_times a b \<longleftrightarrow> su_available_at a \<noteq> None \<and> su_available_at b \<noteq> None"

text \<open>The evidence about a fact is partial or contradictory.\<close>

definition ambiguous :: "document_times \<Rightarrow> candidate set \<Rightarrow> bool" where
  "ambiguous dt C \<longleftrightarrow> (\<exists>a \<in> C. \<exists>b \<in> C. su_sha a \<noteq> su_sha b \<and>
     (declared a b \<and> \<not> known_times a b \<or>
      s1_unclear a \<and> known_times a b \<and> later_available a b \<and> \<not> replaces dt a b \<or>
      common_filings a b \<noteq> [] \<and> known_times a b \<and> \<not> replaces dt a b \<and> \<not> replaces dt b a \<or>
      s1 a \<and> s1 b \<and> su_key a < su_key b \<and> disagree (su_observation a) (su_observation b) = Inr True))"

definition dropped :: "fact_supersession \<Rightarrow> string set" where
  "dropped fs = fst ` set (fs_superseded_by fs)"

definition supersedes :: "fact_supersession \<Rightarrow> (string \<times> string) set" where
  "supersedes fs = (\<lambda>r. (sp_superseding r, sp_superseded r)) ` set (fs_records fs)"

section \<open>Edges\<close>

lemma bases_found: "fst (bases sk s o' dt) \<noteq> [] \<longleftrightarrow> replaces dt s o'"
  by (auto simp: bases_def replaces_def Let_def)

lemma edge_of_Some:
  "edge_of sk dt (s, o') = Some r \<longleftrightarrow> replaces dt s o' \<and>
     r = \<lparr>sp_superseding = su_key s, sp_superseded = su_key o', sp_bases = fst (bases sk s o' dt),
          sp_rule_version = supersession_version, sp_evidence = snd (bases sk s o' dt)\<rparr>"
  using bases_found [of sk s o' dt] by (auto simp: edge_of_def Let_def)

lemma edges_mem:
  "r \<in> set (edges_of sk dt cands) \<longleftrightarrow> (\<exists>s \<in> set cands. \<exists>o' \<in> set cands. edge_of sk dt (s, o') = Some r)"
  by (force simp: edges_of_def List.map_filter_def)

lemma has_edge_iff:
  assumes "distinct (map su_key cands)" and "s \<in> set cands" and "o' \<in> set cands"
  shows "has_edge (edges_of sk dt cands) s o' \<longleftrightarrow> replaces dt s o'"
proof -
  have inj: "inj_on su_key (set cands)" using assms(1) by (simp add: distinct_map)
  show ?thesis
  proof
    assume "has_edge (edges_of sk dt cands) s o'"
    then obtain r where r: "r \<in> set (edges_of sk dt cands)" "sp_superseding r = su_key s" "sp_superseded r = su_key o'"
      by (auto simp: has_edge_def list_ex_iff)
    then obtain a b where ab: "a \<in> set cands" "b \<in> set cands" "edge_of sk dt (a, b) = Some r"
      unfolding edges_mem by blast
    then have "replaces dt a b" "su_key a = su_key s" "su_key b = su_key o'"
      using r(2,3) by (auto simp: edge_of_Some)
    moreover from this have "a = s" "b = o'"
      using inj_onD [OF inj] ab(1,2) assms(2,3) by blast+
    ultimately show "replaces dt s o'" by simp
  next
    assume "replaces dt s o'"
    then obtain r where r: "edge_of sk dt (s, o') = Some r" by (auto simp: edge_of_Some)
    then have "r \<in> set (edges_of sk dt cands)" unfolding edges_mem using assms(2,3) by blast
    moreover have "sp_superseding r = su_key s \<and> sp_superseded r = su_key o'" using r by (auto simp: edge_of_Some)
    ultimately show "has_edge (edges_of sk dt cands) s o'" unfolding has_edge_def list_ex_iff by (rule bexI [rotated])
  qed
qed

section \<open>Ambiguity\<close>

lemma directed_None:
  assumes "distinct (map su_key cands)" and "a \<in> set cands" and "b \<in> set cands"
  shows "directed_ambiguity (edges_of sk dt cands) (a, b) \<noteq> None \<longleftrightarrow> su_sha a \<noteq> su_sha b \<and> declared a b \<and>
    (\<not> known_times a b \<or> s1_unclear a \<and> later_available a b \<and> \<not> replaces dt a b)"
  using has_edge_iff [OF assms, of sk dt] by (auto simp: directed_ambiguity_def known_times_def Let_def)

lemma pair_ambiguities_found:
  assumes "distinct (map su_key cands)" and "a \<in> set cands" and "b \<in> set cands"
    and "pair_ambiguities (edges_of sk dt cands) (a, b) = Inr found"
  shows "found \<noteq> [] \<longleftrightarrow> su_sha a \<noteq> su_sha b \<and>
    (common_filings a b \<noteq> [] \<and> known_times a b \<and> \<not> replaces dt a b \<and> \<not> replaces dt b a \<or>
     s1 a \<and> s1 b \<and> disagree (su_observation a) (su_observation b) = Inr True)"
  using assms(4) has_edge_iff [OF assms(1,2,3), of sk dt] has_edge_iff [OF assms(1,3,2), of sk dt]
  by (auto simp: pair_ambiguities_def known_times_def Let_def bindR_eq_Inr split: if_splits)

lemma common_filings_sym: "common_filings a b = common_filings b a"
  unfolding common_filings_def sorted_set_eq_iff by auto

lemma later_pairs_sorted:
  assumes "distinct (map f xs)" and "sorted (map f xs)"
  shows "(a, b) \<in> set (later_pairs xs) \<longleftrightarrow> a \<in> set xs \<and> b \<in> set xs \<and> f a < (f b :: 'k::linorder)"
  using assms by (induction xs) (auto simp: order.strict_iff_order)

lemma derive_parts:
  assumes "derive sk candidates dt = Inr fs"
  obtains verdicts cands where "cands = sort_key su_key candidates"
    "mapR (pair_ambiguities (edges_of sk dt cands)) (later_pairs cands) = Inr verdicts"
    "fs = conclude_fact (edges_of sk dt cands)
       (List.map_filter (directed_ambiguity (edges_of sk dt cands)) (List.product cands cands) @ concat verdicts)"
  using assms by (auto simp: derive_def bindR_eq_Inr Let_def)

text \<open>The list of ambiguities is empty exactly when the fact is not ambiguous.\<close>

lemma ambiguities_found:
  assumes "distinct (map su_key cands)" and "sorted (map su_key cands)"
    and verdicts: "mapR (pair_ambiguities (edges_of sk dt cands)) (later_pairs cands) = Inr verdicts"
  shows "List.map_filter (directed_ambiguity (edges_of sk dt cands)) (List.product cands cands) @ concat verdicts \<noteq> [] \<longleftrightarrow>
    ambiguous dt (set cands)"
proof -
  let ?edges = "edges_of sk dt cands"
  have directed: "List.map_filter (directed_ambiguity ?edges) (List.product cands cands) \<noteq> [] \<longleftrightarrow>
    (\<exists>a \<in> set cands. \<exists>b \<in> set cands. su_sha a \<noteq> su_sha b \<and> declared a b \<and>
       (\<not> known_times a b \<or> s1_unclear a \<and> later_available a b \<and> \<not> replaces dt a b))" (is "_ \<longleftrightarrow> ?d")
    using directed_None [OF assms(1), of _ _ sk dt]
    by (auto simp: List.map_filter_def filter_empty_conv)
  have late: "(a, b) \<in> set (later_pairs cands) \<longleftrightarrow> a \<in> set cands \<and> b \<in> set cands \<and> su_key a < su_key b" for a b
    by (rule later_pairs_sorted [OF assms(1,2)])
  have each: "\<exists>found. pair_ambiguities ?edges (a, b) = Inr found \<and> found \<in> set verdicts"
    if "(a, b) \<in> set (later_pairs cands)" for a b
    using mapR_each [OF verdicts that] by blast
  have pair: "concat verdicts \<noteq> [] \<longleftrightarrow>
    (\<exists>a \<in> set cands. \<exists>b \<in> set cands. su_key a < su_key b \<and> su_sha a \<noteq> su_sha b \<and>
       (common_filings a b \<noteq> [] \<and> known_times a b \<and> \<not> replaces dt a b \<and> \<not> replaces dt b a \<or>
        s1 a \<and> s1 b \<and> disagree (su_observation a) (su_observation b) = Inr True))" (is "_ \<longleftrightarrow> ?p")
  proof
    assume "concat verdicts \<noteq> []"
    then obtain found where "found \<in> set verdicts" "found \<noteq> []" by auto
    then obtain a b where "(a, b) \<in> set (later_pairs cands)" "pair_ambiguities ?edges (a, b) = Inr found"
      using mapR_Inr_set [OF verdicts] by auto
    then show ?p using late pair_ambiguities_found [OF assms(1)] \<open>found \<noteq> []\<close> by blast
  next
    assume ?p
    then obtain a b where ab: "a \<in> set cands" "b \<in> set cands" "su_key a < su_key b" and fail: "su_sha a \<noteq> su_sha b \<and>
       (common_filings a b \<noteq> [] \<and> known_times a b \<and> \<not> replaces dt a b \<and> \<not> replaces dt b a \<or>
        s1 a \<and> s1 b \<and> disagree (su_observation a) (su_observation b) = Inr True)" by blast
    then obtain found where "pair_ambiguities ?edges (a, b) = Inr found" "found \<in> set verdicts"
      using each late by blast
    moreover from this(1) have "found \<noteq> []" using pair_ambiguities_found [OF assms(1) ab(1,2)] fail by blast
    ultimately show "concat verdicts \<noteq> []" by auto
  qed
  have declared_unclear: "s1_unclear a \<Longrightarrow> declared a b" for a b by (simp add: declared_def)
  have times_sym: "known_times a b = known_times b a" for a b by (auto simp: known_times_def)
  have inj: "a \<in> set cands \<Longrightarrow> b \<in> set cands \<Longrightarrow> su_sha a \<noteq> su_sha b \<Longrightarrow> su_key a < su_key b \<or> su_key b < su_key a" for a b
    using assms(1) by (metis distinct_map inj_onD linorder_neqE)
  have "?d \<or> ?p \<longleftrightarrow> ambiguous dt (set cands)"
  proof
    assume "?d \<or> ?p"
    then show "ambiguous dt (set cands)" unfolding ambiguous_def by blast
  next
    assume "ambiguous dt (set cands)"
    then obtain a b where ab: "a \<in> set cands" "b \<in> set cands" "su_sha a \<noteq> su_sha b" and
      why: "declared a b \<and> \<not> known_times a b \<or>
       s1_unclear a \<and> known_times a b \<and> later_available a b \<and> \<not> replaces dt a b \<or>
       common_filings a b \<noteq> [] \<and> known_times a b \<and> \<not> replaces dt a b \<and> \<not> replaces dt b a \<or>
       s1 a \<and> s1 b \<and> su_key a < su_key b \<and> disagree (su_observation a) (su_observation b) = Inr True"
      unfolding ambiguous_def by blast
    from why consider "declared a b" "\<not> known_times a b" | "s1_unclear a" "later_available a b" "\<not> replaces dt a b"
      | "common_filings a b \<noteq> []" "known_times a b" "\<not> replaces dt a b" "\<not> replaces dt b a"
      | "s1 a" "s1 b" "su_key a < su_key b" "disagree (su_observation a) (su_observation b) = Inr True" by blast
    then show "?d \<or> ?p"
    proof cases
      case 1
      then have ?d using ab by blast
      then show ?thesis ..
    next
      case 2
      then have ?d using ab declared_unclear by blast
      then show ?thesis ..
    next
      case 3
      have ?p
      proof (cases "su_key a < su_key b")
        case True
        with 3 ab show ?thesis by blast
      next
        case False
        then have "su_key b < su_key a" using inj ab by blast
        moreover have "common_filings b a \<noteq> []" "known_times b a" "su_sha b \<noteq> su_sha a"
          using 3 ab common_filings_sym times_sym by metis+
        ultimately show ?thesis using 3(3,4) ab(1,2) by blast
      qed
      then show ?thesis ..
    next
      case 4
      then have ?p using ab by blast
      then show ?thesis ..
    qed
  qed
  then show ?thesis using directed pair by simp
qed

lemma sort_key_eq_Nil: "sort_key f xs = [] \<longleftrightarrow> xs = []"
  by (metis set_empty set_sort)

lemma dropped_conclude:
  "dropped (conclude_fact edges found) = (if found \<noteq> [] then {} else sp_superseded ` set edges)"
  by (simp add: dropped_def conclude_fact_def group_on_def image_image)

lemma supersedes_conclude:
  "supersedes (conclude_fact edges found) =
     (if found \<noteq> [] then {} else (\<lambda>r. (sp_superseding r, sp_superseded r)) ` set edges)"
  by (simp add: supersedes_def conclude_fact_def)

lemma derive_decided:
  assumes "derive sk candidates dt = Inr fs" and "distinct (map su_key candidates)"
  shows "(fs_ambiguities fs \<noteq> [] \<longleftrightarrow> ambiguous dt (set candidates)) \<and>
    (\<forall>o' \<in> set candidates. su_key o' \<in> dropped fs \<longleftrightarrow>
       \<not> ambiguous dt (set candidates) \<and> (\<exists>s \<in> set candidates. replaces dt s o'))"
proof -
  obtain verdicts cands where cands: "cands = sort_key su_key candidates" and
    verdicts: "mapR (pair_ambiguities (edges_of sk dt cands)) (later_pairs cands) = Inr verdicts" and
    fs: "fs = conclude_fact (edges_of sk dt cands)
       (List.map_filter (directed_ambiguity (edges_of sk dt cands)) (List.product cands cands) @ concat verdicts)"
    using derive_parts [OF assms(1)] by metis
  have dist: "distinct (map su_key cands)" and same: "set cands = set candidates" and "sorted (map su_key cands)"
    using assms(2) by (simp_all add: cands distinct_map_sorted)
  note found = ambiguities_found [OF dist \<open>sorted (map su_key cands)\<close> verdicts]
  have "fs_ambiguities fs \<noteq> [] \<longleftrightarrow> ambiguous dt (set candidates)"
    using found unfolding fs conclude_fact_def same by (auto simp: sort_key_eq_Nil)
  moreover have "su_key o' \<in> dropped fs \<longleftrightarrow> \<not> ambiguous dt (set candidates) \<and> (\<exists>s \<in> set candidates. replaces dt s o')"
    if o': "o' \<in> set candidates" for o'
  proof -
    have "su_key o' \<in> sp_superseded ` set (edges_of sk dt cands) \<longleftrightarrow> (\<exists>s \<in> set candidates. has_edge (edges_of sk dt cands) s o')"
      using o' by (force simp: has_edge_def list_ex_iff edges_mem edge_of_Some same)
    then show ?thesis
      using found has_edge_iff [OF dist, unfolded same] o' unfolding fs dropped_conclude same by auto
  qed
  ultimately show ?thesis by blast
qed

text \<open>
  C38: what the rule decides. A fact is ambiguous exactly when its evidence is partial or contradictory in one of the four
  stated ways, and then nothing is dropped. Otherwise an observation is dropped exactly when some visible observation of
  another document, strictly later available, declares on a stated basis that it replaces it.
\<close>

theorem derive_decides:
  assumes "derive sk candidates dt = Inr fs" and "distinct (map su_key candidates)"
  shows "(fs_ambiguities fs \<noteq> [] \<longleftrightarrow> ambiguous dt (set candidates)) \<and>
    (\<forall>o' \<in> set candidates. su_key o' \<in> dropped fs \<longleftrightarrow>
       \<not> ambiguous dt (set candidates) \<and> (\<exists>s \<in> set candidates. replaces dt s o'))"
  using derive_decided assms by blast

text \<open>An annual report and a later amendment of the same fact.\<close>

definition plain_so :: "string \<Rightarrow> string \<Rightarrow> string \<Rightarrow> source_observation" where
  "plain_so k sha doc_type = \<lparr>so_key = k, so_ef_key = ''ef'', so_identity = sample_fact, so_validation_run_key = k,
     so_versions = implemented, so_f5_run = sample_f5_run k sha,
     so_document = sample_document\<lparr>dc_document_type := Some doc_type, dc_document_type_status := Some ''confirmed''\<rparr>,
     so_members = [], so_status = ''consistent'', so_value_kind = None, so_nil_forms = [], so_representative_member = None,
     so_reported = None, so_normalized_value = None, so_half_unit = None, so_precision = None, so_interval_low = None,
     so_interval_high = None, so_roles = [], so_annotations = [], so_comparisons = [], so_output_hash = k\<rparr>"

definition original :: candidate where
  "original = \<lparr>su_observation = plain_so ''a'' ''doc a'' ''annual_report'', su_available_at = Some 1, su_filings = [1]\<rparr>"

definition amended :: candidate where
  "amended = \<lparr>su_observation = plain_so ''b'' ''doc b'' ''amendment'', su_available_at = Some 2, su_filings = [2]\<rparr>"

definition sample_ruling :: "fact_supersession res" where
  "sample_ruling = derive (\<lambda>_. []) [original, amended] (\<lambda>_ _. ([], []))"

lemma sample_ruling_value:
  "(case sample_ruling of Inl e \<Rightarrow> None | Inr fs \<Rightarrow> Some (fs_superseded_by fs, fs_ambiguities fs)) = Some ([(''a'', [''b''])], [])"
  by code_simp

lemma sample_ruled: "\<exists>fs. derive (\<lambda>_. []) [original, amended] (\<lambda>_ _. ([], [])) = Inr fs \<and> dropped fs = {''a''} \<and> fs_ambiguities fs = []"
  using sample_ruling_value by (auto simp: sample_ruling_def dropped_def split: sum.splits)

lemma sample_keys: "su_key original = ''a''" "su_key amended = ''b''"
  by (simp_all add: su_key_def original_def amended_def plain_so_def)

lemma derive_decides_witness:
  "\<not> ambiguous (\<lambda>_ _. ([], [])) {original, amended} \<and> (\<exists>s \<in> {original, amended}. replaces (\<lambda>_ _. ([], [])) s original)"
proof -
  obtain fs where fs: "derive (\<lambda>_. []) [original, amended] (\<lambda>_ _. ([], [])) = Inr fs" "dropped fs = {''a''}" "fs_ambiguities fs = []"
    using sample_ruled by blast
  with derive_decides [OF fs(1)] show ?thesis by (simp add: sample_keys)
qed

section \<open>Chains end\<close>

lemma supersedes_later:
  assumes "derive sk candidates dt = Inr fs" and "(a, b) \<in> supersedes fs"
  shows "\<exists>s \<in> set candidates. \<exists>x \<in> set candidates. a = su_key s \<and> b = su_key x \<and> later_available s x"
proof -
  obtain verdicts cands where cands: "cands = sort_key su_key candidates" and
    fs: "fs = conclude_fact (edges_of sk dt cands)
       (List.map_filter (directed_ambiguity (edges_of sk dt cands)) (List.product cands cands) @ concat verdicts)"
    using derive_parts [OF assms(1)] by metis
  have same: "set cands = set candidates" by (simp add: cands)
  from assms(2) obtain r where r: "r \<in> set (edges_of sk dt cands)" "a = sp_superseding r" "b = sp_superseded r"
    unfolding fs supersedes_conclude by (auto split: if_splits)
  then obtain s x where "s \<in> set candidates" "x \<in> set candidates" "edge_of sk dt (s, x) = Some r"
    unfolding edges_mem same by blast
  then show ?thesis using r(2,3) by (auto simp: edge_of_Some replaces_def)
qed

lemma supersedes_acyclic:
  assumes "derive sk candidates dt = Inr fs" and "distinct (map su_key candidates)"
  shows "acyclic (supersedes fs)"
proof -
  define avail where "avail k = the (map_of (map (\<lambda>c. (su_key c, the (su_available_at c))) candidates) k)" for k
  have avail: "avail (su_key c) = the (su_available_at c)" if "c \<in> set candidates" for c
    unfolding avail_def using assms(2) that by (subst map_of_is_SomeI [where y = "the (su_available_at c)"]) (auto simp: comp_def)
  show ?thesis
  proof (rule acyclicI_order)
    fix a b assume "(a, b) \<in> supersedes fs"
    from supersedes_later [OF assms(1) this] obtain s x where sx: "s \<in> set candidates" "x \<in> set candidates" "a = su_key s" "b = su_key x"
      "later_available s x" by blast
    then show "avail b < avail a" using avail by (auto simp: later_available_def split: option.splits)
  qed
qed

lemma dropped_yields:
  assumes "derive sk candidates dt = Inr fs" and "distinct (map su_key candidates)"
    and "o' \<in> set candidates" and "su_key o' \<in> dropped fs"
  shows "\<exists>s \<in> set candidates. su_key s \<notin> dropped fs \<and> (su_key s, su_key o') \<in> (supersedes fs)\<^sup>+ \<and> later_available s o'"
proof -
  note decided = derive_decided [OF assms(1,2)]
  obtain verdicts cands where cands: "cands = sort_key su_key candidates" and
    fs: "fs = conclude_fact (edges_of sk dt cands)
       (List.map_filter (directed_ambiguity (edges_of sk dt cands)) (List.product cands cands) @ concat verdicts)"
    using derive_parts [OF assms(1)] by metis
  have same: "set cands = set candidates" by (simp add: cands)
  have edge: "(su_key s, su_key x) \<in> supersedes fs" if "s \<in> set candidates" "x \<in> set candidates" "replaces dt s x" for s x
  proof -
    note given = that
    obtain r where r: "edge_of sk dt (s, x) = Some r" using given(3) by (auto simp: edge_of_Some)
    then have "r \<in> set (edges_of sk dt cands)" using given(1,2) same unfolding edges_mem by blast
    moreover have "sp_superseding r = su_key s" "sp_superseded r = su_key x" using r by (auto simp: edge_of_Some)
    moreover have "dropped fs \<noteq> {}" using assms(4) by blast
    ultimately show ?thesis unfolding fs dropped_conclude supersedes_conclude
      by (auto split: if_splits intro: rev_image_eqI)
  qed
  define above where "above = {s \<in> set candidates. (su_key s, su_key o') \<in> (supersedes fs)\<^sup>+ \<and> later_available s o'}"
  have later_trans: "later_available a b \<Longrightarrow> later_available b c \<Longrightarrow> later_available a c" for a b c
    by (auto simp: later_available_def split: option.splits)
  have direct: "\<exists>s \<in> set candidates. replaces dt s x" if "x \<in> set candidates" "su_key x \<in> dropped fs" for x
    using decided that by blast
  have "above \<noteq> {}"
    using direct [OF assms(3,4)] edge assms(3) unfolding above_def replaces_def by blast
  moreover have "finite above" by (simp add: above_def)
  ultimately have "Max ((\<lambda>x. the (su_available_at x)) ` above) \<in> (\<lambda>x. the (su_available_at x)) ` above"
    by (intro Max_in) simp_all
  then obtain s where s: "s \<in> above" "Max ((\<lambda>x. the (su_available_at x)) ` above) = the (su_available_at s)" by blast
  have top: "the (su_available_at x) \<le> the (su_available_at s)" if "x \<in> above" for x
    using that \<open>finite above\<close> unfolding s(2) [symmetric] by (intro Max_ge) simp_all
  have "su_key s \<notin> dropped fs"
  proof
    assume "su_key s \<in> dropped fs"
    with s(1) obtain x where x: "x \<in> set candidates" "replaces dt x s" using direct unfolding above_def by blast
    then have "later_available x s" by (simp add: replaces_def)
    moreover have "(su_key x, su_key o') \<in> (supersedes fs)\<^sup>+"
      using edge [OF x(1) _ x(2)] s(1) unfolding above_def by (auto intro: trancl_into_trancl2)
    ultimately have "x \<in> above" using x(1) s(1) later_trans unfolding above_def by blast
    from top [OF this] \<open>later_available x s\<close> show False by (auto simp: later_available_def split: option.splits)
  qed
  with s(1) show ?thesis unfolding above_def by blast
qed

text \<open>
  C39: dropping never goes round in a circle and never empties a fact. The relation of what supersedes what is acyclic, and
  every dropped observation is replaced, directly or through a chain, by an observation that is kept and became
  available strictly later.
\<close>

theorem superseded_yield_to_kept:
  assumes "derive sk candidates dt = Inr fs" and "distinct (map su_key candidates)"
  shows "acyclic (supersedes fs) \<and>
    (\<forall>o' \<in> set candidates. su_key o' \<in> dropped fs \<longrightarrow>
       (\<exists>s \<in> set candidates. su_key s \<notin> dropped fs \<and> (su_key s, su_key o') \<in> (supersedes fs)\<^sup>+ \<and> later_available s o'))"
  using supersedes_acyclic [OF assms] dropped_yields [OF assms] by blast

lemma superseded_yield_to_kept_witness:
  "\<exists>fs. derive (\<lambda>_. []) [original, amended] (\<lambda>_ _. ([], [])) = Inr fs \<and> ''a'' \<in> dropped fs \<and> acyclic (supersedes fs) \<and>
     (\<exists>s \<in> {original, amended}. su_key s \<notin> dropped fs \<and> (su_key s, ''a'') \<in> (supersedes fs)\<^sup>+)"
proof -
  obtain fs where fs: "derive (\<lambda>_. []) [original, amended] (\<lambda>_ _. ([], [])) = Inr fs" "dropped fs = {''a''}"
    using sample_ruled by blast
  with superseded_yield_to_kept [OF fs(1)] show ?thesis by (auto simp: sample_keys)
qed

end
