(* ===== verification/Knowledge.thy ===== *)
theory Knowledge
  imports AsofModel
begin

text \<open>
  What the system knew at a time: f8.knowledge.1 (\<open>financial_asof/knowledge.py\<close>), the configuration in
  force (\<open>config.py\<close>) and F1's merged metadata at a horizon (\<open>metadata.py\<close>).
\<close>

section \<open>When an observation was known\<close>

definition knowledge_terms :: "(string \<times> string) list" where
  "knowledge_terms =
     [(''f1_first_observation'', ''report_filing_observations''),
      (''classification'', ''report_document_classifications''),
      (''issuer_decision'', ''filing_issuer_links''),
      (''f5_run'', ''financial_extraction_runs''),
      (''validation_run'', ''financial_validation_runs''),
      (''source_observation'', ''financial_source_observations'')]"

record knowledge =
  kn_at :: "instant option"
  kn_terms :: "(string \<times> string \<times> string \<times> instant) list"
  kn_set_by :: "(string \<times> string \<times> string) list"
  kn_missing :: "string list"

type_synonym link = "(string \<times> string \<times> instant) option"

definition first_listing :: "evidence \<Rightarrow> int \<Rightarrow> listing_row option" where
  "first_listing ev i = min_on (\<lambda>o'. (lo_observed_at o', lo_id o')) (listings_of ev i)"

definition f1_link :: "evidence \<Rightarrow> stored_observation \<Rightarrow> link" where
  "f1_link ev s = map_option (\<lambda>o'. (''f1_first_observation'', lo_id o', lo_observed_at o')) (first_listing ev (sb_filing s))"

definition run_link :: "extraction_run option \<Rightarrow> link" where
  "run_link run = map_option (\<lambda>r. (''f5_run'', xr_id r, xr_recorded_at r)) run"

definition classification_link :: "evidence \<Rightarrow> extraction_run option \<Rightarrow> link" where
  "classification_link ev run =
     map_option (\<lambda>c. (''classification'', cl_id c, cl_classified_at c))
       (Option.bind run (\<lambda>r. row_of cl_id (ev_classifications ev) (xr_classification_id r)))"

definition validation_link :: "validation_row option \<Rightarrow> link" where
  "validation_link vr = map_option (\<lambda>v. (''validation_run'', vw_key v, vw_recorded_at v)) vr"

definition decision_link :: "evidence \<Rightarrow> validation_row option \<Rightarrow> link" where
  "decision_link ev vr =
     map_option (\<lambda>d. (''issuer_decision'', show_int (de_id d), de_decided_at d))
       (Option.bind (Option.bind vr vw_issuer_link_id) (row_of de_id (ev_decisions ev)))"

definition so_link :: "stored_observation \<Rightarrow> link" where
  "so_link s = Some (''source_observation'', sb_key s, sb_recorded_at s)"

definition run_row :: "evidence \<Rightarrow> stored_observation \<Rightarrow> extraction_run option" where
  "run_row ev s = row_of xr_id (ev_runs ev) (sb_f5_run s)"

definition validation_row_of :: "evidence \<Rightarrow> stored_observation \<Rightarrow> validation_row option" where
  "validation_row_of ev s = row_of vw_key (ev_validations ev) (sb_validation_run s)"

text \<open>The links found, as the dict \<open>found\<close>.\<close>

definition found_links :: "evidence \<Rightarrow> stored_observation \<Rightarrow> (string \<times> string \<times> instant) list" where
  "found_links ev s = List.map_filter id
     [f1_link ev s, run_link (run_row ev s), classification_link ev (run_row ev s),
      validation_link (validation_row_of ev s), decision_link ev (validation_row_of ev s), so_link s]"

definition needed_terms :: "validation_row option \<Rightarrow> string list" where
  "needed_terms vr = filter (\<lambda>t. t \<noteq> ''issuer_decision'' \<or> Option.bind vr vw_issuer_link_id \<noteq> None) (map fst knowledge_terms)"

definition known_terms :: "(string \<times> string \<times> instant) list \<Rightarrow> (string \<times> string \<times> string \<times> instant) list" where
  "known_terms found = List.map_filter (\<lambda>(term, table). map_option (\<lambda>(key, t). (term, table, key, t)) (map_of found term)) knowledge_terms"

definition term_time :: "string \<times> string \<times> string \<times> instant \<Rightarrow> instant" where
  "term_time t = snd (snd (snd t))"

definition known_at :: "evidence \<Rightarrow> stored_observation \<Rightarrow> knowledge" where
  "known_at ev s =
     (let found = found_links ev s; terms = known_terms found;
          missing = filter (\<lambda>t. map_of found t = None) (needed_terms (validation_row_of ev s));
          last_time = max_on id (map term_time terms)
      in if missing \<noteq> [] then \<lparr>kn_at = None, kn_terms = terms, kn_set_by = [], kn_missing = missing\<rparr>
         else \<lparr>kn_at = last_time, kn_terms = terms,
               kn_set_by = map (\<lambda>(term, table, key, t). (term, table, key)) (filter (\<lambda>t. Some (term_time t) = last_time) terms),
               kn_missing = []\<rparr>)"

section \<open>The configuration in force\<close>

definition rule_name :: "string \<Rightarrow> string \<Rightarrow> bool" where
  "rule_name stem s \<longleftrightarrow> match_line (\<lambda>t. take (length stem) t = stem \<and> drop (length stem) t \<noteq> [] \<and>
     list_all is_digit (drop (length stem) t)) s"

definition mk_f8_configuration :: "f8_configuration \<Rightarrow> f8_configuration res" where
  "mk_f8_configuration c =
     guardR (\<not> hex64 (fc_f6_configuration_id c) \<or>
             \<not> rule_name ''f8.selection.'' (rv_selection (fc_rules c)) \<or>
             \<not> rule_name ''f8.availability.'' (rv_availability (fc_rules c)) \<or>
             \<not> rule_name ''f8.supersession.'' (rv_supersession (fc_rules c)) \<or>
             \<not> rule_name ''f8.knowledge.'' (rv_knowledge (fc_rules c)))
       (Refused ''invalid_configuration'') (Inr c)"

definition f8_implemented :: "f8_configuration \<Rightarrow> bool" where
  "f8_implemented c \<longleftrightarrow> fc_rules c = implemented_rules"

definition canonical_purpose :: string where
  "canonical_purpose = ''canonical''"

definition in_force :: "designation_row list \<Rightarrow> instant \<Rightarrow> designation_row option" where
  "in_force designations h =
     max_on dg_id (filter (\<lambda>d. dg_purpose d = canonical_purpose) (known_by dg_recorded_at h designations))"

definition pinned_or_designated :: "evidence \<Rightarrow> string option \<Rightarrow> instant \<Rightarrow> (string \<times> designation_row option) res" where
  "pinned_or_designated ev pinned h =
     (case pinned of
        Some k \<Rightarrow> Inr (k, None)
      | None \<Rightarrow> (case in_force (ev_f8_designations ev) h of
            None \<Rightarrow> Inl (Refused ''no_designated_configuration'')
          | Some d \<Rightarrow> Inr (dg_configuration_id d, Some d)))"

definition resolve :: "evidence \<Rightarrow> string option \<Rightarrow> instant \<Rightarrow> (f8_configuration \<times> designation_row option) res" where
  "resolve ev pinned h =
     bindR (pinned_or_designated ev pinned h) (\<lambda>(k, designation).
     case row_of f8_id (ev_f8_configurations ev) k of
       None \<Rightarrow> Inl (Refused ''configuration_not_registered'')
     | Some row \<Rightarrow>
         (case f8_configuration row of
            None \<Rightarrow> Inl (Refused ''configuration_not_implemented'')
          | Some c \<Rightarrow>
              guardR (\<not> f8_implemented c) (Refused ''configuration_not_implemented'')
              (case row_of f6_id (ev_f6_configurations ev) (fc_f6_configuration_id c) of
                 None \<Rightarrow> Inl (Refused ''f6_configuration_not_registered'')
               | Some f6 \<Rightarrow> guardR (f6_configuration f6 = None) (Refused ''f6_configuration_not_implemented'')
                   (Inr (c, designation)))))"

section \<open>F1's metadata at a horizon\<close>

definition max_tie_combinations :: nat where
  "max_tie_combinations = 256"

record metadata_as_of =
  ma_filing :: int
  ma_horizon :: instant
  ma_uploaded_at :: "instant option list"
  ma_tie :: bool
  ma_observation_ids :: "string list"

definition lo_source :: "listing_row \<Rightarrow> string" where
  "lo_source o' = source_key_of (lo_endpoint o') (lo_bucket o') (lo_query_symbol o')"

text \<open>Per source key the rows that share the latest observation time, ties kept.\<close>

definition current_versions :: "listing_row list \<Rightarrow> instant \<Rightarrow> (string \<times> listing_row list) list" where
  "current_versions observations h =
     map (\<lambda>(k, rows). (k, sort_key (\<lambda>o'. (lo_hash o', lo_id o'))
         (filter (\<lambda>o'. Some (lo_observed_at o') = max_on id (map lo_observed_at rows)) rows)))
       (group_on lo_source (known_by lo_observed_at h observations))"

definition merged_upload :: "reader \<Rightarrow> (string \<times> listing_row) list \<Rightarrow> instant option res" where
  "merged_upload rd combination =
     bindR (as_evidence (normalize_filing rd (map (\<lambda>(k, o'). (k, lo_raw_item o')) combination) (\<lambda>_. None))) (\<lambda>(row, _).
       Inr (case map_of (nr_values row) ''uploaded_at'' of Some (FTime t) \<Rightarrow> Some t | _ \<Rightarrow> None))"

definition none_before :: "instant option \<Rightarrow> bool \<times> instant" where
  "none_before v = (v \<noteq> None, case v of None \<Rightarrow> 0 | Some t \<Rightarrow> t)"

definition as_of :: "reader \<Rightarrow> evidence \<Rightarrow> int \<Rightarrow> instant \<Rightarrow> metadata_as_of res" where
  "as_of rd ev i h =
     (let current = current_versions (listings_of ev i) h; sources = map fst current; choices = map snd current;
          ids = sort (map lo_id (concat choices))
      in if max_tie_combinations < prod_list (map length choices)
         then Inr \<lparr>ma_filing = i, ma_horizon = h, ma_uploaded_at = [], ma_tie = True, ma_observation_ids = ids\<rparr>
         else bindR (mapR (\<lambda>combination. merged_upload rd (zip sources combination)) (product_lists choices)) (\<lambda>found.
           let ordered = sort_key none_before (remdups found)
           in Inr \<lparr>ma_filing = i, ma_horizon = h, ma_uploaded_at = ordered, ma_tie = 1 < length ordered,
                  ma_observation_ids = ids\<rparr>))"

end
