(* ===== verification/AsofQuery.thy ===== *)
theory AsofQuery
  imports Knowledge
begin

text \<open>
  The as-of query (\<open>financial_asof/query.py\<close>): its checked inputs, the four modes and their labels, the
  governing horizon and the fact filter. Cutoffs are instants; \<open>period_end\<close> texts are read in the documented
  form YYYY-MM-DD.
\<close>

definition modes :: "string list" where
  "modes = [''KNOWN_RECORDED'', ''KNOWN'', ''AVAILABLE'', ''CURRENT'']"

definition mode_labels :: "(string \<times> string) list" where
  "mode_labels = [(''KNOWN_RECORDED'', ''known_recorded''), (''KNOWN'', ''known''), (''AVAILABLE'', ''reconstructed''),
     (''CURRENT'', ''retrospective_current'')]"

definition label_of :: "string \<Rightarrow> string" where
  "label_of mode = (case map_of mode_labels mode of None \<Rightarrow> [] | Some l \<Rightarrow> l)"

definition point_in_time_modes :: "string list" where
  "point_in_time_modes = [''KNOWN_RECORDED'', ''KNOWN'', ''AVAILABLE'']"

definition live_modes :: "string list" where
  "live_modes = [''KNOWN_RECORDED'', ''KNOWN'']"

definition filter_field_names :: "string list" where
  "filter_field_names = [''concept_key'', ''period_kind'', ''period_end'', ''duration_months'', ''scope'', ''operations'',
     ''maturity'', ''currency'']"

section \<open>The fact filter\<close>

datatype filter_input = GivenText string | GivenNumber int | GivenDate date | GivenNone | GivenOther

datatype filter_value = TextValue string | NumberValue int | NoValue

record fact_filter =
  ff_ef_keys :: "string list"
  ff_fields :: "(string \<times> filter_value) list"

datatype fact_request =
    EveryFact
  | GivenFilter fact_filter
  | ByFields "(string \<times> filter_input) list"
  | ByKeys "string list"
  | NotARequest

definition read_iso_date :: "string \<Rightarrow> date option" where
  "read_iso_date s =
     (let y = take 4 s; m = take 2 (drop 5 s); d = drop 8 s
      in if length s = 10 \<and> s ! 4 = CHR ''-'' \<and> s ! 7 = CHR ''-'' \<and> list_all is_digit (y @ m @ d) \<and>
            valid_date (Date (number_of y) (number_of m) (number_of d))
         then Some (Date (number_of y) (number_of m) (number_of d)) else None)"

definition bad_filter :: exc where
  "bad_filter = Refused ''invalid_fact_filter''"

definition filter_value_of :: "string \<Rightarrow> filter_input \<Rightarrow> filter_value res" where
  "filter_value_of name given =
     (if name = ''period_end'' then
        (case given of
           GivenDate d \<Rightarrow> Inr (TextValue (isoformat d))
         | GivenText s \<Rightarrow> (case read_iso_date s of None \<Rightarrow> Inl bad_filter | Some d \<Rightarrow> Inr (TextValue (isoformat d)))
         | _ \<Rightarrow> Inl bad_filter)
      else if name = ''duration_months'' then
        (case given of
           GivenNone \<Rightarrow> Inr NoValue
         | GivenNumber n \<Rightarrow> guardR (n \<le> 0) bad_filter (Inr (NumberValue n))
         | _ \<Rightarrow> Inl bad_filter)
      else (case given of GivenText s \<Rightarrow> guardR (s = []) bad_filter (Inr (TextValue s)) | _ \<Rightarrow> Inl bad_filter))"

definition filter_of :: "fact_request \<Rightarrow> fact_filter res" where
  "filter_of request =
     (case request of
        EveryFact \<Rightarrow> Inr \<lparr>ff_ef_keys = [], ff_fields = []\<rparr>
      | GivenFilter f \<Rightarrow> Inr f
      | ByFields facts \<Rightarrow>
          guardR (list_ex (\<lambda>(k, v). k \<notin> set filter_field_names) facts) bad_filter
          (bindR (mapR (\<lambda>(k, v). bindR (filter_value_of k v) (\<lambda>w. Inr (k, w))) facts) (\<lambda>pairs.
             Inr \<lparr>ff_ef_keys = [], ff_fields = sort_key fst pairs\<rparr>))
      | ByKeys ks \<Rightarrow>
          guardR (ks = [] \<or> list_ex (\<lambda>k. \<not> hex64 k) ks) bad_filter (Inr \<lparr>ff_ef_keys = sorted_set ks, ff_fields = []\<rparr>)
      | NotARequest \<Rightarrow> Inl bad_filter)"

definition identity_value :: "economic_fact \<Rightarrow> string \<Rightarrow> filter_value" where
  "identity_value i name =
     (if name = ''concept_key'' then TextValue (ef_concept_key i)
      else if name = ''period_kind'' then TextValue (ef_period_kind i)
      else if name = ''period_end'' then TextValue (isoformat (ef_period_end i))
      else if name = ''duration_months'' then (case ef_duration_months i of None \<Rightarrow> NoValue | Some n \<Rightarrow> NumberValue n)
      else if name = ''scope'' then TextValue (ef_scope i)
      else if name = ''operations'' then TextValue (ef_operations i)
      else if name = ''maturity'' then TextValue (ef_maturity i)
      else TextValue (ef_currency i))"

definition filter_matches :: "fact_filter \<Rightarrow> string \<Rightarrow> economic_fact \<Rightarrow> bool" where
  "filter_matches f k i \<longleftrightarrow>
     (if ff_ef_keys f \<noteq> [] then k \<in> set (ff_ef_keys f)
      else list_all (\<lambda>(name, want). identity_value i name = want) (ff_fields f))"

section \<open>The query\<close>

record query =
  qu_issuer_id :: string
  qu_facts :: fact_filter
  qu_mode :: string
  qu_cutoff :: "instant option"
  qu_horizon :: "instant option"
  qu_f8_configuration_id :: "string option"

definition governing_horizon :: "query \<Rightarrow> instant option" where
  "governing_horizon q = (if qu_mode q \<in> set live_modes then qu_cutoff q else qu_horizon q)"

fun hex_groups :: "nat list \<Rightarrow> string \<Rightarrow> bool" where
  "hex_groups [] s = False"
| "hex_groups [n] s = (length s = n \<and> list_all is_lower_hex s)"
| "hex_groups (n # ns) s = (n < length s \<and> list_all is_lower_hex (take n s) \<and> s ! n = CHR ''-'' \<and> hex_groups ns (drop (Suc n) s))"

definition uuid :: "string \<Rightarrow> bool" where
  "uuid s \<longleftrightarrow> match_line (hex_groups [8, 4, 4, 4, 12]) s"

definition mk_query ::
  "string \<Rightarrow> fact_request \<Rightarrow> string \<Rightarrow> instant option \<Rightarrow> instant option \<Rightarrow> string option \<Rightarrow> query res" where
  "mk_query issuer facts mode t h pinned =
     guardR (mode \<notin> set modes) (Refused ''unknown_mode'')
     (guardR (\<not> uuid issuer) (Refused ''identity_unresolved'')
     (guardR (mode = ''CURRENT'' \<and> t \<noteq> None) (Refused ''cutoff_not_allowed'')
     (guardR (mode \<noteq> ''CURRENT'' \<and> t = None) (Refused ''cutoff_required'')
     (guardR (mode \<in> set live_modes \<and> h \<noteq> None) (Refused ''horizon_not_allowed'')
     (guardR (mode = ''AVAILABLE'' \<and> (case (h, t) of (Some h', Some t') \<Rightarrow> h' < t' | _ \<Rightarrow> False)) (Refused ''horizon_before_cutoff'')
     (guardR (case pinned of None \<Rightarrow> False | Some k \<Rightarrow> \<not> hex64 k) (Refused ''invalid_configuration'')
     (bindR (filter_of facts) (\<lambda>f.
        Inr \<lparr>qu_issuer_id = issuer, qu_facts = f, qu_mode = mode, qu_cutoff = t, qu_horizon = h,
             qu_f8_configuration_id = pinned\<rparr>))))))))"

definition with_horizon :: "query \<Rightarrow> instant option \<Rightarrow> query res" where
  "with_horizon q h =
     mk_query (qu_issuer_id q) (GivenFilter (qu_facts q)) (qu_mode q) (qu_cutoff q) h (qu_f8_configuration_id q)"

definition with_cutoff :: "query \<Rightarrow> instant option \<Rightarrow> query res" where
  "with_cutoff q t =
     mk_query (qu_issuer_id q) (GivenFilter (qu_facts q)) (qu_mode q) t (qu_horizon q) (qu_f8_configuration_id q)"

end
