(* ===== verification/AsofSelection.thy ===== *)
theory AsofSelection
  imports Availability Knowledge Supersession AsofQuery
begin

text \<open>
  f8.selection.1 (\<open>financial_asof/selection.py\<close>) and its result (\<open>result.py\<close>): the four modes evaluated over
  the evidence. The texts of instants are kept as instants; hashes are parameters. The availability cache is a
  pure memo, so each use calls the rule.
\<close>

section \<open>The result\<close>

record version_view =
  vv_filing :: int
  vv_available_at :: "instant option"
  vv_precision :: "string option"
  vv_role :: string
  vv_basis :: string
  vv_flags :: "string list"
  vv_evidence_hash :: string

record availability_view =
  aw_policy :: string
  aw_available_at :: "instant option"
  aw_precision :: "string option"
  aw_versions :: "version_view list"
  aw_flags :: "string list"

record knowledge_view =
  kv_rule :: string
  kv_known_at :: "instant option"
  kv_set_by :: "(string \<times> string \<times> string) list"

record observation_view =
  ow_so_key :: string
  ow_so_output_hash :: string
  ow_document_sha256 :: string
  ow_cse_filing_id :: int
  ow_f5_run_id :: string
  ow_validation_run_key :: string
  ow_availability :: availability_view
  ow_knowledge :: knowledge_view
  ow_flags :: "string list"

record exclusion =
  ex_so_key :: string
  ex_document_sha256 :: string
  ex_cse_filing_id :: int
  ex_f5_run_id :: string
  ex_validation_run_key :: string
  ex_reason :: string
  ex_superseded_by :: "string list"

record fact_view =
  fw_ef_key :: string
  fw_identity :: "economic_fact option"
  fw_state :: string
  fw_value_kind :: "string option"
  fw_interval_low :: "dec option"
  fw_interval_high :: "dec option"
  fw_representative :: "reported_record option"
  fw_representative_normalized_value :: "dec option"
  fw_representative_half_unit :: "dec option"
  fw_f6_result :: "reconciliation_result option"
  fw_visible :: "observation_view list"
  fw_excluded :: "exclusion list"
  fw_supersession :: "supersession_record list"
  fw_ambiguities :: "ambiguity list"
  fw_flags :: "string list"
  fw_counts :: "(string \<times> nat) list"

record recorded_batch =
  rk_batch_id :: string
  rk_sequence :: int
  rk_recorded_at :: instant
  rk_output_hash :: string

record as_of_result =
  ar_mode :: string
  ar_label :: string
  ar_cutoff :: "instant option"
  ar_horizon :: "instant option"
  ar_issuer_id :: string
  ar_facts_requested :: fact_filter
  ar_f8_configuration_id :: string
  ar_f6_configuration_id :: string
  ar_rule_versions :: rule_versions
  ar_recorded_batch :: "recorded_batch option"
  ar_facts :: "fact_view list"
  ar_result_hash :: string

record selection_digests = asof_digests +
  xs_reconcile :: reconcile_digests
  xs_show_key :: "source_key \<Rightarrow> string"
  xs_configuration :: "f8_configuration \<Rightarrow> string"
  xs_result :: "as_of_result \<Rightarrow> string"

definition computed_hash :: "selection_digests \<Rightarrow> as_of_result \<Rightarrow> string" where
  "computed_hash xs r = xs_result xs (r\<lparr>ar_result_hash := []\<rparr>)"

definition verify :: "selection_digests \<Rightarrow> as_of_result \<Rightarrow> bool" where
  "verify xs r \<longleftrightarrow> ar_result_hash r \<noteq> [] \<and> ar_result_hash r = computed_hash xs r"

definition seal :: "selection_digests \<Rightarrow> as_of_result \<Rightarrow> as_of_result" where
  "seal xs r = r\<lparr>ar_result_hash := computed_hash xs r\<rparr>"

definition result_fact :: "as_of_result \<Rightarrow> string \<Rightarrow> fact_view option" where
  "result_fact r k = find (\<lambda>f. fw_ef_key f = k) (ar_facts r)"

section \<open>The validation run canonical at a horizon\<close>

record canonical_run =
  cn_kind :: string
  cn_run :: "validation_row option"
  cn_candidates :: "validation_row list"

definition link_at :: "evidence \<Rightarrow> int \<Rightarrow> instant \<Rightarrow> int option" where
  "link_at ev i h = max_on id (map de_id (known_by de_decided_at h (decisions_of ev i)))"

definition validations_at :: "evidence \<Rightarrow> extraction_run \<Rightarrow> version_set \<Rightarrow> instant \<Rightarrow> validation_row list" where
  "validations_at ev run vs h =
     filter (\<lambda>v. vw_versions v = vs \<and> vw_issuer_link_id v = link_at ev (xr_filing run) h)
       (known_by vw_recorded_at h (validations_of ev (xr_id run)))"

definition choose_canonical :: "metadata_as_of \<Rightarrow> validation_row list \<Rightarrow> canonical_run res" where
  "choose_canonical meta known =
     (if ma_tie meta
      then Inr \<lparr>cn_kind = ''tie'', cn_run = None, cn_candidates = sort_key vw_key
             (filter (\<lambda>v. ma_uploaded_at meta = [] \<or> vw_publication v \<in> set (ma_uploaded_at meta)) known)\<rparr>
      else (case filter (\<lambda>v. vw_publication v = hd (ma_uploaded_at meta)) known of
          [] \<Rightarrow> Inr \<lparr>cn_kind = ''none'', cn_run = None, cn_candidates = []\<rparr>
        | [v] \<Rightarrow> Inr \<lparr>cn_kind = ''one'', cn_run = Some v, cn_candidates = []\<rparr>
        | _ \<Rightarrow> Inl EvidenceError))"

definition canonical_validation_run ::
  "reader \<Rightarrow> evidence \<Rightarrow> extraction_run \<Rightarrow> version_set \<Rightarrow> instant \<Rightarrow> canonical_run res" where
  "canonical_validation_run rd ev run vs h =
     bindR (as_of rd ev (xr_filing run) h) (\<lambda>meta. choose_canonical meta (validations_at ev run vs h))"

definition runs_to_read :: "canonical_run \<Rightarrow> validation_row list" where
  "runs_to_read c = (if cn_kind c = ''tie'' then cn_candidates c else (case cn_run c of None \<Rightarrow> [] | Some v \<Rightarrow> [v]))"

definition issuer_observations :: "evidence \<Rightarrow> validation_row \<Rightarrow> string \<Rightarrow> stored_observation list" where
  "issuer_observations ev vr issuer = filter (\<lambda>s. ef_issuer_id (sb_identity s) = issuer) (observations_of ev (vw_key vr))"

section \<open>Views\<close>

definition version_view_of :: "version_avail \<Rightarrow> version_view" where
  "version_view_of v =
     \<lparr>vv_filing = va_filing v, vv_available_at = va_at v, vv_precision = va_precision v, vv_role = va_role v,
      vv_basis = va_basis v, vv_flags = va_flags v, vv_evidence_hash = va_evidence_hash v\<rparr>"

definition availability_view_of :: "document_avail \<Rightarrow> availability_view" where
  "availability_view_of d =
     \<lparr>aw_policy = availability_version, aw_available_at = da_at d, aw_precision = da_precision d,
      aw_versions = map version_view_of (da_versions d), aw_flags = da_flags d\<rparr>"

definition text_of_option :: "string option \<Rightarrow> string" where
  "text_of_option t = (case t of None \<Rightarrow> ''None'' | Some s \<Rightarrow> s)"

definition available_after_known :: "knowledge \<Rightarrow> document_avail \<Rightarrow> bool" where
  "available_after_known k d \<longleftrightarrow> (case (da_at d, kn_at k) of (Some a, Some t) \<Rightarrow> t < a | _ \<Rightarrow> False)"

definition observation_view_of :: "stored_observation \<Rightarrow> knowledge \<Rightarrow> document_avail \<Rightarrow> observation_view" where
  "observation_view_of s k d =
     \<lparr>ow_so_key = sb_key s, ow_so_output_hash = so_output_hash (sb_so s), ow_document_sha256 = sb_sha s,
      ow_cse_filing_id = sb_filing s, ow_f5_run_id = sb_f5_run s, ow_validation_run_key = sb_validation_run s,
      ow_availability = availability_view_of d,
      ow_knowledge = \<lparr>kv_rule = knowledge_version, kv_known_at = kn_at k, kv_set_by = kn_set_by k\<rparr>,
      ow_flags = sorted_set (da_flags d @ (if available_after_known k d
        then [''available_after_known:'' @ text_of_option (da_precision d)] else []))\<rparr>"

definition exclusion_of :: "stored_observation \<Rightarrow> string \<Rightarrow> string list \<Rightarrow> exclusion" where
  "exclusion_of s reason by =
     \<lparr>ex_so_key = sb_key s, ex_document_sha256 = sb_sha s, ex_cse_filing_id = sb_filing s, ex_f5_run_id = sb_f5_run s,
      ex_validation_run_key = sb_validation_run s, ex_reason = reason, ex_superseded_by = by\<rparr>"

definition exclusion_reasons :: "string list" where
  "exclusion_reasons = [''not_yet_available'', ''metadata_version_tie'', ''superseded_by'']"

definition count_reason :: "exclusion list \<Rightarrow> string \<Rightarrow> nat" where
  "count_reason excluded reason = length (filter (\<lambda>e. ex_reason e = reason) excluded)"

definition fact_view_of ::
  "string \<Rightarrow> economic_fact option \<Rightarrow> reconciliation_result option \<Rightarrow> observation_view list \<Rightarrow> exclusion list \<Rightarrow>
   supersession_record list \<Rightarrow> ambiguity list \<Rightarrow> fact_view" where
  "fact_view_of k i r visible excluded records ambiguities =
     \<lparr>fw_ef_key = k, fw_identity = i, fw_state = (case r of None \<Rightarrow> ''none'' | Some x \<Rightarrow> rr_state x),
      fw_value_kind = Option.bind r rr_value_kind, fw_interval_low = Option.bind r rr_interval_low,
      fw_interval_high = Option.bind r rr_interval_high, fw_representative = Option.bind r rr_representative,
      fw_representative_normalized_value = Option.bind r rr_representative_normalized_value,
      fw_representative_half_unit = Option.bind r rr_representative_half_unit, fw_f6_result = r,
      fw_visible = sort_key (\<lambda>o'. (ow_document_sha256 o', ow_so_key o')) visible,
      fw_excluded = sort_key (\<lambda>e. (ex_reason e, ex_document_sha256 e, ex_so_key e)) excluded,
      fw_supersession = records, fw_ambiguities = ambiguities,
      fw_flags = (if ambiguities \<noteq> [] then [''ambiguous_supersession''] else []) @
        (if count_reason excluded ''metadata_version_tie'' \<noteq> 0 then [''metadata_version_tie''] else []),
      fw_counts = List.map_filter (\<lambda>reason. if count_reason excluded reason = 0 then None
        else Some (reason, count_reason excluded reason)) exclusion_reasons\<rparr>"

end
