(* ===== verification/AsofEvaluate.thy ===== *)
theory AsofEvaluate
  imports AsofSelection
begin

text \<open>
  The evaluation of an as-of query (\<open>financial_asof/selection.py\<close>, \<open>_held_observations\<close> to \<open>evaluate\<close>) and the
  point-in-time interfaces (\<open>pit.py\<close>).
\<close>

section \<open>Observations held at a horizon\<close>

type_synonym held = "stored_observation \<times> knowledge \<times> bool"

type_synonym shown_item = "stored_observation \<times> knowledge \<times> document_avail"

definition known_within :: "instant \<Rightarrow> knowledge \<Rightarrow> bool" where
  "known_within h k \<longleftrightarrow> (case kn_at k of None \<Rightarrow> False | Some t \<Rightarrow> t \<le> h)"

definition held_of_run ::
  "reader \<Rightarrow> evidence \<Rightarrow> version_set \<Rightarrow> instant \<Rightarrow> string \<Rightarrow> run_selection \<Rightarrow> held list res" where
  "held_of_run rd ev vs h issuer d =
     (case row_of xr_id (ev_runs ev) (rs_selected_run d) of
        None \<Rightarrow> Inl KeyErr
      | Some run \<Rightarrow> bindR (canonical_validation_run rd ev run vs h) (\<lambda>c.
          Inr (filter (\<lambda>(s, k, tie). known_within h k)
            (map (\<lambda>s. (s, known_at ev s, cn_kind c = ''tie''))
              (concat (map (\<lambda>v. issuer_observations ev v issuer) (runs_to_read c)))))))"

definition held_observations ::
  "reader \<Rightarrow> selection_digests \<Rightarrow> evidence \<Rightarrow> extraction_run list \<Rightarrow> instant \<Rightarrow> string \<Rightarrow> configuration \<Rightarrow>
   (selection \<times> held list) res" where
  "held_observations rd xs ev runs h issuer f6 =
     bindR (select_runs (rd_configuration (xs_reconcile xs)) (map xr_ref runs) f6) (\<lambda>chosen.
     bindR (mapR (held_of_run rd ev (cf_versions f6) h issuer) (sl_documents chosen)) (\<lambda>out. Inr (chosen, concat out)))"

section \<open>The recomputed modes\<close>

definition by_cutoff :: "instant option \<Rightarrow> instant \<Rightarrow> bool" where
  "by_cutoff cutoff a \<longleftrightarrow> (case cutoff of None \<Rightarrow> False | Some t \<Rightarrow> a \<le> t)"

definition in_view :: "string \<Rightarrow> instant option \<Rightarrow> instant option \<Rightarrow> bool" where
  "in_view mode cutoff a \<longleftrightarrow>
     (if mode = ''KNOWN'' then (case a of None \<Rightarrow> True | Some x \<Rightarrow> by_cutoff cutoff x)
      else if mode = ''AVAILABLE'' then (case a of None \<Rightarrow> False | Some x \<Rightarrow> by_cutoff cutoff x)
      else True)"

definition judge_run ::
  "reader \<Rightarrow> selection_digests \<Rightarrow> evidence \<Rightarrow> string \<Rightarrow> instant option \<Rightarrow> instant \<Rightarrow> extraction_run \<Rightarrow>
   (extraction_run \<times> bool) res" where
  "judge_run rd xs ev mode cutoff h r =
     bindR (version_availability rd (asof_digests.truncate xs) ev (xr_filing r) (xr_sha r) h) (\<lambda>a.
       Inr (r, in_view mode cutoff (va_at a)))"

definition carriers :: "extraction_run list \<Rightarrow> string \<Rightarrow> int list" where
  "carriers shown sha = sorted_set (map xr_filing (filter (\<lambda>r. xr_sha r = sha) shown))"

definition document_at ::
  "reader \<Rightarrow> selection_digests \<Rightarrow> evidence \<Rightarrow> instant \<Rightarrow> string \<Rightarrow> int list \<Rightarrow> document_avail res" where
  "document_at rd xs ev h sha filings =
     bindR (mapR (\<lambda>i. version_availability rd (asof_digests.truncate xs) ev i sha h) filings) (\<lambda>vs.
       Inr (document_availability sha vs))"

definition shown_documents ::
  "reader \<Rightarrow> selection_digests \<Rightarrow> evidence \<Rightarrow> instant \<Rightarrow> extraction_run list \<Rightarrow> (string \<times> document_avail) list res" where
  "shown_documents rd xs ev h shown =
     mapR (\<lambda>sha. bindR (document_at rd xs ev h sha (carriers shown sha)) (\<lambda>d. Inr (sha, d))) (sorted_set (map xr_sha shown))"

text \<open>The visible set: the availability test is repeated for each observation.\<close>

definition show_item ::
  "string \<Rightarrow> instant option \<Rightarrow> (string \<times> document_avail) list \<Rightarrow> held \<Rightarrow> shown_item res" where
  "show_item mode cutoff documents x =
     (case map_of documents (sb_sha (fst x)) of
        None \<Rightarrow> Inl KeyErr
      | Some d \<Rightarrow> guardR (\<not> in_view mode cutoff (da_at d)) EvidenceError (Inr (fst x, fst (snd x), d)))"

definition document_times_at :: "evidence \<Rightarrow> instant \<Rightarrow> document_times" where
  "document_times_at ev h i sha =
     (let runs = filter (\<lambda>r. xr_sha r = sha) (known_by xr_recorded_at h (runs_of_filing ev i))
      in (List.map_filter xr_last_modified runs, List.map_filter xr_path_epoch runs))"

definition items_of :: "shown_item list \<Rightarrow> string \<Rightarrow> shown_item list" where
  "items_of shown_set k = filter (\<lambda>x. sb_ef_key (fst x) = k) shown_set"

definition fact_identity :: "shown_item list \<Rightarrow> (stored_observation \<times> string) list \<Rightarrow> string \<Rightarrow> economic_fact option" where
  "fact_identity shown_set excluded k =
     (case items_of shown_set k of
        [] \<Rightarrow> map_option (\<lambda>x. sb_identity (fst x)) (find (\<lambda>x. sb_ef_key (fst x) = k) excluded)
      | items \<Rightarrow> Some (sb_identity (fst (last items))))"

definition candidate_of :: "extraction_run list \<Rightarrow> shown_item \<Rightarrow> candidate" where
  "candidate_of shown x =
     \<lparr>su_observation = sb_so (fst x), su_available_at = da_at (snd (snd x)), su_filings = carriers shown (sb_sha (fst x))\<rparr>"

definition reconcile_kept ::
  "selection_digests \<Rightarrow> configuration \<Rightarrow> selection \<Rightarrow> shown_item list \<Rightarrow> shown_item list \<Rightarrow> reconciliation_result option res" where
  "reconcile_kept xs f6 sel shown_set kept =
     (if kept = [] then Inr None
      else bindR (reconcile_fact (xs_reconcile xs) (map (\<lambda>x. sb_so (fst x)) kept) f6 (filings_of sel)
          (others_of (map (\<lambda>x. sb_so (fst x)) shown_set) (map (\<lambda>x. sb_so (fst x)) kept))) (\<lambda>r. Inr (Some r)))"

definition conclude_view ::
  "shown_item list \<Rightarrow> (stored_observation \<times> string) list \<Rightarrow> string \<Rightarrow> fact_supersession \<Rightarrow> shown_item list \<Rightarrow>
   reconciliation_result option \<Rightarrow> fact_view" where
  "conclude_view shown_set excluded k ruling kept r =
     fact_view_of k (fact_identity shown_set excluded k) r
       (map (\<lambda>(s, kn, d). observation_view_of s kn d) kept)
       (map (\<lambda>(s, reason). exclusion_of s reason []) (filter (\<lambda>x. sb_ef_key (fst x) = k) excluded) @
        List.map_filter (\<lambda>x. map_option (exclusion_of (fst x) ''superseded_by'') (map_of (fs_superseded_by ruling) (sb_key (fst x))))
          (items_of shown_set k))
       (fs_records ruling) (fs_ambiguities ruling)"

definition conclude_key ::
  "selection_digests \<Rightarrow> configuration \<Rightarrow> document_times \<Rightarrow> extraction_run list \<Rightarrow> selection \<Rightarrow> shown_item list \<Rightarrow>
   (stored_observation \<times> string) list \<Rightarrow> string \<Rightarrow> (string \<times> fact_view) res" where
  "conclude_key xs f6 dt shown sel shown_set excluded k =
     bindR (derive (xs_show_key xs) (map (candidate_of shown) (items_of shown_set k)) dt) (\<lambda>ruling.
       let kept = filter (\<lambda>x. map_of (fs_superseded_by ruling) (sb_key (fst x)) = None) (items_of shown_set k)
       in bindR (reconcile_kept xs f6 sel shown_set kept) (\<lambda>r. Inr (k, conclude_view shown_set excluded k ruling kept r)))"

definition pending_observations ::
  "reader \<Rightarrow> selection_digests \<Rightarrow> evidence \<Rightarrow> query \<Rightarrow> instant \<Rightarrow> configuration \<Rightarrow> extraction_run list \<Rightarrow>
   extraction_run list \<Rightarrow> held list res" where
  "pending_observations rd xs ev q h f6 shown hidden =
     (if qu_mode q = ''KNOWN''
      then bindR (held_observations rd xs ev (filter (\<lambda>r. xr_sha r \<notin> set (map xr_sha shown)) hidden) h (qu_issuer_id q) f6)
        (\<lambda>p. Inr (snd p))
      else Inr [])"

definition recomputed ::
  "reader \<Rightarrow> selection_digests \<Rightarrow> evidence \<Rightarrow> query \<Rightarrow> instant \<Rightarrow> configuration \<Rightarrow> (string \<times> fact_view) list res" where
  "recomputed rd xs ev q h f6 =
     bindR (mapR (judge_run rd xs ev (qu_mode q) (qu_cutoff q) h) (known_by xr_recorded_at h (ev_runs ev))) (\<lambda>judged.
     let shown = map fst (filter snd judged); hidden = map fst (filter (\<lambda>p. \<not> snd p) judged)
     in bindR (shown_documents rd xs ev h shown) (\<lambda>documents.
        bindR (held_observations rd xs ev shown h (qu_issuer_id q) f6) (\<lambda>(sel, held).
        bindR (mapR (show_item (qu_mode q) (qu_cutoff q) documents) (filter (\<lambda>x. \<not> snd (snd x)) held)) (\<lambda>shown_set.
        bindR (pending_observations rd xs ev q h f6 shown hidden) (\<lambda>pending.
        let excluded = map (\<lambda>x. (fst x, ''metadata_version_tie'')) (filter (\<lambda>x. snd (snd x)) held) @
              map (\<lambda>x. (fst x, ''not_yet_available'')) pending
        in mapR (conclude_key xs f6 (document_times_at ev h) shown sel shown_set excluded)
             (sorted_set (map (\<lambda>x. sb_ef_key (fst x)) shown_set @ map (\<lambda>x. sb_ef_key (fst x)) excluded)))))))"

section \<open>The recorded mode\<close>

definition batch_in_force :: "evidence \<Rightarrow> string \<Rightarrow> string \<Rightarrow> instant \<Rightarrow> stored_batch option" where
  "batch_in_force ev f6_id' issuer h =
     max_on bt_sequence (filter (\<lambda>b. bt_configuration_id b = f6_id' \<and> bt_issuer b = issuer) (known_by bt_recorded_at h (ev_batches ev)))"

definition recorded_view ::
  "reader \<Rightarrow> selection_digests \<Rightarrow> evidence \<Rightarrow> instant \<Rightarrow> observation_ref \<Rightarrow> observation_view res" where
  "recorded_view rd xs ev h ref =
     (case row_of sb_key (ev_observations ev) (ob_so_key ref) of
        None \<Rightarrow> Inl EvidenceError
      | Some s \<Rightarrow>
          guardR (\<not> known_within h (known_at ev s)) EvidenceError
          (bindR (document_at rd xs ev h (sb_sha s) (sorted_set (map xr_filing (known_by xr_recorded_at h (runs_of_document ev (sb_sha s)))))) (\<lambda>d.
             Inr (observation_view_of s (known_at ev s) d))))"

definition recorded_fact ::
  "reader \<Rightarrow> selection_digests \<Rightarrow> evidence \<Rightarrow> instant \<Rightarrow> stored_record \<Rightarrow> (string \<times> fact_view) res" where
  "recorded_fact rd xs ev h rec =
     bindR (mapR (recorded_view rd xs ev h) (rr_observations (sr_result rec))) (\<lambda>views.
       Inr (sr_ef_key rec, fact_view_of (sr_ef_key rec) (Some (rr_identity (sr_result rec))) (Some (sr_result rec)) views [] [] []))"

definition dict_of :: "('k \<times> 'v) list \<Rightarrow> ('k \<times> 'v) list" where
  "dict_of ps = fold (\<lambda>(k, v). dict_set k v) ps []"

definition recorded_facts ::
  "reader \<Rightarrow> selection_digests \<Rightarrow> evidence \<Rightarrow> query \<Rightarrow> instant \<Rightarrow> string \<Rightarrow>
   ((string \<times> fact_view) list \<times> recorded_batch option) res" where
  "recorded_facts rd xs ev q h f6_id' =
     (case in_force (ev_f6_designations ev) h of
        None \<Rightarrow> Inl (Refused ''no_f6_designation'')
      | Some d \<Rightarrow>
          guardR (dg_configuration_id d \<noteq> f6_id') (Refused ''f6_configuration_mismatch'')
          (case batch_in_force ev f6_id' (qu_issuer_id q) h of
             None \<Rightarrow> Inr ([], None)
           | Some b \<Rightarrow>
               (case bt_records b of
                  None \<Rightarrow> Inl EvidenceError
                | Some records \<Rightarrow> bindR (mapR (recorded_fact rd xs ev h) records) (\<lambda>facts.
                    Inr (dict_of facts, Some \<lparr>rk_batch_id = bt_id b, rk_sequence = bt_sequence b,
                      rk_recorded_at = bt_recorded_at b, rk_output_hash = bt_output_hash b\<rparr>)))))"

section \<open>Evaluation\<close>

definition view_requested :: "fact_filter \<Rightarrow> string \<times> fact_view \<Rightarrow> bool" where
  "view_requested f kv = (case fw_identity (snd kv) of None \<Rightarrow> False | Some i \<Rightarrow> filter_matches f (fst kv) i)"

definition listed_views :: "fact_filter \<Rightarrow> (string \<times> fact_view) list \<Rightarrow> fact_view list" where
  "listed_views f facts =
     (let found = map snd (filter (view_requested f) (sort_key fst facts))
      in sort_key fw_ef_key (found @ map (\<lambda>k. fact_view_of k None None [] [] [] [])
           (filter (\<lambda>k. k \<notin> set (map fw_ef_key found)) (ff_ef_keys f))))"

definition facts_of_mode ::
  "reader \<Rightarrow> selection_digests \<Rightarrow> evidence \<Rightarrow> query \<Rightarrow> instant \<Rightarrow> f8_configuration \<Rightarrow> configuration \<Rightarrow>
   ((string \<times> fact_view) list \<times> recorded_batch option) res" where
  "facts_of_mode rd xs ev q h c f6 =
     (if qu_mode q = ''KNOWN_RECORDED'' then recorded_facts rd xs ev q h (fc_f6_configuration_id c)
      else if qu_mode q \<in> {''KNOWN'', ''AVAILABLE'', ''CURRENT''}
      then bindR (recomputed rd xs ev q h f6) (\<lambda>facts. Inr (facts, None))
      else Inl (Refused ''unknown_mode''))"

definition f6_of :: "evidence \<Rightarrow> f8_configuration \<Rightarrow> configuration res" where
  "f6_of ev c =
     (case row_of f6_id (ev_f6_configurations ev) (fc_f6_configuration_id c) of
        None \<Rightarrow> Inl KeyErr
      | Some f6 \<Rightarrow> (case f6_configuration f6 of None \<Rightarrow> Inl TypeErr | Some x \<Rightarrow> Inr x))"

definition evaluate :: "reader \<Rightarrow> selection_digests \<Rightarrow> evidence \<Rightarrow> query \<Rightarrow> as_of_result res" where
  "evaluate rd xs ev q =
     (case governing_horizon q of
        None \<Rightarrow> Inl (Refused ''horizon_required'')
      | Some h \<Rightarrow>
          bindR (resolve ev (qu_f8_configuration_id q) h) (\<lambda>(c, designation).
          bindR (f6_of ev c) (\<lambda>f6.
          bindR (facts_of_mode rd xs ev q h c f6) (\<lambda>(facts, batch).
            Inr (seal xs \<lparr>ar_mode = qu_mode q, ar_label = label_of (qu_mode q), ar_cutoff = qu_cutoff q,
              ar_horizon = qu_horizon q, ar_issuer_id = qu_issuer_id q, ar_facts_requested = qu_facts q,
              ar_f8_configuration_id = xs_configuration xs c, ar_f6_configuration_id = fc_f6_configuration_id c,
              ar_rule_versions = fc_rules c, ar_recorded_batch = batch, ar_facts = listed_views (qu_facts q) facts,
              ar_result_hash = []\<rparr>)))))"

section \<open>Point-in-time interfaces\<close>

definition require_point_in_time :: "selection_digests \<Rightarrow> as_of_result \<Rightarrow> as_of_result res" where
  "require_point_in_time xs r =
     guardR (\<not> verify xs r) (Refused ''result_hash_mismatch'')
     (guardR (ar_mode r \<notin> set point_in_time_modes \<or> ar_label r \<noteq> label_of (ar_mode r)) (Refused ''current_not_point_in_time'')
       (Inr r))"

definition require_live :: "selection_digests \<Rightarrow> as_of_result \<Rightarrow> as_of_result res" where
  "require_live xs r =
     bindR (require_point_in_time xs r) (\<lambda>x. guardR (ar_mode x \<notin> set live_modes) (Refused ''not_live_mode'') (Inr x))"

record point_in_time_dataset =
  pd_mode :: string
  pd_label :: string
  pd_result_hashes :: "string list"
  pd_results :: "as_of_result list"
  pd_dataset_hash :: string

definition dataset ::
  "selection_digests \<Rightarrow> (string \<times> string \<times> string list \<Rightarrow> string) \<Rightarrow> as_of_result list \<Rightarrow> point_in_time_dataset res" where
  "dataset xs dh results =
     guardR (results = []) (Refused ''empty_dataset'')
     (bindR (mapR (require_point_in_time xs) results) (\<lambda>_.
        (case sorted_set (map ar_mode results) of
           [mode] \<Rightarrow> Inr \<lparr>pd_mode = mode, pd_label = label_of mode, pd_result_hashes = map ar_result_hash results,
             pd_results = results, pd_dataset_hash = dh (mode, label_of mode, map ar_result_hash results)\<rparr>
         | _ \<Rightarrow> Inl (Refused ''mixed_modes''))))"

definition timeline_at :: "reader \<Rightarrow> selection_digests \<Rightarrow> evidence \<Rightarrow> query \<Rightarrow> instant \<Rightarrow> as_of_result res" where
  "timeline_at rd xs ev base cutoff =
     bindR (with_cutoff base (Some cutoff)) (\<lambda>q.
     guardR (qu_mode q = ''AVAILABLE'' \<and> qu_horizon q = None) (Refused ''horizon_required'')
       (bindR (evaluate rd xs ev q) (require_point_in_time xs)))"

definition timeline :: "reader \<Rightarrow> selection_digests \<Rightarrow> evidence \<Rightarrow> query \<Rightarrow> instant list \<Rightarrow> as_of_result list res" where
  "timeline rd xs ev base cutoffs =
     guardR (qu_mode base = ''CURRENT'') (Refused ''current_not_point_in_time'')
       (mapR (timeline_at rd xs ev base) cutoffs)"

end
