(* ===== verification/Horizon.thy ===== *)
theory Horizon
  imports AsofEvaluate ReconcileFacts
begin

text \<open>
  Blindness to later rows. A rule of the as-of query reads, at a horizon, only rows recorded by then: the
  interface \<open>horizon_rule\<close> states it, each rule of the component provides it, and the evaluation of a whole
  query inherits it.
\<close>

section \<open>The evidence as it was known\<close>

text \<open>Configurations are identified by the digest of their content and are not cut.\<close>

definition as_known :: "instant \<Rightarrow> evidence \<Rightarrow> evidence" where
  "as_known h ev = ev\<lparr>
     ev_listings := known_by lo_observed_at h (ev_listings ev),
     ev_classifications := known_by cl_classified_at h (ev_classifications ev),
     ev_decisions := known_by de_decided_at h (ev_decisions ev),
     ev_runs := known_by xr_recorded_at h (ev_runs ev),
     ev_validations := known_by vw_recorded_at h (ev_validations ev),
     ev_observations := known_by sb_recorded_at h (ev_observations ev),
     ev_f6_designations := known_by dg_recorded_at h (ev_f6_designations ev),
     ev_f8_designations := known_by dg_recorded_at h (ev_f8_designations ev),
     ev_batches := known_by bt_recorded_at h (ev_batches ev)\<rparr>"

text \<open>What \<open>mk_evidence\<close> ensures of the tables: one row per key.\<close>

definition well_keyed :: "evidence \<Rightarrow> bool" where
  "well_keyed ev \<longleftrightarrow>
     distinct (map lo_id (ev_listings ev)) \<and> distinct (map cl_id (ev_classifications ev)) \<and>
     distinct (map de_id (ev_decisions ev)) \<and> distinct (map xr_id (ev_runs ev)) \<and>
     distinct (map vw_key (ev_validations ev)) \<and> distinct (map sb_key (ev_observations ev)) \<and>
     distinct (map bt_id (ev_batches ev))"

lemma unique_rows_distinct: "unique_rows key rows = Inr out \<Longrightarrow> distinct (map key out) \<and> set out = set rows"
proof -
  assume ok: "unique_rows key rows = Inr out"
  then have out: "out = rev (remdups (rev rows))"
    and same: "\<not> list_ex (\<lambda>(a, b). key a = key b \<and> a \<noteq> b) (later_pairs rows)"
    by (auto simp: unique_rows_def guardR_eq_Inr)
  have "\<not> (\<exists>a \<in> set rows. \<exists>b \<in> set rows. key a = key b \<and> a \<noteq> b)"
    using same later_pairs_ex [of "\<lambda>a b. key a = key b \<and> a \<noteq> b" rows] by auto
  then have "inj_on key (set rows)" by (auto intro: inj_onI)
  then show ?thesis using out by (simp add: distinct_map)
qed

lemma bind_unique_rows:
  "bindR (unique_rows key rows) f = Inr out \<Longrightarrow> \<exists>xs. distinct (map key xs) \<and> f xs = Inr out"
  unfolding bindR_eq_Inr using unique_rows_distinct by blast

lemma mk_evidence_well_keyed: "mk_evidence ev = Inr out \<Longrightarrow> well_keyed out"
  unfolding mk_evidence_def
  apply (drule bind_unique_rows, elim exE conjE)+
  apply (drule sum.inject(2) [THEN iffD1])
  apply (erule subst)
  apply (simp add: well_keyed_def distinct_map_sorted)
  done

lemma distinct_known_by: "distinct (map f rows) \<Longrightarrow> distinct (map f (known_by t h rows))"
  by (simp add: known_by_def distinct_map_filter)

lemma well_keyed_as_known: "well_keyed ev \<Longrightarrow> well_keyed (as_known h ev)"
  by (simp add: well_keyed_def as_known_def distinct_known_by)

lemma as_known_nested [simp]: "h \<le> k \<Longrightarrow> as_known h (as_known k ev) = as_known h ev"
  by (simp add: as_known_def)

section \<open>The interface\<close>

locale horizon_rule =
  fixes rule :: "instant \<Rightarrow> evidence \<Rightarrow> 'a"
  assumes blind: "well_keyed ev \<Longrightarrow> rule h (as_known h ev) = rule h ev"
begin

lemma same_known_rows:
  assumes "well_keyed ev" and "well_keyed ev'" and "as_known h ev = as_known h ev'"
  shows "rule h ev = rule h ev'"
  by (metis assms blind)

lemma later_copy:
  assumes "well_keyed ev" and "h \<le> k"
  shows "rule h (as_known k ev) = rule h ev"
  using assms blind [of ev h] blind [of "as_known k ev" h] by (simp add: well_keyed_as_known)

lemma blind_map: "well_keyed ev \<Longrightarrow> f (rule h (as_known h ev)) = f (rule h ev)"
  by (simp add: blind)

end

section \<open>Tables at a horizon\<close>

lemma row_of_Some:
  assumes "distinct (map key rows)"
  shows "row_of key rows k = Some r \<longleftrightarrow> r \<in> set rows \<and> key r = k"
proof
  assume "row_of key rows k = Some r"
  then show "r \<in> set rows \<and> key r = k" by (auto simp: row_of_def find_Some_iff)
next
  assume r: "r \<in> set rows \<and> key r = k"
  have "inj_on key (set rows)" using assms by (simp add: distinct_map)
  then have one: "\<And>x. x \<in> set rows \<Longrightarrow> key x = k \<Longrightarrow> x = r" using r by (auto dest: inj_onD)
  obtain x where x: "row_of key rows k = Some x" using r by (cases "row_of key rows k") (auto simp: row_of_def find_None_iff)
  moreover have "x = r" using x one by (auto simp: row_of_def find_Some_iff)
  ultimately show "row_of key rows k = Some r" by simp
qed

lemma row_of_known:
  assumes "distinct (map key rows)"
  shows "row_of key (known_by t h rows) k = Some r \<longleftrightarrow> row_of key rows k = Some r \<and> t r \<le> h"
  using row_of_Some [OF assms] row_of_Some [OF distinct_known_by [OF assms, where t = t and h = h]] by auto

lemma known_by_sort_filter:
  "known_by t h (sort_key f (filter P (known_by t h rows))) = known_by t h (sort_key f (filter P rows))"
  by (simp add: known_by_def filter_sort conj_commute conj_left_commute)

lemma sort_filter_known:
  "sort_key f (filter P (known_by t h rows)) = known_by t h (sort_key f (filter P rows))"
  by (simp add: known_by_def filter_sort conj_commute)

lemma filter_known: "filter P (known_by t h rows) = known_by t h (filter P rows)"
  by (simp add: known_by_def conj_commute)

named_theorems cut_simps \<open>the indexes of the evidence as it was known\<close>

lemma listings_of_cut [cut_simps]: "listings_of (as_known h ev) i = known_by lo_observed_at h (listings_of ev i)"
  by (simp add: listings_of_def as_known_def sort_filter_known)

lemma decisions_of_cut [cut_simps]: "decisions_of (as_known h ev) i = known_by de_decided_at h (decisions_of ev i)"
  by (simp add: decisions_of_def as_known_def sort_filter_known)

lemma runs_of_filing_cut [cut_simps]: "runs_of_filing (as_known h ev) i = known_by xr_recorded_at h (runs_of_filing ev i)"
  by (simp add: runs_of_filing_def as_known_def sort_filter_known)

lemma runs_of_document_cut [cut_simps]: "runs_of_document (as_known h ev) d = known_by xr_recorded_at h (runs_of_document ev d)"
  by (simp add: runs_of_document_def as_known_def sort_filter_known)

lemma validations_of_cut [cut_simps]: "validations_of (as_known h ev) k = known_by vw_recorded_at h (validations_of ev k)"
  by (simp add: validations_of_def as_known_def sort_filter_known)

lemma observations_of_cut [cut_simps]: "observations_of (as_known h ev) k = known_by sb_recorded_at h (observations_of ev k)"
  by (simp add: observations_of_def as_known_def sort_filter_known)

lemma tables_cut [cut_simps]:
  "ev_runs (as_known h ev) = known_by xr_recorded_at h (ev_runs ev)"
  "ev_observations (as_known h ev) = known_by sb_recorded_at h (ev_observations ev)"
  "ev_f6_designations (as_known h ev) = known_by dg_recorded_at h (ev_f6_designations ev)"
  "ev_f8_designations (as_known h ev) = known_by dg_recorded_at h (ev_f8_designations ev)"
  "ev_batches (as_known h ev) = known_by bt_recorded_at h (ev_batches ev)"
  "ev_f6_configurations (as_known h ev) = ev_f6_configurations ev"
  "ev_f8_configurations (as_known h ev) = ev_f8_configurations ev"
  by (simp_all add: as_known_def)

section \<open>The rules\<close>

lemma in_force_known [simp]: "in_force (known_by dg_recorded_at h ds) h = in_force ds h"
  by (simp add: in_force_def)

interpretation filing_rule: horizon_rule "\<lambda>h ev. filing_availability rd ev i h" for rd i
  by unfold_locales (simp add: filing_availability_def rows_by_def cut_simps)

interpretation versions_rule: horizon_rule "\<lambda>h ev. versions_of_filing ev i h" for i
  by unfold_locales (simp add: versions_of_filing_def cut_simps)

interpretation version_rule: horizon_rule "\<lambda>h ev. version_availability rd xd ev i sha h" for rd xd i sha
  by unfold_locales (simp add: version_availability_def filing_rule.blind versions_rule.blind)

interpretation metadata_rule: horizon_rule "\<lambda>h ev. as_of rd ev i h" for rd i
  by unfold_locales (simp add: as_of_def current_versions_def cut_simps)

interpretation canonical_rule: horizon_rule "\<lambda>h ev. canonical_validation_run rd ev run vs h" for rd run vs
  by unfold_locales
    (simp add: canonical_validation_run_def metadata_rule.blind validations_at_def link_at_def cut_simps)

interpretation resolve_rule: horizon_rule "\<lambda>h ev. resolve ev pinned h" for pinned
  by unfold_locales (simp only: resolve_def pinned_or_designated_def cut_simps in_force_known)

interpretation times_rule: horizon_rule "\<lambda>h ev. document_times_at ev h" 
  by unfold_locales (simp add: document_times_at_def cut_simps fun_eq_iff)

end
