(* ===== verification/KnowledgeFacts.thy ===== *)
theory KnowledgeFacts
  imports Knowledge
begin

text \<open>
  Facts about f8.knowledge.1: an observation is known by a horizon exactly when every link of its chain was
  recorded by then, and its time is the latest of the chain.
\<close>

lemmas link_defs = f1_link_def run_link_def classification_link_def validation_link_def decision_link_def so_link_def

definition link_named :: "string \<Rightarrow> link \<Rightarrow> bool" where
  "link_named n l \<longleftrightarrow> (\<forall>p. l = Some p \<longrightarrow> fst p = n)"

lemma link_names:
  "link_named ''f1_first_observation'' (f1_link ev s)"
  "link_named ''f5_run'' (run_link r)"
  "link_named ''classification'' (classification_link ev r)"
  "link_named ''validation_run'' (validation_link v)"
  "link_named ''issuer_decision'' (decision_link ev v)"
  "link_named ''source_observation'' (so_link s)"
  by (auto simp: link_defs link_named_def)

lemma named_link:
  "link_named n l \<Longrightarrow> map_of (List.map_filter id (l # ls)) t =
     (if t = n then (case l of None \<Rightarrow> map_of (List.map_filter id ls) t | Some p \<Rightarrow> Some (snd p))
      else map_of (List.map_filter id ls) t)"
  by (cases l) (auto simp: link_named_def)

lemma case_option_None_snd: "(case l of None \<Rightarrow> None | Some p \<Rightarrow> Some (snd p)) = map_option snd l"
  by (cases l) auto

lemma no_links: "map_of (List.map_filter id []) t = None"
  by (simp add: List.map_filter_def)

lemmas map_of_links = link_names [THEN named_link] no_links

lemma found_links_terms:
  "map_of (found_links ev s) ''f1_first_observation'' = map_option snd (f1_link ev s)"
  "map_of (found_links ev s) ''f5_run'' = map_option snd (run_link (run_row ev s))"
  "map_of (found_links ev s) ''classification'' = map_option snd (classification_link ev (run_row ev s))"
  "map_of (found_links ev s) ''validation_run'' = map_option snd (validation_link (validation_row_of ev s))"
  "map_of (found_links ev s) ''issuer_decision'' = map_option snd (decision_link ev (validation_row_of ev s))"
  "map_of (found_links ev s) ''source_observation'' = map_option snd (so_link s)"
  unfolding found_links_def map_of_links by (simp_all add: case_option_None_snd)

definition all_links :: "evidence \<Rightarrow> stored_observation \<Rightarrow> link list" where
  "all_links ev s = [f1_link ev s, classification_link ev (run_row ev s), decision_link ev (validation_row_of ev s),
     run_link (run_row ev s), validation_link (validation_row_of ev s), so_link s]"

definition link_by :: "instant \<Rightarrow> link \<Rightarrow> bool" where
  "link_by h l \<longleftrightarrow> (case l of None \<Rightarrow> True | Some p \<Rightarrow> snd (snd p) \<le> h)"

lemma known_terms_within:
  "(\<forall>t \<in> set (known_terms found). term_time t \<le> h) \<longleftrightarrow>
     (\<forall>n \<in> set (map fst knowledge_terms). case map_of found n of None \<Rightarrow> True | Some p \<Rightarrow> snd p \<le> h)"
  unfolding known_terms_def by (auto simp: List.map_filter_def term_time_def split: option.splits) force+

lemma known_terms_by:
  "(\<forall>t \<in> set (known_terms (found_links ev s)). term_time t \<le> h) \<longleftrightarrow> list_all (link_by h) (all_links ev s)"
proof -
  have *: "(case map_option snd l of None \<Rightarrow> True | Some p \<Rightarrow> snd p \<le> h) = link_by h l" for l :: link
    by (cases l) (simp_all add: link_by_def)
  show ?thesis
    unfolding known_terms_within knowledge_terms_def list.map list.set fst_conv
    by (simp only: ball_simps found_links_terms * all_links_def list.pred_inject)
qed

definition chain_complete :: "evidence \<Rightarrow> stored_observation \<Rightarrow> bool" where
  "chain_complete ev s \<longleftrightarrow> f1_link ev s \<noteq> None \<and> classification_link ev (run_row ev s) \<noteq> None \<and>
     (decision_link ev (validation_row_of ev s) \<noteq> None \<or> Option.bind (validation_row_of ev s) vw_issuer_link_id = None) \<and>
     run_link (run_row ev s) \<noteq> None \<and> validation_link (validation_row_of ev s) \<noteq> None"

lemma no_missing_link:
  "filter (\<lambda>t. map_of (found_links ev s) t = None) (needed_terms (validation_row_of ev s)) = [] \<longleftrightarrow> chain_complete ev s"
  by (simp add: needed_terms_def knowledge_terms_def chain_complete_def found_links_terms so_link_def)

lemma known_at_time:
  "kn_at (known_at ev s) =
     (if chain_complete ev s then max_on id (map term_time (known_terms (found_links ev s))) else None)"
  using no_missing_link [of ev s] by (simp add: known_at_def Let_def)

lemma known_terms_nonempty: "known_terms (found_links ev s) \<noteq> []"
proof -
  have "(''source_observation'', ''financial_source_observations'', sb_key s, sb_recorded_at s) \<in> set (known_terms (found_links ev s))"
    by (force simp: known_terms_def knowledge_terms_def List.map_filter_def found_links_terms so_link_def)
  then show ?thesis by auto
qed

text \<open>Known by a horizon: a complete chain, every link of it recorded by then.\<close>

lemma known_by_horizon_iff:
  "(\<exists>t \<le> h. kn_at (known_at ev s) = Some t) \<longleftrightarrow> chain_complete ev s \<and> list_all (link_by h) (all_links ev s)"
proof -
  define times where "times = map term_time (known_terms (found_links ev s))"
  have "times \<noteq> []" using known_terms_nonempty unfolding times_def by simp
  then obtain m where m: "max_on id times = Some m" using max_on_ex by blast
  then have "m \<in> set times" "\<forall>t \<in> set times. t \<le> m" by (auto simp: max_list_Some)
  then have "m \<le> h \<longleftrightarrow> (\<forall>t \<in> set times. t \<le> h)" by force
  then have "m \<le> h \<longleftrightarrow> list_all (link_by h) (all_links ev s)"
    unfolding known_terms_by [symmetric] times_def by simp
  then show ?thesis
    unfolding known_at_time times_def [symmetric] m by auto
qed

lemma link_present:
  "f1_link ev s \<noteq> None \<and> link_by h (f1_link ev s) \<longleftrightarrow> (\<exists>o'. first_listing ev (sb_filing s) = Some o' \<and> lo_observed_at o' \<le> h)"
  "run_link r \<noteq> None \<and> link_by h (run_link r) \<longleftrightarrow> (\<exists>x. r = Some x \<and> xr_recorded_at x \<le> h)"
  "classification_link ev r \<noteq> None \<and> link_by h (classification_link ev r) \<longleftrightarrow>
     (\<exists>x c. r = Some x \<and> row_of cl_id (ev_classifications ev) (xr_classification_id x) = Some c \<and> cl_classified_at c \<le> h)"
  "validation_link v \<noteq> None \<and> link_by h (validation_link v) \<longleftrightarrow> (\<exists>x. v = Some x \<and> vw_recorded_at x \<le> h)"
  "link_by h (so_link s) \<longleftrightarrow> sb_recorded_at s \<le> h"
  subgoal by (cases "first_listing ev (sb_filing s)") (simp_all add: f1_link_def link_by_def)
  subgoal by (cases r) (simp_all add: run_link_def link_by_def)
  subgoal by (cases r) (auto simp: classification_link_def link_by_def split: option.splits)
  subgoal by (cases v) (simp_all add: validation_link_def link_by_def)
  subgoal by (simp add: so_link_def link_by_def)
  done

lemma decision_present:
  "(decision_link ev (Some v) \<noteq> None \<or> vw_issuer_link_id v = None) \<and> link_by h (decision_link ev (Some v)) \<longleftrightarrow>
     (case vw_issuer_link_id v of None \<Rightarrow> True
      | Some l \<Rightarrow> (\<exists>d. row_of de_id (ev_decisions ev) l = Some d \<and> de_decided_at d \<le> h))"
  by (cases "vw_issuer_link_id v") (auto simp: decision_link_def link_by_def split: option.splits)

text \<open>
  An observation is known at a time exactly when its whole chain was recorded by then: the first listing
  entry of its filing, its extraction run and that run's classification, its validation run and, where that run used
  one, the issuer decision, and the observation itself. A chain with a missing link is never known.
\<close>

theorem known_at_whole_chain:
  "(\<exists>t \<le> h. kn_at (known_at ev s) = Some t) \<longleftrightarrow>
     sb_recorded_at s \<le> h \<and>
     (\<exists>o'. first_listing ev (sb_filing s) = Some o' \<and> lo_observed_at o' \<le> h) \<and>
     (\<exists>r c. row_of xr_id (ev_runs ev) (sb_f5_run s) = Some r \<and> xr_recorded_at r \<le> h \<and>
        row_of cl_id (ev_classifications ev) (xr_classification_id r) = Some c \<and> cl_classified_at c \<le> h) \<and>
     (\<exists>v. row_of vw_key (ev_validations ev) (sb_validation_run s) = Some v \<and> vw_recorded_at v \<le> h \<and>
        (case vw_issuer_link_id v of None \<Rightarrow> True
         | Some l \<Rightarrow> (\<exists>d. row_of de_id (ev_decisions ev) l = Some d \<and> de_decided_at d \<le> h)))"
  (is "?k \<longleftrightarrow> ?chain")
proof -
  let ?run = "run_row ev s" and ?v = "validation_row_of ev s"
  have "?k \<longleftrightarrow> link_by h (so_link s) \<and> (f1_link ev s \<noteq> None \<and> link_by h (f1_link ev s)) \<and>
    (run_link ?run \<noteq> None \<and> link_by h (run_link ?run)) \<and>
    (classification_link ev ?run \<noteq> None \<and> link_by h (classification_link ev ?run)) \<and>
    (validation_link ?v \<noteq> None \<and> link_by h (validation_link ?v)) \<and>
    (decision_link ev ?v \<noteq> None \<or> Option.bind ?v vw_issuer_link_id = None) \<and> link_by h (decision_link ev ?v)"
    unfolding known_by_horizon_iff chain_complete_def all_links_def list.pred_inject(2) 
    by (simp only: list.pred_inject(1) simp_thms conj_ac)
  also have "\<dots> \<longleftrightarrow> ?chain"
  proof (cases ?v)
    case None
    then show ?thesis by (simp add: validation_link_def validation_row_of_def)
  next
    case (Some v)
    then have row: "row_of vw_key (ev_validations ev) (sb_validation_run s) = Some v" by (simp add: validation_row_of_def)
    show ?thesis
      unfolding Some Option.bind.bind_lunit decision_present link_present run_row_def row
      by (cases "row_of xr_id (ev_runs ev) (sb_f5_run s)") auto
  qed
  finally show ?thesis .
qed

end
