(* ===== verification/HorizonFacts.thy ===== *)
theory HorizonFacts
  imports Horizon KnowledgeFacts
begin

text \<open>
  Knowledge and evaluation are blind to later rows: the remaining instances of \<open>horizon_rule\<close>, up to the
  evaluation of a whole query.
\<close>

section \<open>Knowledge\<close>

lemma min_on_keep: "min_on f xs = Some m \<Longrightarrow> P m \<Longrightarrow> min_on f (filter P xs) = Some m"
proof (induction xs arbitrary: m)
  case (Cons x xs)
  show ?case
  proof (cases "min_on f xs")
    case None
    with Cons.prems show ?thesis by auto
  next
    case (Some y)
    show ?thesis
    proof (cases "f y < f x")
      case True
      with Cons Some have "m = y" "min_on f (filter P xs) = Some y" by auto
      with True Some show ?thesis by simp
    next
      case False
      with Cons.prems Some have m: "m = x" by auto
      have "f x \<le> f z" if "min_on f (filter P xs) = Some z" for z
        using that min_on_Some [OF that] min_on_Some [OF Some] False by (auto intro: order_trans simp: not_less)
      with m Cons.prems(2) show ?thesis by (auto split: option.splits simp: not_less)
    qed
  qed
qed simp

lemma min_on_known:
  assumes "\<And>x y. f x \<le> f y \<Longrightarrow> t x \<le> t y"
  shows "min_on f (known_by t h xs) = Some m \<longleftrightarrow> min_on f xs = Some m \<and> t m \<le> h"
proof
  assume *: "min_on f (known_by t h xs) = Some m"
  then have m: "m \<in> set xs" "t m \<le> h" using min_on_Some [OF *] by auto
  then have "xs \<noteq> []" by auto
  then obtain k where k: "min_on f xs = Some k" using min_on_ex by blast
  then have "f k \<le> f m" using min_on_Some [OF k] m(1) by blast
  then have "t k \<le> h" using assms m(2) order_trans by blast
  then have "min_on f (known_by t h xs) = Some k" using min_on_keep [OF k] by (simp add: known_by_def)
  with * k m show "min_on f xs = Some m \<and> t m \<le> h" by simp
qed (simp add: known_by_def min_on_keep)

lemma first_listing_cut: "first_listing (as_known h ev) i = Some r \<longleftrightarrow> first_listing ev i = Some r \<and> lo_observed_at r \<le> h"
  unfolding first_listing_def listings_of_cut by (rule min_on_known) (auto simp: less_eq_prod_def)

lemma rows_cut:
  assumes "well_keyed ev"
  shows "row_of xr_id (ev_runs (as_known h ev)) k = Some r \<longleftrightarrow> row_of xr_id (ev_runs ev) k = Some r \<and> xr_recorded_at r \<le> h"
    and "row_of cl_id (ev_classifications (as_known h ev)) k = Some c \<longleftrightarrow>
      row_of cl_id (ev_classifications ev) k = Some c \<and> cl_classified_at c \<le> h"
    and "row_of vw_key (ev_validations (as_known h ev)) k = Some v \<longleftrightarrow>
      row_of vw_key (ev_validations ev) k = Some v \<and> vw_recorded_at v \<le> h"
    and "row_of de_id (ev_decisions (as_known h ev)) l = Some d \<longleftrightarrow>
      row_of de_id (ev_decisions ev) l = Some d \<and> de_decided_at d \<le> h"
    and "row_of sb_key (ev_observations (as_known h ev)) k = Some s \<longleftrightarrow>
      row_of sb_key (ev_observations ev) k = Some s \<and> sb_recorded_at s \<le> h"
  using assms by (simp_all add: well_keyed_def as_known_def row_of_known)

lemma known_within_iff: "known_within h k \<longleftrightarrow> (\<exists>t \<le> h. kn_at k = Some t)"
  by (auto simp: known_within_def split: option.splits)

lemma known_within_cut:
  assumes "well_keyed ev"
  shows "known_within h (known_at (as_known h ev) s) \<longleftrightarrow> known_within h (known_at ev s)"
  unfolding known_within_iff known_at_whole_chain
  by (auto simp: rows_cut [OF assms] first_listing_cut split: option.splits)

text \<open>A chain known by the horizon is the same chain in the evidence as it was known.\<close>

lemma known_at_congruent:
  assumes "f1_link ev s = f1_link ev' s" and "run_row ev s = run_row ev' s" and "validation_row_of ev s = validation_row_of ev' s"
    and "classification_link ev (run_row ev s) = classification_link ev' (run_row ev' s)"
    and "decision_link ev (validation_row_of ev s) = decision_link ev' (validation_row_of ev' s)"
  shows "known_at ev s = known_at ev' s"
  using assms by (simp add: known_at_def found_links_def)

lemma known_at_cut:
  assumes "well_keyed ev" and "known_within h (known_at ev s)"
  shows "known_at (as_known h ev) s = known_at ev s"
proof -
  note chain = assms(2) [unfolded known_within_iff known_at_whole_chain]
  then obtain o' r c v where
    row: "first_listing ev (sb_filing s) = Some o'" "lo_observed_at o' \<le> h"
    "row_of xr_id (ev_runs ev) (sb_f5_run s) = Some r" "xr_recorded_at r \<le> h"
    "row_of cl_id (ev_classifications ev) (xr_classification_id r) = Some c" "cl_classified_at c \<le> h"
    "row_of vw_key (ev_validations ev) (sb_validation_run s) = Some v" "vw_recorded_at v \<le> h"
    and issuer: "case vw_issuer_link_id v of None \<Rightarrow> True
         | Some l \<Rightarrow> (\<exists>d. row_of de_id (ev_decisions ev) l = Some d \<and> de_decided_at d \<le> h)"
    by blast
  have cut: "first_listing (as_known h ev) (sb_filing s) = Some o'"
    "row_of xr_id (ev_runs (as_known h ev)) (sb_f5_run s) = Some r"
    "row_of cl_id (ev_classifications (as_known h ev)) (xr_classification_id r) = Some c"
    "row_of vw_key (ev_validations (as_known h ev)) (sb_validation_run s) = Some v"
    using row by (simp_all add: rows_cut [OF assms(1)] first_listing_cut)
  have "decision_link (as_known h ev) (Some v) = decision_link ev (Some v)"
  proof (cases "vw_issuer_link_id v")
    case (Some l)
    then obtain d where "row_of de_id (ev_decisions ev) l = Some d" "de_decided_at d \<le> h" using issuer by auto
    moreover have "row_of de_id (ev_decisions (as_known h ev)) l = Some d"
      using calculation by (simp add: rows_cut [OF assms(1)])
    ultimately show ?thesis using Some by (simp add: decision_link_def)
  qed (simp add: decision_link_def)
  then show ?thesis
    by (intro known_at_congruent) (simp_all add: f1_link_def classification_link_def run_row_def validation_row_of_def row cut)
qed

section \<open>Observations held\<close>

lemma held_list_cut:
  assumes "well_keyed ev"
  shows "filter (\<lambda>(s, k, tie). known_within h k) (map (\<lambda>s. (s, known_at (as_known h ev) s, b))
      (concat (map (\<lambda>v. issuer_observations (as_known h ev) v issuer) vs))) =
    filter (\<lambda>(s, k, tie). known_within h k) (map (\<lambda>s. (s, known_at ev s, b))
      (concat (map (\<lambda>v. issuer_observations ev v issuer) vs)))"
proof -
  have known: "known_within h (known_at ev s) \<Longrightarrow> sb_recorded_at s \<le> h" for s
    unfolding known_within_iff known_at_whole_chain by blast
  have each: "filter (\<lambda>s. known_within h (known_at (as_known h ev) s)) (issuer_observations (as_known h ev) v issuer) =
    filter (\<lambda>s. known_within h (known_at ev s)) (issuer_observations ev v issuer)" for v
    unfolding issuer_observations_def observations_of_cut known_by_def filter_filter known_within_cut [OF assms]
    using known by (intro filter_cong) auto
  have "filter (\<lambda>s. known_within h (known_at (as_known h ev) s)) (concat (map (\<lambda>v. issuer_observations (as_known h ev) v issuer) vs)) =
    filter (\<lambda>s. known_within h (known_at ev s)) (concat (map (\<lambda>v. issuer_observations ev v issuer) vs))"
    by (simp add: filter_concat comp_def each)
  then show ?thesis
    using known_at_cut [OF assms] by (simp add: filter_map comp_def split_beta known_within_cut [OF assms])
qed

lemma held_of_run_cut:
  assumes "well_keyed ev" and "r \<in> set (ev_runs ev)" and "xr_recorded_at r \<le> h" and "rs_selected_run d = xr_id r"
  shows "held_of_run rd (as_known h ev) vs h issuer d = held_of_run rd ev vs h issuer d"
proof -
  have "distinct (map xr_id (ev_runs ev))" using assms(1) by (simp add: well_keyed_def)
  then have "row_of xr_id (ev_runs ev) (rs_selected_run d) = Some r"
    using assms(2,4) by (simp add: row_of_Some)
  moreover from this have "row_of xr_id (ev_runs (as_known h ev)) (rs_selected_run d) = Some r"
    using assms(3) by (simp add: rows_cut [OF assms(1)])
  ultimately show ?thesis
    unfolding held_of_run_def by (simp add: canonical_rule.blind [OF assms(1)] held_list_cut [OF assms(1)])
qed

lemma held_observations_cut:
  assumes "well_keyed ev" and "set runs \<subseteq> set (known_by xr_recorded_at h (ev_runs ev))"
  shows "held_observations rd xs (as_known h ev) runs h issuer f6 = held_observations rd xs ev runs h issuer f6"
proof -
  have "mapR (held_of_run rd (as_known h ev) (cf_versions f6) h issuer) (sl_documents sel) =
      mapR (held_of_run rd ev (cf_versions f6) h issuer) (sl_documents sel)"
    if "select_runs (rd_configuration (xs_reconcile xs)) (map xr_ref runs) f6 = Inr sel" for sel
  proof (rule mapR_cong)
    fix d assume "d \<in> set (sl_documents sel)"
    with select_runs_sound [OF that] obtain f where "f \<in> set (map xr_ref runs)" "rs_selected_run d = fr_f5_run_id f" by blast
    then obtain r where r: "r \<in> set runs" "rs_selected_run d = xr_id r" by (auto simp: xr_id_def)
    then have "r \<in> set (ev_runs ev)" "xr_recorded_at r \<le> h" using assms(2) by auto
    then show "held_of_run rd (as_known h ev) (cf_versions f6) h issuer d = held_of_run rd ev (cf_versions f6) h issuer d"
      using held_of_run_cut [OF assms(1)] r(2) by blast
  qed
  then show ?thesis
    unfolding held_observations_def
    by (cases "select_runs (rd_configuration (xs_reconcile xs)) (map xr_ref runs) f6") simp_all
qed

section \<open>The recomputed modes\<close>

lemma judged_rows:
  assumes "mapR (judge_run rd xs ev mode cutoff h) rows = Inr judged"
  shows "map fst judged = rows"
proof -
  have "map fst judged = map id rows"
    by (rule mapR_map [OF assms]) (auto simp: judge_run_def bindR_eq_Inr)
  then show ?thesis by simp
qed

lemma judged_subset:
  assumes "mapR (judge_run rd xs ev mode cutoff h) rows = Inr judged"
  shows "set (map fst (filter P judged)) \<subseteq> set rows"
  unfolding judged_rows [OF assms, symmetric] by auto

lemma shown_documents_cut:
  "well_keyed ev \<Longrightarrow> shown_documents rd xs (as_known h ev) h shown = shown_documents rd xs ev h shown"
  by (simp add: shown_documents_def document_at_def version_rule.blind)

lemma judge_run_cut: "well_keyed ev \<Longrightarrow> judge_run rd xs (as_known h ev) mode cutoff h = judge_run rd xs ev mode cutoff h"
  by (simp add: judge_run_def version_rule.blind fun_eq_iff)

lemma pending_cut:
  assumes "well_keyed ev" and "set hidden \<subseteq> set (known_by xr_recorded_at h (ev_runs ev))"
  shows "pending_observations rd xs (as_known h ev) q h f6 shown hidden = pending_observations rd xs ev q h f6 shown hidden"
  unfolding pending_observations_def using assms(2) by (subst held_observations_cut [OF assms(1)]) auto

lemma bindR_cong: "m = m' \<Longrightarrow> (\<And>x. m' = Inr x \<Longrightarrow> f x = g x) \<Longrightarrow> bindR m f = bindR m' g"
  by (cases m') simp_all

lemma recomputed_cut:
  assumes "well_keyed ev"
  shows "recomputed rd xs (as_known h ev) q h f6 = recomputed rd xs ev q h f6"
  unfolding recomputed_def Let_def
proof (rule bindR_cong)
  let ?rows = "known_by xr_recorded_at h (ev_runs ev)"
  have rows: "known_by xr_recorded_at h (ev_runs (as_known h ev)) = ?rows" by (simp add: cut_simps)
  show "mapR (judge_run rd xs (as_known h ev) (qu_mode q) (qu_cutoff q) h) (known_by xr_recorded_at h (ev_runs (as_known h ev))) =
    mapR (judge_run rd xs ev (qu_mode q) (qu_cutoff q) h) ?rows"
    unfolding rows judge_run_cut [OF assms] by (rule refl)
  fix judged assume "mapR (judge_run rd xs ev (qu_mode q) (qu_cutoff q) h) ?rows = Inr judged"
  note within = judged_subset [OF this]
  show "bindR (shown_documents rd xs (as_known h ev) h (map fst (filter snd judged))) (\<lambda>documents.
      bindR (held_observations rd xs (as_known h ev) (map fst (filter snd judged)) h (qu_issuer_id q) f6) (\<lambda>(sel, held).
      bindR (mapR (show_item (qu_mode q) (qu_cutoff q) documents) (filter (\<lambda>x. \<not> snd (snd x)) held)) (\<lambda>shown_set.
      bindR (pending_observations rd xs (as_known h ev) q h f6 (map fst (filter snd judged)) (map fst (filter (\<lambda>p. \<not> snd p) judged))) (\<lambda>pending.
      mapR (conclude_key xs f6 (document_times_at (as_known h ev) h) (map fst (filter snd judged)) sel shown_set
          (map (\<lambda>x. (fst x, ''metadata_version_tie'')) (filter (\<lambda>x. snd (snd x)) held) @ map (\<lambda>x. (fst x, ''not_yet_available'')) pending))
        (sorted_set (map (\<lambda>x. sb_ef_key (fst x)) shown_set @ map (\<lambda>x. sb_ef_key (fst x))
          (map (\<lambda>x. (fst x, ''metadata_version_tie'')) (filter (\<lambda>x. snd (snd x)) held) @ map (\<lambda>x. (fst x, ''not_yet_available'')) pending))))))) =
    bindR (shown_documents rd xs ev h (map fst (filter snd judged))) (\<lambda>documents.
      bindR (held_observations rd xs ev (map fst (filter snd judged)) h (qu_issuer_id q) f6) (\<lambda>(sel, held).
      bindR (mapR (show_item (qu_mode q) (qu_cutoff q) documents) (filter (\<lambda>x. \<not> snd (snd x)) held)) (\<lambda>shown_set.
      bindR (pending_observations rd xs ev q h f6 (map fst (filter snd judged)) (map fst (filter (\<lambda>p. \<not> snd p) judged))) (\<lambda>pending.
      mapR (conclude_key xs f6 (document_times_at ev h) (map fst (filter snd judged)) sel shown_set
          (map (\<lambda>x. (fst x, ''metadata_version_tie'')) (filter (\<lambda>x. snd (snd x)) held) @ map (\<lambda>x. (fst x, ''not_yet_available'')) pending))
        (sorted_set (map (\<lambda>x. sb_ef_key (fst x)) shown_set @ map (\<lambda>x. sb_ef_key (fst x))
          (map (\<lambda>x. (fst x, ''metadata_version_tie'')) (filter (\<lambda>x. snd (snd x)) held) @ map (\<lambda>x. (fst x, ''not_yet_available'')) pending)))))))"
    unfolding shown_documents_cut [OF assms] held_observations_cut [OF assms within] pending_cut [OF assms within]
      times_rule.blind [OF assms] by (rule refl)
qed

interpretation recomputed_rule: horizon_rule "\<lambda>h ev. recomputed rd xs ev q h f6" for rd xs q f6
  by unfold_locales (rule recomputed_cut)

section \<open>The recorded mode and the whole query\<close>

lemma recorded_view_cut:
  assumes "well_keyed ev"
  shows "recorded_view rd xs (as_known h ev) h ref = recorded_view rd xs ev h ref"
proof (cases "row_of sb_key (ev_observations ev) (ob_so_key ref)")
  case None
  then have "row_of sb_key (ev_observations (as_known h ev)) (ob_so_key ref) = None"
    using rows_cut(5) [OF assms] by (metis not_None_eq)
  with None show ?thesis by (simp add: recorded_view_def)
next
  case (Some s)
  show ?thesis
  proof (cases "known_within h (known_at ev s)")
    case True
    then have "sb_recorded_at s \<le> h" unfolding known_within_iff known_at_whole_chain by blast
    with Some have "row_of sb_key (ev_observations (as_known h ev)) (ob_so_key ref) = Some s"
      by (simp add: rows_cut [OF assms])
    with Some True show ?thesis
      by (simp add: recorded_view_def known_at_cut [OF assms] known_within_cut [OF assms] document_at_def version_rule.blind [OF assms]
          cut_simps)
  next
    case False
    then have "recorded_view rd xs ev h ref = Inl EvidenceError"
      using Some by (simp add: recorded_view_def guardR_def)
    moreover have "recorded_view rd xs (as_known h ev) h ref = Inl EvidenceError"
      using False rows_cut(5) [OF assms, of h "ob_so_key ref"] Some
      by (auto simp: recorded_view_def guardR_def known_within_cut [OF assms] split: option.splits)
    ultimately show ?thesis by simp
  qed
qed

lemma recorded_facts_cut:
  "well_keyed ev \<Longrightarrow> recorded_facts rd xs (as_known h ev) q h k = recorded_facts rd xs ev q h k"
proof -
  assume ok: "well_keyed ev"
  have "recorded_view rd xs (as_known h ev) h = recorded_view rd xs ev h"
    by (rule ext) (rule recorded_view_cut [OF ok])
  then have "recorded_fact rd xs (as_known h ev) h = recorded_fact rd xs ev h"
    by (intro ext) (simp only: recorded_fact_def)
  then show ?thesis
    unfolding recorded_facts_def batch_in_force_def cut_simps in_force_known by (simp only: known_by_nested order_refl)
qed

interpretation recorded_rule: horizon_rule "\<lambda>h ev. recorded_facts rd xs ev q h k" for rd xs q k
  by unfold_locales (rule recorded_facts_cut)

interpretation mode_rule: horizon_rule "\<lambda>h ev. facts_of_mode rd xs ev q h c f6" for rd xs q c f6
  by unfold_locales (simp add: facts_of_mode_def recorded_rule.blind recomputed_rule.blind)

lemma f6_of_cut: "f6_of (as_known h ev) c = f6_of ev c"
  by (simp add: f6_of_def cut_simps)

definition evaluate_at :: "reader \<Rightarrow> selection_digests \<Rightarrow> query \<Rightarrow> instant \<Rightarrow> evidence \<Rightarrow> as_of_result res" where
  "evaluate_at rd xs q h ev =
     bindR (resolve ev (qu_f8_configuration_id q) h) (\<lambda>(c, designation).
     bindR (f6_of ev c) (\<lambda>f6.
     bindR (facts_of_mode rd xs ev q h c f6) (\<lambda>(facts, batch).
       Inr (seal xs \<lparr>ar_mode = qu_mode q, ar_label = label_of (qu_mode q), ar_cutoff = qu_cutoff q,
         ar_horizon = qu_horizon q, ar_issuer_id = qu_issuer_id q, ar_facts_requested = qu_facts q,
         ar_f8_configuration_id = xs_configuration xs c, ar_f6_configuration_id = fc_f6_configuration_id c,
         ar_rule_versions = fc_rules c, ar_recorded_batch = batch, ar_facts = listed_views (qu_facts q) facts,
         ar_result_hash = []\<rparr>))))"

lemma evaluate_at_horizon: "governing_horizon q = Some h \<Longrightarrow> evaluate rd xs ev q = evaluate_at rd xs q h ev"
  by (simp add: evaluate_def evaluate_at_def)

interpretation query_rule: horizon_rule "evaluate_at rd xs q" for rd xs q
  by unfold_locales (simp only: evaluate_at_def resolve_rule.blind f6_of_cut mode_rule.blind)

end
