(* ===== verification/AsofFacts.thy ===== *)
theory AsofFacts
  imports HorizonFacts DiscoveryFacts
begin

text \<open>
  The promises of an as-of result: it does not see later rows, every visible observation was known and available
  as its mode demands, and only re-proved point-in-time results reach the point-in-time interfaces.
\<close>

section \<open>Later rows do not matter\<close>

text \<open>
  C29: an as-of result depends only on the rows recorded by its governing horizon (the cutoff T for KNOWN_RECORDED
  and KNOWN, the knowledge horizon H for AVAILABLE and CURRENT). Two evidence stores that agree on every row recorded
  by then, and on the registered configurations, give the same result or the same error, whatever was recorded later.
\<close>

theorem evaluate_ignores_later_rows:
  assumes "well_keyed ev" and "well_keyed ev'" and "governing_horizon q = Some h" and "as_known h ev = as_known h ev'"
  shows "evaluate rd xs ev q = evaluate rd xs ev' q"
  using query_rule.same_known_rows [OF assms(1,2,4)] by (simp only: evaluate_at_horizon [OF assms(3)])

definition sample_listing :: "string \<Rightarrow> instant \<Rightarrow> listing_row" where
  "sample_listing k t = \<lparr>lo_id = k, lo_filing = 7, lo_run = None, lo_endpoint = feed_endpoint, lo_bucket = feed_bucket,
     lo_query_symbol = None, lo_hash = k, lo_raw_item = JObj (sample_entry t), lo_observed_at = t\<rparr>"

definition listed_evidence :: "listing_row list \<Rightarrow> evidence" where
  "listed_evidence rows = \<lparr>ev_listings = rows, ev_classifications = [], ev_decisions = [], ev_runs = [], ev_validations = [],
     ev_observations = [], ev_f6_configurations = [], ev_f6_designations = [], ev_f8_configurations = [],
     ev_f8_designations = [], ev_batches = []\<rparr>"

definition sample_digests :: selection_digests where
  "sample_digests = \<lparr>xd_evidence = (\<lambda>_. ''e''), xs_reconcile = plain_reconcile, xs_show_key = (\<lambda>_. []),
     xs_configuration = fc_f6_configuration_id, xs_result = (\<lambda>r. ''h'' @ ar_mode r)\<rparr>"

definition known_query :: query where
  "known_query = \<lparr>qu_issuer_id = ''i'', qu_facts = \<lparr>ff_ef_keys = [], ff_fields = []\<rparr>, qu_mode = ''KNOWN'', qu_cutoff = Some 5,
     qu_horizon = None, qu_f8_configuration_id = None\<rparr>"

lemma evaluate_ignores_later_rows_witness:
  "evaluate plain_reader sample_digests (listed_evidence [sample_listing ''a'' 3]) known_query =
   evaluate plain_reader sample_digests (listed_evidence [sample_listing ''a'' 3, sample_listing ''b'' 6]) known_query"
  by (rule evaluate_ignores_later_rows [where h = 5])
    (simp_all add: well_keyed_def as_known_def known_by_def listed_evidence_def sample_listing_def governing_horizon_def
      known_query_def live_modes_def)

section \<open>The visible observations\<close>

lemma held_known:
  assumes "held_observations rd xs ev runs h issuer f6 = Inr (sel, held)" and "x \<in> set held"
  shows "known_within h (fst (snd x))"
proof -
  obtain out where out: "mapR (held_of_run rd ev (cf_versions f6) h issuer) (sl_documents sel) = Inr out" "held = concat out"
    using assms(1) by (auto simp: held_observations_def bindR_eq_Inr)
  then obtain ys d where ys: "x \<in> set ys" "held_of_run rd ev (cf_versions f6) h issuer d = Inr ys"
    using assms(2) mapR_Inr_set [OF out(1)] by auto
  then show ?thesis
    by (auto simp: held_of_run_def bindR_eq_Inr split: option.splits)
qed

definition seen_soundly :: "string \<Rightarrow> instant option \<Rightarrow> instant \<Rightarrow> observation_view \<Rightarrow> bool" where
  "seen_soundly mode cutoff h v \<longleftrightarrow>
     (\<exists>t \<le> h. kv_known_at (ow_knowledge v) = Some t) \<and>
     (mode = ''KNOWN'' \<longrightarrow> (\<forall>a. aw_available_at (ow_availability v) = Some a \<longrightarrow> by_cutoff cutoff a)) \<and>
     (mode = ''AVAILABLE'' \<longrightarrow> (\<exists>a. aw_available_at (ow_availability v) = Some a \<and> by_cutoff cutoff a))"

lemma view_of_item_sound:
  assumes "known_within h k" and "in_view mode cutoff (da_at d)"
  shows "seen_soundly mode cutoff h (observation_view_of s k d)"
  using assms
  by (auto simp: seen_soundly_def observation_view_of_def availability_view_of_def in_view_def known_within_def
      split: option.splits if_splits)

lemma shown_items_sound:
  assumes "mapR (show_item mode cutoff documents) held = Inr shown_set" and "\<And>x. x \<in> set held \<Longrightarrow> known_within h (fst (snd x))"
    and "(s, k, d) \<in> set shown_set"
  shows "seen_soundly mode cutoff h (observation_view_of s k d)"
proof -
  obtain x where x: "x \<in> set held" "show_item mode cutoff documents x = Inr (s, k, d)"
    using assms(1,3) by (auto simp: mapR_Inr_set)
  then have "in_view mode cutoff (da_at d)" "k = fst (snd x)"
    by (auto simp: show_item_def guardR_eq_Inr split: option.splits)
  then show ?thesis
    using view_of_item_sound assms(2) [OF x(1)] by blast
qed

lemma visible_of_fact_view [simp]: "set (fw_visible (fact_view_of k i r visible excluded records ambiguities)) = set visible"
  by (simp add: fact_view_of_def)

lemma conclude_view_visible:
  "v \<in> set (fw_visible (conclude_view shown_set excluded k ruling kept r)) \<longleftrightarrow>
     (\<exists>s kn d. (s, kn, d) \<in> set kept \<and> v = observation_view_of s kn d)"
  by (force simp: conclude_view_def)

lemma conclude_key_visible:
  assumes "conclude_key xs f6 dt shown sel shown_set excluded k = Inr (k', f)" and "v \<in> set (fw_visible f)"
  shows "\<exists>s kn d. (s, kn, d) \<in> set shown_set \<and> v = observation_view_of s kn d"
proof -
  obtain ruling kept r where "f = conclude_view shown_set excluded k ruling kept r" "set kept \<subseteq> set shown_set"
    using assms(1) by (auto simp: conclude_key_def bindR_eq_Inr Let_def items_of_def)
  with assms(2) show ?thesis by (auto simp: conclude_view_visible)
qed

lemma recomputed_sound:
  assumes "recomputed rd xs ev q h f6 = Inr facts" and "(k, f) \<in> set facts" and "v \<in> set (fw_visible f)"
  shows "seen_soundly (qu_mode q) (qu_cutoff q) h v"
proof -
  obtain shown documents sel held shown_set excluded keys where
    held: "held_observations rd xs ev shown h (qu_issuer_id q) f6 = Inr (sel, held)" and
    shown_set: "mapR (show_item (qu_mode q) (qu_cutoff q) documents) (filter (\<lambda>x. \<not> snd (snd x)) held) = Inr shown_set" and
    facts: "mapR (conclude_key xs f6 (document_times_at ev h) shown sel shown_set excluded) keys = Inr facts"
    using assms(1) unfolding recomputed_def Let_def bindR_eq_Inr split_beta
    apply (elim exE conjE)
    apply (rule that)
      prefer 3 apply assumption
     prefer 2 apply assumption
    apply simp
    done
  obtain k' where "conclude_key xs f6 (document_times_at ev h) shown sel shown_set excluded k' = Inr (k, f)"
    using assms(2) mapR_Inr_set [OF facts] by blast
  then obtain s kn d where v: "(s, kn, d) \<in> set shown_set" "v = observation_view_of s kn d"
    using conclude_key_visible assms(3) by blast
  show ?thesis
    unfolding v(2) by (rule shown_items_sound [OF shown_set _ v(1)]) (use held_known [OF held] in auto)
qed

lemma recorded_view_sound:
  "recorded_view rd xs ev h ref = Inr v \<Longrightarrow> \<exists>t \<le> h. kv_known_at (ow_knowledge v) = Some t"
  by (auto simp: recorded_view_def guardR_eq_Inr bindR_eq_Inr known_within_iff observation_view_of_def split: option.splits)

lemma dict_set_entries: "set (dict_set k v d) \<subseteq> insert (k, v) (set d)"
  by (induction k v d rule: dict_set.induct) auto

lemma dict_of_entries: "set (dict_of ps) \<subseteq> set ps"
proof -
  have "set (fold (\<lambda>(k, v). dict_set k v) ps d) \<subseteq> set ps \<union> set d" for d
  proof (induction ps arbitrary: d)
    case (Cons p ps)
    then show ?case using dict_set_entries [of "fst p" "snd p" d] by (fastforce simp: split_beta)
  qed simp
  from this [of "[]"] show ?thesis by (simp add: dict_of_def)
qed

lemma recorded_sound:
  assumes "recorded_facts rd xs ev q h c = Inr (facts, batch)" and "(k, f) \<in> set facts" and "v \<in> set (fw_visible f)"
  shows "\<exists>t \<le> h. kv_known_at (ow_knowledge v) = Some t"
proof -
  consider "facts = []" | records out where "mapR (recorded_fact rd xs ev h) records = Inr out" "facts = dict_of out"
    using assms(1) by (auto simp: recorded_facts_def guardR_eq_Inr bindR_eq_Inr split: option.splits)
  then show ?thesis
  proof cases
    case 1
    with assms(2) show ?thesis by simp
  next
    case 2
    then have "(k, f) \<in> set out" using assms(2) dict_of_entries by blast
    with 2(1) obtain rec where "recorded_fact rd xs ev h rec = Inr (k, f)" by (auto simp: mapR_Inr_set)
    then obtain views where views: "mapR (recorded_view rd xs ev h) (rr_observations (sr_result rec)) = Inr views"
      "f = fact_view_of (sr_ef_key rec) (Some (rr_identity (sr_result rec))) (Some (sr_result rec)) views [] [] []"
      by (auto simp: recorded_fact_def bindR_eq_Inr)
    then have "v \<in> set views" using assms(3) by (simp add: fact_view_of_def)
    then show ?thesis using recorded_view_sound mapR_Inr_set [OF views(1)] by blast
  qed
qed

lemma listed_view_origin:
  "f \<in> set (listed_views flt facts) \<Longrightarrow> v \<in> set (fw_visible f) \<Longrightarrow> \<exists>k. (k, f) \<in> set facts"
  by (auto simp: listed_views_def Let_def fact_view_of_def)

text \<open>
  C30: every observation an as-of result shows had its whole chain recorded by the governing horizon. In KNOWN, no
  shown document became available after the cutoff; in AVAILABLE, every shown document is known to have been
  available by the cutoff.
\<close>

theorem visible_in_information_set:
  assumes "evaluate rd xs ev q = Inr r" and "f \<in> set (ar_facts r)" and "v \<in> set (fw_visible f)"
  shows "\<exists>h t. governing_horizon q = Some h \<and> kv_known_at (ow_knowledge v) = Some t \<and> t \<le> h \<and>
    (qu_mode q = ''KNOWN'' \<longrightarrow> (\<forall>a. aw_available_at (ow_availability v) = Some a \<longrightarrow> by_cutoff (qu_cutoff q) a)) \<and>
    (qu_mode q = ''AVAILABLE'' \<longrightarrow> (\<exists>a. aw_available_at (ow_availability v) = Some a \<and> by_cutoff (qu_cutoff q) a))"
proof -
  obtain h where h: "governing_horizon q = Some h"
    using assms(1) by (auto simp: evaluate_def split: option.splits)
  obtain c f6 facts batch where mode: "facts_of_mode rd xs ev q h c f6 = Inr (facts, batch)"
    and r: "ar_facts r = listed_views (qu_facts q) facts"
    using assms(1) by (auto simp: evaluate_at_horizon [OF h] evaluate_at_def bindR_eq_Inr seal_def)
  obtain k where k: "(k, f) \<in> set facts" using listed_view_origin assms(2,3) unfolding r by blast
  show ?thesis
  proof (cases "qu_mode q = ''KNOWN_RECORDED''")
    case True
    then have "recorded_facts rd xs ev q h (fc_f6_configuration_id c) = Inr (facts, batch)"
      using mode by (simp add: facts_of_mode_def)
    from recorded_sound [OF this k assms(3)] True h show ?thesis by auto
  next
    case False
    then have "recomputed rd xs ev q h f6 = Inr facts"
      using mode by (auto simp: facts_of_mode_def bindR_eq_Inr split: if_splits)
    from recomputed_sound [OF this k assms(3)] h show ?thesis by (auto simp: seen_soundly_def)
  qed
qed

definition sample_stored :: "source_observation \<Rightarrow> stored_observation" where
  "sample_stored so = \<lparr>sb_so = so, sb_recorded_at = 3\<rparr>"

definition known_evidence :: "source_observation \<Rightarrow> evidence" where
  "known_evidence so = (listed_evidence [(sample_listing ''a'' 2)\<lparr>lo_filing := 1\<rparr>])\<lparr>
     ev_classifications := [\<lparr>cl_id = ''cl'', cl_filing = 1, cl_sha = ''d'', cl_classified_at = 1, cl_document_type = None,
       cl_document_type_status = None, cl_underlying_type = None, cl_underlying_type_status = None\<rparr>],
     ev_runs := [\<lparr>xr_ref = sample_f5_run ''r'' ''d'', xr_classification_id = ''cl'', xr_recorded_at = 0, xr_last_modified = None,
       xr_path_epoch = None, xr_retrieved_at = None\<rparr>],
     ev_validations := [\<lparr>vw_key = ''r'', vw_f5_run_id = ''r'', vw_filing = 1, vw_sha = ''d'', vw_issuer_link_id = None,
       vw_publication = Some 2000, vw_versions = implemented, vw_recorded_at = 3\<rparr>],
     ev_observations := [sample_stored so],
     ev_f6_configurations := [\<lparr>f6_id = ''f6'', f6_configuration = Some sample_configuration, f6_recorded_at = 0\<rparr>],
     ev_f8_configurations := [\<lparr>f8_id = ''f8'', f8_configuration = Some \<lparr>fc_f6_configuration_id = ''f6'', fc_rules = implemented_rules\<rparr>,
       f8_json = [], f8_recorded_at = 0\<rparr>],
     ev_f8_designations := [\<lparr>dg_id = 1, dg_purpose = ''canonical'', dg_configuration_id = ''f8'', dg_recorded_at = 0\<rparr>]\<rparr>"

definition sample_so :: source_observation where
  "sample_so = (case observation plain_digests (sample_validation_run ''r'' ''d'') [sample_result 3 (thousands 100)] of
     Inr so \<Rightarrow> so | Inl e \<Rightarrow> undefined)"

definition sample_query :: "string \<Rightarrow> query" where
  "sample_query mode = \<lparr>qu_issuer_id = ''JKH'', qu_facts = \<lparr>ff_ef_keys = [], ff_fields = []\<rparr>, qu_mode = mode, qu_cutoff = Some 5000,
     qu_horizon = None, qu_f8_configuration_id = None\<rparr>"

lemma sample_query_answered:
  "(case evaluate plain_reader sample_digests (known_evidence sample_so) (sample_query ''KNOWN'') of
      Inr r \<Rightarrow> map (map ow_so_key \<circ> fw_visible) (ar_facts r) | Inl e \<Rightarrow> []) = [[''ref'']]"
  by code_simp

lemma visible_in_information_set_witness:
  "\<exists>r f v. evaluate plain_reader sample_digests (known_evidence sample_so) (sample_query ''KNOWN'') = Inr r \<and>
     f \<in> set (ar_facts r) \<and> v \<in> set (fw_visible f) \<and> (\<exists>t \<le> 5000. kv_known_at (ow_knowledge v) = Some t)"
proof -
  obtain r where r: "evaluate plain_reader sample_digests (known_evidence sample_so) (sample_query ''KNOWN'') = Inr r"
    "map (map ow_so_key \<circ> fw_visible) (ar_facts r) = [[''ref'']]"
    using sample_query_answered
    by (cases "evaluate plain_reader sample_digests (known_evidence sample_so) (sample_query ''KNOWN'')") simp_all
  from r(2) obtain f v where fv: "f \<in> set (ar_facts r)" "v \<in> set (fw_visible f)" by auto
  have "governing_horizon (sample_query ''KNOWN'') = Some 5000"
    by (simp add: governing_horizon_def sample_query_def live_modes_def)
  with visible_in_information_set [OF r(1) fv] r(1) fv show ?thesis by auto
qed

section \<open>The repeated availability test\<close>

lemma judged_in_view:
  assumes "mapR (judge_run rd xs ev mode cutoff h) rows = Inr judged" and "r \<in> set (map fst (filter snd judged))"
    and "version_availability rd (asof_digests.truncate xs) ev (xr_filing r) (xr_sha r) h = Inr a"
  shows "in_view mode cutoff (va_at a)"
proof -
  obtain p where p: "p \<in> set judged" "snd p" "fst p = r" using assms(2) by auto
  then obtain r' where "judge_run rd xs ev mode cutoff h r' = Inr p" using mapR_Inr_set [OF assms(1)] by blast
  with p assms(3) show ?thesis by (auto simp: judge_run_def bindR_eq_Inr)
qed

lemma min_in_view:
  assumes "\<And>x. x \<in> set vs \<Longrightarrow> in_view mode cutoff (va_at x)" and "vs \<noteq> []"
  shows "in_view mode cutoff (min_on id (List.map_filter va_at vs))"
proof (cases "min_on id (List.map_filter va_at vs)")
  case None
  then have "List.map_filter va_at vs = []" by simp
  moreover obtain x where "x \<in> set vs" using assms(2) by (cases vs) auto
  ultimately have "va_at x = None" by (auto simp: List.map_filter_def filter_empty_conv)
  with None assms(1) [OF \<open>x \<in> set vs\<close>] show ?thesis by simp
next
  case (Some a)
  then have "a \<in> set (List.map_filter va_at vs)" by (simp add: min_list_Some)
  then obtain x where "x \<in> set vs" "va_at x = Some a" by (auto simp: List.map_filter_def)
  with Some assms(1) show ?thesis by force
qed

text \<open>
  The second availability test of the evaluation never fails. A document shown under a mode, whose runs
  all passed the mode's availability test as document versions, passes it as a document too, so the evaluation's
  error for a visible document that fails its own test is unreachable.
\<close>

theorem shown_documents_in_view:
  assumes "mapR (judge_run rd xs ev mode cutoff h) rows = Inr judged"
    and "shown_documents rd xs ev h (map fst (filter snd judged)) = Inr documents"
    and "map_of documents sha = Some d"
  shows "in_view mode cutoff (da_at d)"
proof -
  let ?shown = "map fst (filter snd judged)"
  have "(sha, d) \<in> set documents" using assms(3) by (rule map_of_SomeD)
  then obtain s where "s \<in> set (sorted_set (map xr_sha ?shown))"
    "bindR (document_at rd xs ev h s (carriers ?shown s)) (\<lambda>d. Inr (s, d)) = Inr (sha, d)"
    using mapR_Inr_set [OF assms(2) [unfolded shown_documents_def]] by blast
  then have s: "sha \<in> set (map xr_sha ?shown)" "document_at rd xs ev h sha (carriers ?shown sha) = Inr d"
    unfolding bindR_eq_Inr set_sorted_set by blast+
  then obtain vs where vs: "mapR (\<lambda>i. version_availability rd (asof_digests.truncate xs) ev i sha h) (carriers ?shown sha) = Inr vs"
    "d = document_availability sha vs"
    by (auto simp: document_at_def bindR_eq_Inr)
  have each: "in_view mode cutoff (va_at x)" if x: "x \<in> set vs" for x
  proof -
    obtain i where i: "i \<in> set (carriers ?shown sha)"
      "version_availability rd (asof_digests.truncate xs) ev i sha h = Inr x"
      using x mapR_Inr_set [OF vs(1)] by blast
    then obtain r where "r \<in> set ?shown" "xr_sha r = sha" "xr_filing r = i" by (auto simp: carriers_def)
    with judged_in_view [OF assms(1)] i(2) show ?thesis by blast
  qed
  have "filter (\<lambda>r. xr_sha r = sha) ?shown \<noteq> []"
    using s(1) unfolding filter_empty_conv list.set_map [of xr_sha] by blast
  then have "carriers ?shown sha \<noteq> []" by (simp only: carriers_def sorted_set_eq_Nil map_is_Nil_conv not_False_eq_True)
  then have "vs \<noteq> []" using vs(1) by (cases "carriers ?shown sha") (auto simp: bindR_eq_Inr)
  then have "in_view mode cutoff (min_on id (List.map_filter va_at (sort_key va_filing vs)))"
    using each by (intro min_in_view) (auto simp flip: set_empty)
  then show ?thesis by (simp add: vs(2) document_availability_def Let_def)
qed

definition one_run :: evidence where
  "one_run = (listed_evidence [(sample_listing ''a'' 2)\<lparr>lo_filing := 1\<rparr>])\<lparr>ev_runs :=
     [\<lparr>xr_ref = sample_f5_run ''r'' ''d'', xr_classification_id = ''cl'', xr_recorded_at = 0, xr_last_modified = None,
       xr_path_epoch = None, xr_retrieved_at = None\<rparr>]\<rparr>"

lemma one_run_shown:
  "(case mapR (judge_run plain_reader sample_digests one_run ''AVAILABLE'' (Some 5000) 9000) (ev_runs one_run) of
      Inl e \<Rightarrow> False
    | Inr judged \<Rightarrow> (case shown_documents plain_reader sample_digests one_run 9000 (map fst (filter snd judged)) of
        Inl e \<Rightarrow> False | Inr documents \<Rightarrow> map_option da_at (map_of documents ''d'') = Some (Some 2000)))"
  by code_simp

lemma shown_documents_in_view_witness:
  "\<exists>judged documents d. mapR (judge_run plain_reader sample_digests one_run ''AVAILABLE'' (Some 5000) 9000) (ev_runs one_run) = Inr judged \<and>
     shown_documents plain_reader sample_digests one_run 9000 (map fst (filter snd judged)) = Inr documents \<and>
     map_of documents ''d'' = Some d \<and> in_view ''AVAILABLE'' (Some 5000) (da_at d)"
  using one_run_shown shown_documents_in_view
  by (fastforce split: sum.splits)

end
