(* ===== verification/PitFacts.thy ===== *)
theory PitFacts
  imports AsofFacts
begin

text \<open>
  Facts about queries and the point-in-time interfaces: what an accepted query promises, that an evaluated result
  re-proves itself, and that a CURRENT result never passes as point-in-time.
\<close>

section \<open>Queries\<close>

text \<open>
  every accepted query is well formed: its mode is one of the four, its governing horizon is never before its
  cutoff, KNOWN and KNOWN_RECORDED are governed by the cutoff itself, and CURRENT has no cutoff while every other mode
  has one.
\<close>

theorem accepted_query_horizon:
  assumes "mk_query issuer facts mode t h pinned = Inr q"
  shows "qu_mode q \<in> set modes \<and> (qu_cutoff q = None \<longleftrightarrow> qu_mode q = ''CURRENT'') \<and>
    (qu_mode q \<in> set live_modes \<longrightarrow> governing_horizon q = qu_cutoff q) \<and>
    (\<forall>c g. qu_cutoff q = Some c \<longrightarrow> governing_horizon q = Some g \<longrightarrow> c \<le> g)"
proof -
  have q: "mode \<in> set modes" "\<not> (mode = ''CURRENT'' \<and> t \<noteq> None)" "\<not> (mode \<noteq> ''CURRENT'' \<and> t = None)"
    "\<not> (mode \<in> set live_modes \<and> h \<noteq> None)"
    "\<not> (mode = ''AVAILABLE'' \<and> (case (h, t) of (Some h', Some t') \<Rightarrow> h' < t' | _ \<Rightarrow> False))"
    "qu_mode q = mode" "qu_cutoff q = t" "qu_horizon q = h"
    using assms unfolding mk_query_def guardR_eq_Inr bindR_eq_Inr by auto
  then show ?thesis
    by (auto simp: governing_horizon_def modes_def live_modes_def split: option.splits if_splits)
qed

definition issuer_uuid :: string where
  "issuer_uuid = ''01234567-89ab-cdef-0123-456789abcdef''"

lemma accepted_query_horizon_witness:
  "\<exists>q. mk_query issuer_uuid EveryFact ''AVAILABLE'' (Some 5) (Some 9) None = Inr q \<and> governing_horizon q = Some 9 \<and> qu_cutoff q \<noteq> None"
proof -
  have "(case mk_query issuer_uuid EveryFact ''AVAILABLE'' (Some 5) (Some 9) None of Inl e \<Rightarrow> False
      | Inr q \<Rightarrow> qu_mode q = ''AVAILABLE'' \<and> governing_horizon q = Some 9)"
    by code_simp
  then obtain q where q: "mk_query issuer_uuid EveryFact ''AVAILABLE'' (Some 5) (Some 9) None = Inr q"
    "qu_mode q = ''AVAILABLE''" "governing_horizon q = Some 9"
    by (auto split: sum.splits)
  from accepted_query_horizon [OF q(1)] q show ?thesis by auto
qed

section \<open>Re-proof\<close>

lemma evaluate_sealed:
  assumes "evaluate rd xs ev q = Inr r"
  shows "ar_mode r = qu_mode q \<and> ar_label r = label_of (qu_mode q) \<and> ar_result_hash r = computed_hash xs r"
proof -
  obtain h where h: "governing_horizon q = Some h"
    using assms by (auto simp: evaluate_def split: option.splits)
  obtain c f6 facts batch where r: "r = seal xs \<lparr>ar_mode = qu_mode q, ar_label = label_of (qu_mode q), ar_cutoff = qu_cutoff q,
         ar_horizon = qu_horizon q, ar_issuer_id = qu_issuer_id q, ar_facts_requested = qu_facts q,
         ar_f8_configuration_id = xs_configuration xs c, ar_f6_configuration_id = fc_f6_configuration_id c,
         ar_rule_versions = fc_rules c, ar_recorded_batch = batch, ar_facts = listed_views (qu_facts q) facts,
         ar_result_hash = []\<rparr>"
    using assms by (auto simp: evaluate_at_horizon [OF h] evaluate_at_def bindR_eq_Inr)
  show ?thesis by (simp add: r seal_def computed_hash_def)
qed

lemma evaluate_mode:
  assumes "evaluate rd xs ev q = Inr r"
  shows "qu_mode q \<in> set modes"
proof -
  obtain h where h: "governing_horizon q = Some h"
    using assms by (auto simp: evaluate_def split: option.splits)
  obtain c f6 p where "facts_of_mode rd xs ev q h c f6 = Inr p"
    using assms by (auto simp: evaluate_at_horizon [OF h] evaluate_at_def bindR_eq_Inr)
  then show ?thesis by (auto simp: facts_of_mode_def modes_def split: if_splits)
qed

text \<open>
  A result the evaluation returns re-proves its own hash, and the live interface accepts it exactly when it was
  evaluated as KNOWN or KNOWN_RECORDED; an AVAILABLE result is refused as not live, a CURRENT one as never point-in-time.
\<close>

theorem live_interface_decides:
  assumes "evaluate rd xs ev q = Inr r" and "\<And>x. xs_result xs x \<noteq> []"
  shows "verify xs r \<and> require_live xs r =
    (if qu_mode q \<in> set live_modes then Inr r
     else if qu_mode q = ''AVAILABLE'' then Inl (Refused ''not_live_mode'') else Inl (Refused ''current_not_point_in_time''))"
proof -
  note sealed = evaluate_sealed [OF assms(1)]
  have "verify xs r" using sealed assms(2) by (simp add: verify_def computed_hash_def)
  with sealed evaluate_mode [OF assms(1)] show ?thesis
    by (auto simp: require_live_def require_point_in_time_def guardR_def modes_def live_modes_def point_in_time_modes_def)
qed

lemma live_interface_decides_witness:
  "\<exists>r. evaluate plain_reader sample_digests (known_evidence sample_so) (sample_query ''KNOWN'') = Inr r \<and>
     require_live sample_digests r = Inr r"
proof -
  obtain r where r: "evaluate plain_reader sample_digests (known_evidence sample_so) (sample_query ''KNOWN'') = Inr r"
    using sample_query_answered
    by (cases "evaluate plain_reader sample_digests (known_evidence sample_so) (sample_query ''KNOWN'')") simp_all
  have "\<And>x. xs_result sample_digests x \<noteq> []" by (simp add: sample_digests_def)
  from live_interface_decides [OF r this] r show ?thesis by (simp add: sample_query_def live_modes_def)
qed

text \<open>
  relabelling does not help. However the mode and label of a result evaluated as CURRENT are rewritten, the
  point-in-time interface refuses it, given that the result hash tells results of different modes apart.
\<close>

theorem relabelled_current_refused:
  assumes "evaluate rd xs ev q = Inr r" and "qu_mode q = ''CURRENT''" and "\<And>a b. xs_result xs a = xs_result xs b \<Longrightarrow> ar_mode a = ar_mode b"
  shows "\<exists>reason. require_point_in_time xs (r\<lparr>ar_mode := mode, ar_label := label\<rparr>) = Inl (Refused reason)"
proof (cases "mode = ''CURRENT''")
  case True
  then show ?thesis by (auto simp: require_point_in_time_def guardR_def point_in_time_modes_def)
next
  case False
  note sealed = evaluate_sealed [OF assms(1)]
  let ?r = "r\<lparr>ar_mode := mode, ar_label := label\<rparr>"
  have "computed_hash xs ?r \<noteq> ar_result_hash ?r"
  proof
    assume "computed_hash xs ?r = ar_result_hash ?r"
    with sealed have "xs_result xs (?r\<lparr>ar_result_hash := []\<rparr>) = xs_result xs (r\<lparr>ar_result_hash := []\<rparr>)"
      by (simp add: computed_hash_def)
    from assms(3) [OF this] False sealed assms(2) show False by simp
  qed
  then show ?thesis by (auto simp: require_point_in_time_def guardR_def verify_def)
qed

definition configured_evidence :: evidence where
  "configured_evidence = (listed_evidence [])\<lparr>
     ev_f6_configurations := [\<lparr>f6_id = ''f6'', f6_configuration = Some sample_configuration, f6_recorded_at = 0\<rparr>],
     ev_f8_configurations := [\<lparr>f8_id = ''f8'', f8_configuration = Some \<lparr>fc_f6_configuration_id = ''f6'', fc_rules = implemented_rules\<rparr>,
       f8_json = [], f8_recorded_at = 0\<rparr>],
     ev_f8_designations := [\<lparr>dg_id = 1, dg_purpose = ''canonical'', dg_configuration_id = ''f8'', dg_recorded_at = 0\<rparr>]\<rparr>"

definition current_query :: query where
  "current_query = (sample_query ''CURRENT'')\<lparr>qu_cutoff := None, qu_horizon := Some 5000\<rparr>"

lemma configured_answers:
  "\<exists>r. evaluate plain_reader sample_digests configured_evidence current_query = Inr r"
  "\<exists>r. evaluate plain_reader sample_digests configured_evidence (sample_query ''KNOWN'') = Inr r"
proof -
  have "(case evaluate plain_reader sample_digests configured_evidence current_query of Inl e \<Rightarrow> False | Inr r \<Rightarrow> True)"
    by code_simp
  then show "\<exists>r. evaluate plain_reader sample_digests configured_evidence current_query = Inr r"
    by (auto split: sum.splits)
  have "(case evaluate plain_reader sample_digests configured_evidence (sample_query ''KNOWN'') of Inl e \<Rightarrow> False | Inr r \<Rightarrow> True)"
    by code_simp
  then show "\<exists>r. evaluate plain_reader sample_digests configured_evidence (sample_query ''KNOWN'') = Inr r"
    by (auto split: sum.splits)
qed

lemma relabelled_current_refused_witness:
  "\<exists>r reason. evaluate plain_reader sample_digests configured_evidence current_query = Inr r \<and>
     require_point_in_time sample_digests (r\<lparr>ar_mode := ''KNOWN'', ar_label := ''known''\<rparr>) = Inl (Refused reason)"
proof -
  obtain r where r: "evaluate plain_reader sample_digests configured_evidence current_query = Inr r"
    using configured_answers(1) by blast
  have "qu_mode current_query = ''CURRENT''" by (simp add: current_query_def sample_query_def)
  moreover have "xs_result sample_digests a = xs_result sample_digests b \<Longrightarrow> ar_mode a = ar_mode b" for a b
    by (simp add: sample_digests_def)
  ultimately show ?thesis using relabelled_current_refused [OF r] r by blast
qed

text \<open>
  A point-in-time dataset holds results of one mode only, never CURRENT, each of which re-proves its own hash and
  carries its mode's label.
\<close>

theorem dataset_is_point_in_time:
  assumes "dataset xs dh results = Inr d"
  shows "results \<noteq> [] \<and> pd_results d = results \<and> pd_mode d \<noteq> ''CURRENT'' \<and>
    (\<forall>r \<in> set results. ar_mode r = pd_mode d \<and> ar_label r = label_of (pd_mode d) \<and> verify xs r)"
proof -
  obtain checked mode where checked: "mapR (require_point_in_time xs) results = Inr checked"
    and mode: "sorted_set (map ar_mode results) = [mode]" and d: "results \<noteq> []" "pd_results d = results" "pd_mode d = mode"
    using assms by (auto simp: dataset_def guardR_eq_Inr bindR_eq_Inr split: list.splits)
  have each: "ar_mode r = mode" if "r \<in> set results" for r
    using that arg_cong [OF mode, of set] by auto
  have ok: "verify xs r \<and> ar_mode r \<in> set point_in_time_modes \<and> ar_label r = label_of (ar_mode r)" if "r \<in> set results" for r
    using mapR_each [OF checked that] by (auto simp: require_point_in_time_def guardR_eq_Inr)
  have "mode \<noteq> ''CURRENT''"
    using ok [OF list.set_sel(1) [OF d(1)]] each [OF list.set_sel(1) [OF d(1)]] by (auto simp: point_in_time_modes_def)
  with d each ok show ?thesis by auto
qed

lemma dataset_is_point_in_time_witness:
  "\<exists>r d. dataset sample_digests (\<lambda>_. []) [r] = Inr d \<and> pd_mode d = ''KNOWN'' \<and> pd_mode d \<noteq> ''CURRENT'' \<and> verify sample_digests r"
proof -
  obtain r where r: "evaluate plain_reader sample_digests configured_evidence (sample_query ''KNOWN'') = Inr r"
    using configured_answers(2) by blast
  note sealed = evaluate_sealed [OF r]
  have "require_point_in_time sample_digests r = Inr r"
    using sealed by (simp add: require_point_in_time_def guardR_def verify_def computed_hash_def sample_digests_def
        sample_query_def point_in_time_modes_def)
  then obtain d where d: "dataset sample_digests (\<lambda>_. []) [r] = Inr d" "pd_mode d = ''KNOWN''"
    using sealed by (simp add: dataset_def guardR_def sorted_set_def sample_query_def)
  from dataset_is_point_in_time [OF d(1)] d show ?thesis by (intro exI [of _ r] exI [of _ d]) simp
qed

end
