(* ===== verification/Schedule.thy ===== *)
theory Schedule
  imports Calendar
begin

text \<open>
  The scheduling rules (\<open>scheduler/schedule.py\<close>): the owner's settings and their bounds, Colombo trading dates,
  candidate trading days and the retry schedule. A trading date is its Colombo day count, a local time of day the
  microseconds since midnight.
\<close>

definition work_kind_name :: string where
  "work_kind_name = ''daily_post_close''"

definition operator_hard_max_attempts :: int where
  "operator_hard_max_attempts = 8"

definition min_start_requests :: int where
  "min_start_requests = 10"

definition p2_run_request_cap :: int where
  "p2_run_request_cap = 150"

definition minute_us :: int where
  "minute_us = 60 * 1000000"

definition local_time :: "int \<Rightarrow> int \<Rightarrow> int \<Rightarrow> int" where
  "local_time h m s = (h * 3600 + m * 60 + s) * 1000000"

definition earliest_start_floor :: int where
  "earliest_start_floor = local_time 14 30 0"

section \<open>Settings\<close>

record settings =
  ss_armed :: bool
  ss_id :: "int option"
  ss_work_kind :: string
  ss_start_date :: "int option"
  ss_earliest_start :: int
  ss_window_close :: int
  ss_retry_base :: int
  ss_retry_max :: int
  ss_max_attempts :: int
  ss_no_session_confirmations :: int
  ss_daily_request_budget :: int
  ss_max_catch_up_days :: int
  ss_stale_lease_minutes :: int
  ss_max_capture_actions :: int
  ss_user_agent :: "string option"
  ss_host :: "string option"
  ss_expected_requests :: "string option"
  ss_stop_conditions :: "string list"
  ss_note :: string

definition disarmed :: settings where
  "disarmed = \<lparr>ss_armed = False, ss_id = None, ss_work_kind = work_kind_name, ss_start_date = None,
     ss_earliest_start = local_time 15 15 0, ss_window_close = local_time 23 59 59, ss_retry_base = 20, ss_retry_max = 120,
     ss_max_attempts = 4, ss_no_session_confirmations = 2, ss_daily_request_budget = 150, ss_max_catch_up_days = 14,
     ss_stale_lease_minutes = 30, ss_max_capture_actions = 1, ss_user_agent = None, ss_host = None,
     ss_expected_requests = None, ss_stop_conditions = [], ss_note = ''no owner decision recorded: disarmed''\<rparr>"

text \<open>The bounded settings with their bounds, in the order of the table.\<close>

definition bounded_values :: "settings \<Rightarrow> (int \<times> int \<times> int) list" where
  "bounded_values s =
     [(ss_retry_base s, 5, 240), (ss_max_attempts s, 1, 8), (ss_no_session_confirmations s, 1, 3),
      (ss_daily_request_budget s, 10, 500), (ss_max_catch_up_days s, 1, 60), (ss_stale_lease_minutes s, 5, 240)]"

definition given :: "string option \<Rightarrow> bool" where
  "given t \<longleftrightarrow> (case t of None \<Rightarrow> False | Some s \<Rightarrow> s \<noteq> [])"

definition arming_complete :: "settings \<Rightarrow> bool" where
  "arming_complete s \<longleftrightarrow> ss_start_date s \<noteq> None \<and> given (ss_user_agent s) \<and> given (ss_host s) \<and>
     given (ss_expected_requests s) \<and> ss_stop_conditions s \<noteq> []"

definition validate_settings :: "settings \<Rightarrow> settings res" where
  "validate_settings s =
     guardR (list_ex (\<lambda>(v, lo, hi). v < lo \<or> hi < v) (bounded_values s)) ScheduleError
     (guardR (\<not> (ss_retry_base s \<le> ss_retry_max s \<and> ss_retry_max s \<le> 480)) ScheduleError
     (guardR (ss_max_capture_actions s \<noteq> 1) ScheduleError
     (guardR (ss_work_kind s \<noteq> work_kind_name) ScheduleError
     (guardR (ss_earliest_start s < earliest_start_floor) ScheduleError
     (guardR (\<not> ss_earliest_start s < ss_window_close s) ScheduleError
     (guardR (length (strip (ss_note s)) < 10) ScheduleError
     (guardR (ss_armed s \<and> \<not> arming_complete s) ScheduleError (Inr s))))))))"

record schedule_snapshot =
  sn_settings_id :: "int option"
  sn_earliest_start :: int
  sn_window_close :: int
  sn_retry_base :: int
  sn_retry_max :: int
  sn_max_attempts :: int
  sn_no_session_confirmations :: int

definition snapshot_of :: "settings \<Rightarrow> schedule_snapshot" where
  "snapshot_of s =
     \<lparr>sn_settings_id = ss_id s, sn_earliest_start = ss_earliest_start s, sn_window_close = ss_window_close s,
      sn_retry_base = ss_retry_base s, sn_retry_max = ss_retry_max s, sn_max_attempts = ss_max_attempts s,
      sn_no_session_confirmations = ss_no_session_confirmations s\<rparr>"

section \<open>Colombo time\<close>

definition colombo_moment :: "int \<Rightarrow> int \<Rightarrow> instant" where
  "colombo_moment d local = colombo_midnight d + local"

definition day_after :: "int \<Rightarrow> int res" where
  "day_after d = (if d + epoch_ordinal < toordinal (Date 9999 12 31) then Inr (d + 1) else Inl Overflow)"

definition colombo_day_bounds_of :: "int \<Rightarrow> (instant \<times> instant) res" where
  "colombo_day_bounds_of d = bindR (day_after d) (\<lambda>n. Inr (colombo_moment d 0, colombo_moment n 0))"

definition due_at :: "int \<Rightarrow> schedule_snapshot \<Rightarrow> instant" where
  "due_at d s = colombo_moment d (sn_earliest_start s)"

definition window_closes_at :: "int \<Rightarrow> schedule_snapshot \<Rightarrow> instant" where
  "window_closes_at d s = colombo_moment d (sn_window_close s)"

definition is_candidate_trading_day :: "int \<Rightarrow> bool" where
  "is_candidate_trading_day d \<longleftrightarrow> weekday (d + epoch_ordinal) < 5"

function candidate_dates :: "int \<Rightarrow> int \<Rightarrow> int list res" where
  "candidate_dates d final =
     (if final < d then Inr []
      else bindR (day_after d) (\<lambda>_. bindR (candidate_dates (d + 1) final) (\<lambda>ds.
        Inr (if is_candidate_trading_day d then d # ds else ds))))"
  by pat_completeness auto

termination
  by (relation "measure (\<lambda>(d, final). nat (final + 1 - d))") auto

declare candidate_dates.simps [simp del]

section \<open>Retries\<close>

definition retry_delay_minutes :: "schedule_snapshot \<Rightarrow> int \<Rightarrow> int" where
  "retry_delay_minutes s capture_actions =
     (let n = max 1 capture_actions in min (sn_retry_base s * 2 ^ nat (n - 1)) (sn_retry_max s))"

definition next_attempt_at :: "schedule_snapshot \<Rightarrow> int \<Rightarrow> instant \<Rightarrow> instant" where
  "next_attempt_at s capture_actions last_outcome_at = last_outcome_at + retry_delay_minutes s capture_actions * minute_us"

end
