(* ===== verification/Planner.thy ===== *)
theory Planner
  imports Schedule
begin

text \<open>
  The scheduler's decisions (\<open>scheduler/planner.py\<close>): what the capture runs of a trading date prove, and what to do
  about its work item now. The texts of reasons are not modelled. An item's schedule asks for at least one
  confirmation, so the run named by a proven no-session exists. The facts at the end are about candidate dates, the retry
  delay, and when the planner captures, settles or waits.
\<close>

record run_fact =
  rf_id :: string
  rf_state :: string
  rf_a_captured :: bool
  rf_e1 :: bool
  rf_session_date :: "int option"
  rf_missed_record :: bool

record run_proof =
  rp_state :: string
  rp_run :: "run_fact option"
  rp_captured :: bool
  rp_no_session_runs :: "run_fact list"
  rp_anomaly_runs :: "run_fact list"
  rp_resumable_run :: "string option"

definition rp_run_id :: "run_proof \<Rightarrow> string option" where
  "rp_run_id e = map_option rf_id (rp_run e)"

record planned =
  pl_kind :: string
  pl_action :: "string option"
  pl_run_id :: "string option"
  pl_attention :: bool

definition capture_actions :: "string list" where
  "capture_actions = [''start'', ''resume'']"

definition resumable_states :: "string list" where
  "resumable_states = [''partial'', ''failed'', ''abandoned'', ''blocked'']"

section \<open>What the runs prove\<close>

definition last_of :: "'a list \<Rightarrow> 'a option" where
  "last_of xs = (if xs = [] then None else Some (last xs))"

definition shows_no_session :: "int \<Rightarrow> run_fact \<Rightarrow> bool" where
  "shows_no_session d r \<longleftrightarrow> rf_a_captured r \<and> \<not> rf_e1 r \<and>
     (case rf_session_date r of None \<Rightarrow> True | Some s \<Rightarrow> s < d)"

definition shows_later_session :: "int \<Rightarrow> run_fact \<Rightarrow> bool" where
  "shows_later_session d r \<longleftrightarrow> rf_a_captured r \<and> (case rf_session_date r of None \<Rightarrow> False | Some s \<Rightarrow> d < s)"

definition resumable :: "run_fact \<Rightarrow> string option" where
  "resumable r = (if rf_state r \<in> set resumable_states then Some (rf_id r) else None)"

definition prove_runs :: "int \<Rightarrow> run_fact list \<Rightarrow> run_proof" where
  "prove_runs d runs =
     (let others = filter (\<lambda>r. \<not> rf_missed_record r) runs;
          no_session = filter (shows_no_session d) others; anomaly = filter (shows_later_session d) others
      in case last_of (filter (\<lambda>r. rf_state r = ''succeeded'') runs) of
           Some r \<Rightarrow> \<lparr>rp_state = ''succeeded'', rp_run = Some r, rp_captured = True, rp_no_session_runs = [],
             rp_anomaly_runs = [], rp_resumable_run = None\<rparr>
         | None \<Rightarrow>
        (case last_of (filter (\<lambda>r. rf_a_captured r \<and> rf_e1 r) runs) of
           Some r \<Rightarrow> \<lparr>rp_state = rf_state r, rp_run = Some r, rp_captured = True, rp_no_session_runs = no_session,
             rp_anomaly_runs = anomaly, rp_resumable_run = resumable r\<rparr>
         | None \<Rightarrow>
        (case last_of (filter rf_missed_record runs) of
           Some r \<Rightarrow> \<lparr>rp_state = ''missed'', rp_run = Some r, rp_captured = False, rp_no_session_runs = no_session,
             rp_anomaly_runs = anomaly, rp_resumable_run = None\<rparr>
         | None \<Rightarrow>
        (case last_of others of
           Some r \<Rightarrow> \<lparr>rp_state = rf_state r, rp_run = Some r, rp_captured = False, rp_no_session_runs = no_session,
             rp_anomaly_runs = anomaly,
             rp_resumable_run = (if r \<in> set no_session \<or> r \<in> set anomaly then None else resumable r)\<rparr>
         | None \<Rightarrow> \<lparr>rp_state = ''pending'', rp_run = None, rp_captured = False, rp_no_session_runs = [],
             rp_anomaly_runs = [], rp_resumable_run = None\<rparr>))))"

section \<open>The decision\<close>

record item_event =
  ie_state :: string
  ie_action :: string
  ie_run_id :: "string option"
  ie_scheduler_time :: instant

record work_item =
  wi_trading_date :: int
  wi_due_at :: instant
  wi_closes_at :: instant
  wi_origin :: string
  wi_schedule :: schedule_snapshot

definition capture_starts :: "item_event list \<Rightarrow> item_event list" where
  "capture_starts events = filter (\<lambda>e. ie_state e = ''running'' \<and> ie_action e \<in> set capture_actions) events"

definition capture_attempts :: "item_event list \<Rightarrow> int \<times> instant option" where
  "capture_attempts events = (int (length (capture_starts events)), map_option ie_scheduler_time (last_of (capture_starts events)))"

definition wait :: "bool \<Rightarrow> planned" where
  "wait attention = \<lparr>pl_kind = ''wait'', pl_action = None, pl_run_id = None, pl_attention = attention\<rparr>"

definition settle :: "string \<Rightarrow> string option \<Rightarrow> bool \<Rightarrow> planned" where
  "settle kind run_id attention = \<lparr>pl_kind = kind, pl_action = None, pl_run_id = run_id, pl_attention = attention\<rparr>"

definition capture :: "string \<Rightarrow> string option \<Rightarrow> planned" where
  "capture action run_id = \<lparr>pl_kind = ''capture'', pl_action = Some action, pl_run_id = run_id, pl_attention = False\<rparr>"

definition attempt_limit :: "work_item \<Rightarrow> bool \<Rightarrow> int" where
  "attempt_limit item ignore_backoff =
     (if ignore_backoff then operator_hard_max_attempts else sn_max_attempts (wi_schedule item))"

definition backing_off :: "work_item \<Rightarrow> item_event list \<Rightarrow> instant \<Rightarrow> bool" where
  "backing_off item events now \<longleftrightarrow>
     (case snd (capture_attempts events) of None \<Rightarrow> False
      | Some t \<Rightarrow> now < next_attempt_at (wi_schedule item) (fst (capture_attempts events)) t)"

definition decide_closed :: "work_item \<Rightarrow> run_proof \<Rightarrow> planned" where
  "decide_closed item ev =
     (case (rp_captured ev, rp_run ev) of
        (True, Some r) \<Rightarrow>
          if rf_state r = ''abandoned'' \<or> rf_state r = ''failed'' then settle ''reprocess'' (Some (rf_id r)) False
          else settle ''finalize'' (Some (rf_id r)) True
      | _ \<Rightarrow> if rp_state ev = ''missed'' then wait False else settle ''record_missed'' None True)"

definition decide_open :: "work_item \<Rightarrow> run_proof \<Rightarrow> instant \<Rightarrow> item_event list \<Rightarrow> bool \<Rightarrow> bool \<Rightarrow> planned" where
  "decide_open item ev now events gate_blocked ignore_backoff =
     (if \<not> wi_due_at item \<le> now then wait False
      else if rp_anomaly_runs ev \<noteq> [] \<and> \<not> rp_captured ev then wait True
      else if rp_state ev = ''blocked'' \<and> gate_blocked then wait True
      else if attempt_limit item ignore_backoff \<le> fst (capture_attempts events) then wait True
      else if \<not> ignore_backoff \<and> backing_off item events now then wait False
      else (case rp_resumable_run ev of
          Some run_id \<Rightarrow> if run_id = [] then capture ''start'' None else capture ''resume'' (Some run_id)
        | None \<Rightarrow> capture ''start'' None))"

definition declared_closed :: "work_item \<Rightarrow> run_proof \<Rightarrow> string option \<Rightarrow> bool" where
  "declared_closed item ev market_status \<longleftrightarrow>
     market_status = Some ''closed'' \<and> wi_origin item \<noteq> ''operator'' \<and> \<not> rp_captured ev"

definition no_session_proven :: "work_item \<Rightarrow> run_proof \<Rightarrow> bool" where
  "no_session_proven item ev \<longleftrightarrow> \<not> rp_captured ev \<and>
     sn_no_session_confirmations (wi_schedule item) \<le> int (length (rp_no_session_runs ev))"

definition decide_item ::
  "work_item \<Rightarrow> run_proof \<Rightarrow> instant \<Rightarrow> item_event list \<Rightarrow> string option \<Rightarrow> bool \<Rightarrow> bool \<Rightarrow> planned" where
  "decide_item item ev now events market_status gate_blocked ignore_backoff =
     (if rp_state ev = ''succeeded'' then wait False
      else if declared_closed item ev market_status then settle ''not_applicable'' None False
      else if no_session_proven item ev
        then settle ''not_applicable'' (map_option rf_id (last_of (rp_no_session_runs ev))) False
      else if wi_closes_at item \<le> now then decide_closed item ev
      else decide_open item ev now events gate_blocked ignore_backoff)"

section \<open>The cost of a resume\<close>

record capture_summary =
  cs_universe_status :: string
  cs_trade_summary_status :: "string option"
  cs_absent_fallback :: nat
  cs_cross_check :: nat

record attempt_limits =
  al_universe :: int
  al_trade_summary :: int
  al_absent_fallback :: int
  al_cross_check :: int

definition resume_request_estimate :: "capture_summary \<Rightarrow> attempt_limits \<Rightarrow> int" where
  "resume_request_estimate s a =
     (if cs_universe_status s \<noteq> ''archived'' then al_universe a else 0) +
     (if cs_trade_summary_status s \<noteq> Some ''archived'' then al_trade_summary a else 0) +
     int (cs_absent_fallback s) * al_absent_fallback a + int (cs_cross_check s) * al_cross_check a"

section \<open>Candidate dates and retries\<close>

lemma candidate_dates_list:
  assumes "candidate_dates d final = Inr ds"
  shows "ds = filter is_candidate_trading_day [d..final]"
  using assms
proof (induction d final arbitrary: ds rule: candidate_dates.induct)
  case (1 d final)
  show ?case
  proof (cases "final < d")
    case True
    then show ?thesis using 1(2) by (simp add: candidate_dates.simps [of d])
  next
    case False
    from 1(2) False obtain n rest where step: "day_after d = Inr n" "candidate_dates (d + 1) final = Inr rest"
      and ds: "ds = (if is_candidate_trading_day d then d # rest else rest)"
      unfolding candidate_dates.simps [of d] by (auto simp: bindR_eq_Inr)
    have "rest = filter is_candidate_trading_day [d + 1..final]" by (rule 1(1) [OF False step(2)])
    moreover have "[d..final] = d # [d + 1..final]" using False upto_rec1 by simp
    ultimately show ?thesis using ds by simp
  qed
qed

lemma candidate_dates_total:
  assumes "final + epoch_ordinal < toordinal (Date 9999 12 31)"
  shows "\<exists>ds. candidate_dates d final = Inr ds"
  using assms
proof (induction d final rule: candidate_dates.induct)
  case (1 d final)
  show ?case
  proof (cases "final < d")
    case True
    then show ?thesis by (simp add: candidate_dates.simps [of d])
  next
    case False
    then have next_day: "day_after d = Inr (d + 1)" using 1(2) by (simp add: day_after_def)
    obtain rest where "candidate_dates (d + 1) final = Inr rest" using 1(1) [OF False 1(2)] by blast
    then show ?thesis using False next_day by (simp add: candidate_dates.simps [of d])
  qed
qed

lemma retry_delay_bounds:
  assumes "0 \<le> sn_retry_base s" "sn_retry_base s \<le> sn_retry_max s"
  shows "sn_retry_base s \<le> retry_delay_minutes s n" "retry_delay_minutes s n \<le> sn_retry_max s"
proof -
  have "sn_retry_base s * 1 \<le> sn_retry_base s * 2 ^ k" for k :: nat
    by (rule mult_left_mono) (use assms in auto)
  then show "sn_retry_base s \<le> retry_delay_minutes s n" using assms by (simp add: retry_delay_minutes_def Let_def)
  show "retry_delay_minutes s n \<le> sn_retry_max s" by (simp add: retry_delay_minutes_def Let_def)
qed

lemma retry_delay_mono:
  assumes "0 \<le> sn_retry_base s" "m \<le> n"
  shows "retry_delay_minutes s m \<le> retry_delay_minutes s n"
proof -
  have "nat (max 1 m - 1) \<le> nat (max 1 n - 1)" using assms(2) by (intro nat_mono) simp
  then have "(2 :: int) ^ nat (max 1 m - 1) \<le> 2 ^ nat (max 1 n - 1)" by (rule power_increasing) simp
  then have "sn_retry_base s * 2 ^ nat (max 1 m - 1) \<le> sn_retry_base s * 2 ^ nat (max 1 n - 1)"
    by (rule mult_left_mono) (rule assms(1))
  then show ?thesis unfolding retry_delay_minutes_def Let_def by (rule min.mono) simp
qed

section \<open>Attempts\<close>

lemma fst_capture_attempts: "fst (capture_attempts evs) = int (length (capture_starts evs))"
  by (simp add: capture_attempts_def)

lemma snd_capture_attempts: "snd (capture_attempts evs) = map_option ie_scheduler_time (last_of (capture_starts evs))"
  by (simp add: capture_attempts_def)

lemma capture_starts_append [simp]: "capture_starts (xs @ ys) = capture_starts xs @ capture_starts ys"
  by (simp add: capture_starts_def)

lemma capture_starts_Nil [simp]: "capture_starts [] = []"
  by (simp add: capture_starts_def)

section \<open>Decisions\<close>

lemmas planned_kinds = wait_def settle_def capture_def

lemma capture_decision_shape:
  "pl_kind (decide_item item ev now evs cal gate ign) = ''capture'' \<longleftrightarrow>
     rp_state ev \<noteq> ''succeeded'' \<and> \<not> declared_closed item ev cal \<and> \<not> no_session_proven item ev \<and>
     now < wi_closes_at item \<and> wi_due_at item \<le> now \<and> (rp_anomaly_runs ev = [] \<or> rp_captured ev) \<and>
     \<not> (rp_state ev = ''blocked'' \<and> gate) \<and> fst (capture_attempts evs) < attempt_limit item ign \<and>
     (ign \<or> \<not> backing_off item evs now)"
  unfolding decide_item_def decide_closed_def decide_open_def planned_kinds
  by (simp split: option.split bool.split)

lemma closed_decision:
  assumes "wi_closes_at item \<le> now"
  shows "pl_kind (decide_item item ev now evs cal gate ign) \<noteq> ''capture''"
  using assms by (simp add: capture_decision_shape)

lemma capture_decision_value:
  assumes "pl_kind (decide_item item ev now evs cal gate ign) = ''capture''"
  shows "decide_item item ev now evs cal gate ign =
     (case rp_resumable_run ev of
        Some run_id \<Rightarrow> if run_id = [] then capture ''start'' None else capture ''resume'' (Some run_id)
      | None \<Rightarrow> capture ''start'' None)"
  using assms [unfolded capture_decision_shape] unfolding decide_item_def decide_open_def by (elim conjE disjE) (auto split: option.split)

lemma capture_decision_action:
  assumes "pl_kind (decide_item item ev now evs cal gate ign) = ''capture''"
  shows "(pl_action (decide_item item ev now evs cal gate ign) = Some ''start'' \<and>
            pl_run_id (decide_item item ev now evs cal gate ign) = None) \<or>
         (\<exists>r. pl_action (decide_item item ev now evs cal gate ign) = Some ''resume'' \<and>
            pl_run_id (decide_item item ev now evs cal gate ign) = Some r \<and> rp_resumable_run ev = Some r)"
  unfolding capture_decision_value [OF assms] by (simp add: capture_def split: option.split)

lemma last_of_Some: "last_of xs = Some x \<longleftrightarrow> xs \<noteq> [] \<and> x = last xs"
  by (auto simp: last_of_def)

lemma last_of_in: "last_of xs = Some x \<Longrightarrow> x \<in> set xs"
  by (auto simp: last_of_Some)

lemma resumable_Some: "resumable r = Some i \<longleftrightarrow> rf_state r \<in> set resumable_states \<and> i = rf_id r"
  by (auto simp: resumable_def)

lemma resumable_run_sound:
  assumes "rp_resumable_run (prove_runs d runs) = Some i"
  shows "\<exists>r \<in> set runs. rf_id r = i \<and> rf_state r \<in> set resumable_states"
  using assms unfolding prove_runs_def Let_def
  by (auto split: option.splits if_splits dest!: last_of_in simp: resumable_Some)

lemma captured_sound:
  assumes "rp_captured (prove_runs d runs)"
  shows "\<exists>r \<in> set runs. rp_run (prove_runs d runs) = Some r \<and> (rf_state r = ''succeeded'' \<or> rf_a_captured r \<and> rf_e1 r)"
  using assms unfolding prove_runs_def Let_def by (auto split: option.splits dest!: last_of_in)

end
