(* ===== verification/Wakeup.thy ===== *)
theory Wakeup
  imports Planner
begin

text \<open>
  One scheduler wake-up on its work items (\<open>scheduler/wakeup.py\<close>, with the item tables of \<open>scheduler/store.py\<close>). An
  item entry is the item with its append-only events; the first event is inserted with the item, so an entry always
  has one. What P2's ledger, the archive and the host answer during the wake-up is the record \<open>wake_world\<close>. A wake-up lists
  its writes and its calls of P2 in their order, so that one the process does not survive is a prefix of them; the lease
  and its heartbeats, the backup marker, log lines and report texts are not modelled.
\<close>

section \<open>Items and their events\<close>

record item_entry =
  it_item :: work_item
  it_created :: item_event
  it_later :: "item_event list"

definition it_date :: "item_entry \<Rightarrow> int" where
  "it_date e = wi_trading_date (it_item e)"

definition it_events :: "item_entry \<Rightarrow> item_event list" where
  "it_events e = it_created e # it_later e"

definition extend_item :: "item_entry \<Rightarrow> item_event list \<Rightarrow> item_entry" where
  "extend_item e new = e\<lparr>it_later := it_later e @ new\<rparr>"

definition final_states :: "string list" where
  "final_states = [''succeeded'', ''missed'', ''not_applicable'']"

definition is_open_item :: "item_entry \<Rightarrow> bool" where
  "is_open_item e \<longleftrightarrow> (let cur = last (it_events e) in ie_state cur \<notin> set final_states \<and> ie_action cur \<noteq> ''finalize'')"

definition item_event_of :: "instant \<Rightarrow> string \<Rightarrow> string \<Rightarrow> string option \<Rightarrow> item_event" where
  "item_event_of now state action run_id =
     \<lparr>ie_state = state, ie_action = action, ie_run_id = run_id, ie_scheduler_time = now\<rparr>"

section \<open>The steps of a wake-up\<close>

text \<open>A new item (its unique date makes a second creation a no-op), one event of the item of a date, each in a transaction of
  its own, and a call of P2's start or resume, the only step that may contact CSE.\<close>

datatype wake_step = Added item_entry | Wrote int item_event | CalledP2 int instant

fun after_step :: "wake_step \<Rightarrow> item_entry list \<Rightarrow> item_entry list" where
  "after_step (Added e) items = (if it_date e \<in> set (List.map it_date items) then items else sort_key it_date (items @ [e]))"
| "after_step (Wrote d ev) items = List.map (\<lambda>x. if it_date x = d then extend_item x [ev] else x) items"
| "after_step (CalledP2 d t) items = items"

definition after_steps :: "wake_step list \<Rightarrow> item_entry list \<Rightarrow> item_entry list" where
  "after_steps steps items = fold after_step steps items"

fun written_by :: "wake_step list \<Rightarrow> item_event list" where
  "written_by [] = []"
| "written_by (Wrote d ev # steps) = ev # written_by steps"
| "written_by (Added e # steps) = written_by steps"
| "written_by (CalledP2 d t # steps) = written_by steps"

fun p2_calls :: "wake_step list \<Rightarrow> (int \<times> instant) list" where
  "p2_calls [] = []"
| "p2_calls (CalledP2 d t # steps) = (d, t) # p2_calls steps"
| "p2_calls (Added e # steps) = p2_calls steps"
| "p2_calls (Wrote d ev # steps) = p2_calls steps"

section \<open>The world of a wake-up\<close>

text \<open>The answer of a P2 start, resume or reprocess: the run, its state, and whether the summary's session evidence
  matches the trading date.\<close>

record p2_reply =
  pr_run_id :: string
  pr_state :: string
  pr_session :: bool

record wake_world =
  ww_host :: string
  ww_synchronized :: "bool option"
  ww_last_time :: "instant option"
  ww_runs :: "int \<Rightarrow> run_fact list"
  ww_blocks :: bool
  ww_user_agent :: "string option"
  ww_spool_writable :: bool
  ww_requests_today :: int
  ww_summary :: "string \<Rightarrow> capture_summary"
  ww_attempts :: attempt_limits
  ww_reprocess :: "string \<Rightarrow> p2_reply option"
  ww_missed_run :: "int \<Rightarrow> string"
  ww_capture :: "p2_reply option"
  ww_runs_after :: "run_fact list"
  ww_blocks_after :: bool

type_synonym calendar = "(int \<times> string) list"

section \<open>Bringing one item up to date\<close>

definition sync_item :: "instant \<Rightarrow> item_event list \<Rightarrow> run_proof \<Rightarrow> item_event list" where
  "sync_item now events ev =
     (let cur = last events in
      if rp_state ev = ''running'' then []
      else if rp_state ev = ''pending'' then
        (if ie_state cur = ''running'' \<and> ie_run_id cur = None
         then [item_event_of now ''pending'' ''observe'' None] else [])
      else if ie_state cur = rp_state ev \<and> ie_run_id cur = rp_run_id ev then []
      else [item_event_of now (rp_state ev) ''observe'' (rp_run_id ev)])"

record reconciled =
  rd_events :: "item_event list"
  rd_calendar :: calendar
  rd_attention :: nat
  rd_wants :: "planned option"

text \<open>The calendar row 'open' is written only when the date's own session was proven; an existing other row asks for
  attention.\<close>

definition record_session :: "int \<Rightarrow> bool \<Rightarrow> calendar \<Rightarrow> calendar \<times> nat" where
  "record_session d proven cal =
     (if \<not> proven then (cal, 0)
      else (case map_of cal d of
          None \<Rightarrow> ((d, ''open'') # cal, 0)
        | Some status \<Rightarrow> (cal, if status = ''open'' then 0 else 1)))"

definition reconcile_item ::
  "wake_world \<Rightarrow> run_fact list \<Rightarrow> instant \<Rightarrow> bool \<Rightarrow> bool \<Rightarrow> bool \<Rightarrow> calendar \<Rightarrow> item_entry \<Rightarrow> reconciled" where
  "reconcile_item w runs now gate_blocked ignore_backoff allow_capture cal e =
     (let d = it_date e; ev = prove_runs d runs; synced = sync_item now (it_events e) ev;
          dec = decide_item (it_item e) ev now (it_events e @ synced) (map_of cal d) gate_blocked ignore_backoff;
          seen = (if pl_attention dec then 1 else 0);
          quiet = (\<lambda>new. \<lparr>rd_events = synced @ new, rd_calendar = cal, rd_attention = seen, rd_wants = None\<rparr>)
      in if pl_kind dec = ''not_applicable'' then quiet [item_event_of now ''not_applicable'' ''finalize'' (pl_run_id dec)]
         else if pl_kind dec = ''finalize'' then quiet [item_event_of now (rp_state ev) ''finalize'' (pl_run_id dec)]
         else if pl_kind dec = ''record_missed''
           then quiet [item_event_of now ''missed'' ''record_missed'' (Some (ww_missed_run w d))]
         else if pl_kind dec = ''reprocess'' then
           (case Option.bind (pl_run_id dec) (ww_reprocess w) of
              None \<Rightarrow> \<lparr>rd_events = synced, rd_calendar = cal, rd_attention = seen + 1, rd_wants = None\<rparr>
            | Some r \<Rightarrow>
                let (cal', more) = record_session d (pr_session r) cal
                in \<lparr>rd_events = synced @ [item_event_of now (pr_state r) ''reprocess'' (pl_run_id dec)],
                   rd_calendar = cal', rd_attention = seen + more, rd_wants = None\<rparr>)
         else if pl_kind dec = ''capture'' \<and> allow_capture
           then \<lparr>rd_events = synced, rd_calendar = cal, rd_attention = seen, rd_wants = Some dec\<rparr>
         else quiet [])"

text \<open>Every open item, oldest trading date first; the items as they are afterwards, with the capture decisions in
  order.\<close>

record reconciled_all =
  ra_items :: "item_entry list"
  ra_calendar :: calendar
  ra_attention :: nat
  ra_wants :: "(item_entry \<times> planned) list"
  ra_steps :: "wake_step list"
  ra_acted :: bool

fun reconcile_all ::
  "wake_world \<Rightarrow> instant \<Rightarrow> bool \<Rightarrow> int option \<Rightarrow> calendar \<Rightarrow> item_entry list \<Rightarrow> reconciled_all" where
  "reconcile_all w now ignore_backoff only cal [] =
     \<lparr>ra_items = [], ra_calendar = cal, ra_attention = 0, ra_wants = [], ra_steps = [], ra_acted = False\<rparr>"
| "reconcile_all w now ignore_backoff only cal (e # es) =
     (if is_open_item e then
        (let r = reconcile_item w (ww_runs w (it_date e)) now (ww_blocks w) (ignore_backoff \<and> only = Some (it_date e))
               True cal e;
             e' = extend_item e (rd_events r);
             rest = reconcile_all w now ignore_backoff only (rd_calendar r) es
         in \<lparr>ra_items = e' # ra_items rest, ra_calendar = ra_calendar rest,
             ra_attention = rd_attention r + ra_attention rest,
             ra_wants = (case rd_wants r of None \<Rightarrow> ra_wants rest | Some dec \<Rightarrow> (e', dec) # ra_wants rest),
             ra_steps = List.map (Wrote (it_date e)) (rd_events r) @ ra_steps rest,
             ra_acted = (rd_events r \<noteq> [] \<or> ra_acted rest)\<rparr>)
      else
        (let rest = reconcile_all w now ignore_backoff only cal es
         in rest\<lparr>ra_items := e # ra_items rest\<rparr>))"

section \<open>The one capture of a wake-up\<close>

definition exit_ok :: int where "exit_ok = 0"
definition exit_attention :: int where "exit_attention = 2"
definition exit_blocked :: int where "exit_blocked = 3"
definition exit_refused :: int where "exit_refused = 5"

record capture_outcome =
  co_code :: int
  co_result :: "string option"
  co_steps :: "wake_step list"
  co_calendar :: calendar
  co_attention :: nat
  co_max_requests :: "int option"

definition co_events :: "capture_outcome \<Rightarrow> item_event list" where
  "co_events co = written_by (co_steps co)"

definition no_capture :: "int \<Rightarrow> string \<Rightarrow> calendar \<Rightarrow> nat \<Rightarrow> capture_outcome" where
  "no_capture code result cal attention =
     \<lparr>co_code = code, co_result = Some result, co_steps = [], co_calendar = cal, co_attention = attention,
      co_max_requests = None\<rparr>"

definition refusal_event :: "instant \<Rightarrow> run_proof \<Rightarrow> item_event" where
  "refusal_event now ev =
     (if rp_state ev = ''pending'' \<or> rp_run ev = None then item_event_of now ''pending'' ''refused'' None
      else item_event_of now (rp_state ev) ''refused'' (rp_run_id ev))"

text \<open>The running event is committed before P2 is called, and its outcome after P2 has answered.\<close>

definition perform_capture ::
  "wake_world \<Rightarrow> instant \<Rightarrow> calendar \<Rightarrow> item_entry \<Rightarrow> planned \<Rightarrow> string \<Rightarrow> int option \<Rightarrow> capture_outcome" where
  "perform_capture w now cal e dec action max_requests =
     (let d = it_date e; started = item_event_of now ''running'' action (pl_run_id dec) in
      case ww_capture w of
        None \<Rightarrow> \<lparr>co_code = exit_refused, co_result = Some ''refused'',
           co_steps = [Wrote d started, CalledP2 d now, Wrote d (refusal_event now (prove_runs d (ww_runs_after w)))], co_calendar = cal,
           co_attention = 0, co_max_requests = max_requests\<rparr>
      | Some r \<Rightarrow>
         (let ended = item_event_of now (pr_state r) action (Some (pr_run_id r));
              (cal', more) = record_session d (pr_session r) cal;
              again = reconcile_item w (ww_runs_after w) now (ww_blocks_after w) False False cal'
                        (extend_item e [started, ended])
          in \<lparr>co_code = exit_ok, co_result = None,
              co_steps = [Wrote d started, CalledP2 d now, Wrote d ended] @ List.map (Wrote d) (rd_events again),
              co_calendar = rd_calendar again, co_attention = more + rd_attention again,
              co_max_requests = max_requests\<rparr>))"

definition budget_left :: "settings \<Rightarrow> wake_world \<Rightarrow> int" where
  "budget_left s w = ss_daily_request_budget s - ww_requests_today w"

definition capture_one ::
  "settings \<Rightarrow> wake_world \<Rightarrow> instant \<Rightarrow> calendar \<Rightarrow> item_entry \<Rightarrow> planned \<Rightarrow> capture_outcome" where
  "capture_one s w now cal e dec =
     (if ww_blocks w then no_capture exit_blocked ''gated'' cal 0
      else if ww_user_agent w = None \<or> ww_user_agent w \<noteq> ss_user_agent s then no_capture exit_refused ''refused'' cal 0
      else if \<not> ww_spool_writable w then no_capture exit_refused ''refused'' cal 0
      else if pl_action dec = Some ''start'' then
        (if budget_left s w < min_start_requests then no_capture exit_attention ''deferred'' cal 1
         else perform_capture w now cal e dec ''start'' (Some (min p2_run_request_cap (budget_left s w))))
      else (case (pl_action dec, pl_run_id dec) of
          (Some action, Some run_id) \<Rightarrow>
            if budget_left s w < resume_request_estimate (ww_summary w run_id) (ww_attempts w)
            then no_capture exit_attention ''deferred'' cal 1
            else perform_capture w now cal e dec action None
        | _ \<Rightarrow> no_capture exit_ok ''idle'' cal 0))"

section \<open>Discovery of missing dates\<close>

definition new_item :: "settings \<Rightarrow> instant \<Rightarrow> string \<Rightarrow> int \<Rightarrow> item_entry" where
  "new_item s now origin d =
     \<lparr>it_item = \<lparr>wi_trading_date = d, wi_due_at = due_at d (snapshot_of s),
         wi_closes_at = window_closes_at d (snapshot_of s), wi_origin = origin, wi_schedule = snapshot_of s\<rparr>,
      it_created = item_event_of now ''pending'' ''create'' None, it_later = []\<rparr>"

text \<open>The item dates exist already keep their items. \<open>None\<close> is the refusal of an implausibly large gap.\<close>

definition discover_items ::
  "settings \<Rightarrow> instant \<Rightarrow> int \<Rightarrow> int \<Rightarrow> int option \<Rightarrow> item_entry list \<Rightarrow> item_entry list option res" where
  "discover_items s now first today confirmed items =
     (if today < first then Inr (Some items)
      else bindR (candidate_dates first today) (\<lambda>ds.
        let missing = filter (\<lambda>d. d \<notin> set (List.map it_date items)) ds;
            origin = (\<lambda>d. if now \<le> due_at d (snapshot_of s) then ''scheduled'' else ''catch_up'')
        in if (\<exists>d \<in> set missing. d < today - ss_max_catch_up_days s) \<and> confirmed \<noteq> Some today then Inr None
           else Inr (Some (sort_key it_date (items @ List.map (\<lambda>d. new_item s now (origin d) d) missing)))))"

section \<open>The wake-up\<close>

definition clock_tolerance :: int where
  "clock_tolerance = 5 * minute_us"

record wake_report =
  wr_code :: int
  wr_result :: string
  wr_items :: "item_entry list"
  wr_calendar :: calendar
  wr_attention :: nat
  wr_steps :: "wake_step list"
  wr_captured :: "(int \<times> capture_outcome) option"

definition put_item :: "item_entry \<Rightarrow> item_entry list \<Rightarrow> item_entry list" where
  "put_item e = List.map (\<lambda>x. if it_date x = it_date e then e else x)"

definition halted :: "int \<Rightarrow> string \<Rightarrow> item_entry list \<Rightarrow> calendar \<Rightarrow> wake_report" where
  "halted code result items cal =
     \<lparr>wr_code = code, wr_result = result, wr_items = items, wr_calendar = cal, wr_attention = 0, wr_steps = [], wr_captured = None\<rparr>"

definition finish_wake ::
  "wake_world \<Rightarrow> item_entry list \<Rightarrow> reconciled_all \<Rightarrow> (item_entry \<times> capture_outcome) option \<Rightarrow> wake_report" where
  "finish_wake w discovered ra c =
     (let code = (case c of None \<Rightarrow> exit_ok | Some (_, co) \<Rightarrow> co_code co);
          attention = ra_attention ra + (case c of None \<Rightarrow> 0 | Some (_, co) \<Rightarrow> co_attention co);
          captured = (case c of None \<Rightarrow> False | Some (_, co) \<Rightarrow> co_events co \<noteq> []);
          blocked = (if captured then ww_blocks_after w else ww_blocks w);
          result = (case c of Some (_, co) \<Rightarrow> (case co_result co of Some r \<Rightarrow> r | None \<Rightarrow> ''captured'')
                    | None \<Rightarrow> if ra_acted ra then ''bookkeeping'' else ''idle'')
      in \<lparr>wr_code = (if code \<noteq> exit_ok then code else if blocked then exit_blocked
            else if 0 < attention then exit_attention else exit_ok),
          wr_result = result,
          wr_items = (case c of None \<Rightarrow> ra_items ra
            | Some (e, co) \<Rightarrow> put_item (extend_item e (co_events co)) (ra_items ra)),
          wr_calendar = (case c of None \<Rightarrow> ra_calendar ra | Some (_, co) \<Rightarrow> co_calendar co),
          wr_attention = attention,
          wr_steps = List.map Added discovered @ ra_steps ra @ (case c of None \<Rightarrow> [] | Some (_, co) \<Rightarrow> co_steps co),
          wr_captured = map_option (\<lambda>(e, co). (it_date e, co)) c\<rparr>)"

definition wake_up ::
  "settings \<Rightarrow> wake_world \<Rightarrow> instant \<Rightarrow> int option \<Rightarrow> int option \<Rightarrow> bool \<Rightarrow> item_entry list \<Rightarrow> calendar \<Rightarrow> wake_report res"
where
  "wake_up s w now confirmed only ignore_backoff items cal =
     (if \<not> ss_armed s then Inr (halted exit_ok ''disarmed'' items cal)
      else if ss_host s \<noteq> Some (ww_host w) then Inr (halted exit_refused ''refused'' items cal)
      else if ww_synchronized w \<noteq> Some True then Inr (halted exit_refused ''refused'' items cal)
      else if (case ww_last_time w of None \<Rightarrow> False | Some t \<Rightarrow> now < t - clock_tolerance)
        then Inr (halted exit_refused ''refused'' items cal)
      else (case ss_start_date s of
          None \<Rightarrow> Inl TypeErr
        | Some first \<Rightarrow>
            bindR (discover_items s now first (colombo_day now) confirmed items) (\<lambda>found.
              case found of
                None \<Rightarrow> Inr (halted exit_refused ''refused'' items cal)
              | Some all_items \<Rightarrow>
                 (let ra = reconcile_all w now ignore_backoff only cal all_items;
                      discovered = filter (\<lambda>e. it_date e \<notin> it_date ` set items) all_items;
                      wanted = (case only of None \<Rightarrow> ra_wants ra
                        | Some d \<Rightarrow> filter (\<lambda>(e, _). it_date e = d) (ra_wants ra))
                  in Inr (case wanted of
                      [] \<Rightarrow> finish_wake w discovered ra None
                    | (e, dec) # _ \<Rightarrow> finish_wake w discovered ra (Some (e, capture_one s w now (ra_calendar ra) e dec)))))))"

text \<open>A wake-up that ends after its first \<open>k\<close> steps, whatever ended it (the process died, or an exception that no step
  handles left it): the items it leaves and its calls of P2.\<close>

definition ended_after :: "nat \<Rightarrow> wake_report \<Rightarrow> item_entry list \<Rightarrow> item_entry list \<times> (int \<times> instant) list" where
  "ended_after k r items = (after_steps (take k (wr_steps r)) items, p2_calls (take k (wr_steps r)))"

section \<open>Operator actions\<close>

definition run_refused :: exc where
  "run_refused = Refused ''run_refused''"

definition add_horizon_days :: int where
  "add_horizon_days = 14"

definition add_item ::
  "settings \<Rightarrow> instant \<Rightarrow> int \<Rightarrow> string option \<Rightarrow> item_entry list \<Rightarrow> (item_entry list \<times> bool) res" where
  "add_item s now d reason items =
     guardR (case reason of None \<Rightarrow> True | Some t \<Rightarrow> length (strip t) < 10) run_refused
     (guardR (colombo_day now + add_horizon_days < d) run_refused
     (Inr (if d \<in> set (List.map it_date items) then (items, False)
           else (sort_key it_date (items @ [new_item s now ''operator'' d]), True))))"

text \<open>Re-deriving a date from the archive; \<open>answer\<close> is what P2's reprocess of the run answers.\<close>

definition reprocess_date ::
  "(string \<Rightarrow> p2_reply option) \<Rightarrow> run_fact list \<Rightarrow> instant \<Rightarrow> int \<Rightarrow> item_entry list \<Rightarrow> item_entry list res" where
  "reprocess_date answer runs now d items =
     (case find (\<lambda>e. it_date e = d) items of
        None \<Rightarrow> Inl run_refused
      | Some e \<Rightarrow>
         (let ev = prove_runs d runs; cur = last (it_events e) in
          case (rp_captured ev, rp_run_id ev) of
            (True, Some run_id) \<Rightarrow>
              (case answer run_id of
                 None \<Rightarrow> Inl run_refused
               | Some r \<Rightarrow>
                   Inr (if ie_state cur \<in> set final_states then items
                        else put_item (extend_item e [item_event_of now (pr_state r)
                               (if ie_action cur = ''finalize'' \<and> pr_state r = ie_state cur then ''finalize'' else ''reprocess'')
                               (Some run_id)]) items))
          | _ \<Rightarrow> Inl run_refused))"

definition declare_closed :: "run_fact list \<Rightarrow> int \<Rightarrow> string option \<Rightarrow> calendar \<Rightarrow> calendar res" where
  "declare_closed runs d reference cal =
     guardR (case reference of None \<Rightarrow> True | Some t \<Rightarrow> length (strip t) < 10) run_refused
     (guardR (\<exists>r \<in> set runs. rf_a_captured r \<and> rf_e1 r) run_refused
     (Inr (case map_of cal d of None \<Rightarrow> (d, ''closed'') # cal | Some _ \<Rightarrow> cal)))"

end
