(* ===== verification/WakeupFacts.thy ===== *)
theory WakeupFacts
  imports Wakeup "HOL-Library.Sublist"
begin

text \<open>
  Facts of the scheduler's wake-ups: what every reachable history of work items satisfies, when a wake-up may contact
  CSE, and that a closed window settles an item.
\<close>

section \<open>Events that are not capture starts\<close>

definition quiet_events :: "item_event list \<Rightarrow> bool" where
  "quiet_events evs \<longleftrightarrow> (\<forall>e \<in> set evs. ie_action e \<notin> set capture_actions)"

lemma quiet_events_simps [simp]:
  "quiet_events []" "quiet_events (e # evs) \<longleftrightarrow> ie_action e \<notin> set capture_actions \<and> quiet_events evs"
  "quiet_events (xs @ ys) \<longleftrightarrow> quiet_events xs \<and> quiet_events ys"
  by (auto simp: quiet_events_def)

lemma quiet_no_starts [simp]: "quiet_events evs \<Longrightarrow> capture_starts evs = []"
  by (auto simp: quiet_events_def capture_starts_def)

lemma item_event_of_simps [simp]:
  "ie_state (item_event_of now state action run_id) = state" "ie_action (item_event_of now state action run_id) = action"
  "ie_run_id (item_event_of now state action run_id) = run_id"
  "ie_scheduler_time (item_event_of now state action run_id) = now"
  by (simp_all add: item_event_of_def)

lemma extend_item_simps [simp]:
  "it_item (extend_item e new) = it_item e" "it_date (extend_item e new) = it_date e"
  "it_events (extend_item e new) = it_events e @ new"
  by (simp_all add: extend_item_def it_date_def it_events_def)

lemma extend_item_Nil [simp]: "extend_item e [] = e"
  by (simp add: extend_item_def)

lemma extend_item_twice [simp]: "extend_item (extend_item e xs) ys = extend_item e (xs @ ys)"
  by (simp add: extend_item_def)

lemma written_append [simp]: "written_by (xs @ ys) = written_by xs @ written_by ys"
  by (induction xs rule: written_by.induct) simp_all

lemma written_wrote [simp]: "written_by (List.map (Wrote d) evs) = evs"
  by (induction evs) simp_all

lemma p2_calls_append [simp]: "p2_calls (xs @ ys) = p2_calls xs @ p2_calls ys"
  by (induction xs rule: p2_calls.induct) simp_all

lemma p2_calls_wrote [simp]: "p2_calls (List.map (Wrote d) evs) = []"
  by (induction evs) simp_all

lemma p2_calls_added [simp]: "p2_calls (List.map Added new) = []"
  by (induction new) simp_all

lemma no_capture_events [simp]:
  "co_events (no_capture code result cal attention) = []" "co_steps (no_capture code result cal attention) = []"
  by (simp_all add: no_capture_def co_events_def)

lemma sync_quiet [simp]: "quiet_events (sync_item now evs ev)"
  by (simp add: sync_item_def Let_def capture_actions_def)

lemma reconcile_quiet [simp]: "quiet_events (rd_events (reconcile_item w runs now gate ign allow cal e))"
  unfolding reconcile_item_def Let_def
  by (simp add: capture_actions_def split: option.split prod.split)

lemma reconcile_wants:
  assumes "rd_wants (reconcile_item w runs now gate ign allow cal e) = Some dec"
  obtains synced where "rd_events (reconcile_item w runs now gate ign allow cal e) = synced"
    and "dec = decide_item (it_item e) (prove_runs (it_date e) runs) now (it_events e @ synced) (map_of cal (it_date e)) gate ign"
    and "pl_kind dec = ''capture''"
  using assms unfolding reconcile_item_def Let_def
  by (auto split: if_splits option.splits prod.splits)

section \<open>Well-formed items\<close>

fun paced :: "schedule_snapshot \<Rightarrow> item_event list \<Rightarrow> bool" where
  "paced s (e # f # es) \<longleftrightarrow>
     next_attempt_at s (1 + int (length es)) (ie_scheduler_time f) \<le> ie_scheduler_time e \<and> paced s (f # es)"
| "paced s _ \<longleftrightarrow> True"

definition start_limit :: "bool \<Rightarrow> work_item \<Rightarrow> nat" where
  "start_limit operator i =
     (if operator then max (nat operator_hard_max_attempts) (nat (sn_max_attempts (wi_schedule i)))
      else nat (sn_max_attempts (wi_schedule i)))"

definition item_ok :: "bool \<Rightarrow> item_entry \<Rightarrow> bool" where
  "item_ok operator e \<longleftrightarrow>
     (let i = it_item e; starts = capture_starts (it_events e)
      in length starts \<le> start_limit operator i \<and>
         (\<forall>t \<in> set starts. wi_due_at i \<le> ie_scheduler_time t \<and> ie_scheduler_time t < wi_closes_at i) \<and>
         (\<not> operator \<longrightarrow> paced (wi_schedule i) (rev starts)))"

lemma item_ok_quiet: "quiet_events new \<Longrightarrow> item_ok op (extend_item e new) = item_ok op e"
  by (simp add: item_ok_def)

lemma paced_later: "paced s (x # es) \<Longrightarrow> paced s es"
  by (cases es) simp_all

lemma paced_end: "paced s (xs @ ys) \<Longrightarrow> paced s ys"
  by (induction xs) (use paced_later in auto)

lemma item_ok_earlier:
  assumes "item_ok op f" and "it_item f = it_item e" and "it_events f = it_events e @ tail"
  shows "item_ok op e"
  using assms paced_end [of "wi_schedule (it_item e)" "rev (capture_starts tail)" "rev (capture_starts (it_events e))"]
  by (auto simp: item_ok_def Let_def capture_starts_append)

lemma item_ok_new: "item_ok op (new_item s now origin d)"
  by (simp add: item_ok_def new_item_def it_events_def capture_starts_def capture_actions_def)

lemma item_ok_start:
  assumes ok: "item_ok op e" and ign: "ign \<longrightarrow> op"
    and dec: "pl_kind (decide_item (it_item e) ev now (it_events e) cal gate ign) = ''capture''"
    and first: "ie_state x = ''running''" "ie_action x \<in> set capture_actions" "ie_scheduler_time x = now"
    and rest: "capture_starts others = []"
  shows "item_ok op (extend_item e (x # others))"
proof -
  define i starts where "i = it_item e" and "starts = capture_starts (it_events e)"
  have new: "capture_starts (it_events (extend_item e (x # others))) = starts @ [x]"
    using first rest by (simp add: starts_def capture_starts_def)
  note cond = dec [unfolded capture_decision_shape fst_capture_attempts, folded i_def starts_def]
  have len: "int (length starts) < attempt_limit i ign" and window: "wi_due_at i \<le> now" "now < wi_closes_at i"
    using cond by simp_all
  have "length (starts @ [x]) \<le> start_limit op i"
    using len ign by (auto simp: attempt_limit_def start_limit_def split: if_splits)
  moreover have "paced (wi_schedule i) (rev (starts @ [x]))" if auto: "\<not> op"
  proof (cases "rev starts")
    case Nil
    then show ?thesis by simp
  next
    case (Cons f es)
    then have last: "last_of starts = Some f" "length starts = Suc (length es)"
      by (simp_all add: last_of_def last_rev [of "rev starts", simplified] flip: length_rev [of starts])
    from auto ign cond have "\<not> backing_off i (it_events e) now" by simp
    then have "next_attempt_at (wi_schedule i) (1 + int (length es)) (ie_scheduler_time f) \<le> now"
      using last by (simp add: backing_off_def fst_capture_attempts snd_capture_attempts flip: starts_def)
    moreover have "paced (wi_schedule i) (f # es)"
      using ok auto Cons by (simp add: item_ok_def Let_def flip: i_def starts_def)
    ultimately show ?thesis using Cons first by simp
  qed
  ultimately show ?thesis
    using ok window first unfolding item_ok_def Let_def new by (simp flip: i_def starts_def)
qed

section \<open>One wake-up keeps every item well formed\<close>

text \<open>P2's answers: a run it started, resumed or re-derived has ended (\<open>completeness.decide_state\<close> never says
  running).\<close>

definition p2_settles :: "wake_world \<Rightarrow> bool" where
  "p2_settles w \<longleftrightarrow> (case ww_capture w of None \<Rightarrow> True | Some r \<Rightarrow> pr_state r \<noteq> ''running'')"

lemma perform_capture_events:
  assumes "p2_settles w"
  shows "\<exists>others. co_events (perform_capture w now cal e dec action cap) =
       item_event_of now ''running'' action (pl_run_id dec) # others \<and> capture_starts others = []"
proof (cases "ww_capture w")
  case None
  then show ?thesis
    by (simp add: perform_capture_def co_events_def Let_def refusal_event_def capture_starts_def capture_actions_def)
next
  case (Some r)
  then have "pr_state r \<noteq> ''running''" using assms by (simp add: p2_settles_def)
  then have "capture_starts [item_event_of now (pr_state r) action (Some (pr_run_id r))] = []"
    by (simp add: capture_starts_def)
  then have "capture_starts (item_event_of now (pr_state r) action (Some (pr_run_id r)) #
      rd_events (reconcile_item w' runs now gate ign allow cal' e')) = []" for w' runs gate ign allow cal' e'
    using capture_starts_append [of "[item_event_of now (pr_state r) action (Some (pr_run_id r))]"] by simp
  then show ?thesis using Some by (simp add: perform_capture_def co_events_def Let_def split: prod.split)
qed

lemma perform_capture_steps:
  "\<exists>rest. co_steps (perform_capture w now cal e dec action cap) =
     Wrote (it_date e) (item_event_of now ''running'' action (pl_run_id dec)) # CalledP2 (it_date e) now # rest \<and> p2_calls rest = []"
  by (simp add: perform_capture_def Let_def split: option.split prod.split)

definition capture_permitted :: "settings \<Rightarrow> wake_world \<Rightarrow> planned \<Rightarrow> bool" where
  "capture_permitted s w dec \<longleftrightarrow>
     \<not> ww_blocks w \<and> ww_user_agent w \<noteq> None \<and> ww_user_agent w = ss_user_agent s \<and> ww_spool_writable w \<and>
     (pl_action dec = Some ''start'' \<longrightarrow> min_start_requests \<le> budget_left s w) \<and>
     (\<forall>run_id. pl_action dec = Some ''resume'' \<longrightarrow> pl_run_id dec = Some run_id \<longrightarrow>
        resume_request_estimate (ww_summary w run_id) (ww_attempts w) \<le> budget_left s w)"

lemma capture_one_cases:
  assumes "pl_action dec = Some ''start'' \<or> (\<exists>r. pl_action dec = Some ''resume'' \<and> pl_run_id dec = Some r)"
  shows "co_steps (capture_one s w now cal e dec) = [] \<or>
     (capture_permitted s w dec \<and>
      (\<exists>action cap. action \<in> set capture_actions \<and> pl_action dec = Some action \<and>
         capture_one s w now cal e dec = perform_capture w now cal e dec action cap \<and>
         (\<forall>n. cap = Some n \<longrightarrow> n \<le> budget_left s w) \<and> (action = ''start'' \<longrightarrow> cap \<noteq> None)))"
proof (cases "ww_blocks w \<or> ww_user_agent w = None \<or> ww_user_agent w \<noteq> ss_user_agent s \<or> \<not> ww_spool_writable w")
  case True
  then show ?thesis by (auto simp: capture_one_def)
next
  case False
  from assms show ?thesis
  proof (elim disjE exE conjE)
    assume "pl_action dec = Some ''start''"
    then show ?thesis
      using False
      by (auto simp: capture_one_def capture_permitted_def capture_actions_def
          intro!: exI [of _ "Some (min p2_run_request_cap (budget_left s w))"])
  next
    fix r assume "pl_action dec = Some ''resume''" "pl_run_id dec = Some r"
    then show ?thesis
      using False
      by (auto simp: capture_one_def capture_permitted_def capture_actions_def intro!: exI [of _ None])
  qed
qed

lemma perform_capture_cap [simp]: "co_max_requests (perform_capture w now cal e dec action cap) = cap"
  by (simp add: perform_capture_def Let_def split: option.split prod.split)

text \<open>The reconciliation of all items: nothing starts, and every wanted capture was decided for the item as it now
  stands, on what P2's runs of its date prove.\<close>

definition decided_for :: "wake_world \<Rightarrow> instant \<Rightarrow> bool \<Rightarrow> int option \<Rightarrow> item_entry \<times> planned \<Rightarrow> bool" where
  "decided_for w now ign only p \<longleftrightarrow>
     (case p of (e, dec) \<Rightarrow> (\<exists>cal. dec = decide_item (it_item e) (prove_runs (it_date e) (ww_runs w (it_date e))) now (it_events e)
        cal (ww_blocks w) (ign \<and> only = Some (it_date e))) \<and> pl_kind dec = ''capture'')"

lemma reconcile_all_items:
  "list_all2 (\<lambda>e e'. \<exists>new. e' = extend_item e new \<and> quiet_events new) es (ra_items (reconcile_all w now ign only cal es))"
proof (induction w now ign only cal es rule: reconcile_all.induct)
  case (1 w now ign only cal)
  then show ?case by simp
next
  case (2 w now ign only cal e es)
  show ?case
  proof (cases "is_open_item e")
    case True
    have "\<exists>new. extend_item e (rd_events (reconcile_item w (ww_runs w (it_date e)) now (ww_blocks w)
        (ign \<and> only = Some (it_date e)) True cal e)) = extend_item e new \<and> quiet_events new"
      by (rule exI, rule conjI, rule refl, rule reconcile_quiet)
    then show ?thesis using 2(1) [OF True refl refl] True by (simp add: Let_def)
  next
    case False
    moreover have "\<exists>new. e = extend_item e new \<and> quiet_events new"
      by (rule exI [of _ "[]"]) (simp add: extend_item_def)
    ultimately show ?thesis using 2(2) [OF False] by (simp add: Let_def)
  qed
qed

lemma reconcile_all_wants:
  "set (List.map fst (ra_wants (reconcile_all w now ign only cal es))) \<subseteq> set (ra_items (reconcile_all w now ign only cal es)) \<and>
   (\<forall>p \<in> set (ra_wants (reconcile_all w now ign only cal es)). decided_for w now ign only p)"
proof (induction w now ign only cal es rule: reconcile_all.induct)
  case (1 w now ign only cal)
  then show ?case by simp
next
  case (2 w now ign only cal e es)
  show ?case
  proof (cases "is_open_item e")
    case True
    define r where "r = reconcile_item w (ww_runs w (it_date e)) now (ww_blocks w) (ign \<and> only = Some (it_date e)) True cal e"
    have "decided_for w now ign only (extend_item e (rd_events r), dec)" if "rd_wants r = Some dec" for dec
      using that unfolding r_def by (elim reconcile_wants) (auto simp: decided_for_def)
    then show ?thesis using 2(1) [OF True refl refl] True
      by (auto simp: Let_def simp flip: r_def split: option.split)
  next
    case False
    then show ?thesis using 2(2) [OF False] by (auto simp: Let_def)
  qed
qed

lemma reconcile_all_dates [simp]:
  "List.map it_date (ra_items (reconcile_all w now ign only cal es)) = List.map it_date es"
proof -
  have "list_all2 (\<lambda>e e'. it_date e' = it_date e) es (ra_items (reconcile_all w now ign only cal es))"
    by (rule list_all2_mono [OF reconcile_all_items]) auto
  then show ?thesis by (simp add: list_all2_conv_all_nth list_eq_iff_nth_eq)
qed

lemma list_all2_in_right: "list_all2 P xs ys \<Longrightarrow> y \<in> set ys \<Longrightarrow> \<exists>x \<in> set xs. P x y"
  by (induction rule: list_all2_induct) auto

lemma reconcile_all_ok:
  assumes "\<forall>e \<in> set es. item_ok op e"
  shows "\<forall>e \<in> set (ra_items (reconcile_all w now ign only cal es)). item_ok op e"
proof
  fix e assume "e \<in> set (ra_items (reconcile_all w now ign only cal es))"
  then obtain e0 new where "e0 \<in> set es" "e = extend_item e0 new" "quiet_events new"
    using list_all2_in_right [OF reconcile_all_items] by blast
  then show "item_ok op e" using assms by (simp add: item_ok_quiet)
qed

section \<open>The store of items\<close>

definition store_ok :: "bool \<Rightarrow> item_entry list \<Rightarrow> bool" where
  "store_ok operator items \<longleftrightarrow> distinct (List.map it_date items) \<and> (\<forall>e \<in> set items. item_ok operator e)"

lemma put_item_dates [simp]: "List.map it_date (put_item e items) = List.map it_date items"
  by (induction items) (simp_all add: put_item_def)

lemma put_item_set: "x \<in> set (put_item e items) \<Longrightarrow> x = e \<or> (x \<in> set items \<and> it_date x \<noteq> it_date e)"
  by (auto simp: put_item_def split: if_splits)

lemma store_ok_put: "store_ok op items \<Longrightarrow> item_ok op e \<Longrightarrow> store_ok op (put_item e items)"
  by (auto simp: store_ok_def dest: put_item_set)

lemma it_date_new [simp]: "it_date (new_item s now origin d) = d"
  by (simp add: new_item_def it_date_def)

lemma map_date_new [simp]: "it_date \<circ> (\<lambda>d. new_item s now (origin d) d) = (\<lambda>d. d)"
  by (simp add: comp_def)

lemma distinct_sort_dates [simp]:
  "distinct (List.map it_date (sort_key it_date items)) = distinct (List.map it_date items)"
  by (metis distinct_map distinct_sort distinct_map set_sort)

lemma store_ok_discover:
  assumes "store_ok op items" "discover_items s now first today confirmed items = Inr (Some found)"
  shows "store_ok op found"
proof (cases "today < first")
  case True
  then show ?thesis using assms by (simp add: discover_items_def)
next
  case False
  then obtain ds where ds: "candidate_dates first today = Inr ds"
    and found: "found = sort_key it_date (items @ List.map (\<lambda>d. new_item s now
        (if now \<le> due_at d (snapshot_of s) then ''scheduled'' else ''catch_up'') d)
        (filter (\<lambda>d. d \<notin> set (List.map it_date items)) ds))"
    using assms(2) by (auto simp: discover_items_def bindR_eq_Inr Let_def split: if_splits)
  have "distinct ds" using candidate_dates_list [OF ds] by simp
  then show ?thesis using assms(1) by (auto simp: store_ok_def found item_ok_new comp_def)
qed

text \<open>What a wake-up comes down to.\<close>

abbreviation fresh_items :: "item_entry list \<Rightarrow> item_entry list \<Rightarrow> item_entry list" where
  "fresh_items items found \<equiv> filter (\<lambda>e. it_date e \<notin> it_date ` set items) found"

definition wake_gates :: "settings \<Rightarrow> wake_world \<Rightarrow> instant \<Rightarrow> bool" where
  "wake_gates s w now \<longleftrightarrow> ss_armed s \<and> ss_host s = Some (ww_host w) \<and> ww_synchronized w = Some True \<and>
     (\<forall>t. ww_last_time w = Some t \<longrightarrow> t - clock_tolerance \<le> now)"

lemma wake_up_cases:
  assumes "wake_up s w now confirmed only ign items cal = Inr r"
  obtains (unchanged) "wr_items r = items" "wr_captured r = None" "wr_calendar r = cal" "wr_steps r = []"
  | (bookkeeping) found first where "wake_gates s w now" "ss_start_date s = Some first"
      "discover_items s now first (colombo_day now) confirmed items = Inr (Some found)"
      "r = finish_wake w (fresh_items items found) (reconcile_all w now ign only cal found) None"
  | (capture) found first e dec where "wake_gates s w now" "ss_start_date s = Some first"
      "discover_items s now first (colombo_day now) confirmed items = Inr (Some found)"
      "(e, dec) \<in> set (ra_wants (reconcile_all w now ign only cal found))" "only = None \<or> only = Some (it_date e)"
      "r = finish_wake w (fresh_items items found) (reconcile_all w now ign only cal found)
             (Some (e, capture_one s w now (ra_calendar (reconcile_all w now ign only cal found)) e dec))"
proof (cases "wake_gates s w now")
  case False
  then show ?thesis using assms unchanged
    by (auto simp: wake_up_def wake_gates_def halted_def not_le split: if_splits option.splits)
next
  case True
  then have gates: "ss_armed s" "ss_host s = Some (ww_host w)" "ww_synchronized w = Some True"
    "\<not> (case ww_last_time w of None \<Rightarrow> False | Some t \<Rightarrow> now < t - clock_tolerance)"
    by (auto simp: wake_gates_def not_less split: option.split)
  from assms gates obtain first where first: "ss_start_date s = Some first"
    by (cases "ss_start_date s") (simp_all add: wake_up_def)
  from assms gates first obtain answer where
    answer: "discover_items s now first (colombo_day now) confirmed items = Inr answer"
    by (auto simp: wake_up_def bindR_eq_Inr)
  show ?thesis
  proof (cases answer)
    case None
    then show ?thesis using assms gates first answer unchanged by (auto simp: wake_up_def halted_def)
  next
    case (Some found)
    define ra where "ra = reconcile_all w now ign only cal found"
    define wanted where "wanted = (case only of None \<Rightarrow> ra_wants ra | Some d \<Rightarrow> filter (\<lambda>(e, _). it_date e = d) (ra_wants ra))"
    have r: "r = (case wanted of [] \<Rightarrow> finish_wake w (fresh_items items found) ra None
        | (e, dec) # _ \<Rightarrow> finish_wake w (fresh_items items found) ra (Some (e, capture_one s w now (ra_calendar ra) e dec)))"
      unfolding ra_def wanted_def using assms gates first answer Some by (auto simp: wake_up_def Let_def)
    show ?thesis
    proof (cases wanted)
      case Nil
      then show ?thesis using bookkeeping [OF True first] answer Some r by (simp add: ra_def)
    next
      case (Cons p rest)
      obtain e dec where p: "p = (e, dec)" by (cases p)
      have "(e, dec) \<in> set wanted" using Cons p by simp
      then have "(e, dec) \<in> set (ra_wants ra)" "only = None \<or> only = Some (it_date e)"
        by (auto simp: wanted_def split: option.splits)
      then show ?thesis using capture [OF True first] answer Some r Cons p by (simp add: ra_def)
    qed
  qed
qed

lemma finish_wake_simps [simp]:
  "wr_items (finish_wake w new ra None) = ra_items ra"
  "wr_items (finish_wake w new ra (Some (e, co))) = put_item (extend_item e (co_events co)) (ra_items ra)"
  "wr_captured (finish_wake w new ra None) = None" "wr_captured (finish_wake w new ra (Some (e, co))) = Some (it_date e, co)"
  "wr_steps (finish_wake w new ra None) = List.map Added new @ ra_steps ra"
  "wr_steps (finish_wake w new ra (Some (e, co))) = List.map Added new @ ra_steps ra @ co_steps co"
  by (simp_all add: finish_wake_def Let_def)

lemma decided_action:
  assumes "decided_for w now ign only (e, dec)"
  shows "pl_action dec = Some ''start'' \<or> (\<exists>r. pl_action dec = Some ''resume'' \<and> pl_run_id dec = Some r)"
proof -
  from assms obtain ev cal gate ign' where dec: "dec = decide_item (it_item e) ev now (it_events e) cal gate ign'"
    and kind: "pl_kind dec = ''capture''"
    unfolding decided_for_def by auto
  show ?thesis using capture_decision_action [OF kind [unfolded dec]] unfolding dec by blast
qed

lemma capture_keeps_ok:
  assumes ok: "item_ok op e" and "p2_settles w" "ign \<longrightarrow> op" and dec: "decided_for w now ign only (e, dec)"
  shows "item_ok op (extend_item e (co_events (capture_one s w now cal e dec)))"
  using capture_one_cases [OF decided_action [OF dec], of s w now cal e]
proof (elim disjE conjE exE)
  assume "co_steps (capture_one s w now cal e dec) = []"
  then show ?thesis using ok by (simp add: co_events_def)
next
  fix action cap
  assume action: "action \<in> set capture_actions" "capture_one s w now cal e dec = perform_capture w now cal e dec action cap"
  obtain others where others: "co_events (perform_capture w now cal e dec action cap) =
      item_event_of now ''running'' action (pl_run_id dec) # others" "capture_starts others = []"
    using perform_capture_events [OF assms(2)] by blast
  define ign' where "ign' \<longleftrightarrow> ign \<and> only = Some (it_date e)"
  have op: "ign' \<longrightarrow> op" using assms(3) by (simp add: ign'_def)
  from dec obtain ev cal' gate where "pl_kind (decide_item (it_item e) ev now (it_events e) cal' gate ign') = ''capture''"
    unfolding decided_for_def ign'_def by auto
  from item_ok_start [OF ok op this, of "item_event_of now ''running'' action (pl_run_id dec)"] show ?thesis
    using action others by simp
qed

lemma wake_up_store_ok:
  assumes "store_ok op items" "p2_settles w" "ign \<longrightarrow> op" "wake_up s w now confirmed only ign items cal = Inr r"
  shows "store_ok op (wr_items r)"
  using assms(4)
proof (cases rule: wake_up_cases)
  case unchanged
  then show ?thesis using assms(1) by simp
next
  case (bookkeeping found first)
  have "store_ok op found" by (rule store_ok_discover [OF assms(1) bookkeeping(3)])
  then show ?thesis unfolding store_ok_def bookkeeping(4) finish_wake_simps reconcile_all_dates
    by (intro conjI reconcile_all_ok) simp_all
next
  case (capture found first e dec)
  define ra where "ra = reconcile_all w now ign only cal found"
  have ra: "store_ok op (ra_items ra)"
    using store_ok_discover [OF assms(1) capture(3)] unfolding store_ok_def ra_def reconcile_all_dates
    by (intro conjI reconcile_all_ok) simp_all
  have e: "e \<in> set (ra_items ra)" "decided_for w now ign only (e, dec)"
    using capture(4) reconcile_all_wants [of w now ign only cal found] by (auto simp: ra_def)
  then have "item_ok op e" using ra by (simp add: store_ok_def)
  from capture_keeps_ok [OF this assms(2,3) e(2)] show ?thesis
    unfolding capture(6) by (simp add: store_ok_put ra flip: ra_def)
qed

section \<open>A wake-up step by step\<close>

text \<open>The steps of a wake-up, taken in full, give its items; taken in part, they give items whose events are a first part of
  the final ones.\<close>

lemma after_steps_simps [simp]:
  "after_steps [] items = items" "after_steps (s # steps) items = after_steps steps (after_step s items)"
  "after_steps (xs @ ys) items = after_steps ys (after_steps xs items)"
  by (simp_all add: after_steps_def)

lemma after_steps_wrote:
  "after_steps (List.map (Wrote d) evs) items = List.map (\<lambda>x. if it_date x = d then extend_item x evs else x) items"
  by (induction evs arbitrary: items) (simp_all add: comp_def if_distrib cong: if_cong)

lemma ra_steps_result:
  assumes "distinct (List.map it_date (pre @ es))"
  shows "after_steps (ra_steps (reconcile_all w now ign only cal es)) (pre @ es) = pre @ ra_items (reconcile_all w now ign only cal es)"
  using assms
proof (induction w now ign only cal es arbitrary: pre rule: reconcile_all.induct)
  case (2 w now ign only cal e es)
  show ?case
  proof (cases "is_open_item e")
    case True
    define r where "r = reconcile_item w (ww_runs w (it_date e)) now (ww_blocks w) (ign \<and> only = Some (it_date e)) True cal e"
    have "it_date e \<notin> it_date ` set pre" "it_date e \<notin> it_date ` set es" using 2(3) by auto
    then have others: "\<forall>x \<in> set pre. it_date x \<noteq> it_date e" "\<forall>x \<in> set es. it_date x \<noteq> it_date e" by (metis imageI)+
    have "after_steps (List.map (Wrote (it_date e)) (rd_events r)) (pre @ e # es) = pre @ extend_item e (rd_events r) # es"
      unfolding after_steps_wrote using others by (simp add: map_idI)
    then show ?thesis using 2(1) [OF True refl refl, of "pre @ [extend_item e (rd_events r)]"] 2(3) True
      by (simp add: Let_def flip: r_def)
  next
    case False
    then show ?thesis using 2(2) [OF False, of "pre @ [e]"] 2(3) by (simp add: Let_def)
  qed
qed simp

lemma ra_steps_calls [simp]: "p2_calls (ra_steps (reconcile_all w now ign only cal es)) = []"
  by (induction w now ign only cal es rule: reconcile_all.induct) (simp_all add: Let_def)

lemma later_item:
  assumes "e \<in> set items"
  shows "\<exists>f \<in> set (after_steps steps items). it_item f = it_item e \<and> (\<exists>tail. it_events f = it_events e @ tail)"
  using assms
proof (induction steps arbitrary: items e)
  case (Cons s steps)
  have "\<exists>g \<in> set (after_step s items). it_item g = it_item e \<and> (\<exists>tail. it_events g = it_events e @ tail)"
  proof (cases s)
    case (Wrote d ev)
    let ?g = "if it_date e = d then extend_item e [ev] else e"
    have "?g \<in> set (after_step s items)" using Cons.prems by (auto simp: Wrote)
    then show ?thesis by (rule bexI [rotated]) simp
  next
    case (Added x)
    then have "e \<in> set (after_step s items)" using Cons.prems by simp
    then show ?thesis by blast
  next
    case (CalledP2 d t)
    then have "e \<in> set (after_step s items)" using Cons.prems by simp
    then show ?thesis by blast
  qed
  then obtain g tail where g: "g \<in> set (after_step s items)" "it_item g = it_item e" "it_events g = it_events e @ tail" by blast
  from Cons.IH [OF g(1)] obtain f rest where "f \<in> set (after_steps steps (after_step s items))" "it_item f = it_item g"
      "it_events f = it_events g @ rest" by blast
  then show ?case using g(2,3) by (intro bexI [of _ f]) simp_all
qed auto

lemma after_step_dates: "distinct (List.map it_date items) \<Longrightarrow> distinct (List.map it_date (after_step s items))"
  by (cases s) (simp_all add: comp_def if_distrib cong: if_cong)

lemma after_steps_dates: "distinct (List.map it_date items) \<Longrightarrow> distinct (List.map it_date (after_steps steps items))"
  by (induction steps arbitrary: items) (use after_step_dates in auto)

text \<open>Writing events treats every item by itself.\<close>

definition only_writes :: "wake_step list \<Rightarrow> bool" where
  "only_writes steps \<longleftrightarrow> (\<forall>s \<in> set steps. \<forall>e. s \<noteq> Added e)"

lemma only_writes_simps [simp]:
  "only_writes []" "only_writes (s # steps) \<longleftrightarrow> (\<forall>e. s \<noteq> Added e) \<and> only_writes steps"
  "only_writes (xs @ ys) \<longleftrightarrow> only_writes xs \<and> only_writes ys" "only_writes (List.map (Wrote d) evs)"
  by (auto simp: only_writes_def)

lemma only_writes_map: "only_writes steps \<Longrightarrow> \<exists>u. \<forall>items. after_steps steps items = List.map u items"
proof (induction steps)
  case Nil
  show ?case by (rule exI [of _ "\<lambda>x. x"]) simp
next
  case (Cons s steps)
  then obtain u where u: "after_steps steps items = List.map u items" for items by auto
  show ?case
  proof (cases s)
    case (Wrote d ev)
    show ?thesis by (rule exI [of _ "\<lambda>x. u (if it_date x = d then extend_item x [ev] else x)"]) (simp add: Wrote u)
  next
    case (CalledP2 d t)
    show ?thesis by (rule exI [of _ u]) (simp add: CalledP2 u)
  qed (use Cons.prems in auto)
qed

lemma only_writes_set: "only_writes steps \<Longrightarrow> set xs = set ys \<Longrightarrow> set (after_steps steps xs) = set (after_steps steps ys)"
  using only_writes_map [of steps] by auto

lemma ra_only_writes [simp]: "only_writes (ra_steps (reconcile_all w now ign only cal es))"
  by (induction w now ign only cal es rule: reconcile_all.induct) (simp_all add: Let_def)

definition steps_of_date :: "int \<Rightarrow> wake_step list \<Rightarrow> bool" where
  "steps_of_date d steps \<longleftrightarrow> (\<forall>s \<in> set steps. (\<exists>ev. s = Wrote d ev) \<or> (\<exists>t. s = CalledP2 d t))"

lemma steps_of_date_result:
  assumes "steps_of_date d steps"
  shows "after_steps steps items = List.map (\<lambda>x. if it_date x = d then extend_item x (written_by steps) else x) items"
  using assms by (induction steps arbitrary: items) (auto simp: steps_of_date_def comp_def if_distrib cong: if_cong)

lemma capture_steps_of_date: "steps_of_date (it_date e) (co_steps (capture_one s w now cal e dec))"
proof -
  have "steps_of_date (it_date e) (co_steps (perform_capture w now cal e dec action cap))" for action cap
    by (auto simp: perform_capture_def steps_of_date_def Let_def split: option.split prod.split)
  then show ?thesis by (auto simp: capture_one_def no_capture_def steps_of_date_def split: option.split)
qed

lemma steps_of_date_writes: "steps_of_date d steps \<Longrightarrow> only_writes steps"
  by (auto simp: steps_of_date_def only_writes_def)

lemma added_items:
  assumes "distinct (List.map it_date new)" and "it_date ` set new \<inter> it_date ` set items = {}"
  shows "set (after_steps (List.map Added new) items) = set items \<union> set new"
  using assms by (induction new arbitrary: items) auto

lemma discovered_parts:
  assumes "discover_items s now first today confirmed items = Inr (Some found)" and "distinct (List.map it_date items)"
  shows "distinct (List.map it_date found)" "set found = set items \<union> set (fresh_items items found)"
proof -
  have "distinct (List.map it_date found) \<and> set items \<subseteq> set found \<and> (\<forall>e \<in> set found. e \<in> set items \<or> it_date e \<notin> it_date ` set items)"
  proof (cases "today < first")
    case True
    then show ?thesis using assms by (simp add: discover_items_def)
  next
    case False
    then obtain ds where ds: "candidate_dates first today = Inr ds"
      and found: "found = sort_key it_date (items @ List.map (\<lambda>d. new_item s now
          (if now \<le> due_at d (snapshot_of s) then ''scheduled'' else ''catch_up'') d)
          (filter (\<lambda>d. d \<notin> set (List.map it_date items)) ds))"
      using assms(1) by (auto simp: discover_items_def bindR_eq_Inr Let_def split: if_splits)
    have "distinct ds" using candidate_dates_list [OF ds] by simp
    then show ?thesis using assms(2) by (auto simp: found comp_def)
  qed
  then show "distinct (List.map it_date found)" "set found = set items \<union> set (fresh_items items found)" by auto
qed

lemma steps_result:
  assumes "wake_up s w now confirmed only ign items cal = Inr r" and "distinct (List.map it_date items)"
  shows "set (after_steps (wr_steps r) items) = set (wr_items r)"
proof -
  have upto: "set (after_steps (List.map Added (fresh_items items found)) items) = set found" "distinct (List.map it_date found)"
    if "discover_items s now first today confirmed items = Inr (Some found)" for found first today
  proof -
    note parts = discovered_parts [OF that assms(2)]
    have "distinct (List.map it_date (fresh_items items found))" using parts(1) by (simp add: distinct_map_filter)
    moreover have "it_date ` set (fresh_items items found) \<inter> it_date ` set items = {}" by auto
    ultimately show "set (after_steps (List.map Added (fresh_items items found)) items) = set found"
      using added_items [of "fresh_items items found" items] unfolding parts(2) [symmetric] by blast
    show "distinct (List.map it_date found)" by (rule parts(1))
  qed
  show ?thesis using assms(1)
  proof (cases rule: wake_up_cases)
    case unchanged
    then show ?thesis by simp
  next
    case (bookkeeping found first)
    note found = upto [OF bookkeeping(3)]
    show ?thesis using only_writes_set [OF ra_only_writes found(1)] ra_steps_result [of "[]" found] found(2)
      by (simp add: bookkeeping(4))
  next
    case (capture found first e dec)
    define ra co where "ra = reconcile_all w now ign only cal found" and "co = capture_one s w now (ra_calendar ra) e dec"
    note found = upto [OF capture(3)]
    have r: "r = finish_wake w (fresh_items items found) ra (Some (e, co))" by (simp add: capture(6) ra_def co_def)
    have ra: "set (after_steps (ra_steps ra) (after_steps (List.map Added (fresh_items items found)) items)) = set (ra_items ra)"
      using only_writes_set [OF ra_only_writes found(1)] ra_steps_result [of "[]" found] found(2) unfolding ra_def by simp
    have dated: "steps_of_date (it_date e) (co_steps co)" unfolding co_def by (rule capture_steps_of_date)
    note writes = steps_of_date_writes [OF dated]
    have mem: "e \<in> set (ra_items ra)" using capture(4) reconcile_all_wants [of w now ign only cal found] by (auto simp: ra_def)
    have only: "x = e" if "x \<in> set (ra_items ra)" "it_date x = it_date e" for x
    proof -
      have "distinct (List.map it_date (ra_items ra))" using found(2) by (simp add: ra_def)
      then show ?thesis using that mem by (auto simp: distinct_map inj_on_def)
    qed
    have "after_steps (co_steps co) (ra_items ra) = put_item (extend_item e (co_events co)) (ra_items ra)"
      using only unfolding steps_of_date_result [OF dated] put_item_def by (intro map_cong) (auto simp: co_events_def)
    then show ?thesis using only_writes_set [OF writes ra] by (simp add: r)
  qed
qed

section \<open>Calls of P2\<close>

text \<open>A call of P2 comes directly after the committed running event of its date. The state is the date and the time of the
  running event just written.\<close>

fun calls_guarded :: "int set \<Rightarrow> (int \<times> instant) option \<Rightarrow> wake_step list \<Rightarrow> bool" where
  "calls_guarded D p [] = True"
| "calls_guarded D p (Added e # steps) = calls_guarded (insert (it_date e) D) None steps"
| "calls_guarded D p (Wrote d ev # steps) = calls_guarded D (if capture_starts [ev] = [] then None else Some (d, ie_scheduler_time ev)) steps"
| "calls_guarded D p (CalledP2 d t # steps) = (d \<in> D \<and> p = Some (d, t) \<and> calls_guarded D None steps)"

lemma calls_guarded_take: "calls_guarded D p steps \<Longrightarrow> calls_guarded D p (take k steps)"
proof (induction D p steps arbitrary: k rule: calls_guarded.induct)
  case (1 D p)
  show ?case by simp
qed (case_tac [!] k, simp_all)

lemma calls_guarded_weaken: "calls_guarded D None steps \<Longrightarrow> D \<subseteq> E \<Longrightarrow> calls_guarded E p steps"
proof (induction steps arbitrary: D E p)
  case (Cons s steps)
  show ?case
  proof (cases s)
    case (Wrote d ev)
    have "calls_guarded E q steps" if "calls_guarded D q steps" for q
      using that Cons.prems(2) by (induction D q steps arbitrary: E rule: calls_guarded.induct) (auto simp: insert_mono)
    then show ?thesis using Cons.prems Wrote by simp
  next
    case (Added x)
    then show ?thesis using Cons.IH [of "insert (it_date x) D" "insert (it_date x) E" None] Cons.prems by auto
  qed (use Cons.prems in simp)
qed simp

lemma calls_guarded_after_quiet:
  assumes "p2_calls xs = []" and "calls_guarded (D \<union> {it_date e | e. Added e \<in> set xs}) None steps"
  shows "calls_guarded D p (xs @ steps)"
  using assms
proof (induction xs arbitrary: D p)
  case Nil
  then show ?case using calls_guarded_weaken [of D steps D p] by simp
next
  case (Cons s xs)
  show ?case
  proof (cases s)
    case (Added x)
    have "D \<union> {it_date e | e. Added e \<in> set (s # xs)} = insert (it_date x) D \<union> {it_date e | e. Added e \<in> set xs}" by (auto simp: Added)
    then have "calls_guarded (insert (it_date x) D) None (xs @ steps)" using Cons.IH [of "insert (it_date x) D" None] Cons.prems Added by simp
    then show ?thesis by (simp add: Added)
  qed (use Cons in simp_all)
qed

definition calls_of :: "(int \<times> instant) list \<Rightarrow> int \<Rightarrow> instant list" where
  "calls_of calls d = List.map snd (filter (\<lambda>c. fst c = d) calls)"

definition start_times :: "item_entry \<Rightarrow> instant list" where
  "start_times e = List.map ie_scheduler_time (capture_starts (it_events e))"

text \<open>Every call of P2 belongs to an item, and to a capture start of it that was written before the call.\<close>

definition calls_covered :: "item_entry list \<Rightarrow> (int \<times> instant) list \<Rightarrow> bool" where
  "calls_covered items calls \<longleftrightarrow> (\<forall>c \<in> set calls. fst c \<in> it_date ` set items) \<and>
     (\<forall>e \<in> set items. subseq (calls_of calls (it_date e)) (start_times e))"

definition just_started :: "item_entry list \<Rightarrow> (int \<times> instant) list \<Rightarrow> (int \<times> instant) option \<Rightarrow> bool" where
  "just_started items calls p \<longleftrightarrow> (\<forall>d t. p = Some (d, t) \<longrightarrow>
     (\<forall>e \<in> set items. it_date e = d \<longrightarrow> (\<exists>before. start_times e = before @ [t] \<and> subseq (calls_of calls d) before)))"

lemma calls_of_append [simp]: "calls_of (xs @ ys) d = calls_of xs d @ calls_of ys d"
  by (simp add: calls_of_def)

lemma calls_of_none: "(\<forall>c \<in> set calls. fst c \<in> it_date ` set items) \<Longrightarrow> d \<notin> it_date ` set items \<Longrightarrow> calls_of calls d = []"
  by (auto simp: calls_of_def filter_empty_conv)

lemma subseq_longer: "subseq xs ys \<Longrightarrow> subseq xs (ys @ zs)"
  using list_emb_append_mono [of "(=)" xs ys "[]" zs] by simp

lemma guarded_covered:
  assumes "calls_guarded D p steps" and "D \<subseteq> it_date ` set items" and "calls_covered items calls" and "just_started items calls p"
  shows "calls_covered (after_steps steps items) (calls @ p2_calls steps)"
  using assms
proof (induction D p steps arbitrary: items calls rule: calls_guarded.induct)
  case (1 D p)
  then show ?case by simp
next
  case (2 D p x steps)
  let ?items = "after_step (Added x) items"
  have "insert (it_date x) D \<subseteq> it_date ` set ?items" using 2(3) by auto
  moreover have "calls_covered ?items calls"
    using 2(4) calls_of_none [of calls items "it_date x"] by (auto simp: calls_covered_def)
  ultimately show ?case using 2(1) [of ?items calls] 2(2) by (simp add: just_started_def)
next
  case (3 D p d ev steps)
  let ?items = "after_step (Wrote d ev) items" and ?p = "if capture_starts [ev] = [] then None else Some (d, ie_scheduler_time ev)"
  have times: "start_times (extend_item x [ev]) = start_times x @ List.map ie_scheduler_time (capture_starts [ev])" for x
    by (simp add: start_times_def)
  have "it_date (if it_date x = d then extend_item x [ev] else x) = it_date x" for x by simp
  then have dates: "it_date ` set ?items = it_date ` set items" by (simp only: after_step.simps set_map image_image)
  have "calls_covered ?items calls"
    unfolding calls_covered_def dates
  proof (intro conjI ballI)
    fix y assume "y \<in> set ?items"
    then obtain x where x: "x \<in> set items" "y = (if it_date x = d then extend_item x [ev] else x)" by auto
    have "subseq (calls_of calls (it_date x)) (start_times x)" using x(1) 3(4) by (simp add: calls_covered_def)
    from this subseq_longer [OF this] show "subseq (calls_of calls (it_date y)) (start_times y)" by (cases "it_date x = d") (auto simp: x(2) times)
  qed (use 3(4) in \<open>simp add: calls_covered_def\<close>)
  moreover have "just_started ?items calls ?p"
    unfolding just_started_def
  proof (intro allI impI ballI)
    fix d' t y assume p: "?p = Some (d', t)" and y: "y \<in> set ?items" "it_date y = d'"
    have one: "capture_starts [ev] \<noteq> []" "d' = d" "t = ie_scheduler_time ev" using p by (simp_all split: if_splits)
    then have ev: "capture_starts [ev] = [ev]" by (simp add: capture_starts_def split: if_splits)
    obtain x where x: "x \<in> set items" "y = (if it_date x = d then extend_item x [ev] else x)" using y(1) by auto
    then have "it_date x = d" using y(2) one(2) by (simp split: if_splits)
    then have "start_times y = start_times x @ [t]" by (simp add: x(2) times ev one(3))
    moreover have "subseq (calls_of calls d') (start_times x)" using 3(4) x(1) \<open>it_date x = d\<close> one(2) by (auto simp: calls_covered_def)
    ultimately show "\<exists>before. start_times y = before @ [t] \<and> subseq (calls_of calls d') before" by blast
  qed
  ultimately show ?case using 3(1) [of ?items calls] 3(2,3) dates by simp
next
  case (4 D p d t steps)
  have "calls_covered items (calls @ [(d, t)])"
    using 4 by (auto simp: calls_covered_def just_started_def calls_of_def)
  then show ?case using 4(1) [of items "calls @ [(d, t)]"] 4(2,3) by (simp add: just_started_def)
qed

lemma wake_guarded:
  assumes "wake_up s w now confirmed only ign items cal = Inr r" and "distinct (List.map it_date items)"
  shows "calls_guarded (it_date ` set items) None (wr_steps r)"
  using assms(1)
proof (cases rule: wake_up_cases)
  case unchanged
  then show ?thesis by simp
next
  case (bookkeeping found first)
  show ?thesis using calls_guarded_after_quiet [of "wr_steps r" "it_date ` set items" "[]" None] by (simp add: bookkeeping(4))
next
  case (capture found first e dec)
  define ra co where "ra = reconcile_all w now ign only cal found" and "co = capture_one s w now (ra_calendar ra) e dec"
  define new where "new = fresh_items items found"
  have r: "wr_steps r = (List.map Added new @ ra_steps ra) @ co_steps co" by (simp add: capture(6) ra_def co_def new_def)
  let ?D = "it_date ` set items \<union> {it_date e | e. Added e \<in> set (List.map Added new @ ra_steps ra)}"
  have wants: "decided_for w now ign only (e, dec)" "e \<in> set (ra_items ra)"
    using capture(4) reconcile_all_wants [of w now ign only cal found] by (auto simp: ra_def)
  have dates: "List.map it_date (ra_items ra) = List.map it_date found" by (simp add: ra_def)
  have "it_date e \<in> set (List.map it_date (ra_items ra))" using wants(2) by simp
  then obtain x where x: "x \<in> set found" "it_date e = it_date x" unfolding dates by auto
  have date: "it_date e \<in> ?D"
  proof (cases "x \<in> set items")
    case False
    then have "x \<in> set new" using x(1) discovered_parts(2) [OF capture(3) assms(2)] unfolding new_def by blast
    then have "Added x \<in> set (List.map Added new @ ra_steps ra)" by simp
    then show ?thesis using x(2) by blast
  qed (use x(2) in simp)
  have "calls_guarded ?D None (co_steps co)"
    using capture_one_cases [OF decided_action [OF wants(1)], of s w now "ra_calendar ra" e]
  proof (elim disjE conjE exE)
    fix action cap
    assume a: "action \<in> set capture_actions" "capture_one s w now (ra_calendar ra) e dec = perform_capture w now (ra_calendar ra) e dec action cap"
    obtain rest where rest: "co_steps co = Wrote (it_date e) (item_event_of now ''running'' action (pl_run_id dec)) # CalledP2 (it_date e) now # rest"
        "p2_calls rest = []" using perform_capture_steps a(2) unfolding co_def by metis
    have "calls_guarded D None rest" for D using calls_guarded_after_quiet [OF rest(2), of D "[]"] by simp
    then show ?thesis using date a(1) by (simp add: rest(1) capture_starts_def)
  qed (simp add: co_def)
  then show ?thesis unfolding r by (intro calls_guarded_after_quiet) (simp_all add: ra_def)
qed

lemma wake_calls:
  assumes "wake_up s w now confirmed only ign items cal = Inr r" and "store_ok op items" and "calls_covered items calls"
  shows "calls_covered (after_steps (take k (wr_steps r)) items) (calls @ p2_calls (take k (wr_steps r)))"
  by (rule guarded_covered [OF calls_guarded_take [OF wake_guarded [OF assms(1)]] subset_refl assms(3)])
    (use assms(2) in \<open>simp_all add: store_ok_def just_started_def\<close>)

lemma dies_store_ok:
  assumes "store_ok op items" and "p2_settles w" and "ign \<longrightarrow> op" and "wake_up s w now confirmed only ign items cal = Inr r"
  shows "store_ok op (after_steps (take k (wr_steps r)) items)"
proof -
  have dates: "distinct (List.map it_date items)" using assms(1) by (simp add: store_ok_def)
  have "item_ok op e" if e: "e \<in> set (after_steps (take k (wr_steps r)) items)" for e
  proof -
    have "after_steps (drop k (wr_steps r)) (after_steps (take k (wr_steps r)) items) = after_steps (wr_steps r) items"
      by (simp flip: after_steps_simps(3))
    then obtain f rest where "f \<in> set (wr_items r)" "it_item f = it_item e" "it_events f = it_events e @ rest"
      using later_item [OF e, of "drop k (wr_steps r)"] steps_result [OF assms(4) dates] by auto
    then show ?thesis using wake_up_store_ok [OF assms] item_ok_earlier by (metis store_ok_def)
  qed
  then show ?thesis using after_steps_dates [OF dates] by (simp add: store_ok_def)
qed

section \<open>Every reachable schedule\<close>

text \<open>The stores of work items that wake-ups, complete ones and ones that end after any of their steps, and operator actions
  can produce, each with every call of P2 made so far. \<open>operator\<close> says whether an operator wake-up may ignore the back-off. The calendar rows are anything: other tools write them too.\<close>

inductive schedules :: "bool \<Rightarrow> item_entry list \<Rightarrow> (int \<times> instant) list \<Rightarrow> bool" for operator :: bool where
  empty: "schedules operator [] []"
| wakes: "schedules operator items calls \<Longrightarrow> p2_settles w \<Longrightarrow> ign \<longrightarrow> operator \<Longrightarrow>
    wake_up s w now confirmed only ign items cal = Inr r \<Longrightarrow> schedules operator (wr_items r) (calls @ p2_calls (wr_steps r))"
| dies: "schedules operator items calls \<Longrightarrow> p2_settles w \<Longrightarrow> ign \<longrightarrow> operator \<Longrightarrow>
    wake_up s w now confirmed only ign items cal = Inr r \<Longrightarrow> ended_after k r items = (items', new) \<Longrightarrow>
    schedules operator items' (calls @ new)"
| adds: "schedules operator items calls \<Longrightarrow> add_item s now d reason items = Inr (items', created) \<Longrightarrow>
    schedules operator items' calls"
| reprocesses: "schedules operator items calls \<Longrightarrow> reprocess_date answer runs now d items = Inr items' \<Longrightarrow>
    schedules operator items' calls"

inductive_cases schedules_cases: "schedules operator items calls"

lemma store_ok_add:
  assumes "store_ok op items" "add_item s now d reason items = Inr (items', created)"
  shows "store_ok op items'"
  using assms by (auto simp: add_item_def guardR_def store_ok_def item_ok_new split: if_splits)

lemma reprocess_parts:
  assumes "reprocess_date answer runs now d items = Inr items'"
  shows "\<exists>e \<in> set items. it_date e = d \<and> (items' = items \<or> (\<exists>x. quiet_events [x] \<and> items' = put_item (extend_item e [x]) items))"
proof -
  from assms obtain e where e: "find (\<lambda>e. it_date e = d) items = Some e"
    by (cases "find (\<lambda>e. it_date e = d) items") (simp_all add: reprocess_date_def)
  then have mem: "e \<in> set items" "it_date e = d" by (auto simp: find_Some_iff)
  define kind where "kind = (\<lambda>r :: p2_reply. if ie_action (last (it_events e)) = ''finalize'' \<and> pr_state r = ie_state (last (it_events e))
      then ''finalize'' else ''reprocess'')"
  from assms e obtain run_id r where answers: "rp_captured (prove_runs d runs)"
      "rp_run_id (prove_runs d runs) = Some run_id" "answer run_id = Some r"
    by (auto simp: reprocess_date_def Let_def split: bool.splits option.splits)
  then have "items' = (if ie_state (last (it_events e)) \<in> set final_states then items
      else put_item (extend_item e [item_event_of now (pr_state r) (kind r) (Some run_id)]) items)"
    using assms e by (auto simp: reprocess_date_def Let_def kind_def)
  moreover have "quiet_events [item_event_of now (pr_state r) (kind r) (Some run_id)]" by (simp add: kind_def capture_actions_def)
  ultimately show ?thesis using mem by metis
qed

lemma store_ok_reprocess:
  assumes "store_ok op items" "reprocess_date answer runs now d items = Inr items'"
  shows "store_ok op items'"
  using reprocess_parts [OF assms(2)] assms(1) store_ok_put [OF assms(1)] item_ok_quiet by (metis store_ok_def)

text \<open>Operator actions never start a capture.\<close>

lemma calls_covered_mono:
  assumes "calls_covered items calls" and "it_date ` set items \<subseteq> it_date ` set items'"
    and "\<And>e. e \<in> set items' \<Longrightarrow> it_date e \<notin> it_date ` set items \<or>
      (\<exists>e0 \<in> set items. it_date e0 = it_date e \<and> start_times e0 = start_times e)"
  shows "calls_covered items' calls"
  unfolding calls_covered_def
proof (intro conjI ballI)
  fix c assume "c \<in> set calls"
  then show "fst c \<in> it_date ` set items'" using assms(1,2) by (auto simp: calls_covered_def)
next
  fix e assume "e \<in> set items'"
  from assms(3) [OF this] show "subseq (calls_of calls (it_date e)) (start_times e)"
  proof
    assume "it_date e \<notin> it_date ` set items"
    then show ?thesis using assms(1) calls_of_none [of calls items "it_date e"] by (simp add: calls_covered_def)
  next
    assume "\<exists>e0 \<in> set items. it_date e0 = it_date e \<and> start_times e0 = start_times e"
    then show ?thesis using assms(1) unfolding calls_covered_def by metis
  qed
qed

lemma add_covered:
  assumes "calls_covered items calls" and "add_item s now d reason items = Inr (items', created)"
  shows "calls_covered items' calls"
proof -
  have "set items' = set items \<or> d \<notin> it_date ` set items \<and> set items' = insert (new_item s now ''operator'' d) (set items)"
    using assms(2) by (auto simp: add_item_def guardR_def split: if_splits)
  then show ?thesis by (intro calls_covered_mono [OF assms(1)]) auto
qed

lemma reprocess_covered:
  assumes "calls_covered items calls" and "reprocess_date answer runs now d items = Inr items'"
  shows "calls_covered items' calls"
proof -
  from reprocess_parts [OF assms(2)] show ?thesis
  proof (elim bexE disjE exE conjE)
    fix e ev assume mem: "e \<in> set items" "it_date e = d" and "quiet_events [ev]" "items' = put_item (extend_item e [ev]) items"
    then have ev: "capture_starts [ev] = []" "items' = put_item (extend_item e [ev]) items" by (simp_all only: quiet_no_starts)
    have "it_date ` set items' = it_date ` set items" by (metis ev(2) image_set put_item_dates)
    moreover have "start_times (extend_item e [ev]) = start_times e" using ev(1) by (simp add: start_times_def)
    ultimately show ?thesis
      by (intro calls_covered_mono [OF assms(1)]) (use mem in \<open>auto simp: ev(2) dest!: put_item_set intro: bexI [of _ e]\<close>)
  qed (use assms(1) in simp)
qed

lemma schedules_ok: "schedules op items calls \<Longrightarrow> store_ok op items \<and> calls_covered items calls"
proof (induction rule: schedules.induct)
  case empty
  then show ?case by (simp add: store_ok_def calls_covered_def)
next
  case (wakes items calls w ign s now confirmed only cal r)
  then have ok: "store_ok op (wr_items r)" using wake_up_store_ok by blast
  have "set (after_steps (wr_steps r) items) = set (wr_items r)"
    using steps_result [OF wakes(4)] wakes(5) by (simp add: store_ok_def)
  moreover have "calls_covered (after_steps (wr_steps r) items) (calls @ p2_calls (wr_steps r))"
    using wake_calls [OF wakes(4), of op calls "length (wr_steps r)"] wakes(5) by simp
  ultimately show ?case using ok unfolding calls_covered_def by simp
next
  case (dies items calls w ign s now confirmed only cal r k items' new)
  then show ?case using dies_store_ok [OF _ dies(2,3,4)] wake_calls [OF dies(4)] by (auto simp: ended_after_def)
next
  case (adds items calls s now d reason items' created)
  then show ?case using store_ok_add add_covered by blast
next
  case (reprocesses items calls answer runs now d items')
  then show ?case using store_ok_reprocess reprocess_covered by blast
qed

end
