(* ===== verification/SchedulerFacts.thy ===== *)
theory SchedulerFacts
  imports WakeupFacts
begin

text \<open>
  The properties of the scheduler: how often and when CSE is contacted for a date, what one wake-up may do, that a
  closed window settles an item and that no trading date is forgotten.
\<close>

section \<open>A closed window settles an item\<close>

lemma last_events_extend [simp]:
  "new \<noteq> [] \<Longrightarrow> last (it_events (extend_item e new)) = last new"
  by simp

lemma sync_settles:
  assumes "rp_state ev \<in> set final_states"
  shows "ie_state (last (evs @ sync_item now evs ev)) = rp_state ev"
  using assms by (auto simp: sync_item_def Let_def final_states_def)

definition rederives :: "run_proof \<Rightarrow> bool" where
  "rederives ev \<longleftrightarrow> rp_captured ev \<and> (\<exists>r. rp_run ev = Some r \<and> rf_state r \<in> {''abandoned'', ''failed''})"

lemma closed_window_cases:
  assumes "wi_closes_at item \<le> now"
  shows "rp_state ev \<in> {''succeeded'', ''missed''} \<or>
     pl_kind (decide_item item ev now evs cal gate ign) \<in> {''not_applicable'', ''finalize'', ''record_missed''} \<or> rederives ev"
  using assms unfolding decide_item_def decide_closed_def planned_kinds rederives_def
  by (simp split: option.split bool.split)

lemma settling_events:
  assumes "pl_kind (decide_item (it_item e) (prove_runs (it_date e) runs) now
      (it_events e @ sync_item now (it_events e) (prove_runs (it_date e) runs)) (map_of cal (it_date e)) gate ign)
      \<in> {''not_applicable'', ''finalize'', ''record_missed''}"
  shows "\<exists>init ev. rd_events (reconcile_item w runs now gate ign allow cal e) = init @ [ev] \<and>
     (ie_action ev = ''finalize'' \<or> ie_state ev = ''missed'')"
  using assms unfolding reconcile_item_def Let_def by auto

lemma waiting_events:
  assumes "pl_kind (decide_item (it_item e) (prove_runs (it_date e) runs) now
      (it_events e @ sync_item now (it_events e) (prove_runs (it_date e) runs)) (map_of cal (it_date e)) gate ign) = ''wait''"
  shows "rd_events (reconcile_item w runs now gate ign allow cal e) = sync_item now (it_events e) (prove_runs (it_date e) runs)"
  using assms unfolding reconcile_item_def Let_def by simp

lemma final_not_open: "ie_state (last (it_events e)) \<in> set final_states \<Longrightarrow> \<not> is_open_item e"
  by (simp add: is_open_item_def Let_def)

lemma settled_kind:
  assumes "rp_state ev \<in> {''succeeded'', ''missed''}" "wi_closes_at item \<le> now" "\<not> rederives ev"
  shows "pl_kind (decide_item item ev now evs cal gate ign) \<in> {''wait'', ''not_applicable'', ''finalize''}"
  using assms unfolding decide_item_def decide_closed_def planned_kinds rederives_def
  by (auto split: option.split bool.split)

lemma reconcile_settles:
  assumes closed: "wi_closes_at (it_item e) \<le> now" and archive: "\<not> rederives (prove_runs (it_date e) runs)"
  shows "\<not> is_open_item (extend_item e (rd_events (reconcile_item w runs now gate ign allow cal e)))"
proof -
  define ev where "ev = prove_runs (it_date e) runs"
  define synced where "synced = sync_item now (it_events e) ev"
  define dec where "dec = decide_item (it_item e) ev now (it_events e @ synced) (map_of cal (it_date e)) gate ign"
  consider (wait) "pl_kind dec = ''wait''" "rp_state ev \<in> {''succeeded'', ''missed''}"
    | (settles) "pl_kind dec \<in> {''not_applicable'', ''finalize'', ''record_missed''}"
    using closed_window_cases [OF closed, of ev] settled_kind [of ev, OF _ closed] archive
    unfolding dec_def ev_def by blast
  then show ?thesis
  proof cases
    case wait
    then have "rd_events (reconcile_item w runs now gate ign allow cal e) = synced"
      using waiting_events unfolding dec_def synced_def ev_def by blast
    moreover have "ie_state (last (it_events e @ synced)) \<in> set final_states"
      using wait(2) sync_settles [of ev] unfolding synced_def final_states_def by auto
    ultimately show ?thesis by (intro final_not_open) simp
  next
    case settles
    then obtain init x where x: "rd_events (reconcile_item w runs now gate ign allow cal e) = init @ [x]"
      "ie_action x = ''finalize'' \<or> ie_state x = ''missed''"
      using settling_events [of e runs now cal gate ign w allow] unfolding dec_def synced_def ev_def by blast
    then show ?thesis by (auto simp: is_open_item_def Let_def final_states_def)
  qed
qed

section \<open>Discovery\<close>

lemma discovery_covers:
  assumes "discover_items s now first today confirmed items = Inr (Some found)"
  shows "set (filter is_candidate_trading_day [first..today]) \<subseteq> set (List.map it_date found)"
proof (cases "today < first")
  case True
  then show ?thesis by simp
next
  case False
  then obtain ds where ds: "candidate_dates first today = Inr ds"
    and found: "found = sort_key it_date (items @ List.map (\<lambda>d. new_item s now
        (if now \<le> due_at d (snapshot_of s) then ''scheduled'' else ''catch_up'') d)
        (filter (\<lambda>d. d \<notin> set (List.map it_date items)) ds))"
    using assms by (auto simp: discover_items_def bindR_eq_Inr Let_def split: if_splits)
  have "set (List.map it_date found) = set (List.map it_date items) \<union> {d \<in> set ds. d \<notin> set (List.map it_date items)}"
    by (simp add: found image_Un image_image)
  then show ?thesis unfolding candidate_dates_list [OF ds, symmetric] by auto
qed

section \<open>Properties\<close>

lemma finish_dates:
  "List.map it_date (wr_items (finish_wake w new ra c)) = List.map it_date (ra_items ra)"
  by (cases c) (auto simp: finish_wake_def Let_def)

text \<open>C28: A wake-up that passes its gates and does not refuse a catch-up gap leaves a work item for every weekday from
  the armed start date to today: no trading date is forgotten, whatever was missed while the scheduler was down.\<close>

theorem no_date_forgotten:
  assumes "wake_up s w now confirmed only ign items cal = Inr r" "wake_gates s w now" "ss_start_date s = Some first"
    and "discover_items s now first (colombo_day now) confirmed items \<noteq> Inr None"
  shows "set (filter is_candidate_trading_day [first..colombo_day now]) \<subseteq> set (List.map it_date (wr_items r))"
proof -
  have gates: "ss_armed s" "ss_host s = Some (ww_host w)" "ww_synchronized w = Some True"
    "\<not> (case ww_last_time w of None \<Rightarrow> False | Some t \<Rightarrow> now < t - clock_tolerance)"
    using assms(2) by (auto simp: wake_gates_def not_less split: option.split)
  with assms(1,3,4) obtain found where
    found: "discover_items s now first (colombo_day now) confirmed items = Inr (Some found)"
    by (cases "discover_items s now first (colombo_day now) confirmed items") (auto simp: wake_up_def)
  have "List.map it_date (wr_items r) = List.map it_date found"
    using assms(1,3) gates found by (auto simp: wake_up_def Let_def finish_dates split: list.splits prod.splits)
  then show ?thesis using discovery_covers [OF found] by simp
qed

text \<open>C19: In every schedule that wake-ups and operator actions can produce, wake-ups that ended after any of their steps (a
  process that died, an exception) included, a trading date has one item; the item has no more capture starts than its limit
  (its armed number of attempts, eight when an operator may override), only inside its window, and automatic ones are spaced
  by the growing retry delay. Every call of P2, the only way CSE is contacted, was for a date with an item, and the calls for
  a date are among its recorded capture starts, each at the time of its start: whatever was interrupted, none goes uncounted.\<close>

theorem captures_bounded:
  assumes "schedules op items calls" "e \<in> set items"
  shows "distinct (List.map it_date items) \<and>
     (\<forall>c \<in> set calls. fst c \<in> it_date ` set items) \<and>
     subseq (calls_of calls (it_date e)) (List.map ie_scheduler_time (capture_starts (it_events e))) \<and>
     length (capture_starts (it_events e)) \<le> start_limit op (it_item e) \<and>
     (\<forall>t \<in> set (capture_starts (it_events e)).
        wi_due_at (it_item e) \<le> ie_scheduler_time t \<and> ie_scheduler_time t < wi_closes_at (it_item e)) \<and>
     (\<not> op \<longrightarrow> paced (wi_schedule (it_item e)) (rev (capture_starts (it_events e))))"
  using schedules_ok [OF assms(1)] assms(2)
  by (simp add: store_ok_def item_ok_def calls_covered_def start_times_def Let_def)

lemma wake_frame:
  assumes discovered: "discover_items s now first today confirmed items = Inr (Some found)" and e: "e \<in> set found"
  shows "e \<in> set items \<or> it_date e \<notin> it_date ` set items \<and> capture_starts (it_events e) = []"
proof (cases "today < first")
  case True
  then show ?thesis using assms by (simp add: discover_items_def)
next
  case False
  then show ?thesis using assms
    by (auto simp: discover_items_def bindR_eq_Inr Let_def new_item_def it_events_def it_date_def capture_starts_def
        capture_actions_def split: if_splits)
qed

definition untouched_by :: "item_entry list \<Rightarrow> item_entry \<Rightarrow> bool" where
  "untouched_by items e \<longleftrightarrow> it_date e \<notin> it_date ` set items \<and> capture_starts (it_events e) = [] \<or>
     (\<exists>e0 \<in> set items. it_item e0 = it_item e \<and> capture_starts (it_events e0) = capture_starts (it_events e))"

lemma reconciled_untouched:
  assumes "discover_items s now first today confirmed items = Inr (Some found)"
    and "e \<in> set (ra_items (reconcile_all w now ign only cal found))"
  shows "untouched_by items e"
proof -
  from list_all2_in_right [OF reconcile_all_items assms(2)] obtain e0 new where
    e0: "e0 \<in> set found" and e: "e = extend_item e0 new" "quiet_events new" by blast
  from wake_frame [OF assms(1) e0] e show ?thesis unfolding untouched_by_def by auto
qed

text \<open>C20: One wake-up starts a capture for at most one item, and only when the owner's settings are armed for this
  host, the clock is trusted, no block is unacknowledged, the approved User-Agent is configured, the spool is writable, and
  the day's request budget covers what this very item was decided to need: the minimum of a start, or the estimate of
  resuming the run that its decision and its running event name; a new run's own cap is within what the budget leaves. The
  captured item is one whose captures are as before the wake-up, was decided for capture as it stood, on what P2's runs of
  its date prove, and got the running event first. P2 is called for that item alone, once. Every other item's captures are
  as before.\<close>

theorem one_permitted_capture:
  assumes "wake_up s w now confirmed only ign items cal = Inr r"
  shows "(case wr_captured r of
       None \<Rightarrow> \<forall>e \<in> set (wr_items r). untouched_by items e
     | Some (d, co) \<Rightarrow> (\<forall>e \<in> set (wr_items r). it_date e \<noteq> d \<longrightarrow> untouched_by items e) \<and>
         (co_events co \<noteq> [] \<longrightarrow> wake_gates s w now \<and> (only = None \<or> only = Some d) \<and>
            (\<exists>e dec action cal'. it_date e = d \<and> untouched_by items e \<and> extend_item e (co_events co) \<in> set (wr_items r) \<and>
               dec = decide_item (it_item e) (prove_runs d (ww_runs w d)) now (it_events e) cal' (ww_blocks w) (ign \<and> only = Some d) \<and>
               pl_kind dec = ''capture'' \<and> pl_action dec = Some action \<and>
               hd (co_events co) = item_event_of now ''running'' action (pl_run_id dec) \<and> capture_permitted s w dec) \<and>
            (\<forall>n. co_max_requests co = Some n \<longrightarrow> ww_requests_today w + n \<le> ss_daily_request_budget s))) \<and>
     p2_calls (wr_steps r) = (case wr_captured r of None \<Rightarrow> [] | Some (d, co) \<Rightarrow> if co_events co = [] then [] else [(d, now)])"
  using assms
proof (cases rule: wake_up_cases)
  case unchanged
  then show ?thesis by (auto simp: untouched_by_def)
next
  case (bookkeeping found first)
  then show ?thesis using reconciled_untouched by auto
next
  case (capture found first e dec)
  define ra where "ra = reconcile_all w now ign only cal found"
  define co where "co = capture_one s w now (ra_calendar ra) e dec"
  have r: "r = finish_wake w (fresh_items items found) ra (Some (e, co))" using capture(6) by (simp add: ra_def co_def)
  have others: "\<forall>x \<in> set (wr_items r). it_date x \<noteq> it_date e \<longrightarrow> untouched_by items x"
    using reconciled_untouched [OF capture(3)] by (auto simp: r ra_def dest!: put_item_set)
  have dec: "decided_for w now ign only (e, dec)" and mem: "e \<in> set (ra_items ra)"
    using capture(4) reconcile_all_wants [of w now ign only cal found] by (auto simp: ra_def)
  then obtain cal' where decided: "dec = decide_item (it_item e) (prove_runs (it_date e) (ww_runs w (it_date e))) now (it_events e)
      cal' (ww_blocks w) (ign \<and> only = Some (it_date e))" "pl_kind dec = ''capture''" by (auto simp: decided_for_def)
  have before: "untouched_by items e" using reconciled_untouched [OF capture(3)] mem by (simp add: ra_def)
  have final: "extend_item e (co_events co) \<in> set (wr_items r)" using mem by (auto simp: r put_item_def)
  have calls: "p2_calls (wr_steps r) = p2_calls (co_steps co)" by (simp add: r ra_def)
  from capture_one_cases [OF decided_action [OF dec], of s w now "ra_calendar ra" e]
  consider "co_steps co = []" | action cap where "capture_permitted s w dec" "pl_action dec = Some action"
      "co = perform_capture w now (ra_calendar ra) e dec action cap" "\<forall>n. cap = Some n \<longrightarrow> n \<le> budget_left s w"
    unfolding co_def by blast
  then show ?thesis
  proof cases
    case 1
    then have "co_events co = []" by (simp add: co_events_def)
    then show ?thesis using 1 others calls by (simp add: r)
  next
    case (2 action cap)
    obtain rest where steps: "co_steps co = Wrote (it_date e) (item_event_of now ''running'' action (pl_run_id dec)) # CalledP2 (it_date e) now # rest"
        "p2_calls rest = []" using perform_capture_steps unfolding 2(3) by metis
    then have "co_events co \<noteq> []" "hd (co_events co) = item_event_of now ''running'' action (pl_run_id dec)"
      by (simp_all add: co_events_def)
    moreover have "\<forall>n. co_max_requests co = Some n \<longrightarrow> ww_requests_today w + n \<le> ss_daily_request_budget s"
      using 2(4) by (auto simp: 2(3) budget_left_def)
    moreover have "wr_captured r = Some (it_date e, co)" by (simp add: r)
    ultimately show ?thesis using others capture(1,5) before final decided 2(1,2) steps calls by auto
  qed
qed

text \<open>C27: Once its window has closed, reconciling an item settles it: it is closed for capture for good (succeeded,
  missed, not applicable, or finalised as it stands), unless its archived session first has to be derived again.\<close>

theorem closed_window_settles:
  assumes "wi_closes_at (it_item e) \<le> now" "\<not> rederives (prove_runs (it_date e) runs)"
  shows "\<not> is_open_item (extend_item e (rd_events (reconcile_item w runs now gate ign allow cal e)))"
  by (rule reconcile_settles [OF assms])

section \<open>A sample wake-up\<close>

text \<open>Monday 5 January 1970, 15:30 in Colombo: the armed scheduler finds the missing item, starts its capture, and P2
  answers that the run succeeded.\<close>

definition sample_settings :: settings where
  "sample_settings = disarmed\<lparr>ss_armed := True, ss_id := Some 1, ss_start_date := Some 4, ss_user_agent := Some ''ua'',
     ss_host := Some ''host'', ss_expected_requests := Some ''60'', ss_stop_conditions := [''block''],
     ss_note := ''armed by the owner''\<rparr>"

definition captured_run :: run_fact where
  "captured_run = \<lparr>rf_id = ''run-1'', rf_state = ''succeeded'', rf_a_captured = True, rf_e1 = True,
     rf_session_date = Some 4, rf_missed_record = False\<rparr>"

definition sample_world :: wake_world where
  "sample_world = \<lparr>ww_host = ''host'', ww_synchronized = Some True, ww_last_time = None, ww_runs = (\<lambda>_. []),
     ww_blocks = False, ww_user_agent = Some ''ua'', ww_spool_writable = True, ww_requests_today = 40,
     ww_summary = (\<lambda>_. \<lparr>cs_universe_status = ''archived'', cs_trade_summary_status = None, cs_absent_fallback = 0,
       cs_cross_check = 0\<rparr>),
     ww_attempts = \<lparr>al_universe = 3, al_trade_summary = 3, al_absent_fallback = 2, al_cross_check = 2\<rparr>,
     ww_reprocess = (\<lambda>_. None), ww_missed_run = (\<lambda>_. ''missed-1''),
     ww_capture = Some \<lparr>pr_run_id = ''run-1'', pr_state = ''succeeded'', pr_session = True\<rparr>,
     ww_runs_after = [captured_run], ww_blocks_after = False\<rparr>"

definition sample_now :: instant where
  "sample_now = colombo_moment 4 (local_time 15 30 0)"

definition sample_item :: item_entry where
  "sample_item = extend_item (new_item sample_settings sample_now ''catch_up'' 4)
     [item_event_of sample_now ''running'' ''start'' None, item_event_of sample_now ''succeeded'' ''start'' (Some ''run-1'')]"

lemma sample_wake:
  "\<exists>r. wake_up sample_settings sample_world sample_now None None False [] [] = Inr r \<and> wr_items r = [sample_item] \<and>
     p2_calls (wr_steps r) = [(4, sample_now)] \<and> wr_code r = exit_ok \<and> map_option fst (wr_captured r) = Some 4"
  by (rule exI [of _ "projr (wake_up sample_settings sample_world sample_now None None False [] [])"]) code_simp

lemma sample_gates: "wake_gates sample_settings sample_world sample_now" "ss_start_date sample_settings = Some 4"
  by (simp_all add: wake_gates_def sample_settings_def sample_world_def)

lemma sample_discovery:
  "discover_items sample_settings sample_now 4 (colombo_day sample_now) None [] \<noteq> Inr None \<and>
   filter is_candidate_trading_day [4..colombo_day sample_now] = [4]"
  by code_simp

lemma sample_schedule: "schedules False [sample_item] [(4, sample_now)]"
proof -
  obtain r where "wake_up sample_settings sample_world sample_now None None False [] [] = Inr r" "wr_items r = [sample_item]"
    "p2_calls (wr_steps r) = [(4, sample_now)]" using sample_wake by blast
  moreover have "p2_settles sample_world" by (simp add: p2_settles_def sample_world_def)
  ultimately show ?thesis using schedules.wakes [OF schedules.empty, of sample_world False False] by fastforce
qed

theorem no_date_forgotten_witness:
  "\<exists>r. wake_up sample_settings sample_world sample_now None None False [] [] = Inr r \<and> 4 \<in> set (List.map it_date (wr_items r))"
proof -
  obtain r where r: "wake_up sample_settings sample_world sample_now None None False [] [] = Inr r"
    using sample_wake by blast
  from no_date_forgotten [OF r sample_gates conjunct1 [OF sample_discovery]] sample_discovery r show ?thesis by auto
qed

text \<open>The process dies right after the call of P2: the item is left running, and the call is counted.\<close>

definition stranded_item :: item_entry where
  "stranded_item = extend_item (new_item sample_settings sample_now ''catch_up'' 4) [item_event_of sample_now ''running'' ''start'' None]"

lemma sample_death:
  "\<exists>r. wake_up sample_settings sample_world sample_now None None False [] [] = Inr r \<and> ended_after 3 r [] = ([stranded_item], [(4, sample_now)])"
  by (rule exI [of _ "projr (wake_up sample_settings sample_world sample_now None None False [] [])"]) code_simp

lemma stranded_schedule: "schedules False [stranded_item] [(4, sample_now)]"
proof -
  obtain r where "wake_up sample_settings sample_world sample_now None None False [] [] = Inr r"
    "ended_after 3 r [] = ([stranded_item], [(4, sample_now)])" using sample_death by blast
  moreover have "p2_settles sample_world" by (simp add: p2_settles_def sample_world_def)
  ultimately show ?thesis using schedules.dies [OF schedules.empty, of sample_world False False] by fastforce
qed

theorem captures_bounded_witness:
  "schedules False [stranded_item] [(4, sample_now)] \<and> ie_state (last (it_events stranded_item)) = ''running'' \<and>
   subseq [sample_now] (List.map ie_scheduler_time (capture_starts (it_events stranded_item))) \<and>
   schedules False [sample_item] [(4, sample_now)] \<and> length (capture_starts (it_events sample_item)) = 1 \<and>
   length (capture_starts (it_events sample_item)) \<le> start_limit False (it_item sample_item) \<and>
   start_limit False (it_item sample_item) = 4"
proof -
  have "length (capture_starts (it_events sample_item)) = 1 \<and> start_limit False (it_item sample_item) = 4" by code_simp
  moreover have "ie_state (last (it_events stranded_item)) = ''running''" "it_date stranded_item = 4" by (simp_all add: stranded_item_def)
  ultimately show ?thesis
    using captures_bounded [OF sample_schedule, of sample_item] captures_bounded [OF stranded_schedule, of stranded_item]
      sample_schedule stranded_schedule by (simp add: calls_of_def)
qed

theorem one_permitted_capture_witness:
  "\<exists>r co. wake_up sample_settings sample_world sample_now None None False [] [] = Inr r \<and> wr_captured r = Some (4, co) \<and>
     co_events co \<noteq> [] \<and> wake_gates sample_settings sample_world sample_now \<and> p2_calls (wr_steps r) = [(4, sample_now)] \<and>
     (\<exists>dec. pl_action dec = Some ''start'' \<and> capture_permitted sample_settings sample_world dec)"
proof -
  obtain r where r: "wake_up sample_settings sample_world sample_now None None False [] [] = Inr r"
    and captured: "map_option fst (wr_captured r) = Some 4" and calls: "p2_calls (wr_steps r) = [(4, sample_now)]"
    and items: "wr_items r = [sample_item]" using sample_wake by blast
  obtain co where co: "wr_captured r = Some (4, co)" using captured by auto
  note held = one_permitted_capture [OF r]
  then have started: "co_events co \<noteq> []" using calls co by (auto split: if_splits)
  then obtain e dec action where e: "extend_item e (co_events co) = sample_item" "pl_action dec = Some action"
      "hd (co_events co) = item_event_of sample_now ''running'' action (pl_run_id dec)" "capture_permitted sample_settings sample_world dec"
      "untouched_by [] e" and gates: "wake_gates sample_settings sample_world sample_now"
    using held co items by auto
  have "hd (co_events co) \<in> set (it_events sample_item)" using started by (simp flip: e(1))
  then have "action = ''start''" unfolding e(3) by (auto simp: sample_item_def item_event_of_def new_item_def it_events_def extend_item_def)
  then show ?thesis using r co started gates calls e(2,4) by auto
qed

theorem closed_window_settles_witness:
  "\<not> is_open_item (extend_item (new_item disarmed 0 ''catch_up'' 4) (rd_events (reconcile_item sample_world []
      (colombo_moment 5 0) False False True [] (new_item disarmed 0 ''catch_up'' 4))))"
proof (rule closed_window_settles)
  show "wi_closes_at (it_item (new_item disarmed 0 ''catch_up'' 4)) \<le> colombo_moment 5 0" by code_simp
  show "\<not> rederives (prove_runs (it_date (new_item disarmed 0 ''catch_up'' 4)) [])"
    by (simp add: rederives_def prove_runs_def last_of_def)
qed

end
