(* ===== verification/Lifecycle.thy ===== *)
theory Lifecycle
  imports Prelude
begin

text \<open>
  The work items of the historical backfill: their state machine (\<open>financial_backfill/states.py\<close>) and the ledger
  operations that move them (\<open>financial_backfill/store.py\<close>, \<open>backfill_transport/recovery.py\<close>). The database's guard
  enforces the same table on every event, so an appended event is checked against it. Texts, details, evidence
  references other than the lease, and SQL are not modelled.
\<close>

section \<open>The state machine\<close>

definition discovery_kinds :: "string list" where
  "discovery_kinds = [''feed_window'', ''listing'']"

definition other_kinds :: "string list" where
  "other_kinds = [''link_pass'', ''validate'', ''reconcile'', ''audit'']"

definition cse_kinds :: "string list" where
  "cse_kinds = [''feed_window'', ''listing'', ''document'']"

definition kinds :: "string list" where
  "kinds = cse_kinds @ other_kinds"

definition in_flight :: "string list" where
  "in_flight = [''requesting'', ''processing'']"

definition window_exclusions :: "string list" where
  "window_exclusions = [''out_of_window'', ''window_undetermined'', ''no_document'', ''invalid_path'']"

definition requeue_reason_min :: nat where
  "requeue_reason_min = 10"

definition no_state :: string where
  "no_state = ''''"

type_synonym transition = "string \<times> string \<times> string"

definition discovery_transitions :: "transition list" where
  "discovery_transitions =
     [(no_state, ''pending'', ''create''),
      (''pending'', ''requesting'', ''claim''), (''retry_wait'', ''requesting'', ''claim''),
      (''requesting'', ''succeeded'', ''record''), (''requesting'', ''partial'', ''record''),
      (''requesting'', ''failed'', ''record''), (''requesting'', ''retry_wait'', ''record''),
      (''requesting'', ''blocked'', ''record''), (''retry_wait'', ''failed'', ''record''),
      (''requesting'', ''abandoned'', ''expire''),
      (''abandoned'', ''pending'', ''promote''), (''abandoned'', ''succeeded'', ''promote''),
      (''abandoned'', ''partial'', ''promote''), (''blocked'', ''pending'', ''resume''),
      (''succeeded'', ''pending'', ''requeue''), (''partial'', ''pending'', ''requeue''),
      (''failed'', ''pending'', ''requeue'')]"

definition document_transitions :: "transition list" where
  "document_transitions =
     [(no_state, ''discovered'', ''create''), (no_state, ''excluded'', ''create''),
      (''discovered'', ''pending'', ''promote''), (''discovered'', ''excluded'', ''record''),
      (''pending'', ''requesting'', ''claim''), (''retry_wait'', ''requesting'', ''claim''),
      (''requesting'', ''processing'', ''record''), (''requesting'', ''retry_wait'', ''record''),
      (''requesting'', ''retrieval_failed'', ''record''), (''requesting'', ''blocked'', ''record''),
      (''requesting'', ''cleanup_failed'', ''record''),
      (''processing'', ''persisted'', ''record''), (''processing'', ''consumer_failed'', ''record''),
      (''processing'', ''cleanup_failed'', ''record''), (''processing'', ''retry_wait'', ''record''),
      (''processing'', ''failed'', ''record''),
      (''retry_wait'', ''retrieval_failed'', ''record''), (''retry_wait'', ''failed'', ''record''),
      (''requesting'', ''abandoned'', ''expire''), (''processing'', ''abandoned'', ''expire''),
      (''abandoned'', ''pending'', ''promote''),
      (''discovered'', ''persisted'', ''promote''), (''pending'', ''persisted'', ''promote''),
      (''retry_wait'', ''persisted'', ''promote''), (''abandoned'', ''persisted'', ''promote''),
      (''persisted'', ''validated'', ''promote''), (''validated'', ''reconciled'', ''promote''),
      (''persisted'', ''needs_validation'', ''promote''), (''validated'', ''needs_validation'', ''promote''),
      (''reconciled'', ''needs_validation'', ''promote''), (''needs_validation'', ''validated'', ''promote''),
      (''blocked'', ''pending'', ''resume''),
      (''excluded'', ''pending'', ''requeue''), (''retrieval_failed'', ''pending'', ''requeue''),
      (''consumer_failed'', ''pending'', ''requeue''), (''cleanup_failed'', ''pending'', ''requeue''),
      (''failed'', ''pending'', ''requeue'')]"

definition other_transitions :: "transition list" where
  "other_transitions =
     [(no_state, ''pending'', ''create''), (''pending'', ''succeeded'', ''record''), (''pending'', ''failed'', ''record''),
      (''succeeded'', ''pending'', ''requeue''), (''failed'', ''pending'', ''requeue'')]"

definition transitions :: "string \<Rightarrow> transition list" where
  "transitions kind =
     (if kind \<in> set discovery_kinds then discovery_transitions
      else if kind = ''document'' then document_transitions
      else if kind \<in> set other_kinds then other_transitions else [])"

definition states_of :: "string \<Rightarrow> string list" where
  "states_of kind = remdups (map (\<lambda>(f, t, a). t) (transitions kind))"

definition first_states :: "string \<Rightarrow> string list" where
  "first_states kind = remdups (map (\<lambda>(f, t, a). t) (filter (\<lambda>(f, t, a). f = no_state) (transitions kind)))"

definition final_states_of :: "string \<Rightarrow> string list" where
  "final_states_of kind =
     filter (\<lambda>s. \<not> list_ex (\<lambda>(f, t, a). f = s \<and> a \<noteq> ''requeue'') (transitions kind)) (states_of kind)"

definition transition_allowed :: "string \<Rightarrow> string \<Rightarrow> string \<Rightarrow> string \<Rightarrow> bool" where
  "transition_allowed kind f t a \<longleftrightarrow> (f, t, a) \<in> set (transitions kind)"

definition text_or_empty :: "string option \<Rightarrow> string" where
  "text_or_empty reason = (case reason of None \<Rightarrow> '''' | Some s \<Rightarrow> s)"

definition check_transition :: "string \<Rightarrow> string \<Rightarrow> string \<Rightarrow> string \<Rightarrow> string option \<Rightarrow> unit res" where
  "check_transition kind f t a reason =
     guardR (\<not> transition_allowed kind f t a) IllegalTransition
     (guardR (t = ''excluded'' \<and> reason \<notin> Some ` set window_exclusions) IllegalTransition
     (guardR (a = ''requeue'' \<and> length (strip (text_or_empty reason)) < requeue_reason_min) IllegalTransition
     (Inr ())))"

definition next_states :: "string \<Rightarrow> string \<Rightarrow> (string \<times> string) list" where
  "next_states kind s = map snd (filter (\<lambda>(f, t, a). f = s) (transitions kind))"

section \<open>The ledger\<close>

text \<open>An event with the lease it names. An item's state is its latest event's.\<close>

record ledger_event =
  le_state :: string
  le_action :: string
  le_reason :: "string option"
  le_lease :: "int option"

record ledger_item =
  li_kind :: string
  li_key :: string
  li_first :: ledger_event
  li_later :: "ledger_event list"

record ledger_attempt =
  at_id :: int
  at_item :: string
  at_no :: int
  at_lease :: int

text \<open>The rows the transport writes: items, request attempts (written before each request), the outcome class of an
  attempt (written once), the blocks, and the leases with their states.\<close>

record ledger =
  lg_items :: "ledger_item list"
  lg_attempts :: "ledger_attempt list"
  lg_outcomes :: "(int \<times> string) list"
  lg_blocks :: "int list"
  lg_leases :: "(int \<times> string) list"

definition li_events :: "ledger_item \<Rightarrow> ledger_event list" where
  "li_events i = li_first i # li_later i"

definition li_current :: "ledger_item \<Rightarrow> ledger_event" where
  "li_current i = last (li_events i)"

definition ledger_error :: exc where
  "ledger_error = Refused ''ledger_error''"

definition item_named :: "ledger \<Rightarrow> string \<Rightarrow> ledger_item option" where
  "item_named l key = find (\<lambda>i. li_key i = key) (lg_items l)"

definition default_first_state :: "string \<Rightarrow> string" where
  "default_first_state kind = (if kind = ''document'' then ''discovered'' else ''pending'')"

definition ensure_item ::
  "string \<Rightarrow> string \<Rightarrow> string option \<Rightarrow> string option \<Rightarrow> ledger \<Rightarrow> (ledger \<times> ledger_item \<times> bool) res" where
  "ensure_item kind key first reason l =
     (let state = (case first of None \<Rightarrow> default_first_state kind
                   | Some s \<Rightarrow> if s = [] then default_first_state kind else s) in
      bindR (check_transition kind no_state state ''create'' reason) (\<lambda>_.
        case item_named l key of
          None \<Rightarrow>
            let i = \<lparr>li_kind = kind, li_key = key,
                     li_first = \<lparr>le_state = state, le_action = ''create'', le_reason = reason, le_lease = None\<rparr>,
                     li_later = []\<rparr>
            in Inr (l\<lparr>lg_items := lg_items l @ [i]\<rparr>, i, True)
        | Some i \<Rightarrow> guardR (li_kind i \<noteq> kind) ledger_error (Inr (l, i, False))))"

definition add_event :: "ledger_event \<Rightarrow> ledger_item \<Rightarrow> ledger_item" where
  "add_event e i = i\<lparr>li_later := li_later i @ [e]\<rparr>"

definition append_event :: "string \<Rightarrow> ledger_event \<Rightarrow> ledger \<Rightarrow> ledger res" where
  "append_event key e l =
     (case item_named l key of
        None \<Rightarrow> Inl ledger_error
      | Some i \<Rightarrow>
         bindR (check_transition (li_kind i) (le_state (li_current i)) (le_state e) (le_action e) (le_reason e)) (\<lambda>_.
           Inr (l\<lparr>lg_items := map (\<lambda>x. if li_key x = key then add_event e x else x) (lg_items l)\<rparr>)))"

definition claim_item :: "string \<Rightarrow> int \<Rightarrow> string option \<Rightarrow> ledger \<Rightarrow> ledger res" where
  "claim_item key lease reason =
     append_event key \<lparr>le_state = ''requesting'', le_action = ''claim'', le_reason = reason, le_lease = Some lease\<rparr>"

definition claims_since_requeue :: "ledger_item \<Rightarrow> nat" where
  "claims_since_requeue i =
     length (filter (\<lambda>e. le_action e = ''claim'') (takeWhile (\<lambda>e. le_action e \<noteq> ''requeue'') (rev (li_events i))))"

section \<open>Attempts and outcomes\<close>

definition attempts_of :: "ledger \<Rightarrow> string \<Rightarrow> ledger_attempt list" where
  "attempts_of l key = filter (\<lambda>a. at_item a = key) (lg_attempts l)"

text \<open>\<open>attempt_id\<close> is the identity the database assigns.\<close>

definition record_intent :: "int \<Rightarrow> string \<Rightarrow> int \<Rightarrow> ledger \<Rightarrow> ledger \<times> ledger_attempt" where
  "record_intent attempt_id key lease l =
     (let a = \<lparr>at_id = attempt_id, at_item = key, at_no = fold max (map at_no (attempts_of l key)) 0 + 1, at_lease = lease\<rparr>
      in (l\<lparr>lg_attempts := lg_attempts l @ [a]\<rparr>, a))"

text \<open>The primary key of the outcomes: a second outcome of an attempt is refused.\<close>

definition insert_outcome :: "int \<Rightarrow> string \<Rightarrow> bool \<Rightarrow> ledger \<Rightarrow> ledger res" where
  "insert_outcome attempt_id outcome_class block l =
     guardR (attempt_id \<notin> set (map at_id (lg_attempts l)) \<or> attempt_id \<in> set (map fst (lg_outcomes l))) ledger_error
     (Inr (l\<lparr>lg_outcomes := lg_outcomes l @ [(attempt_id, outcome_class)],
             lg_blocks := (if block then lg_blocks l @ [attempt_id] else lg_blocks l)\<rparr>))"

definition open_attempts :: "ledger \<Rightarrow> int \<Rightarrow> int list" where
  "open_attempts l lease =
     map at_id (filter (\<lambda>a. at_lease a = lease \<and> at_id a \<notin> set (map fst (lg_outcomes l))) (lg_attempts l))"

section \<open>Expiry of a dead slice\<close>

text \<open>What the lease's journal and the spool hold of an attempt: nothing, a verified record with its outcome class and
  whether it is a block, or a record that does not verify.\<close>

datatype spooled = Unspooled | Spooled string bool | Corrupt

definition recovery_error :: exc where
  "recovery_error = Refused ''recovery_error''"

fun close_attempts :: "(int \<Rightarrow> spooled) \<Rightarrow> int list \<Rightarrow> ledger \<Rightarrow> ledger res" where
  "close_attempts spool [] l = Inr l"
| "close_attempts spool (a # as) l =
     bindR (case spool a of
              Unspooled \<Rightarrow> insert_outcome a ''unrecorded'' False l
            | Spooled cls block \<Rightarrow> insert_outcome a cls block l
            | Corrupt \<Rightarrow> Inl recovery_error)
       (close_attempts spool as)"

definition held_items :: "ledger \<Rightarrow> int \<Rightarrow> string list" where
  "held_items l lease =
     map li_key (filter (\<lambda>i. le_lease (li_current i) = Some lease \<and> le_state (li_current i) \<in> set in_flight) (lg_items l))"

fun abandon_items :: "int \<Rightarrow> string list \<Rightarrow> ledger \<Rightarrow> ledger res" where
  "abandon_items lease [] l = Inr l"
| "abandon_items lease (key # keys) l =
     bindR (append_event key \<lparr>le_state = ''abandoned'', le_action = ''expire'', le_reason = Some ''slice ended'',
         le_lease = Some lease\<rparr> l) (abandon_items lease keys)"

text \<open>One transaction; \<open>None\<close> when the lease is not active any more.\<close>

definition expire_one :: "int \<Rightarrow> (int \<Rightarrow> spooled) \<Rightarrow> ledger \<Rightarrow> ledger option res" where
  "expire_one lease spool l =
     (if (lease, ''active'') \<notin> set (lg_leases l) then Inr None
      else (let l1 = l\<lparr>lg_leases := map (\<lambda>(i, s). if i = lease then (i, ''expired'') else (i, s)) (lg_leases l)\<rparr> in
        bindR (close_attempts spool (open_attempts l1 lease) l1) (\<lambda>l2.
          bindR (abandon_items lease (held_items l2 lease) l2) (\<lambda>l3. Inr (Some l3)))))"

end
