(* ===== verification/LifecycleFacts.thy ===== *)
theory LifecycleFacts
  imports Lifecycle
begin

text \<open>
  Facts of the backfill ledger: every item's history follows the transition table, a persisted document is never
  fetched again, and the expiry of a dead slice closes exactly what the slice left open.
\<close>

lemmas transition_tables = transitions_def discovery_transitions_def document_transitions_def other_transitions_def
  discovery_kinds_def other_kinds_def no_state_def

section \<open>Legal histories\<close>

fun legal_from :: "string \<Rightarrow> string \<Rightarrow> ledger_event list \<Rightarrow> bool" where
  "legal_from kind s [] \<longleftrightarrow> True"
| "legal_from kind s (e # es) \<longleftrightarrow>
     check_transition kind s (le_state e) (le_action e) (le_reason e) = Inr () \<and> legal_from kind (le_state e) es"

definition legal_item :: "ledger_item \<Rightarrow> bool" where
  "legal_item i \<longleftrightarrow> legal_from (li_kind i) no_state (li_events i)"

lemma legal_from_append:
  "legal_from kind s (xs @ [e]) \<longleftrightarrow> legal_from kind s xs \<and>
     check_transition kind (if xs = [] then s else le_state (last xs)) (le_state e) (le_action e) (le_reason e) = Inr ()"
  by (induction kind s xs rule: legal_from.induct) auto

lemma legal_from_split:
  "legal_from kind s (xs @ ys) \<longleftrightarrow>
     legal_from kind s xs \<and> legal_from kind (if xs = [] then s else le_state (last xs)) ys"
  by (induction kind s xs rule: legal_from.induct) auto

lemma check_transition_ok:
  "check_transition kind f t a reason = Inr () \<longleftrightarrow> transition_allowed kind f t a \<and>
     (t = ''excluded'' \<longrightarrow> reason \<in> Some ` set window_exclusions) \<and>
     (a = ''requeue'' \<longrightarrow> requeue_reason_min \<le> length (strip (text_or_empty reason)))"
  by (auto simp: check_transition_def guardR_def)

lemma li_events_add [simp]: "li_events (add_event e i) = li_events i @ [e]" "li_current (add_event e i) = e"
  "li_key (add_event e i) = li_key i" "li_kind (add_event e i) = li_kind i"
  by (simp_all add: li_events_def add_event_def li_current_def)

lemma li_events_nonempty [simp]: "li_events i \<noteq> []"
  by (simp add: li_events_def)

lemma legal_add_event:
  "legal_item (add_event e i) \<longleftrightarrow> legal_item i \<and>
     check_transition (li_kind i) (le_state (li_current i)) (le_state e) (le_action e) (le_reason e) = Inr ()"
  by (simp add: legal_item_def legal_from_append li_current_def)

section \<open>Reachable ledgers\<close>

text \<open>The ledgers the operations reach. Appending an event covers the claims, records, promotions, resumptions and
  re-queues of every stage; a lease is opened under a new id.\<close>

inductive ledgers :: "ledger \<Rightarrow> bool" where
  empty: "ledgers \<lparr>lg_items = [], lg_attempts = [], lg_outcomes = [], lg_blocks = [], lg_leases = []\<rparr>"
| ensures: "ledgers l \<Longrightarrow> ensure_item kind key first reason l = Inr (l', i, created) \<Longrightarrow> ledgers l'"
| appends: "ledgers l \<Longrightarrow> append_event key e l = Inr l' \<Longrightarrow> ledgers l'"
| intends: "ledgers l \<Longrightarrow> n \<notin> set (map at_id (lg_attempts l)) \<Longrightarrow> record_intent n key lease l = (l', a) \<Longrightarrow> ledgers l'"
| concludes: "ledgers l \<Longrightarrow> insert_outcome n cls block l = Inr l' \<Longrightarrow> ledgers l'"
| leases: "ledgers l \<Longrightarrow> lease \<notin> set (map fst (lg_leases l)) \<Longrightarrow>
    ledgers (l\<lparr>lg_leases := lg_leases l @ [(lease, ''active'')]\<rparr>)"
| expires: "ledgers l \<Longrightarrow> expire_one lease spool l = Inr (Some l') \<Longrightarrow> ledgers l'"

definition ledger_ok :: "ledger \<Rightarrow> bool" where
  "ledger_ok l \<longleftrightarrow> distinct (map li_key (lg_items l)) \<and> (\<forall>i \<in> set (lg_items l). legal_item i) \<and>
     distinct (map at_id (lg_attempts l)) \<and> distinct (map fst (lg_outcomes l)) \<and>
     set (map fst (lg_outcomes l)) \<subseteq> set (map at_id (lg_attempts l)) \<and> distinct (map fst (lg_leases l))"

lemma item_named_Some: "item_named l key = Some i \<Longrightarrow> i \<in> set (lg_items l) \<and> li_key i = key"
  by (auto simp: item_named_def find_Some_iff)

lemma item_named_None: "item_named l key = None \<longleftrightarrow> key \<notin> set (map li_key (lg_items l))"
  by (auto simp: item_named_def find_None_iff)

lemma item_named_of:
  assumes "distinct (map li_key (lg_items l))" "i \<in> set (lg_items l)"
  shows "item_named l (li_key i) = Some i"
proof -
  obtain j where "item_named l (li_key i) = Some j" using item_named_None assms(2) by (cases "item_named l (li_key i)") auto
  moreover from item_named_Some [OF this] have "j = i" using assms by (auto simp: distinct_map inj_on_def)
  ultimately show ?thesis by simp
qed

lemma append_event_Inr:
  "append_event key e l = Inr l' \<longleftrightarrow>
     (\<exists>i. item_named l key = Some i \<and>
        check_transition (li_kind i) (le_state (li_current i)) (le_state e) (le_action e) (le_reason e) = Inr () \<and>
        l' = l\<lparr>lg_items := map (\<lambda>x. if li_key x = key then add_event e x else x) (lg_items l)\<rparr>)"
  by (auto simp: append_event_def bindR_eq_Inr split: option.split)

lemma append_keys [simp]: "li_key \<circ> (\<lambda>x. if li_key x = key then add_event e x else x) = li_key"
  by (rule ext) simp

lemma append_event_ok:
  assumes ok: "ledger_ok l" and step: "append_event key e l = Inr l'"
  shows "ledger_ok l'"
proof -
  from step obtain i where i: "item_named l key = Some i"
    and check: "check_transition (li_kind i) (le_state (li_current i)) (le_state e) (le_action e) (le_reason e) = Inr ()"
    and l': "l' = l\<lparr>lg_items := map (\<lambda>x. if li_key x = key then add_event e x else x) (lg_items l)\<rparr>"
    unfolding append_event_Inr by blast
  have "x = i" if "x \<in> set (lg_items l)" "li_key x = key" for x
    using item_named_of [of l x] ok that i by (simp add: ledger_ok_def)
  then have "\<forall>x \<in> set (lg_items l'). legal_item x"
    using ok check by (auto simp: l' ledger_ok_def legal_add_event)
  moreover have "map li_key (lg_items l') = map li_key (lg_items l)" by (simp add: l')
  ultimately show ?thesis using ok by (simp add: ledger_ok_def l')
qed

lemma ensure_item_ok:
  assumes ok: "ledger_ok l" and step: "ensure_item kind key first reason l = Inr (l', i, created)"
  shows "ledger_ok l'"
proof (cases "item_named l key")
  case None
  have "key \<notin> set (map li_key (lg_items l))" by (rule item_named_None [THEN iffD1, OF None])
  moreover from step None obtain i where "l' = l\<lparr>lg_items := lg_items l @ [i]\<rparr>" "li_key i = key" "legal_item i"
    by (auto simp: ensure_item_def Let_def bindR_eq_Inr legal_item_def li_events_def)
  ultimately show ?thesis using ok by (simp add: ledger_ok_def)
next
  case (Some j)
  then show ?thesis using assms by (auto simp: ensure_item_def Let_def bindR_eq_Inr guardR_def split: if_splits)
qed

lemma insert_outcome_Inr:
  "insert_outcome n cls block l = Inr l' \<longleftrightarrow> n \<in> set (map at_id (lg_attempts l)) \<and> n \<notin> set (map fst (lg_outcomes l)) \<and>
     l' = l\<lparr>lg_outcomes := lg_outcomes l @ [(n, cls)], lg_blocks := (if block then lg_blocks l @ [n] else lg_blocks l)\<rparr>"
  by (auto simp: insert_outcome_def guardR_def)

lemma insert_outcome_ok: "ledger_ok l \<Longrightarrow> insert_outcome n cls block l = Inr l' \<Longrightarrow> ledger_ok l'"
  unfolding insert_outcome_Inr by (elim conjE) (simp add: ledger_ok_def)

lemma close_attempts_ok: "ledger_ok l \<Longrightarrow> close_attempts spool as l = Inr l' \<Longrightarrow> ledger_ok l'"
proof (induction spool as l rule: close_attempts.induct)
  case (2 spool a as l)
  then show ?case by (auto simp: bindR_eq_Inr dest: insert_outcome_ok split: spooled.splits)
qed simp

lemma abandon_items_ok: "ledger_ok l \<Longrightarrow> abandon_items lease keys l = Inr l' \<Longrightarrow> ledger_ok l'"
proof (induction lease keys l rule: abandon_items.induct)
  case (2 lease key keys l)
  then show ?case by (auto simp: bindR_eq_Inr dest: append_event_ok)
qed simp

lemma expired_leases [simp]: "fst \<circ> (\<lambda>(i, s). if i = lease then (i, ''expired'') else (i, s)) = fst"
  by (rule ext) auto

lemma expire_one_ok:
  assumes "ledger_ok l" "expire_one lease spool l = Inr (Some l')"
  shows "ledger_ok l'"
proof -
  define l1 where "l1 = l\<lparr>lg_leases := map (\<lambda>(i, s). if i = lease then (i, ''expired'') else (i, s)) (lg_leases l)\<rparr>"
  from assms(2) obtain l2 where "close_attempts spool (open_attempts l1 lease) l1 = Inr l2"
    and "abandon_items lease (held_items l2 lease) l2 = Inr l'"
    by (auto simp: expire_one_def Let_def bindR_eq_Inr l1_def split: if_splits)
  moreover have "ledger_ok l1" using assms(1) unfolding ledger_ok_def l1_def by simp
  ultimately show ?thesis using close_attempts_ok abandon_items_ok by blast
qed

lemma ledgers_ok: "ledgers l \<Longrightarrow> ledger_ok l"
proof (induction rule: ledgers.induct)
  case empty
  then show ?case by (simp add: ledger_ok_def)
next
  case (intends l n key lease l' a)
  then have "l' = l\<lparr>lg_attempts := lg_attempts l @ [a]\<rparr>" "at_id a = n" by (auto simp: record_intent_def Let_def)
  then show ?case using intends by (simp add: ledger_ok_def subset_insertI2)
next
  case (leases l lease)
  then show ?case by (simp add: ledger_ok_def)
qed (rule ensure_item_ok append_event_ok insert_outcome_ok expire_one_ok; assumption)+

section \<open>What the table implies\<close>

text \<open>The states of a document whose evidence is stored. No transition leaves them.\<close>

definition retained :: "string list" where
  "retained = [''persisted'', ''validated'', ''reconciled'', ''needs_validation'']"

lemma retained_closed:
  "list_all (\<lambda>(f, t, a). f \<in> set retained \<longrightarrow> t \<in> set retained \<and> a = ''promote'') (transitions ''document'')"
  by code_simp

lemma requesting_by_claim:
  "list_all (\<lambda>kind. list_all (\<lambda>(f, t, a). (t = ''requesting'' \<longleftrightarrow> a = ''claim'') \<and>
      (t = ''processing'' \<longrightarrow> f = ''requesting'')) (transitions kind)) kinds"
  by code_simp

lemma retained_step:
  assumes "check_transition ''document'' f t a reason = Inr ()" "f \<in> set retained"
  shows "t \<in> set retained \<and> a = ''promote''"
  using assms retained_closed by (auto simp: check_transition_ok transition_allowed_def list_all_iff)

lemma retained_from:
  "legal_from ''document'' s es \<Longrightarrow> s \<in> set retained \<Longrightarrow>
     \<forall>e \<in> set es. le_state e \<in> set retained \<and> le_action e = ''promote''"
proof (induction es arbitrary: s)
  case (Cons e es)
  then show ?case using retained_step [of s "le_state e" "le_action e" "le_reason e"] by auto
qed simp

lemma final_step:
  assumes "check_transition kind f t a reason = Inr ()" "f \<in> set (final_states_of kind)"
  shows "a = ''requeue'' \<and> requeue_reason_min \<le> length (strip (text_or_empty reason))"
  using assms by (auto simp: check_transition_ok transition_allowed_def final_states_of_def list_ex_iff)

definition settled :: "string \<Rightarrow> string list" where
  "settled kind = final_states_of kind @ retained"

text \<open>A chain of at most \<open>n\<close> transitions without a re-queue leads from the state into one of \<open>ends\<close>.\<close>

fun leads_to :: "string list \<Rightarrow> (string \<times> string \<times> string) list \<Rightarrow> nat \<Rightarrow> string \<Rightarrow> bool" where
  "leads_to ends steps 0 s = (s \<in> set ends)"
| "leads_to ends steps (Suc n) s =
     (s \<in> set ends \<or> list_ex (\<lambda>(f, t, a). f = s \<and> a \<noteq> ''requeue'' \<and> leads_to ends steps n t) steps)"

definition settles :: "string \<Rightarrow> bool" where
  "settles kind = list_all (leads_to (settled kind) (transitions kind) 3) (states_of kind)"

lemma states_settle: "list_all settles kinds"
  by code_simp

section \<open>Expiry\<close>

definition outcome_of :: "spooled \<Rightarrow> string" where
  "outcome_of s = (case s of Spooled cls block \<Rightarrow> cls | _ \<Rightarrow> ''unrecorded'')"

lemma close_attempts_total:
  assumes "distinct as" "set as \<subseteq> set (map at_id (lg_attempts l))" "set as \<inter> set (map fst (lg_outcomes l)) = {}"
    and "\<forall>a \<in> set as. spool a \<noteq> Corrupt"
  shows "\<exists>l'. close_attempts spool as l = Inr l' \<and> lg_items l' = lg_items l \<and> lg_attempts l' = lg_attempts l \<and>
     lg_leases l' = lg_leases l \<and> lg_outcomes l' = lg_outcomes l @ map (\<lambda>a. (a, outcome_of (spool a))) as"
  using assms
proof (induction as arbitrary: l)
  case Nil
  then show ?case by simp
next
  case (Cons a as)
  define block where "block = (case spool a of Spooled cls b \<Rightarrow> b | _ \<Rightarrow> False)"
  define l1 where "l1 = l\<lparr>lg_outcomes := lg_outcomes l @ [(a, outcome_of (spool a))],
      lg_blocks := (if block then lg_blocks l @ [a] else lg_blocks l)\<rparr>"
  have "insert_outcome a (outcome_of (spool a)) block l = Inr l1"
    using Cons.prems unfolding insert_outcome_Inr l1_def by simp
  then have step: "close_attempts spool (a # as) l = close_attempts spool as l1"
    using Cons.prems(4) by (cases "spool a") (auto simp: outcome_of_def block_def)
  have "\<exists>l'. close_attempts spool as l1 = Inr l' \<and> lg_items l' = lg_items l1 \<and> lg_attempts l' = lg_attempts l1 \<and>
      lg_leases l' = lg_leases l1 \<and> lg_outcomes l' = lg_outcomes l1 @ map (\<lambda>a. (a, outcome_of (spool a))) as"
    by (rule Cons.IH) (use Cons.prems in \<open>auto simp: l1_def\<close>)
  then show ?case unfolding step by (auto simp: l1_def)
qed

lemma expire_allowed:
  assumes "legal_item i" "le_state (li_current i) \<in> set in_flight"
  shows "check_transition (li_kind i) (le_state (li_current i)) ''abandoned'' ''expire'' reason = Inr ()"
proof -
  have "li_events i = butlast (li_events i) @ [li_current i]"
    by (simp add: li_current_def del: append_butlast_last_id) (simp add: li_events_def)
  then obtain f where "check_transition (li_kind i) f (le_state (li_current i)) (le_action (li_current i))
      (le_reason (li_current i)) = Inr ()"
    using assms(1) unfolding legal_item_def by (metis legal_from_append)
  then have "(f, le_state (li_current i), le_action (li_current i)) \<in> set (transitions (li_kind i))"
    by (simp add: check_transition_ok transition_allowed_def)
  moreover have "list_all (\<lambda>(f, t, a). t \<in> set in_flight \<longrightarrow> (t, ''abandoned'', ''expire'') \<in> set (transitions kind))
      (transitions kind)" for kind
    unfolding transition_tables in_flight_def by simp
  ultimately show ?thesis using assms(2)
    by (fastforce simp: check_transition_ok transition_allowed_def list_all_iff)
qed

definition abandonment :: "int \<Rightarrow> ledger_event" where
  "abandonment lease = \<lparr>le_state = ''abandoned'', le_action = ''expire'', le_reason = Some ''slice ended'', le_lease = Some lease\<rparr>"

lemma abandon_items_total:
  assumes "distinct keys" "distinct (map li_key (lg_items l))"
    and "\<forall>key \<in> set keys. \<exists>i \<in> set (lg_items l). li_key i = key \<and> legal_item i \<and> le_state (li_current i) \<in> set in_flight"
  shows "abandon_items lease keys l =
     Inr (l\<lparr>lg_items := map (\<lambda>i. if li_key i \<in> set keys then add_event (abandonment lease) i else i) (lg_items l)\<rparr>)"
  using assms
proof (induction keys arbitrary: l)
  case Nil
  then show ?case by simp
next
  case (Cons key keys)
  define l1 where "l1 = l\<lparr>lg_items := map (\<lambda>x. if li_key x = key then add_event (abandonment lease) x else x) (lg_items l)\<rparr>"
  obtain i where i: "i \<in> set (lg_items l)" "li_key i = key" "legal_item i" "le_state (li_current i) \<in> set in_flight"
    using Cons.prems(3) by auto
  have "append_event key (abandonment lease) l = Inr l1"
    unfolding append_event_Inr l1_def
    using item_named_of [OF Cons.prems(2) i(1)] expire_allowed [OF i(3,4)] i(2) by (simp add: abandonment_def)
  then have step: "abandon_items lease (key # keys) l = abandon_items lease keys l1"
    by (simp add: abandonment_def)
  have "\<exists>i \<in> set (lg_items l1). li_key i = k \<and> legal_item i \<and> le_state (li_current i) \<in> set in_flight" if "k \<in> set keys" for k
  proof -
    obtain j where j: "j \<in> set (lg_items l)" "li_key j = k" "legal_item j" "le_state (li_current j) \<in> set in_flight"
      using Cons.prems(3) \<open>k \<in> set keys\<close> by auto
    moreover have "k \<noteq> key" using Cons.prems(1) \<open>k \<in> set keys\<close> by auto
    ultimately have "j \<in> set (lg_items l1)" by (force simp: l1_def)
    then show ?thesis using j by blast
  qed
  moreover have "distinct (map li_key (lg_items l1))" using Cons.prems(2) by (simp add: l1_def)
  ultimately have "abandon_items lease keys l1 = Inr (l1\<lparr>lg_items := map (\<lambda>i. if li_key i \<in> set keys
      then add_event (abandonment lease) i else i) (lg_items l1)\<rparr>)"
    using Cons.IH [of l1] Cons.prems(1) by simp
  moreover have "map (\<lambda>i. if li_key i \<in> set keys then add_event (abandonment lease) i else i) (lg_items l1) =
      map (\<lambda>i. if li_key i \<in> set (key # keys) then add_event (abandonment lease) i else i) (lg_items l)"
    using Cons.prems(1) by (auto simp: l1_def)
  ultimately show ?case unfolding step by (simp add: l1_def)
qed

lemma held_reachable:
  assumes "ledger_ok l" "key \<in> set (held_items l lease)"
  shows "\<exists>i \<in> set (lg_items l). li_key i = key \<and> legal_item i \<and> le_state (li_current i) \<in> set in_flight"
  using assms by (auto simp: held_items_def ledger_ok_def)

lemma distinct_held: "ledger_ok l \<Longrightarrow> distinct (held_items l lease)"
  by (simp add: held_items_def ledger_ok_def distinct_map_filter)

lemma open_attempts_within:
  assumes "ledger_ok l"
  shows "distinct (open_attempts l lease)" "set (open_attempts l lease) \<subseteq> set (map at_id (lg_attempts l))"
    "set (open_attempts l lease) \<inter> set (map fst (lg_outcomes l)) = {}"
  using assms by (auto simp: open_attempts_def ledger_ok_def distinct_map_filter)

definition expired_item :: "int \<Rightarrow> string list \<Rightarrow> ledger_item \<Rightarrow> ledger_item" where
  "expired_item lease held i = (if li_key i \<in> set held then add_event (abandonment lease) i else i)"

lemma nothing_held:
  assumes "lg_items l' = map (expired_item lease (held_items l lease)) (lg_items l)"
  shows "held_items l' lease = []"
proof -
  have "\<not> (le_lease (li_current (expired_item lease (held_items l lease) i)) = Some lease \<and>
      le_state (li_current (expired_item lease (held_items l lease) i)) \<in> set in_flight)" if "i \<in> set (lg_items l)" for i
    using that by (auto simp: expired_item_def abandonment_def in_flight_def held_items_def)
  then show ?thesis unfolding held_items_def [of l'] assms by (auto simp: filter_empty_conv)
qed

lemma expire_one_total:
  assumes ok: "ledger_ok l" and active: "(lease, ''active'') \<in> set (lg_leases l)"
    and verified: "\<forall>a \<in> set (open_attempts l lease). spool a \<noteq> Corrupt"
  shows "\<exists>l'. expire_one lease spool l = Inr (Some l') \<and>
     lg_items l' = map (expired_item lease (held_items l lease)) (lg_items l) \<and>
     lg_attempts l' = lg_attempts l \<and>
     lg_outcomes l' = lg_outcomes l @ map (\<lambda>a. (a, outcome_of (spool a))) (open_attempts l lease) \<and>
     lg_leases l' = map (\<lambda>(i, s). if i = lease then (i, ''expired'') else (i, s)) (lg_leases l)"
proof -
  define l1 where "l1 = l\<lparr>lg_leases := map (\<lambda>(i, s). if i = lease then (i, ''expired'') else (i, s)) (lg_leases l)\<rparr>"
  have open1: "open_attempts l1 lease = open_attempts l lease" by (simp add: l1_def open_attempts_def)
  have ok1: "ledger_ok l1" using ok by (simp add: l1_def ledger_ok_def)
  obtain l2 where l2: "close_attempts spool (open_attempts l1 lease) l1 = Inr l2" "lg_items l2 = lg_items l"
      "lg_attempts l2 = lg_attempts l" "lg_leases l2 = lg_leases l1"
      "lg_outcomes l2 = lg_outcomes l @ map (\<lambda>a. (a, outcome_of (spool a))) (open_attempts l lease)"
    using close_attempts_total [OF open_attempts_within [OF ok1, of lease], of spool] verified
    unfolding open1 by (auto simp: l1_def)
  have held2: "held_items l2 lease = held_items l lease" by (simp add: held_items_def l2(2))
  have ok2: "ledger_ok l2" by (rule close_attempts_ok [OF ok1 l2(1)])
  have "abandon_items lease (held_items l2 lease) l2 =
      Inr (l2\<lparr>lg_items := map (expired_item lease (held_items l lease)) (lg_items l2)\<rparr>)"
    using abandon_items_total [OF distinct_held [OF ok2, of lease], where lease = lease] ok2 held_reachable [OF ok2, of _ lease]
    by (simp add: ledger_ok_def held2 expired_item_def [abs_def])
  then have "expire_one lease spool l = Inr (Some (l2\<lparr>lg_items := map (expired_item lease (held_items l lease)) (lg_items l2)\<rparr>))"
    using active l2(1) by (simp add: expire_one_def Let_def flip: l1_def)
  then show ?thesis using l2 by (simp add: l1_def)
qed

section \<open>Properties\<close>

text \<open>C3: Once a document's evidence is persisted, no later event of its item leaves the stored states and every later
  event is a promotion: the document is never claimed, requested or re-queued again.\<close>

theorem persisted_for_good:
  assumes "ledgers l" "i \<in> set (lg_items l)" "li_kind i = ''document''"
    and "li_events i = before @ e # after" "le_state e \<in> set retained"
  shows "\<forall>x \<in> set after. le_state x \<in> set retained \<and> le_action x = ''promote''"
proof -
  have "legal_from ''document'' no_state (before @ e # after)"
    using ledgers_ok [OF assms(1)] assms(2-4) by (auto simp: ledger_ok_def legal_item_def)
  then have "legal_from ''document'' (le_state e) after" by (simp add: legal_from_split)
  from retained_from [OF this assms(5)] show ?thesis .
qed

text \<open>C4: In a reachable ledger, expiring an active dead lease whose spool records verify succeeds; every attempt it
  left open gets its one outcome (the spooled one, or unrecorded), every item it held in flight becomes abandoned, no
  recorded outcome and no other item changes, and nothing of the lease stays open. Expiring it again does nothing.\<close>

theorem expiry_closes:
  assumes "ledgers l" "(lease, ''active'') \<in> set (lg_leases l)"
    and "\<forall>a \<in> set (open_attempts l lease). spool a \<noteq> Corrupt"
  shows "\<exists>l'. expire_one lease spool l = Inr (Some l') \<and> open_attempts l' lease = [] \<and> held_items l' lease = [] \<and>
     lg_outcomes l' = lg_outcomes l @ map (\<lambda>a. (a, outcome_of (spool a))) (open_attempts l lease) \<and>
     (\<forall>i \<in> set (lg_items l). li_key i \<notin> set (held_items l lease) \<longrightarrow> i \<in> set (lg_items l')) \<and>
     (\<forall>key \<in> set (held_items l lease). \<exists>i \<in> set (lg_items l'). li_key i = key \<and> le_state (li_current i) = ''abandoned'') \<and>
     expire_one lease spool l' = Inr None"
proof -
  note ok = ledgers_ok [OF assms(1)]
  from expire_one_total [OF ok assms(2,3)] obtain l' where run: "expire_one lease spool l = Inr (Some l')"
    and items: "lg_items l' = map (expired_item lease (held_items l lease)) (lg_items l)"
    and rows: "lg_attempts l' = lg_attempts l"
      "lg_outcomes l' = lg_outcomes l @ map (\<lambda>a. (a, outcome_of (spool a))) (open_attempts l lease)"
      "lg_leases l' = map (\<lambda>(i, s). if i = lease then (i, ''expired'') else (i, s)) (lg_leases l)" by blast
  have "open_attempts l' lease = []"
    by (auto simp: open_attempts_def [of l'] rows filter_empty_conv image_iff) (auto simp: open_attempts_def image_iff)
  moreover have "held_items l' lease = []"
    by (rule nothing_held [OF items])
  moreover have "\<forall>i \<in> set (lg_items l). li_key i \<notin> set (held_items l lease) \<longrightarrow> i \<in> set (lg_items l')"
    by (force simp: items expired_item_def)
  moreover have "\<exists>i \<in> set (lg_items l'). li_key i = key \<and> le_state (li_current i) = ''abandoned''"
    if "key \<in> set (held_items l lease)" for key
  proof -
    note held = that
    obtain i where "i \<in> set (lg_items l)" "li_key i = key" using held_reachable [OF ok held] by blast
    then have "expired_item lease (held_items l lease) i \<in> set (lg_items l')"
      and "li_key (expired_item lease (held_items l lease) i) = key"
      and "le_state (li_current (expired_item lease (held_items l lease) i)) = ''abandoned''"
      using held by (simp_all add: items expired_item_def abandonment_def)
    then show ?thesis by blast
  qed
  moreover have "expire_one lease spool l' = Inr None"
    by (auto simp: expire_one_def rows split: if_splits)
  ultimately show ?thesis using run rows(2) by blast
qed

section \<open>A sample ledger\<close>

definition plain_event :: "string \<Rightarrow> string \<Rightarrow> int option \<Rightarrow> ledger_event" where
  "plain_event state action lease = \<lparr>le_state = state, le_action = action, le_reason = None, le_lease = lease\<rparr>"

definition empty_ledger :: ledger where
  "empty_ledger = \<lparr>lg_items = [], lg_attempts = [], lg_outcomes = [], lg_blocks = [], lg_leases = []\<rparr>"

definition with_lease :: "int \<Rightarrow> ledger \<Rightarrow> ledger" where
  "with_lease lease l = l\<lparr>lg_leases := lg_leases l @ [(lease, ''active'')]\<rparr>"

text \<open>One document whose evidence is already stored, and one a slice died on while requesting it.\<close>

definition sample_steps :: "ledger res" where
  "sample_steps =
     bindR (ensure_item ''document'' ''document:7:aa'' None None empty_ledger) (\<lambda>(l1, _).
     bindR (append_event ''document:7:aa'' (plain_event ''persisted'' ''promote'' None) l1) (\<lambda>l2.
     bindR (append_event ''document:7:aa'' (plain_event ''validated'' ''promote'' None) l2) (\<lambda>l3.
     bindR (ensure_item ''document'' ''document:8:bb'' None None (with_lease 1 l3)) (\<lambda>(l4, _).
     bindR (append_event ''document:8:bb'' (plain_event ''pending'' ''promote'' None) l4) (\<lambda>l5.
     bindR (claim_item ''document:8:bb'' 1 None l5) (\<lambda>l6.
     Inr (fst (record_intent 1 ''document:8:bb'' 1 l6))))))))"

lemma sample_step_items:
  "ledgers l \<Longrightarrow> claim_item key lease reason l = Inr l' \<Longrightarrow> ledgers l'"
  "ledgers l \<Longrightarrow> 1 \<notin> set (map fst (lg_leases l)) \<Longrightarrow> ledgers (with_lease 1 l)"
  by (auto simp: claim_item_def with_lease_def intro: ledgers.appends ledgers.leases)

lemma sample_step_intent:
  "ledgers l \<Longrightarrow> n \<notin> set (map at_id (lg_attempts l)) \<Longrightarrow> ledgers (fst (record_intent n key lease l))"
  by (erule ledgers.intends [where a = "snd (record_intent n key lease l)"]) simp_all

lemma rows_kept:
  "append_event key e l = Inr l' \<Longrightarrow> lg_leases l' = lg_leases l \<and> lg_attempts l' = lg_attempts l"
  "ensure_item kind key first reason l = Inr (l', i, c) \<Longrightarrow> lg_leases l' = lg_leases l \<and> lg_attempts l' = lg_attempts l"
  by (auto simp: append_event_Inr ensure_item_def Let_def bindR_eq_Inr guardR_def split: option.splits if_splits)

lemma sample_steps_reachable:
  assumes "sample_steps = Inr l"
  shows "ledgers l"
proof -
  from assms obtain l1 i1 c1 l2 l3 l4 i4 c4 l5 l6 where steps:
    "ensure_item ''document'' ''document:7:aa'' None None empty_ledger = Inr (l1, i1, c1)"
    "append_event ''document:7:aa'' (plain_event ''persisted'' ''promote'' None) l1 = Inr l2"
    "append_event ''document:7:aa'' (plain_event ''validated'' ''promote'' None) l2 = Inr l3"
    "ensure_item ''document'' ''document:8:bb'' None None (with_lease 1 l3) = Inr (l4, i4, c4)"
    "append_event ''document:8:bb'' (plain_event ''pending'' ''promote'' None) l4 = Inr l5"
    "claim_item ''document:8:bb'' 1 None l5 = Inr l6"
    "l = fst (record_intent 1 ''document:8:bb'' 1 l6)"
    by (auto simp: sample_steps_def bindR_eq_Inr)
  have "ledgers l3"
    using ledgers.appends [OF ledgers.appends [OF ledgers.ensures [OF _ steps(1)] steps(2)] steps(3)] ledgers.empty
    by (simp add: empty_ledger_def)
  moreover have "lg_leases l3 = [] \<and> lg_attempts l3 = []"
    using rows_kept(2) [OF steps(1)] rows_kept(1) [OF steps(2)] rows_kept(1) [OF steps(3)] by (simp add: empty_ledger_def)
  ultimately have "ledgers (with_lease 1 l3)" and none: "lg_attempts (with_lease 1 l3) = []"
    using sample_step_items(2) [of l3] by (simp_all add: with_lease_def)
  then have "ledgers l6"
    using sample_step_items(1) [OF ledgers.appends [OF ledgers.ensures [OF _ steps(4)] steps(5)] steps(6)] by simp
  moreover have "lg_attempts l6 = []"
    using none rows_kept(2) [OF steps(4)] rows_kept(1) [OF steps(5)] rows_kept(1) [OF steps(6) [unfolded claim_item_def]]
    by simp
  ultimately show ?thesis using sample_step_intent [of l6 1] by (simp add: steps(7))
qed

definition sample_ledger :: ledger where
  "sample_ledger =
     \<lparr>lg_items =
        [\<lparr>li_kind = ''document'', li_key = ''document:7:aa'', li_first = plain_event ''discovered'' ''create'' None,
          li_later = [plain_event ''persisted'' ''promote'' None, plain_event ''validated'' ''promote'' None]\<rparr>,
         \<lparr>li_kind = ''document'', li_key = ''document:8:bb'', li_first = plain_event ''discovered'' ''create'' None,
          li_later = [plain_event ''pending'' ''promote'' None, plain_event ''requesting'' ''claim'' (Some 1)]\<rparr>],
      lg_attempts = [\<lparr>at_id = 1, at_item = ''document:8:bb'', at_no = 1, at_lease = 1\<rparr>],
      lg_outcomes = [], lg_blocks = [], lg_leases = [(1, ''active'')]\<rparr>"

lemma sample_ledger_reachable: "ledgers sample_ledger"
  by (rule sample_steps_reachable) code_simp

theorem persisted_for_good_witness:
  "ledgers sample_ledger \<and> lg_items sample_ledger \<noteq> [] \<and>
   list_all (\<lambda>x. le_state x \<in> set retained \<and> le_action x = ''promote'') [plain_event ''validated'' ''promote'' None]"
  using persisted_for_good [OF sample_ledger_reachable, of "hd (lg_items sample_ledger)"
      "[plain_event ''discovered'' ''create'' None]" "plain_event ''persisted'' ''promote'' None"
      "[plain_event ''validated'' ''promote'' None]"] sample_ledger_reachable
  by (simp add: sample_ledger_def li_events_def plain_event_def retained_def)

theorem expiry_closes_witness:
  "\<exists>l'. expire_one 1 (\<lambda>_. Spooled ''ok'' False) sample_ledger = Inr (Some l') \<and> lg_outcomes l' = [(1, ''ok'')] \<and>
     held_items sample_ledger 1 = [''document:8:bb''] \<and> held_items l' 1 = []"
proof -
  have "(1, ''active'') \<in> set (lg_leases sample_ledger)" by (simp add: sample_ledger_def)
  from expiry_closes [OF sample_ledger_reachable this, of "\<lambda>_. Spooled ''ok'' False"]
  obtain l' where "expire_one 1 (\<lambda>_. Spooled ''ok'' False) sample_ledger = Inr (Some l')" "held_items l' 1 = []"
    and "lg_outcomes l' = lg_outcomes sample_ledger @
      map (\<lambda>a. (a, outcome_of (Spooled ''ok'' False))) (open_attempts sample_ledger 1)" by auto
  moreover have "open_attempts sample_ledger 1 = [1] \<and> held_items sample_ledger 1 = [''document:8:bb'']" by code_simp
  ultimately show ?thesis by (simp add: sample_ledger_def outcome_of_def)
qed

end
