(* ===== verification/Throttle.thy ===== *)
theory Throttle
  imports Main
begin

text \<open>
  The spacing of CSE requests (\<open>market_capture/http.py\<close> Throttle, \<open>backfill_transport/throttle.py\<close> SliceThrottle).
  Clock readings and waits are microseconds of the monotonic clock; the rounding of floating-point seconds is not
  modelled. A wait is returned with the state, and sleeping is the environment's part.
\<close>

section \<open>The throttle\<close>

record throttle =
  th_min :: int
  th_last_end :: "int option"
  th_hold_until :: "int option"
  th_waits :: "int list"

definition new_throttle :: "int \<Rightarrow> throttle" where
  "new_throttle min_interval = \<lparr>th_min = min_interval, th_last_end = None, th_hold_until = None, th_waits = []\<rparr>"

definition seed :: "int \<Rightarrow> int option \<Rightarrow> throttle \<Rightarrow> throttle" where
  "seed clock since t =
     (case since of
        None \<Rightarrow> t
      | Some s \<Rightarrow> if s < th_min t then t\<lparr>th_last_end := Some (clock - max 0 s)\<rparr> else t)"

definition inner_before :: "int \<Rightarrow> throttle \<Rightarrow> throttle \<times> int" where
  "inner_before clock t =
     (case th_last_end t of
        None \<Rightarrow> (t, 0)
      | Some e \<Rightarrow>
         (let remaining = e + th_min t - clock
          in if 0 < remaining then (t\<lparr>th_waits := th_waits t @ [remaining]\<rparr>, remaining) else (t, 0)))"

definition hold :: "int \<Rightarrow> int \<Rightarrow> throttle \<Rightarrow> throttle" where
  "hold clock seconds t =
     (let until = clock + max 0 seconds
      in t\<lparr>th_hold_until := Some (case th_hold_until t of None \<Rightarrow> until | Some h \<Rightarrow> max h until)\<rparr>)"

text \<open>The second half of \<open>before\<close>: the hold of a Retry-After, read on the clock after the spacing wait.\<close>

definition hold_before :: "int \<Rightarrow> throttle \<Rightarrow> throttle \<times> int" where
  "hold_before clock t =
     (case th_hold_until t of
        None \<Rightarrow> (t, 0)
      | Some h \<Rightarrow>
         (let remaining = h - clock; t' = t\<lparr>th_hold_until := None\<rparr>
          in if 0 < remaining then (t'\<lparr>th_waits := th_waits t @ [remaining]\<rparr>, remaining) else (t', 0)))"

definition after :: "int \<Rightarrow> throttle \<Rightarrow> throttle" where
  "after clock t = t\<lparr>th_last_end := Some clock\<rparr>"

definition release_guard :: "int \<Rightarrow> throttle \<Rightarrow> throttle \<times> int" where
  "release_guard = inner_before"

definition seed_seconds :: "int option \<Rightarrow> int option \<Rightarrow> int option" where
  "seed_seconds p2 ledger =
     (case (p2, ledger) of
        (None, l) \<Rightarrow> l
      | (p, None) \<Rightarrow> p
      | (Some p, Some l) \<Rightarrow> Some (min p l))"

section \<open>The requests of a slice\<close>

text \<open>
  A slice's requests on the monotonic clock: the state of the throttle, the time reached, and the requests made, latest
  first, as pairs of their start and their end. The clock never goes backwards and a sleep lasts at least its
  argument, as \<open>time.monotonic\<close> and \<open>time.sleep\<close> document.
\<close>

inductive throttle_run :: "throttle \<Rightarrow> int \<Rightarrow> throttle \<Rightarrow> int \<Rightarrow> (int \<times> int) list \<Rightarrow> bool" for t0 :: throttle and c0 :: int where
  opened: "throttle_run t0 c0 t0 c0 []"
| passes: "throttle_run t0 c0 t now log \<Longrightarrow> now \<le> later \<Longrightarrow> throttle_run t0 c0 t later log"
| holds: "throttle_run t0 c0 t now log \<Longrightarrow> throttle_run t0 c0 (hold now seconds t) now log"
| sends: "throttle_run t0 c0 t now log \<Longrightarrow> inner_before now t = (t1, w1) \<Longrightarrow> now + w1 \<le> c1 \<Longrightarrow>
    hold_before c1 t1 = (t2, w2) \<Longrightarrow> c1 + w2 \<le> start \<Longrightarrow> start \<le> finish \<Longrightarrow> finish \<le> read \<Longrightarrow>
    throttle_run t0 c0 (after read t2) read ((start, finish) # log)"

section \<open>Spacing\<close>

fun spaced :: "int \<Rightarrow> (int \<times> int) list \<Rightarrow> bool" where
  "spaced d ((s2, e2) # (s1, e1) # log) \<longleftrightarrow> e1 + d \<le> s2 \<and> spaced d ((s1, e1) # log)"
| "spaced d _ \<longleftrightarrow> True"

lemma inner_before_wait:
  assumes "inner_before clock t = (t', w)"
  shows "0 \<le> w \<and> (\<forall>e. th_last_end t = Some e \<longrightarrow> e + th_min t \<le> clock + w) \<and>
     th_min t' = th_min t \<and> th_last_end t' = th_last_end t \<and> th_hold_until t' = th_hold_until t"
  using assms by (auto simp: inner_before_def Let_def split: option.splits if_splits)

lemma hold_before_wait:
  assumes "hold_before clock t = (t', w)"
  shows "0 \<le> w \<and> (\<forall>h. th_hold_until t = Some h \<longrightarrow> h \<le> clock + w) \<and>
     th_min t' = th_min t \<and> th_last_end t' = th_last_end t \<and> th_hold_until t' = None"
  using assms by (auto simp: hold_before_def Let_def split: option.splits if_splits)

lemma after_simps [simp]: "th_min (after c t) = th_min t" "th_last_end (after c t) = Some c"
  "th_hold_until (after c t) = th_hold_until t"
  by (simp_all add: after_def)

lemma hold_simps [simp]: "th_min (hold c s t) = th_min t" "th_last_end (hold c s t) = th_last_end t"
  by (simp_all add: hold_def Let_def)

text \<open>The throttle knows an end of the latest request that is no earlier than the real one.\<close>

definition remembers :: "throttle \<Rightarrow> int \<Rightarrow> throttle \<Rightarrow> int \<Rightarrow> (int \<times> int) list \<Rightarrow> bool" where
  "remembers t0 c0 t now log \<longleftrightarrow> th_min t = th_min t0 \<and> spaced (th_min t0) log \<and> c0 \<le> now \<and>
     (case log of
        [] \<Rightarrow> th_last_end t = th_last_end t0
      | (s, e) # _ \<Rightarrow> (\<exists>r. th_last_end t = Some r \<and> e \<le> r \<and> r \<le> now)) \<and>
     (\<forall>(s, f) \<in> set log. c0 \<le> s \<and> s \<le> f \<and> (\<forall>e. th_last_end t0 = Some e \<longrightarrow> e + th_min t0 \<le> s))"

lemma run_remembers:
  assumes "0 \<le> th_min t0" "throttle_run t0 c0 t now log"
  shows "remembers t0 c0 t now log"
  using assms(2)
proof (induction rule: throttle_run.induct)
  case opened
  then show ?case by (simp add: remembers_def)
next
  case (passes t now log later)
  then show ?case by (auto simp: remembers_def split: list.splits)
next
  case (holds t now log seconds)
  then show ?case by (auto simp: remembers_def split: list.splits)
next
  case (sends t now log t1 w1 c1 t2 w2 start finish read)
  note w1 = inner_before_wait [OF sends.hyps(2)] and w2 = hold_before_wait [OF sends.hyps(4)]
  have start: "now + w1 \<le> start" using sends.hyps w2 by linarith
  have known: "th_last_end t = Some r \<Longrightarrow> r + th_min t0 \<le> start" for r
    using w1 start sends.IH by (auto simp: remembers_def)
  have "spaced (th_min t0) ((start, finish) # log)"
    using sends.IH known by (cases log) (auto simp: remembers_def)
  moreover have "e + th_min t0 \<le> start" if "th_last_end t0 = Some e" for e
  proof (cases log)
    case Nil
    then show ?thesis using sends.IH known that by (simp add: remembers_def)
  next
    case (Cons p rest)
    obtain s f where "p = (s, f)" by (cases p)
    with sends.IH Cons that obtain r where "th_last_end t = Some r" "f \<le> r" "e + th_min t0 \<le> s" "s \<le> f"
      by (auto simp: remembers_def)
    then show ?thesis using known assms(1) by fastforce
  qed
  moreover have "c0 \<le> start" using sends.IH start w1 by (simp add: remembers_def)
  ultimately show ?case using sends.IH w1 w2 sends.hyps by (auto simp: remembers_def)
qed

text \<open>C13: However requests, waits and holds follow each other, a request never starts before the G-1 interval has passed
  since the end of the one before it, be it this slice's or the most recent one any process recorded; and a lock
  released after the release guard is released no earlier than that interval after the last request.\<close>

theorem requests_spaced:
  assumes "0 \<le> d" "throttle_run (seed c0 since (new_throttle d)) c0 t now log"
  shows "spaced d log \<and> (\<forall>ago. since = Some ago \<longrightarrow> (\<forall>(s, f) \<in> set log. d \<le> s - (c0 - max 0 ago))) \<and>
     (\<forall>s f rest. log = (s, f) # rest \<longrightarrow> f + d \<le> now + snd (release_guard now t))"
proof -
  have "th_min (seed c0 since (new_throttle d)) = d" by (simp add: seed_def new_throttle_def split: option.split)
  with run_remembers [OF _ assms(2)] assms(1) have inv: "remembers (seed c0 since (new_throttle d)) c0 t now log"
    and d: "th_min (seed c0 since (new_throttle d)) = d" by simp_all
  have "d \<le> s - (c0 - max 0 ago)" if "since = Some ago" "(s, f) \<in> set log" for ago s f
  proof (cases "ago < d")
    case True
    then have "th_last_end (seed c0 since (new_throttle d)) = Some (c0 - max 0 ago)"
      using that(1) by (simp add: seed_def new_throttle_def)
    then show ?thesis using inv that(2) d unfolding remembers_def by fastforce
  next
    case False
    have "c0 \<le> s" using inv that(2) unfolding remembers_def by fastforce
    then show ?thesis using False by linarith
  qed
  moreover have "f + d \<le> now + snd (release_guard now t)" if last: "log = (s, f) # rest" for s f rest
  proof -
    obtain t' w where guard: "release_guard now t = (t', w)" by (cases "release_guard now t")
    obtain r where "th_last_end t = Some r" "f \<le> r" using inv last by (auto simp: remembers_def)
    then show ?thesis
      using inner_before_wait [OF guard [unfolded release_guard_def]] inv guard d by (fastforce simp: remembers_def)
  qed
  moreover have "spaced d log" using inv d by (simp add: remembers_def)
  ultimately show ?thesis by auto
qed

text \<open>A dead predecessor's request ended 0.4 s ago; two requests follow.\<close>

lemma sample_throttle_run:
  "throttle_run (seed 10000000 (Some 400000) (new_throttle 1500000)) 10000000
     (after 12700000 (after 11200000 (seed 10000000 (Some 400000) (new_throttle 1500000)\<lparr>th_waits := [1100000]\<rparr>)\<lparr>th_waits := [1100000, 1500000]\<rparr>))
     12700000 [(12700000, 12700000), (11100000, 11200000)]"
proof -
  have "throttle_run (seed 10000000 (Some 400000) (new_throttle 1500000)) 10000000
      (after 11200000 (seed 10000000 (Some 400000) (new_throttle 1500000)\<lparr>th_waits := [1100000]\<rparr>)) 11200000 [(11100000, 11200000)]"
    by (rule throttle_run.sends [OF throttle_run.opened, of _ _ _ 1100000 11100000 _ 0])
       (simp add: inner_before_def hold_before_def seed_def new_throttle_def Let_def)+
  then show ?thesis
    by (rule throttle_run.sends [of _ _ _ _ _ _ 1500000 12700000 _ 0])
       (simp add: inner_before_def hold_before_def seed_def new_throttle_def after_def Let_def)+
qed

theorem requests_spaced_witness:
  "spaced 1500000 [(12700000, 12700000), (11100000, 11200000)] \<and> (1500000 :: int) \<le> 11100000 - (10000000 - 400000)"
  using requests_spaced [OF _ sample_throttle_run] by simp

end
