(* ===== verification/Gates.thy ===== *)
theory Gates
  imports Planner
begin

text \<open>
  The release gates of the governed transport (\<open>backfill_transport/gates.py\<close>, with the constants of its package): who
  may start a slice and who may make a request. Pure decisions over snapshots. A refusal is its code; messages are not
  modelled. The version tuple is an association list in key order. Times of day and clocks are microseconds.
\<close>

definition stage_kinds :: "(string \<times> string) list" where
  "stage_kinds = [(''HB-S2'', ''json''), (''HB-S3'', ''document''), (''HB-S4'', ''document'')]"

definition document_worst_case_requests :: int where
  "document_worst_case_requests = 6"

definition second_us :: int where
  "second_us = 1000000"

definition quiet_window_margin_seconds :: int where
  "quiet_window_margin_seconds = 60"

definition clock_backwards_tolerance_seconds :: int where
  "clock_backwards_tolerance_seconds = 300"

definition stopped_stage_slices :: nat where
  "stopped_stage_slices = 3"

section \<open>Snapshots\<close>

text \<open>An owner decision. The limits are columns an armed row always has.\<close>

record arming =
  ar_id :: int
  ar_armed :: bool
  ar_stages :: "string list"
  ar_window_first :: "int option"
  ar_window_last :: "int option"
  ar_daily_budget :: "int option"
  ar_combined_ceiling :: "int option"
  ar_slice_max_json :: int
  ar_slice_max_documents :: int
  ar_slice_max_seconds :: int
  ar_attempts_json :: int
  ar_attempts_document :: int
  ar_item_max :: "int option"
  ar_user_agent :: "string option"
  ar_host :: "string option"
  ar_versions :: "(string \<times> string) list"

text \<open>P3's settings and its item of the day. The times are read only when P3 is armed, and then exist.\<close>

record p3_view =
  pv_armed :: bool
  pv_earliest_start :: int
  pv_window_close :: int
  pv_daily_budget :: int
  pv_closed_today :: bool
  pv_item_final :: bool

record budget_view =
  bv_phase2 :: int
  bv_p2 :: int
  bv_daily_budget :: int
  bv_ceiling :: "int option"
  bv_reserve :: int

definition daily_remaining :: "budget_view \<Rightarrow> int" where
  "daily_remaining b = max 0 (bv_daily_budget b - bv_phase2 b)"

definition combined_remaining :: "budget_view \<Rightarrow> int option" where
  "combined_remaining b = map_option (\<lambda>c. max 0 (c - bv_phase2 b - bv_p2 b - bv_reserve b)) (bv_ceiling b)"

definition covers :: "budget_view \<Rightarrow> int \<Rightarrow> bool" where
  "covers b n \<longleftrightarrow> n \<le> daily_remaining b \<and> (case combined_remaining b of None \<Rightarrow> True | Some c \<Rightarrow> n \<le> c)"

record start_snapshot =
  sp_now :: instant
  sp_stage :: string
  sp_kind :: string
  sp_arming :: "arming option"
  sp_contact_problem :: bool
  sp_user_agent :: "string option"
  sp_hostname :: string
  sp_versions :: "(string \<times> string) list"
  sp_preflight_problems :: nat
  sp_phase2_blocks :: "int list"
  sp_p2_blocks :: "string list"
  sp_unblocked_block_attempts :: "int list"
  sp_stage_stopped :: bool
  sp_budget :: "budget_view option"
  sp_p3 :: p3_view
  sp_synchronized :: "bool option"
  sp_last_runner_time :: "instant option"

section \<open>The rules\<close>

definition p3_pending :: "p3_view \<Rightarrow> int \<Rightarrow> bool" where
  "p3_pending p today \<longleftrightarrow> \<not> (\<not> pv_armed p \<or> \<not> is_candidate_trading_day today \<or> pv_closed_today p \<or> pv_item_final p)"

definition p3_reserve :: "p3_view \<Rightarrow> int \<Rightarrow> int" where
  "p3_reserve p today = (if p3_pending p today then pv_daily_budget p else 0)"

definition quiet_window :: "instant \<Rightarrow> p3_view \<Rightarrow> int \<Rightarrow> bool" where
  "quiet_window now p slice_max_seconds \<longleftrightarrow>
     (let today = colombo_day now in p3_pending p today \<and>
        colombo_moment today (pv_earliest_start p) - (slice_max_seconds + quiet_window_margin_seconds) * second_us \<le> now \<and>
        now < colombo_moment today (pv_window_close p))"

definition refuse_if :: "bool \<Rightarrow> string \<Rightarrow> string list" where
  "refuse_if bad code = (if bad then [code] else [])"

definition armed_in_force :: "arming option \<Rightarrow> arming option" where
  "armed_in_force a = (case a of None \<Rightarrow> None | Some x \<Rightarrow> if ar_armed x then Some x else None)"

definition no_text :: "string option \<Rightarrow> bool" where
  "no_text t \<longleftrightarrow> t = None \<or> t = Some []"

definition arming_refusals ::
  "arming option \<Rightarrow> string \<Rightarrow> string \<Rightarrow> string option \<Rightarrow> bool \<Rightarrow> string \<Rightarrow> (string \<times> string) list \<Rightarrow> string list" where
  "arming_refusals arming stage kind user_agent contact_problem hostname versions =
     (case armed_in_force arming of
        None \<Rightarrow> [''disarmed'']
      | Some a \<Rightarrow>
          refuse_if (map_of stage_kinds stage \<noteq> Some kind) ''stage'' @
          refuse_if (stage \<notin> set (ar_stages a)) ''stage'' @
          (if contact_problem \<or> no_text user_agent then [''contact'']
           else refuse_if (user_agent \<noteq> ar_user_agent a) ''user_agent'') @
          refuse_if (Some hostname \<noteq> ar_host a) ''host'' @
          refuse_if (ar_versions a \<noteq> versions) ''versions'')"

definition clock_refusals :: "instant \<Rightarrow> bool option \<Rightarrow> instant option \<Rightarrow> string list" where
  "clock_refusals now synchronized last_runner_time =
     (if synchronized \<noteq> Some True then [''clock'']
      else (case last_runner_time of
          None \<Rightarrow> []
        | Some t \<Rightarrow> refuse_if (now < t - clock_backwards_tolerance_seconds * second_us) ''clock''))"

definition worst_case :: "string \<Rightarrow> int" where
  "worst_case kind = (if kind = ''document'' then document_worst_case_requests else 1)"

definition start_refusals :: "start_snapshot \<Rightarrow> string list" where
  "start_refusals s =
     replicate (sp_preflight_problems s) ''preflight'' @
     arming_refusals (sp_arming s) (sp_stage s) (sp_kind s) (sp_user_agent s) (sp_contact_problem s) (sp_hostname s)
       (sp_versions s) @
     refuse_if (sp_phase2_blocks s \<noteq> [] \<or> sp_unblocked_block_attempts s \<noteq> []) ''blocked'' @
     refuse_if (sp_p2_blocks s \<noteq> []) ''blocked'' @
     refuse_if (sp_stage_stopped s) ''stage_stopped'' @
     (case armed_in_force (sp_arming s) of
        None \<Rightarrow> []
      | Some a \<Rightarrow>
          refuse_if (case sp_budget s of None \<Rightarrow> True | Some b \<Rightarrow> \<not> covers b (worst_case (sp_kind s))) ''budget'' @
          refuse_if (quiet_window (sp_now s) (sp_p3 s) (ar_slice_max_seconds a)) ''quiet_window'') @
     clock_refusals (sp_now s) (sp_synchronized s) (sp_last_runner_time s)"

definition request_refusals ::
  "arming option \<Rightarrow> arming \<Rightarrow> string \<Rightarrow> string \<Rightarrow> budget_view \<Rightarrow> int \<Rightarrow> string list" where
  "request_refusals arming_now slice_arming stage kind budget need =
     (case armed_in_force arming_now of
        None \<Rightarrow> [''disarmed'']
      | Some a \<Rightarrow>
          if ar_id a \<noteq> ar_id slice_arming then [''arming_changed'']
          else if stage \<notin> set (ar_stages a) \<or> map_of stage_kinds stage \<noteq> Some kind then [''stage'']
          else refuse_if (\<not> covers budget need) ''budget'')"

definition claim_refusals :: "int \<Rightarrow> int option \<Rightarrow> string list" where
  "claim_refusals claims item_max = (case item_max of None \<Rightarrow> [''item_max''] | Some m \<Rightarrow> refuse_if (m \<le> claims) ''item_max'')"

text \<open>The dates a feed request asks for; \<open>None\<close> when they are not ISO dates. A listing asks for none.\<close>

definition window_refusals :: "(int \<times> int) option \<Rightarrow> bool \<Rightarrow> arming \<Rightarrow> string list" where
  "window_refusals dates feed a =
     (if \<not> feed then []
      else (case dates of
          None \<Rightarrow> [''request'']
        | Some (first, final) \<Rightarrow>
            (case (ar_window_first a, ar_window_last a) of
               (Some lo, Some hi) \<Rightarrow> refuse_if (first < lo \<or> hi < final \<or> final < first) ''window''
             | _ \<Rightarrow> [''window''])))"

definition stage_stopped :: "string list \<Rightarrow> nat \<Rightarrow> bool" where
  "stage_stopped results slices \<longleftrightarrow>
     (let recent = take slices results in length recent = slices \<and> list_all (\<lambda>r. r = ''circuit_open'') recent)"

end
