(* ===== verification/Exchange.thy ===== *)
theory Exchange
  imports Discovery
begin

text \<open>
  The classification of one HTTP attempt of the governed transport (\<open>backfill_transport/classify.py\<close>), the request
  discipline of P2 it is bound by (\<open>market_capture/config.py\<close> RequestPolicy) and the reading of a Retry-After header
  (\<open>market_capture/http.py\<close>). A body is its bytes as characters. The parser \<open>loads\<close> stands for \<open>json.loads\<close> (None: not
  JSON) and \<open>http_date\<close> for \<open>email.utils.parsedate_to_datetime\<close>; both are arguments. Error texts are not modelled.
\<close>

section \<open>Vocabulary\<close>

definition api_block_statuses :: "int list" where
  "api_block_statuses = [401, 403, 407, 451]"

definition cdn_block_statuses :: "int list" where
  "cdn_block_statuses = [401, 407, 451]"

definition rate_limited_status :: int where
  "rate_limited_status = 429"

definition retryable_outcomes :: "string list" where
  "retryable_outcomes = [''server_error'', ''network_error'', ''timeout'', ''empty_response'', ''invalid_json'',
     ''malformed_response'', ''rate_limited'']"

definition terminal_outcomes :: "string list" where
  "terminal_outcomes = [''too_large'', ''http_error'', ''unexpected_redirect'', ''forbidden_or_missing'', ''not_found'',
     ''redirect'', ''spool_failed'', ''stream_not_closed'']"

definition json_endpoints :: "(string \<times> string list) list" where
  "json_endpoints = [(feed_endpoint, [''fromDate'', ''toDate'']), (listing_endpoint, [''symbol''])]"

section \<open>Classification\<close>

record exchange =
  ex_error_kind :: "string option"
  ex_status :: "int option"
  ex_body :: "string option"
  ex_retry_after :: "string option"

definition is_byte_space :: "char \<Rightarrow> bool" where
  "is_byte_space c \<longleftrightarrow> c \<in> {CHR '' '', CHR 0x09, CHR 0x0A, CHR 0x0B, CHR 0x0C, CHR 0x0D}"

definition parse_body :: "(string \<Rightarrow> json option) \<Rightarrow> string option \<Rightarrow> string option \<times> json option" where
  "parse_body loads body =
     (case body of
        None \<Rightarrow> (None, None)
      | Some b \<Rightarrow>
          if list_all is_byte_space b then (Some ''empty'', None)
          else (case loads b of Some v \<Rightarrow> (Some ''json_ok'', Some v) | None \<Rightarrow> (Some ''not_json'', None)))"

text \<open>A parsed \<open>null\<close> is Python's \<open>None\<close>, as an absent body.\<close>

definition python_value :: "json option \<Rightarrow> json option" where
  "python_value v = (if v = Some JNull then None else v)"

definition f1_accepts :: "string \<Rightarrow> json option \<Rightarrow> bool" where
  "f1_accepts endpoint parsed =
     (let probe = \<lparr>rs_ok = True, rs_status = 200, rs_body = python_value parsed\<rparr>
      in if endpoint = feed_endpoint then (case extract_feed_items probe of Inl _ \<Rightarrow> True | Inr _ \<Rightarrow> False)
         else if endpoint = listing_endpoint then (case extract_listing_buckets probe of Inl _ \<Rightarrow> True | Inr _ \<Rightarrow> False)
         else False)"

definition within :: "int \<Rightarrow> int \<Rightarrow> int option \<Rightarrow> bool" where
  "within lo hi s \<longleftrightarrow> (case s of None \<Rightarrow> False | Some v \<Rightarrow> lo \<le> v \<and> v \<le> hi)"

definition classify_json ::
  "(string \<Rightarrow> json option) \<Rightarrow> string \<Rightarrow> exchange \<Rightarrow> string \<times> string option \<times> json option" where
  "classify_json loads endpoint ex =
     (let (parse_status, parsed) = parse_body loads (ex_body ex); s = ex_status ex in
      if ex_error_kind ex = Some ''timeout'' then (''timeout'', None, None)
      else if ex_error_kind ex = Some ''too_large'' then (''too_large'', None, None)
      else if ex_error_kind ex = Some ''network'' then (''network_error'', None, None)
      else if s \<in> Some ` set api_block_statuses then (''blocked'', parse_status, parsed)
      else if s = Some rate_limited_status then (''rate_limited'', parse_status, parsed)
      else if within 500 599 s then (''server_error'', parse_status, parsed)
      else if within 300 399 s then (''unexpected_redirect'', parse_status, parsed)
      else if \<not> within 200 299 s then (''http_error'', parse_status, parsed)
      else if parse_status = Some ''empty'' then (''empty_response'', parse_status, None)
      else if parse_status = Some ''not_json'' then (''invalid_json'', parse_status, None)
      else if \<not> f1_accepts endpoint parsed then (''malformed_response'', parse_status, parsed)
      else (''ok'', parse_status, parsed))"

definition classify_cdn :: "int \<Rightarrow> string option \<Rightarrow> bool \<Rightarrow> string" where
  "classify_cdn status error_kind stream_error =
     (if error_kind = Some ''timeout'' then ''timeout''
      else if error_kind = Some ''network'' then ''network_error''
      else if status \<in> set cdn_block_statuses then ''blocked''
      else if status = 403 then ''forbidden_or_missing''
      else if status = 404 then ''not_found''
      else if status = rate_limited_status then ''rate_limited''
      else if within 500 599 (Some status) then ''server_error''
      else if within 300 399 (Some status) then ''redirect''
      else if \<not> within 200 299 (Some status) then ''http_error''
      else if stream_error then ''network_error''
      else ''ok'')"

definition outcome_class :: "string \<Rightarrow> bool \<Rightarrow> string res" where
  "outcome_class outcome block =
     (if block \<or> outcome = ''blocked'' then Inr ''block''
      else if outcome = ''ok'' then Inr ''ok''
      else if outcome \<in> set retryable_outcomes then Inr ''retryable''
      else if outcome \<in> set terminal_outcomes then Inr ''terminal''
      else Inl ValueErr)"

text \<open>What Stage E's client would have returned for the same exchange.\<close>

definition transport_response :: "exchange \<Rightarrow> string option \<Rightarrow> json option \<Rightarrow> response" where
  "transport_response ex parse_status parsed =
     \<lparr>rs_ok = (case ex_status ex of None \<Rightarrow> False | Some s \<Rightarrow> s < 400),
      rs_status = (case ex_status ex of None \<Rightarrow> 0 | Some s \<Rightarrow> s),
      rs_body = (if ex_status ex \<noteq> None \<and> parse_status = Some ''json_ok'' then python_value parsed else None)\<rparr>"

section \<open>The request discipline\<close>

text \<open>Seconds are microseconds here, so the floor of 1.5 s is 1500000.\<close>

definition min_interval_floor :: int where
  "min_interval_floor = 1500000"

record policy =
  po_min_interval :: int
  po_backoff_base :: int
  po_backoff_max :: int
  po_retry_after_max :: int
  po_max_failures :: nat

definition bounded :: "int \<Rightarrow> int \<Rightarrow> int \<Rightarrow> bool" where
  "bounded v lo hi \<longleftrightarrow> lo \<le> v \<and> v \<le> hi"

definition mk_policy :: "policy \<Rightarrow> policy res" where
  "mk_policy p =
     guardR (po_min_interval p < min_interval_floor) ConfigurationError
     (guardR (\<not> bounded (po_min_interval p) min_interval_floor 60000000) ConfigurationError
     (guardR (\<not> bounded (po_backoff_base p) 1000000 60000000) ConfigurationError
     (guardR (\<not> bounded (po_backoff_max p) (po_backoff_base p) 600000000) ConfigurationError
     (guardR (\<not> bounded (po_retry_after_max p) 0 900000000) ConfigurationError
     (guardR (\<not> bounded (int (po_max_failures p)) 1 20) ConfigurationError (Inr p))))))"

definition backoff :: "policy \<Rightarrow> nat \<Rightarrow> int" where
  "backoff p n = min (po_backoff_base p * 2 ^ (n - 1)) (po_backoff_max p)"

text \<open>The seconds of a Retry-After header. \<open>str.isdigit\<close> accepts digits \<open>float\<close> refuses.\<close>

definition py_float_digits :: "string \<Rightarrow> int res" where
  "py_float_digits s = bindR (py_int s) (\<lambda>n. Inr (n * 1000000))"

definition retry_after_seconds ::
  "(string \<Rightarrow> instant option) \<Rightarrow> string option \<Rightarrow> instant \<Rightarrow> int option res" where
  "retry_after_seconds http_date header now =
     (case header of
        None \<Rightarrow> Inr None
      | Some v \<Rightarrow>
          if py_isdigit (strip v) then bindR (py_float_digits (strip v)) (\<lambda>n. Inr (Some n))
          else (case http_date (strip v) of None \<Rightarrow> Inr None | Some t \<Rightarrow> Inr (Some (max 0 (t - now)))))"

section \<open>Facts\<close>

lemma classify_json_known:
  "fst (classify_json loads endpoint ex) \<in> {''ok'', ''blocked''} \<union> set retryable_outcomes \<union> set terminal_outcomes"
  by (simp add: classify_json_def Let_def retryable_outcomes_def terminal_outcomes_def split: prod.split)

lemma classify_cdn_known:
  "classify_cdn status kind stream \<in> {''ok'', ''blocked''} \<union> set retryable_outcomes \<union> set terminal_outcomes"
  by (simp add: classify_cdn_def retryable_outcomes_def terminal_outcomes_def)

lemma outcome_class_total:
  assumes "outcome \<in> {''ok'', ''blocked''} \<union> set retryable_outcomes \<union> set terminal_outcomes"
  shows "\<exists>c. outcome_class outcome block = Inr c \<and> (c = ''block'' \<longleftrightarrow> block \<or> outcome = ''blocked'') \<and>
    (c = ''ok'' \<longleftrightarrow> \<not> block \<and> outcome = ''ok'')"
  using assms by (auto simp: outcome_class_def)

lemma classified_block:
  "fst (classify_json loads endpoint ex) = ''blocked'' \<longleftrightarrow>
     ex_error_kind ex \<notin> {Some ''timeout'', Some ''too_large'', Some ''network''} \<and>
     ex_status ex \<in> Some ` set api_block_statuses"
  by (simp add: classify_json_def Let_def split: prod.split)

lemma classified_ok:
  "fst (classify_json loads endpoint ex) = ''ok'' \<longleftrightarrow>
     ex_error_kind ex \<notin> {Some ''timeout'', Some ''too_large'', Some ''network''} \<and> within 200 299 (ex_status ex) \<and>
     fst (parse_body loads (ex_body ex)) \<notin> {Some ''empty'', Some ''not_json''} \<and>
     f1_accepts endpoint (snd (parse_body loads (ex_body ex)))"
  by (auto simp: classify_json_def Let_def within_def api_block_statuses_def rate_limited_status_def
      split: prod.split option.splits)

lemma endpoints_differ: "feed_endpoint \<noteq> listing_endpoint"
  by code_simp

lemma f1_accepts_iff:
  "f1_accepts endpoint parsed \<longleftrightarrow>
     endpoint = feed_endpoint \<and> (\<exists>i. extract_feed_items \<lparr>rs_ok = True, rs_status = 200, rs_body = python_value parsed\<rparr> = Inl i) \<or>
     endpoint = listing_endpoint \<and>
       (\<exists>b. extract_listing_buckets \<lparr>rs_ok = True, rs_status = 200, rs_body = python_value parsed\<rparr> = Inl b)"
  using endpoints_differ by (auto simp: f1_accepts_def Let_def split: sum.splits)

lemma extract_any_status:
  "extract_feed_items \<lparr>rs_ok = True, rs_status = st, rs_body = b\<rparr> = extract_feed_items \<lparr>rs_ok = True, rs_status = 200, rs_body = b\<rparr>"
  "extract_listing_buckets \<lparr>rs_ok = True, rs_status = st, rs_body = b\<rparr> =
     extract_listing_buckets \<lparr>rs_ok = True, rs_status = 200, rs_body = b\<rparr>"
  "extract_feed_items \<lparr>rs_ok = True, rs_status = st, rs_body = None\<rparr> = Inr ''non_json''"
  "extract_listing_buckets \<lparr>rs_ok = True, rs_status = st, rs_body = None\<rparr> = Inr ''non_json''"
  by (simp_all add: extract_feed_items_def extract_listing_buckets_def)

text \<open>C14: An attempt classified OK is one F1 can use: the response the requester hands on, which is built again from the
  exchange and not from what the classification looked at, is accepted by F1's own reader of the endpoint; and an
  exchange with no status, with a transport error or with another status is never OK.\<close>

theorem ok_response_accepted:
  assumes "classify_json loads endpoint ex = (''ok'', parse_status, parsed)"
  shows "(endpoint = feed_endpoint \<longrightarrow> (\<exists>items. extract_feed_items (transport_response ex parse_status parsed) = Inl items)) \<and>
    (endpoint = listing_endpoint \<longrightarrow> (\<exists>b. extract_listing_buckets (transport_response ex parse_status parsed) = Inl b)) \<and>
    endpoint \<in> {feed_endpoint, listing_endpoint} \<and> (\<exists>s. ex_status ex = Some s \<and> 200 \<le> s \<and> s \<le> 299)"
proof -
  have read: "parse_body loads (ex_body ex) = (parse_status, parsed)" and ok: "fst (classify_json loads endpoint ex) = ''ok''"
    using assms by (auto simp: classify_json_def Let_def split: prod.splits if_splits)
  obtain st where st: "ex_status ex = Some st" "200 \<le> st" "st \<le> 299" and accepted: "f1_accepts endpoint parsed"
    using ok [unfolded classified_ok] by (auto simp: within_def read split: option.splits)
  have some: "python_value parsed \<noteq> None"
    using accepted unfolding f1_accepts_iff
    by (cases "python_value parsed") (auto simp: extract_any_status(3,4))
  then have "parse_status = Some ''json_ok''"
    using read by (auto simp: parse_body_def python_value_def split: option.splits if_splits)
  then have same: "transport_response ex parse_status parsed = \<lparr>rs_ok = True, rs_status = st, rs_body = python_value parsed\<rparr>"
    using st by (simp add: transport_response_def)
  show ?thesis
    using accepted st extract_any_status(1,2) [of st "python_value parsed"] endpoints_differ unfolding f1_accepts_iff same
    by auto
qed

theorem ok_response_accepted_witness:
  "classify_json (\<lambda>_. Some (JObj [(''reqFinancialAnnouncemnets'', JArr [])])) feed_endpoint
     \<lparr>ex_error_kind = None, ex_status = Some 200, ex_body = Some ''{}'', ex_retry_after = None\<rparr> =
     (''ok'', Some ''json_ok'', Some (JObj [(''reqFinancialAnnouncemnets'', JArr [])])) \<and>
   (\<exists>items. extract_feed_items (transport_response
     \<lparr>ex_error_kind = None, ex_status = Some 200, ex_body = Some ''{}'', ex_retry_after = None\<rparr> (Some ''json_ok'')
     (Some (JObj [(''reqFinancialAnnouncemnets'', JArr [])]))) = Inl items)"
proof -
  have run: "classify_json (\<lambda>_. Some (JObj [(''reqFinancialAnnouncemnets'', JArr [])])) feed_endpoint
     \<lparr>ex_error_kind = None, ex_status = Some 200, ex_body = Some ''{}'', ex_retry_after = None\<rparr> =
     (''ok'', Some ''json_ok'', Some (JObj [(''reqFinancialAnnouncemnets'', JArr [])]))" by code_simp
  from ok_response_accepted [OF run] run show ?thesis by simp
qed

end
