(* ===== verification/Slice.thy ===== *)
theory Slice
  imports Gates Exchange
begin

text \<open>
  One slice of governed CSE requests (\<open>backfill_transport/slice.py\<close>) and the governed JSON requester
  (\<open>backfill_transport/requester.py\<close>). A request is a function of the slice and of what the world answers at each
  attempt; it returns what it did as events. The lock, the wake-up row, heartbeats, the pacing (theory Throttle) and
  message texts are not modelled here.
\<close>

section \<open>The slice\<close>

datatype stop = RefusedStop "string list" | BlockedStop | CircuitStop | DurabilityStop

fun lease_result :: "stop \<Rightarrow> string" where
  "lease_result (RefusedStop _) = ''refused''"
| "lease_result BlockedStop = ''blocked''"
| "lease_result CircuitStop = ''circuit_open''"
| "lease_result DurabilityStop = ''error''"

record slice =
  sl_stage :: string
  sl_kind :: string
  sl_arming :: arming
  sl_policy :: policy
  sl_json_requests :: int
  sl_documents :: int
  sl_failures :: nat
  sl_stop :: "stop option"
  sl_closed :: bool
  sl_json_attempts :: "(string \<times> int) list"
  sl_passes :: "(string \<times> int) list"

definition open_slice :: "string \<Rightarrow> string \<Rightarrow> arming \<Rightarrow> policy \<Rightarrow> slice" where
  "open_slice stage kind a p =
     \<lparr>sl_stage = stage, sl_kind = kind, sl_arming = a, sl_policy = p, sl_json_requests = 0, sl_documents = 0,
      sl_failures = 0, sl_stop = None, sl_closed = False, sl_json_attempts = [], sl_passes = []\<rparr>"

text \<open>What PostgreSQL and the clocks say at an admission: the arming decision in force, the day's budget, how long the
  slice has run.\<close>

record moment =
  mo_arming :: "arming option"
  mo_budget :: budget_view
  mo_elapsed :: int
  mo_wall :: instant

definition admission_refusals :: "int \<Rightarrow> bool \<Rightarrow> moment \<Rightarrow> slice \<Rightarrow> string list" where
  "admission_refusals need new_work m s =
     (let gate = request_refusals (mo_arming m) (sl_arming s) (sl_stage s) (sl_kind s) (mo_budget m) need in
      if gate \<noteq> [] then gate
      else if sl_kind s = ''json'' \<and> ar_slice_max_json (sl_arming s) \<le> sl_json_requests s then [''slice_requests'']
      else if new_work \<and> ar_slice_max_seconds (sl_arming s) * second_us \<le> mo_elapsed m then [''slice_time'']
      else [])"

definition slice_admit :: "int \<Rightarrow> bool \<Rightarrow> moment \<Rightarrow> slice \<Rightarrow> slice \<times> string list" where
  "slice_admit need new_work m s =
     (if sl_stop s \<noteq> None then (s, [''stopped''])
      else if sl_closed s then (s, [''closed''])
      else (let refusals = admission_refusals need new_work m s
            in if refusals = [] then (s, []) else (s\<lparr>sl_stop := Some (RefusedStop refusals)\<rparr>, refusals)))"

text \<open>A claim: admitted, and below the item maximum.\<close>

definition claim_admitted :: "moment \<Rightarrow> int \<Rightarrow> slice \<Rightarrow> slice \<times> string list" where
  "claim_admitted m claims s =
     (let (s', refusals) = slice_admit (worst_case (sl_kind s)) True m s
      in (s', if refusals \<noteq> [] then refusals else claim_refusals claims (ar_item_max (sl_arming s))))"

definition counted :: "string \<Rightarrow> (string \<times> int) list \<Rightarrow> int" where
  "counted item counts = (case map_of counts item of None \<Rightarrow> 0 | Some n \<Rightarrow> n)"

definition count_up :: "string \<Rightarrow> (string \<times> int) list \<Rightarrow> (string \<times> int) list" where
  "count_up item counts = dict_set item (counted item counts + 1) counts"

definition json_attempts_left :: "string \<Rightarrow> slice \<Rightarrow> int" where
  "json_attempts_left item s = ar_attempts_json (sl_arming s) - counted item (sl_json_attempts s)"

definition note_json_attempt :: "string \<Rightarrow> slice \<Rightarrow> slice" where
  "note_json_attempt item s =
     s\<lparr>sl_json_attempts := count_up item (sl_json_attempts s), sl_json_requests := sl_json_requests s + 1\<rparr>"

text \<open>The start of a document: its pass number and whether it is the last one, or the refusals.\<close>

definition begin_document :: "string \<Rightarrow> moment \<Rightarrow> slice \<Rightarrow> slice \<times> (string list + int \<times> bool)" where
  "begin_document item m s =
     (if sl_kind s \<noteq> ''document'' then (s, Inl [''kind''])
      else (let (s1, refusals) = slice_admit document_worst_case_requests True m s in
        if refusals \<noteq> [] then (s1, Inl refusals)
        else if ar_slice_max_documents (sl_arming s) \<le> sl_documents s1
          then (s1\<lparr>sl_stop := Some (RefusedStop [''slice_documents''])\<rparr>, Inl [''slice_documents''])
        else if ar_attempts_document (sl_arming s) \<le> counted item (sl_passes s1) then (s1, Inl [''document_attempts''])
        else (s1\<lparr>sl_passes := count_up item (sl_passes s1), sl_documents := sl_documents s1 + 1\<rparr>,
              Inr (counted item (sl_passes s1) + 1, counted item (sl_passes s1) + 1 = ar_attempts_document (sl_arming s)))))"

definition note_outcome :: "bool \<Rightarrow> slice \<Rightarrow> slice" where
  "note_outcome ok s = s\<lparr>sl_failures := (if ok then 0 else sl_failures s + 1)\<rparr>"

definition tripped :: "slice \<Rightarrow> bool" where
  "tripped s \<longleftrightarrow> po_max_failures (sl_policy s) \<le> sl_failures s"

section \<open>One attempt\<close>

record attempt_decision =
  ad_block :: bool
  ad_delay :: "int option"
  ad_circuit :: bool

definition decide_attempt :: "policy \<Rightarrow> string \<Rightarrow> int option res \<Rightarrow> bool \<Rightarrow> bool \<Rightarrow> attempt_decision res" where
  "decide_attempt p outcome retry_after final_attempt tripped_now =
     bindR (if outcome = ''rate_limited'' then retry_after else Inr None) (\<lambda>wanted.
       let too_long = (case wanted of None \<Rightarrow> False | Some n \<Rightarrow> po_retry_after_max p < n);
           block = (outcome = ''blocked'' \<or> outcome = ''rate_limited'' \<and> (too_long \<or> final_attempt \<or> tripped_now))
       in Inr \<lparr>ad_block = block, ad_delay = wanted,
               ad_circuit = (\<not> block \<and> outcome \<noteq> ''ok'' \<and> tripped_now)\<rparr>)"

text \<open>The answers of the world to one attempt: the admission's view, whether the journal's intent line, the spool and
  the database commit succeeded, and the exchange.\<close>

record attempt_world =
  en_moment :: moment
  en_journal :: bool
  en_exchange :: exchange
  en_spool :: bool
  en_commit :: bool

record readers =
  re_loads :: "string \<Rightarrow> json option"
  re_http_date :: "string \<Rightarrow> instant option"
  re_iso_date :: "string \<Rightarrow> int option"

datatype request_event = Intent | Sent string | Recorded string bool

datatype request_end = Answered bool | Raised stop | Crashed exc

definition stopped_by :: "stop \<Rightarrow> slice \<Rightarrow> slice \<times> request_end option" where
  "stopped_by stop s = (s\<lparr>sl_stop := Some stop\<rparr>, Some (Raised stop))"

text \<open>What follows a recorded attempt: the end of the request, or a retry (None).\<close>

definition after_record ::
  "string \<Rightarrow> attempt_decision \<Rightarrow> bool \<Rightarrow> bool \<Rightarrow> slice \<Rightarrow> slice \<times> request_end option" where
  "after_record outcome d spooled final_attempt s =
     (if ad_block d then stopped_by BlockedStop s
      else if \<not> spooled then stopped_by DurabilityStop s
      else if outcome = ''ok'' then (s, Some (Answered True))
      else if ad_circuit d then stopped_by CircuitStop s
      else if outcome \<notin> set retryable_outcomes \<or> final_attempt then (s, Some (Answered False))
      else (s, None))"

definition attempt ::
  "readers \<Rightarrow> string \<Rightarrow> string \<Rightarrow> bool \<Rightarrow> bool \<Rightarrow> attempt_world \<Rightarrow> slice \<Rightarrow> request_event list \<times> slice \<times> request_end option"
where
  "attempt rd endpoint item first_attempt final_attempt en s =
     (let (s1, refusals) = slice_admit 1 first_attempt (en_moment en) s in
      if refusals \<noteq> [] then ([], s1, Some (Raised (RefusedStop refusals)))
      else (let s2 = note_json_attempt item s1 in
        if \<not> en_journal en
        then ([Intent, Recorded ''terminal'' False], stopped_by DurabilityStop s2)
        else (let outcome = fst (classify_json (re_loads rd) endpoint (en_exchange en));
                  s3 = note_outcome (outcome = ''ok'') s2;
                  wanted = retry_after_seconds (re_http_date rd) (ex_retry_after (en_exchange en)) (mo_wall (en_moment en))
              in case decide_attempt (sl_policy s) outcome wanted final_attempt (tripped s3) of
                   Inl e \<Rightarrow> ([Intent, Sent outcome], s3, Some (Crashed e))
                 | Inr d \<Rightarrow>
                    (case outcome_class outcome (ad_block d) of
                       Inl e \<Rightarrow> ([Intent, Sent outcome], s3, Some (Crashed e))
                     | Inr cls \<Rightarrow>
                         if \<not> en_commit en then ([Intent, Sent outcome], stopped_by DurabilityStop s3)
                         else ([Intent, Sent outcome,
                                Recorded (if \<not> en_spool en \<and> cls = ''ok'' then ''terminal'' else cls) (ad_block d)],
                               after_record outcome d (en_spool en) final_attempt s3)))))"

section \<open>One request\<close>

fun attempts_from ::
  "readers \<Rightarrow> string \<Rightarrow> string \<Rightarrow> (nat \<Rightarrow> attempt_world) \<Rightarrow> nat \<Rightarrow> nat \<Rightarrow> slice \<Rightarrow> request_event list \<times> slice \<times> request_end"
where
  "attempts_from rd endpoint item world i 0 s = ([], s, Answered False)"
| "attempts_from rd endpoint item world i (Suc n) s =
     (case attempt rd endpoint item (i = 0) (n = 0) (world i) s of
        (events, s', Some e) \<Rightarrow> (events, s', e)
      | (events, s', None) \<Rightarrow>
          (case attempts_from rd endpoint item world (Suc i) n s' of (others, s'', e) \<Rightarrow> (events @ others, s'', e)))"

definition request_dates :: "readers \<Rightarrow> (string \<times> string) list \<Rightarrow> (int \<times> int) option" where
  "request_dates rd params =
     (case (Option.bind (map_of params ''fromDate'') (re_iso_date rd), Option.bind (map_of params ''toDate'') (re_iso_date rd)) of
        (Some first, Some final) \<Rightarrow> Some (first, final) | _ \<Rightarrow> None)"

definition check_request :: "readers \<Rightarrow> string \<Rightarrow> (string \<times> string) list \<Rightarrow> arming \<Rightarrow> string list" where
  "check_request rd endpoint params a =
     (case map_of json_endpoints endpoint of
        None \<Rightarrow> [''request'']
      | Some want \<Rightarrow>
          if sort (map fst params) \<noteq> sort want \<or> list_ex (\<lambda>(k, v). v = []) params then [''request'']
          else window_refusals (request_dates rd params) (endpoint = feed_endpoint) a)"

definition request ::
  "readers \<Rightarrow> string \<Rightarrow> (string \<times> string) list \<Rightarrow> string \<Rightarrow> (nat \<Rightarrow> attempt_world) \<Rightarrow> slice \<Rightarrow>
   request_event list \<times> slice \<times> request_end" where
  "request rd endpoint params item world s =
     (let refusals = check_request rd endpoint params (sl_arming s) in
      if refusals \<noteq> [] then ([], s, Raised (RefusedStop refusals))
      else if json_attempts_left item s \<le> 0 then ([], s, Raised (RefusedStop [''json_attempts'']))
      else attempts_from rd endpoint item world 0 (nat (json_attempts_left item s)) s)"

text \<open>The wait before the retry after attempt \<open>i\<close> (counted from 0).\<close>

definition retry_wait :: "policy \<Rightarrow> nat \<Rightarrow> int option \<Rightarrow> int" where
  "retry_wait p i delay = (case delay of None \<Rightarrow> backoff p (i + 1) | Some d \<Rightarrow> max d (po_min_interval p))"

section \<open>The end of a slice\<close>

text \<open>The result recorded, and whether the lease is released. \<open>error\<close> is what left the slice, \<open>open_rows\<close> what the ledger
  says of attempts without an outcome (None: it could not be read).\<close>

definition close_slice :: "request_end option \<Rightarrow> int list option \<Rightarrow> slice \<Rightarrow> slice \<times> (string \<times> bool) option" where
  "close_slice error open_rows s =
     (if sl_closed s then (s, None)
      else (let stop = (case error of Some (Raised e) \<Rightarrow> Some e | _ \<Rightarrow> sl_stop s);
                result = (case error of
                    Some (Crashed e) \<Rightarrow> ''error''
                  | _ \<Rightarrow> (case stop of Some e \<Rightarrow> lease_result e | None \<Rightarrow> ''completed''));
                result' = (if result \<noteq> ''error'' \<and> open_rows \<noteq> Some [] then ''error'' else result)
            in (s\<lparr>sl_closed := True\<rparr>, Some (result', result' \<noteq> ''error''))))"

end
