(* ===== verification/SliceFacts.thy ===== *)
theory SliceFacts
  imports Slice
begin

text \<open>
  The discipline of the governed transport: what a started slice has been cleared of, that every request is admitted
  under the owner's decision in force, and that a slice stops for good at a block, at its bounds, and after a run of
  failures.
\<close>

section \<open>Gates\<close>

lemma refuse_if_Nil [simp]: "refuse_if bad code = [] \<longleftrightarrow> \<not> bad"
  by (simp add: refuse_if_def)

lemma covers_iff:
  assumes "0 < n"
  shows "covers b n \<longleftrightarrow> bv_phase2 b + n \<le> bv_daily_budget b \<and>
     (\<forall>c. bv_ceiling b = Some c \<longrightarrow> bv_phase2 b + bv_p2 b + bv_reserve b + n \<le> c)"
  using assms by (auto simp: covers_def daily_remaining_def combined_remaining_def split: option.split)

definition permitted :: "slice \<Rightarrow> int \<Rightarrow> moment \<Rightarrow> bool" where
  "permitted s need m \<longleftrightarrow> (\<exists>a. mo_arming m = Some a \<and> ar_armed a \<and> ar_id a = ar_id (sl_arming s) \<and>
     sl_stage s \<in> set (ar_stages a) \<and> map_of stage_kinds (sl_stage s) = Some (sl_kind s)) \<and> covers (mo_budget m) need"

lemma armed_in_force_Some: "armed_in_force a = Some x \<longleftrightarrow> a = Some x \<and> ar_armed x"
  by (auto simp: armed_in_force_def split: option.split)

lemma request_refusals_Nil:
  "request_refusals (mo_arming m) (sl_arming s) (sl_stage s) (sl_kind s) (mo_budget m) need = [] \<longleftrightarrow> permitted s need m"
  by (auto simp: request_refusals_def permitted_def armed_in_force_Some armed_in_force_def split: option.splits if_splits)

lemma admit_Nil:
  "snd (slice_admit need new_work m s) = [] \<longleftrightarrow> sl_stop s = None \<and> \<not> sl_closed s \<and> permitted s need m \<and>
     (sl_kind s = ''json'' \<longrightarrow> sl_json_requests s < ar_slice_max_json (sl_arming s)) \<and>
     (new_work \<longrightarrow> mo_elapsed m < ar_slice_max_seconds (sl_arming s) * second_us)"
  by (auto simp: slice_admit_def admission_refusals_def Let_def request_refusals_Nil)

lemma admit_slice:
  "fst (slice_admit need new_work m s) = s \<or>
     (sl_stop s = None \<and> (\<exists>r. fst (slice_admit need new_work m s) = s\<lparr>sl_stop := Some (RefusedStop r)\<rparr>))"
  by (auto simp: slice_admit_def Let_def)

lemma admit_admitted: "snd (slice_admit need new_work m s) = [] \<Longrightarrow> fst (slice_admit need new_work m s) = s"
  by (auto simp: slice_admit_def Let_def split: if_splits)

section \<open>One attempt\<close>

definition is_sent :: "request_event \<Rightarrow> bool" where
  "is_sent e \<longleftrightarrow> (case e of Sent _ \<Rightarrow> True | _ \<Rightarrow> False)"

definition sends :: "request_event list \<Rightarrow> request_event list" where
  "sends = filter is_sent"

lemma sends_simps [simp]:
  "sends [] = []" "sends (Intent # es) = sends es" "sends (Sent x # es) = Sent x # sends es"
  "sends (Recorded c b # es) = sends es" "sends (xs @ ys) = sends xs @ sends ys"
  by (simp_all add: sends_def is_sent_def)

text \<open>The shape of an attempt: refused, not sent because the journal failed, or sent, and then as the outcome says.\<close>

lemma attempt_cases:
  obtains (refused) r where "attempt rd endpoint item f l en s = ([], fst (slice_admit 1 f (en_moment en) s), Some (Raised (RefusedStop r)))"
      "snd (slice_admit 1 f (en_moment en) s) \<noteq> []"
  | (unsent) "snd (slice_admit 1 f (en_moment en) s) = []" "attempt rd endpoint item f l en s =
      ([Intent, Recorded ''terminal'' False], (note_json_attempt item s)\<lparr>sl_stop := Some DurabilityStop\<rparr>, Some (Raised DurabilityStop))"
  | (crashed) x e where "snd (slice_admit 1 f (en_moment en) s) = []" "attempt rd endpoint item f l en s =
      ([Intent, Sent x], note_outcome (x = ''ok'') (note_json_attempt item s), Some (Crashed e))"
      "x = fst (classify_json (re_loads rd) endpoint (en_exchange en))" "x = ''rate_limited''"
  | (uncommitted) x where "snd (slice_admit 1 f (en_moment en) s) = []" "attempt rd endpoint item f l en s =
      ([Intent, Sent x], stopped_by DurabilityStop (note_outcome (x = ''ok'') (note_json_attempt item s)))"
      "x = fst (classify_json (re_loads rd) endpoint (en_exchange en))"
  | (recorded) x d c where "snd (slice_admit 1 f (en_moment en) s) = []"
      "x = fst (classify_json (re_loads rd) endpoint (en_exchange en))"
      "decide_attempt (sl_policy s) x (retry_after_seconds (re_http_date rd) (ex_retry_after (en_exchange en))
         (mo_wall (en_moment en))) l (tripped (note_outcome (x = ''ok'') (note_json_attempt item s))) = Inr d"
      "attempt rd endpoint item f l en s = ([Intent, Sent x, Recorded c (ad_block d)],
         after_record x d (en_spool en) l (note_outcome (x = ''ok'') (note_json_attempt item s)))"
proof (cases "snd (slice_admit 1 f (en_moment en) s) = []")
  case False
  obtain s1 r where admission: "slice_admit 1 f (en_moment en) s = (s1, r)" by (cases "slice_admit 1 f (en_moment en) s")
  then show ?thesis using refused [of r] False by (simp add: attempt_def)
next
  case True
  note same = admit_admitted [OF True]
  define s3 where "s3 = (\<lambda>x. note_outcome (x = ''ok'') (note_json_attempt item s))"
  define x where "x = fst (classify_json (re_loads rd) endpoint (en_exchange en))"
  define wanted where "wanted = retry_after_seconds (re_http_date rd) (ex_retry_after (en_exchange en)) (mo_wall (en_moment en))"
  have admitted: "slice_admit 1 f (en_moment en) s = (s, [])" using True same by (cases "slice_admit 1 f (en_moment en) s") simp
  note run = attempt_def [of rd endpoint item f l en s, unfolded admitted Let_def prod.case, folded x_def wanted_def]
  show ?thesis
  proof (cases "en_journal en")
    case False
    then show ?thesis using unsent True by (simp add: run stopped_by_def)
  next
    case journal: True
    show ?thesis
    proof (cases "decide_attempt (sl_policy s) x wanted l (tripped (s3 x))")
      case (Inl e)
      then have "x = ''rate_limited''" by (auto simp: decide_attempt_def Let_def bindR_eq_Inl split: if_splits)
      then show ?thesis using crashed True journal Inl by (simp add: run s3_def x_def)
    next
      case (Inr d)
      obtain cls where cls: "outcome_class x (ad_block d) = Inr cls"
        using outcome_class_total [OF classify_json_known] unfolding x_def by blast
      show ?thesis
      proof (cases "en_commit en")
        case False
        then show ?thesis using uncommitted True journal Inr cls by (simp add: run s3_def x_def)
      next
        case True
        then show ?thesis using recorded \<open>snd (slice_admit 1 f (en_moment en) s) = []\<close> journal Inr cls
          by (simp add: run s3_def x_def wanted_def)
      qed
    qed
  qed
qed

section \<open>Traces\<close>

text \<open>The length of the run of failed attempts at the end of a trace, starting from a run of \<open>n\<close>; that no run of a
  trace is longer than \<open>bound\<close>; and that nothing is sent after a block.\<close>

fun run_after :: "nat \<Rightarrow> request_event list \<Rightarrow> nat" where
  "run_after n [] = n"
| "run_after n (Sent x # es) = run_after (if x = ''ok'' then 0 else n + 1) es"
| "run_after n (Intent # es) = run_after n es"
| "run_after n (Recorded c b # es) = run_after n es"

fun runs_within :: "nat \<Rightarrow> nat \<Rightarrow> request_event list \<Rightarrow> bool" where
  "runs_within bound n [] \<longleftrightarrow> n \<le> bound"
| "runs_within bound n (Sent x # es) \<longleftrightarrow> n \<le> bound \<and> runs_within bound (if x = ''ok'' then 0 else n + 1) es"
| "runs_within bound n (Intent # es) \<longleftrightarrow> runs_within bound n es"
| "runs_within bound n (Recorded c b # es) \<longleftrightarrow> runs_within bound n es"

fun silent_after_block :: "request_event list \<Rightarrow> bool" where
  "silent_after_block [] \<longleftrightarrow> True"
| "silent_after_block (Sent x # es) \<longleftrightarrow> (if x = ''blocked'' then sends es = [] else silent_after_block es)"
| "silent_after_block (Intent # es) \<longleftrightarrow> silent_after_block es"
| "silent_after_block (Recorded c b # es) \<longleftrightarrow> silent_after_block es"

lemma run_after_append: "run_after n (xs @ ys) = run_after (run_after n xs) ys"
  by (induction n xs rule: run_after.induct) simp_all

lemma runs_within_end: "runs_within b n xs \<Longrightarrow> run_after n xs \<le> b"
  by (induction b n xs rule: runs_within.induct) simp_all

lemma runs_within_start: "runs_within b n xs \<Longrightarrow> n \<le> b"
  by (induction b n xs rule: runs_within.induct) simp_all

lemma runs_within_append: "runs_within b n (xs @ ys) \<longleftrightarrow> runs_within b n xs \<and> runs_within b (run_after n xs) ys"
  by (induction b n xs rule: runs_within.induct) (auto dest: runs_within_start)

lemma silent_append:
  "silent_after_block (xs @ ys) \<longleftrightarrow> silent_after_block xs \<and>
     (if Sent ''blocked'' \<in> set xs then sends ys = [] else silent_after_block ys)"
  by (induction xs rule: silent_after_block.induct) (auto simp: sends_def is_sent_def filter_empty_conv)

section \<open>What an attempt keeps\<close>

definition frame :: "slice \<Rightarrow> slice \<Rightarrow> bool" where
  "frame s s' \<longleftrightarrow> sl_stage s' = sl_stage s \<and> sl_kind s' = sl_kind s \<and> sl_arming s' = sl_arming s \<and>
     sl_policy s' = sl_policy s \<and> sl_closed s' = sl_closed s"

definition intents :: "request_event list \<Rightarrow> int" where
  "intents es = int (length (filter (\<lambda>e. e = Intent) es))"

lemma intents_simps [simp]: "intents [] = 0" "intents (Intent # es) = 1 + intents es" "intents (Sent x # es) = intents es"
  "intents (Recorded c b # es) = intents es" "intents (xs @ ys) = intents xs + intents ys"
  by (simp_all add: intents_def)

definition within_json :: "slice \<Rightarrow> slice \<Rightarrow> bool" where
  "within_json s s' \<longleftrightarrow> (sl_kind s = ''json'' \<longrightarrow>
     sl_json_requests s' \<le> max (sl_json_requests s) (ar_slice_max_json (sl_arming s)))"

definition kept :: "slice \<Rightarrow> request_event list \<Rightarrow> slice \<Rightarrow> bool \<Rightarrow> bool" where
  "kept s evs s' crashed \<longleftrightarrow> frame s s' \<and> int (length (sends evs)) \<le> intents evs \<and> sl_failures s' = run_after (sl_failures s) evs \<and>
     sl_json_requests s' = sl_json_requests s + intents evs \<and> within_json s s' \<and>
     (evs \<noteq> [] \<longrightarrow> sl_stop s = None \<and> \<not> sl_closed s) \<and> (sl_stop s \<noteq> None \<longrightarrow> sl_stop s' = sl_stop s) \<and>
     (sl_stop s = None \<longrightarrow> sl_failures s < po_max_failures (sl_policy s) \<longrightarrow>
        runs_within (po_max_failures (sl_policy s)) (sl_failures s) evs \<and>
        (\<not> crashed \<and> sl_stop s' = None \<longrightarrow> sl_failures s' < po_max_failures (sl_policy s))) \<and>
     silent_after_block evs \<and> (Sent ''blocked'' \<in> set evs \<longrightarrow> sl_stop s' \<noteq> None)"

lemma note_simps [simp]:
  "sl_stop (note_outcome ok s) = sl_stop s" "sl_stop (note_json_attempt item s) = sl_stop s"
  "sl_policy (note_outcome ok s) = sl_policy s" "sl_policy (note_json_attempt item s) = sl_policy s"
  "sl_failures (note_outcome ok s) = (if ok then 0 else sl_failures s + 1)"
  "sl_failures (note_json_attempt item s) = sl_failures s"
  "sl_json_requests (note_outcome ok s) = sl_json_requests s"
  "sl_json_requests (note_json_attempt item s) = sl_json_requests s + 1"
  "frame s0 (note_outcome ok s) = frame s0 s" "frame s0 (note_json_attempt item s) = frame s0 s"
  by (simp_all add: note_outcome_def note_json_attempt_def frame_def)

lemma frame_simps [simp]: "frame s s" "frame s (s'\<lparr>sl_stop := x\<rparr>) = frame s s'"
  by (simp_all add: frame_def)

lemma decide_attempt_Inr:
  assumes "decide_attempt p x w l t = Inr d"
  shows "(x = ''blocked'' \<longrightarrow> ad_block d) \<and> (x \<noteq> ''ok'' \<and> t \<longrightarrow> ad_block d \<or> ad_circuit d) \<and>
     (x = ''ok'' \<longrightarrow> \<not> ad_block d \<and> \<not> ad_circuit d)"
  using assms by (auto simp: decide_attempt_def bindR_eq_Inr Let_def)

lemma after_record_slice:
  assumes "after_record x d spooled l s = (s', r)"
  shows "(s' = s \<or> (\<exists>e. s' = s\<lparr>sl_stop := Some e\<rparr>)) \<and> (ad_block d \<longrightarrow> sl_stop s' = Some BlockedStop) \<and>
     (ad_circuit d \<and> x \<noteq> ''ok'' \<longrightarrow> sl_stop s' \<noteq> None) \<and> (r = None \<longrightarrow> s' = s \<and> x \<noteq> ''ok'' \<and> \<not> ad_block d \<and> \<not> ad_circuit d) \<and>
     (\<forall>e. r \<noteq> Some (Crashed e))"
  using assms by (auto simp: after_record_def stopped_by_def split: if_splits)

definition is_crash :: "request_end option \<Rightarrow> bool" where
  "is_crash r \<longleftrightarrow> (\<exists>e. r = Some (Crashed e))"

lemma attempt_kept:
  assumes "attempt rd endpoint item f l en s = (evs, s', r)"
  shows "kept s evs s' (is_crash r) \<and> (r = None \<longrightarrow> sl_stop s' = None) \<and>
     (sends evs \<noteq> [] \<longrightarrow> permitted s 1 (en_moment en)) \<and> (r = None \<longrightarrow> sends evs \<noteq> []) \<and> length (sends evs) \<le> 1"
proof (cases rule: attempt_cases [where rd = rd and endpoint = endpoint and item = item and f = f and l = l and en = en and s = s])
  case (refused q)
  then show ?thesis using assms admit_slice [of 1 f "en_moment en" s]
    by (auto simp: kept_def within_json_def is_crash_def)
next
  case unsent
  then show ?thesis using assms by (auto simp: kept_def within_json_def is_crash_def admit_Nil)
next
  case (crashed x e)
  then show ?thesis using assms by (auto simp: kept_def within_json_def is_crash_def admit_Nil)
next
  case (uncommitted x)
  then show ?thesis using assms by (auto simp: kept_def within_json_def is_crash_def admit_Nil stopped_by_def)
next
  case (recorded x d c)
  define s3 where "s3 = note_outcome (x = ''ok'') (note_json_attempt item s)"
  have parts: "evs = [Intent, Sent x, Recorded c (ad_block d)]" "after_record x d (en_spool en) l s3 = (s', r)"
    using assms recorded(4) by (auto simp: s3_def)
  note rec = after_record_slice [OF parts(2)] and dec = decide_attempt_Inr [OF recorded(3) [folded s3_def]]
  have same: "frame s s' \<and> sl_failures s' = sl_failures s3 \<and> sl_json_requests s' = sl_json_requests s3"
    using conjunct1 [OF rec] by (rule disjE) (auto simp: s3_def)
  have counts: "sl_failures s3 = (if x = ''ok'' then 0 else sl_failures s + 1)" "sl_json_requests s3 = sl_json_requests s + 1"
    "sl_policy s3 = sl_policy s"
    by (simp_all add: s3_def)
  have live: "sl_failures s' < po_max_failures (sl_policy s)"
    if "sl_stop s' = None" "sl_failures s < po_max_failures (sl_policy s)"
  proof (cases "x = ''ok''")
    case True
    then show ?thesis using conjunct1 [OF conjunct2 [OF same]] counts that(2) by simp
  next
    case False
    have "\<not> tripped s3"
    proof
      assume "tripped s3"
      then have "ad_block d \<or> ad_circuit d" using dec False by blast
      then show False using conjunct2 [OF rec] False that(1) by auto
    qed
    then show ?thesis using conjunct1 [OF conjunct2 [OF same]] counts False by (simp add: tripped_def not_le)
  qed
  have blocked: "x = ''blocked'' \<longrightarrow> sl_stop s' \<noteq> None" using rec dec by simp
  have ongoing: "r = None \<longrightarrow> sl_stop s' = None" using rec admit_Nil recorded(1) by (simp add: s3_def)
  have admitted: "sl_stop s = None" "\<not> sl_closed s" "permitted s 1 (en_moment en)"
    "sl_kind s = ''json'' \<longrightarrow> sl_json_requests s < ar_slice_max_json (sl_arming s)"
    using recorded(1) by (simp_all add: admit_Nil)
  have crash: "\<not> is_crash r" using rec by (simp add: is_crash_def)
  show ?thesis
    using same live blocked ongoing admitted crash counts by (auto simp: kept_def within_json_def parts(1))
qed

section \<open>Requests\<close>

lemma kept_refl: "kept s [] s c"
  by (simp add: kept_def within_json_def)

lemma keptD:
  assumes "kept s evs t c"
  shows "frame s t" "int (length (sends evs)) \<le> intents evs" "sl_failures t = run_after (sl_failures s) evs"
    "sl_json_requests t = sl_json_requests s + intents evs" "within_json s t"
    "evs \<noteq> [] \<Longrightarrow> sl_stop s = None" "evs \<noteq> [] \<Longrightarrow> \<not> sl_closed s" "sl_stop s \<noteq> None \<Longrightarrow> sl_stop t = sl_stop s"
    "\<lbrakk>sl_stop s = None; sl_failures s < po_max_failures (sl_policy s)\<rbrakk> \<Longrightarrow>
       runs_within (po_max_failures (sl_policy s)) (sl_failures s) evs"
    "\<lbrakk>sl_stop s = None; sl_failures s < po_max_failures (sl_policy s); \<not> c; sl_stop t = None\<rbrakk> \<Longrightarrow>
       sl_failures t < po_max_failures (sl_policy s)"
    "silent_after_block evs" "Sent ''blocked'' \<in> set evs \<Longrightarrow> sl_stop t \<noteq> None"
  using assms unfolding kept_def by blast+

lemma kept_append:
  assumes first: "kept s xs t False" and live: "sl_stop t = None" and second: "kept t ys u c"
  shows "kept s (xs @ ys) u c"
proof -
  note one = keptD [OF first] and two = keptD [OF second]
  have fixed: "sl_kind t = sl_kind s" "sl_arming t = sl_arming s" "sl_policy t = sl_policy s" "sl_closed t = sl_closed s"
    using one(1) by (simp_all add: frame_def)
  have start: "sl_stop s = None" using one(8) live by metis
  have frame: "frame s u" using one(1) two(1) by (simp add: frame_def)
  have failures: "sl_failures u = run_after (sl_failures s) (xs @ ys)"
    by (simp only: two(3) one(3) run_after_append)
  have count: "sl_json_requests u = sl_json_requests s + intents (xs @ ys)" by (simp add: two(4) one(4))
  have sent: "int (length (sends (xs @ ys))) \<le> intents (xs @ ys)" using one(2) two(2) by simp
  have json: "within_json s u" using one(5) two(5) by (auto simp: within_json_def fixed)
  have quiet: "Sent ''blocked'' \<notin> set xs" using one(12) live by blast
  have bound: "runs_within (po_max_failures (sl_policy s)) (sl_failures s) (xs @ ys)"
    if "sl_failures s < po_max_failures (sl_policy s)"
    using one(9,10) [OF start that] two(9) live by (simp add: runs_within_append fixed one(3))
  have below: "sl_failures u < po_max_failures (sl_policy s)"
    if "sl_failures s < po_max_failures (sl_policy s)" "\<not> c" "sl_stop u = None"
    using one(10) [OF start that(1) _ live] two(10) [OF live] that(2,3) by (simp add: fixed)
  have closed: "\<not> sl_closed s" if "xs @ ys \<noteq> []" using one(7) two(7) that by (auto simp: fixed)
  have "silent_after_block (xs @ ys)" using one(11) two(11) quiet by (simp add: silent_append)
  moreover have "sl_stop u \<noteq> None" if "Sent ''blocked'' \<in> set (xs @ ys)" using two(12) quiet that by auto
  ultimately show ?thesis
    unfolding kept_def using frame failures count sent json bound below closed start by blast
qed

lemma permitted_frame: "frame s t \<Longrightarrow> permitted t need m = permitted s need m"
  by (simp add: permitted_def frame_def)

definition crashed_end :: "request_end \<Rightarrow> bool" where
  "crashed_end r \<longleftrightarrow> (case r of Crashed _ \<Rightarrow> True | _ \<Rightarrow> False)"

lemma is_crash_Some [simp]: "is_crash (Some r) = crashed_end r" "\<not> is_crash None"
  by (simp_all add: is_crash_def crashed_end_def split: request_end.split)

lemma attempts_from_kept:
  "attempts_from rd endpoint item world i n s = (evs, s', r) \<Longrightarrow>
     kept s evs s' (crashed_end r) \<and> length (sends evs) \<le> n \<and>
     (\<forall>k < length (sends evs). permitted s 1 (en_moment (world (i + k))))"
proof (induction n arbitrary: i s evs)
  case 0
  then show ?case by (auto simp: kept_refl)
next
  case (Suc n)
  obtain xs t e where first: "attempt rd endpoint item (i = 0) (n = 0) (world i) s = (xs, t, e)"
    by (cases "attempt rd endpoint item (i = 0) (n = 0) (world i) s")
  note one = attempt_kept [OF first]
  show ?case
  proof (cases e)
    case (Some q)
    then have "evs = xs" "s' = t" "r = q" using Suc.prems first by simp_all
    then show ?thesis using one Some by (auto simp: le_Suc_eq length_Suc_conv less_Suc_eq)
  next
    case None
    obtain ys where rest: "attempts_from rd endpoint item world (Suc i) n t = (ys, s', r)" "evs = xs @ ys"
      using Suc.prems first None by (auto split: prod.splits)
    note others = Suc.IH [OF rest(1)]
    have frame: "frame s t" and live: "sl_stop t = None" and sent: "length (sends xs) = 1"
      using one None by (auto simp: kept_def le_Suc_eq)
    have "permitted s 1 (en_moment (world (i + k)))" if "k < length (sends evs)" for k
      using that others one None sent by (cases k) (auto simp: rest(2) permitted_frame [OF frame])
    then show ?thesis using kept_append [OF _ live] one None others sent by (auto simp: rest(2))
  qed
qed

text \<open>C2: A request of the governed transport sends at most what its item has left in this slice, and every HTTP request
  it sends, retries included, had just been admitted: under an armed owner decision with the very id the slice started
  under, for the slice's own stage and kind, with the day's budgets covering it, in a slice that was open and had not
  stopped.\<close>

theorem request_governed:
  assumes "request rd endpoint params item world s = (evs, s', r)"
  shows "int (length (sends evs)) \<le> max 0 (json_attempts_left item s) \<and>
    (\<forall>k < length (sends evs). permitted s 1 (en_moment (world k))) \<and>
    (sends evs \<noteq> [] \<longrightarrow> check_request rd endpoint params (sl_arming s) = [] \<and> sl_stop s = None \<and> \<not> sl_closed s)"
proof (cases "check_request rd endpoint params (sl_arming s) = [] \<and> 0 < json_attempts_left item s")
  case True
  then have run: "attempts_from rd endpoint item world 0 (nat (json_attempts_left item s)) s = (evs, s', r)"
    using assms by (simp add: request_def Let_def)
  note all = attempts_from_kept [OF run]
  then have "evs \<noteq> [] \<longrightarrow> sl_stop s = None \<and> \<not> sl_closed s" by (simp add: kept_def)
  then show ?thesis using True all by auto
next
  case False
  then have "evs = []" using assms by (auto simp: request_def Let_def split: if_splits)
  then show ?thesis by simp
qed

lemma request_kept:
  assumes "request rd endpoint params item world s = (evs, s', r)"
  shows "kept s evs s' (crashed_end r)"
  using assms attempts_from_kept kept_refl by (fastforce simp: request_def Let_def split: if_splits)

end
