(* ===== verification/SliceRuns.thy ===== *)
theory SliceRuns
  imports SliceFacts
begin

text \<open>
  Whole slices of the governed transport: every sequence of claims, requests, document starts and a close, in any
  order and with any answers of CSE, PostgreSQL, the journal and the spool.
\<close>

section \<open>The runs of a slice\<close>

text \<open>A slice is used inside its \<open>with\<close> block: an exception the transport does not raise itself leaves the block, which
  closes the slice.\<close>

inductive slice_run :: "readers \<Rightarrow> slice \<Rightarrow> request_event list \<Rightarrow> slice \<Rightarrow> bool" for rd :: readers and s0 :: slice where
  opens: "slice_run rd s0 [] s0"
| claims: "slice_run rd s0 evs s \<Longrightarrow> slice_run rd s0 evs (fst (claim_admitted m n s))"
| requests: "slice_run rd s0 evs s \<Longrightarrow> request rd endpoint params item world s = (es, s', r) \<Longrightarrow> \<not> crashed_end r \<Longrightarrow>
    slice_run rd s0 (evs @ es) s'"
| crashes: "slice_run rd s0 evs s \<Longrightarrow> request rd endpoint params item world s = (es, s', Crashed x) \<Longrightarrow>
    slice_run rd s0 (evs @ es) (fst (close_slice (Some (Crashed x)) rows s'))"
| documents: "slice_run rd s0 evs s \<Longrightarrow> slice_run rd s0 evs (fst (begin_document item m s))"
| closes: "slice_run rd s0 evs s \<Longrightarrow> slice_run rd s0 evs (fst (close_slice error rows s))"

text \<open>What every run of an opened slice keeps.\<close>

definition disciplined :: "slice \<Rightarrow> request_event list \<Rightarrow> slice \<Rightarrow> bool" where
  "disciplined s0 evs s \<longleftrightarrow> sl_kind s = sl_kind s0 \<and> sl_arming s = sl_arming s0 \<and> sl_policy s = sl_policy s0 \<and>
     sl_failures s = run_after 0 evs \<and> sl_json_requests s = intents evs \<and> int (length (sends evs)) \<le> intents evs \<and>
     (sl_kind s0 = ''json'' \<longrightarrow> intents evs \<le> max 0 (ar_slice_max_json (sl_arming s0))) \<and>
     runs_within (po_max_failures (sl_policy s0)) 0 evs \<and>
     (sl_stop s = None \<and> \<not> sl_closed s \<longrightarrow> sl_failures s < po_max_failures (sl_policy s0)) \<and>
     silent_after_block evs \<and> (Sent ''blocked'' \<in> set evs \<longrightarrow> sl_stop s \<noteq> None)"

text \<open>An operation that sends nothing and reopens nothing.\<close>

definition idle :: "slice \<Rightarrow> slice \<Rightarrow> bool" where
  "idle s s' \<longleftrightarrow> sl_kind s' = sl_kind s \<and> sl_arming s' = sl_arming s \<and> sl_policy s' = sl_policy s \<and>
     sl_failures s' = sl_failures s \<and> sl_json_requests s' = sl_json_requests s \<and>
     (sl_stop s \<noteq> None \<longrightarrow> sl_stop s' \<noteq> None) \<and> (sl_closed s \<longrightarrow> sl_closed s')"

lemma idle_refl: "idle s s"
  by (simp add: idle_def)

lemma idle_admit: "idle s (fst (slice_admit need new_work m s))"
  by (simp add: idle_def slice_admit_def Let_def)

lemma idle_claim: "idle s (fst (claim_admitted m n s))"
  using idle_admit [of s "worst_case (sl_kind s)" True m] by (auto simp: claim_admitted_def split: prod.split)

lemma idle_close: "idle s (fst (close_slice error rows s))"
  by (simp add: idle_def close_slice_def Let_def)

lemma idle_document: "idle s (fst (begin_document item m s))"
  using idle_admit [of s document_worst_case_requests True m]
  by (auto simp: begin_document_def idle_def split: prod.split)

lemma disciplined_idle:
  assumes "disciplined s0 evs s" "idle s s'"
  shows "disciplined s0 evs s'"
  using assms unfolding disciplined_def idle_def by (auto simp: disciplined_def)

lemma disciplined_request:
  assumes d: "disciplined s0 evs s" and k: "kept s es s' c" and c: "c \<Longrightarrow> sl_closed t" and t: "idle s' t"
  shows "disciplined s0 (evs @ es) t"
proof -
  note kept = keptD [OF k]
  have same: "sl_kind t = sl_kind s0" "sl_arming t = sl_arming s0" "sl_policy t = sl_policy s0"
    "sl_kind s = sl_kind s0" "sl_arming s = sl_arming s0" "sl_policy s = sl_policy s0"
    and ran: "sl_failures s = run_after 0 evs" and made: "sl_json_requests s = intents evs"
    using d kept(1) t by (simp_all add: disciplined_def frame_def idle_def)
  have counts: "sl_failures t = run_after 0 (evs @ es)" "sl_json_requests t = intents (evs @ es)"
    using kept(3,4) t ran made by (simp_all add: idle_def run_after_append)
  have sent: "int (length (sends (evs @ es))) \<le> intents (evs @ es)" using d kept(2) by (simp add: disciplined_def)
  have json: "intents (evs @ es) \<le> max 0 (ar_slice_max_json (sl_arming s0))" if "sl_kind s0 = ''json''"
    using kept(4,5) d same that made by (auto simp: within_json_def disciplined_def)
  have closed: "sl_closed t" if "sl_closed s" using kept(1) t that by (simp add: frame_def idle_def)
  have stop: "sl_stop t \<noteq> None" if "sl_stop s' \<noteq> None" using t that by (simp add: idle_def)
  have within: "runs_within (po_max_failures (sl_policy s0)) 0 (evs @ es)"
  proof (cases "es = []")
    case True
    then show ?thesis using d by (simp add: disciplined_def)
  next
    case False
    have "sl_stop s = None" "\<not> sl_closed s" using kept(6,7) False by simp_all
    then have "sl_failures s < po_max_failures (sl_policy s)" using d same by (simp add: disciplined_def)
    then show ?thesis using kept(9) \<open>sl_stop s = None\<close> d same ran by (simp add: runs_within_append disciplined_def)
  qed
  have live: "sl_failures t < po_max_failures (sl_policy s0)" if "sl_stop t = None" "\<not> sl_closed t"
  proof -
    have "sl_stop s' = None" "sl_stop s = None" "\<not> sl_closed s" "\<not> c"
      using that stop closed c kept(8) by (metis, metis, metis, metis)
    moreover have "sl_failures s < po_max_failures (sl_policy s)" using d same calculation by (simp add: disciplined_def)
    ultimately show ?thesis using kept(10) t same by (simp add: idle_def)
  qed
  have "silent_after_block (evs @ es) \<and> (Sent ''blocked'' \<in> set (evs @ es) \<longrightarrow> sl_stop t \<noteq> None)"
  proof (cases "Sent ''blocked'' \<in> set evs")
    case True
    then have stopped: "sl_stop s \<noteq> None" using d by (simp add: disciplined_def)
    then have "es = []" using kept(6) by (cases "es = []") simp_all
    moreover have "sl_stop t \<noteq> None" using stop kept(8) stopped by metis
    ultimately show ?thesis using d by (simp add: disciplined_def)
  next
    case False
    then show ?thesis using d kept(11,12) stop by (auto simp: silent_append disciplined_def)
  qed
  then show ?thesis unfolding disciplined_def using same(1-3) counts sent json within live by blast
qed

lemma slice_run_disciplined:
  assumes "slice_run rd s0 evs s" "disciplined s0 [] s0"
  shows "disciplined s0 evs s"
  using assms(1)
proof (induction rule: slice_run.induct)
  case opens
  then show ?case using assms(2) .
next
  case (requests evs s endpoint params item world es s' r)
  show ?case using disciplined_request [OF requests.IH request_kept [OF requests.hyps(2)] _ idle_refl] requests.hyps(3) by blast
next
  case (crashes evs s endpoint params item world es s' x rows)
  show ?case using disciplined_request [OF crashes.IH request_kept [OF crashes.hyps(2)] _ idle_close]
    by (simp add: close_slice_def Let_def)
next
  case (claims evs s m n)
  then show ?case using disciplined_idle idle_claim by blast
next
  case (documents evs s item m)
  then show ?case using disciplined_idle idle_document by blast
next
  case (closes evs s error rows)
  then show ?case using disciplined_idle idle_close by blast
qed

text \<open>C1: The request discipline of a whole slice. Whatever CSE answers and whatever fails, a JSON slice under a checked
  policy makes no more HTTP requests than its arming allows it, never more than the policy's number of failed requests
  in a row, and none at all after CSE refused one (HTTP 401, 403, 407 or 451); once the slice has stopped or closed, no
  request of it sends anything.\<close>

theorem slice_discipline:
  assumes "mk_policy p = Inr p" "slice_run rd (open_slice stage kind a p) evs s"
  shows "(kind = ''json'' \<longrightarrow> int (length (sends evs)) \<le> max 0 (ar_slice_max_json a)) \<and>
    runs_within (po_max_failures p) 0 evs \<and> silent_after_block evs \<and>
    (sl_stop s \<noteq> None \<or> sl_closed s \<longrightarrow> sends (fst (request rd endpoint params item world s)) = [])"
proof -
  have "1 \<le> po_max_failures p"
    using assms(1) by (auto simp: mk_policy_def guardR_def bounded_def split: if_splits)
  then have "disciplined (open_slice stage kind a p) [] (open_slice stage kind a p)"
    by (simp add: disciplined_def open_slice_def)
  then have d: "disciplined (open_slice stage kind a p) evs s" using slice_run_disciplined [OF assms(2)] by simp
  obtain es s' r where req: "request rd endpoint params item world s = (es, s', r)"
    by (cases "request rd endpoint params item world s")
  have "sends es = []" if "sl_stop s \<noteq> None \<or> sl_closed s" using request_governed [OF req] that by blast
  then show ?thesis using d req unfolding disciplined_def by (auto simp: open_slice_def)
qed

end
