(* ===== verification/Opening.thy ===== *)
theory Opening
  imports SliceRuns
begin

text \<open>
  How a slice starts (\<open>open_slice\<close> and \<open>snapshot\<close> of \<open>backfill_transport/slice.py\<close>): what it reads from PostgreSQL
  (\<open>backfill_transport/ledger.py\<close>) for the gates, P2's lock, the wake-up, the recovery of dead slices, the gates again
  under the lock, the lease; and what is undone when it does not start.
\<close>

section \<open>The reads\<close>

definition p3_final_states :: "string list" where
  "p3_final_states = [''succeeded'', ''missed'', ''not_applicable'']"

text \<open>P3's settings row in force: armed, earliest start, window close, request budget.\<close>

type_synonym p3_settings = "bool \<times> int \<times> int \<times> int option"

definition or_zero :: "int option \<Rightarrow> int" where
  "or_zero n = (case n of None \<Rightarrow> 0 | Some v \<Rightarrow> v)"

definition p3_view_of :: "p3_settings option \<Rightarrow> string option \<Rightarrow> string option \<Rightarrow> p3_view" where
  "p3_view_of settings market item =
     (let closed = market = Some ''closed'' in
      case settings of
        None \<Rightarrow> \<lparr>pv_armed = False, pv_earliest_start = 0, pv_window_close = 0, pv_daily_budget = 0,
                 pv_closed_today = closed, pv_item_final = False\<rparr>
      | Some (armed, earliest, close, budget) \<Rightarrow>
          \<lparr>pv_armed = armed, pv_earliest_start = earliest, pv_window_close = close, pv_daily_budget = or_zero budget,
           pv_closed_today = closed, pv_item_final = item \<in> Some ` set p3_final_states\<rparr>)"

definition budget_view_of :: "int \<Rightarrow> int \<Rightarrow> int \<Rightarrow> arming \<Rightarrow> p3_view \<Rightarrow> budget_view" where
  "budget_view_of phase2 p2 today a p3 =
     \<lparr>bv_phase2 = phase2, bv_p2 = p2, bv_daily_budget = or_zero (ar_daily_budget a), bv_ceiling = ar_combined_ceiling a,
      bv_reserve = p3_reserve p3 today\<rparr>"

text \<open>What PostgreSQL, the host and the configuration answer at one snapshot. \<open>re_results\<close> are the stage's completed
  leases since the arming in force, newest first.\<close>

record reading =
  re_now :: instant
  re_arming :: "arming option"
  re_contact_problem :: bool
  re_user_agent :: "string option"
  re_hostname :: string
  re_versions :: "(string \<times> string) list"
  re_problems :: nat
  re_phase2_blocks :: "int list"
  re_p2_blocks :: "string list"
  re_unblocked :: "int list"
  re_results :: "string list"
  re_phase2_requests :: int
  re_p2_requests :: int
  re_p3_settings :: "p3_settings option"
  re_market :: "string option"
  re_p3_item :: "string option"
  re_synchronized :: "bool option"
  re_runner_time :: "instant option"

definition snapshot :: "string \<Rightarrow> string \<Rightarrow> reading \<Rightarrow> start_snapshot" where
  "snapshot stage kind r =
     (let today = colombo_day (re_now r); p3 = p3_view_of (re_p3_settings r) (re_market r) (re_p3_item r);
          armed = armed_in_force (re_arming r)
      in \<lparr>sp_now = re_now r, sp_stage = stage, sp_kind = kind, sp_arming = re_arming r,
          sp_contact_problem = re_contact_problem r, sp_user_agent = re_user_agent r, sp_hostname = re_hostname r,
          sp_versions = re_versions r, sp_preflight_problems = re_problems r, sp_phase2_blocks = re_phase2_blocks r,
          sp_p2_blocks = re_p2_blocks r, sp_unblocked_block_attempts = re_unblocked r,
          sp_stage_stopped = (armed \<noteq> None \<and> stage_stopped (take 10 (re_results r)) stopped_stage_slices),
          sp_budget = map_option (\<lambda>a. budget_view_of (re_phase2_requests r) (re_p2_requests r) today a p3) armed,
          sp_p3 = p3, sp_synchronized = re_synchronized r, sp_last_runner_time = re_runner_time r\<rparr>)"

section \<open>The start\<close>

text \<open>The answers of the world to a start: the first reading, the decision read after it, P2's lock (taken, and held
  exclusively), the row of a skipped wake-up, the wake-up row, the recovery, the reading under the lock, the policy of the
  environment, the lease, the slice object with its throttle, and the clean-up of a failed start (the rollback and, if the
  wake-up started, its closing row). False: an exception is raised there.\<close>

record start_world =
  sw_first :: reading
  sw_arming :: "arming option"
  sw_lock :: bool
  sw_skipped :: bool
  sw_exclusive :: bool
  sw_wakeup :: bool
  sw_recovered :: bool
  sw_second :: reading
  sw_policy :: "policy res"
  sw_lease :: bool
  sw_seeded :: bool
  sw_cleaned :: bool

datatype start_event = Skipped | LockTaken | WakeupStarted | Recovered | LeaseOpened | WakeupFinished string | LockReleased

datatype start_result = Opened slice | SliceRefused "string list" | SliceBusy | StartFailed

text \<open>What the handler of every exception under the lock does, and what it raises: an exception of its own replaces the
  first one. The lock is released in any case.\<close>

definition abandon_start :: "bool \<Rightarrow> bool \<Rightarrow> start_result \<Rightarrow> start_event list \<times> start_result" where
  "abandon_start cleaned wakeup_started result =
     (if \<not> cleaned then ([LockReleased], StartFailed)
      else ((if wakeup_started then [WakeupFinished (case result of SliceRefused _ \<Rightarrow> ''refused'' | _ \<Rightarrow> ''error'')] else []) @ [LockReleased],
        result))"

text \<open>The part under the lock: the events, and the result.\<close>

definition start_locked :: "string \<Rightarrow> string \<Rightarrow> arming \<Rightarrow> start_world \<Rightarrow> start_event list \<times> start_result" where
  "start_locked stage kind a w =
     (if \<not> sw_exclusive w then ([], SliceRefused [''lock''])
      else if \<not> sw_wakeup w then ([], StartFailed)
      else if \<not> sw_recovered w then ([WakeupStarted], StartFailed)
      else (let snap = snapshot stage kind (sw_second w); refusals = start_refusals snap;
                refusals' = (if refusals = [] \<and> map_option ar_id (sp_arming snap) \<noteq> Some (ar_id a)
                             then [''arming_changed''] else refusals) in
        if refusals' \<noteq> [] then ([WakeupStarted, Recovered], SliceRefused refusals')
        else (case bindR (sw_policy w) mk_policy of
            Inl e \<Rightarrow> ([WakeupStarted, Recovered], StartFailed)
          | Inr p \<Rightarrow>
              if \<not> sw_lease w then ([WakeupStarted, Recovered], StartFailed)
              else if \<not> sw_seeded w then ([WakeupStarted, Recovered, LeaseOpened], StartFailed)
              else ([WakeupStarted, Recovered, LeaseOpened], Opened (open_slice stage kind a p)))))"

definition start_slice :: "string \<Rightarrow> string \<Rightarrow> start_world \<Rightarrow> start_event list \<times> start_result" where
  "start_slice stage kind w =
     (let refusals = start_refusals (snapshot stage kind (sw_first w)) in
      if refusals \<noteq> [] then ([], SliceRefused refusals)
      else (case sw_arming w of
          None \<Rightarrow> ([], StartFailed)
        | Some a \<Rightarrow>
            if \<not> sw_lock w then (if sw_skipped w then ([Skipped], SliceBusy) else ([], StartFailed))
            else (case start_locked stage kind a w of
                (events, Opened s) \<Rightarrow> (LockTaken # events, Opened s)
              | (events, other) \<Rightarrow>
                  (let (undone, raised) = abandon_start (sw_cleaned w) (WakeupStarted \<in> set events) other
                   in (LockTaken # events @ undone, raised)))))"

section \<open>Facts\<close>








text \<open>C12: A start that is refused, finds P2's lock taken, or fails at any step leaves no lock behind: the lock is released
  if it was taken, last of all, even when the clean-up fails too. Unless the clean-up fails, the wake-up it started is
  finished, as refused or as an error; when it fails, the caller sees a failure, and the wake-up stays open for the next
  start to expire. No lease has been opened, except when the failure comes after the lease, in making the slice object; that
  lease stays, for the next start to expire.\<close>

theorem failed_start_releases:
  assumes "start_slice stage kind w = (evs, result)" "\<forall>s. result \<noteq> Opened s"
  shows "count_list evs LockReleased = count_list evs LockTaken \<and>
    (LockTaken \<in> set evs \<longrightarrow> hd evs = LockTaken \<and> last evs = LockReleased) \<and>
    (if sw_cleaned w \<or> LockTaken \<notin> set evs
     then WakeupStarted \<in> set evs \<longleftrightarrow> WakeupFinished (if \<exists>c. result = SliceRefused c then ''refused'' else ''error'') \<in> set evs
     else result = StartFailed \<and> (\<forall>x. WakeupFinished x \<notin> set evs)) \<and>
    (LeaseOpened \<in> set evs \<longrightarrow> \<not> sw_seeded w \<and> result = StartFailed) \<and>
    (result = SliceBusy \<longrightarrow> evs = [Skipped])"
  using assms
  by (auto simp: start_slice_def start_locked_def abandon_start_def Let_def
      split: if_splits option.splits prod.splits start_result.splits sum.splits)

end
