(* ===== verification/TransportSamples.thy ===== *)
theory TransportSamples
  imports Opening
begin

text \<open>
  One concrete slice of the governed transport: an armed decision, the readings at its start, and the exchanges of its
  requests. The theorems of the transport are applied to it.
\<close>

section \<open>A started slice\<close>

definition sample_arming :: arming where
  "sample_arming =
     \<lparr>ar_id = 4, ar_armed = True, ar_stages = [''HB-S2''], ar_window_first = Some 20000, ar_window_last = Some 20700,
      ar_daily_budget = Some 200, ar_combined_ceiling = Some 900, ar_slice_max_json = 3, ar_slice_max_documents = 2,
      ar_slice_max_seconds = 600, ar_attempts_json = 3, ar_attempts_document = 2, ar_item_max = Some 5,
      ar_user_agent = Some ''cse-analysis-capture'', ar_host = Some ''node1'', ar_versions = [(''hb.transport'', ''1'')]\<rparr>"

text \<open>Tuesday 20 October 2026, 12:00 in Colombo; P3 is armed from 16:30 to 20:00 with 400 requests, and has not captured yet.\<close>

definition noon_reading :: reading where
  "noon_reading =
     \<lparr>re_now = 1792477800000000, re_arming = Some sample_arming, re_contact_problem = False,
      re_user_agent = Some ''cse-analysis-capture'', re_hostname = ''node1'', re_versions = [(''hb.transport'', ''1'')],
      re_problems = 0, re_phase2_blocks = [], re_p2_blocks = [], re_unblocked = [],
      re_results = [''completed'', ''circuit_open''], re_phase2_requests = 120, re_p2_requests = 300,
      re_p3_settings = Some (True, 59400000000, 72000000000, Some 400), re_market = None, re_p3_item = Some ''pending'',
      re_synchronized = Some True, re_runner_time = Some 1792477700000000\<rparr>"

definition sample_policy :: policy where
  "sample_policy =
     \<lparr>po_min_interval = 1500000, po_backoff_base = 5000000, po_backoff_max = 120000000, po_retry_after_max = 300000000,
      po_max_failures = 2\<rparr>"

definition sample_start :: start_world where
  "sample_start =
     \<lparr>sw_first = noon_reading, sw_arming = Some sample_arming, sw_lock = True, sw_skipped = True, sw_exclusive = True, sw_wakeup = True,
      sw_recovered = True, sw_second = noon_reading, sw_policy = Inr sample_policy, sw_lease = True, sw_seeded = True, sw_cleaned = True\<rparr>"

definition sample_slice :: slice where
  "sample_slice = open_slice ''HB-S2'' ''json'' sample_arming sample_policy"


lemma sample_disarmed:
  "start_slice ''HB-S2'' ''json'' (sample_start\<lparr>sw_second := noon_reading\<lparr>re_arming := Some (sample_arming\<lparr>ar_armed := False\<rparr>)\<rparr>\<rparr>) =
     ([LockTaken, WakeupStarted, Recovered, WakeupFinished ''refused'', LockReleased], SliceRefused [''disarmed''])"
  by code_simp

section \<open>Its requests\<close>

definition sample_readers :: readers where
  "sample_readers =
     \<lparr>re_loads = (\<lambda>b. if b = ''{}'' then Some (JObj [(''reqFinancialAnnouncemnets'', JArr [])]) else None),
      re_http_date = (\<lambda>_. None),
      re_iso_date = (\<lambda>d. if d = ''2026-01-01'' then Some 20454 else if d = ''2026-01-31'' then Some 20484 else None)\<rparr>"

definition answer :: "int \<Rightarrow> string \<Rightarrow> string option \<Rightarrow> exchange" where
  "answer status body retry =
     \<lparr>ex_error_kind = None, ex_status = Some status, ex_body = Some body, ex_retry_after = retry\<rparr>"

text \<open>The world at one attempt: how long the slice has run, and the answer of CSE.\<close>

definition attempt_at :: "int \<Rightarrow> exchange \<Rightarrow> attempt_world" where
  "attempt_at elapsed ex =
     \<lparr>en_moment = \<lparr>mo_arming = Some sample_arming, mo_budget = budget_view_of 120 300 20746 sample_arming
         (p3_view_of (re_p3_settings noon_reading) None (Some ''pending'')),
         mo_elapsed = elapsed, mo_wall = 1792477800000000 + elapsed\<rparr>,
      en_journal = True, en_exchange = ex, en_spool = True, en_commit = True\<rparr>"

definition sample_params :: "(string \<times> string) list" where
  "sample_params = [(''fromDate'', ''2026-01-01''), (''toDate'', ''2026-01-31'')]"

definition sample_request :: "(nat \<Rightarrow> attempt_world) \<Rightarrow> slice \<Rightarrow> request_event list \<times> slice \<times> request_end" where
  "sample_request = request sample_readers feed_endpoint sample_params ''window:2026-01''"

definition busy_then_ok :: "nat \<Rightarrow> attempt_world" where
  "busy_then_ok k = attempt_at (int k * 10000000) (if k = 0 then answer 503 ''oops'' None else answer 200 ''{}'' None)"

definition refused_world :: "nat \<Rightarrow> attempt_world" where
  "refused_world k = attempt_at 20000000 (answer 403 ''no'' None)"

definition after_ok :: slice where
  "after_ok = fst (snd (sample_request busy_then_ok sample_slice))"

lemma sample_request_ok:
  "sample_request busy_then_ok sample_slice =
     ([Intent, Sent ''server_error'', Recorded ''retryable'' False, Intent, Sent ''ok'', Recorded ''ok'' False],
      after_ok, Answered True)"
  by code_simp

definition second_request :: "request_event list \<times> slice \<times> request_end" where
  "second_request = request sample_readers feed_endpoint sample_params ''window:2026-02'' refused_world after_ok"

definition after_block :: slice where
  "after_block = fst (snd second_request)"

lemma sample_request_blocked:
  "second_request = ([Intent, Sent ''blocked'', Recorded ''block'' True], after_block, Raised BlockedStop)"
  by code_simp

lemma sample_run:
  "slice_run sample_readers sample_slice
     ([Intent, Sent ''server_error'', Recorded ''retryable'' False, Intent, Sent ''ok'', Recorded ''ok'' False] @
      [Intent, Sent ''blocked'', Recorded ''block'' True]) after_block"
proof (rule slice_run.requests)
  show "slice_run sample_readers sample_slice
      [Intent, Sent ''server_error'', Recorded ''retryable'' False, Intent, Sent ''ok'', Recorded ''ok'' False] after_ok"
    using slice_run.requests [OF slice_run.opens sample_request_ok [unfolded sample_request_def]]
    by (simp add: crashed_end_def)
  show "request sample_readers feed_endpoint sample_params ''window:2026-02'' refused_world after_ok =
      ([Intent, Sent ''blocked'', Recorded ''block'' True], after_block, Raised BlockedStop)"
    using sample_request_blocked by (simp add: second_request_def)
qed (simp add: crashed_end_def)

section \<open>The theorems at this slice\<close>

theorem request_governed_witness:
  "permitted sample_slice 1 (en_moment (busy_then_ok 0)) \<and> permitted sample_slice 1 (en_moment (busy_then_ok 1))"
  using request_governed [OF sample_request_ok [unfolded sample_request_def]] by simp

theorem slice_discipline_witness:
  "sl_stop after_block = Some BlockedStop \<and> sends (fst (sample_request busy_then_ok after_block)) = []"
proof -
  have stop: "sl_stop after_block = Some BlockedStop" by code_simp
  have "mk_policy sample_policy = Inr sample_policy" by code_simp
  from slice_discipline [OF this sample_run [unfolded sample_slice_def], of feed_endpoint sample_params] stop
  show ?thesis by (simp add: sample_request_def)
qed


definition disarmed_start :: start_world where
  "disarmed_start = sample_start\<lparr>sw_second := noon_reading\<lparr>re_arming := Some (sample_arming\<lparr>ar_armed := False\<rparr>)\<rparr>\<rparr>"

theorem failed_start_releases_witness:
  "\<exists>evs. start_slice ''HB-S2'' ''json'' disarmed_start = (evs, SliceRefused [''disarmed'']) \<and> last evs = LockReleased \<and>
     WakeupFinished ''refused'' \<in> set evs \<and> LeaseOpened \<notin> set evs"
proof -
  have "start_slice ''HB-S2'' ''json'' disarmed_start =
      ([LockTaken, WakeupStarted, Recovered, WakeupFinished ''refused'', LockReleased], SliceRefused [''disarmed''])"
    using sample_disarmed by (simp add: disarmed_start_def)
  with failed_start_releases [OF this] show ?thesis by simp
qed

section \<open>Two behaviours to know\<close>

text \<open>A Retry-After of one superscript digit is a digit for \<open>str.isdigit\<close> and not for \<open>float\<close>: the ValueError leaves the
  request after it was sent and before its outcome is recorded.\<close>

theorem superscript_retry_after_crashes:
  "sample_request (\<lambda>k. attempt_at 0 (answer 429 ''slow down'' (Some [CHR 0xB2]))) sample_slice =
     ([Intent, Sent ''rate_limited''], note_outcome False (note_json_attempt ''window:2026-01'' sample_slice),
      Crashed ValueErr)"
  by code_simp

text \<open>The slice time bound stops new requests, not retries: a retry after a Retry-After wait is sent however long the slice
  has run, here 300 s past the bound, beyond the minute the quiet window keeps free before P3's start.\<close>

theorem retry_outlasts_time_bound:
  "fst (sample_request (\<lambda>k. if k = 0 then attempt_at 599000000 (answer 429 ''slow down'' (Some ''300''))
      else attempt_at 900000000 (answer 200 ''{}'' None)) sample_slice) =
     [Intent, Sent ''rate_limited'', Recorded ''retryable'' False, Intent, Sent ''ok'', Recorded ''ok'' False] \<and>
   retry_wait sample_policy 0 (Some 300000000) = 300000000 \<and>
   (ar_slice_max_seconds sample_arming + quiet_window_margin_seconds) * second_us < 900000000"
  by code_simp

end
