(* ===== verification/DailyRow.thy ===== *)
theory DailyRow
  imports Complex_Main Calendar
begin

text \<open>
  The canonical daily row of a security (\<open>reconciliation.py\<close>): from the raw observations of one day, which value each
  field takes, from where, and what disagrees; its validation (\<open>validation.py\<close>), and the path of the daily capture that
  writes it (\<open>market_capture/derive.py\<close>, \<open>db.py\<close>). Numbers carry their Python type, because mixing them may raise; their
  arithmetic is exact here, the rounding of floats and of 28-digit quotients is not modelled.
\<close>

section \<open>Python values\<close>

datatype pyval = PInt int | PDec rat | PFlt rat | PDate int

fun number :: "pyval \<Rightarrow> rat option" where
  "number (PInt n) = Some (of_int n)"
| "number (PDec r) = Some r"
| "number (PFlt r) = Some r"
| "number (PDate d) = None"

fun py_sub :: "pyval \<Rightarrow> pyval \<Rightarrow> pyval res" where
  "py_sub (PInt m) (PInt n) = Inr (PInt (m - n))"
| "py_sub (PInt m) (PDec y) = Inr (PDec (of_int m - y))"
| "py_sub (PDec x) (PInt n) = Inr (PDec (x - of_int n))"
| "py_sub (PDec x) (PDec y) = Inr (PDec (x - y))"
| "py_sub (PInt m) (PFlt y) = Inr (PFlt (of_int m - y))"
| "py_sub (PFlt x) (PInt n) = Inr (PFlt (x - of_int n))"
| "py_sub (PFlt x) (PFlt y) = Inr (PFlt (x - y))"
| "py_sub _ _ = Inl TypeErr"

fun py_abs :: "pyval \<Rightarrow> pyval res" where
  "py_abs (PInt n) = Inr (PInt \<bar>n\<bar>)"
| "py_abs (PDec r) = Inr (PDec \<bar>r\<bar>)"
| "py_abs (PFlt r) = Inr (PFlt \<bar>r\<bar>)"
| "py_abs (PDate d) = Inl TypeErr"

text \<open>\<open>a / b * 100\<close>; the divisor is never zero where the code divides.\<close>

fun py_percent :: "pyval \<Rightarrow> pyval \<Rightarrow> pyval res" where
  "py_percent (PInt m) (PInt n) = Inr (PFlt (of_int m / of_int n * 100))"
| "py_percent (PInt m) (PDec y) = Inr (PDec (of_int m / y * 100))"
| "py_percent (PDec x) (PInt n) = Inr (PDec (x / of_int n * 100))"
| "py_percent (PDec x) (PDec y) = Inr (PDec (x / y * 100))"
| "py_percent (PInt m) (PFlt y) = Inr (PFlt (of_int m / y * 100))"
| "py_percent (PFlt x) (PInt n) = Inr (PFlt (x / of_int n * 100))"
| "py_percent (PFlt x) (PFlt y) = Inr (PFlt (x / y * 100))"
| "py_percent _ _ = Inl TypeErr"

text \<open>Numbers of any type compare; a date compares with a date only, and equals no number.\<close>

fun py_le :: "pyval \<Rightarrow> pyval \<Rightarrow> bool res" where
  "py_le (PDate a) (PDate b) = Inr (a \<le> b)"
| "py_le a b = (case (number a, number b) of (Some x, Some y) \<Rightarrow> Inr (x \<le> y) | _ \<Rightarrow> Inl TypeErr)"

definition py_lt :: "pyval \<Rightarrow> pyval \<Rightarrow> bool res" where
  "py_lt a b = bindR (py_le b a) (\<lambda>x. Inr (\<not> x))"

fun py_eq :: "pyval \<Rightarrow> pyval \<Rightarrow> bool" where
  "py_eq (PDate a) (PDate b) \<longleftrightarrow> a = b"
| "py_eq a b \<longleftrightarrow> number a \<noteq> None \<and> number a = number b"

definition py_max :: "pyval \<Rightarrow> pyval \<Rightarrow> pyval res" where
  "py_max a b = bindR (py_lt a b) (\<lambda>less. Inr (if less then b else a))"

section \<open>The policy\<close>

definition source_precedence :: "string list" where
  "source_precedence = [''CSE_API'', ''CSE_BULLETIN_DAILY'', ''CSE_BULLETIN_MONTHLY'']"

definition reconcilable_fields :: "string list" where
  "reconcilable_fields = [''high'', ''low'', ''closing_price'', ''last_traded_price'', ''last_traded_date'', ''turnover'',
     ''share_volume'', ''trade_count'', ''foreign_holding'', ''open_price'']"

definition price_fields :: "string list" where
  "price_fields = [''high'', ''low'', ''closing_price'', ''last_traded_price'', ''open_price'']"

definition volume_fields :: "string list" where
  "volume_fields = [''share_volume'', ''trade_count'']"

definition turnover_fields :: "string list" where
  "turnover_fields = [''turnover'']"

definition intraday_windows :: "string list" where
  "intraday_windows = [''post_open'']"

definition end_of_day_fields :: "string list" where
  "end_of_day_fields = [''closing_price'', ''high'', ''low'', ''turnover'', ''share_volume'', ''trade_count'']"

definition session_fixed_fields :: "string list" where
  "session_fixed_fields = [''open_price'']"

record day_obs =
  ob_id :: string
  ob_window :: string
  ob_source :: string
  ob_at :: instant
  ob_post_open :: "pyval option"
  ob_values :: "(string \<times> pyval) list"

definition ob_value :: "string \<Rightarrow> day_obs \<Rightarrow> pyval option" where
  "ob_value f ob = map_of (ob_values ob) f"

definition intraday :: "day_obs \<Rightarrow> bool" where
  "intraday ob \<longleftrightarrow> ob_window ob \<in> set intraday_windows"

fun position_in :: "'a list \<Rightarrow> 'a \<Rightarrow> nat" where
  "position_in [] x = 0"
| "position_in (y # ys) x = (if y = x then 0 else Suc (position_in ys x))"

definition source_rank :: "string \<Rightarrow> nat" where
  "source_rank s = position_in source_precedence s"

type_synonym tolerances = "(string \<times> pyval) list"

definition tolerance :: "tolerances \<Rightarrow> string \<Rightarrow> pyval \<Rightarrow> pyval" where
  "tolerance tol key otherwise = (case map_of tol key of None \<Rightarrow> otherwise | Some v \<Rightarrow> v)"

definition agree_percent :: "pyval \<Rightarrow> pyval \<Rightarrow> pyval \<Rightarrow> bool res" where
  "agree_percent a b limit =
     (if py_eq a (PInt 0) \<and> py_eq b (PInt 0) then Inr True
      else bindR (py_abs a) (\<lambda>x. bindR (py_abs b) (\<lambda>y.
        bindR (py_max x y) (\<lambda>m. bindR (py_max m (PFlt (1 / 1000000000))) (\<lambda>base.
        bindR (py_sub a b) (\<lambda>d. bindR (py_abs d) (\<lambda>size.
        bindR (py_percent size base) (\<lambda>q. py_le q limit))))))))"

definition day_values_agree :: "tolerances \<Rightarrow> string \<Rightarrow> pyval \<Rightarrow> pyval \<Rightarrow> bool res" where
  "day_values_agree tol f a b =
     (if f \<in> set volume_fields
      then bindR (py_sub a b) (\<lambda>d. bindR (py_abs d) (\<lambda>x. py_le x (tolerance tol ''reconciliation_volume_tolerance'' (PInt 0))))
      else if f \<in> set turnover_fields
      then agree_percent a b (tolerance tol ''reconciliation_turnover_tolerance_pct'' (PFlt (1 / 2)))
      else if f \<in> set price_fields
      then agree_percent a b (tolerance tol ''reconciliation_price_tolerance_pct'' (PFlt (1 / 10)))
      else Inr (py_eq a b))"

section \<open>Reconciliation\<close>

record described =
  ds_observation :: string
  ds_source :: string
  ds_window :: string
  ds_at :: instant
  ds_value :: "pyval option"

definition describe :: "string \<Rightarrow> day_obs \<Rightarrow> described" where
  "describe f ob =
     \<lparr>ds_observation = ob_id ob, ds_source = ob_source ob, ds_window = ob_window ob, ds_at = ob_at ob,
      ds_value = ob_value f ob\<rparr>"

text \<open>An alternate value: the observation's id, its source and its value.\<close>

type_synonym alternate = "string \<times> string \<times> pyval option"

definition alternate_of :: "string \<Rightarrow> day_obs \<Rightarrow> alternate" where
  "alternate_of f ob = (ob_id ob, ob_source ob, ob_value f ob)"

datatype provenance = NotYet "described list" | Chosen described "alternate list" "described list"

record field_row =
  fr_field :: string
  fr_value :: "pyval option"
  fr_provenance :: provenance
  fr_source :: "string option"
  fr_used :: "string list"

text \<open>Most recent first, then, stably, the source of highest precedence first.\<close>

definition ranked_candidates :: "day_obs list \<Rightarrow> day_obs list" where
  "ranked_candidates obs = sort_key (\<lambda>ob. source_rank (ob_source ob)) (sort_key (\<lambda>ob. - ob_at ob) obs)"

definition eligible_for :: "string \<Rightarrow> day_obs list \<Rightarrow> day_obs list" where
  "eligible_for f obs =
     filter (\<lambda>ob. ob_value f ob \<noteq> None \<and> (f \<in> set end_of_day_fields \<longrightarrow> \<not> intraday ob)) obs"

text \<open>A value of the same source that describes another moment of a moving value.\<close>

definition moving_update :: "string \<Rightarrow> day_obs \<Rightarrow> day_obs \<Rightarrow> bool" where
  "moving_update f winner ob \<longleftrightarrow>
     ob_source ob = ob_source winner \<and> f \<notin> set session_fixed_fields \<and>
     (ob_window ob \<noteq> ob_window winner \<or> intraday winner)"

definition agrees_with :: "tolerances \<Rightarrow> string \<Rightarrow> day_obs \<Rightarrow> day_obs \<Rightarrow> bool res" where
  "agrees_with tol f winner ob =
     (case (ob_value f winner, ob_value f ob) of (Some a, Some b) \<Rightarrow> day_values_agree tol f a b | _ \<Rightarrow> Inr True)"

definition reconcile_field :: "tolerances \<Rightarrow> day_obs list \<Rightarrow> string \<Rightarrow> field_row option res" where
  "reconcile_field tol obs f =
     (case ranked_candidates (eligible_for f obs) of
        [] \<Rightarrow>
         (let seen = filter (\<lambda>ob. ob_value f ob \<noteq> None) obs
          in if f \<in> set end_of_day_fields \<and> seen \<noteq> []
             then Inr (Some \<lparr>fr_field = f, fr_value = None, fr_provenance = NotYet (map (describe f) seen),
                             fr_source = None, fr_used = []\<rparr>)
             else Inr None)
      | winner # others \<Rightarrow>
          bindR (mapR (\<lambda>ob. bindR (agrees_with tol f winner ob) (\<lambda>same. Inr (ob, same))) others) (\<lambda>judged.
            let superseded = filter (\<lambda>(ob, same). moving_update f winner ob \<and> \<not> same) judged;
                comparable = filter (\<lambda>(ob, same). \<not> moving_update f winner ob) judged;
                alternates = (if list_ex (\<lambda>(ob, same). \<not> same) comparable then map (\<lambda>(ob, same). alternate_of f ob) comparable else [])
            in Inr (Some \<lparr>fr_field = f, fr_value = ob_value f winner,
                 fr_provenance = Chosen (describe f winner) alternates (map (\<lambda>(ob, same). describe f ob) superseded),
                 fr_source = Some (ob_source winner), fr_used = map ob_id (winner # others)\<rparr>)))"

record daily_row =
  dr_post_open :: "pyval option"
  dr_post_open_at :: "instant option"
  dr_fields :: "field_row list"
  dr_contributing :: "string list"
  dr_primary :: "string option"
  dr_status :: string
  dr_has_eod :: bool

definition disputed :: "field_row \<Rightarrow> bool" where
  "disputed r \<longleftrightarrow> (case fr_provenance r of Chosen w alternates superseded \<Rightarrow> alternates \<noteq> [] | NotYet _ \<Rightarrow> False)"

definition used_sources :: "field_row list \<Rightarrow> string list" where
  "used_sources rows = concat (map (\<lambda>r. case fr_source r of None \<Rightarrow> [] | Some s \<Rightarrow> [s]) rows)"

definition latest_post_open :: "day_obs list \<Rightarrow> day_obs option" where
  "latest_post_open obs =
     (case sort_key ob_at (filter (\<lambda>ob. ob_window ob = ''post_open'') obs) of [] \<Rightarrow> None | x # xs \<Rightarrow> Some (last (x # xs)))"

definition assemble_row :: "day_obs list \<Rightarrow> field_row list \<Rightarrow> daily_row" where
  "assemble_row obs rows =
     (let first = latest_post_open obs; sources = used_sources rows; eod = list_ex (\<lambda>ob. \<not> intraday ob) obs
      in \<lparr>dr_post_open = Option.bind first ob_post_open, dr_post_open_at = map_option ob_at first, dr_fields = rows,
          dr_contributing = sorted_set ((case first of None \<Rightarrow> [] | Some ob \<Rightarrow> [ob_id ob]) @ concat (map fr_used rows)),
          dr_primary = map_option fst (max_on snd (map (\<lambda>(s, group). (s, length group)) (group_on id sources))),
          dr_status =
            (if list_ex disputed rows then ''discrepancy_flagged''
             else if sources \<noteq> [] \<and> eod then (if length (remdups sources) \<le> 1 then ''single_source'' else ''agreed'')
             else ''pending''),
          dr_has_eod = eod\<rparr>)"

definition reconcile_day :: "day_obs list \<Rightarrow> tolerances \<Rightarrow> daily_row res" where
  "reconcile_day obs tol =
     bindR (mapR (reconcile_field tol obs) reconcilable_fields) (\<lambda>found.
       Inr (assemble_row obs (concat (map (\<lambda>r. case r of None \<Rightarrow> [] | Some x \<Rightarrow> [x]) found))))"

definition row_value :: "daily_row \<Rightarrow> string \<Rightarrow> pyval option" where
  "row_value c f = Option.bind (find (\<lambda>r. fr_field r = f) (dr_fields c)) fr_value"

section \<open>Validation\<close>

datatype day_note = HighBelowLow pyval pyval | CloseOutside pyval pyval pyval | NonPositive string pyval
  | BelowZero string pyval | LargeChange pyval pyval pyval

definition optional_check :: "pyval option \<Rightarrow> (pyval \<Rightarrow> day_note list res) \<Rightarrow> day_note list res" where
  "optional_check v check = (case v of None \<Rightarrow> Inr [] | Some x \<Rightarrow> check x)"

definition check_order :: "daily_row \<Rightarrow> day_note list res" where
  "check_order c =
     optional_check (row_value c ''high'') (\<lambda>h. optional_check (row_value c ''low'') (\<lambda>l.
       bindR (py_lt h l) (\<lambda>less. Inr (if less then [HighBelowLow h l] else []))))"

definition check_close :: "daily_row \<Rightarrow> day_note list res" where
  "check_close c =
     optional_check (row_value c ''closing_price'') (\<lambda>p. optional_check (row_value c ''high'') (\<lambda>h.
       optional_check (row_value c ''low'') (\<lambda>l.
         bindR (py_le l p) (\<lambda>above. bindR (if above then py_le p h else Inr False) (\<lambda>inside.
           Inr (if inside then [] else [CloseOutside p h l]))))))"

definition check_positive :: "daily_row \<Rightarrow> string \<Rightarrow> day_note list res" where
  "check_positive c f =
     optional_check (row_value c f) (\<lambda>v. bindR (py_le v (PInt 0)) (\<lambda>bad. Inr (if bad then [NonPositive f v] else [])))"

definition check_not_negative :: "daily_row \<Rightarrow> string \<Rightarrow> day_note list res" where
  "check_not_negative c f =
     optional_check (row_value c f) (\<lambda>v. bindR (py_lt v (PInt 0)) (\<lambda>bad. Inr (if bad then [BelowZero f v] else [])))"

definition check_change :: "daily_row \<Rightarrow> pyval option \<Rightarrow> tolerances \<Rightarrow> day_note list res" where
  "check_change c previous tol =
     optional_check (row_value c ''closing_price'') (\<lambda>p. optional_check previous (\<lambda>q.
       if py_eq q (PInt 0) then Inr []
       else bindR (py_sub p q) (\<lambda>d. bindR (py_abs d) (\<lambda>size. bindR (py_abs q) (\<lambda>base.
         bindR (py_percent size base) (\<lambda>change.
           let limit = tolerance tol ''anomaly_price_change_threshold_pct'' (PInt 30)
           in bindR (py_lt limit change) (\<lambda>large. Inr (if large then [LargeChange q p change] else []))))))))"

definition validate_day :: "daily_row \<Rightarrow> pyval option \<Rightarrow> tolerances \<Rightarrow> (string \<times> day_note list) res" where
  "validate_day c previous tol =
     bindR (check_order c) (\<lambda>a. bindR (check_close c) (\<lambda>b.
     bindR (mapR (check_positive c) [''high'', ''low'', ''closing_price'', ''last_traded_price'']) (\<lambda>p.
     bindR (mapR (check_not_negative c) [''turnover'', ''share_volume'', ''trade_count'']) (\<lambda>n.
     bindR (check_change c previous tol) (\<lambda>e.
       let notes = a @ b @ concat p @ concat n @ e
       in Inr (if notes \<noteq> [] then ''review_required'' else ''ok'', notes))))))"

section \<open>Writing the row\<close>

text \<open>What \<open>json.dumps\<close> takes: Python's Decimal and date are not serialisable.\<close>

fun json_value :: "pyval option \<Rightarrow> bool" where
  "json_value (Some (PDec _)) \<longleftrightarrow> False"
| "json_value (Some (PDate _)) \<longleftrightarrow> False"
| "json_value _ \<longleftrightarrow> True"

fun json_provenance :: "provenance \<Rightarrow> bool" where
  "json_provenance (NotYet seen) \<longleftrightarrow> list_all (\<lambda>d. json_value (ds_value d)) seen"
| "json_provenance (Chosen w alternates superseded) \<longleftrightarrow>
     list_all (\<lambda>(i, s, v). json_value v) alternates \<and> list_all (\<lambda>d. json_value (ds_value d)) superseded"

text \<open>The winner's value is in the discrepancy notes of a disputed field.\<close>

definition json_field :: "field_row \<Rightarrow> bool" where
  "json_field r \<longleftrightarrow> json_provenance (fr_provenance r) \<and> (disputed r \<longrightarrow> json_value (fr_value r))"

fun json_note :: "day_note \<Rightarrow> bool" where
  "json_note (HighBelowLow h l) \<longleftrightarrow> json_value (Some h) \<and> json_value (Some l)"
| "json_note (CloseOutside p h l) \<longleftrightarrow> json_value (Some p) \<and> json_value (Some h) \<and> json_value (Some l)"
| "json_note (NonPositive f v) \<longleftrightarrow> json_value (Some v)"
| "json_note (BelowZero f v) \<longleftrightarrow> json_value (Some v)"
| "json_note (LargeChange q p x) \<longleftrightarrow> json_value (Some q) \<and> json_value (Some p) \<and> json_value (Some x)"

text \<open>The canonicalisation of one security in a capture; an exception makes its canonical status 'failed'. The previous
  close comes from the database as a float.\<close>

definition canonicalise ::
  "day_obs list \<Rightarrow> rat option \<Rightarrow> tolerances \<Rightarrow> (daily_row \<times> string \<times> day_note list) res" where
  "canonicalise obs previous tol =
     bindR (reconcile_day obs tol) (\<lambda>c.
     bindR (validate_day c (map_option PFlt previous) tol) (\<lambda>(status, notes).
     guardR (\<not> (list_all json_field (dr_fields c) \<and> list_all json_note notes)) TypeErr (Inr (c, status, notes))))"

end
