(* ===== verification/DailyFacts.thy ===== *)
theory DailyFacts
  imports DailyRow "HOL-Library.Multiset"
begin

text \<open>
  Facts of the canonical daily row: where a value comes from, when a day is flagged, that the row depends only on the
  set of observations, and what a row read from the database must be like to be written at all.
\<close>

section \<open>Candidates\<close>

lemma ranked_head:
  assumes "ranked_candidates obs = w # others"
  shows "w \<in> set obs" "set (w # others) = set obs"
    "\<forall>ob \<in> set obs. source_rank (ob_source w) \<le> source_rank (ob_source ob) \<and>
       (ob_source ob = ob_source w \<longrightarrow> ob_at ob \<le> ob_at w)"
proof -
  define recent where "recent = sort_key (\<lambda>ob. - ob_at ob) obs"
  have ranked: "sort_key (\<lambda>ob. source_rank (ob_source ob)) recent = w # others"
    using assms by (simp add: ranked_candidates_def recent_def)
  show set: "set (w # others) = set obs"
    by (metis ranked recent_def set_sort)
  then show "w \<in> set obs" by auto
  have "sorted (map (\<lambda>ob. source_rank (ob_source ob)) (w # others))"
    by (metis ranked sorted_sort_key)
  then have least: "\<forall>ob \<in> set obs. source_rank (ob_source w) \<le> source_rank (ob_source ob)"
    using set by auto
  have "filter (\<lambda>ob. source_rank (ob_source ob) = source_rank (ob_source w)) recent =
      filter (\<lambda>ob. source_rank (ob_source ob) = source_rank (ob_source w)) (w # others)"
    using sort_key_stable [of "\<lambda>ob. source_rank (ob_source ob)" "source_rank (ob_source w)" recent] by (simp only: ranked)
  then obtain rest where same: "filter (\<lambda>ob. source_rank (ob_source ob) = source_rank (ob_source w)) recent = w # rest"
    by simp
  have "sorted (map (\<lambda>ob. - ob_at ob) (filter (\<lambda>ob. source_rank (ob_source ob) = source_rank (ob_source w)) recent))"
    unfolding recent_def by (rule sorted_filter) simp
  then have "\<forall>ob \<in> set rest. ob_at ob \<le> ob_at w" by (simp add: same)
  moreover have "ob \<in> set (w # rest)" if "ob \<in> set obs" "ob_source ob = ob_source w" for ob
    using that unfolding same [symmetric] by (simp add: recent_def)
  ultimately have "ob_at ob \<le> ob_at w" if "ob \<in> set obs" "ob_source ob = ob_source w" for ob
    using that by fastforce
  with least show "\<forall>ob \<in> set obs. source_rank (ob_source w) \<le> source_rank (ob_source ob) \<and>
      (ob_source ob = ob_source w \<longrightarrow> ob_at ob \<le> ob_at w)" by blast
qed

lemma ranked_Nil [simp]: "ranked_candidates obs = [] \<longleftrightarrow> obs = []" "ranked_candidates [] = []"
  by (metis ranked_candidates_def set_empty set_sort) (simp add: ranked_candidates_def)

lemma ranked_permuted:
  assumes "mset obs = mset obs'" "inj_on ob_at (set obs)"
  shows "ranked_candidates obs = ranked_candidates obs'"
proof -
  have "inj_on (\<lambda>ob. - ob_at ob) (set obs)" using assms(2) by (auto simp: inj_on_def)
  then have "sort_key (\<lambda>ob. - ob_at ob) obs = sort_key (\<lambda>ob. - ob_at ob) obs'"
    using assms(1) by (intro sort_key_inj_key_eq) simp_all
  then show ?thesis by (simp add: ranked_candidates_def)
qed

section \<open>The fields of a row\<close>

lemma reconcile_field_row:
  assumes "reconcile_field tol obs f = Inr (Some r)"
  shows "fr_field r = f"
  using assms by (auto simp: reconcile_field_def Let_def bindR_eq_Inr split: list.splits if_splits)

lemma reconcile_field_value:
  assumes "reconcile_field tol obs f = Inr found"
  shows "Option.bind found fr_value = Some v \<longleftrightarrow>
    (\<exists>w others. ranked_candidates (eligible_for f obs) = w # others \<and> ob_value f w = Some v)"
  using assms by (auto simp: reconcile_field_def Let_def bindR_eq_Inr split: list.splits if_splits)

lemma found_field:
  assumes "mapR (reconcile_field tol obs) fs = Inr found" "distinct fs" "f \<in> set fs"
  shows "\<exists>r. reconcile_field tol obs f = Inr r \<and>
    find (\<lambda>r. fr_field r = f) (concat (map (\<lambda>r. case r of None \<Rightarrow> [] | Some x \<Rightarrow> [x]) found)) = r"
  using assms
proof (induction fs arbitrary: found)
  case Nil
  then show ?case by simp
next
  case (Cons g gs)
  obtain r rs where parts: "reconcile_field tol obs g = Inr r" "mapR (reconcile_field tol obs) gs = Inr rs" "found = r # rs"
    using Cons.prems(1) by (auto simp: bindR_eq_Inr)
  have others: "find (\<lambda>r. fr_field r = f) (concat (map (\<lambda>r. case r of None \<Rightarrow> [] | Some x \<Rightarrow> [x]) rs)) = None"
    if "f \<notin> set gs"
  proof -
    have "fr_field x \<noteq> f" if here: "Some x \<in> set rs" for x
    proof -
      obtain h where "h \<in> set gs" "reconcile_field tol obs h = Inr (Some x)"
        using here mapR_Inr_set [OF parts(2)] by blast
      then show ?thesis using reconcile_field_row \<open>f \<notin> set gs\<close> by blast
    qed
    then show ?thesis by (auto simp: find_None_iff split: option.splits)
  qed
  show ?case
  proof (cases "f = g")
    case True
    then show ?thesis using parts others Cons.prems(2) reconcile_field_row by (cases r) auto
  next
    case False
    then obtain q where q: "reconcile_field tol obs f = Inr q"
      "find (\<lambda>r. fr_field r = f) (concat (map (\<lambda>r. case r of None \<Rightarrow> [] | Some x \<Rightarrow> [x]) rs)) = q"
      using Cons.IH [OF parts(2)] Cons.prems(2,3) by auto
    then show ?thesis using parts False reconcile_field_row by (cases r) auto
  qed
qed

lemma reconcilable_distinct: "distinct reconcilable_fields"
  by (simp add: reconcilable_fields_def)

lemma reconcile_day_parts:
  assumes "reconcile_day obs tol = Inr c"
  obtains found where "mapR (reconcile_field tol obs) reconcilable_fields = Inr found"
    "c = assemble_row obs (concat (map (\<lambda>r. case r of None \<Rightarrow> [] | Some x \<Rightarrow> [x]) found))"
  using assms by (auto simp: reconcile_day_def bindR_eq_Inr)

lemma row_value_found:
  assumes "reconcile_day obs tol = Inr c" "f \<in> set reconcilable_fields"
  shows "\<exists>r. reconcile_field tol obs f = Inr r \<and> row_value c f = Option.bind r fr_value"
proof -
  obtain found where run: "mapR (reconcile_field tol obs) reconcilable_fields = Inr found"
    and c: "c = assemble_row obs (concat (map (\<lambda>r. case r of None \<Rightarrow> [] | Some x \<Rightarrow> [x]) found))"
    using reconcile_day_parts [OF assms(1)] by blast
  show ?thesis using found_field [OF run reconcilable_distinct assms(2)]
    by (auto simp: row_value_def c assemble_row_def Let_def)
qed

text \<open>C24: Where a canonical value comes from: the observation of highest source precedence that has one, the latest of its
  source; and an end-of-day field never takes a session-to-date value of a capture made while the market was open.\<close>

theorem daily_value_source:
  assumes "reconcile_day obs tol = Inr c" "f \<in> set reconcilable_fields"
  shows "row_value c f = Some v \<longleftrightarrow>
    (\<exists>w \<in> set obs. ob_value f w = Some v \<and> (f \<in> set end_of_day_fields \<longrightarrow> \<not> intraday w) \<and>
       w = hd (ranked_candidates (eligible_for f obs)) \<and>
       (\<forall>ob \<in> set obs. ob_value f ob \<noteq> None \<and> (f \<in> set end_of_day_fields \<longrightarrow> \<not> intraday ob) \<longrightarrow>
          source_rank (ob_source w) \<le> source_rank (ob_source ob) \<and> (ob_source ob = ob_source w \<longrightarrow> ob_at ob \<le> ob_at w)))"
proof -
  obtain r where r: "reconcile_field tol obs f = Inr r" "row_value c f = Option.bind r fr_value"
    using row_value_found [OF assms] by blast
  note source = reconcile_field_value [OF r(1), of v]
  have member: "ob \<in> set (eligible_for f obs) \<longleftrightarrow>
      ob \<in> set obs \<and> ob_value f ob \<noteq> None \<and> (f \<in> set end_of_day_fields \<longrightarrow> \<not> intraday ob)" for ob
    by (simp add: eligible_for_def)
  show ?thesis
  proof (cases "ranked_candidates (eligible_for f obs)")
    case Nil
    then have "eligible_for f obs = []" by simp
    then show ?thesis using source r(2) member Nil by fastforce
  next
    case (Cons w others)
    note head = ranked_head [OF Cons]
    show ?thesis using source r(2) Cons head(1,3) member by auto
  qed
qed

section \<open>Disagreement\<close>

lemma reconcile_field_disputed:
  assumes "reconcile_field tol obs f = Inr found"
  shows "(\<exists>r. found = Some r \<and> disputed r) \<longleftrightarrow>
    (\<exists>w others ob. ranked_candidates (eligible_for f obs) = w # others \<and> ob \<in> set others \<and>
       \<not> moving_update f w ob \<and> agrees_with tol f w ob = Inr False)"
proof (cases "ranked_candidates (eligible_for f obs)")
  case Nil
  then show ?thesis using assms by (auto simp: reconcile_field_def Let_def disputed_def split: if_splits)
next
  case (Cons w others)
  from assms Cons obtain judged where judged: "mapR (\<lambda>ob. bindR (agrees_with tol f w ob) (\<lambda>same. Inr (ob, same))) others = Inr judged"
    and found: "found = Some \<lparr>fr_field = f, fr_value = ob_value f w,
       fr_provenance = Chosen (describe f w)
         (if list_ex (\<lambda>(ob, same). \<not> same) (filter (\<lambda>(ob, same). \<not> moving_update f w ob) judged)
          then map (\<lambda>(ob, same). alternate_of f ob) (filter (\<lambda>(ob, same). \<not> moving_update f w ob) judged) else [])
         (map (\<lambda>(ob, same). describe f ob) (filter (\<lambda>(ob, same). moving_update f w ob \<and> \<not> same) judged)),
       fr_source = Some (ob_source w), fr_used = map ob_id (w # others)\<rparr>"
    by (auto simp: reconcile_field_def bindR_eq_Inr Let_def)
  have "(ob, same) \<in> set judged \<longleftrightarrow> ob \<in> set others \<and> agrees_with tol f w ob = Inr same" for ob same
    using mapR_Inr_set [OF judged, of "(ob, same)"] by (auto simp: bindR_eq_Inr)
  then show ?thesis using Cons by (auto simp: found disputed_def list_ex_iff filter_empty_conv)
qed

text \<open>A day is flagged exactly when, for some field, an observation that claims the same fact as the chosen one
  disagrees with it beyond tolerance; an older value of the same source for another moment of a moving field never flags
  a day.\<close>

theorem day_flagged_iff:
  assumes "reconcile_day obs tol = Inr c"
  shows "dr_status c = ''discrepancy_flagged'' \<longleftrightarrow>
    (\<exists>f \<in> set reconcilable_fields. \<exists>w others ob.
       ranked_candidates (eligible_for f obs) = w # others \<and> ob \<in> set others \<and> agrees_with tol f w ob = Inr False \<and>
       (ob_source ob = ob_source w \<longrightarrow>
          f \<in> set session_fixed_fields \<or> ob_window ob = ob_window w \<and> \<not> intraday w))"
proof -
  obtain found where run: "mapR (reconcile_field tol obs) reconcilable_fields = Inr found"
    and c: "c = assemble_row obs (concat (map (\<lambda>r. case r of None \<Rightarrow> [] | Some x \<Rightarrow> [x]) found))"
    using reconcile_day_parts [OF assms] by blast
  have "list_ex disputed (concat (map (\<lambda>r. case r of None \<Rightarrow> [] | Some x \<Rightarrow> [x]) xs)) \<longleftrightarrow>
      (\<exists>r. Some r \<in> set xs \<and> disputed r)" for xs
    by (induction xs) (auto split: option.splits)
  then have "dr_status c = ''discrepancy_flagged'' \<longleftrightarrow> (\<exists>r. Some r \<in> set found \<and> disputed r)"
    by (simp add: c assemble_row_def Let_def)
  also have "\<dots> \<longleftrightarrow> (\<exists>f \<in> set reconcilable_fields. \<exists>r. reconcile_field tol obs f = Inr (Some r) \<and> disputed r)"
    using mapR_Inr_set [OF run] by blast
  also have "\<dots> \<longleftrightarrow> (\<exists>f \<in> set reconcilable_fields. \<exists>w others ob. ranked_candidates (eligible_for f obs) = w # others \<and>
      ob \<in> set others \<and> \<not> moving_update f w ob \<and> agrees_with tol f w ob = Inr False)"
  proof -
    have "(\<exists>r. reconcile_field tol obs f = Inr (Some r) \<and> disputed r) \<longleftrightarrow>
        (\<exists>w others ob. ranked_candidates (eligible_for f obs) = w # others \<and> ob \<in> set others \<and>
          \<not> moving_update f w ob \<and> agrees_with tol f w ob = Inr False)" if "f \<in> set reconcilable_fields" for f
    proof -
      obtain r where "reconcile_field tol obs f = Inr r" using row_value_found [OF assms \<open>f \<in> set reconcilable_fields\<close>] by blast
      then show ?thesis using reconcile_field_disputed [of tol obs f r] by auto
    qed
    then show ?thesis by blast
  qed
  finally show ?thesis by (auto simp: moving_update_def)
qed

section \<open>The row is a function of the set of observations\<close>

definition field_summary :: "field_row \<Rightarrow> string \<times> pyval option \<times> string option \<times> string list \<times> bool" where
  "field_summary r = (fr_field r, fr_value r, fr_source r, fr_used r, disputed r)"

definition found_summary :: "field_row option res \<Rightarrow> (string \<times> pyval option \<times> string option \<times> string list \<times> bool) option res" where
  "found_summary m = bindR m (\<lambda>r. Inr (map_option field_summary r))"

lemma reconcile_field_permuted:
  assumes "mset obs = mset obs'" "inj_on ob_at (set obs)"
  shows "found_summary (reconcile_field tol obs f) = found_summary (reconcile_field tol obs' f)"
proof -
  have "mset (eligible_for f obs) = mset (eligible_for f obs')" using assms(1) by (simp add: eligible_for_def)
  moreover have "inj_on ob_at (set (eligible_for f obs))" using assms(2) by (auto simp: eligible_for_def inj_on_def)
  ultimately have same: "ranked_candidates (eligible_for f obs) = ranked_candidates (eligible_for f obs')"
    by (rule ranked_permuted)
  have seen: "filter (\<lambda>ob. ob_value f ob \<noteq> None) obs = [] \<longleftrightarrow> filter (\<lambda>ob. ob_value f ob \<noteq> None) obs' = []"
    using mset_eq_setD [OF assms(1)] by (simp add: filter_empty_conv)
  show ?thesis
  proof (cases "ranked_candidates (eligible_for f obs')")
    case Nil
    then show ?thesis using same seen
      by (simp add: reconcile_field_def Let_def found_summary_def field_summary_def disputed_def)
  next
    case (Cons w others)
    then have "reconcile_field tol obs f = reconcile_field tol obs' f" using same by (simp add: reconcile_field_def)
    then show ?thesis by simp
  qed
qed

lemma mapR_summary:
  "bindR (mapR g xs) (\<lambda>ys. Inr (map (map_option field_summary) ys)) = mapR (\<lambda>x. found_summary (g x)) xs"
proof (induction xs)
  case Nil
  then show ?case by simp
next
  case (Cons x xs)
  then show ?case by (cases "g x"; cases "mapR g xs") (auto simp: found_summary_def dest!: sym [of "Inl _"] sym [of "Inr _"])
qed

definition rows_of_found :: "field_row option list \<Rightarrow> field_row list" where
  "rows_of_found found = concat (map (\<lambda>r. case r of None \<Rightarrow> [] | Some x \<Rightarrow> [x]) found)"

lemma rows_summary:
  "map (map_option field_summary) a = map (map_option field_summary) b \<Longrightarrow>
     map field_summary (rows_of_found a) = map field_summary (rows_of_found b)"
proof (induction a arbitrary: b)
  case Nil
  then show ?case by simp
next
  case (Cons x a)
  then obtain y b' where "b = y # b'" "map_option field_summary x = map_option field_summary y"
    "map (map_option field_summary) a = map (map_option field_summary) b'" by (cases b) auto
  then show ?case using Cons.IH [of b'] by (cases x; cases y) (auto simp: rows_of_found_def)
qed

lemma summary_reads:
  assumes "map field_summary a = map field_summary b"
  shows "list_ex disputed a = list_ex disputed b" "used_sources a = used_sources b"
    "concat (map fr_used a) = concat (map fr_used b)"
    "Option.bind (find (\<lambda>r. fr_field r = f) a) fr_value = Option.bind (find (\<lambda>r. fr_field r = f) b) fr_value"
proof -
  have "(list_ex disputed a = list_ex disputed b \<and> used_sources a = used_sources b) \<and>
      concat (map fr_used a) = concat (map fr_used b) \<and>
      Option.bind (find (\<lambda>r. fr_field r = f) a) fr_value = Option.bind (find (\<lambda>r. fr_field r = f) b) fr_value"
    using assms
  proof (induction a arbitrary: b)
    case Nil
    then show ?case by simp
  next
    case (Cons x a)
    then obtain y b' where "b = y # b'" "field_summary x = field_summary y" "map field_summary a = map field_summary b'"
      by (cases b) auto
    moreover note Cons.IH [OF this(3)]
    moreover have "fr_field x = fr_field y" "fr_value x = fr_value y" "fr_source x = fr_source y" "fr_used x = fr_used y"
      "disputed x = disputed y" using calculation(2) by (simp_all add: field_summary_def)
    ultimately show ?case by (simp add: used_sources_def)
  qed
  then show "list_ex disputed a = list_ex disputed b" "used_sources a = used_sources b"
    "concat (map fr_used a) = concat (map fr_used b)"
    "Option.bind (find (\<lambda>r. fr_field r = f) a) fr_value = Option.bind (find (\<lambda>r. fr_field r = f) b) fr_value" by blast+
qed

lemma post_open_permuted:
  assumes "mset obs = mset obs'" "inj_on ob_at (set obs)"
  shows "latest_post_open obs = latest_post_open obs'"
proof -
  have "sort_key ob_at (filter (\<lambda>ob. ob_window ob = ''post_open'') obs) =
      sort_key ob_at (filter (\<lambda>ob. ob_window ob = ''post_open'') obs')"
    using assms by (intro sort_key_inj_key_eq) (auto simp: inj_on_def)
  then show ?thesis by (simp add: latest_post_open_def)
qed

text \<open>The canonical row is a function of the set of raw observations: reading them in any other order gives the same
  values, status, sources, contributing observations and post-open price, or the same error, provided no two of them were
  observed at the same instant.\<close>

theorem day_row_order:
  assumes "mset obs = mset obs'" "inj_on ob_at (set obs)"
  shows "case (reconcile_day obs tol, reconcile_day obs' tol) of
      (Inr c, Inr c') \<Rightarrow> (\<forall>f. row_value c f = row_value c' f) \<and> dr_status c = dr_status c' \<and> dr_primary c = dr_primary c' \<and>
        dr_contributing c = dr_contributing c' \<and> dr_has_eod c = dr_has_eod c' \<and> dr_post_open c = dr_post_open c' \<and>
        dr_post_open_at c = dr_post_open_at c'
    | (Inl e, Inl e') \<Rightarrow> e = e'
    | _ \<Rightarrow> False"
proof -
  have "mapR (\<lambda>f. found_summary (reconcile_field tol obs f)) reconcilable_fields =
      mapR (\<lambda>f. found_summary (reconcile_field tol obs' f)) reconcilable_fields"
    using reconcile_field_permuted [OF assms] by simp
  then have same: "bindR (mapR (reconcile_field tol obs) reconcilable_fields) (\<lambda>ys. Inr (map (map_option field_summary) ys)) =
      bindR (mapR (reconcile_field tol obs') reconcilable_fields) (\<lambda>ys. Inr (map (map_option field_summary) ys))"
    by (simp add: mapR_summary)
  have eod: "list_ex (\<lambda>ob. \<not> intraday ob) obs = list_ex (\<lambda>ob. \<not> intraday ob) obs'"
    using mset_eq_setD [OF assms(1)] by (simp add: list_ex_iff)
  show ?thesis
  proof (cases "mapR (reconcile_field tol obs) reconcilable_fields")
    case (Inl e)
    then show ?thesis using same
      by (cases "mapR (reconcile_field tol obs') reconcilable_fields") (simp_all add: reconcile_day_def)
  next
    case (Inr a)
    then obtain b where b: "mapR (reconcile_field tol obs') reconcilable_fields = Inr b"
      "map (map_option field_summary) a = map (map_option field_summary) b"
      using same by (cases "mapR (reconcile_field tol obs') reconcilable_fields") simp_all
    note reads = summary_reads [OF rows_summary [OF b(2)]]
    show ?thesis
      by (simp add: reconcile_day_def Inr b(1) rows_of_found_def [symmetric] assemble_row_def row_value_def Let_def reads(1-3)
          post_open_permuted [OF assms] eod) (simp add: reads(4))
  qed
qed

section \<open>Rows read from the database\<close>

text \<open>The column types of \<open>raw_market_observations\<close>: psycopg2 reads \<open>numeric\<close> as Decimal, the integer types as int.\<close>

definition db_typed :: "string \<times> pyval \<Rightarrow> bool" where
  "db_typed = (\<lambda>(f, v). if f \<in> set price_fields \<union> set turnover_fields then (case v of PDec _ \<Rightarrow> True | _ \<Rightarrow> False)
     else if f = ''last_traded_date'' then (case v of PDate _ \<Rightarrow> True | _ \<Rightarrow> False)
     else (case v of PInt _ \<Rightarrow> True | _ \<Rightarrow> False))"

definition db_read :: "day_obs \<Rightarrow> bool" where
  "db_read ob \<longleftrightarrow> list_all db_typed (ob_values ob)"

lemma db_decimal:
  assumes "db_read ob" "ob_value f ob = Some v" "f \<in> set price_fields \<union> set turnover_fields"
  shows "\<exists>r. v = PDec r"
proof -
  have "db_typed (f, v)" using assms(1,2) by (auto simp: db_read_def ob_value_def list_all_iff dest!: map_of_SomeD)
  then show ?thesis using assms(3) by (cases v) (auto simp: db_typed_def split: if_splits)
qed

lemma row_value_observed:
  assumes "reconcile_day obs tol = Inr c" "f \<in> set reconcilable_fields" "row_value c f = Some v"
  shows "\<exists>ob \<in> set obs. ob_value f ob = Some v"
proof -
  obtain r where "reconcile_field tol obs f = Inr r" "Option.bind r fr_value = Some v"
    using row_value_found [OF assms(1,2)] assms(3) by auto
  then obtain w others where "ranked_candidates (eligible_for f obs) = w # others" "ob_value f w = Some v"
    using reconcile_field_value by blast
  then show ?thesis using ranked_head(1) by (fastforce simp: eligible_for_def)
qed

lemma row_value_decimal:
  assumes "reconcile_day obs tol = Inr c" "\<forall>ob \<in> set obs. db_read ob" "row_value c f = Some v"
    and "f \<in> set price_fields \<union> set turnover_fields"
  shows "\<exists>r. v = PDec r"
proof -
  have "f \<in> set reconcilable_fields"
    using assms(4) by (auto simp: price_fields_def turnover_fields_def reconcilable_fields_def)
  then show ?thesis using row_value_observed [OF assms(1) _ assms(3)] db_decimal assms(2,4) by blast
qed

text \<open>Every error of the daily path is a TypeError.\<close>

definition type_only :: "'a res \<Rightarrow> bool" where
  "type_only m \<longleftrightarrow> (\<forall>e. m = Inl e \<longrightarrow> e = TypeErr)"

lemma type_only_Inr [simp]: "type_only (Inr x)" "type_only (Inl e) \<longleftrightarrow> e = TypeErr"
  by (auto simp: type_only_def)

lemma type_only_bind: "type_only m \<Longrightarrow> (\<And>x. m = Inr x \<Longrightarrow> type_only (k x)) \<Longrightarrow> type_only (bindR m k)"
  by (cases m) (auto simp: type_only_def)

lemma type_only_mapR: "(\<And>x. type_only (g x)) \<Longrightarrow> type_only (mapR g xs)"
  by (induction xs) (auto intro!: type_only_bind)

lemma type_only_arith [simp]: "type_only (py_sub a b)" "type_only (py_abs a)" "type_only (py_percent a b)" "type_only (py_le a b)"
  by (cases a; cases b; simp)+

lemma type_only_lt [simp]: "type_only (py_lt a b)" "type_only (py_max a b)"
  by (auto simp: py_lt_def py_max_def intro!: type_only_bind)

lemma type_only_agree [simp]: "type_only (day_values_agree tol f a b)" "type_only (agrees_with tol f w ob)"
  by (auto simp: day_values_agree_def agree_percent_def agrees_with_def split: option.split intro!: type_only_bind)

lemma type_only_field: "type_only (reconcile_field tol obs f)"
proof (cases "ranked_candidates (eligible_for f obs)")
  case Nil
  then show ?thesis by (simp add: reconcile_field_def Let_def)
next
  case (Cons w others)
  then show ?thesis unfolding reconcile_field_def Cons list.case Let_def
    by (intro type_only_bind type_only_mapR type_only_agree type_only_Inr)
qed

lemma type_only_reconcile: "type_only (reconcile_day obs tol)"
  unfolding reconcile_day_def by (intro type_only_bind type_only_mapR type_only_field type_only_Inr)

lemma type_only_optional: "(\<And>x. type_only (k x)) \<Longrightarrow> type_only (optional_check v k)"
  by (cases v) (simp_all add: optional_check_def)

lemma type_only_if: "type_only a \<Longrightarrow> type_only b \<Longrightarrow> type_only (if p then a else b)"
  by simp

lemmas type_only_steps = type_only_bind type_only_mapR type_only_optional type_only_if type_only_arith type_only_lt type_only_Inr(1)

lemma type_only_checks: "type_only (check_order c)" "type_only (check_close c)" "type_only (check_positive c f)"
  "type_only (check_not_negative c f)" "type_only (check_change c p tol)"
  unfolding check_order_def check_close_def check_positive_def check_not_negative_def check_change_def Let_def
  by (intro type_only_steps)+

lemma type_only_validate: "type_only (validate_day c p tol)"
  unfolding validate_day_def Let_def by (intro type_only_steps type_only_checks)

lemma canonicalise_Inr:
  assumes "canonicalise obs previous tol = Inr (c, status, notes)"
  shows "reconcile_day obs tol = Inr c" "validate_day c (map_option PFlt previous) tol = Inr (status, notes)"
    "list_all json_field (dr_fields c)" "list_all json_note notes"
  using assms by (auto simp: canonicalise_def bindR_eq_Inr guardR_eq_Inr)

lemma canonicalise_type_only: "type_only (canonicalise obs previous tol)"
  by (auto simp: canonicalise_def guardR_def intro!: type_only_bind type_only_reconcile type_only_validate)

lemma change_needs_one_type:
  assumes "row_value c ''closing_price'' = Some (PDec v)" "p \<noteq> 0"
  shows "check_change c (Some (PFlt p)) tol = Inl TypeErr"
  using assms by (simp add: check_change_def optional_check_def)

text \<open>From the second closing day on, no daily row of a security can be derived from the database: the closing price
  is a Decimal and the previous close a float, their difference raises TypeError, and the canonical row is not written.\<close>

theorem second_close_fails:
  assumes "\<forall>ob \<in> set obs. db_read ob" "reconcile_day obs tol = Inr c" "row_value c ''closing_price'' \<noteq> None" "p \<noteq> 0"
  shows "canonicalise obs (Some p) tol = Inl TypeErr"
proof -
  obtain v where "row_value c ''closing_price'' = Some (PDec v)"
    using row_value_decimal [OF assms(2,1), of "''closing_price''"] assms(3) by (force simp: price_fields_def)
  then have "validate_day c (Some (PFlt p)) tol \<noteq> Inr x" for x
    using change_needs_one_type [OF _ assms(4)] by (auto simp: validate_day_def bindR_eq_Inr)
  then have "canonicalise obs (Some p) tol \<noteq> Inr x" for x
    using assms(2) by (auto simp: canonicalise_def bindR_eq_Inr)
  then show ?thesis using canonicalise_type_only [of obs "Some p" tol]
    by (cases "canonicalise obs (Some p) tol") (auto simp: type_only_def)
qed

lemma row_fields_found:
  assumes "reconcile_day obs tol = Inr c" "r \<in> set (dr_fields c)"
  shows "reconcile_field tol obs (fr_field r) = Inr (Some r)"
proof -
  obtain found where run: "mapR (reconcile_field tol obs) reconcilable_fields = Inr found"
    and c: "c = assemble_row obs (concat (map (\<lambda>r. case r of None \<Rightarrow> [] | Some x \<Rightarrow> [x]) found))"
    using reconcile_day_parts [OF assms(1)] by blast
  have "Some r \<in> set found" using assms(2) by (auto simp: c assemble_row_def Let_def split: option.splits)
  then obtain f where "reconcile_field tol obs f = Inr (Some r)" using mapR_Inr_set [OF run] by blast
  then show ?thesis using reconcile_field_row by blast
qed

lemma described_decimal:
  assumes "\<forall>ob \<in> set obs. db_read ob" "ob \<in> set obs" "ob_value f ob \<noteq> None" "f \<in> set price_fields \<union> set turnover_fields"
  shows "\<not> json_value (ob_value f ob)"
  using db_decimal [of ob f] assms by fastforce

lemma json_field_decimal:
  assumes "\<forall>ob \<in> set obs. db_read ob" "f \<in> set price_fields \<union> set turnover_fields"
    and "reconcile_field tol obs f = Inr (Some r)" "json_field r"
  shows "\<exists>w. fr_provenance r = Chosen w [] []"
proof (cases "ranked_candidates (eligible_for f obs)")
  case Nil
  then obtain ob where "ob \<in> set obs" "ob_value f ob \<noteq> None"
    and prov: "fr_provenance r = NotYet (map (describe f) (filter (\<lambda>ob. ob_value f ob \<noteq> None) obs))"
    using assms(3) by (auto simp: reconcile_field_def Let_def filter_empty_conv split: if_splits)
  then have "\<not> json_value (ds_value (describe f ob))"
    using described_decimal [OF assms(1)] assms(2) by (simp add: describe_def)
  then have "\<not> json_provenance (fr_provenance r)"
    using \<open>ob \<in> set obs\<close> \<open>ob_value f ob \<noteq> None\<close> unfolding prov json_provenance.simps list_all_iff set_map set_filter by blast
  then show ?thesis using assms(4) by (simp add: json_field_def)
next
  case (Cons w others)
  obtain judged where judged: "mapR (\<lambda>ob. bindR (agrees_with tol f w ob) (\<lambda>same. Inr (ob, same))) others = Inr judged"
    and prov: "\<exists>alternates superseded. fr_provenance r = Chosen (describe f w) (map (alternate_of f) alternates) (map (describe f) superseded) \<and>
      set alternates \<subseteq> fst ` set judged \<and> set superseded \<subseteq> fst ` set judged"
  proof -
    obtain judged where j: "mapR (\<lambda>ob. bindR (agrees_with tol f w ob) (\<lambda>same. Inr (ob, same))) others = Inr judged"
      and r: "fr_provenance r = Chosen (describe f w)
         (if list_ex (\<lambda>(ob, same). \<not> same) (filter (\<lambda>(ob, same). \<not> moving_update f w ob) judged)
          then map (\<lambda>(ob, same). alternate_of f ob) (filter (\<lambda>(ob, same). \<not> moving_update f w ob) judged) else [])
         (map (\<lambda>(ob, same). describe f ob) (filter (\<lambda>(ob, same). moving_update f w ob \<and> \<not> same) judged))"
      using assms(3) Cons by (auto simp: reconcile_field_def bindR_eq_Inr Let_def)
    have lists: "map (\<lambda>(ob, same). g ob) xs = map g (map fst xs)" for g :: "day_obs \<Rightarrow> 'x" and xs :: "(day_obs \<times> bool) list"
      by (induction xs) auto
    show ?thesis
      by (rule that [OF j], rule exI [of _ "if list_ex (\<lambda>(ob, same). \<not> same) (filter (\<lambda>(ob, same). \<not> moving_update f w ob) judged)
          then map fst (filter (\<lambda>(ob, same). \<not> moving_update f w ob) judged) else []"],
          rule exI [of _ "map fst (filter (\<lambda>(ob, same). moving_update f w ob \<and> \<not> same) judged)"]) (auto simp: r lists)
  qed
  have "ob \<in> set obs \<and> ob_value f ob \<noteq> None" if "ob \<in> fst ` set judged" for ob
  proof -
    have "ob \<in> set others" using that mapR_Inr_set [OF judged] by (auto simp: bindR_eq_Inr)
    then show ?thesis using ranked_head(2) [OF Cons] by (auto simp: eligible_for_def)
  qed
  then have plain: "\<not> json_value (ob_value f ob)" if "ob \<in> fst ` set judged" for ob
    using described_decimal [OF assms(1) _ _ assms(2)] that by blast
  obtain alternates superseded where lists: "fr_provenance r = Chosen (describe f w) (map (alternate_of f) alternates) (map (describe f) superseded)"
    "set alternates \<subseteq> fst ` set judged" "set superseded \<subseteq> fst ` set judged" using prov by blast
  have "alternates = []"
    using assms(4) lists plain by (cases alternates) (auto simp: json_field_def alternate_of_def)
  moreover have "superseded = []"
    using assms(4) lists plain by (cases superseded) (auto simp: json_field_def describe_def)
  ultimately show ?thesis using lists(1) by simp
qed

definition decimal_row :: "daily_row \<Rightarrow> bool" where
  "decimal_row c \<longleftrightarrow> (\<forall>f \<in> set price_fields \<union> set turnover_fields. \<forall>v. row_value c f = Some v \<longrightarrow> \<not> json_value (Some v))"

lemma decimal_rowD:
  "decimal_row c \<Longrightarrow> f \<in> set price_fields \<union> set turnover_fields \<Longrightarrow> row_value c f = Some v \<Longrightarrow> \<not> json_value (Some v)"
  unfolding decimal_row_def by blast

lemma optional_check_notes:
  "optional_check v k = Inr ns \<Longrightarrow> n \<in> set ns \<Longrightarrow> \<exists>x. v = Some x \<and> k x = Inr ns"
  by (cases v) (auto simp: optional_check_def)

lemma price_notes:
  assumes "decimal_row c"
  shows "check_order c = Inr ns \<Longrightarrow> n \<in> set ns \<Longrightarrow> \<not> json_note n"
    "check_close c = Inr ns \<Longrightarrow> n \<in> set ns \<Longrightarrow> \<not> json_note n"
    "check_change c q tol = Inr ns \<Longrightarrow> n \<in> set ns \<Longrightarrow> \<not> json_note n"
    "f \<in> set price_fields \<Longrightarrow> check_positive c f = Inr ns \<Longrightarrow> n \<in> set ns \<Longrightarrow> \<not> json_note n"
    "f \<in> set turnover_fields \<Longrightarrow> check_not_negative c f = Inr ns \<Longrightarrow> n \<in> set ns \<Longrightarrow> \<not> json_note n"
proof -
  have high: "row_value c ''high'' = Some v \<Longrightarrow> \<not> json_value (Some v)" for v
    by (rule decimal_rowD [OF assms]) (simp_all add: price_fields_def)
  have close: "row_value c ''closing_price'' = Some v \<Longrightarrow> \<not> json_value (Some v)" for v
    by (rule decimal_rowD [OF assms]) (simp_all add: price_fields_def)
  show "check_order c = Inr ns \<Longrightarrow> n \<in> set ns \<Longrightarrow> \<not> json_note n"
    using high by (auto simp: check_order_def optional_check_def bindR_eq_Inr split: option.splits if_splits)
  show "check_close c = Inr ns \<Longrightarrow> n \<in> set ns \<Longrightarrow> \<not> json_note n"
    using close by (auto simp: check_close_def optional_check_def bindR_eq_Inr split: option.splits if_splits)
  show "check_change c q tol = Inr ns \<Longrightarrow> n \<in> set ns \<Longrightarrow> \<not> json_note n"
    using close by (auto simp: check_change_def optional_check_def bindR_eq_Inr Let_def split: option.splits if_splits)
  show "f \<in> set price_fields \<Longrightarrow> check_positive c f = Inr ns \<Longrightarrow> n \<in> set ns \<Longrightarrow> \<not> json_note n"
    using decimal_rowD [OF assms, of f]
    by (auto simp: check_positive_def optional_check_def bindR_eq_Inr split: option.splits if_splits)
  show "f \<in> set turnover_fields \<Longrightarrow> check_not_negative c f = Inr ns \<Longrightarrow> n \<in> set ns \<Longrightarrow> \<not> json_note n"
    using decimal_rowD [OF assms, of f]
    by (auto simp: check_not_negative_def optional_check_def bindR_eq_Inr split: option.splits if_splits)
qed

lemma volume_notes:
  "check_not_negative c f = Inr ns \<Longrightarrow> n \<in> set ns \<Longrightarrow> \<exists>v. n = BelowZero f v"
  by (auto simp: check_not_negative_def optional_check_def bindR_eq_Inr split: option.splits if_splits)

lemma mapR_concat_member:
  assumes "mapR g xs = Inr ys" "n \<in> set (concat ys)"
  shows "\<exists>x \<in> set xs. \<exists>y. g x = Inr y \<and> n \<in> set y"
proof -
  obtain y where "y \<in> set ys" "n \<in> set y" using assms(2) by auto
  then show ?thesis using mapR_Inr_set [OF assms(1)] by blast
qed

lemma validate_notes:
  assumes "decimal_row c" "validate_day c q tol = Inr (status, notes)" "n \<in> set notes" "json_note n"
  shows "\<exists>f v. n = BelowZero f v \<and> f \<in> set volume_fields"
proof -
  obtain a b p ns e where run: "check_order c = Inr a" "check_close c = Inr b"
    "mapR (check_positive c) [''high'', ''low'', ''closing_price'', ''last_traded_price''] = Inr p"
    "mapR (check_not_negative c) [''turnover'', ''share_volume'', ''trade_count''] = Inr ns" "check_change c q tol = Inr e"
    and parts: "notes = a @ b @ concat p @ concat ns @ e"
    using assms(2) unfolding validate_day_def bindR_eq_Inr Let_def by blast
  have "n \<notin> set a" "n \<notin> set b" "n \<notin> set e" using price_notes(1-3) [OF assms(1)] run assms(4) by blast+
  moreover have "n \<notin> set (concat p)"
  proof
    assume "n \<in> set (concat p)"
    then obtain f y where "f \<in> set [''high'', ''low'', ''closing_price'', ''last_traded_price'']" "check_positive c f = Inr y"
      "n \<in> set y" using mapR_concat_member [OF run(3)] by blast
    moreover from this(1) have "f \<in> set price_fields" by (auto simp: price_fields_def)
    ultimately show False using price_notes(4) [OF assms(1)] assms(4) by blast
  qed
  ultimately have "n \<in> set (concat ns)" using assms(3) by (simp add: parts)
  then obtain f y where f: "f \<in> set [''turnover'', ''share_volume'', ''trade_count'']" and y: "check_not_negative c f = Inr y" "n \<in> set y"
    using mapR_concat_member [OF run(4)] by blast
  have "f \<notin> set turnover_fields" using price_notes(5) [OF assms(1) _ y] assms(4) by blast
  then have "f \<in> set volume_fields" using f by (auto simp: volume_fields_def turnover_fields_def)
  then show ?thesis using volume_notes [OF y] by blast
qed

text \<open>A canonical row that reaches the database has no recorded doubt about a price or the turnover: if validation finds
  one out of order, not positive or far from the day before, if two observations dispute it, or if it has only been seen
  while the market was open, the Decimal in the note or in the provenance cannot be serialised and the row is not written.
  The flags exist for exactly these rows.\<close>

theorem written_row_unflagged:
  assumes "\<forall>ob \<in> set obs. db_read ob" "canonicalise obs previous tol = Inr (c, status, notes)"
  shows "(\<forall>n \<in> set notes. \<exists>f v. n = BelowZero f v \<and> f \<in> set volume_fields) \<and>
    (\<forall>r \<in> set (dr_fields c). fr_field r \<in> set price_fields \<union> set turnover_fields \<longrightarrow>
       (\<exists>w. fr_provenance r = Chosen w [] []))"
proof -
  note parts = canonicalise_Inr [OF assms(2)]
  have "decimal_row c"
    unfolding decimal_row_def using row_value_decimal [OF parts(1) assms(1)] by fastforce
  then have "\<forall>n \<in> set notes. \<exists>f v. n = BelowZero f v \<and> f \<in> set volume_fields"
    using validate_notes parts(2,4) by (fastforce simp: list_all_iff)
  moreover have "\<exists>w. fr_provenance r = Chosen w [] []"
    if "r \<in> set (dr_fields c)" "fr_field r \<in> set price_fields \<union> set turnover_fields" for r
  proof -
    have "json_field r" using that(1) parts(3) by (auto simp: list_all_iff)
    then show ?thesis using json_field_decimal [OF assms(1) that(2) row_fields_found [OF parts(1) that(1)]] by blast
  qed
  ultimately show ?thesis by blast
qed

section \<open>A sample day\<close>

definition noon_obs :: "string \<Rightarrow> string \<Rightarrow> instant \<Rightarrow> (string \<times> pyval) list \<Rightarrow> day_obs" where
  "noon_obs i window time vals =
     \<lparr>ob_id = i, ob_window = window, ob_source = ''CSE_API'', ob_at = time, ob_post_open = None, ob_values = vals\<rparr>"

definition closing_obs :: day_obs where
  "closing_obs = noon_obs ''o2'' ''post_close'' 20
     [(''high'', PDec 12), (''low'', PDec 10), (''closing_price'', PDec 11), (''share_volume'', PInt 500)]"

definition bulletin_obs :: day_obs where
  "bulletin_obs = (noon_obs ''o3'' ''bulletin_daily'' 30 [(''closing_price'', PDec 15)])\<lparr>ob_source := ''CSE_BULLETIN_DAILY''\<rparr>"

definition opening_obs :: day_obs where
  "opening_obs = noon_obs ''o1'' ''post_open'' 10 [(''share_volume'', PInt 5)]"

definition sample_tolerances :: tolerances where
  "sample_tolerances = [(''reconciliation_price_tolerance_pct'', PFlt (1 / 10)), (''anomaly_price_change_threshold_pct'', PInt 30)]"

definition sample_day :: "day_obs list" where
  "sample_day = [opening_obs, closing_obs]"

definition disputed_day :: "day_obs list" where
  "disputed_day = [closing_obs, bulletin_obs]"

definition day_result :: "day_obs list \<Rightarrow> (daily_row \<Rightarrow> bool) \<Rightarrow> bool" where
  "day_result obs holds = (case reconcile_day obs sample_tolerances of Inr c \<Rightarrow> holds c | Inl e \<Rightarrow> False)"

lemma day_result_iff: "day_result obs holds \<longleftrightarrow> (\<exists>c. reconcile_day obs sample_tolerances = Inr c \<and> holds c)"
  by (simp add: day_result_def split: sum.split)

lemma sample_day_row:
  "day_result sample_day (\<lambda>c. row_value c ''share_volume'' = Some (PInt 500) \<and> row_value c ''closing_price'' = Some (PDec 11))"
  by code_simp

lemma disputed_day_row: "day_result disputed_day (\<lambda>c. dr_status c = ''discrepancy_flagged'')"
  by code_simp

lemma sample_day_typed: "list_all db_read sample_day"
  by code_simp

theorem daily_value_source_witness:
  "\<exists>w \<in> set sample_day. ob_value ''share_volume'' w = Some (PInt 500) \<and> ob_window w \<noteq> ''post_open'' \<and>
     ob_value ''share_volume'' opening_obs = Some (PInt 5)"
proof -
  obtain c where c: "reconcile_day sample_day sample_tolerances = Inr c" "row_value c ''share_volume'' = Some (PInt 500)"
    using sample_day_row [unfolded day_result_iff] by blast
  have "''share_volume'' \<in> set reconcilable_fields" "''share_volume'' \<in> set end_of_day_fields"
    by (simp_all add: reconcilable_fields_def end_of_day_fields_def)
  with daily_value_source [OF c(1), of "''share_volume''" "PInt 500"] c(2)
  obtain w where "w \<in> set sample_day" "ob_value ''share_volume'' w = Some (PInt 500)" "\<not> intraday w" by blast
  moreover from this(3) have "ob_window w \<noteq> ''post_open''" by (auto simp: intraday_def intraday_windows_def)
  moreover have "ob_value ''share_volume'' opening_obs = Some (PInt 5)" by code_simp
  ultimately show ?thesis by blast
qed

theorem day_flagged_iff_witness:
  "\<exists>f \<in> set reconcilable_fields. \<exists>w others ob. ranked_candidates (eligible_for f disputed_day) = w # others \<and>
     ob \<in> set others \<and> agrees_with sample_tolerances f w ob = Inr False"
proof -
  obtain c where c: "reconcile_day disputed_day sample_tolerances = Inr c" "dr_status c = ''discrepancy_flagged''"
    using disputed_day_row [unfolded day_result_iff] by blast
  show ?thesis using day_flagged_iff [OF c(1)] c(2) by blast
qed

theorem day_row_order_witness:
  "\<exists>c c'. reconcile_day sample_day sample_tolerances = Inr c \<and> reconcile_day (rev sample_day) sample_tolerances = Inr c' \<and>
     dr_status c = dr_status c' \<and> row_value c ''closing_price'' = row_value c' ''closing_price''"
proof -
  obtain c where c: "reconcile_day sample_day sample_tolerances = Inr c"
    using sample_day_row [unfolded day_result_iff] by blast
  have "inj_on ob_at (set sample_day)" by (simp add: sample_day_def opening_obs_def closing_obs_def noon_obs_def)
  from day_row_order [OF _ this, of "rev sample_day" sample_tolerances] c show ?thesis
    by (auto split: sum.splits)
qed

theorem second_close_fails_witness:
  "canonicalise sample_day (Some 9) sample_tolerances = Inl TypeErr"
proof -
  obtain c where "reconcile_day sample_day sample_tolerances = Inr c" "row_value c ''closing_price'' = Some (PDec 11)"
    using sample_day_row [unfolded day_result_iff] by blast
  then show ?thesis using second_close_fails [of sample_day sample_tolerances c 9] sample_day_typed by (simp add: list_all_iff)
qed

definition quiet_day :: bool where
  "quiet_day = (case canonicalise [closing_obs] None sample_tolerances of
     Inr (c, status, found) \<Rightarrow> status = ''ok'' \<and> found = [] \<and> row_value c ''closing_price'' = Some (PDec 11) | Inl e \<Rightarrow> False)"

lemma quiet_day_written: "quiet_day \<and> list_all db_read [closing_obs]"
  by code_simp

theorem written_row_unflagged_witness:
  "\<exists>c r w. canonicalise [closing_obs] None sample_tolerances = Inr (c, ''ok'', []) \<and> r \<in> set (dr_fields c) \<and>
     fr_field r = ''closing_price'' \<and> fr_provenance r = Chosen w [] []"
proof -
  obtain c where run: "canonicalise [closing_obs] None sample_tolerances = Inr (c, ''ok'', [])"
    and price: "row_value c ''closing_price'' = Some (PDec 11)"
    using conjunct1 [OF quiet_day_written] by (auto simp: quiet_day_def split: sum.splits)
  from price obtain r where r: "r \<in> set (dr_fields c)" "fr_field r = ''closing_price''"
    using nth_mem by (auto simp: row_value_def find_Some_iff bind_eq_Some_conv)
  have "\<forall>ob \<in> set [closing_obs]. db_read ob" using conjunct2 [OF quiet_day_written] by (simp add: list_all_iff)
  from written_row_unflagged [OF this run] r show ?thesis using run by (fastforce simp: price_fields_def)
qed

end
