(* ===== verification/CaptureState.thy ===== *)
theory CaptureState
  imports DailyRow
begin

text \<open>
  What a capture run is judged by (\<open>market_capture/completeness.py\<close>, \<open>derive.py\<close>): the plan from the archived universe and
  trade summary, the session its snapshot shows, the raw observations expected and produced, and the state of the run.
  Inputs are what the archive holds: attempts in sequence, the parsed bodies' symbols and rows, the results of the latest
  derivation pass. Epoch milliseconds are integers; the digest of the cross-check rotation is an argument; wordings,
  counters and the protection report are not modelled.
\<close>

section \<open>The archive of a run\<close>

record source_attempt =
  sa_key :: string
  sa_outcome :: string

record run_policy =
  rp_mode :: string
  rp_absent_fallback :: bool
  rp_absent_limit :: "nat option"
  rp_cross_check_size :: nat
  rp_sweep_limit :: "nat option"

definition archived :: "source_attempt list \<Rightarrow> string \<Rightarrow> bool" where
  "archived atts key \<longleftrightarrow> list_ex (\<lambda>a. sa_key a = key \<and> sa_outcome a = ''ok'') atts"

definition request_status :: "source_attempt list \<Rightarrow> string \<Rightarrow> string" where
  "request_status atts key =
     (if archived atts key then ''archived''
      else if list_ex (\<lambda>a. sa_key a = key) atts then ''failed'' else ''not_attempted'')"

definition company_key :: "string \<Rightarrow> string" where
  "company_key s = ''companyInfoSummery:'' @ s"

section \<open>The plan\<close>

definition cross_check_sample :: "(string \<Rightarrow> string) \<Rightarrow> string list \<Rightarrow> string \<Rightarrow> nat \<Rightarrow> string list" where
  "cross_check_sample digest traded date wanted = take wanted (sort_key (\<lambda>s. digest (date @ ''|'' @ s)) (remdups traded))"

record capture_plan =
  pl_absent :: "string list"
  pl_ts_only :: "string list"
  pl_fallback :: "string list"
  pl_skipped :: "string list"
  pl_cross_check :: "string list"

text \<open>\<open>universe\<close> are the symbols of the universe in CSE's order, \<open>ts\<close> those of the trade summary.\<close>

definition plan_of ::
  "(string \<Rightarrow> string) \<Rightarrow> string list \<Rightarrow> string list \<Rightarrow> string \<Rightarrow> run_policy \<Rightarrow> capture_plan" where
  "plan_of digest universe ts date p =
     (let absent = filter (\<lambda>s. s \<notin> set ts) universe;
          fallback = (if \<not> rp_absent_fallback p then []
                      else case rp_absent_limit p of None \<Rightarrow> absent | Some n \<Rightarrow> take n absent)
      in \<lparr>pl_absent = absent, pl_ts_only = sorted_set (filter (\<lambda>s. s \<notin> set universe) ts), pl_fallback = fallback,
          pl_skipped = (if rp_absent_fallback p then drop (length fallback) absent else []),
          pl_cross_check = cross_check_sample digest (filter (\<lambda>s. s \<in> set ts) universe) date (rp_cross_check_size p)\<rparr>)"

definition expected_symbols :: "string list \<Rightarrow> string list \<Rightarrow> run_policy \<Rightarrow> string list" where
  "expected_symbols universe ts p =
     filter (\<lambda>s. s \<in> set ts \<or> rp_absent_fallback p) (universe @ sorted_set (filter (\<lambda>s. s \<notin> set universe) ts))"

section \<open>Session evidence\<close>

text \<open>A row of the trade summary: the milliseconds of its last trade, if a number; its closing price, if it has the field.\<close>

record summary_row =
  sr_last_traded :: "int option"
  sr_closing :: "pyval option"

text \<open>The Colombo day of an epoch time; None beyond the years 2000 to 2100.\<close>

definition colombo_of_ms :: "int \<Rightarrow> int option" where
  "colombo_of_ms ms =
     (let d = colombo_day (ms * 1000) in if 10957 \<le> d \<and> d \<le> 47846 then Some d else None)"

record session_evidence =
  se_latest :: "int option"
  se_matches :: bool
  se_closing_zero :: nat
  se_closing_missing :: nat
  se_all_published :: bool

definition session_times :: "summary_row list \<Rightarrow> (int \<times> int) list" where
  "session_times rows =
     concat (map (\<lambda>r. case sr_last_traded r of None \<Rightarrow> []
       | Some ms \<Rightarrow> (case colombo_of_ms ms of None \<Rightarrow> [] | Some d \<Rightarrow> [(ms, d)])) rows)"

definition session_evidence_of :: "summary_row list \<Rightarrow> int \<Rightarrow> session_evidence" where
  "session_evidence_of rows trading_day =
     (let latest = max_on fst (session_times rows);
          zero = length (filter (\<lambda>r. case sr_closing r of None \<Rightarrow> False | Some v \<Rightarrow> py_eq v (PInt 0)) rows);
          missing = length (filter (\<lambda>r. sr_closing r = None) rows)
      in \<lparr>se_latest = map_option fst latest, se_matches = (map_option snd latest = Some trading_day),
          se_closing_zero = zero, se_closing_missing = missing,
          se_all_published = (rows \<noteq> [] \<and> zero = 0 \<and> missing = 0)\<rparr>)"

section \<open>What was derived\<close>

record security_result =
  rs_symbol :: string
  rs_raw :: string
  rs_canonical :: string

record derived =
  dv_raw :: string
  dv_produced :: "string list"
  dv_missing :: "string list"
  dv_canonical :: string

definition result_for :: "security_result list \<Rightarrow> string \<Rightarrow> security_result option" where
  "result_for rows s = map_of (rev (map (\<lambda>r. (rs_symbol r, r)) rows)) s"

definition derived_of :: "security_result list \<Rightarrow> string list \<Rightarrow> derived" where
  "derived_of rows expected =
     (let made = (\<lambda>s. case result_for rows s of None \<Rightarrow> False | Some r \<Rightarrow> rs_raw r \<in> {''produced'', ''already_present''});
          produced = filter made expected;
          missing = filter (\<lambda>s. s \<notin> set produced) expected;
          written = length (filter (\<lambda>r. rs_canonical r = ''written'') rows);
          failed = list_ex (\<lambda>r. rs_canonical r = ''failed'') rows
      in \<lparr>dv_raw = (if rows = [] then ''not_derived'' else if expected \<noteq> [] \<and> missing = [] then ''complete''
                    else if produced \<noteq> [] then ''partial'' else ''none''),
          dv_produced = produced, dv_missing = missing,
          dv_canonical = (if rows = [] then ''not_derived''
                          else if \<not> failed \<and> written = length produced then ''complete'' else ''partial'')\<rparr>)"

section \<open>The state of the run\<close>

text \<open>The companies asked for, split into those archived and, sorted, the others.\<close>

definition archive_split :: "source_attempt list \<Rightarrow> string list \<Rightarrow> string list \<times> string list" where
  "archive_split atts symbols =
     (sorted_set (filter (\<lambda>s. request_status atts (company_key s) = ''archived'') symbols),
      sorted_set (filter (\<lambda>s. request_status atts (company_key s) \<noteq> ''archived'') symbols))"

text \<open>What is read of a run: its kind, its attempts, the symbols of the universe and the trade summary when archived, the
  rows of the trade summary, the results of the latest pass.\<close>

record run_archive =
  ra_kind :: string
  ra_day :: int
  ra_policy :: "run_policy option"
  ra_attempts :: "source_attempt list"
  ra_universe :: "string list"
  ra_ts :: "string list"
  ra_rows :: "summary_row list"
  ra_results :: "security_result list"

record run_summary =
  su_kind :: string
  su_captured :: bool
  su_known :: bool
  su_session :: "session_evidence option"
  su_derived :: derived
  su_swept :: "string list \<times> string list"
  su_cross_check :: "string list \<times> string list"
  su_fallback :: "string list \<times> string list"

definition sweep_of :: "run_archive \<Rightarrow> string list \<times> string list" where
  "sweep_of r =
     (let symbols = (if archived (ra_attempts r) ''allSecurityCode'' then ra_universe r else []);
          planned = (case Option.bind (ra_policy r) rp_sweep_limit of None \<Rightarrow> symbols | Some n \<Rightarrow> take n symbols)
      in (planned, filter (\<lambda>s. archived (ra_attempts r) (company_key s)) planned))"

definition summarize_run :: "(string \<Rightarrow> string) \<Rightarrow> (int \<Rightarrow> string) \<Rightarrow> run_archive \<Rightarrow> run_summary" where
  "summarize_run digest dated r =
     (let universe = archived (ra_attempts r) ''allSecurityCode''; ts = archived (ra_attempts r) ''tradeSummary'';
          expected = (case (universe, ts, ra_policy r) of
              (True, True, Some p) \<Rightarrow> expected_symbols (ra_universe r) (ra_ts r) p
            | (_, True, _) \<Rightarrow> sorted_set (ra_ts r)
            | _ \<Rightarrow> []);
          plan = (case (universe, ts, ra_policy r) of
              (True, True, Some p) \<Rightarrow> plan_of digest (ra_universe r) (ra_ts r) (dated (ra_day r)) p
            | _ \<Rightarrow> \<lparr>pl_absent = [], pl_ts_only = [], pl_fallback = [], pl_skipped = [], pl_cross_check = []\<rparr>)
      in \<lparr>su_kind = ra_kind r, su_captured = (if ra_kind r = ''market_capture'' then ts else universe),
          su_known = (universe \<and> ra_universe r \<noteq> []),
          su_session = (if ts then Some (session_evidence_of (ra_rows r) (ra_day r)) else None),
          su_derived = derived_of (ra_results r) expected, su_swept = sweep_of r,
          su_cross_check = archive_split (ra_attempts r) (pl_cross_check plan),
          su_fallback = archive_split (ra_attempts r) (pl_fallback plan)\<rparr>)"

definition stopped_early :: "string option \<Rightarrow> bool" where
  "stopped_early stopped \<longleftrightarrow> stopped \<noteq> None \<and> stopped \<noteq> Some []"

definition decide_state :: "run_summary \<Rightarrow> string option \<Rightarrow> string" where
  "decide_state s stopped =
     (if stopped = Some ''blocked'' then ''blocked''
      else if su_kind s = ''metadata_sweep'' then
        (if \<not> su_captured s then ''failed''
         else (let state = (if length (snd (su_swept s)) = length (fst (su_swept s)) then ''succeeded''
                            else if snd (su_swept s) \<noteq> [] then ''partial'' else ''failed'')
               in if stopped_early stopped \<and> state = ''succeeded'' then ''partial'' else state))
      else if \<not> su_captured s \<or> (case su_session s of None \<Rightarrow> True | Some e \<Rightarrow> \<not> se_matches e) then ''failed''
      else (let state = (if su_known s \<and> dv_raw (su_derived s) = ''complete'' then ''succeeded'' else ''partial'')
            in if stopped_early stopped \<and> state = ''succeeded'' then ''partial'' else state))"

section \<open>Facts\<close>

lemma take_drop_min: "take n xs @ drop (min (length xs) n) xs = xs"
  by (simp add: min_def)

text \<open>The plan loses no security: every symbol of the universe is in the trade summary, or asked for by the fallback, or
  listed as skipped by its limit, or the policy has no fallback; and the securities whose raw observation is expected are
  exactly those of the trade summary and, with the fallback, all of the universe.\<close>

theorem plan_covers:
  "set (pl_absent (plan_of digest universe ts date p)) = set universe - set ts \<and>
   (if rp_absent_fallback p
    then pl_fallback (plan_of digest universe ts date p) @ pl_skipped (plan_of digest universe ts date p) =
      pl_absent (plan_of digest universe ts date p)
    else pl_fallback (plan_of digest universe ts date p) = []) \<and>
   set (pl_cross_check (plan_of digest universe ts date p)) \<subseteq> set universe \<inter> set ts \<and>
   set (expected_symbols universe ts p) = set ts \<union> (if rp_absent_fallback p then set universe else {})"
proof -
  have "set (cross_check_sample digest xs date n) \<subseteq> set xs" for xs n
    using set_take_subset [of n "sort_key (\<lambda>s. digest (date @ ''|'' @ s)) (remdups xs)"] by (auto simp: cross_check_sample_def)
  then have "set (pl_cross_check (plan_of digest universe ts date p)) \<subseteq> set universe \<inter> set ts"
    by (fastforce simp: plan_of_def Let_def)
  then show ?thesis by (auto simp: plan_of_def expected_symbols_def Let_def take_drop_min split: option.split)
qed

text \<open>C25: A market capture that is recorded as succeeded was not stopped early, archived the universe and a trade summary whose
  latest trade is on its own trading date, and produced the raw observation of every security it expected, of which there
  is at least one. What became of the canonical rows has no influence.\<close>

theorem succeeded_run_complete:
  assumes "decide_state (summarize_run digest dated r) stopped = ''succeeded''" "ra_kind r = ''market_capture''" "ra_policy r = Some p"
  shows "\<not> stopped_early stopped \<and> archived (ra_attempts r) ''tradeSummary'' \<and> archived (ra_attempts r) ''allSecurityCode'' \<and>
    ra_universe r \<noteq> [] \<and> se_matches (session_evidence_of (ra_rows r) (ra_day r)) \<and>
    expected_symbols (ra_universe r) (ra_ts r) p \<noteq> [] \<and>
    (\<forall>s \<in> set (expected_symbols (ra_universe r) (ra_ts r) p).
       \<exists>x \<in> set (ra_results r). rs_symbol x = s \<and> rs_raw x \<in> {''produced'', ''already_present''})"
proof -
  define s where "s = summarize_run digest dated r"
  have ok: "\<not> stopped_early stopped" "su_captured s" "su_known s" "dv_raw (su_derived s) = ''complete''"
    "\<exists>e. su_session s = Some e \<and> se_matches e"
    using assms(1,2) unfolding s_def [symmetric]
    by (auto simp: decide_state_def Let_def s_def summarize_run_def split: if_splits option.splits)
  have archive: "archived (ra_attempts r) ''tradeSummary''" "archived (ra_attempts r) ''allSecurityCode''" "ra_universe r \<noteq> []"
    using ok(2,3) assms(2) by (auto simp: s_def summarize_run_def Let_def)
  have matches: "se_matches (session_evidence_of (ra_rows r) (ra_day r))"
    using ok(5) archive(1) by (simp add: s_def summarize_run_def Let_def)
  have derived: "su_derived s = derived_of (ra_results r) (expected_symbols (ra_universe r) (ra_ts r) p)"
    using archive assms(3) by (simp add: s_def summarize_run_def Let_def)
  have complete: "expected_symbols (ra_universe r) (ra_ts r) p \<noteq> []" "dv_missing (su_derived s) = []"
    using ok(4) unfolding derived by (auto simp: derived_of_def Let_def split: if_splits)
  have "\<exists>x \<in> set (ra_results r). rs_symbol x = y \<and> rs_raw x \<in> {''produced'', ''already_present''}"
    if wanted: "y \<in> set (expected_symbols (ra_universe r) (ra_ts r) p)" for y
  proof -
    obtain x where "result_for (ra_results r) y = Some x" "rs_raw x \<in> {''produced'', ''already_present''}"
      using complete(2) wanted unfolding derived
      by (fastforce simp: derived_of_def Let_def filter_empty_conv split: option.splits)
    then show ?thesis by (fastforce simp: result_for_def dest!: map_of_SomeD)
  qed
  then show ?thesis using ok(1) archive matches complete(1) by blast
qed

text \<open>Two securities, one of them only by the fallback.\<close>

definition sample_archive :: run_archive where
  "sample_archive =
     \<lparr>ra_kind = ''market_capture'', ra_day = 20706,
      ra_policy = Some \<lparr>rp_mode = ''post_close'', rp_absent_fallback = True, rp_absent_limit = None, rp_cross_check_size = 10,
        rp_sweep_limit = None\<rparr>,
      ra_attempts = [\<lparr>sa_key = ''allSecurityCode'', sa_outcome = ''ok''\<rparr>, \<lparr>sa_key = ''tradeSummary'', sa_outcome = ''timeout''\<rparr>,
        \<lparr>sa_key = ''tradeSummary'', sa_outcome = ''ok''\<rparr>, \<lparr>sa_key = ''companyInfoSummery:B'', sa_outcome = ''ok''\<rparr>],
      ra_universe = [''B'', ''A''], ra_ts = [''A''],
      ra_rows = [\<lparr>sr_last_traded = Some 1789018200000, sr_closing = Some (PFlt 0)\<rparr>],
      ra_results = [\<lparr>rs_symbol = ''A'', rs_raw = ''produced'', rs_canonical = ''failed''\<rparr>,
        \<lparr>rs_symbol = ''B'', rs_raw = ''already_present'', rs_canonical = ''written''\<rparr>]\<rparr>"

lemma sample_archive_succeeds: "decide_state (summarize_run id (\<lambda>d. ''2026-09-10'') sample_archive) None = ''succeeded''"
  by code_simp

theorem succeeded_run_complete_witness:
  "archived (ra_attempts sample_archive) ''tradeSummary'' \<and> se_matches (session_evidence_of (ra_rows sample_archive) 20706)"
  using succeeded_run_complete [OF sample_archive_succeeds] by (simp add: sample_archive_def)

end
