(* ===== verification/Figures.thy ===== *)
theory Figures
  imports Text Decimals
begin

text \<open>
  Printed figures (\<open>financial_values.py\<close>): the strict parser of one table cell, whose regular expressions are written out
  as scanners over code points, and the merging of letter-spaced fragments on one line. Which code points are decimal
  digits (\<open>\d\<close>), and their values, is an argument; the case-insensitive spreadsheet errors are read in ASCII.
\<close>

section \<open>Numbers\<close>

type_synonym numerals = "nat \<Rightarrow> nat option"

definition ascii_numerals :: numerals where
  "ascii_numerals c = (if 48 \<le> c \<and> c \<le> 57 then Some (c - 48) else None)"

definition all_digits :: "numerals \<Rightarrow> ustr \<Rightarrow> bool" where
  "all_digits nd s \<longleftrightarrow> list_all (\<lambda>c. nd c \<noteq> None) s"

fun split_at :: "nat \<Rightarrow> ustr \<Rightarrow> ustr list" where
  "split_at d [] = [[]]"
| "split_at d (c # cs) =
     (if c = d then [] # split_at d cs else (case split_at d cs of [] \<Rightarrow> [[c]] | w # ws \<Rightarrow> (c # w) # ws))"

text \<open>\<open>\d{1,3}(,\d{3})+\<close>\<close>

definition grouped :: "numerals \<Rightarrow> ustr \<Rightarrow> bool" where
  "grouped nd s \<longleftrightarrow>
     (case split_at 44 s of
        w # v # vs \<Rightarrow> all_digits nd w \<and> 1 \<le> length w \<and> length w \<le> 3 \<and>
          list_all (\<lambda>x. all_digits nd x \<and> length x = 3) (v # vs)
      | _ \<Rightarrow> False)"

text \<open>\<open>_CORE\<close>, the whole of a text: grouped or plain digits with an optional fraction, or a fraction alone.\<close>

definition is_core :: "numerals \<Rightarrow> ustr \<Rightarrow> bool" where
  "is_core nd s \<longleftrightarrow>
     (case split_at 46 s of
        [i] \<Rightarrow> grouped nd i \<or> i \<noteq> [] \<and> all_digits nd i
      | [i, f] \<Rightarrow> f \<noteq> [] \<and> all_digits nd f \<and> (i = [] \<or> grouped nd i \<or> all_digits nd i)
      | _ \<Rightarrow> False)"

definition digits_number :: "numerals \<Rightarrow> ustr \<Rightarrow> int" where
  "digits_number nd s = foldl (\<lambda>n c. 10 * n + (case nd c of None \<Rightarrow> 0 | Some d \<Rightarrow> int d)) 0 s"

text \<open>\<open>_dec\<close>: the Decimal of a core and its printed decimal places.\<close>

definition core_dec :: "numerals \<Rightarrow> ustr \<Rightarrow> dec \<times> nat" where
  "core_dec nd s =
     (let parts = split_at 46 (filter (\<lambda>c. c \<noteq> 44) s); places = (case parts of [i, f] \<Rightarrow> length f | _ \<Rightarrow> 0)
      in (Dec (digits_number nd (concat parts)) (- int places), places))"

section \<open>One cell\<close>

record parsed_value =
  pv_raw :: "ustr option"
  pv_parsed :: "dec option"
  pv_class :: string
  pv_decimals :: "nat option"
  pv_reason :: "string option"

definition value_classes :: "string list" where
  "value_classes = [''numeric'', ''parenthesised_negative'', ''minus_negative'', ''negative_zero'', ''dash_nil'', ''percentage'',
     ''comparison_bound'', ''spreadsheet_error'']"

definition is_value :: "parsed_value \<Rightarrow> bool" where
  "is_value p \<longleftrightarrow> pv_class p \<in> set value_classes"

definition minus_points :: "nat list" where
  "minus_points = [45, 8211, 8722]"

definition is_dash :: "ustr \<Rightarrow> bool" where
  "is_dash t \<longleftrightarrow> 1 \<le> length t \<and> length t \<le> 2 \<and> list_all (\<lambda>c. c \<in> set (8212 # minus_points)) t"

definition error_names :: "string list" where
  "error_names = [''#ref!'', ''#div/0!'', ''#value!'', ''#n/a'', ''#name?'', ''#num!'', ''#null!'']"

definition is_error :: "ustr \<Rightarrow> bool" where
  "is_error t \<longleftrightarrow> map ascii_lower t \<in> set (map u error_names)"

definition date_mark :: "nat \<Rightarrow> bool" where
  "date_mark c \<longleftrightarrow> c \<in> {45, 46, 47}"

text \<open>\<open>\d{1,2}[./\-]\d{1,2}[./\-](\d{2}|\d{4})\<close>\<close>

definition is_date :: "numerals \<Rightarrow> ustr \<Rightarrow> bool" where
  "is_date nd t \<longleftrightarrow>
     (let digit = (\<lambda>c. nd c \<noteq> None); d = takeWhile digit t; r = dropWhile digit t in
      length d \<in> {1, 2} \<and>
      (case r of [] \<Rightarrow> False
       | c # r' \<Rightarrow> date_mark c \<and>
          (let m = takeWhile digit r'; r'' = dropWhile digit r' in
           length m \<in> {1, 2} \<and>
           (case r'' of [] \<Rightarrow> False | e # y \<Rightarrow> date_mark e \<and> all_digits nd y \<and> length y \<in> {2, 4}))))"

definition in_parens :: "ustr \<Rightarrow> ustr option" where
  "in_parens t =
     (case t of [] \<Rightarrow> None
      | c # r \<Rightarrow> if c = 40 \<and> r \<noteq> [] \<and> last r = 41 then Some (ustrip (butlast r)) else None)"

text \<open>The longest run of core characters after white space, and what follows it without white space.\<close>

definition scan_core :: "numerals \<Rightarrow> ustr \<Rightarrow> ustr \<times> ustr" where
  "scan_core nd t =
     (let r = dropWhile is_white t; core = (\<lambda>c. nd c \<noteq> None \<or> c \<in> {44, 46})
      in (takeWhile core r, dropWhile is_white (dropWhile core r)))"

definition optional_point :: "nat list \<Rightarrow> ustr \<Rightarrow> nat option \<times> ustr" where
  "optional_point marks t = (case t of [] \<Rightarrow> (None, []) | c # r \<Rightarrow> if c \<in> set marks then (Some c, r) else (None, t))"

text \<open>\<open>PERCENT_RE\<close>: the sign or opening parenthesis, the core, and the two closing parentheses.\<close>

definition match_percent :: "numerals \<Rightarrow> ustr \<Rightarrow> (nat option \<times> ustr \<times> bool \<times> bool) option" where
  "match_percent nd t =
     (let (neg, r) = optional_point (40 # minus_points) t; (n, r1) = scan_core nd r;
          (close, r2) = optional_point [41] r1; r3 = dropWhile is_white r2 in
      case r3 of [] \<Rightarrow> None
      | c # r4 \<Rightarrow>
         (let (close2, r5) = optional_point [41] (dropWhile is_white r4)
          in if c = 37 \<and> is_core nd n \<and> r5 = [] then Some (neg, n, close \<noteq> None, close2 \<noteq> None) else None))"

text \<open>\<open>BOUND_RE\<close>\<close>

definition is_bound :: "numerals \<Rightarrow> ustr \<Rightarrow> bool" where
  "is_bound nd t \<longleftrightarrow>
     (case t of [] \<Rightarrow> False
      | c # r \<Rightarrow>
         (c \<in> {60, 62, 8804, 8805} \<and>
          (let r0 = (if c \<in> {60, 62} then snd (optional_point [61] r) else r); r1 = dropWhile is_white r0;
               (open, r2) = optional_point [40] r1;
               r3 = (if open = None then snd (optional_point minus_points r1) else r2);
               (n, r4) = scan_core nd r3;
               r5 = (if open = None then Some r4 else (case r4 of d # r' \<Rightarrow> if d = 41 then Some (dropWhile is_white r') else None | [] \<Rightarrow> None))
           in is_core nd n \<and> (r5 = Some [] \<or> r5 = Some [37]))))"

definition number_points :: "nat list" where
  "number_points = u ''0123456789,.()%+<>'' @ 8212 # minus_points"

definition looks_numeric :: "ustr \<Rightarrow> bool" where
  "looks_numeric text \<longleftrightarrow>
     (let t = no_spaces text in t \<noteq> [] \<and>
        (is_dash t \<or> is_error t \<or> list_ex (\<lambda>c. 48 \<le> c \<and> c \<le> 57) t \<and> list_all (\<lambda>c. c \<in> set number_points) t))"

definition value_of :: "ustr option \<Rightarrow> dec option \<Rightarrow> string \<Rightarrow> nat option \<Rightarrow> string option \<Rightarrow> parsed_value" where
  "value_of raw d cls n reason =
     \<lparr>pv_raw = raw, pv_parsed = d, pv_class = cls, pv_decimals = n, pv_reason = reason\<rparr>"

definition negative_value :: "ustr option \<Rightarrow> string \<Rightarrow> dec \<times> nat \<Rightarrow> parsed_value" where
  "negative_value raw cls = (\<lambda>(d, n). value_of raw (Some (dec_neg28 d)) (if coef d = 0 then ''negative_zero'' else cls) (Some n) None)"

definition minus_core :: "numerals \<Rightarrow> ustr \<Rightarrow> ustr option" where
  "minus_core nd t =
     (case t of [] \<Rightarrow> None
      | c # r \<Rightarrow>
         (let n = (case r of [] \<Rightarrow> r | w # r' \<Rightarrow> if is_white w then r' else r)
          in if c \<in> set minus_points \<and> is_core nd n then Some n else None))"

text \<open>The last three tries: a percentage, a bound, and what only looks like a number.\<close>

definition parse_rest :: "numerals \<Rightarrow> ustr option \<Rightarrow> ustr \<Rightarrow> parsed_value" where
  "parse_rest nd raw t =
     (case match_percent nd t of
        Some (neg, n, close, close2) \<Rightarrow>
          if (neg = Some 40) \<noteq> (close \<or> close2) then value_of raw None ''unresolved'' None (Some ''unbalanced_parenthesis'')
          else (let (d, k) = core_dec nd n in value_of raw (Some (if neg = None then d else dec_neg28 d)) ''percentage'' (Some k) None)
      | None \<Rightarrow>
          if is_bound nd t then value_of raw None ''comparison_bound'' None None
          else if looks_numeric t then value_of raw None ''unresolved'' None (Some ''malformed_number'')
          else value_of raw None ''text'' None None)"

definition parse_value :: "numerals \<Rightarrow> ustr option \<Rightarrow> parsed_value" where
  "parse_value nd raw =
     (let t = ustrip (case raw of None \<Rightarrow> [] | Some s \<Rightarrow> s); plain = snd (optional_point [43] t) in
      if t = [] then value_of raw None ''text'' None (Some ''empty'')
      else if is_dash t then value_of raw None ''dash_nil'' None None
      else if is_error t then value_of raw None ''spreadsheet_error'' None None
      else if is_date nd t then value_of raw None ''text'' None (Some ''date'')
      else if is_core nd plain
        then (let (d, n) = core_dec nd plain in value_of raw (Some d) ''numeric'' (Some n) None)
      else (case in_parens t of
          Some inner \<Rightarrow> if is_core nd inner then negative_value raw ''parenthesised_negative'' (core_dec nd inner) else
            parse_rest nd raw t
        | None \<Rightarrow>
           (case minus_core nd t of
              Some n \<Rightarrow> negative_value raw ''minus_negative'' (core_dec nd n)
            | None \<Rightarrow> parse_rest nd raw t)))"

section \<open>Letter-spaced fragments\<close>

text \<open>A word of a line with its box (points, y grows down) and the number of pieces it was merged from;
  the coordinates are exact.\<close>

record word =
  wd_text :: ustr
  wd_x0 :: rat
  wd_y0 :: rat
  wd_x1 :: rat
  wd_y1 :: rat
  wd_fragments :: nat

definition merge_gap_ratio :: rat where
  "merge_gap_ratio = 1 / 4"

definition word_height :: "word \<Rightarrow> rat" where
  "word_height w = wd_y1 w - wd_y0 w"

text \<open>\<open>$\<close> also matches before a line feed at the end.\<close>

definition is_fragment :: "numerals \<Rightarrow> ustr \<Rightarrow> bool" where
  "is_fragment nd t \<longleftrightarrow>
     (let s = (if t \<noteq> [] \<and> last t = 10 then butlast t else t)
      in s \<noteq> [] \<and> list_all (\<lambda>c. nd c \<noteq> None \<or> c \<in> set (u '',.()%'' @ minus_points)) s)"

definition joins :: "numerals \<Rightarrow> rat \<Rightarrow> word \<Rightarrow> word \<Rightarrow> bool" where
  "joins nd ratio prev next \<longleftrightarrow>
     (let h = max 1 (min (word_height prev) (word_height next))
      in is_fragment nd (wd_text next) \<and> wd_x0 next - wd_x1 prev \<le> ratio * h \<and> wd_x0 prev \<le> wd_x0 next)"

text \<open>The pieces that continue a run.\<close>

fun fragment_run :: "numerals \<Rightarrow> rat \<Rightarrow> word \<Rightarrow> word list \<Rightarrow> word list" where
  "fragment_run nd ratio prev [] = []"
| "fragment_run nd ratio prev (w # ws) = (if joins nd ratio prev w then w # fragment_run nd ratio w ws else [])"

definition run_text :: "word list \<Rightarrow> ustr" where
  "run_text ws = concat (map wd_text ws)"

text \<open>The longest prefix, of at least two pieces, that reads as a value; 1 if there is none.\<close>

fun best_prefix :: "numerals \<Rightarrow> word list \<Rightarrow> nat \<Rightarrow> nat" where
  "best_prefix nd run 0 = 1"
| "best_prefix nd run (Suc k) =
     (if k = 0 then 1
      else if is_value (parse_value nd (Some (run_text (take (Suc k) run)))) then Suc k else best_prefix nd run k)"

definition merged_word :: "word list \<Rightarrow> word" where
  "merged_word ws =
     \<lparr>wd_text = run_text ws, wd_x0 = Min (set (map wd_x0 ws)), wd_y0 = Min (set (map wd_y0 ws)),
      wd_x1 = Max (set (map wd_x1 ws)), wd_y1 = Max (set (map wd_y1 ws)), wd_fragments = sum_list (map wd_fragments ws)\<rparr>"

function merge_line :: "numerals \<Rightarrow> rat \<Rightarrow> word list \<Rightarrow> word list" where
  "merge_line nd ratio [] = []"
| "merge_line nd ratio (w # ws) =
     (if \<not> is_fragment nd (wd_text w) then w # merge_line nd ratio ws
      else (let run = w # fragment_run nd ratio w ws; best = best_prefix nd run (length run)
            in if 1 < best then merged_word (take best run) # merge_line nd ratio (drop best (w # ws))
               else w # merge_line nd ratio ws))"
  by pat_completeness auto
termination
  by (relation "measure (\<lambda>(nd, ratio, ws). length ws)") auto

definition merge_numeric_fragments :: "numerals \<Rightarrow> rat \<Rightarrow> word list \<Rightarrow> word list" where
  "merge_numeric_fragments nd ratio ws = merge_line nd ratio (sort_key wd_x0 ws)"

end
