(* ===== verification/FiguresFacts.thy ===== *)
theory FiguresFacts
  imports Figures "HOL-Library.Multiset"
begin

text \<open>
  Facts of printed figures: a figure printed with thousands separators, decimal places and parentheses reads back as
  exactly its number; a parsed amount has the sign and the precision it was printed with; merging fragments loses no
  character and makes values only.
\<close>

section \<open>Printing\<close>

fun digits_of :: "nat \<Rightarrow> ustr" where
  "digits_of n = (if n < 10 then [48 + n] else digits_of (n div 10) @ [48 + n mod 10])"

declare digits_of.simps [simp del]

fun commas :: "ustr \<Rightarrow> ustr" where
  "commas ds = (if length ds \<le> 3 then ds else commas (take (length ds - 3) ds) @ 44 # drop (length ds - 3) ds)"

declare commas.simps [simp del]

text \<open>The digits of \<open>c\<close>, at least one more than the decimal places.\<close>

definition padded :: "nat \<Rightarrow> nat \<Rightarrow> ustr" where
  "padded c k = replicate (Suc k - length (digits_of c)) 48 @ digits_of c"

definition print_figure :: "nat \<Rightarrow> nat \<Rightarrow> ustr" where
  "print_figure c k =
     (let s = padded c k; n = length s - k
      in commas (take n s) @ (if k = 0 then [] else 46 # drop n s))"

definition digit_points :: "ustr \<Rightarrow> bool" where
  "digit_points s \<longleftrightarrow> list_all (\<lambda>c. 48 \<le> c \<and> c \<le> 57) s"

lemma digit_points_append [simp]: "digit_points (a @ b) \<longleftrightarrow> digit_points a \<and> digit_points b" "digit_points []"
  by (simp_all add: digit_points_def)

lemma digit_points_part: "digit_points s \<Longrightarrow> digit_points (take n s)" "digit_points s \<Longrightarrow> digit_points (drop n s)"
  by (metis append_take_drop_id digit_points_append(1))+

lemma all_digits_points: "all_digits ascii_numerals s \<longleftrightarrow> digit_points s"
  by (simp add: all_digits_def digit_points_def ascii_numerals_def)

lemma digits_of_points: "digit_points (digits_of n) \<and> digits_of n \<noteq> []"
proof (induction n rule: digits_of.induct)
  case (1 n)
  then show ?case by (subst (1 2) digits_of.simps) (auto simp: digit_points_def)
qed

lemma digits_number_of: "digits_number ascii_numerals (digits_of n) = int n"
proof (induction n rule: digits_of.induct)
  case (1 n)
  show ?case
  proof (cases "n < 10")
    case True
    then show ?thesis by (simp add: digits_of.simps [of n] digits_number_def ascii_numerals_def)
  next
    case False
    then have "digits_number ascii_numerals (digits_of (n div 10)) = int (n div 10)" using 1 by simp
    then show ?thesis using False
      by (simp add: digits_of.simps [of n] digits_number_def ascii_numerals_def) presburger
  qed
qed

lemma digits_number_zeros: "digits_number ascii_numerals (replicate m 48 @ s) = digits_number ascii_numerals s"
  by (induction m) (simp_all add: digits_number_def ascii_numerals_def)

lemma padded_facts:
  "digit_points (padded c k)" "k < length (padded c k)" "digits_number ascii_numerals (padded c k) = int c"
  using digits_of_points [of c] digits_number_of [of c] digits_number_zeros
  by (auto simp: padded_def digit_points_def list_all_iff)

section \<open>Scanning what was printed\<close>

lemma split_at_append: "split_at d (xs @ d # ys) = split_at d xs @ split_at d ys"
proof (induction xs)
  case Nil
  then show ?case by simp
next
  case (Cons x xs)
  have "split_at d zs \<noteq> []" for zs by (induction zs) (auto split: list.split)
  then show ?case using Cons by (auto split: list.splits)
qed

lemma split_at_plain: "d \<notin> set s \<Longrightarrow> split_at d s = [s]"
  by (induction s) auto

lemma points_not: "digit_points s \<Longrightarrow> c < 48 \<or> 57 < c \<Longrightarrow> c \<notin> set s"
  by (auto simp: digit_points_def list_all_iff)

lemma commas_facts:
  assumes "digit_points ds" "ds \<noteq> []"
  shows "set (commas ds) \<subseteq> insert 44 (set ds)" "filter (\<lambda>c. c \<noteq> 44) (commas ds) = ds"
    "\<exists>w vs. split_at 44 (commas ds) = w # vs \<and> digit_points w \<and> 1 \<le> length w \<and> length w \<le> 3 \<and>
       list_all (\<lambda>x. digit_points x \<and> length x = 3) vs \<and> (vs = [] \<longrightarrow> commas ds = w)"
proof -
  have "set (commas ds) \<subseteq> insert 44 (set ds) \<and> filter (\<lambda>c. c \<noteq> 44) (commas ds) = ds \<and>
      (\<exists>w vs. split_at 44 (commas ds) = w # vs \<and> digit_points w \<and> 1 \<le> length w \<and> length w \<le> 3 \<and>
       list_all (\<lambda>x. digit_points x \<and> length x = 3) vs \<and> (vs = [] \<longrightarrow> commas ds = w))"
    using assms
  proof (induction ds rule: commas.induct)
    case (1 ds)
    have plain: "filter (\<lambda>c. c \<noteq> 44) s = s" "split_at 44 s = [s]" if "digit_points s" for s
      using points_not [OF that, of 44] split_at_plain by (auto intro!: filter_True)
    show ?case
    proof (cases "length ds \<le> 3")
      case True
      then have "commas ds = ds" by (simp add: commas.simps [of ds])
      then show ?thesis using True 1(2,3) plain [OF 1(2)] by (auto simp: Suc_le_eq)
    next
      case False
      define a b where "a = take (length ds - 3) ds" and "b = drop (length ds - 3) ds"
      have ab: "ds = a @ b" "length b = 3" "a \<noteq> []" "digit_points a" "digit_points b"
        using False 1(2) digit_points_part by (auto simp: a_def b_def)
      have step: "commas (a @ b) = commas a @ 44 # b"
        using False by (simp add: commas.simps [of ds] a_def b_def flip: ab(1))
      from 1(1) [OF False] ab obtain w vs where IH: "set (commas a) \<subseteq> insert 44 (set a)" "filter (\<lambda>c. c \<noteq> 44) (commas a) = a"
        "split_at 44 (commas a) = w # vs" "digit_points w" "1 \<le> length w" "length w \<le> 3"
        "list_all (\<lambda>x. digit_points x \<and> length x = 3) vs"
        unfolding a_def by blast
      show ?thesis unfolding ab(1) step using IH ab(2,3,5) plain [OF ab(5)] by (auto simp: split_at_append)
    qed
  qed
  then show "set (commas ds) \<subseteq> insert 44 (set ds)" "filter (\<lambda>c. c \<noteq> 44) (commas ds) = ds"
    "\<exists>w vs. split_at 44 (commas ds) = w # vs \<and> digit_points w \<and> 1 \<le> length w \<and> length w \<le> 3 \<and>
       list_all (\<lambda>x. digit_points x \<and> length x = 3) vs \<and> (vs = [] \<longrightarrow> commas ds = w)" by blast+
qed

lemma commas_grouped:
  assumes "digit_points ds" "ds \<noteq> []"
  shows "grouped ascii_numerals (commas ds) \<or> commas ds \<noteq> [] \<and> all_digits ascii_numerals (commas ds)"
proof -
  obtain w vs where parts: "split_at 44 (commas ds) = w # vs" "digit_points w" "1 \<le> length w" "length w \<le> 3"
    "list_all (\<lambda>x. digit_points x \<and> length x = 3) vs" "vs = [] \<longrightarrow> commas ds = w"
    using commas_facts(3) [OF assms] by blast
  show ?thesis
  proof (cases vs)
    case Nil
    then show ?thesis using parts by (auto simp: all_digits_points)
  next
    case (Cons v rest)
    then show ?thesis using parts by (auto simp: grouped_def all_digits_points)
  qed
qed

section \<open>A printed figure\<close>

lemma figure_parts:
  obtains i f where "print_figure c k = i @ (if k = 0 then [] else 46 # f)" "digit_points f" "length f = k"
    "grouped ascii_numerals i \<or> i \<noteq> [] \<and> all_digits ascii_numerals i" "set i \<subseteq> {44} \<union> {48..57}" "i \<noteq> []"
    "digits_number ascii_numerals (filter (\<lambda>x. x \<noteq> 44) i @ f) = int c"
proof -
  define s n where "s = padded c k" and "n = length s - k"
  note facts = padded_facts [where c = c and k = k, folded s_def]
  have whole: "digit_points (take n s)" "take n s \<noteq> []" "digit_points (drop n s)" "length (drop n s) = k"
    using facts digit_points_part by (auto simp: n_def)
  note com = commas_facts [OF whole(1,2)]
  have nonempty: "commas (take n s) \<noteq> []" using com(2) whole(2) by auto
  have "set (take n s) \<subseteq> {48..57}" using whole(1) by (auto simp: digit_points_def list_all_iff)
  then have range: "set (commas (take n s)) \<subseteq> {44} \<union> {48..57}" using com(1) by auto
  have number: "digits_number ascii_numerals (filter (\<lambda>x. x \<noteq> 44) (commas (take n s)) @ drop n s) = int c"
    using facts(3) by (simp add: com(2))
  show ?thesis
    by (rule that [OF _ whole(3,4) commas_grouped [OF whole(1,2)] range nonempty number])
      (simp add: print_figure_def Let_def s_def n_def)
qed

lemma figure_core:
  "is_core ascii_numerals (print_figure c k)" "core_dec ascii_numerals (print_figure c k) = (Dec (int c) (- int k), k)"
  "set (print_figure c k) \<subseteq> {44, 46} \<union> {48..57}" "print_figure c k \<noteq> []" "hd (print_figure c k) \<in> {48..57}"
  "last (print_figure c k) \<in> {48..57}" "length (filter date_mark (print_figure c k)) \<le> 1"
proof -
  obtain i f where parts: "print_figure c k = i @ (if k = 0 then [] else 46 # f)" "digit_points f" "length f = k"
    "grouped ascii_numerals i \<or> i \<noteq> [] \<and> all_digits ascii_numerals i" "set i \<subseteq> {44} \<union> {48..57}" "i \<noteq> []"
    "digits_number ascii_numerals (filter (\<lambda>x. x \<noteq> 44) i @ f) = int c"
    by (rule figure_parts)
  have i46: "46 \<notin> set i" "46 \<notin> set (filter (\<lambda>x. x \<noteq> 44) i)" using parts(5) by auto
  have f46: "46 \<notin> set f" and f44: "filter (\<lambda>x. x \<noteq> 44) f = f" using points_not [OF parts(2)] by (auto intro!: filter_True)
  show "is_core ascii_numerals (print_figure c k)"
    using parts(2-4,6) split_at_plain [OF i46(1)] split_at_plain [OF f46]
    by (auto simp: is_core_def parts(1) split_at_append all_digits_points)
  show "core_dec ascii_numerals (print_figure c k) = (Dec (int c) (- int k), k)"
    using parts(3,7) split_at_plain [OF i46(2)] split_at_plain [OF f46]
    by (auto simp: core_dec_def Let_def parts(1) split_at_append f44)
  show "set (print_figure c k) \<subseteq> {44, 46} \<union> {48..57}"
    using parts(2,5) by (auto simp: parts(1) digit_points_def list_all_iff)
  have "filter date_mark i = []" "filter date_mark f = []"
    using parts(2,5) by (auto simp: filter_empty_conv date_mark_def digit_points_def list_all_iff)
  then show "length (filter date_mark (print_figure c k)) \<le> 1" by (simp add: parts(1))
  show "print_figure c k \<noteq> []" using parts(6) by (simp add: parts(1))
  show "hd (print_figure c k) \<in> {48..57}"
  proof -
    have "hd i \<noteq> 44"
    proof
      assume "hd i = 44"
      then obtain r where "i = 44 # r" using parts(6) by (cases i) auto
      then show False using parts(4) by (auto simp: grouped_def all_digits_def ascii_numerals_def split: list.splits)
    qed
    then show ?thesis using parts(5,6) by (cases i) (auto simp: parts(1))
  qed
  show "last (print_figure c k) \<in> {48..57}"
  proof (cases "k = 0")
    case False
    then have "f \<noteq> []" using parts(3) by auto
    then have "last f \<in> set f" by simp
    then show ?thesis using parts(2) False \<open>f \<noteq> []\<close> by (auto simp: parts(1) digit_points_def list_all_iff)
  next
    case True
    have "last i \<noteq> 44"
    proof
      assume "last i = 44"
      then obtain r where r: "i = r @ [44]" using parts(6) by (cases i rule: rev_cases) auto
      have pieces: "split_at 44 i = split_at 44 r @ [[]]" unfolding r by (subst split_at_append) simp
      have "\<not> all_digits ascii_numerals i" by (simp add: r all_digits_def ascii_numerals_def)
      then have "grouped ascii_numerals i" using parts(4) by blast
      then obtain w v vs where "split_at 44 i = w # v # vs" "list_all (\<lambda>x. length x = 3) (v # vs)"
        by (auto simp: grouped_def list_all_iff split: list.splits)
      moreover from this(1) pieces have "last (v # vs) = []" by (metis last_ConsR last_snoc list.distinct(1))
      moreover have "last (v # vs) \<in> set (v # vs)" by (rule last_in_set) simp
      ultimately show False unfolding list_all_iff by fastforce
    qed
    moreover have "print_figure c k = i" using parts(1) True by simp
    ultimately show ?thesis using parts(5) last_in_set [OF parts(6)] by auto
  qed
qed

lemma ustrip_id:
  assumes "s \<noteq> []" "\<not> is_white (hd s)" "\<not> is_white (last s)"
  shows "ustrip s = s"
proof -
  have "dropWhile is_white s = s" using assms(1,2) by (cases s) auto
  moreover have "dropWhile is_white (rev s) = rev s" using assms(1,3) by (cases s rule: rev_cases) auto
  ultimately show ?thesis by (simp add: ustrip_def)
qed

lemma digit_not_white: "48 \<le> c \<Longrightarrow> c \<le> 57 \<Longrightarrow> \<not> is_white c"
  by (simp add: is_white_def)

lemma split_at_covers: "c \<in> set s \<Longrightarrow> c = d \<or> (\<exists>w \<in> set (split_at d s). c \<in> set w)"
  by (induction s) (auto split: list.splits)

lemma grouped_chars: "grouped nd s \<Longrightarrow> c \<in> set s \<Longrightarrow> nd c \<noteq> None \<or> c = 44"
  using split_at_covers [of c s 44]
  by (fastforce simp: grouped_def all_digits_def list_all_iff split: list.splits)

lemma core_chars:
  assumes "is_core nd s" "c \<in> set s"
  shows "nd c \<noteq> None \<or> c \<in> {44, 46}"
proof -
  have covered: "c = 46 \<or> (\<exists>w \<in> set (split_at 46 s). c \<in> set w)" using split_at_covers [OF assms(2)] by blast
  have part: "nd c \<noteq> None \<or> c = 44" if "grouped nd w \<or> all_digits nd w" "c \<in> set w" for w
    using that grouped_chars by (fastforce simp: all_digits_def list_all_iff)
  show ?thesis using covered assms(1) part by (fastforce simp: is_core_def split: list.splits)
qed

lemma date_marks:
  assumes "is_date nd t"
  shows "2 \<le> length (filter date_mark t)"
proof -
  define d r where "d = takeWhile (\<lambda>c. nd c \<noteq> None) t" and "r = dropWhile (\<lambda>c. nd c \<noteq> None) t"
  obtain c r' where r: "r = c # r'" "date_mark c"
    using assms unfolding is_date_def Let_def d_def [symmetric] r_def [symmetric] by (cases r) auto
  define m q where "m = takeWhile (\<lambda>c. nd c \<noteq> None) r'" and "q = dropWhile (\<lambda>c. nd c \<noteq> None) r'"
  obtain e y where q: "q = e # y" "date_mark e"
    using assms unfolding is_date_def Let_def d_def [symmetric] r_def [symmetric] r(1) list.case m_def [symmetric] q_def [symmetric]
    by (cases q) auto
  have "t = d @ c # m @ e # y"
    using r(1) q(1) by (simp add: d_def r_def m_def q_def takeWhile_dropWhile_id [symmetric])
       (metis takeWhile_dropWhile_id)
  then show ?thesis using r(2) q(2) by simp
qed

text \<open>C26: Reading back what is printed. Any number of up to 28 digits, printed with thousands separators and any decimal
  places, is parsed as exactly that number at exactly that printed precision; printed in parentheses, as its negative, and
  a zero in parentheses as a negative zero.\<close>

theorem figure_roundtrip:
  assumes "c < 10 ^ 28"
  shows "parse_value ascii_numerals (Some (print_figure c k)) =
      value_of (Some (print_figure c k)) (Some (Dec (int c) (- int k))) ''numeric'' (Some k) None \<and>
    parse_value ascii_numerals (Some (40 # print_figure c k @ [41])) =
      value_of (Some (40 # print_figure c k @ [41])) (Some (Dec (- int c) (- int k)))
        (if c = 0 then ''negative_zero'' else ''parenthesised_negative'') (Some k) None"
proof -
  define s where "s = print_figure c k"
  note core = figure_core [where c = c and k = k, folded s_def]
  obtain h rest where s: "s = h # rest" "48 \<le> h" "h \<le> 57" using core(4,5) by (cases s) auto
  have strip: "ustrip s = s" using ustrip_id [OF core(4)] core(5,6) digit_not_white by auto
  have "\<not> is_dash s" using s by (auto simp: is_dash_def minus_points_def)
  moreover have "\<not> is_error s" using s by (auto simp: is_error_def error_names_def u_def ascii_lower_def)
  moreover have "\<not> is_date ascii_numerals s" using date_marks [of ascii_numerals s] core(7) by auto
  moreover have "snd (optional_point [43] s) = s" using s by (simp add: optional_point_def)
  ultimately have plain: "parse_value ascii_numerals (Some s) =
      value_of (Some s) (Some (Dec (int c) (- int k))) ''numeric'' (Some k) None"
    using core(1,2,4) strip by (simp add: parse_value_def Let_def)
  define t where "t = 40 # s @ [41]"
  have "ustrip t = t" by (rule ustrip_id) (simp_all add: t_def is_white_def)
  moreover have "\<not> is_dash t" by (simp add: t_def is_dash_def minus_points_def)
  moreover have "\<not> is_error t" by (auto simp: t_def is_error_def error_names_def u_def ascii_lower_def)
  moreover have "\<not> is_date ascii_numerals t" by (simp add: t_def is_date_def ascii_numerals_def)
  moreover have "snd (optional_point [43] t) = t" by (simp add: t_def optional_point_def)
  moreover have "\<not> is_core ascii_numerals t"
    using core_chars [of ascii_numerals t 40] by (auto simp: t_def ascii_numerals_def)
  moreover have "in_parens t = Some s" using strip by (simp add: t_def in_parens_def)
  moreover have "dec_neg28 (Dec (int c) (- int k)) = Dec (- int c) (- int k)"
    using assms by (simp add: dec_neg28_def dec_neg_def round28_short)
  ultimately have "parse_value ascii_numerals (Some t) = value_of (Some t) (Some (Dec (- int c) (- int k)))
        (if c = 0 then ''negative_zero'' else ''parenthesised_negative'') (Some k) None"
    using core(1,2) by (simp add: parse_value_def Let_def negative_value_def t_def)
  then show ?thesis using plain by (simp add: s_def t_def)
qed

theorem figure_roundtrip_witness:
  "print_figure 1234567 2 = u ''12,345.67'' \<and>
   pv_parsed (parse_value ascii_numerals (Some (40 # u ''12,345.67'' @ [41]))) = Some (Dec (- 1234567) (- 2))"
proof -
  have "print_figure 1234567 2 = u ''12,345.67''"
    by (simp add: print_figure_def padded_def digits_of.simps commas.simps u_def Let_def)
  moreover have "(1234567 :: nat) < 10 ^ 28" by simp
  note figure_roundtrip [OF this, of 2]
  ultimately show ?thesis by (simp add: value_of_def)
qed

section \<open>Merging\<close>

lemma fragment_run_prefix: "\<exists>rest. ws = fragment_run nd ratio prev ws @ rest"
  by (induction nd ratio prev ws rule: fragment_run.induct) auto

lemma best_prefix_value:
  "1 < best_prefix nd run k \<Longrightarrow>
     best_prefix nd run k \<le> k \<and> is_value (parse_value nd (Some (run_text (take (best_prefix nd run k) run))))"
  by (induction nd run k rule: best_prefix.induct) (auto split: if_splits)

definition pieces :: "word list \<Rightarrow> nat" where
  "pieces ws = sum_list (map wd_fragments ws)"

lemma word_parts [simp]: "run_text [] = []" "run_text (w # ws) = wd_text w @ run_text ws" "run_text (a @ b) = run_text a @ run_text b"
  "pieces [] = 0" "pieces (w # ws) = wd_fragments w + pieces ws" "pieces (a @ b) = pieces a + pieces b"
  "wd_text (merged_word ws) = run_text ws" "wd_fragments (merged_word ws) = pieces ws"
  by (simp_all add: run_text_def pieces_def merged_word_def)

lemma merge_line_keeps:
  "run_text (merge_line nd ratio ws) = run_text ws \<and> pieces (merge_line nd ratio ws) = pieces ws \<and>
     (\<forall>w \<in> set (merge_line nd ratio ws). w \<in> set ws \<or> is_value (parse_value nd (Some (wd_text w))))"
proof (induction nd ratio ws rule: merge_line.induct)
  case (1 nd ratio)
  then show ?case by simp
next
  case (2 nd ratio w ws)
  define run best where "run = w # fragment_run nd ratio w ws" and "best = best_prefix nd run (length run)"
  show ?case
  proof (cases "is_fragment nd (wd_text w) \<and> 1 < best")
    case True
    note found = best_prefix_value [of nd run "length run", folded best_def, OF conjunct2 [OF True]]
    obtain rest where "w # ws = run @ rest" using fragment_run_prefix [of ws nd ratio w] by (auto simp: run_def)
    then have take: "take best run = take best (w # ws)" using found by simp
    have step: "merge_line nd ratio (w # ws) = merged_word (take best (w # ws)) # merge_line nd ratio (drop best (w # ws))"
      unfolding merge_line.simps(2) Let_def run_def [symmetric] best_def [symmetric] using True take by simp
    have IH: "run_text (merge_line nd ratio (drop best (w # ws))) = run_text (drop best (w # ws)) \<and>
        pieces (merge_line nd ratio (drop best (w # ws))) = pieces (drop best (w # ws)) \<and>
        (\<forall>x \<in> set (merge_line nd ratio (drop best (w # ws))). x \<in> set (drop best (w # ws)) \<or> is_value (parse_value nd (Some (wd_text x))))"
      using 2(2) [OF _ run_def best_def] True by blast
    have "run_text (take best (w # ws)) @ run_text (drop best (w # ws)) = run_text (w # ws)"
      "pieces (take best (w # ws)) + pieces (drop best (w # ws)) = pieces (w # ws)"
      by (metis append_take_drop_id word_parts(3), metis append_take_drop_id word_parts(6))
    then have "run_text (merge_line nd ratio (w # ws)) = run_text (w # ws)" "pieces (merge_line nd ratio (w # ws)) = pieces (w # ws)"
      unfolding step using IH by (simp_all only: word_parts)
    moreover have "is_value (parse_value nd (Some (wd_text (merged_word (take best (w # ws))))))"
      using found take by simp
    ultimately show ?thesis using IH in_set_dropD [of _ best "w # ws"] unfolding step by auto
  next
    case False
    have step: "merge_line nd ratio (w # ws) = w # merge_line nd ratio ws"
      unfolding merge_line.simps(2) Let_def run_def [symmetric] best_def [symmetric] using False by simp
    have "run_text (merge_line nd ratio ws) = run_text ws \<and> pieces (merge_line nd ratio ws) = pieces ws \<and>
        (\<forall>x \<in> set (merge_line nd ratio ws). x \<in> set ws \<or> is_value (parse_value nd (Some (wd_text x))))"
      using 2(1) 2(3) [OF _ run_def best_def] False by blast
    then show ?thesis unfolding step by auto
  qed
qed

text \<open>Merging letter-spaced fragments loses and invents nothing: the characters of the line, left to right, and the number
  of pieces stay the same, and every word of the result is a word of the line or reads as a value, so words are joined only
  where a value comes out.\<close>

theorem merging_keeps_text:
  "run_text (merge_numeric_fragments nd ratio ws) = run_text (sort_key wd_x0 ws) \<and>
   pieces (merge_numeric_fragments nd ratio ws) = pieces ws \<and>
   list_all (\<lambda>w. w \<in> set ws \<or> is_value (parse_value nd (Some (wd_text w)))) (merge_numeric_fragments nd ratio ws)"
proof -
  have "pieces (sort_key wd_x0 ws) = pieces ws"
    unfolding pieces_def by (metis mset_map mset_sort sum_mset_sum_list)
  then show ?thesis using merge_line_keeps [of nd ratio "sort_key wd_x0 ws"] by (simp add: merge_numeric_fragments_def list_all_iff)
qed

definition piece :: "string \<Rightarrow> rat \<Rightarrow> rat \<Rightarrow> word" where
  "piece t a b = \<lparr>wd_text = u t, wd_x0 = a, wd_y0 = 0, wd_x1 = b, wd_y1 = 10, wd_fragments = 1\<rparr>"

end
