(* ===== verification/Issuer.thy ===== *)
theory Issuer
  imports Figures Calendar
begin

text \<open>
  Issuer identity (\<open>issuer_identity.py\<close>): the decision which issuer a security and a filing belong to, from every
  identifier observation ever recorded, with the guard against reused secIds. A dict from symbols to observations is the
  list of its entries. The Unicode tables (upper case, decimal digits) are arguments; an ISIN and a name are text or
  absent, as the store keeps them, and evidence hashes are an argument of the store (\<open>IssuerStore\<close>).
\<close>

section \<open>Evidence\<close>

record tables =
  tb_upper :: "ustr \<Rightarrow> ustr"
  tb_digits :: numerals

record sighting =
  si_id :: "int option"
  si_sec :: "int option"
  si_isin :: "ustr option"
  si_name :: "ustr option"
  si_at :: "string option"

type_synonym sightings = "(string \<times> sighting list) list"

text \<open>\<open>^LK(\d{4})[A-Z]\d{5}$\<close>\<close>

definition isin_issuer_code :: "tables \<Rightarrow> ustr option \<Rightarrow> ustr option" where
  "isin_issuer_code T isin =
     (let t = tb_upper T (ustrip (case isin of None \<Rightarrow> [] | Some s \<Rightarrow> s)); code = take 4 (drop 2 t)
      in if length t = 12 \<and> take 2 t = u ''LK'' \<and> all_digits (tb_digits T) code \<and> 65 \<le> t ! 6 \<and> t ! 6 \<le> 90 \<and>
            all_digits (tb_digits T) (drop 7 t) then Some code else None)"

text \<open>\<open>re.sub(r"[^0-9A-Z]+", " ", s)\<close>; the flag tells whether the previous code point was replaced.\<close>

definition name_point :: "nat \<Rightarrow> bool" where
  "name_point c \<longleftrightarrow> (48 \<le> c \<and> c \<le> 57) \<or> (65 \<le> c \<and> c \<le> 90)"

fun squeeze :: "bool \<Rightarrow> ustr \<Rightarrow> ustr" where
  "squeeze inside [] = []"
| "squeeze inside (c # cs) = (if name_point c then c # squeeze False cs else if inside then squeeze True cs else 32 # squeeze True cs)"

definition normalise_name :: "tables \<Rightarrow> ustr option \<Rightarrow> ustr option" where
  "normalise_name T name =
     (let s = ustrip (squeeze False (tb_upper T (case name of None \<Rightarrow> [] | Some s \<Rightarrow> s))) in if s = [] then None else Some s)"

type_synonym evidence_of = "ustr list \<times> ustr list"

definition issuer_evidence :: "tables \<Rightarrow> sighting list \<Rightarrow> evidence_of" where
  "issuer_evidence T obs =
     (remdups (List.map_filter (\<lambda>ob. isin_issuer_code T (si_isin ob)) obs),
      remdups (List.map_filter (\<lambda>ob. normalise_name T (si_name ob)) obs))"

definition one_value :: "'a list \<Rightarrow> 'a list \<Rightarrow> bool" where
  "one_value xs ys \<longleftrightarrow> length (remdups (xs @ ys)) = 1"

text \<open>\<open>_same_issuer\<close>: None when one issuer is established, else the kind of failure.\<close>

definition same_issuer :: "evidence_of \<Rightarrow> evidence_of \<Rightarrow> bool \<Rightarrow> string option" where
  "same_issuer a b same_security =
     (if fst a \<noteq> [] \<and> fst b \<noteq> []
        then (if one_value (fst a) (fst b) then None else Some ''isin_issuer_code_differs'')
      else if snd a \<noteq> [] \<and> snd b \<noteq> []
        then (if one_value (snd a) (snd b) then None else Some ''name_differs'')
      else if same_security then None else Some ''identity_evidence_insufficient'')"

section \<open>Disputes\<close>

definition observed_of :: "sightings \<Rightarrow> string \<Rightarrow> sighting list" where
  "observed_of obs s = (case map_of obs s of None \<Rightarrow> [] | Some os \<Rightarrow> os)"

definition carrying :: "int \<Rightarrow> sighting list \<Rightarrow> sighting list" where
  "carrying sec os = filter (\<lambda>ob. si_sec ob = Some sec) os"

text \<open>The secIds in order of first appearance, and the securities claiming one, sorted.\<close>

definition claimed_secs :: "sightings \<Rightarrow> int list" where
  "claimed_secs obs = rev (remdups (rev (List.map_filter si_sec (concat (map snd obs)))))"

definition claimants :: "sightings \<Rightarrow> int \<Rightarrow> string list" where
  "claimants obs sec = sorted_set (map fst (filter (\<lambda>(s, os). carrying sec os \<noteq> []) obs))"

text \<open>Every claimant with itself and with each later one.\<close>

fun pairs_with_self :: "'a list \<Rightarrow> ('a \<times> 'a) list" where
  "pairs_with_self [] = []"
| "pairs_with_self (x # xs) = map (Pair x) (x # xs) @ pairs_with_self xs"

definition failing_pairs :: "tables \<Rightarrow> sightings \<Rightarrow> int \<Rightarrow> (string \<times> string \<times> string) list" where
  "failing_pairs T obs sec =
     (let ident = (\<lambda>s. issuer_evidence T (carrying sec (observed_of obs s)))
      in List.map_filter (\<lambda>(a, b). map_option (\<lambda>kind. (a, b, kind)) (same_issuer (ident a) (ident b) (a = b)))
           (pairs_with_self (claimants obs sec)))"

definition failures_of :: "(string \<times> string \<times> string) list \<Rightarrow> string \<Rightarrow> string list" where
  "failures_of failing s =
     sorted_set (concat (map (\<lambda>(a, b, kind).
       (if a = s then [kind @ '':'' @ b] else []) @ (if b = s then [kind @ '':'' @ a] else [])) failing))"

type_synonym dispute = "(string \<times> string list) list"

definition dispute_of :: "tables \<Rightarrow> sightings \<Rightarrow> int \<Rightarrow> dispute" where
  "dispute_of T obs sec = map (\<lambda>s. (s, failures_of (failing_pairs T obs sec) s)) (claimants obs sec)"

definition disputed_sec_ids :: "tables \<Rightarrow> sightings \<Rightarrow> (int \<times> dispute) list" where
  "disputed_sec_ids T obs =
     map (\<lambda>sec. (sec, dispute_of T obs sec)) (filter (\<lambda>sec. list_ex (\<lambda>(s, fs). fs \<noteq> []) (dispute_of T obs sec)) (claimed_secs obs))"

section \<open>Decisions on securities\<close>

definition issuer_rule_version :: string where
  "issuer_rule_version = ''f5.issuer.2''"

record security_decision =
  sd_symbol :: string
  sd_status :: string
  sd_sec :: "int option"
  sd_secs :: "int list"
  sd_ids :: "int list"
  sd_first :: "string option"
  sd_last :: "string option"
  sd_reasons :: "string list"
  sd_rule :: string

definition span_of :: "sighting list \<Rightarrow> int list \<times> string option \<times> string option" where
  "span_of ev =
     (let times = sort (List.map_filter si_at ev)
      in (sorted_set (List.map_filter si_id ev), if times = [] then None else Some (hd times),
          if times = [] then None else Some (last times)))"

definition with_sec :: "sighting list \<Rightarrow> sighting list" where
  "with_sec os = filter (\<lambda>ob. si_sec ob \<noteq> None) os"

definition decide_security :: "string \<Rightarrow> sighting list \<Rightarrow> security_decision option" where
  "decide_security s os =
     (let ev = with_sec os; secs = sorted_set (List.map_filter si_sec ev); (ids, first, last) = span_of ev in
      if ev = [] then None
      else (case secs of
          [sec] \<Rightarrow> Some \<lparr>sd_symbol = s, sd_status = ''evidenced'', sd_sec = Some sec, sd_secs = secs, sd_ids = ids,
            sd_first = first, sd_last = last, sd_reasons = [], sd_rule = issuer_rule_version\<rparr>
        | _ \<Rightarrow> Some \<lparr>sd_symbol = s, sd_status = ''conflict'', sd_sec = None, sd_secs = secs, sd_ids = ids,
            sd_first = first, sd_last = last, sd_reasons = [''sec_ids_disagree''], sd_rule = issuer_rule_version\<rparr>))"

text \<open>The failures of a security in a dispute (\<open>disputed[sec][s]\<close>), and the secIds it is disputed for.\<close>

definition failures_in :: "(int \<times> dispute) list \<Rightarrow> string \<Rightarrow> int \<Rightarrow> string list option" where
  "failures_in disputed s sec = (case map_of disputed sec of None \<Rightarrow> None | Some d \<Rightarrow> map_of d s)"

definition all_sightings :: "sightings \<Rightarrow> (string \<times> sighting) list" where
  "all_sightings obs = concat (map (\<lambda>(s, os). map (Pair s) os) obs)"

definition guarded :: "sightings \<Rightarrow> (int \<times> dispute) list \<Rightarrow> security_decision \<Rightarrow> security_decision" where
  "guarded obs disputed d =
     (let s = sd_symbol d; secs = filter (\<lambda>sec. failures_in disputed s sec \<noteq> None) (sd_secs d);
          ev = map snd (filter (\<lambda>(t, ob). (case si_sec ob of None \<Rightarrow> False | Some c \<Rightarrow> t = s \<or> c \<in> set secs)) (all_sightings obs));
          (ids, first, last) = span_of ev;
          failures = sorted_set (concat (map (\<lambda>sec. the (failures_in disputed s sec)) secs)) in
      if secs = [] then d
      else \<lparr>sd_symbol = s, sd_status = ''conflict'', sd_sec = None, sd_secs = sd_secs d, sd_ids = ids, sd_first = first,
        sd_last = last, sd_reasons = sd_reasons d @ map (\<lambda>sec. ''sec_id_identity_disputed:'' @ show_int sec) secs @ failures,
        sd_rule = issuer_rule_version\<rparr>)"

definition decide_securities :: "tables \<Rightarrow> sightings \<Rightarrow> security_decision list" where
  "decide_securities T obs =
     (let disputed = disputed_sec_ids T obs
      in map (guarded obs disputed)
           (List.map_filter (\<lambda>s. decide_security s (observed_of obs s)) (sorted_set (map fst obs))))"

section \<open>Decisions on filings\<close>

text \<open>\<open>PATH_RE\<close>: after the last slash digits, an underscore, ten to thirteen digits, a dot and an ASCII extension.\<close>

definition ascii_alnum :: "nat \<Rightarrow> bool" where
  "ascii_alnum c \<longleftrightarrow> (48 \<le> c \<and> c \<le> 57) \<or> (65 \<le> c \<and> c \<le> 90) \<or> (97 \<le> c \<and> c \<le> 122)"

definition path_sec_id :: "numerals \<Rightarrow> ustr option \<Rightarrow> int option" where
  "path_sec_id nd path =
     (let t = (case path of None \<Rightarrow> [] | Some t \<Rightarrow> t); t = (if t \<noteq> [] \<and> last t = 10 then butlast t else t);
          name = last (split_at 47 t); digit = (\<lambda>c. nd c \<noteq> None);
          sec = takeWhile digit name; r = dropWhile digit name;
          epoch = takeWhile digit (drop 1 r); e = dropWhile digit (drop 1 r); ext = drop 1 e
      in if sec \<noteq> [] \<and> take 1 r = [95] \<and> 10 \<le> length epoch \<and> length epoch \<le> 13 \<and> take 1 e = [46] \<and> ext \<noteq> [] \<and>
            list_all ascii_alnum ext then Some (digits_number nd sec) else None)"

record filing_decision =
  fd_filing :: int
  fd_status :: string
  fd_basis :: string
  fd_sec :: "int option"
  fd_issuer :: "string option"
  fd_path_sec :: "int option"
  fd_symbols :: "string list"
  fd_secs :: "int list"
  fd_conflicts :: "string list"
  fd_reasons :: "string list"
  fd_rule :: string

text \<open>The current decision of a security: the secId it is evidenced for, or None for a conflict.\<close>

type_synonym security_links = "string \<rightharpoonup> int option"

definition link_basis :: "int option \<Rightarrow> int list \<Rightarrow> string" where
  "link_basis psec listing =
     (if psec \<noteq> None \<and> listing \<noteq> [] then ''both'' else if psec \<noteq> None then ''document_path_prefix''
      else if listing \<noteq> [] then ''listing_symbol_sec_id'' else ''none'')"

definition decide_filing ::
  "numerals \<Rightarrow> int \<Rightarrow> ustr option \<Rightarrow> string list \<Rightarrow> security_links \<Rightarrow> (int \<rightharpoonup> string) \<Rightarrow> int set \<Rightarrow> filing_decision" where
  "decide_filing nd fid path listing_symbols links issuers disputed =
     (let symbols = sorted_set listing_symbols; psec = path_sec_id nd path;
          missing = filter (\<lambda>s. links s = None) symbols;
          conflicts = filter (\<lambda>s. links s = Some None) symbols;
          listing = sorted_set (List.map_filter (\<lambda>s. case links s of None \<Rightarrow> None | Some l \<Rightarrow> l) symbols);
          secs = remdups (listing @ (case psec of None \<Rightarrow> [] | Some p \<Rightarrow> [p]));
          reasons = map (\<lambda>s. ''listing_symbol_without_issuer_evidence:'' @ s) missing @
            (if psec = None then [''no_document_path_prefix''] else []);
          dec = (\<lambda>status sec issuer more. \<lparr>fd_filing = fid, fd_status = status, fd_basis = link_basis psec listing,
            fd_sec = sec, fd_issuer = issuer, fd_path_sec = psec, fd_symbols = symbols, fd_secs = listing,
            fd_conflicts = conflicts, fd_reasons = reasons @ more, fd_rule = issuer_rule_version\<rparr>)
      in if conflicts \<noteq> [] then dec ''conflict'' None None [''listing_security_in_conflict'']
         else (case secs of
             [] \<Rightarrow> dec ''unresolved'' None None []
           | [sec] \<Rightarrow>
               if sec \<in> disputed then dec ''conflict'' (Some sec) None [''sec_id_identity_disputed'']
               else (case issuers sec of
                   Some i \<Rightarrow> dec ''evidenced'' (Some sec) (Some i) []
                 | None \<Rightarrow> dec ''unresolved'' (Some sec) None [''no_issuer_for_sec_id''])
           | _ \<Rightarrow> dec ''conflict'' None None [''sec_ids_disagree'']))"

end
