(* ===== verification/IssuerStore.thy ===== *)
theory IssuerStore
  imports Issuer
begin

text \<open>
  The store of issuer evidence (\<open>issuer_store.py\<close> over migration 0007): observations, issuers and the append-only rows of
  decisions, of which the last one of a security or a filing is the current one. Each insert is \<open>on conflict do nothing\<close>
  on the table's unique key. A company is its ticker; row numbers have no gaps; the evidence hashes and the new issuer
  ids are arguments. An operation is one transaction.
\<close>

record id_observation =
  ob_endpoint :: string
  ob_field :: string
  ob_query :: "string option"
  ob_symbol :: "string option"
  ob_security_id :: "int option"
  ob_sec_id :: "int option"
  ob_isin :: "ustr option"
  ob_name :: "ustr option"
  ob_active :: "bool option"
  ob_payload :: string
  ob_at :: "string option"
  ob_ref :: "string option"

text \<open>\<open>uq_iio\<close>\<close>

definition observation_key :: "id_observation \<Rightarrow> string \<times> string \<times> string option \<times> string option \<times> string" where
  "observation_key ob = (ob_endpoint ob, ob_field ob, ob_query ob, ob_symbol ob, ob_payload ob)"

record security_row =
  sr_ticker :: string
  sr_issuer :: "string option"
  sr_decision :: security_decision
  sr_hash :: string

record filing_row_of =
  fr_issuer :: "string option"
  fr_decision :: filing_decision
  fr_hash :: string

record issuer_store =
  ss_observations :: "id_observation list"
  ss_issuers :: "(int \<times> string) list"
  ss_securities :: "security_row list"
  ss_filings :: "filing_row_of list"

definition empty_issuer_store :: issuer_store where
  "empty_issuer_store = \<lparr>ss_observations = [], ss_issuers = [], ss_securities = [], ss_filings = []\<rparr>"

section \<open>Observations\<close>

definition insert_observation :: "id_observation \<Rightarrow> id_observation list \<Rightarrow> id_observation list" where
  "insert_observation ob obs = (if list_ex (\<lambda>x. observation_key x = observation_key ob) obs then obs else obs @ [ob])"

definition record_observations :: "id_observation list \<Rightarrow> issuer_store \<Rightarrow> issuer_store \<times> nat" where
  "record_observations batch st =
     (let obs = fold insert_observation batch (ss_observations st)
      in (st\<lparr>ss_observations := obs\<rparr>, length obs - length (ss_observations st)))"

definition sighting_of :: "int option \<Rightarrow> id_observation \<Rightarrow> sighting" where
  "sighting_of i ob = \<lparr>si_id = i, si_sec = ob_sec_id ob, si_isin = ob_isin ob, si_name = ob_name ob, si_at = ob_at ob\<rparr>"

text \<open>\<open>out.setdefault(sym, []).append(...)\<close> over rows in order; None is no symbol.\<close>

definition grouped_sightings :: "(string option \<times> sighting) list \<Rightarrow> sightings" where
  "grouped_sightings rows =
     (let named = List.map_filter (\<lambda>(s, x). map_option (\<lambda>s. (s, x)) s) rows
      in map (\<lambda>s. (s, map snd (filter (\<lambda>(t, x). t = s) named))) (rev (remdups (rev (map fst named)))))"

definition sightings_of :: "id_observation list \<Rightarrow> sightings" where
  "sightings_of obs = grouped_sightings (map (\<lambda>(i, ob). (ob_symbol ob, sighting_of (Some (int i + 1)) ob)) (enumerate 0 obs))"

definition observations_by_symbol :: "issuer_store \<Rightarrow> sightings" where
  "observations_by_symbol st = sightings_of (ss_observations st)"

section \<open>Securities\<close>

record hashes =
  hs_security :: "string \<times> string \<times> int list \<times> string list \<times> string \<Rightarrow> string"
  hs_filing :: "int \<times> string \<times> string \<times> string option \<times> int option \<times> string list \<times> int list \<times> string list \<times> string list \<times> string \<Rightarrow> string"

definition security_sha :: "hashes \<Rightarrow> security_decision \<Rightarrow> string" where
  "security_sha H d = hs_security H (sd_symbol d, sd_status d, sd_secs d, sd_reasons d, sd_rule d)"

definition insert_security :: "security_row \<Rightarrow> security_row list \<Rightarrow> security_row list" where
  "insert_security r rows =
     (if list_ex (\<lambda>x. sr_ticker x = sr_ticker r \<and> sd_rule (sr_decision x) = sd_rule (sr_decision r) \<and> sr_hash x = sr_hash r) rows
      then rows else rows @ [r])"

record resolve_counts =
  rc_issuers_new :: nat
  rc_decisions_new :: nat
  rc_evidenced :: nat
  rc_conflict :: nat
  rc_no_evidence :: nat

text \<open>One company: the issuer of an evidenced secId is created when it is missing, then the decision is added.\<close>

definition issuer_for :: "(int \<Rightarrow> string) \<Rightarrow> security_decision \<Rightarrow> (int \<times> string) list \<Rightarrow> (int \<times> string) list" where
  "issuer_for fresh d issuers =
     (case sd_sec d of Some sec \<Rightarrow> if sd_status d = ''evidenced'' \<and> map_of issuers sec = None then issuers @ [(sec, fresh sec)] else issuers
      | None \<Rightarrow> issuers)"

definition resolve_company ::
  "hashes \<Rightarrow> (int \<Rightarrow> string) \<Rightarrow> security_decision list \<Rightarrow> string \<Rightarrow> issuer_store \<times> resolve_counts \<Rightarrow> issuer_store \<times> resolve_counts" where
  "resolve_company H fresh decisions ticker = (\<lambda>(st, n).
     (case find (\<lambda>d. sd_symbol d = ticker) decisions of
        None \<Rightarrow> (st, n\<lparr>rc_no_evidence := rc_no_evidence n + 1\<rparr>)
      | Some d \<Rightarrow>
          (let n1 = (if sd_status d = ''evidenced'' then n\<lparr>rc_evidenced := rc_evidenced n + 1\<rparr> else n\<lparr>rc_conflict := rc_conflict n + 1\<rparr>);
               issuers = issuer_for fresh d (ss_issuers st);
               issuer = (if sd_status d = ''evidenced'' then Option.bind (sd_sec d) (map_of issuers) else None);
               rows = insert_security \<lparr>sr_ticker = ticker, sr_issuer = issuer, sr_decision = d, sr_hash = security_sha H d\<rparr> (ss_securities st)
           in (st\<lparr>ss_issuers := issuers, ss_securities := rows\<rparr>,
               n1\<lparr>rc_issuers_new := rc_issuers_new n1 + (length issuers - length (ss_issuers st)),
                  rc_decisions_new := rc_decisions_new n1 + (length rows - length (ss_securities st))\<rparr>))))"

definition no_counts :: resolve_counts where
  "no_counts = \<lparr>rc_issuers_new = 0, rc_decisions_new = 0, rc_evidenced = 0, rc_conflict = 0, rc_no_evidence = 0\<rparr>"

definition resolve_securities ::
  "tables \<Rightarrow> hashes \<Rightarrow> (int \<Rightarrow> string) \<Rightarrow> string list \<Rightarrow> issuer_store \<Rightarrow> issuer_store \<times> resolve_counts" where
  "resolve_securities T H fresh companies st =
     fold (resolve_company H fresh (decide_securities T (observations_by_symbol st))) (sort companies) (st, no_counts)"

section \<open>Filings\<close>

definition current_row :: "issuer_store \<Rightarrow> string \<Rightarrow> security_row option" where
  "current_row st ticker = find (\<lambda>r. sr_ticker r = ticker) (rev (ss_securities st))"

text \<open>The secId of the issuer a row names, by the join with \<open>issuers\<close>.\<close>

definition sec_of_issuer :: "issuer_store \<Rightarrow> string option \<Rightarrow> int option" where
  "sec_of_issuer st issuer =
     (case issuer of None \<Rightarrow> None | Some i \<Rightarrow> map_option fst (find (\<lambda>(sec, j). j = i) (ss_issuers st)))"

definition current_security_links :: "issuer_store \<Rightarrow> security_links" where
  "current_security_links st ticker = map_option (\<lambda>r. sec_of_issuer st (sr_issuer r)) (current_row st ticker)"

definition filing_sha :: "hashes \<Rightarrow> filing_decision \<Rightarrow> string" where
  "filing_sha H d = hs_filing H (fd_filing d, fd_status d, fd_basis d, fd_issuer d, fd_path_sec d, fd_symbols d, fd_secs d,
     fd_conflicts d, fd_reasons d, fd_rule d)"

definition insert_filing :: "filing_row_of \<Rightarrow> filing_row_of list \<Rightarrow> filing_row_of list" where
  "insert_filing r rows =
     (if list_ex (\<lambda>x. fd_filing (fr_decision x) = fd_filing (fr_decision r) \<and> fd_rule (fr_decision x) = fd_rule (fr_decision r) \<and>
           fr_hash x = fr_hash r) rows then rows else rows @ [r])"

definition current_filing_link :: "issuer_store \<Rightarrow> int \<Rightarrow> (string option \<times> string \<times> string) option" where
  "current_filing_link st fid =
     map_option (\<lambda>r. (fr_issuer r, fd_status (fr_decision r), fd_basis (fr_decision r)))
       (find (\<lambda>r. fd_filing (fr_decision r) = fid) (rev (ss_filings st)))"

text \<open>The decision \<open>link_filing\<close> takes from the store as it is, for a filing with this path and these listing symbols.\<close>

definition filing_decision_now :: "tables \<Rightarrow> issuer_store \<Rightarrow> int \<Rightarrow> ustr option \<Rightarrow> string list \<Rightarrow> filing_decision" where
  "filing_decision_now T st fid path symbols =
     decide_filing (tb_digits T) fid path symbols (current_security_links st) (map_of (ss_issuers st))
       (set (map fst (disputed_sec_ids T (observations_by_symbol st))))"

text \<open>A filing that is not in \<open>report_filings\<close> is None.\<close>

definition link_filing ::
  "tables \<Rightarrow> hashes \<Rightarrow> int \<Rightarrow> (ustr option \<times> string list) option \<Rightarrow> issuer_store \<Rightarrow>
     (issuer_store \<times> (string option \<times> string \<times> string) option) res" where
  "link_filing T H fid filing st =
     (case filing of None \<Rightarrow> Inl ValueErr
      | Some (path, symbols) \<Rightarrow>
         (let d = filing_decision_now T st fid path symbols;
              st1 = st\<lparr>ss_filings := insert_filing \<lparr>fr_issuer = fd_issuer d, fr_decision = d, fr_hash = filing_sha H d\<rparr> (ss_filings st)\<rparr>
          in Inr (st1, current_filing_link st1 fid)))"

end
