(* ===== verification/Holds.thy ===== *)
theory Holds
  imports IssuerStore
begin

text \<open>
  The hold rule HB-I-HOLD of the historical backfill (\<open>backfill_discovery/identity.py\<close>, \<open>financial_backfill/store.py\<close>):
  which observations of a batch are recorded and which are held because they would dispute a secId only for want of
  comparable evidence, the holds of the ledger, and the owner's resolutions. The simulation calls the same functions as
  the store. Responses the observations came from, wake-ups and rule versions of a hold are not modelled.
\<close>

section \<open>The simulation\<close>

definition by_symbol :: "id_observation list \<Rightarrow> sightings" where
  "by_symbol batch = grouped_sightings (map (\<lambda>ob. (ob_symbol ob, sighting_of None ob)) batch)"

text \<open>\<open>union.setdefault(sym, []).extend(obs)\<close>\<close>

definition merged_sightings :: "sightings \<Rightarrow> sightings \<Rightarrow> sightings" where
  "merged_sightings recorded batch =
     map (\<lambda>(s, os). (s, os @ observed_of batch s)) recorded @ filter (\<lambda>(s, os). s \<notin> fst ` set recorded) batch"

fun starts_with :: "string \<Rightarrow> string \<Rightarrow> bool" where
  "starts_with [] s = True"
| "starts_with (p # ps) s = (case s of [] \<Rightarrow> False | c # cs \<Rightarrow> c = p \<and> starts_with ps cs)"

definition insufficient_mark :: string where
  "insufficient_mark = ''identity_evidence_insufficient:''"

definition held_sec_ids :: "tables \<Rightarrow> sightings \<Rightarrow> id_observation list \<Rightarrow> (int \<times> dispute) list" where
  "held_sec_ids T recorded batch =
     (let before = disputed_sec_ids T recorded; after = disputed_sec_ids T (merged_sightings recorded (by_symbol batch))
      in filter (\<lambda>(sec, fs). sec \<notin> fst ` set before \<and>
           (let reasons = concat (map snd fs) in reasons \<noteq> [] \<and> list_all (starts_with insufficient_mark) reasons)) after)"

definition is_held :: "(int \<times> dispute) list \<Rightarrow> id_observation \<Rightarrow> bool" where
  "is_held held ob \<longleftrightarrow> ob_symbol ob \<noteq> None \<and> (case ob_sec_id ob of None \<Rightarrow> False | Some sec \<Rightarrow> sec \<in> fst ` set held)"

definition split_batch :: "tables \<Rightarrow> sightings \<Rightarrow> id_observation list \<Rightarrow> id_observation list \<times> (id_observation \<times> dispute) list" where
  "split_batch T recorded batch =
     (let held = held_sec_ids T recorded batch
      in (filter (\<lambda>ob. \<not> is_held held ob) batch,
          map (\<lambda>ob. (ob, the (map_of held (the (ob_sec_id ob))))) (filter (is_held held) batch)))"

section \<open>The ledger of holds\<close>

record held_observation =
  ho_observation :: id_observation
  ho_dispute :: dispute
  ho_resolution :: "string option"

record evidence_ledger =
  el_store :: issuer_store
  el_holds :: "held_observation list"

text \<open>\<open>uq_bfh_observation\<close>: holding the same observation again adds nothing.\<close>

definition record_hold :: "id_observation \<times> dispute \<Rightarrow> held_observation list \<Rightarrow> held_observation list" where
  "record_hold = (\<lambda>(ob, dispute) holds.
     if list_ex (\<lambda>h. observation_key (ho_observation h) = observation_key ob) holds then holds
     else holds @ [\<lparr>ho_observation = ob, ho_dispute = dispute, ho_resolution = None\<rparr>])"

text \<open>The holds the owner has not released.\<close>

definition owner_held :: "held_observation list \<Rightarrow> held_observation list" where
  "owner_held holds = filter (\<lambda>h. ho_resolution h = None \<or> ho_resolution h = Some ''keep_held'') holds"

definition pinned_dispute :: "held_observation list \<Rightarrow> id_observation \<Rightarrow> dispute option" where
  "pinned_dispute holds ob =
     map_option ho_dispute (find (\<lambda>h. observation_key (ho_observation h) = observation_key ob) (owner_held holds))"

record batch_result =
  br_observations :: nat
  br_recorded_new :: nat
  br_securities :: resolve_counts

definition record_batch ::
  "tables \<Rightarrow> hashes \<Rightarrow> (int \<Rightarrow> string) \<Rightarrow> string list \<Rightarrow> id_observation list \<Rightarrow> evidence_ledger \<Rightarrow> evidence_ledger \<times> batch_result" where
  "record_batch T H fresh companies batch led =
     (let pinned = pinned_dispute (el_holds led);
          free = filter (\<lambda>ob. pinned ob = None) batch;
          (record, hold) = split_batch T (observations_by_symbol (el_store led)) free;
          hold = hold @ map (\<lambda>ob. (ob, the (pinned ob))) (filter (\<lambda>ob. pinned ob \<noteq> None) batch);
          holds = fold record_hold hold (el_holds led);
          (st1, new) = record_observations record (el_store led);
          (st2, counts) = resolve_securities T H fresh companies st1
      in (\<lparr>el_store = st2, el_holds = holds\<rparr>,
          \<lparr>br_observations = length batch, br_recorded_new = new, br_securities = counts\<rparr>))"

text \<open>Owner resolutions: the observations to record, and the holds that stay.\<close>

definition released :: "tables \<Rightarrow> sightings \<Rightarrow> held_observation \<Rightarrow> bool" where
  "released T recorded h \<longleftrightarrow> ho_resolution h = Some ''record_as_is'' \<or>
     ho_resolution h = Some ''acquire_evidence'' \<and> held_sec_ids T recorded [ho_observation h] = []"

definition apply_resolutions :: "tables \<Rightarrow> evidence_ledger \<Rightarrow> evidence_ledger \<times> held_observation list" where
  "apply_resolutions T led =
     (let recorded = observations_by_symbol (el_store led); resolved = filter (\<lambda>h. ho_resolution h \<noteq> None) (el_holds led);
          record = map ho_observation (filter (released T recorded) resolved)
      in (led\<lparr>el_store := (if record = [] then el_store led else fst (record_observations record (el_store led)))\<rparr>,
          filter (\<lambda>h. \<not> released T recorded h) resolved))"

section \<open>Admissible links\<close>

definition admissible_bases :: "string list" where
  "admissible_bases = [''listing_symbol_sec_id'', ''both'']"

definition admissible :: "(string option \<times> string \<times> string) option \<Rightarrow> bool" where
  "admissible link \<longleftrightarrow> (case link of None \<Rightarrow> False | Some (issuer, status, basis) \<Rightarrow> status = ''evidenced'' \<and> basis \<in> set admissible_bases)"

record link_counts =
  lc_filings :: nat
  lc_status :: "(string \<times> nat) list"
  lc_admissible :: nat
  lc_path_prefix_only :: nat

text \<open>The link pass over the filings of the window, given as ids with their rows of \<open>report_filings\<close>.\<close>

definition count_in :: "string \<Rightarrow> (string \<times> nat) list \<Rightarrow> (string \<times> nat) list" where
  "count_in k counts = (case map_of counts k of None \<Rightarrow> counts @ [(k, 1)] | Some n \<Rightarrow> map (\<lambda>(j, m). (j, if j = k then m + 1 else m)) counts)"

definition count_link :: "(string option \<times> string \<times> string) option \<Rightarrow> link_counts \<Rightarrow> link_counts" where
  "count_link link n =
     (case link of None \<Rightarrow> n
      | Some (issuer, status, basis) \<Rightarrow>
          (let n1 = n\<lparr>lc_status := count_in status (lc_status n)\<rparr>
           in if admissible link then n1\<lparr>lc_admissible := lc_admissible n1 + 1\<rparr>
              else if status = ''evidenced'' then n1\<lparr>lc_path_prefix_only := lc_path_prefix_only n1 + 1\<rparr> else n1))"

fun link_each ::
  "tables \<Rightarrow> hashes \<Rightarrow> (int \<times> (ustr option \<times> string list) option) list \<Rightarrow> issuer_store \<times> link_counts \<Rightarrow> (issuer_store \<times> link_counts) res" where
  "link_each T H [] acc = Inr acc"
| "link_each T H ((fid, filing) # rest) (st, n) =
     bindR (link_filing T H fid filing st) (\<lambda>(st1, link). link_each T H rest (st1, count_link link n))"

definition link_window ::
  "tables \<Rightarrow> hashes \<Rightarrow> (int \<times> (ustr option \<times> string list) option) list \<Rightarrow> issuer_store \<Rightarrow> (issuer_store \<times> link_counts) res" where
  "link_window T H filings st =
     link_each T H filings (st, \<lparr>lc_filings = length filings, lc_status = [], lc_admissible = 0, lc_path_prefix_only = 0\<rparr>)"

end
