(* ===== verification/IssuerFacts.thy ===== *)
theory IssuerFacts
  imports IssuerStore
begin

text \<open>
  Facts of issuer identity. Decisions depend only on which observations each security has, not on their order; securities
  evidenced for one secId agree on their identity evidence; a failure between two securities that has gone never comes
  back, so the deduplication of decisions cannot leave a security evidenced against the evidence. It can leave a filing
  evidenced to a disputed secId, and a dispute can end without a review: both are shown on a concrete history.
\<close>

section \<open>What a dispute consists of\<close>

definition claims :: "sightings \<Rightarrow> int \<Rightarrow> string \<Rightarrow> bool" where
  "claims obs sec s \<longleftrightarrow> (\<exists>ob \<in> set (observed_of obs s). si_sec ob = Some sec)"

definition evidence_for :: "tables \<Rightarrow> sightings \<Rightarrow> int \<Rightarrow> string \<Rightarrow> evidence_of" where
  "evidence_for T obs sec s = issuer_evidence T (carrying sec (observed_of obs s))"

definition clash :: "tables \<Rightarrow> sightings \<Rightarrow> int \<Rightarrow> string \<Rightarrow> string \<Rightarrow> string option" where
  "clash T obs sec a b = same_issuer (evidence_for T obs sec a) (evidence_for T obs sec b) (a = b)"

definition well_keyed :: "sightings \<Rightarrow> bool" where
  "well_keyed obs \<longleftrightarrow> distinct (map fst obs)"

text \<open>Every observation of the first is one of the second.\<close>

definition seen_in :: "sightings \<Rightarrow> sightings \<Rightarrow> bool" where
  "seen_in obs obs' \<longleftrightarrow> (\<forall>s. set (observed_of obs s) \<subseteq> set (observed_of obs' s))"

lemma map_filter_set: "set (List.map_filter f xs) = {y. \<exists>x \<in> set xs. f x = Some y}"
  by (force simp: List.map_filter_def)

lemma one_value_card: "one_value xs ys \<longleftrightarrow> card (set xs \<union> set ys) = 1"
  by (simp add: one_value_def length_remdups_card_conv)

lemma same_issuer_sym: "same_issuer a b e = same_issuer b a e"
  by (auto simp: same_issuer_def one_value_card Un_commute)

lemma clash_sym: "clash T obs sec a b = clash T obs sec b a"
  unfolding clash_def by (subst same_issuer_sym) (simp add: eq_commute)

lemma observed_mem: "well_keyed obs \<Longrightarrow> ob \<in> set (observed_of obs s) \<longleftrightarrow> (\<exists>os. (s, os) \<in> set obs \<and> ob \<in> set os)"
  by (auto simp: observed_of_def well_keyed_def split: option.splits dest: map_of_SomeD map_of_is_SomeI)

lemma claims_mem: "well_keyed obs \<Longrightarrow> claims obs sec s \<longleftrightarrow> (\<exists>os ob. (s, os) \<in> set obs \<and> ob \<in> set os \<and> si_sec ob = Some sec)"
  unfolding claims_def Bex_def by (metis observed_mem)

lemma claimants_claims: "well_keyed obs \<Longrightarrow> s \<in> set (claimants obs sec) \<longleftrightarrow> claims obs sec s"
  by (force simp: claimants_def claims_mem carrying_def filter_empty_conv image_iff)

lemma pairs_with_self_mem: "(a, b) \<in> set (pairs_with_self xs) \<Longrightarrow> a \<in> set xs \<and> b \<in> set xs"
  by (induction xs) auto

lemma pairs_with_self_cover:
  "a \<in> set xs \<Longrightarrow> b \<in> set xs \<Longrightarrow> (a, b) \<in> set (pairs_with_self xs) \<or> (b, a) \<in> set (pairs_with_self xs)"
  by (induction xs) auto

lemma failing_pairs_mem:
  "(a, b, k) \<in> set (failing_pairs T obs sec) \<longleftrightarrow> (a, b) \<in> set (pairs_with_self (claimants obs sec)) \<and> clash T obs sec a b = Some k"
proof
  assume "(a, b) \<in> set (pairs_with_self (claimants obs sec)) \<and> clash T obs sec a b = Some k"
  then show "(a, b, k) \<in> set (failing_pairs T obs sec)"
    unfolding failing_pairs_def Let_def map_filter_set mem_Collect_eq
    by (intro bexI [of _ "(a, b)"]) (simp_all add: clash_def evidence_for_def)
qed (auto simp: failing_pairs_def Let_def map_filter_set clash_def evidence_for_def)

lemma failures_mem:
  assumes "well_keyed obs"
  shows "f \<in> set (failures_of (failing_pairs T obs sec) s) \<longleftrightarrow>
    claims obs sec s \<and> (\<exists>b k. claims obs sec b \<and> clash T obs sec s b = Some k \<and> f = k @ '':'' @ b)"
proof -
  have "f \<in> set (failures_of (failing_pairs T obs sec) s) \<longleftrightarrow>
      (\<exists>a b k. (a, b, k) \<in> set (failing_pairs T obs sec) \<and> (a = s \<and> f = k @ '':'' @ b \<or> b = s \<and> f = k @ '':'' @ a))"
    unfolding failures_of_def set_sorted_set set_concat set_map by (auto split: if_splits)
  also have "\<dots> \<longleftrightarrow>
      (\<exists>b k. ((s, b) \<in> set (pairs_with_self (claimants obs sec)) \<or> (b, s) \<in> set (pairs_with_self (claimants obs sec))) \<and>
         clash T obs sec s b = Some k \<and> f = k @ '':'' @ b)"
    unfolding failing_pairs_mem
    apply (auto simp: clash_sym [of T obs sec _ s])
    subgoal for b k by (intro exI [of _ b] exI [of _ s]) (simp add: clash_sym [of T obs sec b s])
    done
  finally have mem: "f \<in> set (failures_of (failing_pairs T obs sec) s) \<longleftrightarrow>
      (\<exists>b k. ((s, b) \<in> set (pairs_with_self (claimants obs sec)) \<or> (b, s) \<in> set (pairs_with_self (claimants obs sec))) \<and>
         clash T obs sec s b = Some k \<and> f = k @ '':'' @ b)" .
  have "((s, b) \<in> set (pairs_with_self (claimants obs sec)) \<or> (b, s) \<in> set (pairs_with_self (claimants obs sec))) \<longleftrightarrow>
      claims obs sec s \<and> claims obs sec b" for b
    using pairs_with_self_cover [of s "claimants obs sec" b] pairs_with_self_mem [of s b "claimants obs sec"]
      pairs_with_self_mem [of b s "claimants obs sec"] unfolding claimants_claims [OF assms, symmetric] by blast
  then show ?thesis unfolding mem by blast
qed

lemma claimed_secs_mem: "well_keyed obs \<Longrightarrow> sec \<in> set (claimed_secs obs) \<longleftrightarrow> (\<exists>s. claims obs sec s)"
  by (force simp: claimed_secs_def map_filter_set claims_mem)

text \<open>A secId is disputed when two of its claimants clash.\<close>

definition disputed_now :: "tables \<Rightarrow> sightings \<Rightarrow> int \<Rightarrow> bool" where
  "disputed_now T obs sec \<longleftrightarrow> (\<exists>a b. claims obs sec a \<and> claims obs sec b \<and> clash T obs sec a b \<noteq> None)"

lemma dispute_of_ex:
  assumes "well_keyed obs"
  shows "list_ex (\<lambda>(s, fs). fs \<noteq> []) (dispute_of T obs sec) \<longleftrightarrow> disputed_now T obs sec"
proof -
  have "list_ex (\<lambda>(s, fs). fs \<noteq> []) (dispute_of T obs sec) \<longleftrightarrow>
      (\<exists>s. claims obs sec s \<and> (\<exists>f. f \<in> set (failures_of (failing_pairs T obs sec) s)))"
    unfolding dispute_of_def list_ex_iff set_map claimants_claims [OF assms, symmetric]
    by (auto simp: ex_in_conv [of "set (failures_of (failing_pairs T obs sec) _)"])
  then show ?thesis unfolding failures_mem [OF assms] disputed_now_def by auto
qed

lemma map_of_graph: "map_of (map (\<lambda>x. (x, f x)) xs) = (\<lambda>x. if x \<in> set xs then Some (f x) else None)"
  by (induction xs) auto

lemma map_of_disputed:
  assumes "well_keyed obs"
  shows "map_of (disputed_sec_ids T obs) sec = (if disputed_now T obs sec then Some (dispute_of T obs sec) else None)"
  using claimed_secs_mem [OF assms, of sec]
  by (auto simp: disputed_sec_ids_def map_of_graph dispute_of_ex [OF assms] disputed_now_def)

lemma disputed_secs: "well_keyed obs \<Longrightarrow> set (map fst (disputed_sec_ids T obs)) = {sec. disputed_now T obs sec}"
  using claimed_secs_mem [of obs] by (auto simp: disputed_sec_ids_def dispute_of_ex disputed_now_def)

lemma failures_in_disputed:
  assumes "well_keyed obs"
  shows "failures_in (disputed_sec_ids T obs) s sec =
    (if disputed_now T obs sec \<and> claims obs sec s then Some (failures_of (failing_pairs T obs sec) s) else None)"
  using claimants_claims [OF assms] by (simp add: failures_in_def map_of_disputed [OF assms] dispute_of_def map_of_graph)

section \<open>More evidence\<close>

lemma evidence_sets:
  "set (fst (evidence_for T obs sec s)) = {c. \<exists>ob \<in> set (observed_of obs s). si_sec ob = Some sec \<and> isin_issuer_code T (si_isin ob) = Some c}"
  "set (snd (evidence_for T obs sec s)) = {n. \<exists>ob \<in> set (observed_of obs s). si_sec ob = Some sec \<and> normalise_name T (si_name ob) = Some n}"
  by (auto simp: evidence_for_def issuer_evidence_def carrying_def map_filter_set)

definition codes :: "tables \<Rightarrow> sightings \<Rightarrow> int \<Rightarrow> string \<Rightarrow> ustr set" where
  "codes T obs sec s = set (fst (evidence_for T obs sec s))"

definition name_set :: "tables \<Rightarrow> sightings \<Rightarrow> int \<Rightarrow> string \<Rightarrow> ustr set" where
  "name_set T obs sec s = set (snd (evidence_for T obs sec s))"

lemma clash_by_sets:
  "clash T obs sec a b =
     (if codes T obs sec a \<noteq> {} \<and> codes T obs sec b \<noteq> {}
        then (if card (codes T obs sec a \<union> codes T obs sec b) = 1 then None else Some ''isin_issuer_code_differs'')
      else if name_set T obs sec a \<noteq> {} \<and> name_set T obs sec b \<noteq> {}
        then (if card (name_set T obs sec a \<union> name_set T obs sec b) = 1 then None else Some ''name_differs'')
      else if a = b then None else Some ''identity_evidence_insufficient'')"
  by (simp add: clash_def same_issuer_def codes_def name_set_def one_value_card)

lemma one_of_union: "A \<noteq> {} \<Longrightarrow> B \<noteq> {} \<Longrightarrow> card (A \<union> B) = 1 \<longleftrightarrow> (\<exists>c. A = {c} \<and> B = {c})"
  unfolding One_nat_def card_1_singleton_iff by (metis Un_absorb Un_upper1 Un_upper2 subset_singletonD)

lemma seen_grows:
  assumes "seen_in obs obs'"
  shows "codes T obs sec s \<subseteq> codes T obs' sec s" "name_set T obs sec s \<subseteq> name_set T obs' sec s" "claims obs sec s \<Longrightarrow> claims obs' sec s"
  using assms by (auto simp: seen_in_def codes_def name_set_def evidence_sets claims_def)

lemma seen_in_trans: "seen_in a b \<Longrightarrow> seen_in b c \<Longrightarrow> seen_in a c"
  by (auto simp: seen_in_def)

text \<open>Two values that differ stay different; a failure that has gone never comes back.\<close>

lemma differ_grows: "A \<subseteq> A' \<Longrightarrow> B \<subseteq> B' \<Longrightarrow> A \<noteq> {} \<Longrightarrow> B \<noteq> {} \<Longrightarrow> card (A \<union> B) \<noteq> 1 \<Longrightarrow> card (A' \<union> B') \<noteq> 1"
  using one_of_union [of A B] one_of_union [of A' B'] by (metis subset_empty subset_singletonD)

lemma isin_clash_stays:
  assumes "seen_in obs obs'" and "clash T obs sec a b = Some ''isin_issuer_code_differs''"
  shows "clash T obs' sec a b = Some ''isin_issuer_code_differs''"
  using assms(2) differ_grows [OF seen_grows(1) [OF assms(1), of T sec a] seen_grows(1) [OF assms(1), of T sec b]]
    seen_grows(1) [OF assms(1), of T sec a] seen_grows(1) [OF assms(1), of T sec b]
  by (auto simp: clash_by_sets split: if_splits)

lemma clash_never_returns:
  assumes "seen_in o1 o2" and "seen_in o2 o3" and "clash T o1 sec a b = Some k" and "clash T o2 sec a b = None"
  shows "clash T o3 sec a b \<noteq> Some k"
proof -
  have "codes T o1 sec x \<subseteq> codes T o2 sec x" "codes T o2 sec x \<subseteq> codes T o3 sec x"
    "name_set T o1 sec x \<subseteq> name_set T o2 sec x" "name_set T o2 sec x \<subseteq> name_set T o3 sec x" for x
    using seen_grows [OF assms(1)] seen_grows [OF assms(2)] by blast+
  note grow = this [of a] this [of b]
  consider "k = ''isin_issuer_code_differs''" | "k = ''name_differs''" | "k = ''identity_evidence_insufficient''"
    using assms(3) by (auto simp: clash_by_sets split: if_splits)
  then show ?thesis
  proof cases
    case 1
    then show ?thesis using isin_clash_stays [OF assms(1)] assms(3,4) by auto
  next
    case 2
    then have "card (name_set T o2 sec a \<union> name_set T o2 sec b) \<noteq> 1" "name_set T o2 sec a \<noteq> {}" "name_set T o2 sec b \<noteq> {}"
      using assms(3) differ_grows [OF grow(3) grow(7)] grow by (auto simp: clash_by_sets split: if_splits)
    then have "codes T o2 sec a \<noteq> {} \<and> codes T o2 sec b \<noteq> {}"
      using assms(4) by (auto simp: clash_by_sets split: if_splits)
    then have "codes T o3 sec a \<noteq> {} \<and> codes T o3 sec b \<noteq> {}" using grow by auto
    then show ?thesis using 2 by (simp add: clash_by_sets)
  next
    case 3
    then have "a \<noteq> b" using assms(3) by (auto simp: clash_by_sets split: if_splits)
    then have "codes T o2 sec a \<noteq> {} \<and> codes T o2 sec b \<noteq> {} \<or> name_set T o2 sec a \<noteq> {} \<and> name_set T o2 sec b \<noteq> {}"
      using assms(4) by (auto simp: clash_by_sets split: if_splits)
    then have "codes T o3 sec a \<noteq> {} \<and> codes T o3 sec b \<noteq> {} \<or> name_set T o3 sec a \<noteq> {} \<and> name_set T o3 sec b \<noteq> {}"
      using grow by auto
    then show ?thesis using 3 by (auto simp: clash_by_sets)
  qed
qed

text \<open>A reason names its kind and its security.\<close>

lemma clash_kind: "clash T obs sec a b = Some k \<Longrightarrow> CHR '':'' \<notin> set k"
  by (auto simp: clash_by_sets split: if_splits)

lemma upto_mark: "x \<notin> set k \<Longrightarrow> takeWhile (\<lambda>c. c \<noteq> x) (k @ x # b) = k"
  by (induction k) auto

lemma reason_parts:
  assumes "CHR '':'' \<notin> set k" and "CHR '':'' \<notin> set k'" and "k @ '':'' @ b = k' @ '':'' @ b'"
  shows "k = k' \<and> b = b'"
proof -
  have "takeWhile (\<lambda>c. c \<noteq> CHR '':'') (k @ '':'' @ b) = k" "takeWhile (\<lambda>c. c \<noteq> CHR '':'') (k' @ '':'' @ b') = k'"
    using assms(1,2) by (simp_all add: upto_mark)
  then show ?thesis using assms(3) by (metis same_append_eq)
qed

section \<open>Decisions\<close>

definition secs_of :: "sightings \<Rightarrow> string \<Rightarrow> int set" where
  "secs_of obs s = {sec. claims obs sec s}"

lemma decide_security_None: "decide_security s os = None \<longleftrightarrow> with_sec os = []"
  by (auto simp: decide_security_def Let_def split: prod.splits list.splits)

lemma decide_security_fields:
  assumes "decide_security s os = Some d"
  shows "sd_symbol d = s" "set (sd_secs d) = {sec. \<exists>ob \<in> set os. si_sec ob = Some sec}"
    "sd_status d = (if length (sd_secs d) = 1 then ''evidenced'' else ''conflict'')"
    "sd_sec d = (if length (sd_secs d) = 1 then Some (hd (sd_secs d)) else None)"
    "sd_reasons d = (if length (sd_secs d) = 1 then [] else [''sec_ids_disagree''])"
    "sd_rule d = issuer_rule_version" "sd_secs d \<noteq> []" "distinct (sd_secs d)"
proof -
  let ?secs = "sorted_set (List.map_filter si_sec (with_sec os))"
  have "with_sec os \<noteq> []" using assms decide_security_None [of s os] by auto
  then obtain ob where "ob \<in> set os" "si_sec ob \<noteq> None" by (auto simp: with_sec_def filter_empty_conv)
  then have "set (List.map_filter si_sec (with_sec os)) \<noteq> {}" by (auto simp: map_filter_set with_sec_def)
  then have ne: "?secs \<noteq> []" by auto
  have d: "sd_secs d = ?secs" "sd_symbol d = s" "sd_rule d = issuer_rule_version"
    "sd_status d = (if length ?secs = 1 then ''evidenced'' else ''conflict'')" "sd_sec d = (if length ?secs = 1 then Some (hd ?secs) else None)"
    "sd_reasons d = (if length ?secs = 1 then [] else [''sec_ids_disagree''])"
    using assms by (auto simp: decide_security_def Let_def split: prod.splits if_splits list.splits)
  then show "sd_symbol d = s" "sd_status d = (if length (sd_secs d) = 1 then ''evidenced'' else ''conflict'')"
    "sd_sec d = (if length (sd_secs d) = 1 then Some (hd (sd_secs d)) else None)"
    "sd_reasons d = (if length (sd_secs d) = 1 then [] else [''sec_ids_disagree''])" "sd_rule d = issuer_rule_version"
    "sd_secs d \<noteq> []" "distinct (sd_secs d)" using ne by simp_all
  show "set (sd_secs d) = {sec. \<exists>ob \<in> set os. si_sec ob = Some sec}"
    by (auto simp: d map_filter_set with_sec_def)
qed

definition decision :: "tables \<Rightarrow> sightings \<Rightarrow> string \<Rightarrow> security_decision option" where
  "decision T obs s = map_option (guarded obs (disputed_sec_ids T obs)) (decide_security s (observed_of obs s))"

lemma guarded_symbol: "sd_symbol (guarded obs D d) = sd_symbol d"
  by (simp add: guarded_def Let_def split: prod.split)

lemma find_decided:
  assumes "\<And>k d. f k = Some d \<Longrightarrow> sd_symbol (g d) = k"
  shows "find (\<lambda>d. sd_symbol d = s) (map g (List.map_filter f ks)) = (if s \<in> set ks then map_option g (f s) else None)"
proof (induction ks)
  case (Cons k ks)
  then show ?case using assms [of k] by (cases "f k") (auto simp: List.map_filter_simps)
qed (simp add: List.map_filter_simps)

lemma find_decision: "find (\<lambda>d. sd_symbol d = s) (decide_securities T obs) = decision T obs s"
proof -
  have "decision T obs s = None" if "s \<notin> set (map fst obs)"
    using that by (auto simp: decision_def observed_of_def decide_security_None with_sec_def map_of_eq_None_iff split: option.splits)
      (metis fst_conv image_eqI map_of_SomeD)
  then show ?thesis
    unfolding decide_securities_def Let_def using decide_security_fields(1)
    by (subst find_decided) (auto simp: guarded_symbol decision_def)
qed

lemma decided_iff: "d \<in> set (decide_securities T obs) \<longleftrightarrow> (\<exists>s. decision T obs s = Some d)"
proof
  assume "d \<in> set (decide_securities T obs)"
  then show "\<exists>s. decision T obs s = Some d" unfolding decide_securities_def Let_def decision_def by (auto simp: map_filter_set)
next
  assume "\<exists>s. decision T obs s = Some d"
  then show "d \<in> set (decide_securities T obs)" unfolding find_decision [symmetric] by (auto simp: find_Some_iff)
qed

lemma secs_of_observed: "secs_of obs s = {sec. \<exists>ob \<in> set (observed_of obs s). si_sec ob = Some sec}"
  by (simp add: secs_of_def claims_def)

lemma single_list: "distinct xs \<Longrightarrow> length xs = 1 \<longleftrightarrow> (\<exists>x. set xs = {x})"
  by (metis One_nat_def card_1_singleton_iff distinct_card)

text \<open>A security is evidenced exactly when it was only ever observed with one secId, which is not disputed.\<close>

lemma decision_fields:
  assumes "well_keyed obs" and "decision T obs s = Some d"
  shows "sd_symbol d = s" "set (sd_secs d) = secs_of obs s" "secs_of obs s \<noteq> {}" "sd_rule d = issuer_rule_version"
    "sd_status d = (if \<exists>sec. secs_of obs s = {sec} \<and> \<not> disputed_now T obs sec then ''evidenced'' else ''conflict'')"
    "sd_status d = ''evidenced'' \<Longrightarrow> sd_reasons d = [] \<and> (\<exists>sec. secs_of obs s = {sec} \<and> \<not> disputed_now T obs sec \<and> sd_sec d = Some sec)"
    "sd_status d = ''conflict'' \<Longrightarrow> sd_sec d = None \<and> sd_reasons d \<noteq> []"
    "sec \<in> secs_of obs s \<Longrightarrow> claims obs sec b \<Longrightarrow> clash T obs sec s b = Some k \<Longrightarrow> k @ '':'' @ b \<in> set (sd_reasons d)"
    "r \<in> set (sd_reasons d) \<Longrightarrow> r = ''sec_ids_disagree'' \<or> (\<exists>n. r = ''sec_id_identity_disputed'' @ '':'' @ n) \<or>
       (\<exists>sec b k. sec \<in> secs_of obs s \<and> claims obs sec b \<and> clash T obs sec s b = Some k \<and> r = k @ '':'' @ b)"
proof -
  let ?D = "disputed_sec_ids T obs"
  obtain e where e: "decide_security s (observed_of obs s) = Some e" "d = guarded obs ?D e"
    using assms(2) by (auto simp: decision_def)
  note f = decide_security_fields [OF e(1)]
  define bad where "bad = filter (\<lambda>sec. failures_in ?D s sec \<noteq> None) (sd_secs e)"
  have bad: "set bad = {sec \<in> secs_of obs s. disputed_now T obs sec}"
    using f(2) by (auto simp: bad_def failures_in_disputed [OF assms(1)] secs_of_def claims_def)
  have d: "sd_symbol d = s" "sd_secs d = sd_secs e" "sd_rule d = issuer_rule_version"
    "sd_status d = (if bad = [] then sd_status e else ''conflict'')" "sd_sec d = (if bad = [] then sd_sec e else None)"
    "sd_reasons d = (if bad = [] then sd_reasons e else sd_reasons e @ map (\<lambda>sec. ''sec_id_identity_disputed:'' @ show_int sec) bad @
       sorted_set (concat (map (\<lambda>sec. the (failures_in ?D s sec)) bad)))"
    using f(1,6) unfolding e(2) guarded_def Let_def bad_def [symmetric, folded f(1)] by (auto split: prod.split simp: f(1))
  show "sd_symbol d = s" "set (sd_secs d) = secs_of obs s" "sd_rule d = issuer_rule_version"
    using d f(2) by (simp_all add: secs_of_observed)
  show ne: "secs_of obs s \<noteq> {}" using f(2,7) unfolding secs_of_observed by (metis set_empty)
  have one: "length (sd_secs e) = 1 \<longleftrightarrow> (\<exists>sec. secs_of obs s = {sec})"
    using single_list [OF f(8)] f(2) by (simp add: secs_of_observed)
  have bad0: "bad = [] \<longleftrightarrow> (\<forall>sec \<in> secs_of obs s. \<not> disputed_now T obs sec)" using bad by (auto simp flip: set_empty)
  show st: "sd_status d = (if \<exists>sec. secs_of obs s = {sec} \<and> \<not> disputed_now T obs sec then ''evidenced'' else ''conflict'')"
    using d(4) f(3) one bad0 by (cases "bad = []") auto
  show "sd_reasons d = [] \<and> (\<exists>sec. secs_of obs s = {sec} \<and> \<not> disputed_now T obs sec \<and> sd_sec d = Some sec)" if ev: "sd_status d = ''evidenced''"
  proof -
    obtain sec where sec: "secs_of obs s = {sec}" "\<not> disputed_now T obs sec" using st ev by (auto split: if_splits)
    then have "bad = []" "length (sd_secs e) = 1" using bad0 one by auto
    moreover have "hd (sd_secs e) = sec"
      using f(2,7) sec(1) by (metis secs_of_observed list.set_sel(1) singletonD)
    ultimately show ?thesis using d(5,6) f(4,5) sec by simp
  qed
  show "sd_sec d = None \<and> sd_reasons d \<noteq> []" if "sd_status d = ''conflict''"
    using d f that by (auto split: if_splits)
  have fail: "failures_in ?D s sec = Some (failures_of (failing_pairs T obs sec) s)" if "sec \<in> set bad" for sec
    using that bad by (simp add: failures_in_disputed [OF assms(1)] secs_of_def)
  show "k @ '':'' @ b \<in> set (sd_reasons d)" if "sec \<in> secs_of obs s" "claims obs sec b" "clash T obs sec s b = Some k"
  proof -
    have "sec \<in> set bad" using that bad by (auto simp: disputed_now_def secs_of_def)
    moreover have "k @ '':'' @ b \<in> set (failures_of (failing_pairs T obs sec) s)"
      unfolding failures_mem [OF assms(1)] using that by (auto simp: secs_of_def)
    ultimately show ?thesis using d(6) fail by auto
  qed
  show "r = ''sec_ids_disagree'' \<or> (\<exists>n. r = ''sec_id_identity_disputed'' @ '':'' @ n) \<or>
       (\<exists>sec b k. sec \<in> secs_of obs s \<and> claims obs sec b \<and> clash T obs sec s b = Some k \<and> r = k @ '':'' @ b)"
    if r: "r \<in> set (sd_reasons d)"
  proof -
    consider "r \<in> set (sd_reasons e)" | sec where "r = ''sec_id_identity_disputed:'' @ show_int sec"
      | sec where "sec \<in> set bad" "r \<in> set (the (failures_in ?D s sec))"
      using r d(6) by (auto split: if_splits)
    then show ?thesis
    proof cases
      case 1
      then show ?thesis using f(5) by (auto split: if_splits)
    next
      case 2
      then show ?thesis by simp
    next
      case 3
      then have "sec \<in> secs_of obs s" "r \<in> set (failures_of (failing_pairs T obs sec) s)" using fail [of sec] bad by auto
      then show ?thesis unfolding failures_mem [OF assms(1)] by blast
    qed
  qed
qed

text \<open>C23: The reuse guard. Two different securities evidenced for the same secId carry one common ISIN issuer code, the only
  one ever seen with that secId on either side; or, where one of them was never seen with a code, one common normalised
  name, likewise the only one.\<close>

theorem evidenced_together_agree:
  assumes "well_keyed obs" and "a \<in> set (decide_securities T obs)" and "b \<in> set (decide_securities T obs)"
    and "sd_symbol a \<noteq> sd_symbol b" and "sd_status a = ''evidenced''" and "sd_status b = ''evidenced''"
    and "sd_sec a = sd_sec b"
  shows "\<exists>sec. sd_sec a = Some sec \<and>
    ((\<exists>c. codes T obs sec (sd_symbol a) = {c} \<and> codes T obs sec (sd_symbol b) = {c}) \<or>
     (codes T obs sec (sd_symbol a) = {} \<or> codes T obs sec (sd_symbol b) = {}) \<and>
       (\<exists>n. name_set T obs sec (sd_symbol a) = {n} \<and> name_set T obs sec (sd_symbol b) = {n}))"
proof -
  obtain s t where st: "decision T obs s = Some a" "decision T obs t = Some b" using assms(2,3) by (auto simp: decided_iff)
  note fa = decision_fields [OF assms(1) st(1)] and fb = decision_fields [OF assms(1) st(2)]
  obtain sec where sec: "sd_sec a = Some sec" "claims obs sec s" "claims obs sec t" "\<not> disputed_now T obs sec"
    using fa(6) [OF assms(5)] fb(6) [OF assms(6)] assms(7) unfolding secs_of_def set_eq_iff mem_Collect_eq by auto
  then have "clash T obs sec s t = None" by (auto simp: disputed_now_def)
  then show ?thesis using sec(1) assms(4) fa(1) fb(1) one_of_union [of "codes T obs sec s" "codes T obs sec t"]
      one_of_union [of "name_set T obs sec s" "name_set T obs sec t"]
    by (auto simp: clash_by_sets split: if_splits)
qed

end
