(* ===== verification/IssuerHistory.thy ===== *)
theory IssuerHistory
  imports IssuerFacts
begin

text \<open>
  Histories of the issuer store: any sequence of recordings, resolutions and filing links. Every row is the decision of
  some earlier state of the observations, in order, so a security that has a failure of its own, or two secIds, is in
  conflict after every resolution. Concrete histories show what the deduplication by evidence hash does get wrong.
\<close>

section \<open>Observations only grow\<close>

lemma grouped_keyed: "well_keyed (grouped_sightings rows)"
  by (simp add: well_keyed_def grouped_sightings_def Let_def comp_def)

lemma grouped_observed: "observed_of (grouped_sightings rows) s = map snd (filter (\<lambda>(t, x). t = Some s) rows)"
proof -
  define named where "named = List.map_filter (\<lambda>(s, x). map_option (\<lambda>s. (s, x)) s) rows"
  have f: "map snd (filter (\<lambda>(t, x). t = s) named) = map snd (filter (\<lambda>(t, x). t = Some s) rows)" for s
    unfolding named_def by (induction rows) (auto simp: List.map_filter_simps split: option.splits)
  have "map_of (grouped_sightings rows) s = (if s \<in> fst ` set named then Some (map snd (filter (\<lambda>(t, x). t = s) named)) else None)"
    by (simp add: grouped_sightings_def named_def [symmetric] Let_def map_of_graph)
  moreover have "map snd (filter (\<lambda>(t, x). t = s) named) = []" if "s \<notin> fst ` set named"
    using that by (force simp: filter_empty_conv)
  ultimately show ?thesis by (simp add: observed_of_def f)
qed

lemma sightings_keyed [simp]: "well_keyed (sightings_of obs)"
  by (simp add: sightings_of_def grouped_keyed)

text \<open>The identity evidence of a security, straight from the observations.\<close>

lemma sightings_sets:
  "claims (sightings_of obs) sec s \<longleftrightarrow> (\<exists>ob \<in> set obs. ob_symbol ob = Some s \<and> ob_sec_id ob = Some sec)"
  "codes T (sightings_of obs) sec s =
     {c. \<exists>ob \<in> set obs. ob_symbol ob = Some s \<and> ob_sec_id ob = Some sec \<and> isin_issuer_code T (ob_isin ob) = Some c}"
  "name_set T (sightings_of obs) sec s =
     {c. \<exists>ob \<in> set obs. ob_symbol ob = Some s \<and> ob_sec_id ob = Some sec \<and> normalise_name T (ob_name ob) = Some c}"
proof -
  have obs: "set (observed_of (sightings_of obs) s) =
      {sighting_of (Some (int i + 1)) (obs ! i) | i. i < length obs \<and> ob_symbol (obs ! i) = Some s}" for s
    by (force simp: sightings_of_def grouped_observed in_set_enumerate_eq)
  have ex: "(\<exists>x \<in> set (observed_of (sightings_of obs) s). P (si_sec x) (si_isin x) (si_name x)) \<longleftrightarrow>
      (\<exists>ob \<in> set obs. ob_symbol ob = Some s \<and> P (ob_sec_id ob) (ob_isin ob) (ob_name ob))" for s P
    unfolding obs by (force simp: sighting_of_def in_set_conv_nth)
  show "claims (sightings_of obs) sec s \<longleftrightarrow> (\<exists>ob \<in> set obs. ob_symbol ob = Some s \<and> ob_sec_id ob = Some sec)"
    unfolding claims_def using ex [of s "\<lambda>a b c. a = Some sec"] by simp
  show "codes T (sightings_of obs) sec s =
     {c. \<exists>ob \<in> set obs. ob_symbol ob = Some s \<and> ob_sec_id ob = Some sec \<and> isin_issuer_code T (ob_isin ob) = Some c}"
    unfolding codes_def evidence_sets using ex [of s "\<lambda>a b c. a = Some sec \<and> isin_issuer_code T b = Some _"] by simp
  show "name_set T (sightings_of obs) sec s =
     {c. \<exists>ob \<in> set obs. ob_symbol ob = Some s \<and> ob_sec_id ob = Some sec \<and> normalise_name T (ob_name ob) = Some c}"
    unfolding name_set_def evidence_sets using ex [of s "\<lambda>a b c. a = Some sec \<and> normalise_name T c = Some _"] by simp
qed

lemma sightings_grow: "seen_in (sightings_of obs) (sightings_of (obs @ extra))"
  by (auto simp: seen_in_def sightings_of_def grouped_observed enumerate_append_eq)

lemma prefix_seen: "m \<le> n \<Longrightarrow> seen_in (sightings_of (take m obs)) (sightings_of (take n obs))"
  using sightings_grow [of "take m obs" "drop m (take n obs)"] append_take_drop_id [of m "take n obs"] by (simp add: min_def)

lemma insert_observations_append: "\<exists>extra. fold insert_observation batch obs = obs @ extra"
proof (induction batch arbitrary: obs)
  case (Cons ob batch)
  have "insert_observation ob obs = obs @ (if insert_observation ob obs = obs then [] else [ob])"
    by (simp add: insert_observation_def)
  then obtain extra where one: "insert_observation ob obs = obs @ extra" by blast
  obtain extra' where "fold insert_observation batch (obs @ extra) = (obs @ extra) @ extra'" using Cons.IH by blast
  then show ?case using one by simp
qed simp

section \<open>Reachable stores\<close>

inductive issuer_states :: "tables \<Rightarrow> hashes \<Rightarrow> issuer_store \<Rightarrow> bool" for T H where
  start: "issuer_states T H empty_issuer_store"
| recorded: "issuer_states T H st \<Longrightarrow> issuer_states T H (fst (record_observations batch st))"
| resolved: "issuer_states T H st \<Longrightarrow> issuer_states T H (fst (resolve_securities T H fresh companies st))"
| linked: "issuer_states T H st \<Longrightarrow> link_filing T H fid filing st = Inr (st', current) \<Longrightarrow> issuer_states T H st'"

text \<open>A row is the decision on the first \<open>n\<close> observations.\<close>

definition row_at :: "tables \<Rightarrow> hashes \<Rightarrow> id_observation list \<Rightarrow> security_row \<Rightarrow> nat \<Rightarrow> bool" where
  "row_at T H obs r n \<longleftrightarrow> n \<le> length obs \<and> decision T (sightings_of (take n obs)) (sr_ticker r) = Some (sr_decision r) \<and>
     sr_hash r = security_sha H (sr_decision r) \<and> (sd_status (sr_decision r) = ''conflict'' \<longrightarrow> sr_issuer r = None)"

definition dated_rows :: "tables \<Rightarrow> hashes \<Rightarrow> id_observation list \<Rightarrow> security_row list \<Rightarrow> nat list \<Rightarrow> bool" where
  "dated_rows T H obs rows ns \<longleftrightarrow> sorted ns \<and> list_all2 (row_at T H obs) rows ns"

lemma dated_rows_grow: "dated_rows T H obs rows ns \<Longrightarrow> dated_rows T H (obs @ extra) rows ns"
  unfolding dated_rows_def by (auto elim!: list_all2_mono simp: row_at_def)

lemma dated_rows_add:
  assumes "dated_rows T H obs rows ns" and "row_at T H obs r (length obs)"
  shows "\<exists>ns. dated_rows T H obs (insert_security r rows) ns"
proof -
  have "\<forall>n \<in> set ns. n \<le> length obs"
    using assms(1) by (auto simp: dated_rows_def list_all2_conv_all_nth in_set_conv_nth row_at_def)
  then have "dated_rows T H obs (rows @ [r]) (ns @ [length obs])"
    using assms by (auto simp: dated_rows_def sorted_append list_all2_appendI)
  then show ?thesis using assms(1) by (auto simp: insert_security_def)
qed

text \<open>What one company's decision does to the rows.\<close>

lemma resolve_company_step:
  assumes "ss_observations st = obs" and "dated_rows T H obs (ss_securities st) ns"
  shows "ss_observations (fst (resolve_company H fresh (decide_securities T (sightings_of obs)) s (st, n))) = obs \<and>
    (\<exists>ns. dated_rows T H obs (ss_securities (fst (resolve_company H fresh (decide_securities T (sightings_of obs)) s (st, n)))) ns) \<and>
    ss_filings (fst (resolve_company H fresh (decide_securities T (sightings_of obs)) s (st, n))) = ss_filings st"
proof (cases "decision T (sightings_of obs) s")
  case None
  then show ?thesis using assms by (auto simp: resolve_company_def find_decision)
next
  case (Some d)
  have "row_at T H obs \<lparr>sr_ticker = s, sr_issuer = (if sd_status d = ''evidenced'' then Option.bind (sd_sec d)
      (map_of (issuer_for fresh d (ss_issuers st))) else None), sr_decision = d, sr_hash = security_sha H d\<rparr> (length obs)"
    using Some by (simp add: row_at_def)
  from dated_rows_add [OF assms(2) this] show ?thesis
    using assms(1) Some by (simp add: resolve_company_def find_decision Let_def)
qed

definition dated_store :: "tables \<Rightarrow> hashes \<Rightarrow> issuer_store \<Rightarrow> bool" where
  "dated_store T H st \<longleftrightarrow> (\<exists>ns. dated_rows T H (ss_observations st) (ss_securities st) ns)"

lemma resolve_fold:
  assumes "ss_observations st = obs" and "\<exists>ns. dated_rows T H obs (ss_securities st) ns"
  shows "ss_observations (fst (fold (resolve_company H fresh (decide_securities T (sightings_of obs))) cs (st, n))) = obs \<and>
    (\<exists>ns. dated_rows T H obs (ss_securities (fst (fold (resolve_company H fresh (decide_securities T (sightings_of obs))) cs (st, n)))) ns)"
  using assms
proof (induction cs arbitrary: st n)
  case (Cons c cs)
  obtain st1 n1 where step: "resolve_company H fresh (decide_securities T (sightings_of obs)) c (st, n) = (st1, n1)" by fastforce
  show ?case using Cons.IH [of st1 n1] Cons.prems resolve_company_step [of st obs T H _ fresh c n] step by auto
qed simp

lemma resolved_store:
  assumes "dated_store T H st"
  shows "dated_store T H (fst (resolve_securities T H fresh cs st))"
    "ss_observations (fst (resolve_securities T H fresh cs st)) = ss_observations st"
  using resolve_fold [OF refl, of T H st fresh "sort cs" no_counts] assms
  by (auto simp: dated_store_def resolve_securities_def observations_by_symbol_def)

lemma reachable_dated: "issuer_states T H st \<Longrightarrow> dated_store T H st"
proof (induction rule: issuer_states.induct)
  case start
  then show ?case by (simp add: dated_store_def dated_rows_def empty_issuer_store_def)
next
  case (recorded st batch)
  obtain extra where "fold insert_observation batch (ss_observations st) = ss_observations st @ extra"
    using insert_observations_append by blast
  then show ?case using recorded.IH dated_rows_grow unfolding dated_store_def record_observations_def Let_def by auto blast
next
  case (resolved st fresh companies)
  then show ?case by (simp add: resolved_store)
next
  case (linked st fid filing st' current)
  then show ?case by (auto simp: dated_store_def link_filing_def Let_def split: option.splits)
qed

text \<open>After a resolution every decided company has a row with its present evidence hash.\<close>

lemma insert_security_mem:
  "sr_ticker r = s \<Longrightarrow> sr_hash r = h \<Longrightarrow> \<exists>x \<in> set (insert_security r rows). sr_ticker x = s \<and> sr_hash x = h"
  by (auto simp: insert_security_def list_ex_iff)

lemma insert_security_keeps: "set rows \<subseteq> set (insert_security r rows)"
  by (auto simp: insert_security_def)

lemma resolve_company_keeps: "set (ss_securities (fst acc)) \<subseteq> set (ss_securities (fst (resolve_company H fresh D c acc)))"
  using insert_security_keeps by (auto simp: resolve_company_def Let_def split: option.splits prod.splits)

lemma resolve_fold_keeps: "set (ss_securities (fst acc)) \<subseteq> set (ss_securities (fst (fold (resolve_company H fresh D) cs acc)))"
proof (induction cs arbitrary: acc)
  case (Cons c cs)
  show ?case using Cons.IH [of "resolve_company H fresh D c acc"] resolve_company_keeps [of acc H fresh D c] by (auto simp: fold_simps)
qed simp

lemma resolved_has_row:
  assumes "find (\<lambda>d. sd_symbol d = s) D = Some d" and "s \<in> set cs"
  shows "\<exists>x \<in> set (ss_securities (fst (fold (resolve_company H fresh D) cs acc))). sr_ticker x = s \<and> sr_hash x = security_sha H d"
  using assms(2)
proof (induction cs arbitrary: acc)
  case (Cons c cs)
  show ?case
  proof (cases "s \<in> set cs")
    case True
    then show ?thesis using Cons.IH by simp
  next
    case False
    then have "\<exists>x \<in> set (ss_securities (fst (resolve_company H fresh D c acc))). sr_ticker x = s \<and> sr_hash x = security_sha H d"
      using Cons.prems assms(1) by (cases acc) (auto simp: resolve_company_def Let_def intro!: insert_security_mem)
    then show ?thesis using resolve_fold_keeps [of "resolve_company H fresh D c acc" H fresh D cs] by (auto simp: fold_simps)
  qed
qed simp

section \<open>No link against a security's own failure\<close>

lemma security_sha_inject:
  "inj (hs_security H) \<Longrightarrow> security_sha H d = security_sha H e \<Longrightarrow>
     sd_status d = sd_status e \<and> sd_secs d = sd_secs e \<and> sd_reasons d = sd_reasons e"
  by (simp add: security_sha_def inj_eq)

text \<open>Two rows with the content of one conflict, and an evidenced one between them, cannot be about a security that
  clashes itself.\<close>

lemma own_failure_not_between:
  assumes seen: "seen_in o1 o2" "seen_in o2 o3" and keyed: "well_keyed o1" "well_keyed o2" "well_keyed o3"
    and dec: "decision T o1 s = Some d1" "decision T o2 s = Some d2" "decision T o3 s = Some d3"
    and same: "sd_reasons d1 = sd_reasons d3" "sd_secs d1 = sd_secs d3" and ev: "sd_status d2 = ''evidenced''"
  shows "(\<exists>sec. secs_of o3 s = {sec}) \<and> (\<forall>sec b. claims o3 sec s \<longrightarrow> claims o3 sec b \<longrightarrow> clash T o3 sec s b = None)"
proof -
  note f1 = decision_fields [OF keyed(1) dec(1)] and f2 = decision_fields [OF keyed(2) dec(2)] and f3 = decision_fields [OF keyed(3) dec(3)]
  obtain sec where sec: "secs_of o2 s = {sec}" "\<not> disputed_now T o2 sec" using f2(6) [OF ev] by blast
  have "secs_of o1 s \<subseteq> secs_of o2 s" using seen_grows(3) [OF seen(1)] by (auto simp: secs_of_def)
  then have only: "secs_of o3 s = {sec}" "secs_of o1 s = {sec}" using f1(2,3) f3(2) same(2) sec(1) by auto
  have "clash T o3 sec' s b = None" if cl: "claims o3 sec' s" "claims o3 sec' b" for sec' b
  proof (rule ccontr)
    assume "clash T o3 sec' s b \<noteq> None"
    then obtain k where k: "clash T o3 sec' s b = Some k" by blast
    have sec': "sec' = sec" using cl(1) only(1) by (auto simp: secs_of_def)
    have "k @ '':'' @ b \<in> set (sd_reasons d1)" using f3(8) [OF _ cl(2) k] cl(1) same(1) by (simp add: secs_of_def)
    then consider "k @ '':'' @ b = ''sec_ids_disagree''" | n where "k @ '':'' @ b = ''sec_id_identity_disputed'' @ '':'' @ n"
      | sec1 b1 k1 where "sec1 \<in> secs_of o1 s" "claims o1 sec1 b1" "clash T o1 sec1 s b1 = Some k1" "k @ '':'' @ b = k1 @ '':'' @ b1"
      using f1(9) by blast
    then show False
    proof cases
      case 1
      have "CHR '':'' \<in> set ''sec_ids_disagree''" unfolding 1 [symmetric] by simp
      then show False by simp
    next
      case 2
      have mark: "CHR '':'' \<notin> set ''sec_id_identity_disputed''" by simp
      have "k = ''sec_id_identity_disputed''" using reason_parts [OF clash_kind [OF k] mark 2] by (rule conjunct1)
      then show False using k by (auto simp: clash_by_sets split: if_splits)
    next
      case 3
      then have "k1 = k" "b1 = b" using reason_parts [OF clash_kind [OF k] clash_kind [OF 3(3)] 3(4)] by simp_all
      moreover have "sec1 = sec" using 3(1) only(2) by simp
      ultimately have c1: "claims o1 sec b" "clash T o1 sec s b = Some k" "claims o1 sec s" using 3(1-3) by (simp_all add: secs_of_def)
      then have "clash T o2 sec s b = None" using sec(2) seen_grows(3) [OF seen(1)] by (auto simp: disputed_now_def)
      then show False using clash_never_returns [OF seen c1(2)] k sec' by simp
    qed
  qed
  then show ?thesis using only(1) by blast
qed

lemma decided_when_claimed:
  assumes "claims obs sec s"
  shows "\<exists>d. decision T obs s = Some d"
proof -
  have "with_sec (observed_of obs s) \<noteq> []" using assms by (auto simp: claims_def with_sec_def filter_empty_conv)
  then have "decide_security s (observed_of obs s) \<noteq> None" by (simp add: decide_security_None)
  then show ?thesis by (auto simp: decision_def)
qed

lemma current_row_position:
  assumes "current_row st s = Some r" and "x \<in> set (ss_securities st)" and "sr_ticker x = s"
  shows "\<exists>i j. j \<le> i \<and> i < length (ss_securities st) \<and> ss_securities st ! i = r \<and> ss_securities st ! j = x \<and> sr_ticker r = s"
proof -
  let ?rows = "ss_securities st"
  obtain p where p: "p < length ?rows" "rev ?rows ! p = r" "sr_ticker r = s" "\<forall>q<p. sr_ticker (rev ?rows ! q) \<noteq> s"
    using assms(1) by (auto simp: current_row_def find_Some_iff)
  obtain j where j: "j < length ?rows" "?rows ! j = x" using assms(2) by (auto simp: in_set_conv_nth)
  have "\<not> length ?rows - Suc j < p" using p(4) j assms(3) by (auto simp: rev_nth)
  then show ?thesis using p j by (intro exI [of _ "length ?rows - Suc p"] exI [of _ j]) (auto simp: rev_nth)
qed

text \<open>C21: No issuer link against a security's own failure. In every reachable store, after a resolution, a security that
  was observed with two secIds, or that itself clashes with another claimant of its secId, is currently in conflict:
  although a decision with an already stored hash adds no row, no older link is left standing for it.\<close>

theorem own_failure_in_conflict:
  assumes "issuer_states T H st" and "inj (hs_security H)" and "s \<in> set companies"
    and "\<exists>sec b. claims (observations_by_symbol st) sec s \<and> claims (observations_by_symbol st) sec b \<and>
      (clash T (observations_by_symbol st) sec s b \<noteq> None \<or> (\<exists>sec'. sec' \<noteq> sec \<and> claims (observations_by_symbol st) sec' s))"
  shows "current_security_links (fst (resolve_securities T H fresh companies st)) s = Some None"
proof -
  define obs st' where "obs = ss_observations st" and "st' = fst (resolve_securities T H fresh companies st)"
  note own = assms(4) [unfolded observations_by_symbol_def, folded obs_def]
  obtain d where d: "decision T (sightings_of obs) s = Some d"
    using own decided_when_claimed by blast
  have dated: "dated_store T H st'" "ss_observations st' = obs"
    using resolved_store [OF reachable_dated [OF assms(1)], where fresh = fresh and cs = companies] by (simp_all add: st'_def obs_def)
  obtain x where x: "x \<in> set (ss_securities st')" "sr_ticker x = s" "sr_hash x = security_sha H d"
    using resolved_has_row [of s "decide_securities T (sightings_of obs)" d "sort companies" H fresh "(st, no_counts)"] assms(3) d
    by (auto simp: st'_def obs_def resolve_securities_def observations_by_symbol_def find_decision)
  then obtain r where r: "current_row st' s = Some r"
    by (cases "current_row st' s") (auto simp: current_row_def find_None_iff)
  obtain i j where ij: "j \<le> i" "i < length (ss_securities st')" "ss_securities st' ! i = r" "ss_securities st' ! j = x" "sr_ticker r = s"
    using current_row_position [OF r x(1,2)] by blast
  obtain ns where ns: "sorted ns" "list_all2 (row_at T H obs) (ss_securities st') ns"
    using dated by (auto simp: dated_store_def dated_rows_def)
  have at: "row_at T H obs r (ns ! i)" "row_at T H obs x (ns ! j)" "ns ! j \<le> ns ! i"
    using ns ij by (auto simp: list_all2_conv_all_nth sorted_iff_nth_mono)
  have "sd_status (sr_decision r) \<noteq> ''evidenced''"
  proof
    assume ev: "sd_status (sr_decision r) = ''evidenced''"
    have "security_sha H (sr_decision x) = security_sha H d" using at(2) x(3) by (simp add: row_at_def)
    from security_sha_inject [OF assms(2) this]
    have same: "sd_reasons (sr_decision x) = sd_reasons d" "sd_secs (sr_decision x) = sd_secs d" by simp_all
    have "(\<exists>sec. secs_of (sightings_of obs) s = {sec}) \<and>
        (\<forall>sec b. claims (sightings_of obs) sec s \<longrightarrow> claims (sightings_of obs) sec b \<longrightarrow> clash T (sightings_of obs) sec s b = None)"
    proof (rule own_failure_not_between [OF _ _ _ _ _ _ _ d same ev])
      show "seen_in (sightings_of (take (ns ! j) obs)) (sightings_of (take (ns ! i) obs))" by (rule prefix_seen [OF at(3)])
      show "seen_in (sightings_of (take (ns ! i) obs)) (sightings_of obs)"
        using prefix_seen [of "ns ! i" "length obs" obs] at(1) by (simp add: row_at_def)
    qed (use at x(2) ij(5) in \<open>auto simp: row_at_def\<close>)
    then show False using own unfolding secs_of_def set_eq_iff mem_Collect_eq singleton_iff by (metis option.simps(3))
  qed
  moreover have "sd_status (sr_decision r) = ''evidenced'' \<or> sd_status (sr_decision r) = ''conflict''"
    using decision_fields(5) [OF sightings_keyed, of T _ s "sr_decision r"] at(1) ij(5) by (auto simp: row_at_def split: if_splits)
  ultimately have "sr_issuer r = None" using at(1) by (simp add: row_at_def)
  then show ?thesis using r by (simp add: current_security_links_def sec_of_issuer_def st'_def)
qed

end
