(* ===== verification/IssuerSamples.thy ===== *)
theory IssuerSamples
  imports IssuerHistory "HOL-Library.Countable"
begin

text \<open>
  A concrete history of one secId and two securities: first seen with two names, then with one ISIN issuer code, then
  with a second code. It applies the theorems on issuer links, and shows that a dispute ends without a review and that
  a filing stays linked to the issuer of a disputed secId.
\<close>

section \<open>The observations\<close>

definition ascii_upper :: "nat \<Rightarrow> nat" where
  "ascii_upper c = (if 97 \<le> c \<and> c \<le> 122 then c - 32 else c)"

definition ascii_issuer_tables :: tables where
  "ascii_issuer_tables = \<lparr>tb_upper = map ascii_upper, tb_digits = ascii_numerals\<rparr>"

definition seen_as :: "string \<Rightarrow> string \<Rightarrow> ustr option \<Rightarrow> ustr \<Rightarrow> id_observation" where
  "seen_as symbol payload isin name =
     \<lparr>ob_endpoint = ''companyInfoSummery'', ob_field = ''reqLogo.secId'', ob_query = Some symbol, ob_symbol = Some symbol,
      ob_security_id = Some 7, ob_sec_id = Some 1, ob_isin = isin, ob_name = Some name, ob_active = None,
      ob_payload = payload, ob_at = None, ob_ref = None\<rparr>"

text \<open>The names \<open>ONE\<close> and \<open>TWO\<close>; the ISINs \<open>LK0053N00005\<close>, \<open>LK0053X00004\<close> and \<open>LK0099N00001\<close>.\<close>

definition one_name :: ustr where "one_name = [79, 78, 69]"
definition two_name :: ustr where "two_name = [84, 87, 79]"
definition isin_a :: ustr where "isin_a = [76, 75, 48, 48, 53, 51, 78, 48, 48, 48, 48, 53]"
definition isin_b :: ustr where "isin_b = [76, 75, 48, 48, 53, 51, 88, 48, 48, 48, 48, 52]"
definition isin_c :: ustr where "isin_c = [76, 75, 48, 48, 57, 57, 78, 48, 48, 48, 48, 49]"

definition two_names :: "id_observation list" where
  "two_names = [seen_as ''A'' ''1'' None one_name, seen_as ''B'' ''2'' None two_name]"

definition one_code :: "id_observation list" where
  "one_code = [seen_as ''A'' ''3'' (Some isin_a) one_name, seen_as ''B'' ''4'' (Some isin_b) two_name]"

definition second_code :: "id_observation list" where
  "second_code = [seen_as ''B'' ''5'' (Some isin_c) two_name]"

lemma sample_values:
  "normalise_name ascii_issuer_tables (Some one_name) = Some one_name" "normalise_name ascii_issuer_tables (Some two_name) = Some two_name"
  "isin_issuer_code ascii_issuer_tables None = None" "isin_issuer_code ascii_issuer_tables (Some isin_a) = Some [48, 48, 53, 51]"
  "isin_issuer_code ascii_issuer_tables (Some isin_b) = Some [48, 48, 53, 51]"
  "isin_issuer_code ascii_issuer_tables (Some isin_c) = Some [48, 48, 57, 57]" "one_name \<noteq> two_name"
  by (simp_all add: normalise_name_def isin_issuer_code_def ascii_issuer_tables_def one_name_def two_name_def isin_a_def isin_b_def
      isin_c_def ascii_upper_def name_point_def ustrip_def is_white_def Let_def u_def all_digits_def ascii_numerals_def)

lemma sample_claims:
  "claims (sightings_of two_names) sec s \<longleftrightarrow> sec = 1 \<and> (s = ''A'' \<or> s = ''B'')"
  "claims (sightings_of (two_names @ one_code)) sec s \<longleftrightarrow> sec = 1 \<and> (s = ''A'' \<or> s = ''B'')"
  "claims (sightings_of (two_names @ one_code @ second_code)) sec s \<longleftrightarrow> sec = 1 \<and> (s = ''A'' \<or> s = ''B'')"
  unfolding sightings_sets two_names_def one_code_def second_code_def seen_as_def by auto

lemma sample_codes:
  "codes ascii_issuer_tables (sightings_of two_names) 1 s = {}"
  "codes ascii_issuer_tables (sightings_of (two_names @ one_code)) 1 ''A'' = {[48, 48, 53, 51]}"
  "codes ascii_issuer_tables (sightings_of (two_names @ one_code)) 1 ''B'' = {[48, 48, 53, 51]}"
  "codes ascii_issuer_tables (sightings_of (two_names @ one_code @ second_code)) 1 ''B'' = {[48, 48, 53, 51], [48, 48, 57, 57]}"
  unfolding sightings_sets two_names_def one_code_def second_code_def seen_as_def by (auto simp: sample_values)

lemma sample_name_sets:
  "name_set ascii_issuer_tables (sightings_of two_names) 1 ''A'' = {one_name}"
  "name_set ascii_issuer_tables (sightings_of two_names) 1 ''B'' = {two_name}"
  unfolding sightings_sets two_names_def seen_as_def by (auto simp: sample_values)

lemma sample_clashes:
  "clash ascii_issuer_tables (sightings_of two_names) 1 ''A'' ''B'' = Some ''name_differs''"
  "clash ascii_issuer_tables (sightings_of (two_names @ one_code)) 1 ''A'' ''A'' = None"
  "clash ascii_issuer_tables (sightings_of (two_names @ one_code)) 1 ''A'' ''B'' = None"
  "clash ascii_issuer_tables (sightings_of (two_names @ one_code)) 1 ''B'' ''A'' = None"
  "clash ascii_issuer_tables (sightings_of (two_names @ one_code)) 1 ''B'' ''B'' = None"
  "clash ascii_issuer_tables (sightings_of (two_names @ one_code @ second_code)) 1 ''B'' ''B'' = Some ''isin_issuer_code_differs''"
  unfolding clash_by_sets sample_codes sample_name_sets using sample_values(7) by simp_all

lemma disputed_two_names: "disputed_now ascii_issuer_tables (sightings_of two_names) sec \<longleftrightarrow> sec = 1"
  unfolding disputed_now_def sample_claims using sample_clashes(1) by force

lemma disputed_one_code: "\<not> disputed_now ascii_issuer_tables (sightings_of (two_names @ one_code)) sec"
  unfolding disputed_now_def sample_claims using sample_clashes(2-5) by auto

lemma disputed_second_code: "disputed_now ascii_issuer_tables (sightings_of (two_names @ one_code @ second_code)) sec \<longleftrightarrow> sec = 1"
  unfolding disputed_now_def sample_claims using sample_clashes(6) by force

section \<open>The store\<close>

lemma recorded_sample:
  "ss_observations st = [] \<Longrightarrow> ss_observations (fst (record_observations two_names st)) = two_names"
  "ss_observations st = two_names \<Longrightarrow> ss_observations (fst (record_observations one_code st)) = two_names @ one_code"
  "ss_observations st = two_names @ one_code \<Longrightarrow>
     ss_observations (fst (record_observations second_code st)) = two_names @ one_code @ second_code"
  by (simp_all add: record_observations_def two_names_def one_code_def second_code_def seen_as_def insert_observation_def
      observation_key_def)

lemma recorded_keeps:
  "ss_issuers (fst (record_observations b st)) = ss_issuers st" "ss_filings (fst (record_observations b st)) = ss_filings st"
  by (simp_all add: record_observations_def Let_def)

text \<open>The path \<open>1_1700000000000.pdf\<close> of filing 9.\<close>

definition sample_path :: ustr where
  "sample_path = [49, 95, 49, 55, 48, 48, 48, 48, 48, 48, 48, 48, 48, 48, 48, 46, 112, 100, 102]"

lemma sample_path_sec: "path_sec_id (tb_digits ascii_issuer_tables) (Some sample_path) = Some 1"
  by (simp add: path_sec_id_def ascii_issuer_tables_def sample_path_def ascii_numerals_def ascii_alnum_def digits_number_def Let_def)

definition sample_decision :: "string \<Rightarrow> string option \<Rightarrow> string list \<Rightarrow> filing_decision" where
  "sample_decision status issuer reasons =
     \<lparr>fd_filing = 9, fd_status = status, fd_basis = ''document_path_prefix'', fd_sec = Some 1, fd_issuer = issuer,
      fd_path_sec = Some 1, fd_symbols = [], fd_secs = [], fd_conflicts = [], fd_reasons = reasons, fd_rule = issuer_rule_version\<rparr>"

lemma sample_decision_fields [simp]:
  "fd_filing (sample_decision status i rs) = 9" "fd_issuer (sample_decision status i rs) = i"
  "fd_status (sample_decision status i rs) = status" "fd_basis (sample_decision status i rs) = ''document_path_prefix''"
  "fd_rule (sample_decision status i rs) = issuer_rule_version"
  by (simp_all add: sample_decision_def)

lemma sample_decision_now:
  "filing_decision_now ascii_issuer_tables st 9 (Some sample_path) [] =
     (if disputed_now ascii_issuer_tables (observations_by_symbol st) 1 then sample_decision ''conflict'' None [''sec_id_identity_disputed'']
      else (case map_of (ss_issuers st) 1 of Some i \<Rightarrow> sample_decision ''evidenced'' (Some i) []
        | None \<Rightarrow> sample_decision ''unresolved'' None [''no_issuer_for_sec_id'']))"
  unfolding filing_decision_now_def disputed_secs [OF sightings_keyed] observations_by_symbol_def
  by (simp add: decide_filing_def sample_path_sec Let_def List.map_filter_simps link_basis_def sample_decision_def split: option.split)

definition linked_sample :: "hashes \<Rightarrow> issuer_store \<Rightarrow> issuer_store" where
  "linked_sample H st = (case link_filing ascii_issuer_tables H 9 (Some (Some sample_path, [])) st of Inr (st', _) \<Rightarrow> st' | Inl _ \<Rightarrow> st)"

lemma linked_sample_fields:
  "ss_observations (linked_sample H st) = ss_observations st" "ss_issuers (linked_sample H st) = ss_issuers st"
  "link_filing ascii_issuer_tables H 9 (Some (Some sample_path, [])) st = Inr (linked_sample H st, current_filing_link (linked_sample H st) 9)"
  "ss_filings (linked_sample H st) =
     (let d = filing_decision_now ascii_issuer_tables st 9 (Some sample_path) []
      in insert_filing \<lparr>fr_issuer = fd_issuer d, fr_decision = d, fr_hash = filing_sha H d\<rparr> (ss_filings st))"
  by (simp_all add: linked_sample_def link_filing_def Let_def)

lemma resolved_sample:
  assumes "ss_observations st = two_names @ one_code" and "ss_issuers st = []"
  shows "ss_issuers (fst (resolve_securities ascii_issuer_tables H fresh [''A''] st)) = [(1, fresh 1)] \<and>
    ss_filings (fst (resolve_securities ascii_issuer_tables H fresh [''A''] st)) = ss_filings st \<and>
    ss_observations (fst (resolve_securities ascii_issuer_tables H fresh [''A''] st)) = ss_observations st"
proof -
  have "claims (sightings_of (two_names @ one_code)) 1 ''A''" by (simp add: sample_claims)
  then obtain d where d: "decision ascii_issuer_tables (sightings_of (two_names @ one_code)) ''A'' = Some d"
    using decided_when_claimed by blast
  note f = decision_fields [OF sightings_keyed d]
  have "secs_of (sightings_of (two_names @ one_code)) ''A'' = {1}" by (simp add: secs_of_def sample_claims)
  then have ev: "sd_status d = ''evidenced''" using f(5) disputed_one_code by simp
  have "sd_sec d = Some 1" using f(6) [OF ev] \<open>secs_of _ _ = {1}\<close> by auto
  then show ?thesis using d ev assms
    by (simp add: resolve_securities_def observations_by_symbol_def resolve_company_def find_decision Let_def issuer_for_def)
qed

section \<open>A filing that stays linked\<close>

definition sample_before_code :: "hashes \<Rightarrow> issuer_store" where
  "sample_before_code H = fst (record_observations one_code (linked_sample H (fst (record_observations two_names empty_issuer_store))))"

definition sample_linked_store :: "hashes \<Rightarrow> (int \<Rightarrow> string) \<Rightarrow> issuer_store" where
  "sample_linked_store H fresh = linked_sample H (fst (resolve_securities ascii_issuer_tables H fresh [''A''] (sample_before_code H)))"

definition sample_disputed_store :: "hashes \<Rightarrow> (int \<Rightarrow> string) \<Rightarrow> issuer_store" where
  "sample_disputed_store H fresh = fst (record_observations second_code (sample_linked_store H fresh))"

lemma linked_reached: "issuer_states ascii_issuer_tables H st \<Longrightarrow> issuer_states ascii_issuer_tables H (linked_sample H st)"
  using issuer_states.linked linked_sample_fields(3) by blast

lemma sample_reached: "issuer_states ascii_issuer_tables H (sample_disputed_store H fresh)"
  unfolding sample_disputed_store_def sample_linked_store_def sample_before_code_def
  by (intro issuer_states.recorded linked_reached issuer_states.resolved issuer_states.start)

lemma sample_before_code:
  "ss_observations (sample_before_code H) = two_names @ one_code" "ss_issuers (sample_before_code H) = []"
  "ss_filings (sample_before_code H) =
     [\<lparr>fr_issuer = None, fr_decision = sample_decision ''conflict'' None [''sec_id_identity_disputed''],
       fr_hash = filing_sha H (sample_decision ''conflict'' None [''sec_id_identity_disputed''])\<rparr>]"
proof -
  define s1 where "s1 = fst (record_observations two_names empty_issuer_store)"
  have s1: "ss_observations s1 = two_names" "ss_issuers s1 = []" "ss_filings s1 = []"
    unfolding s1_def recorded_keeps by (simp_all add: recorded_sample(1) empty_issuer_store_def)
  have "filing_decision_now ascii_issuer_tables s1 9 (Some sample_path) [] = sample_decision ''conflict'' None [''sec_id_identity_disputed'']"
    unfolding sample_decision_now observations_by_symbol_def s1(1) disputed_two_names by simp
  then show "ss_observations (sample_before_code H) = two_names @ one_code" "ss_issuers (sample_before_code H) = []"
    "ss_filings (sample_before_code H) =
     [\<lparr>fr_issuer = None, fr_decision = sample_decision ''conflict'' None [''sec_id_identity_disputed''],
       fr_hash = filing_sha H (sample_decision ''conflict'' None [''sec_id_identity_disputed''])\<rparr>]"
    unfolding sample_before_code_def s1_def [symmetric] recorded_keeps
    by (simp_all add: recorded_sample(2) linked_sample_fields s1 insert_filing_def Let_def)
qed

lemma sample_hashes_differ:
  "inj (hs_filing H) \<Longrightarrow> filing_sha H (sample_decision ''conflict'' None reasons) \<noteq> filing_sha H (sample_decision ''evidenced'' i reasons')"
  by (simp add: filing_sha_def inj_eq sample_decision_def)

lemma sample_linked_store:
  assumes "inj (hs_filing H)"
  shows "ss_observations (sample_linked_store H fresh) = two_names @ one_code" "ss_issuers (sample_linked_store H fresh) = [(1, fresh 1)]"
    "ss_filings (sample_linked_store H fresh) = ss_filings (sample_before_code H) @
       [\<lparr>fr_issuer = Some (fresh 1), fr_decision = sample_decision ''evidenced'' (Some (fresh 1)) [],
         fr_hash = filing_sha H (sample_decision ''evidenced'' (Some (fresh 1)) [])\<rparr>]"
proof -
  define s4 where "s4 = fst (resolve_securities ascii_issuer_tables H fresh [''A''] (sample_before_code H))"
  have s4: "ss_observations s4 = two_names @ one_code" "ss_issuers s4 = [(1, fresh 1)]" "ss_filings s4 = ss_filings (sample_before_code H)"
    using resolved_sample [OF sample_before_code(1,2), of H fresh] by (simp_all add: s4_def sample_before_code(1))
  have "filing_decision_now ascii_issuer_tables s4 9 (Some sample_path) [] = sample_decision ''evidenced'' (Some (fresh 1)) []"
    unfolding sample_decision_now observations_by_symbol_def s4(1) using disputed_one_code by (simp add: s4(2))
  then show "ss_observations (sample_linked_store H fresh) = two_names @ one_code" "ss_issuers (sample_linked_store H fresh) = [(1, fresh 1)]"
    "ss_filings (sample_linked_store H fresh) = ss_filings (sample_before_code H) @
       [\<lparr>fr_issuer = Some (fresh 1), fr_decision = sample_decision ''evidenced'' (Some (fresh 1)) [],
         fr_hash = filing_sha H (sample_decision ''evidenced'' (Some (fresh 1)) [])\<rparr>]"
    using sample_hashes_differ [OF assms] unfolding sample_linked_store_def s4_def [symmetric]
    by (simp_all add: linked_sample_fields s4 insert_filing_def sample_before_code(3) Let_def)
qed

text \<open>A filing can stay linked to the issuer of a disputed secId. For every evidence hash without collisions there is
  a reachable store in which the filing is decided to be in conflict, because its secId is disputed, and yet
  \<open>link_filing\<close> adds no row, since the same conflict was recorded before the dispute had ended for a while, and
  returns the older, evidenced link as the current one.\<close>

theorem disputed_filing_stays_linked:
  assumes "inj (hs_filing H)"
  shows "\<exists>st st' issuer. issuer_states ascii_issuer_tables H st \<and>
    fd_status (filing_decision_now ascii_issuer_tables st 9 (Some sample_path) []) = ''conflict'' \<and>
    link_filing ascii_issuer_tables H 9 (Some (Some sample_path, [])) st = Inr (st', Some (Some issuer, ''evidenced'', ''document_path_prefix'')) \<and>
    ss_filings st' = ss_filings st"
proof (intro exI conjI)
  fix fresh :: "int \<Rightarrow> string"
  let ?st = "sample_disputed_store H fresh"
  have obs: "ss_observations ?st = two_names @ one_code @ second_code"
    by (simp add: sample_disputed_store_def recorded_sample(3) sample_linked_store(1) [OF assms])
  have rows: "ss_filings ?st = ss_filings (sample_linked_store H fresh)" by (simp add: sample_disputed_store_def recorded_keeps)
  show "issuer_states ascii_issuer_tables H ?st" by (rule sample_reached)
  have now: "filing_decision_now ascii_issuer_tables ?st 9 (Some sample_path) [] = sample_decision ''conflict'' None [''sec_id_identity_disputed'']"
    unfolding sample_decision_now observations_by_symbol_def obs disputed_second_code by simp
  then show "fd_status (filing_decision_now ascii_issuer_tables ?st 9 (Some sample_path) []) = ''conflict''" by simp
  show same: "ss_filings (linked_sample H ?st) = ss_filings ?st"
    unfolding linked_sample_fields now Let_def rows sample_linked_store(3) [OF assms] sample_before_code(3) by (simp add: insert_filing_def)
  have "current_filing_link (linked_sample H ?st) 9 = Some (Some (fresh 1), ''evidenced'', ''document_path_prefix'')"
    unfolding current_filing_link_def same rows sample_linked_store(3) [OF assms] by simp
  then show "link_filing ascii_issuer_tables H 9 (Some (Some sample_path, [])) ?st =
      Inr (linked_sample H ?st, Some (Some (fresh 1), ''evidenced'', ''document_path_prefix''))"
    using linked_sample_fields(3) [of H ?st] by simp
qed

text \<open>Evidence hashes without collisions: the contents are countable.\<close>

definition unary_hashes :: hashes where
  "unary_hashes = \<lparr>hs_security = (\<lambda>x. replicate (to_nat x) CHR ''1''), hs_filing = (\<lambda>x. replicate (to_nat x) CHR ''1'')\<rparr>"

lemma unary_hashes_inj: "inj (hs_security unary_hashes)" "inj (hs_filing unary_hashes)"
  by (auto simp: unary_hashes_def inj_on_def dest: arg_cong [where f = length])

theorem disputed_filing_stays_linked_witness:
  "\<exists>st st' issuer. issuer_states ascii_issuer_tables unary_hashes st \<and>
    fd_status (filing_decision_now ascii_issuer_tables st 9 (Some sample_path) []) = ''conflict'' \<and>
    link_filing ascii_issuer_tables unary_hashes 9 (Some (Some sample_path, [])) st =
      Inr (st', Some (Some issuer, ''evidenced'', ''document_path_prefix'')) \<and>
    ss_filings st' = ss_filings st"
  by (rule disputed_filing_stays_linked) (rule unary_hashes_inj)

section \<open>The dispute that ends, and the theorems applied\<close>

theorem dispute_ends_without_review:
  "disputed_now ascii_issuer_tables (sightings_of two_names) 1 \<and>
   \<not> disputed_now ascii_issuer_tables (sightings_of (two_names @ one_code)) 1 \<and>
   seen_in (sightings_of two_names) (sightings_of (two_names @ one_code))"
  by (simp add: disputed_two_names disputed_one_code sightings_grow)

theorem own_failure_in_conflict_witness:
  "current_security_links (fst (resolve_securities ascii_issuer_tables unary_hashes (\<lambda>_. ''issuer'') [''B'']
     (sample_disputed_store unary_hashes (\<lambda>_. ''issuer'')))) ''B'' = Some None"
proof (rule own_failure_in_conflict [OF sample_reached unary_hashes_inj(1)])
  have "observations_by_symbol (sample_disputed_store unary_hashes (\<lambda>_. ''issuer'')) = sightings_of (two_names @ one_code @ second_code)"
    by (simp add: observations_by_symbol_def sample_disputed_store_def recorded_sample(3) sample_linked_store(1) [OF unary_hashes_inj(2)])
  then show "\<exists>sec b. claims (observations_by_symbol (sample_disputed_store unary_hashes (\<lambda>_. ''issuer''))) sec ''B'' \<and>
      claims (observations_by_symbol (sample_disputed_store unary_hashes (\<lambda>_. ''issuer''))) sec b \<and>
      (clash ascii_issuer_tables (observations_by_symbol (sample_disputed_store unary_hashes (\<lambda>_. ''issuer''))) sec ''B'' b \<noteq> None \<or>
       (\<exists>sec'. sec' \<noteq> sec \<and> claims (observations_by_symbol (sample_disputed_store unary_hashes (\<lambda>_. ''issuer''))) sec' ''B''))"
    using sample_clashes(6) by (intro exI [of _ 1] exI [of _ "''B''"]) (simp add: sample_claims)
qed simp

theorem evidenced_together_agree_witness:
  "\<exists>a b. {a, b} \<subseteq> set (decide_securities ascii_issuer_tables (sightings_of (two_names @ one_code))) \<and>
     sd_symbol a = ''A'' \<and> sd_symbol b = ''B'' \<and> sd_sec a = Some 1 \<and>
     (\<exists>c. codes ascii_issuer_tables (sightings_of (two_names @ one_code)) 1 ''A'' = {c} \<and>
       codes ascii_issuer_tables (sightings_of (two_names @ one_code)) 1 ''B'' = {c})"
proof -
  let ?obs = "sightings_of (two_names @ one_code)"
  have ev: "\<exists>d. d \<in> set (decide_securities ascii_issuer_tables ?obs) \<and> sd_symbol d = s \<and> sd_status d = ''evidenced'' \<and> sd_sec d = Some 1"
    if s: "s = ''A'' \<or> s = ''B''" for s
  proof -
    have secs: "secs_of ?obs s = {1}" using s by (auto simp: secs_of_def sample_claims)
    obtain d where d: "decision ascii_issuer_tables ?obs s = Some d" using decided_when_claimed [of ?obs 1 s] s sample_claims(2) by blast
    note f = decision_fields [OF sightings_keyed d]
    have "sd_status d = ''evidenced''" using f(5) secs disputed_one_code by simp
    then show ?thesis using f(1,6) d secs by (auto simp: decided_iff)
  qed
  obtain a b where ab: "a \<in> set (decide_securities ascii_issuer_tables ?obs)" "sd_symbol a = ''A''" "sd_status a = ''evidenced''" "sd_sec a = Some 1"
    "b \<in> set (decide_securities ascii_issuer_tables ?obs)" "sd_symbol b = ''B''" "sd_status b = ''evidenced''" "sd_sec b = Some 1"
    using ev [of "''A''"] ev [of "''B''"] by blast
  have "\<exists>c. codes ascii_issuer_tables ?obs 1 ''A'' = {c} \<and> codes ascii_issuer_tables ?obs 1 ''B'' = {c}"
    using evidenced_together_agree [OF sightings_keyed ab(1,5)] ab sample_codes(2,3) by simp
  then show ?thesis using ab by blast
qed

end
