(* ===== verification/HoldFacts.thy ===== *)
theory HoldFacts
  imports Holds IssuerSamples
begin

text \<open>
  Facts of the hold rule: disputes are per secId, so what is held changes no other secId, and a secId newly disputed by a
  recorded batch is disputed by contradicting evidence; what the owner has not released is never recorded.
\<close>

section \<open>Evidence of a union\<close>

lemma merged_keyed: "well_keyed a \<Longrightarrow> well_keyed b \<Longrightarrow> well_keyed (merged_sightings a b)"
  by (auto simp: well_keyed_def merged_sightings_def distinct_map inj_on_def comp_def split_beta distinct_filter)
     (metis fst_conv image_eqI prod.collapse)+

lemma merged_observed:
  assumes "well_keyed a" and "well_keyed b"
  shows "set (observed_of (merged_sightings a b) s) = set (observed_of a s) \<union> set (observed_of b s)"
proof (rule set_eqI)
  fix ob
  show "ob \<in> set (observed_of (merged_sightings a b) s) \<longleftrightarrow> ob \<in> set (observed_of a s) \<union> set (observed_of b s)"
  proof (cases "s \<in> fst ` set a")
    case True
    then obtain os where os: "(s, os) \<in> set a" by auto
    then have "observed_of a s = os" using assms(1) by (simp add: observed_of_def well_keyed_def)
    moreover have "(s, os @ observed_of b s) \<in> set (merged_sightings a b)" using os by (force simp: merged_sightings_def)
    then have "observed_of (merged_sightings a b) s = os @ observed_of b s"
      using merged_keyed [OF assms] by (simp add: observed_of_def well_keyed_def)
    ultimately show ?thesis by simp
  next
    case False
    then have none: "map_of a s = None" by (simp add: map_of_eq_None_iff)
    have "(s, os) \<in> set (merged_sightings a b) \<longleftrightarrow> (s, os) \<in> set b" for os using False by (force simp: merged_sightings_def)
    then show ?thesis using none
      by (simp add: observed_mem [OF merged_keyed [OF assms]] observed_mem [OF assms(2)]) (simp add: observed_of_def)
  qed
qed

lemma merged_sets:
  assumes "well_keyed a" and "well_keyed b"
  shows "claims (merged_sightings a b) sec s \<longleftrightarrow> claims a sec s \<or> claims b sec s"
    "codes T (merged_sightings a b) sec s = codes T a sec s \<union> codes T b sec s"
    "name_set T (merged_sightings a b) sec s = name_set T a sec s \<union> name_set T b sec s"
  unfolding claims_def codes_def name_set_def evidence_sets merged_observed [OF assms] by auto

text \<open>What a list of observations says of a secId, whatever their ids.\<close>

definition says :: "id_observation list \<Rightarrow> int \<Rightarrow> string \<Rightarrow> (ustr option \<times> ustr option) set" where
  "says obs sec s = {(ob_isin ob, ob_name ob) | ob. ob \<in> set obs \<and> ob_symbol ob = Some s \<and> ob_sec_id ob = Some sec}"

definition told :: "sightings \<Rightarrow> int \<Rightarrow> string \<Rightarrow> (ustr option \<times> ustr option) set" where
  "told obs sec s = {(si_isin ob, si_name ob) | ob. ob \<in> set (observed_of obs s) \<and> si_sec ob = Some sec}"

lemma told_sets:
  "claims obs sec s \<longleftrightarrow> told obs sec s \<noteq> {}"
  "codes T obs sec s = {c. \<exists>(i, n) \<in> told obs sec s. isin_issuer_code T i = Some c}"
  "name_set T obs sec s = {c. \<exists>(i, n) \<in> told obs sec s. normalise_name T n = Some c}"
  unfolding claims_def codes_def name_set_def evidence_sets told_def by auto

lemma told_by_symbol: "told (by_symbol obs) sec s = says obs sec s"
  by (force simp: told_def says_def by_symbol_def grouped_observed sighting_of_def)

lemma told_sightings_of: "told (sightings_of obs) sec s = says obs sec s"
proof -
  have "set (observed_of (sightings_of obs) s) =
      {sighting_of (Some (int i + 1)) (obs ! i) | i. i < length obs \<and> ob_symbol (obs ! i) = Some s}"
    by (force simp: sightings_of_def grouped_observed in_set_enumerate_eq)
  then show ?thesis unfolding told_def says_def by (force simp: sighting_of_def in_set_conv_nth)
qed

lemma told_merged: "well_keyed a \<Longrightarrow> well_keyed b \<Longrightarrow> told (merged_sightings a b) sec s = told a sec s \<union> told b sec s"
  by (auto simp: told_def merged_observed)

lemma by_symbol_keyed [simp]: "well_keyed (by_symbol obs)"
  by (simp add: by_symbol_def grouped_keyed)

lemma same_told:
  assumes "\<And>s. told a sec s = told b sec s"
  shows "claims a sec = claims b sec" "clash T a sec = clash T b sec" "disputed_now T a sec = disputed_now T b sec"
proof -
  show c: "claims a sec = claims b sec" using assms by (auto simp: told_sets fun_eq_iff)
  show d: "clash T a sec = clash T b sec" unfolding clash_by_sets fun_eq_iff by (simp add: told_sets assms)
  show "disputed_now T a sec = disputed_now T b sec" by (simp add: disputed_now_def c d)
qed

lemma failing_pairs_clash:
  "failing_pairs T obs sec =
     List.map_filter (\<lambda>(a, b). map_option (\<lambda>kind. (a, b, kind)) (clash T obs sec a b)) (pairs_with_self (claimants obs sec))"
  by (simp add: failing_pairs_def clash_def evidence_for_def Let_def)

text \<open>A dispute names its claimants and their failures only.\<close>

lemma same_dispute:
  assumes "well_keyed a" and "well_keyed b" and "\<And>s. told a sec s = told b sec s"
  shows "dispute_of T a sec = dispute_of T b sec"
proof -
  have "set (claimants a sec) = set (claimants b sec)"
    using same_told(1) [OF assms(3)] by (auto simp: claimants_claims assms(1,2))
  then have c: "claimants a sec = claimants b sec" unfolding claimants_def sorted_set_eq_iff set_sorted_set .
  have "failing_pairs T a sec = failing_pairs T b sec"
    unfolding failing_pairs_clash c same_told(2) [OF assms(3)] ..
  then show ?thesis by (simp add: dispute_of_def c)
qed

section \<open>What the hold rule does\<close>

lemma held_iff:
  assumes "well_keyed recorded"
  shows "sec \<in> fst ` set (held_sec_ids T recorded batch) \<longleftrightarrow>
    \<not> disputed_now T recorded sec \<and> disputed_now T (merged_sightings recorded (by_symbol batch)) sec \<and>
    list_all (starts_with insufficient_mark) (concat (map snd (dispute_of T (merged_sightings recorded (by_symbol batch)) sec)))"
proof -
  let ?union = "merged_sightings recorded (by_symbol batch)"
  have keyed: "well_keyed ?union" by (simp add: merged_keyed assms)
  have mem: "(sec, fs) \<in> set (disputed_sec_ids T ?union) \<longleftrightarrow> disputed_now T ?union sec \<and> fs = dispute_of T ?union sec" for fs
    using claimed_secs_mem [OF keyed] by (auto simp: disputed_sec_ids_def dispute_of_ex [OF keyed] disputed_now_def)
  have ne: "disputed_now T ?union sec \<Longrightarrow> concat (map snd (dispute_of T ?union sec)) \<noteq> []"
    unfolding dispute_of_ex [OF keyed, symmetric] by (fastforce simp: list_ex_iff)
  have before: "sec \<in> fst ` set (disputed_sec_ids T recorded) \<longleftrightarrow> disputed_now T recorded sec"
    using disputed_secs [OF assms, of T] by (auto simp: set_eq_iff)
  have "sec \<in> fst ` set (held_sec_ids T recorded batch) \<longleftrightarrow> (\<exists>fs. (sec, fs) \<in> set (held_sec_ids T recorded batch))" by force
  also have "\<dots> \<longleftrightarrow> (\<exists>fs. (sec, fs) \<in> set (disputed_sec_ids T ?union) \<and> sec \<notin> fst ` set (disputed_sec_ids T recorded) \<and>
      concat (map snd fs) \<noteq> [] \<and> list_all (starts_with insufficient_mark) (concat (map snd fs)))"
    unfolding held_sec_ids_def Let_def by simp
  finally show ?thesis unfolding mem before using ne by blast
qed

lemma says_split:
  "says (fst (split_batch T recorded batch)) sec s =
     (if sec \<in> fst ` set (held_sec_ids T recorded batch) then {} else says batch sec s)"
proof -
  have held: "is_held (held_sec_ids T recorded batch) ob \<longleftrightarrow> sec \<in> fst ` set (held_sec_ids T recorded batch)"
    if "ob_symbol ob = Some s" "ob_sec_id ob = Some sec" for ob
    using that by (simp add: is_held_def)
  show ?thesis unfolding says_def split_batch_def Let_def fst_conv set_filter using held by auto
qed

lemma split_batch_keyed:
  fixes recorded :: sightings and T :: tables and batch :: "id_observation list"
  defines "held \<equiv> fst ` set (held_sec_ids T recorded batch)" and "kept \<equiv> fst (split_batch T recorded batch)"
  assumes "well_keyed recorded"
  shows "dispute_of T (merged_sightings recorded (by_symbol kept)) sec =
      (if sec \<in> held then dispute_of T recorded sec else dispute_of T (merged_sightings recorded (by_symbol batch)) sec) \<and>
    held_sec_ids T recorded kept = []"
proof -
  have told: "told (merged_sightings recorded (by_symbol kept)) sec s =
      (if sec \<in> held then told recorded sec s else told (merged_sightings recorded (by_symbol batch)) sec s)" for sec s
    by (simp add: told_merged assms(3) told_by_symbol kept_def says_split held_def)
  have local: "dispute_of T (merged_sightings recorded (by_symbol kept)) sec =
      (if sec \<in> held then dispute_of T recorded sec else dispute_of T (merged_sightings recorded (by_symbol batch)) sec)" for sec
    using told [of sec] by (auto intro!: same_dispute merged_keyed assms(3))
  have now: "disputed_now T (merged_sightings recorded (by_symbol kept)) sec =
      (if sec \<in> held then disputed_now T recorded sec else disputed_now T (merged_sightings recorded (by_symbol batch)) sec)" for sec
    using told [of sec] by (auto intro!: same_told(3))
  have "fst ` set (held_sec_ids T recorded kept) = {}"
  proof (rule equals0I)
    fix sec assume "sec \<in> fst ` set (held_sec_ids T recorded kept)"
    note k = this [unfolded held_iff [OF assms(3), of sec T kept]]
    then have out: "sec \<notin> held" using now [of sec] by (cases "sec \<in> held") auto
    have "disputed_now T (merged_sightings recorded (by_symbol kept)) sec = disputed_now T (merged_sightings recorded (by_symbol batch)) sec"
      "dispute_of T (merged_sightings recorded (by_symbol kept)) sec = dispute_of T (merged_sightings recorded (by_symbol batch)) sec"
      using now [of sec] local [of sec] out by simp_all
    with k have "sec \<in> held" unfolding held_def held_iff [OF assms(3), of sec T batch] by simp
    then show False using out by blast
  qed
  then have "held_sec_ids T recorded kept = []" by simp
  with local show ?thesis by (rule conjI)
qed

text \<open>The hold rule removes exactly the disputes it is meant to remove. Recording the rest of the batch leaves a held
  secId with exactly the dispute state it had before, gives every other secId exactly the dispute it would have with the
  whole batch, and nothing of the rest would be held again.\<close>

theorem split_batch_local:
  "let recorded = sightings_of obs; held = fst ` set (held_sec_ids T recorded batch); kept = fst (split_batch T recorded batch)
   in dispute_of T (merged_sightings recorded (by_symbol kept)) sec =
        (if sec \<in> held then dispute_of T recorded sec else dispute_of T (merged_sightings recorded (by_symbol batch)) sec) \<and>
      held_sec_ids T recorded kept = []"
  unfolding Let_def by (rule split_batch_keyed) simp

section \<open>The ledger\<close>

text \<open>Observations with one key say the same: the key holds the hash of the payload they were read from.\<close>

definition key_tells :: "id_observation list \<Rightarrow> bool" where
  "key_tells obs \<longleftrightarrow> (\<forall>a \<in> set obs. \<forall>b \<in> set obs. observation_key a = observation_key b \<longrightarrow>
     ob_sec_id a = ob_sec_id b \<and> ob_isin a = ob_isin b \<and> ob_name a = ob_name b)"

lemma key_tells_part: "set xs \<subseteq> set ys \<Longrightarrow> key_tells ys \<Longrightarrow> key_tells xs"
  unfolding key_tells_def by blast

lemma inserted_set: "set obs \<subseteq> set (fold insert_observation batch obs) \<and> set (fold insert_observation batch obs) \<subseteq> set obs \<union> set batch"
proof (induction batch arbitrary: obs)
  case (Cons ob batch)
  have "set obs \<subseteq> set (insert_observation ob obs)" "set (insert_observation ob obs) \<subseteq> insert ob (set obs)"
    by (auto simp: insert_observation_def)
  then show ?case using Cons.IH [of "insert_observation ob obs"] by auto
qed simp

lemma inserted_keys: "observation_key ` set (fold insert_observation batch obs) = observation_key ` (set obs \<union> set batch)"
proof (induction batch arbitrary: obs)
  case (Cons ob batch)
  have "observation_key ` set (insert_observation ob obs) = observation_key ` insert ob (set obs)"
    by (auto simp: insert_observation_def list_ex_iff) (metis image_eqI)
  then show ?case using Cons.IH [of "insert_observation ob obs"] by (simp add: image_Un Un_commute Un_left_commute)
qed simp

lemma inserted_says:
  assumes "key_tells (obs @ batch)"
  shows "says (fold insert_observation batch obs) sec s = says obs sec s \<union> says batch sec s"
proof -
  let ?new = "fold insert_observation batch obs"
  have sub: "set ?new \<subseteq> set (obs @ batch)" using inserted_set [of obs batch] by auto
  have new: "(ob_isin x, ob_name x) \<in> says ?new sec s"
    if x: "x \<in> set (obs @ batch)" "ob_symbol x = Some s" "ob_sec_id x = Some sec" for x
  proof -
    have "observation_key x \<in> observation_key ` set ?new" using x(1) unfolding inserted_keys by simp
    then obtain y where y: "y \<in> set ?new" "observation_key y = observation_key x" by auto
    then have "ob_sec_id y = ob_sec_id x \<and> ob_isin y = ob_isin x \<and> ob_name y = ob_name x"
      using assms x(1) sub unfolding key_tells_def by blast
    moreover have "ob_symbol y = ob_symbol x" using y(2) by (simp add: observation_key_def)
    ultimately show ?thesis using y(1) x unfolding says_def mem_Collect_eq by (intro exI [of _ y]) simp
  qed
  show ?thesis
  proof (intro equalityI subsetI)
    fix p assume "p \<in> says ?new sec s"
    then show "p \<in> says obs sec s \<union> says batch sec s" using sub unfolding says_def by fastforce
  next
    fix p assume "p \<in> says obs sec s \<union> says batch sec s"
    then obtain x where "x \<in> set (obs @ batch)" "ob_symbol x = Some s" "ob_sec_id x = Some sec" "p = (ob_isin x, ob_name x)"
      unfolding says_def by auto
    then show "p \<in> says ?new sec s" using new by simp
  qed
qed

text \<open>A reason with the mark names a pair without comparable evidence.\<close>

lemma starts_with_append: "starts_with p s \<longleftrightarrow> (\<exists>r. s = p @ r)"
  by (induction p s rule: starts_with.induct) (auto split: list.splits)

lemma insufficient_kind:
  assumes "clash T obs sec a b = Some k" and "starts_with insufficient_mark (k @ '':'' @ b)"
  shows "k = ''identity_evidence_insufficient''"
proof -
  obtain r where "k @ '':'' @ b = ''identity_evidence_insufficient'' @ '':'' @ r"
    using assms(2) by (auto simp: starts_with_append insufficient_mark_def)
  moreover have "CHR '':'' \<notin> set ''identity_evidence_insufficient''" by simp
  ultimately show ?thesis using reason_parts [OF clash_kind [OF assms(1)]] by blast
qed

lemma dispute_reasons:
  assumes "well_keyed obs"
  shows "f \<in> set (concat (map snd (dispute_of T obs sec))) \<longleftrightarrow>
    (\<exists>a b k. claims obs sec a \<and> claims obs sec b \<and> clash T obs sec a b = Some k \<and> f = k @ '':'' @ b)"
proof -
  have "f \<in> set (concat (map snd (dispute_of T obs sec))) \<longleftrightarrow>
      (\<exists>s \<in> set (claimants obs sec). f \<in> set (failures_of (failing_pairs T obs sec) s))"
    by (simp add: dispute_of_def)
  then show ?thesis unfolding failures_mem [OF assms] Bex_def claimants_claims [OF assms] by blast
qed

text \<open>What a recorded batch leaves in the store: the evidence of the store and of the kept observations.\<close>

lemma record_batch_observations:
  assumes "free = filter (\<lambda>ob. pinned_dispute (el_holds led) ob = None) batch"
  shows "ss_observations (el_store (fst (record_batch T H fresh companies batch led))) =
    fold insert_observation (fst (split_batch T (observations_by_symbol (el_store led)) free)) (ss_observations (el_store led))"
proof -
  have keep: "ss_observations (fst (resolve_securities T H fresh companies st)) = ss_observations st" for st
  proof -
    have step: "ss_observations (fst (resolve_company H fresh D c acc)) = ss_observations (fst acc)" for D c acc
      by (simp add: resolve_company_def Let_def split: prod.split option.split)
    have "ss_observations (fst (fold (resolve_company H fresh D) cs acc)) = ss_observations (fst acc)" for D cs acc
      by (induction cs arbitrary: acc) (simp_all add: step)
    then show ?thesis by (simp add: resolve_securities_def)
  qed
  show ?thesis
    by (simp add: record_batch_def Let_def assms [symmetric] record_observations_def keep split_beta)
qed

lemma kept_says:
  "says (fst (split_batch T recorded free)) sec s \<subseteq> says free sec s"
  unfolding says_split by simp

text \<open>C22: No dispute for want of evidence. When a batch is recorded through the hold rule, a secId that is disputed
  afterwards and was not disputed before is claimed by two securities whose ISIN issuer codes or whose names contradict
  each other, never merely by securities without comparable evidence.\<close>

theorem recorded_batch_contradicts:
  assumes "key_tells (ss_observations (el_store led) @ batch)"
    and "disputed_now T (observations_by_symbol (el_store (fst (record_batch T H fresh companies batch led)))) sec"
    and "\<not> disputed_now T (observations_by_symbol (el_store led)) sec"
  shows "\<exists>a b. claims (observations_by_symbol (el_store (fst (record_batch T H fresh companies batch led)))) sec a \<and>
    claims (observations_by_symbol (el_store (fst (record_batch T H fresh companies batch led)))) sec b \<and>
    clash T (observations_by_symbol (el_store (fst (record_batch T H fresh companies batch led)))) sec a b
      \<in> {Some ''isin_issuer_code_differs'', Some ''name_differs''}"
proof -
  define free obs where "free = filter (\<lambda>ob. pinned_dispute (el_holds led) ob = None) batch" and "obs = ss_observations (el_store led)"
  define kept where "kept = fst (split_batch T (sightings_of obs) free)"
  let ?after = "sightings_of (fold insert_observation kept obs)" and ?union = "merged_sightings (sightings_of obs) (by_symbol kept)"
  have after: "observations_by_symbol (el_store (fst (record_batch T H fresh companies batch led))) = ?after"
    using record_batch_observations [OF free_def] by (simp add: observations_by_symbol_def kept_def obs_def)
  have sub: "set kept \<subseteq> set batch" by (auto simp: kept_def split_batch_def Let_def free_def)
  have "key_tells (obs @ kept)" by (rule key_tells_part [OF _ assms(1)]) (use sub in \<open>auto simp: obs_def\<close>)
  from inserted_says [OF this] have told: "told ?after sec s = told ?union sec s" for s
    by (simp add: told_sightings_of told_merged told_by_symbol)
  note same = same_told [OF told]
  have now: "disputed_now T ?union sec" using assms(2) unfolding after same(3) .
  have before: "\<not> disputed_now T (sightings_of obs) sec" using assms(3) by (simp add: observations_by_symbol_def obs_def)
  have "held_sec_ids T (sightings_of obs) kept = []" using split_batch_keyed [of "sightings_of obs" T free] by (simp add: kept_def)
  then have "\<not> list_all (starts_with insufficient_mark) (concat (map snd (dispute_of T ?union sec)))"
    using held_iff [OF sightings_keyed, of sec T obs kept] now before by simp
  then obtain f where f: "f \<in> set (concat (map snd (dispute_of T ?union sec)))" "\<not> starts_with insufficient_mark f"
    unfolding list_all_iff by blast
  obtain a b k where ab: "claims ?union sec a" "claims ?union sec b" "clash T ?union sec a b = Some k" "f = k @ '':'' @ b"
    using f(1) unfolding dispute_reasons [OF merged_keyed [OF sightings_keyed by_symbol_keyed]] by blast
  have "k \<noteq> ''identity_evidence_insufficient''" using f(2) ab(4) by (auto simp: starts_with_append insufficient_mark_def)
  then have "clash T ?union sec a b \<in> {Some ''isin_issuer_code_differs'', Some ''name_differs''}"
    using ab(3) by (auto simp: clash_by_sets split: if_splits)
  then show ?thesis using ab(1,2) unfolding after same(1,2) by blast
qed

section \<open>A batch that contradicts\<close>

definition first_seen :: "id_observation list" where
  "first_seen = [seen_as ''A'' ''1'' None one_name]"

definition then_seen :: "id_observation list" where
  "then_seen = [seen_as ''B'' ''2'' None two_name]"

definition first_ledger :: evidence_ledger where
  "first_ledger = \<lparr>el_store = empty_issuer_store\<lparr>ss_observations := first_seen\<rparr>, el_holds = []\<rparr>"

lemma first_then_told: "told (merged_sightings (sightings_of first_seen) (by_symbol then_seen)) sec s = told (sightings_of two_names) sec s"
  by (auto simp: told_merged told_by_symbol told_sightings_of says_def first_seen_def then_seen_def two_names_def)

lemma then_seen_kept: "fst (split_batch ascii_issuer_tables (sightings_of first_seen) then_seen) = then_seen"
proof -
  let ?union = "merged_sightings (sightings_of first_seen) (by_symbol then_seen)"
  have "clash ascii_issuer_tables ?union 1 ''A'' ''B'' = Some ''name_differs''" "claims ?union 1 ''A''" "claims ?union 1 ''B''"
    unfolding same_told [OF first_then_told] sample_clashes sample_claims by simp_all
  then have "''name_differs'' @ '':'' @ ''B'' \<in> set (concat (map snd (dispute_of ascii_issuer_tables ?union 1)))"
    unfolding dispute_reasons [OF merged_keyed [OF sightings_keyed by_symbol_keyed]] by blast
  moreover have "\<not> starts_with insufficient_mark (''name_differs'' @ '':'' @ ''B'')" by (simp add: insufficient_mark_def)
  ultimately have "\<not> list_all (starts_with insufficient_mark) (concat (map snd (dispute_of ascii_issuer_tables ?union 1)))"
    unfolding list_all_iff by blast
  then have "1 \<notin> fst ` set (held_sec_ids ascii_issuer_tables (sightings_of first_seen) then_seen)"
    unfolding held_iff [OF sightings_keyed] by blast
  then show ?thesis by (simp add: split_batch_def Let_def is_held_def then_seen_def seen_as_def)
qed

theorem recorded_batch_contradicts_witness:
  "\<exists>a b. clash ascii_issuer_tables (observations_by_symbol (el_store (fst (record_batch ascii_issuer_tables unary_hashes (\<lambda>_. ''issuer'') []
     then_seen first_ledger)))) 1 a b \<in> {Some ''isin_issuer_code_differs'', Some ''name_differs''}"
proof -
  have "ss_observations (el_store (fst (record_batch ascii_issuer_tables unary_hashes (\<lambda>_. ''issuer'') [] then_seen first_ledger))) = two_names"
    using record_batch_observations [OF refl, of ascii_issuer_tables unary_hashes "\<lambda>_. ''issuer''" "[]" then_seen first_ledger] then_seen_kept
    by (simp add: first_ledger_def pinned_dispute_def owner_held_def observations_by_symbol_def)
      (simp add: then_seen_def first_seen_def two_names_def insert_observation_def observation_key_def seen_as_def)
  then have after: "observations_by_symbol (el_store (fst (record_batch ascii_issuer_tables unary_hashes (\<lambda>_. ''issuer'') [] then_seen first_ledger)))
      = sightings_of two_names" by (simp add: observations_by_symbol_def)
  have before: "\<not> disputed_now ascii_issuer_tables (observations_by_symbol (el_store first_ledger)) 1"
    by (auto simp: disputed_now_def observations_by_symbol_def first_ledger_def first_seen_def sightings_sets seen_as_def clash_by_sets sample_values)
  have "key_tells (ss_observations (el_store first_ledger) @ then_seen)"
    by (simp add: key_tells_def first_ledger_def first_seen_def then_seen_def observation_key_def seen_as_def)
  from recorded_batch_contradicts [OF this, where sec = 1 and T = ascii_issuer_tables and H = unary_hashes and fresh = "\<lambda>_. ''issuer''" and companies = "[]"]
  show ?thesis using before unfolding after disputed_two_names by blast
qed

end
