(* ===== verification/Plan.thy ===== *)
theory Plan
  imports Calendar Lifecycle
begin

text \<open>
  The discovery plan of the historical backfill (\<open>backfill_discovery/plan.py\<close>) and the natural keys of its work items
  (\<open>financial_backfill/keys.py\<close>). Dates move a day at a time, as \<open>timedelta\<close> does; a UUID parser and the digests are
  arguments. Years have four digits.
\<close>

section \<open>Colombo months\<close>

fun shift_days :: "nat \<Rightarrow> date \<Rightarrow> date res" where
  "shift_days 0 d = Inr d"
| "shift_days (Suc n) d = bindR (next_day d) (shift_days n)"

text \<open>\<open>d - timedelta(days=1)\<close>\<close>

definition prev_day :: "date \<Rightarrow> date res" where
  "prev_day d =
     (if 1 < day d then Inr (Date (year d) (month d) (day d - 1))
      else if 1 < month d then Inr (Date (year d) (month d - 1) (days_in_month (year d) (month d - 1)))
      else if 1 < year d then Inr (Date (year d - 1) 12 31)
      else Inl Overflow)"

text \<open>\<open>(d.replace(day=28) + timedelta(days=4)).replace(day=1)\<close>\<close>

definition month_after :: "date \<Rightarrow> date res" where
  "month_after d = bindR (shift_days 4 (Date (year d) (month d) 28)) (\<lambda>e. Inr (Date (year e) (month e) 1))"

definition month_end :: "date \<Rightarrow> date res" where
  "month_end d = bindR (month_after d) prev_day"

definition window_refused :: exc where
  "window_refused = Refused ''window''"

text \<open>True for a window that is refused: it is missing, or not a run of whole months.\<close>

definition plan_window_refusals :: "date option \<Rightarrow> date option \<Rightarrow> bool res" where
  "plan_window_refusals first until =
     (case (first, until) of
        (Some f, Some l) \<Rightarrow> if day f \<noteq> 1 then Inr True else bindR (month_end l) (\<lambda>e. Inr (l \<noteq> e \<or> l < f))
      | _ \<Rightarrow> Inr True)"

definition month_index :: "date \<Rightarrow> int" where
  "month_index d = year d * 12 + month d"

lemma shift_days_valid: "valid_date d \<Longrightarrow> shift_days n d = Inr e \<Longrightarrow> valid_date e"
  by (induction n arbitrary: d) (auto simp: bindR_eq_Inr dest: next_day_valid)

lemma month_after_eq:
  assumes "1 \<le> month d" and "month d \<le> 12"
  shows "month_after d = (if month d < 12 then Inr (Date (year d) (month d + 1) 1)
     else if year d < 9999 then Inr (Date (year d + 1) 1 1) else Inl Overflow)"
proof -
  have "28 \<le> days_in_month (year d) (month d)" "days_in_month (year d) (month d) \<le> 31"
    and "28 \<le> days_in_month (year d) (month d + 1)" "28 \<le> days_in_month (year d + 1) 1"
    using days_in_month_bounds by blast+
  then show ?thesis using assms by (auto simp: month_after_def numeral_eq_Suc next_day_def)
qed

function months_loop :: "date \<Rightarrow> date \<Rightarrow> date list res" where
  "months_loop m until =
     (if \<not> (1 \<le> month m \<and> month m \<le> 12) then Inl ValueErr
      else if m \<le> until then (case month_after m of Inl e \<Rightarrow> Inl e
        | Inr n \<Rightarrow> (case months_loop n until of Inl e \<Rightarrow> Inl e | Inr ms \<Rightarrow> Inr (m # ms)))
      else Inr [])"
  by pat_completeness auto
termination
proof (relation "measure (\<lambda>(m, until). nat (year until * 12 + 13 - month_index m))")
  fix m until n
  assume *: "\<not> \<not> (1 \<le> month m \<and> month m \<le> 12)" "m \<le> until" "month_after m = Inr n"
  then have n: "month_index n = month_index m + 1"
    by (auto simp: month_after_eq month_index_def split: if_splits)
  have "year m \<le> year until" using *(2) by (auto simp: less_eq_date_def)
  then show "((n, until), m, until) \<in> measure (\<lambda>(m, until). nat (year until * 12 + 13 - month_index m))"
    using n * by (auto simp: less_eq_date_def month_index_def)
qed auto

declare months_loop.simps [simp del]

definition feed_months :: "date \<Rightarrow> date \<Rightarrow> date list res" where
  "feed_months start until =
     bindR (plan_window_refusals (Some start) (Some until)) (\<lambda>bad. guardR bad window_refused (months_loop start until))"

section \<open>Subjects and their natural keys\<close>

text \<open>A subject with the columns its kind fills.\<close>

record work_subject =
  ws_kind :: string
  ws_key :: string
  ws_month :: "date option"
  ws_symbol :: "string option"
  ws_filing :: "int option"
  ws_path_sha :: "string option"
  ws_run :: "string option"
  ws_issuer :: "string option"
  ws_number :: "int option"

definition bare_subject :: "string \<Rightarrow> string \<Rightarrow> work_subject" where
  "bare_subject kind key = \<lparr>ws_kind = kind, ws_key = kind @ '':'' @ key, ws_month = None, ws_symbol = None, ws_filing = None,
     ws_path_sha = None, ws_run = None, ws_issuer = None, ws_number = None\<rparr>"

definition invalid_key :: exc where
  "invalid_key = Refused ''invalid_key''"

definition month_text :: "date \<Rightarrow> string" where
  "month_text d = zero_pad 4 (nat (year d)) @ ''-'' @ zero_pad 2 (nat (month d))"

definition feed_window :: "int \<Rightarrow> int \<Rightarrow> work_subject res" where
  "feed_window y m =
     (case mk_date y m 1 of Inl e \<Rightarrow> Inl invalid_key
      | Inr first \<Rightarrow> Inr ((bare_subject ''feed_window'' (month_text first))\<lparr>ws_month := Some first\<rparr>))"

text \<open>The first and the last day of a feed month, as texts.\<close>

definition feed_window_dates :: "date \<Rightarrow> (string \<times> string) res" where
  "feed_window_dates m =
     (let first = Date (year m) (month m) 1 in bindR (month_end first) (\<lambda>until. Inr (isoformat first, isoformat until)))"

definition symbol_char :: "char \<Rightarrow> bool" where
  "symbol_char c \<longleftrightarrow> is_upper_letter c \<or> (CHR ''0'' \<le> c \<and> c \<le> CHR ''9'')"

text \<open>\<open>^[A-Z0-9][A-Z0-9.]{0,39}$\<close>\<close>

definition query_symbol :: "string \<Rightarrow> bool" where
  "query_symbol s \<longleftrightarrow> match_line (\<lambda>t. t \<noteq> [] \<and> length t \<le> 40 \<and> symbol_char (hd t) \<and>
     list_all (\<lambda>c. symbol_char c \<or> c = CHR ''.'') (tl t)) s"

definition listing_subject :: "string \<Rightarrow> work_subject res" where
  "listing_subject s =
     guardR (\<not> query_symbol s) invalid_key (Inr ((bare_subject ''listing'' s)\<lparr>ws_symbol := Some s\<rparr>))"

definition document_subject :: "(string \<Rightarrow> string) \<Rightarrow> int \<Rightarrow> string option \<Rightarrow> work_subject res" where
  "document_subject sha fid path =
     (let version = map_option sha path in
      guardR (fid < 1) invalid_key
        (Inr ((bare_subject ''document'' (show_int fid @ '':'' @ (case version of None \<Rightarrow> ''none'' | Some v \<Rightarrow> v)))
           \<lparr>ws_filing := Some fid, ws_path_sha := version\<rparr>)))"

definition numbered_subject :: "string \<Rightarrow> int \<Rightarrow> work_subject res" where
  "numbered_subject kind n = guardR (n < 1) invalid_key (Inr ((bare_subject kind (show_int n))\<lparr>ws_number := Some n\<rparr>))"

definition validate_subject :: "(string \<Rightarrow> string option) \<Rightarrow> string \<Rightarrow> work_subject res" where
  "validate_subject uuid run =
     (case uuid run of None \<Rightarrow> Inl invalid_key | Some r \<Rightarrow> Inr ((bare_subject ''validate'' r)\<lparr>ws_run := Some r\<rparr>))"

definition reconcile_subject :: "(string \<Rightarrow> string option) \<Rightarrow> string option \<Rightarrow> work_subject res" where
  "reconcile_subject uuid issuer =
     (case issuer of None \<Rightarrow> Inr (bare_subject ''reconcile'' ''all_issuers'')
      | Some i \<Rightarrow> (case uuid i of None \<Rightarrow> Inl invalid_key
          | Some r \<Rightarrow> Inr ((bare_subject ''reconcile'' r)\<lparr>ws_issuer := Some r\<rparr>)))"

section \<open>The plan\<close>

text \<open>The provenance of the security master (the capture run it came from) is one text.\<close>

record discovery_plan =
  pl_arming :: int
  pl_window :: "date \<times> date"
  pl_months :: "date list"
  pl_symbols :: "string list"
  pl_master :: string
  pl_keys :: "string list"

definition feed_subject :: "date \<Rightarrow> work_subject res" where
  "feed_subject m = feed_window (year m) (month m)"

definition plan_subjects :: "date list \<Rightarrow> string list \<Rightarrow> work_subject list res" where
  "plan_subjects months symbols =
     bindR (mapR feed_subject months) (\<lambda>fs. bindR (mapR listing_subject symbols) (\<lambda>ls. Inr (fs @ ls)))"

text \<open>\<open>Plan.of\<close>: the window of the arming decision and the symbols of the verified security master.\<close>

definition discovery_plan_of :: "int \<Rightarrow> date option \<Rightarrow> date option \<Rightarrow> string list \<Rightarrow> string \<Rightarrow> discovery_plan res" where
  "discovery_plan_of arming start until symbols master =
     (case (start, until) of
        (Some f, Some l) \<Rightarrow>
          bindR (feed_months f l) (\<lambda>months.
            bindR (plan_subjects months (sort symbols)) (\<lambda>subjects.
              Inr \<lparr>pl_arming = arming, pl_window = (f, l), pl_months = months, pl_symbols = sort symbols, pl_master = master,
                pl_keys = map ws_key subjects\<rparr>))
      | _ \<Rightarrow> Inl window_refused)"

definition in_plan :: "discovery_plan \<Rightarrow> string \<Rightarrow> bool" where
  "in_plan p key \<longleftrightarrow> key \<in> set (pl_keys p)"

definition outside_reason :: "string \<Rightarrow> string" where
  "outside_reason kind = (if kind = ''feed_window'' then ''outside_armed_window'' else ''not_in_verified_security_master'')"

definition plan_identity_rule :: string where
  "plan_identity_rule = ''hb.plan.1''"

text \<open>\<open>identity()\<close> and its fingerprint under a digest of the canonical JSON.\<close>

type_synonym plan_identity = "string \<times> (string \<times> string) \<times> string list"

definition identity_of :: "discovery_plan \<Rightarrow> plan_identity" where
  "identity_of p = (plan_identity_rule, (isoformat (fst (pl_window p)), isoformat (snd (pl_window p))), pl_symbols p)"

definition fingerprint :: "(plan_identity \<Rightarrow> string) \<Rightarrow> discovery_plan \<Rightarrow> string" where
  "fingerprint sha p = sha (identity_of p)"

text \<open>\<open>request_for\<close>: the endpoint and the form fields of a discovery item.\<close>

definition request_for :: "work_subject \<Rightarrow> (string \<times> (string \<times> string) list) res" where
  "request_for w =
     (if ws_kind w = ''feed_window'' then
        (case ws_month w of None \<Rightarrow> Inl ValueErr
         | Some m \<Rightarrow> bindR (feed_window_dates m) (\<lambda>(a, b). Inr (''getFinancialAnnouncement'', [(''fromDate'', a), (''toDate'', b)])))
      else if ws_kind w = ''listing'' then
        (case ws_symbol w of None \<Rightarrow> Inl ValueErr | Some s \<Rightarrow> Inr (''financials'', [(''symbol'', s)]))
      else Inl ValueErr)"

section \<open>The budget of a day\<close>

record budget_state =
  bs_armed :: bool
  bs_remaining :: int
  bs_combined_remaining :: "int option"
  bs_exhausted :: bool

text \<open>\<open>budget_status\<close>: None for no decision; a missing budget is zero, a missing ceiling no limit.\<close>

definition budget_status :: "(bool \<times> int option \<times> int option) option \<Rightarrow> int \<Rightarrow> int \<Rightarrow> budget_state" where
  "budget_status arming phase2 p2 =
     (let (armed, budget, ceiling) = (case arming of Some (True, b, c) \<Rightarrow> (True, b, c) | _ \<Rightarrow> (False, Some 0, None));
          remaining = max 0 ((case budget of None \<Rightarrow> 0 | Some b \<Rightarrow> b) - phase2);
          combined = map_option (\<lambda>c. max 0 (c - phase2 - p2)) ceiling
      in \<lparr>bs_armed = armed, bs_remaining = remaining, bs_combined_remaining = combined,
          bs_exhausted = (remaining = 0 \<or> combined = Some 0)\<rparr>)"

end
