(* ===== verification/Closure.thy ===== *)
theory Closure
  imports Plan Holds
begin

text \<open>
  Discovery planning, closure and the closure pass (\<open>backfill_discovery/discovery.py\<close>, \<open>identity.py\<close>,
  \<open>security_master.py\<close>): the arming a discovery needs, the state of an item after an attempt, the items of the current
  plan in the ledger, whether the plan is closed, and the pass that records the issuer evidence of a closed plan once.
  The evidence batch and the filings of the window are read from the archive and are arguments.
\<close>

section \<open>Settings\<close>

record discovery_arming =
  da_id :: int
  da_armed :: bool
  da_stages :: "string list"
  da_attempts :: "int option"
  da_item_max :: "int option"
  da_first :: "date option"
  da_until :: "date option"
  da_max_age :: "int list"

definition discovery_stage :: string where
  "discovery_stage = ''HB-S2''"

definition attempts_per_json_request :: int where
  "attempts_per_json_request = 1"

definition item_max_attempts :: int where
  "item_max_attempts = 3"

definition security_master_max_age_days :: int where
  "security_master_max_age_days = 7"

text \<open>The codes of the refusals; \<open>da_max_age\<close> are the integer bounds among the stop conditions.\<close>

definition config_refusals :: "discovery_arming option \<Rightarrow> string list res" where
  "config_refusals arming =
     (case arming of None \<Rightarrow> Inr [''disarmed'']
      | Some a \<Rightarrow>
         if \<not> da_armed a then Inr [''disarmed'']
         else bindR (plan_window_refusals (da_first a) (da_until a)) (\<lambda>bad. Inr
           ((if discovery_stage \<notin> set (da_stages a) then [''stage''] else []) @
            (if da_attempts a \<noteq> Some attempts_per_json_request then [''d_hb3_1''] else []) @
            (case da_item_max a of None \<Rightarrow> [''d_hb3_1''] | Some m \<Rightarrow> if 1 \<le> m \<and> m \<le> item_max_attempts then [] else [''d_hb3_1'']) @
            (if bad then [''window''] else []))))"

definition max_age_days :: "discovery_arming option \<Rightarrow> int" where
  "max_age_days arming =
     foldl (\<lambda>bound v. if 0 < v \<and> v < bound then v else bound) security_master_max_age_days
       (case arming of None \<Rightarrow> [] | Some a \<Rightarrow> da_max_age a)"

text \<open>One security result of the derived run: its symbol and the ticker of its company. Which are planned.\<close>

definition planned_symbols :: "string list \<Rightarrow> (string \<times> string option) list \<Rightarrow> string list" where
  "planned_symbols body rows =
     sort (List.map_filter (\<lambda>(s, ticker). if ticker = Some s \<and> s \<in> set body \<and> query_symbol s then Some s else None) rows)"

definition master_refusals :: "instant \<Rightarrow> discovery_arming option \<Rightarrow> instant \<Rightarrow> string list option \<Rightarrow> (string \<times> string option) list \<Rightarrow> string list" where
  "master_refusals wall arming observed_at body rows =
     (if wall < observed_at then [''hb_p1_clock'']
      else if max_age_days arming * day_us < wall - observed_at then [''hb_p1_stale''] else []) @
     (case body of None \<Rightarrow> [''hb_p1_body''] | Some b \<Rightarrow> if b = [] then [''hb_p1_body''] else []) @
     (if planned_symbols (case body of None \<Rightarrow> [] | Some b \<Rightarrow> b) rows = [] then [''hb_p1_universe''] else [])"

definition security_master ::
  "instant \<Rightarrow> discovery_arming option \<Rightarrow> instant \<Rightarrow> string list option \<Rightarrow> (string \<times> string option) list \<Rightarrow> string list res" where
  "security_master wall arming observed_at body rows =
     guardR (master_refusals wall arming observed_at body rows \<noteq> []) (Refused ''security_master'')
       (Inr (planned_symbols (case body of None \<Rightarrow> [] | Some b \<Rightarrow> b) rows))"

section \<open>One recorded attempt\<close>

definition f1_success :: "string list" where
  "f1_success = [''succeeded'', ''partial'']"

definition live_state :: "string \<Rightarrow> string \<Rightarrow> int \<Rightarrow> int \<Rightarrow> string" where
  "live_state outcome_class f1_status claims item_max =
     (if outcome_class = ''block'' then ''blocked''
      else if outcome_class = ''ok'' \<and> f1_status \<in> set f1_success then f1_status
      else if outcome_class = ''retryable'' \<and> claims < item_max then ''retry_wait''
      else ''failed'')"

text \<open>A failure yields to an F1 run of the same request that succeeded, whichever attempt it came from.\<close>

definition evidence_wins :: "string option \<Rightarrow> string \<Rightarrow> string" where
  "evidence_wins success state = (if state = ''failed'' then (case success of None \<Rightarrow> ''failed'' | Some s \<Rightarrow> s) else state)"

definition discovery_rows :: "ledger \<Rightarrow> ledger_item list" where
  "discovery_rows l = sort_key li_key (filter (\<lambda>i. li_kind i \<in> set discovery_kinds) (lg_items l))"

definition item_state :: "ledger_item \<Rightarrow> string" where
  "item_state i = le_state (li_current i)"

text \<open>Plan items that may be claimed now: feed months first.\<close>

definition eligible_items :: "discovery_plan \<Rightarrow> nat \<Rightarrow> string list \<Rightarrow> ledger \<Rightarrow> ledger_item list" where
  "eligible_items p item_max attempted l =
     sort_key (\<lambda>i. (li_kind i \<noteq> ''feed_window'', li_key i))
       (filter (\<lambda>i. item_state i \<in> {''pending'', ''retry_wait''} \<and> li_key i \<notin> set attempted \<and> in_plan p (li_key i) \<and>
          claims_since_requeue i < item_max) (discovery_rows l))"

section \<open>Planning and closure\<close>

fun ensure_all :: "work_subject list \<Rightarrow> ledger \<Rightarrow> (ledger \<times> work_subject list) res" where
  "ensure_all [] l = Inr (l, [])"
| "ensure_all (w # ws) l =
     bindR (ensure_item (ws_kind w) (ws_key w) None None l) (\<lambda>(l1, i, created).
       bindR (ensure_all ws l1) (\<lambda>(l2, made). Inr (l2, if created then w # made else made)))"

text \<open>\<open>create_plan_items\<close> after its gates: the ledger, and how many feed months, listings and existing items.\<close>

definition create_plan_items :: "discovery_plan \<Rightarrow> ledger \<Rightarrow> (ledger \<times> nat \<times> nat \<times> nat) res" where
  "create_plan_items p l =
     bindR (plan_subjects (pl_months p) (pl_symbols p)) (\<lambda>subjects.
       bindR (ensure_all subjects l) (\<lambda>(l1, made).
         Inr (l1, length (filter (\<lambda>w. ws_kind w = ''feed_window'') made), length (filter (\<lambda>w. ws_kind w = ''listing'') made),
           length subjects - length made)))"

record closure_status =
  cs_final :: "string list"
  cs_non_final :: "(string \<times> string) list"
  cs_missing :: "string list"
  cs_out_of_plan :: "(string \<times> string \<times> bool \<times> string) list"

definition discovery_final :: "string list" where
  "discovery_final = final_states_of ''listing''"

definition closure_of :: "discovery_plan \<Rightarrow> ledger \<Rightarrow> closure_status" where
  "closure_of p l =
     (let rows = discovery_rows l; inside = filter (\<lambda>i. in_plan p (li_key i)) rows in
      \<lparr>cs_final = map li_key (filter (\<lambda>i. item_state i \<in> set discovery_final) inside),
       cs_non_final = map (\<lambda>i. (li_key i, item_state i)) (filter (\<lambda>i. item_state i \<notin> set discovery_final) inside),
       cs_missing = sorted_set (filter (\<lambda>k. k \<notin> set (map li_key inside)) (pl_keys p)),
       cs_out_of_plan = map (\<lambda>i. (li_key i, item_state i, item_state i \<in> set discovery_final, outside_reason (li_kind i)))
         (filter (\<lambda>i. \<not> in_plan p (li_key i)) rows)\<rparr>)"

definition plan_closed :: "discovery_plan \<Rightarrow> closure_status \<Rightarrow> bool" where
  "plan_closed p c \<longleftrightarrow> pl_keys p \<noteq> [] \<and> cs_non_final c = [] \<and> cs_missing c = []"

section \<open>The closure pass\<close>

text \<open>A link pass with its number, its kind, the fingerprint of its plan and whether it is succeeded (or pending: nothing
  records another state of a pass).\<close>

record link_pass =
  lp_no :: int
  lp_kind :: string
  lp_fingerprint :: string
  lp_done :: bool

record discovery_state =
  ds_ledger :: ledger
  ds_passes :: "link_pass list"
  ds_evidence :: evidence_ledger

definition link_pass_identity :: int where
  "link_pass_identity = 1"

definition link_pass_first_plan :: int where
  "link_pass_first_plan = 2"

definition next_pass_number :: "link_pass list \<Rightarrow> int" where
  "next_pass_number passes = max (fold max (map lp_no passes) 0 + 1) link_pass_first_plan"

text \<open>\<open>plan_passes\<close>, lowest number first, and the pass of a plan.\<close>

definition plan_passes :: "string \<Rightarrow> string \<Rightarrow> link_pass list \<Rightarrow> link_pass list" where
  "plan_passes kind fp passes = sort_key lp_no (filter (\<lambda>p. lp_kind p = kind \<and> lp_fingerprint p = fp) passes)"

definition ie4_pass :: "string \<Rightarrow> link_pass list \<Rightarrow> link_pass option" where
  "ie4_pass fp passes = (case plan_passes ''ie4'' fp passes of [] \<Rightarrow> None | p # ps \<Rightarrow> Some p)"

definition new_pass :: "string \<Rightarrow> string \<Rightarrow> link_pass list \<Rightarrow> link_pass" where
  "new_pass kind fp passes = \<lparr>lp_no = next_pass_number passes, lp_kind = kind, lp_fingerprint = fp, lp_done = False\<rparr>"

definition pass_done :: "int \<Rightarrow> link_pass list \<Rightarrow> link_pass list" where
  "pass_done n passes = map (\<lambda>p. if lp_no p = n then p\<lparr>lp_done := True\<rparr> else p) passes"

definition identity_done :: "link_pass list \<Rightarrow> bool" where
  "identity_done passes = list_ex (\<lambda>p. lp_no p = link_pass_identity \<and> lp_done p) passes"

text \<open>The operator's \<open>requeue\<close> of a link pass (\<open>backfill_ops/actions.py\<close>): a succeeded one, with a reason, is pending again.\<close>

definition requeue_pass :: "int \<Rightarrow> string \<Rightarrow> discovery_state \<Rightarrow> discovery_state res" where
  "requeue_pass n reason st =
     (case find (\<lambda>p. lp_no p = n) (ds_passes st) of
        None \<Rightarrow> Inl (Refused ''item'')
      | Some p \<Rightarrow>
         guardR (\<not> lp_done p) (Refused ''requeue'')
         (guardR (check_transition ''link_pass'' ''succeeded'' ''pending'' ''requeue'' (Some reason) \<noteq> Inr ()) (Refused ''reason'')
         (Inr (st\<lparr>ds_passes := map (\<lambda>p. if lp_no p = n then p\<lparr>lp_done := False\<rparr> else p) (ds_passes st)\<rparr>))))"

datatype pass_result = AlreadyPassed int | Passed int batch_result link_counts

text \<open>A refused pass, or one whose filing is gone, returns no state here; what it had committed is recorded again, without
  effect, by the next pass. What the pass reads: the batch of the listing responses and the filings of the window.\<close>

record pass_input =
  pi_companies :: "string list"
  pi_batch :: "id_observation list"
  pi_filings :: "(int \<times> (ustr option \<times> string list) option) list"

definition record_and_link ::
  "tables \<Rightarrow> hashes \<Rightarrow> (int \<Rightarrow> string) \<Rightarrow> pass_input \<Rightarrow> int \<Rightarrow> discovery_state \<Rightarrow> (discovery_state \<times> pass_result) res" where
  "record_and_link T H fresh inp n st =
     (let (ev, res) = record_batch T H fresh (pi_companies inp) (pi_batch inp) (ds_evidence st) in
      bindR (link_window T H (pi_filings inp) (el_store ev)) (\<lambda>(store, counts).
        Inr (st\<lparr>ds_passes := pass_done n (ds_passes st), ds_evidence := ev\<lparr>el_store := store\<rparr>\<rparr>, Passed n res counts)))"

text \<open>\<open>closure_pass\<close> after its gates, for the plan of the arming in force.\<close>

definition closure_pass ::
  "tables \<Rightarrow> hashes \<Rightarrow> (int \<Rightarrow> string) \<Rightarrow> (plan_identity \<Rightarrow> string) \<Rightarrow> discovery_plan \<Rightarrow> pass_input \<Rightarrow> discovery_state \<Rightarrow>
     (discovery_state \<times> pass_result) res" where
  "closure_pass T H fresh sha p inp st =
     guardR (\<not> identity_done (ds_passes st)) (Refused ''order'')
     (guardR (\<not> plan_closed p (closure_of p (ds_ledger st))) (Refused ''closure'')
     (let fp = fingerprint sha p;
          passes = (case ie4_pass fp (ds_passes st) of None \<Rightarrow> ds_passes st @ [new_pass ''ie4'' fp (ds_passes st)] | Some q \<Rightarrow> ds_passes st)
      in (case ie4_pass fp passes of
            None \<Rightarrow> Inl (Refused ''link_pass'')
          | Some q \<Rightarrow> if lp_done q then Inr (st, AlreadyPassed (lp_no q))
              else record_and_link T H fresh inp (lp_no q) (st\<lparr>ds_passes := passes\<rparr>))))"

text \<open>\<open>identity_pass\<close>: the first link pass, over the batch of the qualifying sweeps; None when no sweep qualifies.\<close>

definition identity_pass ::
  "tables \<Rightarrow> hashes \<Rightarrow> (int \<Rightarrow> string) \<Rightarrow> string list \<Rightarrow> id_observation list option \<Rightarrow> discovery_state \<Rightarrow>
     (discovery_state \<times> batch_result option) res" where
  "identity_pass T H fresh companies sweeps st =
     (case sweeps of None \<Rightarrow> Inl (Refused ''ie2'')
      | Some batch \<Rightarrow>
         if identity_done (ds_passes st) then Inr (st, None)
         else
           (let passes = (if list_ex (\<lambda>p. lp_no p = link_pass_identity) (ds_passes st) then ds_passes st
              else ds_passes st @ [\<lparr>lp_no = link_pass_identity, lp_kind = ''identity'', lp_fingerprint = [], lp_done = False\<rparr>]);
                (ev, res) = record_batch T H fresh companies batch (ds_evidence st)
            in Inr (st\<lparr>ds_passes := pass_done link_pass_identity passes, ds_evidence := ev\<rparr>, Some res)))"

text \<open>\<open>late_pass\<close>: later sweeps and the owner's resolutions, once the pass of the current plan has succeeded.\<close>

definition late_pass ::
  "tables \<Rightarrow> hashes \<Rightarrow> (int \<Rightarrow> string) \<Rightarrow> (plan_identity \<Rightarrow> string) \<Rightarrow> discovery_plan \<Rightarrow> pass_input \<Rightarrow> discovery_state \<Rightarrow>
     (discovery_state \<times> pass_result) res" where
  "late_pass T H fresh sha p inp st =
     (let fp = fingerprint sha p in
      case ie4_pass fp (ds_passes st) of
        None \<Rightarrow> Inl (Refused ''order'')
      | Some q \<Rightarrow>
         guardR (\<not> lp_done q) (Refused ''order'')
         (let new = new_pass ''late'' fp (ds_passes st);
              (ev1, res) = record_batch T H fresh (pi_companies inp) (pi_batch inp) (ds_evidence st);
              (ev2, kept) = apply_resolutions T ev1;
              (store, counts) = resolve_securities T H fresh (pi_companies inp) (el_store ev2)
          in bindR (link_window T H (pi_filings inp) store) (\<lambda>(store2, links).
            Inr (st\<lparr>ds_passes := pass_done (lp_no new) (ds_passes st @ [new]), ds_evidence := ev2\<lparr>el_store := store2\<rparr>\<rparr>,
              Passed (lp_no new) res links))))"

end
