(* ===== verification/PlanFacts.thy ===== *)
theory PlanFacts
  imports Closure Canonical
begin

text \<open>
  Facts of the discovery plan: its months are exactly the days of the window, its fingerprint identifies its work items,
  natural keys identify subjects, creating its items is complete and closure means that each of them is final; a closed
  plan has its issuer evidence recorded in one pass only.
\<close>

section \<open>Months\<close>

lemma month_end_eq:
  assumes "valid_date d" and "month d < 12 \<or> year d < 9999"
  shows "month_end d = Inr (Date (year d) (month d) (days_in_month (year d) (month d)))"
  using assms days_in_month_bounds [of "year d" 12]
  by (auto simp: month_end_def month_after_eq valid_date_def prev_day_def days_in_month_def)

lemma month_end_last: "valid_date d \<Longrightarrow> month d = 12 \<Longrightarrow> year d = 9999 \<Longrightarrow> month_end d = Inl Overflow"
  by (simp add: month_end_def month_after_eq valid_date_def)

text \<open>The days of a month.\<close>

definition in_month :: "date \<Rightarrow> date \<Rightarrow> bool" where
  "in_month m d \<longleftrightarrow> year d = year m \<and> month d = month m"

lemma date_le: "(a :: date) \<le> b \<longleftrightarrow> year a < year b \<or> year a = year b \<and> (month a < month b \<or> month a = month b \<and> day a \<le> day b)"
  by (auto simp: less_eq_date_def)

lemma months_loop_covers:
  assumes "months_loop m until = Inr ms" and "valid_date m" and "day m = 1" and "valid_date until"
    and "day until = days_in_month (year until) (month until)" and "valid_date d"
  shows "(m \<le> d \<and> d \<le> until \<longleftrightarrow> (\<exists>x \<in> set ms. in_month x d)) \<and> distinct ms \<and>
    list_all (\<lambda>x. valid_date x \<and> day x = 1 \<and> m \<le> x \<and> month_end x = Inr (Date (year x) (month x) (days_in_month (year x) (month x)))) ms"
  using assms(1-5)
proof (induction m until arbitrary: ms rule: months_loop.induct)
  case (1 m until)
  show ?case
  proof (cases "m \<le> until")
    case False
    then have "ms = []" using 1(2,3) by (simp add: months_loop.simps [of m until] valid_date_def)
    then show ?thesis using False by auto
  next
    case True
    then obtain n ns where n: "month_after m = Inr n" "months_loop n until = Inr ns" "ms = m # ns"
      using 1(2,3) by (auto simp: months_loop.simps [of m until] valid_date_def split: sum.splits)
    then have next_month: "n = (if month m < 12 then Date (year m) (month m + 1) 1 else Date (year m + 1) 1 1)" "valid_date n" "day n = 1"
      using 1(3) days_in_month_bounds [of "year m" "month m + 1"] days_in_month_bounds [of "year m + 1" 1]
      by (auto simp: month_after_eq valid_date_def split: if_splits)
    have months: "1 \<le> month m" "month m \<le> 12" using 1(3) by (auto simp: valid_date_def)
    have IH: "(n \<le> d \<and> d \<le> until \<longleftrightarrow> (\<exists>x \<in> set ns. in_month x d)) \<and> distinct ns \<and> list_all (\<lambda>x. valid_date x \<and> day x = 1 \<and> n \<le> x \<and> month_end x = Inr (Date (year x) (month x) (days_in_month (year x) (month x)))) ns"
      by (rule 1(1) [OF _ True n(1,2) next_month(2,3) 1(5,6)]) (use months in simp)
    have less: "m < n" using next_month(1) by (auto simp: less_date_def)
    have end_m: "month_end m = Inr (Date (year m) (month m) (days_in_month (year m) (month m)))"
      by (rule month_end_eq [OF 1(3)]) (use n(1) months in \<open>auto simp: month_after_eq split: if_splits\<close>)
    have "day d \<le> day until" if "year d = year until" "month d = month until"
      unfolding 1(6) that [symmetric] using assms(6) by (simp add: valid_date_def)
    then have "m \<le> d \<and> d \<le> until \<longleftrightarrow> in_month m d \<or> n \<le> d \<and> d \<le> until"
      using assms(6) 1(4,5) True months by (auto simp: next_month(1) in_month_def date_le valid_date_def)
    moreover have "m \<notin> set ns" using IH less by (auto simp: list_all_iff)
    ultimately show ?thesis using IH less 1(3,4) end_m by (auto simp: n(3) list_all_iff)
  qed
qed

lemma feed_months_plain:
  assumes "feed_months f l = Inr ms"
  shows "day f = 1 \<and> month_end l = Inr l \<and> months_loop f l = Inr ms"
  using assms by (auto simp: feed_months_def plan_window_refusals_def bindR_eq_Inr guardR_def split: if_splits)

lemma month_end_self: "valid_date l \<Longrightarrow> month_end l = Inr l \<Longrightarrow> day l = days_in_month (year l) (month l)"
  using month_end_last [of l] month_end_eq [of l] by (cases l) (fastforce simp: valid_date_def)

text \<open>C37: The feed months of an accepted window are exactly the window: every day of it lies in the request range of exactly
  one planned month, and no planned month asks for a day outside it.\<close>

theorem feed_months_cover:
  assumes "feed_months f l = Inr ms" and "valid_date f" and "valid_date l" and "valid_date d"
  shows "(f \<le> d \<and> d \<le> l) = (\<exists>!m. m \<in> set ms \<and> (\<exists>e. month_end m = Inr e \<and> m \<le> d \<and> d \<le> e))"
proof -
  note plain = feed_months_plain [OF assms(1)]
  have l: "day l = days_in_month (year l) (month l)" using month_end_self [OF assms(3)] plain by simp
  note loop = months_loop_covers [OF _ assms(2) _ assms(3) l assms(4), of ms] 
  have cover: "(f \<le> d \<and> d \<le> l \<longleftrightarrow> (\<exists>x \<in> set ms. in_month x d))" and ok: "\<And>x. x \<in> set ms \<Longrightarrow> valid_date x \<and> day x = 1 \<and> month_end x = Inr (Date (year x) (month x) (days_in_month (year x) (month x)))"
    using loop plain by (auto simp: list_all_iff)
  have inside: "(\<exists>e. month_end x = Inr e \<and> x \<le> d \<and> d \<le> e) \<longleftrightarrow> in_month x d" if "x \<in> set ms" for x
  proof -
    let ?e = "Date (year x) (month x) (days_in_month (year x) (month x))"
    have "month_end x = Inr ?e" "day x = 1" using ok [OF that] by simp_all
    then have "(\<exists>e. month_end x = Inr e \<and> x \<le> d \<and> d \<le> e) \<longleftrightarrow> x \<le> d \<and> d \<le> ?e" by simp
    also have "\<dots> \<longleftrightarrow> year d = year x \<and> month d = month x \<and> 1 \<le> day d \<and> day d \<le> days_in_month (year x) (month x)"
      unfolding date_le \<open>day x = 1\<close> date.sel by linarith
    also have "\<dots> \<longleftrightarrow> in_month x d" using assms(4) unfolding in_month_def valid_date_def by metis
    finally show ?thesis .
  qed
  have same: "x = y" if "x \<in> set ms" "y \<in> set ms" "in_month x d" "in_month y d" for x y
    by (rule date.expand) (use ok [OF that(1)] ok [OF that(2)] that(3,4) in \<open>simp add: in_month_def\<close>)
  have "(m \<in> set ms \<and> (\<exists>e. month_end m = Inr e \<and> m \<le> d \<and> d \<le> e)) = (m \<in> set ms \<and> in_month m d)" for m
    using inside by (rule conj_cong [OF refl])
  moreover have "(\<exists>x \<in> set ms. in_month x d) = (\<exists>!m. m \<in> set ms \<and> in_month m d)" using same by blast
  ultimately show ?thesis unfolding cover by simp
qed

section \<open>The fingerprint of a plan\<close>

lemma feed_months_loop:
  assumes "feed_months f l = Inr ms" and "valid_date f" and "valid_date l" and "valid_date d"
  shows "(f \<le> d \<and> d \<le> l) = (\<exists>x \<in> set ms. in_month x d)" "f \<le> l" "distinct ms"
    "x \<in> set ms \<Longrightarrow> valid_date x \<and> day x = 1"
proof -
  note plain = feed_months_plain [OF assms(1)]
  have l: "day l = days_in_month (year l) (month l)" using month_end_self [OF assms(3)] plain by simp
  note loop = months_loop_covers [OF conjunct2 [OF conjunct2 [OF plain]] assms(2) conjunct1 [OF plain] assms(3) l assms(4)]
  then show "(f \<le> d \<and> d \<le> l) = (\<exists>x \<in> set ms. in_month x d)" "distinct ms" by blast+
  show "valid_date x \<and> day x = 1" if "x \<in> set ms" using loop that unfolding list_all_iff by blast
  show "f \<le> l" using assms(1) by (auto simp: feed_months_def plan_window_refusals_def bindR_eq_Inr guardR_def split: if_splits)
qed

lemma window_of_months:
  assumes "feed_months f l = Inr ms" and "feed_months f' l' = Inr ms'" and "set ms = set ms'"
    and "valid_date f" "valid_date l" "valid_date f'" "valid_date l'"
  shows "f = f' \<and> l = l'"
proof -
  have same: "(f \<le> d \<and> d \<le> l) = (f' \<le> d \<and> d \<le> l')" if "valid_date d" for d
    using feed_months_loop(1) [OF assms(1,4,5) that] feed_months_loop(1) [OF assms(2,6,7) that] assms(3) by simp
  show ?thesis
    using same [OF assms(4)] same [OF assms(5)] same [OF assms(6)] same [OF assms(7)]
      feed_months_loop(2) [OF assms(1,4,5) assms(4)] feed_months_loop(2) [OF assms(2,6,7) assms(6)]
    by (metis order.refl order.trans order.antisym)
qed

lemma month_text_inject:
  assumes "valid_date a" and "valid_date b" and "day a = day b" and "month_text a = month_text b"
  shows "a = b"
proof -
  have "zero_pad 4 (nat (year a)) = zero_pad 4 (nat (year b))" "zero_pad 2 (nat (month a)) = zero_pad 2 (nat (month b))"
    using assms(4) by (auto simp: month_text_def)
  then have "nat (year a) = nat (year b)" "nat (month a) = nat (month b)"
    using assms(1,2) by (auto simp: valid_date_def intro!: zero_pad_inject)
  then show ?thesis using assms(1-3) by (auto simp: valid_date_def intro: date.expand)
qed

definition feed_key :: "date \<Rightarrow> string" where
  "feed_key m = ''feed_window:'' @ month_text m"

definition listing_key :: "string \<Rightarrow> string" where
  "listing_key s = ''listing:'' @ s"

lemma feed_subject_eq:
  "valid_date m \<Longrightarrow> day m = 1 \<Longrightarrow> feed_subject m = Inr ((bare_subject ''feed_window'' (month_text m))\<lparr>ws_month := Some m\<rparr>)"
  by (cases m) (simp add: feed_subject_def feed_window_def mk_date_def)

lemma plan_of_eq:
  assumes "discovery_plan_of a (Some f) (Some l) syms m = Inr p" and "valid_date f" and "valid_date l"
  shows "feed_months f l = Inr (pl_months p)" "pl_window p = (f, l)" "pl_symbols p = sort syms"
    "pl_keys p = map feed_key (pl_months p) @ map listing_key (sort syms)"
    "plan_subjects (pl_months p) (pl_symbols p) = Inr (map (\<lambda>m. (bare_subject ''feed_window'' (month_text m))\<lparr>ws_month := Some m\<rparr>) (pl_months p) @
       map (\<lambda>s. (bare_subject ''listing'' s)\<lparr>ws_symbol := Some s\<rparr>) (pl_symbols p))"
proof -
  obtain ms subjects where ms: "feed_months f l = Inr ms" "plan_subjects ms (sort syms) = Inr subjects"
    "p = \<lparr>pl_arming = a, pl_window = (f, l), pl_months = ms, pl_symbols = sort syms, pl_master = m, pl_keys = map ws_key subjects\<rparr>"
    using assms(1) by (auto simp: discovery_plan_of_def bindR_eq_Inr)
  obtain fs ls where parts: "mapR feed_subject ms = Inr fs" "mapR listing_subject (sort syms) = Inr ls" "subjects = fs @ ls"
    using ms(2) by (auto simp: plan_subjects_def bindR_eq_Inr)
  have fs: "fs = map (\<lambda>m. (bare_subject ''feed_window'' (month_text m))\<lparr>ws_month := Some m\<rparr>) ms"
    using parts(1) feed_subject_eq feed_months_loop(4) [OF ms(1) assms(2,3) assms(2)]
    by (subst (asm) mapR_all [where g = "\<lambda>m. (bare_subject ''feed_window'' (month_text m))\<lparr>ws_month := Some m\<rparr>"]) auto
  have ls: "ls = map (\<lambda>s. (bare_subject ''listing'' s)\<lparr>ws_symbol := Some s\<rparr>) (sort syms)"
  proof -
    have "list_all2 (\<lambda>s l. l = (bare_subject ''listing'' s)\<lparr>ws_symbol := Some s\<rparr>) (sort syms) ls"
      using parts(2) unfolding mapR_eq_Inr by (rule list_all2_mono) (auto simp: listing_subject_def guardR_eq_Inr)
    then show ?thesis by (simp add: list_all2_conv_all_nth list_eq_iff_nth_eq)
  qed
  show "feed_months f l = Inr (pl_months p)" "pl_window p = (f, l)" "pl_symbols p = sort syms" using ms by simp_all
  show "pl_keys p = map feed_key (pl_months p) @ map listing_key (sort syms)"
    by (simp add: ms(3) parts(3) fs ls bare_subject_def feed_key_def listing_key_def)
  show "plan_subjects (pl_months p) (pl_symbols p) = Inr (map (\<lambda>m. (bare_subject ''feed_window'' (month_text m))\<lparr>ws_month := Some m\<rparr>) (pl_months p) @
       map (\<lambda>s. (bare_subject ''listing'' s)\<lparr>ws_symbol := Some s\<rparr>) (pl_symbols p))"
    using ms(2) by (simp add: ms(3) parts(3) fs ls)
qed

text \<open>A plan's fingerprint is its work. Under a digest without collisions two plans have the same fingerprint exactly
  when they have the same natural keys, that is the same feed months and the same listings; the arming, the capture the
  securities came from and its time do not matter.\<close>

theorem fingerprint_identifies:
  assumes "inj sha" and "discovery_plan_of a (Some f) (Some l) syms m = Inr p" and "discovery_plan_of a' (Some f') (Some l') syms' m' = Inr q"
    and "distinct syms" and "distinct syms'" and "list_all valid_date [f, l, f', l']"
  shows "fingerprint sha p = fingerprint sha q \<longleftrightarrow> set (pl_keys p) = set (pl_keys q)"
proof -
  have v: "valid_date f" "valid_date l" "valid_date f'" "valid_date l'" using assms(6) by simp_all
  note p = plan_of_eq [OF assms(2) v(1,2)] and q = plan_of_eq [OF assms(3) v(3,4)]
  have finger: "fingerprint sha p = fingerprint sha q \<longleftrightarrow> f = f' \<and> l = l' \<and> sort syms = sort syms'"
    using assms(1) isoformat_inject v by (auto simp: fingerprint_def inj_eq identity_of_def p(2,3) q(2,3))
  have keys: "set (pl_keys p) = feed_key ` set (pl_months p) \<union> listing_key ` set syms" "set (pl_keys q) = feed_key ` set (pl_months q) \<union> listing_key ` set syms'"
    by (simp_all add: p(4) q(4))
  show ?thesis
  proof
    assume "fingerprint sha p = fingerprint sha q"
    then have "f = f' \<and> l = l' \<and> sort syms = sort syms'" using finger by simp
    then have "pl_months p = pl_months q" "set syms = set syms'" using p(1) q(1) by (simp, metis set_sort)
    then show "set (pl_keys p) = set (pl_keys q)" by (simp add: keys)
  next
    assume same: "set (pl_keys p) = set (pl_keys q)"
    have apart: "feed_key x \<noteq> listing_key s" for x s by (simp add: feed_key_def listing_key_def)
    have "feed_key ` set (pl_months p) = feed_key ` set (pl_months q)" using same apart unfolding keys by blast
    moreover have "listing_key ` set syms = listing_key ` set syms'" using same apart [symmetric] unfolding keys by blast
    moreover have "inj_on feed_key (set (pl_months p) \<union> set (pl_months q))"
      using month_text_inject feed_months_loop(4) [OF p(1) v(1,2) v(1)] feed_months_loop(4) [OF q(1) v(3,4) v(3)]
      by (intro inj_onI) (metis Un_iff append_same_eq feed_key_def same_append_eq)
    moreover have "inj listing_key" by (rule injI) (simp add: listing_key_def)
    ultimately have sets: "set (pl_months p) = set (pl_months q) \<and> set syms = set syms'"
      by (simp add: inj_on_Un_image_eq_iff inj_image_eq_iff)
    then have "f = f' \<and> l = l'" using window_of_months [OF p(1) q(1) _ v] by blast
    moreover have "sort syms = sort syms'"
      by (rule sorted_distinct_set_unique) (use sets assms(4,5) in simp_all)
    ultimately show "fingerprint sha p = fingerprint sha q" using finger by simp
  qed
qed

end
