(* ===== verification/Recovery.thy ===== *)
theory Recovery
  imports Closure
begin

text \<open>
  The discovery slice (\<open>backfill_discovery/discovery.py\<close>): one governed request for one plan item, the event it records,
  and the reconciliation that opens a slice: abandoned items are promoted from evidence and items at their maximum end
  without a request (G10). Which F1 run of an item's request succeeded is an argument by natural key; F1's runs, the
  details of events and the wording of most reasons are not modelled.
\<close>

section \<open>Events\<close>

fun append_events :: "string \<Rightarrow> ledger_event list \<Rightarrow> ledger \<Rightarrow> ledger res" where
  "append_events key [] l = Inr l"
| "append_events key (e # es) l = bindR (append_event key e l) (append_events key es)"

definition state_of :: "ledger \<Rightarrow> string \<Rightarrow> string res" where
  "state_of l key = (case item_named l key of None \<Rightarrow> Inl ledger_error | Some i \<Rightarrow> Inr (item_state i))"

definition claims_of :: "ledger \<Rightarrow> string \<Rightarrow> int" where
  "claims_of l key = (case item_named l key of None \<Rightarrow> 0 | Some i \<Rightarrow> int (claims_since_requeue i))"

text \<open>\<open>accounting.open_attempts\<close>: attempts of the item without an outcome.\<close>

definition open_attempts_of :: "ledger \<Rightarrow> string \<Rightarrow> int list" where
  "open_attempts_of l key = map at_id (filter (\<lambda>a. at_id a \<notin> set (map fst (lg_outcomes l))) (attempts_of l key))"

section \<open>Reconciliation\<close>

type_synonym evidence_runs = "string \<Rightarrow> string option"

definition promotion :: "evidence_runs \<Rightarrow> string \<Rightarrow> ledger_event" where
  "promotion won key =
     (case won key of
        Some s \<Rightarrow> \<lparr>le_state = s, le_action = ''promote'', le_reason = Some (''evidence: an F1 run of this request '' @ s), le_lease = None\<rparr>
      | None \<Rightarrow> \<lparr>le_state = ''pending'', le_action = ''promote'',
                le_reason = Some ''its slice ended without a finished F1 run of the request'', le_lease = None\<rparr>)"

definition reconcile_abandoned :: "evidence_runs \<Rightarrow> string \<Rightarrow> ledger \<Rightarrow> (ledger \<times> string) res" where
  "reconcile_abandoned won key l = bindR (append_event key (promotion won key) l) (\<lambda>l1. Inr (l1, le_state (promotion won key)))"

text \<open>The events of G10: a terminal claim where the transition table needs one, and the final state.\<close>

definition terminal_claim :: "int \<Rightarrow> ledger_event" where
  "terminal_claim lease = \<lparr>le_state = ''requesting'', le_action = ''claim'',
     le_reason = Some ''G10 terminal claim: no request is made'', le_lease = Some lease\<rparr>"

definition terminal_events :: "int \<Rightarrow> evidence_runs \<Rightarrow> string \<Rightarrow> string \<Rightarrow> ledger_event list" where
  "terminal_events lease won key state =
     (let final = (case won key of Some s \<Rightarrow> s | None \<Rightarrow> ''failed'');
          reason = Some (case won key of Some s \<Rightarrow> ''G10, evidence wins: an F1 run of this request '' @ s
            | None \<Rightarrow> ''G10: item maximum reached; no successful F1 run of the request'')
      in if state = ''pending'' \<or> final \<in> set f1_success
         then [terminal_claim lease, \<lparr>le_state = final, le_action = ''record'', le_reason = reason, le_lease = Some lease\<rparr>]
         else [\<lparr>le_state = final, le_action = ''record'', le_reason = reason, le_lease = None\<rparr>])"

definition terminalise :: "int \<Rightarrow> int \<Rightarrow> evidence_runs \<Rightarrow> string \<Rightarrow> ledger \<Rightarrow> (ledger \<times> string option) res" where
  "terminalise lease mx won key l =
     bindR (state_of l key) (\<lambda>state.
       if state \<notin> {''pending'', ''retry_wait''} \<or> claims_of l key < mx then Inr (l, None)
       else if open_attempts_of l key \<noteq> [] then Inr (l, None)
       else bindR (append_events key (terminal_events lease won key state) l) (\<lambda>l1.
         Inr (l1, Some (case won key of Some s \<Rightarrow> s | None \<Rightarrow> ''failed''))))"

fun promote_all :: "evidence_runs \<Rightarrow> string list \<Rightarrow> ledger \<Rightarrow> (ledger \<times> (string \<times> string) list) res" where
  "promote_all won [] l = Inr (l, [])"
| "promote_all won (k # ks) l =
     bindR (reconcile_abandoned won k l) (\<lambda>(l1, s). bindR (promote_all won ks l1) (\<lambda>(l2, out). Inr (l2, (k, s) # out)))"

fun terminalise_all :: "int \<Rightarrow> int \<Rightarrow> evidence_runs \<Rightarrow> string list \<Rightarrow> ledger \<Rightarrow> (ledger \<times> (string \<times> string option) list) res" where
  "terminalise_all lease mx won [] l = Inr (l, [])"
| "terminalise_all lease mx won (k # ks) l =
     bindR (terminalise lease mx won k l) (\<lambda>(l1, s). bindR (terminalise_all lease mx won ks l1) (\<lambda>(l2, out). Inr (l2, (k, s) # out)))"

definition abandoned_keys :: "ledger \<Rightarrow> string list" where
  "abandoned_keys l = map li_key (filter (\<lambda>i. item_state i = ''abandoned'') (discovery_rows l))"

definition exhausted_keys :: "int \<Rightarrow> ledger \<Rightarrow> string list" where
  "exhausted_keys mx l =
     map li_key (filter (\<lambda>i. item_state i \<in> {''pending'', ''retry_wait''} \<and> mx \<le> int (claims_since_requeue i)) (discovery_rows l))"

text \<open>\<open>reconcile\<close>: the ledger, the promoted items and the items at their maximum (None for a skipped one).\<close>

definition reconcile_items ::
  "int \<Rightarrow> int \<Rightarrow> evidence_runs \<Rightarrow> ledger \<Rightarrow> (ledger \<times> (string \<times> string) list \<times> (string \<times> string option) list) res" where
  "reconcile_items lease mx won l =
     bindR (promote_all won (abandoned_keys l) l) (\<lambda>(l1, promoted).
       bindR (terminalise_all lease mx won (exhausted_keys mx l1) l1) (\<lambda>(l2, ended). Inr (l2, promoted, ended)))"

section \<open>One request\<close>

text \<open>How the governed request ended: an answer (its outcome class and the F1 run's status), a block, an open circuit, a
  refusal before any request, and anything else, which propagates with the item in flight.\<close>

datatype request_result =
    AnsweredRun string string
  | BlockedRun string
  | CircuitRun string string
  | RefusedUnsent
  | LostRun exc

record discovering =
  dg_ledger :: ledger
  dg_plan :: discovery_plan
  dg_arming :: discovery_arming
  dg_lease :: int
  dg_attempted :: "string list"
  dg_closed :: bool
  dg_stopped :: bool
  dg_outcomes :: "(string \<times> string) list"

definition item_max_of :: "discovery_arming \<Rightarrow> int" where
  "item_max_of a = (case da_item_max a of None \<Rightarrow> 0 | Some m \<Rightarrow> m)"

text \<open>\<open>_final_or_retry\<close>: the event of a claim; evidence that the request succeeded wins over a failure.\<close>

definition claim_event :: "int \<Rightarrow> evidence_runs \<Rightarrow> string \<Rightarrow> string \<Rightarrow> ledger_event" where
  "claim_event lease won key state =
     \<lparr>le_state = evidence_wins (won key) state, le_action = ''record'',
      le_reason = (if evidence_wins (won key) state = state then (if state \<in> {''failed'', ''retry_wait''} then Some (state @ '': see details'') else None)
        else Some (''evidence wins: an F1 run of this request '' @ evidence_wins (won key) state)),
      le_lease = Some lease\<rparr>"

definition final_or_retry :: "evidence_runs \<Rightarrow> string \<Rightarrow> string \<Rightarrow> bool \<Rightarrow> discovering \<Rightarrow> discovering res" where
  "final_or_retry won key state stops g =
     bindR (append_event key (claim_event (dg_lease g) won key state) (dg_ledger g)) (\<lambda>l.
       Inr (g\<lparr>dg_ledger := l, dg_stopped := (dg_stopped g \<or> stops),
         dg_outcomes := dg_outcomes g @ [(key, evidence_wins (won key) state)]\<rparr>))"

text \<open>The state the result of a request gives the item after \<open>made\<close> attempts, and whether it stops the slice. A refusal after
  an attempt is not guessed at, and an answer stands for exactly one attempt.\<close>

definition result_state :: "request_result \<Rightarrow> nat \<Rightarrow> int \<Rightarrow> int \<Rightarrow> (string \<times> bool) res" where
  "result_state r made claims mx =
     (case r of
        AnsweredRun cls st \<Rightarrow> if int made \<noteq> attempts_per_json_request then Inl RuntimeErr else Inr (live_state cls st claims mx, False)
      | BlockedRun st \<Rightarrow> if made = 0 then Inl RuntimeErr else Inr (''blocked'', True)
      | CircuitRun cls st \<Rightarrow> if made = 0 then Inl RuntimeErr else Inr (live_state cls st claims mx, True)
      | RefusedUnsent \<Rightarrow> if made \<noteq> 0 then Inl (Refused ''stop'') else Inr (if mx \<le> claims then ''failed'' else ''retry_wait'', True)
      | LostRun e \<Rightarrow> Inl e)"

text \<open>The attempts behind a governed request, as many as the transport wants up to the armed number (\<open>request\<close>'s loop bound,
  \<open>json_attempts_left\<close>), and the rows of each: its intent, and its outcome if one was recorded; without one the loop
  ends.\<close>

definition attempts_allowed :: "discovery_arming \<Rightarrow> nat" where
  "attempts_allowed a = nat (case da_attempts a of None \<Rightarrow> 0 | Some n \<Rightarrow> n)"

fun record_attempts :: "(int \<times> (string \<times> bool) option) list \<Rightarrow> string \<Rightarrow> int \<Rightarrow> ledger \<Rightarrow> ledger res" where
  "record_attempts [] key lease l = Inr l"
| "record_attempts ((n, outcome) # rest) key lease l =
     (let (l1, a) = record_intent n key lease l in
      case outcome of None \<Rightarrow> Inr l1
      | Some (cls, block) \<Rightarrow> bindR (insert_outcome n cls block l1) (record_attempts rest key lease))"

definition refuse_one :: "discovery_plan \<Rightarrow> string list \<Rightarrow> ledger_item \<Rightarrow> discovering \<Rightarrow> exc option" where
  "refuse_one p gates i g =
     (if dg_closed g then Some (Refused ''closed'')
      else if \<not> in_plan p (li_key i) then Some (Refused ''plan'')
      else if li_key i \<in> set (dg_attempted g) then Some (Refused ''one_claim_per_slice'')
      else (case config_refusals (Some (dg_arming g)) of Inl e \<Rightarrow> Some e
        | Inr (r # rs) \<Rightarrow> Some (Refused ''config'')
        | Inr [] \<Rightarrow> if gates \<noteq> [] \<or> item_max_of (dg_arming g) \<le> claims_of (dg_ledger g) (li_key i) then Some (Refused ''gates'') else None))"

text \<open>What follows a claim: the attempts' rows, the state its result gives the item, and the recorded event.\<close>

definition conclude_claim ::
  "(int \<times> (string \<times> bool) option) list \<Rightarrow> evidence_runs \<Rightarrow> request_result \<Rightarrow> string \<Rightarrow> discovering \<Rightarrow> discovering \<times> exc option" where
  "conclude_claim attempts won r key g =
     (let made = take (attempts_allowed (dg_arming g)) attempts in
      case record_attempts made key (dg_lease g) (dg_ledger g) of Inl e \<Rightarrow> (g, Some e)
      | Inr l \<Rightarrow> let g1 = g\<lparr>dg_ledger := l\<rparr> in
         (case result_state r (length made) (claims_of l key) (item_max_of (dg_arming g)) of Inl e \<Rightarrow> (g1, Some e)
          | Inr (state, stops) \<Rightarrow> (case final_or_retry won key state stops g1 of Inl e \<Rightarrow> (g1, Some e)
             | Inr g2 \<Rightarrow> (g2, if stops then Some (Refused ''stop'') else None))))"

text \<open>\<open>discover_one\<close>: the slice after it and what it raised. \<open>gates\<close> are the transport's refusals of the claim, beside the
  item maximum. A refusal claims nothing; whatever raises after the claim leaves it claimed.\<close>

definition discover_one ::
  "string list \<Rightarrow> (int \<times> (string \<times> bool) option) list \<Rightarrow> evidence_runs \<Rightarrow> request_result \<Rightarrow> ledger_item \<Rightarrow> discovering \<Rightarrow>
     discovering \<times> exc option" where
  "discover_one gates attempts won r i g =
     (case refuse_one (dg_plan g) gates i g of Some e \<Rightarrow> (g, Some e)
      | None \<Rightarrow> (case claim_item (li_key i) (dg_lease g) None (dg_ledger g) of Inl e \<Rightarrow> (g, Some e)
         | Inr l \<Rightarrow> conclude_claim attempts won r (li_key i) (g\<lparr>dg_ledger := l, dg_attempted := li_key i # dg_attempted g\<rparr>)))"

text \<open>\<open>run\<close>: eligible items one by one until none is left, the bound is hit or a stop ends the slice. The world answers
  each request. An exception that is not a stop propagates.\<close>

record discovery_world =
  dw_gates :: "string list"
  dw_attempts :: "(int \<times> (string \<times> bool) option) list"
  dw_result :: request_result

fun discovery_run :: "evidence_runs \<Rightarrow> discovery_world list \<Rightarrow> discovering \<Rightarrow> discovering \<times> exc option" where
  "discovery_run won [] g = (g, None)"
| "discovery_run won (w # ws) g =
     (case eligible_items (dg_plan g) (nat (item_max_of (dg_arming g))) (dg_attempted g) (dg_ledger g) of [] \<Rightarrow> (g, None)
      | i # is \<Rightarrow> (case discover_one (dw_gates w) (dw_attempts w) won (dw_result w) i g of
          (g1, None) \<Rightarrow> discovery_run won ws g1
        | (g1, Some e) \<Rightarrow> (g1, Some e)))"

end
