(* ===== verification/RecoveryFacts.thy ===== *)
theory RecoveryFacts
  imports Recovery LifecycleFacts
begin

text \<open>
  Facts of the discovery slice: appending a legal chain of events always succeeds and touches one item only; the
  reconciliation that opens a slice leaves every discovery item either final, blocked, in flight or claimable; and no
  sequence of requests takes an item past its armed maximum.
\<close>

section \<open>Chains of events\<close>

definition add_events :: "ledger_event list \<Rightarrow> ledger_item \<Rightarrow> ledger_item" where
  "add_events es i = i\<lparr>li_later := li_later i @ es\<rparr>"

fun chain_ok :: "string \<Rightarrow> string \<Rightarrow> ledger_event list \<Rightarrow> bool" where
  "chain_ok kind s [] \<longleftrightarrow> True"
| "chain_ok kind s (e # es) \<longleftrightarrow> check_transition kind s (le_state e) (le_action e) (le_reason e) = Inr () \<and> chain_ok kind (le_state e) es"

lemma add_events_sel [simp]:
  "li_key (add_events es i) = li_key i" "li_kind (add_events es i) = li_kind i"
  "li_events (add_events es i) = li_events i @ es" "add_events [] i = i"
  "es \<noteq> [] \<Longrightarrow> item_state (add_events es i) = le_state (last es)"
  by (simp_all add: add_events_def li_events_def item_state_def li_current_def)

lemma add_events_Cons: "add_events (e # es) i = add_events es (add_event e i)"
  by (simp add: add_events_def add_event_def)

definition update_item :: "string \<Rightarrow> ledger_event list \<Rightarrow> ledger \<Rightarrow> ledger" where
  "update_item key es l = l\<lparr>lg_items := map (\<lambda>x. if li_key x = key then add_events es x else x) (lg_items l)\<rparr>"

lemma update_item_sel [simp]:
  "lg_attempts (update_item key es l) = lg_attempts l" "lg_outcomes (update_item key es l) = lg_outcomes l"
  "lg_items (update_item key es l) = map (\<lambda>x. if li_key x = key then add_events es x else x) (lg_items l)"
  "map li_key (lg_items (update_item key es l)) = map li_key (lg_items l)"
  by (simp_all add: update_item_def comp_def cong: if_cong)

lemma update_keys [simp]: "li_key \<circ> (\<lambda>x. if Q x then add_events (g x) x else x) = li_key"
  by (rule ext) simp

lemma append_events_total:
  assumes "distinct (map li_key (lg_items l))" and "i \<in> set (lg_items l)" and "chain_ok (li_kind i) (item_state i) es"
  shows "append_events (li_key i) es l = Inr (update_item (li_key i) es l)"
  using assms
proof (induction es arbitrary: l i)
  case Nil
  then show ?case by (simp add: update_item_def cong: if_cong)
next
  case (Cons e es)
  define l1 where "l1 = l\<lparr>lg_items := map (\<lambda>x. if li_key x = li_key i then add_event e x else x) (lg_items l)\<rparr>"
  have one: "append_event (li_key i) e l = Inr l1"
    using item_named_of [OF Cons.prems(1,2)] Cons.prems(3) by (simp add: append_event_Inr l1_def item_state_def)
  have "append_events (li_key (add_event e i)) es l1 = Inr (update_item (li_key (add_event e i)) es l1)"
  proof (rule Cons.IH)
    show "distinct (map li_key (lg_items l1))" using Cons.prems(1) by (simp add: l1_def)
    show "add_event e i \<in> set (lg_items l1)" using Cons.prems(2) by (auto simp: l1_def)
    show "chain_ok (li_kind (add_event e i)) (item_state (add_event e i)) es" using Cons.prems(3) by (simp add: item_state_def)
  qed
  then show ?case using one by (simp add: update_item_def l1_def add_events_Cons comp_def cong: if_cong)
qed

lemma append_events_Inr:
  assumes "append_events key es l = Inr l'" and "es \<noteq> []" and "distinct (map li_key (lg_items l))"
  shows "\<exists>i. item_named l key = Some i \<and> chain_ok (li_kind i) (item_state i) es \<and> l' = update_item key es l"
  using assms
proof (induction es arbitrary: l)
  case (Cons e es)
  from Cons.prems(1) obtain l1 where l1: "append_event key e l = Inr l1" "append_events key es l1 = Inr l'"
    by (auto simp: bindR_eq_Inr)
  from l1(1) obtain i where i: "item_named l key = Some i"
      "check_transition (li_kind i) (le_state (li_current i)) (le_state e) (le_action e) (le_reason e) = Inr ()"
      "l1 = l\<lparr>lg_items := map (\<lambda>x. if li_key x = key then add_event e x else x) (lg_items l)\<rparr>"
    unfolding append_event_Inr by blast
  have key: "li_key i = key" "i \<in> set (lg_items l)" using item_named_Some [OF i(1)] by simp_all
  show ?case
  proof (cases "es = []")
    case True
    then show ?thesis using i l1(2) by (simp add: item_state_def update_item_def add_events_Cons cong: if_cong)
  next
    case False
    have keys: "distinct (map li_key (lg_items l1))" using Cons.prems(3) by (simp add: i(3))
    obtain j where j: "item_named l1 key = Some j" "chain_ok (li_kind j) (item_state j) es" "l' = update_item key es l1"
      using Cons.IH [OF l1(2) False keys] by blast
    have "add_event e i \<in> set (lg_items l1)" using key by (auto simp: i(3))
    then have "j = add_event e i" using item_named_of [OF keys] j(1) key(1) by fastforce
    then show ?thesis using i j by (simp add: item_state_def update_item_def add_events_Cons comp_def cong: if_cong)
  qed
qed simp

lemma append_events_ok: "ledger_ok l \<Longrightarrow> append_events key es l = Inr l' \<Longrightarrow> ledger_ok l'"
  by (induction es arbitrary: l) (auto simp: bindR_eq_Inr dest: append_event_ok)

lemma discovery_transition:
  "kind \<in> set discovery_kinds \<Longrightarrow> transitions kind = discovery_transitions"
  by (simp add: transitions_def)

lemma discovery_check:
  "kind \<in> set discovery_kinds \<Longrightarrow> t \<noteq> ''excluded'' \<Longrightarrow> a \<noteq> ''requeue'' \<Longrightarrow>
     check_transition kind f t a reason = Inr () \<longleftrightarrow> (f, t, a) \<in> set discovery_transitions"
  by (simp add: check_transition_def transition_allowed_def discovery_transition guardR_def)

definition runs_ok :: "evidence_runs \<Rightarrow> bool" where
  "runs_ok won \<longleftrightarrow> (\<forall>k. won k = None \<or> won k = Some ''succeeded'' \<or> won k = Some ''partial'')"

lemma runs_ok_cases: "runs_ok won \<Longrightarrow> won k = None \<or> won k = Some ''succeeded'' \<or> won k = Some ''partial''"
  by (simp add: runs_ok_def)

lemma promotion_chain:
  assumes "runs_ok won" and "kind \<in> set discovery_kinds"
  shows "chain_ok kind ''abandoned'' [promotion won key]"
  using runs_ok_cases [OF assms(1), of key]
  by (elim disjE) (simp_all add: promotion_def discovery_check [OF assms(2)] discovery_transitions_def)

lemma terminal_chain:
  assumes "runs_ok won" and "kind \<in> set discovery_kinds" and "s = ''pending'' \<or> s = ''retry_wait''"
  shows "chain_ok kind s (terminal_events lease won key s)"
  using runs_ok_cases [OF assms(1), of key] assms(3)
  by (elim disjE) (simp_all add: terminal_events_def terminal_claim_def Let_def f1_success_def discovery_check [OF assms(2)] discovery_transitions_def)

section \<open>The reconciliation that opens a slice\<close>

definition update_items :: "string list \<Rightarrow> (ledger_item \<Rightarrow> ledger_event list) \<Rightarrow> ledger \<Rightarrow> ledger" where
  "update_items ks f l = l\<lparr>lg_items := map (\<lambda>i. if li_key i \<in> set ks then add_events (f i) i else i) (lg_items l)\<rparr>"

lemma update_items_sel [simp]:
  "lg_attempts (update_items ks f l) = lg_attempts l" "lg_outcomes (update_items ks f l) = lg_outcomes l"
  "lg_items (update_items ks f l) = map (\<lambda>i. if li_key i \<in> set ks then add_events (f i) i else i) (lg_items l)"
  "map li_key (lg_items (update_items ks f l)) = map li_key (lg_items l)" "update_items [] f l = l"
  by (simp_all add: update_items_def comp_def cong: if_cong)

lemma update_items_Cons:
  assumes "distinct (map li_key (lg_items l))" and "i \<in> set (lg_items l)" and "li_key i \<notin> set ks"
  shows "update_items ks f (update_item (li_key i) (f i) l) = update_items (li_key i # ks) f l"
proof -
  have "x = i" if "x \<in> set (lg_items l)" "li_key x = li_key i" for x
    using assms(1,2) that by (auto simp: distinct_map inj_on_def)
  then have "lg_items (update_items ks f (update_item (li_key i) (f i) l)) = lg_items (update_items (li_key i # ks) f l)"
    using assms(3) by (simp, metis)
  then show ?thesis by (simp add: update_items_def update_item_def)
qed

lemma append_events_one: "append_events key [e] l = append_event key e l"
  by (cases "append_event key e l") simp_all

lemma update_item_others:
  assumes "k \<noteq> key" and "j \<in> set (lg_items l)" and "li_key j = k"
  shows "j \<in> set (lg_items (update_item key es l))"
  using assms by (auto simp: image_iff)

definition discovery_ready :: "(ledger_item \<Rightarrow> bool) \<Rightarrow> string list \<Rightarrow> ledger \<Rightarrow> bool" where
  "discovery_ready P ks l \<longleftrightarrow> distinct ks \<and> distinct (map li_key (lg_items l)) \<and> (\<forall>k \<in> set ks. \<exists>i \<in> set (lg_items l). li_key i = k \<and> P i)"

lemma ready_item:
  assumes "discovery_ready P (k # ks) l"
  shows "\<exists>i \<in> set (lg_items l). li_key i = k \<and> P i \<and> item_named l k = Some i"
  using assms item_named_of unfolding discovery_ready_def by fastforce

lemma ready_rest:
  assumes "discovery_ready P (k # ks) l"
  shows "discovery_ready P ks (update_item k es l)" "k \<notin> set ks"
proof -
  have "\<exists>i \<in> set (lg_items (update_item k es l)). li_key i = h \<and> P i" if h: "h \<in> set ks" for h
  proof -
    obtain i where i: "i \<in> set (lg_items l)" "li_key i = h" "P i" using assms h unfolding discovery_ready_def by auto
    have "h \<noteq> k" using assms h by (auto simp: discovery_ready_def)
    then show ?thesis using i update_item_others [of h k i l es] by blast
  qed
  then show "discovery_ready P ks (update_item k es l)" "k \<notin> set ks" using assms by (simp_all add: discovery_ready_def)
qed

definition in_discovery :: "ledger_item \<Rightarrow> bool" where
  "in_discovery i \<longleftrightarrow> li_kind i \<in> set discovery_kinds"

lemma promote_all_total:
  assumes "runs_ok won" and "discovery_ready (\<lambda>i. in_discovery i \<and> item_state i = ''abandoned'') ks l"
  shows "promote_all won ks l = Inr (update_items ks (\<lambda>i. [promotion won (li_key i)]) l, map (\<lambda>k. (k, le_state (promotion won k))) ks)"
  using assms(2)
proof (induction ks arbitrary: l)
  case (Cons k ks)
  obtain i where i: "i \<in> set (lg_items l)" "li_key i = k" "in_discovery i" "item_state i = ''abandoned''"
    using ready_item [OF Cons.prems] by blast
  have keys: "distinct (map li_key (lg_items l))" using Cons.prems by (simp add: discovery_ready_def)
  have "chain_ok (li_kind i) (item_state i) [promotion won k]"
    unfolding i(4) by (rule promotion_chain [OF assms(1)]) (use i(3) in \<open>simp add: in_discovery_def\<close>)
  then have one: "append_event k (promotion won k) l = Inr (update_item k [promotion won k] l)"
    using append_events_total [OF keys i(1), of "[promotion won k]"] unfolding i(2) append_events_one by blast
  show ?case
    using Cons.IH [OF ready_rest(1) [OF Cons.prems]] ready_rest(2) [OF Cons.prems] one
      update_items_Cons [OF keys i(1), where f = "\<lambda>i. [promotion won (li_key i)]"] i(2)
    by (simp add: reconcile_abandoned_def)
qed simp

definition may_end :: "int \<Rightarrow> ledger \<Rightarrow> ledger_item \<Rightarrow> bool" where
  "may_end mx l i \<longleftrightarrow> in_discovery i \<and> item_state i \<in> {''pending'', ''retry_wait''} \<and> mx \<le> int (claims_since_requeue i) \<and>
     open_attempts_of l (li_key i) = []"

definition end_events :: "int \<Rightarrow> evidence_runs \<Rightarrow> ledger_item \<Rightarrow> ledger_event list" where
  "end_events lease won i = terminal_events lease won (li_key i) (item_state i)"

lemma may_end_update: "may_end mx (update_item k es l) = may_end mx l"
  by (intro ext) (simp add: may_end_def open_attempts_of_def attempts_of_def)

lemma terminalise_all_total:
  assumes "runs_ok won" and "discovery_ready (may_end mx l) ks l"
  shows "\<exists>out. terminalise_all lease mx won ks l = Inr (update_items ks (end_events lease won) l, out) \<and> map fst out = ks \<and>
    list_all (\<lambda>(k, s). s \<noteq> None) out"
  using assms(2)
proof (induction ks arbitrary: l)
  case (Cons k ks)
  obtain i where i: "i \<in> set (lg_items l)" "li_key i = k" "may_end mx l i" "item_named l k = Some i"
    using ready_item [OF Cons.prems] by blast
  have keys: "distinct (map li_key (lg_items l))" using Cons.prems by (simp add: discovery_ready_def)
  let ?l1 = "update_item k (end_events lease won i) l"
  have s: "item_state i = ''pending'' \<or> item_state i = ''retry_wait''" using i(3) by (simp add: may_end_def)
  have "chain_ok (li_kind i) (item_state i) (end_events lease won i)"
    unfolding end_events_def i(2) by (rule terminal_chain [OF assms(1) _ s]) (use i(3) in \<open>simp add: may_end_def in_discovery_def\<close>)
  then have "append_events k (end_events lease won i) l = Inr ?l1"
    using append_events_total [OF keys i(1), of "end_events lease won i"] unfolding i(2) by simp
  then have one: "terminalise lease mx won k l = Inr (?l1, Some (case won k of Some s \<Rightarrow> s | None \<Rightarrow> ''failed''))"
    using i(2,3,4) by (simp add: terminalise_def state_of_def claims_of_def may_end_def end_events_def)
  obtain out where "terminalise_all lease mx won ks ?l1 = Inr (update_items ks (end_events lease won) ?l1, out)" "map fst out = ks"
      "list_all (\<lambda>(k, s). s \<noteq> None) out"
    using Cons.IH [of ?l1] ready_rest(1) [OF Cons.prems] by (auto simp: may_end_update)
  then show ?case
    using one update_items_Cons [OF keys i(1) ready_rest(2) [OF Cons.prems, folded i(2)], where f = "end_events lease won"] i(2) by simp
qed simp

lemma ready_filter:
  assumes "distinct (map li_key (lg_items l))" and "\<And>i. i \<in> set (lg_items l) \<Longrightarrow> in_discovery i \<Longrightarrow> Q i \<Longrightarrow> P i"
  shows "discovery_ready P (map li_key (filter Q (discovery_rows l))) l"
proof -
  have "distinct (map li_key (filter Q (discovery_rows l)))"
    using assms(1) by (simp add: discovery_rows_def distinct_map inj_on_def)
  then show ?thesis using assms unfolding discovery_ready_def by (auto simp: discovery_rows_def in_discovery_def)
qed

lemma promotion_state:
  assumes "runs_ok won"
  shows "le_state (promotion won k) \<noteq> ''abandoned''"
  using runs_ok_cases [OF assms, of k] by (elim disjE) (simp_all add: promotion_def)

lemma end_state:
  assumes "runs_ok won"
  shows "end_events lease won i \<noteq> []" "le_state (last (end_events lease won i)) \<notin> {''abandoned'', ''pending'', ''retry_wait''}"
  using runs_ok_cases [OF assms, of "li_key i"]
  by (atomize (full), elim disjE) (simp_all add: end_events_def terminal_events_def terminal_claim_def Let_def f1_success_def)

definition settled_item :: "int \<Rightarrow> ledger_item \<Rightarrow> bool" where
  "settled_item mx i \<longleftrightarrow> item_state i \<noteq> ''abandoned'' \<and> (item_state i \<in> {''pending'', ''retry_wait''} \<longrightarrow> int (claims_since_requeue i) < mx)"

lemma others_kept:
  assumes "discovery_ready P ks m" and "\<And>i. P i \<Longrightarrow> in_discovery i"
  shows "filter (\<lambda>i. \<not> in_discovery i) (lg_items (update_items ks g m)) = filter (\<lambda>i. \<not> in_discovery i) (lg_items m)"
proof -
  have outside: "li_key i \<notin> set ks" if i: "i \<in> set (lg_items m)" "\<not> in_discovery i" for i
  proof
    assume "li_key i \<in> set ks"
    then obtain j where "j \<in> set (lg_items m)" "li_key j = li_key i" "in_discovery j" using assms unfolding discovery_ready_def by blast
    moreover have "inj_on li_key (set (lg_items m))" using assms(1) by (simp add: discovery_ready_def distinct_map)
    ultimately show False using i by (metis inj_onD)
  qed
  then have "map (\<lambda>i. if li_key i \<in> set ks then add_events (g i) i else i) (filter (\<lambda>i. \<not> in_discovery i) (lg_items m)) =
    filter (\<lambda>i. \<not> in_discovery i) (lg_items m)" by (intro map_idI) auto
  then show ?thesis by (simp add: filter_map comp_def in_discovery_def if_distrib cong: if_cong)
qed

lemma promoted_items:
  assumes "runs_ok won" and "i \<in> set (lg_items (update_items (abandoned_keys l) (\<lambda>i. [promotion won (li_key i)]) l))" and "in_discovery i"
  shows "item_state i \<noteq> ''abandoned''"
proof -
  obtain j where j: "j \<in> set (lg_items l)" "i = (if li_key j \<in> set (abandoned_keys l) then add_events [promotion won (li_key j)] j else j)"
    using assms(2) by auto
  then have "in_discovery j" using assms(3) by (auto simp: in_discovery_def split: if_splits)
  then have "item_state j = ''abandoned'' \<longrightarrow> li_key j \<in> set (abandoned_keys l)"
    using j(1) by (auto simp: abandoned_keys_def discovery_rows_def in_discovery_def)
  then show ?thesis using j(2) promotion_state [OF assms(1)] by auto
qed

lemma ended_items:
  assumes "runs_ok won" and first: "\<And>j. j \<in> set (lg_items l) \<Longrightarrow> in_discovery j \<Longrightarrow> item_state j \<noteq> ''abandoned''"
    and "i \<in> set (lg_items (update_items (exhausted_keys mx l) (end_events lease won) l))" and "in_discovery i"
  shows "settled_item mx i"
proof -
  obtain j where j: "j \<in> set (lg_items l)" "i = (if li_key j \<in> set (exhausted_keys mx l) then add_events (end_events lease won j) j else j)"
    using assms(3) by auto
  then have d: "in_discovery j" using assms(4) by (auto simp: in_discovery_def split: if_splits)
  show ?thesis
  proof (cases "li_key j \<in> set (exhausted_keys mx l)")
    case True
    then show ?thesis using end_state [OF assms(1), where i = j and lease = lease] j(2) by (simp add: settled_item_def)
  next
    case False
    then have "\<not> (item_state j \<in> {''pending'', ''retry_wait''} \<and> mx \<le> int (claims_since_requeue j))"
      using j(1) d by (auto simp: exhausted_keys_def discovery_rows_def in_discovery_def)
    then show ?thesis using first [OF j(1) d] j(2) False by (auto simp: settled_item_def)
  qed
qed

text \<open>C7: Once every attempt has its outcome, the reconciliation that opens a discovery slice cannot fail, and it leaves
  nothing behind that no slice would ever pick up: no discovery item stays abandoned, none that waits has used up its
  claims, every abandoned item is promoted to what its F1 runs show, and items of other kinds are untouched.\<close>

theorem reconciliation_settles:
  assumes "ledgers l" and "runs_ok won" and "\<forall>i \<in> set (discovery_rows l). open_attempts_of l (li_key i) = []"
  shows "\<exists>l' promoted ended. reconcile_items lease mx won l = Inr (l', promoted, ended) \<and>
    promoted = map (\<lambda>k. (k, case won k of None \<Rightarrow> ''pending'' | Some s \<Rightarrow> s)) (abandoned_keys l) \<and>
    list_all (\<lambda>(k, s). s \<noteq> None) ended \<and>
    list_all (settled_item mx) (filter in_discovery (lg_items l')) \<and>
    filter (\<lambda>i. \<not> in_discovery i) (lg_items l') = filter (\<lambda>i. \<not> in_discovery i) (lg_items l)"
proof -
  have keys: "distinct (map li_key (lg_items l))" using ledgers_ok [OF assms(1)] by (simp add: ledger_ok_def)
  define f where "f = (\<lambda>i :: ledger_item. [promotion won (li_key i)])"
  define l1 where "l1 = update_items (abandoned_keys l) f l"
  define l2 where "l2 = update_items (exhausted_keys mx l1) (end_events lease won) l1"
  have ready1: "discovery_ready (\<lambda>i. in_discovery i \<and> item_state i = ''abandoned'') (abandoned_keys l) l"
    unfolding abandoned_keys_def by (rule ready_filter [OF keys]) simp
  have keys1: "distinct (map li_key (lg_items l1))" using keys by (simp add: l1_def)
  have closed: "open_attempts_of l1 (li_key i) = []" if "i \<in> set (lg_items l1)" "in_discovery i" for i
  proof -
    have "\<exists>j \<in> set (discovery_rows l). li_key j = li_key i"
      using that by (auto simp: l1_def discovery_rows_def in_discovery_def split: if_splits)
    then show ?thesis using assms(3) by (auto simp: open_attempts_of_def attempts_of_def l1_def)
  qed
  have ready2: "discovery_ready (may_end mx l1) (exhausted_keys mx l1) l1"
    unfolding exhausted_keys_def by (rule ready_filter [OF keys1]) (use closed in \<open>auto simp: may_end_def\<close>)
  obtain ended where ended: "terminalise_all lease mx won (exhausted_keys mx l1) l1 = Inr (l2, ended)" "list_all (\<lambda>(k, s). s \<noteq> None) ended"
    using terminalise_all_total [OF assms(2) ready2] unfolding l2_def by blast
  have run: "reconcile_items lease mx won l = Inr (l2, map (\<lambda>k. (k, le_state (promotion won k))) (abandoned_keys l), ended)"
    using promote_all_total [OF assms(2) ready1] ended(1) by (simp add: reconcile_items_def l1_def f_def)
  have promoted: "le_state (promotion won k) = (case won k of None \<Rightarrow> ''pending'' | Some s \<Rightarrow> s)" for k
    by (simp add: promotion_def split: option.split)
  have second: "settled_item mx i" if i: "i \<in> set (lg_items l2)" "in_discovery i" for i
    by (rule ended_items [OF assms(2) promoted_items [OF assms(2)] i [unfolded l2_def]]) (simp add: l1_def f_def)
  have "filter (\<lambda>i. \<not> in_discovery i) (lg_items l2) = filter (\<lambda>i. \<not> in_discovery i) (lg_items l)"
    using others_kept [OF ready1, of f] others_kept [OF ready2, of "end_events lease won"] unfolding l2_def l1_def may_end_def by simp
  then show ?thesis using run ended(2) second unfolding promoted by (auto simp: list_all_iff)
qed

section \<open>The slice stays within the armed maximum\<close>

text \<open>The events of one claim: the claim alone when its request was lost, else the claim and what the attempt came to.\<close>

definition claim_of :: "int \<Rightarrow> ledger_event" where
  "claim_of lease = \<lparr>le_state = ''requesting'', le_action = ''claim'', le_reason = None, le_lease = Some lease\<rparr>"

definition claim_chain :: "int \<Rightarrow> int \<Rightarrow> int \<Rightarrow> ledger_event list \<Rightarrow> bool" where
  "claim_chain lease claims mx es \<longleftrightarrow> es = [claim_of lease] \<or>
     (\<exists>e. es = [claim_of lease, e] \<and> le_action e = ''record'' \<and> (le_state e = ''retry_wait'' \<longrightarrow> claims + 1 < mx))"

lemma claims_add:
  "claims_since_requeue (add_events (es @ [e]) i) = (if le_action e = ''requeue'' then 0
     else claims_since_requeue (add_events es i) + (if le_action e = ''claim'' then 1 else 0))"
  by (simp add: claims_since_requeue_def)

lemma claims_chain:
  assumes "claim_chain lease c mx es"
  shows "claims_since_requeue (add_events es i) = claims_since_requeue i + 1" "es \<noteq> []"
proof -
  consider "es = [] @ [claim_of lease]" | e where "es = [claim_of lease] @ [e]" "le_action e = ''record''"
    using assms by (auto simp: claim_chain_def)
  then show "claims_since_requeue (add_events es i) = claims_since_requeue i + 1"
  proof cases
    case 1
    then show ?thesis using claims_add [of "[]" "claim_of lease" i] by (simp add: claim_of_def)
  next
    case (2 e)
    then show ?thesis using claims_add [of "[claim_of lease]" e i] claims_add [of "[]" "claim_of lease" i] by (simp add: claim_of_def)
  qed
  show "es \<noteq> []" using assms by (auto simp: claim_chain_def)
qed

definition attempted_items :: "ledger \<Rightarrow> string list" where
  "attempted_items l = map at_item (lg_attempts l)"

lemma record_attempts_rows:
  assumes "record_attempts as key lease l = Inr l'"
  shows "lg_items l' = lg_items l \<and> (\<exists>k \<le> length as. attempted_items l' = attempted_items l @ replicate k key)"
  using assms
proof (induction as arbitrary: l)
  case (Cons x as)
  obtain n outcome where x: "x = (n, outcome)" by fastforce
  obtain l1 a where one: "record_intent n key lease l = (l1, a)" by fastforce
  have rows: "lg_items l1 = lg_items l" "attempted_items l1 = attempted_items l @ [key]"
    using one by (auto simp: record_intent_def attempted_items_def Let_def)
  show ?case
  proof (cases outcome)
    case None
    then show ?thesis using Cons.prems rows by (simp add: x one exI [of _ "1::nat"])
  next
    case (Some oc)
    then obtain l2 where "insert_outcome n (fst oc) (snd oc) l1 = Inr l2" "record_attempts as key lease l2 = Inr l'"
      using Cons.prems by (auto simp: x one bindR_eq_Inr split: prod.splits)
    then have "lg_items l2 = lg_items l1" "attempted_items l2 = attempted_items l1"
      by (auto simp: insert_outcome_def guardR_eq_Inr attempted_items_def)
    moreover obtain k where "lg_items l' = lg_items l2" "k \<le> length as" "attempted_items l' = attempted_items l2 @ replicate k key"
      using Cons.IH [of l2] Cons.prems \<open>record_attempts as key lease l2 = Inr l'\<close> by blast
    ultimately show ?thesis using rows by (intro conjI exI [of _ "Suc k"]) simp_all
  qed
qed simp

lemma config_maximum:
  assumes "config_refusals (Some a) = Inr []"
  shows "1 \<le> item_max_of a" "item_max_of a \<le> 3"
proof -
  obtain m where "da_item_max a = Some m" "1 \<le> m \<and> m \<le> item_max_attempts"
    using assms by (auto simp: config_refusals_def bindR_eq_Inr split: if_splits option.splits)
  then show "1 \<le> item_max_of a" "item_max_of a \<le> 3" by (simp_all add: item_max_of_def item_max_attempts_def)
qed

lemma config_attempts:
  assumes "config_refusals (Some a) = Inr []"
  shows "attempts_allowed a = 1"
  using assms by (auto simp: config_refusals_def attempts_allowed_def attempts_per_json_request_def bindR_eq_Inr split: if_splits)

lemma result_retry:
  assumes "result_state r made claims mx = Inr (s, stops)" and "runs_ok won" and "evidence_wins (won k) s = ''retry_wait''"
  shows "claims < mx"
proof -
  have "s = ''retry_wait''" using assms(3) runs_ok_cases [OF assms(2), of k] by (auto simp: evidence_wins_def split: if_splits)
  then show ?thesis using assms(1)
    by (auto simp: result_state_def live_state_def f1_success_def split: request_result.splits if_splits)
qed

definition claims_one :: "string \<Rightarrow> discovering \<Rightarrow> discovering \<Rightarrow> bool" where
  "claims_one key g g' \<longleftrightarrow>
     key \<notin> set (dg_attempted g) \<and> dg_attempted g' = key # dg_attempted g \<and> dg_arming g' = dg_arming g \<and>
     (\<exists>made \<in> {[], [key]}. attempted_items (dg_ledger g') = attempted_items (dg_ledger g) @ made) \<and>
     (\<exists>i es. item_named (dg_ledger g) key = Some i \<and> int (claims_since_requeue i) < item_max_of (dg_arming g) \<and>
        claim_chain (dg_lease g) (int (claims_since_requeue i)) (item_max_of (dg_arming g)) es \<and>
        lg_items (dg_ledger g') = lg_items (update_item key es (dg_ledger g)))"

lemma refuse_one_None:
  assumes "refuse_one p gates i g = None"
  shows "li_key i \<notin> set (dg_attempted g)" "claims_of (dg_ledger g) (li_key i) < item_max_of (dg_arming g)"
    "config_refusals (Some (dg_arming g)) = Inr []"
  using assms by (auto simp: refuse_one_def split: if_splits sum.splits list.splits)

lemma claim_step:
  assumes "distinct (map li_key (lg_items l))" and "item_named l key = Some i" and "claim_item key lease None l = Inr l1"
    and "lg_items l2 = lg_items l1"
  shows "lg_items l1 = lg_items (update_item key [claim_of lease] l)" "lg_attempts l1 = lg_attempts l"
    "claims_of l2 key = int (claims_since_requeue i) + 1"
    "append_event key e l2 = Inr l3 \<Longrightarrow> lg_items l3 = lg_items (update_item key [claim_of lease, e] l) \<and> lg_attempts l3 = lg_attempts l2"
proof -
  have "append_events key [claim_of lease] l = Inr l1" using assms(3) by (simp add: append_events_one claim_item_def claim_of_def)
  then have l1: "l1 = update_item key [claim_of lease] l" using append_events_Inr [OF _ _ assms(1)] by blast
  show "lg_items l1 = lg_items (update_item key [claim_of lease] l)" "lg_attempts l1 = lg_attempts l" by (simp_all add: l1)
  have i: "i \<in> set (lg_items l)" "li_key i = key" using item_named_Some [OF assms(2)] by simp_all
  then have "add_events [claim_of lease] i \<in> set (lg_items l2)" by (auto simp: assms(4) l1)
  then have "item_named l2 key = Some (add_events [claim_of lease] i)"
    using item_named_of [of l2 "add_events [claim_of lease] i"] assms(1) i(2) by (simp add: assms(4) l1)
  then show "claims_of l2 key = int (claims_since_requeue i) + 1"
    using claims_add [of "[]" "claim_of lease" i] by (simp add: claims_of_def claim_of_def)
  show "append_event key e l2 = Inr l3 \<Longrightarrow> lg_items l3 = lg_items (update_item key [claim_of lease, e] l) \<and> lg_attempts l3 = lg_attempts l2"
    by (auto simp: append_event_Inr assms(4) l1 add_events_Cons add_events_def add_event_def)
qed

text \<open>Whatever follows the claim keeps the attempted items and adds at most one event and one attempt.\<close>

lemma conclude_claim_step:
  assumes runs: "runs_ok won" and run: "conclude_claim att won r key g = (g', e)" and allowed: "attempts_allowed (dg_arming g) = 1"
  shows "dg_attempted g' = dg_attempted g \<and> dg_arming g' = dg_arming g \<and> dg_lease g' = dg_lease g \<and>
    (\<exists>made \<in> {[], [key]}. attempted_items (dg_ledger g') = attempted_items (dg_ledger g) @ made) \<and>
    (lg_items (dg_ledger g') = lg_items (dg_ledger g) \<or>
     (\<exists>l2 l3 ev. lg_items l2 = lg_items (dg_ledger g) \<and> append_event key ev l2 = Inr l3 \<and> lg_items (dg_ledger g') = lg_items l3 \<and>
        le_action ev = ''record'' \<and> (le_state ev = ''retry_wait'' \<longrightarrow> claims_of l2 key < item_max_of (dg_arming g))))"
proof (cases "record_attempts (take 1 att) key (dg_lease g) (dg_ledger g)")
  case (Inl x)
  then show ?thesis using run by (auto simp: conclude_claim_def allowed)
next
  case rec: (Inr l)
  let ?n = "length (take 1 att)"
  obtain k where k: "k \<le> ?n" and rows: "lg_items l = lg_items (dg_ledger g)" "attempted_items l = attempted_items (dg_ledger g) @ replicate k key"
    using record_attempts_rows [OF rec] by blast
  have "k = 0 \<or> k = 1" using k by (simp split: list.splits) linarith
  then have made: "\<exists>made \<in> {[], [key]}. attempted_items l = attempted_items (dg_ledger g) @ made" using rows(2) by auto
  show ?thesis
  proof (cases "\<exists>s stops g2. result_state r ?n (claims_of l key) (item_max_of (dg_arming g)) = Inr (s, stops) \<and> final_or_retry won key s stops (g\<lparr>dg_ledger := l\<rparr>) = Inr g2")
    case False
    then have "g' = g\<lparr>dg_ledger := l\<rparr>" using run rec by (auto simp: conclude_claim_def allowed Let_def split: sum.splits)
    then show ?thesis using rows(1) made by simp
  next
    case True
    then obtain s stops g2 where s: "result_state r ?n (claims_of l key) (item_max_of (dg_arming g)) = Inr (s, stops)"
      and fin: "final_or_retry won key s stops (g\<lparr>dg_ledger := l\<rparr>) = Inr g2" by blast
    let ?ev = "claim_event (dg_lease g) won key s"
    obtain l3 where l3: "append_event key ?ev l = Inr l3" and g2: "g2 = g\<lparr>dg_ledger := l3, dg_stopped := (dg_stopped g \<or> stops),
        dg_outcomes := dg_outcomes g @ [(key, evidence_wins (won key) s)]\<rparr>"
      using fin by (auto simp: final_or_retry_def bindR_eq_Inr)
    have g': "g' = g2" using run rec s fin by (simp add: conclude_claim_def allowed)
    have kept: "attempted_items l3 = attempted_items l" using l3 by (auto simp: append_event_Inr attempted_items_def)
    have retry: "le_state ?ev = ''retry_wait'' \<longrightarrow> claims_of l key < item_max_of (dg_arming g)"
      using result_retry [OF s runs, of key] by (simp add: claim_event_def)
    have "le_action ?ev = ''record''" by (simp add: claim_event_def)
    then show ?thesis using rows(1) made l3 kept retry unfolding g' g2 by auto
  qed
qed

lemma discover_one_step:
  assumes keys: "distinct (map li_key (lg_items (dg_ledger g)))" and runs: "runs_ok won" and i: "i \<in> set (lg_items (dg_ledger g))"
    and run: "discover_one gates att won r i g = (g', e)"
  shows "g' = g \<or> claims_one (li_key i) g g'"
proof (cases "refuse_one (dg_plan g) gates i g = None \<and> (\<exists>l1. claim_item (li_key i) (dg_lease g) None (dg_ledger g) = Inr l1)")
  case False
  then show ?thesis using run by (auto simp: discover_one_def split: option.splits sum.splits)
next
  case True
  then obtain l1 where none: "refuse_one (dg_plan g) gates i g = None" and claim: "claim_item (li_key i) (dg_lease g) None (dg_ledger g) = Inr l1" by blast
  note ok = refuse_one_None [OF none]
  note named = item_named_of [OF keys i]
  note step = claim_step [OF keys named claim]
  let ?g = "g\<lparr>dg_ledger := l1, dg_attempted := li_key i # dg_attempted g\<rparr>"
  have below: "int (claims_since_requeue i) < item_max_of (dg_arming g)" using ok(2) named by (simp add: claims_of_def)
  have "conclude_claim att won r (li_key i) ?g = (g', e)" using run none claim by (simp add: discover_one_def)
  moreover have "attempts_allowed (dg_arming ?g) = 1" using config_attempts [OF ok(3)] by simp
  ultimately have concluded: "conclude_claim att won r (li_key i) ?g = (g', e)" "attempts_allowed (dg_arming ?g) = 1" .
  from conclude_claim_step [OF runs concluded] have kept: "dg_attempted g' = li_key i # dg_attempted g" "dg_arming g' = dg_arming g"
      "\<exists>made \<in> {[], [li_key i]}. attempted_items (dg_ledger g') = attempted_items (dg_ledger g) @ made"
    and ends: "lg_items (dg_ledger g') = lg_items l1 \<or> (\<exists>l2 l3 ev. lg_items l2 = lg_items l1 \<and> append_event (li_key i) ev l2 = Inr l3 \<and>
        lg_items (dg_ledger g') = lg_items l3 \<and> le_action ev = ''record'' \<and>
        (le_state ev = ''retry_wait'' \<longrightarrow> claims_of l2 (li_key i) < item_max_of (dg_arming g)))"
    using step(2) [OF refl] by (simp_all add: attempted_items_def)
  have "\<exists>es. claim_chain (dg_lease g) (int (claims_since_requeue i)) (item_max_of (dg_arming g)) es \<and>
      lg_items (dg_ledger g') = lg_items (update_item (li_key i) es (dg_ledger g))"
    using ends
  proof (elim disjE exE conjE)
    assume "lg_items (dg_ledger g') = lg_items l1"
    then show ?thesis using step(1) [OF refl] by (intro exI [of _ "[claim_of (dg_lease g)]"]) (simp add: claim_chain_def)
  next
    fix l2 l3 ev
    assume l: "lg_items l2 = lg_items l1" "append_event (li_key i) ev l2 = Inr l3" "lg_items (dg_ledger g') = lg_items l3"
      and ev: "le_action ev = ''record''" "le_state ev = ''retry_wait'' \<longrightarrow> claims_of l2 (li_key i) < item_max_of (dg_arming g)"
    then show ?thesis using step(3) [OF l(1)] step(4) [OF l(1,2)]
      by (intro exI [of _ "[claim_of (dg_lease g), ev]"]) (simp add: claim_chain_def)
  qed
  then show ?thesis using ok(1) below named kept unfolding claims_one_def by blast
qed

definition within_maximum :: "int \<Rightarrow> ledger_item \<Rightarrow> bool" where
  "within_maximum mx i \<longleftrightarrow> int (claims_since_requeue i) \<le> mx \<and> (item_state i = ''retry_wait'' \<longrightarrow> int (claims_since_requeue i) < mx)"

definition claim_counts :: "ledger \<Rightarrow> (string \<times> nat) list" where
  "claim_counts l = map (\<lambda>i. (li_key i, claims_since_requeue i)) (lg_items l)"

lemma claims_one_effect:
  assumes "claims_one key g g'" and "distinct (map li_key (lg_items (dg_ledger g)))"
  shows "map li_key (lg_items (dg_ledger g')) = map li_key (lg_items (dg_ledger g))"
    "claim_counts (dg_ledger g') = map (\<lambda>(k, n). (k, if k = key then n + 1 else n)) (claim_counts (dg_ledger g))"
    "\<forall>i \<in> set (lg_items (dg_ledger g)). within_maximum (item_max_of (dg_arming g)) i \<Longrightarrow>
       \<forall>i \<in> set (lg_items (dg_ledger g')). within_maximum (item_max_of (dg_arming g')) i"
proof -
  let ?mx = "item_max_of (dg_arming g)"
  obtain i es where i: "item_named (dg_ledger g) key = Some i" "int (claims_since_requeue i) < ?mx"
      "claim_chain (dg_lease g) (int (claims_since_requeue i)) ?mx es"
      "lg_items (dg_ledger g') = lg_items (update_item key es (dg_ledger g))"
    using assms(1) unfolding claims_one_def by blast
  show "map li_key (lg_items (dg_ledger g')) = map li_key (lg_items (dg_ledger g))" by (simp add: i(4))
  show "claim_counts (dg_ledger g') = map (\<lambda>(k, n). (k, if k = key then n + 1 else n)) (claim_counts (dg_ledger g))"
    by (simp add: claim_counts_def i(4) claims_chain(1) [OF i(3)] comp_def if_distrib cong: if_cong)
  assume ok: "\<forall>i \<in> set (lg_items (dg_ledger g)). within_maximum ?mx i"
  have here: "i \<in> set (lg_items (dg_ledger g))" "li_key i = key" using item_named_Some [OF i(1)] by simp_all
  have only: "x = i" if "x \<in> set (lg_items (dg_ledger g))" "li_key x = key" for x
    using assms(2) that here by (auto simp: distinct_map inj_on_def)
  have "within_maximum ?mx (add_events es i)"
    using i(2,3) claims_chain(1) [OF i(3), of i] claims_chain(2) [OF i(3)] by (auto simp: within_maximum_def claim_chain_def claim_of_def)
  then show "\<forall>i \<in> set (lg_items (dg_ledger g')). within_maximum (item_max_of (dg_arming g')) i"
    using ok only assms(1) by (auto simp: i(4) claims_one_def)
qed

lemma eligible_member: "eligible_items p m att l = i # others \<Longrightarrow> i \<in> set (lg_items l)"
proof -
  assume "eligible_items p m att l = i # others"
  then have "i \<in> set (eligible_items p m att l)" by simp
  then show ?thesis by (simp add: eligible_items_def discovery_rows_def)
qed

definition claims_each :: "string list \<Rightarrow> discovering \<Rightarrow> discovering \<Rightarrow> bool" where
  "claims_each new g g' \<longleftrightarrow> dg_attempted g' = new @ dg_attempted g \<and> distinct new \<and> set new \<inter> set (dg_attempted g) = {} \<and>
     claim_counts (dg_ledger g') = map (\<lambda>(k, n). (k, if k \<in> set new then n + 1 else n)) (claim_counts (dg_ledger g)) \<and>
     (\<exists>made. attempted_items (dg_ledger g') = attempted_items (dg_ledger g) @ made \<and> distinct made \<and> set made \<subseteq> set new) \<and>
     (\<forall>i \<in> set (lg_items (dg_ledger g')). within_maximum (item_max_of (dg_arming g)) i)"

lemma claims_each_Nil: "\<forall>i \<in> set (lg_items (dg_ledger g)). within_maximum (item_max_of (dg_arming g)) i \<Longrightarrow> claims_each [] g g"
  by (simp add: claims_each_def case_prod_unfold)

lemma claims_each_Cons:
  assumes "claims_one key g g1" and "claims_each new g1 g'" and "distinct (map li_key (lg_items (dg_ledger g)))"
  shows "claims_each (new @ [key]) g g'"
proof -
  note eff = claims_one_effect(2) [OF assms(1,3)]
  have "map (\<lambda>(k, n). (k, if k \<in> set new then n + 1 else n)) (map (\<lambda>(k, n). (k, if k = key then n + 1 else n)) xs) =
      map (\<lambda>(k, n). (k, if k \<in> set (new @ [key]) then n + 1 else n)) xs" if "key \<notin> set new" for xs :: "(string \<times> nat) list"
    using that by auto
  then show ?thesis using assms(1,2) eff unfolding claims_each_def claims_one_def by auto
qed

lemma discovery_run_claims:
  assumes "distinct (map li_key (lg_items (dg_ledger g)))" and "runs_ok won"
    and "\<forall>i \<in> set (lg_items (dg_ledger g)). within_maximum (item_max_of (dg_arming g)) i" and "discovery_run won ws g = (g', e)"
  shows "\<exists>new. claims_each new g g'"
  using assms(1,3,4)
proof (induction ws arbitrary: g)
  case Nil
  then show ?case using claims_each_Nil by auto
next
  case (Cons w ws)
  show ?case
  proof (cases "eligible_items (dg_plan g) (nat (item_max_of (dg_arming g))) (dg_attempted g) (dg_ledger g)")
    case Nil
    then show ?thesis using Cons.prems claims_each_Nil by auto
  next
    case el: (Cons i others)
    obtain g1 e1 where one: "discover_one (dw_gates w) (dw_attempts w) won (dw_result w) i g = (g1, e1)" by fastforce
    have rest: "if e1 = None then discovery_run won ws g1 = (g', e) else g' = g1"
      using Cons.prems(3) el one by (auto split: option.splits)
    from discover_one_step [OF Cons.prems(1) assms(2) eligible_member [OF el] one] show ?thesis
    proof
      assume "g1 = g"
      then show ?thesis using rest Cons.IH [OF Cons.prems(1,2)] claims_each_Nil [OF Cons.prems(2)] by (auto split: if_splits)
    next
      assume claimed: "claims_one (li_key i) g g1"
      note eff = claims_one_effect [OF claimed Cons.prems(1)]
      have keys1: "distinct (map li_key (lg_items (dg_ledger g1)))" using eff(1) Cons.prems(1) by simp
      have "\<exists>new. claims_each new g1 g'"
        using rest Cons.IH [OF keys1 eff(3) [OF Cons.prems(2)]] claims_each_Nil [OF eff(3) [OF Cons.prems(2)]] by (auto split: if_splits)
      then show ?thesis using claims_each_Cons [OF claimed _ Cons.prems(1)] by blast
    qed
  qed
qed

text \<open>C6: The claim discipline of a discovery slice, whatever the transport answers and however many attempts a governed
  request would make: each item is claimed at most once in the slice, its claims since the last re-queue never pass the armed
  maximum, an item at the maximum is never left waiting for a retry, and the HTTP attempts it makes are for items it claimed, at most
  one for each (the transport makes up to the armed number; a slice refuses to claim under an arming where that is not one).\<close>

theorem slice_claim_discipline:
  assumes "distinct (map li_key (lg_items (dg_ledger g)))" and "runs_ok won"
    and "\<forall>i \<in> set (lg_items (dg_ledger g)). within_maximum (item_max_of (dg_arming g)) i" and "discovery_run won ws g = (g', e)"
  shows "\<exists>new. dg_attempted g' = new @ dg_attempted g \<and> distinct new \<and> set new \<inter> set (dg_attempted g) = {} \<and>
     claim_counts (dg_ledger g') = map (\<lambda>(k, n). (k, if k \<in> set new then n + 1 else n)) (claim_counts (dg_ledger g)) \<and>
     (\<exists>made. attempted_items (dg_ledger g') = attempted_items (dg_ledger g) @ made \<and> distinct made \<and> set made \<subseteq> set new) \<and>
     (\<forall>i \<in> set (lg_items (dg_ledger g')). within_maximum (item_max_of (dg_arming g)) i)"
  using discovery_run_claims [OF assms] unfolding claims_each_def .

end
