(* ===== verification/ClosureFacts.thy ===== *)
theory ClosureFacts
  imports PlanFacts RecoveryFacts
begin

text \<open>
  Facts of planning and closure: creating a plan's items is complete, leaves every other item alone and does nothing the
  second time; a plan is closed exactly when each of its items exists and is final; and the issuer evidence of a closed
  plan is recorded by one pass only, whatever is asked again.
\<close>

section \<open>Creating the items of a plan\<close>

definition names :: "ledger_item \<Rightarrow> work_subject \<Rightarrow> bool" where
  "names i w \<longleftrightarrow> li_key i = ws_key w \<and> li_kind i = ws_kind w"

lemma ensure_item_Inr:
  assumes "ensure_item kind key None None l = Inr (l', i, created)" and "kind \<in> set discovery_kinds"
  shows "li_key i = key \<and> li_kind i = kind \<and>
    (if created then item_named l key = None \<and> item_state i = ''pending'' \<and> l' = l\<lparr>lg_items := lg_items l @ [i]\<rparr>
     else item_named l key = Some i \<and> l' = l)"
proof -
  have "kind \<noteq> ''document''" using assms(2) by (auto simp: discovery_kinds_def)
  then show ?thesis using assms(1)
    by (cases "item_named l key")
      (auto simp: ensure_item_def bindR_eq_Inr guardR_def default_first_state_def item_state_def li_current_def li_events_def
        Let_def dest: item_named_Some split: if_splits)
qed

lemma ensure_existing:
  assumes "item_named l key = Some i" and "li_kind i = kind" and "kind \<in> set discovery_kinds"
  shows "ensure_item kind key None None l = Inr (l, i, False)"
proof -
  have "kind = ''feed_window'' \<or> kind = ''listing''" using assms(3) by (simp add: discovery_kinds_def)
  then have "check_transition kind no_state (default_first_state kind) ''create'' None = Inr ()"
    by (elim disjE) (simp_all add: default_first_state_def check_transition_def transition_allowed_def transitions_def
      discovery_transitions_def discovery_kinds_def no_state_def guardR_def)
  then show ?thesis using assms by (simp add: ensure_item_def guardR_def Let_def)
qed

lemma ensure_all_Inr:
  assumes "ensure_all ws l = Inr (l', made)" and "list_all (\<lambda>w. ws_kind w \<in> set discovery_kinds) ws" and "distinct (map li_key (lg_items l))"
  shows "\<exists>new. lg_items l' = lg_items l @ new \<and> distinct (map li_key (lg_items l')) \<and> list_all2 names new made \<and> set made \<subseteq> set ws \<and>
    list_all (\<lambda>i. item_state i = ''pending'') new \<and> (\<forall>w \<in> set ws. \<exists>i \<in> set (lg_items l'). names i w)"
  using assms
proof (induction ws arbitrary: l made)
  case (Cons w ws)
  from Cons.prems(1) obtain l1 i created made1 where one: "ensure_item (ws_kind w) (ws_key w) None None l = Inr (l1, i, created)"
    and rest: "ensure_all ws l1 = Inr (l', made1)" and made: "made = (if created then w # made1 else made1)"
    by (auto simp: bindR_eq_Inr)
  have kind: "ws_kind w \<in> set discovery_kinds" using Cons.prems(2) by simp
  note i = ensure_item_Inr [OF one kind]
  have keys: "distinct (map li_key (lg_items l1))"
    using i Cons.prems(3) item_named_None [of l "ws_key w"] by (auto split: if_splits)
  obtain new where new: "lg_items l' = lg_items l1 @ new" "distinct (map li_key (lg_items l'))" "list_all2 names new made1" "set made1 \<subseteq> set ws"
      "list_all (\<lambda>i. item_state i = ''pending'') new" "\<forall>w \<in> set ws. \<exists>i \<in> set (lg_items l'). names i w"
    using Cons.IH [OF rest _ keys] Cons.prems(2) by auto
  have "i \<in> set (lg_items l1)" using i item_named_Some by (auto split: if_splits)
  then have here: "\<exists>i \<in> set (lg_items l'). names i w" using i new(1) by (auto simp: names_def)
  show ?case
  proof (cases created)
    case True
    moreover have "names i w" using i by (simp add: names_def)
    ultimately show ?thesis using i new here made by (intro exI [of _ "i # new"]) auto
  next
    case False
    then show ?thesis using i new here made by (intro exI [of _ new]) auto
  qed
qed simp

lemma ensure_all_again:
  assumes "list_all (\<lambda>w. ws_kind w \<in> set discovery_kinds) ws" and "distinct (map li_key (lg_items l))"
    and "\<forall>w \<in> set ws. \<exists>i \<in> set (lg_items l). names i w"
  shows "ensure_all ws l = Inr (l, [])"
  using assms
proof (induction ws)
  case (Cons w ws)
  then obtain i where "i \<in> set (lg_items l)" "names i w" by auto
  then have "item_named l (ws_key w) = Some i" "li_kind i = ws_kind w" using item_named_of [OF Cons.prems(2), of i] by (simp_all add: names_def)
  then have "ensure_item (ws_kind w) (ws_key w) None None l = Inr (l, i, False)" using ensure_existing Cons.prems(1) by simp
  then show ?case using Cons by simp
qed simp

lemma subject_kinds:
  "feed_subject d = Inr w \<Longrightarrow> ws_kind w = ''feed_window''" "listing_subject s = Inr w \<Longrightarrow> ws_kind w = ''listing''"
  by (auto simp: feed_subject_def feed_window_def listing_subject_def bare_subject_def guardR_eq_Inr split: sum.splits)

lemma plan_kinds:
  assumes "plan_subjects months symbols = Inr ws"
  shows "list_all (\<lambda>w. ws_kind w \<in> set discovery_kinds) ws"
proof -
  obtain fs ls where parts: "mapR feed_subject months = Inr fs" "mapR listing_subject symbols = Inr ls" "ws = fs @ ls"
    using assms by (auto simp: plan_subjects_def bindR_eq_Inr)
  have "list_all (\<lambda>w. ws_kind w \<in> set discovery_kinds) fs"
    using mapR_Inr_set [OF parts(1)] subject_kinds(1) by (fastforce simp: list_all_iff discovery_kinds_def)
  moreover have "list_all (\<lambda>w. ws_kind w \<in> set discovery_kinds) ls"
    using mapR_Inr_set [OF parts(2)] subject_kinds(2) by (fastforce simp: list_all_iff discovery_kinds_def)
  ultimately show ?thesis by (simp add: parts(3))
qed

lemma plan_keys:
  assumes "discovery_plan_of a (Some f) (Some l) syms m = Inr p"
  shows "\<exists>ws. plan_subjects (pl_months p) (pl_symbols p) = Inr ws \<and> pl_keys p = map ws_key ws"
  using assms by (auto simp: discovery_plan_of_def bindR_eq_Inr)

lemma sorted_set_empty_iff: "sorted_set xs = [] \<longleftrightarrow> xs = []"
  by (metis set_empty set_remdups set_sort sorted_set_def)

lemma closure_complete:
  assumes "\<forall>k \<in> set (pl_keys p). \<exists>i \<in> set (lg_items l). li_key i = k \<and> li_kind i \<in> set discovery_kinds"
  shows "cs_missing (closure_of p l) = []"
proof -
  have "filter (\<lambda>k. k \<notin> set (map li_key (filter (\<lambda>i. in_plan p (li_key i)) (discovery_rows l)))) (pl_keys p) = []"
    using assms by (auto simp: filter_empty_conv discovery_rows_def in_plan_def)
  then show ?thesis by (simp add: closure_of_def sorted_set_def Let_def)
qed

lemma out_of_plan_kept:
  assumes "lg_items l' = lg_items l @ new" and "list_all (\<lambda>i. in_plan p (li_key i)) new"
  shows "cs_out_of_plan (closure_of p l') = cs_out_of_plan (closure_of p l)"
proof -
  have "filter (\<lambda>i. \<not> in_plan p (li_key i)) (discovery_rows l') = filter (\<lambda>i. \<not> in_plan p (li_key i)) (discovery_rows l)"
    using assms by (simp add: discovery_rows_def filter_sort filter_empty_conv list_all_iff)
  then show ?thesis by (simp add: closure_of_def Let_def)
qed

text \<open>Creating the items of a plan is complete, additive and idempotent: afterwards no item of the plan is missing, the new
  items are pending items of the plan, every item that was there and every item outside the plan is as it was, and creating
  them again changes nothing.\<close>

theorem planning_completes:
  assumes "ledgers l" and "discovery_plan_of a (Some f) (Some t) syms m = Inr p" and "create_plan_items p l = Inr (l', months, listings, existing)"
  shows "cs_missing (closure_of p l') = [] \<and> cs_out_of_plan (closure_of p l') = cs_out_of_plan (closure_of p l) \<and>
    (\<exists>new. lg_items l' = lg_items l @ new \<and> list_all (\<lambda>i. item_state i = ''pending'' \<and> in_plan p (li_key i)) new \<and>
       length new = months + listings \<and> months + listings + existing = length (pl_keys p)) \<and>
    create_plan_items p l' = Inr (l', 0, 0, length (pl_keys p))"
proof -
  have keys: "distinct (map li_key (lg_items l))" using ledgers_ok [OF assms(1)] by (simp add: ledger_ok_def)
  obtain ws where ws: "plan_subjects (pl_months p) (pl_symbols p) = Inr ws" "pl_keys p = map ws_key ws" using plan_keys [OF assms(2)] by blast
  note kinds = plan_kinds [OF ws(1)]
  obtain made where made: "ensure_all ws l = Inr (l', made)" "months = length (filter (\<lambda>w. ws_kind w = ''feed_window'') made)"
      "listings = length (filter (\<lambda>w. ws_kind w = ''listing'') made)" "existing = length ws - length made"
    using assms(3) ws(1) by (auto simp: create_plan_items_def bindR_eq_Inr)
  obtain new where new: "lg_items l' = lg_items l @ new" "distinct (map li_key (lg_items l'))" "list_all2 names new made" "set made \<subseteq> set ws"
      "list_all (\<lambda>i. item_state i = ''pending'') new" and all: "\<forall>w \<in> set ws. \<exists>i \<in> set (lg_items l'). names i w"
    using ensure_all_Inr [OF made(1) kinds keys] by blast
  have inside: "list_all (\<lambda>i. in_plan p (li_key i)) new"
    using new(3,4) unfolding list_all_iff in_plan_def ws(2) names_def by (fastforce simp: list_all2_conv_all_nth in_set_conv_nth)
  have count: "months + listings = length made" unfolding made(2,3)
    using kinds new(4) by (induction made) (auto simp: list_all_iff discovery_kinds_def)
  have "length made \<le> length ws"
  proof -
    have "map ws_key made = map li_key new" using new(3) by (induction rule: list_all2_induct) (auto simp: names_def)
    then have "distinct (map ws_key made)" using new(2) by (simp add: new(1))
    then have "distinct made" by (simp add: distinct_map)
    then show ?thesis using new(4) by (metis card_length card_mono distinct_card finite_set le_trans)
  qed
  then have total: "months + listings + existing = length (pl_keys p)" by (simp add: count made(4) ws(2))
  have "cs_missing (closure_of p l') = []"
    by (rule closure_complete) (use all kinds in \<open>auto simp: ws(2) names_def list_all_iff\<close>, metis)
  moreover have "create_plan_items p l' = Inr (l', 0, 0, length (pl_keys p))"
    using ensure_all_again [OF kinds new(2) all] ws by (simp add: create_plan_items_def)
  ultimately show ?thesis
    using out_of_plan_kept [OF new(1) inside] new(1,5) inside total count list_all2_lengthD [OF new(3)] by (auto simp: list_all_iff)
qed

text \<open>A plan with work is closed exactly when every one of its natural keys names a discovery item of the ledger in a final
  state. Items outside the plan never matter.\<close>

theorem closure_is_final:
  assumes "ledgers l" and "discovery_plan_of a (Some f) (Some t) syms m = Inr p" and "pl_keys p \<noteq> []"
  shows "plan_closed p (closure_of p l) \<longleftrightarrow>
    (\<forall>k \<in> set (pl_keys p). \<exists>i. item_named l k = Some i \<and> in_discovery i \<and> item_state i \<in> set discovery_final)"
proof -
  have keys: "distinct (map li_key (lg_items l))" using ledgers_ok [OF assms(1)] by (simp add: ledger_ok_def)
  have rows: "i \<in> set (discovery_rows l) \<longleftrightarrow> item_named l (li_key i) = Some i \<and> in_discovery i" for i
    using item_named_of [OF keys, of i] item_named_Some [of l "li_key i" i] by (auto simp: discovery_rows_def in_discovery_def)
  have missing: "cs_missing (closure_of p l) = [] \<longleftrightarrow> (\<forall>k \<in> set (pl_keys p). \<exists>i \<in> set (discovery_rows l). li_key i = k)"
    by (auto simp: closure_of_def Let_def sorted_set_empty_iff filter_empty_conv in_plan_def)
  have non_final: "cs_non_final (closure_of p l) = [] \<longleftrightarrow>
      (\<forall>i \<in> set (discovery_rows l). li_key i \<in> set (pl_keys p) \<longrightarrow> item_state i \<in> set discovery_final)"
    by (auto simp: closure_of_def Let_def filter_empty_conv in_plan_def)
  show ?thesis unfolding plan_closed_def missing non_final
  proof (intro iffI conjI ballI impI; (elim conjE)?)
    fix k assume k: "k \<in> set (pl_keys p)" and all: "\<forall>k \<in> set (pl_keys p). \<exists>i \<in> set (discovery_rows l). li_key i = k"
      and final: "\<forall>i \<in> set (discovery_rows l). li_key i \<in> set (pl_keys p) \<longrightarrow> item_state i \<in> set discovery_final"
    obtain i where i: "i \<in> set (discovery_rows l)" "li_key i = k" using all k by blast
    then have "item_named l k = Some i" "in_discovery i" "item_state i \<in> set discovery_final" using rows final k by auto
    then show "\<exists>i. item_named l k = Some i \<and> in_discovery i \<and> item_state i \<in> set discovery_final" by blast
  next
    fix k assume "k \<in> set (pl_keys p)"
      and all: "\<forall>k \<in> set (pl_keys p). \<exists>i. item_named l k = Some i \<and> in_discovery i \<and> item_state i \<in> set discovery_final"
    then obtain i where i: "item_named l k = Some i" "in_discovery i" by blast
    then have "li_key i = k" using item_named_Some by blast
    then show "\<exists>i \<in> set (discovery_rows l). li_key i = k" using rows [of i] i by auto
  next
    fix i assume i: "i \<in> set (discovery_rows l)" and "li_key i \<in> set (pl_keys p)"
      and all: "\<forall>k \<in> set (pl_keys p). \<exists>i. item_named l k = Some i \<and> in_discovery i \<and> item_state i \<in> set discovery_final"
    then obtain j where "item_named l (li_key i) = Some j" "item_state j \<in> set discovery_final" by blast
    then show "item_state i \<in> set discovery_final" using rows [of i] i by simp
  qed (rule assms(3))
qed

section \<open>The pass of a closed plan\<close>

lemma sort_key_last:
  assumes "\<forall>x \<in> set xs. f x \<le> f y"
  shows "sort_key f (xs @ [y]) = sort_key f xs @ [y]"
proof -
  have "insort_key f x (zs @ [y]) = insort_key f x zs @ [y]" if "f x \<le> f y" for x zs
    using that by (induction zs) auto
  then show ?thesis using assms by (induction xs) simp_all
qed

lemma sort_key_map:
  assumes "\<And>x. f (g x) = f x"
  shows "sort_key f (map g xs) = map g (sort_key f xs)"
proof -
  have "insort_key f (g x) (map g zs) = map g (insort_key f x zs)" for x zs by (induction zs) (simp_all add: assms)
  then show ?thesis by (induction xs) simp_all
qed

definition mark_done :: "int \<Rightarrow> link_pass \<Rightarrow> link_pass" where
  "mark_done n p = (if lp_no p = n then p\<lparr>lp_done := True\<rparr> else p)"

lemma mark_done_sel [simp]:
  "lp_no (mark_done n p) = lp_no p" "lp_kind (mark_done n p) = lp_kind p" "lp_fingerprint (mark_done n p) = lp_fingerprint p"
  "lp_done (mark_done n p) \<longleftrightarrow> lp_done p \<or> lp_no p = n"
  by (simp_all add: mark_done_def)

lemma pass_done_eq: "pass_done n = map (mark_done n)"
  by (rule ext) (simp add: pass_done_def mark_done_def)

lemma ie4_pass_done: "ie4_pass fp (pass_done n ps) = map_option (mark_done n) (ie4_pass fp ps)"
  by (simp add: ie4_pass_def plan_passes_def pass_done_eq filter_map comp_def sort_key_map split: list.split)

lemma fold_max_ge: "(x :: int) \<in> set xs \<or> x \<le> a \<Longrightarrow> x \<le> fold max xs a"
proof (induction xs arbitrary: a)
  case (Cons y ys)
  have "x \<in> set ys \<or> x \<le> max y a" using Cons.prems by auto
  then show ?case using Cons.IH by simp
qed simp

lemma next_number_above: "p \<in> set ps \<Longrightarrow> lp_no p < next_pass_number ps"
  using fold_max_ge [of "lp_no p" "map lp_no ps" 0] by (auto simp: next_pass_number_def)

lemma ie4_pass_append:
  assumes "ie4_pass fp ps = Some k" and "\<forall>p \<in> set ps. lp_no p \<le> lp_no y \<or> lp_kind y \<noteq> ''ie4''"
  shows "ie4_pass fp (ps @ [y]) = Some k"
proof (cases "lp_kind y = ''ie4'' \<and> lp_fingerprint y = fp")
  case True
  then have "plan_passes ''ie4'' fp (ps @ [y]) = plan_passes ''ie4'' fp ps @ [y]"
    using assms(2) by (simp add: plan_passes_def sort_key_last)
  then show ?thesis using assms(1) by (auto simp: ie4_pass_def split: list.splits)
next
  case False
  then have "plan_passes ''ie4'' fp (ps @ [y]) = plan_passes ''ie4'' fp ps" by (auto simp: plan_passes_def)
  then show ?thesis using assms(1) by (simp add: ie4_pass_def)
qed

text \<open>The pass of a plan that once succeeded as number \<open>n\<close>, the numbers in \<open>again\<close> having been re-queued since.\<close>

definition passed_as :: "int \<Rightarrow> string \<Rightarrow> int list \<Rightarrow> link_pass list \<Rightarrow> bool" where
  "passed_as n fp again ps \<longleftrightarrow> (link_pass_identity \<notin> set again \<longrightarrow> identity_done ps) \<and>
     (\<exists>k. ie4_pass fp ps = Some k \<and> lp_no k = n \<and> (n \<notin> set again \<longrightarrow> lp_done k))"

lemma passed_as_append:
  assumes "passed_as n fp again ps" and "lp_kind y = ''ie4'' \<Longrightarrow> lp_no y = next_pass_number ps"
  shows "passed_as n fp again (ps @ [y])"
proof -
  have "\<forall>p \<in> set ps. lp_no p \<le> lp_no y \<or> lp_kind y \<noteq> ''ie4''" using assms(2) next_number_above less_imp_le by metis
  then show ?thesis using assms(1) ie4_pass_append by (auto simp: passed_as_def identity_done_def)
qed

lemma identity_done_done: "identity_done ps \<Longrightarrow> identity_done (pass_done m ps)"
  by (auto simp: identity_done_def pass_done_eq list_ex_iff)

lemma passed_as_done: "passed_as n fp again ps \<Longrightarrow> passed_as n fp again (pass_done m ps)"
  using identity_done_done by (auto simp: passed_as_def ie4_pass_done)

lemma requeued_passes:
  assumes "requeue_pass m reason st = Inr st'" and "passed_as n fp again (ds_passes st)"
  shows "passed_as n fp (m # again) (ds_passes st')"
proof -
  define undo where "undo p = (if lp_no p = m then p\<lparr>lp_done := False\<rparr> else p)" for p :: link_pass
  have sel: "lp_no (undo p) = lp_no p" "lp_kind (undo p) = lp_kind p" "lp_fingerprint (undo p) = lp_fingerprint p"
    "lp_done (undo p) \<longleftrightarrow> lp_done p \<and> lp_no p \<noteq> m" for p by (simp_all add: undo_def)
  have ps: "ds_passes st' = map undo (ds_passes st)"
    using assms(1) by (auto simp: requeue_pass_def guardR_eq_Inr undo_def split: option.splits)
  have "ie4_pass fp (ds_passes st') = map_option undo (ie4_pass fp (ds_passes st))"
    by (simp add: ps ie4_pass_def plan_passes_def filter_map comp_def sel sort_key_map split: list.split)
  moreover have "identity_done (ds_passes st) \<Longrightarrow> m \<noteq> link_pass_identity \<Longrightarrow> identity_done (ds_passes st')"
    by (auto simp: ps identity_done_def list_ex_iff sel)
  ultimately show ?thesis using assms(2) by (auto simp: passed_as_def sel)
qed

lemma record_and_link_passes:
  assumes "record_and_link T H fresh inp n st = Inr (st', r)"
  shows "ds_passes st' = pass_done n (ds_passes st)" "ds_ledger st' = ds_ledger st"
proof -
  have "ds_passes st' = pass_done n (ds_passes st) \<and> ds_ledger st' = ds_ledger st"
    using assms by (auto simp: record_and_link_def bindR_eq_Inr Let_def split: prod.splits)
  then show "ds_passes st' = pass_done n (ds_passes st)" "ds_ledger st' = ds_ledger st" by simp_all
qed

text \<open>What may happen between two passes: events in the ledger, passes of every kind, and passes that raise, which leave behind
  at most a new pending pass and part of their evidence.\<close>

inductive discovery_step :: "discovery_state \<Rightarrow> discovery_state \<Rightarrow> bool" where
  moves: "discovery_step st (st\<lparr>ds_ledger := l\<rparr>)"
| identifies: "identity_pass T H fresh companies sweeps st = Inr (st', r) \<Longrightarrow> discovery_step st st'"
| closes: "closure_pass T H fresh sha p inp st = Inr (st', r') \<Longrightarrow> discovery_step st st'"
| later: "late_pass T H fresh sha p inp st = Inr (st', r') \<Longrightarrow> discovery_step st st'"
| breaks: "y = [] \<or> y = [new_pass kind fp (ds_passes st)] \<or>
    y = [\<lparr>lp_no = link_pass_identity, lp_kind = ''identity'', lp_fingerprint = [], lp_done = False\<rparr>] \<Longrightarrow>
    discovery_step st (st\<lparr>ds_passes := ds_passes st @ y, ds_evidence := ev\<rparr>)"

text \<open>A history of such steps and of the operator's re-queues, with the numbers of the passes re-queued.\<close>

inductive discovery_history :: "int list \<Rightarrow> discovery_state \<Rightarrow> discovery_state \<Rightarrow> bool" where
  start: "discovery_history [] st st"
| goes_on: "discovery_history again st st1 \<Longrightarrow> discovery_step st1 st2 \<Longrightarrow> discovery_history again st st2"
| requeued: "discovery_history again st st1 \<Longrightarrow> requeue_pass n reason st1 = Inr st2 \<Longrightarrow> discovery_history (n # again) st st2"

lemma sort_key_Nil: "sort_key f xs = [] \<longleftrightarrow> xs = []"
  by (metis set_empty set_sort)

lemma ie4_pass_new:
  assumes "ie4_pass fp ps = None"
  shows "ie4_pass fp (ps @ [new_pass ''ie4'' fp ps]) = Some (new_pass ''ie4'' fp ps)"
proof -
  have "filter (\<lambda>p. lp_kind p = ''ie4'' \<and> lp_fingerprint p = fp) ps = []"
    using assms by (simp add: ie4_pass_def plan_passes_def sort_key_Nil split: list.splits)
  then show ?thesis by (simp add: ie4_pass_def plan_passes_def new_pass_def)
qed

lemma closure_pass_cases:
  assumes "closure_pass T H fresh sha p inp st = Inr (st', r)"
  shows "identity_done (ds_passes st) \<and> plan_closed p (closure_of p (ds_ledger st)) \<and>
    ((\<exists>q. ie4_pass (fingerprint sha p) (ds_passes st) = Some q \<and> lp_done q \<and> st' = st \<and> r = AlreadyPassed (lp_no q)) \<or>
     (\<exists>y q. (y = [] \<or> y = [new_pass ''ie4'' (fingerprint sha p) (ds_passes st)]) \<and>
        ie4_pass (fingerprint sha p) (ds_passes st @ y) = Some q \<and>
        record_and_link T H fresh inp (lp_no q) (st\<lparr>ds_passes := ds_passes st @ y\<rparr>) = Inr (st', r)))"
proof (cases "ie4_pass (fingerprint sha p) (ds_passes st)")
  case None
  have "\<not> lp_done (new_pass ''ie4'' (fingerprint sha p) (ds_passes st))" by (simp add: new_pass_def)
  then show ?thesis using None assms ie4_pass_new [OF None] by (auto simp: closure_pass_def guardR_eq_Inr Let_def)
next
  case (Some q)
  then show ?thesis using assms by (auto simp: closure_pass_def guardR_eq_Inr Let_def split: if_splits)
qed

lemma new_pass_append:
  "passed_as n fp again ps \<Longrightarrow> y = [] \<or> y = [new_pass kind fp' ps] \<Longrightarrow> passed_as n fp again (ps @ y)"
  using passed_as_append [of n fp again ps] by (auto simp: new_pass_def)

lemma discovery_step_passed:
  assumes "discovery_step st st'" and "passed_as n fp again (ds_passes st)"
  shows "passed_as n fp again (ds_passes st')"
  using assms
proof (induction rule: discovery_step.induct)
  case (identifies T H fresh companies sweeps st st' r)
  let ?one = "\<lparr>lp_no = link_pass_identity, lp_kind = ''identity'', lp_fingerprint = [], lp_done = False\<rparr>"
  have "st' = st \<or> ds_passes st' = pass_done link_pass_identity (ds_passes st) \<or>
      ds_passes st' = pass_done link_pass_identity (ds_passes st @ [?one])"
    using identifies(1) by (auto simp: identity_pass_def Let_def split: option.splits if_splits prod.splits)
  then show ?case using identifies(2) passed_as_done passed_as_append [OF identifies(2), of ?one] by auto
next
  case (breaks y kind fp' st ev)
  consider "y = [] \<or> y = [new_pass kind fp' (ds_passes st)]"
    | "y = [\<lparr>lp_no = link_pass_identity, lp_kind = ''identity'', lp_fingerprint = [], lp_done = False\<rparr>]" using breaks(1) by blast
  then show ?case
  proof cases
    case 1
    show ?thesis using new_pass_append [OF breaks(2) 1] by simp
  next
    case 2
    have "passed_as n fp again (ds_passes st @ y)" unfolding 2 by (rule passed_as_append [OF breaks(2)]) simp
    then show ?thesis by simp
  qed
next
  case (closes T H fresh sha p inp st st' r')
  note cases = conjunct2 [OF conjunct2 [OF closure_pass_cases [OF closes(1)]]]
  show ?case
  proof (rule disjE [OF cases], goal_cases)
    case 1
    then show ?thesis using closes(2) by auto
  next
    case 2
    then obtain y and q :: link_pass where y: "y = [] \<or> y = [new_pass ''ie4'' (fingerprint sha p) (ds_passes st)]"
      and rec: "record_and_link T H fresh inp (lp_no q) (st\<lparr>ds_passes := ds_passes st @ y\<rparr>) = Inr (st', r')"
      by (elim exE conjE) (rule that; assumption)
    show ?thesis using passed_as_done [OF new_pass_append [OF closes(2) y]] record_and_link_passes(1) [OF rec] by simp
  qed
next
  case (later T H fresh sha p inp st st' r')
  then obtain m y where "ds_passes st' = pass_done m (ds_passes st @ [new_pass ''late'' y (ds_passes st)])"
    by (auto simp: late_pass_def bindR_eq_Inr guardR_eq_Inr Let_def split: option.splits prod.splits)
  then show ?case using passed_as_done new_pass_append later(2) by simp
qed simp

lemma discovery_history_passed:
  assumes "discovery_history again st st'" and "passed_as n fp [] (ds_passes st)"
  shows "passed_as n fp again (ds_passes st')"
  using assms by (induction rule: discovery_history.induct) (blast intro: discovery_step_passed requeued_passes)+

text \<open>C8: The issuer evidence of a plan is recorded once, unless an operator asks for it again. Once the closure pass of a plan has
  succeeded as pass number n, then at any later time, whatever passes (of this plan or another, succeeding or raising), ledger
  events and re-queues lie between, pass n is still the pass of that fingerprint. A closure pass of any plan with it is
  refused when the identity pass is not succeeded or the plan is not closed; else it records nothing and reports pass n; only
  when n itself has been re-queued and not passed since does it record evidence again, and then as pass n, never as another.
  While nobody re-queues n or the identity pass, neither of the two happens.\<close>

theorem one_pass_per_plan:
  assumes "closure_pass T H fresh sha p inp st = Inr (st1, Passed n res counts)" and "discovery_history again st1 st2"
    and "fingerprint sha q = fingerprint sha p"
  shows "\<exists>k. ie4_pass (fingerprint sha q) (ds_passes st2) = Some k \<and> lp_no k = n \<and>
    (n \<notin> set again \<longrightarrow> lp_done k) \<and> (link_pass_identity \<notin> set again \<longrightarrow> identity_done (ds_passes st2)) \<and>
    closure_pass T' H' fresh' sha q inp' st2 =
      (if \<not> identity_done (ds_passes st2) then Inl (Refused ''order'')
       else if \<not> plan_closed q (closure_of q (ds_ledger st2)) then Inl (Refused ''closure'')
       else if lp_done k then Inr (st2, AlreadyPassed n)
       else record_and_link T' H' fresh' inp' n st2)"
proof -
  let ?fp = "fingerprint sha p"
  from closure_pass_cases [OF assms(1)] obtain y k where id: "identity_done (ds_passes st)" and k: "ie4_pass ?fp (ds_passes st @ y) = Some k"
    and rec: "record_and_link T H fresh inp (lp_no k) (st\<lparr>ds_passes := ds_passes st @ y\<rparr>) = Inr (st1, Passed n res counts)" by auto
  have n: "n = lp_no k" using rec by (auto simp: record_and_link_def bindR_eq_Inr Let_def split: prod.splits)
  have "identity_done (pass_done (lp_no k) (ds_passes st @ y))"
    by (rule identity_done_done) (use id in \<open>simp add: identity_done_def\<close>)
  then have "passed_as n ?fp [] (ds_passes st1)"
    using k by (simp add: record_and_link_passes(1) [OF rec] passed_as_def ie4_pass_done n)
  from discovery_history_passed [OF assms(2) this] obtain j where "ie4_pass ?fp (ds_passes st2) = Some j" "lp_no j = n"
      "n \<notin> set again \<longrightarrow> lp_done j" "link_pass_identity \<notin> set again \<longrightarrow> identity_done (ds_passes st2)"
    by (auto simp: passed_as_def)
  then show ?thesis by (intro exI [of _ j]) (auto simp: closure_pass_def assms(3) guardR_def Let_def)
qed

end
