(* ===== verification/ClosureSamples.thy ===== *)
theory ClosureSamples
  imports ClosureFacts IssuerSamples
begin

text \<open>
  A concrete plan, January 2024 and one listing: its items are created, claimed, recorded and reconciled, and its issuer
  evidence is recorded. It applies the theorems on plans, the discovery slice and closure.
\<close>

definition sample_plan :: discovery_plan where
  "sample_plan = \<lparr>pl_arming = 1, pl_window = (Date 2024 1 1, Date 2024 1 31), pl_months = [Date 2024 1 1], pl_symbols = [''A.N0000''],
     pl_master = ''m'', pl_keys = [''feed_window:2024-01'', ''listing:A.N0000'']\<rparr>"

definition sample_subjects :: "work_subject list" where
  "sample_subjects = [(bare_subject ''feed_window'' ''2024-01'')\<lparr>ws_month := Some (Date 2024 1 1)\<rparr>,
     (bare_subject ''listing'' ''A.N0000'')\<lparr>ws_symbol := Some ''A.N0000''\<rparr>]"

lemma sample_months: "feed_months (Date 2024 1 1) (Date 2024 2 29) = Inr [Date 2024 1 1, Date 2024 2 1]"
  by code_simp

lemma sample_plan_of: "discovery_plan_of 1 (Some (Date 2024 1 1)) (Some (Date 2024 1 31)) [''A.N0000''] ''m'' = Inr sample_plan"
  by code_simp

lemma sample_subjects_eq: "plan_subjects (pl_months sample_plan) (pl_symbols sample_plan) = Inr sample_subjects"
  by code_simp

theorem feed_months_cover_witness:
  "(Date 2024 1 1 \<le> Date 2024 2 7 \<and> Date 2024 2 7 \<le> Date 2024 2 29) =
     (\<exists>!m. m \<in> set [Date 2024 1 1, Date 2024 2 1] \<and> (\<exists>e. month_end m = Inr e \<and> m \<le> Date 2024 2 7 \<and> Date 2024 2 7 \<le> e))"
  by (rule feed_months_cover [OF sample_months]) (simp_all add: valid_date_def days_in_month_def leap_year_def)

section \<open>Ledgers\<close>

lemma ensure_all_ledgers: "ensure_all ws l = Inr (l', made) \<Longrightarrow> ledgers l \<Longrightarrow> ledgers l'"
  by (induction ws arbitrary: l made) (auto simp: bindR_eq_Inr dest: ledgers.ensures)

lemma create_plan_ledgers: "create_plan_items p l = Inr (l', n) \<Longrightarrow> ledgers l \<Longrightarrow> ledgers l'"
  by (auto simp: create_plan_items_def bindR_eq_Inr dest: ensure_all_ledgers)

lemma append_events_ledgers: "append_events key es l = Inr l' \<Longrightarrow> ledgers l \<Longrightarrow> ledgers l'"
  by (induction es arbitrary: l) (auto simp: bindR_eq_Inr dest: ledgers.appends)

definition pending_item :: "string \<Rightarrow> string \<Rightarrow> ledger_item" where
  "pending_item kind key = \<lparr>li_kind = kind, li_key = key,
     li_first = \<lparr>le_state = ''pending'', le_action = ''create'', le_reason = None, le_lease = None\<rparr>, li_later = []\<rparr>"

definition planned_ledger :: ledger where
  "planned_ledger = \<lparr>lg_items = [pending_item ''feed_window'' ''feed_window:2024-01'', pending_item ''listing'' ''listing:A.N0000''],
     lg_attempts = [], lg_outcomes = [], lg_blocks = [], lg_leases = []\<rparr>"

definition nothing :: ledger where
  "nothing = \<lparr>lg_items = [], lg_attempts = [], lg_outcomes = [], lg_blocks = [], lg_leases = []\<rparr>"

lemma sample_created: "create_plan_items sample_plan nothing = Inr (planned_ledger, 1, 1, 0)"
  by code_simp

lemma nothing_reached: "ledgers nothing"
  unfolding nothing_def by (rule ledgers.empty)

theorem planning_completes_witness:
  "create_plan_items sample_plan planned_ledger = Inr (planned_ledger, 0, 0, 2) \<and> cs_missing (closure_of sample_plan planned_ledger) = []"
  using planning_completes [OF nothing_reached sample_plan_of sample_created] by (simp add: sample_plan_def)

section \<open>Reconciliation\<close>

definition stranded_ledger :: "ledger res" where
  "stranded_ledger =
     bindR (append_events ''feed_window:2024-01'' [claim_of 1, \<lparr>le_state = ''abandoned'', le_action = ''expire'', le_reason = None, le_lease = Some 1\<rparr>] planned_ledger)
       (append_events ''listing:A.N0000'' [claim_of 1, \<lparr>le_state = ''retry_wait'', le_action = ''record'', le_reason = None, le_lease = Some 1\<rparr>])"

lemma stranded_reached: "stranded_ledger = Inr l \<Longrightarrow> ledgers l"
  using append_events_ledgers create_plan_ledgers [OF sample_created nothing_reached]
  by (auto simp: stranded_ledger_def bindR_eq_Inr simp del: append_events.simps)

lemma found_right: "(case x of Inl e \<Rightarrow> False | Inr l \<Rightarrow> P l) \<longleftrightarrow> (\<exists>l. x = Inr l \<and> P l)"
  by (cases x) auto

lemma stranded_state:
  "case stranded_ledger of Inl e \<Rightarrow> False | Inr l \<Rightarrow> lg_attempts l = [] \<and> abandoned_keys l = [''feed_window:2024-01'']"
  by code_simp

theorem reconciliation_settles_witness:
  "\<exists>l l' ended. stranded_ledger = Inr l \<and> reconcile_items 2 1 (\<lambda>_. None) l = Inr (l', [(''feed_window:2024-01'', ''pending'')], ended) \<and>
     list_all (settled_item 1) (filter in_discovery (lg_items l'))"
proof -
  obtain l where l: "stranded_ledger = Inr l" "lg_attempts l = []" "abandoned_keys l = [''feed_window:2024-01'']"
    using stranded_state unfolding found_right by blast
  then have "\<forall>i \<in> set (discovery_rows l). open_attempts_of l (li_key i) = []" by (simp add: open_attempts_of_def attempts_of_def)
  from reconciliation_settles [OF stranded_reached [OF l(1)] _ this, of "\<lambda>_. None" 2 1] l(3) show ?thesis
    using l(1) by (auto simp: runs_ok_def)
qed

section \<open>The slice\<close>

definition sample_discovery_arming :: discovery_arming where
  "sample_discovery_arming = \<lparr>da_id = 1, da_armed = True, da_stages = [''HB-S2''], da_attempts = Some 1, da_item_max = Some 3,
     da_first = Some (Date 2024 1 1), da_until = Some (Date 2024 1 31), da_max_age = []\<rparr>"

definition sample_discovering :: discovering where
  "sample_discovering = \<lparr>dg_ledger = planned_ledger, dg_plan = sample_plan, dg_arming = sample_discovery_arming, dg_lease = 1, dg_attempted = [],
     dg_closed = False, dg_stopped = False, dg_outcomes = []\<rparr>"

definition sample_worlds :: "discovery_world list" where
  "sample_worlds = [\<lparr>dw_gates = [], dw_attempts = [(1, Some (''ok'', False))], dw_result = AnsweredRun ''ok'' ''succeeded''\<rparr>,
     \<lparr>dw_gates = [], dw_attempts = [(2, Some (''retryable'', False))], dw_result = AnsweredRun ''retryable'' ''failed''\<rparr>]"

lemma sample_slice_run:
  "case discovery_run (\<lambda>_. None) sample_worlds sample_discovering of (g, e) \<Rightarrow>
     dg_outcomes g = [(''feed_window:2024-01'', ''succeeded''), (''listing:A.N0000'', ''retry_wait'')] \<and> e = None \<and>
     dg_attempted g = [''listing:A.N0000'', ''feed_window:2024-01'']"
  by code_simp

theorem slice_claim_discipline_witness:
  "\<exists>g e. discovery_run (\<lambda>_. None) sample_worlds sample_discovering = (g, e) \<and>
     claim_counts (dg_ledger g) = [(''feed_window:2024-01'', 1), (''listing:A.N0000'', 1)] \<and>
     list_all (within_maximum 3) (lg_items (dg_ledger g)) \<and> distinct (attempted_items (dg_ledger g))"
proof -
  obtain g e where g: "discovery_run (\<lambda>_. None) sample_worlds sample_discovering = (g, e)" by fastforce
  have runs: "runs_ok (\<lambda>_. None)" by (simp add: runs_ok_def)
  have counts: "claim_counts planned_ledger = [(''feed_window:2024-01'', 0), (''listing:A.N0000'', 0)]"
    and "\<forall>i \<in> set (lg_items (dg_ledger sample_discovering)). within_maximum (item_max_of (dg_arming sample_discovering)) i"
    and "distinct (map li_key (lg_items (dg_ledger sample_discovering)))" by code_simp+
  from slice_claim_discipline [OF this(3) runs this(2) g] obtain new where new: "dg_attempted g = new"
      "claim_counts (dg_ledger g) = map (\<lambda>(k, n). (k, if k \<in> set new then n + 1 else n)) (claim_counts planned_ledger)"
      "distinct (attempted_items (dg_ledger g))" "\<forall>i \<in> set (lg_items (dg_ledger g)). within_maximum 3 i"
    by (auto simp: sample_discovering_def planned_ledger_def sample_discovery_arming_def item_max_of_def attempted_items_def)
  have "new = [''listing:A.N0000'', ''feed_window:2024-01'']" using sample_slice_run g new(1) by simp
  then show ?thesis using new(2-4) by (intro exI [of _ g] exI [of _ e]) (simp add: g counts list_all_iff)
qed

section \<open>The closure pass\<close>

definition closed_ledger :: "ledger res" where
  "closed_ledger =
     bindR (append_events ''feed_window:2024-01'' [claim_of 1, \<lparr>le_state = ''succeeded'', le_action = ''record'', le_reason = None, le_lease = Some 1\<rparr>] planned_ledger)
       (append_events ''listing:A.N0000'' [claim_of 1, \<lparr>le_state = ''partial'', le_action = ''record'', le_reason = None, le_lease = Some 1\<rparr>])"

definition final_ledger :: ledger where
  "final_ledger = (case closed_ledger of Inl e \<Rightarrow> nothing | Inr l \<Rightarrow> l)"

definition sample_state :: discovery_state where
  "sample_state = \<lparr>ds_ledger = final_ledger,
     ds_passes = [\<lparr>lp_no = 1, lp_kind = ''identity'', lp_fingerprint = [], lp_done = True\<rparr>],
     ds_evidence = \<lparr>el_store = empty_issuer_store, el_holds = []\<rparr>\<rparr>"

definition sample_input :: pass_input where
  "sample_input = \<lparr>pi_companies = [], pi_batch = two_names, pi_filings = []\<rparr>"

definition sample_digest :: "plan_identity \<Rightarrow> string" where
  "sample_digest i = fst (fst (snd i)) @ snd (fst (snd i)) @ concat (snd (snd i))"

definition plain_hashes :: hashes where
  "plain_hashes = \<lparr>hs_security = (\<lambda>_. ''''), hs_filing = (\<lambda>_. '''')\<rparr>"

lemma final_closed: "plan_closed sample_plan (closure_of sample_plan final_ledger)"
  by code_simp

lemma first_pass:
  assumes "identity_done (ds_passes st)" and "plan_closed p (closure_of p (ds_ledger st))"
    and none: "ie4_pass (fingerprint sha p) (ds_passes st) = None" and "pi_filings inp = []"
  shows "\<exists>st1 res counts. closure_pass T H fresh sha p inp st = Inr (st1, Passed (next_pass_number (ds_passes st)) res counts) \<and>
     ds_ledger st1 = ds_ledger st \<and>
     ds_passes st1 = pass_done (next_pass_number (ds_passes st)) (ds_passes st @ [new_pass ''ie4'' (fingerprint sha p) (ds_passes st)])"
proof -
  let ?new = "new_pass ''ie4'' (fingerprint sha p) (ds_passes st)"
  obtain ev res where "record_batch T H fresh (pi_companies inp) (pi_batch inp) (ds_evidence st) = (ev, res)" by fastforce
  moreover have "lp_no ?new = next_pass_number (ds_passes st)" "\<not> lp_done ?new" by (simp_all add: new_pass_def)
  ultimately show ?thesis using assms ie4_pass_new [OF none]
    by (simp add: closure_pass_def record_and_link_def link_window_def guardR_def Let_def)
qed

lemma sample_pass:
  "\<exists>st res counts. closure_pass ascii_issuer_tables plain_hashes (\<lambda>_. ''i'') sample_digest sample_plan sample_input sample_state =
     Inr (st, Passed 2 res counts) \<and> ds_ledger st = final_ledger \<and> find (\<lambda>p. lp_no p = 2) (ds_passes st) \<noteq> None \<and>
     list_all lp_done (ds_passes st)"
proof -
  have "ie4_pass fp (ds_passes sample_state) = None" "next_pass_number (ds_passes sample_state) = 2"
    "identity_done (ds_passes sample_state)" "ds_ledger sample_state = final_ledger" for fp
    by (simp_all add: sample_state_def ie4_pass_def plan_passes_def next_pass_number_def link_pass_first_plan_def identity_done_def
        link_pass_identity_def)
  then obtain st res counts where "closure_pass ascii_issuer_tables plain_hashes (\<lambda>_. ''i'') sample_digest sample_plan sample_input sample_state =
      Inr (st, Passed 2 res counts)" "ds_ledger st = final_ledger"
    and ps: "ds_passes st = pass_done 2 (ds_passes sample_state @ [new_pass ''ie4'' (fingerprint sample_digest sample_plan) (ds_passes sample_state)])"
    using first_pass [of sample_state sample_plan sample_digest sample_input] final_closed by (fastforce simp: sample_input_def)
  moreover have "find (\<lambda>p. lp_no p = 2) (ds_passes st) \<noteq> None \<and> list_all lp_done (ds_passes st)"
    by (simp add: ps sample_state_def pass_done_def new_pass_def next_pass_number_def link_pass_first_plan_def)
  ultimately show ?thesis by blast
qed

theorem one_pass_per_plan_witness:
  "\<exists>st1 st2. closure_pass ascii_issuer_tables plain_hashes (\<lambda>_. ''i'') sample_digest sample_plan sample_input st1 = Inr (st1, AlreadyPassed 2) \<and>
     requeue_pass 2 ''late evidence'' st1 = Inr st2 \<and>
     (\<exists>k. ie4_pass (fingerprint sample_digest sample_plan) (ds_passes st2) = Some k \<and> lp_no k = 2) \<and> identity_done (ds_passes st2)"
proof -
  obtain st res counts where pass: "closure_pass ascii_issuer_tables plain_hashes (\<lambda>_. ''i'') sample_digest sample_plan sample_input sample_state =
     Inr (st, Passed 2 res counts)" and ledger: "ds_ledger st = final_ledger"
    and two: "find (\<lambda>p. lp_no p = 2) (ds_passes st) \<noteq> None" "list_all lp_done (ds_passes st)" using sample_pass by blast
  have already: "closure_pass ascii_issuer_tables plain_hashes (\<lambda>_. ''i'') sample_digest sample_plan sample_input st = Inr (st, AlreadyPassed 2)"
    using one_pass_per_plan [OF pass discovery_history.start refl] ledger final_closed by fastforce
  have "check_transition ''link_pass'' ''succeeded'' ''pending'' ''requeue'' (Some ''late evidence'') = Inr ()" by code_simp
  moreover obtain k where k: "find (\<lambda>p. lp_no p = 2) (ds_passes st) = Some k" using two(1) by blast
  moreover have "lp_done k" using k two(2) by (auto simp: find_Some_iff list_all_iff)
  ultimately obtain st2 where again: "requeue_pass 2 ''late evidence'' st = Inr st2"
    by (simp add: requeue_pass_def guardR_def)
  moreover have "\<exists>k. ie4_pass (fingerprint sample_digest sample_plan) (ds_passes st2) = Some k \<and> lp_no k = 2" "identity_done (ds_passes st2)"
    using one_pass_per_plan [OF pass discovery_history.requeued [OF discovery_history.start again] refl,
        where T' = ascii_issuer_tables and H' = plain_hashes and fresh' = "\<lambda>_. ''i''" and inp' = sample_input]
    by (auto simp: link_pass_identity_def)
  ultimately show ?thesis using already by blast
qed

end
