(* ===== verification/Documents.thy ===== *)
theory Documents
  imports Recovery Listing
begin

text \<open>
  The document stage of the historical backfill (\<open>backfill_documents/\<close>): what F2's record of a pass means for the item
  (\<open>outcomes.py\<close>), the document gate (\<open>gate.py\<close>), the F5 runs that prove a document persisted (\<open>evidence.py\<close>) and the
  planning of the document items (\<open>planning.py\<close>). The digest of a path is an argument; details, wording of most reasons,
  and SQL are not modelled. An item is joined with its filing through the columns of its subject.
\<close>

section \<open>F2 records\<close>

record f2_record =
  fr_outcome :: string
  fr_consumer :: string
  fr_cleanup :: string
  fr_category :: string
  fr_status :: "int option"
  fr_sha :: "string option"

datatype disposition_kind = CleanupKind | LeftoverKind | PersistKind | ConsumerKind | TerminalKind | RetryableKind | LocalKind

definition terminal_categories :: "string list" where
  "terminal_categories = [''forbidden_or_missing'', ''not_found'', ''too_large'', ''unexpected_redirect'', ''too_many_redirects'',
     ''not_pdf'', ''null_path'', ''invalid_path'', ''not_expected_type'']"

definition retryable_categories :: "string list" where
  "retryable_categories = [''server_error'', ''network_error'', ''timeout'', ''download_interrupted'', ''truncated'',
     ''length_mismatch'', ''etag_mismatch'', ''truncated_or_malformed'', ''empty_body'']"

definition document_rate_limit :: int where
  "document_rate_limit = 429"

text \<open>F2 handed the document to the consumer.\<close>

definition retrieved :: "f2_record \<Rightarrow> bool" where
  "retrieved r \<longleftrightarrow> fr_consumer r \<in> {''succeeded'', ''failed''}"

definition disposition :: "f2_record \<Rightarrow> nat \<Rightarrow> disposition_kind" where
  "disposition r leftovers =
     (if fr_cleanup r = ''failed'' \<or> fr_outcome r = ''cleanup_failed'' then CleanupKind
      else if 0 < leftovers then LeftoverKind
      else if fr_outcome r = ''succeeded'' then
        (if fr_consumer r = ''succeeded'' \<and> fr_cleanup r = ''deleted'' then PersistKind else CleanupKind)
      else if fr_outcome r = ''consumer_failed'' then ConsumerKind
      else if fr_outcome r \<in> {''no_document'', ''invalid_path'', ''internal_error''} then TerminalKind
      else if fr_outcome r = ''hash_failed'' then RetryableKind
      else if fr_outcome r = ''validation_failed'' then
        (if fr_category r \<in> set terminal_categories then TerminalKind else RetryableKind)
      else if fr_outcome r = ''download_failed'' then
        (if take 10 (fr_category r) = ''temp_root:'' then LocalKind
         else if fr_category r \<in> set retryable_categories then RetryableKind
         else if fr_category r = ''unexpected_status'' then
           (if fr_status r = Some document_rate_limit then RetryableKind else TerminalKind)
         else TerminalKind)
      else TerminalKind)"

text \<open>\<open>outcomes.live_state\<close>; None for a kind that is not a retrieval failure.\<close>

fun document_live_state :: "disposition_kind \<Rightarrow> int \<Rightarrow> int \<Rightarrow> string option" where
  "document_live_state TerminalKind claims mx = Some ''retrieval_failed''"
| "document_live_state RetryableKind claims mx = Some (if claims < mx then ''retry_wait'' else ''retrieval_failed'')"
| "document_live_state LocalKind claims mx = Some ''retry_wait''"
| "document_live_state _ claims mx = None"

section \<open>Paths, filings and the window\<close>

definition occurs_in :: "string \<Rightarrow> string \<Rightarrow> bool" where
  "occurs_in t s \<longleftrightarrow> list_ex (\<lambda>n. take (length t) (drop n s) = t) [0..<length s + 1]"

text \<open>\<open>resolve_candidates\<close> accepts the path.\<close>

definition path_accepted :: "string option \<Rightarrow> bool" where
  "path_accepted path =
     (case path of None \<Rightarrow> False
      | Some p \<Rightarrow> strip p \<noteq> [] \<and> p = strip p \<and> take 1 p \<noteq> ''/'' \<and> \<not> occurs_in ''://'' p \<and> CHR 0x5C \<notin> set p \<and>
          list_all (\<lambda>c. 32 \<le> (of_char c :: nat) \<and> of_char c \<noteq> (127 :: nat)) p \<and>
          list_all (\<lambda>s. s \<notin> {'''', ''.'', ''..''}) (split_on (CHR ''/'') [] p) \<and> last p \<noteq> CHR ''.'')"

record document_filing =
  df_id :: int
  df_path :: "string option"
  df_uploaded :: "instant option"

definition in_window :: "instant option \<Rightarrow> date \<times> date \<Rightarrow> bool" where
  "in_window uploaded w =
     (case uploaded of None \<Rightarrow> False
      | Some t \<Rightarrow> colombo_midnight (toordinal (fst w) - epoch_ordinal) \<le> t \<and> t < colombo_midnight (toordinal (snd w) + 1 - epoch_ordinal))"

text \<open>The state and the reason of a new item, for a filing dated in the window or undated.\<close>

definition first_state :: "document_filing \<Rightarrow> string \<times> string option" where
  "first_state f =
     (if df_uploaded f = None then (''excluded'', Some ''window_undetermined'')
      else if df_path f = None then (''excluded'', Some ''no_document'')
      else if \<not> path_accepted (df_path f) then (''excluded'', Some ''invalid_path'')
      else (''discovered'', None))"

section \<open>The archive and the evidence\<close>

text \<open>What F1 and F5 have stored: the filings, the distinct paths seen of a filing, and the F5 runs under the armed versions
  (run, filing, document digest), latest first.\<close>

record document_archive =
  da_filings :: "document_filing list"
  da_paths :: "int \<Rightarrow> string list"
  da_runs :: "(string \<times> int \<times> string) list"

text \<open>The ledger, the columns of its document items, and the F2 records (L6) with the item they belong to.\<close>

record documents =
  do_ledger :: ledger
  do_subjects :: "work_subject list"
  do_records :: "(string \<times> f2_record) list"

definition linked_run :: "document_archive \<Rightarrow> documents \<Rightarrow> string \<Rightarrow> int \<Rightarrow> string option" where
  "linked_run A D key fid =
     map_option fst (find (\<lambda>(run, f, sha). f = fid \<and>
       list_ex (\<lambda>(k, r). k = key \<and> fr_outcome r = ''succeeded'' \<and> fr_cleanup r = ''deleted'' \<and> fr_sha r = Some sha) (do_records D))
       (da_runs A))"

definition single_path_run :: "(string \<Rightarrow> string) \<Rightarrow> document_archive \<Rightarrow> int \<Rightarrow> string \<Rightarrow> string option" where
  "single_path_run sha A fid path_sha =
     (case da_paths A fid of [p] \<Rightarrow> if sha p \<noteq> path_sha then None else map_option fst (find (\<lambda>(run, f, d). f = fid) (da_runs A))
      | _ \<Rightarrow> None)"

definition persisted_run :: "(string \<Rightarrow> string) \<Rightarrow> document_archive \<Rightarrow> documents \<Rightarrow> string \<Rightarrow> int \<Rightarrow> string option \<Rightarrow> string option" where
  "persisted_run sha A D key fid path_sha =
     (case path_sha of None \<Rightarrow> None
      | Some v \<Rightarrow> (case linked_run A D key fid of Some r \<Rightarrow> Some r | None \<Rightarrow> single_path_run sha A fid v))"

section \<open>The gate\<close>

text \<open>\<open>document_gate\<close>: the window of the current plan, once discovery is closed and its issuer evidence is recorded.\<close>

definition document_gate :: "bool \<Rightarrow> (plan_identity \<Rightarrow> string) \<Rightarrow> discovery_plan res \<Rightarrow> discovery_state \<Rightarrow> (date \<times> date) res" where
  "document_gate armed sha plan st =
     guardR (\<not> armed) (Refused ''disarmed'')
     (bindR plan (\<lambda>p.
      guardR (\<not> plan_closed p (closure_of p (ds_ledger st))) (Refused ''discovery_open'')
      (case ie4_pass (fingerprint sha p) (ds_passes st) of
         None \<Rightarrow> Inl (Refused ''issuer_evidence'')
       | Some q \<Rightarrow> guardR (\<not> lp_done q) (Refused ''issuer_evidence'') (Inr (pl_window p)))))"

section \<open>Planning\<close>

text \<open>A document item joined with its filing's current row.\<close>

record document_item =
  dt_key :: string
  dt_filing :: int
  dt_path_sha :: "string option"
  dt_state :: string
  dt_path :: "string option"
  dt_uploaded :: "instant option"

definition filing_of :: "document_archive \<Rightarrow> int \<Rightarrow> document_filing option" where
  "filing_of A fid = find (\<lambda>f. df_id f = fid) (da_filings A)"

definition subject_named :: "documents \<Rightarrow> string \<Rightarrow> work_subject option" where
  "subject_named D key = find (\<lambda>w. ws_key w = key) (do_subjects D)"

definition joined_item :: "document_archive \<Rightarrow> documents \<Rightarrow> ledger_item \<Rightarrow> document_item option" where
  "joined_item A D i =
     (case subject_named D (li_key i) of None \<Rightarrow> None
      | Some w \<Rightarrow> (case ws_filing w of None \<Rightarrow> None
        | Some fid \<Rightarrow> map_option (\<lambda>f. \<lparr>dt_key = li_key i, dt_filing = fid, dt_path_sha = ws_path_sha w, dt_state = item_state i,
            dt_path = df_path f, dt_uploaded = df_uploaded f\<rparr>) (filing_of A fid)))"

text \<open>Upload dates ascending, unknown ones last, then filing id and natural key.\<close>

definition item_order :: "document_item \<Rightarrow> (bool \<times> int) \<times> int \<times> string" where
  "item_order d = ((case dt_uploaded d of None \<Rightarrow> (True, 0) | Some t \<Rightarrow> (False, t)), dt_filing d, dt_key d)"

definition document_items :: "document_archive \<Rightarrow> string list \<Rightarrow> documents \<Rightarrow> document_item list" where
  "document_items A states D =
     sort_key item_order (List.map_filter (joined_item A D)
       (filter (\<lambda>i. li_kind i = ''document'' \<and> item_state i \<in> set states) (lg_items (do_ledger D))))"

definition path_is_current :: "(string \<Rightarrow> string) \<Rightarrow> document_item \<Rightarrow> bool" where
  "path_is_current sha d = (case dt_path d of None \<Rightarrow> False | Some p \<Rightarrow> dt_path_sha d = Some (sha p))"

definition candidate_filings :: "document_archive \<Rightarrow> date \<times> date \<Rightarrow> document_filing list" where
  "candidate_filings A w = sort_key df_id (filter (\<lambda>f. in_window (df_uploaded f) w \<or> df_uploaded f = None) (da_filings A))"

text \<open>One candidate filing: its item, created unless it exists.\<close>

definition create_document :: "(string \<Rightarrow> string) \<Rightarrow> document_filing \<Rightarrow> documents \<Rightarrow> (documents \<times> string option) res" where
  "create_document sha f D =
     bindR (document_subject sha (df_id f) (df_path f)) (\<lambda>w.
       if ws_key w \<in> set (map li_key (filter (\<lambda>i. li_kind i = ''document'') (lg_items (do_ledger D)))) then Inr (D, None)
       else bindR (ensure_item ''document'' (ws_key w) (Some (fst (first_state f))) (snd (first_state f)) (do_ledger D)) (\<lambda>(l, i, created).
         Inr (D\<lparr>do_ledger := l, do_subjects := do_subjects D @ [w]\<rparr>, if created then Some (fst (first_state f)) else None)))"

fun create_documents :: "(string \<Rightarrow> string) \<Rightarrow> document_filing list \<Rightarrow> documents \<Rightarrow> (documents \<times> string option list) res" where
  "create_documents sha [] D = Inr (D, [])"
| "create_documents sha (f # fs) D =
     bindR (create_document sha f D) (\<lambda>(D1, s). bindR (create_documents sha fs D1) (\<lambda>(D2, out). Inr (D2, s # out)))"

text \<open>What planning does with one waiting item: an event, or an anomaly that leaves the item as it is, or nothing.\<close>

datatype document_decision = Promote string string string | Superseded | WindowChanged | LeftWaiting

definition decide_document :: "(string \<Rightarrow> string) \<Rightarrow> document_archive \<Rightarrow> date \<times> date \<Rightarrow> documents \<Rightarrow> document_item \<Rightarrow> document_decision" where
  "decide_document sha A w D d =
     (if dt_state d = ''discovered'' \<and> dt_uploaded d = None then Promote ''excluded'' ''record'' ''window_undetermined''
      else if dt_state d = ''discovered'' \<and> \<not> in_window (dt_uploaded d) w then Promote ''excluded'' ''record'' ''out_of_window''
      else if \<not> path_is_current sha d then Superseded
      else if dt_state d \<noteq> ''discovered'' \<and> \<not> in_window (dt_uploaded d) w then WindowChanged
      else (case persisted_run sha A D (dt_key d) (dt_filing d) (dt_path_sha d) of
          Some run \<Rightarrow> Promote ''persisted'' ''promote'' ''evidence: an F5 run of this document under the armed versions''
        | None \<Rightarrow> if dt_state d = ''discovered'' then Promote ''pending'' ''promote'' ''eligible: in W, discovery closed, no F5 run of this document''
            else LeftWaiting))"

definition apply_decision :: "document_decision \<Rightarrow> string \<Rightarrow> documents \<Rightarrow> documents res" where
  "apply_decision c key D =
     (case c of
        Promote state action reason \<Rightarrow>
          bindR (append_event key \<lparr>le_state = state, le_action = action, le_reason = Some reason, le_lease = None\<rparr> (do_ledger D)) (\<lambda>l.
            Inr (D\<lparr>do_ledger := l\<rparr>))
      | _ \<Rightarrow> Inr D)"

fun apply_decisions :: "(document_item \<Rightarrow> document_decision) \<Rightarrow> document_item list \<Rightarrow> documents \<Rightarrow> documents res" where
  "apply_decisions decide [] D = Inr D"
| "apply_decisions decide (d # ds) D = bindR (apply_decision (decide d) (dt_key d) D) (apply_decisions decide ds)"

text \<open>\<open>plan_documents\<close>, between slices or inside its own: the states of the new items, and the decisions on the waiting ones.
  The evidence does not change while it runs.\<close>

definition plan_documents ::
  "(string \<Rightarrow> string) \<Rightarrow> document_archive \<Rightarrow> date \<times> date \<Rightarrow> int option \<Rightarrow> int option \<Rightarrow> documents \<Rightarrow>
     (documents \<times> string option list \<times> (string \<times> document_decision) list) res" where
  "plan_documents sha A w active holder D =
     guardR (active \<noteq> None \<and> active \<noteq> holder) (Refused ''lease'')
     (bindR (create_documents sha (candidate_filings A w) D) (\<lambda>(D1, created).
        let waiting = document_items A [''discovered'', ''pending'', ''retry_wait''] D1; decide = decide_document sha A w D1
        in bindR (apply_decisions decide waiting D1) (\<lambda>D2. Inr (D2, created, map (\<lambda>d. (dt_key d, decide d)) waiting))))"

end
