(* ===== verification/DocumentSlice.thy ===== *)
theory DocumentSlice
  imports Documents Slice
begin

text \<open>
  One document slice of the historical backfill (\<open>backfill_documents/worker.py\<close>): one document item with its F2 passes,
  the F2 record and the events of each pass in one transaction, the persistence transaction, and the reconciliation that
  opens a slice. What F2, the transport, the disk and the database answer to each pass is an argument: a transaction
  commits and returns, or is rolled back and raises. The opening
  checks, the orphan sweep, signals and the closing of the lease are not modelled.
\<close>

section \<open>One pass\<close>

datatype document_stop = TransportStopped stop | CleanupStopped | RefusedHere string

text \<open>The answers to one pass: no free space (asked from the second pass on); the fetcher refused, and whether that
  stopped the slice; F2's record and its leftovers; the slice's stop after it; a request refused inside F2; the F5 result;
  whether the pass comes to its recording transaction and that commits (not when an unexpected error leaves the pass before,
  or the transaction itself raises); and the persistence transaction: committed, rolled back by an exception whose own
  recording transaction then commits or raises, or left by something that is no exception of it (an exit signal, an error
  before it opens).\<close>

datatype persist_answer = PersistCommitted | PersistRolledBack bool | PersistDied

record pass_world =
  pw_space :: bool
  pw_fetcher :: "bool option"
  pw_record :: f2_record
  pw_leftovers :: nat
  pw_stop :: "stop option"
  pw_refused :: bool
  pw_result :: bool
  pw_recorded :: bool
  pw_persist :: persist_answer

datatype pass_step = InFlight | Recorded "ledger_event list" string "document_stop option" | Persisting | NextPass

definition recorded_event :: "int \<Rightarrow> string \<Rightarrow> string option \<Rightarrow> ledger_event" where
  "recorded_event lease state reason = \<lparr>le_state = state, le_action = ''record'', le_reason = reason, le_lease = Some lease\<rparr>"

definition transport_stop :: "pass_world \<Rightarrow> document_stop option" where
  "transport_stop w = map_option TransportStopped (pw_stop w)"

definition is_refused_stop :: "stop option \<Rightarrow> bool" where
  "is_refused_stop s = (case s of Some (RefusedStop _) \<Rightarrow> True | _ \<Rightarrow> False)"

definition failure_reason :: "f2_record \<Rightarrow> string" where
  "failure_reason r = fr_outcome r @ '': '' @ (if fr_category r = [] then fr_outcome r else fr_category r)"

definition pass_step_of :: "int \<Rightarrow> int \<Rightarrow> int \<Rightarrow> bool \<Rightarrow> pass_world \<Rightarrow> pass_step" where
  "pass_step_of lease claims mx final_pass w =
     (let r = pw_record w; kind = disposition r (pw_leftovers w); ev = recorded_event lease; why = Some (failure_reason r);
          processing = (if retrieved r then [ev ''processing'' None] else []) in
      if pw_stop w = Some DurabilityStop then InFlight
      else if kind = PersistKind \<and> \<not> pw_result w then InFlight
      else if kind = CleanupKind then Recorded (processing @ [ev ''cleanup_failed'' why]) ''cleanup_failed'' (Some CleanupStopped)
      else if kind = LeftoverKind then
        Recorded ((if retrieved r then processing else [ev ''retry_wait'' why]) @ [ev ''failed'' why]) ''failed'' (Some CleanupStopped)
      else if pw_stop w = Some BlockedStop then Recorded [ev ''blocked'' why] ''blocked'' (Some (TransportStopped BlockedStop))
      else if kind = PersistKind then Persisting
      else if kind = ConsumerKind then
        Recorded [ev ''processing'' None, ev ''consumer_failed'' why] ''consumer_failed'' (transport_stop w)
      else if pw_refused w \<or> is_refused_stop (pw_stop w) then Recorded [ev ''retry_wait'' why] ''retry_wait'' (transport_stop w)
      else if kind = LocalKind then Recorded [ev ''retry_wait'' why] ''retry_wait'' (Some (RefusedHere ''temp_root''))
      else if kind = TerminalKind \<or> pw_stop w = Some CircuitStop \<or> final_pass then
        (case document_live_state kind claims mx of None \<Rightarrow> InFlight | Some s \<Rightarrow> Recorded [ev s why] s (transport_stop w))
      else NextPass)"

section \<open>One document\<close>

record document_slice =
  sd_docs :: documents
  sd_window :: "date \<times> date"
  sd_item_max :: int
  sd_passes :: int
  sd_cap :: int
  sd_lease :: int
  sd_documents :: int
  sd_attempted :: "string list"
  sd_skipped :: "string list"
  sd_stop :: "document_stop option"
  sd_closed :: bool
  sd_outcomes :: "(string \<times> string) list"

datatype process_end = Ended | Stopped document_stop | NotEligible string | Propagated

text \<open>One transaction: F2's record (None when there is none) and the item's events. If an event is refused, or the
  transaction fails, nothing is written.\<close>

definition record_pass :: "bool \<Rightarrow> string \<Rightarrow> f2_record option \<Rightarrow> ledger_event list \<Rightarrow> documents \<Rightarrow> documents res" where
  "record_pass commits key r es D =
     bindR (append_events key es (do_ledger D)) (\<lambda>l.
       guardR (\<not> commits) RuntimeErr
         (Inr (D\<lparr>do_ledger := l, do_records := do_records D @ (case r of None \<Rightarrow> [] | Some x \<Rightarrow> [(key, x)])\<rparr>)))"

definition doc_done :: "string \<Rightarrow> string \<Rightarrow> document_stop option \<Rightarrow> documents \<Rightarrow> document_slice \<Rightarrow> document_slice \<times> process_end" where
  "doc_done key state stop D g =
     (g\<lparr>sd_docs := D, sd_outcomes := sd_outcomes g @ [(key, state)], sd_stop := (case stop of None \<Rightarrow> sd_stop g | Some s \<Rightarrow> Some s)\<rparr>,
      case stop of None \<Rightarrow> Ended | Some s \<Rightarrow> Stopped s)"

definition conclude_pass :: "bool \<Rightarrow> string \<Rightarrow> f2_record option \<Rightarrow> ledger_event list \<Rightarrow> string \<Rightarrow> document_stop option \<Rightarrow>
    document_slice \<Rightarrow> document_slice \<times> process_end" where
  "conclude_pass commits key r es state stop g =
     (case record_pass commits key r es (sd_docs g) of Inl e \<Rightarrow> (g, Propagated) | Inr D \<Rightarrow> doc_done key state stop D g)"

text \<open>The F2 record with \<open>processing\<close>; then F5's rows and \<open>persisted\<close> in one transaction, or, when an exception
  rolls that back, the failure in a transaction of its own. Where a transaction raises past this, the item is left as the
  last committed one left it.\<close>

definition persist_pass :: "string \<Rightarrow> int \<Rightarrow> pass_world \<Rightarrow> document_slice \<Rightarrow> document_slice \<times> process_end" where
  "persist_pass key claims w g =
     (let lease = sd_lease g in
      case record_pass (pw_recorded w) key (Some (pw_record w)) [recorded_event lease ''processing'' None] (sd_docs g) of
        Inl e \<Rightarrow> (g, Propagated)
      | Inr D \<Rightarrow>
          let g1 = g\<lparr>sd_docs := D\<rparr>; s = (if claims < sd_item_max g then ''retry_wait'' else ''failed'') in
          (case pw_persist w of
            PersistCommitted \<Rightarrow> conclude_pass True key None [recorded_event lease ''persisted'' None] ''persisted'' (transport_stop w) g1
          | PersistRolledBack noted \<Rightarrow>
              conclude_pass noted key None [recorded_event lease s (Some ''the persistence transaction failed and was rolled back'')] s None g1
          | PersistDied \<Rightarrow> (g1, Propagated)))"

text \<open>The passes of a claimed item: \<open>n\<close> is the number of this pass, \<open>left\<close> how many may follow it.\<close>

fun pass_loop :: "nat \<Rightarrow> nat \<Rightarrow> (nat \<Rightarrow> pass_world) \<Rightarrow> string \<Rightarrow> int \<Rightarrow> document_slice \<Rightarrow> document_slice \<times> process_end" where
  "pass_loop left n world key claims g =
     (let w = world n; lease = sd_lease g in
      if 1 < n \<and> pw_space w then
        conclude_pass (pw_recorded w) key None [recorded_event lease ''retry_wait'' (Some ''no further F2 pass'')] ''retry_wait''
          (Some (RefusedHere ''temp_space'')) g
      else (case pw_fetcher w of
        Some stopped \<Rightarrow>
          conclude_pass (pw_recorded w) key None [recorded_event lease ''retry_wait'' (Some ''refused before the request'')] ''retry_wait''
            (if stopped then Some (TransportStopped (RefusedStop [])) else None) g
      | None \<Rightarrow>
          let g1 = g\<lparr>sd_documents := sd_documents g + 1\<rparr> in
          (case pass_step_of lease claims (sd_item_max g) (left = 0) w of
             InFlight \<Rightarrow> (g1, Propagated)
           | Recorded es state stop \<Rightarrow> conclude_pass (pw_recorded w) key (Some (pw_record w)) es state stop g1
           | Persisting \<Rightarrow> persist_pass key claims w g1
           | NextPass \<Rightarrow>
               (case record_pass (pw_recorded w) key (Some (pw_record w)) [] (sd_docs g1) of Inl e \<Rightarrow> (g1, Propagated)
                | Inr D \<Rightarrow> (case left of 0 \<Rightarrow> (g1\<lparr>sd_docs := D\<rparr>, Propagated)
                    | Suc l \<Rightarrow> pass_loop l (n + 1) world key claims (g1\<lparr>sd_docs := D\<rparr>))))))"

declare pass_loop.simps [simp del]

text \<open>What one item meets: whether the database answers up to and including the claim, the filing's row as it is read now,
  the free space, the transport's refusals of the claim, and the passes.\<close>

record document_world =
  dv_database :: bool
  dv_filing :: document_filing
  dv_space :: bool
  dv_gates :: "string list"
  dv_passes :: "nat \<Rightarrow> pass_world"

definition still_eligible :: "(string \<Rightarrow> string) \<Rightarrow> document_filing \<Rightarrow> document_item \<Rightarrow> date \<times> date \<Rightarrow> bool" where
  "still_eligible sha f d w \<longleftrightarrow> in_window (df_uploaded f) w \<and> df_path f \<noteq> None \<and> map_option sha (df_path f) = dt_path_sha d"

definition process_one :: "(string \<Rightarrow> string) \<Rightarrow> document_world \<Rightarrow> document_item \<Rightarrow> document_slice \<Rightarrow> document_slice \<times> process_end" where
  "process_one sha w d g =
     (let key = dt_key d; l = do_ledger (sd_docs g) in
      if sd_closed g then (g, NotEligible ''closed'')
      else if key \<in> set (sd_attempted g) then (g, NotEligible ''one_claim_per_slice'')
      else if sd_cap g \<le> sd_documents g then (g\<lparr>sd_stop := Some (RefusedHere ''slice_documents'')\<rparr>, Stopped (RefusedHere ''slice_documents''))
      else if \<not> dv_database w then (g, Propagated)
      else if \<not> still_eligible sha (dv_filing w) d (sd_window g) then (g\<lparr>sd_skipped := key # sd_skipped g\<rparr>, NotEligible ''not_eligible'')
      else if dv_space w then (g\<lparr>sd_stop := Some (RefusedHere ''temp_space'')\<rparr>, Stopped (RefusedHere ''temp_space''))
      else if dv_gates w \<noteq> [] \<or> sd_item_max g \<le> claims_of l key then (g, Stopped (TransportStopped (RefusedStop (dv_gates w))))
      else (case claim_item key (sd_lease g) None l of Inl e \<Rightarrow> (g, Propagated)
        | Inr l1 \<Rightarrow> pass_loop (nat (sd_passes g - 1)) 1 (dv_passes w) key (claims_of l1 key)
            (g\<lparr>sd_docs := (sd_docs g)\<lparr>do_ledger := l1\<rparr>, sd_attempted := key # sd_attempted g\<rparr>)))"

section \<open>The items of a slice\<close>

definition candidates :: "(string \<Rightarrow> string) \<Rightarrow> document_archive \<Rightarrow> document_slice \<Rightarrow> document_item list" where
  "candidates sha A g =
     filter (\<lambda>d. dt_key d \<notin> set (sd_attempted g) \<and> dt_key d \<notin> set (sd_skipped g) \<and> path_is_current sha d \<and> in_window (dt_uploaded d) (sd_window g))
       (document_items A [''pending'', ''retry_wait''] (sd_docs g))"

text \<open>The first candidate below the item maximum; the ones before it are skipped.\<close>

fun first_below :: "document_slice \<Rightarrow> document_item list \<Rightarrow> document_slice \<times> document_item option" where
  "first_below g [] = (g, None)"
| "first_below g (d # ds) =
     (if claims_of (do_ledger (sd_docs g)) (dt_key d) < sd_item_max g then (g, Some d)
      else first_below (g\<lparr>sd_skipped := dt_key d # sd_skipped g\<rparr>) ds)"

definition next_item :: "(string \<Rightarrow> string) \<Rightarrow> document_archive \<Rightarrow> document_slice \<Rightarrow> document_slice \<times> document_item option" where
  "next_item sha A g = first_below g (candidates sha A g)"

text \<open>\<open>run\<close>, over a list of worlds. A refused item is skipped, a stop ends the run.\<close>

fun document_run :: "(string \<Rightarrow> string) \<Rightarrow> document_archive \<Rightarrow> document_world list \<Rightarrow> document_slice \<Rightarrow> document_slice \<times> process_end" where
  "document_run sha A [] g = (g, Ended)"
| "document_run sha A (w # ws) g =
     (if sd_closed g then (g, NotEligible ''closed'') else case next_item sha A g of
        (g1, None) \<Rightarrow> (g1, Ended)
      | (g1, Some d) \<Rightarrow> (case process_one sha w d g1 of
          (g2, Ended) \<Rightarrow> document_run sha A ws g2
        | (g2, NotEligible e) \<Rightarrow> document_run sha A ws g2
        | (g2, Stopped s) \<Rightarrow> (g2\<lparr>sd_stop := Some s\<rparr>, Stopped s)
        | (g2, Propagated) \<Rightarrow> (g2, Propagated)))"

section \<open>Reconciliation\<close>

definition item_evidence :: "(string \<Rightarrow> string) \<Rightarrow> document_archive \<Rightarrow> documents \<Rightarrow> document_item \<Rightarrow> string option" where
  "item_evidence sha A D d = persisted_run sha A D (dt_key d) (dt_filing d) (dt_path_sha d)"

definition document_promotion :: "string option \<Rightarrow> ledger_event" where
  "document_promotion run =
     (case run of
        Some r \<Rightarrow> \<lparr>le_state = ''persisted'', le_action = ''promote'',
          le_reason = Some ''evidence: an F5 run of this document under the armed versions'', le_lease = None\<rparr>
      | None \<Rightarrow> \<lparr>le_state = ''pending'', le_action = ''promote'',
          le_reason = Some ''its slice ended without a persisted F5 run of the document: the retrieval repeats'', le_lease = None\<rparr>)"

definition document_end_events :: "int \<Rightarrow> string option \<Rightarrow> string \<Rightarrow> ledger_event list" where
  "document_end_events lease run state =
     (case run of
        Some r \<Rightarrow> [\<lparr>le_state = ''persisted'', le_action = ''promote'',
          le_reason = Some ''G10, evidence wins: an F5 run of this document under the armed versions'', le_lease = None\<rparr>]
      | None \<Rightarrow> (if state = ''pending'' then [terminal_claim lease, recorded_event lease ''retry_wait'' (Some ''G10: item maximum reached'')] else []) @
          [\<lparr>le_state = ''failed'', le_action = ''record'', le_reason = Some ''G10: item maximum reached'', le_lease = None\<rparr>])"

definition terminalise_document :: "int \<Rightarrow> int \<Rightarrow> string option \<Rightarrow> string \<Rightarrow> ledger \<Rightarrow> (ledger \<times> string option) res" where
  "terminalise_document lease mx run key l =
     bindR (state_of l key) (\<lambda>state.
       if state \<notin> {''pending'', ''retry_wait''} \<or> claims_of l key < mx then Inr (l, None)
       else if open_attempts_of l key \<noteq> [] then Inr (l, None)
       else bindR (append_events key (document_end_events lease run state) l) (\<lambda>l1.
         Inr (l1, Some (if run = None then ''failed'' else ''persisted''))))"

fun promote_documents :: "(document_item \<Rightarrow> string option) \<Rightarrow> document_item list \<Rightarrow> ledger \<Rightarrow> ledger res" where
  "promote_documents won [] l = Inr l"
| "promote_documents won (d # ds) l = bindR (append_event (dt_key d) (document_promotion (won d)) l) (promote_documents won ds)"

fun terminalise_documents :: "int \<Rightarrow> int \<Rightarrow> (document_item \<Rightarrow> string option) \<Rightarrow> document_item list \<Rightarrow> ledger \<Rightarrow>
    (ledger \<times> (string \<times> string option) list) res" where
  "terminalise_documents lease mx won [] l = Inr (l, [])"
| "terminalise_documents lease mx won (d # ds) l =
     bindR (terminalise_document lease mx (won d) (dt_key d) l) (\<lambda>(l1, s).
       bindR (terminalise_documents lease mx won ds l1) (\<lambda>(l2, out). Inr (l2, (dt_key d, s) # out)))"

text \<open>\<open>reconcile\<close>: abandoned documents from evidence, then the documents at their maximum.\<close>

definition reconcile_documents :: "(string \<Rightarrow> string) \<Rightarrow> document_archive \<Rightarrow> int \<Rightarrow> int \<Rightarrow> documents \<Rightarrow>
    (documents \<times> (string \<times> string option) list) res" where
  "reconcile_documents sha A lease mx D =
     (let won = item_evidence sha A D in
      bindR (promote_documents won (document_items A [''abandoned''] D) (do_ledger D)) (\<lambda>l1.
        let D1 = D\<lparr>do_ledger := l1\<rparr>;
            at_max = filter (\<lambda>d. mx \<le> claims_of l1 (dt_key d)) (document_items A [''pending'', ''retry_wait''] D1)
        in bindR (terminalise_documents lease mx won at_max l1) (\<lambda>(l2, out). Inr (D1\<lparr>do_ledger := l2\<rparr>, out))))"

end
