(* ===== verification/DocumentFacts.thy ===== *)
theory DocumentFacts
  imports DocumentSlice RecoveryFacts
begin

text \<open>
  Facts of the document stage: whatever F2, the transport, the disk and the database answer, a claimed document ends in a
  recorded state by legal transitions or stays in flight; it is persisted only after a verified deletion; planning leaves no
  eligible document behind; and the reconciliation that opens a slice settles every document.
\<close>

section \<open>Legal chains\<close>

lemma document_check:
  "t \<noteq> ''excluded'' \<Longrightarrow> a \<noteq> ''requeue'' \<Longrightarrow> check_transition ''document'' f t a reason = Inr () \<longleftrightarrow> (f, t, a) \<in> set document_transitions"
  by (simp add: check_transition_def transition_allowed_def transitions_def discovery_kinds_def guardR_def)

lemma recorded_event_sel [simp]:
  "le_state (recorded_event lease s r) = s" "le_action (recorded_event lease s r) = ''record''"
  by (simp_all add: recorded_event_def)

lemma live_state_cases:
  "document_live_state k c mx = Some s \<Longrightarrow> s = ''retrieval_failed'' \<or> s = ''retry_wait''"
  by (cases k) (auto split: if_splits)

definition concluded_chain :: "ledger_event list \<Rightarrow> string \<Rightarrow> bool" where
  "concluded_chain es s \<longleftrightarrow> chain_ok ''document'' ''requesting'' es \<and> es \<noteq> [] \<and> le_state (last es) = s \<and> s \<notin> set in_flight"

lemma step_recorded:
  assumes "pass_step_of lease c mx fin w = Recorded es s stop"
  shows "concluded_chain es s" "s \<noteq> ''persisted''"
proof -
  have "concluded_chain es s \<and> s \<noteq> ''persisted''"
    using assms live_state_cases [of "disposition (pw_record w) (pw_leftovers w)" c mx s]
    by (auto simp: pass_step_of_def Let_def concluded_chain_def in_flight_def document_check document_transitions_def split: if_splits option.splits)
  then show "concluded_chain es s" "s \<noteq> ''persisted''" by simp_all
qed

text \<open>The answers that leave a document as its claim left it: an attempt without a committed outcome, a success without its
  result, or a pass whose recording does not commit.\<close>

definition lost_pass :: "pass_world \<Rightarrow> bool" where
  "lost_pass w \<longleftrightarrow> pw_stop w = Some DurabilityStop \<or> disposition (pw_record w) (pw_leftovers w) = PersistKind \<and> \<not> pw_result w \<or>
     \<not> pw_recorded w"

text \<open>The answers that leave it in processing: everything up to the persistence transaction committed, but neither that nor the
  record of its failure did.\<close>

definition unfinished_pass :: "pass_world \<Rightarrow> bool" where
  "unfinished_pass w \<longleftrightarrow> disposition (pw_record w) (pw_leftovers w) = PersistKind \<and> pw_result w \<and> pw_recorded w \<and>
     (pw_persist w = PersistDied \<or> pw_persist w = PersistRolledBack False)"

text \<open>The answers that persist a document: F2 handed it to the consumer, the consumer succeeded, the deletion is verified,
  nothing is left in the temporary root, and the persistence transaction committed.\<close>

definition verified_pass :: "pass_world \<Rightarrow> bool" where
  "verified_pass w \<longleftrightarrow> fr_outcome (pw_record w) = ''succeeded'' \<and> fr_consumer (pw_record w) = ''succeeded'' \<and>
     fr_cleanup (pw_record w) = ''deleted'' \<and> pw_leftovers w = 0 \<and> pw_result w \<and> pw_persist w = PersistCommitted"

lemma step_in_flight: "pass_step_of lease c mx fin w = InFlight \<Longrightarrow> lost_pass w"
  by (cases "disposition (pw_record w) (pw_leftovers w)")
    (auto simp: pass_step_of_def Let_def lost_pass_def split: if_splits)

lemma persist_kind:
  "disposition r n = PersistKind \<Longrightarrow> fr_outcome r = ''succeeded'' \<and> fr_consumer r = ''succeeded'' \<and> fr_cleanup r = ''deleted'' \<and> n = 0"
  by (auto simp: disposition_def split: if_splits)

lemma step_persisting:
  assumes "pass_step_of lease c mx fin w = Persisting"
  shows "pw_persist w = PersistCommitted \<Longrightarrow> verified_pass w"
    "pw_recorded w \<Longrightarrow> pw_persist w = PersistDied \<or> pw_persist w = PersistRolledBack False \<Longrightarrow> unfinished_pass w"
proof -
  have "disposition (pw_record w) (pw_leftovers w) = PersistKind \<and> pw_result w"
    using assms by (auto simp: pass_step_of_def Let_def split: if_splits option.splits)
  then show "pw_persist w = PersistCommitted \<Longrightarrow> verified_pass w"
    "pw_recorded w \<Longrightarrow> pw_persist w = PersistDied \<or> pw_persist w = PersistRolledBack False \<Longrightarrow> unfinished_pass w"
    using persist_kind [of "pw_record w" "pw_leftovers w"] by (simp_all add: verified_pass_def unfinished_pass_def)
qed

lemma step_next: "pass_step_of lease c mx fin w = NextPass \<Longrightarrow> \<not> fin"
  by (auto simp: pass_step_of_def Let_def split: if_splits option.splits)

section \<open>One document\<close>

text \<open>What a processed document may look like afterwards.\<close>

definition written :: "string \<Rightarrow> ledger_event list \<Rightarrow> document_slice \<Rightarrow> document_slice \<Rightarrow> bool" where
  "written key es g g' \<longleftrightarrow> lg_items (do_ledger (sd_docs g')) = lg_items (update_item key es (do_ledger (sd_docs g)))"

lemma written_add:
  "written key es g g1 \<Longrightarrow> written key es' g1 g2 \<Longrightarrow> written key (es @ es') g g2"
  by (auto simp: written_def add_events_def)

lemma written_refl: "written key [] g g"
  by (simp add: written_def cong: if_cong)

definition item_in_state :: "string \<Rightarrow> string \<Rightarrow> document_slice \<Rightarrow> bool" where
  "item_in_state key s g \<longleftrightarrow> distinct (map li_key (lg_items (do_ledger (sd_docs g)))) \<and>
     (\<exists>i \<in> set (lg_items (do_ledger (sd_docs g))). li_key i = key \<and> li_kind i = ''document'' \<and> item_state i = s)"

lemma document_at_written:
  assumes "item_in_state key s g" and "written key es g g'" and "es \<noteq> []"
  shows "item_in_state key (le_state (last es)) g'"
proof -
  obtain i where i: "i \<in> set (lg_items (do_ledger (sd_docs g)))" "li_key i = key" "li_kind i = ''document''"
    using assms(1) by (auto simp: item_in_state_def)
  then have "add_events es i \<in> set (lg_items (do_ledger (sd_docs g')))" using assms(2) by (auto simp: written_def)
  moreover have "distinct (map li_key (lg_items (do_ledger (sd_docs g'))))" using assms(1,2) by (simp add: item_in_state_def written_def)
  ultimately show ?thesis using i assms(3) unfolding item_in_state_def by (intro conjI bexI [of _ "add_events es i"]) simp_all
qed

lemma record_pass_ok:
  assumes "item_in_state key s g" and "chain_ok ''document'' s es"
  shows "\<exists>D. record_pass True key r es (sd_docs g) = Inr D \<and> lg_items (do_ledger D) = lg_items (update_item key es (do_ledger (sd_docs g))) \<and>
    do_records D = do_records (sd_docs g) @ (case r of None \<Rightarrow> [] | Some x \<Rightarrow> [(key, x)])"
proof -
  obtain i where "i \<in> set (lg_items (do_ledger (sd_docs g)))" "li_key i = key" "li_kind i = ''document''" "item_state i = s"
    and keys: "distinct (map li_key (lg_items (do_ledger (sd_docs g))))" using assms(1) by (auto simp: item_in_state_def)
  then have "append_events key es (do_ledger (sd_docs g)) = Inr (update_item key es (do_ledger (sd_docs g)))"
    using append_events_total [OF keys, of i es] assms(2) by simp
  then show ?thesis by (simp add: record_pass_def guardR_def)
qed

lemma record_pass_commits: "record_pass commits key r es D = Inr D' \<Longrightarrow> commits"
  by (cases commits) (auto simp: record_pass_def guardR_def bindR_eq_Inr)

lemma record_pass_same: "record_pass commits key r [] D = Inr D' \<Longrightarrow>
    D' = D\<lparr>do_records := do_records D @ (case r of None \<Rightarrow> [] | Some x \<Rightarrow> [(key, x)])\<rparr>"
  by (cases commits) (auto simp: record_pass_def guardR_def)

definition answered :: "string \<Rightarrow> ledger_event list \<Rightarrow> document_slice \<Rightarrow> document_slice \<Rightarrow> process_end \<Rightarrow> bool" where
  "answered key es g g' e \<longleftrightarrow> (e = Ended \<or> (\<exists>s. e = Stopped s)) \<and> es \<noteq> [] \<and>
     sd_outcomes g' = sd_outcomes g @ [(key, le_state (last es))] \<and> le_state (last es) \<notin> set in_flight"

lemma conclude_pass_ok:
  assumes "item_in_state key s g" and "chain_ok ''document'' s es" and "es \<noteq> []" and "le_state (last es) = t" and "t \<notin> set in_flight"
    and "conclude_pass commits key r es t stop g = (g', e)"
  shows "\<not> commits \<and> g' = g \<and> e = Propagated \<or> commits \<and> written key es g g' \<and> answered key es g g' e \<and>
    do_records (sd_docs g') = do_records (sd_docs g) @ (case r of None \<Rightarrow> [] | Some x \<Rightarrow> [(key, x)]) \<and> sd_documents g' = sd_documents g"
proof (cases commits)
  case False
  then have "record_pass commits key r es (sd_docs g) \<noteq> Inr D" for D using record_pass_commits by blast
  then show ?thesis using assms(6) False by (auto simp: conclude_pass_def split: sum.splits)
next
  case True
  obtain D where "record_pass True key r es (sd_docs g) = Inr D" "lg_items (do_ledger D) = lg_items (update_item key es (do_ledger (sd_docs g)))"
    "do_records D = do_records (sd_docs g) @ (case r of None \<Rightarrow> [] | Some x \<Rightarrow> [(key, x)])"
    using record_pass_ok [OF assms(1,2)] by blast
  then show ?thesis using assms(3-6) True
    by (auto simp: conclude_pass_def doc_done_def written_def answered_def split: option.splits)
qed

text \<open>Something propagated: no outcome is reported, and the document is still requesting, or processing with the record of a
  pass that did not finish.\<close>

definition left_in_flight :: "nat \<Rightarrow> nat \<Rightarrow> (nat \<Rightarrow> pass_world) \<Rightarrow> ledger_event list \<Rightarrow> f2_record list \<Rightarrow> bool" where
  "left_in_flight left n world es rs \<longleftrightarrow>
     es = [] \<and> (\<exists>m. n \<le> m \<and> m \<le> n + left \<and> lost_pass (world m)) \<or>
     map le_state es = [''processing''] \<and> rs \<noteq> [] \<and>
       (\<exists>m. n \<le> m \<and> m \<le> n + left \<and> unfinished_pass (world m) \<and> last rs = pw_record (world m))"

text \<open>The outcome of the passes from the \<open>n\<close>-th on, at most \<open>left\<close> more.\<close>

definition passes_end :: "nat \<Rightarrow> nat \<Rightarrow> (nat \<Rightarrow> pass_world) \<Rightarrow> string \<Rightarrow> document_slice \<Rightarrow> document_slice \<Rightarrow> process_end \<Rightarrow> bool" where
  "passes_end left n world key g g' e \<longleftrightarrow>
     (\<exists>es rs. written key es g g' \<and> chain_ok ''document'' ''requesting'' es \<and>
        do_records (sd_docs g') = do_records (sd_docs g) @ map (Pair key) rs \<and> length rs \<le> left + 1 \<and>
        sd_documents g' \<le> sd_documents g + int left + 1 \<and>
        (e = Propagated \<and> sd_outcomes g' = sd_outcomes g \<and> left_in_flight left n world es rs \<or>
         answered key es g g' e \<and>
         (le_state (last es) = ''persisted'' \<longrightarrow> (\<exists>m. n \<le> m \<and> m \<le> n + left \<and> verified_pass (world m) \<and> last rs = pw_record (world m) \<and> rs \<noteq> []))))"

lemma passes_end_answered:
  assumes "written key es g g'" and "chain_ok ''document'' ''requesting'' es" and "answered key es g g' e"
    and "do_records (sd_docs g') = do_records (sd_docs g) @ map (Pair key) rs" and "length rs \<le> 1" and "sd_documents g' \<le> sd_documents g + 1"
    and "le_state (last es) = ''persisted'' \<Longrightarrow> verified_pass (world n) \<and> rs = [pw_record (world n)]"
  shows "passes_end left n world key g g' e"
  unfolding passes_end_def using assms
  by (intro exI [of _ es] exI [of _ rs] conjI disjI2 impI exI [of _ n]) auto

lemma persist_pass_end:
  assumes "item_in_state key ''requesting'' g" and step: "pass_step_of lease c mx fin w = Persisting"
    and run: "persist_pass key claims w g = (g', e)"
  shows "\<not> pw_recorded w \<and> g' = g \<and> e = Propagated \<or>
    (\<exists>es. written key es g g' \<and> chain_ok ''document'' ''requesting'' es \<and>
    do_records (sd_docs g') = do_records (sd_docs g) @ [(key, pw_record w)] \<and> sd_documents g' = sd_documents g \<and>
    (answered key es g g' e \<and> (le_state (last es) = ''persisted'' \<longrightarrow> verified_pass w) \<or>
     e = Propagated \<and> sd_outcomes g' = sd_outcomes g \<and> map le_state es = [''processing''] \<and> unfinished_pass w))"
proof (cases "pw_recorded w")
  case False
  then have "record_pass (pw_recorded w) key r es D \<noteq> Inr D'" for r es D D' using record_pass_commits by blast
  then show ?thesis using run False by (auto simp: persist_pass_def Let_def split: sum.splits)
next
  case True
  let ?p = "recorded_event (sd_lease g) ''processing'' None"
  have p: "chain_ok ''document'' ''requesting'' [?p]" by (simp add: document_check document_transitions_def)
  obtain D where D: "record_pass True key (Some (pw_record w)) [?p] (sd_docs g) = Inr D"
      "lg_items (do_ledger D) = lg_items (update_item key [?p] (do_ledger (sd_docs g)))" "do_records D = do_records (sd_docs g) @ [(key, pw_record w)]"
    using record_pass_ok [OF assms(1) p, of "Some (pw_record w)"] by auto
  define g1 where "g1 = g\<lparr>sd_docs := D\<rparr>"
  have w1: "written key [?p] g g1" by (simp add: written_def g1_def D(2))
  have at1: "item_in_state key ''processing'' g1" using document_at_written [OF assms(1) w1] by simp
  note ends = step_persisting [OF step]
  have left: "?thesis" if died: "g' = g1" "e = Propagated" "pw_persist w = PersistDied \<or> pw_persist w = PersistRolledBack False"
    using w1 p D(3) died ends(2) [OF True died(3)] by (intro disjI2 exI [of _ "[?p]"]) (simp add: g1_def)
  have ended: "?thesis" if last: "conclude_pass commits key None [recorded_event (sd_lease g) s why] s stop g1 = (g', e)"
      and s: "s \<in> {''persisted'', ''retry_wait'', ''failed''}"
      and stored: "s = ''persisted'' \<Longrightarrow> pw_persist w = PersistCommitted" and noted: "\<not> commits \<Longrightarrow> pw_persist w = PersistRolledBack False"
    for commits s why stop
  proof -
    let ?e = "recorded_event (sd_lease g) s why"
    have legal: "chain_ok ''document'' ''processing'' [?e]" using s by (auto simp: document_check document_transitions_def)
    have "s \<notin> set in_flight" using s by (auto simp: in_flight_def)
    then consider "\<not> commits" "g' = g1" "e = Propagated" | "written key [?e] g1 g'" "answered key [?e] g1 g' e"
        "do_records (sd_docs g') = do_records (sd_docs g1)" "sd_documents g' = sd_documents g1"
      using conclude_pass_ok [OF at1 legal _ _ _ last] by auto
    then show ?thesis
    proof cases
      case 1
      then show ?thesis using noted left by simp
    next
      case 2
      have "answered key [?p, ?e] g g' e" using 2(2) by (simp add: answered_def g1_def)
      moreover have "chain_ok ''document'' ''requesting'' [?p, ?e]" using p legal by simp
      moreover have "written key [?p, ?e] g g'" using written_add [OF w1 2(1)] by simp
      ultimately show ?thesis using 2(3,4) D(3) stored ends(1)
        by (intro disjI2 exI [of _ "[?p, ?e]"]) (simp add: g1_def)
    qed
  qed
  show ?thesis
  proof (cases "pw_persist w")
    case PersistCommitted
    then have "conclude_pass True key None [recorded_event (sd_lease g) ''persisted'' None] ''persisted'' (transport_stop w) g1 = (g', e)"
      using run by (simp add: persist_pass_def True D(1) g1_def Let_def)
    then show ?thesis by (rule ended) (use PersistCommitted in simp_all)
  next
    case (PersistRolledBack noted)
    let ?s = "if claims < sd_item_max g then ''retry_wait'' else ''failed''"
    have "conclude_pass noted key None [recorded_event (sd_lease g) ?s (Some ''the persistence transaction failed and was rolled back'')] ?s None g1 = (g', e)"
      using run PersistRolledBack by (simp add: persist_pass_def True D(1) g1_def Let_def)
    then show ?thesis by (rule ended) (use PersistRolledBack in \<open>simp_all split: if_splits\<close>)
  next
    case PersistDied
    then show ?thesis using run by (intro left) (simp_all add: persist_pass_def True D(1) g1_def Let_def)
  qed
qed

lemma passes_end_later:
  assumes "passes_end l (n + 1) world key g1 g' e" and "written key [] g g1" and "sd_outcomes g1 = sd_outcomes g"
    and "do_records (sd_docs g1) = do_records (sd_docs g) @ [(key, r)]" and "sd_documents g1 \<le> sd_documents g + 1"
  shows "passes_end (Suc l) n world key g g' e"
proof -
  obtain es rs where *: "written key es g1 g'" "chain_ok ''document'' ''requesting'' es"
      "do_records (sd_docs g') = do_records (sd_docs g1) @ map (Pair key) rs" "length rs \<le> l + 1" "sd_documents g' \<le> sd_documents g1 + int l + 1"
      "e = Propagated \<and> sd_outcomes g' = sd_outcomes g1 \<and> left_in_flight l (n + 1) world es rs \<or>
       answered key es g1 g' e \<and> (le_state (last es) = ''persisted'' \<longrightarrow>
         (\<exists>m. n + 1 \<le> m \<and> m \<le> n + 1 + l \<and> verified_pass (world m) \<and> last rs = pw_record (world m) \<and> rs \<noteq> []))"
    using assms(1) unfolding passes_end_def by blast
  have "answered key es g1 g' e \<Longrightarrow> answered key es g g' e" by (simp add: answered_def assms(3))
  moreover have "written key es g g'" using written_add [OF assms(2) *(1)] by simp
  moreover have later: "n + 1 \<le> m \<and> m \<le> n + 1 + l \<Longrightarrow> n \<le> m \<and> m \<le> n + Suc l" for m by simp
  moreover have "left_in_flight l (n + 1) world es rs \<Longrightarrow> left_in_flight (Suc l) n world es (r # rs)"
    unfolding left_in_flight_def using later by fastforce
  ultimately show ?thesis using * assms(3-5) unfolding passes_end_def
    by (intro exI [of _ es] exI [of _ "r # rs"] conjI) fastforce+
qed

lemma passes_end_lost:
  assumes "lost_pass (world n)" and "written key [] g g'" and "e = Propagated" and "sd_outcomes g' = sd_outcomes g"
    and "do_records (sd_docs g') = do_records (sd_docs g)" and "sd_documents g' \<le> sd_documents g + 1"
  shows "passes_end left n world key g g' e"
  unfolding passes_end_def using assms
  by (intro exI [of _ "[]"] exI [of _ "[] :: f2_record list"] conjI disjI1) (auto simp: left_in_flight_def)

lemma waiting_end:
  assumes "item_in_state key ''requesting'' g" and "conclude_pass (pw_recorded (world n)) key None [recorded_event lease ''retry_wait'' why] ''retry_wait'' stop g = (g', e)"
  shows "passes_end left n world key g g' e"
proof -
  have "chain_ok ''document'' ''requesting'' [recorded_event lease ''retry_wait'' why]" by (simp add: document_check document_transitions_def)
  from conclude_pass_ok [OF assms(1) this _ _ _ assms(2)]
  consider "\<not> pw_recorded (world n)" "g' = g" "e = Propagated" | "written key [recorded_event lease ''retry_wait'' why] g g'"
      "answered key [recorded_event lease ''retry_wait'' why] g g' e" "do_records (sd_docs g') = do_records (sd_docs g)" "sd_documents g' = sd_documents g"
    by (auto simp: in_flight_def)
  then show ?thesis
  proof cases
    case 1
    then show ?thesis using written_refl [of key g] by (intro passes_end_lost) (simp_all add: lost_pass_def)
  next
    case 2
    then show ?thesis by (intro passes_end_answered [where es = "[recorded_event lease ''retry_wait'' why]" and rs = "[]"])
      (auto simp: document_check document_transitions_def)
  qed
qed

lemma pass_once:
  assumes at: "item_in_state key ''requesting'' g" and run: "pass_loop left n world key claims g = (g', e)"
  shows "passes_end left n world key g g' e \<or>
    (\<exists>l D. left = Suc l \<and> record_pass (pw_recorded (world n)) key (Some (pw_record (world n))) [] (sd_docs g) = Inr D \<and>
       pass_loop l (n + 1) world key claims (g\<lparr>sd_documents := sd_documents g + 1, sd_docs := D\<rparr>) = (g', e))"
proof (cases "1 < n \<and> pw_space (world n) \<or> pw_fetcher (world n) \<noteq> None")
  case True
  then have "\<exists>lease why stop. conclude_pass (pw_recorded (world n)) key None [recorded_event lease ''retry_wait'' why] ''retry_wait'' stop g = (g', e)"
    using run by (auto simp: pass_loop.simps [of left] Let_def split: if_splits option.splits)
  then show ?thesis using waiting_end [OF at] by blast
next
  case False
  let ?g = "g\<lparr>sd_documents := sd_documents g + 1\<rparr>" and ?step = "pass_step_of (sd_lease g) claims (sd_item_max g) (left = 0) (world n)"
  have at1: "item_in_state key ''requesting'' ?g" using at by (simp add: item_in_state_def)
  have count: "passes_end left n world key g g' e"
    if "written key es ?g g'" "chain_ok ''document'' ''requesting'' es" "answered key es ?g g' e"
      "do_records (sd_docs g') = do_records (sd_docs g) @ map (Pair key) rs" "length rs \<le> 1" "sd_documents g' \<le> sd_documents g + 1"
      "le_state (last es) = ''persisted'' \<Longrightarrow> verified_pass (world n) \<and> rs = [pw_record (world n)]" for es rs
    by (rule passes_end_answered [where es = es and rs = rs]) (use that in \<open>auto simp: written_def answered_def\<close>)
  have w0: "written key [] g ?g" using written_refl [of key g] by (simp add: written_def)
  have lost: ?thesis if "lost_pass (world n)" "g' = ?g" "e = Propagated"
    using that w0 by (intro disjI1 passes_end_lost) simp_all
  show ?thesis
  proof (cases ?step)
    case InFlight
    then have "g' = ?g" "e = Propagated" using run False by (auto simp: pass_loop.simps [of left] Let_def)
    then show ?thesis by (rule lost [OF step_in_flight [OF InFlight]])
  next
    case (Recorded es s stop)
    then have c: "conclude_pass (pw_recorded (world n)) key (Some (pw_record (world n))) es s stop ?g = (g', e)"
      using run False by (auto simp: pass_loop.simps [of left] Let_def)
    have ch: "chain_ok ''document'' ''requesting'' es" "es \<noteq> []" "le_state (last es) = s" "s \<notin> set in_flight" "s \<noteq> ''persisted''"
      using step_recorded [OF Recorded] by (simp_all add: concluded_chain_def)
    from conclude_pass_ok [OF at1 ch(1-4) c] show ?thesis
    proof (elim disjE conjE)
      assume "\<not> pw_recorded (world n)" "g' = ?g" "e = Propagated"
      then show ?thesis by (intro lost) (simp add: lost_pass_def)
    next
      assume "written key es ?g g'" "answered key es ?g g' e" "sd_documents g' = sd_documents ?g"
        "do_records (sd_docs g') = do_records (sd_docs ?g) @ (case Some (pw_record (world n)) of None \<Rightarrow> [] | Some x \<Rightarrow> [(key, x)])"
      then show ?thesis using ch(1,3,5) by (intro disjI1 count [where es = es and rs = "[pw_record (world n)]"]) auto
    qed
  next
    case Persisting
    then have c: "persist_pass key claims (world n) ?g = (g', e)" using run False by (auto simp: pass_loop.simps [of left] Let_def)
    from persist_pass_end [OF at1 Persisting c] show ?thesis
    proof (elim disjE exE conjE)
      assume "\<not> pw_recorded (world n)" "g' = ?g" "e = Propagated"
      then show ?thesis by (intro lost) (simp add: lost_pass_def)
    next
      fix es
      assume "written key es ?g g'" "chain_ok ''document'' ''requesting'' es" "answered key es ?g g' e"
        "do_records (sd_docs g') = do_records (sd_docs ?g) @ [(key, pw_record (world n))]" "sd_documents g' = sd_documents ?g"
        "le_state (last es) = ''persisted'' \<longrightarrow> verified_pass (world n)"
      then show ?thesis by (intro disjI1 count [where es = es and rs = "[pw_record (world n)]"]) simp_all
    next
      fix es
      assume es: "written key es ?g g'" "chain_ok ''document'' ''requesting'' es" "sd_outcomes g' = sd_outcomes ?g" "e = Propagated"
        "do_records (sd_docs g') = do_records (sd_docs ?g) @ [(key, pw_record (world n))]" "sd_documents g' = sd_documents ?g"
        "map le_state es = [''processing'']" "unfinished_pass (world n)"
      have "written key es g g'" using written_add [OF w0 es(1)] by simp
      moreover have "left_in_flight left n world es [pw_record (world n)]"
        unfolding left_in_flight_def using es(7,8) by (intro disjI2 conjI exI [of _ n]) simp_all
      ultimately show ?thesis unfolding passes_end_def using es(2-6)
        by (intro disjI1 exI [of _ es] exI [of _ "[pw_record (world n)]"]) simp
    qed
  next
    case NextPass
    obtain l where l: "left = Suc l" using step_next [OF NextPass] by (cases left) auto
    show ?thesis
    proof (cases "record_pass (pw_recorded (world n)) key (Some (pw_record (world n))) [] (sd_docs g)")
      case (Inl x)
      have "\<not> pw_recorded (world n)"
      proof
        assume "pw_recorded (world n)"
        then show False using record_pass_ok [OF at1, of "[]" "Some (pw_record (world n))"] Inl by simp
      qed
      moreover have "g' = ?g" "e = Propagated" using run False NextPass Inl by (auto simp: pass_loop.simps [of left] Let_def)
      ultimately show ?thesis by (intro lost) (simp_all add: lost_pass_def)
    next
      case (Inr D)
      then show ?thesis using run False NextPass l by (auto simp: pass_loop.simps [of "Suc l"] Let_def)
    qed
  qed
qed

lemma pass_loop_end:
  assumes "item_in_state key ''requesting'' g" and "pass_loop left n world key claims g = (g', e)"
  shows "passes_end left n world key g g' e"
  using assms
proof (induction left arbitrary: n g)
  case 0
  then show ?case using pass_once [OF 0] by simp
next
  case (Suc l)
  from pass_once [OF Suc.prems] show ?case
  proof (elim disjE exE conjE)
    fix k D
    assume k: "Suc l = Suc k" and D: "record_pass (pw_recorded (world n)) key (Some (pw_record (world n))) [] (sd_docs g) = Inr D"
      and rest: "pass_loop k (n + 1) world key claims (g\<lparr>sd_documents := sd_documents g + 1, sd_docs := D\<rparr>) = (g', e)"
    let ?g = "g\<lparr>sd_documents := sd_documents g + 1, sd_docs := D\<rparr>"
    have D': "do_ledger D = do_ledger (sd_docs g)" "do_records D = do_records (sd_docs g) @ [(key, pw_record (world n))]"
      using record_pass_same [OF D] by simp_all
    then have "item_in_state key ''requesting'' ?g" using Suc.prems(1) by (simp add: item_in_state_def)
    then have "passes_end l (n + 1) world key ?g g' e" using Suc.IH rest k by simp
    then show ?thesis using D' written_refl [of key g] by (intro passes_end_later [where ?g1.0 = ?g]) (simp_all add: written_def)
  qed
qed

lemma claim_document:
  assumes "item_in_state key s g" and "s = ''pending'' \<or> s = ''retry_wait''"
  shows "claim_item key (sd_lease g) None (do_ledger (sd_docs g)) = Inr (update_item key [claim_of (sd_lease g)] (do_ledger (sd_docs g)))"
    "chain_ok ''document'' s (claim_of (sd_lease g) # es) \<longleftrightarrow> chain_ok ''document'' ''requesting'' es"
proof -
  have legal: "check_transition ''document'' s ''requesting'' ''claim'' None = Inr ()"
    using assms(2) by (auto simp: document_check document_transitions_def)
  obtain i where i: "i \<in> set (lg_items (do_ledger (sd_docs g)))" "li_key i = key" "li_kind i = ''document''" "item_state i = s"
    and keys: "distinct (map li_key (lg_items (do_ledger (sd_docs g))))" using assms(1) by (auto simp: item_in_state_def)
  have "append_events key [claim_of (sd_lease g)] (do_ledger (sd_docs g)) = Inr (update_item key [claim_of (sd_lease g)] (do_ledger (sd_docs g)))"
    using append_events_total [OF keys i(1), of "[claim_of (sd_lease g)]"] legal i(2-4) by (simp add: claim_of_def)
  then show "claim_item key (sd_lease g) None (do_ledger (sd_docs g)) = Inr (update_item key [claim_of (sd_lease g)] (do_ledger (sd_docs g)))"
    unfolding append_events_one claim_item_def claim_of_def .
  show "chain_ok ''document'' s (claim_of (sd_lease g) # es) \<longleftrightarrow> chain_ok ''document'' ''requesting'' es" using legal by (simp add: claim_of_def)
qed

lemma process_one_cases:
  assumes "process_one sha w d g = (g', e)" and "claim_item (dt_key d) (sd_lease g) None (do_ledger (sd_docs g)) = Inr l1"
  shows "sd_docs g' = sd_docs g \<and> sd_outcomes g' = sd_outcomes g \<and>
      ((\<exists>x. e = NotEligible x) \<or> (\<exists>x. e = Stopped x) \<or> e = Propagated \<and> \<not> dv_database w) \<or>
    pass_loop (nat (sd_passes g - 1)) 1 (dv_passes w) (dt_key d) (claims_of l1 (dt_key d))
      (g\<lparr>sd_docs := (sd_docs g)\<lparr>do_ledger := l1\<rparr>, sd_attempted := dt_key d # sd_attempted g\<rparr>) = (g', e)"
  using assms by (auto simp: process_one_def Let_def split: if_splits)

text \<open>C5: Whatever F2, the transport, the disk and the database answer (a transaction either commits and returns or is rolled
  back and raises), processing a waiting document either claims nothing and writes nothing, or appends one legal chain of
  events after its claim. Where it returns or stops the slice, the chain ends in the outcome reported, never in flight. Where
  something propagates after the claim, no outcome is reported and the document stays in flight, for one of two reasons only:
  it is still requesting, because an attempt has no committed outcome, F2's success came without its result, or a pass's
  recording did not commit; or it is processing, with F2's record stored, because neither the persistence transaction nor the
  record of its failure committed. It is persisted only after a pass whose document F2 handed to a succeeding consumer,
  verified as deleted, with nothing left in the temporary root, and whose persistence transaction committed. There are at
  most as many F2 records as passes allowed.\<close>

theorem document_concludes:
  assumes "item_in_state (dt_key d) s g" and "s = ''pending'' \<or> s = ''retry_wait''"
    and "1 \<le> sd_passes g" and "process_one sha w d g = (g', e)"
  shows "sd_docs g' = sd_docs g \<and> sd_outcomes g' = sd_outcomes g \<and>
      ((\<exists>x. e = NotEligible x) \<or> (\<exists>x. e = Stopped x) \<or> e = Propagated \<and> \<not> dv_database w) \<or>
    (\<exists>es rs. written (dt_key d) (claim_of (sd_lease g) # es) g g' \<and> chain_ok ''document'' s (claim_of (sd_lease g) # es) \<and>
       do_records (sd_docs g') = do_records (sd_docs g) @ map (Pair (dt_key d)) rs \<and> int (length rs) \<le> sd_passes g \<and>
       (if e = Propagated
        then sd_outcomes g' = sd_outcomes g \<and> le_state (last (claim_of (sd_lease g) # es)) \<in> set in_flight \<and>
          (es = [] \<and> (\<exists>m. lost_pass (dv_passes w m)) \<or>
           map le_state es = [''processing''] \<and> rs \<noteq> [] \<and> (\<exists>m. unfinished_pass (dv_passes w m) \<and> last rs = pw_record (dv_passes w m)))
        else (\<forall>x. e \<noteq> NotEligible x) \<and> es \<noteq> [] \<and> le_state (last es) \<notin> set in_flight \<and>
          sd_outcomes g' = sd_outcomes g @ [(dt_key d, le_state (last es))] \<and>
          (le_state (last es) = ''persisted'' \<longrightarrow> (\<exists>m. verified_pass (dv_passes w m) \<and> rs \<noteq> [] \<and> last rs = pw_record (dv_passes w m)))))"
proof -
  let ?key = "dt_key d" and ?c = "claim_of (sd_lease g)"
  define l1 where "l1 = update_item ?key [?c] (do_ledger (sd_docs g))"
  define g1 where "g1 = g\<lparr>sd_docs := (sd_docs g)\<lparr>do_ledger := l1\<rparr>, sd_attempted := ?key # sd_attempted g\<rparr>"
  note claim = claim_document(1) [OF assms(1,2), folded l1_def] and chain = claim_document(2) [OF assms(1,2)]
  have w1: "written ?key [?c] g g1" by (simp add: written_def g1_def l1_def)
  then have "item_in_state ?key (le_state (last [?c])) g1" using document_at_written [OF assms(1)] by blast
  then have at1: "item_in_state ?key ''requesting'' g1" by (simp add: claim_of_def)
  from process_one_cases [OF assms(4) claim] show ?thesis
  proof
    assume "sd_docs g' = sd_docs g \<and> sd_outcomes g' = sd_outcomes g \<and>
      ((\<exists>x. e = NotEligible x) \<or> (\<exists>x. e = Stopped x) \<or> e = Propagated \<and> \<not> dv_database w)"
    then show ?thesis by (rule disjI1)
  next
    assume "pass_loop (nat (sd_passes g - 1)) 1 (dv_passes w) ?key (claims_of l1 ?key)
      (g\<lparr>sd_docs := (sd_docs g)\<lparr>do_ledger := l1\<rparr>, sd_attempted := ?key # sd_attempted g\<rparr>) = (g', e)"
    from pass_loop_end [OF at1 this [folded g1_def]] obtain es rs where es: "written ?key es g1 g'" "chain_ok ''document'' ''requesting'' es"
        "do_records (sd_docs g') = do_records (sd_docs g) @ map (Pair ?key) rs" "length rs \<le> nat (sd_passes g - 1) + 1"
      and out: "e = Propagated \<and> sd_outcomes g' = sd_outcomes g1 \<and> left_in_flight (nat (sd_passes g - 1)) 1 (dv_passes w) es rs \<or>
        answered ?key es g1 g' e \<and> (le_state (last es) = ''persisted'' \<longrightarrow> (\<exists>m. verified_pass (dv_passes w m) \<and> last rs = pw_record (dv_passes w m) \<and> rs \<noteq> []))"
      unfolding passes_end_def g1_def by auto
    have "written ?key (?c # es) g g'" using written_add [OF w1 es(1)] by simp
    moreover have "int (length rs) \<le> sd_passes g" using es(4) assms(3) by linarith
    moreover have "if e = Propagated
        then sd_outcomes g' = sd_outcomes g \<and> le_state (last (?c # es)) \<in> set in_flight \<and>
          (es = [] \<and> (\<exists>m. lost_pass (dv_passes w m)) \<or>
           map le_state es = [''processing''] \<and> rs \<noteq> [] \<and> (\<exists>m. unfinished_pass (dv_passes w m) \<and> last rs = pw_record (dv_passes w m)))
        else (\<forall>x. e \<noteq> NotEligible x) \<and> es \<noteq> [] \<and> le_state (last es) \<notin> set in_flight \<and>
          sd_outcomes g' = sd_outcomes g @ [(?key, le_state (last es))] \<and>
          (le_state (last es) = ''persisted'' \<longrightarrow> (\<exists>m. verified_pass (dv_passes w m) \<and> rs \<noteq> [] \<and> last rs = pw_record (dv_passes w m)))"
      using out
    proof (elim disjE conjE)
      assume "e = Propagated" "sd_outcomes g' = sd_outcomes g1" "left_in_flight (nat (sd_passes g - 1)) 1 (dv_passes w) es rs"
      then show ?thesis by (auto simp: left_in_flight_def g1_def in_flight_def claim_of_def)
    qed (auto simp: answered_def g1_def)
    ultimately show ?thesis using es(2,3) chain by blast
  qed
qed

end
