(* ===== verification/DocumentPlanning.thy ===== *)
theory DocumentPlanning
  imports DocumentFacts
begin

text \<open>
  Facts of planning and reconciliation of documents: both always succeed, planning leaves an item for every candidate
  filing and decides every discovered one, and reconciliation leaves no document that no slice would pick up. At the end one
  filing of January 2024 is planned, retrieved and persisted, and a document a slice died on is reconciled.
\<close>

section \<open>Chains for several items\<close>

fun append_each :: "(string \<times> ledger_event list) list \<Rightarrow> ledger \<Rightarrow> ledger res" where
  "append_each [] l = Inr l"
| "append_each ((k, es) # xs) l = bindR (append_events k es l) (append_each xs)"

definition apply_map :: "(string \<Rightarrow> ledger_event list option) \<Rightarrow> ledger \<Rightarrow> ledger" where
  "apply_map m l = l\<lparr>lg_items := map (\<lambda>i. case m (li_key i) of None \<Rightarrow> i | Some es \<Rightarrow> add_events es i) (lg_items l)\<rparr>"

lemma apply_map_sel [simp]:
  "lg_attempts (apply_map m l) = lg_attempts l" "lg_outcomes (apply_map m l) = lg_outcomes l"
  "lg_items (apply_map m l) = map (\<lambda>i. case m (li_key i) of None \<Rightarrow> i | Some es \<Rightarrow> add_events es i) (lg_items l)"
  by (simp_all add: apply_map_def)

lemma apply_map_keys [simp]: "li_key (case m (li_key i) of None \<Rightarrow> i | Some es \<Rightarrow> add_events es i) = li_key i"
  "li_kind (case m (li_key i) of None \<Rightarrow> i | Some es \<Rightarrow> add_events es i) = li_kind i"
  by (simp_all split: option.split)

definition appendable :: "(string \<times> ledger_event list) list \<Rightarrow> ledger \<Rightarrow> bool" where
  "appendable xs l \<longleftrightarrow> distinct (map fst xs) \<and> distinct (map li_key (lg_items l)) \<and>
     list_all (\<lambda>(k, es). \<exists>i \<in> set (lg_items l). li_key i = k \<and> chain_ok (li_kind i) (item_state i) es) xs"

lemma append_each_total:
  assumes "appendable xs l"
  shows "append_each xs l = Inr (apply_map (map_of xs) l)"
  using assms
proof (induction xs arbitrary: l)
  case Nil
  then show ?case by (simp add: apply_map_def)
next
  case (Cons x xs)
  obtain k es where x: "x = (k, es)" by fastforce
  obtain i where i: "i \<in> set (lg_items l)" "li_key i = k" "chain_ok (li_kind i) (item_state i) es"
    using Cons.prems by (auto simp: appendable_def x)
  have keys: "distinct (map li_key (lg_items l))" using Cons.prems by (simp add: appendable_def)
  have one: "append_events k es l = Inr (update_item k es l)" using append_events_total [OF keys i(1,3)] i(2) by simp
  have "appendable xs (update_item k es l)" unfolding appendable_def
  proof (intro conjI)
    show "distinct (map fst xs)" "distinct (map li_key (lg_items (update_item k es l)))" using Cons.prems keys by (simp_all add: appendable_def x)
    have "\<exists>j \<in> set (lg_items (update_item k es l)). li_key j = h \<and> chain_ok (li_kind j) (item_state j) fs" if h: "(h, fs) \<in> set xs" for h fs
    proof -
      obtain j where j: "j \<in> set (lg_items l)" "li_key j = h" "chain_ok (li_kind j) (item_state j) fs"
        using Cons.prems h by (force simp: appendable_def list_all_iff)
      have "h \<noteq> k" using Cons.prems h by (force simp: appendable_def x)
      then show ?thesis using j update_item_others [of h k j l es] by blast
    qed
    then show "list_all (\<lambda>(k', es'). \<exists>i \<in> set (lg_items (update_item k es l)). li_key i = k' \<and> chain_ok (li_kind i) (item_state i) es') xs"
      by (auto simp: list_all_iff)
  qed
  moreover have "k \<notin> dom (map_of xs)" using Cons.prems by (simp add: appendable_def x dom_map_of_conv_image_fst)
  ultimately show ?case using Cons.IH one
    by (auto simp: x apply_map_def update_item_def fun_eq_iff domIff split: option.split)
qed

section \<open>Joined items\<close>

lemma joined_item_sel:
  "joined_item A D i = Some d \<Longrightarrow> dt_key d = li_key i \<and> dt_state d = item_state i"
  by (auto simp: joined_item_def split: option.splits)

lemma in_map_filter: "x \<in> set (List.map_filter f xs) \<longleftrightarrow> (\<exists>y \<in> set xs. f y = Some x)"
  by (induction xs) (auto simp: List.map_filter_simps split: option.split)

lemma set_document_items:
  "d \<in> set (document_items A states D) \<longleftrightarrow>
     (\<exists>i \<in> set (lg_items (do_ledger D)). li_kind i = ''document'' \<and> item_state i \<in> set states \<and> joined_item A D i = Some d)"
  by (auto simp: document_items_def in_map_filter)

lemma distinct_document_items:
  assumes "distinct (map li_key (lg_items (do_ledger D)))"
  shows "distinct (map dt_key (document_items A states D))"
proof -
  have keys: "map dt_key (List.map_filter (joined_item A D) xs) = map li_key (filter (\<lambda>i. joined_item A D i \<noteq> None) xs)" for xs
    by (induction xs) (auto simp: List.map_filter_simps dest: joined_item_sel split: option.split)
  have "distinct (map dt_key (List.map_filter (joined_item A D) (filter P (lg_items (do_ledger D)))))" for P
    using assms unfolding keys by (simp add: distinct_map inj_on_def)
  then show ?thesis unfolding document_items_def by (simp add: distinct_map inj_on_def)
qed

section \<open>Creating documents\<close>






section \<open>Planning\<close>






lemma joined_again:
  assumes "joined_item A D' j = Some d" and "do_subjects D' = do_subjects D" and "li_key j = li_key i"
  shows "joined_item A D i = Some (d\<lparr>dt_state := item_state i\<rparr>)"
  using assms by (auto simp: joined_item_def subject_named_def split: option.splits)

lemma path_is_current_state [simp]: "path_is_current sha (d\<lparr>dt_state := s\<rparr>) = path_is_current sha d"
  by (simp add: path_is_current_def split: option.split)

text \<open>A joined item after a map of events was applied to the ledger it was joined from.\<close>

lemma applied_item:
  assumes "do_ledger D2 = apply_map m (do_ledger D1)" and "do_subjects D2 = do_subjects D1" and "d \<in> set (document_items A states D2)"
  shows "\<exists>i \<in> set (lg_items (do_ledger D1)). li_kind i = ''document'' \<and> li_key i = dt_key d \<and>
    joined_item A D1 i = Some (d\<lparr>dt_state := item_state i\<rparr>) \<and> dt_state d \<in> set states \<and>
    (case m (dt_key d) of None \<Rightarrow> dt_state d = item_state i | Some es \<Rightarrow> dt_state d = item_state (add_events es i)) \<and>
    (case m (dt_key d) of None \<Rightarrow> i | Some es \<Rightarrow> add_events es i) \<in> set (lg_items (do_ledger D2))"
proof -
  obtain j where j: "j \<in> set (lg_items (do_ledger D2))" "li_kind j = ''document''" "item_state j \<in> set states" "joined_item A D2 j = Some d"
    using assms(3) unfolding set_document_items by auto
  obtain i where i: "i \<in> set (lg_items (do_ledger D1))" "j = (case m (li_key i) of None \<Rightarrow> i | Some es \<Rightarrow> add_events es i)"
    using j(1) by (auto simp: assms(1))
  have same: "li_key j = li_key i" "li_kind i = ''document''" using i(2) j(2) by (auto split: option.splits)
  have sel: "dt_key d = li_key i" "dt_state d = item_state j" using joined_item_sel [OF j(4)] same(1) by simp_all
  show ?thesis using i j(1,3) same sel joined_again [OF j(4) assms(2) same(1)]
    by (intro bexI [of _ i]) (auto split: option.splits)
qed




section \<open>Reconciliation\<close>

lemma promote_documents_each:
  "promote_documents won ds l = append_each (map (\<lambda>d. (dt_key d, [document_promotion (won d)])) ds) l"
proof (induction ds arbitrary: l)
  case (Cons d ds)
  show ?case using Cons.IH by (cases "append_event (dt_key d) (document_promotion (won d)) l") simp_all
qed simp

lemma document_chains:
  "chain_ok ''document'' ''abandoned'' [document_promotion r]"
  "s = ''pending'' \<or> s = ''retry_wait'' \<Longrightarrow> chain_ok ''document'' s (document_end_events lease r s)"
  by (auto simp: document_promotion_def document_end_events_def terminal_claim_def document_check document_transitions_def split: option.split)

lemma promoted_document: "item_state (add_events [document_promotion r] i) \<noteq> ''abandoned''"
  by (simp add: document_promotion_def split: option.split)

lemma ended_document: "document_end_events lease r s \<noteq> [] \<and> le_state (last (document_end_events lease r s)) \<in> {''persisted'', ''failed''}"
  by (auto simp: document_end_events_def split: option.split)

text \<open>The items of a list of joined items may be moved on by the given events.\<close>

lemma items_appendable:
  assumes "distinct (map li_key (lg_items (do_ledger D)))" and "ds = filter Q (document_items A states D)"
    and "\<And>s d. s \<in> set states \<Longrightarrow> dt_state d = s \<Longrightarrow> chain_ok ''document'' s (f d)"
  shows "appendable (map (\<lambda>d. (dt_key d, f d)) ds) (do_ledger D)"
proof -
  have "\<exists>i \<in> set (lg_items (do_ledger D)). li_key i = dt_key d \<and> chain_ok (li_kind i) (item_state i) (f d)" if d: "d \<in> set ds" for d
  proof -
    obtain i where i: "i \<in> set (lg_items (do_ledger D))" "li_kind i = ''document''" "item_state i \<in> set states" "joined_item A D i = Some d"
      using d unfolding assms(2) by (auto simp: set_document_items)
    then show ?thesis using assms(3) [OF i(3), of d] joined_item_sel [OF i(4)] by (intro bexI [of _ i]) auto
  qed
  moreover have "distinct (map dt_key ds)" using distinct_map_filter [OF distinct_document_items [OF assms(1)]] by (simp add: assms(2))
  ultimately show ?thesis using assms(1) by (auto simp: appendable_def list_all_iff comp_def)
qed

definition at_end :: "int \<Rightarrow> ledger \<Rightarrow> document_item \<Rightarrow> bool" where
  "at_end mx l d \<longleftrightarrow> (dt_state d = ''pending'' \<or> dt_state d = ''retry_wait'') \<and> open_attempts_of l (dt_key d) = [] \<and>
     (\<exists>i. item_named l (dt_key d) = Some i \<and> item_state i = dt_state d \<and> mx \<le> int (claims_since_requeue i))"

lemma item_named_others:
  assumes "item_named l k = Some i" and "k \<noteq> h" and "distinct (map li_key (lg_items l))"
  shows "item_named (update_item h es l) k = Some i"
proof -
  have i: "i \<in> set (lg_items l)" "li_key i = k" using item_named_Some [OF assms(1)] by simp_all
  then have "i \<in> set (lg_items (update_item h es l))" using update_item_others [of k h i l es] assms(2) by blast
  then show ?thesis using item_named_of [of "update_item h es l" i] assms(3) i(2) by simp
qed

lemma terminalise_documents_total:
  assumes "appendable (map (\<lambda>d. (dt_key d, document_end_events lease (won d) (dt_state d))) ds) l" and "list_all (at_end mx l) ds"
  shows "\<exists>out. terminalise_documents lease mx won ds l =
    Inr (apply_map (map_of (map (\<lambda>d. (dt_key d, document_end_events lease (won d) (dt_state d))) ds)) l, out) \<and> list_all (\<lambda>(k, s). s \<noteq> None) out"
proof -
  let ?f = "\<lambda>d. (dt_key d, document_end_events lease (won d) (dt_state d))"
  have "\<exists>out. terminalise_documents lease mx won ds l = bindR (append_each (map ?f ds) l) (\<lambda>l'. Inr (l', out)) \<and> list_all (\<lambda>(k, s). s \<noteq> None) out"
    using assms
  proof (induction ds arbitrary: l)
    case (Cons d ds)
    have keys: "distinct (map li_key (lg_items l))" and fresh: "dt_key d \<notin> set (map dt_key ds)"
      using Cons.prems(1) by (auto simp: appendable_def comp_def)
    let ?es = "document_end_events lease (won d) (dt_state d)" and ?l1 = "update_item (dt_key d) (document_end_events lease (won d) (dt_state d)) l"
    obtain i where i: "item_named l (dt_key d) = Some i" "item_state i = dt_state d" "mx \<le> int (claims_since_requeue i)"
      and d: "dt_state d = ''pending'' \<or> dt_state d = ''retry_wait''" "open_attempts_of l (dt_key d) = []"
      using Cons.prems(2) by (auto simp: at_end_def)
    have "append_each [(dt_key d, ?es)] l = Inr (apply_map (map_of [(dt_key d, ?es)]) l)"
      by (rule append_each_total) (use Cons.prems(1) in \<open>auto simp: appendable_def\<close>)
    then have one: "append_events (dt_key d) ?es l = Inr ?l1"
      by (cases "append_events (dt_key d) ?es l") (auto simp: apply_map_def update_item_def fun_eq_iff cong: if_cong)
    then have t: "terminalise_document lease mx (won d) (dt_key d) l = Inr (?l1, Some (if won d = None then ''failed'' else ''persisted''))"
      using i d by (auto simp: terminalise_document_def state_of_def claims_of_def)
    have "at_end mx ?l1 x" if x: "x \<in> set ds" for x
    proof -
      have "dt_key x \<noteq> dt_key d" using fresh imageI [OF x, of dt_key] unfolding set_map by metis
      moreover have "at_end mx l x" using Cons.prems(2) x by (simp add: list_all_iff)
      ultimately have "at_end mx l x" "dt_key x \<noteq> dt_key d" by simp_all
      then show ?thesis using item_named_others [OF _ _ keys] by (auto simp: at_end_def open_attempts_of_def attempts_of_def)
    qed
    then have rest: "list_all (at_end mx ?l1) ds" by (simp add: list_all_iff)
    have "appendable (map ?f ds) ?l1" unfolding appendable_def list_all_iff
    proof (intro conjI ballI)
      show "distinct (map fst (map ?f ds))" "distinct (map li_key (lg_items ?l1))" using Cons.prems(1) keys by (simp_all add: appendable_def)
      fix x assume x: "x \<in> set (map ?f ds)"
      then have "fst x \<in> set (map dt_key ds)" by (auto simp: image_iff)
      then have "fst x \<noteq> dt_key d" using fresh by metis
      then show "case x of (k, es) \<Rightarrow> \<exists>i \<in> set (lg_items ?l1). li_key i = k \<and> chain_ok (li_kind i) (item_state i) es"
        using Cons.prems(1) x update_item_others [of "fst x" "dt_key d"] unfolding appendable_def list_all_iff by fastforce
    qed
    from Cons.IH [OF this rest] obtain out where "terminalise_documents lease mx won ds ?l1 = bindR (append_each (map ?f ds) ?l1) (\<lambda>l'. Inr (l', out))"
      "list_all (\<lambda>(k, s). s \<noteq> None) out" by blast
    then show ?case using one t
      by (intro exI [of _ "(dt_key d, Some (if won d = None then ''failed'' else ''persisted'')) # out"])
        (cases "append_each (map ?f ds) ?l1"; simp)
  qed simp
  then show ?thesis using append_each_total [OF assms(1)] by auto
qed

lemma map_of_fst: "map_of (map (\<lambda>d. (g d, f d)) ds) k = Some es \<Longrightarrow> \<exists>d \<in> set ds. g d = k \<and> f d = es"
  by (auto dest!: map_of_SomeD)

lemma map_of_none: "map_of (map (\<lambda>d. (g d, f d)) ds) k = None \<longleftrightarrow> k \<notin> g ` set ds"
  by (simp add: map_of_eq_None_iff image_comp comp_def)

text \<open>After the promotions no item is abandoned; after the terminal decisions none of the waiting ones is at its maximum.\<close>

lemma promoted_documents:
  assumes "D1 = D\<lparr>do_ledger := apply_map (map_of (map (\<lambda>d. (dt_key d, [document_promotion (won d)])) (document_items A [''abandoned''] D))) (do_ledger D)\<rparr>"
    and "d \<in> set (document_items A states D1)"
  shows "dt_state d \<noteq> ''abandoned''"
proof -
  let ?m = "map_of (map (\<lambda>d. (dt_key d, [document_promotion (won d)])) (document_items A [''abandoned''] D))"
  obtain i where i: "i \<in> set (lg_items (do_ledger D))" "li_kind i = ''document''" "li_key i = dt_key d"
      "joined_item A D i = Some (d\<lparr>dt_state := item_state i\<rparr>)"
      "case ?m (dt_key d) of None \<Rightarrow> dt_state d = item_state i | Some es \<Rightarrow> dt_state d = item_state (add_events es i)"
    using applied_item [of D1 ?m D d A states] assms by auto
  show ?thesis
  proof (cases "?m (dt_key d)")
    case None
    have "d\<lparr>dt_state := item_state i\<rparr> \<notin> set (document_items A [''abandoned''] D)"
      using None unfolding map_of_none by (auto simp: image_iff)
    then have "item_state i \<noteq> ''abandoned''" using i(1,2,4) by (auto simp: set_document_items)
    then show ?thesis using i(5) None by simp
  next
    case (Some es)
    then obtain x where "es = [document_promotion (won x)]" using map_of_fst [of dt_key "\<lambda>d. [document_promotion (won d)]"] by blast
    then show ?thesis using i(5) Some promoted_document by simp
  qed
qed

lemma ended_documents:
  assumes keys: "distinct (map li_key (lg_items (do_ledger D1)))"
    and ds: "ds = filter (\<lambda>d. mx \<le> claims_of (do_ledger D1) (dt_key d)) (document_items A [''pending'', ''retry_wait''] D1)"
    and D2: "D2 = D1\<lparr>do_ledger := apply_map (map_of (map (\<lambda>d. (dt_key d, document_end_events lease (won d) (dt_state d))) ds)) (do_ledger D1)\<rparr>"
    and d: "d \<in> set (document_items A states D2)" and waits: "dt_state d \<in> {''pending'', ''retry_wait'', ''abandoned''}"
  shows "d \<in> set (document_items A states D1) \<and> (dt_state d \<noteq> ''abandoned'' \<longrightarrow> claims_of (do_ledger D2) (dt_key d) < mx)"
proof -
  let ?m = "map_of (map (\<lambda>d. (dt_key d, document_end_events lease (won d) (dt_state d))) ds)"
  obtain i where i: "i \<in> set (lg_items (do_ledger D1))" "li_kind i = ''document''" "li_key i = dt_key d"
      "joined_item A D1 i = Some (d\<lparr>dt_state := item_state i\<rparr>)" "dt_state d \<in> set states"
      "case ?m (dt_key d) of None \<Rightarrow> dt_state d = item_state i | Some es \<Rightarrow> dt_state d = item_state (add_events es i)"
      "(case ?m (dt_key d) of None \<Rightarrow> i | Some es \<Rightarrow> add_events es i) \<in> set (lg_items (do_ledger D2))"
    using applied_item [of D2 ?m D1 d A states] d D2 by auto
  show ?thesis
  proof (cases "?m (dt_key d)")
    case None
    then have same: "dt_state d = item_state i" "i \<in> set (lg_items (do_ledger D2))" using i(6,7) by simp_all
    then have joined: "joined_item A D1 i = Some d" using i(4) by simp
    have keys2: "distinct (map li_key (lg_items (do_ledger D2)))" using keys by (simp add: D2 comp_def)
    have "claims_of (do_ledger D2) (dt_key d) = claims_of (do_ledger D1) (dt_key d)"
      using item_named_of [OF keys i(1)] item_named_of [OF keys2 same(2)] i(3) by (simp add: claims_of_def)
    moreover have "d \<notin> set ds" using None unfolding map_of_none by blast
    ultimately show ?thesis using i(1,2,5) joined same(1) waits by (auto simp: ds set_document_items)
  next
    case (Some es)
    then obtain x where "es = document_end_events lease (won x) (dt_state x)"
      using map_of_fst [of dt_key "\<lambda>d. document_end_events lease (won d) (dt_state d)"] by blast
    then show ?thesis using i(6) Some ended_document [of lease "won x" "dt_state x"] waits by auto
  qed
qed

text \<open>C10: Once every attempt has its outcome, the reconciliation that opens a document slice cannot fail, and afterwards no document
  is abandoned and none that waits has used up its claims: each of those is persisted by the evidence of an F5 run or has
  failed.\<close>

theorem documents_settle:
  assumes "distinct (map li_key (lg_items (do_ledger D)))" and "\<forall>i \<in> set (lg_items (do_ledger D)). open_attempts_of (do_ledger D) (li_key i) = []"
  shows "\<exists>D' ended. reconcile_documents sha A lease mx D = Inr (D', ended) \<and> list_all (\<lambda>(k, s). s \<noteq> None) ended \<and>
    document_items A [''abandoned''] D' = [] \<and>
    list_all (\<lambda>d. claims_of (do_ledger D') (dt_key d) < mx) (document_items A [''pending'', ''retry_wait''] D')"
proof -
  let ?won = "item_evidence sha A D" and ?ds = "document_items A [''abandoned''] D"
  let ?f = "\<lambda>d. [document_promotion (?won d)]" and ?g = "\<lambda>d. document_end_events lease (?won d) (dt_state d)"
  define l1 where "l1 = apply_map (map_of (map (\<lambda>d. (dt_key d, ?f d)) ?ds)) (do_ledger D)"
  define D1 where "D1 = D\<lparr>do_ledger := l1\<rparr>"
  define ds where "ds = filter (\<lambda>d. mx \<le> claims_of l1 (dt_key d)) (document_items A [''pending'', ''retry_wait''] D1)"
  define l2 where "l2 = apply_map (map_of (map (\<lambda>d. (dt_key d, ?g d)) ds)) l1"
  define D2 where "D2 = D1\<lparr>do_ledger := l2\<rparr>"
  have keys1: "distinct (map li_key (lg_items l1))" using assms(1) by (simp add: l1_def comp_def)
  have "appendable (map (\<lambda>d. (dt_key d, ?f d)) ?ds) (do_ledger D)"
    by (rule items_appendable [OF assms(1), where Q = "\<lambda>_. True" and A = A and states = "[''abandoned'']"]) (use document_chains(1) in auto)
  then have promoted: "promote_documents ?won ?ds (do_ledger D) = Inr l1" by (simp add: promote_documents_each append_each_total l1_def)
  have "appendable (map (\<lambda>d. (dt_key d, ?g d)) ds) (do_ledger D1)"
    by (rule items_appendable [where Q = "\<lambda>d. mx \<le> claims_of l1 (dt_key d)" and A = A and states = "[''pending'', ''retry_wait'']"])
      (use document_chains(2) keys1 in \<open>auto simp: ds_def D1_def\<close>)
  moreover have "list_all (at_end mx l1) ds" unfolding list_all_iff
  proof
    fix d assume d: "d \<in> set ds"
    then obtain i where i: "i \<in> set (lg_items l1)" "item_state i \<in> {''pending'', ''retry_wait''}" "joined_item A D1 i = Some d"
      by (auto simp: ds_def set_document_items D1_def)
    note sel = joined_item_sel [OF i(3)] and named = item_named_of [OF keys1 i(1)]
    have "mx \<le> int (claims_since_requeue i)" using d sel named by (simp add: ds_def claims_of_def)
    moreover have "open_attempts_of l1 (dt_key d) = []"
      using i(1) assms(2) sel by (auto simp: l1_def open_attempts_of_def attempts_of_def)
    ultimately show "at_end mx l1 d" using i(2) sel named by (auto simp: at_end_def)
  qed
  ultimately obtain ended where ended: "terminalise_documents lease mx ?won ds l1 = Inr (l2, ended)" "list_all (\<lambda>(k, s). s \<noteq> None) ended"
    using terminalise_documents_total [of lease ?won ds l1 mx] by (auto simp: l2_def D1_def)
  have run: "reconcile_documents sha A lease mx D = Inr (D2, ended)"
    using promoted ended(1) by (simp add: reconcile_documents_def Let_def D1_def [symmetric] ds_def [symmetric] D2_def) (simp add: D1_def)
  have D1': "D1 = D\<lparr>do_ledger := apply_map (map_of (map (\<lambda>d. (dt_key d, ?f d)) ?ds)) (do_ledger D)\<rparr>" by (simp add: D1_def l1_def)
  have l1: "do_ledger D1 = l1" by (simp add: D1_def)
  have ended_of: "d \<in> set (document_items A states D1) \<and> (dt_state d \<noteq> ''abandoned'' \<longrightarrow> claims_of (do_ledger D2) (dt_key d) < mx)"
    if "d \<in> set (document_items A states D2)" "dt_state d \<in> {''pending'', ''retry_wait'', ''abandoned''}" for d states
    by (rule ended_documents [OF _ _ _ that]) (use keys1 in \<open>simp_all add: l1 ds_def D2_def l2_def\<close>)
  have of_state: "dt_state d \<in> set states" if "d \<in> set (document_items A states D2)" for d states
    using that joined_item_sel by (auto simp: set_document_items)
  have "document_items A [''abandoned''] D2 = []"
  proof (rule ccontr)
    assume "document_items A [''abandoned''] D2 \<noteq> []"
    then obtain d where d: "d \<in> set (document_items A [''abandoned''] D2)" by (meson last_in_set)
    then have s: "dt_state d = ''abandoned''" using of_state [OF d] by simp
    then have "d \<in> set (document_items A [''abandoned''] D1)" using ended_of [OF d] by simp
    then show False using promoted_documents [OF D1'] s by blast
  qed
  moreover have "list_all (\<lambda>d. claims_of (do_ledger D2) (dt_key d) < mx) (document_items A [''pending'', ''retry_wait''] D2)"
    unfolding list_all_iff using of_state ended_of by fastforce
  ultimately show ?thesis using run ended(2) by blast
qed

section \<open>One filing of January 2024\<close>

definition january :: "date \<times> date" where
  "january = (Date 2024 1 1, Date 2024 1 31)"

text \<open>Noon of 2024-01-10 in Colombo.\<close>

definition sample_filing :: document_filing where
  "sample_filing = \<lparr>df_id = 7, df_path = Some ''cmt/a.pdf'', df_uploaded = Some (1704868200 * 1000000)\<rparr>"

definition sample_f5_archive :: document_archive where
  "sample_f5_archive = \<lparr>da_filings = [sample_filing], da_paths = (\<lambda>_. [''cmt/a.pdf'']), da_runs = []\<rparr>"





definition waiting_item :: "ledger_event list \<Rightarrow> ledger_item" where
  "waiting_item es = \<lparr>li_kind = ''document'', li_key = ''document:7:cmt/a.pdf'',
     li_first = \<lparr>le_state = ''discovered'', le_action = ''create'', le_reason = None, le_lease = None\<rparr>,
     li_later = \<lparr>le_state = ''pending'', le_action = ''promote'', le_reason = None, le_lease = None\<rparr> # es\<rparr>"

definition sample_documents :: "ledger_event list \<Rightarrow> documents" where
  "sample_documents es = \<lparr>do_ledger = \<lparr>lg_items = [waiting_item es], lg_attempts = [], lg_outcomes = [], lg_blocks = [], lg_leases = []\<rparr>,
     do_subjects = [(bare_subject ''document'' ''7:cmt/a.pdf'')\<lparr>ws_filing := Some 7, ws_path_sha := Some ''cmt/a.pdf''\<rparr>], do_records = []\<rparr>"

definition sample_report :: document_item where
  "sample_report = \<lparr>dt_key = ''document:7:cmt/a.pdf'', dt_filing = 7, dt_path_sha = Some ''cmt/a.pdf'', dt_state = ''pending'',
     dt_path = Some ''cmt/a.pdf'', dt_uploaded = df_uploaded sample_filing\<rparr>"

definition sample_document_slice :: document_slice where
  "sample_document_slice = \<lparr>sd_docs = sample_documents [], sd_window = january, sd_item_max = 3, sd_passes = 2, sd_cap = 5, sd_lease = 1,
     sd_documents = 0, sd_attempted = [], sd_skipped = [], sd_stop = None, sd_closed = False, sd_outcomes = []\<rparr>"

text \<open>The first pass times out, the second succeeds.\<close>

definition timed_out :: f2_record where
  "timed_out = \<lparr>fr_outcome = ''download_failed'', fr_consumer = ''not_run'', fr_cleanup = ''deleted'', fr_category = ''timeout'', fr_status = None, fr_sha = None\<rparr>"

definition succeeded_record :: f2_record where
  "succeeded_record = \<lparr>fr_outcome = ''succeeded'', fr_consumer = ''succeeded'', fr_cleanup = ''deleted'', fr_category = [], fr_status = Some 200, fr_sha = Some ''d''\<rparr>"

definition sample_pass :: "nat \<Rightarrow> pass_world" where
  "sample_pass n = \<lparr>pw_space = False, pw_fetcher = None, pw_record = (if n = 1 then timed_out else succeeded_record), pw_leftovers = 0,
     pw_stop = None, pw_refused = False, pw_result = True, pw_recorded = True, pw_persist = PersistCommitted\<rparr>"

definition sample_meeting :: document_world where
  "sample_meeting = \<lparr>dv_database = True, dv_filing = sample_filing, dv_space = False, dv_gates = [], dv_passes = sample_pass\<rparr>"

lemma sample_processed:
  "case process_one id sample_meeting sample_report sample_document_slice of (g, e) \<Rightarrow>
     sd_outcomes g = [(''document:7:cmt/a.pdf'', ''persisted'')] \<and> e = Ended \<and> length (do_records (sd_docs g)) = 2"
  by code_simp

theorem document_concludes_witness:
  "\<exists>g es rs. process_one id sample_meeting sample_report sample_document_slice = (g, Ended) \<and> le_state (last es) = ''persisted'' \<and>
     written ''document:7:cmt/a.pdf'' (claim_of 1 # es) sample_document_slice g \<and> length rs \<le> 2 \<and> last rs = succeeded_record"
proof -
  obtain g where g: "process_one id sample_meeting sample_report sample_document_slice = (g, Ended)"
      "sd_outcomes g = [(''document:7:cmt/a.pdf'', ''persisted'')]" "length (do_records (sd_docs g)) = 2"
    using sample_processed by (auto split: prod.splits)
  have at: "item_in_state (dt_key sample_report) ''pending'' sample_document_slice"
    by (simp add: item_in_state_def sample_document_slice_def sample_documents_def sample_report_def waiting_item_def item_state_def
        li_current_def li_events_def)
  have "sd_docs g \<noteq> sd_docs sample_document_slice" using g(3) by (auto simp: sample_document_slice_def sample_documents_def)
  with document_concludes [OF at _ _ g(1)] obtain es rs m where "written ''document:7:cmt/a.pdf'' (claim_of 1 # es) sample_document_slice g"
      "int (length rs) \<le> 2" "sd_outcomes g = [(''document:7:cmt/a.pdf'', le_state (last es))]"
      "le_state (last es) = ''persisted'' \<longrightarrow> verified_pass (sample_pass m) \<and> last rs = pw_record (sample_pass m)"
    by (auto simp: sample_document_slice_def sample_report_def sample_meeting_def)
  moreover have "pw_record (sample_pass m) = succeeded_record" if "verified_pass (sample_pass m)" for m
    using that by (auto simp: verified_pass_def sample_pass_def timed_out_def split: if_splits)
  ultimately show ?thesis using g(1,2) by (intro exI [of _ g] exI [of _ es] exI [of _ rs]) auto
qed

definition abandoned_documents :: documents where
  "abandoned_documents = sample_documents [claim_of 1, \<lparr>le_state = ''abandoned'', le_action = ''expire'', le_reason = None, le_lease = Some 1\<rparr>]"

theorem documents_settle_witness:
  "\<exists>D' ended. reconcile_documents id sample_f5_archive 2 1 abandoned_documents = Inr (D', ended) \<and>
     document_items sample_f5_archive [''abandoned''] abandoned_documents \<noteq> [] \<and> document_items sample_f5_archive [''abandoned''] D' = []"
proof -
  have "distinct (map li_key (lg_items (do_ledger abandoned_documents)))"
    "\<forall>i \<in> set (lg_items (do_ledger abandoned_documents)). open_attempts_of (do_ledger abandoned_documents) (li_key i) = []"
    by (simp_all add: abandoned_documents_def sample_documents_def open_attempts_of_def attempts_of_def)
  from documents_settle [OF this, of id sample_f5_archive 2 1] obtain D' ended where
    "reconcile_documents id sample_f5_archive 2 1 abandoned_documents = Inr (D', ended)" "document_items sample_f5_archive [''abandoned''] D' = []"
    by blast
  moreover have "document_items sample_f5_archive [''abandoned''] abandoned_documents \<noteq> []" by code_simp
  ultimately show ?thesis by blast
qed

end
