(* ===== verification/MarketArchive.thy ===== *)
theory MarketArchive
  imports Exchange "HOL-Library.AList"
begin

text \<open>
  How P2 captures one CSE response for good (\<open>market_capture/archive.py\<close>, \<open>ops/spool.py\<close>, the request loop of
  \<open>market_capture/http.py\<close>): an intent line in the journal of the run, the request, the body and the record in a
  content-addressed spool, the spooled line, then the row in PostgreSQL; and the recovery of spooled attempts whose row is
  missing. Every write may fail, leaving what it left; a dead process is one whose later writes all fail. Digest, printers
  and parsers are arguments. Directories, permissions and fsync are not modelled.
\<close>

section \<open>The spool\<close>

type_synonym spool = "string \<rightharpoonup> string"

definition spool_key :: "string \<Rightarrow> string \<Rightarrow> string \<Rightarrow> string" where
  "spool_key kind sha suffix = kind @ ''/sha256/'' @ take 2 sha @ ''/'' @ take 2 (drop 2 sha) @ ''/'' @ sha @ suffix"

text \<open>\<open>key.rsplit("/", 1)[1].split(".")[0]\<close>\<close>

definition key_stem :: "string \<Rightarrow> string" where
  "key_stem key = takeWhile (\<lambda>c. c \<noteq> CHR ''.'') (rev (takeWhile (\<lambda>c. c \<noteq> CHR ''/'') (rev key)))"

definition spool_error :: exc where
  "spool_error = Refused ''spool''"

definition write_once :: "(string \<Rightarrow> string) \<Rightarrow> string \<Rightarrow> string \<Rightarrow> spool \<Rightarrow> spool res" where
  "write_once sha key data s =
     (case s key of None \<Rightarrow> Inr (s(key \<mapsto> data)) | Some d \<Rightarrow> guardR (sha d \<noteq> key_stem key) spool_error (Inr s))"

definition read_spool :: "spool \<Rightarrow> string \<Rightarrow> string res" where
  "read_spool s key = (case s key of None \<Rightarrow> Inl (Refused ''missing'') | Some d \<Rightarrow> Inr d)"

text \<open>What the operating system does with one file: it is written; or the write raises, with the file there or not.\<close>

datatype file_write = Stored | Unstored bool

definition store_file :: "(string \<Rightarrow> string) \<Rightarrow> file_write \<Rightarrow> string \<Rightarrow> string \<Rightarrow> spool \<Rightarrow> spool \<times> bool" where
  "store_file sha w key data s =
     (case write_once sha key data s of Inl e \<Rightarrow> (s, False)
      | Inr s1 \<Rightarrow> (case w of Stored \<Rightarrow> (s1, True) | Unstored there \<Rightarrow> (if there then s1 else s, False)))"

section \<open>Attempts\<close>

record capture_run =
  cr_id :: string
  cr_date :: string
  cr_mode :: string
  cr_agent :: string

record request_spec =
  sp_key :: string
  sp_purpose :: string
  sp_endpoint :: string
  sp_method :: string
  sp_params :: "(string \<times> string) list"
  sp_symbol :: "string option"

text \<open>The parts of an exchange the archive copies as they are, and the parts it reads.\<close>

record sent_request =
  hd_url :: string
  hd_headers :: "(string \<times> string) list"
  hd_requested_at :: instant
  hd_observed_at :: "instant option"
  hd_elapsed :: "int option"
  hd_response_headers :: "(string \<times> string) list option"
  hd_removed :: "string list"

record market_exchange =
  mx_head :: sent_request
  mx_answer :: exchange
  mx_error :: "string option"

record attempt_record =
  ac_run :: capture_run
  ac_spec :: request_spec
  ac_seq :: nat
  ac_attempt :: nat
  ac_head :: sent_request
  ac_outcome :: string
  ac_status :: "int option"
  ac_body_sha :: "string option"
  ac_body_bytes :: "nat option"
  ac_body_key :: "string option"
  ac_parse :: "string option"
  ac_error :: "string option"

definition build_record ::
  "capture_run \<Rightarrow> request_spec \<Rightarrow> nat \<Rightarrow> nat \<Rightarrow> market_exchange \<Rightarrow> string \<Rightarrow> string option \<Rightarrow> string option \<Rightarrow> string option \<Rightarrow>
     string option \<Rightarrow> attempt_record" where
  "build_record run spec seq attempt ex outcome parse sha key error =
     \<lparr>ac_run = run, ac_spec = spec, ac_seq = seq, ac_attempt = attempt, ac_head = mx_head ex, ac_outcome = outcome,
      ac_status = ex_status (mx_answer ex), ac_body_sha = sha,
      ac_body_bytes = (if sha = None then None else map_option length (ex_body (mx_answer ex))), ac_body_key = key,
      ac_parse = (if sha \<noteq> None \<or> outcome = ''spool_failed'' then parse else None),
      ac_error = (if error \<noteq> None then error else mx_error ex)\<rparr>"

section \<open>The journal\<close>

datatype journal_entry = IntentLine string nat nat | SpooledLine string nat

text \<open>The digest, \<open>json.dumps\<close> and \<open>json.loads\<close> of records, of journal lines, and of bodies.\<close>

record archive_codec =
  cd_sha :: "string \<Rightarrow> string"
  cd_record :: "attempt_record \<Rightarrow> string"
  cd_parse_record :: "string \<Rightarrow> attempt_record option"
  cd_line :: "journal_entry \<Rightarrow> string"
  cd_parse_line :: "string \<Rightarrow> journal_entry option"
  cd_loads :: "string \<Rightarrow> json option"

definition newline :: char where
  "newline = CHR 0x0A"

text \<open>\<open>os.write\<close> wrote the line; it or \<open>os.fsync\<close> raised after some bytes; or it returned with fewer bytes than given,
  which \<open>append\<close> does not look at.\<close>

datatype line_write = Whole | Broken nat | Short nat

definition append_line :: "archive_codec \<Rightarrow> line_write \<Rightarrow> journal_entry \<Rightarrow> string \<Rightarrow> string \<times> bool" where
  "append_line C w e journal =
     (let line = cd_line C e @ [newline] in
      case w of Whole \<Rightarrow> (journal @ line, True) | Broken n \<Rightarrow> (journal @ take n line, False) | Short n \<Rightarrow> (journal @ take n line, True))"

definition parse_entry :: "archive_codec \<Rightarrow> string \<Rightarrow> journal_entry option" where
  "parse_entry C line = (if strip line = [] then None else cd_parse_line C (strip line))"

definition journal_entries :: "archive_codec \<Rightarrow> string \<Rightarrow> journal_entry list" where
  "journal_entries C journal = List.map_filter (parse_entry C) (split_on newline [] journal)"

definition spooled_of :: "journal_entry \<Rightarrow> (nat \<times> string) option" where
  "spooled_of e = (case e of SpooledLine key n \<Rightarrow> Some (n, key) | _ \<Rightarrow> None)"

definition intent_of :: "journal_entry \<Rightarrow> (nat \<times> string \<times> nat) option" where
  "intent_of e = (case e of IntentLine key attempt n \<Rightarrow> Some (n, key, attempt) | _ \<Rightarrow> None)"

section \<open>The archive\<close>

record response_row =
  rw_record :: attempt_record
  rw_key :: "string option"
  rw_recovered :: bool
  rw_already :: "bool option"

record market_archive =
  ma_files :: spool
  ma_journals :: "(string \<times> string) list"
  ma_runs :: "string list"
  ma_bodies :: "string \<rightharpoonup> string"
  ma_rows :: "response_row list"

definition row_number :: "response_row \<Rightarrow> string \<times> nat" where
  "row_number r = (cr_id (ac_run (rw_record r)), ac_seq (rw_record r))"

definition journal_of :: "market_archive \<Rightarrow> string \<Rightarrow> string" where
  "journal_of ma run = (case map_of (ma_journals ma) run of None \<Rightarrow> [] | Some t \<Rightarrow> t)"

definition with_journal :: "string \<Rightarrow> string \<Rightarrow> market_archive \<Rightarrow> market_archive" where
  "with_journal run t ma = ma\<lparr>ma_journals := AList.update run t (ma_journals ma)\<rparr>"

definition spooled_lines :: "archive_codec \<Rightarrow> market_archive \<Rightarrow> string \<Rightarrow> (nat \<times> string) list" where
  "spooled_lines C ma run = List.map_filter spooled_of (journal_entries C (journal_of ma run))"

definition insert_attempt :: "attempt_record \<Rightarrow> string option \<Rightarrow> string option \<Rightarrow> bool \<Rightarrow> market_archive \<Rightarrow> market_archive" where
  "insert_attempt r key body recovered ma =
     (let already = map_option (\<lambda>h. ma_bodies ma h \<noteq> None) (ac_body_sha r);
          bodies = (case (ac_body_sha r, body) of
              (Some h, Some b) \<Rightarrow> if ma_bodies ma h = None then (ma_bodies ma)(h \<mapsto> b) else ma_bodies ma
            | _ \<Rightarrow> ma_bodies ma);
          row = \<lparr>rw_record = r, rw_key = key, rw_recovered = recovered, rw_already = already\<rparr>
      in ma\<lparr>ma_bodies := bodies, ma_rows := ma_rows ma @ (if row_number row \<in> set (map row_number (ma_rows ma)) then [] else [row])\<rparr>)"

section \<open>Recovery\<close>

definition load_spooled :: "archive_codec \<Rightarrow> spool \<Rightarrow> string \<Rightarrow> (attempt_record \<times> string option) res" where
  "load_spooled C files key =
     bindR (read_spool files key) (\<lambda>raw.
     guardR (cd_sha C raw \<noteq> key_stem key) spool_error
     (case cd_parse_record C raw of None \<Rightarrow> Inl ValueErr
      | Some r \<Rightarrow> (case ac_body_key r of None \<Rightarrow> Inr (r, None)
          | Some k \<Rightarrow> bindR (read_spool files k) (\<lambda>b.
              guardR (Some (cd_sha C b) \<noteq> ac_body_sha r) spool_error (Inr (r, Some b))))))"

record recovery =
  ry_recovered :: nat
  ry_present :: nat
  ry_orphans :: "string list"
  ry_problems :: "(string \<times> nat) list"

text \<open>The database takes \<open>left\<close> more rows, then fails; None says it did.\<close>

fun recover_entries ::
  "archive_codec \<Rightarrow> string \<Rightarrow> nat \<Rightarrow> nat list \<Rightarrow> (nat \<times> string) list \<Rightarrow> market_archive \<Rightarrow> recovery \<Rightarrow> market_archive \<times> recovery \<times> nat option" where
  "recover_entries C run left present [] ma out = (ma, out, Some left)"
| "recover_entries C run left present ((n, key) # es) ma out =
     (if n \<in> set present then recover_entries C run left present es ma (out\<lparr>ry_present := ry_present out + 1\<rparr>)
      else (case load_spooled C (ma_files ma) key of
        Inl e \<Rightarrow> recover_entries C run left present es ma (out\<lparr>ry_problems := ry_problems out @ [(run, n)]\<rparr>)
      | Inr (r, body) \<Rightarrow> (case left of 0 \<Rightarrow> (ma, out, None)
          | Suc l \<Rightarrow> recover_entries C run l (n # present) es (insert_attempt r (Some key) body True ma)
              (out\<lparr>ry_recovered := ry_recovered out + 1\<rparr>))))"

fun recover_runs :: "archive_codec \<Rightarrow> nat \<Rightarrow> string list \<Rightarrow> market_archive \<Rightarrow> recovery \<Rightarrow> market_archive \<times> recovery \<times> nat option" where
  "recover_runs C left [] ma out = (ma, out, Some left)"
| "recover_runs C left (run # rs) ma out =
     (let es = spooled_lines C ma run in
      if es = [] then recover_runs C left rs ma out
      else if run \<notin> set (ma_runs ma) then recover_runs C left rs ma (out\<lparr>ry_orphans := ry_orphans out @ [run]\<rparr>)
      else (case recover_entries C run left (map snd (filter (\<lambda>x. fst x = run) (map row_number (ma_rows ma)))) es ma out of
          (ma1, out1, None) \<Rightarrow> (ma1, out1, None)
        | (ma1, out1, Some l) \<Rightarrow> recover_runs C l rs ma1 out1))"

definition recover :: "archive_codec \<Rightarrow> nat \<Rightarrow> market_archive \<Rightarrow> market_archive \<times> recovery \<times> nat option" where
  "recover C left ma = recover_runs C left (sort (map fst (ma_journals ma))) ma
     \<lparr>ry_recovered = 0, ry_present = 0, ry_orphans = [], ry_problems = []\<rparr>"

section \<open>One attempt\<close>

text \<open>The archiver of a process: its numbers are read from the rows and the journal once, on first use.\<close>

record archiver =
  av_run :: capture_run
  av_numbers :: "(nat \<times> (string \<Rightarrow> nat)) option"

definition load_numbers :: "archive_codec \<Rightarrow> market_archive \<Rightarrow> string \<Rightarrow> nat \<times> (string \<Rightarrow> nat)" where
  "load_numbers C ma run =
     (let rows = filter (\<lambda>r. fst (row_number r) = run) (ma_rows ma);
          intents = List.map_filter intent_of (journal_entries C (journal_of ma run))
      in (fold max (map (\<lambda>r. snd (row_number r)) rows @ map fst intents) 0,
          \<lambda>k. fold max (map (\<lambda>r. ac_attempt (rw_record r)) (filter (\<lambda>r. sp_key (ac_spec (rw_record r)) = k) rows) @
            map (\<lambda>x. snd (snd x)) (filter (\<lambda>x. fst (snd x) = k) intents)) 0))"

definition numbers :: "archive_codec \<Rightarrow> archiver \<Rightarrow> market_archive \<Rightarrow> nat \<times> (string \<Rightarrow> nat)" where
  "numbers C av ma = (case av_numbers av of Some x \<Rightarrow> x | None \<Rightarrow> load_numbers C ma (cr_id (av_run av)))"

definition next_attempt_no :: "archive_codec \<Rightarrow> string \<Rightarrow> archiver \<Rightarrow> market_archive \<Rightarrow> nat" where
  "next_attempt_no C key av ma = snd (numbers C av ma) key + 1"

text \<open>\<open>intent\<close>: the archiver, the archive, and the number of the attempt when the line is durable.\<close>

definition intent :: "archive_codec \<Rightarrow> line_write \<Rightarrow> string \<Rightarrow> nat \<Rightarrow> archiver \<Rightarrow> market_archive \<Rightarrow> archiver \<times> market_archive \<times> nat option" where
  "intent C w key attempt av ma =
     (let (s, att) = numbers C av ma; run = cr_id (av_run av);
          (t, ok) = append_line C w (IntentLine key attempt (s + 1)) (journal_of ma run)
      in (av\<lparr>av_numbers := Some (if ok then (s + 1, att(key := max (att key) attempt)) else (s, att))\<rparr>, with_journal run t ma,
          if ok then Some (s + 1) else None))"

text \<open>What the world does to one attempt: the intent line; the process may die before an answer is archived; the exchange;
  the files of the body and of the record; the spooled line; the row, or the row that records a failed spool.\<close>

record archive_world =
  wo_intent :: line_write
  wo_dies :: bool
  wo_exchange :: market_exchange
  wo_body :: file_write
  wo_record :: file_write
  wo_spooled :: line_write
  wo_row :: bool
  wo_failed_row :: bool

datatype archive_outcome = Committed | Unspooled | Uncommitted string

definition spool_failure ::
  "archive_world \<Rightarrow> capture_run \<Rightarrow> request_spec \<Rightarrow> nat \<Rightarrow> nat \<Rightarrow> string option \<Rightarrow> market_archive \<Rightarrow> market_archive \<times> archive_outcome" where
  "spool_failure w run spec seq attempt parse ma =
     (let r = build_record run spec seq attempt (wo_exchange w) ''spool_failed'' parse None None (Some ''spool write failed'')
      in (if wo_failed_row w then insert_attempt r None None False ma else ma, Unspooled))"

definition archive_attempt ::
  "archive_codec \<Rightarrow> archive_world \<Rightarrow> capture_run \<Rightarrow> request_spec \<Rightarrow> nat \<Rightarrow> nat \<Rightarrow> string \<Rightarrow> string option \<Rightarrow> market_archive \<Rightarrow>
     market_archive \<times> archive_outcome" where
  "archive_attempt C w run spec seq attempt outcome parse ma =
     (let sha = cd_sha C; ex = wo_exchange w; failed = spool_failure w run spec seq attempt parse;
          body = (if outcome = ''too_large'' then None else ex_body (mx_answer ex));
          body_key = map_option (\<lambda>b. spool_key ''blobs'' (sha b) []) body;
          (files1, ok1) = (case body of None \<Rightarrow> (ma_files ma, True)
            | Some b \<Rightarrow> store_file sha (wo_body w) (spool_key ''blobs'' (sha b) []) b (ma_files ma));
          back = (case (body, body_key) of (Some b, Some k) \<Rightarrow> map_option sha (files1 k) = Some (sha b) | _ \<Rightarrow> True);
          r = build_record run spec seq attempt ex outcome parse (map_option sha body) body_key None;
          key = spool_key ''records'' (sha (cd_record C r)) ''.json''
      in if \<not> ok1 \<or> \<not> back then failed (ma\<lparr>ma_files := files1\<rparr>)
         else (let (files2, ok2) = store_file sha (wo_record w) key (cd_record C r) files1; ma2 = ma\<lparr>ma_files := files2\<rparr>
           in if \<not> ok2 then failed ma2
              else (let (t, ok3) = append_line C (wo_spooled w) (SpooledLine key seq) (journal_of ma2 (cr_id run));
                        ma3 = with_journal (cr_id run) t ma2
                in if \<not> ok3 then failed ma3
                   else if wo_row w then (insert_attempt r (Some key) body False ma3, Committed)
                   else (ma3, Uncommitted key))))"

section \<open>The request loop\<close>

fun truthy :: "json \<Rightarrow> bool" where
  "truthy JNull = False"
| "truthy (JBool b) = b"
| "truthy (JInt i) = (i \<noteq> 0)"
| "truthy (JFloat s) = list_ex (\<lambda>c. c \<in> set ''123456789'') (takeWhile (\<lambda>c. c \<noteq> CHR ''e'' \<and> c \<noteq> CHR ''E'') s)"
| "truthy (JStr s) = (s \<noteq> [])"
| "truthy (JArr xs) = (xs \<noteq> [])"
| "truthy (JObj fs) = (fs \<noteq> [])"

definition list_in :: "json \<Rightarrow> json list option" where
  "list_in v = (case v of JArr xs \<Rightarrow> Some xs
     | JObj fs \<Rightarrow> map_option (\<lambda>x. case x of JArr xs \<Rightarrow> xs | _ \<Rightarrow> []) (find (\<lambda>x. case x of JArr _ \<Rightarrow> True | _ \<Rightarrow> False) (map snd fs))
     | _ \<Rightarrow> None)"

text \<open>An entry of \<open>allSecurityCode\<close> that \<open>extract_symbol_list_from_all_security_codes\<close> reads a symbol from.\<close>

definition names_symbol :: "json \<Rightarrow> bool" where
  "names_symbol e = (case e of JStr s \<Rightarrow> True
     | JObj fs \<Rightarrow> list_ex (\<lambda>k. case map_of fs k of None \<Rightarrow> False | Some v \<Rightarrow> truthy v) [''symbol'', ''Symbol'', ''securityCode'']
     | _ \<Rightarrow> False)"

definition shape_ok :: "string \<Rightarrow> json option \<Rightarrow> bool" where
  "shape_ok endpoint parsed =
     (if endpoint = ''allSecurityCode'' then list_ex names_symbol (case Option.bind parsed list_in of None \<Rightarrow> [] | Some xs \<Rightarrow> xs)
      else if endpoint = ''tradeSummary'' then Option.bind parsed list_in \<noteq> None
      else if endpoint = ''companyInfoSummery'' then (case parsed of Some (JObj fs) \<Rightarrow> True | _ \<Rightarrow> False)
      else False)"

definition classify_market ::
  "(string \<Rightarrow> json option) \<Rightarrow> string \<Rightarrow> exchange \<Rightarrow> string \<times> string option \<times> json option" where
  "classify_market loads endpoint ex =
     (let (parse_status, parsed) = parse_body loads (ex_body ex); s = ex_status ex in
      if ex_error_kind ex = Some ''timeout'' then (''timeout'', None, None)
      else if ex_error_kind ex = Some ''too_large'' then (''too_large'', None, None)
      else if ex_error_kind ex = Some ''network'' then (''network_error'', None, None)
      else if s \<in> Some ` set api_block_statuses then (''blocked'', parse_status, parsed)
      else if s = Some rate_limited_status then (''rate_limited'', parse_status, parsed)
      else if within 500 599 s then (''server_error'', parse_status, parsed)
      else if within 300 399 s then (''unexpected_redirect'', parse_status, parsed)
      else if \<not> within 200 299 s then (''http_error'', parse_status, parsed)
      else if parse_status = Some ''empty'' then (''empty_response'', parse_status, None)
      else if parse_status = Some ''not_json'' then (''invalid_json'', parse_status, None)
      else if \<not> shape_ok endpoint parsed then (''malformed_response'', parse_status, parsed)
      else (''ok'', parse_status, parsed))"

text \<open>Why a run stops: its budget, the spool, the database, CSE's refusal or rate limit, too many failures in a row, an
  unreadable Retry-After, or the death of the process.\<close>

datatype run_stop = BudgetSpent | SpoolDown | DatabaseDown string | RefusedByCse | LimitedByCse | FailingInARow | Crashing exc | Died

record requester =
  rq_archiver :: archiver
  rq_made :: nat
  rq_failures :: nat

definition make_attempt ::
  "archive_codec \<Rightarrow> nat option \<Rightarrow> request_spec \<Rightarrow> archive_world \<Rightarrow> requester \<Rightarrow> market_archive \<Rightarrow>
     requester \<times> market_archive \<times> (string + run_stop)" where
  "make_attempt C budget spec w q ma =
     (if (case budget of None \<Rightarrow> False | Some b \<Rightarrow> b \<le> rq_made q) then (q, ma, Inr BudgetSpent)
      else (let attempt = next_attempt_no C (sp_key spec) (rq_archiver q) ma in
        (case intent C (wo_intent w) (sp_key spec) attempt (rq_archiver q) ma of
           (av, ma1, None) \<Rightarrow> (q\<lparr>rq_archiver := av\<rparr>, ma1, Inr SpoolDown)
         | (av, ma1, Some n) \<Rightarrow>
             let q1 = q\<lparr>rq_archiver := av, rq_made := rq_made q + 1\<rparr> in
             if wo_dies w then (q1, ma1, Inr Died)
             else (let (outcome, parse, parsed) = classify_market (cd_loads C) (sp_endpoint spec) (mx_answer (wo_exchange w)) in
               (case archive_attempt C w (av_run av) spec n attempt outcome parse ma1 of
                  (ma2, Committed) \<Rightarrow> (q1, ma2, Inl outcome)
                | (ma2, Unspooled) \<Rightarrow> (q1, ma2, Inr SpoolDown)
                | (ma2, Uncommitted key) \<Rightarrow> (q1, ma2, Inr (DatabaseDown key)))))))"

text \<open>What follows an archived attempt that is not ok: the end of the fetch, the stop of the run, or a retry (None).\<close>

definition after_failure :: "policy \<Rightarrow> string \<Rightarrow> int option res \<Rightarrow> nat \<Rightarrow> bool \<Rightarrow> (bool + run_stop) option" where
  "after_failure p outcome retry_after failures final_attempt =
     (if outcome = ''blocked'' then Some (Inr RefusedByCse)
      else (case (if outcome = ''rate_limited'' then retry_after else Inr None) of Inl e \<Rightarrow> Some (Inr (Crashing e))
        | Inr wanted \<Rightarrow>
            if outcome = ''rate_limited'' \<and> (case wanted of None \<Rightarrow> False | Some n \<Rightarrow> po_retry_after_max p < n) then Some (Inr LimitedByCse)
            else if outcome = ''rate_limited'' \<and> final_attempt then Some (Inr LimitedByCse)
            else if po_max_failures p \<le> failures then Some (Inr (if outcome = ''rate_limited'' then LimitedByCse else FailingInARow))
            else if outcome \<notin> set retryable_outcomes \<or> final_attempt then Some (Inl False)
            else None))"

text \<open>\<open>fetch\<close> with \<open>left\<close> attempts to go; the worlds answer them in turn, and \<open>now\<close> is the clock when a reply is read.\<close>

fun fetch_attempts ::
  "archive_codec \<Rightarrow> (string \<Rightarrow> instant option) \<Rightarrow> policy \<Rightarrow> nat option \<Rightarrow> request_spec \<Rightarrow> nat \<Rightarrow> (archive_world \<times> instant) list \<Rightarrow>
     requester \<Rightarrow> market_archive \<Rightarrow> requester \<times> market_archive \<times> (bool + run_stop)" where
  "fetch_attempts C date p budget spec (Suc left) ((w, now) # ws) q ma =
     (case make_attempt C budget spec w q ma of
        (q1, ma1, Inr stop) \<Rightarrow> (q1, ma1, Inr stop)
      | (q1, ma1, Inl outcome) \<Rightarrow>
          if outcome = ''ok'' then (q1\<lparr>rq_failures := 0\<rparr>, ma1, Inl True)
          else (let q2 = q1\<lparr>rq_failures := rq_failures q1 + 1\<rparr> in
            (case after_failure p outcome (retry_after_seconds date (ex_retry_after (mx_answer (wo_exchange w))) now) (rq_failures q2) (left = 0) of
               Some e \<Rightarrow> (q2, ma1, e)
             | None \<Rightarrow> fetch_attempts C date p budget spec left ws q2 ma1)))"
| "fetch_attempts C date p budget spec _ _ q ma = (q, ma, Inl False)"

text \<open>One process on a run: recovery, as every command under the lock, then its requests until one stops the run. Which
  requests follow which answers is the plan of the run; here they are a list.\<close>

fun fetch_all ::
  "archive_codec \<Rightarrow> (string \<Rightarrow> instant option) \<Rightarrow> policy \<Rightarrow> nat option \<Rightarrow> (request_spec \<times> nat \<times> (archive_world \<times> instant) list) list \<Rightarrow>
     requester \<Rightarrow> market_archive \<Rightarrow> requester \<times> market_archive \<times> run_stop option" where
  "fetch_all C date p budget [] q ma = (q, ma, None)"
| "fetch_all C date p budget ((spec, allowed, ws) # fs) q ma =
     (case fetch_attempts C date p budget spec allowed ws q ma of
        (q1, ma1, Inl got) \<Rightarrow> fetch_all C date p budget fs q1 ma1
      | (q1, ma1, Inr stop) \<Rightarrow> (q1, ma1, Some stop))"

definition new_requester :: "capture_run \<Rightarrow> requester" where
  "new_requester run = \<lparr>rq_archiver = \<lparr>av_run = run, av_numbers = None\<rparr>, rq_made = 0, rq_failures = 0\<rparr>"

definition capture_process ::
  "archive_codec \<Rightarrow> (string \<Rightarrow> instant option) \<Rightarrow> policy \<Rightarrow> nat option \<Rightarrow> nat \<Rightarrow> capture_run \<Rightarrow>
     (request_spec \<times> nat \<times> (archive_world \<times> instant) list) list \<Rightarrow> market_archive \<Rightarrow> requester \<times> market_archive \<times> run_stop option" where
  "capture_process C date p budget left run fs ma =
     (case recover C left ma of
        (ma1, out, None) \<Rightarrow> (new_requester run, ma1, Some Died)
      | (ma1, out, Some l) \<Rightarrow> fetch_all C date p budget fs (new_requester run) ma1)"

end
