(* ===== verification/MarketArchiveFacts.thy ===== *)
theory MarketArchiveFacts
  imports MarketArchive "HOL-Library.Multiset"
begin

text \<open>
  What the capture of a response keeps through failing writes and dying processes: every row of the archive is the record in
  the spool, recovery brings back every spooled attempt, and every request that was archived has its own row.
\<close>

section \<open>Digests, printers and parsers\<close>

text \<open>A piece is what a torn write leaves of one line. JSON lines cannot be confused: a line cut short, and several pieces
  run together, are not JSON.\<close>

definition piece :: "archive_codec \<Rightarrow> string \<Rightarrow> bool" where
  "piece C p \<longleftrightarrow> p \<noteq> [] \<and> (\<exists>e s. cd_line C e = p @ s)"

definition plain_line :: "archive_codec \<Rightarrow> journal_entry \<Rightarrow> bool" where
  "plain_line C e \<longleftrightarrow> cd_parse_line C (cd_line C e) = Some e \<and> strip (cd_line C e) = cd_line C e \<and> cd_line C e \<noteq> [] \<and>
     newline \<notin> set (cd_line C e)"

definition codec_ok :: "archive_codec \<Rightarrow> bool" where
  "codec_ok C \<longleftrightarrow> inj (cd_sha C) \<and> (\<forall>x. CHR ''/'' \<notin> set (cd_sha C x) \<and> CHR ''.'' \<notin> set (cd_sha C x)) \<and>
     (\<forall>r. cd_parse_record C (cd_record C r) = Some r) \<and> (\<forall>e. plain_line C e) \<and>
     (\<forall>e p s. cd_line C e = p @ s \<and> s \<noteq> [] \<longrightarrow> parse_entry C p = None) \<and>
     (\<forall>p q ps. piece C p \<and> piece C q \<and> list_all (piece C) ps \<longrightarrow> parse_entry C (p @ q @ concat ps) = None)"

lemma codec_line:
  assumes "codec_ok C"
  shows "parse_entry C (cd_line C e) = Some e" "newline \<notin> set (cd_line C e)" "cd_line C e \<noteq> []"
    "piece C (cd_line C e)"
  using assms by (auto simp: codec_ok_def plain_line_def parse_entry_def piece_def)

lemma parse_Nil [simp]: "parse_entry C [] = None"
  by (simp add: parse_entry_def)

lemma piece_no_newline: "codec_ok C \<Longrightarrow> piece C p \<Longrightarrow> newline \<notin> set p"
  using codec_line(2) [of C] by (auto simp: piece_def) (metis Un_iff set_append)

lemma pieces_no_newline: "codec_ok C \<Longrightarrow> list_all (piece C) ps \<Longrightarrow> newline \<notin> set (concat ps)"
  by (induction ps) (auto dest: piece_no_newline)

lemma merged_unread:
  assumes "codec_ok C" and "list_all (piece C) ps" and "ps \<noteq> []" and "piece C q"
  shows "parse_entry C (concat ps @ q) = None"
proof -
  have apart: "parse_entry C (x @ y @ concat zs) = None" if "piece C x" "piece C y" "list_all (piece C) zs" for x y zs
    using assms(1) that unfolding codec_ok_def by blast
  obtain p qs where ps: "ps = p # qs" using assms(3) by (cases ps) auto
  show ?thesis
  proof (cases qs)
    case Nil
    then show ?thesis using apart [of p q "[]"] assms(2,4) ps by simp
  next
    case (Cons r rs)
    then show ?thesis using apart [of p r "rs @ [q]"] assms(2,4) ps by simp
  qed
qed

section \<open>The journal\<close>

text \<open>A journal is lines of pieces, and the pieces after the last newline.\<close>

definition journal_text :: "archive_codec \<Rightarrow> string list list \<Rightarrow> string list \<Rightarrow> string \<Rightarrow> bool" where
  "journal_text C lss ps t \<longleftrightarrow> list_all (list_all (piece C)) lss \<and> list_all (piece C) ps \<and>
     t = concat (map (\<lambda>qs. concat qs @ [newline]) lss) @ concat ps"

lemma split_on_line: "d \<notin> set l \<Longrightarrow> split_on d w (l @ d # t) = (rev w @ l) # split_on d [] t"
  by (induction l arbitrary: w) auto

lemma split_on_last: "d \<notin> set l \<Longrightarrow> split_on d w l = [rev w @ l]"
  by (induction l arbitrary: w) auto

lemma journal_lines:
  assumes "codec_ok C" and "journal_text C lss ps t"
  shows "journal_entries C t = List.map_filter (parse_entry C) (map concat lss @ [concat ps])"
proof -
  have "split_on newline [] (concat (map (\<lambda>qs. concat qs @ [newline]) lss) @ concat ps) = map concat lss @ [concat ps]"
    using assms(2) unfolding journal_text_def
  proof (induction lss arbitrary: t)
    case Nil
    then show ?case using split_on_last [OF pieces_no_newline [OF assms(1)], of ps] by simp
  next
    case (Cons a lss)
    then show ?case using split_on_line [OF pieces_no_newline [OF assms(1)], of a] by simp
  qed
  then show ?thesis using assms(2) by (simp add: journal_entries_def journal_text_def)
qed

lemma map_filter_append: "List.map_filter f (xs @ ys) = List.map_filter f xs @ List.map_filter f ys"
  by (induction xs) (auto simp: List.map_filter_simps split: option.splits)

lemma set_map_filter: "set (List.map_filter f xs) = {y. \<exists>x \<in> set xs. f x = Some y}"
  by (auto simp: List.map_filter_def image_iff) force

text \<open>Whatever a write leaves, the journal stays one, and shows at most the entry written beside the old ones.\<close>

lemma journal_cut:
  assumes C: "codec_ok C" and t: "journal_text C lss ps t"
  shows "\<exists>lss' ps'. journal_text C lss' ps' (t @ take n (cd_line C e @ [newline])) \<and>
    set (journal_entries C (t @ take n (cd_line C e @ [newline]))) \<subseteq> insert e (set (journal_entries C t))"
proof (cases "n \<le> length (cd_line C e)")
  case True
  then have cut: "take n (cd_line C e @ [newline]) = take n (cd_line C e)" by simp
  show ?thesis
  proof (cases "n = 0")
    case True
    then show ?thesis using t by auto
  next
    case False
    let ?p = "take n (cd_line C e)"
    have p: "piece C ?p" using False codec_line(3) [OF C] append_take_drop_id [of n "cd_line C e"] unfolding piece_def
      by (metis take_eq_Nil)
    have shape: "journal_text C lss (ps @ [?p]) (t @ ?p)" using t p by (simp add: journal_text_def)
    have "parse_entry C (concat ps @ ?p) \<in> {None, Some e}"
    proof (cases "ps = []")
      case True
      have "parse_entry C ?p \<in> {None, Some e}"
      proof (cases "drop n (cd_line C e) = []")
        case True
        then show ?thesis using codec_line(1) [OF C, of e] by simp
      next
        case False
        have "cd_line C e = ?p @ drop n (cd_line C e)" by simp
        then show ?thesis using C False unfolding codec_ok_def by blast
      qed
      then show ?thesis using True by simp
    next
      case False
      then show ?thesis using merged_unread [OF C _ False p] t by (simp add: journal_text_def)
    qed
    then have "set (journal_entries C (t @ ?p)) \<subseteq> insert e (set (journal_entries C t))"
      using journal_lines [OF C shape] journal_lines [OF C t] by (auto simp: map_filter_append set_map_filter)
    then show ?thesis using shape cut by auto
  qed
next
  case False
  then have all: "take n (cd_line C e @ [newline]) = cd_line C e @ [newline]" by simp
  have shape: "journal_text C (lss @ [ps @ [cd_line C e]]) [] (t @ cd_line C e @ [newline])"
    using t codec_line(4) [OF C] by (simp add: journal_text_def)
  have "parse_entry C (concat ps @ cd_line C e) \<in> {None, Some e}"
    using merged_unread [OF C _ _ codec_line(4) [OF C], of ps e] t codec_line(1) [OF C] by (cases "ps = []") (auto simp: journal_text_def)
  then have "set (journal_entries C (t @ cd_line C e @ [newline])) \<subseteq> insert e (set (journal_entries C t))"
    using journal_lines [OF C shape] journal_lines [OF C t] by (auto simp: map_filter_append set_map_filter)
  then show ?thesis using shape all by auto
qed

lemma append_line_cut: "\<exists>n. fst (append_line C w e t) = t @ take n (cd_line C e @ [newline])"
  by (cases w) (auto simp: append_line_def intro: exI [of _ "length (cd_line C e @ [newline])"])

lemma journal_append:
  assumes "codec_ok C" and "journal_text C lss ps t" and "append_line C w e t = (t', ok)"
  shows "\<exists>lss' ps'. journal_text C lss' ps' t'" "set (journal_entries C t') \<subseteq> insert e (set (journal_entries C t))"
proof -
  obtain n where "t' = t @ take n (cd_line C e @ [newline])" using append_line_cut [of C w e t] assms(3) by auto
  then show "\<exists>lss' ps'. journal_text C lss' ps' t'" "set (journal_entries C t') \<subseteq> insert e (set (journal_entries C t))"
    using journal_cut [OF assms(1,2), of n e] by auto
qed

text \<open>After a whole line the journal ends at a line, and a whole line then shows its entry.\<close>

lemma journal_whole:
  assumes "codec_ok C" and "journal_text C lss ps t"
  shows "\<exists>lss'. journal_text C lss' [] (fst (append_line C Whole e t))"
  using assms codec_line(4) [OF assms(1), of e]
  by (intro exI [of _ "lss @ [ps @ [cd_line C e]]"]) (simp add: append_line_def journal_text_def)

lemma journal_shown:
  assumes "codec_ok C" and "journal_text C lss [] t"
  shows "e \<in> set (journal_entries C (fst (append_line C Whole e t)))"
proof -
  have "journal_text C (lss @ [[cd_line C e]]) [] (t @ cd_line C e @ [newline])"
    using assms codec_line(4) [OF assms(1), of e] by (simp add: journal_text_def)
  from journal_lines [OF assms(1) this] show ?thesis
    using codec_line(1) [OF assms(1)] by (simp add: append_line_def map_filter_append set_map_filter)
qed

section \<open>The spool\<close>

lemma key_stem_key:
  assumes "CHR ''/'' \<notin> set h" and "CHR ''.'' \<notin> set h" and "suffix = [] \<or> suffix = ''.json''"
  shows "key_stem (spool_key kind h suffix) = h"
proof -
  have "takeWhile (\<lambda>c. c \<noteq> CHR ''/'') (rev (h @ suffix) @ CHR ''/'' # y) = rev (h @ suffix)" for y
    using assms(1,3) by (subst takeWhile_append2) auto
  then have name: "rev (takeWhile (\<lambda>c. c \<noteq> CHR ''/'') (rev (x @ CHR ''/'' # h @ suffix))) = h @ suffix" for x by simp
  have "takeWhile (\<lambda>c. c \<noteq> CHR ''.'') (h @ suffix) = h @ takeWhile (\<lambda>c. c \<noteq> CHR ''.'') suffix"
    using assms(2) by (subst takeWhile_append2) auto
  then have "takeWhile (\<lambda>c. c \<noteq> CHR ''.'') (h @ suffix) = h" using assms(3) by auto
  then show ?thesis
    using name [of "kind @ ''/sha256/'' @ take 2 h @ CHR ''/'' # take 2 (drop 2 h)"] by (simp add: key_stem_def spool_key_def)
qed

lemma codec_stem: "codec_ok C \<Longrightarrow> suffix = [] \<or> suffix = ''.json'' \<Longrightarrow> key_stem (spool_key kind (cd_sha C x) suffix) = cd_sha C x"
  by (rule key_stem_key) (simp_all add: codec_ok_def)

definition spool_ok :: "archive_codec \<Rightarrow> spool \<Rightarrow> bool" where
  "spool_ok C files \<longleftrightarrow> (\<forall>k d. files k = Some d \<longrightarrow> cd_sha C d = key_stem k)"

lemma store_file_ok:
  assumes "spool_ok C files" and "key_stem key = cd_sha C data" and "store_file (cd_sha C) w key data files = (files', ok)"
  shows "spool_ok C files'" "files \<subseteq>\<^sub>m files'"
  using assms by (auto simp: store_file_def write_once_def spool_ok_def guardR_def map_le_def dom_def
      split: option.splits sum.splits file_write.splits if_splits)

lemma store_file_read:
  assumes "inj (cd_sha C)" and "spool_ok C files" and "key_stem key = cd_sha C data"
    and "store_file (cd_sha C) w key data files = (files', True)"
  shows "files' key = Some data"
proof (cases "files key")
  case None
  then show ?thesis using assms(4) by (auto simp: store_file_def write_once_def split: file_write.splits if_splits)
next
  case (Some d)
  then have "cd_sha C d = cd_sha C data" using assms(2,3) by (simp add: spool_ok_def)
  then have "d = data" using assms(1) by (simp add: inj_eq)
  then show ?thesis using assms(3,4) Some
    by (auto simp: store_file_def write_once_def guardR_def split: file_write.splits if_splits)
qed

lemma load_spooled_eq:
  "load_spooled C files key = Inr (r, b) \<longleftrightarrow>
     (\<exists>raw. files key = Some raw \<and> cd_sha C raw = key_stem key \<and> cd_parse_record C raw = Some r \<and>
       (case ac_body_key r of None \<Rightarrow> b = None
        | Some k \<Rightarrow> (\<exists>x. files k = Some x \<and> b = Some x \<and> Some (cd_sha C x) = ac_body_sha r)))"
  by (auto simp: load_spooled_def read_spool_def bindR_def guardR_def split: option.splits sum.splits if_splits)

lemma load_spooled_mono:
  assumes "load_spooled C files key = Inr x" and "files \<subseteq>\<^sub>m files'"
  shows "load_spooled C files' key = Inr x"
proof -
  have le: "files k = Some d \<Longrightarrow> files' k = Some d" for k d using assms(2) by (metis domI map_le_def)
  obtain r b where x: "x = (r, b)" by (cases x)
  show ?thesis using assms(1) unfolding x load_spooled_eq by (cases "ac_body_key r") (auto dest: le)
qed

text \<open>A record stored with its body loads as it is.\<close>

lemma load_stored:
  assumes C: "codec_ok C" and "files key = Some (cd_record C r)" and "key_stem key = cd_sha C (cd_record C r)"
    and "case body of None \<Rightarrow> ac_body_key r = None
      | Some b \<Rightarrow> (\<exists>k. ac_body_key r = Some k \<and> files k = Some b \<and> ac_body_sha r = Some (cd_sha C b))"
  shows "load_spooled C files key = Inr (r, body)"
proof -
  have "cd_parse_record C (cd_record C r) = Some r" using C by (simp add: codec_ok_def)
  then show ?thesis using assms(2-4)
    by (cases body) (auto simp: load_spooled_eq)
qed

section \<open>Sound archives\<close>

text \<open>A spooled line names a record of its run and number that loads, with its body; a row with a key is the record of that
  key, and its body is stored.\<close>

definition spooled_as :: "archive_codec \<Rightarrow> spool \<Rightarrow> string \<Rightarrow> nat \<Rightarrow> string \<Rightarrow> bool" where
  "spooled_as C files run n key \<longleftrightarrow>
     (\<exists>r b. load_spooled C files key = Inr (r, b) \<and> cr_id (ac_run r) = run \<and> ac_seq r = n \<and> map_option (cd_sha C) b = ac_body_sha r)"

definition row_sound :: "archive_codec \<Rightarrow> market_archive \<Rightarrow> response_row \<Rightarrow> bool" where
  "row_sound C ma row \<longleftrightarrow>
     (case rw_key row of None \<Rightarrow> ac_outcome (rw_record row) = ''spool_failed'' \<and> ac_body_sha (rw_record row) = None
      | Some key \<Rightarrow> (\<exists>b. load_spooled C (ma_files ma) key = Inr (rw_record row, b) \<and> map_option (cd_sha C) b = ac_body_sha (rw_record row) \<and>
          (case ac_body_sha (rw_record row) of None \<Rightarrow> True | Some h \<Rightarrow> ma_bodies ma h = b)))"

definition sound_archive :: "archive_codec \<Rightarrow> market_archive \<Rightarrow> bool" where
  "sound_archive C ma \<longleftrightarrow> spool_ok C (ma_files ma) \<and> (\<forall>h b. ma_bodies ma h = Some b \<longrightarrow> cd_sha C b = h) \<and>
     (\<forall>run. \<exists>lss ps. journal_text C lss ps (journal_of ma run)) \<and>
     (\<forall>run. \<forall>(n, key) \<in> set (spooled_lines C ma run). spooled_as C (ma_files ma) run n key) \<and>
     (\<forall>run n k k'. (n, k) \<in> set (spooled_lines C ma run) \<and> (n, k') \<in> set (spooled_lines C ma run) \<longrightarrow> k = k') \<and>
     distinct (map row_number (ma_rows ma)) \<and> list_all (row_sound C ma) (ma_rows ma)"

lemma spooled_as_mono: "spooled_as C files run n key \<Longrightarrow> files \<subseteq>\<^sub>m files' \<Longrightarrow> spooled_as C files' run n key"
  unfolding spooled_as_def using load_spooled_mono by blast

lemma row_sound_mono:
  assumes "row_sound C ma row" and "ma_files ma \<subseteq>\<^sub>m ma_files ma'" and "ma_bodies ma \<subseteq>\<^sub>m ma_bodies ma'"
  shows "row_sound C ma' row"
proof (cases "rw_key row")
  case None
  then show ?thesis using assms(1) by (simp add: row_sound_def)
next
  case (Some key)
  then obtain b where b: "load_spooled C (ma_files ma) key = Inr (rw_record row, b)" "map_option (cd_sha C) b = ac_body_sha (rw_record row)"
      "case ac_body_sha (rw_record row) of None \<Rightarrow> True | Some h \<Rightarrow> ma_bodies ma h = b"
    using assms(1) by (auto simp: row_sound_def)
  have "case ac_body_sha (rw_record row) of None \<Rightarrow> True | Some h \<Rightarrow> ma_bodies ma' h = b"
    using b(2,3) assms(3) by (cases b) (auto simp: map_le_def dom_def split: option.splits)
  then show ?thesis using b(1,2) load_spooled_mono [OF b(1) assms(2)] Some by (auto simp: row_sound_def)
qed

lemma insert_attempt_simps [simp]:
  "ma_files (insert_attempt r key b rec ma) = ma_files ma"
  "ma_journals (insert_attempt r key b rec ma) = ma_journals ma"
  "ma_runs (insert_attempt r key b rec ma) = ma_runs ma"
  "journal_of (insert_attempt r key b rec ma) = journal_of ma"
  "spooled_lines C (insert_attempt r key b rec ma) = spooled_lines C ma"
  by (simp_all add: insert_attempt_def Let_def journal_of_def spooled_lines_def fun_eq_iff)

lemma insert_attempt_bodies: "ma_bodies ma \<subseteq>\<^sub>m ma_bodies (insert_attempt r key b rec ma)"
  by (auto simp: insert_attempt_def Let_def map_le_def split: option.splits)

lemma insert_attempt_rows:
  "ma_rows (insert_attempt r key b rec ma) = ma_rows ma @
     (if (cr_id (ac_run r), ac_seq r) \<in> set (map row_number (ma_rows ma)) then []
      else [\<lparr>rw_record = r, rw_key = key, rw_recovered = rec, rw_already = map_option (\<lambda>h. ma_bodies ma h \<noteq> None) (ac_body_sha r)\<rparr>])"
  by (simp add: insert_attempt_def Let_def row_number_def)

lemma insert_sound:
  assumes C: "codec_ok C" and ma: "sound_archive C ma" and sha: "map_option (cd_sha C) b = ac_body_sha r"
    and key: "case key of None \<Rightarrow> ac_outcome r = ''spool_failed'' \<and> ac_body_sha r = None | Some k \<Rightarrow> load_spooled C (ma_files ma) k = Inr (r, b)"
  shows "sound_archive C (insert_attempt r key b rec ma)"
proof -
  let ?ma = "insert_attempt r key b rec ma"
  have bodies: "cd_sha C x = h" if "ma_bodies ?ma h = Some x" for h x
    using that ma sha by (auto simp: insert_attempt_def Let_def sound_archive_def split: option.splits if_splits)
  have stored: "ma_bodies ?ma h = b" if "ac_body_sha r = Some h" for h
  proof -
    from that sha obtain x where x: "b = Some x" "h = cd_sha C x" by auto
    show ?thesis
    proof (cases "ma_bodies ma h")
      case None
      then show ?thesis using that x by (simp add: insert_attempt_def Let_def)
    next
      case (Some y)
      then have "cd_sha C y = h" using ma by (simp add: sound_archive_def)
      then have "y = x" using C x(2) by (simp add: codec_ok_def inj_eq)
      then show ?thesis using that x Some by (simp add: insert_attempt_def Let_def)
    qed
  qed
  have new: "row_sound C ?ma \<lparr>rw_record = r, rw_key = key, rw_recovered = rec, rw_already = al\<rparr>" for al
    using key sha stored by (auto simp: row_sound_def split: option.splits)
  have old: "list_all (row_sound C ?ma) (ma_rows ma)"
    using ma row_sound_mono [of C ma _ ?ma] insert_attempt_bodies by (auto simp: sound_archive_def list_all_iff)
  show ?thesis using ma bodies old new unfolding sound_archive_def
    by (auto simp: insert_attempt_rows row_number_def)
qed

section \<open>Recovery\<close>

text \<open>What a recovery does to the archive: it adds rows, each recovered from a spooled line.\<close>

definition recovers :: "archive_codec \<Rightarrow> market_archive \<Rightarrow> market_archive \<Rightarrow> bool" where
  "recovers C ma ma' \<longleftrightarrow> ma_files ma' = ma_files ma \<and> ma_journals ma' = ma_journals ma \<and> ma_runs ma' = ma_runs ma \<and>
     (\<exists>new. ma_rows ma' = ma_rows ma @ new \<and> (\<forall>row \<in> set new. rw_recovered row \<and>
        (\<exists>run n key. rw_key row = Some key \<and> row_number row = (run, n) \<and> (n, key) \<in> set (spooled_lines C ma run))))"

lemma recovers_refl [simp]: "recovers C ma ma"
  by (simp add: recovers_def)

lemma recovers_lines: "recovers C ma ma' \<Longrightarrow> spooled_lines C ma' = spooled_lines C ma \<and> journal_of ma' = journal_of ma"
  by (simp add: recovers_def spooled_lines_def journal_of_def fun_eq_iff)

lemma recovers_trans: "recovers C ma ma1 \<Longrightarrow> recovers C ma1 ma2 \<Longrightarrow> recovers C ma ma2"
  using recovers_lines [of C ma ma1] by (auto simp: recovers_def)

lemma recovers_rows: "recovers C ma ma' \<Longrightarrow> set (ma_rows ma) \<subseteq> set (ma_rows ma')"
  by (auto simp: recovers_def)

lemma recovers_insert:
  assumes "(n, key) \<in> set (spooled_lines C ma run)" and "cr_id (ac_run r) = run" and "ac_seq r = n"
  shows "recovers C ma (insert_attempt r (Some key) b True ma)"
  using assms by (auto simp: recovers_def insert_attempt_rows row_number_def)

lemma recover_entries_sound:
  assumes C: "codec_ok C" and "sound_archive C ma" and "set es \<subseteq> set (spooled_lines C ma run)"
    and "\<forall>n \<in> set present. (run, n) \<in> row_number ` set (ma_rows ma)" and "recover_entries C run left present es ma out = (ma', out', l)"
  shows "sound_archive C ma' \<and> recovers C ma ma' \<and> ry_problems out' = ry_problems out \<and>
    (l \<noteq> None \<longrightarrow> fst ` set es \<subseteq> {n. (run, n) \<in> row_number ` set (ma_rows ma')}) \<and>
    (length es \<le> left \<longrightarrow> (\<exists>m. l = Some m \<and> left \<le> m + length es))"
  using assms(2-)
proof (induction es arbitrary: left present ma out)
  case Nil
  then show ?case by auto
next
  case (Cons e es)
  obtain n key where e: "e = (n, key)" by (cases e)
  show ?case
  proof (cases "n \<in> set present")
    case True
    then have rest: "recover_entries C run left present es ma (out\<lparr>ry_present := ry_present out + 1\<rparr>) = (ma', out', l)"
      using Cons.prems(4) e by simp
    have "set es \<subseteq> set (spooled_lines C ma run)" using Cons.prems(2) by simp
    note IH = Cons.IH [OF Cons.prems(1) this Cons.prems(3) rest]
    have "(run, n) \<in> row_number ` set (ma_rows ma)" using Cons.prems(3) True by blast
    then have "(run, n) \<in> row_number ` set (ma_rows ma')" using IH recovers_rows by blast
    then show ?thesis using IH e by auto
  next
    case False
    have line: "(n, key) \<in> set (spooled_lines C ma run)" using Cons.prems(2) e by simp
    then have "spooled_as C (ma_files ma) run n key" using Cons.prems(1) by (auto simp: sound_archive_def)
    then obtain r b where rb: "load_spooled C (ma_files ma) key = Inr (r, b)" "cr_id (ac_run r) = run" "ac_seq r = n"
        "map_option (cd_sha C) b = ac_body_sha r" by (auto simp: spooled_as_def)
    show ?thesis
    proof (cases left)
      case 0
      then show ?thesis using Cons.prems(1,4) False e rb(1) by simp
    next
      case (Suc m)
      let ?ma = "insert_attempt r (Some key) b True ma"
      have rest: "recover_entries C run m (n # present) es ?ma (out\<lparr>ry_recovered := ry_recovered out + 1\<rparr>) = (ma', out', l)"
        using Cons.prems(4) False e rb(1) Suc by simp
      have sound: "sound_archive C ?ma" by (rule insert_sound [OF C Cons.prems(1) rb(4)]) (simp add: rb(1))
      have row: "(run, n) \<in> row_number ` set (ma_rows ?ma)" using rb(2,3) by (auto simp: insert_attempt_rows row_number_def)
      have "set es \<subseteq> set (spooled_lines C ?ma run)" using Cons.prems(2) by simp
      moreover have "\<forall>k \<in> set (n # present). (run, k) \<in> row_number ` set (ma_rows ?ma)"
        using row Cons.prems(3) by (auto simp: insert_attempt_rows)
      ultimately have IH: "sound_archive C ma' \<and> recovers C ?ma ma' \<and> ry_problems out' = ry_problems out \<and>
        (l \<noteq> None \<longrightarrow> fst ` set es \<subseteq> {n. (run, n) \<in> row_number ` set (ma_rows ma')}) \<and>
        (length es \<le> m \<longrightarrow> (\<exists>k. l = Some k \<and> m \<le> k + length es))"
        using Cons.IH [OF sound _ _ rest] by simp
      have "(run, n) \<in> row_number ` set (ma_rows ma')" using row IH recovers_rows by blast
      moreover have "recovers C ma ma'" using recovers_trans [OF recovers_insert [OF line rb(2,3)]] IH by blast
      ultimately show ?thesis using IH e Suc by auto
    qed
  qed
qed

lemma recover_runs_sound:
  assumes C: "codec_ok C" and "sound_archive C ma" and "recover_runs C left rs ma out = (ma', out', l)"
  shows "sound_archive C ma' \<and> recovers C ma ma' \<and> ry_problems out' = ry_problems out \<and>
    (l \<noteq> None \<longrightarrow> (\<forall>run \<in> set rs \<inter> set (ma_runs ma). \<forall>(n, key) \<in> set (spooled_lines C ma run). (run, n) \<in> row_number ` set (ma_rows ma'))) \<and>
    (sum_list (map (\<lambda>run. length (spooled_lines C ma run)) rs) \<le> left \<longrightarrow> l \<noteq> None)"
  using assms(2-)
proof (induction rs arbitrary: left ma out)
  case Nil
  then show ?case by auto
next
  case (Cons run rs)
  let ?es = "spooled_lines C ma run"
  consider (none) "?es = []" | (orphan) "?es \<noteq> []" "run \<notin> set (ma_runs ma)" | (own) "?es \<noteq> []" "run \<in> set (ma_runs ma)" by blast
  then show ?case
  proof cases
    case none
    then have "recover_runs C left rs ma out = (ma', out', l)" using Cons.prems(2) by (simp add: Let_def)
    from Cons.IH [OF Cons.prems(1) this] show ?thesis using none by auto
  next
    case orphan
    then have "recover_runs C left rs ma (out\<lparr>ry_orphans := ry_orphans out @ [run]\<rparr>) = (ma', out', l)"
      using Cons.prems(2) by (simp add: Let_def)
    from Cons.IH [OF Cons.prems(1) this] show ?thesis using orphan by auto
  next
    case own
    let ?present = "map snd (filter (\<lambda>x. fst x = run) (map row_number (ma_rows ma)))"
    obtain ma1 out1 l1 where first: "recover_entries C run left ?present ?es ma out = (ma1, out1, l1)" by (metis prod_cases3)
    have present: "\<forall>n \<in> set ?present. (run, n) \<in> row_number ` set (ma_rows ma)" by (auto simp: rev_image_eqI)
    note F = recover_entries_sound [OF C Cons.prems(1) subset_refl present first]
    show ?thesis
    proof (cases l1)
      case None
      then have "ma' = ma1 \<and> out' = out1 \<and> l = None" using Cons.prems(2) own first by (simp add: Let_def)
      then show ?thesis using F None by auto
    next
      case (Some m)
      then have rest: "recover_runs C m rs ma1 out1 = (ma', out', l)" using Cons.prems(2) own first by (simp add: Let_def)
      have lines: "spooled_lines C ma1 = spooled_lines C ma" "ma_runs ma1 = ma_runs ma"
        using F recovers_lines by (auto simp: recovers_def)
      have "sound_archive C ma1" using F by simp
      note IH = Cons.IH [OF this rest, unfolded lines]
      have "fst ` set ?es \<subseteq> {n. (run, n) \<in> row_number ` set (ma_rows ma1)}" using F Some by simp
      moreover have "row_number ` set (ma_rows ma1) \<subseteq> row_number ` set (ma_rows ma')" using IH recovers_rows [of C ma1 ma'] by (simp add: image_mono)
      ultimately have "(run, n) \<in> row_number ` set (ma_rows ma')" if "(n, key) \<in> set ?es" for n key
        using rev_image_eqI [OF that, of n fst] by auto
      then have here: "\<forall>(n, key) \<in> set ?es. (run, n) \<in> row_number ` set (ma_rows ma')" by auto
      have trans: "recovers C ma ma'" using recovers_trans F IH by blast
      have enough: "l \<noteq> None" if "sum_list (map (\<lambda>run. length (spooled_lines C ma run)) (run # rs)) \<le> left"
      proof -
        from that have len: "length ?es \<le> left" by simp
        then have "left \<le> m + length ?es" using F Some by auto
        then show ?thesis using that IH by simp
      qed
      have every: "l \<noteq> None \<longrightarrow> (\<forall>r \<in> set (run # rs) \<inter> set (ma_runs ma). \<forall>(n, key) \<in> set (spooled_lines C ma r). (r, n) \<in> row_number ` set (ma_rows ma'))"
        using IH here by (metis (no_types, lifting) Int_iff set_ConsD)
      show ?thesis using F IH every trans enough by (elim conjE) (intro conjI; simp)
    qed
  qed
qed

lemma spooled_lines_journal: "spooled_lines C ma run \<noteq> [] \<Longrightarrow> run \<in> set (map fst (ma_journals ma))"
  by (rule ccontr) (simp add: spooled_lines_def journal_entries_def journal_of_def map_of_eq_None_iff [THEN iffD2] List.map_filter_simps)

lemma recover_sound:
  assumes "codec_ok C" and "sound_archive C ma" and "recover C left ma = (ma', out, l)"
  shows "sound_archive C ma'" "recovers C ma ma'" "ry_problems out = []"
    "l \<noteq> None \<Longrightarrow> run \<in> set (ma_runs ma) \<Longrightarrow> (n, key) \<in> set (spooled_lines C ma run) \<Longrightarrow> (run, n) \<in> row_number ` set (ma_rows ma')"
    "sum_list (map (\<lambda>run. length (spooled_lines C ma run)) (map fst (ma_journals ma))) \<le> left \<Longrightarrow> l \<noteq> None"
proof -
  have "recover_runs C left (sort (map fst (ma_journals ma))) ma \<lparr>ry_recovered = 0, ry_present = 0, ry_orphans = [], ry_problems = []\<rparr> = (ma', out, l)"
    using assms(3) by (simp add: recover_def)
  note R = recover_runs_sound [OF assms(1,2) this]
  show "sound_archive C ma'" "recovers C ma ma'" "ry_problems out = []" using R by simp_all
  show "(run, n) \<in> row_number ` set (ma_rows ma')" if "l \<noteq> None" "run \<in> set (ma_runs ma)" "(n, key) \<in> set (spooled_lines C ma run)"
  proof -
    have "run \<in> set (sort (map fst (ma_journals ma)))" using spooled_lines_journal [of C ma run] that(3) by (cases "spooled_lines C ma run = []") auto
    then show ?thesis using R that by fastforce
  qed
  have "sum_list (map f (sort xs)) = sum_list (map f xs)" for f :: "string \<Rightarrow> nat" and xs
  proof -
    have "mset (map f (sort xs)) = mset (map f xs)" by simp
    then show ?thesis by (metis sum_mset_sum_list)
  qed
  then show "sum_list (map (\<lambda>run. length (spooled_lines C ma run)) (map fst (ma_journals ma))) \<le> left \<Longrightarrow> l \<noteq> None"
    using R by simp
qed

section \<open>One attempt\<close>

lemma journal_with_journal [simp]: "journal_of (with_journal run t ma) r = (if r = run then t else journal_of ma r)"
  by (simp add: with_journal_def journal_of_def update_conv)

lemma with_journal_simps [simp]:
  "ma_files (with_journal run t ma) = ma_files ma" "ma_bodies (with_journal run t ma) = ma_bodies ma"
  "ma_rows (with_journal run t ma) = ma_rows ma" "ma_runs (with_journal run t ma) = ma_runs ma"
  by (simp_all add: with_journal_def)

lemma spooled_lines_iff: "(n, key) \<in> set (spooled_lines C ma run) \<longleftrightarrow> SpooledLine key n \<in> set (journal_entries C (journal_of ma run))"
proof -
  have "spooled_of e = Some (n, key) \<longleftrightarrow> e = SpooledLine key n" for e by (auto simp: spooled_of_def split: journal_entry.splits)
  then show ?thesis by (simp add: spooled_lines_def set_map_filter)
qed

lemma sound_journal: "sound_archive C ma \<Longrightarrow> \<exists>lss ps. journal_text C lss ps (journal_of ma run)"
  by (simp add: sound_archive_def)

text \<open>Numbers of a run: no row and no spooled line is beyond \<open>s\<close>.\<close>

definition ahead :: "archive_codec \<Rightarrow> string \<Rightarrow> nat \<Rightarrow> market_archive \<Rightarrow> bool" where
  "ahead C run s ma \<longleftrightarrow> (\<forall>row \<in> set (ma_rows ma). fst (row_number row) = run \<longrightarrow> snd (row_number row) \<le> s) \<and>
     (\<forall>(n, key) \<in> set (spooled_lines C ma run). n \<le> s)"

lemma line_sound:
  assumes C: "codec_ok C" and ma: "sound_archive C ma" and t: "append_line C w e (journal_of ma run) = (t, ok)"
    and e: "case spooled_of e of None \<Rightarrow> True
      | Some (n, key) \<Rightarrow> spooled_as C (ma_files ma) run n key \<and> (\<forall>k. (n, k) \<notin> set (spooled_lines C ma run))"
  shows "sound_archive C (with_journal run t ma)"
    "set (spooled_lines C (with_journal run t ma) run) \<subseteq> set (spooled_lines C ma run) \<union> set_option (spooled_of e)"
proof -
  obtain lss ps where "journal_text C lss ps (journal_of ma run)" using sound_journal [OF ma] by blast
  note J = journal_append [OF C this t]
  have lines: "SpooledLine k n \<in> set (journal_entries C t) \<Longrightarrow> (n, k) \<in> set (spooled_lines C ma run) \<or> spooled_of e = Some (n, k)" for k n
    using J(2) by (auto simp: spooled_lines_iff spooled_of_def)
  show sub: "set (spooled_lines C (with_journal run t ma) run) \<subseteq> set (spooled_lines C ma run) \<union> set_option (spooled_of e)"
  proof
    fix x assume x: "x \<in> set (spooled_lines C (with_journal run t ma) run)"
    obtain n k where "x = (n, k)" by (cases x)
    then show "x \<in> set (spooled_lines C ma run) \<union> set_option (spooled_of e)" using x lines [of k n] by (auto simp: spooled_lines_iff)
  qed
  have other: "spooled_lines C (with_journal run t ma) r = spooled_lines C ma r" if "r \<noteq> run" for r
    using that by (simp add: spooled_lines_def)
  have "row_sound C (with_journal run t ma) row" if "row_sound C ma row" for row
    by (rule row_sound_mono [OF that]) simp_all
  then have rows: "list_all (row_sound C (with_journal run t ma)) (ma_rows ma)" using ma by (auto simp: sound_archive_def list_all_iff)
  have spooled: "\<forall>(n, key) \<in> set (spooled_lines C (with_journal run t ma) r). spooled_as C (ma_files ma) r n key" for r
  proof (cases "r = run")
    case True
    then show ?thesis using sub e ma by (fastforce simp: sound_archive_def)
  next
    case False
    then show ?thesis using ma other by (simp add: sound_archive_def)
  qed
  have keyed: "k = k'" if "(n, k) \<in> set (spooled_lines C (with_journal run t ma) r)" "(n, k') \<in> set (spooled_lines C (with_journal run t ma) r)" for r n k k'
  proof (cases "r = run")
    case True
    then have "(n, x) \<in> set (spooled_lines C ma run) \<or> spooled_of e = Some (n, x)" if "x \<in> {k, k'}" for x
      using sub that \<open>(n, k) \<in> _\<close> \<open>(n, k') \<in> _\<close> by (metis (no_types, lifting) UnE elem_set insertE singletonD subsetD)
    then have "(n, k) \<in> set (spooled_lines C ma run) \<or> spooled_of e = Some (n, k)" "(n, k') \<in> set (spooled_lines C ma run) \<or> spooled_of e = Some (n, k')"
      by simp_all
    moreover have "(n, x) \<notin> set (spooled_lines C ma run)" if "spooled_of e = Some (n, y)" for x y using e that by simp
    moreover have "x = y" if "(n, x) \<in> set (spooled_lines C ma run)" "(n, y) \<in> set (spooled_lines C ma run)" for x y
      using ma that unfolding sound_archive_def by blast
    ultimately show ?thesis by auto
  next
    case False
    then show ?thesis using ma other that unfolding sound_archive_def by metis
  qed
  show "sound_archive C (with_journal run t ma)"
    using ma J(1) rows spooled keyed unfolding sound_archive_def by auto
qed

lemma files_sound:
  assumes "sound_archive C ma" and "spool_ok C files" and "ma_files ma \<subseteq>\<^sub>m files"
  shows "sound_archive C (ma\<lparr>ma_files := files\<rparr>)" "spooled_lines C (ma\<lparr>ma_files := files\<rparr>) = spooled_lines C ma"
proof -
  show lines: "spooled_lines C (ma\<lparr>ma_files := files\<rparr>) = spooled_lines C ma" by (simp add: spooled_lines_def journal_of_def fun_eq_iff)
  have "row_sound C (ma\<lparr>ma_files := files\<rparr>) row" if "row_sound C ma row" for row
    by (rule row_sound_mono [OF that]) (use assms(3) in simp_all)
  then have "list_all (row_sound C (ma\<lparr>ma_files := files\<rparr>)) (ma_rows ma)" using assms(1) by (auto simp: sound_archive_def list_all_iff)
  moreover have "journal_of (ma\<lparr>ma_files := files\<rparr>) = journal_of ma" by (simp add: journal_of_def fun_eq_iff)
  ultimately show "sound_archive C (ma\<lparr>ma_files := files\<rparr>)"
    using assms spooled_as_mono [OF _ assms(3)] lines unfolding sound_archive_def by fastforce
qed

lemma failure_sound:
  assumes "codec_ok C" and "sound_archive C ma" and "spool_failure w run spec n attempt parse ma = (ma', res)"
  shows "sound_archive C ma'" "ma_runs ma' = ma_runs ma" "res = Unspooled" "\<exists>new. ma_rows ma' = ma_rows ma @ new"
  using assms insert_sound [OF assms(1,2), of None "build_record run spec n attempt (wo_exchange w) ''spool_failed'' parse None None (Some ''spool write failed'')" None False]
  by (auto simp: spool_failure_def Let_def build_record_def insert_attempt_rows split: if_splits)

lemma failure_unspooled: "spool_failure w run spec n attempt parse ma = (ma', res) \<Longrightarrow> res = Unspooled"
  by (auto simp: spool_failure_def Let_def)

text \<open>How an attempt is archived: it failed, having kept the archive sound, or its line was written and its record loads.\<close>

lemma archive_attempt_cases:
  assumes C: "codec_ok C" and ma: "sound_archive C ma" and a: "ahead C (cr_id run) s ma" "s < n"
    and res: "archive_attempt C w run spec n attempt outcome parse ma = (ma', res)"
  shows "(\<exists>ma0. sound_archive C ma0 \<and> ma_runs ma0 = ma_runs ma \<and> ma_rows ma0 = ma_rows ma \<and> spool_failure w run spec n attempt parse ma0 = (ma', res)) \<or>
    (\<exists>ma0 r body key. sound_archive C ma0 \<and> ma_runs ma0 = ma_runs ma \<and> ma_rows ma0 = ma_rows ma \<and>
       load_spooled C (ma_files ma0) key = Inr (r, body) \<and> map_option (cd_sha C) body = ac_body_sha r \<and> ac_run r = run \<and> ac_seq r = n \<and>
       set (spooled_lines C ma0 (cr_id run)) \<subseteq> insert (n, key) (set (spooled_lines C ma (cr_id run))) \<and>
       append_line C (wo_spooled w) (SpooledLine key n) (journal_of ma (cr_id run)) = (journal_of ma0 (cr_id run), True) \<and>
       (ma', res) = (if wo_row w then (insert_attempt r (Some key) body False ma0, Committed) else (ma0, Uncommitted key)))"
proof -
  define body where "body = (if outcome = ''too_large'' then None else ex_body (mx_answer (wo_exchange w)))"
  define body_key where "body_key = map_option (\<lambda>b. spool_key ''blobs'' (cd_sha C b) []) body"
  define r where "r = build_record run spec n attempt (wo_exchange w) outcome parse (map_option (cd_sha C) body) body_key None"
  define key where "key = spool_key ''records'' (cd_sha C (cd_record C r)) ''.json''"
  obtain files1 ok1 where one: "(case body of None \<Rightarrow> (ma_files ma, True)
      | Some b \<Rightarrow> store_file (cd_sha C) (wo_body w) (spool_key ''blobs'' (cd_sha C b) []) b (ma_files ma)) = (files1, ok1)" by fastforce
  define reread where "reread = (case (body, body_key) of (Some b, Some k) \<Rightarrow> map_option (cd_sha C) (files1 k) = Some (cd_sha C b) | _ \<Rightarrow> True)"
  obtain files2 ok2 where two: "store_file (cd_sha C) (wo_record w) key (cd_record C r) files1 = (files2, ok2)" by fastforce
  define ma2 where "ma2 = ma\<lparr>ma_files := files2\<rparr>"
  obtain t ok3 where three: "append_line C (wo_spooled w) (SpooledLine key n) (journal_of ma2 (cr_id run)) = (t, ok3)" by fastforce
  define ma3 where "ma3 = with_journal (cr_id run) t ma2"
  have res': "(ma', res) = (if \<not> ok1 \<or> \<not> reread then spool_failure w run spec n attempt parse (ma\<lparr>ma_files := files1\<rparr>)
      else if \<not> ok2 then spool_failure w run spec n attempt parse ma2 else if \<not> ok3 then spool_failure w run spec n attempt parse ma3
      else if wo_row w then (insert_attempt r (Some key) body False ma3, Committed) else (ma3, Uncommitted key))"
    unfolding res [symmetric] archive_attempt_def Let_def body_def [symmetric] body_key_def [symmetric] r_def [symmetric] key_def [symmetric]
      one two reread_def prod.case ma2_def [symmetric] three ma3_def [symmetric] ..
  have spool: "spool_ok C (ma_files ma)" and inj: "inj (cd_sha C)" using ma C by (simp_all add: sound_archive_def codec_ok_def)
  have f1: "spool_ok C files1 \<and> ma_files ma \<subseteq>\<^sub>m files1"
  proof (cases body)
    case None
    then show ?thesis using one spool by simp
  next
    case (Some b)
    then have "store_file (cd_sha C) (wo_body w) (spool_key ''blobs'' (cd_sha C b) []) b (ma_files ma) = (files1, ok1)" using one by simp
    from store_file_ok [OF spool codec_stem [OF C] this] show ?thesis by simp
  qed
  have stem: "key_stem key = cd_sha C (cd_record C r)" unfolding key_def by (rule codec_stem [OF C]) simp
  have f2: "spool_ok C files2 \<and> files1 \<subseteq>\<^sub>m files2" using store_file_ok [OF _ stem two] f1 by simp
  then have le: "ma_files ma \<subseteq>\<^sub>m files2" using f1 map_le_trans by blast
  have s1: "sound_archive C (ma\<lparr>ma_files := files1\<rparr>)" using files_sound [OF ma] f1 by simp
  have s2: "sound_archive C ma2" "spooled_lines C ma2 = spooled_lines C ma" unfolding ma2_def using files_sound [OF ma _ le] f2 by simp_all
  have same2: "ma_runs ma2 = ma_runs ma" "ma_rows ma2 = ma_rows ma" "ma_files ma2 = files2" "journal_of ma2 = journal_of ma"
    by (simp_all add: ma2_def journal_of_def fun_eq_iff)
  have loads: "load_spooled C files2 key = Inr (r, body)" if "ok1" "ok2"
  proof (rule load_stored [OF C _ stem])
    show "files2 key = Some (cd_record C r)" using store_file_read [OF inj _ stem, of files1 "wo_record w" files2] f1 two that by simp
    show "case body of None \<Rightarrow> ac_body_key r = None | Some b \<Rightarrow> \<exists>k. ac_body_key r = Some k \<and> files2 k = Some b \<and> ac_body_sha r = Some (cd_sha C b)"
    proof (cases body)
      case None
      then show ?thesis by (simp add: r_def build_record_def body_key_def)
    next
      case (Some b)
      let ?k = "spool_key ''blobs'' (cd_sha C b) []"
      have "files1 ?k = Some b" using store_file_read [OF inj spool codec_stem [OF C]] one Some that by simp
      then have "files2 ?k = Some b" using f2 by (metis domI map_le_def)
      then show ?thesis using Some by (simp add: r_def build_record_def body_key_def)
    qed
  qed
  have r: "ac_run r = run" "ac_seq r = n" "map_option (cd_sha C) body = ac_body_sha r" by (simp_all add: r_def build_record_def)
  have fresh: "(n, k) \<notin> set (spooled_lines C ma2 (cr_id run))" for k using a s2(2) by (fastforce simp: ahead_def)
  have s3: "sound_archive C ma3" "set (spooled_lines C ma3 (cr_id run)) \<subseteq> insert (n, key) (set (spooled_lines C ma (cr_id run)))" if "ok1" "ok2"
  proof -
    have "spooled_as C (ma_files ma2) (cr_id run) n key" using loads [OF that] same2 r by (auto simp: spooled_as_def)
    then have e: "case spooled_of (SpooledLine key n) of None \<Rightarrow> True
      | Some (n, key) \<Rightarrow> spooled_as C (ma_files ma2) (cr_id run) n key \<and> (\<forall>k. (n, k) \<notin> set (spooled_lines C ma2 (cr_id run)))"
      using fresh by (simp add: spooled_of_def)
    show "sound_archive C ma3" unfolding ma3_def by (rule line_sound(1) [OF C s2(1) three e])
    show "set (spooled_lines C ma3 (cr_id run)) \<subseteq> insert (n, key) (set (spooled_lines C ma (cr_id run)))"
      using line_sound(2) [OF C s2(1) three e] s2(2) by (simp add: ma3_def spooled_of_def)
  qed
  consider "\<not> ok1 \<or> \<not> reread" | "ok1" "reread" "\<not> ok2" | "ok1" "reread" "ok2" "\<not> ok3" | "ok1" "reread" "ok2" "ok3" by blast
  then show ?thesis
  proof cases
    case 1
    then show ?thesis using res' s1 by (intro disjI1 exI [of _ "ma\<lparr>ma_files := files1\<rparr>"]) simp
  next
    case 2
    then show ?thesis using res' s2 same2 by (intro disjI1 exI [of _ ma2]) simp
  next
    case 3
    then show ?thesis using res' s3 same2 by (intro disjI1 exI [of _ ma3]) (simp add: ma3_def)
  next
    case 4
    then have "append_line C (wo_spooled w) (SpooledLine key n) (journal_of ma (cr_id run)) = (journal_of ma3 (cr_id run), True)"
      using three same2 by (simp add: ma3_def)
    then show ?thesis using 4 res' s3 same2 loads r
      by (intro disjI2 exI [of _ ma3] exI [of _ r] exI [of _ body] exI [of _ key]) (simp add: ma3_def)
  qed
qed

section \<open>The attempts of a process\<close>

lemma number_fold_ge: "x \<in> set xs \<or> x \<le> a \<Longrightarrow> x \<le> fold max xs (a :: nat)"
  by (induction xs arbitrary: a) (auto simp: max_def)

text \<open>A requester whose next number is beyond every row and every spooled line of its run.\<close>

definition in_step :: "archive_codec \<Rightarrow> nat \<Rightarrow> requester \<Rightarrow> market_archive \<Rightarrow> bool" where
  "in_step C s q ma \<longleftrightarrow> sound_archive C ma \<and> fst (numbers C (rq_archiver q) ma) = s \<and> ahead C (cr_id (av_run (rq_archiver q))) s ma"

text \<open>From one state of a process to a later one: each request made has its own row, with the next number.\<close>

definition archives_each :: "nat \<Rightarrow> requester \<Rightarrow> market_archive \<Rightarrow> nat \<Rightarrow> requester \<Rightarrow> market_archive \<Rightarrow> bool" where
  "archives_each s q ma s' q' ma' \<longleftrightarrow>
     (\<exists>new. ma_rows ma' = ma_rows ma @ new \<and> rq_made q' = rq_made q + length new \<and> s' = s + length new \<and>
       map row_number new = map (Pair (cr_id (av_run (rq_archiver q)))) [Suc s..<Suc s'] \<and>
       list_all (\<lambda>row. rw_key row \<noteq> None \<and> \<not> rw_recovered row) new)"

lemma archives_each_refl: "rq_made q' = rq_made q \<Longrightarrow> archives_each s q ma s q' ma"
  by (simp add: archives_each_def)

lemma archives_each_trans:
  assumes "archives_each s q ma s1 q1 ma1" and "archives_each s1 q1 ma1 s2 q2 ma2" and "av_run (rq_archiver q1) = av_run (rq_archiver q)"
  shows "archives_each s q ma s2 q2 ma2"
proof -
  obtain new where a: "ma_rows ma1 = ma_rows ma @ new" "rq_made q1 = rq_made q + length new" "s1 = s + length new"
      "map row_number new = map (Pair (cr_id (av_run (rq_archiver q)))) [Suc s..<Suc s1]" "list_all (\<lambda>row. rw_key row \<noteq> None \<and> \<not> rw_recovered row) new"
    using assms(1) unfolding archives_each_def by blast
  obtain more where b: "ma_rows ma2 = ma_rows ma1 @ more" "rq_made q2 = rq_made q1 + length more" "s2 = s1 + length more"
      "map row_number more = map (Pair (cr_id (av_run (rq_archiver q)))) [Suc s1..<Suc s2]" "list_all (\<lambda>row. rw_key row \<noteq> None \<and> \<not> rw_recovered row) more"
    using assms(2) unfolding archives_each_def assms(3) by blast
  have "[Suc s..<Suc s2] = [Suc s..<Suc s1] @ [Suc s1..<Suc s2]"
    using a(3) b(3) upt_add_eq_append [of "Suc s" "Suc s1" "length more"] by simp
  then show ?thesis unfolding archives_each_def using a b by (intro exI [of _ "new @ more"]) simp
qed

text \<open>An attempt that ends the process with its row missing leaves a spooled line for it.\<close>

definition left_spooled :: "archive_codec \<Rightarrow> string \<Rightarrow> string \<Rightarrow> market_archive \<Rightarrow> bool" where
  "left_spooled C run key ma \<longleftrightarrow> (\<exists>n. (n, key) \<in> set (spooled_lines C ma run) \<and> (run, n) \<notin> row_number ` set (ma_rows ma))"

definition whole_lines :: "archive_world \<Rightarrow> bool" where
  "whole_lines w \<longleftrightarrow> (\<forall>n. wo_intent w \<noteq> Short n) \<and> (\<forall>n. wo_spooled w \<noteq> Short n)"

lemma append_line_True: "append_line C w e t = (t', True) \<Longrightarrow> \<forall>n. w \<noteq> Short n \<Longrightarrow> w = Whole"
  by (cases w) (simp_all add: append_line_def Let_def)

lemma intent_sound:
  assumes C: "codec_ok C" and q: "in_step C s q ma" and i: "intent C w key attempt (rq_archiver q) ma = (av, ma1, n)"
  shows "sound_archive C ma1" "ahead C (cr_id (av_run (rq_archiver q))) s ma1" "ma_runs ma1 = ma_runs ma" "ma_rows ma1 = ma_rows ma"
    "av_run av = av_run (rq_archiver q)" "n = None \<or> n = Some (s + 1) \<and> (\<exists>att. av_numbers av = Some (s + 1, att))"
    "n \<noteq> None \<Longrightarrow> \<forall>n. w \<noteq> Short n \<Longrightarrow> \<exists>lss. journal_text C lss [] (journal_of ma1 (cr_id (av_run (rq_archiver q))))"
proof -
  let ?run = "cr_id (av_run (rq_archiver q))"
  obtain att where nums: "numbers C (rq_archiver q) ma = (s, att)" using q by (cases "numbers C (rq_archiver q) ma") (simp add: in_step_def)
  obtain t ok where line: "append_line C w (IntentLine key attempt (s + 1)) (journal_of ma ?run) = (t, ok)" by fastforce
  have ma1: "ma1 = with_journal ?run t ma" and n: "n = (if ok then Some (s + 1) else None)"
    and av: "av = (rq_archiver q)\<lparr>av_numbers := Some (if ok then (s + 1, att(key := max (att key) attempt)) else (s, att))\<rparr>"
    using i nums line by (auto simp: intent_def Let_def)
  have sound: "sound_archive C ma" using q by (simp add: in_step_def)
  have e: "case spooled_of (IntentLine key attempt (s + 1)) of None \<Rightarrow> True
      | Some (n, key) \<Rightarrow> spooled_as C (ma_files ma) ?run n key \<and> (\<forall>k. (n, k) \<notin> set (spooled_lines C ma ?run))"
    by (simp add: spooled_of_def)
  show "sound_archive C ma1" unfolding ma1 by (rule line_sound(1) [OF C sound line e])
  have "set (spooled_lines C ma1 ?run) \<subseteq> set (spooled_lines C ma ?run)"
    using line_sound(2) [OF C sound line e] by (simp add: ma1 spooled_of_def)
  then show "ahead C ?run s ma1" using q by (auto simp: in_step_def ahead_def ma1)
  show "ma_runs ma1 = ma_runs ma" "ma_rows ma1 = ma_rows ma" "av_run av = av_run (rq_archiver q)"
    "n = None \<or> n = Some (s + 1) \<and> (\<exists>att. av_numbers av = Some (s + 1, att))" by (simp_all add: ma1 av n)
  show "\<exists>lss. journal_text C lss [] (journal_of ma1 ?run)" if "n \<noteq> None" "\<forall>n. w \<noteq> Short n"
  proof -
    have "ok" using that(1) n by (cases ok) auto
    then have "w = Whole" using append_line_True [of C w _ _ t] line that(2) by simp
    obtain lss ps where "journal_text C lss ps (journal_of ma ?run)" using sound_journal [OF sound] by blast
    from journal_whole [OF C this] show ?thesis using line \<open>w = Whole\<close> by (simp add: ma1) (metis fst_conv)
  qed
qed

lemma make_attempt_sound:
  assumes C: "codec_ok C" and q: "in_step C s q ma" and m: "make_attempt C budget spec w q ma = (q', ma', res)"
  shows "sound_archive C ma' \<and> ma_runs ma' = ma_runs ma \<and> av_run (rq_archiver q') = av_run (rq_archiver q)"
    "\<And>outcome. res = Inl outcome \<Longrightarrow> in_step C (s + 1) q' ma' \<and> archives_each s q ma (s + 1) q' ma'"
    "res = Inr BudgetSpent \<Longrightarrow> q' = q \<and> ma' = ma"
    "\<And>key. res = Inr (DatabaseDown key) \<Longrightarrow> whole_lines w \<Longrightarrow> left_spooled C (cr_id (av_run (rq_archiver q))) key ma'"
    "res = Inr BudgetSpent \<or> (\<exists>x. res = Inl x) \<or> res \<in> {Inr SpoolDown, Inr Died} \<or> (\<exists>key. res = Inr (DatabaseDown key))"
proof -
  let ?run = "av_run (rq_archiver q)"
  have sound: "sound_archive C ma" using q by (simp add: in_step_def)
  obtain av ma1 n where i: "intent C (wo_intent w) (sp_key spec) (next_attempt_no C (sp_key spec) (rq_archiver q) ma) (rq_archiver q) ma = (av, ma1, n)"
    by (metis prod_cases3)
  note I = intent_sound [OF C q i]
  define q1 where "q1 = q\<lparr>rq_archiver := av, rq_made := rq_made q + 1\<rparr>"
  obtain outcome parse parsed where cl: "classify_market (cd_loads C) (sp_endpoint spec) (mx_answer (wo_exchange w)) = (outcome, parse, parsed)"
    by (metis prod_cases3)
  obtain ma2 ar where ar: "archive_attempt C w (av_run av) spec (s + 1) (next_attempt_no C (sp_key spec) (rq_archiver q) ma) outcome parse ma1 = (ma2, ar)"
    by fastforce
  consider (budget) "q' = q" "ma' = ma" "res = Inr BudgetSpent"
    | (unsent) "n = None" "q' = q\<lparr>rq_archiver := av\<rparr>" "ma' = ma1" "res = Inr SpoolDown"
    | (died) "n = Some (s + 1)" "q' = q1" "ma' = ma1" "res = Inr Died"
    | (sent) "n = Some (s + 1)" "q' = q1" "ma' = ma2" "res = (case ar of Committed \<Rightarrow> Inl outcome | Unspooled \<Rightarrow> Inr SpoolDown | Uncommitted key \<Rightarrow> Inr (DatabaseDown key))"
    using m i I(6) cl ar by (auto simp: make_attempt_def Let_def q1_def split: if_splits archive_outcome.splits)
  note cases = this
  have run: "av_run av = ?run" using I(5) .
  have A: "(\<exists>ma0. sound_archive C ma0 \<and> ma_runs ma0 = ma_runs ma1 \<and> ma_rows ma0 = ma_rows ma1 \<and>
        spool_failure w ?run spec (s + 1) (next_attempt_no C (sp_key spec) (rq_archiver q) ma) parse ma0 = (ma2, ar)) \<or>
    (\<exists>ma0 r body key. sound_archive C ma0 \<and> ma_runs ma0 = ma_runs ma1 \<and> ma_rows ma0 = ma_rows ma1 \<and>
       load_spooled C (ma_files ma0) key = Inr (r, body) \<and> map_option (cd_sha C) body = ac_body_sha r \<and> ac_run r = ?run \<and> ac_seq r = s + 1 \<and>
       set (spooled_lines C ma0 (cr_id ?run)) \<subseteq> insert (s + 1, key) (set (spooled_lines C ma1 (cr_id ?run))) \<and>
       append_line C (wo_spooled w) (SpooledLine key (s + 1)) (journal_of ma1 (cr_id ?run)) = (journal_of ma0 (cr_id ?run), True) \<and>
       (ma2, ar) = (if wo_row w then (insert_attempt r (Some key) body False ma0, Committed) else (ma0, Uncommitted key)))"
    using archive_attempt_cases [OF C I(1) _ _ ar, of s] I(2) unfolding run by simp
  have ma2: "sound_archive C ma2 \<and> ma_runs ma2 = ma_runs ma1"
    using A
  proof (elim disjE exE conjE)
    fix ma0 assume "sound_archive C ma0" "ma_runs ma0 = ma_runs ma1"
      and f: "spool_failure w ?run spec (s + 1) (next_attempt_no C (sp_key spec) (rq_archiver q) ma) parse ma0 = (ma2, ar)"
    then show ?thesis using failure_sound [OF C _ f] by simp
  next
    fix ma0 r body key assume 0: "sound_archive C ma0" "ma_runs ma0 = ma_runs ma1" "load_spooled C (ma_files ma0) key = Inr (r, body)"
      "map_option (cd_sha C) body = ac_body_sha r"
      and e: "(ma2, ar) = (if wo_row w then (insert_attempt r (Some key) body False ma0, Committed) else (ma0, Uncommitted key))"
    have "sound_archive C (insert_attempt r (Some key) body False ma0)" by (rule insert_sound [OF C 0(1,4)]) (simp add: 0(3))
    then show ?thesis using e 0(1,2) by (auto split: if_splits)
  qed
  show "sound_archive C ma' \<and> ma_runs ma' = ma_runs ma \<and> av_run (rq_archiver q') = ?run"
    by (rule cases) (use sound I(1,3,5) ma2 run in \<open>simp_all add: q1_def\<close>)
  show "res = Inr BudgetSpent \<Longrightarrow> q' = q \<and> ma' = ma" by (rule cases) (auto split: archive_outcome.splits)
  show "res = Inr BudgetSpent \<or> (\<exists>x. res = Inl x) \<or> res \<in> {Inr SpoolDown, Inr Died} \<or> (\<exists>key. res = Inr (DatabaseDown key))"
    by (rule cases) (auto split: archive_outcome.splits)
  have fresh: "(cr_id ?run, s + 1) \<notin> row_number ` set (ma_rows ma1)"
  proof
    assume "(cr_id ?run, s + 1) \<in> row_number ` set (ma_rows ma1)"
    then obtain row where row: "row \<in> set (ma_rows ma1)" "row_number row = (cr_id ?run, s + 1)" by auto
    have "fst (row_number row) = cr_id ?run \<longrightarrow> snd (row_number row) \<le> s" using I(2) row(1) unfolding ahead_def by blast
    then show False using row(2) by simp
  qed
  show "in_step C (s + 1) q' ma' \<and> archives_each s q ma (s + 1) q' ma'" if res: "res = Inl x" for x
  proof -
    have sent: "q' = q1" "ma' = ma2" "n = Some (s + 1)" "ar = Committed" by (rule cases; use res in \<open>auto split: archive_outcome.splits\<close>)+
    have "ar \<noteq> Unspooled" using sent(4) by simp
    then obtain ma0 r body key where 0: "ma_rows ma0 = ma_rows ma1" "ac_run r = ?run" "ac_seq r = s + 1"
        "set (spooled_lines C ma0 (cr_id ?run)) \<subseteq> insert (s + 1, key) (set (spooled_lines C ma1 (cr_id ?run)))"
        "ma2 = insert_attempt r (Some key) body False ma0"
      using A sent(4) by (auto dest: failure_unspooled split: if_splits)
    have rows: "ma_rows ma2 = ma_rows ma @ [\<lparr>rw_record = r, rw_key = Some key, rw_recovered = False, rw_already = map_option (\<lambda>h. ma_bodies ma0 h \<noteq> None) (ac_body_sha r)\<rparr>]"
      using 0 fresh I(4) by (simp add: insert_attempt_rows)
    have "ahead C (cr_id ?run) (s + 1) ma2"
      using I(2,4) 0 rows by (fastforce simp: ahead_def row_number_def)
    moreover obtain att where "av_numbers av = Some (s + 1, att)" using I(6) sent(3) by auto
    ultimately have "in_step C (s + 1) q1 ma2" using ma2 run by (simp add: in_step_def q1_def numbers_def)
    moreover have "archives_each s q ma (s + 1) q1 ma2"
      unfolding archives_each_def rows by (intro exI conjI, rule refl) (simp_all add: q1_def row_number_def 0(2,3))
    ultimately show ?thesis using sent by simp
  qed
  show "left_spooled C (cr_id ?run) key ma'" if res: "res = Inr (DatabaseDown key)" and w: "whole_lines w" for key
  proof -
    have sent: "ma' = ma2" "n = Some (s + 1)" "ar = Uncommitted key" by (rule cases; use res in \<open>auto split: archive_outcome.splits\<close>)+
    then obtain ma0 where 0: "ma_rows ma0 = ma_rows ma1" "ma2 = ma0"
        "append_line C (wo_spooled w) (SpooledLine key (s + 1)) (journal_of ma1 (cr_id ?run)) = (journal_of ma0 (cr_id ?run), True)"
      using A by (auto dest: failure_unspooled split: if_splits)
    obtain lss where "journal_text C lss [] (journal_of ma1 (cr_id ?run))" using I(7) sent(2) w by (auto simp: whole_lines_def)
    note shown = journal_shown [OF C this, of "SpooledLine key (s + 1)"]
    have "wo_spooled w = Whole" using append_line_True [OF 0(3)] w by (simp add: whole_lines_def)
    then have "(s + 1, key) \<in> set (spooled_lines C ma0 (cr_id ?run))" using shown 0(3) by (simp add: spooled_lines_iff)
    then show ?thesis using fresh 0(1,2) sent(1) unfolding left_spooled_def by auto
  qed
qed

section \<open>A whole process\<close>

text \<open>What stops a run without losing anything on the way.\<close>

definition clean_stop :: "run_stop option \<Rightarrow> bool" where
  "clean_stop stop \<longleftrightarrow> (case stop of None \<Rightarrow> True | Some SpoolDown \<Rightarrow> False | Some (DatabaseDown key) \<Rightarrow> False | Some Died \<Rightarrow> False | Some _ \<Rightarrow> True)"

definition stop_of :: "bool + run_stop \<Rightarrow> run_stop option" where
  "stop_of res = (case res of Inl got \<Rightarrow> None | Inr stop \<Rightarrow> Some stop)"

text \<open>What a stretch of requests does, from a requester in step.\<close>

definition stretch :: "archive_codec \<Rightarrow> nat \<Rightarrow> bool \<Rightarrow> requester \<Rightarrow> market_archive \<Rightarrow> requester \<Rightarrow> market_archive \<Rightarrow> run_stop option \<Rightarrow> bool" where
  "stretch C s whole q ma q' ma' stop \<longleftrightarrow> sound_archive C ma' \<and> ma_runs ma' = ma_runs ma \<and> av_run (rq_archiver q') = av_run (rq_archiver q) \<and>
     (clean_stop stop \<longrightarrow> (\<exists>s'. in_step C s' q' ma' \<and> archives_each s q ma s' q' ma')) \<and>
     (\<forall>key. stop = Some (DatabaseDown key) \<and> whole \<longrightarrow> left_spooled C (cr_id (av_run (rq_archiver q))) key ma')"

lemma stretch_refl:
  assumes "in_step C s q ma" and "rq_archiver q' = rq_archiver q" and "rq_made q' = rq_made q" and "clean_stop stop"
  shows "stretch C s whole q ma q' ma stop"
  using assms archives_each_refl [OF assms(3)] by (auto simp: stretch_def in_step_def clean_stop_def)

lemma stretch_trans:
  assumes "in_step C s1 q1 ma1" and "archives_each s q ma s1 q1 ma1" and "ma_runs ma1 = ma_runs ma" and "av_run (rq_archiver q1) = av_run (rq_archiver q)"
    and "stretch C s1 whole q1 ma1 q' ma' stop"
  shows "stretch C s whole q ma q' ma' stop"
  using assms archives_each_trans [OF assms(2) _ assms(4)] unfolding stretch_def by (metis (no_types, lifting))

lemma in_step_failures: "in_step C s (q\<lparr>rq_failures := n\<rparr>) ma \<longleftrightarrow> in_step C s q ma"
  by (simp add: in_step_def)

lemma archives_each_failures: "archives_each s q ma s' (q'\<lparr>rq_failures := n\<rparr>) ma' \<longleftrightarrow> archives_each s q ma s' q' ma'"
  by (simp add: archives_each_def)

lemma after_failure_clean: "after_failure p outcome retry n final = Some e \<Longrightarrow> clean_stop (stop_of e)"
  by (auto simp: after_failure_def clean_stop_def stop_of_def split: if_splits sum.splits option.splits)

lemma fetch_attempts_stretch:
  assumes C: "codec_ok C" and "in_step C s q ma" and "fetch_attempts C date p budget spec left ws q ma = (q', ma', res)"
  shows "stretch C s (list_all (\<lambda>(w, t). whole_lines w) ws) q ma q' ma' (stop_of res)"
  using assms(2-)
proof (induction left arbitrary: ws s q ma)
  case 0
  then show ?case by (auto intro!: stretch_refl simp: clean_stop_def stop_of_def)
next
  case (Suc left)
  show ?case
  proof (cases ws)
    case Nil
    then show ?thesis using Suc.prems by (auto intro!: stretch_refl simp: clean_stop_def stop_of_def)
  next
    case (Cons x xs)
    obtain w now where x: "x = (w, now)" by (cases x)
    obtain q1 ma1 r where m: "make_attempt C budget spec w q ma = (q1, ma1, r)" by (metis prod_cases3)
    note M = make_attempt_sound [OF C Suc.prems(1) m]
    show ?thesis
    proof (cases r)
      case (Inr stop)
      then have e: "q' = q1" "ma' = ma1" "res = Inr stop" using Suc.prems(2) Cons x m by simp_all
      show ?thesis
      proof (cases "stop = BudgetSpent")
        case True
        then have "q1 = q" "ma1 = ma" using M(3) Inr by simp_all
        then show ?thesis using e True stretch_refl [OF Suc.prems(1)] by (simp add: stop_of_def clean_stop_def)
      next
        case False
        then have "\<not> clean_stop (Some stop)" using M(5) Inr by (auto simp: clean_stop_def)
        then show ?thesis using M(1,4) e Inr Cons x by (auto simp: stretch_def stop_of_def)
      qed
    next
      case (Inl outcome)
      note I = M(2) [OF Inl]
      show ?thesis
      proof (cases "outcome = ''ok''")
        case True
        then have e: "q' = q1\<lparr>rq_failures := 0\<rparr>" "ma' = ma1" "res = Inl True" using Suc.prems(2) Cons x m Inl by simp_all
        have "in_step C (s + 1) q' ma' \<and> archives_each s q ma (s + 1) q' ma'"
          unfolding e using I by (simp add: in_step_failures archives_each_failures)
        then show ?thesis using M(1) e unfolding stretch_def by (auto simp: stop_of_def)
      next
        case False
        let ?q2 = "q1\<lparr>rq_failures := rq_failures q1 + 1\<rparr>"
        let ?next = "after_failure p outcome (retry_after_seconds date (ex_retry_after (mx_answer (wo_exchange w))) now) (rq_failures ?q2) (left = 0)"
        have I2: "in_step C (s + 1) ?q2 ma1" "archives_each s q ma (s + 1) ?q2 ma1"
          using I by (simp_all add: in_step_failures archives_each_failures)
        show ?thesis
        proof (cases ?next)
          case (Some e)
          then have e: "q' = ?q2" "ma' = ma1" "res = e" using Suc.prems(2) Cons x m Inl False by (simp_all add: Let_def)
          have "clean_stop (stop_of e)" by (rule after_failure_clean [OF Some])
          then show ?thesis using M(1) I2 e unfolding stretch_def by (auto simp: clean_stop_def)
        next
          case None
          then have "fetch_attempts C date p budget spec left xs ?q2 ma1 = (q', ma', res)"
            using Suc.prems(2) Cons x m Inl False by (simp add: Let_def)
          note IH = Suc.IH [OF I2(1) this]
          have "stretch C s (list_all (\<lambda>(w, t). whole_lines w) xs) q ma q' ma' (stop_of res)"
            by (rule stretch_trans [OF I2 _ _ IH]) (use M(1) in simp_all)
          then show ?thesis using Cons by (auto simp: stretch_def)
        qed
      qed
    qed
  qed
qed

lemma fetch_all_stretch:
  assumes C: "codec_ok C" and "in_step C s q ma" and "fetch_all C date p budget fs q ma = (q', ma', stop)"
  shows "stretch C s (list_all (\<lambda>(spec, n, ws). list_all (\<lambda>(w, t). whole_lines w) ws) fs) q ma q' ma' stop"
  using assms(2-)
proof (induction fs arbitrary: s q ma)
  case Nil
  then show ?case by (auto intro!: stretch_refl simp: clean_stop_def)
next
  case (Cons f fs)
  obtain spec n ws where f: "f = (spec, n, ws)" by (metis prod_cases3)
  obtain q1 ma1 res where a: "fetch_attempts C date p budget spec n ws q ma = (q1, ma1, res)" by (metis prod_cases3)
  note A = fetch_attempts_stretch [OF C Cons.prems(1) a]
  show ?case
  proof (cases res)
    case (Inr e)
    then show ?thesis using A Cons.prems(2) f a by (auto simp: stretch_def stop_of_def)
  next
    case (Inl got)
    then obtain s1 where s1: "in_step C s1 q1 ma1" "archives_each s q ma s1 q1 ma1"
      using A by (auto simp: stretch_def stop_of_def clean_stop_def)
    have "fetch_all C date p budget fs q1 ma1 = (q', ma', stop)" using Cons.prems(2) f a Inl by simp
    note IH = Cons.IH [OF s1(1) this]
    have "stretch C s (list_all (\<lambda>(spec, n, ws). list_all (\<lambda>(w, t). whole_lines w) ws) fs) q ma q' ma' stop"
      by (rule stretch_trans [OF s1 _ _ IH]) (use A in \<open>simp_all add: stretch_def\<close>)
    then show ?thesis using f by (auto simp: stretch_def)
  qed
qed

text \<open>Whatever happens to a process, it only adds rows.\<close>

lemma insert_attempt_grows: "set (ma_rows ma) \<subseteq> set (ma_rows (insert_attempt r key body rec ma))"
  by (auto simp: insert_attempt_rows)

lemma spool_failure_grows: "set (ma_rows ma) \<subseteq> set (ma_rows (fst (spool_failure w run spec n attempt parse ma)))"
  using insert_attempt_grows by (simp add: spool_failure_def Let_def)

lemma archive_attempt_rows: "set (ma_rows ma) \<subseteq> set (ma_rows (fst (archive_attempt C w run spec n attempt outcome parse ma)))"
  using insert_attempt_grows [of "with_journal r t (ma\<lparr>ma_files := f\<rparr>)" for r t f] spool_failure_grows [of "ma\<lparr>ma_files := f\<rparr>" for f]
    spool_failure_grows [of "with_journal r t (ma\<lparr>ma_files := f\<rparr>)" for r t f]
  by (simp add: archive_attempt_def Let_def split: prod.split)

lemma intent_rows: "ma_rows (fst (snd (intent C w key attempt av ma))) = ma_rows ma"
  by (simp add: intent_def Let_def split: prod.split)

lemma make_attempt_rows:
  assumes "make_attempt C budget spec w q ma = (q', ma', res)"
  shows "set (ma_rows ma) \<subseteq> set (ma_rows ma')"
proof -
  obtain av ma1 n where i: "intent C (wo_intent w) (sp_key spec) (next_attempt_no C (sp_key spec) (rq_archiver q) ma) (rq_archiver q) ma = (av, ma1, n)"
    by (metis prod_cases3)
  have ma1: "ma_rows ma1 = ma_rows ma" using intent_rows i by (metis fst_conv snd_conv)
  have "ma' = ma \<or> ma' = ma1 \<or> (\<exists>k outcome parse. ma' = fst (archive_attempt C w (av_run av) spec k (next_attempt_no C (sp_key spec) (rq_archiver q) ma) outcome parse ma1))"
    using assms i by (auto simp: make_attempt_def Let_def split: if_splits option.splits prod.splits archive_outcome.splits) (metis fst_conv)+
  then show ?thesis
  proof (elim disjE exE)
    fix k outcome parse
    assume m: "ma' = fst (archive_attempt C w (av_run av) spec k (next_attempt_no C (sp_key spec) (rq_archiver q) ma) outcome parse ma1)"
    show ?thesis unfolding m ma1 [symmetric] by (rule archive_attempt_rows)
  qed (simp_all add: ma1)
qed

lemma fetch_attempts_rows:
  "fetch_attempts C date p budget spec left ws q ma = (q', ma', res) \<Longrightarrow> set (ma_rows ma) \<subseteq> set (ma_rows ma')"
proof (induction C date p budget spec left ws q ma rule: fetch_attempts.induct)
  case (1 C date p budget spec left w now ws q ma)
  obtain q1 ma1 r where m: "make_attempt C budget spec w q ma = (q1, ma1, r)" by (metis prod_cases3)
  note rows = make_attempt_rows [OF m]
  show ?case
  proof (cases r)
    case (Inr stop)
    then show ?thesis using rows 1(2) m by simp
  next
    case (Inl outcome)
    let ?q2 = "q1\<lparr>rq_failures := rq_failures q1 + 1\<rparr>"
    let ?next = "after_failure p outcome (retry_after_seconds date (ex_retry_after (mx_answer (wo_exchange w))) now) (rq_failures ?q2) (left = 0)"
    show ?thesis
    proof (cases "outcome = ''ok'' \<or> ?next \<noteq> None")
      case True
      then show ?thesis using rows 1(2) m Inl by (auto simp: Let_def split: if_splits)
    next
      case False
      then have "fetch_attempts C date p budget spec left ws ?q2 ma1 = (q', ma', res)" using 1(2) m Inl by (simp add: Let_def)
      then show ?thesis using 1(1) [OF m [symmetric] refl Inl _ refl] False rows by auto
    qed
  qed
qed auto

lemma fetch_all_rows: "fetch_all C date p budget fs q ma = (q', ma', stop) \<Longrightarrow> set (ma_rows ma) \<subseteq> set (ma_rows ma')"
proof (induction fs arbitrary: q ma)
  case (Cons f fs)
  obtain spec n ws where f: "f = (spec, n, ws)" by (metis prod_cases3)
  obtain q1 ma1 res where a: "fetch_attempts C date p budget spec n ws q ma = (q1, ma1, res)" by (metis prod_cases3)
  show ?case using fetch_attempts_rows [OF a] Cons f a by (cases res) auto
qed simp

lemma recovered_in_step:
  assumes C: "codec_ok C" and "sound_archive C ma" and "recover C left ma = (ma', out, Some l)" and "cr_id run \<in> set (ma_runs ma)"
  shows "in_step C (fst (load_numbers C ma' (cr_id run))) (new_requester run) ma'"
proof -
  note R = recover_sound [OF C assms(2,3)]
  let ?s = "fst (load_numbers C ma' (cr_id run))"
  have rows: "snd (row_number row) \<le> ?s" if "row \<in> set (ma_rows ma')" "fst (row_number row) = cr_id run" for row
    unfolding load_numbers_def Let_def fst_conv using that by (intro number_fold_ge) auto
  moreover have "n \<le> ?s" if "(n, key) \<in> set (spooled_lines C ma' (cr_id run))" for n key
  proof -
    have "(cr_id run, n) \<in> row_number ` set (ma_rows ma')"
      by (rule R(4)) (use that assms(4) recovers_lines [OF R(2)] in auto)
    then obtain row where "row \<in> set (ma_rows ma')" "row_number row = (cr_id run, n)" by auto
    then show ?thesis using rows [of row] by simp
  qed
  ultimately show ?thesis using R(1) by (auto simp: in_step_def ahead_def numbers_def new_requester_def)
qed

end
