(* ===== verification/ArchiveHistory.thy ===== *)
theory ArchiveHistory
  imports MarketArchiveFacts
begin

text \<open>
  Every archive that processes, recoveries and their deaths can leave, and what the capture archive promises about all of
  them: rows are evidence, recovery completes, nothing spooled is lost, every request has its row. A concrete codec (digest,
  record and line formats) shows that the hypotheses on the codec can hold.
\<close>

section \<open>Every archive the processes can leave\<close>

definition empty_archive :: market_archive where
  "empty_archive = \<lparr>ma_files = (\<lambda>k. None), ma_journals = [], ma_runs = [], ma_bodies = (\<lambda>h. None), ma_rows = []\<rparr>"

text \<open>Processes follow one another under the capture lock; what each meets, and where each dies, is free.\<close>

inductive archive_step :: "archive_codec \<Rightarrow> market_archive \<Rightarrow> market_archive \<Rightarrow> bool" for C where
  new_run: "run \<notin> set (ma_runs ma) \<Longrightarrow> archive_step C ma (ma\<lparr>ma_runs := run # ma_runs ma\<rparr>)"
| process: "cr_id run \<in> set (ma_runs ma) \<Longrightarrow> capture_process C date p budget left run fs ma = (q, ma', stop) \<Longrightarrow> archive_step C ma ma'"
| recovery: "recover C left ma = (ma', out, l) \<Longrightarrow> archive_step C ma ma'"

inductive archives :: "archive_codec \<Rightarrow> market_archive \<Rightarrow> bool" for C where
  archives_empty: "archives C empty_archive"
| archives_step: "archives C ma \<Longrightarrow> archive_step C ma ma' \<Longrightarrow> archives C ma'"

lemmas archives_run = archives_step [OF _ archive_step.new_run]
lemmas archives_process = archives_step [OF _ archive_step.process]

lemma empty_archive_lines [simp]: "journal_of empty_archive run = []" "spooled_lines C empty_archive run = []"
  by (simp_all add: empty_archive_def journal_of_def spooled_lines_def journal_entries_def List.map_filter_simps)

lemma empty_sound: "sound_archive C empty_archive"
proof -
  have "journal_text C [] [] []" by (simp add: journal_text_def)
  then show ?thesis unfolding sound_archive_def
    by (auto simp: spool_ok_def) (auto simp: empty_archive_def)
qed

lemma runs_sound:
  assumes "sound_archive C ma"
  shows "sound_archive C (ma\<lparr>ma_runs := rs\<rparr>)"
proof -
  have "row_sound C (ma\<lparr>ma_runs := rs\<rparr>) = row_sound C ma" by (simp add: row_sound_def fun_eq_iff cong: option.case_cong)
  moreover have "journal_of (ma\<lparr>ma_runs := rs\<rparr>) = journal_of ma" "spooled_lines C (ma\<lparr>ma_runs := rs\<rparr>) = spooled_lines C ma"
    by (simp_all add: journal_of_def spooled_lines_def fun_eq_iff)
  ultimately show ?thesis using assms by (simp add: sound_archive_def)
qed

text \<open>A process that got past its recovery, from its first request to its stop.\<close>

lemma process_cases:
  assumes C: "codec_ok C" and ma: "sound_archive C ma" and run: "cr_id run \<in> set (ma_runs ma)"
    and p: "capture_process C date p budget left run fs ma = (q, ma', stop)"
  obtains (unrecovered) "stop = Some Died" "sound_archive C ma'" "ma_runs ma' = ma_runs ma"
  | (recovered) ma1 out l where "recover C left ma = (ma1, out, Some l)" "recovers C ma ma1"
      "in_step C (fst (load_numbers C ma1 (cr_id run))) (new_requester run) ma1"
      "stretch C (fst (load_numbers C ma1 (cr_id run))) (list_all (\<lambda>(spec, n, ws). list_all (\<lambda>(w, t). whole_lines w) ws) fs)
         (new_requester run) ma1 q ma' stop"
proof -
  obtain ma1 out l where r: "recover C left ma = (ma1, out, l)" by (metis prod_cases3)
  note R = recover_sound [OF C ma r]
  show thesis
  proof (cases l)
    case None
    with p r have "ma' = ma1" "stop = Some Died" by (simp_all add: capture_process_def)
    then show thesis using R(1,2) by (intro unrecovered) (simp_all add: recovers_def)
  next
    case (Some n)
    with p r have all: "fetch_all C date p budget fs (new_requester run) ma1 = (q, ma', stop)" by (simp add: capture_process_def)
    have rec: "recover C left ma = (ma1, out, Some n)" using r Some by simp
    note I = recovered_in_step [OF C ma rec run]
    show thesis by (rule recovered [OF rec R(2) I fetch_all_stretch [OF C I all]])
  qed
qed

lemma step_sound: "archive_step C ma ma' \<Longrightarrow> codec_ok C \<Longrightarrow> sound_archive C ma \<Longrightarrow> sound_archive C ma'"
proof (induction rule: archive_step.induct)
  case (new_run run ma)
  then show ?case by (intro runs_sound) simp
next
  case (process run ma date p budget left fs q ma' stop)
  from process.prems process.hyps show ?case by (rule process_cases) (auto simp: stretch_def)
next
  case (recovery left ma ma' out l)
  then show ?case using recover_sound(1) by blast
qed

lemma archives_sound: "archives C ma \<Longrightarrow> codec_ok C \<Longrightarrow> sound_archive C ma"
  by (induction rule: archives.induct) (auto intro: empty_sound step_sound)

section \<open>The promises of the archive\<close>

text \<open>C15: a row is evidence. In every archive the processes can leave, a row with a spool key is the record that key
  loads, its body (when it has one) is the body of that record, stored under its own digest; a row without a key says the
  spool failed; and no two rows have the same number in a run.\<close>

theorem archive_keeps_evidence:
  assumes "codec_ok C" and "archives C ma"
  shows "distinct (map row_number (ma_rows ma)) \<and> (\<forall>row \<in> set (ma_rows ma). case rw_key row of
      None \<Rightarrow> ac_outcome (rw_record row) = ''spool_failed'' \<and> ac_body_sha (rw_record row) = None
    | Some key \<Rightarrow> \<exists>body. load_spooled C (ma_files ma) key = Inr (rw_record row, body) \<and>
        map_option (cd_sha C) body = ac_body_sha (rw_record row) \<and>
        (\<forall>h. ac_body_sha (rw_record row) = Some h \<longrightarrow> ma_bodies ma h = body))"
proof -
  have S: "sound_archive C ma" by (rule archives_sound) (use assms in simp_all)
  then have "list_all (row_sound C ma) (ma_rows ma)" by (simp add: sound_archive_def)
  then show ?thesis using S by (fastforce simp: sound_archive_def list_all_iff row_sound_def split: option.splits)
qed

lemma recover_entries_present:
  assumes "\<forall>(n, key) \<in> set es. n \<in> set present"
  shows "\<exists>out'. recover_entries C run left present es ma out = (ma, out', Some left) \<and> ry_recovered out' = ry_recovered out"
  using assms
proof (induction es arbitrary: out)
  case (Cons e es)
  have "\<forall>(n, key) \<in> set es. n \<in> set present" using Cons.prems by simp
  from Cons.IH [OF this, of "out\<lparr>ry_present := ry_present out + 1\<rparr>"] Cons.prems show ?case by (cases e) simp
qed simp

lemma recover_runs_present:
  assumes "\<forall>run \<in> set rs \<inter> set (ma_runs ma). \<forall>(n, key) \<in> set (spooled_lines C ma run). (run, n) \<in> row_number ` set (ma_rows ma)"
  shows "\<exists>out'. recover_runs C left rs ma out = (ma, out', Some left) \<and> ry_recovered out' = ry_recovered out"
  using assms
proof (induction rs arbitrary: out)
  case (Cons run rs)
  let ?present = "map snd (filter (\<lambda>x. fst x = run) (map row_number (ma_rows ma)))"
  have rest: "\<exists>out'. recover_runs C left rs ma out1 = (ma, out', Some left) \<and> ry_recovered out' = ry_recovered out1" for out1
    by (rule Cons.IH) (use Cons.prems in simp)
  show ?case
  proof (cases "spooled_lines C ma run = [] \<or> run \<notin> set (ma_runs ma)")
    case True
    then show ?thesis using rest [of out] rest [of "out\<lparr>ry_orphans := ry_orphans out @ [run]\<rparr>"] by (auto simp: Let_def)
  next
    case False
    have "\<forall>(n, key) \<in> set (spooled_lines C ma run). n \<in> set ?present"
    proof clarify
      fix n key assume "(n, key) \<in> set (spooled_lines C ma run)"
      then have "(run, n) \<in> row_number ` set (ma_rows ma)" using Cons.prems False by auto
      then show "n \<in> set ?present" by (auto simp: image_iff intro!: bexI)
    qed
    from recover_entries_present [OF this, of C run left ma out] obtain out1
      where "recover_entries C run left ?present (spooled_lines C ma run) ma out = (ma, out1, Some left)" "ry_recovered out1 = ry_recovered out"
      by auto
    then show ?thesis using rest [of out1] False by (auto simp: Let_def)
  qed
qed simp

text \<open>C17: recovery completes. From every archive the processes can leave, when the database takes as many rows as there are
  spooled lines, recovery ends with no problem, keeps every row, changes neither the spool nor the journals, and leaves a
  row for every spooled line of a known run; a second recovery then adds nothing, even with no database to write to.\<close>

theorem recovery_completes:
  assumes C: "codec_ok C" and a: "archives C ma"
    and enough: "sum_list (map (\<lambda>run. length (spooled_lines C ma run)) (map fst (ma_journals ma))) \<le> left"
  shows "\<exists>ma' out l. recover C left ma = (ma', out, Some l) \<and> ry_problems out = [] \<and>
    set (ma_rows ma) \<subseteq> set (ma_rows ma') \<and> ma_files ma' = ma_files ma \<and> ma_journals ma' = ma_journals ma \<and>
    (\<forall>run \<in> set (ma_runs ma). \<forall>(n, key) \<in> set (spooled_lines C ma run). (run, n) \<in> row_number ` set (ma_rows ma')) \<and>
    (\<exists>out2. recover C 0 ma' = (ma', out2, Some 0) \<and> ry_recovered out2 = 0)"
proof -
  obtain ma' out l where r: "recover C left ma = (ma', out, l)" by (metis prod_cases3)
  have S: "sound_archive C ma" by (rule archives_sound) (use a C in simp_all)
  note R = recover_sound [OF C S r]
  have l: "l \<noteq> None" by (rule R(5) [OF enough])
  have every: "\<forall>run \<in> set (ma_runs ma). \<forall>(n, key) \<in> set (spooled_lines C ma run). (run, n) \<in> row_number ` set (ma_rows ma')"
    using R(4) [OF l] by blast
  have same: "spooled_lines C ma' = spooled_lines C ma" "ma_runs ma' = ma_runs ma" using R(2) recovers_lines by (auto simp: recovers_def)
  have "\<exists>out2. recover C 0 ma' = (ma', out2, Some 0) \<and> ry_recovered out2 = 0"
    unfolding recover_def using every same
      recover_runs_present [of "sort (map fst (ma_journals ma'))" ma' C 0 "\<lparr>ry_recovered = 0, ry_present = 0, ry_orphans = [], ry_problems = []\<rparr>"]
    by auto
  then show ?thesis using r l R(2,3) every recovers_rows [OF R(2)] by (cases l) (auto simp: recovers_def)
qed

text \<open>Rows are never taken back, and a spooled attempt without a row keeps its line until a recovery brings it back.\<close>

definition comes_back :: "archive_codec \<Rightarrow> string \<Rightarrow> nat \<Rightarrow> string \<Rightarrow> market_archive \<Rightarrow> bool" where
  "comes_back C run n key ma \<longleftrightarrow> sound_archive C ma \<and> run \<in> set (ma_runs ma) \<and>
     ((\<exists>row \<in> set (ma_rows ma). rw_key row = Some key \<and> row_number row = (run, n) \<and> rw_recovered row) \<or>
      (n, key) \<in> set (spooled_lines C ma run) \<and> (run, n) \<notin> row_number ` set (ma_rows ma))"

lemma recover_comes_back:
  assumes C: "codec_ok C" and b: "comes_back C run n key ma" and r: "recover C left ma = (ma', out, l)"
  shows "comes_back C run n key ma'"
    "l \<noteq> None \<Longrightarrow> \<exists>row \<in> set (ma_rows ma'). rw_key row = Some key \<and> row_number row = (run, n) \<and> rw_recovered row"
proof -
  have S: "sound_archive C ma" "run \<in> set (ma_runs ma)" using b by (simp_all add: comes_back_def)
  note R = recover_sound [OF C S(1) r]
  obtain new where new: "ma_rows ma' = ma_rows ma @ new"
    "\<forall>row \<in> set new. rw_recovered row \<and> (\<exists>run n key. rw_key row = Some key \<and> row_number row = (run, n) \<and> (n, key) \<in> set (spooled_lines C ma run))"
    using R(2) by (auto simp: recovers_def)
  have lines: "spooled_lines C ma' run = spooled_lines C ma run" "ma_runs ma' = ma_runs ma"
    using recovers_lines [OF R(2)] R(2) by (simp_all add: recovers_def)
  have brought: "\<exists>row \<in> set (ma_rows ma'). rw_key row = Some key \<and> row_number row = (run, n) \<and> rw_recovered row"
    if line: "(n, key) \<in> set (spooled_lines C ma run)" and none: "(run, n) \<notin> row_number ` set (ma_rows ma)"
      and some: "(run, n) \<in> row_number ` set (ma_rows ma')"
  proof -
    obtain row where row: "row \<in> set (ma_rows ma')" "row_number row = (run, n)" using some by auto
    then have "row \<in> set new" using new(1) none by (auto simp: rev_image_eqI)
    then obtain k where k: "rw_recovered row" "rw_key row = Some k" "(n, k) \<in> set (spooled_lines C ma run)" using new(2) row(2) by auto
    have "k = key" using S(1) k(3) line unfolding sound_archive_def by blast
    then show ?thesis using row k by (intro bexI [of _ row]) simp_all
  qed
  show "comes_back C run n key ma'" using b brought R(1) new(1) lines unfolding comes_back_def by auto
  show "\<exists>row \<in> set (ma_rows ma'). rw_key row = Some key \<and> row_number row = (run, n) \<and> rw_recovered row" if "l \<noteq> None"
    using b brought R(4) [OF that S(2)] new(1) unfolding comes_back_def by auto
qed

lemma recover_rows: "codec_ok C \<Longrightarrow> sound_archive C ma \<Longrightarrow> recover C left ma = (ma', out, l) \<Longrightarrow> set (ma_rows ma) \<subseteq> set (ma_rows ma')"
  using recover_sound(2) recovers_rows by blast

lemma process_rows:
  assumes C: "codec_ok C" and S: "sound_archive C ma" and p: "capture_process C date p budget left run fs ma = (q, ma', stop)"
  obtains ma1 out l where "recover C left ma = (ma1, out, l)" "l = None \<Longrightarrow> ma' = ma1" "set (ma_rows ma1) \<subseteq> set (ma_rows ma')"
proof -
  obtain ma1 out l where r: "recover C left ma = (ma1, out, l)" by (metis prod_cases3)
  show thesis
  proof (cases l)
    case None
    then show thesis using that [OF r] r p by (simp add: capture_process_def)
  next
    case (Some m)
    then have "fetch_all C date p budget fs (new_requester run) ma1 = (q, ma', stop)" using r p by (simp add: capture_process_def)
    then show thesis using that [OF r] Some fetch_all_rows by blast
  qed
qed

lemma step_rows:
  assumes "archive_step C ma ma'" and C: "codec_ok C" and "sound_archive C ma"
  shows "set (ma_rows ma) \<subseteq> set (ma_rows ma')"
  using assms(1,3)
proof (induction rule: archive_step.induct)
  case (process run ma date p budget left fs q ma' stop)
  from C process.prems process.hyps(2) show ?case by (rule process_rows) (use recover_rows [OF C process.prems] in blast)
next
  case (recovery left ma ma' out l)
  then show ?case using recover_rows [OF C] by blast
qed simp

lemma step_runs:
  assumes "archive_step C ma ma'" and C: "codec_ok C" and "sound_archive C ma"
  shows "set (ma_runs ma) \<subseteq> set (ma_runs ma')"
  using assms(1,3)
proof (induction rule: archive_step.induct)
  case (process run ma date p budget left fs q ma' stop)
  from C process.prems process.hyps show ?case by (rule process_cases) (auto simp: stretch_def recovers_def)
next
  case (recovery left ma ma' out l)
  then show ?case using recover_sound(2) [OF C] by (auto simp: recovers_def)
qed auto

lemma step_comes_back:
  assumes "archive_step C ma ma'" and C: "codec_ok C" and "comes_back C run n key ma"
  shows "comes_back C run n key ma'"
  using assms(1,3)
proof (induction rule: archive_step.induct)
  case (new_run r ma)
  then have "sound_archive C (ma\<lparr>ma_runs := r # ma_runs ma\<rparr>)" by (intro runs_sound) (simp add: comes_back_def)
  moreover have "spooled_lines C (ma\<lparr>ma_runs := r # ma_runs ma\<rparr>) run = spooled_lines C ma run" by (simp add: spooled_lines_def journal_of_def)
  ultimately show ?case using new_run.prems by (simp add: comes_back_def)
next
  case (process r ma date p budget left fs q ma' stop)
  have S: "sound_archive C ma" using process.prems by (simp add: comes_back_def)
  have S': "sound_archive C ma'" using step_sound [OF archive_step.process [OF process.hyps] C S] .
  from C S process.hyps(2) show ?case
  proof (rule process_rows)
    fix ma1 out l
    assume r: "recover C left ma = (ma1, out, l)" and none: "l = None \<Longrightarrow> ma' = ma1" and rows: "set (ma_rows ma1) \<subseteq> set (ma_rows ma')"
    note R = recover_comes_back [OF C process.prems r]
    have "run \<in> set (ma_runs ma')" using step_runs [OF archive_step.process [OF process.hyps] C S] process.prems by (auto simp: comes_back_def)
    then show ?thesis using R none rows S' by (cases l) (auto simp: comes_back_def)
  qed
next
  case (recovery left ma ma' out l)
  then show ?case using recover_comes_back(1) [OF C] by blast
qed

text \<open>C16: nothing captured is lost. When a process stops because the database refused the row of a spooled attempt, and the
  file system took the lines of that process whole (it wrote a line or raised, but never wrote less than it was given and
  returned), then, whatever new runs, processes, recoveries and deaths of them follow, any later recovery that completes
  leaves the row of that attempt, from the spool and marked as recovered; and nothing takes that row back.\<close>

theorem uncommitted_recovered:
  assumes C: "codec_ok C" and a: "archives C ma" and run: "cr_id run \<in> set (ma_runs ma)"
    and p: "capture_process C date p budget left run fs ma = (q, ma1, Some (DatabaseDown key))"
    and whole: "list_all (\<lambda>(spec, n, ws). list_all (\<lambda>(w, t). whole_lines w) ws) fs"
    and later: "(archive_step C)\<^sup>*\<^sup>* ma1 ma2" and r: "recover C left2 ma2 = (ma3, out, Some l)"
  shows "\<exists>row. rw_key row = Some key \<and> fst (row_number row) = cr_id run \<and> rw_recovered row \<and>
    row \<in> set (ma_rows ma3) \<and> (\<forall>ma4. (archive_step C)\<^sup>*\<^sup>* ma3 ma4 \<longrightarrow> row \<in> set (ma_rows ma4))"
proof -
  have S: "sound_archive C ma" by (rule archives_sound) (use a C in simp_all)
  from C S run p obtain s ma0 where st: "stretch C s True (new_requester run) ma0 q ma1 (Some (DatabaseDown key))" "ma_runs ma0 = ma_runs ma"
    by (rule process_cases) (use whole in \<open>auto simp: recovers_def\<close>)
  then have S1: "sound_archive C ma1" and left: "left_spooled C (cr_id run) key ma1" and runs: "ma_runs ma1 = ma_runs ma"
    by (simp_all add: stretch_def new_requester_def)
  from left obtain n where "comes_back C (cr_id run) n key ma1" using S1 runs run by (auto simp: left_spooled_def comes_back_def)
  with later have "comes_back C (cr_id run) n key ma2" by (induction rule: rtranclp_induct) (auto intro: step_comes_back [OF _ C])
  note R = recover_comes_back [OF C this r]
  then obtain row where row: "row \<in> set (ma_rows ma3)" "rw_key row = Some key" "row_number row = (cr_id run, n)" "rw_recovered row" by auto
  have S3: "sound_archive C ma3" using R(1) by (simp add: comes_back_def)
  have "sound_archive C ma4 \<and> row \<in> set (ma_rows ma4)" if "(archive_step C)\<^sup>*\<^sup>* ma3 ma4" for ma4
    using that by (induction rule: rtranclp_induct) (use S3 row(1) step_sound [OF _ C] step_rows [OF _ C] in blast)+
  then show ?thesis using row by (intro exI [of _ row]) simp
qed

text \<open>C18: every request of a process that was not stopped by the spool, the database or its death has its own row: after
  its recovery the process appends exactly one row per request it made, each spooled and committed, numbered on from the
  last number of the run without a gap.\<close>

theorem requests_archived:
  assumes C: "codec_ok C" and a: "archives C ma" and run: "cr_id run \<in> set (ma_runs ma)"
    and p: "capture_process C date p budget left run fs ma = (q, ma', stop)" and "clean_stop stop"
  shows "\<exists>s recovered new. ma_rows ma' = ma_rows ma @ recovered @ new \<and> list_all rw_recovered recovered \<and>
    list_all (\<lambda>row. rw_key row \<noteq> None \<and> \<not> rw_recovered row) new \<and>
    map row_number new = map (Pair (cr_id run)) [Suc s..<Suc (s + rq_made q)] \<and>
    (\<forall>row \<in> set (ma_rows ma @ recovered). fst (row_number row) = cr_id run \<longrightarrow> snd (row_number row) \<le> s)"
proof -
  have S: "sound_archive C ma" by (rule archives_sound) (use a C in simp_all)
  from C S run p show ?thesis
  proof (cases rule: process_cases)
    case unrecovered
    then show ?thesis using assms(5) by (simp add: clean_stop_def)
  next
    case (recovered ma1 out l)
    let ?s = "fst (load_numbers C ma1 (cr_id run))"
    obtain rec where rec: "ma_rows ma1 = ma_rows ma @ rec" "list_all rw_recovered rec"
      using recovered(2) by (auto simp: recovers_def list_all_iff)
    obtain s' where s': "archives_each ?s (new_requester run) ma1 s' q ma'" using recovered(4) assms(5) by (auto simp: stretch_def)
    then obtain new where new: "ma_rows ma' = ma_rows ma1 @ new" "rq_made q = length new" "s' = ?s + length new"
      "map row_number new = map (Pair (cr_id run)) [Suc ?s..<Suc s']" "list_all (\<lambda>row. rw_key row \<noteq> None \<and> \<not> rw_recovered row) new"
      by (auto simp: archives_each_def new_requester_def)
    have "\<forall>row \<in> set (ma_rows ma1). fst (row_number row) = cr_id run \<longrightarrow> snd (row_number row) \<le> ?s"
      using recovered(3) by (simp add: in_step_def ahead_def new_requester_def)
    then show ?thesis using rec new by (intro exI [of _ ?s] exI [of _ rec] exI [of _ new]) simp
  qed
qed

section \<open>A codec\<close>

text \<open>A prefix encoding and its decoder: one for each type of a field, put together.\<close>

definition decodes :: "('a \<Rightarrow> string) \<Rightarrow> (string \<Rightarrow> 'a \<times> string) \<Rightarrow> bool" where
  "decodes e d \<longleftrightarrow> (\<forall>x s. d (e x @ s) = (x, s))"

definition enc_nat :: "nat \<Rightarrow> string" where
  "enc_nat n = replicate n CHR ''i'' @ ''j''"

definition dec_nat :: "string \<Rightarrow> nat \<times> string" where
  "dec_nat s = (length (takeWhile (\<lambda>c. c = CHR ''i'') s), tl (dropWhile (\<lambda>c. c = CHR ''i'') s))"

definition enc_pair :: "('a \<Rightarrow> string) \<Rightarrow> ('b \<Rightarrow> string) \<Rightarrow> 'a \<times> 'b \<Rightarrow> string" where
  "enc_pair e f p = e (fst p) @ f (snd p)"

definition dec_pair :: "(string \<Rightarrow> 'a \<times> string) \<Rightarrow> (string \<Rightarrow> 'b \<times> string) \<Rightarrow> string \<Rightarrow> ('a \<times> 'b) \<times> string" where
  "dec_pair d g s = (let (x, s1) = d s; (y, s2) = g s1 in ((x, y), s2))"

definition enc_via :: "('b \<Rightarrow> 'a) \<Rightarrow> ('a \<Rightarrow> string) \<Rightarrow> 'b \<Rightarrow> string" where
  "enc_via f e x = e (f x)"

definition dec_via :: "('a \<Rightarrow> 'b) \<Rightarrow> (string \<Rightarrow> 'a \<times> string) \<Rightarrow> string \<Rightarrow> 'b \<times> string" where
  "dec_via g d s = (let (x, s1) = d s in (g x, s1))"

definition enc_list :: "('a \<Rightarrow> string) \<Rightarrow> 'a list \<Rightarrow> string" where
  "enc_list e xs = enc_nat (length xs) @ concat (map e xs)"

fun dec_times :: "nat \<Rightarrow> (string \<Rightarrow> 'a \<times> string) \<Rightarrow> string \<Rightarrow> 'a list \<times> string" where
  "dec_times 0 d s = ([], s)"
| "dec_times (Suc n) d s = (let (x, s1) = d s; (xs, s2) = dec_times n d s1 in (x # xs, s2))"

definition dec_list :: "(string \<Rightarrow> 'a \<times> string) \<Rightarrow> string \<Rightarrow> 'a list \<times> string" where
  "dec_list d s = (let (n, s1) = dec_nat s in dec_times n d s1)"

definition enc_str :: "string \<Rightarrow> string" where
  "enc_str = enc_list (\<lambda>c. [c])"

definition dec_str :: "string \<Rightarrow> string \<times> string" where
  "dec_str = dec_list (\<lambda>s. (hd s, tl s))"

definition enc_opt :: "('a \<Rightarrow> string) \<Rightarrow> 'a option \<Rightarrow> string" where
  "enc_opt e = enc_via (\<lambda>x. case x of None \<Rightarrow> [] | Some y \<Rightarrow> [y]) (enc_list e)"

definition dec_opt :: "(string \<Rightarrow> 'a \<times> string) \<Rightarrow> string \<Rightarrow> 'a option \<times> string" where
  "dec_opt d = dec_via (\<lambda>xs. case xs of [] \<Rightarrow> None | y # ys \<Rightarrow> Some y) (dec_list d)"

definition enc_int :: "int \<Rightarrow> string" where
  "enc_int = enc_via (\<lambda>i. (nat i, nat (- i))) (enc_pair enc_nat enc_nat)"

definition dec_int :: "string \<Rightarrow> int \<times> string" where
  "dec_int = dec_via (\<lambda>(m, n). int m - int n) (dec_pair dec_nat dec_nat)"

lemma decodes_nat [intro]: "decodes enc_nat dec_nat"
proof -
  have "takeWhile (\<lambda>c. c = CHR ''i'') (replicate n CHR ''i'' @ CHR ''j'' # s) = replicate n CHR ''i''"
    and "dropWhile (\<lambda>c. c = CHR ''i'') (replicate n CHR ''i'' @ CHR ''j'' # s) = CHR ''j'' # s" for n s
    by (induction n) simp_all
  then show ?thesis by (simp add: decodes_def enc_nat_def dec_nat_def)
qed

lemma decodes_pair [intro]: "decodes e d \<Longrightarrow> decodes f g \<Longrightarrow> decodes (enc_pair e f) (dec_pair d g)"
  by (simp add: decodes_def enc_pair_def dec_pair_def)

lemma decodes_via: "decodes e d \<Longrightarrow> (\<And>x. g (f x) = x) \<Longrightarrow> decodes (enc_via f e) (dec_via g d)"
  by (simp add: decodes_def enc_via_def dec_via_def)

lemma decodes_list [intro]:
  assumes "decodes e d"
  shows "decodes (enc_list e) (dec_list d)"
proof -
  have "dec_times (length xs) d (concat (map e xs) @ s) = (xs, s)" for xs s
    using assms by (induction xs) (simp_all add: decodes_def)
  then show ?thesis using decodes_nat by (simp add: decodes_def enc_list_def dec_list_def)
qed

lemma decodes_str [intro]: "decodes enc_str dec_str"
  unfolding enc_str_def dec_str_def by (rule decodes_list) (simp add: decodes_def)

lemma decodes_opt [intro]: "decodes e d \<Longrightarrow> decodes (enc_opt e) (dec_opt d)"
  unfolding enc_opt_def dec_opt_def by (rule decodes_via) (auto split: option.splits)

lemma decodes_int [intro]: "decodes enc_int dec_int"
  unfolding enc_int_def dec_int_def by (rule decodes_via) auto

lemmas decoders = decodes_pair decodes_list decodes_str decodes_opt decodes_int decodes_nat

text \<open>The record of an attempt, in five parts.\<close>

definition enc_run :: "capture_run \<Rightarrow> string" where
  "enc_run = enc_via (\<lambda>r. [cr_id r, cr_date r, cr_mode r, cr_agent r]) (enc_list enc_str)"

definition dec_run :: "string \<Rightarrow> capture_run \<times> string" where
  "dec_run = dec_via (\<lambda>xs. \<lparr>cr_id = xs ! 0, cr_date = xs ! 1, cr_mode = xs ! 2, cr_agent = xs ! 3\<rparr>) (dec_list dec_str)"

abbreviation enc_strs :: "(string \<times> string) list \<Rightarrow> string" where
  "enc_strs \<equiv> enc_list (enc_pair enc_str enc_str)"

abbreviation dec_strs :: "string \<Rightarrow> (string \<times> string) list \<times> string" where
  "dec_strs \<equiv> dec_list (dec_pair dec_str dec_str)"

definition enc_spec :: "request_spec \<Rightarrow> string" where
  "enc_spec = enc_via (\<lambda>r. ([sp_key r, sp_purpose r, sp_endpoint r, sp_method r], sp_params r, sp_symbol r))
     (enc_pair (enc_list enc_str) (enc_pair enc_strs (enc_opt enc_str)))"

definition dec_spec :: "string \<Rightarrow> request_spec \<times> string" where
  "dec_spec = dec_via (\<lambda>(xs, ps, y). \<lparr>sp_key = xs ! 0, sp_purpose = xs ! 1, sp_endpoint = xs ! 2, sp_method = xs ! 3, sp_params = ps, sp_symbol = y\<rparr>)
     (dec_pair (dec_list dec_str) (dec_pair dec_strs (dec_opt dec_str)))"

definition enc_head :: "sent_request \<Rightarrow> string" where
  "enc_head = enc_via (\<lambda>r. (hd_url r, (hd_headers r, hd_requested_at r), (hd_observed_at r, hd_elapsed r), hd_response_headers r, hd_removed r))
     (enc_pair enc_str (enc_pair (enc_pair enc_strs enc_int) (enc_pair (enc_pair (enc_opt enc_int) (enc_opt enc_int))
       (enc_pair (enc_opt enc_strs) (enc_list enc_str)))))"

definition dec_head :: "string \<Rightarrow> sent_request \<times> string" where
  "dec_head = dec_via (\<lambda>(u, (hs, t), (t1, n), rs, ms). \<lparr>hd_url = u, hd_headers = hs, hd_requested_at = t, hd_observed_at = t1, hd_elapsed = n,
       hd_response_headers = rs, hd_removed = ms\<rparr>)
     (dec_pair dec_str (dec_pair (dec_pair dec_strs dec_int) (dec_pair (dec_pair (dec_opt dec_int) (dec_opt dec_int))
       (dec_pair (dec_opt dec_strs) (dec_list dec_str)))))"

definition enc_attempt :: "attempt_record \<Rightarrow> string" where
  "enc_attempt = enc_via (\<lambda>r. (ac_run r, ac_spec r, (ac_seq r, ac_attempt r), ac_head r, (ac_outcome r, ac_status r), ac_body_bytes r,
       [ac_body_sha r, ac_body_key r, ac_parse r, ac_error r]))
     (enc_pair enc_run (enc_pair enc_spec (enc_pair (enc_pair enc_nat enc_nat) (enc_pair enc_head (enc_pair (enc_pair enc_str (enc_opt enc_int))
       (enc_pair (enc_opt enc_nat) (enc_list (enc_opt enc_str))))))))"

definition dec_attempt :: "string \<Rightarrow> attempt_record \<times> string" where
  "dec_attempt = dec_via (\<lambda>(run, spec, (n, a), h, (x, st), bytes, ys). \<lparr>ac_run = run, ac_spec = spec, ac_seq = n, ac_attempt = a, ac_head = h,
       ac_outcome = x, ac_status = st, ac_body_sha = ys ! 0, ac_body_bytes = bytes, ac_body_key = ys ! 1, ac_parse = ys ! 2, ac_error = ys ! 3\<rparr>)
     (dec_pair dec_run (dec_pair dec_spec (dec_pair (dec_pair dec_nat dec_nat) (dec_pair dec_head (dec_pair (dec_pair dec_str (dec_opt dec_int))
       (dec_pair (dec_opt dec_nat) (dec_list (dec_opt dec_str))))))))"

lemma decodes_attempt: "decodes enc_attempt dec_attempt"
proof -
  have run: "decodes enc_run dec_run" unfolding enc_run_def dec_run_def by (rule decodes_via, intro decoders) simp
  have spec: "decodes enc_spec dec_spec" unfolding enc_spec_def dec_spec_def by (rule decodes_via, intro decoders) simp
  have head: "decodes enc_head dec_head" unfolding enc_head_def dec_head_def by (rule decodes_via, intro decoders) simp
  show ?thesis unfolding enc_attempt_def dec_attempt_def by (rule decodes_via, intro decoders run spec head) simp
qed

section \<open>Digests and lines\<close>

text \<open>The digest writes the characters that a key or a line cannot hold as two others.\<close>

definition escapes :: "(char \<times> char) list" where
  "escapes = zip [CHR ''/'', CHR ''.'', CHR ''{'', CHR ''}'', CHR ''a'', CHR '' '', CHR 0x09, CHR 0x0A, CHR 0x0B, CHR 0x0C, CHR 0x0D, CHR 0x1C,
     CHR 0x1D, CHR 0x1E, CHR 0x1F, CHR 0x85, CHR 0xA0] ''bcdefghijklmnopqr''"

definition escape_char :: "char \<Rightarrow> string" where
  "escape_char c = (case map_of escapes c of None \<Rightarrow> [c] | Some k \<Rightarrow> [CHR ''a'', k])"

definition escape :: "string \<Rightarrow> string" where
  "escape s = concat (map escape_char s)"

fun unescape :: "string \<Rightarrow> string" where
  "unescape [] = []"
| "unescape [c] = [c]"
| "unescape (c # k # s) =
     (if c = CHR ''a'' then (case map_of (map prod.swap escapes) k of None \<Rightarrow> [] | Some x \<Rightarrow> [x]) @ unescape s else c # unescape (k # s))"

lemma escape_char_cases: "(map_of escapes c = None \<and> escape_char c = [c] \<and> c \<notin> set (map fst escapes)) \<or>
    (\<exists>k. escape_char c = [CHR ''a'', k] \<and> (c, k) \<in> set escapes)"
proof (cases "map_of escapes c")
  case None
  then have "escape_char c = [c]" by (simp only: escape_char_def option.case)
  then show ?thesis using None by (simp add: map_of_eq_None_iff)
next
  case (Some k)
  then show ?thesis using map_of_SomeD [OF Some] by (simp add: escape_char_def)
qed

lemma escapes_back: "(c, k) \<in> set escapes \<Longrightarrow> map_of (map prod.swap escapes) k = Some c"
proof -
  have "list_all (\<lambda>(c, k). map_of (map prod.swap escapes) k = Some c) escapes" by code_simp
  then show "(c, k) \<in> set escapes \<Longrightarrow> map_of (map prod.swap escapes) k = Some c" by (auto simp: list_all_iff)
qed

lemma escapes_plain: "(c, k) \<in> set escapes \<Longrightarrow> k \<in> set ''bcdefghijklmnopqr''"
  unfolding escapes_def by (rule set_zip_rightD)

lemma unescape_escape [simp]: "unescape (escape s) = s"
proof (induction s)
  case (Cons c s)
  have split: "escape (c # s) = escape_char c @ escape s" by (simp add: escape_def)
  have a: "CHR ''a'' \<in> set (map fst escapes)" by (simp add: escapes_def)
  consider (plain) "escape_char c = [c]" "c \<notin> set (map fst escapes)" | (code) k where "escape_char c = [CHR ''a'', k]" "(c, k) \<in> set escapes"
    using escape_char_cases by blast
  then show ?case
  proof cases
    case plain
    then have "c \<noteq> CHR ''a''" using a by auto
    then have "unescape (c # t) = c # unescape t" for t by (cases t) auto
    then show ?thesis using plain split Cons by simp
  next
    case code
    then show ?thesis using split Cons escapes_back by simp
  qed
qed (simp add: escape_def)

definition plain_char :: "char \<Rightarrow> bool" where
  "plain_char c \<longleftrightarrow> c \<notin> set ''/.{}'' \<and> \<not> is_space c"

lemma escape_plain: "c \<in> set (escape s) \<Longrightarrow> plain_char c"
proof -
  have "plain_char c" if c: "c \<in> set (escape_char x)" for x
  proof -
    consider (plain) "escape_char x = [x]" "x \<notin> set (map fst escapes)" | (code) k where "escape_char x = [CHR ''a'', k]" "(x, k) \<in> set escapes"
      using escape_char_cases by blast
    then show ?thesis
    proof cases
      case plain
      then have "c \<notin> set (map fst escapes)" using c by simp
      then show ?thesis by (simp add: plain_char_def is_space_def escapes_def)
    next
      case code
      then have "c = CHR ''a'' \<or> c \<in> set ''bcdefghijklmnopqr''" using c escapes_plain [OF code(2)] by auto
      then show ?thesis by (auto simp: plain_char_def is_space_def)
    qed
  qed
  then show "c \<in> set (escape s) \<Longrightarrow> plain_char c" by (auto simp: escape_def)
qed

definition enc_entry :: "journal_entry \<Rightarrow> string" where
  "enc_entry = enc_via (\<lambda>e. case e of IntentLine key a n \<Rightarrow> ([n, a], key) | SpooledLine key n \<Rightarrow> ([n], key)) (enc_pair (enc_list enc_nat) enc_str)"

definition dec_entry :: "string \<Rightarrow> journal_entry \<times> string" where
  "dec_entry = dec_via (\<lambda>(ns, key). case ns of [n, a] \<Rightarrow> IntentLine key a n | _ \<Rightarrow> SpooledLine key (hd ns)) (dec_pair (dec_list dec_nat) dec_str)"

lemma decodes_entry: "decodes enc_entry dec_entry"
  unfolding enc_entry_def dec_entry_def by (rule decodes_via) (auto split: journal_entry.splits)

definition sample_line :: "journal_entry \<Rightarrow> string" where
  "sample_line e = CHR ''{'' # escape (enc_entry e) @ ''}''"

definition sample_parse :: "string \<Rightarrow> journal_entry option" where
  "sample_parse l = (case l of [] \<Rightarrow> None
     | c # r \<Rightarrow> if c = CHR ''{'' \<and> CHR ''{'' \<notin> set r \<and> r \<noteq> [] \<and> last r = CHR ''}'' then Some (fst (dec_entry (unescape (butlast r)))) else None)"

definition sample_codec :: archive_codec where
  "sample_codec = \<lparr>cd_sha = escape, cd_record = enc_attempt, cd_parse_record = (\<lambda>s. Some (fst (dec_attempt s))),
     cd_line = sample_line, cd_parse_line = sample_parse, cd_loads = (\<lambda>s. Some (JObj []))\<rparr>"

lemma strip_plain: "list_all (\<lambda>c. \<not> is_space c) s \<Longrightarrow> strip s = s"
proof -
  have drop: "list_all (\<lambda>c. \<not> is_space c) t \<Longrightarrow> dropWhile is_space t = t" for t by (cases t) auto
  show "list_all (\<lambda>c. \<not> is_space c) s \<Longrightarrow> strip s = s" by (simp add: strip_def drop list_all_iff)
qed

lemma sample_line_chars: "list_all (\<lambda>c. \<not> is_space c) (sample_line e)"
  using escape_plain [of _ "enc_entry e"] by (auto simp: sample_line_def list_all_iff plain_char_def is_space_def)

lemma sample_piece:
  assumes "piece sample_codec p"
  obtains p' where "p = CHR ''{'' # p'" and "list_all (\<lambda>c. \<not> is_space c) p"
proof -
  from assms obtain e s where p: "p \<noteq> []" "sample_line e = p @ s" by (auto simp: piece_def sample_codec_def)
  then obtain c p' where c: "p = c # p'" by (cases p) auto
  then have "c = CHR ''{''" using p by (simp add: sample_line_def)
  moreover have "list_all (\<lambda>c. \<not> is_space c) p" using sample_line_chars [of e] p(2) by simp
  ultimately show thesis using that c by simp
qed

lemma sample_codec_ok: "codec_ok sample_codec"
  unfolding codec_ok_def
proof (intro conjI allI impI)
  show "inj (cd_sha sample_codec)" by (rule inj_on_inverseI [of _ unescape]) (simp add: sample_codec_def)
  show "CHR ''/'' \<notin> set (cd_sha sample_codec x)" "CHR ''.'' \<notin> set (cd_sha sample_codec x)" for x
    using escape_plain [of _ x] by (auto simp: sample_codec_def plain_char_def)
  have "dec_attempt (enc_attempt r) = (r, [])" for r using decodes_attempt unfolding decodes_def by (metis append_Nil2)
  then show "cd_parse_record sample_codec (cd_record sample_codec r) = Some r" for r by (simp add: sample_codec_def)
  have "dec_entry (enc_entry e) = (e, [])" for e using decodes_entry unfolding decodes_def by (metis append_Nil2)
  moreover have "CHR ''{'' \<notin> set (escape s)" for s using escape_plain [of "CHR ''{''" s] by (auto simp: plain_char_def)
  ultimately have "sample_parse (sample_line e) = Some e" for e by (simp add: sample_parse_def sample_line_def butlast_append)
  moreover have "newline \<notin> set (sample_line e)" for e using sample_line_chars [of e] by (auto simp: list_all_iff newline_def is_space_def)
  moreover have "sample_line e \<noteq> []" for e by (simp add: sample_line_def)
  ultimately show "plain_line sample_codec e" for e by (simp add: plain_line_def sample_codec_def strip_plain sample_line_chars)
  show "parse_entry sample_codec p = None" if l: "cd_line sample_codec e = p @ s \<and> s \<noteq> []" for e p s
  proof (cases p)
    case (Cons c r)
    have line: "sample_line e = p @ s" "s \<noteq> []" using l by (simp_all add: sample_codec_def)
    then have "strip p = p" using sample_line_chars [of e] by (intro strip_plain) simp
    moreover have "escape (enc_entry e) @ ''}'' = r @ s" using line Cons by (simp add: sample_line_def)
    then have "butlast (escape (enc_entry e) @ ''}'') = butlast (r @ s)" by simp
    then have "escape (enc_entry e) = r @ butlast s" using line(2) by (simp add: butlast_append)
    then have "set r \<subseteq> set (escape (enc_entry e))" by simp
    then have "CHR ''}'' \<notin> set r" using escape_plain [of "CHR ''}''" "enc_entry e"] by (auto simp: plain_char_def)
    then have "\<not> (r \<noteq> [] \<and> last r = CHR ''}'')" by (metis last_in_set)
    then have "sample_parse p = None" using Cons by (simp add: sample_parse_def)
    ultimately show ?thesis by (simp add: parse_entry_def sample_codec_def)
  qed simp
  show "parse_entry sample_codec (p @ q @ concat ps) = None" if m: "piece sample_codec p \<and> piece sample_codec q \<and> list_all (piece sample_codec) ps" for p q ps
  proof -
    obtain p' where p: "p = CHR ''{'' # p'" "list_all (\<lambda>c. \<not> is_space c) p" using m sample_piece [of p] by blast
    obtain q' where q: "q = CHR ''{'' # q'" "list_all (\<lambda>c. \<not> is_space c) q" using m sample_piece [of q] by blast
    have "list_all (\<lambda>c. \<not> is_space c) x" if "piece sample_codec x" for x using sample_piece [OF that] by blast
    then have "list_all (\<lambda>c. \<not> is_space c) (concat ps)" using m by (auto simp: list_all_iff)
    then have "strip (p @ q @ concat ps) = p @ q @ concat ps" using p q by (intro strip_plain) simp
    moreover have "sample_parse (p @ q @ concat ps) = None" using p q by (simp add: sample_parse_def)
    ultimately show ?thesis by (simp add: parse_entry_def sample_codec_def)
  qed
qed

section \<open>Samples\<close>

definition sample_run :: capture_run where
  "sample_run = \<lparr>cr_id = ''r'', cr_date = [], cr_mode = [], cr_agent = []\<rparr>"

definition sample_spec :: request_spec where
  "sample_spec = \<lparr>sp_key = ''k'', sp_purpose = [], sp_endpoint = ''companyInfoSummery'', sp_method = [], sp_params = [], sp_symbol = None\<rparr>"

definition sample_market_exchange :: market_exchange where
  "sample_market_exchange = \<lparr>mx_head = \<lparr>hd_url = [], hd_headers = [], hd_requested_at = 0, hd_observed_at = None, hd_elapsed = None,
     hd_response_headers = None, hd_removed = []\<rparr>,
     mx_answer = \<lparr>ex_error_kind = None, ex_status = Some 200, ex_body = Some ''x'', ex_retry_after = None\<rparr>, mx_error = None\<rparr>"

definition sample_world :: "bool \<Rightarrow> archive_world" where
  "sample_world row = \<lparr>wo_intent = Whole, wo_dies = False, wo_exchange = sample_market_exchange, wo_body = Stored, wo_record = Stored,
     wo_spooled = Whole, wo_row = row, wo_failed_row = row\<rparr>"

definition sample_process :: "bool \<Rightarrow> market_archive \<Rightarrow> requester \<times> market_archive \<times> run_stop option" where
  "sample_process row = capture_process sample_codec (\<lambda>s. None) \<lparr>po_min_interval = 1500000, po_backoff_base = 1000000, po_backoff_max = 1000000, po_retry_after_max = 1, po_max_failures = 1\<rparr>
     None 9 sample_run [(sample_spec, 1, [(sample_world row, 0)])]"

definition sample_archive :: market_archive where
  "sample_archive = empty_archive\<lparr>ma_runs := [''r'']\<rparr>"

definition refused_archive :: market_archive where
  "refused_archive = fst (snd (sample_process False sample_archive))"

definition captured_archive :: market_archive where
  "captured_archive = fst (snd (sample_process True sample_archive))"

lemma sample_archives: "archives sample_codec sample_archive"
  using archives_run [OF archives_empty, of "''r''" sample_codec] by (simp add: sample_archive_def empty_archive_def)

lemma sample_known: "cr_id sample_run \<in> set (ma_runs sample_archive)"
  by (simp add: sample_run_def sample_archive_def)

lemma sample_process_split: "sample_process row ma = (fst (sample_process row ma), fst (snd (sample_process row ma)), snd (snd (sample_process row ma)))"
  by simp

lemma captured_archives: "archives sample_codec captured_archive"
  using archives_process [OF sample_archives sample_known sample_process_split [of True sample_archive, unfolded sample_process_def]]
  by (simp add: captured_archive_def sample_process_def)

lemma refused_archives: "archives sample_codec refused_archive"
  using archives_process [OF sample_archives sample_known sample_process_split [of False sample_archive, unfolded sample_process_def]]
  by (simp add: refused_archive_def sample_process_def)

lemma captured_row: "list_all (\<lambda>row. rw_key row \<noteq> None \<and> ac_body_sha (rw_record row) = Some ''x'') (ma_rows captured_archive) \<and> length (ma_rows captured_archive) = 1"
  by code_simp

text \<open>Rows enough for every spooled line.\<close>

definition refused_lines :: nat where
  "refused_lines = sum_list (map (\<lambda>run. length (spooled_lines sample_codec refused_archive run)) (map fst (ma_journals refused_archive)))"

section \<open>The promises on the samples\<close>

theorem archive_keeps_evidence_witness:
  "\<exists>row body. ma_rows captured_archive = [row] \<and> rw_key row \<noteq> None \<and> ac_body_sha (rw_record row) = Some ''x'' \<and>
    load_spooled sample_codec (ma_files captured_archive) (the (rw_key row)) = Inr (rw_record row, Some body) \<and> ma_bodies captured_archive ''x'' = Some body"
proof -
  obtain row where row: "ma_rows captured_archive = [row]" "rw_key row \<noteq> None" "ac_body_sha (rw_record row) = Some ''x''"
    using captured_row by (cases "ma_rows captured_archive") auto
  from archive_keeps_evidence [OF sample_codec_ok captured_archives] row show ?thesis by auto
qed

theorem recovery_completes_witness:
  "\<exists>ma' out l. recover sample_codec refused_lines refused_archive = (ma', out, Some l) \<and> ry_problems out = [] \<and>
    (\<exists>out2. recover sample_codec 0 ma' = (ma', out2, Some 0) \<and> ry_recovered out2 = 0)"
  using recovery_completes [OF sample_codec_ok refused_archives eq_refl [OF refused_lines_def [symmetric]]] by blast

lemma refused_stop: "\<exists>key. snd (snd (sample_process False sample_archive)) = Some (DatabaseDown key)"
proof -
  have "(case snd (snd (sample_process False sample_archive)) of Some (DatabaseDown key) \<Rightarrow> True | _ \<Rightarrow> False)" by code_simp
  then show ?thesis by (auto split: option.splits run_stop.splits)
qed

lemma refused_recovered: "\<exists>ma' out l. recover sample_codec refused_lines refused_archive = (ma', out, Some l)"
  using recover_sound(5) [OF sample_codec_ok archives_sound [OF refused_archives sample_codec_ok] _ eq_refl [OF refused_lines_def [symmetric]]] by (metis prod_cases3 not_Some_eq)

theorem uncommitted_recovered_witness:
  "\<exists>ma' out l. recover sample_codec refused_lines refused_archive = (ma', out, Some l) \<and> (\<exists>row \<in> set (ma_rows ma'). rw_key row \<noteq> None \<and> fst (row_number row) = ''r'' \<and> rw_recovered row)"
proof -
  obtain key where stop: "snd (snd (sample_process False sample_archive)) = Some (DatabaseDown key)" using refused_stop by blast
  have p: "sample_process False sample_archive = (fst (sample_process False sample_archive), refused_archive, Some (DatabaseDown key))"
    using stop by (metis prod.collapse refused_archive_def)
  obtain ma' out l where r: "recover sample_codec refused_lines refused_archive = (ma', out, Some l)" using refused_recovered by blast
  have "list_all (\<lambda>(spec, n, ws). list_all (\<lambda>(w, t). whole_lines w) ws) [(sample_spec, 1, [(sample_world False, 0)])]"
    by (simp add: whole_lines_def sample_world_def)
  from uncommitted_recovered [OF sample_codec_ok sample_archives sample_known p [unfolded sample_process_def] this rtranclp.rtrancl_refl r]
  show ?thesis using r by (fastforce simp: sample_run_def)
qed

lemma sample_rows: "ma_rows sample_archive = []"
  by (simp add: sample_archive_def empty_archive_def)

lemma captured_stop: "snd (snd (sample_process True sample_archive)) = None \<and> rq_made (fst (sample_process True sample_archive)) = 1"
  by code_simp

theorem requests_archived_witness:
  "\<exists>recovered new. ma_rows (fst (snd (sample_process True sample_archive))) = recovered @ new \<and>
    list_all rw_recovered recovered \<and> list_all (\<lambda>row. rw_key row \<noteq> None \<and> \<not> rw_recovered row) new \<and> length new = 1"
proof -
  have p: "sample_process True sample_archive = (fst (sample_process True sample_archive), fst (snd (sample_process True sample_archive)), None)"
    using captured_stop by (metis prod.collapse)
  have clean: "clean_stop None" by (simp add: clean_stop_def)
  obtain s recovered new where n: "ma_rows (fst (snd (sample_process True sample_archive))) = recovered @ new"
      "list_all rw_recovered recovered" "list_all (\<lambda>row. rw_key row \<noteq> None \<and> \<not> rw_recovered row) new"
      "map row_number new = map (Pair (cr_id sample_run)) [Suc s..<Suc (s + rq_made (fst (sample_process True sample_archive)))]"
    using sample_rows requests_archived [OF sample_codec_ok sample_archives sample_known p [unfolded sample_process_def] clean] unfolding sample_process_def by auto
  have "length new = length (map row_number new)" by simp
  also have "\<dots> = 1" unfolding n(4) using captured_stop by simp
  finally show ?thesis using n(1,2,3) by blast
qed

end
