(* ===== verification/Spec2Isabelle.thy ===== *)
theory Spec2Isabelle
  imports Diagnostics BatchFacts AdmissionFacts DiscoveryStore AvailabilityFacts SupersessionFacts PitFacts SchedulerFacts
    LifecycleFacts Throttle TransportSamples DailyFacts CaptureState
    FiguresFacts HoldFacts ClosureSamples DocumentPlanning ArchiveHistory
begin

text \<open>
  A verification development of the Colombo Stock Exchange (CSE) financial platform: the decision logic of the Python
  code under \<open>src/worker\<close>, translated definition by definition, and the theorems that make it correct.

  \<^bold>\<open>The program.\<close> The platform discovers the financial reports CSE publishes (F1), retrieves and reads their PDF documents
  (F2 to F5), validates every number it read (F6.1), reconciles the numbers of all documents into economic facts (F6.3)
  and answers what was known, and what was available, at any past time (F8). A scheduler (P3) captures the daily market
  data through P2. A governed transport fetches historical reports in slices, under an owner decision, recording every
  request in a ledger of work items. The parts share the archive: F6.3 reads what F6.1 passed, F8 reads the listing
  versions of F1 and the observations of F6.3, the transport classifies an answer with the readers of F1 and keeps clear
  of the captures of P3.

  \<^bold>\<open>Shared theories.\<close> Prelude holds exceptions as values (\<open>res\<close>, \<open>bindR\<close>, \<open>guardR\<close>) and Python's list idioms; Calendar dates,
  instants (microseconds) and Colombo days; Decimals exact \<open>decimal.Decimal\<close> values with the 80-digit context of
  \<open>financial_truth/arith.py\<close>, and the silent rounding of the default 28-digit context; Text Unicode text as code points.

  \<^bold>\<open>F6.1 validation\<close> (\<open>financial_concepts.py\<close>, \<open>financial_validation.py\<close>): Concepts, Validation (the interface between a printed
  value and the rules that compare printed values, a locale; \<open>validate_period\<close>,
  \<open>normalize_value\<close>, \<open>compare_values\<close>, \<open>validate_candidate\<close>), Diagnostics (the arithmetic checks of a run). ValidationFacts
  shows when a candidate is eligible, that a normalised value is exact, that two values agree exactly when their printed
  intervals meet, and where 28 digits break that.

  \<^bold>\<open>F6.3 economic facts\<close> (\<open>financial_truth/\<close>): Canonical, Inputs, Identity, OP1, Admission, Observations, Reconcile, in the
  order of the modules. The facts theories show that keys identify identities, that a candidate is admitted only with all
  its evidence, that a passing operations partition adds up, that a source observation and a reconciled fact conclude
  (a conflict exactly when two readings differ, otherwise the common part of the printed intervals), that one run per
  document is chosen, and that a batch accounts for every observation once.

  \<^bold>\<open>F1 discovery\<close> (\<open>report_discovery.py\<close>): Listing (one entry, sources, precedence), Discovery (the store, responses, the
  runs). DiscoveryFacts and DiscoveryStore show that every stored row is the merge of the current versions of its sources
  in every reachable store, that rediscovery changes nothing, and that windows cover their range.

  \<^bold>\<open>F8 as-of queries\<close> (\<open>financial_asof/\<close>): AsofModel, Availability, Knowledge, Supersession, AsofQuery, AsofSelection,
  AsofEvaluate. Horizon states the interface \<open>horizon_rule\<close> (a rule that at a horizon reads only rows recorded by then),
  which every rule up to the evaluation of a query is an instance of (HorizonFacts). AsofFacts and PitFacts show that a
  result never depends on later rows, that everything it shows was known and available as its mode demands, and that only
  re-proved point-in-time results pass the point-in-time interface.

  \<^bold>\<open>P3 scheduler\<close> (\<open>scheduler/\<close>): Schedule (settings, moments, retries), Planner (what archived runs prove, the decision for
  a date), Wakeup (one wake-up on the store of work items, as its committed writes and its calls of P2 in their order, so
  that it may end after any of them). Planner, WakeupFacts and SchedulerFacts show, over every history of wake-ups,
  interrupted ones included, and operator actions, how often and when CSE is contacted for a date and that no call of P2
  goes unrecorded, that one wake-up captures at most one item and only through every gate, that a closed window settles an
  item and that no weekday is forgotten.

  \<^bold>\<open>Backfill work items\<close> (\<open>financial_backfill/states.py\<close>, \<open>store.py\<close>, \<open>backfill_transport/recovery.py\<close>): Lifecycle is the
  transition table and the ledger as a record of items, attempts, outcomes, blocks and leases; LifecycleFacts shows that
  a document with stored evidence is never requested again and that the expiry of a dead slice closes exactly what it
  left open.

  \<^bold>\<open>The governed transport\<close> (\<open>backfill_transport/\<close>, with the throttle, Retry-After and request policy of \<open>market_capture/\<close>):
  Gates (\<open>gates.py\<close>), Throttle (\<open>throttle.py\<close>), Exchange (\<open>classify.py\<close>), Slice (\<open>slice.py\<close>, \<open>requester.py\<close>) and Opening
  (\<open>open_slice\<close>). A request is a function of the slice and of the world's answers at each attempt (the reading of
  PostgreSQL, the exchange, whether journal, spool and commit succeed); it returns its trace of intents, sends and
  recorded outcomes. SliceFacts and SliceRuns show that every send was admitted under the decision in force, that a whole
  slice stays within its requests and its failures in a row and falls silent after a block; Throttle that requests are
  spaced across processes; Opening that a started slice passed every gate and that its armed length, which bounds new work
  only, ends before the capture of P3, and that a failed start releases the lock, even when its clean-up fails. TransportSamples applies the theorems to a concrete slice.

  \<^bold>\<open>Daily rows\<close> (\<open>reconciliation.py\<close>, \<open>validation.py\<close>, \<open>db.py\<close>, \<open>market_capture/derive.py\<close>): DailyRow reconciles the raw
  observations of a session field by field, assembles the canonical row, validates it against the previous close and
  writes it; DailyFacts shows where each value of a row comes from, when a day is flagged and that the order of the
  observations does not matter. CaptureState is the state of a capture run (\<open>completeness.py\<close>): a succeeded run is complete.

  \<^bold>\<open>Printed figures\<close> (\<open>financial_values.py\<close>): Figures is the strict parser of one table cell, its regular expressions
  written as scanners, and the merging of letter-spaced fragments; FiguresFacts shows that a printed figure reads back as
  itself and that merging keeps the characters of a line.

  \<^bold>\<open>Issuer identity and the hold rule\<close> (\<open>issuer_identity.py\<close>, \<open>issuer_store.py\<close>, \<open>backfill_discovery/identity.py\<close>): Issuer is the
  decision on a security and on a filing, IssuerStore the append-only store of observations, issuers and decisions, Holds
  the hold rule, the owner's resolutions and the link pass. IssuerFacts, IssuerHistory and IssuerSamples show that
  securities evidenced for one secId agree on their issuer, that a security with a failure of its own is in conflict in
  every reachable store, and how a decision once made can come back; HoldFacts that a recorded batch newly disputes a
  secId only by contradicting evidence.

  \<^bold>\<open>Discovery of the backfill\<close> (\<open>backfill_discovery/\<close>, \<open>financial_backfill/keys.py\<close>): Plan (the months of the window, natural
  keys, the plan and its identity), Closure (settings, the state after an attempt, the items of the plan, closure, and the
  passes that record issuer evidence, which an operator may re-queue (\<open>backfill_ops/actions.py\<close>)) and Recovery (one governed request for one item, the run of a slice, the
  reconciliation that opens one). PlanFacts shows that the planned months cover the window exactly and that equal
  fingerprints are equal plans; RecoveryFacts the claim discipline of a slice and that the reconciliation cannot fail and
  leaves nothing stranded; ClosureFacts that planning is idempotent, what closes a plan, and that its evidence is recorded
  once, or again as the same pass when an operator re-queues it. ClosureSamples applies them to a small plan.

  \<^bold>\<open>Documents of the backfill\<close> (\<open>backfill_documents/\<close>): Documents (dispositions of F2's records, the gate, F5 runs as
  evidence, planning) and DocumentSlice (the passes of one document with their transactions, each of which may fail, the run of a slice,
  reconciliation). DocumentFacts shows that a document gets one legal chain of events that ends in the reported outcome, or
  stays in flight when a transaction fails, and is persisted only after a verified pass; DocumentPlanning that planning and reconciliation cannot fail and what they leave.

  \<^bold>\<open>The capture archive of P2\<close> (\<open>market_capture/archive.py\<close>, \<open>ops/spool.py\<close>, the request loop of
  \<open>market_capture/http.py\<close>): MarketArchive holds the spool, the journal as the text of its file, the rows and bodies in
  PostgreSQL, recovery, one attempt, the request loop and one process. Each write may fail or be cut short, a process may
  die after any of them. MarketArchiveFacts shows what every step keeps: journals with torn lines still read back every
  whole one, every spooled line loads, numbers stay ahead. ArchiveHistory states the promises over every sequence of
  processes (\<open>archives\<close>): rows are evidence, recovery completes, an attempt the database refused is recovered however much later
  (given journal lines that were written whole), every request has its row; and shows on a concrete codec that the hypotheses can hold. The constraints of the tables appear as refused writes.

  \<^bold>\<open>Conventions.\<close> Errors are values of \<open>res\<close>. What is not under \<open>src/\<close> is an argument: digests (with injectivity as a named
  hypothesis only where keys must identify), \<open>json.loads\<close>, date parsers. Clocks are integer microseconds. No recursion
  needs fuel: loops over dates and windows have termination proofs (\<open>candidate_dates\<close>, \<open>windows_loop\<close>), the
  rest is structural. Behaviours of the outside world (CSE, PostgreSQL, clocks) are quantified over: a theorem about a
  request or a wake-up holds for all their answers. State machines are inductive relations (\<open>ledgers\<close>, \<open>slice_run\<close>,
  \<open>throttle_run\<close>, \<open>reached\<close>, \<open>archives\<close>, \<open>schedules\<close>, \<open>discovery_history\<close>) and their invariants are proved by rule induction.

  \<^bold>\<open>Not modelled.\<close> PDF text, words and tables (\<open>pdf_words.py\<close>, \<open>document_text.py\<close>, \<open>statement_extraction.py\<close>) and the F3
  classification (\<open>report_classification.py\<close>), which are heuristics over regular expressions and layout; the SQL stores,
  their codecs and preflights (\<open>financial_truth_store\<close>, \<open>financial_f4_store\<close>, \<open>financial_asof/store.py\<close>), which move rows;
  HTTP and browser transports, F2's streaming and temporary files; of the discovery and document stages of the backfill the
  preflights, the F1 run rows (\<open>f1_cycle.py\<close>), anomalies, the orphan sweep, signals and the closing of a lease; its F6 jobs and
  operator interface (\<open>backfill_f6\<close>, \<open>backfill_ops\<close>, but for the re-queue of a link pass); which requests a P2 run plans, its events and exports; operations (\<open>ops\<close>), command
  lines and one-off investigations.
  Message texts, logging and heartbeats are left out of the modelled parts, and floating-point seconds are exact.
\<close>

end
